(* ===== verification/Py_Float.thy ===== *)
theory Py_Float
  imports Complex_Main "HOL-Library.Log_Nat"
begin

text \<open>
  Python floats as the services use them. A float is a rational number that is rounded to the
  53-bit binary64 format after every operation (round half to even); infinities, subnormals and
  overflow do not occur, since the values are durations and byte counts. The theory defines the
  rounding \<open>double_of\<close>, Python's \<open>timedelta.total_seconds\<close> and \<open>math.ceil\<close> on it, and proves
  that the ceiling of a duration in seconds is exact for durations below \<open>2 ^ 32\<close> seconds.
\<close>

section \<open>Rounding to binary64\<close>

definition round_half_even :: "rat \<Rightarrow> int" where
  "round_half_even y =
     (let f = \<lfloor>y\<rfloor>; d = y - of_int f
      in if d < 1 / 2 then f else if 1 / 2 < d then f + 1 else if even f then f else f + 1)"

text \<open>The binary exponent of a positive rational, from the bit lengths of its two parts.\<close>

definition ilog2 :: "rat \<Rightarrow> int" where
  "ilog2 x =
     (let (p, q) = quotient_of x; k = bitlen p - bitlen q
      in if (2::rat) powi k \<le> x then k else k - 1)"

definition double_ulp :: "rat \<Rightarrow> rat" where
  "double_ulp x = 2 powi (ilog2 \<bar>x\<bar> - 52)"

definition double_of :: "rat \<Rightarrow> rat" where
  "double_of x =
     (if x = 0 then 0 else of_int (round_half_even (x / double_ulp x)) * double_ulp x)"

lemma round_half_even_error: "\<bar>of_int (round_half_even y) - y\<bar> \<le> 1 / 2"
proof -
  have "of_int \<lfloor>y\<rfloor> \<le> y" "y < of_int \<lfloor>y\<rfloor> + 1" by linarith+
  then show ?thesis by (auto simp: round_half_even_def Let_def abs_le_iff)
qed

lemma round_half_even_le_int:
  assumes "y \<le> of_int m" shows "round_half_even y \<le> m"
proof (cases "y = of_int m")
  case True
  then show ?thesis by (simp add: round_half_even_def Let_def)
next
  case False
  with assms have "\<lfloor>y\<rfloor> < m" by linarith
  then show ?thesis by (auto simp: round_half_even_def Let_def)
qed

lemma round_half_even_ge_int:
  assumes "of_int m \<le> y" shows "m \<le> round_half_even y"
proof -
  from assms have "m \<le> \<lfloor>y\<rfloor>" by linarith
  then show ?thesis by (auto simp: round_half_even_def Let_def)
qed

text \<open>\<^const>\<open>ilog2\<close> is the floor of the binary logarithm.\<close>

lemma bitlen_powi_bounds:
  assumes "0 < p"
  shows "(2::rat) powi (bitlen p - 1) \<le> of_int p" and "of_int p < (2::rat) powi bitlen p"
proof -
  have b: "0 < bitlen p" using assms bitlen_ge_iff_power [of 1 p] by simp
  have lo: "2 ^ nat (bitlen p - 1) \<le> p" and hi: "p < 2 ^ nat (bitlen p)"
    using bitlen_bounds [OF assms] by auto
  from lo have "of_int (2 ^ nat (bitlen p - 1)) \<le> (of_int p :: rat)" by (simp only: of_int_le_iff)
  then show "(2::rat) powi (bitlen p - 1) \<le> of_int p"
    using b by (simp add: power_int_def)
  from hi have "(of_int p :: rat) < of_int (2 ^ nat (bitlen p))" by (simp only: of_int_less_iff)
  then show "of_int p < (2::rat) powi bitlen p"
    using b by (simp add: power_int_def)
qed

lemma ilog2_bounds:
  assumes "0 < x"
  shows "2 powi ilog2 x \<le> x" and "x < 2 powi (ilog2 x + 1)"
proof -
  obtain p q where pq: "quotient_of x = (p, q)" by (cases "quotient_of x")
  have q: "0 < q" by (rule quotient_of_denom_pos [OF pq])
  have x: "x = of_int p / of_int q" by (rule quotient_of_div [OF pq])
  with assms q have p: "0 < p" by (simp add: zero_less_divide_iff)
  let ?k = "bitlen p - bitlen q"
  have pb: "(2::rat) powi (bitlen p - 1) \<le> of_int p" "of_int p < (2::rat) powi bitlen p"
    by (rule bitlen_powi_bounds [OF p])+
  have qb: "(2::rat) powi (bitlen q - 1) \<le> of_int q" "of_int q < (2::rat) powi bitlen q"
    by (rule bitlen_powi_bounds [OF q])+
  have qpos: "(0::rat) < of_int q" using q by simp
  have "2 powi (?k - 1) * of_int q \<le> 2 powi (?k - 1) * (2::rat) powi bitlen q"
    by (rule mult_left_mono) (use qb in auto)
  also have "\<dots> = 2 powi (bitlen p - 1)" by (simp flip: power_int_add)
  also note pb(1)
  finally have lo: "2 powi (?k - 1) \<le> x" using qpos by (simp add: x field_simps)
  have "of_int p < (2::rat) powi bitlen p" by (rule pb(2))
  also have "\<dots> = 2 powi (?k + 1) * 2 powi (bitlen q - 1)" by (simp flip: power_int_add)
  also have "\<dots> \<le> 2 powi (?k + 1) * of_int q" by (rule mult_left_mono) (use qb in auto)
  finally have hi: "x < 2 powi (?k + 1)" using qpos by (simp add: x field_simps)
  show "2 powi ilog2 x \<le> x" using lo by (simp add: ilog2_def pq Let_def)
  show "x < 2 powi (ilog2 x + 1)" using hi by (simp add: ilog2_def pq Let_def)
qed

lemma ilog2_le:
  assumes "0 < x" and "x < 2 powi n"
  shows "ilog2 x < n"
proof (rule ccontr)
  assume "\<not> ilog2 x < n"
  then have "(2::rat) powi n \<le> 2 powi ilog2 x" by (intro power_int_increasing) auto
  with ilog2_bounds(1) [OF assms(1)] assms(2) show False by linarith
qed

lemma double_ulp_pos [simp]: "0 < double_ulp x"
  by (simp add: double_ulp_def)

lemma double_ulp_nonzero [simp]: "double_ulp x \<noteq> 0"
  by (rule less_imp_neq [OF double_ulp_pos, symmetric])

lemma double_of_error: "\<bar>double_of x - x\<bar> \<le> double_ulp x / 2"
proof (cases "x = 0")
  case True
  then show ?thesis by (simp add: double_of_def less_imp_le)
next
  case False
  let ?u = "double_ulp x"
  have "double_of x - x = (of_int (round_half_even (x / ?u)) - x / ?u) * ?u"
    using False by (simp add: double_of_def field_simps)
  then have "\<bar>double_of x - x\<bar> = \<bar>of_int (round_half_even (x / ?u)) - x / ?u\<bar> * ?u"
    by (simp add: abs_mult abs_of_pos)
  also have "\<dots> \<le> 1 / 2 * ?u"
    by (rule mult_right_mono [OF round_half_even_error]) (simp add: less_imp_le)
  finally show ?thesis by simp
qed

text \<open>Rounding keeps the sign and never crosses an integer.\<close>

lemma double_of_0 [simp]: "double_of 0 = 0"
  by (simp add: double_of_def)

lemma double_of_nonneg: "0 \<le> x \<Longrightarrow> 0 \<le> double_of x"
  using round_half_even_ge_int [of 0 "x / double_ulp x"]
  by (simp add: double_of_def less_imp_le)

lemma double_of_pos:
  assumes "0 < x" shows "0 < double_of x"
proof -
  have "(1::rat) \<le> 2 powi 52" by simp
  also have "\<dots> = 2 powi ilog2 x / double_ulp x"
    using assms by (simp add: double_ulp_def power_int_diff)
  also have "\<dots> \<le> x / double_ulp x"
    by (rule divide_right_mono [OF ilog2_bounds(1) [OF assms]]) (simp add: less_imp_le)
  finally have "1 \<le> round_half_even (x / double_ulp x)"
    by (intro round_half_even_ge_int) simp
  with assms show ?thesis by (simp add: double_of_def)
qed

lemma integer_over_ulp:
  assumes "ilog2 \<bar>x\<bar> \<le> 52"
  obtains k where "of_int n / double_ulp x = of_int k"
proof -
  have "of_int n / double_ulp x = of_int n * 2 powi (52 - ilog2 \<bar>x\<bar>)"
    by (simp add: double_ulp_def power_int_diff)
  also have "\<dots> = of_int (n * 2 ^ nat (52 - ilog2 \<bar>x\<bar>))"
    using assms by (simp add: power_int_def)
  finally show ?thesis by (rule that)
qed

lemma double_of_le_int:
  assumes "ilog2 \<bar>x\<bar> \<le> 52" and "x \<le> of_int n"
  shows "double_of x \<le> of_int n"
proof (cases "x = 0")
  case True
  with assms(2) show ?thesis by simp
next
  case False
  obtain k where k: "of_int n / double_ulp x = of_int k"
    by (rule integer_over_ulp [OF assms(1)])
  have "x / double_ulp x \<le> of_int k"
    unfolding k [symmetric] by (rule divide_right_mono [OF assms(2)]) (simp add: less_imp_le)
  then have "round_half_even (x / double_ulp x) \<le> k" by (rule round_half_even_le_int)
  then have "of_int (round_half_even (x / double_ulp x)) * double_ulp x \<le> of_int k * double_ulp x"
    by (intro mult_right_mono) (simp_all add: less_imp_le)
  also have "of_int k * double_ulp x = of_int n" by (simp flip: k)
  finally show ?thesis using False by (simp add: double_of_def)
qed

section \<open>Durations\<close>

text \<open>
  A \<open>timedelta\<close> is a whole number of microseconds. \<open>total_seconds\<close> divides it by
  \<open>10 ** 6\<close> (one correctly rounded division), and \<open>math.ceil\<close> takes the ceiling of that float.
\<close>

definition total_seconds :: "int \<Rightarrow> rat" where
  "total_seconds us = double_of (of_int us / 1000000)"

definition ceil_total_seconds :: "int \<Rightarrow> int" where
  "ceil_total_seconds us = \<lceil>total_seconds us\<rceil>"

text \<open>Integer true division \<open>a / b\<close> of Python: correctly rounded.\<close>

definition py_truediv :: "int \<Rightarrow> int \<Rightarrow> rat" where
  "py_truediv a b = double_of (of_int a / of_int b)"

lemma total_seconds_nonneg: "0 \<le> us \<Longrightarrow> 0 \<le> total_seconds us"
  by (simp add: total_seconds_def double_of_nonneg)

lemma ceil_total_seconds_pos: "0 < us \<Longrightarrow> 1 \<le> ceil_total_seconds us"
  using double_of_pos [of "of_int us / 1000000"]
  by (simp add: ceil_total_seconds_def total_seconds_def)

lemma ceil_total_seconds_exact:
  assumes "0 < us" and "us < 2 ^ 32 * 1000000"
  shows "ceil_total_seconds us = \<lceil>(of_int us :: rat) / 1000000\<rceil>"
proof -
  let ?x = "(of_int us :: rat) / 1000000"
  let ?n = "\<lceil>?x\<rceil>"
  have pos: "0 < ?x" using assms(1) by simp
  have "(of_int us :: rat) < of_int (2 ^ 32 * 1000000)"
    using assms(2) by (simp only: of_int_less_iff)
  then have small: "?x < 2 powi 32" by simp
  have log: "ilog2 \<bar>?x\<bar> < 32" using ilog2_le [OF pos small] pos by simp
  have upper: "double_of ?x \<le> of_int ?n"
    by (rule double_of_le_int) (use log in auto)
  have "double_ulp ?x \<le> 2 powi (-21)"
    unfolding double_ulp_def by (rule power_int_increasing) (use log in linarith, simp)
  then have "\<bar>double_of ?x - ?x\<bar> \<le> 2 powi (-21) / 2"
    using double_of_error [of ?x] by linarith
  moreover have "(2::rat) powi (-21) / 2 < 1 / 1000000" by (simp add: power_int_def power_divide)
  ultimately have near: "?x - 1 / 1000000 < double_of ?x" by linarith
  have "of_int ((?n - 1) * 1000000) < (of_int us :: rat)"
    using ceiling_correct [of ?x] by (simp add: field_simps)
  then have "(?n - 1) * 1000000 + 1 \<le> us" by (simp only: of_int_less_iff)
  then have "(of_int ((?n - 1) * 1000000 + 1) :: rat) \<le> of_int us" by (simp only: of_int_le_iff)
  then have "of_int (?n - 1) \<le> ?x - 1 / 1000000" by (simp add: field_simps)
  with near have "of_int (?n - 1) < double_of ?x" by linarith
  with upper show ?thesis
    unfolding ceil_total_seconds_def total_seconds_def by (intro ceiling_unique) auto
qed

text \<open>Hence waiting for the reported number of seconds is long enough, and one second less is not.\<close>

lemma ceil_total_seconds_bounds:
  assumes "0 < us" and "us < 2 ^ 32 * 1000000"
  shows "us \<le> ceil_total_seconds us * 1000000" and "(ceil_total_seconds us - 1) * 1000000 < us"
proof -
  let ?n = "\<lceil>(of_int us :: rat) / 1000000\<rceil>"
  have "(of_int us :: rat) / 1000000 \<le> of_int ?n" "of_int ?n - 1 < (of_int us :: rat) / 1000000"
    using ceiling_correct [of "(of_int us :: rat) / 1000000"] by auto
  then have "(of_int us :: rat) \<le> of_int (?n * 1000000)"
    "of_int ((?n - 1) * 1000000) < (of_int us :: rat)"
    by (simp_all only: pos_divide_le_eq pos_less_divide_eq of_int_mult of_int_diff) simp_all
  then have "us \<le> ?n * 1000000" "(?n - 1) * 1000000 < us"
    by (simp_all only: of_int_le_iff of_int_less_iff)
  then show "us \<le> ceil_total_seconds us * 1000000" "(ceil_total_seconds us - 1) * 1000000 < us"
    by (simp_all add: ceil_total_seconds_exact [OF assms])
qed

end
