(* ===== verification/Prelude.thy ===== *)
theory Prelude
  imports Py_Float "HOL-Library.Product_Lexorder"
begin

text \<open>
  What the components share: the shape of a service call (an error or a value, and the state
  after it), database transactions with rollback, tables as lists of rows with a key, Python
  datetimes as whole microseconds, the character classes of the validation patterns, and three
  interfaces: a keyed row store, a transition system with an invariant, and its extension by a
  preorder that every step follows.
\<close>

section \<open>Service calls and transactions\<close>

text \<open>
  A call returns \<open>Inl e\<close> when the code raises \<open>e\<close> and \<open>Inr x\<close> when it returns \<open>x\<close>, with the
  database it leaves. \<open>transaction body\<close> is \<open>with sessions.begin() as session: body\<close>: when the
  body raises, every write of the body is rolled back.
\<close>

type_synonym ('e, 'a, 's) outcome = "('e + 'a) \<times> 's"

definition transaction :: "('s \<Rightarrow> ('e, 'a, 's) outcome) \<Rightarrow> 's \<Rightarrow> ('e, 'a, 's) outcome" where
  "transaction body s = (case body s of (Inl e, _) \<Rightarrow> (Inl e, s) | (Inr x, s') \<Rightarrow> (Inr x, s'))"

lemma transaction_Inl: "transaction body s = (Inl e, s') \<Longrightarrow> s' = s"
  by (auto simp: transaction_def split: prod.splits sum.splits)

lemma transaction_Inr: "transaction body s = (Inr x, s') \<longleftrightarrow> body s = (Inr x, s')"
  by (auto simp: transaction_def split: prod.splits sum.splits)

lemma fst_transaction [simp]: "fst (transaction body s) = fst (body s)"
  by (auto simp: transaction_def split: prod.splits sum.splits)

lemma transaction_raise [simp]: "body s = (Inl e, s') \<Longrightarrow> transaction body s = (Inl e, s)"
  by (simp add: transaction_def)

lemma transaction_return [simp]: "body s = (Inr x, s') \<Longrightarrow> transaction body s = (Inr x, s')"
  by (simp add: transaction_def)

lemma transaction_cases:
  obtains (Raise) e where "transaction body s = (Inl e, s)"
  | (Return) x s' where "transaction body s = (Inr x, s')" "body s = (Inr x, s')"
  by (cases "body s"; cases "fst (body s)") (auto simp: transaction_def)

section \<open>Time\<close>

text \<open>
  A UTC datetime is its number of microseconds since the epoch, and a \<open>timedelta\<close> a number of
  microseconds: the resolution of Python's datetimes and of the database's timestamps. Naive
  datetimes, which the code reads as UTC, are the same numbers.
\<close>

type_synonym time = int

abbreviation seconds :: "int \<Rightarrow> time" where
  "seconds n \<equiv> n * 1000000"

abbreviation minutes :: "int \<Rightarrow> time" where
  "minutes n \<equiv> n * 60000000"

abbreviation hours :: "int \<Rightarrow> time" where
  "hours n \<equiv> n * 3600000000"

abbreviation days :: "int \<Rightarrow> time" where
  "days n \<equiv> n * 86400000000"

text \<open>A UUID is its 128-bit value.\<close>

type_synonym uuid = nat

section \<open>Tables\<close>

text \<open>
  A table is the list of its rows. \<open>find_row\<close> reads the row with a key, \<open>put_row\<close> writes the
  columns of an existing row back (the ORM's \<open>UPDATE\<close> by primary key), \<open>update_where\<close> is
  \<open>UPDATE ... WHERE\<close>, \<open>delete_where\<close> is \<open>DELETE ... WHERE\<close>, and an insertion appends.
\<close>

definition find_row :: "('r \<Rightarrow> 'k) \<Rightarrow> 'k \<Rightarrow> 'r list \<Rightarrow> 'r option" where
  "find_row key k rows = find (\<lambda>r. key r = k) rows"

definition put_row :: "('r \<Rightarrow> 'k) \<Rightarrow> 'r \<Rightarrow> 'r list \<Rightarrow> 'r list" where
  "put_row key r rows = map (\<lambda>x. if key x = key r then r else x) rows"

definition update_where :: "('r \<Rightarrow> bool) \<Rightarrow> ('r \<Rightarrow> 'r) \<Rightarrow> 'r list \<Rightarrow> 'r list" where
  "update_where p f rows = map (\<lambda>r. if p r then f r else r) rows"

definition delete_where :: "('r \<Rightarrow> bool) \<Rightarrow> 'r list \<Rightarrow> 'r list" where
  "delete_where p rows = filter (\<lambda>r. \<not> p r) rows"

lemma find_row_Nil [simp]: "find_row key k [] = None"
  by (simp add: find_row_def)

lemma find_row_Cons [simp]:
  "find_row key k (r # rows) = (if key r = k then Some r else find_row key k rows)"
  by (simp add: find_row_def)

lemma find_row_append [simp]:
  "find_row key k (rows @ rows') =
     (case find_row key k rows of None \<Rightarrow> find_row key k rows' | Some r \<Rightarrow> Some r)"
  by (induction rows) auto

lemma find_row_SomeD: "find_row key k rows = Some r \<Longrightarrow> r \<in> set rows \<and> key r = k"
  by (induction rows) (auto split: if_splits)

lemma find_row_None_iff: "find_row key k rows = None \<longleftrightarrow> k \<notin> key ` set rows"
  by (induction rows) auto

lemma find_row_distinct:
  "distinct (map key rows) \<Longrightarrow> r \<in> set rows \<Longrightarrow> find_row key (key r) rows = Some r"
  by (induction rows) (auto simp: rev_image_eqI)

lemma put_row_Nil [simp]: "put_row key r [] = []"
  by (simp add: put_row_def)

lemma put_row_Cons [simp]:
  "put_row key r (x # rows) = (if key x = key r then r else x) # put_row key r rows"
  by (simp add: put_row_def)

lemma find_put_same:
  "find_row key k rows = Some r0 \<Longrightarrow> key r = k \<Longrightarrow> find_row key k (put_row key r rows) = Some r"
  by (induction rows) (auto split: if_splits)

lemma find_put_other:
  "key r \<noteq> k \<Longrightarrow> find_row key k (put_row key r rows) = find_row key k rows"
  by (induction rows) auto

lemma find_put:
  "find_row key k (put_row key r rows) =
     (if key r = k \<and> find_row key k rows \<noteq> None then Some r else find_row key k rows)"
  by (induction rows) auto

lemma map_key_put [simp]: "map key (put_row key r rows) = map key rows"
  by (simp add: put_row_def)

lemma length_put [simp]: "length (put_row key r rows) = length rows"
  by (simp add: put_row_def)

lemma set_put_subset: "set (put_row key r rows) \<subseteq> insert r (set rows)"
  by (auto simp: put_row_def)

lemma set_put:
  assumes "distinct (map key rows)" and "find_row key (key r) rows = Some r0"
  shows "set (put_row key r rows) = insert r (set rows - {r0})"
proof -
  have "r0 \<in> set rows" "key r0 = key r" using find_row_SomeD [OF assms(2)] by auto
  moreover have "key x = key r \<longleftrightarrow> x = r0" if "x \<in> set rows" for x
    using that find_row_distinct [OF assms(1) that] assms(2) \<open>key r0 = key r\<close> by auto
  ultimately have "set (put_row key r rows) = (\<lambda>x. if x = r0 then r else x) ` set rows"
    unfolding put_row_def set_map by (intro image_cong) simp_all
  with \<open>r0 \<in> set rows\<close> show ?thesis by auto
qed

lemma map_put_other:
  "(\<And>x. x \<in> set rows \<Longrightarrow> key x = key r \<Longrightarrow> f x = f r) \<Longrightarrow> map f (put_row key r rows) = map f rows"
  by (simp add: put_row_def)

lemma find_row_update_where:
  assumes "\<And>r. key (f r) = key r"
  shows "find_row key k (update_where p f rows) =
    map_option (\<lambda>r. if p r then f r else r) (find_row key k rows)"
  using assms by (induction rows) (auto simp: update_where_def)

lemma map_key_update_where [simp]:
  "(\<And>r. key (f r) = key r) \<Longrightarrow> map key (update_where p f rows) = map key rows"
  by (simp add: update_where_def)

text \<open>\<open>ORDER BY ... LIMIT 1\<close>: the first row in the order, ties broken by the table's order.\<close>

definition first_by :: "('r \<Rightarrow> 'o :: linorder) \<Rightarrow> 'r list \<Rightarrow> 'r option" where
  "first_by ord rows = (case sort_key ord rows of [] \<Rightarrow> None | r # _ \<Rightarrow> Some r)"

lemma first_by_None [simp]: "first_by ord rows = None \<longleftrightarrow> rows = []"
  by (auto simp: first_by_def split: list.splits)
    (metis length_0_conv length_sort list.size(3))

lemma first_by_SomeD:
  assumes "first_by ord rows = Some r"
  shows "r \<in> set rows" and "\<And>x. x \<in> set rows \<Longrightarrow> ord r \<le> ord x"
proof -
  from assms obtain rs where rs: "sort_key ord rows = r # rs"
    by (auto simp: first_by_def split: list.splits)
  have set: "set (r # rs) = set rows" by (metis rs set_sort)
  then show "r \<in> set rows" by auto
  fix x assume "x \<in> set rows"
  moreover have "sorted (map ord (r # rs))" by (metis rs sorted_sort_key)
  ultimately show "ord r \<le> ord x" using set by auto
qed

section \<open>Character classes of the validation patterns\<close>

definition char_in :: "char \<Rightarrow> char \<Rightarrow> char \<Rightarrow> bool" where
  "char_in lo hi c \<longleftrightarrow> (of_char lo :: nat) \<le> of_char c \<and> (of_char c :: nat) \<le> of_char hi"

definition is_digit :: "char \<Rightarrow> bool" where
  "is_digit c \<longleftrightarrow> char_in (CHR ''0'') (CHR ''9'') c"

definition is_lower :: "char \<Rightarrow> bool" where
  "is_lower c \<longleftrightarrow> char_in (CHR ''a'') (CHR ''z'') c"

definition is_upper :: "char \<Rightarrow> bool" where
  "is_upper c \<longleftrightarrow> char_in (CHR ''A'') (CHR ''Z'') c"

definition is_alnum :: "char \<Rightarrow> bool" where
  "is_alnum c \<longleftrightarrow> is_digit c \<or> is_lower c \<or> is_upper c"

definition is_hex :: "char \<Rightarrow> bool" where
  "is_hex c \<longleftrightarrow> is_digit c \<or> char_in (CHR ''a'') (CHR ''f'') c"

text \<open>\<open>re.fullmatch\<close> of a pattern \<open>[first][rest]{lo,hi}\<close>.\<close>

definition fullmatch :: "(char \<Rightarrow> bool) \<Rightarrow> (char \<Rightarrow> bool) \<Rightarrow> nat \<Rightarrow> nat \<Rightarrow> string \<Rightarrow> bool" where
  "fullmatch first rest lo hi s =
     (case s of [] \<Rightarrow> False
      | c # cs \<Rightarrow> first c \<and> list_all rest cs \<and> lo \<le> length cs \<and> length cs \<le> hi)"

text \<open>\<open>re.fullmatch\<close> of \<open>[a-f0-9]{n}\<close>.\<close>

definition hex_string :: "nat \<Rightarrow> string \<Rightarrow> bool" where
  "hex_string n s \<longleftrightarrow> length s = n \<and> list_all is_hex s"

lemmas char_class_defs =
  char_in_def is_digit_def is_lower_def is_upper_def is_alnum_def is_hex_def

section \<open>Interfaces\<close>

text \<open>A store of rows read and written by key: what a service relies on of its table.\<close>

locale row_store =
  fixes get :: "'k \<Rightarrow> 's \<Rightarrow> 'r option"
    and put :: "'r \<Rightarrow> 's \<Rightarrow> 's"
    and key :: "'r \<Rightarrow> 'k"
  assumes get_put_same: "get (key r) s \<noteq> None \<Longrightarrow> get (key r) (put r s) = Some r"
    and get_put_other: "key r \<noteq> k \<Longrightarrow> get k (put r s) = get k s"
    and get_key: "get k s = Some r \<Longrightarrow> key r = k"
begin

lemma get_put:
  "get k s \<noteq> None \<Longrightarrow> get k (put r s) = (if key r = k then Some r else get k s)"
  by (auto simp: get_put_same get_put_other)

lemma present_put: "get k (put r s) = None \<longleftrightarrow> get k s = None" if "get (key r) s \<noteq> None"
  using that by (cases "key r = k") (auto simp: get_put_same get_put_other)

lemma frame_fold:
  "k \<notin> key ` set rs \<Longrightarrow> get k (fold put rs s) = get k s"
  by (induction rs arbitrary: s) (auto simp: get_put_other)

end

text \<open>A transition system with an invariant of its steps.\<close>

locale invariant_system =
  fixes init :: "'s \<Rightarrow> bool"
    and step :: "'s \<Rightarrow> 's \<Rightarrow> bool"
    and inv :: "'s \<Rightarrow> bool"
  assumes init_inv: "init s \<Longrightarrow> inv s"
    and step_inv: "step s t \<Longrightarrow> inv s \<Longrightarrow> inv t"
begin

lemma steps_inv: "step\<^sup>*\<^sup>* s t \<Longrightarrow> inv s \<Longrightarrow> inv t"
  by (induction rule: rtranclp_induct) (auto intro: step_inv)

lemma reachable_inv: "init s \<Longrightarrow> step\<^sup>*\<^sup>* s t \<Longrightarrow> inv t"
  by (blast intro: init_inv steps_inv)

end

text \<open>Steps that, under the invariant, follow a preorder on states: what a later state keeps.\<close>

locale history_system = invariant_system init step inv
  for init :: "'s \<Rightarrow> bool" and step :: "'s \<Rightarrow> 's \<Rightarrow> bool" and inv :: "'s \<Rightarrow> bool" +
  fixes later :: "'s \<Rightarrow> 's \<Rightarrow> bool"
  assumes later_refl: "later s s"
    and later_trans: "later s t \<Longrightarrow> later t u \<Longrightarrow> later s u"
    and step_later: "step s t \<Longrightarrow> inv s \<Longrightarrow> later s t"
begin

lemma steps_later:
  assumes "step\<^sup>*\<^sup>* s t" and "inv s"
  shows "later s t"
  using assms
proof (induction rule: rtranclp_induct)
  case base
  show ?case by (rule later_refl)
next
  case (step t u)
  then show ?case by (meson later_trans step_later steps_inv)
qed

end

end
