(* ===== verification/State_Machine.thy ===== *)
theory State_Machine
  imports Prelude
begin

text \<open>
  The job state machine of \<^verbatim>\<open>backend/db/state_machine.py\<close>: the statuses, the transition table
  built the way the module builds it (a comprehension over the normal flow, then the failure
  targets, then the terminal rows), and the two functions that consult it. The lemmas show the
  table is total, that it is the relation one reads off the lifecycle, and that every transition
  raises a rank, so a job passes through at most thirteen statuses and never returns to one.
\<close>

section \<open>Statuses\<close>

datatype job_status =
    DRAFT | UPLOADING | VALIDATING_INPUT | QUEUED | PREPARING | SFM | DENSE_RECONSTRUCTION
  | MESHING | TEXTURING | VALIDATING_OUTPUT | EVALUATING | SUCCEEDED | FAILED_INPUT
  | FAILED_PIPELINE | FAILED_EVALUATION | CANCELLED | EXPIRED

text \<open>The members in declaration order, and the string each of them is stored as.\<close>

definition all_statuses :: "job_status list" where
  "all_statuses =
     [DRAFT, UPLOADING, VALIDATING_INPUT, QUEUED, PREPARING, SFM, DENSE_RECONSTRUCTION,
      MESHING, TEXTURING, VALIDATING_OUTPUT, EVALUATING, SUCCEEDED, FAILED_INPUT,
      FAILED_PIPELINE, FAILED_EVALUATION, CANCELLED, EXPIRED]"

fun status_value :: "job_status \<Rightarrow> string" where
  "status_value DRAFT = ''draft''"
| "status_value UPLOADING = ''uploading''"
| "status_value VALIDATING_INPUT = ''validating_input''"
| "status_value QUEUED = ''queued''"
| "status_value PREPARING = ''preparing''"
| "status_value SFM = ''sfm''"
| "status_value DENSE_RECONSTRUCTION = ''dense_reconstruction''"
| "status_value MESHING = ''meshing''"
| "status_value TEXTURING = ''texturing''"
| "status_value VALIDATING_OUTPUT = ''validating_output''"
| "status_value EVALUATING = ''evaluating''"
| "status_value SUCCEEDED = ''succeeded''"
| "status_value FAILED_INPUT = ''failed_input''"
| "status_value FAILED_PIPELINE = ''failed_pipeline''"
| "status_value FAILED_EVALUATION = ''failed_evaluation''"
| "status_value CANCELLED = ''cancelled''"
| "status_value EXPIRED = ''expired''"

text \<open>The constructor call \<open>JobStatus(value)\<close>; \<open>None\<close> is its \<open>ValueError\<close>.\<close>

definition job_status_of :: "string \<Rightarrow> job_status option" where
  "job_status_of v = find (\<lambda>s. status_value s = v) all_statuses"

lemma job_status_of_value [simp]: "job_status_of (status_value s) = Some s"
  by (cases s) (simp_all add: job_status_of_def all_statuses_def)

lemma status_value_inject [simp]: "status_value s = status_value t \<longleftrightarrow> s = t"
  by (metis job_status_of_value option.inject)

lemma all_statuses_UNIV: "set all_statuses = UNIV"
proof -
  have "s \<in> set all_statuses" for s by (cases s) (simp_all add: all_statuses_def)
  then show ?thesis by auto
qed

section \<open>The transition table\<close>

definition terminal_statuses :: "job_status set" where
  "terminal_statuses =
     {SUCCEEDED, FAILED_INPUT, FAILED_PIPELINE, FAILED_EVALUATION, CANCELLED, EXPIRED}"

definition normal_flow :: "job_status list" where
  "normal_flow =
     [DRAFT, UPLOADING, VALIDATING_INPUT, QUEUED, PREPARING, SFM, DENSE_RECONSTRUCTION,
      MESHING, TEXTURING, VALIDATING_OUTPUT, EVALUATING, SUCCEEDED]"

type_synonym transition_table = "job_status \<Rightarrow> job_status set option"

definition flow_transitions :: transition_table where
  "flow_transitions = map_of (map (\<lambda>(s, n). (s, {n, CANCELLED})) (zip normal_flow (tl normal_flow)))"

text \<open>\<open>ALLOWED_TRANSITIONS[s] |= targets\<close>.\<close>

definition add_targets :: "job_status set \<Rightarrow> job_status \<Rightarrow> transition_table \<Rightarrow> transition_table" where
  "add_targets targets s m = m(s := map_option (\<lambda>ts. ts \<union> targets) (m s))"

definition failing_stages :: "job_status list" where
  "failing_stages =
     [PREPARING, SFM, DENSE_RECONSTRUCTION, MESHING, TEXTURING, VALIDATING_OUTPUT]"

definition allowed_transitions :: transition_table where
  "allowed_transitions =
     (let m0 = flow_transitions;
          m1 = add_targets {FAILED_INPUT} UPLOADING m0;
          m2 = add_targets {FAILED_INPUT} VALIDATING_INPUT m1;
          m3 = fold (add_targets {FAILED_PIPELINE}) failing_stages m2;
          m4 = add_targets {FAILED_EVALUATION} EVALUATING m3;
          m5 = m4(SUCCEEDED \<mapsto> {EXPIRED})
      in (\<lambda>s. if s \<in> terminal_statuses - {SUCCEEDED} then Some {} else m5 s))"

text \<open>
  The lookup of a missing key would raise \<open>KeyError\<close>; \<open>allowed_transitions_total\<close> below shows
  that no key is missing, so the first branch is never taken.
\<close>

definition can_transition :: "job_status \<Rightarrow> job_status \<Rightarrow> bool" where
  "can_transition current target =
     (case allowed_transitions current of None \<Rightarrow> False | Some targets \<Rightarrow> target \<in> targets)"

datatype transition_error = InvalidTransition job_status job_status

definition assert_transition :: "job_status \<Rightarrow> job_status \<Rightarrow> transition_error + unit" where
  "assert_transition current target =
     (if \<not> can_transition current target then Inl (InvalidTransition current target) else Inr ())"

lemmas transition_table_defs =
  allowed_transitions_def flow_transitions_def normal_flow_def add_targets_def failing_stages_def
  terminal_statuses_def

lemma allowed_transitions_simps:
  "allowed_transitions DRAFT = Some {UPLOADING, CANCELLED}"
  "allowed_transitions UPLOADING = Some {VALIDATING_INPUT, CANCELLED, FAILED_INPUT}"
  "allowed_transitions VALIDATING_INPUT = Some {QUEUED, CANCELLED, FAILED_INPUT}"
  "allowed_transitions QUEUED = Some {PREPARING, CANCELLED}"
  "allowed_transitions PREPARING = Some {SFM, CANCELLED, FAILED_PIPELINE}"
  "allowed_transitions SFM = Some {DENSE_RECONSTRUCTION, CANCELLED, FAILED_PIPELINE}"
  "allowed_transitions DENSE_RECONSTRUCTION = Some {MESHING, CANCELLED, FAILED_PIPELINE}"
  "allowed_transitions MESHING = Some {TEXTURING, CANCELLED, FAILED_PIPELINE}"
  "allowed_transitions TEXTURING = Some {VALIDATING_OUTPUT, CANCELLED, FAILED_PIPELINE}"
  "allowed_transitions VALIDATING_OUTPUT = Some {EVALUATING, CANCELLED, FAILED_PIPELINE}"
  "allowed_transitions EVALUATING = Some {SUCCEEDED, CANCELLED, FAILED_EVALUATION}"
  "allowed_transitions SUCCEEDED = Some {EXPIRED}"
  "allowed_transitions FAILED_INPUT = Some {}"
  "allowed_transitions FAILED_PIPELINE = Some {}"
  "allowed_transitions FAILED_EVALUATION = Some {}"
  "allowed_transitions CANCELLED = Some {}"
  "allowed_transitions EXPIRED = Some {}"
  by (auto simp: transition_table_defs Let_def)

lemma allowed_transitions_total: "allowed_transitions s \<noteq> None"
  by (cases s) (simp_all add: allowed_transitions_simps)

lemma can_transition_iff:
  "can_transition c t \<longleftrightarrow> t \<in> the (allowed_transitions c)"
  using allowed_transitions_total [of c] by (auto simp: can_transition_def)

lemma terminal_statuses_simps [simp]:
  "DRAFT \<notin> terminal_statuses" "UPLOADING \<notin> terminal_statuses"
  "VALIDATING_INPUT \<notin> terminal_statuses" "QUEUED \<notin> terminal_statuses"
  "PREPARING \<notin> terminal_statuses" "SFM \<notin> terminal_statuses"
  "DENSE_RECONSTRUCTION \<notin> terminal_statuses" "MESHING \<notin> terminal_statuses"
  "TEXTURING \<notin> terminal_statuses" "VALIDATING_OUTPUT \<notin> terminal_statuses"
  "EVALUATING \<notin> terminal_statuses" "SUCCEEDED \<in> terminal_statuses"
  "FAILED_INPUT \<in> terminal_statuses" "FAILED_PIPELINE \<in> terminal_statuses"
  "FAILED_EVALUATION \<in> terminal_statuses" "CANCELLED \<in> terminal_statuses"
  "EXPIRED \<in> terminal_statuses"
  by (simp_all add: terminal_statuses_def)

section \<open>The lifecycle as one reads it\<close>

text \<open>
  The specification: a job moves to the next status of the normal flow, may be cancelled from any
  status that is not terminal, fails into the class of its phase, and expires only after success.
\<close>

definition follows :: "job_status \<Rightarrow> job_status \<Rightarrow> bool" where
  "follows c t \<longleftrightarrow> (c, t) \<in> set (zip normal_flow (tl normal_flow))"

definition failure_of :: "job_status \<Rightarrow> job_status option" where
  "failure_of c =
     (if c \<in> {UPLOADING, VALIDATING_INPUT} then Some FAILED_INPUT
      else if c \<in> set failing_stages then Some FAILED_PIPELINE
      else if c = EVALUATING then Some FAILED_EVALUATION else None)"

definition lifecycle_step :: "job_status \<Rightarrow> job_status \<Rightarrow> bool" where
  "lifecycle_step c t \<longleftrightarrow>
     (if c \<in> terminal_statuses then c = SUCCEEDED \<and> t = EXPIRED
      else follows c t \<or> t = CANCELLED \<or> failure_of c = Some t)"

text \<open>The rank of a status: its place in the flow, with the dead ends at the top.\<close>

fun status_rank :: "job_status \<Rightarrow> nat" where
  "status_rank DRAFT = 0"
| "status_rank UPLOADING = 1"
| "status_rank VALIDATING_INPUT = 2"
| "status_rank QUEUED = 3"
| "status_rank PREPARING = 4"
| "status_rank SFM = 5"
| "status_rank DENSE_RECONSTRUCTION = 6"
| "status_rank MESHING = 7"
| "status_rank TEXTURING = 8"
| "status_rank VALIDATING_OUTPUT = 9"
| "status_rank EVALUATING = 10"
| "status_rank SUCCEEDED = 11"
| "status_rank _ = 12"

lemma status_rank_le: "status_rank s \<le> 12"
  by (cases s) simp_all

lemma can_transition_rank: "can_transition c t \<Longrightarrow> status_rank c < status_rank t"
  by (cases c) (auto simp: can_transition_iff allowed_transitions_simps)

lemma can_transition_irrefl [simp]: "\<not> can_transition s s"
  using can_transition_rank by blast

lemma terminal_no_transition:
  "can_transition c t \<Longrightarrow> c \<in> terminal_statuses \<Longrightarrow> c = SUCCEEDED \<and> t = EXPIRED"
  by (cases c) (auto simp: can_transition_iff allowed_transitions_simps)

lemma can_transition_steps_rank:
  "can_transition\<^sup>*\<^sup>* c t \<Longrightarrow> c = t \<or> status_rank c < status_rank t"
  by (induction rule: rtranclp_induct) (auto dest: can_transition_rank)

text \<open>A history: a list of statuses in which each is an allowed transition from the one before.\<close>

fun status_history :: "job_status list \<Rightarrow> bool" where
  "status_history [] = True"
| "status_history [s] = True"
| "status_history (s # t # ss) = (can_transition s t \<and> status_history (t # ss))"

lemma status_history_sorted: "status_history ss \<Longrightarrow> sorted_wrt (<) (map status_rank ss)"
proof (induction ss rule: status_history.induct)
  case (3 s t ss)
  then have "status_rank s < status_rank t" "sorted_wrt (<) (map status_rank (t # ss))"
    by (auto dest: can_transition_rank)
  then show ?case by auto
qed simp_all

lemma status_history_bounded:
  assumes "status_history ss"
  shows "distinct ss" and "length ss \<le> 13"
proof -
  have d: "distinct (map status_rank ss)"
    using status_history_sorted [OF assms] strict_sorted_iff by blast
  then show "distinct ss" by (simp add: distinct_map)
  have "length ss = card (set (map status_rank ss))" using distinct_card [OF d] by simp
  also have "\<dots> \<le> card {..12::nat}"
    by (rule card_mono) (auto simp: status_rank_le)
  finally show "length ss \<le> 13" by simp
qed

section \<open>Properties\<close>

text \<open>
  The transition table the module builds by mutation is exactly the lifecycle: the next status
  of the normal flow, cancellation from every non-terminal status, the failure of the phase, and
  expiry after success; no lookup in it can raise \<open>KeyError\<close>.
\<close>

theorem transition_table_is_lifecycle:
  "can_transition c t = lifecycle_step c t \<and> allowed_transitions c \<noteq> None"
proof -
  have "can_transition c t = lifecycle_step c t"
    by (cases c; cases t)
      (simp_all add: can_transition_iff allowed_transitions_simps lifecycle_step_def follows_def
        failure_of_def normal_flow_def failing_stages_def)
  then show ?thesis by (simp add: allowed_transitions_total)
qed

text \<open>
  Every history of a job that the state machine accepts is finite and short: no status
  occurs twice, and there are at most thirteen of them.
\<close>

theorem job_history_terminates:
  assumes "status_history ss"
  shows "distinct ss \<and> length ss \<le> 13"
  using status_history_bounded [OF assms] by simp

theorem job_history_terminates_witness:
  "distinct (normal_flow @ [EXPIRED]) \<and> length (normal_flow @ [EXPIRED]) \<le> 13"
  by (rule job_history_terminates)
    (simp add: normal_flow_def can_transition_iff allowed_transitions_simps)

end
