(* ===== verification/Models.thy ===== *)
theory Models
  imports State_Machine
begin

text \<open>
  The tables of \<^verbatim>\<open>backend/db/models.py\<close>: one record per mapped class with its columns, the table's
  check constraints as a predicate on rows, and the database as a record of the tables. A nullable
  column is an \<open>option\<close>; a status column has the type of the statuses it can hold; the other
  enumerated columns keep their strings. Reading and writing a row by primary key interpret the
  interface \<open>row_store\<close>.
\<close>

section \<open>Users and authentication\<close>

record user =
  usr_id :: uuid
  usr_username :: string
  usr_email :: string
  usr_password_hash :: string
  usr_role :: string
  usr_is_active :: bool
  usr_email_verified :: bool
  usr_created_at :: time
  usr_updated_at :: time
  usr_last_login_at :: "time option"

definition user_row_ok :: "user \<Rightarrow> bool" where
  "user_row_ok u \<longleftrightarrow> usr_role u \<in> {''user'', ''admin''}"

record refresh_session =
  rs_id :: uuid
  rs_user_id :: uuid
  rs_family_id :: uuid
  rs_token_sha256 :: string
  rs_created_at :: time
  rs_expires_at :: time
  rs_last_used_at :: "time option"
  rs_revoked_at :: "time option"
  rs_replaced_by_id :: "uuid option"

record auth_event =
  ae_id :: uuid
  ae_action :: string
  ae_outcome :: string
  ae_user_id :: "uuid option"
  ae_refresh_session_id :: "uuid option"
  ae_identifier_fingerprint :: "string option"
  ae_client_ip_fingerprint :: "string option"
  ae_user_agent_sha256 :: "string option"
  ae_reason_code :: "string option"
  ae_occurred_at :: time

definition auth_event_row_ok :: "auth_event \<Rightarrow> bool" where
  "auth_event_row_ok e \<longleftrightarrow>
     ae_action e \<in> {''register'', ''login'', ''refresh'', ''logout'', ''email_verification'',
       ''password_reset''} \<and>
     ae_outcome e \<in> {''success'', ''failure'', ''blocked'', ''reuse''}"

record auth_throttle_bucket =
  atb_key_hash :: string
  atb_dimension :: string
  atb_failure_count :: int
  atb_window_started_at :: time
  atb_blocked_until :: "time option"
  atb_updated_at :: time

definition auth_throttle_row_ok :: "auth_throttle_bucket \<Rightarrow> bool" where
  "auth_throttle_row_ok b \<longleftrightarrow>
     atb_dimension b \<in> {''account'', ''ip''} \<and> 0 \<le> atb_failure_count b"

record auth_registration_bucket =
  arb_key_hash :: string
  arb_dimension :: string
  arb_attempt_count :: int
  arb_window_started_at :: time
  arb_blocked_until :: "time option"
  arb_updated_at :: time

definition auth_registration_row_ok :: "auth_registration_bucket \<Rightarrow> bool" where
  "auth_registration_row_ok b \<longleftrightarrow>
     arb_dimension b \<in> {''identity'', ''ip''} \<and> 0 \<le> arb_attempt_count b"

record auth_action_token =
  aat_id :: uuid
  aat_user_id :: uuid
  aat_purpose :: string
  aat_token_sha256 :: string
  aat_created_at :: time
  aat_expires_at :: time
  aat_consumed_at :: "time option"
  aat_revoked_at :: "time option"

definition auth_action_token_row_ok :: "auth_action_token \<Rightarrow> bool" where
  "auth_action_token_row_ok t \<longleftrightarrow> aat_purpose t \<in> {''email_verification'', ''password_reset''}"

record auth_action_request_bucket =
  aab_key_hash :: string
  aab_purpose :: string
  aab_dimension :: string
  aab_attempt_count :: int
  aab_window_started_at :: time
  aab_blocked_until :: "time option"
  aab_updated_at :: time

definition auth_action_request_row_ok :: "auth_action_request_bucket \<Rightarrow> bool" where
  "auth_action_request_row_ok b \<longleftrightarrow>
     aab_purpose b \<in> {''email_verification'', ''password_reset''} \<and>
     aab_dimension b \<in> {''identity'', ''ip''} \<and> 0 \<le> aab_attempt_count b"

section \<open>Rate and transfer limits\<close>

record api_rate_limit_bucket =
  arl_key_hash :: string
  arl_request_count :: int
  arl_window_started_at :: time
  arl_updated_at :: time

definition api_rate_limit_row_ok :: "api_rate_limit_bucket \<Rightarrow> bool" where
  "api_rate_limit_row_ok b \<longleftrightarrow> 0 \<le> arl_request_count b"

record user_transfer_bucket =
  utb_id :: uuid
  utb_user_id :: uuid
  utb_direction :: string
  utb_capacity_bytes :: int
  utb_available_bytes :: int
  utb_updated_at :: time

definition user_transfer_bucket_row_ok :: "user_transfer_bucket \<Rightarrow> bool" where
  "user_transfer_bucket_row_ok b \<longleftrightarrow>
     utb_direction b \<in> {''upload'', ''download''} \<and> 0 < utb_capacity_bytes b \<and>
     0 \<le> utb_available_bytes b \<and> utb_available_bytes b \<le> utb_capacity_bytes b"

record user_transfer_lease =
  utl_id :: uuid
  utl_user_id :: uuid
  utl_direction :: string
  utl_reserved_bytes :: int
  utl_acquired_at :: time
  utl_expires_at :: time

definition user_transfer_lease_row_ok :: "user_transfer_lease \<Rightarrow> bool" where
  "user_transfer_lease_row_ok l \<longleftrightarrow>
     utl_direction l \<in> {''upload'', ''download''} \<and> 0 \<le> utl_reserved_bytes l \<and>
     utl_acquired_at l < utl_expires_at l"

section \<open>Uploads\<close>

datatype upload_status = Uploading | Submitted | Upload_cancelled

record job_upload =
  up_id :: uuid
  up_user_id :: uuid
  up_status :: upload_status
  up_idempotency_key :: string
  up_image_count :: int
  up_total_bytes :: int
  up_created_at :: time
  up_updated_at :: time
  up_submitted_at :: "time option"
  up_cancelled_at :: "time option"
  up_cancellation_reason :: "string option"
  up_storage_cleaned_at :: "time option"

definition job_upload_row_ok :: "job_upload \<Rightarrow> bool" where
  "job_upload_row_ok u \<longleftrightarrow>
     0 \<le> up_image_count u \<and> up_image_count u \<le> 300 \<and> 0 \<le> up_total_bytes u \<and>
     (up_status u = Upload_cancelled \<and> up_cancelled_at u \<noteq> None \<and>
        up_cancellation_reason u \<in> {Some ''user'', Some ''expired''} \<or>
      up_status u \<noteq> Upload_cancelled \<and> up_cancelled_at u = None \<and>
        up_cancellation_reason u = None \<and> up_storage_cleaned_at u = None)"

record job_upload_image =
  img_id :: uuid
  img_upload_id :: uuid
  img_sequence :: int
  img_stored_name :: string
  img_original_name :: string
  img_content_type :: string
  img_size_bytes :: int
  img_sha256 :: string
  img_width :: int
  img_height :: int
  img_created_at :: time

definition job_upload_image_row_ok :: "job_upload_image \<Rightarrow> bool" where
  "job_upload_image_row_ok i \<longleftrightarrow>
     0 \<le> img_sequence i \<and> 0 < img_size_bytes i \<and> 0 < img_width i \<and> 0 < img_height i"

section \<open>Jobs, leases and their audit\<close>

record task_action_event =
  tae_id :: uuid
  tae_action :: string
  tae_outcome :: string
  tae_user_id :: "uuid option"
  tae_job_id :: uuid
  tae_execution_mode :: string
  tae_reason_code :: "string option"
  tae_occurred_at :: time

definition task_action_event_row_ok :: "task_action_event \<Rightarrow> bool" where
  "task_action_event_row_ok e \<longleftrightarrow>
     tae_action e \<in> {''job_submitted'', ''cancel_requested''} \<and>
     tae_outcome e \<in> {''success'', ''blocked'', ''reuse''} \<and>
     tae_execution_mode e \<in> {''simulated'', ''real''}"

record reconstruction_job =
  job_id :: uuid
  job_user_id :: uuid
  job_status :: job_status
  job_execution_mode :: string
  job_priority :: int
  job_attempt :: int
  job_progress :: int
  job_cancel_requested :: bool
  job_pipeline_tag :: string
  job_pipeline_commit :: string
  job_config_sha256 :: string
  job_input_manifest_sha256 :: string
  job_idempotency_key :: string
  job_error_code :: "string option"
  job_created_at :: time
  job_queued_at :: time
  job_started_at :: "time option"
  job_finished_at :: "time option"
  job_storage_reserved_bytes :: int
  job_storage_released_at :: "time option"
  job_storage_cleaned_at :: "time option"
  job_storage_cleanup_attempted_at :: "time option"
  job_storage_cleanup_attempts :: int
  job_storage_cleanup_last_error :: "string option"
  job_input_cleaned_at :: "time option"
  job_runtime_cleaned_at :: "time option"
  job_artifacts_cleaned_at :: "time option"
  job_retention_cleanup_attempted_at :: "time option"
  job_retention_cleanup_attempts :: int
  job_retention_cleanup_last_error :: "string option"
  job_updated_at :: time
  job_version :: int

definition reconstruction_job_row_ok :: "reconstruction_job \<Rightarrow> bool" where
  "reconstruction_job_row_ok j \<longleftrightarrow>
     job_execution_mode j \<in> {''simulated'', ''real''} \<and>
     0 \<le> job_progress j \<and> job_progress j \<le> 100 \<and> 1 \<le> job_attempt j \<and>
     0 \<le> job_storage_reserved_bytes j \<and>
     (job_storage_released_at j = None \<or> job_storage_cleaned_at j \<noteq> None \<or>
        job_input_cleaned_at j \<noteq> None \<and> job_runtime_cleaned_at j \<noteq> None \<and>
        job_artifacts_cleaned_at j \<noteq> None) \<and>
     0 \<le> job_storage_cleanup_attempts j \<and>
     (job_storage_cleaned_at j = None \<or>
        job_status j \<in> {FAILED_INPUT, FAILED_PIPELINE, FAILED_EVALUATION, CANCELLED} \<and>
        0 < job_storage_cleanup_attempts j) \<and>
     (job_storage_cleaned_at j = None \<or> job_storage_cleanup_last_error j = None) \<and>
     0 \<le> job_retention_cleanup_attempts j \<and>
     (job_input_cleaned_at j = None \<or> job_status j \<in> {SUCCEEDED, EXPIRED}) \<and>
     (job_runtime_cleaned_at j = None \<or> job_status j \<in> {SUCCEEDED, EXPIRED}) \<and>
     (job_artifacts_cleaned_at j = None \<or> job_status j = EXPIRED)"

datatype run_status = Run_running | Run_succeeded | Run_failed

text \<open>The JSON report of a retention run: one entry per tier, as the cleaner builds it.\<close>

record tier_report =
  tr_enabled :: bool
  tr_retention_days :: "int option"
  tr_cutoff :: "time option"
  tr_candidates :: nat
  tr_cleaned :: nat
  tr_already_absent :: nat
  tr_failed :: nat
  tr_skipped :: nat

record retention_report =
  rr_mode :: string
  rr_batch_size_per_tier :: int
  rr_tiers :: "(string \<times> tier_report) list"

record success_retention_run =
  srr_id :: uuid
  srr_trigger :: string
  srr_mode :: string
  srr_status :: run_status
  srr_input_retention_days :: "int option"
  srr_runtime_retention_days :: "int option"
  srr_artifact_retention_days :: "int option"
  srr_batch_size :: int
  srr_started_at :: time
  srr_finished_at :: "time option"
  srr_report :: "retention_report option"
  srr_error_code :: "string option"

definition optional_days_ok :: "int option \<Rightarrow> bool" where
  "optional_days_ok d \<longleftrightarrow> (case d of None \<Rightarrow> True | Some n \<Rightarrow> 1 \<le> n \<and> n \<le> 3650)"

definition success_retention_run_row_ok :: "success_retention_run \<Rightarrow> bool" where
  "success_retention_run_row_ok r \<longleftrightarrow>
     srr_trigger r \<in> {''manual'', ''scheduled''} \<and> srr_mode r \<in> {''dry_run'', ''execute''} \<and>
     optional_days_ok (srr_input_retention_days r) \<and>
     optional_days_ok (srr_runtime_retention_days r) \<and>
     optional_days_ok (srr_artifact_retention_days r) \<and>
     1 \<le> srr_batch_size r \<and> srr_batch_size r \<le> 1000 \<and>
     (case srr_status r of
        Run_running \<Rightarrow> srr_finished_at r = None \<and> srr_report r = None \<and> srr_error_code r = None
      | Run_succeeded \<Rightarrow> srr_finished_at r \<noteq> None \<and> srr_report r \<noteq> None \<and> srr_error_code r = None
      | Run_failed \<Rightarrow> srr_finished_at r \<noteq> None \<and> srr_report r = None \<and> srr_error_code r \<noteq> None)"

record admin_role_change_event =
  arc_id :: uuid
  arc_actor_kind :: string
  arc_actor_user_id :: "uuid option"
  arc_target_user_id :: uuid
  arc_previous_role :: string
  arc_new_role :: string
  arc_reason_code :: string
  arc_occurred_at :: time

definition admin_role_change_row_ok :: "admin_role_change_event \<Rightarrow> bool" where
  "admin_role_change_row_ok e \<longleftrightarrow>
     arc_actor_kind e \<in> {''maintenance_cli'', ''admin_api''} \<and>
     arc_previous_role e \<in> {''user'', ''admin''} \<and> arc_new_role e \<in> {''user'', ''admin''} \<and>
     arc_previous_role e \<noteq> arc_new_role e"

record worker_lease =
  wl_resource_key :: string
  wl_job_id :: "uuid option"
  wl_worker_id :: "string option"
  wl_lease_token :: "uuid option"
  wl_leased_at :: "time option"
  wl_heartbeat_at :: "time option"
  wl_expires_at :: "time option"
  wl_updated_at :: time

definition worker_lease_row_ok :: "worker_lease \<Rightarrow> bool" where
  "worker_lease_row_ok l \<longleftrightarrow>
     wl_job_id l = None \<and> wl_worker_id l = None \<and> wl_lease_token l = None \<and>
       wl_leased_at l = None \<and> wl_heartbeat_at l = None \<and> wl_expires_at l = None \<or>
     wl_job_id l \<noteq> None \<and> wl_worker_id l \<noteq> None \<and> wl_lease_token l \<noteq> None \<and>
       wl_leased_at l \<noteq> None \<and> wl_heartbeat_at l \<noteq> None \<and> wl_expires_at l \<noteq> None"

section \<open>The database\<close>

record database =
  db_users :: "user list"
  db_refresh_sessions :: "refresh_session list"
  db_auth_events :: "auth_event list"
  db_throttle_buckets :: "auth_throttle_bucket list"
  db_registration_buckets :: "auth_registration_bucket list"
  db_action_tokens :: "auth_action_token list"
  db_action_request_buckets :: "auth_action_request_bucket list"
  db_rate_limit_buckets :: "api_rate_limit_bucket list"
  db_transfer_buckets :: "user_transfer_bucket list"
  db_transfer_leases :: "user_transfer_lease list"
  db_uploads :: "job_upload list"
  db_upload_images :: "job_upload_image list"
  db_task_action_events :: "task_action_event list"
  db_jobs :: "reconstruction_job list"
  db_retention_runs :: "success_retention_run list"
  db_role_changes :: "admin_role_change_event list"
  db_worker_leases :: "worker_lease list"

definition empty_database :: database where
  "empty_database =
     \<lparr>db_users = [], db_refresh_sessions = [], db_auth_events = [], db_throttle_buckets = [],
      db_registration_buckets = [], db_action_tokens = [], db_action_request_buckets = [],
      db_rate_limit_buckets = [], db_transfer_buckets = [], db_transfer_leases = [],
      db_uploads = [], db_upload_images = [], db_task_action_events = [], db_jobs = [],
      db_retention_runs = [], db_role_changes = [], db_worker_leases = []\<rparr>"

text \<open>
  Reading a row by primary key (\<open>SELECT ... WHERE id = k\<close>, \<open>session.get\<close>) and flushing the
  changed columns of a loaded row.
\<close>

definition get_user :: "uuid \<Rightarrow> database \<Rightarrow> user option" where
  "get_user k db = find_row usr_id k (db_users db)"

definition put_user :: "user \<Rightarrow> database \<Rightarrow> database" where
  "put_user u db = db\<lparr>db_users := put_row usr_id u (db_users db)\<rparr>"

definition get_job :: "uuid \<Rightarrow> database \<Rightarrow> reconstruction_job option" where
  "get_job k db = find_row job_id k (db_jobs db)"

definition put_job :: "reconstruction_job \<Rightarrow> database \<Rightarrow> database" where
  "put_job j db = db\<lparr>db_jobs := put_row job_id j (db_jobs db)\<rparr>"

definition get_lease :: "string \<Rightarrow> database \<Rightarrow> worker_lease option" where
  "get_lease k db = find_row wl_resource_key k (db_worker_leases db)"

definition put_lease :: "worker_lease \<Rightarrow> database \<Rightarrow> database" where
  "put_lease l db = db\<lparr>db_worker_leases := put_row wl_resource_key l (db_worker_leases db)\<rparr>"

definition get_upload :: "uuid \<Rightarrow> database \<Rightarrow> job_upload option" where
  "get_upload k db = find_row up_id k (db_uploads db)"

definition put_upload :: "job_upload \<Rightarrow> database \<Rightarrow> database" where
  "put_upload u db = db\<lparr>db_uploads := put_row up_id u (db_uploads db)\<rparr>"

lemmas row_access_defs =
  get_user_def put_user_def get_job_def put_job_def get_lease_def put_lease_def get_upload_def
  put_upload_def

interpretation user_rows: row_store get_user put_user usr_id
  by unfold_locales (auto simp: row_access_defs find_put dest: find_row_SomeD)

interpretation job_rows: row_store get_job put_job job_id
  by unfold_locales (auto simp: row_access_defs find_put dest: find_row_SomeD)

interpretation lease_rows: row_store get_lease put_lease wl_resource_key
  by unfold_locales (auto simp: row_access_defs find_put dest: find_row_SomeD)

interpretation upload_rows: row_store get_upload put_upload up_id
  by unfold_locales (auto simp: row_access_defs find_put dest: find_row_SomeD)

text \<open>Accesses to one table leave the others alone.\<close>

lemma row_access_frame [simp]:
  "get_job k (put_lease l db) = get_job k db"
  "get_job k (put_user u db) = get_job k db"
  "get_job k (put_upload p db) = get_job k db"
  "get_lease r (put_job j db) = get_lease r db"
  "get_lease r (put_user u db) = get_lease r db"
  "get_lease r (put_upload p db) = get_lease r db"
  "get_user k (put_job j db) = get_user k db"
  "get_user k (put_lease l db) = get_user k db"
  "get_user k (put_upload p db) = get_user k db"
  "get_upload k (put_job j db) = get_upload k db"
  "get_upload k (put_lease l db) = get_upload k db"
  "get_upload k (put_user u db) = get_upload k db"
  by (simp_all add: row_access_defs)

lemma put_tables [simp]:
  "db_jobs (put_job j db) = put_row job_id j (db_jobs db)"
  "db_jobs (put_lease l db) = db_jobs db"
  "db_jobs (put_upload p db) = db_jobs db"
  "db_worker_leases (put_job j db) = db_worker_leases db"
  "db_worker_leases (put_lease l db) = put_row wl_resource_key l (db_worker_leases db)"
  "db_worker_leases (put_upload p db) = db_worker_leases db"
  "db_users (put_job j db) = db_users db"
  "db_users (put_lease l db) = db_users db"
  "db_users (put_upload p db) = db_users db"
  "db_uploads (put_job j db) = db_uploads db"
  "db_uploads (put_lease l db) = db_uploads db"
  "db_uploads (put_upload p db) = put_row up_id p (db_uploads db)"
  "db_task_action_events (put_job j db) = db_task_action_events db"
  "db_task_action_events (put_lease l db) = db_task_action_events db"
  "db_task_action_events (put_upload p db) = db_task_action_events db"
  "db_upload_images (put_job j db) = db_upload_images db"
  "db_upload_images (put_lease l db) = db_upload_images db"
  "db_upload_images (put_upload p db) = db_upload_images db"
  by (simp_all add: row_access_defs)

text \<open>
  Inserting a job: \<open>None\<close> is the database's \<open>IntegrityError\<close>, for a primary key or an idempotency
  key in use, a user that does not exist, or a failed check constraint.
\<close>

definition insert_job :: "reconstruction_job \<Rightarrow> database \<Rightarrow> database option" where
  "insert_job j db =
     (if job_id j \<in> job_id ` set (db_jobs db) \<or>
         job_idempotency_key j \<in> job_idempotency_key ` set (db_jobs db) \<or>
         get_user (job_user_id j) db = None \<or> \<not> reconstruction_job_row_ok j
      then None
      else Some (db\<lparr>db_jobs := db_jobs db @ [j]\<rparr>))"

text \<open>
  Appending an audit row. Its key is a fresh \<open>uuid4\<close>, so the insertion cannot collide.
\<close>

definition add_task_event :: "task_action_event \<Rightarrow> database \<Rightarrow> database" where
  "add_task_event e db = db\<lparr>db_task_action_events := db_task_action_events db @ [e]\<rparr>"

lemma add_task_event_frame [simp]:
  "get_job k (add_task_event e db) = get_job k db"
  "get_lease r (add_task_event e db) = get_lease r db"
  "get_user u (add_task_event e db) = get_user u db"
  "get_upload p (add_task_event e db) = get_upload p db"
  "db_jobs (add_task_event e db) = db_jobs db"
  "db_worker_leases (add_task_event e db) = db_worker_leases db"
  "db_users (add_task_event e db) = db_users db"
  "db_uploads (add_task_event e db) = db_uploads db"
  "db_upload_images (add_task_event e db) = db_upload_images db"
  by (simp_all add: row_access_defs add_task_event_def)

text \<open>A user and a database that only knows this user, for the examples of the other theories.\<close>

definition demo_user :: user where
  "demo_user =
     \<lparr>usr_id = 1, usr_username = ''alice'', usr_email = ''alice@example.org'',
      usr_password_hash = ''h'', usr_role = ''user'', usr_is_active = True,
      usr_email_verified = True, usr_created_at = 0, usr_updated_at = 0, usr_last_login_at = None\<rparr>"

definition demo_init :: database where
  "demo_init = empty_database\<lparr>db_users := [demo_user]\<rparr>"

lemma demo_init_tables [simp]:
  "db_users demo_init = [demo_user]" "db_jobs demo_init = []" "db_worker_leases demo_init = []"
  "db_transfer_buckets demo_init = []" "db_transfer_leases demo_init = []"
  "db_uploads demo_init = []" "db_upload_images demo_init = []"
  "get_user 1 demo_init = Some demo_user" "usr_id demo_user = 1"
  by (simp_all add: demo_init_def empty_database_def get_user_def demo_user_def)

end
