(* ===== verification/Job_Queue.thy ===== *)
theory Job_Queue
  imports Models
begin

text \<open>
  The transactional job queue of \<^verbatim>\<open>backend/db/queue.py\<close>. Every method of \<^verbatim>\<open>JobQueue\<close> is one
  transaction on the database, with the database's clock (\<open>now\<close>) and fresh \<open>uuid4\<close> values as
  arguments. The lemmas show the contract of the lease: one lease row per resource, a running job
  held by exactly one lease, and no effect of any call made with a claim that was lost.
\<close>

section \<open>Errors, claims and validation\<close>

datatype queue_error =
    Value_error string
  | Invalid_transition job_status job_status
  | Job_not_found uuid
  | Lease_lost
  | Queue_conflict
  | Integrity_error

record job_claim =
  cl_job_id :: uuid
  cl_worker_id :: string
  cl_resource_key :: string
  cl_lease_token :: uuid
  cl_expires_at :: time
  cl_status :: job_status
  cl_attempt :: int
  cl_execution_mode :: string
  cl_recovered :: bool

record lease_heartbeat =
  hb_expires_at :: time
  hb_cancel_requested :: bool

definition valid_worker_id :: "string \<Rightarrow> bool" where
  "valid_worker_id = fullmatch is_alnum (\<lambda>c. is_alnum c \<or> c \<in> set ''._-'') 0 63"

definition valid_resource_key :: "string \<Rightarrow> bool" where
  "valid_resource_key = fullmatch is_alnum (\<lambda>c. is_alnum c \<or> c \<in> set ''._:-'') 0 63"

definition valid_lease_seconds :: "int \<Rightarrow> bool" where
  "valid_lease_seconds n \<longleftrightarrow> 5 \<le> n \<and> n \<le> 3600"

definition valid_sha256 :: "string \<Rightarrow> bool" where
  "valid_sha256 = hex_string 64"

definition valid_error_code :: "string \<Rightarrow> bool" where
  "valid_error_code = fullmatch is_upper (\<lambda>c. is_upper c \<or> is_digit c \<or> c = CHR ''_'') 2 63"

section \<open>Lease helpers\<close>

definition is_active :: "worker_lease \<Rightarrow> time \<Rightarrow> bool" where
  "is_active lease now = (case wl_expires_at lease of None \<Rightarrow> False | Some e \<Rightarrow> now < e)"

definition clear_lease :: "worker_lease \<Rightarrow> time \<Rightarrow> worker_lease" where
  "clear_lease lease now =
     lease\<lparr>wl_job_id := None, wl_worker_id := None, wl_lease_token := None, wl_leased_at := None,
       wl_heartbeat_at := None, wl_expires_at := None, wl_updated_at := now\<rparr>"

definition lock_owned_lease ::
  "job_claim \<Rightarrow> time \<Rightarrow> database \<Rightarrow> queue_error + worker_lease \<times> reconstruction_job" where
  "lock_owned_lease claim now db =
     (case get_lease (cl_resource_key claim) db of
        None \<Rightarrow> Inl Lease_lost
      | Some lease \<Rightarrow>
          if wl_job_id lease \<noteq> Some (cl_job_id claim) \<or>
             wl_worker_id lease \<noteq> Some (cl_worker_id claim) \<or>
             wl_lease_token lease \<noteq> Some (cl_lease_token claim) \<or> \<not> is_active lease now
          then Inl Lease_lost
          else
            (case get_job (cl_job_id claim) db of
               None \<Rightarrow> Inl Lease_lost
             | Some job \<Rightarrow>
                 if job_status job \<in> terminal_statuses then Inl Lease_lost
                 else Inr (lease, job)))"

definition recover_expired_job :: "worker_lease \<Rightarrow> database \<Rightarrow> reconstruction_job option" where
  "recover_expired_job lease db =
     (case wl_job_id lease of
        None \<Rightarrow> None
      | Some k \<Rightarrow>
          (case get_job k db of
             None \<Rightarrow> None
           | Some job \<Rightarrow> if job_status job \<in> terminal_statuses then None else Some job))"

text \<open>
  The queue query. \<open>locked\<close> tells which job rows other transactions hold locked: PostgreSQL skips
  them (\<open>FOR UPDATE SKIP LOCKED\<close>). The order is priority first (highest), then the time of
  queueing, then of creation; ties fall to the table's order.
\<close>

definition queue_order :: "reconstruction_job \<Rightarrow> int \<times> time \<times> time" where
  "queue_order j = (- job_priority j, job_queued_at j, job_created_at j)"

definition claimable :: "(uuid \<Rightarrow> bool) \<Rightarrow> string option \<Rightarrow> reconstruction_job \<Rightarrow> bool" where
  "claimable locked mode j \<longleftrightarrow>
     job_status j = QUEUED \<and> \<not> job_cancel_requested j \<and>
     (case mode of None \<Rightarrow> True | Some m \<Rightarrow> job_execution_mode j = m) \<and> \<not> locked (job_id j)"

definition next_queued_job ::
  "(uuid \<Rightarrow> bool) \<Rightarrow> string option \<Rightarrow> database \<Rightarrow> reconstruction_job option" where
  "next_queued_job locked mode db = first_by queue_order (filter (claimable locked mode) (db_jobs db))"

section \<open>Resources and enqueueing\<close>

definition ensure_resource :: "string \<Rightarrow> time \<Rightarrow> database \<Rightarrow> (queue_error, unit, database) outcome" where
  "ensure_resource resource_key now db =
     (if \<not> valid_resource_key resource_key
      then (Inl (Value_error ''resource_key has an invalid format''), db)
      else if get_lease resource_key db = None
      then (Inr (), db\<lparr>db_worker_leases := db_worker_leases db @
        [\<lparr>wl_resource_key = resource_key, wl_job_id = None, wl_worker_id = None,
          wl_lease_token = None, wl_leased_at = None, wl_heartbeat_at = None,
          wl_expires_at = None, wl_updated_at = now\<rparr>]\<rparr>)
      else (Inr (), db))"

record enqueue_request =
  eq_job_id :: uuid
  eq_user_id :: uuid
  eq_execution_mode :: string
  eq_pipeline_tag :: string
  eq_pipeline_commit :: string
  eq_config_sha256 :: string
  eq_input_manifest_sha256 :: string
  eq_idempotency_key :: string
  eq_priority :: int
  eq_attempt :: int
  eq_storage_reserved_bytes :: int

text \<open>The validation of \<open>enqueue_in_session\<close>, in its order.\<close>

definition enqueue_invalid :: "enqueue_request \<Rightarrow> string option" where
  "enqueue_invalid q =
     (if eq_execution_mode q \<notin> {''simulated'', ''real''}
      then Some ''execution_mode must be simulated or real''
      else if eq_attempt q < 1 then Some ''attempt must be at least 1''
      else if eq_storage_reserved_bytes q < 0 then Some ''storage_reserved_bytes must not be negative''
      else if \<not> valid_sha256 (eq_config_sha256 q) then Some ''config_sha256 must be a lowercase SHA-256 digest''
      else if \<not> valid_sha256 (eq_input_manifest_sha256 q)
      then Some ''input_manifest_sha256 must be a lowercase SHA-256 digest''
      else if \<not> valid_sha256 (eq_idempotency_key q)
      then Some ''idempotency_key must be a lowercase SHA-256 digest''
      else if \<not> hex_string 40 (eq_pipeline_commit q)
      then Some ''pipeline_commit must be a lowercase 40-character Git SHA''
      else None)"

definition queued_job :: "enqueue_request \<Rightarrow> time \<Rightarrow> reconstruction_job" where
  "queued_job q now =
     \<lparr>job_id = eq_job_id q, job_user_id = eq_user_id q, job_status = QUEUED,
      job_execution_mode = eq_execution_mode q, job_priority = eq_priority q,
      job_attempt = eq_attempt q, job_progress = 0, job_cancel_requested = False,
      job_pipeline_tag = eq_pipeline_tag q, job_pipeline_commit = eq_pipeline_commit q,
      job_config_sha256 = eq_config_sha256 q,
      job_input_manifest_sha256 = eq_input_manifest_sha256 q,
      job_idempotency_key = eq_idempotency_key q, job_error_code = None,
      job_created_at = now, job_queued_at = now, job_started_at = None, job_finished_at = None,
      job_storage_reserved_bytes = eq_storage_reserved_bytes q,
      job_storage_released_at = None, job_storage_cleaned_at = None,
      job_storage_cleanup_attempted_at = None, job_storage_cleanup_attempts = 0,
      job_storage_cleanup_last_error = None, job_input_cleaned_at = None,
      job_runtime_cleaned_at = None, job_artifacts_cleaned_at = None,
      job_retention_cleanup_attempted_at = None, job_retention_cleanup_attempts = 0,
      job_retention_cleanup_last_error = None, job_updated_at = now, job_version = 1\<rparr>"

definition enqueue_in_session ::
  "enqueue_request \<Rightarrow> time \<Rightarrow> database \<Rightarrow> (queue_error, unit, database) outcome" where
  "enqueue_in_session q now db =
     (case enqueue_invalid q of
        Some msg \<Rightarrow> (Inl (Value_error msg), db)
      | None \<Rightarrow>
          (case insert_job (queued_job q now) db of
             None \<Rightarrow> (Inl Integrity_error, db)
           | Some db' \<Rightarrow> (Inr (), db')))"

definition enqueue ::
  "enqueue_request \<Rightarrow> time \<Rightarrow> database \<Rightarrow> (queue_error, unit, database) outcome" where
  "enqueue q now db =
     (case transaction (enqueue_in_session q now) db of
        (Inl Integrity_error, db') \<Rightarrow> (Inl Queue_conflict, db')
      | r \<Rightarrow> r)"

section \<open>Claiming\<close>

text \<open>
  Writing the claimed lease back. The table's unique constraints on \<open>job_id\<close> and \<open>lease_token\<close>
  are checked here; a violation is an \<open>IntegrityError\<close> that nothing catches.
\<close>

definition flush_lease :: "worker_lease \<Rightarrow> database \<Rightarrow> database option" where
  "flush_lease lease db =
     (if \<exists>l \<in> set (db_worker_leases db). wl_resource_key l \<noteq> wl_resource_key lease \<and>
           (wl_job_id lease \<noteq> None \<and> wl_job_id l = wl_job_id lease \<or>
            wl_lease_token lease \<noteq> None \<and> wl_lease_token l = wl_lease_token lease)
      then None else Some (put_lease lease db))"

definition lease_job ::
  "worker_lease \<Rightarrow> reconstruction_job \<Rightarrow> string \<Rightarrow> string \<Rightarrow> int \<Rightarrow> bool \<Rightarrow> uuid \<Rightarrow> time \<Rightarrow> database \<Rightarrow>
     (queue_error, job_claim option, database) outcome" where
  "lease_job lease job worker_id resource_key lease_seconds recovered token now db =
     (let expires_at = now + seconds lease_seconds;
          lease' = lease\<lparr>wl_job_id := Some (job_id job), wl_worker_id := Some worker_id,
            wl_lease_token := Some token, wl_leased_at := Some now, wl_heartbeat_at := Some now,
            wl_expires_at := Some expires_at, wl_updated_at := now\<rparr>
      in case flush_lease lease' db of
           None \<Rightarrow> (Inl Integrity_error, db)
         | Some db' \<Rightarrow>
             (Inr (Some \<lparr>cl_job_id = job_id job, cl_worker_id = worker_id,
                cl_resource_key = resource_key, cl_lease_token = token,
                cl_expires_at = expires_at, cl_status = job_status job,
                cl_attempt = job_attempt job, cl_execution_mode = job_execution_mode job,
                cl_recovered = recovered\<rparr>), db'))"

definition start_job :: "reconstruction_job \<Rightarrow> time \<Rightarrow> reconstruction_job" where
  "start_job job now =
     job\<lparr>job_status := PREPARING,
       job_started_at := (case job_started_at job of None \<Rightarrow> Some now | Some t \<Rightarrow> Some t),
       job_updated_at := now, job_version := job_version job + 1\<rparr>"

definition claim_next_in_session ::
  "string \<Rightarrow> string \<Rightarrow> int \<Rightarrow> string option \<Rightarrow> uuid \<Rightarrow> (uuid \<Rightarrow> bool) \<Rightarrow> time \<Rightarrow> database \<Rightarrow>
     (queue_error, job_claim option, database) outcome" where
  "claim_next_in_session worker_id resource_key lease_seconds mode token locked now db =
     (case get_lease resource_key db of
        None \<Rightarrow> (Inl Queue_conflict, db)
      | Some lease \<Rightarrow>
          if wl_job_id lease \<noteq> None \<and> is_active lease now then (Inr None, db)
          else
            (case recover_expired_job lease db of
               Some job \<Rightarrow>
                 if mode \<noteq> None \<and> mode \<noteq> Some (job_execution_mode job) then (Inr None, db)
                 else lease_job lease job worker_id resource_key lease_seconds True token now db
             | None \<Rightarrow>
                 (case next_queued_job locked mode db of
                    None \<Rightarrow> (Inr None, put_lease (clear_lease lease now) db)
                  | Some job \<Rightarrow>
                      (case assert_transition (job_status job) PREPARING of
                         Inl (InvalidTransition a b) \<Rightarrow> (Inl (Invalid_transition a b), db)
                       | Inr _ \<Rightarrow>
                           let job' = start_job job now
                           in lease_job lease job' worker_id resource_key lease_seconds False token
                                now (put_job job' db)))))"

definition claim_next ::
  "string \<Rightarrow> string \<Rightarrow> int \<Rightarrow> string option \<Rightarrow> uuid \<Rightarrow> (uuid \<Rightarrow> bool) \<Rightarrow> time \<Rightarrow> database \<Rightarrow>
     (queue_error, job_claim option, database) outcome" where
  "claim_next worker_id resource_key lease_seconds mode token locked now db =
     (if \<not> valid_worker_id worker_id then (Inl (Value_error ''worker_id has an invalid format''), db)
      else if \<not> valid_resource_key resource_key
      then (Inl (Value_error ''resource_key has an invalid format''), db)
      else if \<not> valid_lease_seconds lease_seconds
      then (Inl (Value_error ''lease_seconds must be between 5 and 3600''), db)
      else if mode \<notin> {None, Some ''simulated'', Some ''real''}
      then (Inl (Value_error ''execution_mode must be simulated, real, or None''), db)
      else transaction
        (claim_next_in_session worker_id resource_key lease_seconds mode token locked now) db)"

section \<open>Calls under a claim\<close>

definition heartbeat ::
  "job_claim \<Rightarrow> int \<Rightarrow> time \<Rightarrow> database \<Rightarrow> (queue_error, lease_heartbeat, database) outcome" where
  "heartbeat claim lease_seconds now db =
     (if \<not> valid_lease_seconds lease_seconds
      then (Inl (Value_error ''lease_seconds must be between 5 and 3600''), db)
      else
        (case lock_owned_lease claim now db of
           Inl e \<Rightarrow> (Inl e, db)
         | Inr (lease, job) \<Rightarrow>
             let expires_at = now + seconds lease_seconds
             in (Inr \<lparr>hb_expires_at = expires_at, hb_cancel_requested = job_cancel_requested job\<rparr>,
                 put_lease (lease\<lparr>wl_heartbeat_at := Some now, wl_expires_at := Some expires_at,
                   wl_updated_at := now\<rparr>) db)))"

definition failure_statuses :: "job_status set" where
  "failure_statuses = {FAILED_INPUT, FAILED_PIPELINE, FAILED_EVALUATION}"

definition advance_invalid ::
  "job_status \<Rightarrow> int option \<Rightarrow> string option \<Rightarrow> string option" where
  "advance_invalid target progress error_code =
     (if (case progress of None \<Rightarrow> False | Some p \<Rightarrow> \<not> (0 \<le> p \<and> p \<le> 100))
      then Some ''progress must be between 0 and 100''
      else if (case error_code of None \<Rightarrow> False | Some c \<Rightarrow> \<not> valid_error_code c)
      then Some ''error_code must be a stable uppercase code''
      else if target \<in> failure_statuses \<and> error_code = None
      then Some ''failed jobs require an error_code''
      else if error_code \<noteq> None \<and> target \<notin> failure_statuses \<union> {CANCELLED}
      then Some ''error_code is only valid for failed or cancelled jobs''
      else None)"

definition advanced_job ::
  "job_status \<Rightarrow> int option \<Rightarrow> string option \<Rightarrow> time \<Rightarrow> reconstruction_job \<Rightarrow> reconstruction_job" where
  "advanced_job target progress error_code now job =
     (let job1 = job\<lparr>job_status := target,
            job_progress := (case progress of None \<Rightarrow> job_progress job | Some p \<Rightarrow> p),
            job_error_code := error_code, job_updated_at := now,
            job_version := job_version job + 1\<rparr>
      in if target \<in> terminal_statuses
         then let job2 = job1\<lparr>job_finished_at := Some now\<rparr>
              in if target = SUCCEEDED then job2\<lparr>job_progress := 100\<rparr> else job2
         else job1)"

definition advance_in_session ::
  "job_claim \<Rightarrow> job_status \<Rightarrow> int option \<Rightarrow> string option \<Rightarrow> time \<Rightarrow> database \<Rightarrow>
     (queue_error, job_status, database) outcome" where
  "advance_in_session claim target progress error_code now db =
     (case lock_owned_lease claim now db of
        Inl e \<Rightarrow> (Inl e, db)
      | Inr (lease, job) \<Rightarrow>
          (case assert_transition (job_status job) target of
             Inl (InvalidTransition a b) \<Rightarrow> (Inl (Invalid_transition a b), db)
           | Inr _ \<Rightarrow>
               if (case progress of None \<Rightarrow> False | Some p \<Rightarrow> p < job_progress job)
               then (Inl (Value_error ''job progress cannot decrease''), db)
               else
                 let db1 = put_job (advanced_job target progress error_code now job) db
                 in (Inr target,
                     if target \<in> terminal_statuses then put_lease (clear_lease lease now) db1
                     else db1)))"

definition advance ::
  "job_claim \<Rightarrow> job_status \<Rightarrow> int option \<Rightarrow> string option \<Rightarrow> time \<Rightarrow> database \<Rightarrow>
     (queue_error, job_status, database) outcome" where
  "advance claim target progress error_code now db =
     (case advance_invalid target progress error_code of
        Some msg \<Rightarrow> (Inl (Value_error msg), db)
      | None \<Rightarrow> transaction (advance_in_session claim target progress error_code now) db)"

definition update_progress ::
  "job_claim \<Rightarrow> int \<Rightarrow> time \<Rightarrow> database \<Rightarrow> (queue_error, int, database) outcome" where
  "update_progress claim progress now db =
     (if \<not> (0 \<le> progress \<and> progress < 100)
      then (Inl (Value_error ''non-terminal progress must be between 0 and 99''), db)
      else
        (case lock_owned_lease claim now db of
           Inl e \<Rightarrow> (Inl e, db)
         | Inr (lease, job) \<Rightarrow>
             if progress < job_progress job
             then (Inl (Value_error ''job progress cannot decrease''), db)
             else if progress = job_progress job then (Inr (job_progress job), db)
             else (Inr progress,
               put_job (job\<lparr>job_progress := progress, job_updated_at := now,
                 job_version := job_version job + 1\<rparr>) db)))"

section \<open>Cancellation\<close>

definition cancellable_before_start :: "job_status set" where
  "cancellable_before_start = {DRAFT, UPLOADING, VALIDATING_INPUT, QUEUED}"

text \<open>The job row a cancellation writes, or \<open>None\<close> when it changes nothing.\<close>

definition cancelled_job :: "time \<Rightarrow> reconstruction_job \<Rightarrow> reconstruction_job option" where
  "cancelled_job now job =
     (if job_status job \<in> cancellable_before_start
      then Some (job\<lparr>job_status := CANCELLED, job_finished_at := Some now,
        job_updated_at := now, job_version := job_version job + 1\<rparr>)
      else if \<not> job_cancel_requested job
      then Some (job\<lparr>job_cancel_requested := True,
        job_updated_at := now, job_version := job_version job + 1\<rparr>)
      else None)"

definition cancel_event :: "uuid \<Rightarrow> uuid option \<Rightarrow> reconstruction_job \<Rightarrow> time \<Rightarrow> task_action_event" where
  "cancel_event event_id user_id job now =
     \<lparr>tae_id = event_id, tae_action = ''cancel_requested'', tae_outcome = ''success'',
      tae_user_id = user_id, tae_job_id = job_id job,
      tae_execution_mode = job_execution_mode job,
      tae_reason_code = Some (if job_status job = CANCELLED then ''CANCELLED_BEFORE_EXECUTION''
        else ''CANCELLATION_SIGNALLED''),
      tae_occurred_at = now\<rparr>"

text \<open>\<open>SELECT\<close> of a job by id, restricted to an owner when one is given.\<close>

definition owned_job :: "uuid \<Rightarrow> uuid option \<Rightarrow> database \<Rightarrow> reconstruction_job option" where
  "owned_job k user_id db =
     (case get_job k db of
        None \<Rightarrow> None
      | Some job \<Rightarrow> if user_id = None \<or> user_id = Some (job_user_id job) then Some job else None)"

definition request_cancel ::
  "uuid \<Rightarrow> uuid option \<Rightarrow> bool \<Rightarrow> uuid \<Rightarrow> time \<Rightarrow> database \<Rightarrow>
     (queue_error, job_status, database) outcome" where
  "request_cancel k user_id audit event_id now db =
     (if audit \<and> user_id = None
      then (Inl (Value_error ''audited cancellation requires user_id''), db)
      else
        (case owned_job k user_id db of
           None \<Rightarrow> (Inl (Job_not_found k), db)
         | Some job \<Rightarrow>
             if job_status job \<in> terminal_statuses then (Inr (job_status job), db)
             else if job_status job \<in> cancellable_before_start \<and>
                     assert_transition (job_status job) CANCELLED \<noteq> Inr ()
             then (Inl (Invalid_transition (job_status job) CANCELLED), db)
             else
               (case cancelled_job now job of
                  None \<Rightarrow> (Inr (job_status job), db)
                | Some job' \<Rightarrow>
                    let db1 = put_job job' db
                    in (Inr (job_status job'),
                        if audit then add_task_event (cancel_event event_id user_id job' now) db1
                        else db1))))"

section \<open>Queries\<close>

datatype snapshot_value =
    V_uuid uuid | V_status job_status | V_str string | V_int int | V_bool bool | V_time time | V_none

definition opt_value :: "('a \<Rightarrow> snapshot_value) \<Rightarrow> 'a option \<Rightarrow> snapshot_value" where
  "opt_value f x = (case x of None \<Rightarrow> V_none | Some y \<Rightarrow> f y)"

definition job_snapshot :: "reconstruction_job \<Rightarrow> (string \<times> snapshot_value) list" where
  "job_snapshot job =
     [(''id'', V_uuid (job_id job)),
      (''user_id'', V_uuid (job_user_id job)),
      (''status'', V_status (job_status job)),
      (''execution_mode'', V_str (job_execution_mode job)),
      (''attempt'', V_int (job_attempt job)),
      (''progress'', V_int (job_progress job)),
      (''cancel_requested'', V_bool (job_cancel_requested job)),
      (''error_code'', opt_value V_str (job_error_code job)),
      (''created_at'', V_time (job_created_at job)),
      (''queued_at'', V_time (job_queued_at job)),
      (''started_at'', opt_value V_time (job_started_at job)),
      (''finished_at'', opt_value V_time (job_finished_at job)),
      (''storage_reserved_bytes'', V_int (job_storage_reserved_bytes job)),
      (''storage_released_at'', opt_value V_time (job_storage_released_at job)),
      (''storage_cleaned_at'', opt_value V_time (job_storage_cleaned_at job)),
      (''storage_cleanup_attempted_at'', opt_value V_time (job_storage_cleanup_attempted_at job)),
      (''storage_cleanup_attempts'', V_int (job_storage_cleanup_attempts job)),
      (''storage_cleanup_last_error'', opt_value V_str (job_storage_cleanup_last_error job)),
      (''input_cleaned_at'', opt_value V_time (job_input_cleaned_at job)),
      (''runtime_cleaned_at'', opt_value V_time (job_runtime_cleaned_at job)),
      (''artifacts_cleaned_at'', opt_value V_time (job_artifacts_cleaned_at job)),
      (''retention_cleanup_attempted_at'', opt_value V_time (job_retention_cleanup_attempted_at job)),
      (''retention_cleanup_attempts'', V_int (job_retention_cleanup_attempts job)),
      (''retention_cleanup_last_error'', opt_value V_str (job_retention_cleanup_last_error job)),
      (''version'', V_int (job_version job))]"

definition query_job ::
  "uuid \<Rightarrow> uuid option \<Rightarrow> database \<Rightarrow> queue_error + (string \<times> snapshot_value) list" where
  "query_job k user_id db =
     (case owned_job k user_id db of
        None \<Rightarrow> Inl (Job_not_found k)
      | Some job \<Rightarrow> Inr (job_snapshot job))"

definition get_job_by_idempotency ::
  "uuid \<Rightarrow> string \<Rightarrow> database \<Rightarrow> queue_error + (string \<times> snapshot_value) list option" where
  "get_job_by_idempotency user_id key db =
     (if \<not> valid_sha256 key
      then Inl (Value_error ''idempotency_key must be a lowercase SHA-256 digest'')
      else Inr (map_option job_snapshot
        (find (\<lambda>j. job_user_id j = user_id \<and> job_idempotency_key j = key) (db_jobs db))))"

definition list_order :: "reconstruction_job \<Rightarrow> time \<times> int" where
  "list_order j = (- job_created_at j, - int (job_id j))"

definition list_jobs ::
  "uuid \<Rightarrow> int \<Rightarrow> database \<Rightarrow> queue_error + (string \<times> snapshot_value) list list" where
  "list_jobs user_id limit db =
     (if \<not> (1 \<le> limit \<and> limit \<le> 100) then Inl (Value_error ''limit must be between 1 and 100'')
      else Inr (map job_snapshot (take (nat limit)
        (sort_key list_order (filter (\<lambda>j. job_user_id j = user_id) (db_jobs db))))))"

end
