(* ===== verification/Queue_Contract.thy ===== *)
theory Queue_Contract
  imports Job_Queue
begin

text \<open>
  The contract of the job queue. A labelled step relation has one rule per public call; its
  invariant says that the jobs and leases stay well formed and that a job is running exactly when
  one lease row holds it. Every step follows a preorder on job histories (statuses move along the
  state machine, progress and versions never decrease). A claim that was lost stays lost, and no
  call under it changes the database.
\<close>

section \<open>Well-formed jobs and leases\<close>

definition running_statuses :: "job_status set" where
  "running_statuses =
     {PREPARING, SFM, DENSE_RECONSTRUCTION, MESHING, TEXTURING, VALIDATING_OUTPUT, EVALUATING}"

lemma running_not_terminal: "s \<in> running_statuses \<Longrightarrow> s \<notin> terminal_statuses"
  by (auto simp: running_statuses_def)

lemma status_partition:
  "s \<in> cancellable_before_start \<or> s \<in> running_statuses \<or> s \<in> terminal_statuses"
  by (cases s) (simp_all add: cancellable_before_start_def running_statuses_def)

lemma cancellable_not_running: "s \<in> cancellable_before_start \<Longrightarrow> s \<notin> running_statuses"
  by (auto simp: cancellable_before_start_def running_statuses_def)

lemma cancellable_not_terminal: "s \<in> cancellable_before_start \<Longrightarrow> s \<notin> terminal_statuses"
  by (auto simp: cancellable_before_start_def)

lemma nonterminal_can_cancel: "s \<notin> terminal_statuses \<Longrightarrow> can_transition s CANCELLED"
  by (cases s) (simp_all add: can_transition_iff allowed_transitions_simps)

lemma assert_transition_Inr [simp]: "assert_transition c t = Inr u \<longleftrightarrow> can_transition c t"
  by (simp add: assert_transition_def)

lemma assert_transition_Inl:
  "assert_transition c t = Inl e \<longleftrightarrow> \<not> can_transition c t \<and> e = InvalidTransition c t"
  by (auto simp: assert_transition_def)

text \<open>From a running status the machine only reaches running and terminal ones.\<close>

lemma running_transition:
  "s \<in> running_statuses \<Longrightarrow> can_transition s t \<Longrightarrow> t \<in> running_statuses \<or> t \<in> terminal_statuses"
  by (auto simp: running_statuses_def can_transition_iff allowed_transitions_simps)

lemma running_no_expiry: "s \<in> running_statuses \<Longrightarrow> \<not> can_transition s EXPIRED"
  by (auto simp: running_statuses_def can_transition_iff allowed_transitions_simps)

definition job_consistent :: "reconstruction_job \<Rightarrow> bool" where
  "job_consistent j \<longleftrightarrow>
     reconstruction_job_row_ok j \<and>
     (job_finished_at j \<noteq> None \<longleftrightarrow> job_status j \<in> terminal_statuses) \<and>
     (job_status j \<in> running_statuses \<longrightarrow> job_started_at j \<noteq> None) \<and>
     (job_status j \<in> {SUCCEEDED, EXPIRED} \<longrightarrow> job_progress j = 100) \<and>
     (job_status j \<in> failure_statuses \<longrightarrow> job_error_code j \<noteq> None) \<and>
     (job_error_code j \<noteq> None \<longrightarrow> job_status j \<in> failure_statuses \<union> {CANCELLED})"

definition is_running :: "uuid \<Rightarrow> database \<Rightarrow> bool" where
  "is_running k db =
     (case get_job k db of None \<Rightarrow> False | Some j \<Rightarrow> job_status j \<in> running_statuses)"

definition holds_job :: "string \<Rightarrow> uuid \<Rightarrow> database \<Rightarrow> bool" where
  "holds_job r k db = (case get_lease r db of None \<Rightarrow> False | Some l \<Rightarrow> wl_job_id l = Some k)"

definition lease_relation :: "database \<Rightarrow> bool" where
  "lease_relation db \<longleftrightarrow>
     (\<forall>k. is_running k db \<longleftrightarrow> (\<exists>r. holds_job r k db)) \<and>
     (\<forall>k r r'. holds_job r k db \<longrightarrow> holds_job r' k db \<longrightarrow> r = r')"

definition queue_inv :: "database \<Rightarrow> bool" where
  "queue_inv db \<longleftrightarrow>
     distinct (map job_id (db_jobs db)) \<and>
     distinct (map job_idempotency_key (db_jobs db)) \<and>
     distinct (map wl_resource_key (db_worker_leases db)) \<and>
     (\<forall>j \<in> set (db_jobs db). job_consistent j) \<and>
     (\<forall>l \<in> set (db_worker_leases db). worker_lease_row_ok l) \<and>
     lease_relation db"

lemma queue_inv_get_job:
  assumes "queue_inv db" "get_job k db = Some j" shows "job_consistent j"
  using assms by (auto simp: queue_inv_def get_job_def dest!: find_row_SomeD)

lemma queue_inv_get_lease:
  assumes "queue_inv db" "get_lease r db = Some l" shows "worker_lease_row_ok l"
  using assms by (auto simp: queue_inv_def get_lease_def dest!: find_row_SomeD)

lemma get_job_in_set: "queue_inv db \<Longrightarrow> j \<in> set (db_jobs db) \<Longrightarrow> get_job (job_id j) db = Some j"
  by (simp add: queue_inv_def get_job_def find_row_distinct)

lemma get_job_set: "get_job k db = Some j \<Longrightarrow> j \<in> set (db_jobs db) \<and> job_id j = k"
  by (auto simp: get_job_def dest: find_row_SomeD)

lemma get_lease_set: "get_lease r db = Some l \<Longrightarrow> l \<in> set (db_worker_leases db) \<and> wl_resource_key l = r"
  by (auto simp: get_lease_def dest: find_row_SomeD)

lemma get_lease_in_set:
  "queue_inv db \<Longrightarrow> l \<in> set (db_worker_leases db) \<Longrightarrow> get_lease (wl_resource_key l) db = Some l"
  by (simp add: queue_inv_def get_lease_def find_row_distinct)

text \<open>How the two writes change the lease relation.\<close>

lemma is_running_put_job:
  "get_job (job_id j) db \<noteq> None \<Longrightarrow>
   is_running k (put_job j db) =
     (if k = job_id j then job_status j \<in> running_statuses else is_running k db)"
  by (auto simp: is_running_def job_rows.get_put_same job_rows.get_put_other)

lemma holds_job_put_lease:
  "get_lease (wl_resource_key l) db \<noteq> None \<Longrightarrow>
   holds_job r k (put_lease l db) =
     (if r = wl_resource_key l then wl_job_id l = Some k else holds_job r k db)"
  by (auto simp: holds_job_def lease_rows.get_put_same lease_rows.get_put_other)

lemma holds_job_functional: "holds_job r k db \<Longrightarrow> holds_job r k' db \<Longrightarrow> k = k'"
  by (auto simp: holds_job_def split: option.splits)

lemma relation_frame [simp]:
  "is_running k (put_lease l db) = is_running k db"
  "holds_job r k (put_job j db) = holds_job r k db"
  "is_running k (add_task_event e db) = is_running k db"
  "holds_job r k (add_task_event e db) = holds_job r k db"
  by (simp_all add: is_running_def holds_job_def)

lemma put_job_wf:
  assumes "queue_inv db" "get_job (job_id j') db = Some j" "job_consistent j'"
    and key: "job_idempotency_key j' = job_idempotency_key j"
  shows "distinct (map job_id (db_jobs (put_job j' db)))"
    and "distinct (map job_idempotency_key (db_jobs (put_job j' db)))"
    and "\<forall>x \<in> set (db_jobs (put_job j' db)). job_consistent x"
proof -
  show "distinct (map job_id (db_jobs (put_job j' db)))"
    using assms(1) by (simp add: queue_inv_def)
  have same: "job_idempotency_key x = job_idempotency_key j'"
    if "x \<in> set (db_jobs db)" "job_id x = job_id j'" for x
    using that get_job_in_set [OF assms(1) that(1)] assms(2) key by simp
  show "distinct (map job_idempotency_key (db_jobs (put_job j' db)))"
    using assms(1) by (simp add: queue_inv_def map_put_other same)
  show "\<forall>x \<in> set (db_jobs (put_job j' db)). job_consistent x"
    using assms(1,3) set_put_subset [of job_id j' "db_jobs db"] by (auto simp: queue_inv_def)
qed

lemma queue_inv_put_job:
  assumes inv: "queue_inv db" and job: "get_job (job_id j') db = Some j"
    and j': "job_consistent j'" "job_idempotency_key j' = job_idempotency_key j"
    and run: "job_status j' \<in> running_statuses \<longleftrightarrow> job_status j \<in> running_statuses"
  shows "queue_inv (put_job j' db)"
proof -
  have "is_running k (put_job j' db) = is_running k db" for k
    using job run by (auto simp: is_running_put_job is_running_def [of "job_id j'"])
  then have "lease_relation (put_job j' db)"
    using inv by (simp add: queue_inv_def lease_relation_def)
  with inv put_job_wf [OF inv job j'] show ?thesis by (simp add: queue_inv_def)
qed

lemma queue_inv_put_lease:
  assumes inv: "queue_inv db" and lease: "get_lease (wl_resource_key l') db = Some l"
    and ok: "worker_lease_row_ok l'" and same: "wl_job_id l' = wl_job_id l"
  shows "queue_inv (put_lease l' db)"
proof -
  have "holds_job r k (put_lease l' db) = holds_job r k db" for r k
    using lease same by (auto simp: holds_job_put_lease holds_job_def [of "wl_resource_key l'"])
  then have "lease_relation (put_lease l' db)"
    using inv by (simp add: queue_inv_def lease_relation_def)
  with inv ok set_put_subset [of wl_resource_key l' "db_worker_leases db"] show ?thesis
    by (auto simp: queue_inv_def)
qed

text \<open>Writing a job and its lease in one transaction.\<close>

lemma queue_inv_put_both:
  assumes inv: "queue_inv db"
    and job: "get_job (job_id j') db = Some j"
    and j': "job_consistent j'" "job_idempotency_key j' = job_idempotency_key j"
    and lease: "get_lease (wl_resource_key l') db = Some l" and ok: "worker_lease_row_ok l'"
    and rel: "lease_relation (put_lease l' (put_job j' db))"
  shows "queue_inv (put_lease l' (put_job j' db))"
  using inv ok rel put_job_wf [OF inv job j'] set_put_subset [of wl_resource_key l' "db_worker_leases db"]
  by (auto simp: queue_inv_def)

lemma queue_inv_add_task_event: "queue_inv (add_task_event e db) = queue_inv db"
  by (simp add: queue_inv_def lease_relation_def)

section \<open>Every call keeps the invariant\<close>

lemma lock_owned_leaseD:
  assumes "lock_owned_lease c now db = Inr (lease, job)"
  shows "get_lease (cl_resource_key c) db = Some lease" "wl_job_id lease = Some (cl_job_id c)"
    "wl_worker_id lease = Some (cl_worker_id c)" "wl_lease_token lease = Some (cl_lease_token c)"
    "is_active lease now" "get_job (cl_job_id c) db = Some job" "job_status job \<notin> terminal_statuses"
    "job_id job = cl_job_id c" "wl_resource_key lease = cl_resource_key c"
  using assms
  by (auto simp: lock_owned_lease_def job_rows.get_key lease_rows.get_key
      split: option.splits if_splits)

lemma lock_owned_lease_Inl: "lock_owned_lease c now db = Inl e \<Longrightarrow> e = Lease_lost"
  by (auto simp: lock_owned_lease_def split: option.splits if_splits)

lemma holder_unique: "queue_inv db \<Longrightarrow> holds_job r k db \<Longrightarrow> holds_job r' k db \<Longrightarrow> r = r'"
  by (auto simp: queue_inv_def lease_relation_def)

lemma running_held_iff: "queue_inv db \<Longrightarrow> is_running k db \<longleftrightarrow> (\<exists>r. holds_job r k db)"
  by (auto simp: queue_inv_def lease_relation_def)

lemma held_job_running:
  assumes "queue_inv db" "get_lease r db = Some l" "wl_job_id l = Some k"
  shows "is_running k db"
proof -
  from assms(2,3) have "holds_job r k db" by (simp add: holds_job_def)
  then show ?thesis using running_held_iff [OF assms(1)] by blast
qed

lemma owned_job_running:
  assumes "queue_inv db" "lock_owned_lease c now db = Inr (lease, job)"
  shows "job_status job \<in> running_statuses"
proof -
  note own = lock_owned_leaseD [OF assms(2)]
  from held_job_running [OF assms(1) own(1,2)] own(6) show ?thesis by (simp add: is_running_def)
qed

text \<open>What consistency says of a job that has not ended: nothing was cleaned, nothing failed.\<close>

lemma job_consistent_open:
  assumes "job_status j \<notin> terminal_statuses"
  shows "job_consistent j \<longleftrightarrow>
     job_execution_mode j \<in> {''simulated'', ''real''} \<and> 0 \<le> job_progress j \<and> job_progress j \<le> 100 \<and>
     1 \<le> job_attempt j \<and> 0 \<le> job_storage_reserved_bytes j \<and> job_storage_released_at j = None \<and>
     job_storage_cleaned_at j = None \<and> 0 \<le> job_storage_cleanup_attempts j \<and>
     0 \<le> job_retention_cleanup_attempts j \<and> job_input_cleaned_at j = None \<and>
     job_runtime_cleaned_at j = None \<and> job_artifacts_cleaned_at j = None \<and>
     job_finished_at j = None \<and> job_error_code j = None \<and>
     (job_status j \<in> running_statuses \<longrightarrow> job_started_at j \<noteq> None)"
proof -
  have s: "job_status j \<noteq> SUCCEEDED" "job_status j \<noteq> FAILED_INPUT" "job_status j \<noteq> FAILED_PIPELINE"
    "job_status j \<noteq> FAILED_EVALUATION" "job_status j \<noteq> CANCELLED" "job_status j \<noteq> EXPIRED"
    using assms by auto
  show ?thesis
    unfolding job_consistent_def reconstruction_job_row_ok_def
    by (rule iffI; elim conjE; simp add: failure_statuses_def s assms)
qed

text \<open>The validation of \<open>advance\<close>, as facts.\<close>

lemma advance_invalid_NoneD:
  assumes "advance_invalid t p e = None"
  shows "\<And>n. p = Some n \<Longrightarrow> 0 \<le> n \<and> n \<le> 100"
    and "t \<in> failure_statuses \<Longrightarrow> e \<noteq> None"
    and "e \<noteq> None \<Longrightarrow> t \<in> failure_statuses \<union> {CANCELLED}"
  using assms by (auto simp: advance_invalid_def split: if_splits)

lemma clear_lease_ok [simp]:
  "worker_lease_row_ok (clear_lease l now)" "wl_job_id (clear_lease l now) = None"
  "wl_resource_key (clear_lease l now) = wl_resource_key l"
  "wl_lease_token (clear_lease l now) = None"
  by (simp_all add: clear_lease_def worker_lease_row_ok_def)

lemma advanced_job_fields [simp]:
  "job_id (advanced_job t p e now j) = job_id j"
  "job_idempotency_key (advanced_job t p e now j) = job_idempotency_key j"
  "job_status (advanced_job t p e now j) = t"
  "job_version (advanced_job t p e now j) = job_version j + 1"
  "job_cancel_requested (advanced_job t p e now j) = job_cancel_requested j"
  "job_user_id (advanced_job t p e now j) = job_user_id j"
  "job_execution_mode (advanced_job t p e now j) = job_execution_mode j"
  "job_attempt (advanced_job t p e now j) = job_attempt j"
  "job_error_code (advanced_job t p e now j) = e"
  "job_storage_cleaned_at (advanced_job t p e now j) = job_storage_cleaned_at j"
  "job_input_cleaned_at (advanced_job t p e now j) = job_input_cleaned_at j"
  "job_runtime_cleaned_at (advanced_job t p e now j) = job_runtime_cleaned_at j"
  "job_artifacts_cleaned_at (advanced_job t p e now j) = job_artifacts_cleaned_at j"
  by (simp_all add: advanced_job_def Let_def)

lemma advanced_job_consistent:
  assumes "job_consistent j" "job_status j \<in> running_statuses" "can_transition (job_status j) t"
    and "advance_invalid t p e = None"
  shows "job_consistent (advanced_job t p e now j)"
proof -
  have nt: "job_status j \<notin> terminal_statuses" by (rule running_not_terminal [OF assms(2)])
  note j = assms(1) [unfolded job_consistent_open [OF nt]]
  note valid = advance_invalid_NoneD [OF assms(4)]
  let ?p = "case p of None \<Rightarrow> job_progress j | Some n \<Rightarrow> n"
  have prog: "0 \<le> ?p" "?p \<le> 100" using j valid(1) by (auto split: option.splits)
  show ?thesis
  proof (cases "t \<in> terminal_statuses")
    case False
    then have "t \<in> running_statuses" using running_transition [OF assms(2,3)] by simp
    moreover have "e = None"
    proof (rule ccontr)
      assume "e \<noteq> None"
      from valid(3) [OF this] False show False by (auto simp: failure_statuses_def)
    qed
    ultimately show ?thesis
      using False j prog assms(2) by (simp add: job_consistent_open advanced_job_def)
  next
    case True
    have "t \<noteq> EXPIRED" using running_no_expiry [OF assms(2)] assms(3) by auto
    then have t: "t \<in> {SUCCEEDED, FAILED_INPUT, FAILED_PIPELINE, FAILED_EVALUATION, CANCELLED}"
      using True by (auto simp: terminal_statuses_def)
    have nr: "t \<notin> running_statuses" using True running_not_terminal by blast
    have s: "t = SUCCEEDED \<Longrightarrow> e = None" using valid(3) by (cases e) (auto simp: failure_statuses_def)
    have f: "t \<in> failure_statuses \<Longrightarrow> \<exists>c. e = Some c" using valid(2) by auto
    from t j prog nr s f show ?thesis
      by (elim insertE emptyE)
        (simp_all add: job_consistent_def reconstruction_job_row_ok_def advanced_job_def
          failure_statuses_def)
  qed
qed

lemma heartbeat_inv:
  assumes "queue_inv db" shows "queue_inv (snd (heartbeat c n now db))"
proof (cases "lock_owned_lease c now db")
  case (Inl e)
  with assms show ?thesis by (simp add: heartbeat_def)
next
  case (Inr p)
  obtain lease job where p: "p = (lease, job)" by (cases p)
  note own = lock_owned_leaseD [OF Inr [unfolded p]]
  show ?thesis
    using assms Inr p own queue_inv_get_lease [OF assms own(1)]
    by (auto simp: heartbeat_def Let_def worker_lease_row_ok_def intro!: queue_inv_put_lease)
qed

lemma update_progress_inv:
  assumes "queue_inv db" shows "queue_inv (snd (update_progress c n now db))"
proof (cases "lock_owned_lease c now db")
  case (Inl e)
  with assms show ?thesis by (simp add: update_progress_def)
next
  case (Inr p)
  obtain lease job where p: "p = (lease, job)" by (cases p)
  note own = lock_owned_leaseD [OF Inr [unfolded p]]
  have con: "job_consistent job" by (rule queue_inv_get_job [OF assms own(6)])
  have run: "job_status job \<in> running_statuses" by (rule owned_job_running [OF assms Inr [unfolded p]])
  let ?j = "job\<lparr>job_progress := n, job_updated_at := now, job_version := job_version job + 1\<rparr>"
  have "queue_inv (put_job ?j db)" if "0 \<le> n" "n < 100"
  proof (rule queue_inv_put_job [OF assms])
    show "get_job (job_id ?j) db = Some job" using own by simp
    show "job_consistent ?j" using con run that own(7) by (simp add: job_consistent_open)
  qed simp_all
  with assms show ?thesis by (simp add: update_progress_def Inr p)
qed

lemma advance_nonterminal_inv:
  assumes inv: "queue_inv db" and own: "lock_owned_lease c now db = Inr (lease, job)"
    and tr: "can_transition (job_status job) t" and nt: "t \<notin> terminal_statuses"
    and valid: "advance_invalid t p e = None"
  shows "queue_inv (put_job (advanced_job t p e now job) db)"
proof (rule queue_inv_put_job [OF inv])
  note o = lock_owned_leaseD [OF own]
  have run: "job_status job \<in> running_statuses" by (rule owned_job_running [OF inv own])
  show "get_job (job_id (advanced_job t p e now job)) db = Some job" using o by simp
  show "job_consistent (advanced_job t p e now job)"
    by (rule advanced_job_consistent [OF queue_inv_get_job [OF inv o(6)] run tr valid])
  show "job_status (advanced_job t p e now job) \<in> running_statuses \<longleftrightarrow>
      job_status job \<in> running_statuses"
    using run running_transition [OF run tr] nt by simp
qed simp_all

lemma advance_terminal_inv:
  assumes inv: "queue_inv db" and own: "lock_owned_lease c now db = Inr (lease, job)"
    and tr: "can_transition (job_status job) t" and te: "t \<in> terminal_statuses"
    and valid: "advance_invalid t p e = None"
  shows "queue_inv (put_lease (clear_lease lease now) (put_job (advanced_job t p e now job) db))"
proof (rule queue_inv_put_both [OF inv])
  note o = lock_owned_leaseD [OF own]
  let ?j = "advanced_job t p e now job" and ?l = "clear_lease lease now"
  have run: "job_status job \<in> running_statuses" by (rule owned_job_running [OF inv own])
  show job: "get_job (job_id ?j) db = Some job" using o by simp
  show "job_consistent ?j"
    by (rule advanced_job_consistent [OF queue_inv_get_job [OF inv o(6)] run tr valid])
  show lease: "get_lease (wl_resource_key ?l) db = Some lease" using o by simp
  have hold: "holds_job (cl_resource_key c) (cl_job_id c) db" using o by (simp add: holds_job_def)
  have "t \<notin> running_statuses" using te running_not_terminal by blast
  then have run': "is_running k (put_lease ?l (put_job ?j db)) \<longleftrightarrow> is_running k db \<and> k \<noteq> cl_job_id c" for k
    using job o by (simp add: is_running_put_job)
  have hold': "holds_job r k (put_lease ?l (put_job ?j db)) \<longleftrightarrow>
      holds_job r k db \<and> r \<noteq> cl_resource_key c" for r k
    using lease o by (simp add: holds_job_put_lease)
  have other: "holds_job r k db \<and> k \<noteq> cl_job_id c \<longleftrightarrow> holds_job r k db \<and> r \<noteq> cl_resource_key c" for r k
    using holder_unique [OF inv hold] holds_job_functional [OF hold] by blast
  show "lease_relation (put_lease ?l (put_job ?j db))"
    unfolding lease_relation_def run' hold'
  proof (intro conjI allI)
    show "(is_running k db \<and> k \<noteq> cl_job_id c) =
        (\<exists>r. holds_job r k db \<and> r \<noteq> cl_resource_key c)" for k
      using running_held_iff [OF inv, of k] other by blast
  qed (blast dest: holder_unique [OF inv])
qed simp_all

lemma advance_inv:
  assumes "queue_inv db" shows "queue_inv (snd (advance c t p e now db))"
proof (cases "advance_invalid t p e")
  case None
  show ?thesis
  proof (cases rule: transaction_cases [of "advance_in_session c t p e now" db])
    case Raise
    with None assms show ?thesis by (simp add: advance_def)
  next
    case (Return x db')
    then obtain lease job where own: "lock_owned_lease c now db = Inr (lease, job)"
      and tr: "can_transition (job_status job) t"
      and db': "db' = (if t \<in> terminal_statuses
        then put_lease (clear_lease lease now) (put_job (advanced_job t p e now job) db)
        else put_job (advanced_job t p e now job) db)"
      by (auto simp: advance_in_session_def assert_transition_Inl Let_def
          split: sum.splits prod.splits if_splits transition_error.splits)
    from Return None show ?thesis
      using advance_terminal_inv [OF assms own tr _ None]
        advance_nonterminal_inv [OF assms own tr _ None]
      by (simp add: advance_def db')
  qed
qed (simp add: advance_def assms)

lemma owned_job_SomeD:
  assumes "owned_job k u db = Some job"
  shows "get_job k db = Some job" "job_id job = k" "u = None \<or> u = Some (job_user_id job)"
  using assms by (auto simp: owned_job_def job_rows.get_key split: option.splits if_splits)

lemma cancelled_job_fields:
  assumes "cancelled_job now j = Some j'"
  shows "job_id j' = job_id j" "job_idempotency_key j' = job_idempotency_key j"
    "job_version j' = job_version j + 1"
    "job_status j' = (if job_status j \<in> cancellable_before_start then CANCELLED else job_status j)"
  using assms by (auto simp: cancelled_job_def split: if_splits)

lemma cancelled_job_consistent:
  assumes "job_consistent j" "job_status j \<notin> terminal_statuses" "cancelled_job now j = Some j'"
  shows "job_consistent j'"
proof (cases "job_status j \<in> cancellable_before_start")
  case True
  note j = assms(1) [unfolded job_consistent_open [OF assms(2)]]
  have "CANCELLED \<notin> running_statuses" by (simp add: running_statuses_def)
  moreover have "j' = j\<lparr>job_status := CANCELLED, job_finished_at := Some now,
      job_updated_at := now, job_version := job_version j + 1\<rparr>"
    using True assms(3) by (simp add: cancelled_job_def)
  ultimately show ?thesis
    using j by (simp add: job_consistent_def reconstruction_job_row_ok_def failure_statuses_def)
next
  case False
  with assms have "j' = j\<lparr>job_cancel_requested := True, job_updated_at := now,
      job_version := job_version j + 1\<rparr>"
    by (auto simp: cancelled_job_def split: if_splits)
  with assms(1,2) show ?thesis by (simp add: job_consistent_open)
qed

lemma put_cancelled_inv:
  assumes inv: "queue_inv db" and job: "get_job k db = Some j"
    and alive: "job_status j \<notin> terminal_statuses" and c: "cancelled_job now j = Some j'"
  shows "queue_inv (put_job j' db)"
proof (rule queue_inv_put_job [OF inv])
  note f = cancelled_job_fields [OF c]
  show "get_job (job_id j') db = Some j" using f job by (simp add: job_rows.get_key [OF job])
  show "job_consistent j'" by (rule cancelled_job_consistent [OF queue_inv_get_job [OF inv job] alive c])
  show "job_status j' \<in> running_statuses \<longleftrightarrow> job_status j \<in> running_statuses"
    using f(4) cancellable_not_running [of "job_status j"] by (auto simp: running_statuses_def)
qed (use cancelled_job_fields [OF c] in simp)

lemma request_cancel_inv:
  assumes "queue_inv db" shows "queue_inv (snd (request_cancel k u audit ev now db))"
proof (cases "owned_job k u db")
  case None
  with assms show ?thesis by (simp add: request_cancel_def)
next
  case (Some j)
  note job = owned_job_SomeD [OF Some]
  show ?thesis
    using assms put_cancelled_inv [OF assms job(1)]
    by (auto simp: request_cancel_def Some Let_def queue_inv_add_task_event split: option.split)
qed

lemma queued_job_consistent:
  assumes "enqueue_invalid q = None" shows "job_consistent (queued_job q now)"
proof -
  have "eq_execution_mode q \<in> {''simulated'', ''real''}" "1 \<le> eq_attempt q"
    "0 \<le> eq_storage_reserved_bytes q"
    using assms by (auto simp: enqueue_invalid_def split: if_splits)
  moreover have "job_status (queued_job q now) \<notin> terminal_statuses" by (simp add: queued_job_def)
  ultimately show ?thesis
    by (simp add: job_consistent_open) (simp add: queued_job_def running_statuses_def)
qed

lemma insert_job_inv:
  assumes inv: "queue_inv db" and ins: "insert_job j db = Some db'"
    and con: "job_consistent j" and new: "job_status j \<notin> running_statuses"
  shows "queue_inv db'"
proof -
  from ins have fresh: "job_id j \<notin> job_id ` set (db_jobs db)"
    "job_idempotency_key j \<notin> job_idempotency_key ` set (db_jobs db)"
    and db': "db' = db\<lparr>db_jobs := db_jobs db @ [j]\<rparr>"
    by (auto simp: insert_job_def split: if_splits)
  have get: "get_job k db' = (if k = job_id j then Some j else get_job k db)" for k
    using fresh(1) find_row_None_iff [of job_id "job_id j" "db_jobs db"]
    by (auto simp: get_job_def db' split: option.split)
  have lease: "get_lease r db' = get_lease r db" for r by (simp add: get_lease_def db')
  have gone: "get_job (job_id j) db = None" using fresh(1) by (simp add: get_job_def find_row_None_iff)
  have "is_running k db' = is_running k db" "holds_job r k db' = holds_job r k db" for r k
    using new gone by (auto simp: is_running_def holds_job_def get lease)
  then have "lease_relation db'" using inv by (simp add: queue_inv_def lease_relation_def)
  with inv con fresh show ?thesis by (auto simp: queue_inv_def db')
qed

lemma enqueue_in_session_inv:
  assumes "queue_inv db" shows "queue_inv (snd (enqueue_in_session q now db))"
proof -
  have "job_status (queued_job q now) \<notin> running_statuses"
    by (simp add: queued_job_def running_statuses_def)
  then show ?thesis
    using assms queued_job_consistent [of q now]
    by (auto simp: enqueue_in_session_def intro: insert_job_inv split: option.split)
qed

lemma enqueue_snd: "snd (enqueue q now db) = snd (enqueue_in_session q now db)"
  by (auto simp: enqueue_def enqueue_in_session_def transaction_def
      split: option.splits sum.splits queue_error.splits prod.splits)

lemma enqueue_inv: "queue_inv db \<Longrightarrow> queue_inv (snd (enqueue q now db))"
  by (simp add: enqueue_snd enqueue_in_session_inv)

lemma ensure_resource_inv:
  assumes inv: "queue_inv db" shows "queue_inv (snd (ensure_resource r now db))"
proof (cases "valid_resource_key r \<and> get_lease r db = None")
  case True
  let ?l = "\<lparr>wl_resource_key = r, wl_job_id = None, wl_worker_id = None, wl_lease_token = None,
    wl_leased_at = None, wl_heartbeat_at = None, wl_expires_at = None, wl_updated_at = now\<rparr>"
  let ?db = "db\<lparr>db_worker_leases := db_worker_leases db @ [?l]\<rparr>"
  have "is_running k ?db = is_running k db" "holds_job s k ?db = holds_job s k db" for s k
    using True by (auto simp: is_running_def holds_job_def get_job_def get_lease_def split: option.splits)
  then have "lease_relation ?db" using inv by (simp add: queue_inv_def lease_relation_def)
  moreover have "r \<notin> wl_resource_key ` set (db_worker_leases db)"
    using True by (simp add: get_lease_def find_row_None_iff)
  ultimately have "queue_inv ?db" using inv by (auto simp: queue_inv_def worker_lease_row_ok_def)
  with True show ?thesis by (simp add: ensure_resource_def)
next
  case False
  with inv show ?thesis by (auto simp: ensure_resource_def)
qed

section \<open>What claiming can do\<close>

definition leased_to ::
  "worker_lease \<Rightarrow> reconstruction_job \<Rightarrow> string \<Rightarrow> int \<Rightarrow> uuid \<Rightarrow> time \<Rightarrow> worker_lease" where
  "leased_to lease job worker_id lease_seconds token now =
     lease\<lparr>wl_job_id := Some (job_id job), wl_worker_id := Some worker_id,
       wl_lease_token := Some token, wl_leased_at := Some now, wl_heartbeat_at := Some now,
       wl_expires_at := Some (now + seconds lease_seconds), wl_updated_at := now\<rparr>"

definition claim_of ::
  "reconstruction_job \<Rightarrow> string \<Rightarrow> string \<Rightarrow> int \<Rightarrow> bool \<Rightarrow> uuid \<Rightarrow> time \<Rightarrow> job_claim" where
  "claim_of job worker_id resource_key lease_seconds recovered token now =
     \<lparr>cl_job_id = job_id job, cl_worker_id = worker_id, cl_resource_key = resource_key,
      cl_lease_token = token, cl_expires_at = now + seconds lease_seconds,
      cl_status = job_status job, cl_attempt = job_attempt job,
      cl_execution_mode = job_execution_mode job, cl_recovered = recovered\<rparr>"

lemma leased_to_fields [simp]:
  "wl_resource_key (leased_to l j w n t now) = wl_resource_key l"
  "wl_job_id (leased_to l j w n t now) = Some (job_id j)"
  "wl_lease_token (leased_to l j w n t now) = Some t"
  "wl_worker_id (leased_to l j w n t now) = Some w"
  "wl_expires_at (leased_to l j w n t now) = Some (now + seconds n)"
  "worker_lease_row_ok (leased_to l j w n t now)"
  by (simp_all add: leased_to_def worker_lease_row_ok_def)

lemma lease_job_cases:
  "lease_job l j w r n b t now db = (Inl Integrity_error, db) \<or>
   lease_job l j w r n b t now db =
     (Inr (Some (claim_of j w r n b t now)), put_lease (leased_to l j w n t now) db)"
  by (auto simp: lease_job_def Let_def flush_lease_def claim_of_def leased_to_def)

lemma next_queued_jobD:
  assumes "next_queued_job locked mode db = Some j"
  shows "j \<in> set (db_jobs db)" "claimable locked mode j"
    "\<And>x. x \<in> set (db_jobs db) \<Longrightarrow> claimable locked mode x \<Longrightarrow> queue_order j \<le> queue_order x"
  using first_by_SomeD [OF assms [unfolded next_queued_job_def]] by auto

lemma next_queued_job_None:
  "next_queued_job locked mode db = None \<longleftrightarrow> (\<forall>j \<in> set (db_jobs db). \<not> claimable locked mode j)"
  by (auto simp: next_queued_job_def filter_empty_conv)

lemma claim_next_invalid:
  assumes "\<not> (valid_worker_id w \<and> valid_resource_key r \<and> valid_lease_seconds n \<and>
    mode \<in> {None, Some ''simulated'', Some ''real''})"
  shows "\<exists>msg. claim_next w r n mode t locked now db = (Inl (Value_error msg), db)"
proof (cases "valid_worker_id w \<and> valid_resource_key r \<and> valid_lease_seconds n")
  case True
  with assms have "mode \<notin> {None, Some ''simulated'', Some ''real''}" by blast
  with True show ?thesis unfolding claim_next_def by simp
next
  case False
  then show ?thesis unfolding claim_next_def by (cases "valid_worker_id w") auto
qed

text \<open>The five outcomes of \<open>claim_next\<close>.\<close>

lemma claim_next_cases:
  assumes inv: "queue_inv db" and res: "claim_next w r n mode t locked now db = (res, db')"
  obtains (Rejected) e where "res = Inl e" "db' = db"
  | (Busy) "res = Inr None" "db' = db"
  | (Idle) lease where "res = Inr None" "db' = put_lease (clear_lease lease now) db"
      "get_lease r db = Some lease" "wl_job_id lease = None" "next_queued_job locked mode db = None"
  | (Recovered) lease job where
      "res = Inr (Some (claim_of job w r n True t now))" "db' = put_lease (leased_to lease job w n t now) db"
      "get_lease r db = Some lease" "wl_job_id lease = Some (job_id job)" "\<not> is_active lease now"
      "get_job (job_id job) db = Some job" "job_status job \<in> running_statuses"
      "mode = None \<or> mode = Some (job_execution_mode job)"
  | (Started) lease job where
      "res = Inr (Some (claim_of (start_job job now) w r n False t now))"
      "db' = put_lease (leased_to lease (start_job job now) w n t now) (put_job (start_job job now) db)"
      "get_lease r db = Some lease" "wl_job_id lease = None"
      "get_job (job_id job) db = Some job" "next_queued_job locked mode db = Some job"
proof (cases "valid_worker_id w \<and> valid_resource_key r \<and> valid_lease_seconds n \<and>
    mode \<in> {None, Some ''simulated'', Some ''real''}")
  case False
  then show thesis using claim_next_invalid [of w r n mode t locked now db] res Rejected by fastforce
next
  case True
  let ?body = "claim_next_in_session w r n mode t locked now"
  from True res have tr: "transaction ?body db = (res, db')" by (auto simp: claim_next_def)
  show thesis
  proof (cases rule: transaction_cases [of ?body db])
    case Raise
    with tr show thesis by (intro Rejected) auto
  next
    case (Return x db1)
    with tr have body: "?body db = (Inr x, db')" and res: "res = Inr x" by auto
    then obtain lease where lease: "get_lease r db = Some lease"
      by (auto simp: claim_next_in_session_def split: option.splits)
    show thesis
    proof (cases "wl_job_id lease \<noteq> None \<and> is_active lease now")
      case True
      with body lease res show thesis by (intro Busy) (auto simp: claim_next_in_session_def)
    next
      case idle: False
      show thesis
      proof (cases "wl_job_id lease")
        case None
        then have rec: "recover_expired_job lease db = None" by (simp add: recover_expired_job_def)
        show thesis
        proof (cases "next_queued_job locked mode db")
          case None
          with body lease idle rec res \<open>wl_job_id lease = None\<close> show thesis
            by (intro Idle) (auto simp: claim_next_in_session_def)
        next
          case (Some job)
          then have st: "job_status job = QUEUED" using next_queued_jobD(2) by (simp add: claimable_def)
          then have "can_transition (job_status job) PREPARING"
            by (simp add: can_transition_iff allowed_transitions_simps)
          then have "lease_job lease (start_job job now) w r n False t now
              (put_job (start_job job now) db) = (Inr x, db')"
            using body lease idle rec Some
            by (auto simp: claim_next_in_session_def assert_transition_def Let_def)
          then show thesis
            using lease_job_cases [of lease "start_job job now" w r n False t now
              "put_job (start_job job now) db"] lease \<open>wl_job_id lease = None\<close> Some res
              get_job_in_set [OF inv next_queued_jobD(1) [OF Some]]
            by (intro Started) auto
        qed
      next
        case (Some k)
        obtain job where job: "get_job k db = Some job" and run: "job_status job \<in> running_statuses"
          using held_job_running [OF inv lease Some] by (auto simp: is_running_def split: option.splits)
        have id: "job_id job = k" by (rule job_rows.get_key [OF job])
        have rec: "recover_expired_job lease db = Some job"
          using job Some running_not_terminal [OF run] by (simp add: recover_expired_job_def)
        show thesis
        proof (cases "mode \<noteq> None \<and> mode \<noteq> Some (job_execution_mode job)")
          case True
          with body lease idle rec res show thesis
            by (intro Busy) (auto simp: claim_next_in_session_def split: if_splits)
        next
          case False
          then have "lease_job lease job w r n True t now db = (Inr x, db')"
            using body lease idle rec by (auto simp: claim_next_in_session_def)
          then show thesis
            using lease_job_cases [of lease job w r n True t now db] lease Some res job id run idle False
            by (intro Recovered) auto
        qed
      qed
    qed
  qed
qed

lemma start_job_fields [simp]:
  "job_id (start_job j now) = job_id j" "job_status (start_job j now) = PREPARING"
  "job_idempotency_key (start_job j now) = job_idempotency_key j"
  "job_version (start_job j now) = job_version j + 1"
  "job_progress (start_job j now) = job_progress j"
  "job_cancel_requested (start_job j now) = job_cancel_requested j"
  "job_user_id (start_job j now) = job_user_id j"
  "job_execution_mode (start_job j now) = job_execution_mode j"
  "job_attempt (start_job j now) = job_attempt j"
  "job_storage_cleaned_at (start_job j now) = job_storage_cleaned_at j"
  "job_input_cleaned_at (start_job j now) = job_input_cleaned_at j"
  "job_runtime_cleaned_at (start_job j now) = job_runtime_cleaned_at j"
  "job_artifacts_cleaned_at (start_job j now) = job_artifacts_cleaned_at j"
  by (simp_all add: start_job_def)

lemma start_job_consistent:
  "job_consistent j \<Longrightarrow> job_status j = QUEUED \<Longrightarrow> job_consistent (start_job j now)"
  by (simp add: job_consistent_open) (simp add: start_job_def split: option.split)

lemma start_claim_inv:
  assumes inv: "queue_inv db" and lease: "get_lease r db = Some lease" and free: "wl_job_id lease = None"
    and job: "get_job (job_id job) db = Some job" and queued: "job_status job = QUEUED"
  shows "queue_inv (put_lease (leased_to lease (start_job job now) w n t now)
    (put_job (start_job job now) db))" (is "queue_inv (put_lease ?l (put_job ?j db))")
proof (rule queue_inv_put_both [OF inv])
  have r: "wl_resource_key lease = r" by (rule lease_rows.get_key [OF lease])
  show j: "get_job (job_id ?j) db = Some job" using job by simp
  show "job_consistent ?j" by (rule start_job_consistent [OF queue_inv_get_job [OF inv job] queued])
  show l: "get_lease (wl_resource_key ?l) db = Some lease" using lease r by simp
  have run': "is_running k (put_lease ?l (put_job ?j db)) \<longleftrightarrow> is_running k db \<or> k = job_id job" for k
    using j by (simp add: is_running_put_job running_statuses_def)
  have hold': "holds_job s k (put_lease ?l (put_job ?j db)) \<longleftrightarrow>
      holds_job s k db \<or> s = r \<and> k = job_id job" for s k
    using l r lease free by (auto simp: holds_job_put_lease holds_job_def [of r])
  have "\<not> is_running (job_id job) db" using job queued by (simp add: is_running_def running_statuses_def)
  then have none: "\<not> holds_job s (job_id job) db" for s using running_held_iff [OF inv] by blast
  show "lease_relation (put_lease ?l (put_job ?j db))"
    unfolding lease_relation_def run' hold'
  proof (intro conjI allI)
    show "(is_running k db \<or> k = job_id job) = (\<exists>s. holds_job s k db \<or> s = r \<and> k = job_id job)" for k
      using running_held_iff [OF inv, of k] by blast
  qed (use none holder_unique [OF inv] in blast)
qed simp_all

lemma claim_next_inv:
  assumes inv: "queue_inv db" shows "queue_inv (snd (claim_next w r n mode t locked now db))"
proof -
  obtain res db' where res: "claim_next w r n mode t locked now db = (res, db')" by fastforce
  from inv res have "queue_inv db'"
  proof (cases rule: claim_next_cases)
    case (Idle lease)
    with inv show ?thesis by (auto intro: queue_inv_put_lease simp: lease_rows.get_key)
  next
    case (Recovered lease job)
    with inv show ?thesis by (auto intro!: queue_inv_put_lease simp: lease_rows.get_key)
  next
    case (Started lease job)
    have "job_status job = QUEUED" using next_queued_jobD(2) [OF Started(6)] by (simp add: claimable_def)
    then show ?thesis unfolding Started(2) by (rule start_claim_inv [OF inv Started(3,4,5)])
  qed (use inv in auto)
  with res show ?thesis by simp
qed

section \<open>The queue as a transition system\<close>

datatype queue_call =
    Ensure_resource string time
  | Enqueue enqueue_request time
  | Claim_next string string int "string option" uuid "uuid \<Rightarrow> bool" time
  | Heartbeat job_claim int time
  | Advance job_claim job_status "int option" "string option" time
  | Update_progress job_claim int time
  | Request_cancel uuid "uuid option" bool uuid time

inductive queue_step :: "queue_call \<Rightarrow> database \<Rightarrow> database \<Rightarrow> bool" where
  ensure: "ensure_resource r now db = (res, db') \<Longrightarrow> queue_step (Ensure_resource r now) db db'"
| enqueue: "enqueue q now db = (res, db') \<Longrightarrow> queue_step (Enqueue q now) db db'"
| claim: "claim_next w r n m t locked now db = (res, db') \<Longrightarrow>
    queue_step (Claim_next w r n m t locked now) db db'"
| heartbeat: "heartbeat c n now db = (res, db') \<Longrightarrow> queue_step (Heartbeat c n now) db db'"
| advance: "advance c t p e now db = (res, db') \<Longrightarrow> queue_step (Advance c t p e now) db db'"
| update_progress: "update_progress c n now db = (res, db') \<Longrightarrow>
    queue_step (Update_progress c n now) db db'"
| cancel: "request_cancel k u audit ev now db = (res, db') \<Longrightarrow>
    queue_step (Request_cancel k u audit ev now) db db'"

inductive_simps queue_step_simps:
  "queue_step (Ensure_resource r now) db db'"
  "queue_step (Enqueue q now) db db'"
  "queue_step (Claim_next w r n m t locked now) db db'"
  "queue_step (Heartbeat c n now) db db'"
  "queue_step (Advance c t p e now) db db'"
  "queue_step (Update_progress c n now) db db'"
  "queue_step (Request_cancel k u audit ev now) db db'"

definition queue_initial :: "database \<Rightarrow> bool" where
  "queue_initial db \<longleftrightarrow> db_jobs db = [] \<and> db_worker_leases db = []"

definition any_queue_step :: "database \<Rightarrow> database \<Rightarrow> bool" where
  "any_queue_step db db' \<longleftrightarrow> (\<exists>call. queue_step call db db')"

definition queue_reachable :: "database \<Rightarrow> bool" where
  "queue_reachable db \<longleftrightarrow> (\<exists>db0. queue_initial db0 \<and> any_queue_step\<^sup>*\<^sup>* db0 db)"

lemma queue_step_inv: "queue_step call db db' \<Longrightarrow> queue_inv db \<Longrightarrow> queue_inv db'"
  by (induction rule: queue_step.induct)
    (metis ensure_resource_inv enqueue_inv claim_next_inv heartbeat_inv advance_inv
      update_progress_inv request_cancel_inv snd_conv)+

lemma queue_initial_inv: "queue_initial db \<Longrightarrow> queue_inv db"
  by (simp add: queue_initial_def queue_inv_def lease_relation_def is_running_def holds_job_def
      get_job_def get_lease_def)

section \<open>Histories of jobs\<close>

definition job_later :: "reconstruction_job \<Rightarrow> reconstruction_job \<Rightarrow> bool" where
  "job_later j j' \<longleftrightarrow>
     job_id j' = job_id j \<and> job_user_id j' = job_user_id j \<and>
     job_execution_mode j' = job_execution_mode j \<and> job_attempt j' = job_attempt j \<and>
     can_transition\<^sup>*\<^sup>* (job_status j) (job_status j') \<and> job_progress j \<le> job_progress j' \<and>
     (job_cancel_requested j \<longrightarrow> job_cancel_requested j') \<and>
     job_idempotency_key j' = job_idempotency_key j \<and>
     job_storage_cleaned_at j' = job_storage_cleaned_at j \<and> job_input_cleaned_at j' = job_input_cleaned_at j \<and>
     job_runtime_cleaned_at j' = job_runtime_cleaned_at j \<and>
     job_artifacts_cleaned_at j' = job_artifacts_cleaned_at j \<and>
     job_version j \<le> job_version j' \<and> (job_version j' = job_version j \<longrightarrow> j' = j) \<and>
     (job_status j \<in> terminal_statuses \<longrightarrow> j' = j)"

definition jobs_later :: "database \<Rightarrow> database \<Rightarrow> bool" where
  "jobs_later db db' \<longleftrightarrow>
     (\<forall>k j. get_job k db = Some j \<longrightarrow> (\<exists>j'. get_job k db' = Some j' \<and> job_later j j'))"

lemma job_later_refl: "job_later j j"
  by (simp add: job_later_def)

lemma job_later_trans: "job_later a b \<Longrightarrow> job_later b c \<Longrightarrow> job_later a c"
  unfolding job_later_def by (elim conjE, intro conjI) auto

lemma jobs_later_refl: "jobs_later db db"
  by (auto simp: jobs_later_def job_later_refl)

lemma jobs_later_trans: "jobs_later a b \<Longrightarrow> jobs_later b c \<Longrightarrow> jobs_later a c"
  unfolding jobs_later_def by (meson job_later_trans)

lemma jobs_later_same: "(\<And>k. get_job k db' = get_job k db) \<Longrightarrow> jobs_later db db'"
  by (auto simp: jobs_later_def job_later_refl)

lemma jobs_later_put:
  assumes "get_job (job_id j') db = Some j" "job_later j j'"
  shows "jobs_later db (put_job j' db)"
  unfolding jobs_later_def
proof (intro allI impI)
  fix k x assume x: "get_job k db = Some x"
  show "\<exists>x'. get_job k (put_job j' db) = Some x' \<and> job_later x x'"
    using assms x by (cases "k = job_id j'") (auto simp: job_rows.get_put job_later_refl)
qed

lemma jobs_later_put_both:
  assumes "get_job (job_id j') db = Some j" "job_later j j'"
  shows "jobs_later db (put_lease l (put_job j' db))"
  using jobs_later_put [OF assms] by (simp add: jobs_later_def)

lemma jobs_later_add: "jobs_later db (add_task_event e db') = jobs_later db db'"
  by (simp add: jobs_later_def)

lemma heartbeat_jobs: "get_job k (snd (heartbeat c n now db)) = get_job k db"
  by (auto simp: heartbeat_def Let_def split: sum.split)

lemma advanced_job_later:
  assumes "job_consistent j" "can_transition (job_status j) t"
    and "case p of None \<Rightarrow> True | Some n \<Rightarrow> job_progress j \<le> n"
    and "job_status j \<notin> terminal_statuses"
  shows "job_later j (advanced_job t p e now j)"
proof -
  have "job_progress j \<le> 100" using assms(1) by (simp add: job_consistent_def reconstruction_job_row_ok_def)
  then have "job_progress j \<le> job_progress (advanced_job t p e now j)"
    using assms(3) by (auto simp: advanced_job_def Let_def split: option.splits)
  with assms(2,4) show ?thesis by (simp add: job_later_def r_into_rtranclp)
qed

lemma advance_later:
  assumes inv: "queue_inv db" shows "jobs_later db (snd (advance c t p e now db))"
proof (cases "advance_invalid t p e")
  case None
  show ?thesis
  proof (cases rule: transaction_cases [of "advance_in_session c t p e now" db])
    case Raise
    with None show ?thesis by (simp add: advance_def jobs_later_refl)
  next
    case (Return x db')
    then obtain lease job where own: "lock_owned_lease c now db = Inr (lease, job)"
      and tr: "can_transition (job_status job) t"
      and p: "case p of None \<Rightarrow> True | Some n \<Rightarrow> job_progress job \<le> n"
      and db': "db' = (if t \<in> terminal_statuses
        then put_lease (clear_lease lease now) (put_job (advanced_job t p e now job) db)
        else put_job (advanced_job t p e now job) db)"
      by (auto simp: advance_in_session_def assert_transition_Inl Let_def not_less
          split: sum.splits prod.splits if_splits transition_error.splits option.splits)
    note o = lock_owned_leaseD [OF own]
    have "job_later job (advanced_job t p e now job)"
      by (rule advanced_job_later [OF queue_inv_get_job [OF inv o(6)] tr p o(7)])
    then have "jobs_later db db'"
      unfolding db' using o(6,8) by (auto intro: jobs_later_put jobs_later_put_both)
    with Return None show ?thesis by (simp add: advance_def)
  qed
qed (simp add: advance_def jobs_later_refl)

lemma update_progress_later: "jobs_later db (snd (update_progress c n now db))"
proof (cases "lock_owned_lease c now db")
  case (Inr q)
  obtain lease job where q: "q = (lease, job)" by (cases q)
  note o = lock_owned_leaseD [OF Inr [unfolded q]]
  have "jobs_later db (put_job (job\<lparr>job_progress := n, job_updated_at := now,
      job_version := job_version job + 1\<rparr>) db)" if "job_progress job \<le> n"
    by (rule jobs_later_put [where j = job]) (use o that in \<open>auto simp: job_later_def\<close>)
  then show ?thesis by (auto simp: update_progress_def Inr q jobs_later_refl)
qed (simp add: update_progress_def jobs_later_refl)

lemma cancelled_job_later:
  assumes "cancelled_job now j = Some j'" "job_status j \<notin> terminal_statuses"
  shows "job_later j j'"
  using assms nonterminal_can_cancel [OF assms(2)]
  by (auto simp: cancelled_job_def job_later_def split: if_splits)

lemma request_cancel_later: "jobs_later db (snd (request_cancel k u audit ev now db))"
proof (cases "owned_job k u db")
  case (Some j)
  note job = owned_job_SomeD [OF Some]
  have "jobs_later db (put_job j' db)"
    if "cancelled_job now j = Some j'" "job_status j \<notin> terminal_statuses" for j'
    by (rule jobs_later_put [where j = j])
      (use job that cancelled_job_fields(1) [OF that(1)] cancelled_job_later [OF that] in auto)
  then show ?thesis
    by (auto simp: request_cancel_def Some Let_def jobs_later_refl jobs_later_add split: option.split)
qed (simp add: request_cancel_def jobs_later_refl)

lemma enqueue_later: "jobs_later db (snd (enqueue q now db))"
proof -
  have "get_job k db' = Some j" if "insert_job x db = Some db'" "get_job k db = Some j" for x k db' j
    using that by (auto simp: insert_job_def get_job_def split: if_splits)
  then show ?thesis
    by (auto simp: enqueue_snd enqueue_in_session_def jobs_later_def job_later_refl split: option.split)
qed

lemma ensure_resource_jobs: "get_job k (snd (ensure_resource r now db)) = get_job k db"
  by (auto simp: ensure_resource_def get_job_def)

lemma start_job_later: "job_status j = QUEUED \<Longrightarrow> job_later j (start_job j now)"
  by (auto simp: job_later_def can_transition_iff allowed_transitions_simps intro!: r_into_rtranclp)

lemma claim_next_later:
  assumes inv: "queue_inv db" and res: "claim_next w r n mode t locked now db = (res, db')"
  shows "jobs_later db db'"
  using assms
proof (cases rule: claim_next_cases)
  case (Started lease job)
  have "job_status job = QUEUED" using next_queued_jobD(2) [OF Started(6)] by (simp add: claimable_def)
  then have "job_later job (start_job job now)" by (rule start_job_later)
  with Started show ?thesis by (auto intro: jobs_later_put_both)
qed (auto intro: jobs_later_same)

lemma queue_step_later: "queue_step call db db' \<Longrightarrow> queue_inv db \<Longrightarrow> jobs_later db db'"
proof (induction rule: queue_step.induct)
  case (ensure r now db res db')
  then show ?case using ensure_resource_jobs [of _ r now db] by (auto intro: jobs_later_same)
next
  case (heartbeat c n now db res db')
  then show ?case using heartbeat_jobs [of _ c n now db] by (auto intro: jobs_later_same)
qed (metis enqueue_later claim_next_later advance_later update_progress_later request_cancel_later
    snd_conv)+

interpretation queue: history_system queue_initial any_queue_step queue_inv jobs_later
  by unfold_locales
    (auto simp: any_queue_step_def intro: queue_initial_inv queue_step_inv jobs_later_refl
      jobs_later_trans queue_step_later)

lemma queue_reachable_inv: "queue_reachable db \<Longrightarrow> queue_inv db"
  unfolding queue_reachable_def by (blast intro: queue.reachable_inv)

lemma queue_reachable_step: "queue_reachable db \<Longrightarrow> queue_step call db db' \<Longrightarrow> queue_reachable db'"
  unfolding queue_reachable_def
  by (meson any_queue_step_def rtranclp.rtrancl_into_rtrancl)

end
