(* ===== verification/Queue_Properties.thy ===== *)
theory Queue_Properties
  imports Queue_Contract
begin

text \<open>
  The properties of the job queue. The interface \<open>fenced_call\<close> states what a call under a claim
  promises (no effect once the lease is lost, no effect on other jobs and leases); the three calls
  of \<^verbatim>\<open>queue.py\<close> interpret it, and the stale-worker theorem rests on its lemmas. A small
  example database, built with the queue's own calls, serves the witnesses.
\<close>

section \<open>Calls under a claim are fenced\<close>

locale fenced_call =
  fixes call :: "job_claim \<Rightarrow> 'arg \<Rightarrow> time \<Rightarrow> database \<Rightarrow> (queue_error, 'a, database) outcome"
  assumes lost_call: "lock_owned_lease c now db = Inl Lease_lost \<Longrightarrow>
      (\<exists>e. call c a now db = (Inl e, db))"
    and other_jobs: "k \<noteq> cl_job_id c \<Longrightarrow> get_job k (snd (call c a now db)) = get_job k db"
    and other_leases: "r \<noteq> cl_resource_key c \<Longrightarrow> get_lease r (snd (call c a now db)) = get_lease r db"
    and no_new_token: "get_lease r (snd (call c a now db)) = Some l \<Longrightarrow>
      wl_lease_token l = None \<or> (\<exists>l0. get_lease r db = Some l0 \<and> wl_lease_token l = wl_lease_token l0)"
begin

lemma lost_call_unchanged: "lock_owned_lease c now db = Inl Lease_lost \<Longrightarrow> snd (call c a now db) = db"
  using lost_call [of c now db a] by auto

lemma lost_calls_unchanged:
  assumes "\<And>now. now \<in> snd ` set args \<Longrightarrow> lock_owned_lease c now db = Inl Lease_lost"
  shows "fold (\<lambda>(a, now) s. snd (call c a now s)) args db = db"
  using assms by (induction args) (auto simp: lost_call_unchanged)

lemma other_running: "k \<noteq> cl_job_id c \<Longrightarrow> is_running k (snd (call c a now db)) = is_running k db"
  by (simp add: is_running_def other_jobs)

end

definition advance_call where
  "advance_call c a now db = (case a of (t, p, e) \<Rightarrow> advance c t p e now db)"

lemma advance_effect:
  obtains (Failed) e' where "advance c t p e now db = (Inl e', db)"
  | (Moved) lease job where "advance_invalid t p e = None"
    "lock_owned_lease c now db = Inr (lease, job)" "can_transition (job_status job) t"
    "case p of None \<Rightarrow> True | Some n \<Rightarrow> job_progress job \<le> n"
    "advance c t p e now db = (Inr t, if t \<in> terminal_statuses
        then put_lease (clear_lease lease now) (put_job (advanced_job t p e now job) db)
        else put_job (advanced_job t p e now job) db)"
proof (cases "advance_invalid t p e")
  case (Some msg)
  then show thesis by (intro Failed) (simp add: advance_def)
next
  case None
  show thesis
  proof (cases rule: transaction_cases [of "advance_in_session c t p e now" db])
    case Raise
    with None show thesis by (intro Failed) (simp add: advance_def)
  next
    case (Return x db')
    then obtain lease job where own: "lock_owned_lease c now db = Inr (lease, job)"
      and tr: "can_transition (job_status job) t"
      and p: "case p of None \<Rightarrow> True | Some n \<Rightarrow> job_progress job \<le> n"
      and x: "x = t"
      and db': "db' = (if t \<in> terminal_statuses
        then put_lease (clear_lease lease now) (put_job (advanced_job t p e now job) db)
        else put_job (advanced_job t p e now job) db)"
      by (auto simp: advance_in_session_def assert_transition_Inl Let_def not_less
          split: sum.splits prod.splits if_splits transition_error.splits option.splits)
    show thesis
      by (rule Moved [OF None own tr p]) (use Return None x db' in \<open>simp add: advance_def\<close>)
  qed
qed

lemma heartbeat_effect:
  obtains (Failed) e' where "heartbeat c n now db = (Inl e', db)"
  | (Renewed) lease job where "valid_lease_seconds n" "lock_owned_lease c now db = Inr (lease, job)"
    "heartbeat c n now db =
      (Inr \<lparr>hb_expires_at = now + seconds n, hb_cancel_requested = job_cancel_requested job\<rparr>,
       put_lease (lease\<lparr>wl_heartbeat_at := Some now, wl_expires_at := Some (now + seconds n),
         wl_updated_at := now\<rparr>) db)"
  by (cases "lock_owned_lease c now db"; cases "valid_lease_seconds n")
    (auto simp: heartbeat_def Let_def)

lemma update_progress_effect:
  obtains (Failed) e' where "update_progress c n now db = (Inl e', db)"
  | (Same) lease job where "lock_owned_lease c now db = Inr (lease, job)" "n = job_progress job"
    "update_progress c n now db = (Inr n, db)"
  | (Raised) lease job where "lock_owned_lease c now db = Inr (lease, job)" "job_progress job < n"
    "update_progress c n now db = (Inr n, put_job (job\<lparr>job_progress := n, job_updated_at := now,
       job_version := job_version job + 1\<rparr>) db)"
  by (cases "lock_owned_lease c now db"; cases "0 \<le> n \<and> n < 100")
    (fastforce simp: update_progress_def split: if_splits)+

lemma get_lease_put_lease:
  assumes "get_lease r (put_lease l' db) = Some l" and "get_lease (wl_resource_key l') db = Some l0"
  shows "l = l' \<and> r = wl_resource_key l' \<or> get_lease r db = Some l"
  using assms by (cases "r = wl_resource_key l'") (auto simp: lease_rows.get_put lease_rows.get_put_other)

interpretation fenced_heartbeat: fenced_call heartbeat
proof
  fix c :: job_claim and n now db
  show "lock_owned_lease c now db = Inl Lease_lost \<Longrightarrow> \<exists>e. heartbeat c n now db = (Inl e, db)"
    by (simp add: heartbeat_def)
next
  fix k and c :: job_claim and n now db
  show "get_job k (snd (heartbeat c n now db)) = get_job k db" by (rule heartbeat_jobs)
next
  fix r and c :: job_claim and n now db assume "r \<noteq> cl_resource_key c"
  then show "get_lease r (snd (heartbeat c n now db)) = get_lease r db"
    by (cases rule: heartbeat_effect [of c n now db])
      (auto simp: lease_rows.get_put_other dest: lock_owned_leaseD)
next
  fix r and c :: job_claim and n now db l assume "get_lease r (snd (heartbeat c n now db)) = Some l"
  then show "wl_lease_token l = None \<or>
      (\<exists>l0. get_lease r db = Some l0 \<and> wl_lease_token l = wl_lease_token l0)"
  proof (cases rule: heartbeat_effect [of c n now db])
    case (Renewed lease job)
    note o = lock_owned_leaseD [OF Renewed(2)]
    from \<open>get_lease r (snd (heartbeat c n now db)) = Some l\<close> Renewed(3) o(1,9) show ?thesis
      by (auto dest!: get_lease_put_lease)
  qed auto
qed

interpretation fenced_advance: fenced_call advance_call
proof
  fix c :: job_claim and a :: "job_status \<times> int option \<times> string option" and now db
  show "lock_owned_lease c now db = Inl Lease_lost \<Longrightarrow> \<exists>e. advance_call c a now db = (Inl e, db)"
    by (cases a; cases "fst (snd a)")
      (auto simp: advance_call_def advance_def advance_in_session_def transaction_def split: option.split)
next
  fix k and c :: job_claim and a :: "job_status \<times> int option \<times> string option" and now db assume "k \<noteq> cl_job_id c"
  moreover obtain t p e where "a = (t, p, e)" by (cases a)
  ultimately show "get_job k (snd (advance_call c a now db)) = get_job k db"
    by (cases rule: advance_effect [of c t p e now db])
      (auto simp: advance_call_def job_rows.get_put_other dest: lock_owned_leaseD)
next
  fix r and c :: job_claim and a :: "job_status \<times> int option \<times> string option" and now db assume "r \<noteq> cl_resource_key c"
  moreover obtain t p e where "a = (t, p, e)" by (cases a)
  ultimately show "get_lease r (snd (advance_call c a now db)) = get_lease r db"
    by (cases rule: advance_effect [of c t p e now db])
      (auto simp: advance_call_def lease_rows.get_put_other dest: lock_owned_leaseD)
next
  fix r and c :: job_claim and a :: "job_status \<times> int option \<times> string option" and now db l assume l: "get_lease r (snd (advance_call c a now db)) = Some l"
  obtain t p e where a: "a = (t, p, e)" by (cases a)
  show "wl_lease_token l = None \<or>
      (\<exists>l0. get_lease r db = Some l0 \<and> wl_lease_token l = wl_lease_token l0)"
  proof (cases rule: advance_effect [of c t p e now db])
    case (Moved lease job)
    note o = lock_owned_leaseD [OF Moved(2)]
    show ?thesis
    proof (cases "t \<in> terminal_statuses")
      case True
      with l a Moved(5) have "get_lease r (put_lease (clear_lease lease now)
          (put_job (advanced_job t p e now job) db)) = Some l"
        by (simp add: advance_call_def)
      from get_lease_put_lease [OF this] o(1,9) show ?thesis by auto
    qed (use l a Moved(5) in \<open>simp add: advance_call_def\<close>)
  qed (use l a in \<open>auto simp: advance_call_def\<close>)
qed

interpretation fenced_update_progress: fenced_call update_progress
proof
  fix c :: job_claim and n now db
  show "lock_owned_lease c now db = Inl Lease_lost \<Longrightarrow> \<exists>e. update_progress c n now db = (Inl e, db)"
    by (simp add: update_progress_def)
next
  fix k and c :: job_claim and n now db assume "k \<noteq> cl_job_id c"
  then show "get_job k (snd (update_progress c n now db)) = get_job k db"
    by (cases rule: update_progress_effect [of c n now db])
      (auto simp: job_rows.get_put_other dest: lock_owned_leaseD)
next
  fix r and c :: job_claim and n now db
  show "get_lease r (snd (update_progress c n now db)) = get_lease r db"
    by (cases rule: update_progress_effect [of c n now db]) auto
next
  fix r and c :: job_claim and n now db l assume "get_lease r (snd (update_progress c n now db)) = Some l"
  then show "wl_lease_token l = None \<or>
      (\<exists>l0. get_lease r db = Some l0 \<and> wl_lease_token l = wl_lease_token l0)"
    by (cases rule: update_progress_effect [of c n now db]) auto
qed

section \<open>Runs\<close>

fun run_call :: "queue_call \<Rightarrow> database \<Rightarrow> database" where
  "run_call (Ensure_resource r now) db = snd (ensure_resource r now db)"
| "run_call (Enqueue q now) db = snd (enqueue q now db)"
| "run_call (Claim_next w r n m t locked now) db = snd (claim_next w r n m t locked now db)"
| "run_call (Heartbeat c n now) db = snd (heartbeat c n now db)"
| "run_call (Advance c t p e now) db = snd (advance c t p e now db)"
| "run_call (Update_progress c n now) db = snd (update_progress c n now db)"
| "run_call (Request_cancel k u audit ev now) db = snd (request_cancel k u audit ev now db)"

lemma run_call_step: "queue_step call db (run_call call db)"
  by (cases call) (simp_all add: queue_step_simps prod_eq_iff)

lemma queue_step_run: "queue_step call db db' \<Longrightarrow> db' = run_call call db"
  by (induction rule: queue_step.induct) simp_all

definition run_calls :: "queue_call list \<Rightarrow> database \<Rightarrow> database" where
  "run_calls calls db = fold run_call calls db"

lemma run_calls_simps [simp]:
  "run_calls [] db = db" "run_calls (call # calls) db = run_calls calls (run_call call db)"
  by (simp_all add: run_calls_def)

lemma run_calls_steps: "any_queue_step\<^sup>*\<^sup>* db (run_calls calls db)"
proof (induction calls arbitrary: db)
  case (Cons call calls)
  have "any_queue_step db (run_call call db)" using run_call_step by (auto simp: any_queue_step_def)
  with Cons show ?case by (simp add: converse_rtranclp_into_rtranclp)
qed simp

lemma run_calls_reachable: "queue_reachable db \<Longrightarrow> queue_reachable (run_calls calls db)"
  using run_calls_steps [of db calls] unfolding queue_reachable_def by (meson rtranclp_trans)

lemma run_calls_later: "queue_reachable db \<Longrightarrow> jobs_later db (run_calls calls db)"
  using run_calls_steps queue_reachable_inv queue.steps_later by blast

text \<open>A lease token that is nowhere on a resource stays away until a claim draws it again.\<close>

definition token_absent :: "string \<Rightarrow> uuid \<Rightarrow> database \<Rightarrow> bool" where
  "token_absent r tok db =
     (case get_lease r db of None \<Rightarrow> True | Some l \<Rightarrow> wl_lease_token l \<noteq> Some tok)"

fun draws_token :: "uuid \<Rightarrow> queue_call \<Rightarrow> bool" where
  "draws_token tok (Claim_next w r n m t locked now) = (t = tok)"
| "draws_token tok _ = False"

lemma absent_lost: "token_absent (cl_resource_key c) (cl_lease_token c) db \<Longrightarrow>
    lock_owned_lease c now db = Inl Lease_lost"
  by (auto simp: token_absent_def lock_owned_lease_def split: option.splits)

lemma token_absent_from:
  assumes "token_absent r tok db"
    and "\<And>l. get_lease r db' = Some l \<Longrightarrow> wl_lease_token l = None \<or> wl_lease_token l = Some t \<or>
      (\<exists>l0. get_lease r db = Some l0 \<and> wl_lease_token l = wl_lease_token l0)"
    and "t \<noteq> tok"
  shows "token_absent r tok db'"
  using assms by (auto simp: token_absent_def split: option.splits)

lemma enqueue_lease: "get_lease r (snd (enqueue q now db)) = get_lease r db"
  by (auto simp: enqueue_snd enqueue_in_session_def insert_job_def get_lease_def split: option.split)

lemma request_cancel_lease: "get_lease r (snd (request_cancel k u audit ev now db)) = get_lease r db"
  by (auto simp: request_cancel_def Let_def split: option.split)

lemma ensure_resource_lease:
  "get_lease r (snd (ensure_resource r' now db)) = Some l \<Longrightarrow>
     wl_lease_token l = None \<or> get_lease r db = Some l"
  by (auto simp: ensure_resource_def get_lease_def split: if_splits option.splits)

lemma claim_next_tokens:
  assumes inv: "queue_inv db" and l: "get_lease r' (snd (claim_next w r n m t locked now db)) = Some l"
  shows "wl_lease_token l = None \<or> wl_lease_token l = Some t \<or> get_lease r' db = Some l"
proof -
  obtain res db' where res: "claim_next w r n m t locked now db = (res, db')" by fastforce
  with l have l: "get_lease r' db' = Some l" by simp
  from inv res show ?thesis
  proof (cases rule: claim_next_cases)
    case (Idle lease)
    from get_lease_put_lease [OF l [unfolded Idle(2)]] Idle(3) show ?thesis
      by (auto simp: lease_rows.get_key)
  next
    case (Recovered lease job)
    from get_lease_put_lease [OF l [unfolded Recovered(2)]] Recovered(3) show ?thesis
      by (auto simp: lease_rows.get_key)
  next
    case (Started lease job)
    from get_lease_put_lease [OF l [unfolded Started(2)]] Started(3) show ?thesis
      by (auto simp: lease_rows.get_key)
  qed (use l in auto)
qed

lemma run_call_absent:
  assumes inv: "queue_inv db" and absent: "token_absent r tok db" and draw: "\<not> draws_token tok call"
  shows "token_absent r tok (run_call call db)"
proof (cases call)
  case (Claim_next w r' n m t locked now)
  then show ?thesis
    using claim_next_tokens [OF inv, of r w r' n m t locked now] draw
    by (auto intro!: token_absent_from [OF absent, of _ t])
next
  case (Heartbeat c n now)
  then show ?thesis
    using fenced_heartbeat.no_new_token [of r c n now db]
    by (auto intro!: token_absent_from [OF absent, of _ "Suc tok"])
next
  case (Advance c t p e now)
  then show ?thesis
    using fenced_advance.no_new_token [of r c "(t, p, e)" now db]
    by (auto simp: advance_call_def intro!: token_absent_from [OF absent, of _ "Suc tok"])
next
  case (Update_progress c n now)
  then show ?thesis
    using fenced_update_progress.no_new_token [of r c n now db]
    by (auto intro!: token_absent_from [OF absent, of _ "Suc tok"])
next
  case (Ensure_resource r' now)
  then show ?thesis
    using ensure_resource_lease [of r r' now db]
    by (auto intro!: token_absent_from [OF absent, of _ "Suc tok"])
qed (use absent in \<open>simp_all add: token_absent_def enqueue_lease request_cancel_lease\<close>)

lemma run_calls_absent:
  "queue_inv db \<Longrightarrow> token_absent r tok db \<Longrightarrow> \<forall>call \<in> set calls. \<not> draws_token tok call \<Longrightarrow>
     token_absent r tok (run_calls calls db)"
  by (induction calls arbitrary: db)
    (auto intro: run_call_absent queue_step_inv [OF run_call_step])

lemma claim_token:
  assumes "queue_inv db" and "claim_next w r n m t locked now db = (Inr (Some c), db')"
  obtains l where "get_lease r db' = Some l" "wl_lease_token l = Some t" "cl_lease_token c = t"
    "cl_resource_key c = r" "wl_job_id l = Some (cl_job_id c)"
  using assms
proof (cases rule: claim_next_cases)
  case (Recovered lease job)
  then show thesis
    by (intro that [of "leased_to lease job w n t now"])
      (auto simp: claim_of_def lease_rows.get_put lease_rows.get_key)
next
  case (Started lease job)
  then show thesis
    by (intro that [of "leased_to lease (start_job job now) w n t now"])
      (auto simp: claim_of_def lease_rows.get_put lease_rows.get_key)
qed auto

definition claim_valid :: "string \<Rightarrow> string \<Rightarrow> int \<Rightarrow> string option \<Rightarrow> bool" where
  "claim_valid w r n mode \<longleftrightarrow> valid_worker_id w \<and> valid_resource_key r \<and> valid_lease_seconds n \<and>
     mode \<in> {None, Some ''simulated'', Some ''real''}"

definition token_unused :: "uuid \<Rightarrow> database \<Rightarrow> bool" where
  "token_unused t db \<longleftrightarrow> (\<forall>l \<in> set (db_worker_leases db). wl_lease_token l \<noteq> Some t)"

lemma claim_next_valid:
  "claim_valid w r n mode \<Longrightarrow> claim_next w r n mode t locked now db =
     transaction (claim_next_in_session w r n mode t locked now) db"
  unfolding claim_valid_def claim_next_def by simp

lemma not_held_elsewhere:
  assumes "queue_inv db" "l \<in> set (db_worker_leases db)" "\<not> is_running k db"
  shows "wl_job_id l \<noteq> Some k"
  using held_job_running [OF assms(1) get_lease_in_set [OF assms(1,2)]] assms(3) by auto

lemma lease_job_fresh:
  assumes "token_unused t db"
    and "\<And>l. l \<in> set (db_worker_leases db) \<Longrightarrow> wl_resource_key l \<noteq> wl_resource_key lease \<Longrightarrow>
      wl_job_id l \<noteq> Some (job_id job)"
  shows "lease_job lease job w r n b t now db =
     (Inr (Some (claim_of job w r n b t now)), put_lease (leased_to lease job w n t now) db)"
  using assms by (auto simp: lease_job_def flush_lease_def Let_def leased_to_def claim_of_def token_unused_def)

text \<open>On a free resource a claim starts the next job of the queue; it never fails.\<close>

lemma claim_next_free:
  assumes inv: "queue_inv db" and valid: "claim_valid w r n mode" and unused: "token_unused t db"
    and lease: "get_lease r db = Some lease" and free: "wl_job_id lease = None"
    and nxt: "next_queued_job locked mode db = Some job"
  shows "claim_next w r n mode t locked now db =
     (Inr (Some (claim_of (start_job job now) w r n False t now)),
      put_lease (leased_to lease (start_job job now) w n t now) (put_job (start_job job now) db))"
proof -
  note job = next_queued_jobD [OF nxt]
  have queued: "job_status job = QUEUED" using job(2) by (simp add: claimable_def)
  have "\<not> is_running (job_id job) db"
    using get_job_in_set [OF inv job(1)] queued by (simp add: is_running_def running_statuses_def)
  then have held: "l \<in> set (db_worker_leases db) \<Longrightarrow> wl_job_id l \<noteq> Some (job_id job)" for l
    using not_held_elsewhere [OF inv] by blast
  have "can_transition QUEUED PREPARING"
    by (simp add: can_transition_iff allowed_transitions_simps)
  moreover have "lease_job lease (start_job job now) w r n False t now (put_job (start_job job now) db) =
     (Inr (Some (claim_of (start_job job now) w r n False t now)),
      put_lease (leased_to lease (start_job job now) w n t now) (put_job (start_job job now) db))"
    by (rule lease_job_fresh) (use unused held in \<open>simp_all add: token_unused_def\<close>)
  ultimately show ?thesis
    using lease free nxt queued
    by (simp add: claim_next_valid [OF valid] claim_next_in_session_def recover_expired_job_def Let_def
        assert_transition_def)
qed

text \<open>On a resource whose lease expired the job it holds is claimed again.\<close>

lemma claim_next_expired:
  assumes inv: "queue_inv db" and valid: "claim_valid w r n mode" and unused: "token_unused t db"
    and lease: "get_lease r db = Some lease" and held: "wl_job_id lease = Some k"
    and expired: "\<not> is_active lease now" and job: "get_job k db = Some job"
  shows "claim_next w r n mode t locked now db =
     (if mode \<noteq> None \<and> mode \<noteq> Some (job_execution_mode job) then (Inr None, db)
      else (Inr (Some (claim_of job w r n True t now)), put_lease (leased_to lease job w n t now) db))"
proof -
  have "is_running k db" by (rule held_job_running [OF inv lease held])
  then have run: "job_status job \<notin> terminal_statuses"
    using job running_not_terminal by (simp add: is_running_def)
  have id: "job_id job = k" by (rule job_rows.get_key [OF job])
  have r: "wl_resource_key lease = r" by (rule lease_rows.get_key [OF lease])
  have hold: "holds_job r k db" using lease held by (simp add: holds_job_def)
  have others: "wl_job_id l \<noteq> Some k" if "l \<in> set (db_worker_leases db)" "wl_resource_key l \<noteq> r" for l
  proof
    assume "wl_job_id l = Some k"
    then have "holds_job (wl_resource_key l) k db"
      using get_lease_in_set [OF inv that(1)] by (simp add: holds_job_def)
    with holder_unique [OF inv hold] that(2) show False by simp
  qed
  have "lease_job lease job w r n True t now db =
     (Inr (Some (claim_of job w r n True t now)), put_lease (leased_to lease job w n t now) db)"
    by (rule lease_job_fresh [OF unused]) (use others id r in simp)
  with lease held expired job run show ?thesis
    by (simp add: claim_next_valid [OF valid] claim_next_in_session_def recover_expired_job_def)
qed

section \<open>An example database\<close>

definition demo_request :: "uuid \<Rightarrow> char \<Rightarrow> int \<Rightarrow> enqueue_request" where
  "demo_request k digit priority =
     \<lparr>eq_job_id = k, eq_user_id = 1, eq_execution_mode = ''real'', eq_pipeline_tag = ''v1'',
      eq_pipeline_commit = replicate 40 (CHR ''c''), eq_config_sha256 = replicate 64 (CHR ''a''),
      eq_input_manifest_sha256 = replicate 64 (CHR ''b''), eq_idempotency_key = replicate 64 digit,
      eq_priority = priority, eq_attempt = 1, eq_storage_reserved_bytes = 0\<rparr>"

definition demo_queued :: database where
  "demo_queued = run_calls
     [Ensure_resource ''gpu:0'' 0, Enqueue (demo_request 7 (CHR ''1'') 0) 10,
      Enqueue (demo_request 8 (CHR ''2'') 5) 20] demo_init"

definition demo_claim_call :: queue_call where
  "demo_claim_call = Claim_next ''w1'' ''gpu:0'' 60 None 900 (\<lambda>_. False) 100"

definition demo_claim :: job_claim where
  "demo_claim = claim_of (start_job (queued_job (demo_request 8 (CHR ''2'') 5) 20) 100)
     ''w1'' ''gpu:0'' 60 False 900 100"

definition demo_claimed :: database where
  "demo_claimed = run_call demo_claim_call demo_queued"

lemma demo_init_reachable: "queue_reachable demo_init"
  unfolding queue_reachable_def
  by (rule exI [of _ demo_init])
    (simp add: queue_initial_def demo_init_def empty_database_def)

lemma demo_reachable: "queue_reachable demo_queued" "queue_reachable demo_claimed"
proof -
  show q: "queue_reachable demo_queued"
    unfolding demo_queued_def by (rule run_calls_reachable [OF demo_init_reachable])
  show "queue_reachable demo_claimed"
    unfolding demo_claimed_def by (rule queue_reachable_step [OF q run_call_step])
qed

lemma hex_string_replicate [simp]: "hex_string n (replicate n c) \<longleftrightarrow> is_hex c \<or> n = 0"
  by (simp add: hex_string_def list_all_iff)

lemma demo_request_valid: "is_hex digit \<Longrightarrow> enqueue_invalid (demo_request k digit p) = None"
  by (simp add: enqueue_invalid_def demo_request_def valid_sha256_def char_class_defs)

definition demo_job :: "uuid \<Rightarrow> char \<Rightarrow> int \<Rightarrow> time \<Rightarrow> reconstruction_job" where
  "demo_job k digit priority now = queued_job (demo_request k digit priority) now"

definition demo_free_lease :: worker_lease where
  "demo_free_lease =
     \<lparr>wl_resource_key = ''gpu:0'', wl_job_id = None, wl_worker_id = None, wl_lease_token = None,
      wl_leased_at = None, wl_heartbeat_at = None, wl_expires_at = None, wl_updated_at = 0\<rparr>"

lemma demo_job_fields [simp]:
  "job_id (demo_job k d p now) = k" "job_user_id (demo_job k d p now) = 1"
  "job_status (demo_job k d p now) = QUEUED" "job_idempotency_key (demo_job k d p now) = replicate 64 d"
  "job_priority (demo_job k d p now) = p" "job_queued_at (demo_job k d p now) = now"
  "job_created_at (demo_job k d p now) = now" "\<not> job_cancel_requested (demo_job k d p now)"
  "job_execution_mode (demo_job k d p now) = ''real''" "job_progress (demo_job k d p now) = 0"
  "job_version (demo_job k d p now) = 1" "reconstruction_job_row_ok (demo_job k d p now)"
  by (simp_all add: demo_job_def queued_job_def demo_request_def reconstruction_job_row_ok_def)

lemma demo_resource_key: "valid_resource_key ''gpu:0''"
  by (simp add: valid_resource_key_def fullmatch_def char_class_defs)

lemma demo_worker_id: "valid_worker_id ''w1''"
  by (simp add: valid_worker_id_def fullmatch_def char_class_defs)

lemma demo_queued_eq:
  "demo_queued = demo_init\<lparr>db_worker_leases := [demo_free_lease],
     db_jobs := [demo_job 7 (CHR ''1'') 0 10, demo_job 8 (CHR ''2'') 5 20]\<rparr>"
proof -
  have "is_hex (CHR ''1'')" "is_hex (CHR ''2'')" by (simp_all add: char_class_defs)
  then show ?thesis
    by (simp add: demo_queued_def ensure_resource_def demo_resource_key demo_init_def empty_database_def
        get_lease_def demo_free_lease_def enqueue_snd enqueue_in_session_def demo_request_valid
        insert_job_def get_user_def demo_user_def demo_job_def [symmetric])
qed

lemma demo_lease: "get_lease ''gpu:0'' demo_queued = Some demo_free_lease"
  by (simp add: demo_queued_eq get_lease_def demo_free_lease_def)

lemma demo_jobs:
  "get_job 7 demo_queued = Some (demo_job 7 (CHR ''1'') 0 10)"
  "get_job 8 demo_queued = Some (demo_job 8 (CHR ''2'') 5 20)"
  by (simp_all add: demo_queued_eq get_job_def)

lemma demo_next:
  "next_queued_job (\<lambda>_. False) None demo_queued = Some (demo_job 8 (CHR ''2'') 5 20)"
  by (simp add: next_queued_job_def demo_queued_eq claimable_def first_by_def queue_order_def)

lemma demo_claim_valid: "claim_valid ''w1'' ''gpu:0'' 60 None"
  by (simp add: claim_valid_def demo_worker_id demo_resource_key valid_lease_seconds_def)

lemma demo_token_unused: "token_unused t demo_queued"
  by (simp add: token_unused_def demo_queued_eq demo_free_lease_def)

lemma demo_claim_next:
  "claim_next ''w1'' ''gpu:0'' 60 None 900 (\<lambda>_. False) 100 demo_queued = (Inr (Some demo_claim), demo_claimed)"
proof -
  have "wl_job_id demo_free_lease = None" by (simp add: demo_free_lease_def)
  from claim_next_free [OF queue_reachable_inv [OF demo_reachable(1)] demo_claim_valid
      demo_token_unused demo_lease this demo_next, of 900 100]
  show ?thesis by (simp add: demo_claim_def demo_job_def demo_claimed_def demo_claim_call_def)
qed

definition demo_running_job :: reconstruction_job where
  "demo_running_job = start_job (demo_job 8 (CHR ''2'') 5 20) 100"

definition demo_held_lease :: worker_lease where
  "demo_held_lease = leased_to demo_free_lease demo_running_job ''w1'' 60 900 100"

lemma demo_claimed_eq:
  "demo_claimed = put_lease demo_held_lease (put_job demo_running_job demo_queued)"
proof -
  have "wl_job_id demo_free_lease = None" by (simp add: demo_free_lease_def)
  from claim_next_free [OF queue_reachable_inv [OF demo_reachable(1)] demo_claim_valid
      demo_token_unused demo_lease this demo_next, of 900 100]
  show ?thesis by (simp add: demo_claim_next demo_held_lease_def demo_running_job_def)
qed

lemma demo_claimed_rows:
  "get_lease ''gpu:0'' demo_claimed = Some demo_held_lease"
  "get_job 8 demo_claimed = Some demo_running_job"
  "get_job 7 demo_claimed = Some (demo_job 7 (CHR ''1'') 0 10)"
  "wl_job_id demo_held_lease = Some 8" "wl_expires_at demo_held_lease = Some 60000100"
  "wl_lease_token demo_held_lease = Some 900" "wl_worker_id demo_held_lease = Some ''w1''"
  "job_status demo_running_job = PREPARING" "job_user_id demo_running_job = 1"
  "job_progress demo_running_job = 0" "job_execution_mode demo_running_job = ''real''"
  "\<not> job_cancel_requested demo_running_job"
  using demo_lease demo_jobs
  by (auto simp: demo_claimed_eq demo_held_lease_def demo_running_job_def lease_rows.get_put
      job_rows.get_put demo_free_lease_def)

lemma demo_claim_fields:
  "cl_job_id demo_claim = 8" "cl_resource_key demo_claim = ''gpu:0''"
  "cl_lease_token demo_claim = 900" "cl_worker_id demo_claim = ''w1''"
  by (simp_all add: demo_claim_def claim_of_def demo_job_def [symmetric])

lemma demo_owned:
  "now < 60000100 \<Longrightarrow> lock_owned_lease demo_claim now demo_claimed = Inr (demo_held_lease, demo_running_job)"
  by (simp add: lock_owned_lease_def demo_claim_fields demo_claimed_rows is_active_def)

end
