(* ===== verification/Queue_Theorems.thy ===== *)
theory Queue_Theorems
  imports Queue_Properties
begin

text \<open>
  The properties of the job queue, each over all reachable databases and, where it matters, over
  every later run of queue calls, with witnesses on the example database of \<open>Queue_Properties\<close>.
\<close>

lemma claim_not_recovered:
  assumes inv: "queue_inv db"
    and res: "claim_next w r n mode t locked now db = (Inr (Some c), db')" and "\<not> cl_recovered c"
  obtains lease job where "c = claim_of (start_job job now) w r n False t now"
    "db' = put_lease (leased_to lease (start_job job now) w n t now) (put_job (start_job job now) db)"
    "get_lease r db = Some lease" "wl_job_id lease = None"
    "get_job (job_id job) db = Some job" "next_queued_job locked mode db = Some job"
  using inv res
proof (cases rule: claim_next_cases)
  case (Recovered lease job)
  with assms(3) show thesis by (simp add: claim_of_def)
next
  case (Started lease job)
  then show thesis by (intro that) auto
qed auto

section \<open>One holder, one order\<close>

text \<open>
  C1. In every reachable database a job is in a running status exactly when one resource, and only
  one, holds it: no job runs twice and no running job is lost.
\<close>

theorem running_job_held_once:
  assumes "queue_reachable db"
  shows "is_running k db \<longleftrightarrow> (\<exists>!r. holds_job r k db)"
  using running_held_iff [OF queue_reachable_inv [OF assms]] holder_unique [OF queue_reachable_inv [OF assms]]
  by blast

theorem running_job_held_once_witness: "\<exists>!r. holds_job r 8 demo_claimed"
proof -
  have "is_running 8 demo_claimed"
    by (simp add: is_running_def demo_claimed_rows running_statuses_def)
  then show ?thesis using running_job_held_once [OF demo_reachable(2), of 8] by simp
qed

text \<open>
  C2. Once a resource was leased again under another token, every call under the old claim
  (heartbeat, advance, progress) fails and changes nothing, after any further run of the queue in
  which that token is not drawn again.
\<close>

theorem superseded_claim_is_dead:
  assumes "queue_reachable db"
    and "claim_next w (cl_resource_key c) n m t locked now db = (Inr (Some c'), db1)"
    and "t \<noteq> cl_lease_token c"
    and "\<forall>call \<in> set calls. \<not> draws_token (cl_lease_token c) call"
    and "db2 = run_calls calls db1"
  shows "(\<exists>e. heartbeat c n' now' db2 = (Inl e, db2)) \<and>
    (\<exists>e. advance c s p code now' db2 = (Inl e, db2)) \<and>
    (\<exists>e. update_progress c q now' db2 = (Inl e, db2))"
proof -
  have inv: "queue_inv db" by (rule queue_reachable_inv [OF assms(1)])
  have inv1: "queue_inv db1" using claim_next_inv [OF inv] assms(2) by (metis snd_conv)
  obtain l where "get_lease (cl_resource_key c) db1 = Some l" "wl_lease_token l = Some t"
    by (rule claim_token [OF inv assms(2)])
  then have "token_absent (cl_resource_key c) (cl_lease_token c) db1"
    using assms(3) by (simp add: token_absent_def)
  then have "token_absent (cl_resource_key c) (cl_lease_token c) db2"
    unfolding assms(5) by (rule run_calls_absent [OF inv1 _ assms(4)])
  then have lost: "lock_owned_lease c now' db2 = Inl Lease_lost" by (rule absent_lost)
  show ?thesis
    using fenced_heartbeat.lost_call [OF lost] fenced_update_progress.lost_call [OF lost]
      fenced_advance.lost_call [OF lost, of "(s, p, code)"]
    by (simp add: advance_call_def)
qed

lemma demo_reclaim:
  "claim_next ''w1'' ''gpu:0'' 60 None 901 (\<lambda>_. False) 70000000 demo_claimed =
     (Inr (Some (claim_of demo_running_job ''w1'' ''gpu:0'' 60 True 901 70000000)),
      put_lease (leased_to demo_held_lease demo_running_job ''w1'' 60 901 70000000) demo_claimed)"
proof -
  have unused: "token_unused 901 demo_claimed"
    using demo_claimed_rows(6)
    by (simp add: token_unused_def demo_claimed_eq demo_queued_eq demo_held_lease_def demo_free_lease_def)
  have expired: "\<not> is_active demo_held_lease 70000000" by (simp add: is_active_def demo_claimed_rows)
  show ?thesis
    using claim_next_expired [OF queue_reachable_inv [OF demo_reachable(2)] demo_claim_valid unused
      demo_claimed_rows(1,4) expired demo_claimed_rows(2)] by simp
qed

theorem superseded_claim_is_dead_witness:
  "\<exists>e. advance demo_claim SFM None None 70000001
     (run_calls [] (run_call (Claim_next ''w1'' ''gpu:0'' 60 None 901 (\<lambda>_. False) 70000000) demo_claimed)) =
     (Inl e, run_call (Claim_next ''w1'' ''gpu:0'' 60 None 901 (\<lambda>_. False) 70000000) demo_claimed)"
  using superseded_claim_is_dead [where c = demo_claim and calls = "[]", OF demo_reachable(2)]
    demo_reclaim demo_claim_fields by simp

lemma queue_order_le:
  "queue_order j \<le> queue_order x \<longleftrightarrow> job_priority x < job_priority j \<or>
     job_priority x = job_priority j \<and> (job_queued_at j < job_queued_at x \<or>
       job_queued_at j = job_queued_at x \<and> job_created_at j \<le> job_created_at x)"
  by (auto simp: queue_order_def less_eq_prod_def)

text \<open>
  C3. A claim that starts a job takes the first job of the queue: no claimable job has a higher
  priority, or the same priority and an earlier place. The job moves to preparing under the lease
  of the resource, and every other job and lease stays as it is.
\<close>

theorem claim_next_takes_first:
  assumes "queue_reachable db"
    and "claim_next w r n mode t locked now db = (Inr (Some c), db')" and "\<not> cl_recovered c"
  shows "\<exists>j. get_job (cl_job_id c) db = Some j \<and> claimable locked mode j \<and>
    (\<forall>x \<in> set (db_jobs db). claimable locked mode x \<longrightarrow> job_priority x < job_priority j \<or>
       job_priority x = job_priority j \<and> (job_queued_at j < job_queued_at x \<or>
         job_queued_at j = job_queued_at x \<and> job_created_at j \<le> job_created_at x)) \<and>
    get_job (cl_job_id c) db' = Some (start_job j now) \<and> holds_job r (cl_job_id c) db' \<and>
    (\<forall>k. k \<noteq> cl_job_id c \<longrightarrow> get_job k db' = get_job k db) \<and>
    (\<forall>s. s \<noteq> r \<longrightarrow> get_lease s db' = get_lease s db)"
proof -
  obtain lease job where c: "c = claim_of (start_job job now) w r n False t now"
    and db': "db' = put_lease (leased_to lease (start_job job now) w n t now) (put_job (start_job job now) db)"
    and lease: "get_lease r db = Some lease"
    and job: "get_job (job_id job) db = Some job" "next_queued_job locked mode db = Some job"
    by (rule claim_not_recovered [OF queue_reachable_inv [OF assms(1)] assms(2,3)])
  have k: "cl_job_id c = job_id job" by (simp add: c claim_of_def)
  show ?thesis
    unfolding k using job lease next_queued_jobD(2,3) [OF job(2), unfolded queue_order_le] lease_rows.get_key [OF lease]
    by (intro exI [of _ job])
      (auto simp: db' job_rows.get_put job_rows.get_put_other lease_rows.get_put lease_rows.get_put_other
        holds_job_def)
qed

theorem claim_next_takes_first_witness:
  "\<exists>j. get_job 8 demo_queued = Some j \<and> (\<forall>x \<in> set (db_jobs demo_queued).
     claimable (\<lambda>_. False) None x \<longrightarrow> job_priority x \<le> job_priority j)"
proof -
  have "\<not> cl_recovered demo_claim" by (simp add: demo_claim_def claim_of_def)
  from claim_next_takes_first [OF demo_reachable(1) demo_claim_next this] demo_claim_fields(1)
  show ?thesis by fastforce
qed

text \<open>
  C4. The queue never stalls: a valid call on a free resource, with a fresh token and at least one
  claimable job, returns a claim; no error and no idle answer is possible.
\<close>

theorem claim_next_never_stalls:
  assumes "queue_reachable db" and "claim_valid w r n mode" and "token_unused t db"
    and "get_lease r db = Some lease" and "wl_job_id lease = None"
    and "j \<in> set (db_jobs db)" and "claimable locked mode j"
  shows "\<exists>c. fst (claim_next w r n mode t locked now db) = Inr (Some c) \<and> \<not> cl_recovered c \<and>
    fst (heartbeat c n now (snd (claim_next w r n mode t locked now db))) =
      Inr \<lparr>hb_expires_at = now + seconds n, hb_cancel_requested = False\<rparr>"
proof -
  have inv: "queue_inv db" by (rule queue_reachable_inv [OF assms(1)])
  obtain job where nxt: "next_queued_job locked mode db = Some job"
    using assms(6,7) next_queued_job_None [of locked mode db] by fastforce
  note eq = claim_next_free [OF inv assms(2-5) nxt, of now]
  note job = next_queued_jobD [OF nxt]
  have n: "valid_lease_seconds n" using assms(2) by (simp add: claim_valid_def)
  then have "0 < n" by (simp add: valid_lease_seconds_def)
  then show ?thesis
    using eq n assms(4) lease_rows.get_key [OF assms(4)] get_job_in_set [OF inv job(1)] job(2)
    by (simp add: heartbeat_def lock_owned_lease_def claim_of_def lease_rows.get_put job_rows.get_put
        is_active_def claimable_def Let_def)
qed

theorem claim_next_never_stalls_witness:
  "\<exists>c. fst (claim_next ''w1'' ''gpu:0'' 60 None 900 (\<lambda>_. False) 100 demo_queued) = Inr (Some c)"
proof -
  have "wl_job_id demo_free_lease = None" by (simp add: demo_free_lease_def)
  moreover have "demo_job 7 (CHR ''1'') 0 10 \<in> set (db_jobs demo_queued)" by (simp add: demo_queued_eq)
  moreover have "claimable (\<lambda>_. False) None (demo_job 7 (CHR ''1'') 0 10)" by (simp add: claimable_def)
  ultimately show ?thesis
    using claim_next_never_stalls [OF demo_reachable(1) demo_claim_valid demo_token_unused demo_lease]
    by blast
qed

text \<open>
  A job whose lease expired is not lost: the next claim on its resource that accepts its mode
  returns the same job, in the status and with the row it had, and only the new holder owns it.
\<close>

theorem expired_lease_is_recovered:
  assumes "queue_reachable db" and "claim_valid w r n mode" and "token_unused t db"
    and "get_lease r db = Some lease" and "wl_job_id lease = Some k" and "\<not> is_active lease now"
    and "get_job k db = Some job" and "mode = None \<or> mode = Some (job_execution_mode job)"
  shows "\<exists>c db' lease'. claim_next w r n mode t locked now db = (Inr (Some c), db') \<and>
    cl_job_id c = k \<and> cl_recovered c \<and> cl_status c = job_status job \<and> db_jobs db' = db_jobs db \<and>
    lock_owned_lease c now db' = Inr (lease', job)"
proof -
  have inv: "queue_inv db" by (rule queue_reachable_inv [OF assms(1)])
  have "is_running k db" by (rule held_job_running [OF inv assms(4,5)])
  then have run: "job_status job \<notin> terminal_statuses"
    using assms(7) running_not_terminal by (simp add: is_running_def)
  have "0 < n" using assms(2) by (simp add: claim_valid_def valid_lease_seconds_def)
  then show ?thesis
    using claim_next_expired [OF inv assms(2-7), of locked] assms(8,4,7) run
      lease_rows.get_key [OF assms(4)] job_rows.get_key [OF assms(7)]
    by (auto simp: claim_of_def lock_owned_lease_def lease_rows.get_put is_active_def)
qed

theorem expired_lease_is_recovered_witness:
  "\<exists>c db'. claim_next ''w1'' ''gpu:0'' 60 None 901 (\<lambda>_. False) 70000000 demo_claimed = (Inr (Some c), db') \<and>
     cl_job_id c = 8 \<and> cl_status c = PREPARING"
proof -
  have unused: "token_unused 901 demo_claimed"
    by (simp add: token_unused_def demo_claimed_eq demo_queued_eq demo_held_lease_def demo_free_lease_def)
  have expired: "\<not> is_active demo_held_lease 70000000" by (simp add: is_active_def demo_claimed_rows)
  show ?thesis
    using expired_lease_is_recovered [OF demo_reachable(2) demo_claim_valid unused demo_claimed_rows(1,4)
      expired demo_claimed_rows(2)] demo_claimed_rows(8) by fastforce
qed

section \<open>Histories, progress and heartbeats\<close>

text \<open>
  C5. A job's history only moves forward, whatever calls follow: its statuses are a path of the
  state machine, its progress and version never decrease, a cancellation request stays, its owner,
  mode and idempotency key never change, and a terminal row is never written again.
\<close>

theorem job_history_is_monotone:
  assumes "queue_reachable db" and "get_job k db = Some j"
  shows "\<exists>j'. get_job k (run_calls calls db) = Some j' \<and>
    can_transition\<^sup>*\<^sup>* (job_status j) (job_status j') \<and> job_progress j \<le> job_progress j' \<and>
    job_version j \<le> job_version j' \<and> (job_cancel_requested j \<longrightarrow> job_cancel_requested j') \<and>
    job_user_id j' = job_user_id j \<and> job_execution_mode j' = job_execution_mode j \<and>
    job_idempotency_key j' = job_idempotency_key j \<and>
    (job_status j \<in> terminal_statuses \<longrightarrow> j' = j)"
  using run_calls_later [OF assms(1), of calls] assms(2)
  by (fastforce simp: jobs_later_def job_later_def)

theorem job_history_is_monotone_witness:
  "\<exists>j'. get_job 8 (run_calls [demo_claim_call] demo_queued) = Some j' \<and>
     can_transition\<^sup>*\<^sup>* QUEUED (job_status j')"
  using job_history_is_monotone [OF demo_reachable(1) demo_jobs(2), of "[demo_claim_call]"] by auto

text \<open>
  A successful \<open>advance\<close> moves the job of the claim along the lifecycle and nothing else; into
  a terminal status it records the end, sets progress to 100 on success, and frees the resource,
  and into a running status the claim keeps holding the job.
\<close>

theorem advance_moves_the_claimed_job:
  assumes "queue_reachable db" and "advance c t p e now db = (Inr x, db')"
  shows "\<exists>job job'. get_job (cl_job_id c) db = Some job \<and> get_job (cl_job_id c) db' = Some job' \<and>
    x = t \<and> lifecycle_step (job_status job) t \<and> job_status job' = t \<and>
    job_version job' = job_version job + 1 \<and> job_error_code job' = e \<and>
    (\<forall>k. k \<noteq> cl_job_id c \<longrightarrow> get_job k db' = get_job k db) \<and>
    (if t \<in> terminal_statuses
     then job_finished_at job' = Some now \<and> (t = SUCCEEDED \<longrightarrow> job_progress job' = 100) \<and>
       \<not> (\<exists>r. holds_job r (cl_job_id c) db') \<and>
       (\<exists>l. get_lease (cl_resource_key c) db' = Some l \<and> wl_job_id l = None)
     else lock_owned_lease c now db' = Inr (the (get_lease (cl_resource_key c) db), job'))"
proof (cases rule: advance_effect [of c t p e now db])
  case Failed
  with assms(2) show ?thesis by simp
next
  case (Moved lease job)
  have inv: "queue_inv db" by (rule queue_reachable_inv [OF assms(1)])
  note o = lock_owned_leaseD [OF Moved(2)]
  let ?j = "advanced_job t p e now job"
  have step: "lifecycle_step (job_status job) t"
    using Moved(3) by (cases "job_status job"; cases t)
      (simp_all add: can_transition_iff allowed_transitions_simps lifecycle_step_def follows_def
        failure_of_def normal_flow_def failing_stages_def)
  have x: "x = t" and db': "db' = (if t \<in> terminal_statuses
      then put_lease (clear_lease lease now) (put_job ?j db) else put_job ?j db)"
    using Moved(5) assms(2) by auto
  have j': "get_job (cl_job_id c) db' = Some ?j"
    and other: "\<And>k. k \<noteq> cl_job_id c \<Longrightarrow> get_job k db' = get_job k db"
    using o by (simp_all add: db' job_rows.get_put job_rows.get_put_other)
  have inv': "queue_inv db'" using advance_inv [OF inv] assms(2) by (metis snd_conv)
  have "if t \<in> terminal_statuses
     then job_finished_at ?j = Some now \<and> (t = SUCCEEDED \<longrightarrow> job_progress ?j = 100) \<and>
       \<not> (\<exists>r. holds_job r (cl_job_id c) db') \<and>
       (\<exists>l. get_lease (cl_resource_key c) db' = Some l \<and> wl_job_id l = None)
     else lock_owned_lease c now db' = Inr (the (get_lease (cl_resource_key c) db), ?j)"
  proof (cases "t \<in> terminal_statuses")
    case True
    then have "\<not> is_running (cl_job_id c) db'"
      using j' running_not_terminal by (auto simp: is_running_def)
    then have "\<not> (\<exists>r. holds_job r (cl_job_id c) db')" using running_held_iff [OF inv'] by blast
    moreover have "get_lease (cl_resource_key c) db' = Some (clear_lease lease now)"
      using True o by (simp add: db' lease_rows.get_put)
    ultimately show ?thesis using True by (simp add: advanced_job_def Let_def)
  next
    case False
    with o j' show ?thesis by (simp add: lock_owned_lease_def db')
  qed
  with x step j' other o(6) show ?thesis by auto
qed

lemma demo_advance: "\<exists>db'. advance demo_claim SFM (Some 10) None 200 demo_claimed = (Inr SFM, db')"
  by (simp add: advance_def advance_invalid_def failure_statuses_def transaction_def
      advance_in_session_def demo_owned demo_claimed_rows assert_transition_def can_transition_iff
      allowed_transitions_simps)

theorem advance_moves_the_claimed_job_witness:
  "\<exists>job db'. advance demo_claim SFM (Some 10) None 200 demo_claimed = (Inr SFM, db') \<and>
     get_job 8 db' = Some job \<and> job_status job = SFM"
proof -
  obtain db' where "advance demo_claim SFM (Some 10) None 200 demo_claimed = (Inr SFM, db')"
    using demo_advance by blast
  with advance_moves_the_claimed_job [OF demo_reachable(2) this] show ?thesis
    by (auto simp: demo_claim_fields)
qed

text \<open>
  A heartbeat prolongs the lease to exactly \<open>lease_seconds\<close> from now: the claim owns the job at
  a later time precisely when that time is before the expiry it returned, and no other row moves.
\<close>

theorem heartbeat_extends_ownership:
  assumes "heartbeat c n now db = (Inr h, db')"
  shows "hb_expires_at h = now + seconds n \<and> db_jobs db' = db_jobs db \<and>
    (\<forall>later. (\<exists>q. lock_owned_lease c later db' = Inr q) \<longleftrightarrow> later < hb_expires_at h) \<and>
    (\<forall>r. r \<noteq> cl_resource_key c \<longrightarrow> get_lease r db' = get_lease r db)"
proof (cases rule: heartbeat_effect [of c n now db])
  case Failed
  with assms show ?thesis by simp
next
  case (Renewed lease job)
  note o = lock_owned_leaseD [OF Renewed(2)]
  from Renewed(3) assms have h: "hb_expires_at h = now + seconds n"
    and db': "db' = put_lease (lease\<lparr>wl_heartbeat_at := Some now,
      wl_expires_at := Some (now + seconds n), wl_updated_at := now\<rparr>) db" by auto
  have "(\<exists>q. lock_owned_lease c later db' = Inr q) \<longleftrightarrow> later < now + seconds n" for later
    using o by (simp add: db' lock_owned_lease_def lease_rows.get_put is_active_def)
  with h o(9) show ?thesis by (simp add: db' lease_rows.get_put_other)
qed

theorem heartbeat_extends_ownership_witness:
  "\<exists>h db'. heartbeat demo_claim 60 200 demo_claimed = (Inr h, db') \<and> hb_expires_at h = 60000200"
proof -
  obtain h db' where "heartbeat demo_claim 60 200 demo_claimed = (Inr h, db')"
    by (simp add: heartbeat_def valid_lease_seconds_def demo_owned Let_def)
  with heartbeat_extends_ownership [OF this] show ?thesis by auto
qed

section \<open>Cancellation and submission\<close>

lemma request_cancel_owner:
  assumes "get_job k db = Some j" and "request_cancel k (Some u) audit ev now db = (Inr s, db')"
  obtains (Ended) "job_status j \<in> terminal_statuses" "s = job_status j" "db' = db"
  | (Before) "job_status j \<in> cancellable_before_start" "s = CANCELLED"
     "\<exists>j'. get_job k db' = Some j' \<and> job_status j' = CANCELLED"
  | (Signalled) "job_status j \<in> running_statuses" "s = job_status j"
     "\<exists>j'. get_job k db' = Some j' \<and> job_status j' = job_status j \<and> job_cancel_requested j'"
proof -
  have id: "job_id j = k" by (rule job_rows.get_key [OF assms(1)])
  have own: "owned_job k (Some u) db = Some j" using assms by (auto simp: request_cancel_def split: option.splits)
      (auto simp: owned_job_def assms(1) split: if_splits)
  consider (e) "job_status j \<in> terminal_statuses" | (b) "job_status j \<in> cancellable_before_start"
    | (r) "job_status j \<in> running_statuses" using status_partition by blast
  then show thesis
  proof cases
    case e
    with assms(2) own show thesis by (intro Ended) (auto simp: request_cancel_def)
  next
    case b
    have "can_transition (job_status j) CANCELLED"
      by (rule nonterminal_can_cancel [OF cancellable_not_terminal [OF b]])
    with b assms own id show thesis
      by (intro Before)
        (auto simp: request_cancel_def assert_transition_def cancellable_not_terminal
          cancelled_job_def Let_def job_rows.get_put split: if_splits)
  next
    case r
    moreover have "job_status j \<notin> cancellable_before_start" "job_status j \<notin> terminal_statuses"
      using r cancellable_not_running running_not_terminal by blast+
    ultimately show thesis using assms own id
      by (intro Signalled)
        (auto simp: request_cancel_def cancelled_job_def Let_def job_rows.get_put split: if_splits)
  qed
qed

text \<open>
  A cancelled job never starts: after its owner's cancellation of a job that was not running,
  no later claim in any run of the queue returns it, and a second cancellation changes nothing.
\<close>

theorem cancelled_job_never_starts:
  assumes "queue_reachable db" and "get_job k db = Some j" and "job_status j \<notin> running_statuses"
    and "request_cancel k (Some u) audit ev now db = (Inr s, db1)"
    and "db2 = run_calls calls db1"
    and "claim_next w r n mode t locked now' db2 = (Inr (Some c), db3)"
  shows "cl_job_id c \<noteq> k \<and> request_cancel k (Some u) audit ev' now'' db2 = (Inr s, db2)"
proof -
  have r1: "queue_reachable db1"
    using queue_reachable_step [OF assms(1) cancel [OF assms(4)]] .
  have "\<exists>j1. get_job k db1 = Some j1 \<and> job_status j1 \<in> terminal_statuses \<and> job_status j1 = s \<and>
      job_user_id j1 = job_user_id j"
  proof -
    have "jobs_later db db1" using request_cancel_later [of db k "Some u" audit ev now] assms(4) by simp
    then obtain j1 where j1: "get_job k db1 = Some j1" "job_user_id j1 = job_user_id j"
      using assms(2) by (auto simp: jobs_later_def job_later_def)
    from assms(2,4) show ?thesis
      by (cases rule: request_cancel_owner) (use assms(2,3) j1 in auto)
  qed
  then obtain j1 where j1: "get_job k db1 = Some j1" "job_status j1 \<in> terminal_statuses"
    "job_status j1 = s" "job_user_id j1 = job_user_id j" by blast
  from job_history_is_monotone [OF r1 j1(1), of calls] j1(2)
  have j2: "get_job k db2 = Some j1" by (auto simp: assms(5))
  have inv2: "queue_inv db2"
    unfolding assms(5) by (rule queue_reachable_inv [OF run_calls_reachable [OF r1]])
  have "cl_job_id c \<noteq> k"
    using inv2 assms(6)
  proof (cases rule: claim_next_cases)
    case (Recovered lease job)
    then show ?thesis using j1(2) j2 running_not_terminal by (auto simp: claim_of_def)
  next
    case (Started lease job)
    have "job_status job = QUEUED" using next_queued_jobD(2) [OF Started(6)] by (simp add: claimable_def)
    with Started j1(2) j2 show ?thesis by (auto simp: claim_of_def)
  qed auto
  moreover have "owned_job k (Some u) db \<noteq> None"
    using assms(4) by (auto simp: request_cancel_def split: option.splits)
  then have "u = job_user_id j" using assms(2) by (auto simp: owned_job_def split: if_splits)
  then have "request_cancel k (Some u) audit ev' now'' db2 = (Inr s, db2)"
    using j1 j2 by (simp add: request_cancel_def owned_job_def)
  ultimately show ?thesis by simp
qed

definition demo_cancelled :: database where
  "demo_cancelled = run_call (Request_cancel 7 (Some 1) True 77 50) demo_queued"

lemma demo_cancel: "request_cancel 7 (Some 1) True 77 50 demo_queued = (Inr CANCELLED, demo_cancelled)"
proof -
  have "fst (request_cancel 7 (Some 1) True 77 50 demo_queued) = Inr CANCELLED"
    by (simp add: request_cancel_def owned_job_def demo_jobs cancellable_before_start_def
        assert_transition_def can_transition_iff allowed_transitions_simps cancelled_job_def Let_def)
  then show ?thesis by (simp add: demo_cancelled_def prod_eq_iff)
qed

lemma demo_cancelled_rows:
  "get_lease ''gpu:0'' demo_cancelled = Some demo_free_lease" "token_unused 900 demo_cancelled"
  "next_queued_job (\<lambda>_. False) None demo_cancelled = Some (demo_job 8 (CHR ''2'') 5 20)"
proof -
  let ?j = "demo_job 7 (CHR ''1'') 0 10"
  let ?j' = "?j\<lparr>job_status := CANCELLED, job_finished_at := Some 50, job_updated_at := 50,
    job_version := 2\<rparr>"
  have eq: "demo_cancelled = add_task_event (cancel_event 77 (Some 1) ?j' 50) (put_job ?j' demo_queued)"
    by (simp add: demo_cancelled_def request_cancel_def owned_job_def demo_jobs
        cancellable_before_start_def assert_transition_def can_transition_iff allowed_transitions_simps
        cancelled_job_def Let_def)
  show "get_lease ''gpu:0'' demo_cancelled = Some demo_free_lease" by (simp add: eq demo_lease)
  show "token_unused 900 demo_cancelled" using demo_token_unused by (simp add: eq token_unused_def)
  show "next_queued_job (\<lambda>_. False) None demo_cancelled = Some (demo_job 8 (CHR ''2'') 5 20)"
    by (simp add: eq demo_queued_eq next_queued_job_def claimable_def first_by_def queue_order_def)
qed

theorem cancelled_job_never_starts_witness:
  "request_cancel 7 (Some 1) True 78 300 demo_cancelled = (Inr CANCELLED, demo_cancelled)"
proof -
  have free: "wl_job_id demo_free_lease = None" by (simp add: demo_free_lease_def)
  have r: "queue_reachable demo_cancelled"
    unfolding demo_cancelled_def by (rule queue_reachable_step [OF demo_reachable(1) run_call_step])
  have nr: "job_status (demo_job 7 (CHR ''1'') 0 10) \<notin> running_statuses"
    by (simp add: running_statuses_def)
  note claim = claim_next_free [OF queue_reachable_inv [OF r] demo_claim_valid demo_cancelled_rows(2,1)
      free demo_cancelled_rows(3), of 200]
  show ?thesis
    using cancelled_job_never_starts [OF demo_reachable(1) demo_jobs(1) nr demo_cancel
      run_calls_simps(1) [symmetric] claim] by simp
qed

text \<open>
  The cancellation of a running job reaches its worker: whatever happens in between, the
  first heartbeat that succeeds for that job reports the request.
\<close>

theorem cancellation_reaches_the_worker:
  assumes "queue_reachable db" and "get_job k db = Some j" and "job_status j \<in> running_statuses"
    and "request_cancel k (Some u) audit ev now db = (Inr s, db1)"
    and "cl_job_id c = k" and "heartbeat c n now' (run_calls calls db1) = (Inr h, db2)"
  shows "hb_cancel_requested h"
proof -
  have r1: "queue_reachable db1" by (rule queue_reachable_step [OF assms(1) cancel [OF assms(4)]])
  obtain j1 where j1: "get_job k db1 = Some j1" "job_cancel_requested j1"
    using assms(2,4)
  proof (cases rule: request_cancel_owner)
    case Ended
    with assms(3) show thesis using running_not_terminal by blast
  next
    case Before
    with assms(3) show thesis using cancellable_not_running by blast
  next
    case Signalled
    with that show thesis by blast
  qed
  from job_history_is_monotone [OF r1 j1(1), of calls] j1(2)
  obtain j2 where "get_job k (run_calls calls db1) = Some j2" "job_cancel_requested j2" by auto
  with assms(5,6) show ?thesis
    by (cases rule: heartbeat_effect [of c n now' "run_calls calls db1"])
      (auto dest: lock_owned_leaseD(6))
qed

lemma demo_signal:
  "\<exists>db'. request_cancel 8 (Some 1) True 77 150 demo_claimed = (Inr PREPARING, db') \<and>
     (\<exists>h db''. heartbeat demo_claim 60 200 db' = (Inr h, db''))"
  by (simp add: request_cancel_def owned_job_def demo_claimed_rows cancellable_before_start_def
      cancelled_job_def Let_def heartbeat_def valid_lease_seconds_def lock_owned_lease_def
      demo_claim_fields is_active_def job_rows.get_put demo_running_job_def)

theorem cancellation_reaches_the_worker_witness:
  "\<exists>db' h db''. request_cancel 8 (Some 1) True 77 150 demo_claimed = (Inr PREPARING, db') \<and>
     heartbeat demo_claim 60 200 db' = (Inr h, db'') \<and> hb_cancel_requested h"
proof -
  obtain db' h db'' where c: "request_cancel 8 (Some 1) True 77 150 demo_claimed = (Inr PREPARING, db')"
    and h: "heartbeat demo_claim 60 200 db' = (Inr h, db'')" using demo_signal by blast
  have "job_status demo_running_job \<in> running_statuses"
    by (simp add: demo_claimed_rows running_statuses_def)
  from cancellation_reaches_the_worker [OF demo_reachable(2) demo_claimed_rows(2) this c
      demo_claim_fields(1), of 60 200 "[]" h db''] h c show ?thesis by auto
qed

text \<open>
  A submission happens once: after an accepted \<open>enqueue\<close>, every later one with the same
  idempotency key, in any run of the queue, is refused and leaves the database unchanged.
\<close>

theorem enqueue_happens_once:
  assumes "queue_reachable db" and "enqueue q now db = (Inr (), db1)"
    and "eq_idempotency_key q' = eq_idempotency_key q"
  shows "\<exists>e. enqueue q' now' (run_calls calls db1) = (Inl e, run_calls calls db1) \<and>
    (enqueue_invalid q' = None \<longrightarrow> e = Queue_conflict)"
proof -
  let ?db = "run_calls calls db1"
  have r1: "queue_reachable db1" by (rule queue_reachable_step [OF assms(1) enqueue [OF assms(2)]])
  have "insert_job (queued_job q now) db = Some db1"
    using assms(2) by (auto simp: enqueue_def enqueue_in_session_def transaction_def
        split: option.splits sum.splits queue_error.splits prod.splits)
  then have "queued_job q now \<in> set (db_jobs db1)" by (auto simp: insert_job_def split: if_splits)
  from get_job_in_set [OF queue_reachable_inv [OF r1] this]
  have "get_job (job_id (queued_job q now)) db1 = Some (queued_job q now)" .
  from job_history_is_monotone [OF r1 this, of calls] obtain j'
    where "get_job (job_id (queued_job q now)) ?db = Some j'"
      "job_idempotency_key j' = eq_idempotency_key q" by (auto simp: queued_job_def)
  then have "eq_idempotency_key q' \<in> job_idempotency_key ` set (db_jobs ?db)"
    using get_job_set assms(3) by (metis image_eqI)
  then have "insert_job (queued_job q' now') ?db = None" by (simp add: insert_job_def queued_job_def)
  then show ?thesis
    by (auto simp: enqueue_def enqueue_in_session_def transaction_def split: option.split)
qed

theorem enqueue_happens_once_witness:
  "enqueue (demo_request 9 (CHR ''1'') 3) 90 (run_calls [demo_claim_call]
     (run_call (Enqueue (demo_request 7 (CHR ''1'') 0) 10) demo_init)) =
   (Inl Queue_conflict, run_calls [demo_claim_call]
     (run_call (Enqueue (demo_request 7 (CHR ''1'') 0) 10) demo_init))"
proof -
  have valid: "enqueue_invalid (demo_request k (CHR ''1'') p) = None" for k p
    by (rule demo_request_valid) (simp add: char_class_defs)
  have "fst (enqueue (demo_request 7 (CHR ''1'') 0) 10 demo_init) = Inr ()"
    by (simp add: enqueue_def enqueue_in_session_def transaction_def valid insert_job_def
        demo_job_def [symmetric] demo_init_def empty_database_def get_user_def demo_user_def)
  then have e: "enqueue (demo_request 7 (CHR ''1'') 0) 10 demo_init =
      (Inr (), run_call (Enqueue (demo_request 7 (CHR ''1'') 0) 10) demo_init)"
    by (simp add: prod_eq_iff)
  have "eq_idempotency_key (demo_request 9 (CHR ''1'') 3) = eq_idempotency_key (demo_request 7 (CHR ''1'') 0)"
    by (simp add: demo_request_def)
  from enqueue_happens_once [OF demo_init_reachable e this, of 90 "[demo_claim_call]"] valid
  show ?thesis by auto
qed

end
