(* ===== verification/Environment.thy ===== *)
theory Environment
  imports Prelude
begin

text \<open>
  The process environment of \<^verbatim>\<open>backend/environment.py\<close> and the integer readers of the settings
  modules: \<open>os.environ\<close> is a map from names to strings, an error is the message of the
  \<open>ValueError\<close>. Python's \<open>str.strip\<close>, \<open>str.lower\<close> and \<open>int(str)\<close> are defined on the characters
  HOL has, the first 256 code points.
\<close>

section \<open>Python strings\<close>

definition code_point :: "char \<Rightarrow> nat" where
  "code_point c = of_char c"

definition is_space :: "char \<Rightarrow> bool" where
  "is_space c \<longleftrightarrow> (let n = code_point c in
     9 \<le> n \<and> n \<le> 13 \<or> 28 \<le> n \<and> n \<le> 32 \<or> n = 133 \<or> n = 160)"

definition strip_by :: "(char \<Rightarrow> bool) \<Rightarrow> string \<Rightarrow> string" where
  "strip_by p s = rev (dropWhile p (rev (dropWhile p s)))"

definition strip :: "string \<Rightarrow> string" where
  "strip = strip_by is_space"

definition lower_char :: "char \<Rightarrow> char" where
  "lower_char c = (let n = code_point c in
     if 65 \<le> n \<and> n \<le> 90 \<or> 192 \<le> n \<and> n \<le> 222 \<and> n \<noteq> 215 then char_of (n + 32) else c)"

definition lower :: "string \<Rightarrow> string" where
  "lower = map lower_char"

text \<open>
  \<open>int(s)\<close> of a string: surrounding white space, an optional sign, decimal digits with single
  underscores between digits, and at most 4300 of them.
\<close>

definition digit_of :: "char \<Rightarrow> int" where
  "digit_of c = int (code_point c) - 48"

fun parse_digits :: "int \<Rightarrow> string \<Rightarrow> int option" where
  "parse_digits acc [] = Some acc"
| "parse_digits acc (c # cs) =
     (if is_digit c then parse_digits (10 * acc + digit_of c) cs
      else if c = CHR ''_'' then
        (case cs of d # _ \<Rightarrow> if is_digit d then parse_digits acc cs else None | [] \<Rightarrow> None)
      else None)"

definition parse_natural :: "string \<Rightarrow> int option" where
  "parse_natural s =
     (case s of [] \<Rightarrow> None
      | c # _ \<Rightarrow> if is_digit c \<and> length (filter is_digit s) \<le> 4300 then parse_digits 0 s else None)"

definition py_int :: "string \<Rightarrow> int option" where
  "py_int s =
     (case strip s of [] \<Rightarrow> None
      | c # cs \<Rightarrow> if c = CHR ''-'' then map_option uminus (parse_natural cs)
          else if c = CHR ''+'' then parse_natural cs else parse_natural (c # cs))"

section \<open>The deployment environments\<close>

type_synonym environ = "string \<Rightarrow> string option"

definition development_environments :: "string set" where
  "development_environments = {''development'', ''test''}"

definition supported_environments :: "string set" where
  "supported_environments = development_environments \<union> {''restricted'', ''production''}"

definition normalize_environment :: "string \<Rightarrow> string + string" where
  "normalize_environment value =
     (let environment = lower (strip value)
      in if environment \<notin> supported_environments
         then Inl ''APP_ENV must be one of: development, production, restricted, test''
         else Inr environment)"

definition is_development_environment :: "string \<Rightarrow> string + bool" where
  "is_development_environment value =
     (case normalize_environment value of Inl e \<Rightarrow> Inl e
      | Inr environment \<Rightarrow> Inr (environment \<in> development_environments))"

definition requires_explicit_operational_settings :: "string \<Rightarrow> string + bool" where
  "requires_explicit_operational_settings value =
     (case normalize_environment value of Inl e \<Rightarrow> Inl e
      | Inr environment \<Rightarrow> Inr (environment \<in> {''restricted'', ''production''}))"

section \<open>Integer settings\<close>

text \<open>
  The reader of the limiters (\<open>outside development\<close>) and that of the quotas (\<open>for restricted and
  production\<close>) differ in their message only; \<open>suffix\<close> is that message.
\<close>

definition read_integer :: "string \<Rightarrow> environ \<Rightarrow> string \<Rightarrow> int \<Rightarrow> bool \<Rightarrow> string + int" where
  "read_integer suffix env name fallback required =
     (case env name of
        None \<Rightarrow> if required then Inl (name @ suffix) else Inr fallback
      | Some raw \<Rightarrow>
          if strip raw = [] then if required then Inl (name @ suffix) else Inr fallback
          else (case py_int raw of
             None \<Rightarrow> Inl (name @ '' must be an integer'')
           | Some n \<Rightarrow> Inr n))"

abbreviation environment_integer :: "environ \<Rightarrow> string \<Rightarrow> int \<Rightarrow> bool \<Rightarrow> string + int" where
  "environment_integer \<equiv> read_integer '' is required outside development''"

abbreviation quota_integer :: "environ \<Rightarrow> string \<Rightarrow> int \<Rightarrow> bool \<Rightarrow> string + int" where
  "quota_integer \<equiv> read_integer '' is required for restricted and production''"

text \<open>The reader of the upload settings: a missing variable is the default, a blank one an error.\<close>

definition read_int :: "environ \<Rightarrow> string \<Rightarrow> int \<Rightarrow> string + int" where
  "read_int env name fallback =
     (case env name of None \<Rightarrow> Inr fallback
      | Some configured \<Rightarrow>
          (case py_int configured of
             None \<Rightarrow> Inl (name @ '' must be an integer'')
           | Some n \<Rightarrow> Inr n))"

text \<open>The values are read one after the other; the first failure ends the construction.\<close>

fun read_all :: "(string + 'a) list \<Rightarrow> string + 'a list" where
  "read_all [] = Inr []"
| "read_all (r # rs) =
     (case r of Inl e \<Rightarrow> Inl e
      | Inr x \<Rightarrow> (case read_all rs of Inl e \<Rightarrow> Inl e | Inr xs \<Rightarrow> Inr (x # xs)))"

lemma read_all_map [simp]: "read_all (map Inr xs) = Inr xs"
  by (induction xs) simp_all

lemma read_all_Inr: "read_all rs = Inr xs \<longleftrightarrow> rs = map Inr xs"
proof
  show "read_all rs = Inr xs \<Longrightarrow> rs = map Inr xs"
    by (induction rs arbitrary: xs) (auto split: sum.splits)
qed simp

lemma read_integer_required:
  assumes "read_integer suffix env name d True = Inr n"
  shows "\<exists>raw. env name = Some raw \<and> py_int raw = Some n"
  using assms by (auto simp: read_integer_def split: option.splits if_splits)

lemma requires_explicit_iff:
  "requires_explicit_operational_settings value = Inr True \<longleftrightarrow>
     normalize_environment value \<in> {Inr ''restricted'', Inr ''production''}"
  by (auto simp: requires_explicit_operational_settings_def split: sum.split)

end
