(* ===== verification/Rate_Limit.thy ===== *)
theory Rate_Limit
  imports Models Environment
begin

text \<open>
  The shared request limiter of \<^verbatim>\<open>backend/rate_limit\<close>: one fixed window per source address. The
  keyed hash that turns an address into a bucket key (HMAC-SHA256) is an argument of the
  definitions. Transactions are serial, so the branch that handles a concurrent insertion of the
  bucket is the branch that finds it. Properties: the number of requests admitted in any span
  shorter than a window, and the meaning of the reported waiting time.
\<close>

section \<open>Settings and decisions\<close>

record api_rate_limit_settings =
  rls_fingerprint_secret :: string
  rls_window_seconds :: int
  rls_ip_max_requests :: int

text \<open>
  The validation on construction; a secret is a string of bytes here, so its length is the length
  of its encoding.
\<close>

definition api_rate_limit_settings_error :: "api_rate_limit_settings \<Rightarrow> string option" where
  "api_rate_limit_settings_error s =
     (if length (rls_fingerprint_secret s) < 32
      then Some ''API rate-limit fingerprint secret is too short''
      else if \<not> (1 \<le> rls_window_seconds s \<and> rls_window_seconds s \<le> 3600)
      then Some ''API_IP_RATE_LIMIT_WINDOW_SECONDS must be between 1 and 3600''
      else if \<not> (1 \<le> rls_ip_max_requests s \<and> rls_ip_max_requests s \<le> 100000)
      then Some ''API_IP_RATE_LIMIT_MAX_REQUESTS must be between 1 and 100000''
      else None)"

definition api_rate_limit_settings_from_environment ::
  "environ \<Rightarrow> string \<Rightarrow> string \<Rightarrow> string + api_rate_limit_settings" where
  "api_rate_limit_settings_from_environment env environment fingerprint_secret =
     (case requires_explicit_operational_settings environment of
        Inl e \<Rightarrow> Inl e
      | Inr explicit \<Rightarrow>
          (case read_all
             [environment_integer env ''API_IP_RATE_LIMIT_WINDOW_SECONDS'' 60 explicit,
              environment_integer env ''API_IP_RATE_LIMIT_MAX_REQUESTS'' 300 explicit] of
             Inl e \<Rightarrow> Inl e
           | Inr ns \<Rightarrow>
               let s = \<lparr>rls_fingerprint_secret = fingerprint_secret, rls_window_seconds = ns ! 0,
                     rls_ip_max_requests = ns ! 1\<rparr>
               in case api_rate_limit_settings_error s of Some e \<Rightarrow> Inl e | None \<Rightarrow> Inr s))"

record rate_limit_decision =
  rld_allowed :: bool
  rld_limit :: int
  rld_remaining :: int
  rld_reset_after_seconds :: int

type_synonym keyed_hash = "string \<Rightarrow> string \<Rightarrow> string"

definition rl_fingerprint :: "keyed_hash \<Rightarrow> api_rate_limit_settings \<Rightarrow> string \<Rightarrow> string" where
  "rl_fingerprint hmac s client_ip = hmac (rls_fingerprint_secret s) (''ordinary-api-ip:'' @ client_ip)"

text \<open>\<open>client_ip or "unresolved"\<close>: a missing or empty address.\<close>

definition resolved_ip :: "string option \<Rightarrow> string" where
  "resolved_ip client_ip =
     (case client_ip of None \<Rightarrow> ''unresolved'' | Some ip \<Rightarrow> if ip = [] then ''unresolved'' else ip)"

section \<open>Consuming a request\<close>

definition get_rate_bucket :: "string \<Rightarrow> database \<Rightarrow> api_rate_limit_bucket option" where
  "get_rate_bucket k db = find_row arl_key_hash k (db_rate_limit_buckets db)"

definition put_rate_bucket :: "api_rate_limit_bucket \<Rightarrow> database \<Rightarrow> database" where
  "put_rate_bucket b db = db\<lparr>db_rate_limit_buckets := put_row arl_key_hash b (db_rate_limit_buckets db)\<rparr>"

interpretation rate_rows: row_store get_rate_bucket put_rate_bucket arl_key_hash
  by unfold_locales (auto simp: get_rate_bucket_def put_rate_bucket_def find_put dest: find_row_SomeD)

definition rl_get_or_create_bucket ::
  "string \<Rightarrow> time \<Rightarrow> database \<Rightarrow> api_rate_limit_bucket \<times> database" where
  "rl_get_or_create_bucket key_hash now db =
     (case get_rate_bucket key_hash db of
        Some bucket \<Rightarrow> (bucket, db)
      | None \<Rightarrow>
          let candidate = \<lparr>arl_key_hash = key_hash, arl_request_count = 0,
                arl_window_started_at = now, arl_updated_at = now\<rparr>
          in (candidate, db\<lparr>db_rate_limit_buckets := db_rate_limit_buckets db @ [candidate]\<rparr>))"

definition consume ::
  "keyed_hash \<Rightarrow> api_rate_limit_settings \<Rightarrow> string option \<Rightarrow> time \<Rightarrow> database \<Rightarrow>
     rate_limit_decision \<times> database" where
  "consume hmac s client_ip now db =
     (let key_hash = rl_fingerprint hmac s (resolved_ip client_ip);
          window = seconds (rls_window_seconds s);
          (bucket, db1) = rl_get_or_create_bucket key_hash now db;
          bucket1 = (if arl_window_started_at bucket + window \<le> now
            then bucket\<lparr>arl_request_count := 0, arl_window_started_at := now\<rparr> else bucket);
          reset_after = max 1 (ceil_total_seconds (arl_window_started_at bucket1 + window - now));
          bucket2 = bucket1\<lparr>arl_updated_at := now\<rparr>
      in if rls_ip_max_requests s \<le> arl_request_count bucket2
         then (\<lparr>rld_allowed = False, rld_limit = rls_ip_max_requests s, rld_remaining = 0,
                rld_reset_after_seconds = reset_after\<rparr>, put_rate_bucket bucket2 db1)
         else let bucket3 = bucket2\<lparr>arl_request_count := arl_request_count bucket2 + 1\<rparr>
              in (\<lparr>rld_allowed = True, rld_limit = rls_ip_max_requests s,
                   rld_remaining = max 0 (rls_ip_max_requests s - arl_request_count bucket3),
                   rld_reset_after_seconds = reset_after\<rparr>, put_rate_bucket bucket3 db1))"

fun consume_all ::
  "keyed_hash \<Rightarrow> api_rate_limit_settings \<Rightarrow> (string option \<times> time) list \<Rightarrow> database \<Rightarrow>
     rate_limit_decision list \<times> database" where
  "consume_all hmac s [] db = ([], db)"
| "consume_all hmac s ((ip, now) # calls) db =
     (let (d, db1) = consume hmac s ip now db; (ds, db2) = consume_all hmac s calls db1
      in (d # ds, db2))"

section \<open>The bucket after a request\<close>

text \<open>The bucket a request finds, with the window rolled over when it has ended.\<close>

definition current_bucket ::
  "api_rate_limit_settings \<Rightarrow> string \<Rightarrow> time \<Rightarrow> database \<Rightarrow> api_rate_limit_bucket" where
  "current_bucket s k now db =
     (let b = (case get_rate_bucket k db of Some b \<Rightarrow> b | None \<Rightarrow>
            \<lparr>arl_key_hash = k, arl_request_count = 0, arl_window_started_at = now, arl_updated_at = now\<rparr>)
      in if arl_window_started_at b + seconds (rls_window_seconds s) \<le> now
         then b\<lparr>arl_request_count := 0, arl_window_started_at := now\<rparr> else b)"

lemma get_rate_bucket_append:
  "get_rate_bucket k (db\<lparr>db_rate_limit_buckets := db_rate_limit_buckets db @ [b]\<rparr>) =
     (case get_rate_bucket k db of None \<Rightarrow> if arl_key_hash b = k then Some b else None | Some x \<Rightarrow> Some x)"
  by (simp add: get_rate_bucket_def split: option.split)

lemma consume_effect:
  assumes res: "consume hmac s ip now db = (d, db')"
    and k_def: "k = rl_fingerprint hmac s (resolved_ip ip)"
    and b_def: "b = current_bucket s k now db"
  shows "rld_allowed d \<longleftrightarrow> arl_request_count b < rls_ip_max_requests s"
    and "rld_reset_after_seconds d = max 1
      (ceil_total_seconds (arl_window_started_at b + seconds (rls_window_seconds s) - now))"
    and "rld_remaining d = (if rld_allowed d then rls_ip_max_requests s - arl_request_count b - 1 else 0)"
    and "get_rate_bucket k db' = Some (b\<lparr>arl_updated_at := now,
      arl_request_count := arl_request_count b + (if rld_allowed d then 1 else 0)\<rparr>)"
    and "\<And>k'. k' \<noteq> k \<Longrightarrow> get_rate_bucket k' db' = get_rate_bucket k' db"
proof -
  let ?g = "rl_get_or_create_bucket k now db"
  obtain b0 db1 where g: "?g = (b0, db1)" by fastforce
  have key: "arl_key_hash b0 = k" and found: "get_rate_bucket k db1 = Some b0"
    and frame: "\<And>k'. k' \<noteq> k \<Longrightarrow> get_rate_bucket k' db1 = get_rate_bucket k' db"
    and b: "b = (if arl_window_started_at b0 + seconds (rls_window_seconds s) \<le> now
      then b0\<lparr>arl_request_count := 0, arl_window_started_at := now\<rparr> else b0)"
    using g by (auto simp: rl_get_or_create_bucket_def Let_def get_rate_bucket_append b_def
        current_bucket_def rate_rows.get_key split: option.splits)
  have bkey: "arl_key_hash b = k" using key by (simp add: b)
  have eq: "(d, db') = (let b2 = b\<lparr>arl_updated_at := now\<rparr>;
       r = max 1 (ceil_total_seconds (arl_window_started_at b + seconds (rls_window_seconds s) - now))
     in if rls_ip_max_requests s \<le> arl_request_count b
        then (\<lparr>rld_allowed = False, rld_limit = rls_ip_max_requests s, rld_remaining = 0,
               rld_reset_after_seconds = r\<rparr>, put_rate_bucket b2 db1)
        else (\<lparr>rld_allowed = True, rld_limit = rls_ip_max_requests s,
               rld_remaining = max 0 (rls_ip_max_requests s - (arl_request_count b + 1)),
               rld_reset_after_seconds = r\<rparr>,
              put_rate_bucket (b2\<lparr>arl_request_count := arl_request_count b + 1\<rparr>) db1))"
    using res g unfolding b consume_def k_def by (simp add: Let_def cong: if_cong)
  show "rld_allowed d \<longleftrightarrow> arl_request_count b < rls_ip_max_requests s"
    and "rld_reset_after_seconds d = max 1
      (ceil_total_seconds (arl_window_started_at b + seconds (rls_window_seconds s) - now))"
    and "rld_remaining d = (if rld_allowed d then rls_ip_max_requests s - arl_request_count b - 1 else 0)"
    and "get_rate_bucket k db' = Some (b\<lparr>arl_updated_at := now,
      arl_request_count := arl_request_count b + (if rld_allowed d then 1 else 0)\<rparr>)"
    and "\<And>k'. k' \<noteq> k \<Longrightarrow> get_rate_bucket k' db' = get_rate_bucket k' db"
    using eq bkey found frame
    by (auto simp: Let_def rate_rows.get_put rate_rows.get_put_other split: if_splits)
qed

section \<open>Counting admitted requests\<close>

text \<open>
  What a bucket can still admit within a span of one window that starts at \<open>a\<close>: the rest of its
  window, and a whole new window when its window started before the span.
\<close>

definition window_budget :: "api_rate_limit_settings \<Rightarrow> string \<Rightarrow> time \<Rightarrow> database \<Rightarrow> nat" where
  "window_budget s k a db =
     (case get_rate_bucket k db of None \<Rightarrow> nat (rls_ip_max_requests s)
      | Some b \<Rightarrow> nat (rls_ip_max_requests s - arl_request_count b) +
          (if arl_window_started_at b < a then nat (rls_ip_max_requests s) else 0))"

definition admitted_for ::
  "keyed_hash \<Rightarrow> api_rate_limit_settings \<Rightarrow> string \<Rightarrow> (string option \<times> time) list \<Rightarrow>
     rate_limit_decision list \<Rightarrow> nat" where
  "admitted_for hmac s k calls ds =
     length (filter (\<lambda>((ip, _), d). rld_allowed d \<and> rl_fingerprint hmac s (resolved_ip ip) = k)
       (zip calls ds))"

lemma request_budget:
  assumes "consume hmac s ip now db = (d, db')" and "1 \<le> rls_ip_max_requests s"
    and "a \<le> now" "now < a + seconds (rls_window_seconds s)"
  shows "(if rld_allowed d \<and> rl_fingerprint hmac s (resolved_ip ip) = k then 1 else 0) +
    window_budget s k a db' \<le> window_budget s k a db"
proof (cases "rl_fingerprint hmac s (resolved_ip ip) = k")
  case True
  note e = consume_effect [OF assms(1) True [symmetric] refl]
  show ?thesis
    using e(1,4) True assms(2-4)
    by (auto simp: window_budget_def current_bucket_def Let_def split: option.splits if_splits)
next
  case False
  then have "get_rate_bucket k db' = get_rate_bucket k db"
    using consume_effect(5) [OF assms(1) refl refl] by simp
  with False show ?thesis by (simp add: window_budget_def)
qed

lemma consume_all_budget:
  assumes "consume_all hmac s calls db = (ds, db')" and "1 \<le> rls_ip_max_requests s"
    and "\<forall>(ip, now) \<in> set calls. a \<le> now \<and> now < a + seconds (rls_window_seconds s)"
  shows "admitted_for hmac s k calls ds + window_budget s k a db' \<le> window_budget s k a db"
  using assms(1,3)
proof (induction calls arbitrary: db ds)
  case (Cons c calls)
  obtain ip now where c: "c = (ip, now)" by (cases c)
  obtain d db1 where d: "consume hmac s ip now db = (d, db1)" by fastforce
  obtain ds' where ds: "consume_all hmac s calls db1 = (ds', db')" "ds = d # ds'"
    using Cons.prems(1) by (auto simp: c d split: prod.splits)
  have "admitted_for hmac s k calls ds' + window_budget s k a db' \<le> window_budget s k a db1"
    by (rule Cons.IH [OF ds(1)]) (use Cons.prems(2) in auto)
  moreover have "(if rld_allowed d \<and> rl_fingerprint hmac s (resolved_ip ip) = k then 1 else 0) +
      window_budget s k a db1 \<le> window_budget s k a db"
    by (rule request_budget [OF d assms(2)]) (use Cons.prems(2) c in auto)
  ultimately show ?case by (auto simp: admitted_for_def ds(2) c split: if_splits)
qed (simp add: admitted_for_def)

section \<open>Properties\<close>

text \<open>
  C8. Whatever the calls, their order and the other addresses, in any span shorter than a window
  the limiter admits at most twice the configured maximum for one address, and at most the maximum
  when the address was unknown before.
\<close>

theorem rate_limit_bounds_every_span:
  assumes "api_rate_limit_settings_error s = None"
    and "\<forall>b \<in> set (db_rate_limit_buckets db). api_rate_limit_row_ok b"
    and "\<forall>(ip, now) \<in> set calls. a \<le> now \<and> now < a + seconds (rls_window_seconds s)"
    and "consume_all hmac s calls db = (ds, db')"
  shows "int (admitted_for hmac s k calls ds) \<le> 2 * rls_ip_max_requests s \<and>
    (get_rate_bucket k db = None \<longrightarrow> int (admitted_for hmac s k calls ds) \<le> rls_ip_max_requests s)"
proof -
  have m: "1 \<le> rls_ip_max_requests s"
    using assms(1) by (auto simp: api_rate_limit_settings_error_def split: if_splits)
  have "admitted_for hmac s k calls ds \<le> window_budget s k a db"
    using consume_all_budget [OF assms(4) m assms(3), of k] by simp
  moreover have "int (window_budget s k a db) \<le> 2 * rls_ip_max_requests s"
    using assms(2) m
    by (auto simp: window_budget_def get_rate_bucket_def api_rate_limit_row_ok_def
        split: option.splits dest!: find_row_SomeD)
  moreover have "get_rate_bucket k db = None \<longrightarrow> int (window_budget s k a db) \<le> rls_ip_max_requests s"
    using m by (simp add: window_budget_def)
  ultimately show ?thesis by linarith
qed

definition demo_rate_settings :: api_rate_limit_settings where
  "demo_rate_settings =
     \<lparr>rls_fingerprint_secret = replicate 32 (CHR ''s''), rls_window_seconds = 60, rls_ip_max_requests = 2\<rparr>"

lemma demo_rate_settings_valid: "api_rate_limit_settings_error demo_rate_settings = None"
  by (simp add: api_rate_limit_settings_error_def demo_rate_settings_def)

theorem rate_limit_bounds_every_span_witness:
  "int (admitted_for (\<lambda>s m. m) demo_rate_settings ''ordinary-api-ip:10.0.0.1''
     [(Some ''10.0.0.1'', 5), (None, 6), (Some ''10.0.0.1'', 7), (Some ''10.0.0.1'', 8)]
     (fst (consume_all (\<lambda>s m. m) demo_rate_settings
       [(Some ''10.0.0.1'', 5), (None, 6), (Some ''10.0.0.1'', 7), (Some ''10.0.0.1'', 8)]
       empty_database))) \<le> 2"
proof -
  let ?calls = "[(Some ''10.0.0.1'', 5), (None, 6), (Some ''10.0.0.1'', 7), (Some ''10.0.0.1'', 8)]"
  obtain ds db' where run: "consume_all (\<lambda>s m. m) demo_rate_settings ?calls empty_database = (ds, db')"
    by fastforce
  have "\<forall>b \<in> set (db_rate_limit_buckets empty_database). api_rate_limit_row_ok b"
    by (simp add: empty_database_def)
  moreover have "\<forall>(ip, now) \<in> set ?calls. 0 \<le> now \<and> now < 0 + seconds (rls_window_seconds demo_rate_settings)"
    by (simp add: demo_rate_settings_def)
  ultimately have "get_rate_bucket k empty_database = None \<longrightarrow>
      int (admitted_for (\<lambda>s m. m) demo_rate_settings k ?calls ds) \<le> rls_ip_max_requests demo_rate_settings" for k
    using rate_limit_bounds_every_span [OF demo_rate_settings_valid _ _ run] by blast
  then show ?thesis
    unfolding run by (simp add: demo_rate_settings_def get_rate_bucket_def empty_database_def)
qed

text \<open>
  The waiting time of a refusal is right to the second: a request of the same address is
  admitted from \<open>reset_after_seconds\<close> after the refusal on, and refused until one second earlier.
\<close>

theorem rate_limit_reset_is_exact:
  assumes "api_rate_limit_settings_error s = None"
    and "consume hmac s ip now db = (d, db1)" and "\<not> rld_allowed d"
    and "\<forall>b. get_rate_bucket (rl_fingerprint hmac s (resolved_ip ip)) db = Some b \<longrightarrow>
      arl_window_started_at b \<le> now"
  shows "(now + seconds (rld_reset_after_seconds d) \<le> t \<longrightarrow> rld_allowed (fst (consume hmac s ip t db1))) \<and>
    (t \<le> now + seconds (rld_reset_after_seconds d - 1) \<longrightarrow> \<not> rld_allowed (fst (consume hmac s ip t db1)))"
proof -
  have s: "1 \<le> rls_ip_max_requests s" "1 \<le> rls_window_seconds s" "rls_window_seconds s \<le> 3600"
    using assms(1) by (auto simp: api_rate_limit_settings_error_def split: if_splits)
  let ?k = "rl_fingerprint hmac s (resolved_ip ip)"
  let ?b = "current_bucket s ?k now db"
  note e = consume_effect [OF assms(2) refl refl]
  let ?left = "arl_window_started_at ?b + seconds (rls_window_seconds s) - now"
  have left: "0 < ?left" "?left < 2 ^ 32 * 1000000"
    using s assms(4) by (auto simp: current_bucket_def Let_def split: option.splits)
  have full: "rls_ip_max_requests s \<le> arl_request_count ?b" using e(1) assms(3) by simp
  have r: "rld_reset_after_seconds d = ceil_total_seconds ?left"
    using e(2) ceil_total_seconds_pos [OF left(1)] by simp
  note wait = ceil_total_seconds_bounds [OF left]
  obtain d' db2 where d': "consume hmac s ip t db1 = (d', db2)" by fastforce
  have "current_bucket s ?k t db1 = (let b = ?b\<lparr>arl_updated_at := now\<rparr> in
      if arl_window_started_at ?b + seconds (rls_window_seconds s) \<le> t
      then b\<lparr>arl_request_count := 0, arl_window_started_at := t\<rparr> else b)"
    using e(4) assms(3) by (simp add: current_bucket_def [of s ?k t db1] Let_def)
  then have "rld_allowed d' \<longleftrightarrow> arl_window_started_at ?b + seconds (rls_window_seconds s) \<le> t"
    using consume_effect(1) [OF d' refl refl] full s(1) by (auto simp: Let_def)
  with wait r d' show ?thesis by (auto simp: algebra_simps)
qed

lemma demo_refused:
  "\<not> rld_allowed (fst (consume (\<lambda>s m. m) demo_rate_settings None 3
     (snd (consume_all (\<lambda>s m. m) demo_rate_settings [(None, 1), (None, 2)] empty_database))))"
  by (simp add: consume_def demo_rate_settings_def rl_get_or_create_bucket_def get_rate_bucket_def
      put_rate_bucket_def empty_database_def Let_def resolved_ip_def rl_fingerprint_def)

lemma demo_started:
  "get_rate_bucket k (snd (consume_all (\<lambda>s m. m) demo_rate_settings [(None, 1), (None, 2)] empty_database)) =
     Some b \<Longrightarrow> arl_window_started_at b = 1"
  by (auto simp: consume_def demo_rate_settings_def rl_get_or_create_bucket_def get_rate_bucket_def
      put_rate_bucket_def empty_database_def Let_def resolved_ip_def rl_fingerprint_def split: if_splits)

theorem rate_limit_reset_is_exact_witness:
  "\<exists>d db1. consume (\<lambda>s m. m) demo_rate_settings None 3
      (snd (consume_all (\<lambda>s m. m) demo_rate_settings [(None, 1), (None, 2)] empty_database)) = (d, db1) \<and>
    rld_allowed (fst (consume (\<lambda>s m. m) demo_rate_settings None
      (3 + seconds (rld_reset_after_seconds d)) db1))"
proof -
  let ?db = "snd (consume_all (\<lambda>s m. m) demo_rate_settings [(None, 1), (None, 2)] empty_database)"
  obtain d db1 where d: "consume (\<lambda>s m. m) demo_rate_settings None 3 ?db = (d, db1)" by fastforce
  have "\<not> rld_allowed d" using demo_refused d by simp
  from rate_limit_reset_is_exact [OF demo_rate_settings_valid d this] demo_started d
  show ?thesis by fastforce
qed

end
