(* ===== verification/Transfers.thy ===== *)
theory Transfers
  imports Models Environment
begin

text \<open>
  The per-user transfer limits of \<^verbatim>\<open>backend/transfers\<close>: expiring leases bound the number of
  concurrent transfers, and a token bucket bounds the bytes. A denial is raised after the
  transaction committed, so the expired leases it deleted and the refill it computed stay; only
  the unknown user rolls back. Refill and waiting time are computed on floats, as the code does.
\<close>

section \<open>Settings\<close>

record transfer_settings =
  ts_window_seconds :: int
  ts_upload_max_concurrent :: int
  ts_upload_max_bytes :: int
  ts_download_max_concurrent :: int
  ts_download_max_bytes :: int
  ts_lease_seconds :: int

definition default_transfer_settings :: transfer_settings where
  "default_transfer_settings =
     \<lparr>ts_window_seconds = 3600, ts_upload_max_concurrent = 2, ts_upload_max_bytes = 2 * 1024 ^ 3,
      ts_download_max_concurrent = 3, ts_download_max_bytes = 4 * 1024 ^ 3,
      ts_lease_seconds = 4 * 60 * 60\<rparr>"

definition transfer_settings_error :: "transfer_settings \<Rightarrow> string option" where
  "transfer_settings_error s =
     (if \<not> (60 \<le> ts_window_seconds s \<and> ts_window_seconds s \<le> 24 * 60 * 60)
      then Some ''TRANSFER_WINDOW_SECONDS must be between 60 and 86400''
      else if \<not> (1 \<le> ts_upload_max_concurrent s \<and> ts_upload_max_concurrent s \<le> 32)
      then Some ''TRANSFER_UPLOAD_MAX_CONCURRENT must be between 1 and 32''
      else if \<not> (1 \<le> ts_download_max_concurrent s \<and> ts_download_max_concurrent s \<le> 32)
      then Some ''TRANSFER_DOWNLOAD_MAX_CONCURRENT must be between 1 and 32''
      else if \<not> (1 \<le> ts_upload_max_bytes s \<and> ts_upload_max_bytes s \<le> 10 * 1024 ^ 4)
      then Some ''TRANSFER_UPLOAD_MAX_BYTES must be between 1 byte and 10 TiB''
      else if \<not> (1 \<le> ts_download_max_bytes s \<and> ts_download_max_bytes s \<le> 10 * 1024 ^ 4)
      then Some ''TRANSFER_DOWNLOAD_MAX_BYTES must be between 1 byte and 10 TiB''
      else if \<not> (60 \<le> ts_lease_seconds s \<and> ts_lease_seconds s \<le> 24 * 60 * 60)
      then Some ''TRANSFER_LEASE_SECONDS must be between 60 and 86400''
      else None)"

definition transfer_settings_from_environment :: "environ \<Rightarrow> string \<Rightarrow> string + transfer_settings" where
  "transfer_settings_from_environment env environment =
     (case requires_explicit_operational_settings environment of
        Inl e \<Rightarrow> Inl e
      | Inr explicit \<Rightarrow>
          (case read_all
             [environment_integer env ''TRANSFER_WINDOW_SECONDS'' 3600 explicit,
              environment_integer env ''TRANSFER_UPLOAD_MAX_CONCURRENT'' 2 explicit,
              environment_integer env ''TRANSFER_UPLOAD_MAX_BYTES'' (2 * 1024 ^ 3) explicit,
              environment_integer env ''TRANSFER_DOWNLOAD_MAX_CONCURRENT'' 3 explicit,
              environment_integer env ''TRANSFER_DOWNLOAD_MAX_BYTES'' (4 * 1024 ^ 3) explicit,
              environment_integer env ''TRANSFER_LEASE_SECONDS'' (4 * 60 * 60) explicit] of
             Inl e \<Rightarrow> Inl e
           | Inr ns \<Rightarrow>
               let s = \<lparr>ts_window_seconds = ns ! 0, ts_upload_max_concurrent = ns ! 1,
                     ts_upload_max_bytes = ns ! 2, ts_download_max_concurrent = ns ! 3,
                     ts_download_max_bytes = ns ! 4, ts_lease_seconds = ns ! 5\<rparr>
               in case transfer_settings_error s of Some e \<Rightarrow> Inl e | None \<Rightarrow> Inr s))"

definition max_concurrent :: "transfer_settings \<Rightarrow> string \<Rightarrow> int" where
  "max_concurrent s direction =
     (if direction = ''upload'' then ts_upload_max_concurrent s else ts_download_max_concurrent s)"

definition max_bytes :: "transfer_settings \<Rightarrow> string \<Rightarrow> int" where
  "max_bytes s direction =
     (if direction = ''upload'' then ts_upload_max_bytes s else ts_download_max_bytes s)"

section \<open>Leases and buckets\<close>

datatype limit_kind = Concurrency | Traffic

datatype transfer_error =
    Transfer_value_error string
  | Transfer_limit_exceeded string limit_kind "int option"

record transfer_lease =
  tl_id :: uuid
  tl_user_id :: uuid
  tl_direction :: string
  tl_reserved_bytes :: int
  tl_expires_at :: time

definition bucket_key :: "user_transfer_bucket \<Rightarrow> uuid \<times> string" where
  "bucket_key b = (utb_user_id b, utb_direction b)"

definition get_bucket :: "uuid \<times> string \<Rightarrow> database \<Rightarrow> user_transfer_bucket option" where
  "get_bucket k db = find_row bucket_key k (db_transfer_buckets db)"

definition put_bucket :: "user_transfer_bucket \<Rightarrow> database \<Rightarrow> database" where
  "put_bucket b db = db\<lparr>db_transfer_buckets := put_row bucket_key b (db_transfer_buckets db)\<rparr>"

interpretation bucket_rows: row_store get_bucket put_bucket bucket_key
  by unfold_locales (auto simp: get_bucket_def put_bucket_def find_put dest: find_row_SomeD)

definition lease_of :: "uuid \<Rightarrow> string \<Rightarrow> user_transfer_lease \<Rightarrow> bool" where
  "lease_of user_id direction l \<longleftrightarrow> utl_user_id l = user_id \<and> utl_direction l = direction"

definition tl_get_or_create_bucket ::
  "uuid \<Rightarrow> string \<Rightarrow> int \<Rightarrow> uuid \<Rightarrow> time \<Rightarrow> database \<Rightarrow> user_transfer_bucket \<times> database" where
  "tl_get_or_create_bucket user_id direction capacity bucket_id now db =
     (case get_bucket (user_id, direction) db of
        Some bucket \<Rightarrow> (bucket, db)
      | None \<Rightarrow>
          let bucket = \<lparr>utb_id = bucket_id, utb_user_id = user_id, utb_direction = direction,
                utb_capacity_bytes = capacity, utb_available_bytes = capacity, utb_updated_at = now\<rparr>
          in (bucket, db\<lparr>db_transfer_buckets := db_transfer_buckets db @ [bucket]\<rparr>))"

text \<open>
  \<open>math.floor(elapsed * capacity / window_seconds)\<close>: \<open>elapsed\<close> is a float, so each operation
  rounds. A capacity is below \<open>2 ^ 53\<close>, so its conversion to a float is exact.
\<close>

definition refill_amount :: "transfer_settings \<Rightarrow> int \<Rightarrow> time \<Rightarrow> int" where
  "refill_amount s capacity elapsed_us =
     (let elapsed = max 0 (total_seconds elapsed_us)
      in \<lfloor>double_of (double_of (elapsed * of_int capacity) / of_int (ts_window_seconds s))\<rfloor>)"

definition refill_bucket ::
  "transfer_settings \<Rightarrow> int \<Rightarrow> time \<Rightarrow> user_transfer_bucket \<Rightarrow> int \<times> user_transfer_bucket" where
  "refill_bucket s capacity now bucket =
     (if utb_capacity_bytes bucket \<noteq> capacity
      then
        let raised = (if utb_capacity_bytes bucket < capacity
              then utb_available_bytes bucket + (capacity - utb_capacity_bytes bucket)
              else utb_available_bytes bucket);
            available = min capacity raised
        in (available, bucket\<lparr>utb_capacity_bytes := capacity, utb_updated_at := now,
              utb_available_bytes := available\<rparr>)
      else
        let refill = refill_amount s capacity (now - utb_updated_at bucket)
        in if 0 < refill
           then let available = min capacity (utb_available_bytes bucket + refill)
                in (available, bucket\<lparr>utb_updated_at := now, utb_available_bytes := available\<rparr>)
           else (utb_available_bytes bucket, bucket))"

section \<open>Acquiring and releasing\<close>

text \<open>
  The body of the transaction: \<open>Inl\<close> is an exception that rolls back; a denial or a lease is a
  value of the committed transaction.
\<close>

definition acquire_in_session ::
  "transfer_settings \<Rightarrow> uuid \<Rightarrow> string \<Rightarrow> int \<Rightarrow> uuid \<Rightarrow> uuid \<Rightarrow> time \<Rightarrow> database \<Rightarrow>
     (transfer_error, transfer_error + transfer_lease, database) outcome" where
  "acquire_in_session s user_id direction byte_count lease_id bucket_id now db =
     (if get_user user_id db = None
      then (Inl (Transfer_value_error ''transfer user does not exist''), db)
      else
        let capacity = max_bytes s direction;
            db1 = db\<lparr>db_transfer_leases :=
              delete_where (\<lambda>l. lease_of user_id direction l \<and> utl_expires_at l \<le> now)
                (db_transfer_leases db)\<rparr>;
            active = filter (\<lambda>l. lease_of user_id direction l \<and> now < utl_expires_at l)
              (db_transfer_leases db1)
        in if max_concurrent s direction \<le> int (length active)
           then
             let earliest = Min (set (map utl_expires_at active))
             in (Inr (Inl (Transfer_limit_exceeded direction Concurrency
                  (Some (max 1 (ceil_total_seconds (earliest - now)))))), db1)
           else
             let (bucket, db2) = tl_get_or_create_bucket user_id direction capacity bucket_id now db1;
                 (available, bucket1) = refill_bucket s capacity now bucket
             in if available < byte_count
                then (Inr (Inl (Transfer_limit_exceeded direction Traffic
                       (Some (max 1 \<lceil>py_truediv ((byte_count - available) * ts_window_seconds s) capacity\<rceil>)))),
                      put_bucket bucket1 db2)
                else
                  let bucket2 = bucket1\<lparr>utb_available_bytes := available - byte_count\<rparr>;
                      expires_at = now + seconds (ts_lease_seconds s);
                      db3 = put_bucket bucket2 db2
                  in (Inr (Inr \<lparr>tl_id = lease_id, tl_user_id = user_id, tl_direction = direction,
                        tl_reserved_bytes = byte_count, tl_expires_at = expires_at\<rparr>),
                      db3\<lparr>db_transfer_leases := db_transfer_leases db3 @
                        [\<lparr>utl_id = lease_id, utl_user_id = user_id, utl_direction = direction,
                          utl_reserved_bytes = byte_count, utl_acquired_at = now,
                          utl_expires_at = expires_at\<rparr>]\<rparr>))"

definition acquire ::
  "transfer_settings \<Rightarrow> uuid \<Rightarrow> string \<Rightarrow> int \<Rightarrow> uuid \<Rightarrow> uuid \<Rightarrow> time \<Rightarrow> database \<Rightarrow>
     (transfer_error, transfer_lease, database) outcome" where
  "acquire s user_id direction byte_count lease_id bucket_id now db =
     (if direction \<notin> {''upload'', ''download''}
      then (Inl (Transfer_value_error ''transfer direction must be upload or download''), db)
      else if byte_count < 0
      then (Inl (Transfer_value_error ''transfer byte count cannot be negative''), db)
      else if max_bytes s direction < byte_count
      then (Inl (Transfer_limit_exceeded direction Traffic None), db)
      else
        (case transaction (acquire_in_session s user_id direction byte_count lease_id bucket_id now) db of
           (Inl e, db') \<Rightarrow> (Inl e, db')
         | (Inr (Inl denial), db') \<Rightarrow> (Inl denial, db')
         | (Inr (Inr lease), db') \<Rightarrow> (Inr lease, db')))"

definition release :: "uuid \<Rightarrow> database \<Rightarrow> bool \<times> database" where
  "release lease_id db =
     (case find_row utl_id lease_id (db_transfer_leases db) of
        None \<Rightarrow> (False, db)
      | Some lease \<Rightarrow>
          (True, db\<lparr>db_transfer_leases := delete_where (\<lambda>l. utl_id l = lease_id) (db_transfer_leases db)\<rparr>))"

section \<open>What an acquisition does\<close>

text \<open>The bucket a call works on, refilled up to now.\<close>

definition refilled :: "transfer_settings \<Rightarrow> uuid \<Rightarrow> string \<Rightarrow> uuid \<Rightarrow> time \<Rightarrow> database \<Rightarrow>
    int \<times> user_transfer_bucket" where
  "refilled s user_id direction bucket_id now db =
     refill_bucket s (max_bytes s direction) now
       (case get_bucket (user_id, direction) db of Some b \<Rightarrow> b
        | None \<Rightarrow> \<lparr>utb_id = bucket_id, utb_user_id = user_id, utb_direction = direction,
            utb_capacity_bytes = max_bytes s direction, utb_available_bytes = max_bytes s direction,
            utb_updated_at = now\<rparr>)"

definition active_leases :: "uuid \<Rightarrow> string \<Rightarrow> time \<Rightarrow> database \<Rightarrow> nat" where
  "active_leases user_id direction now db =
     length (filter (\<lambda>l. lease_of user_id direction l \<and> now < utl_expires_at l) (db_transfer_leases db))"

lemma refill_key [simp]:
  "bucket_key (snd (refill_bucket s c now b)) = bucket_key b"
  by (simp add: refill_bucket_def Let_def bucket_key_def)

lemma refill_available [simp]:
  "utb_available_bytes (snd (refill_bucket s c now b)) = fst (refill_bucket s c now b)"
  by (simp add: refill_bucket_def Let_def)

lemma active_after_delete:
  "filter (\<lambda>l. lease_of u d l \<and> now < utl_expires_at l)
     (delete_where (\<lambda>l. lease_of u d l \<and> utl_expires_at l \<le> now) ls) =
   filter (\<lambda>l. lease_of u d l \<and> now < utl_expires_at l) ls"
  by (induction ls) (auto simp: delete_where_def)

text \<open>The three outcomes of an acquisition, with the rows they leave.\<close>

lemma acquire_cases:
  assumes res: "acquire s u d n lid bid now db = (res, db')"
  obtains (Failed) e where "res = Inl e" "db' = db"
  | (Crowded) r where "res = Inl (Transfer_limit_exceeded d Concurrency r)"
      "max_concurrent s d \<le> int (active_leases u d now db)"
      "db_transfer_buckets db' = db_transfer_buckets db"
      "db_transfer_leases db' = delete_where (\<lambda>l. lease_of u d l \<and> utl_expires_at l \<le> now) (db_transfer_leases db)"
  | (Exhausted) r a b where "res = Inl (Transfer_limit_exceeded d Traffic r)"
      "refilled s u d bid now db = (a, b)" "a < n" "n \<le> max_bytes s d"
      "get_bucket (u, d) db' = Some b"
      "\<And>k. k \<noteq> (u, d) \<Longrightarrow> get_bucket k db' = get_bucket k db"
      "db_transfer_leases db' = delete_where (\<lambda>l. lease_of u d l \<and> utl_expires_at l \<le> now) (db_transfer_leases db)"
  | (Granted) l a b where "res = Inr l" "tl_reserved_bytes l = n" "0 \<le> n" "n \<le> a"
      "d \<in> {''upload'', ''download''}"
      "int (active_leases u d now db) < max_concurrent s d"
      "refilled s u d bid now db = (a, b)"
      "get_bucket (u, d) db' = Some (b\<lparr>utb_available_bytes := a - n\<rparr>)"
      "\<And>k. k \<noteq> (u, d) \<Longrightarrow> get_bucket k db' = get_bucket k db"
      "db_transfer_leases db' =
         delete_where (\<lambda>l. lease_of u d l \<and> utl_expires_at l \<le> now) (db_transfer_leases db) @
         [\<lparr>utl_id = lid, utl_user_id = u, utl_direction = d, utl_reserved_bytes = n,
           utl_acquired_at = now, utl_expires_at = now + seconds (ts_lease_seconds s)\<rparr>]"
proof (cases "d \<in> {''upload'', ''download''} \<and> 0 \<le> n \<and> n \<le> max_bytes s d \<and> get_user u db \<noteq> None")
  case False
  have unknown: "transaction (acquire_in_session s u d n lid bid now) db =
      (Inl (Transfer_value_error ''transfer user does not exist''), db)" if "get_user u db = None"
    by (rule transaction_raise) (simp add: acquire_in_session_def that)
  have "\<exists>e. acquire s u d n lid bid now db = (Inl e, db)"
    by (cases "d \<in> {''upload'', ''download''}"; cases "n < 0"; cases "max_bytes s d < n")
      (use False unknown in \<open>simp_all add: acquire_def\<close>)
  then show thesis using res by (auto intro: Failed)
next
  case True
  then have d: "d \<in> {''upload'', ''download''}" and n: "0 \<le> n" "n \<le> max_bytes s d"
    and user: "get_user u db \<noteq> None" by blast+
  let ?body = "acquire_in_session s u d n lid bid now db"
  let ?db1 = "db\<lparr>db_transfer_leases :=
      delete_where (\<lambda>l. lease_of u d l \<and> utl_expires_at l \<le> now) (db_transfer_leases db)\<rparr>"
  have body: "acquire s u d n lid bid now db =
      (case ?body of (Inl e, _) \<Rightarrow> (Inl e, db) | (Inr (Inl e), db') \<Rightarrow> (Inl e, db')
       | (Inr (Inr l), db') \<Rightarrow> (Inr l, db'))"
    unfolding acquire_def transaction_def using d n by (simp split: prod.split sum.split)
  show thesis
  proof (cases "max_concurrent s d \<le> int (active_leases u d now db)")
    case crowded: True
    then have "?body = (Inr (Inl (Transfer_limit_exceeded d Concurrency (Some (max 1 (ceil_total_seconds
        (Min (set (map utl_expires_at (filter (\<lambda>l. lease_of u d l \<and> now < utl_expires_at l)
          (db_transfer_leases db)))) - now)))))), ?db1)"
      using user by (simp add: acquire_in_session_def Let_def active_after_delete active_leases_def
          del: set_map set_filter)
    with res body have "res = Inl (Transfer_limit_exceeded d Concurrency (Some (max 1 (ceil_total_seconds
        (Min (set (map utl_expires_at (filter (\<lambda>l. lease_of u d l \<and> now < utl_expires_at l)
          (db_transfer_leases db)))) - now)))))" and "db' = ?db1" by simp_all
    with crowded show thesis by (intro Crowded) simp_all
  next
    case free: False
    obtain b0 db2 where g: "tl_get_or_create_bucket u d (max_bytes s d) bid now ?db1 = (b0, db2)" by fastforce
    obtain a b where ab: "refill_bucket s (max_bytes s d) now b0 = (a, b)" by fastforce
    have ref: "refilled s u d bid now db = (a, b)"
      and key: "bucket_key b0 = (u, d)" and found: "get_bucket (u, d) db2 \<noteq> None"
      and frame: "\<And>k. k \<noteq> (u, d) \<Longrightarrow> get_bucket k db2 = get_bucket k db"
      and leases: "db_transfer_leases db2 = db_transfer_leases ?db1"
      using g ab by (auto simp: tl_get_or_create_bucket_def refilled_def get_bucket_def bucket_key_def
          Let_def dest: find_row_SomeD split: option.splits if_splits)
    have bk: "bucket_key b = (u, d)" using ab key by (metis refill_key snd_conv)
    have eq: "?body = (if a < n
        then (Inr (Inl (Transfer_limit_exceeded d Traffic
               (Some (max 1 \<lceil>py_truediv ((n - a) * ts_window_seconds s) (max_bytes s d)\<rceil>)))), put_bucket b db2)
        else (Inr (Inr \<lparr>tl_id = lid, tl_user_id = u, tl_direction = d, tl_reserved_bytes = n,
                tl_expires_at = now + seconds (ts_lease_seconds s)\<rparr>),
          (put_bucket (b\<lparr>utb_available_bytes := a - n\<rparr>) db2)\<lparr>db_transfer_leases :=
            db_transfer_leases (put_bucket (b\<lparr>utb_available_bytes := a - n\<rparr>) db2) @
             [\<lparr>utl_id = lid, utl_user_id = u, utl_direction = d, utl_reserved_bytes = n,
              utl_acquired_at = now, utl_expires_at = now + seconds (ts_lease_seconds s)\<rparr>]\<rparr>))"
      using user free g ab
      by (simp add: acquire_in_session_def Let_def active_after_delete active_leases_def)
    have gb: "get_bucket k (put_bucket x db2) = (if k = (u, d) then Some x else get_bucket k db)"
      if "bucket_key x = (u, d)" for k x
      using that found frame by (auto simp: bucket_rows.get_put bucket_rows.get_put_other)
    have k2: "bucket_key (b\<lparr>utb_available_bytes := a - n\<rparr>) = (u, d)" using bk by (simp add: bucket_key_def)
    have lp: "db_transfer_leases (put_bucket x db2) = db_transfer_leases ?db1" for x
      using leases by (simp add: put_bucket_def)
    have gl: "get_bucket k (x\<lparr>db_transfer_leases := y\<rparr>) = get_bucket k x" for k x y
      by (simp add: get_bucket_def)
    show thesis
    proof (cases "a < n")
      case True
      with res body eq have "res = Inl (Transfer_limit_exceeded d Traffic
          (Some (max 1 \<lceil>py_truediv ((n - a) * ts_window_seconds s) (max_bytes s d)\<rceil>)))"
        "db' = put_bucket b db2" by auto
      with True n ref gb [OF bk] lp show thesis by (intro Exhausted) simp_all
    next
      case False
      with res body eq obtain l where "res = Inr l" "tl_reserved_bytes l = n" and
        "db' = (put_bucket (b\<lparr>utb_available_bytes := a - n\<rparr>) db2)\<lparr>db_transfer_leases :=
            db_transfer_leases (put_bucket (b\<lparr>utb_available_bytes := a - n\<rparr>) db2) @
             [\<lparr>utl_id = lid, utl_user_id = u, utl_direction = d, utl_reserved_bytes = n,
              utl_acquired_at = now, utl_expires_at = now + seconds (ts_lease_seconds s)\<rparr>]\<rparr>"
        by auto
      with False n d free ref gb [OF k2] lp gl show thesis by (intro Granted) simp_all
    qed
  qed
qed

end
