(* ===== verification/Transfer_Theorems.thy ===== *)
theory Transfer_Theorems
  imports Transfers
begin

text \<open>
  The properties of the transfer limits over arbitrary runs of acquisitions and releases: the
  tables keep their constraints, the number of concurrent transfers is bounded at every time, and
  the bytes granted are bounded by the capacity and the rate, rounding of floats included.
\<close>

section \<open>The refill on floats\<close>

lemma double_of_relative:
  assumes "0 \<le> x" shows "double_of x \<le> x * (1 + 1 / 2 ^ 53)"
proof (cases "x = 0")
  case False
  with assms have x: "0 < x" by simp
  have "double_ulp x = 2 powi ilog2 x / 2 ^ 52"
    using x by (simp add: double_ulp_def power_int_diff)
  also have "\<dots> \<le> x / 2 ^ 52"
    by (rule divide_right_mono [OF ilog2_bounds(1) [OF x]]) simp
  finally have "double_ulp x / 2 \<le> x / 2 ^ 53" by simp
  moreover have "double_of x \<le> x + double_ulp x / 2" using double_of_error [of x] by linarith
  ultimately show ?thesis by (simp add: algebra_simps)
qed simp

definition window_us :: "transfer_settings \<Rightarrow> rat" where
  "window_us s = of_int (ts_window_seconds s) * 1000000"

lemma settings_valid:
  assumes "transfer_settings_error s = None"
  shows "60 \<le> ts_window_seconds s" "ts_window_seconds s \<le> 86400"
    "1 \<le> max_concurrent s d" "1 \<le> max_bytes s d" "max_bytes s d \<le> 10 * 1024 ^ 4"
    "60 \<le> ts_lease_seconds s" "ts_lease_seconds s \<le> 86400"
  using assms
  by (auto simp: transfer_settings_error_def max_concurrent_def max_bytes_def split: if_splits)

lemma window_us_pos: "transfer_settings_error s = None \<Longrightarrow> 0 < window_us s"
  using settings_valid(1) [of s] by (simp add: window_us_def)

lemma refill_nonpos:
  assumes "us \<le> 0" shows "refill_amount s c us = 0"
proof -
  have "total_seconds us \<le> 0"
    using assms double_of_le_int [of "of_int us / 1000000" 0]
  proof (cases "us = 0")
    case False
    with assms have neg: "(of_int us :: rat) / 1000000 < 0" by (simp add: divide_neg_pos)
    have "round_half_even ((of_int us / 1000000) / double_ulp (of_int us / 1000000)) \<le> 0"
      using neg by (intro round_half_even_le_int) (simp add: divide_neg_pos less_imp_le)
    then show ?thesis
      by (simp add: total_seconds_def double_of_def mult_nonpos_nonneg less_imp_le)
  qed (simp add: total_seconds_def)
  then show ?thesis by (simp add: refill_amount_def max_def)
qed

text \<open>
  A refill exceeds the exact rate by at most one byte once it is clipped to the capacity: the
  three roundings lose less than \<open>2 ^ -7\<close> of a byte below 10 TiB.
\<close>

lemma refill_bound:
  assumes ok: "transfer_settings_error s = None" and c: "0 < c" "c \<le> 10 * 1024 ^ 4" and us: "0 \<le> us"
  shows "of_int (min c (refill_amount s c us)) \<le> of_int c * of_int us / window_us s + 1"
proof (cases "(of_int c :: rat) \<le> of_int c * of_int us / window_us s")
  case True
  have "(of_int (min c (refill_amount s c us)) :: rat) \<le> of_int c" by (simp only: of_int_le_iff min.cobounded1)
  with True show ?thesis by linarith
next
  case False
  let ?W = "of_int (ts_window_seconds s) :: rat"
  let ?E = "of_int us / 1000000 :: rat"
  let ?q = "1 + 1 / 2 ^ 53 :: rat"
  let ?x = "of_int c * of_int us / window_us s :: rat"
  have W: "0 < ?W" using settings_valid(1) [OF ok] by simp
  have cr: "0 < (of_int c :: rat)" using c(1) by simp
  have "(of_int c :: rat) \<le> of_int (10 * 1024 ^ 4)" using c(2) by (simp only: of_int_le_iff)
  then have cb: "(of_int c :: rat) \<le> 10 * 1024 ^ 4" by simp
  have e0: "0 \<le> total_seconds us" by (rule total_seconds_nonneg [OF us])
  have e: "total_seconds us \<le> ?E * ?q"
    unfolding total_seconds_def by (rule double_of_relative) (use us in simp)
  let ?p = "double_of (total_seconds us * of_int c)"
  have p: "?p \<le> (?E * ?q * of_int c) * ?q"
  proof -
    have "?p \<le> total_seconds us * of_int c * ?q"
      by (rule double_of_relative) (use e0 cr in simp)
    also have "\<dots> \<le> (?E * ?q * of_int c) * ?q"
      by (intro mult_right_mono e) (use cr in simp_all)
    finally show ?thesis .
  qed
  have p0: "0 \<le> ?p" by (rule double_of_nonneg) (use e0 cr in simp)
  have "double_of (?p / ?W) \<le> ?p / ?W * ?q" by (rule double_of_relative) (use p0 W in simp)
  also have "\<dots> \<le> (?E * ?q * of_int c) * ?q / ?W * ?q"
    by (intro mult_right_mono divide_right_mono p) (use W in simp_all)
  also have "\<dots> = ?x * (?q * ?q * ?q)" by (simp add: window_us_def)
  also have "\<dots> \<le> ?x * (1 + 1 / 2 ^ 51)"
  proof (rule mult_left_mono)
    show "?q * ?q * ?q \<le> 1 + 1 / 2 ^ 51" by simp
    show "0 \<le> ?x" using cr us window_us_pos [OF ok] by simp
  qed
  also have "\<dots> = ?x + ?x / 2 ^ 51" by (simp add: algebra_simps)
  also have "\<dots> \<le> ?x + 1"
  proof -
    have "?x \<le> 2 ^ 51" using False cb by simp
    then show ?thesis by simp
  qed
  finally have q: "double_of (?p / ?W) \<le> ?x + 1" .
  have "refill_amount s c us = \<lfloor>double_of (?p / ?W)\<rfloor>"
    using e0 by (simp add: refill_amount_def max_def)
  then have "(of_int (refill_amount s c us) :: rat) \<le> double_of (?p / ?W)" by simp
  moreover have "(of_int (min c (refill_amount s c us)) :: rat) \<le> of_int (refill_amount s c us)"
    by (simp only: of_int_le_iff min.cobounded2)
  ultimately show ?thesis using q by linarith
qed

section \<open>Runs\<close>

datatype transfer_call =
    Acquire uuid string int uuid uuid time
  | Release uuid

fun run_transfer ::
  "transfer_settings \<Rightarrow> transfer_call \<Rightarrow> database \<Rightarrow> transfer_lease option \<times> database" where
  "run_transfer s (Acquire u d n lid bid now) db =
     (case acquire s u d n lid bid now db of (Inr l, db') \<Rightarrow> (Some l, db') | (Inl _, db') \<Rightarrow> (None, db'))"
| "run_transfer s (Release lid) db = (None, snd (release lid db))"

fun run_transfers :: "transfer_settings \<Rightarrow> transfer_call list \<Rightarrow> database \<Rightarrow> database" where
  "run_transfers s [] db = db"
| "run_transfers s (call # calls) db = run_transfers s calls (snd (run_transfer s call db))"

definition granted_to :: "uuid \<Rightarrow> string \<Rightarrow> transfer_lease option \<Rightarrow> int" where
  "granted_to u d g = (case g of None \<Rightarrow> 0
     | Some l \<Rightarrow> if tl_user_id l = u \<and> tl_direction l = d then tl_reserved_bytes l else 0)"

fun granted_bytes ::
  "transfer_settings \<Rightarrow> uuid \<Rightarrow> string \<Rightarrow> transfer_call list \<Rightarrow> database \<Rightarrow> int" where
  "granted_bytes s u d [] db = 0"
| "granted_bytes s u d (call # calls) db =
     (case run_transfer s call db of (g, db') \<Rightarrow> granted_to u d g + granted_bytes s u d calls db')"

fun call_times :: "transfer_call \<Rightarrow> time set" where
  "call_times (Acquire u d n lid bid now) = {now}"
| "call_times (Release lid) = {}"

lemma release_frame:
  "get_bucket k (snd (release lid db)) = get_bucket k db"
  "db_transfer_buckets (snd (release lid db)) = db_transfer_buckets db"
  "db_transfer_leases (snd (release lid db)) = delete_where (\<lambda>l. utl_id l = lid) (db_transfer_leases db)"
proof -
  show "get_bucket k (snd (release lid db)) = get_bucket k db"
    "db_transfer_buckets (snd (release lid db)) = db_transfer_buckets db"
    by (simp_all add: release_def get_bucket_def split: option.split)
  have "delete_where (\<lambda>l. utl_id l = lid) ls = ls" if "find_row utl_id lid ls = None"
    for ls :: "user_transfer_lease list"
    using that by (induction ls) (auto simp: delete_where_def split: if_splits)
  then show "db_transfer_leases (snd (release lid db)) =
      delete_where (\<lambda>l. utl_id l = lid) (db_transfer_leases db)"
    by (cases "find_row utl_id lid (db_transfer_leases db)") (auto simp: release_def)
qed

section \<open>The number of concurrent transfers\<close>

lemma active_mono:
  "now \<le> t \<Longrightarrow> active_leases u d t db \<le> active_leases u d now db"
proof -
  assume "now \<le> t"
  then have "length (filter (\<lambda>l. lease_of u d l \<and> t < utl_expires_at l) ls) \<le>
      length (filter (\<lambda>l. lease_of u d l \<and> now < utl_expires_at l) ls)" for ls
    by (induction ls) auto
  then show ?thesis by (simp add: active_leases_def)
qed

lemma active_delete_le:
  "length (filter P (delete_where Q ls)) \<le> length (filter P ls)"
  by (induction ls) (auto simp: delete_where_def)

lemma run_transfer_active:
  assumes "\<forall>now \<in> call_times call. now \<le> t" and "int (active_leases u d t db) \<le> max_concurrent s d"
  shows "int (active_leases u d t (snd (run_transfer s call db))) \<le> max_concurrent s d"
proof (cases call)
  case (Release lid)
  have "active_leases u d t (snd (release lid db)) \<le> active_leases u d t db"
    by (simp add: active_leases_def release_frame active_delete_le)
  with assms(2) Release show ?thesis by simp
next
  case (Acquire u' d' n lid bid now)
  obtain res db' where res: "acquire s u' d' n lid bid now db = (res, db')" by fastforce
  then have db': "snd (run_transfer s call db) = db'"
    by (simp add: Acquire split: sum.split)
  have kept: "length (filter (\<lambda>l. lease_of u d l \<and> t < utl_expires_at l)
      (delete_where Q (db_transfer_leases db))) \<le> active_leases u d t db" for Q
    by (simp add: active_leases_def active_delete_le)
  have kept': "int (length (filter (\<lambda>l. lease_of u d l \<and> t < utl_expires_at l)
      (delete_where Q (db_transfer_leases db)))) \<le> max_concurrent s d" for Q
    using kept [of Q] assms(2) by linarith
  from res have "int (active_leases u d t db') \<le> max_concurrent s d"
  proof (cases rule: acquire_cases)
    case Failed
    with assms(2) show ?thesis by simp
  next
    case Crowded
    with kept' show ?thesis by (simp add: active_leases_def [of u d t db'])
  next
    case Exhausted
    with kept' show ?thesis by (simp add: active_leases_def [of u d t db'])
  next
    case (Granted l a b)
    have le: "active_leases u d t db' \<le>
        active_leases u d t db + (if u' = u \<and> d' = d then 1 else 0)"
      using kept [of "\<lambda>l. lease_of u' d' l \<and> utl_expires_at l \<le> now"]
      unfolding active_leases_def [of u d t db'] Granted(10) by (auto simp: lease_of_def)
    show ?thesis
    proof (cases "u' = u \<and> d' = d")
      case True
      have "active_leases u d t db \<le> active_leases u d now db"
        by (rule active_mono) (use assms(1) Acquire in simp)
      with le Granted(6) True show ?thesis by simp
    next
      case False
      with le assms(2) show ?thesis by auto
    qed
  qed
  with db' show ?thesis by simp
qed

text \<open>
  C6. At no time does a user hold more unexpired transfer leases in a direction than the
  configured maximum: the bound holds at every time that is not before the calls of a run, whatever
  the calls, their users and their order.
\<close>

theorem concurrent_transfers_bounded:
  assumes "int (active_leases u d t db) \<le> max_concurrent s d"
    and "\<forall>call \<in> set calls. \<forall>now \<in> call_times call. now \<le> t"
  shows "int (active_leases u d t (run_transfers s calls db)) \<le> max_concurrent s d"
  using assms
proof (induction calls arbitrary: db)
  case (Cons call calls)
  have "int (active_leases u d t (snd (run_transfer s call db))) \<le> max_concurrent s d"
    by (rule run_transfer_active) (use Cons.prems in auto)
  from Cons.IH [OF this] Cons.prems(2) show ?case by simp
qed simp

theorem concurrent_transfers_bounded_witness:
  "int (active_leases 1 ''upload'' 30 (run_transfers default_transfer_settings
     [Acquire 1 ''upload'' 100 50 60 10, Acquire 1 ''upload'' 100 51 61 20,
      Acquire 1 ''upload'' 100 52 62 30] demo_init)) \<le> 2"
proof -
  have "int (active_leases 1 ''upload'' 30 demo_init) \<le>
      max_concurrent default_transfer_settings ''upload''"
    by (simp add: active_leases_def max_concurrent_def default_transfer_settings_def)
  from concurrent_transfers_bounded [OF this, of "[Acquire 1 ''upload'' 100 50 60 10,
      Acquire 1 ''upload'' 100 51 61 20, Acquire 1 ''upload'' 100 52 62 30]"]
  show ?thesis by (simp add: max_concurrent_def default_transfer_settings_def)
qed

section \<open>The bytes granted\<close>

definition bucket_capacity_current :: "transfer_settings \<Rightarrow> uuid \<Rightarrow> string \<Rightarrow> database \<Rightarrow> bool" where
  "bucket_capacity_current s u d db =
     (case get_bucket (u, d) db of None \<Rightarrow> True
      | Some b \<Rightarrow> utb_capacity_bytes b = max_bytes s d \<and> utb_available_bytes b \<le> max_bytes s d \<and>
          0 \<le> utb_available_bytes b)"

text \<open>
  What a bucket can still grant until \<open>T\<close>: the bytes it holds, and the exact refill of the time
  that its last update leaves.
\<close>

definition traffic_budget :: "transfer_settings \<Rightarrow> uuid \<Rightarrow> string \<Rightarrow> time \<Rightarrow> time \<Rightarrow> database \<Rightarrow> rat" where
  "traffic_budget s u d t0 T db =
     (case get_bucket (u, d) db of
        None \<Rightarrow> of_int (max_bytes s d) + of_int (max_bytes s d) * of_int (T - t0) / window_us s
      | Some b \<Rightarrow> of_int (utb_available_bytes b) +
          of_int (max_bytes s d) * of_int (max 0 (T - utb_updated_at b)) / window_us s)"

lemma rate_mono:
  assumes "transfer_settings_error s = None" "x \<le> y"
  shows "of_int (max_bytes s d) * of_int x / window_us s \<le> of_int (max_bytes s d) * of_int y / window_us s"
  using assms settings_valid(4) [of s d] window_us_pos [OF assms(1)]
  by (intro divide_right_mono mult_left_mono) auto

lemma refill_budget:
  assumes ok: "transfer_settings_error s = None" and "utb_capacity_bytes b = max_bytes s d"
    and avail: "utb_available_bytes b \<le> max_bytes s d" "0 \<le> utb_available_bytes b" and "now \<le> T"
    and r: "refill_bucket s (max_bytes s d) now b = (a, b')"
  shows "utb_capacity_bytes b' = max_bytes s d" and "a \<le> max_bytes s d" and "0 \<le> a"
    and "of_int a + of_int (max_bytes s d) * of_int (max 0 (T - utb_updated_at b')) / window_us s \<le>
      of_int (utb_available_bytes b) +
        of_int (max_bytes s d) * of_int (max 0 (T - utb_updated_at b)) / window_us s + 1"
proof -
  let ?c = "max_bytes s d" and ?us = "now - utb_updated_at b"
  let ?r = "refill_amount s ?c ?us"
  show "utb_capacity_bytes b' = ?c" "a \<le> ?c" "0 \<le> a"
    using r assms(2-4) by (auto simp: refill_bucket_def Let_def split: if_splits)
  show "of_int a + of_int ?c * of_int (max 0 (T - utb_updated_at b')) / window_us s \<le>
      of_int (utb_available_bytes b) + of_int ?c * of_int (max 0 (T - utb_updated_at b)) / window_us s + 1"
  proof (cases "0 < ?r")
    case True
    then have us: "0 < ?us" using refill_nonpos [of ?us s ?c] by (cases "0 < ?us") auto
    from True r assms(2) have a: "a = min ?c (utb_available_bytes b + ?r)" and b': "utb_updated_at b' = now"
      by (auto simp: refill_bucket_def Let_def)
    have "a \<le> utb_available_bytes b + min ?c ?r" using a avail by simp
    then have "(of_int a :: rat) \<le> of_int (utb_available_bytes b + min ?c ?r)" by (simp only: of_int_le_iff)
    moreover have "of_int (min ?c ?r) \<le> of_int ?c * of_int ?us / window_us s + 1"
      by (rule refill_bound [OF ok]) (use settings_valid(4,5) [OF ok, of d] us in auto)
    moreover have "max 0 (T - utb_updated_at b) = max 0 (T - now) + ?us" using us assms(5) by simp
    then have "of_int ?c * of_int (max 0 (T - utb_updated_at b)) / window_us s =
        of_int ?c * of_int (max 0 (T - now)) / window_us s + of_int ?c * of_int ?us / window_us s"
      by (simp only: of_int_add distrib_left add_divide_distrib)
    ultimately show ?thesis by (simp add: b')
  next
    case False
    with r assms(2) have "a = utb_available_bytes b" "b' = b" by (auto simp: refill_bucket_def Let_def)
    then show ?thesis by simp
  qed
qed

lemma refilled_budget:
  assumes ok: "transfer_settings_error s = None" and cap: "bucket_capacity_current s u d db"
    and t: "t0 \<le> now" "now \<le> T" and r: "refilled s u d bid now db = (a, b)"
  shows "utb_capacity_bytes b = max_bytes s d \<and> a \<le> max_bytes s d \<and> 0 \<le> a \<and>
    of_int a + of_int (max_bytes s d) * of_int (max 0 (T - utb_updated_at b)) / window_us s \<le>
      traffic_budget s u d t0 T db + 1"
proof (cases "get_bucket (u, d) db")
  case None
  let ?b = "\<lparr>utb_id = bid, utb_user_id = u, utb_direction = d, utb_capacity_bytes = max_bytes s d,
      utb_available_bytes = max_bytes s d, utb_updated_at = now\<rparr>"
  have ref: "refill_bucket s (max_bytes s d) now ?b = (a, b)" using r None by (simp add: refilled_def)
  have "of_int (max_bytes s d) * of_int (max 0 (T - now)) / window_us s \<le>
      of_int (max_bytes s d) * of_int (T - t0) / window_us s"
    by (rule rate_mono [OF ok]) (use t in auto)
  with refill_budget [OF ok _ _ _ t(2) ref] None settings_valid(4) [OF ok, of d]
  show ?thesis
    by (simp add: traffic_budget_def)
next
  case (Some b0)
  then have ref: "refill_bucket s (max_bytes s d) now b0 = (a, b)" using r by (simp add: refilled_def)
  from refill_budget [OF ok _ _ _ t(2) ref] Some cap
  show ?thesis
    by (simp add: traffic_budget_def bucket_capacity_current_def)
qed

lemma run_transfer_budget:
  assumes ok: "transfer_settings_error s = None" and cap: "bucket_capacity_current s u d db"
    and t: "\<forall>now \<in> call_times call. t0 \<le> now \<and> now \<le> T"
    and run: "run_transfer s call db = (g, db')"
  shows "bucket_capacity_current s u d db' \<and>
    of_int (granted_to u d g) + traffic_budget s u d t0 T db' \<le> traffic_budget s u d t0 T db + 1"
proof (cases call)
  case (Release lid)
  with run cap show ?thesis
    by (auto simp: granted_to_def bucket_capacity_current_def traffic_budget_def release_frame)
next
  case (Acquire u' d' n lid bid now)
  obtain res db1 where res: "acquire s u' d' n lid bid now db = (res, db1)" by fastforce
  with run have db': "db' = db1" and g: "g = (case res of Inl _ \<Rightarrow> None | Inr l \<Rightarrow> Some l)"
    by (auto simp: Acquire split: sum.splits)
  have now: "t0 \<le> now" "now \<le> T" using t Acquire by auto
  have same: ?thesis if "get_bucket (u, d) db1 = get_bucket (u, d) db" "granted_to u d g = 0"
    using that cap by (simp add: db' bucket_capacity_current_def traffic_budget_def)
  from res show ?thesis
  proof (cases rule: acquire_cases)
    case Failed
    then show ?thesis by (intro same) (simp_all add: g granted_to_def)
  next
    case Crowded
    then show ?thesis by (intro same) (simp_all add: g granted_to_def get_bucket_def)
  next
    case (Exhausted r a b)
    show ?thesis
    proof (cases "u' = u \<and> d' = d")
      case True
      then have ref: "refilled s u d bid now db = (a, b)" and gb: "get_bucket (u, d) db1 = Some b"
        using Exhausted by auto
      have "utb_available_bytes b = a"
        using ref unfolding refilled_def by (metis fst_conv refill_available snd_conv)
      with refilled_budget [OF ok cap now ref] gb show ?thesis
        by (simp add: db' g Exhausted(1) granted_to_def bucket_capacity_current_def traffic_budget_def)
    next
      case False
      with Exhausted show ?thesis by (intro same) (auto simp: g granted_to_def)
    qed
  next
    case (Granted l a b)
    have l: "tl_user_id l = u' \<and> tl_direction l = d'"
      using res Granted(1) by (auto simp: acquire_def acquire_in_session_def transaction_def Let_def
          split: if_splits prod.splits sum.splits)
    show ?thesis
    proof (cases "u' = u \<and> d' = d")
      case True
      then have ref: "refilled s u d bid now db = (a, b)"
        and gb: "get_bucket (u, d) db1 = Some (b\<lparr>utb_available_bytes := a - n\<rparr>)" using Granted by auto
      from refilled_budget [OF ok cap now ref] gb True l Granted(1-4) show ?thesis
        by (simp add: db' g granted_to_def bucket_capacity_current_def traffic_budget_def)
    next
      case False
      with Granted l show ?thesis by (intro same) (auto simp: g granted_to_def)
    qed
  qed
qed

lemma run_transfers_budget:
  assumes ok: "transfer_settings_error s = None" and "bucket_capacity_current s u d db"
    and "\<forall>call \<in> set calls. \<forall>now \<in> call_times call. t0 \<le> now \<and> now \<le> T"
  shows "bucket_capacity_current s u d (run_transfers s calls db) \<and>
    of_int (granted_bytes s u d calls db) + traffic_budget s u d t0 T (run_transfers s calls db) \<le>
      traffic_budget s u d t0 T db + of_nat (length calls)"
  using assms(2,3)
proof (induction calls arbitrary: db)
  case (Cons call calls)
  obtain g db' where run: "run_transfer s call db = (g, db')" by fastforce
  have "bucket_capacity_current s u d db' \<and>
    of_int (granted_to u d g) + traffic_budget s u d t0 T db' \<le> traffic_budget s u d t0 T db + 1"
    by (rule run_transfer_budget [OF ok Cons.prems(1) _ run]) (use Cons.prems(2) in simp)
  with Cons.IH [of db'] Cons.prems(2) run show ?case by simp
qed simp

text \<open>
  The bytes granted to a user in a direction over a period \<open>[t0, T]\<close> are at most the capacity
  plus the refill of the period at the configured rate, plus one byte per call for the rounding of
  floats; no order of calls, of other users or of releases gives more.
\<close>

theorem granted_traffic_bounded:
  assumes "transfer_settings_error s = None" and "bucket_capacity_current s u d db"
    and "\<forall>b. get_bucket (u, d) db = Some b \<longrightarrow> t0 \<le> utb_updated_at b" and "t0 \<le> T"
    and "\<forall>call \<in> set calls. \<forall>now \<in> call_times call. t0 \<le> now \<and> now \<le> T"
  shows "of_int (granted_bytes s u d calls db) \<le>
    of_int (max_bytes s d) + of_int (max_bytes s d) * of_int (T - t0) / window_us s + (of_nat (length calls) :: rat)"
proof -
  let ?db = "run_transfers s calls db"
  have w: "0 < window_us s" and c: "0 < (of_int (max_bytes s d) :: rat)"
    using window_us_pos settings_valid(4) [OF assms(1), of d] assms(1) by auto
  note run = run_transfers_budget [OF assms(1,2,5)]
  have "0 \<le> traffic_budget s u d t0 T ?db"
    using run w c assms(4)
    by (auto simp: traffic_budget_def bucket_capacity_current_def split: option.split)
  moreover have "traffic_budget s u d t0 T db \<le>
      of_int (max_bytes s d) + of_int (max_bytes s d) * of_int (T - t0) / window_us s"
  proof (cases "get_bucket (u, d) db")
    case (Some b)
    have "of_int (max_bytes s d) * of_int (max 0 (T - utb_updated_at b)) / window_us s \<le>
        of_int (max_bytes s d) * of_int (T - t0) / window_us s"
      by (rule rate_mono [OF assms(1)]) (use assms(3,4) Some in auto)
    moreover have "utb_available_bytes b \<le> max_bytes s d"
      using assms(2) Some by (simp add: bucket_capacity_current_def)
    then have "(of_int (utb_available_bytes b) :: rat) \<le> of_int (max_bytes s d)" by (simp only: of_int_le_iff)
    ultimately show ?thesis by (simp add: traffic_budget_def Some)
  qed (simp add: traffic_budget_def)
  ultimately show ?thesis using run by linarith
qed

lemma default_transfer_settings_valid: "transfer_settings_error default_transfer_settings = None"
  by (simp add: transfer_settings_error_def default_transfer_settings_def)

theorem granted_traffic_bounded_witness:
  "of_int (granted_bytes default_transfer_settings 1 ''upload''
     [Acquire 1 ''upload'' 2000000000 50 60 10, Release 50, Acquire 1 ''upload'' 2000000000 51 61 20] demo_init)
   \<le> (2147483648 + 2147483648 * 20 / 3600000000 + 3 :: rat)"
proof -
  have "bucket_capacity_current default_transfer_settings 1 ''upload'' demo_init"
    by (simp add: bucket_capacity_current_def get_bucket_def)
  from granted_traffic_bounded [OF default_transfer_settings_valid this, of 0 20
      "[Acquire 1 ''upload'' 2000000000 50 60 10, Release 50, Acquire 1 ''upload'' 2000000000 51 61 20]"]
  show ?thesis
    by (simp add: get_bucket_def max_bytes_def default_transfer_settings_def window_us_def)
qed

section \<open>The tables keep their constraints\<close>

definition transfer_rows_valid :: "database \<Rightarrow> bool" where
  "transfer_rows_valid db \<longleftrightarrow>
     (\<forall>k b. get_bucket k db = Some b \<longrightarrow> user_transfer_bucket_row_ok b) \<and>
     (\<forall>l \<in> set (db_transfer_leases db). user_transfer_lease_row_ok l)"

lemma refilled_row:
  assumes ok: "transfer_settings_error s = None" and d: "d \<in> {''upload'', ''download''}"
    and valid: "transfer_rows_valid db" and r: "refilled s u d bid now db = (a, b)"
  shows "utb_direction b = d \<and> utb_capacity_bytes b = max_bytes s d \<and> utb_available_bytes b = a \<and>
    0 \<le> a \<and> a \<le> max_bytes s d"
proof (cases "get_bucket (u, d) db")
  case None
  with r settings_valid(4) [OF ok, of d] show ?thesis
    by (auto simp: refilled_def refill_bucket_def Let_def split: if_splits)
next
  case (Some b0)
  then have "user_transfer_bucket_row_ok b0" "bucket_key b0 = (u, d)"
    using valid bucket_rows.get_key by (auto simp: transfer_rows_valid_def)
  with Some r settings_valid(4) [OF ok, of d] show ?thesis
    by (auto simp: refilled_def refill_bucket_def Let_def user_transfer_bucket_row_ok_def bucket_key_def
        split: if_splits)
qed

lemma run_transfer_valid:
  assumes ok: "transfer_settings_error s = None" and valid: "transfer_rows_valid db"
  shows "transfer_rows_valid (snd (run_transfer s call db))"
proof (cases call)
  case (Release lid)
  with valid show ?thesis by (auto simp: transfer_rows_valid_def release_frame delete_where_def)
next
  case (Acquire u d n lid bid now)
  obtain res db' where res: "acquire s u d n lid bid now db = (res, db')" by fastforce
  have refused: "acquire s u d n lid bid now db = (Inl (Transfer_value_error ''transfer direction must be upload or download''), db)"
    if "d \<notin> {''upload'', ''download''}"
    using that by (simp add: acquire_def)
  note lease = settings_valid(4,6) [OF ok]
  have other: "user_transfer_bucket_row_ok b" if "get_bucket k db = Some b" for k b
    using that valid unfolding transfer_rows_valid_def by blast
  from res have "transfer_rows_valid db'"
  proof (cases rule: acquire_cases)
    case Failed
    with valid show ?thesis by simp
  next
    case Crowded
    with valid show ?thesis by (auto simp: transfer_rows_valid_def get_bucket_def delete_where_def)
  next
    case (Exhausted r a b)
    then have d: "d \<in> {''upload'', ''download''}" using res refused by auto
    note row = refilled_row [OF ok d valid Exhausted(2)]
    have b: "user_transfer_bucket_row_ok b"
      using row d lease(1) [of d] by (auto simp: user_transfer_bucket_row_ok_def)
    have "user_transfer_bucket_row_ok b'" if "get_bucket k db' = Some b'" for k b'
      using that Exhausted(5,6) b other by (cases "k = (u, d)") auto
    with Exhausted(7) valid show ?thesis by (auto simp: transfer_rows_valid_def delete_where_def)
  next
    case (Granted l a b)
    note d = Granted(5) and row = refilled_row [OF ok Granted(5) valid Granted(7)]
    have b: "user_transfer_bucket_row_ok (b\<lparr>utb_available_bytes := a - n\<rparr>)"
      using row d lease(1) [of d] Granted(3,4) by (auto simp: user_transfer_bucket_row_ok_def)
    have "user_transfer_bucket_row_ok b'" if "get_bucket k db' = Some b'" for k b'
      using that Granted(8,9) b other by (cases "k = (u, d)") auto
    with Granted(3,10) valid lease(2) d show ?thesis
      by (auto simp: transfer_rows_valid_def delete_where_def user_transfer_lease_row_ok_def)
  qed
  with res Acquire show ?thesis by (simp split: sum.split)
qed

text \<open>
  C7. No call of the transfer service violates a check constraint of its tables, whatever direction, size
  and user it is given: in particular the allowance of a bucket stays between zero and its capacity, also
  when the configured capacity changed since the bucket was written.
\<close>

theorem transfer_rows_stay_valid:
  assumes "transfer_settings_error s = None" and "transfer_rows_valid db"
  shows "transfer_rows_valid (run_transfers s calls db)"
  using assms(2) by (induction calls arbitrary: db) (simp_all add: run_transfer_valid [OF assms(1)])

theorem transfer_rows_stay_valid_witness:
  "transfer_rows_valid (run_transfers (default_transfer_settings\<lparr>ts_upload_max_bytes := 500\<rparr>)
     [Acquire 1 ''upload'' 100 50 60 10, Acquire 1 ''sideways'' 100 51 61 20]
     (run_transfers default_transfer_settings [Acquire 1 ''upload'' 100 49 59 5] demo_init))"
proof -
  have ok: "transfer_settings_error (default_transfer_settings\<lparr>ts_upload_max_bytes := 500\<rparr>) = None"
    by (simp add: transfer_settings_error_def default_transfer_settings_def)
  have init: "transfer_rows_valid demo_init"
    by (simp add: transfer_rows_valid_def get_bucket_def)
  have "transfer_rows_valid (run_transfers default_transfer_settings [Acquire 1 ''upload'' 100 49 59 5] demo_init)"
    by (rule transfer_rows_stay_valid [OF default_transfer_settings_valid init])
  then show ?thesis by (rule transfer_rows_stay_valid [OF ok])
qed

end
