(* ===== verification/Quota.thy ===== *)
theory Quota
  imports Models Environment
begin

text \<open>
  The storage quota of \<^verbatim>\<open>backend/uploads/quota.py\<close> and the submission limits of
  \<^verbatim>\<open>backend/jobs/policy.py\<close>: both lock the user's row and count the user's rows in the caller's
  transaction. The properties of the limits are over these counts; that they hold after every
  operation of the upload service is shown where that service is modelled.
\<close>

section \<open>The storage quota\<close>

record quota_settings =
  qs_quota_bytes :: int
  qs_job_reservation_bytes :: int

definition default_quota_settings :: quota_settings where
  "default_quota_settings = \<lparr>qs_quota_bytes = 10 * 1024 ^ 3, qs_job_reservation_bytes = 2 * 1024 ^ 3\<rparr>"

definition quota_settings_error :: "quota_settings \<Rightarrow> string option" where
  "quota_settings_error s =
     (if qs_quota_bytes s < 1 then Some ''RE3D_USER_STORAGE_QUOTA_BYTES must be positive''
      else if qs_job_reservation_bytes s < 1
      then Some ''RE3D_JOB_STORAGE_RESERVATION_BYTES must be positive''
      else if qs_quota_bytes s < qs_job_reservation_bytes s
      then Some ''RE3D_JOB_STORAGE_RESERVATION_BYTES must not exceed RE3D_USER_STORAGE_QUOTA_BYTES''
      else None)"

definition quota_settings_from_environment :: "environ \<Rightarrow> string \<Rightarrow> string + quota_settings" where
  "quota_settings_from_environment env environment =
     (case requires_explicit_operational_settings environment of
        Inl e \<Rightarrow> Inl e
      | Inr explicit \<Rightarrow>
          (case read_all
             [quota_integer env ''RE3D_USER_STORAGE_QUOTA_BYTES'' (10 * 1024 ^ 3) explicit,
              quota_integer env ''RE3D_JOB_STORAGE_RESERVATION_BYTES'' (2 * 1024 ^ 3) explicit] of
             Inl e \<Rightarrow> Inl e
           | Inr ns \<Rightarrow>
               let s = \<lparr>qs_quota_bytes = ns ! 0, qs_job_reservation_bytes = ns ! 1\<rparr>
               in case quota_settings_error s of Some e \<Rightarrow> Inl e | None \<Rightarrow> Inr s))"

record quota_snapshot =
  qn_quota_bytes :: int
  qn_used_bytes :: int
  qn_remaining_bytes :: int
  qn_over_quota_bytes :: int
  qn_upload_bytes :: int
  qn_reserved_job_bytes :: int
  qn_job_reservation_bytes :: int

definition counted_uploads :: "uuid \<Rightarrow> database \<Rightarrow> job_upload list" where
  "counted_uploads user_id db =
     filter (\<lambda>u. up_user_id u = user_id \<and> up_status u \<noteq> Submitted \<and> up_storage_cleaned_at u = None)
       (db_uploads db)"

definition counted_jobs :: "uuid \<Rightarrow> database \<Rightarrow> reconstruction_job list" where
  "counted_jobs user_id db =
     filter (\<lambda>j. job_user_id j = user_id \<and> job_storage_released_at j = None) (db_jobs db)"

definition quota_snapshot_of :: "quota_settings \<Rightarrow> uuid \<Rightarrow> database \<Rightarrow> quota_snapshot" where
  "quota_snapshot_of s user_id db =
     (let upload_bytes = sum_list (map up_total_bytes (counted_uploads user_id db));
          reserved_job_bytes = sum_list (map job_storage_reserved_bytes (counted_jobs user_id db));
          used_bytes = upload_bytes + reserved_job_bytes
      in \<lparr>qn_quota_bytes = qs_quota_bytes s, qn_used_bytes = used_bytes,
          qn_remaining_bytes = max 0 (qs_quota_bytes s - used_bytes),
          qn_over_quota_bytes = max 0 (used_bytes - qs_quota_bytes s),
          qn_upload_bytes = upload_bytes, qn_reserved_job_bytes = reserved_job_bytes,
          qn_job_reservation_bytes = qs_job_reservation_bytes s\<rparr>)"

datatype quota_error =
    Quota_value_error string
  | Quota_runtime_error string
  | Storage_quota_exceeded

definition enforce_quota ::
  "quota_settings \<Rightarrow> uuid \<Rightarrow> int \<Rightarrow> int \<Rightarrow> database \<Rightarrow> quota_error + quota_snapshot" where
  "enforce_quota s user_id additional_bytes replaced_upload_bytes db =
     (if additional_bytes < 0 \<or> replaced_upload_bytes < 0
      then Inl (Quota_value_error ''storage quota deltas must not be negative'')
      else if get_user user_id db = None
      then Inl (Quota_runtime_error ''storage quota user does not exist'')
      else
        let current = quota_snapshot_of s user_id db;
            projected = qn_used_bytes current - replaced_upload_bytes + additional_bytes
        in if qs_quota_bytes s < projected then Inl Storage_quota_exceeded else Inr current)"

definition used_bytes :: "uuid \<Rightarrow> database \<Rightarrow> int" where
  "used_bytes user_id db =
     sum_list (map up_total_bytes (counted_uploads user_id db)) +
     sum_list (map job_storage_reserved_bytes (counted_jobs user_id db))"

lemma snapshot_used [simp]: "qn_used_bytes (quota_snapshot_of s u db) = used_bytes u db"
  by (simp add: quota_snapshot_of_def used_bytes_def Let_def)

lemma enforce_quota_Inr:
  "enforce_quota s u add rep db = Inr q \<Longrightarrow>
     0 \<le> add \<and> 0 \<le> rep \<and> used_bytes u db - rep + add \<le> qs_quota_bytes s"
  by (auto simp: enforce_quota_def Let_def split: if_splits)

section \<open>The submission limits\<close>

record submission_settings =
  sub_max_pending_jobs :: int
  sub_max_submissions_per_24h :: int

definition default_submission_settings :: submission_settings where
  "default_submission_settings = \<lparr>sub_max_pending_jobs = 3, sub_max_submissions_per_24h = 20\<rparr>"

definition submission_settings_error :: "submission_settings \<Rightarrow> string option" where
  "submission_settings_error s =
     (if \<not> (1 \<le> sub_max_pending_jobs s \<and> sub_max_pending_jobs s \<le> 1000)
      then Some ''RE3D_USER_MAX_PENDING_JOBS must be between 1 and 1000''
      else if \<not> (1 \<le> sub_max_submissions_per_24h s \<and> sub_max_submissions_per_24h s \<le> 10000)
      then Some ''RE3D_USER_MAX_SUBMISSIONS_PER_24H must be between 1 and 10000''
      else if sub_max_submissions_per_24h s < sub_max_pending_jobs s
      then Some ''RE3D_USER_MAX_SUBMISSIONS_PER_24H must be at least RE3D_USER_MAX_PENDING_JOBS''
      else None)"

definition submission_settings_from_environment :: "environ \<Rightarrow> string \<Rightarrow> string + submission_settings" where
  "submission_settings_from_environment env environment =
     (case requires_explicit_operational_settings environment of
        Inl e \<Rightarrow> Inl e
      | Inr explicit \<Rightarrow>
          (case read_all
             [quota_integer env ''RE3D_USER_MAX_PENDING_JOBS'' 3 explicit,
              quota_integer env ''RE3D_USER_MAX_SUBMISSIONS_PER_24H'' 20 explicit] of
             Inl e \<Rightarrow> Inl e
           | Inr ns \<Rightarrow>
               let s = \<lparr>sub_max_pending_jobs = ns ! 0, sub_max_submissions_per_24h = ns ! 1\<rparr>
               in case submission_settings_error s of Some e \<Rightarrow> Inl e | None \<Rightarrow> Inr s))"

datatype submission_error =
    Submission_runtime_error string
  | Pending_job_limit
  | Submission_window_limit int

definition pending_jobs :: "uuid \<Rightarrow> database \<Rightarrow> reconstruction_job list" where
  "pending_jobs user_id db =
     filter (\<lambda>j. job_user_id j = user_id \<and> job_status j \<notin> terminal_statuses) (db_jobs db)"

definition submissions_since :: "uuid \<Rightarrow> time \<Rightarrow> database \<Rightarrow> reconstruction_job list" where
  "submissions_since user_id start db =
     filter (\<lambda>j. job_user_id j = user_id \<and> start \<le> job_created_at j) (db_jobs db)"

definition submission_order :: "reconstruction_job \<Rightarrow> time \<times> uuid" where
  "submission_order j = (job_created_at j, job_id j)"

text \<open>
  The release row is the one at offset \<open>count - maximum\<close>; it exists because the count is at least
  the maximum, so the \<open>scalar_one\<close> of the source does not raise.
\<close>

definition enforce_submission ::
  "submission_settings \<Rightarrow> uuid \<Rightarrow> time \<Rightarrow> database \<Rightarrow> submission_error + unit" where
  "enforce_submission s user_id now db =
     (if get_user user_id db = None
      then Inl (Submission_runtime_error ''task submission user does not exist'')
      else if sub_max_pending_jobs s \<le> int (length (pending_jobs user_id db))
      then Inl Pending_job_limit
      else
        let window_start = now - hours 24;
            recent = submissions_since user_id window_start db;
            submission_count = int (length recent)
        in if sub_max_submissions_per_24h s \<le> submission_count
           then
             (case drop (nat (submission_count - sub_max_submissions_per_24h s))
                (sort_key submission_order recent) of
                [] \<Rightarrow> Inl (Submission_runtime_error ''no row'')
              | release # _ \<Rightarrow>
                  Inl (Submission_window_limit
                    (max 1 (ceil_total_seconds (job_created_at release + hours 24 - now)))))
           else Inr ())"

definition task_event ::
  "string \<Rightarrow> uuid \<Rightarrow> uuid \<Rightarrow> string \<Rightarrow> string option \<Rightarrow> uuid \<Rightarrow> time \<Rightarrow> task_action_event" where
  "task_event action user_id k execution_mode reason_code event_id now =
     \<lparr>tae_id = event_id, tae_action = action, tae_outcome = ''success'', tae_user_id = Some user_id,
      tae_job_id = k, tae_execution_mode = execution_mode, tae_reason_code = reason_code,
      tae_occurred_at = now\<rparr>"

lemma enforce_submission_Inr:
  assumes "enforce_submission s u now db = Inr ()"
  shows "int (length (pending_jobs u db)) < sub_max_pending_jobs s"
    and "int (length (submissions_since u (now - hours 24) db)) < sub_max_submissions_per_24h s"
  using assms by (auto simp: enforce_submission_def Let_def not_le split: if_splits list.splits)

text \<open>The row at an offset of the sorted list splits the submissions by age.\<close>

lemma later_than_sorted:
  assumes "sorted (map f xs)" and "k < length xs" and "f (xs ! k) < t"
  shows "length (filter (\<lambda>x. t \<le> f x) xs) \<le> length xs - Suc k"
proof -
  have "filter (\<lambda>x. t \<le> f x) (take (Suc k) xs) = []"
  proof (clarsimp simp: filter_empty_conv)
    fix x assume x: "x \<in> set (take (Suc k) xs)" "t \<le> f x"
    then obtain i where i: "i < Suc k" "i < length xs" "x = xs ! i"
      by (metis in_set_conv_nth length_take min_less_iff_conj nth_take)
    then have "f (xs ! i) \<le> f (xs ! k)"
      using sorted_nth_mono [OF assms(1), of i k] assms(2) by simp
    with x i assms(3) show False by simp
  qed
  then have "filter (\<lambda>x. t \<le> f x) xs = filter (\<lambda>x. t \<le> f x) (drop (Suc k) xs)"
    by (metis append_take_drop_id filter_append self_append_conv2)
  also have "length \<dots> \<le> length xs - Suc k" by (metis length_drop length_filter_le)
  finally show ?thesis .
qed

lemma sorted_created:
  "sorted (map job_created_at (sort_key submission_order xs))"
proof -
  have "sorted (map submission_order (sort_key submission_order xs))" by simp
  then have "sorted_wrt (\<lambda>x y. submission_order x \<le> submission_order y) (sort_key submission_order xs)"
    by (simp add: sorted_map)
  then have "sorted_wrt (\<lambda>x y. job_created_at x \<le> job_created_at y) (sort_key submission_order xs)"
    by (rule sorted_wrt_mono_rel [rotated]) (auto simp: submission_order_def less_eq_prod_def)
  then show ?thesis by (simp add: sorted_map)
qed

lemma submissions_later:
  "start \<le> start' \<Longrightarrow> length (submissions_since u start' db) =
     length (filter (\<lambda>j. start' \<le> job_created_at j) (sort_key submission_order (submissions_since u start db)))"
proof -
  assume "start \<le> start'"
  then have "filter (\<lambda>j. start' \<le> job_created_at j) (submissions_since u start db) = submissions_since u start' db"
    by (auto simp: submissions_since_def intro: filter_cong)
  then show ?thesis by (simp add: filter_sort)
qed

text \<open>After the reported time the window has room, if nothing was submitted in between.\<close>

lemma submission_retry:
  assumes "submission_settings_error s = None"
    and "enforce_submission s u now db = Inl (Submission_window_limit r)"
    and "now + seconds r < t" and "\<forall>j \<in> set (db_jobs db). job_created_at j \<le> now"
  shows "int (length (submissions_since u (t - hours 24) db)) < sub_max_submissions_per_24h s"
proof -
  let ?recent = "submissions_since u (now - hours 24) db"
  let ?xs = "sort_key submission_order ?recent"
  let ?m = "sub_max_submissions_per_24h s"
  let ?k = "nat (int (length ?recent) - ?m)"
  from assms(2) obtain rel rest where full: "?m \<le> int (length ?recent)"
    and rel: "drop ?k ?xs = rel # rest"
    and r: "r = max 1 (ceil_total_seconds (job_created_at rel + hours 24 - now))"
    by (auto simp: enforce_submission_def Let_def split: if_splits list.splits)
  have m: "1 \<le> ?m" using assms(1) by (auto simp: submission_settings_error_def split: if_splits)
  have k: "?k < length ?xs" using full m by simp
  have nth: "?xs ! ?k = rel" using rel k by (metis hd_drop_conv_nth list.sel(1))
  then have "rel \<in> set ?recent" by (metis k nth_mem set_sort)
  then have "now - hours 24 \<le> job_created_at rel" "job_created_at rel \<le> now"
    using assms(4) by (auto simp: submissions_since_def)
  then have "job_created_at rel + hours 24 - now \<le> seconds r"
  proof (cases "job_created_at rel + hours 24 = now")
    case False
    then have "0 < job_created_at rel + hours 24 - now" using \<open>now - hours 24 \<le> _\<close> by simp
    from ceil_total_seconds_bounds(1) [OF this] \<open>job_created_at rel \<le> now\<close> r show ?thesis by simp
  qed (simp add: r)
  with assms(3) have "job_created_at (?xs ! ?k) < t - hours 24" unfolding nth by simp
  from later_than_sorted [OF sorted_created k this]
  have "length (filter (\<lambda>j. t - hours 24 \<le> job_created_at j) ?xs) \<le> length ?xs - Suc ?k" .
  moreover have "length (submissions_since u (t - hours 24) db) =
      length (filter (\<lambda>j. t - hours 24 \<le> job_created_at j) ?xs)"
    by (rule submissions_later) (use assms(3) r in simp)
  ultimately show ?thesis using k m full by simp
qed

end
