(* ===== verification/Operational_Settings.thy ===== *)
theory Operational_Settings
  imports Rate_Limit Transfers Quota
begin

text \<open>
  What the settings read from the process environment promise, for the four modules that share the
  reader: outside development nothing is defaulted, and whatever is constructed is within bounds.
\<close>

definition explicitly_set :: "environ \<Rightarrow> string \<Rightarrow> int \<Rightarrow> bool" where
  "explicitly_set env name n \<longleftrightarrow> (\<exists>raw. env name = Some raw \<and> py_int raw = Some n)"

lemma read_two:
  assumes "read_all [a, b] = Inr ns"
  shows "a = Inr (ns ! 0)" "b = Inr (ns ! 1)"
  using assms unfolding read_all_Inr by (auto simp: Cons_eq_map_conv)

lemma read_six:
  assumes "read_all [a, b, c, d, e, f] = Inr ns"
  shows "a = Inr (ns ! 0)" "b = Inr (ns ! 1)" "c = Inr (ns ! 2)" "d = Inr (ns ! 3)"
    "e = Inr (ns ! 4)" "f = Inr (ns ! 5)"
  using assms unfolding read_all_Inr by (auto simp: Cons_eq_map_conv)

lemma explicit_value: "read_integer suffix env name d True = Inr n \<Longrightarrow> explicitly_set env name n"
  unfolding explicitly_set_def by (rule read_integer_required)

lemma explicit_environment:
  "environment = ''restricted'' \<or> environment = ''production'' \<Longrightarrow>
     requires_explicit_operational_settings environment = Inr True"
  by (auto simp: requires_explicit_iff normalize_environment_def supported_environments_def strip_def
      strip_by_def is_space_def code_point_def lower_def lower_char_def)

text \<open>
  C11. In the restricted and production environments the limits are exactly what the operator set:
  every construction that succeeds has each value from its own variable, and passed the validation
  of its class; a missing, blank or malformed variable never falls back to a default.
\<close>

theorem operational_limits_are_explicit:
  assumes "environment = ''restricted'' \<or> environment = ''production''"
  shows "(transfer_settings_from_environment env environment = Inr t \<longrightarrow>
      transfer_settings_error t = None \<and>
      explicitly_set env ''TRANSFER_WINDOW_SECONDS'' (ts_window_seconds t) \<and>
      explicitly_set env ''TRANSFER_UPLOAD_MAX_CONCURRENT'' (ts_upload_max_concurrent t) \<and>
      explicitly_set env ''TRANSFER_UPLOAD_MAX_BYTES'' (ts_upload_max_bytes t) \<and>
      explicitly_set env ''TRANSFER_DOWNLOAD_MAX_CONCURRENT'' (ts_download_max_concurrent t) \<and>
      explicitly_set env ''TRANSFER_DOWNLOAD_MAX_BYTES'' (ts_download_max_bytes t) \<and>
      explicitly_set env ''TRANSFER_LEASE_SECONDS'' (ts_lease_seconds t)) \<and>
    (api_rate_limit_settings_from_environment env environment secret = Inr r \<longrightarrow>
      api_rate_limit_settings_error r = None \<and>
      explicitly_set env ''API_IP_RATE_LIMIT_WINDOW_SECONDS'' (rls_window_seconds r) \<and>
      explicitly_set env ''API_IP_RATE_LIMIT_MAX_REQUESTS'' (rls_ip_max_requests r)) \<and>
    (quota_settings_from_environment env environment = Inr q \<longrightarrow>
      quota_settings_error q = None \<and>
      explicitly_set env ''RE3D_USER_STORAGE_QUOTA_BYTES'' (qs_quota_bytes q) \<and>
      explicitly_set env ''RE3D_JOB_STORAGE_RESERVATION_BYTES'' (qs_job_reservation_bytes q)) \<and>
    (submission_settings_from_environment env environment = Inr s \<longrightarrow>
      submission_settings_error s = None \<and>
      explicitly_set env ''RE3D_USER_MAX_PENDING_JOBS'' (sub_max_pending_jobs s) \<and>
      explicitly_set env ''RE3D_USER_MAX_SUBMISSIONS_PER_24H'' (sub_max_submissions_per_24h s))"
  by (intro conjI impI) (use explicit_environment [OF assms] in
  \<open>auto simp: transfer_settings_from_environment_def api_rate_limit_settings_from_environment_def
     quota_settings_from_environment_def submission_settings_from_environment_def Let_def
     split: sum.splits option.splits dest!: read_two read_six dest: explicit_value\<close>)

definition demo_environ :: environ where
  "demo_environ = [''RE3D_USER_STORAGE_QUOTA_BYTES'' \<mapsto> '' 10_000 '', ''RE3D_JOB_STORAGE_RESERVATION_BYTES'' \<mapsto> ''5000'']"

lemma demo_quota_read:
  "quota_settings_from_environment demo_environ ''production'' =
     Inr \<lparr>qs_quota_bytes = 10000, qs_job_reservation_bytes = 5000\<rparr>"
proof -
  have "py_int '' 10_000 '' = Some 10000" "py_int ''5000'' = Some 5000"
    "strip '' 10_000 '' \<noteq> []" "strip ''5000'' \<noteq> []"
    by (simp_all add: py_int_def strip_def strip_by_def is_space_def code_point_def parse_natural_def
        digit_of_def char_class_defs)
  then have "quota_integer demo_environ ''RE3D_USER_STORAGE_QUOTA_BYTES'' d True = Inr 10000"
    "quota_integer demo_environ ''RE3D_JOB_STORAGE_RESERVATION_BYTES'' d True = Inr 5000" for d
    by (simp_all add: read_integer_def demo_environ_def)
  then show ?thesis
    using explicit_environment [of "''production''"]
    by (simp add: quota_settings_from_environment_def Let_def quota_settings_error_def)
qed

theorem operational_limits_are_explicit_witness:
  "explicitly_set demo_environ ''RE3D_USER_STORAGE_QUOTA_BYTES'' 10000"
  using operational_limits_are_explicit [of "''production''" demo_environ,
    where q = "\<lparr>qs_quota_bytes = 10000, qs_job_reservation_bytes = 5000\<rparr>"] demo_quota_read by simp

end
