(* ===== verification/Py_Number.thy ===== *)
theory Py_Number
  imports Py_Float Environment
begin

text \<open>
  Python's floats with their two infinities and not-a-number, and \<open>float(s)\<close> of a string. Finite floats
  are the rationals that \<open>double_of\<close> returns.
\<close>

text \<open>\<open>float(s)\<close>: decimal notation with single underscores between digits, infinities and not-a-number.\<close>

datatype py_float = Finite rat | Infinite bool | Not_a_number

definition digit_part :: "string \<Rightarrow> int option" where
  "digit_part s = (case s of [] \<Rightarrow> None | c # _ \<Rightarrow> if is_digit c then parse_digits 0 s else None)"

definition exponent_part :: "string \<Rightarrow> int option" where
  "exponent_part s =
     (case s of [] \<Rightarrow> Some 0
      | _ # t \<Rightarrow> (case t of [] \<Rightarrow> None
          | c # u \<Rightarrow> if c = CHR ''-'' then map_option uminus (digit_part u)
              else if c = CHR ''+'' then digit_part u else digit_part t))"

definition power_of_ten :: "int \<Rightarrow> rat" where
  "power_of_ten n = (if 0 \<le> n then 10 ^ nat n else inverse (10 ^ nat (- n)))"

definition mantissa :: "string \<Rightarrow> rat option" where
  "mantissa s =
     (let whole = takeWhile (\<lambda>c. c \<noteq> CHR ''.'') s; rest = drop (length whole) s; fraction = drop 1 rest;
          scale = inverse (10 ^ length (filter is_digit fraction))
      in case (whole, fraction) of
           ([], []) \<Rightarrow> None
         | ([], _) \<Rightarrow> map_option (\<lambda>n. of_int n * scale) (digit_part fraction)
         | (_, []) \<Rightarrow> map_option of_int (digit_part whole)
         | _ \<Rightarrow> (case (digit_part whole, digit_part fraction) of
               (Some n, Some f) \<Rightarrow> Some (of_int n + of_int f * scale) | _ \<Rightarrow> None))"

definition finite_or_overflow :: "bool \<Rightarrow> rat \<Rightarrow> py_float" where
  "finite_or_overflow negative x =
     (if 2 ^ 1024 - 2 ^ 970 \<le> x then Infinite negative
      else Finite (if negative then - double_of x else double_of x))"

definition unsigned_float :: "bool \<Rightarrow> string \<Rightarrow> py_float option" where
  "unsigned_float negative s =
     (if lower s \<in> {''inf'', ''infinity''} then Some (Infinite negative)
      else if lower s = ''nan'' then Some Not_a_number
      else
        let significand = takeWhile (\<lambda>c. c \<notin> {CHR ''e'', CHR ''E''}) s
        in (case (mantissa significand, exponent_part (drop (length significand) s)) of
              (Some m, Some e) \<Rightarrow> Some (finite_or_overflow negative (m * power_of_ten e))
            | _ \<Rightarrow> None))"

definition py_float_of :: "string \<Rightarrow> py_float option" where
  "py_float_of s =
     (case strip s of [] \<Rightarrow> None
      | c # cs \<Rightarrow> if c = CHR ''-'' then unsigned_float True cs
          else if c = CHR ''+'' then unsigned_float False cs else unsigned_float False (c # cs))"

end
