(* ===== verification/Text.thy ===== *)
theory Text
  imports Py_Number
begin

text \<open>
  Text the services build: decimal and hexadecimal numerals, the canonical form of a UUID, and JSON
  values as Python's dictionaries and lists build them.
\<close>

definition numeral_char :: "nat \<Rightarrow> char" where
  "numeral_char d = (if d < 10 then char_of (48 + d) else char_of (87 + d))"

text \<open>\<open>str(n)\<close>, and \<open>f"{n:0wd}"\<close> of a number that is not negative.\<close>

fun decimal :: "nat \<Rightarrow> string" where
  "decimal n = (if n < 10 then [numeral_char n] else decimal (n div 10) @ [numeral_char (n mod 10)])"

declare decimal.simps [simp del]

definition zero_padded :: "nat \<Rightarrow> nat \<Rightarrow> string" where
  "zero_padded w n = replicate (w - length (decimal n)) (CHR ''0'') @ decimal n"

fun hex_digits :: "nat \<Rightarrow> nat \<Rightarrow> string" where
  "hex_digits 0 n = []"
| "hex_digits (Suc w) n = hex_digits w (n div 16) @ [numeral_char (n mod 16)]"

lemma length_hex_digits [simp]: "length (hex_digits w n) = w"
  by (induction w arbitrary: n) simp_all

text \<open>\<open>str(uuid)\<close> and \<open>uuid.hex\<close>.\<close>

definition uuid_hex :: "uuid \<Rightarrow> string" where
  "uuid_hex k = hex_digits 32 k"

definition uuid_str :: "uuid \<Rightarrow> string" where
  "uuid_str k =
     (let h = uuid_hex k
      in take 8 h @ ''-'' @ take 4 (drop 8 h) @ ''-'' @ take 4 (drop 12 h) @ ''-'' @
         take 4 (drop 16 h) @ ''-'' @ drop 20 h)"

lemma numeral_char_inject: "a < 16 \<Longrightarrow> b < 16 \<Longrightarrow> numeral_char a = numeral_char b \<Longrightarrow> a = b"
  by (auto simp: numeral_char_def char_of_eq_iff take_bit_eq_mod split: if_splits)

lemma hex_digits_inject:
  "n < 16 ^ w \<Longrightarrow> m < 16 ^ w \<Longrightarrow> hex_digits w n = hex_digits w m \<Longrightarrow> n = m"
proof (induction w arbitrary: n m)
  case (Suc w)
  then have "hex_digits w (n div 16) = hex_digits w (m div 16)" "n mod 16 = m mod 16"
    by (auto intro: numeral_char_inject)
  moreover have "n div 16 < 16 ^ w" "m div 16 < 16 ^ w"
    using Suc.prems by (simp_all add: less_mult_imp_div_less mult.commute)
  ultimately show ?case using Suc.IH by (metis div_mult_mod_eq)
qed simp

datatype json =
    JString string
  | JInt int
  | JFloat py_float
  | JBool bool
  | JNull
  | JList "json list"
  | JObject "(string \<times> json) list"

text \<open>\<open>value[key]\<close> of a JSON object.\<close>

definition json_field :: "string \<Rightarrow> json \<Rightarrow> json option" where
  "json_field k v = (case v of JObject fs \<Rightarrow> map_of fs k | _ \<Rightarrow> None)"

text \<open>
  \<open>==\<close> of JSON values: numbers and booleans are compared by value, objects without regard to order.
  \<open>isinstance(v, int)\<close> without the booleans is \<open>JInt\<close>.
\<close>

definition number_of :: "json \<Rightarrow> py_float option" where
  "number_of v =
     (case v of JInt n \<Rightarrow> Some (Finite (of_int n)) | JBool b \<Rightarrow> Some (Finite (if b then 1 else 0))
      | JFloat x \<Rightarrow> Some x | _ \<Rightarrow> None)"

definition number_eq :: "json \<Rightarrow> json \<Rightarrow> bool" where
  "number_eq v w \<longleftrightarrow> number_of v \<noteq> None \<and> number_of v = number_of w \<and> number_of v \<noteq> Some Not_a_number"

lemma size_map_of: "map_of fs k = Some v \<Longrightarrow> size v < Suc (size_list (size_prod (\<lambda>_. 0) size) fs)"
  by (induction fs) (auto split: if_splits)

lemma size_nth: "i < length xs \<Longrightarrow> size (xs ! i) < Suc (size_list size xs)"
  by (meson le_imp_less_Suc nth_mem order_refl size_list_estimation')

function json_eq :: "json \<Rightarrow> json \<Rightarrow> bool" where
  "json_eq v w =
     (case (v, w) of
        (JString s, JString t) \<Rightarrow> s = t
      | (JNull, JNull) \<Rightarrow> True
      | (JList xs, JList ys) \<Rightarrow> length xs = length ys \<and> (\<forall>i \<in> {0..<length xs}. json_eq (xs ! i) (ys ! i))
      | (JObject fs, JObject gs) \<Rightarrow>
          set (map fst fs) = set (map fst gs) \<and>
          (\<forall>k \<in> set (map fst fs).
             case (map_of fs k, map_of gs k) of (Some x, Some y) \<Rightarrow> json_eq x y | _ \<Rightarrow> False)
      | _ \<Rightarrow> number_eq v w)"
  by pat_completeness auto
termination
  by (relation "measure (\<lambda>(v, w). size v)") (auto dest: size_nth dest!: size_map_of [OF sym])

declare json_eq.simps [simp del]

lemma json_eq_simps [simp]:
  "json_eq (JString s) w \<longleftrightarrow> w = JString s"
  "json_eq v (JString s) \<longleftrightarrow> v = JString s"
  "json_eq (JInt a) (JInt b) \<longleftrightarrow> a = b"
  by (auto simp: json_eq.simps number_eq_def number_of_def split: json.split)

end
