(* ===== verification/Uploads.thy ===== *)
theory Uploads
  imports Job_Queue Quota Text "HOL-Library.List_Lexorder" "HOL-Library.Char_ord"
begin

text \<open>
  The upload service of \<^verbatim>\<open>backend/uploads/service.py\<close>: an upload collects images until it is
  submitted as a job, cancelled or expired. Its state is the database and the task directories.
  SHA-256 over a string and over a JSON file, the image decoder, Unicode normalisation and the
  contract schemas are arguments; so are the free disk space, fresh identifiers, and whether the
  removal of a directory fails. Other file operations on an existing task directory succeed.
\<close>

section \<open>Settings and errors\<close>

record upload_settings =
  us_min_images :: int
  us_max_images :: int
  us_max_file_bytes :: int
  us_max_total_bytes :: int
  us_max_pixels :: int
  us_stale_after_hours :: int
  us_cleanup_batch_size :: int
  us_min_free_disk_bytes :: int
  us_job_timeout_seconds :: int

definition default_upload_settings :: upload_settings where
  "default_upload_settings =
     \<lparr>us_min_images = 3, us_max_images = 300, us_max_file_bytes = 25 * 1024 * 1024,
      us_max_total_bytes = 1024 * 1024 * 1024, us_max_pixels = 50000000, us_stale_after_hours = 24,
      us_cleanup_batch_size = 100, us_min_free_disk_bytes = 0, us_job_timeout_seconds = 3600\<rparr>"

definition upload_settings_error :: "upload_settings \<Rightarrow> string option" where
  "upload_settings_error s =
     (if \<not> (3 \<le> us_min_images s \<and> us_min_images s \<le> us_max_images s \<and> us_max_images s \<le> 300)
      then Some ''upload image limits must satisfy 3 <= min <= max <= 300''
      else if \<not> (1024 \<le> us_max_file_bytes s \<and> us_max_file_bytes s \<le> us_max_total_bytes s)
      then Some ''upload byte limits are inconsistent''
      else if \<not> (1000000 \<le> us_max_pixels s \<and> us_max_pixels s \<le> 80000000)
      then Some ''UPLOAD_MAX_PIXELS must be between 1M and 80M''
      else if \<not> (1 \<le> us_stale_after_hours s \<and> us_stale_after_hours s \<le> 24 * 30)
      then Some ''UPLOAD_STALE_AFTER_HOURS must be between 1 and 720''
      else if \<not> (1 \<le> us_cleanup_batch_size s \<and> us_cleanup_batch_size s \<le> 1000)
      then Some ''UPLOAD_CLEANUP_BATCH_SIZE must be between 1 and 1000''
      else if us_min_free_disk_bytes s \<noteq> 0 \<and> us_min_free_disk_bytes s < 1024 ^ 3
      then Some ''RE3D_MIN_FREE_DISK_BYTES must be zero or at least 1 GiB''
      else if \<not> (60 \<le> us_job_timeout_seconds s \<and> us_job_timeout_seconds s \<le> 604800)
      then Some ''RE3D_JOB_TIMEOUT_SECONDS must be an integer between 60 and 604800''
      else None)"

definition upload_settings_from_environment :: "environ \<Rightarrow> string + upload_settings" where
  "upload_settings_from_environment env =
     (case read_all
        [read_int env ''UPLOAD_MAX_FILE_BYTES'' (25 * 1024 * 1024),
         read_int env ''UPLOAD_MAX_TOTAL_BYTES'' (1024 * 1024 * 1024),
         read_int env ''UPLOAD_MAX_PIXELS'' 50000000,
         read_int env ''UPLOAD_STALE_AFTER_HOURS'' 24,
         read_int env ''UPLOAD_CLEANUP_BATCH_SIZE'' 100,
         read_int env ''RE3D_MIN_FREE_DISK_BYTES'' 0,
         read_int env ''RE3D_JOB_TIMEOUT_SECONDS'' 3600] of
        Inl e \<Rightarrow> Inl e
      | Inr ns \<Rightarrow>
          let s = default_upload_settings\<lparr>us_max_file_bytes := ns ! 0, us_max_total_bytes := ns ! 1,
                us_max_pixels := ns ! 2, us_stale_after_hours := ns ! 3, us_cleanup_batch_size := ns ! 4,
                us_min_free_disk_bytes := ns ! 5, us_job_timeout_seconds := ns ! 6\<rparr>
          in case upload_settings_error s of Some e \<Rightarrow> Inl e | None \<Rightarrow> Inr s)"

datatype upload_error =
    Upload_not_found string
  | Upload_conflict string
  | Upload_validation string
  | Upload_too_large string
  | Upload_capacity string
  | Upload_value_error string
  | Upload_quota quota_error
  | Upload_submission submission_error
  | Upload_queue queue_error
  | Upload_contract
  | Upload_path
  | Upload_os_error
  | Upload_integrity

text \<open>
  The service: its settings, the baseline of the pipeline and what it calls outside the sources.
\<close>

record image_probe =
  ip_format :: string
  ip_width :: int
  ip_height :: int
  ip_frames :: int
  ip_decodes :: bool

record upload_service =
  sv_settings :: upload_settings
  sv_quota :: quota_settings
  sv_submission :: submission_settings
  sv_baseline_tag :: string
  sv_baseline_commit :: string
  sv_baseline_config_sha256 :: string
  sv_baseline_branches :: json
  sv_sha256 :: "string \<Rightarrow> string"
  sv_json_sha256 :: "json \<Rightarrow> string"
  sv_probe :: "string \<Rightarrow> image_probe option"
  sv_normalize :: "string \<Rightarrow> string"
  sv_contract_ok :: "json \<Rightarrow> bool"

definition upload_service_error :: "upload_service \<Rightarrow> string option" where
  "upload_service_error sv =
     (let minimum_job_reservation = max (1024 ^ 3) (us_max_total_bytes (sv_settings sv))
      in if qs_job_reservation_bytes (sv_quota sv) < minimum_job_reservation
         then Some (''RE3D_JOB_STORAGE_RESERVATION_BYTES must be at least 1 GiB '' @
           ''and UPLOAD_MAX_TOTAL_BYTES'')
         else None)"

section \<open>Task directories\<close>

datatype dir_entry = Regular string | Unsafe_entry

record task_dir =
  td_images :: "(string \<times> dir_entry) list"
  td_manifest :: "json option"
  td_request :: "json option"

datatype task_path = Task_dir task_dir | Unsafe_path

record storage =
  st_db :: database
  st_paths :: "uuid \<Rightarrow> task_path option"

definition empty_task_dir :: task_dir where
  "empty_task_dir = \<lparr>td_images = [], td_manifest = None, td_request = None\<rparr>"

text \<open>\<open>TaskLayout.from_data_root\<close> of an identifier: the directory must exist and not be a link.\<close>

definition task_layout :: "uuid \<Rightarrow> storage \<Rightarrow> task_dir option" where
  "task_layout k w = (case st_paths w k of Some (Task_dir d) \<Rightarrow> Some d | _ \<Rightarrow> None)"

definition set_task_dir :: "uuid \<Rightarrow> task_dir \<Rightarrow> storage \<Rightarrow> storage" where
  "set_task_dir k d w = w\<lparr>st_paths := (st_paths w)(k \<mapsto> Task_dir d)\<rparr>"

text \<open>A transaction on the database: an exception rolls the database back, not the files.\<close>

definition db_transaction ::
  "(storage \<Rightarrow> ('e, 'a, storage) outcome) \<Rightarrow> storage \<Rightarrow> ('e, 'a, storage) outcome" where
  "db_transaction body w =
     (case body w of (Inl e, w') \<Rightarrow> (Inl e, w'\<lparr>st_db := st_db w\<rparr>) | (Inr x, w') \<Rightarrow> (Inr x, w'))"

text \<open>\<open>_remove_upload_directory\<close>; \<open>rmtree_fails\<close> stands for an \<open>OSError\<close> of the removal.\<close>

definition remove_upload_directory :: "bool \<Rightarrow> uuid \<Rightarrow> storage \<Rightarrow> storage option" where
  "remove_upload_directory rmtree_fails k w =
     (case st_paths w k of
        None \<Rightarrow> Some w
      | Some Unsafe_path \<Rightarrow> None
      | Some (Task_dir _) \<Rightarrow> if rmtree_fails then None else Some (w\<lparr>st_paths := (st_paths w)(k := None)\<rparr>))"

section \<open>Reading an upload\<close>

record upload_snapshot =
  sn_upload :: job_upload
  sn_images :: "job_upload_image list"

definition upload_images :: "uuid \<Rightarrow> database \<Rightarrow> job_upload_image list" where
  "upload_images k db = filter (\<lambda>i. img_upload_id i = k) (db_upload_images db)"

definition upload_snapshot_of :: "database \<Rightarrow> job_upload \<Rightarrow> upload_snapshot" where
  "upload_snapshot_of db u =
     \<lparr>sn_upload = u, sn_images = sort_key img_sequence (upload_images (up_id u) db)\<rparr>"

definition owned_upload :: "uuid \<Rightarrow> uuid \<Rightarrow> database \<Rightarrow> job_upload option" where
  "owned_upload k user_id db =
     (case get_upload k db of None \<Rightarrow> None
      | Some u \<Rightarrow> if up_user_id u = user_id then Some u else None)"

definition get_upload_snapshot :: "uuid \<Rightarrow> uuid \<Rightarrow> database \<Rightarrow> upload_error + upload_snapshot" where
  "get_upload_snapshot k user_id db =
     (case owned_upload k user_id db of
        None \<Rightarrow> Inl (Upload_not_found ''upload does not exist'')
      | Some u \<Rightarrow> Inr (upload_snapshot_of db u))"

text \<open>\<open>_ensure_storage_capacity\<close>: \<open>None\<close> is success; \<open>free\<close> is \<open>None\<close> when the disk cannot be read.\<close>

definition storage_capacity_error :: "upload_settings \<Rightarrow> int option \<Rightarrow> int \<Rightarrow> upload_error option" where
  "storage_capacity_error s free reserve_bytes =
     (if us_min_free_disk_bytes s = 0 then None
      else (case free of
          None \<Rightarrow> Some (Upload_capacity ''upload storage capacity cannot be verified'')
        | Some free_bytes \<Rightarrow>
            if free_bytes - reserve_bytes < us_min_free_disk_bytes s
            then Some (Upload_capacity ''upload storage free-space safety floor reached'')
            else None))"

section \<open>Creating an upload\<close>

definition upload_by_key :: "uuid \<Rightarrow> string \<Rightarrow> database \<Rightarrow> job_upload option" where
  "upload_by_key user_id key db =
     find (\<lambda>u. up_user_id u = user_id \<and> up_idempotency_key u = key) (db_uploads db)"

definition new_upload :: "uuid \<Rightarrow> uuid \<Rightarrow> string \<Rightarrow> time \<Rightarrow> job_upload" where
  "new_upload k user_id key now =
     \<lparr>up_id = k, up_user_id = user_id, up_status = Uploading, up_idempotency_key = key,
      up_image_count = 0, up_total_bytes = 0, up_created_at = now, up_updated_at = now,
      up_submitted_at = None, up_cancelled_at = None, up_cancellation_reason = None,
      up_storage_cleaned_at = None\<rparr>"

definition insert_upload :: "job_upload \<Rightarrow> database \<Rightarrow> database option" where
  "insert_upload u db =
     (if up_id u \<in> up_id ` set (db_uploads db) \<or>
         up_idempotency_key u \<in> up_idempotency_key ` set (db_uploads db) \<or>
         get_user (up_user_id u) db = None \<or> \<not> job_upload_row_ok u
      then None else Some (db\<lparr>db_uploads := db_uploads db @ [u]\<rparr>))"

definition create_upload ::
  "upload_service \<Rightarrow> uuid \<Rightarrow> string \<Rightarrow> uuid \<Rightarrow> int option \<Rightarrow> time \<Rightarrow> storage \<Rightarrow>
     (upload_error, upload_snapshot \<times> bool, storage) outcome" where
  "create_upload sv user_id idempotency_token new_id free now w =
     (let token = strip idempotency_token
      in if \<not> (8 \<le> length token \<and> length token \<le> 128)
         then (Inl (Upload_validation ''idempotency_key must contain 8 to 128 non-blank characters''), w)
         else
           let key = sv_sha256 sv (''upload:'' @ uuid_str user_id @ '':'' @ token)
           in case upload_by_key user_id key (st_db w) of
                Some existing \<Rightarrow> (Inr (upload_snapshot_of (st_db w) existing, True), w)
              | None \<Rightarrow>
                  (case storage_capacity_error (sv_settings sv) free (us_max_file_bytes (sv_settings sv)) of
                     Some e \<Rightarrow> (Inl e, w)
                   | None \<Rightarrow>
                       if st_paths w new_id \<noteq> None then (Inl Upload_os_error, w)
                       else
                         let w1 = set_task_dir new_id empty_task_dir w
                         in case insert_upload (new_upload new_id user_id key now) (st_db w1) of
                              None \<Rightarrow>
                                let w2 = w1\<lparr>st_paths := (st_paths w1)(new_id := None)\<rparr>
                                in (case upload_by_key user_id key (st_db w2) of
                                      None \<Rightarrow> (Inl (Upload_conflict ''upload identity conflict''), w2)
                                    | Some existing \<Rightarrow>
                                        (Inr (upload_snapshot_of (st_db w2) existing, True), w2))
                            | Some db' \<Rightarrow>
                                let w2 = w1\<lparr>st_db := db'\<rparr>
                                in (case get_upload_snapshot new_id user_id (st_db w2) of
                                      Inl e \<Rightarrow> (Inl e, w2)
                                    | Inr snapshot \<Rightarrow> (Inr (snapshot, False), w2))))"

section \<open>Accepting an image\<close>

definition chunk_bytes :: nat where
  "chunk_bytes = 1024 * 1024"

text \<open>
  The loop of \<open>_copy_limited\<close>: \<open>source.read\<close> returns the next chunk, the digest is that of the
  bytes written so far.
\<close>

function copy_chunks :: "int \<Rightarrow> int \<Rightarrow> string \<Rightarrow> string \<Rightarrow> upload_error + string" where
  "copy_chunks max_bytes seen written source =
     (let chunk = take chunk_bytes source
      in if chunk = [] then Inr written
         else let seen' = seen + int (length chunk)
              in if max_bytes < seen'
                 then Inl (Upload_too_large ''image exceeds the per-file byte limit'')
                 else copy_chunks max_bytes seen' (written @ chunk) (drop chunk_bytes source))"
  by pat_completeness auto
termination
  by (relation "measure (\<lambda>(m, t, w, s). length s)") (auto simp: chunk_bytes_def)

declare copy_chunks.simps [simp del]

definition copy_limited :: "upload_service \<Rightarrow> string \<Rightarrow> upload_error + int \<times> string" where
  "copy_limited sv source =
     (case copy_chunks (us_max_file_bytes (sv_settings sv)) 0 [] source of
        Inl e \<Rightarrow> Inl e
      | Inr written \<Rightarrow>
          if written = [] then Inl (Upload_validation ''empty files are not accepted'')
          else Inr (int (length written), sv_sha256 sv written))"

definition format_details :: "string \<Rightarrow> (string \<times> string) option" where
  "format_details f =
     (if f = ''JPEG'' then Some (''.jpg'', ''image/jpeg'')
      else if f = ''PNG'' then Some (''.png'', ''image/png'') else None)"

definition inspect_image :: "upload_service \<Rightarrow> string \<Rightarrow> upload_error + string \<times> int \<times> int" where
  "inspect_image sv content =
     (case sv_probe sv content of
        None \<Rightarrow> Inl (Upload_validation ''file is not a decodable JPEG or PNG image'')
      | Some p \<Rightarrow>
          if format_details (ip_format p) = None
          then Inl (Upload_validation ''only JPEG and PNG images are accepted'')
          else if ip_frames p \<noteq> 1
          then Inl (Upload_validation ''animated or multi-frame images are not accepted'')
          else if us_max_pixels (sv_settings sv) < ip_width p * ip_height p
          then Inl (Upload_validation ''image pixel count exceeds the configured limit'')
          else if \<not> ip_decodes p
          then Inl (Upload_validation ''file is not a decodable JPEG or PNG image'')
          else Inr (ip_format p, ip_width p, ip_height p))"

definition safe_display_name :: "upload_service \<Rightarrow> string option \<Rightarrow> string \<Rightarrow> string" where
  "safe_display_name sv value extension =
     (let normalized = sv_normalize sv (case value of None \<Rightarrow> [] | Some v \<Rightarrow> v);
          slashed = map (\<lambda>c. if c = CHR 0x5C then CHR ''/'' else c) normalized;
          basename = rev (takeWhile (\<lambda>c. c \<noteq> CHR ''/'') (rev slashed));
          cleaned = strip_by (\<lambda>c. c \<in> {CHR '' '', CHR ''.''}) (filter (\<lambda>c. 32 \<le> code_point c) basename)
      in take 255 (if cleaned = [] then ''image'' @ extension else cleaned))"

definition insert_image :: "job_upload_image \<Rightarrow> database \<Rightarrow> database option" where
  "insert_image i db =
     (if img_id i \<in> img_id ` set (db_upload_images db) \<or>
         (\<exists>x \<in> set (upload_images (img_upload_id i) db). img_sequence x = img_sequence i \<or>
            img_stored_name x = img_stored_name i \<or> img_sha256 x = img_sha256 i) \<or>
         \<not> job_upload_image_row_ok i
      then None else Some (db\<lparr>db_upload_images := db_upload_images db @ [i]\<rparr>))"

text \<open>Writing an upload row back; \<open>None\<close> is a violated check constraint.\<close>

definition flush_upload :: "job_upload \<Rightarrow> database \<Rightarrow> database option" where
  "flush_upload u db = (if job_upload_row_ok u then Some (put_upload u db) else None)"

record stored_image =
  si_content :: string
  si_size_bytes :: int
  si_digest :: string
  si_extension :: string
  si_content_type :: string
  si_original_name :: string
  si_width :: int
  si_height :: int

text \<open>
  The transaction of \<open>add_image\<close>. The file is moved to its destination before the rows are flushed;
  when the flush fails it is unlinked again, so an exception leaves the directory as it was.
\<close>

definition next_sequence :: "uuid \<Rightarrow> database \<Rightarrow> int" where
  "next_sequence k db =
     (case upload_images k db of [] \<Rightarrow> 0 | is \<Rightarrow> Max (set (map img_sequence is)) + 1)"

definition stored_name_of :: "int \<Rightarrow> string \<Rightarrow> string \<Rightarrow> string" where
  "stored_name_of sequence token extension = zero_padded 6 (nat sequence) @ ''-'' @ take 12 token @ extension"

definition add_image_in_session ::
  "upload_service \<Rightarrow> uuid \<Rightarrow> uuid \<Rightarrow> stored_image \<Rightarrow> task_dir \<Rightarrow> uuid \<Rightarrow> uuid \<Rightarrow> time \<Rightarrow> storage \<Rightarrow>
     (upload_error, unit, storage) outcome" where
  "add_image_in_session sv k user_id img d image_id name_id now w =
     (case owned_upload k user_id (st_db w) of
        None \<Rightarrow> (Inl (Upload_not_found ''upload does not exist''), w)
      | Some u \<Rightarrow>
          if up_status u \<noteq> Uploading
          then (Inl (Upload_conflict ''images cannot be added after upload submission''), w)
          else if us_max_images (sv_settings sv) \<le> up_image_count u
          then (Inl (Upload_validation (''an upload accepts at most '' @
            decimal (nat (us_max_images (sv_settings sv))) @ '' images'')), w)
          else if us_max_total_bytes (sv_settings sv) < up_total_bytes u + si_size_bytes img
          then (Inl (Upload_too_large ''upload total byte limit exceeded''), w)
          else (case enforce_quota (sv_quota sv) user_id (si_size_bytes img) 0 (st_db w) of
              Inl e \<Rightarrow> (Inl (Upload_quota e), w)
            | Inr _ \<Rightarrow>
                if \<exists>x \<in> set (upload_images k (st_db w)). img_sha256 x = si_digest img
                then (Inl (Upload_conflict ''the same image content is already in this upload''), w)
                else
                  let sequence = next_sequence k (st_db w);
                      stored_name = stored_name_of sequence (uuid_hex name_id) (si_extension img);
                      row = \<lparr>img_id = image_id, img_upload_id = k, img_sequence = sequence,
                        img_stored_name = stored_name, img_original_name = si_original_name img,
                        img_content_type = si_content_type img, img_size_bytes = si_size_bytes img,
                        img_sha256 = si_digest img, img_width = si_width img,
                        img_height = si_height img, img_created_at = now\<rparr>;
                      u' = u\<lparr>up_image_count := up_image_count u + 1,
                        up_total_bytes := up_total_bytes u + si_size_bytes img, up_updated_at := now\<rparr>
                  in case insert_image row (st_db w) of
                       None \<Rightarrow> (Inl (Upload_conflict ''uploaded image identity conflict''), w)
                     | Some db1 \<Rightarrow>
                         (case flush_upload u' db1 of
                            None \<Rightarrow> (Inl (Upload_conflict ''uploaded image identity conflict''), w)
                          | Some db2 \<Rightarrow>
                              (Inr (), set_task_dir k
                                (d\<lparr>td_images := filter (\<lambda>(n, _). n \<noteq> stored_name) (td_images d) @
                                  [(stored_name, Regular (si_content img))]\<rparr>)
                                (w\<lparr>st_db := db2\<rparr>)))))"

text \<open>
  What \<open>add_image\<close> does before its transaction: the state of the upload, the free space, the copy to
  the staging area and the inspection of the image.
\<close>

definition stage_image ::
  "upload_service \<Rightarrow> uuid \<Rightarrow> uuid \<Rightarrow> string \<Rightarrow> string option \<Rightarrow> int option \<Rightarrow> int option \<Rightarrow> storage \<Rightarrow>
     upload_error + task_dir \<times> stored_image" where
  "stage_image sv k user_id source original_name free free' w =
     (case get_upload_snapshot k user_id (st_db w) of
        Inl e \<Rightarrow> Inl e
      | Inr current \<Rightarrow>
          if up_status (sn_upload current) \<noteq> Uploading
          then Inl (Upload_conflict ''images cannot be added after upload submission or cancellation'')
          else (case storage_capacity_error (sv_settings sv) free (us_max_file_bytes (sv_settings sv)) of
              Some e \<Rightarrow> Inl e
            | None \<Rightarrow>
                (case task_layout k w of
                   None \<Rightarrow> Inl Upload_path
                 | Some d \<Rightarrow>
                     (case copy_limited sv source of
                        Inl e \<Rightarrow> Inl e
                      | Inr (size_bytes, digest) \<Rightarrow>
                          (case storage_capacity_error (sv_settings sv) free' 0 of
                             Some e \<Rightarrow> Inl e
                           | None \<Rightarrow>
                               (case inspect_image sv source of
                                  Inl e \<Rightarrow> Inl e
                                | Inr (image_format, width, height) \<Rightarrow>
                                    let (extension, content_type) = the (format_details image_format)
                                    in Inr (d, \<lparr>si_content = source, si_size_bytes = size_bytes,
                                         si_digest = digest, si_extension = extension,
                                         si_content_type = content_type,
                                         si_original_name = safe_display_name sv original_name extension,
                                         si_width = width, si_height = height\<rparr>)))))))"

definition add_image ::
  "upload_service \<Rightarrow> uuid \<Rightarrow> uuid \<Rightarrow> string \<Rightarrow> string option \<Rightarrow> int option \<Rightarrow> int option \<Rightarrow>
     uuid \<Rightarrow> uuid \<Rightarrow> time \<Rightarrow> storage \<Rightarrow> (upload_error, upload_snapshot, storage) outcome" where
  "add_image sv k user_id source original_name free free' image_id name_id now w =
     (case stage_image sv k user_id source original_name free free' w of
        Inl e \<Rightarrow> (Inl e, w)
      | Inr (d, img) \<Rightarrow>
          (case db_transaction (add_image_in_session sv k user_id img d image_id name_id now) w of
             (Inl e, w') \<Rightarrow> (Inl e, w')
           | (Inr _, w') \<Rightarrow> (get_upload_snapshot k user_id (st_db w'), w')))"

section \<open>Deleting an image\<close>

text \<open>
  The file is moved to a tombstone, the rows are written, and the tombstone is removed after the
  commit; an exception moves the file back.
\<close>

definition delete_image_in_session ::
  "uuid \<Rightarrow> uuid \<Rightarrow> uuid \<Rightarrow> time \<Rightarrow> storage \<Rightarrow> (upload_error, unit, storage) outcome" where
  "delete_image_in_session k image_id user_id now w =
     (case owned_upload k user_id (st_db w) of
        None \<Rightarrow> (Inl (Upload_not_found ''upload does not exist''), w)
      | Some u \<Rightarrow>
          if up_status u \<noteq> Uploading
          then (Inl (Upload_conflict ''images can only be deleted from an active upload''), w)
          else (case find (\<lambda>i. img_id i = image_id \<and> img_upload_id i = k) (db_upload_images (st_db w)) of
              None \<Rightarrow> (Inl (Upload_not_found ''uploaded image does not exist''), w)
            | Some row \<Rightarrow>
                (case task_layout k w of
                   None \<Rightarrow> (Inl Upload_path, w)
                 | Some d \<Rightarrow>
                     (case map_of (td_images d) (img_stored_name row) of
                        Some (Regular content) \<Rightarrow>
                          let u' = u\<lparr>up_image_count := up_image_count u - 1,
                                up_total_bytes := up_total_bytes u - img_size_bytes row,
                                up_updated_at := now\<rparr>;
                              db1 = (st_db w)\<lparr>db_upload_images :=
                                delete_where (\<lambda>i. img_id i = image_id) (db_upload_images (st_db w))\<rparr>
                          in (case flush_upload u' db1 of
                                None \<Rightarrow> (Inl Upload_integrity, w)
                              | Some db2 \<Rightarrow>
                                  (Inr (), set_task_dir k
                                    (d\<lparr>td_images := filter (\<lambda>(n, _). n \<noteq> img_stored_name row) (td_images d)\<rparr>)
                                    (w\<lparr>st_db := db2\<rparr>)))
                      | _ \<Rightarrow> (Inl (Upload_conflict ''uploaded image file is missing or unsafe''), w)))))"

definition delete_image ::
  "uuid \<Rightarrow> uuid \<Rightarrow> uuid \<Rightarrow> time \<Rightarrow> storage \<Rightarrow> (upload_error, upload_snapshot, storage) outcome" where
  "delete_image k image_id user_id now w =
     (case db_transaction (delete_image_in_session k image_id user_id now) w of
        (Inl e, w') \<Rightarrow> (Inl e, w')
      | (Inr _, w') \<Rightarrow> (get_upload_snapshot k user_id (st_db w'), w'))"

section \<open>Cancellation and expiry\<close>

definition mark_upload_cancelled :: "job_upload \<Rightarrow> string \<Rightarrow> time \<Rightarrow> database \<Rightarrow> upload_error + database" where
  "mark_upload_cancelled u reason now db =
     (if reason \<notin> {''user'', ''expired''}
      then Inl (Upload_value_error ''unsupported upload cancellation reason'')
      else
        let db1 = db\<lparr>db_upload_images := delete_where (\<lambda>i. img_upload_id i = up_id u) (db_upload_images db)\<rparr>;
            u' = u\<lparr>up_status := Upload_cancelled, up_image_count := 0, up_cancelled_at := Some now,
              up_cancellation_reason := Some reason, up_storage_cleaned_at := None,
              up_updated_at := now\<rparr>
        in case flush_upload u' db1 of None \<Rightarrow> Inl Upload_integrity | Some db2 \<Rightarrow> Inr db2)"

text \<open>
  \<open>_remove_cancelled_storage\<close>: the directory first, then the mark in a transaction of its own.
\<close>

definition remove_cancelled_storage :: "bool \<Rightarrow> uuid \<Rightarrow> time \<Rightarrow> storage \<Rightarrow> bool \<times> storage" where
  "remove_cancelled_storage rmtree_fails k now w =
     (case remove_upload_directory rmtree_fails k w of
        None \<Rightarrow> (False, w)
      | Some w1 \<Rightarrow>
          (True, (case get_upload k (st_db w1) of
             None \<Rightarrow> w1
           | Some u \<Rightarrow>
               if up_status u = Upload_cancelled \<and> up_storage_cleaned_at u = None
               then w1\<lparr>st_db := put_upload (u\<lparr>up_storage_cleaned_at := Some now\<rparr>) (st_db w1)\<rparr>
               else w1)))"

definition cancel_upload_in_session ::
  "uuid \<Rightarrow> uuid \<Rightarrow> time \<Rightarrow> storage \<Rightarrow> (upload_error, unit, storage) outcome" where
  "cancel_upload_in_session k user_id now w =
     (case owned_upload k user_id (st_db w) of
        None \<Rightarrow> (Inl (Upload_not_found ''upload does not exist''), w)
      | Some u \<Rightarrow>
          (case up_status u of
             Submitted \<Rightarrow>
               (Inl (Upload_conflict ''submitted uploads must be cancelled through the job API''), w)
           | Uploading \<Rightarrow>
               (case mark_upload_cancelled u ''user'' now (st_db w) of
                  Inl e \<Rightarrow> (Inl e, w)
                | Inr db' \<Rightarrow> (Inr (), w\<lparr>st_db := db'\<rparr>))
           | Upload_cancelled \<Rightarrow> (Inr (), w)))"

definition cancel_upload ::
  "uuid \<Rightarrow> uuid \<Rightarrow> bool \<Rightarrow> time \<Rightarrow> storage \<Rightarrow> (upload_error, upload_snapshot \<times> bool, storage) outcome" where
  "cancel_upload k user_id rmtree_fails now w =
     (case db_transaction (cancel_upload_in_session k user_id now) w of
        (Inl e, w1) \<Rightarrow> (Inl e, w1)
      | (Inr _, w1) \<Rightarrow>
          let (storage_removed, w2) = remove_cancelled_storage rmtree_fails k now w1
          in (case get_upload_snapshot k user_id (st_db w2) of
                Inl e \<Rightarrow> (Inl e, w2)
              | Inr snapshot \<Rightarrow> (Inr (snapshot, storage_removed), w2)))"

record cleanup_report =
  cr_scanned :: nat
  cr_expired :: nat
  cr_storage_cleaned :: nat
  cr_failures :: "uuid list"
  cr_cutoff :: time

definition cleanup_candidate :: "time \<Rightarrow> job_upload \<Rightarrow> bool" where
  "cleanup_candidate cutoff u \<longleftrightarrow>
     up_status u = Uploading \<and> up_updated_at u < cutoff \<or>
     up_status u = Upload_cancelled \<and> up_storage_cleaned_at u = None"

definition cleanup_order :: "job_upload \<Rightarrow> time \<times> uuid" where
  "cleanup_order u = (up_updated_at u, up_id u)"

text \<open>
  One candidate: it is looked up again under the filter, expired when it is still open, and then its
  directory is removed. An exception of the database ends the loop of the caller.
\<close>

definition cleanup_one ::
  "(uuid \<Rightarrow> bool) \<Rightarrow> time \<Rightarrow> time \<Rightarrow> uuid \<Rightarrow> cleanup_report \<times> storage \<Rightarrow> upload_error + cleanup_report \<times> storage" where
  "cleanup_one rmtree_fails cutoff now k rw =
     (case rw of (r, w) \<Rightarrow>
        (case get_upload k (st_db w) of
           None \<Rightarrow> Inr (r, w)
         | Some u \<Rightarrow>
             if \<not> cleanup_candidate cutoff u then Inr (r, w)
             else
               (case (if up_status u = Uploading
                      then map_sum id (\<lambda>db'. (1, db')) (mark_upload_cancelled u ''expired'' now (st_db w))
                      else Inr (0, st_db w)) of
                  Inl e \<Rightarrow> Inl e
                | Inr (n, db') \<Rightarrow>
                    let (removed, w') = remove_cancelled_storage (rmtree_fails k) k now (w\<lparr>st_db := db'\<rparr>);
                        r1 = r\<lparr>cr_scanned := cr_scanned r + 1, cr_expired := cr_expired r + n\<rparr>
                    in Inr (if removed then r1\<lparr>cr_storage_cleaned := cr_storage_cleaned r1 + 1\<rparr>
                            else r1\<lparr>cr_failures := cr_failures r1 @ [k]\<rparr>, w'))))"

fun cleanup_all ::
  "(uuid \<Rightarrow> bool) \<Rightarrow> time \<Rightarrow> time \<Rightarrow> uuid list \<Rightarrow> cleanup_report \<times> storage \<Rightarrow>
     (upload_error, cleanup_report, storage) outcome" where
  "cleanup_all rmtree_fails cutoff now [] rw = (Inr (fst rw), snd rw)"
| "cleanup_all rmtree_fails cutoff now (k # ks) rw =
     (case cleanup_one rmtree_fails cutoff now k rw of
        Inl e \<Rightarrow> (Inl e, snd rw)
      | Inr rw' \<Rightarrow> cleanup_all rmtree_fails cutoff now ks rw')"

definition cleanup_stale ::
  "upload_settings \<Rightarrow> (uuid \<Rightarrow> bool) \<Rightarrow> int option \<Rightarrow> int option \<Rightarrow> time \<Rightarrow> time \<Rightarrow> storage \<Rightarrow>
     (upload_error, cleanup_report, storage) outcome" where
  "cleanup_stale s rmtree_fails stale_after_hours limit current now w =
     (let configured_hours = (case stale_after_hours of None \<Rightarrow> us_stale_after_hours s | Some n \<Rightarrow> n);
          configured_limit = (case limit of None \<Rightarrow> us_cleanup_batch_size s | Some n \<Rightarrow> n)
      in if \<not> (1 \<le> configured_hours \<and> configured_hours \<le> 24 * 30)
         then (Inl (Upload_value_error ''stale_after_hours must be between 1 and 720''), w)
         else if \<not> (1 \<le> configured_limit \<and> configured_limit \<le> 1000)
         then (Inl (Upload_value_error ''cleanup limit must be between 1 and 1000''), w)
         else
           let cutoff = current - hours configured_hours;
               candidates = take (nat configured_limit)
                 (sort_key cleanup_order (filter (cleanup_candidate cutoff) (db_uploads (st_db w))))
           in cleanup_all rmtree_fails cutoff now (map up_id candidates)
                (\<lparr>cr_scanned = 0, cr_expired = 0, cr_storage_cleaned = 0, cr_failures = [],
                  cr_cutoff = cutoff\<rparr>, w))"

section \<open>Submission\<close>

definition manifest_record :: "job_upload_image \<Rightarrow> json" where
  "manifest_record i = JObject
     [(''name'', JString (img_stored_name i)), (''original_name'', JString (img_original_name i)),
      (''sha256'', JString (img_sha256 i)), (''size_bytes'', JInt (img_size_bytes i)),
      (''content_type'', JString (img_content_type i)), (''width'', JInt (img_width i)),
      (''height'', JInt (img_height i))]"

text \<open>The loop over the images compares each file with its row.\<close>

fun manifest_records ::
  "upload_service \<Rightarrow> task_dir \<Rightarrow> job_upload_image list \<Rightarrow> int \<Rightarrow> upload_error + int \<times> json list" where
  "manifest_records sv d [] total_bytes = Inr (total_bytes, [])"
| "manifest_records sv d (i # is) total_bytes =
     (case map_of (td_images d) (img_stored_name i) of
        Some (Regular content) \<Rightarrow>
          if int (length content) \<noteq> img_size_bytes i \<or> sv_sha256 sv content \<noteq> img_sha256 i
          then Inl (Upload_validation ''an uploaded image changed before submission'')
          else (case manifest_records sv d is (total_bytes + int (length content)) of
              Inl e \<Rightarrow> Inl e
            | Inr (n, rs) \<Rightarrow> Inr (n, manifest_record i # rs))
      | _ \<Rightarrow> Inl Upload_os_error)"

definition build_manifest ::
  "upload_service \<Rightarrow> task_dir \<Rightarrow> job_upload_image list \<Rightarrow> int \<Rightarrow> upload_error + json" where
  "build_manifest sv d images expected_total_bytes =
     (if \<exists>(n, e) \<in> set (td_images d). e = Unsafe_entry
      then Inl (Upload_validation ''input directory contains an unexpected entry'')
      else if sort (map fst (td_images d)) = sort (map img_stored_name images)
      then
        (case manifest_records sv d images 0 of
           Inl e \<Rightarrow> Inl e
         | Inr (total_bytes, records) \<Rightarrow>
             if total_bytes \<noteq> expected_total_bytes
             then Inl (Upload_validation ''upload byte count is inconsistent'')
             else Inr (JObject
               [(''schema_version'', JString ''1.0''), (''source'', JString ''user_upload''),
                (''simulation'', JBool False), (''images'', JList records)]))
      else Inl (Upload_validation ''stored images do not match upload metadata''))"

definition queue_key :: "upload_service \<Rightarrow> uuid \<Rightarrow> string" where
  "queue_key sv k = sv_sha256 sv (''upload-submit:'' @ uuid_str k)"

definition build_request ::
  "upload_service \<Rightarrow> job_upload \<Rightarrow> string \<Rightarrow> string \<Rightarrow> string \<Rightarrow> uuid \<Rightarrow> string \<Rightarrow> json" where
  "build_request sv u manifest_sha256 key execution_mode request_id created_at = JObject
     [(''contract_version'', JString ''1.0''),
      (''execution_mode'', JString execution_mode),
      (''request_id'', JString (uuid_str request_id)),
      (''job_id'', JString (uuid_str (up_id u))),
      (''attempt'', JInt 1),
      (''created_at'', JString created_at),
      (''requested_by'', JObject [(''user_id'', JString (uuid_str (up_user_id u)))]),
      (''pipeline'', JObject
         [(''name'', JString ''Re3D''), (''tag'', JString (sv_baseline_tag sv)),
          (''commit'', JString (sv_baseline_commit sv)),
          (''config_sha256'', JString (sv_baseline_config_sha256 sv))]),
      (''input'', JObject
         [(''images_path'', JString ''input/images''),
          (''manifest_path'', JString ''input/input-manifest.json''),
          (''manifest_sha256'', JString manifest_sha256),
          (''image_count'', JInt (up_image_count u)), (''total_bytes'', JInt (up_total_bytes u))]),
      (''branches'', sv_baseline_branches sv),
      (''storage'', JObject
         [(''work_path'', JString ''runtime/work''), (''logs_path'', JString ''runtime/logs''),
          (''output_path'', JString ''output''), (''reports_path'', JString ''reports''),
          (''manifests_path'', JString ''manifests'')]),
      (''limits'', JObject
         [(''timeout_seconds'', JInt (us_job_timeout_seconds (sv_settings sv))),
          (''max_disk_bytes'', JInt (qs_job_reservation_bytes (sv_quota sv))),
          (''gpu_concurrency'', JInt 1)]),
      (''idempotency_key'', JString key)]"

definition submit_request :: "upload_service \<Rightarrow> job_upload \<Rightarrow> string \<Rightarrow> string \<Rightarrow> enqueue_request" where
  "submit_request sv u execution_mode manifest_sha256 =
     \<lparr>eq_job_id = up_id u, eq_user_id = up_user_id u, eq_execution_mode = execution_mode,
      eq_pipeline_tag = sv_baseline_tag sv, eq_pipeline_commit = sv_baseline_commit sv,
      eq_config_sha256 = sv_baseline_config_sha256 sv, eq_input_manifest_sha256 = manifest_sha256,
      eq_idempotency_key = queue_key sv (up_id u), eq_priority = 0, eq_attempt = 1,
      eq_storage_reserved_bytes = qs_job_reservation_bytes (sv_quota sv)\<rparr>"

text \<open>
  The checks of \<open>submit\<close> on an open upload, in their order; the result is the directory, the images
  and the manifest.
\<close>

definition submit_checks ::
  "upload_service \<Rightarrow> job_upload \<Rightarrow> int option \<Rightarrow> time \<Rightarrow> storage \<Rightarrow> upload_error + task_dir \<times> json" where
  "submit_checks sv u free now w =
     (case storage_capacity_error (sv_settings sv) free
        (max 0 (qs_job_reservation_bytes (sv_quota sv) - up_total_bytes u)) of
        Some e \<Rightarrow> Inl e
      | None \<Rightarrow>
          let images = sort_key img_sequence (upload_images (up_id u) (st_db w))
          in if int (length images) < us_min_images (sv_settings sv)
             then Inl (Upload_validation (''at least '' @ decimal (nat (us_min_images (sv_settings sv))) @
               '' valid images are required''))
             else if int (length images) \<noteq> up_image_count u
             then Inl (Upload_conflict ''upload image count is inconsistent'')
             else
               (case enforce_submission (sv_submission sv) (up_user_id u) now (st_db w) of
                  Inl e \<Rightarrow> Inl (Upload_submission e)
                | Inr _ \<Rightarrow>
                    (case enforce_quota (sv_quota sv) (up_user_id u)
                       (qs_job_reservation_bytes (sv_quota sv)) (up_total_bytes u) (st_db w) of
                       Inl e \<Rightarrow> Inl (Upload_quota e)
                     | Inr _ \<Rightarrow>
                         (case task_layout (up_id u) w of
                            None \<Rightarrow> Inl Upload_path
                          | Some d \<Rightarrow>
                              (case build_manifest sv d images (up_total_bytes u) of
                                 Inl e \<Rightarrow> Inl e
                               | Inr manifest \<Rightarrow> Inr (d, manifest))))))"

text \<open>
  The rest of \<open>submit\<close> for an open upload: the manifest and the request are written before the rows,
  and a later failure leaves these files.
\<close>

definition queue_upload ::
  "upload_service \<Rightarrow> job_upload \<Rightarrow> uuid \<Rightarrow> string \<Rightarrow> uuid \<Rightarrow> string \<Rightarrow> uuid \<Rightarrow> time \<Rightarrow> task_dir \<Rightarrow> json \<Rightarrow> storage \<Rightarrow>
     (upload_error, unit, storage) outcome" where
  "queue_upload sv u user_id execution_mode request_id created_at event_id now d manifest w =
     (let k = up_id u;
          w1 = set_task_dir k (d\<lparr>td_manifest := Some manifest\<rparr>) w;
          manifest_sha256 = sv_json_sha256 sv manifest;
          request = build_request sv u manifest_sha256 (queue_key sv k) execution_mode request_id created_at
      in if \<not> sv_contract_ok sv request then (Inl Upload_contract, w1)
         else
           let w2 = set_task_dir k (d\<lparr>td_manifest := Some manifest, td_request := Some request\<rparr>) w1
           in (case enqueue_in_session (submit_request sv u execution_mode manifest_sha256) now (st_db w2) of
                 (Inl Integrity_error, _) \<Rightarrow>
                   (Inl (Upload_conflict ''upload submission identity conflict''), w2)
               | (Inl e, _) \<Rightarrow> (Inl (Upload_queue e), w2)
               | (Inr _, db1) \<Rightarrow>
                   let db2 = add_task_event
                         (task_event ''job_submitted'' user_id k execution_mode None event_id now) db1;
                       u' = u\<lparr>up_status := Submitted, up_submitted_at := Some now, up_updated_at := now\<rparr>
                   in (case flush_upload u' db2 of
                         None \<Rightarrow> (Inl (Upload_conflict ''upload submission identity conflict''), w2)
                       | Some db3 \<Rightarrow> (Inr (), w2\<lparr>st_db := db3\<rparr>))))"

text \<open>
  The transaction: it returns the snapshot of an existing job, or nothing when a job was queued.
\<close>

definition submit_in_session ::
  "upload_service \<Rightarrow> uuid \<Rightarrow> uuid \<Rightarrow> string \<Rightarrow> int option \<Rightarrow> uuid \<Rightarrow> string \<Rightarrow> uuid \<Rightarrow> time \<Rightarrow> storage \<Rightarrow>
     (upload_error, (string \<times> snapshot_value) list option, storage) outcome" where
  "submit_in_session sv k user_id execution_mode free request_id created_at event_id now w =
     (case owned_upload k user_id (st_db w) of
        None \<Rightarrow> (Inl (Upload_not_found ''upload does not exist''), w)
      | Some u \<Rightarrow>
          if up_status u = Submitted
          then (case get_job (up_id u) (st_db w) of
              None \<Rightarrow> (Inl (Upload_conflict ''submitted upload is missing its queued job''), w)
            | Some existing \<Rightarrow>
                if job_execution_mode existing \<noteq> execution_mode
                then (Inl (Upload_conflict ''upload was already submitted with a different execution mode''), w)
                else (Inr (Some (job_snapshot existing)), w))
          else if up_status u \<noteq> Uploading then (Inl (Upload_conflict ''upload cannot be submitted''), w)
          else (case submit_checks sv u free now w of
              Inl e \<Rightarrow> (Inl e, w)
            | Inr (d, manifest) \<Rightarrow>
                (case queue_upload sv u user_id execution_mode request_id created_at event_id now d manifest w of
                   (Inl e, w') \<Rightarrow> (Inl e, w')
                 | (Inr _, w') \<Rightarrow> (Inr None, w'))))"

definition submit ::
  "upload_service \<Rightarrow> uuid \<Rightarrow> uuid \<Rightarrow> string \<Rightarrow> int option \<Rightarrow> uuid \<Rightarrow> string \<Rightarrow> uuid \<Rightarrow> time \<Rightarrow> storage \<Rightarrow>
     (upload_error, (string \<times> snapshot_value) list, storage) outcome" where
  "submit sv k user_id execution_mode free request_id created_at event_id now w =
     (if execution_mode \<notin> {''simulated'', ''real''}
      then (Inl (Upload_validation ''execution_mode must be simulated or real''), w)
      else
        (case db_transaction (submit_in_session sv k user_id execution_mode free request_id
           created_at event_id now) w of
           (Inl e, w') \<Rightarrow> (Inl e, w')
         | (Inr (Some snapshot), w') \<Rightarrow> (Inr snapshot, w')
         | (Inr None, w') \<Rightarrow>
             (case query_job k (Some user_id) (st_db w') of
                Inl e \<Rightarrow> (Inl (Upload_queue e), w')
              | Inr snapshot \<Rightarrow> (Inr snapshot, w'))))"

definition storage_quota :: "upload_service \<Rightarrow> uuid \<Rightarrow> database \<Rightarrow> quota_snapshot" where
  "storage_quota sv user_id db = quota_snapshot_of (sv_quota sv) user_id db"

end
