(* ===== verification/Upload_Contract.thy ===== *)
theory Upload_Contract
  imports Uploads
begin

text \<open>
  The contract of the upload service. The calls change the database by six primitive steps
  (created, added, deleted, cancelled, cleaned, submitted), written as a step relation; every call is
  a sequence of them. Their invariant ties the counters of an upload to its images and keeps every
  user within the storage quota.
\<close>

section \<open>Sums over tables\<close>

lemma sum_list_filter_if:
  "sum_list (map f (filter p xs)) = sum_list (map (\<lambda>x. if p x then f x else (0 :: int)) xs)"
  by (induction xs) auto

lemma sum_list_put_row:
  assumes "distinct (map key rows)" and "find_row key (key r) rows = Some r0"
  shows "sum_list (map f (put_row key r rows)) = sum_list (map f rows) - f r0 + (f r :: int)"
  using assms
proof (induction rows)
  case (Cons x rows)
  show ?case
  proof (cases "key x = key r")
    case True
    have "key x \<notin> key ` set rows" using Cons.prems(1) by simp
    with True have "\<And>y. y \<in> set rows \<Longrightarrow> key y \<noteq> key r" by (metis image_eqI)
    then have "put_row key r rows = rows" by (simp add: put_row_def map_idI)
    with True Cons.prems show ?thesis by simp
  qed (use Cons in auto)
qed simp

definition upload_weight :: "uuid \<Rightarrow> job_upload \<Rightarrow> int" where
  "upload_weight user_id u =
     (if up_user_id u = user_id \<and> up_status u \<noteq> Submitted \<and> up_storage_cleaned_at u = None
      then up_total_bytes u else 0)"

definition job_weight :: "uuid \<Rightarrow> reconstruction_job \<Rightarrow> int" where
  "job_weight user_id j =
     (if job_user_id j = user_id \<and> job_storage_released_at j = None then job_storage_reserved_bytes j else 0)"

lemma used_bytes_weights:
  "used_bytes v db = sum_list (map (upload_weight v) (db_uploads db)) + sum_list (map (job_weight v) (db_jobs db))"
  unfolding used_bytes_def counted_uploads_def counted_jobs_def sum_list_filter_if
  by (simp add: upload_weight_def [abs_def] job_weight_def [abs_def])

section \<open>The steps of the database\<close>

definition sum_sizes :: "job_upload_image list \<Rightarrow> int" where
  "sum_sizes is = sum_list (map img_size_bytes is)"

inductive upload_change :: "upload_service \<Rightarrow> database \<Rightarrow> database \<Rightarrow> bool" for sv where
  created: "insert_upload (new_upload k u key now) db = Some db' \<Longrightarrow> upload_change sv db db'"
| added: "get_upload k db = Some u \<Longrightarrow> up_status u = Uploading \<Longrightarrow>
    up_image_count u < us_max_images (sv_settings sv) \<Longrightarrow>
    up_total_bytes u + img_size_bytes row \<le> us_max_total_bytes (sv_settings sv) \<Longrightarrow>
    img_size_bytes row \<le> us_max_file_bytes (sv_settings sv) \<Longrightarrow>
    enforce_quota (sv_quota sv) (up_user_id u) (img_size_bytes row) 0 db = Inr q \<Longrightarrow>
    img_upload_id row = k \<Longrightarrow> insert_image row db = Some db1 \<Longrightarrow>
    flush_upload (u\<lparr>up_image_count := up_image_count u + 1,
      up_total_bytes := up_total_bytes u + img_size_bytes row, up_updated_at := now\<rparr>) db1 = Some db' \<Longrightarrow>
    upload_change sv db db'"
| deleted: "get_upload k db = Some u \<Longrightarrow> up_status u = Uploading \<Longrightarrow>
    row \<in> set (db_upload_images db) \<Longrightarrow> img_upload_id row = k \<Longrightarrow>
    flush_upload (u\<lparr>up_image_count := up_image_count u - 1,
      up_total_bytes := up_total_bytes u - img_size_bytes row, up_updated_at := now\<rparr>)
      (db\<lparr>db_upload_images := delete_where (\<lambda>i. img_id i = img_id row) (db_upload_images db)\<rparr>) = Some db' \<Longrightarrow>
    upload_change sv db db'"
| cancelled: "get_upload k db = Some u \<Longrightarrow> up_status u = Uploading \<Longrightarrow>
    mark_upload_cancelled u reason now db = Inr db' \<Longrightarrow> upload_change sv db db'"
| cleaned: "get_upload k db = Some u \<Longrightarrow> up_status u = Upload_cancelled \<Longrightarrow>
    up_storage_cleaned_at u = None \<Longrightarrow>
    upload_change sv db (put_upload (u\<lparr>up_storage_cleaned_at := Some now\<rparr>) db)"
| submitted: "get_upload k db = Some u \<Longrightarrow> up_status u = Uploading \<Longrightarrow>
    us_min_images (sv_settings sv) \<le> up_image_count u \<Longrightarrow>
    enforce_submission (sv_submission sv) (up_user_id u) now db = Inr () \<Longrightarrow>
    enforce_quota (sv_quota sv) (up_user_id u) (qs_job_reservation_bytes (sv_quota sv))
      (up_total_bytes u) db = Inr q \<Longrightarrow>
    enqueue_in_session (submit_request sv u mode digest) now db = (Inr (), db1) \<Longrightarrow>
    flush_upload (u\<lparr>up_status := Submitted, up_submitted_at := Some now, up_updated_at := now\<rparr>)
      (add_task_event e db1) = Some db' \<Longrightarrow>
    upload_change sv db db'"

section \<open>The invariant\<close>

definition upload_consistent :: "upload_service \<Rightarrow> database \<Rightarrow> job_upload \<Rightarrow> bool" where
  "upload_consistent sv db u \<longleftrightarrow>
     job_upload_row_ok u \<and> up_image_count u = int (length (upload_images (up_id u) db)) \<and>
     up_image_count u \<le> us_max_images (sv_settings sv) \<and>
     up_total_bytes u \<le> us_max_total_bytes (sv_settings sv) \<and>
     (up_status u \<noteq> Upload_cancelled \<longrightarrow> up_total_bytes u = sum_sizes (upload_images (up_id u) db))"

definition image_consistent :: "upload_service \<Rightarrow> job_upload_image \<Rightarrow> bool" where
  "image_consistent sv i \<longleftrightarrow>
     job_upload_image_row_ok i \<and> img_size_bytes i \<le> us_max_file_bytes (sv_settings sv)"

definition upload_db_inv :: "upload_service \<Rightarrow> database \<Rightarrow> bool" where
  "upload_db_inv sv db \<longleftrightarrow>
     distinct (map up_id (db_uploads db)) \<and> distinct (map img_id (db_upload_images db)) \<and>
     (\<forall>u \<in> set (db_uploads db). upload_consistent sv db u) \<and>
     (\<forall>i \<in> set (db_upload_images db). image_consistent sv i) \<and>
     (\<forall>i \<in> set (db_upload_images db). img_upload_id i \<in> up_id ` set (db_uploads db)) \<and>
     (\<forall>v. used_bytes v db \<le> qs_quota_bytes (sv_quota sv))"

lemma get_upload_set: "get_upload k db = Some u \<Longrightarrow> u \<in> set (db_uploads db) \<and> up_id u = k"
  by (auto simp: get_upload_def dest: find_row_SomeD)

lemma upload_inv_get:
  "upload_db_inv sv db \<Longrightarrow> get_upload k db = Some u \<Longrightarrow> upload_consistent sv db u"
  using get_upload_set by (auto simp: upload_db_inv_def)

lemma used_bytes_put_upload:
  assumes "distinct (map up_id (db_uploads db))" and "get_upload (up_id u') db = Some u"
  shows "used_bytes v (put_upload u' db) = used_bytes v db - upload_weight v u + upload_weight v u'"
  using sum_list_put_row [OF assms(1) assms(2) [unfolded get_upload_def], of "upload_weight v"]
  by (simp add: used_bytes_weights)

lemma used_bytes_images [simp]: "used_bytes v (db\<lparr>db_upload_images := is\<rparr>) = used_bytes v db"
  by (simp add: used_bytes_weights)

lemma used_bytes_event [simp]: "used_bytes v (add_task_event e db) = used_bytes v db"
  by (simp add: used_bytes_weights)

lemma get_upload_images [simp]: "get_upload k (db\<lparr>db_upload_images := is\<rparr>) = get_upload k db"
  by (simp add: get_upload_def)

lemma upload_images_put [simp]: "upload_images k (put_upload u db) = upload_images k db"
  by (simp add: upload_images_def)

text \<open>
  One rule for all steps that write one upload row: what remains to show is the new row, the images
  of the other uploads, and the weight of the row.
\<close>

lemma upload_inv_put:
  assumes inv: "upload_db_inv sv db" and u: "get_upload (up_id u') db = Some u"
    and uploads: "db_uploads db1 = db_uploads db"
    and con: "upload_consistent sv db1 u'"
    and images: "distinct (map img_id (db_upload_images db1))"
      "\<forall>i \<in> set (db_upload_images db1). image_consistent sv i \<and> img_upload_id i \<in> up_id ` set (db_uploads db)"
    and others: "\<And>k. k \<noteq> up_id u' \<Longrightarrow> upload_images k db1 = upload_images k db"
    and quota: "\<And>v. used_bytes v db1 - upload_weight v u + upload_weight v u' \<le> qs_quota_bytes (sv_quota sv)"
  shows "upload_db_inv sv (put_upload u' db1)"
proof -
  have d: "distinct (map up_id (db_uploads db1))" using inv uploads by (simp add: upload_db_inv_def)
  have g: "get_upload (up_id u') db1 = Some u" using u uploads by (simp add: get_upload_def)
  have con': "upload_consistent sv (put_upload u' db1) x" if "x \<in> set (db_uploads (put_upload u' db1))" for x
  proof (cases "x = u'")
    case True
    with con show ?thesis by (simp add: upload_consistent_def)
  next
    case False
    with that have x: "x \<in> set (db_uploads db)" "up_id x \<noteq> up_id u'"
      using set_put [OF d g [unfolded get_upload_def]] d uploads find_row_distinct [OF d, of x] g
      by (auto simp: get_upload_def)
    then have "upload_consistent sv db x" using inv by (simp add: upload_db_inv_def)
    with others [OF x(2)] show ?thesis by (simp add: upload_consistent_def)
  qed
  have "up_id ` set (db_uploads (put_upload u' db1)) = up_id ` set (db_uploads db)"
    using uploads by (metis list.set_map map_key_put put_tables(12))
  with d con' images quota used_bytes_put_upload [OF d g] show ?thesis
    by (simp add: upload_db_inv_def)
qed

section \<open>Every step keeps the invariant\<close>

lemma upload_images_append:
  "upload_images k (db\<lparr>db_upload_images := db_upload_images db @ [row]\<rparr>) =
     upload_images k db @ (if img_upload_id row = k then [row] else [])"
  by (simp add: upload_images_def)

lemma created_inv:
  assumes inv: "upload_db_inv sv db" and settings: "upload_settings_error (sv_settings sv) = None"
    and ins: "insert_upload (new_upload k v key now) db = Some db'"
  shows "upload_db_inv sv db'"
proof -
  let ?u = "new_upload k v key now"
  have new: "k \<notin> up_id ` set (db_uploads db)" "job_upload_row_ok ?u"
    and db': "db' = db\<lparr>db_uploads := db_uploads db @ [?u]\<rparr>"
    using ins by (auto simp: insert_upload_def new_upload_def split: if_splits)
  have none: "upload_images k db = []"
    using inv new(1) by (auto simp: upload_db_inv_def upload_images_def filter_empty_conv)
  have im: "upload_images k' db' = upload_images k' db" for k' by (simp add: db' upload_images_def)
  have lim: "0 \<le> us_max_images (sv_settings sv)" "0 \<le> us_max_total_bytes (sv_settings sv)"
    using settings by (auto simp: upload_settings_error_def split: if_splits)
  have "upload_consistent sv db' ?u"
    using new(2) none im lim by (simp add: upload_consistent_def new_upload_def sum_sizes_def)
  moreover have "upload_consistent sv db' u" if "u \<in> set (db_uploads db)" for u
  proof -
    have "upload_consistent sv db u" using inv that by (simp add: upload_db_inv_def)
    then show ?thesis by (simp add: upload_consistent_def im)
  qed
  moreover have "used_bytes v' db' = used_bytes v' db" for v'
    by (simp add: used_bytes_weights db' upload_weight_def new_upload_def)
  ultimately show ?thesis
    using inv new(1) by (auto simp: upload_db_inv_def db' new_upload_def)
qed

lemma added_inv:
  assumes inv: "upload_db_inv sv db" and u: "get_upload k db = Some u" and st: "up_status u = Uploading"
    and lim: "up_image_count u < us_max_images (sv_settings sv)"
      "up_total_bytes u + img_size_bytes row \<le> us_max_total_bytes (sv_settings sv)"
      "img_size_bytes row \<le> us_max_file_bytes (sv_settings sv)"
    and quota: "enforce_quota (sv_quota sv) (up_user_id u) (img_size_bytes row) 0 db = Inr q"
    and k: "img_upload_id row = k" and ins: "insert_image row db = Some db1"
    and flush: "flush_upload (u\<lparr>up_image_count := up_image_count u + 1,
      up_total_bytes := up_total_bytes u + img_size_bytes row, up_updated_at := now\<rparr>) db1 = Some db'"
  shows "upload_db_inv sv db'"
proof -
  let ?u = "u\<lparr>up_image_count := up_image_count u + 1,
      up_total_bytes := up_total_bytes u + img_size_bytes row, up_updated_at := now\<rparr>"
  have id: "up_id u = k" using get_upload_set [OF u] by simp
  have db1: "db1 = db\<lparr>db_upload_images := db_upload_images db @ [row]\<rparr>"
    and new: "img_id row \<notin> img_id ` set (db_upload_images db)" "job_upload_image_row_ok row"
    using ins by (auto simp: insert_image_def split: if_splits)
  have row: "job_upload_row_ok ?u" and db': "db' = put_upload ?u db1"
    using flush by (auto simp: flush_upload_def split: if_splits)
  have con: "upload_consistent sv db u" by (rule upload_inv_get [OF inv u])
  show ?thesis
    unfolding db'
  proof (rule upload_inv_put [OF inv])
    show "get_upload (up_id ?u) db = Some u" using u id by simp
    show "upload_consistent sv db1 ?u"
      using con row lim k id st
      by (simp add: upload_consistent_def db1 upload_images_append sum_sizes_def)
    show "distinct (map img_id (db_upload_images db1))"
      using inv new(1) by (auto simp: db1 upload_db_inv_def)
    show "\<forall>i \<in> set (db_upload_images db1). image_consistent sv i \<and> img_upload_id i \<in> up_id ` set (db_uploads db)"
    proof -
      have "img_upload_id row \<in> up_id ` set (db_uploads db)" using k get_upload_set [OF u] by (metis image_eqI)
      then show ?thesis using inv new(2) lim(3) by (auto simp: db1 upload_db_inv_def image_consistent_def)
    qed
    show "upload_images k' db1 = upload_images k' db" if "k' \<noteq> up_id ?u" for k'
      using that id k by (auto simp: db1 upload_images_append)
    show "used_bytes v db1 - upload_weight v u + upload_weight v ?u \<le> qs_quota_bytes (sv_quota sv)" for v
      using enforce_quota_Inr [OF quota] inv by (auto simp: db1 upload_weight_def upload_db_inv_def)
  qed (simp add: db1)
qed

lemma delete_image_row:
  assumes "distinct (map img_id is)" and "row \<in> set is"
  shows "int (length (filter (\<lambda>i. img_upload_id i = k) (delete_where (\<lambda>i. img_id i = img_id row) is))) =
      int (length (filter (\<lambda>i. img_upload_id i = k) is)) - (if img_upload_id row = k then 1 else 0)"
    and "sum_sizes (filter (\<lambda>i. img_upload_id i = k) (delete_where (\<lambda>i. img_id i = img_id row) is)) =
      sum_sizes (filter (\<lambda>i. img_upload_id i = k) is) - (if img_upload_id row = k then img_size_bytes row else 0)"
    and "img_upload_id row \<noteq> k \<Longrightarrow>
      filter (\<lambda>i. img_upload_id i = k) (delete_where (\<lambda>i. img_id i = img_id row) is) =
      filter (\<lambda>i. img_upload_id i = k) is"
  using assms
proof (atomize (full), induction "is")
  case (Cons x xs)
  show ?case
  proof (cases "x = row")
    case True
    have "img_id x \<notin> img_id ` set xs" using Cons.prems(1) by simp
    with True have "\<And>y. y \<in> set xs \<Longrightarrow> img_id y \<noteq> img_id row" by (metis image_eqI)
    then have "delete_where (\<lambda>i. img_id i = img_id row) xs = xs"
      by (simp add: delete_where_def filter_id_conv)
    with True show ?thesis by (simp add: delete_where_def sum_sizes_def)
  next
    case False
    with Cons.prems have "img_id x \<noteq> img_id row" "row \<in> set xs" by (auto simp: rev_image_eqI)
    with Cons show ?thesis by (simp add: delete_where_def sum_sizes_def)
  qed
qed simp

lemma deleted_inv:
  assumes inv: "upload_db_inv sv db" and u: "get_upload k db = Some u" and st: "up_status u = Uploading"
    and row: "row \<in> set (db_upload_images db)" "img_upload_id row = k"
    and flush: "flush_upload (u\<lparr>up_image_count := up_image_count u - 1,
      up_total_bytes := up_total_bytes u - img_size_bytes row, up_updated_at := now\<rparr>)
      (db\<lparr>db_upload_images := delete_where (\<lambda>i. img_id i = img_id row) (db_upload_images db)\<rparr>) = Some db'"
  shows "upload_db_inv sv db'"
proof -
  let ?u = "u\<lparr>up_image_count := up_image_count u - 1,
      up_total_bytes := up_total_bytes u - img_size_bytes row, up_updated_at := now\<rparr>"
  let ?db = "db\<lparr>db_upload_images := delete_where (\<lambda>i. img_id i = img_id row) (db_upload_images db)\<rparr>"
  have id: "up_id u = k" using get_upload_set [OF u] by simp
  have d: "distinct (map img_id (db_upload_images db))" using inv by (simp add: upload_db_inv_def)
  note del = delete_image_row [OF d row(1)]
  have ok: "job_upload_row_ok ?u" and db': "db' = put_upload ?u ?db"
    using flush by (auto simp: flush_upload_def split: if_splits)
  have con: "upload_consistent sv db u" by (rule upload_inv_get [OF inv u])
  have size: "0 < img_size_bytes row"
    using inv row(1) by (auto simp: upload_db_inv_def image_consistent_def job_upload_image_row_ok_def)
  show ?thesis
    unfolding db'
  proof (rule upload_inv_put [OF inv])
    show "get_upload (up_id ?u) db = Some u" using u id by simp
    show "upload_consistent sv ?db ?u"
      using con ok del(1,2) [of k] row(2) id st size
      by (simp add: upload_consistent_def upload_images_def)
    show "distinct (map img_id (db_upload_images ?db))"
      using d by (simp add: delete_where_def distinct_map_filter)
    show "\<forall>i \<in> set (db_upload_images ?db). image_consistent sv i \<and> img_upload_id i \<in> up_id ` set (db_uploads db)"
      using inv by (simp add: delete_where_def upload_db_inv_def)
    show "upload_images k' ?db = upload_images k' db" if "k' \<noteq> up_id ?u" for k'
      using that id row(2) del(3) [of k'] by (simp add: upload_images_def)
    show "used_bytes v ?db - upload_weight v u + upload_weight v ?u \<le> qs_quota_bytes (sv_quota sv)" for v
    proof -
      have "used_bytes v db \<le> qs_quota_bytes (sv_quota sv)" using inv by (simp add: upload_db_inv_def)
      then show ?thesis using size by (simp add: upload_weight_def)
    qed
  qed simp
qed

lemma cancelled_inv:
  assumes inv: "upload_db_inv sv db" and settings: "upload_settings_error (sv_settings sv) = None"
    and u: "get_upload k db = Some u" and st: "up_status u = Uploading"
    and mark: "mark_upload_cancelled u reason now db = Inr db'"
  shows "upload_db_inv sv db'"
proof -
  let ?u = "u\<lparr>up_status := Upload_cancelled, up_image_count := 0, up_cancelled_at := Some now,
      up_cancellation_reason := Some reason, up_storage_cleaned_at := None, up_updated_at := now\<rparr>"
  let ?db = "db\<lparr>db_upload_images := delete_where (\<lambda>i. img_upload_id i = up_id u) (db_upload_images db)\<rparr>"
  have id: "up_id u = k" using get_upload_set [OF u] by simp
  have ok: "job_upload_row_ok ?u" and db': "db' = put_upload ?u ?db"
    using mark by (auto simp: mark_upload_cancelled_def flush_upload_def Let_def split: if_splits)
  have con: "upload_consistent sv db u" by (rule upload_inv_get [OF inv u])
  have lim: "0 \<le> us_max_images (sv_settings sv)"
    using settings by (auto simp: upload_settings_error_def split: if_splits)
  have clean: "up_storage_cleaned_at u = None"
    using con st by (auto simp: upload_consistent_def job_upload_row_ok_def)
  show ?thesis
    unfolding db'
  proof (rule upload_inv_put [OF inv])
    show "get_upload (up_id ?u) db = Some u" using u id by simp
    have "upload_images k ?db = []" by (simp add: upload_images_def delete_where_def filter_empty_conv id)
    with con ok id lim show "upload_consistent sv ?db ?u"
      by (simp add: upload_consistent_def)
    show "distinct (map img_id (db_upload_images ?db))"
      using inv by (simp add: delete_where_def upload_db_inv_def distinct_map_filter)
    show "\<forall>i \<in> set (db_upload_images ?db). image_consistent sv i \<and> img_upload_id i \<in> up_id ` set (db_uploads db)"
      using inv by (simp add: delete_where_def upload_db_inv_def)
    show "upload_images k' ?db = upload_images k' db" if "k' \<noteq> up_id ?u" for k'
      using that by (auto simp: upload_images_def delete_where_def intro!: filter_cong)
    show "used_bytes v ?db - upload_weight v u + upload_weight v ?u \<le> qs_quota_bytes (sv_quota sv)" for v
      using inv clean st by (simp add: upload_weight_def upload_db_inv_def)
  qed simp
qed

lemma cleaned_inv:
  assumes inv: "upload_db_inv sv db" and u: "get_upload k db = Some u"
    and st: "up_status u = Upload_cancelled" "up_storage_cleaned_at u = None"
  shows "upload_db_inv sv (put_upload (u\<lparr>up_storage_cleaned_at := Some now\<rparr>) db)"
proof (rule upload_inv_put [OF inv])
  have id: "up_id u = k" using get_upload_set [OF u] by simp
  have con: "upload_consistent sv db u" by (rule upload_inv_get [OF inv u])
  show "get_upload (up_id (u\<lparr>up_storage_cleaned_at := Some now\<rparr>)) db = Some u" using u id by simp
  show "upload_consistent sv db (u\<lparr>up_storage_cleaned_at := Some now\<rparr>)"
    using con st by (simp add: upload_consistent_def job_upload_row_ok_def)
  have "0 \<le> up_total_bytes u" using con by (simp add: upload_consistent_def job_upload_row_ok_def)
  then show "used_bytes v db - upload_weight v u + upload_weight v (u\<lparr>up_storage_cleaned_at := Some now\<rparr>) \<le>
      qs_quota_bytes (sv_quota sv)" for v
  proof -
    have "used_bytes v db \<le> qs_quota_bytes (sv_quota sv)" using inv by (simp add: upload_db_inv_def)
    with \<open>0 \<le> up_total_bytes u\<close> show ?thesis by (auto simp: upload_weight_def)
  qed
qed (use inv in \<open>simp_all add: upload_db_inv_def\<close>)

lemma submitted_inv:
  assumes inv: "upload_db_inv sv db" and u: "get_upload k db = Some u" and st: "up_status u = Uploading"
    and quota: "enforce_quota (sv_quota sv) (up_user_id u) (qs_job_reservation_bytes (sv_quota sv))
      (up_total_bytes u) db = Inr q"
    and enq: "enqueue_in_session (submit_request sv u mode digest) now db = (Inr (), db1)"
    and flush: "flush_upload (u\<lparr>up_status := Submitted, up_submitted_at := Some now, up_updated_at := now\<rparr>)
      (add_task_event e db1) = Some db'"
  shows "upload_db_inv sv db'"
proof -
  let ?u = "u\<lparr>up_status := Submitted, up_submitted_at := Some now, up_updated_at := now\<rparr>"
  let ?j = "queued_job (submit_request sv u mode digest) now"
  have id: "up_id u = k" using get_upload_set [OF u] by simp
  have "insert_job ?j db = Some db1"
    using enq by (auto simp: enqueue_in_session_def split: option.splits)
  then have db1: "db1 = db\<lparr>db_jobs := db_jobs db @ [?j]\<rparr>" by (auto simp: insert_job_def split: if_splits)
  have ok: "job_upload_row_ok ?u" and db': "db' = put_upload ?u (add_task_event e db1)"
    using flush by (auto simp: flush_upload_def split: if_splits)
  have con: "upload_consistent sv db u" by (rule upload_inv_get [OF inv u])
  have clean: "up_storage_cleaned_at u = None"
    using con st by (auto simp: upload_consistent_def job_upload_row_ok_def)
  have im: "upload_images k' (add_task_event e db1) = upload_images k' db" for k'
    by (simp add: upload_images_def add_task_event_def db1)
  show ?thesis
    unfolding db'
  proof (rule upload_inv_put [OF inv])
    show "get_upload (up_id ?u) db = Some u" using u id by simp
    show "upload_consistent sv (add_task_event e db1) ?u"
      using con ok st by (simp add: upload_consistent_def im)
    show "distinct (map img_id (db_upload_images (add_task_event e db1)))"
      using inv by (simp add: db1 upload_db_inv_def)
    show "\<forall>i \<in> set (db_upload_images (add_task_event e db1)).
        image_consistent sv i \<and> img_upload_id i \<in> up_id ` set (db_uploads db)"
      using inv by (simp add: db1 upload_db_inv_def)
    show "used_bytes v (add_task_event e db1) - upload_weight v u + upload_weight v ?u \<le>
        qs_quota_bytes (sv_quota sv)" for v
    proof -
      have "used_bytes v (add_task_event e db1) = used_bytes v db +
          (if up_user_id u = v then qs_job_reservation_bytes (sv_quota sv) else 0)"
        by (simp add: used_bytes_weights db1 job_weight_def queued_job_def submit_request_def)
      moreover have "used_bytes v db \<le> qs_quota_bytes (sv_quota sv)" using inv by (simp add: upload_db_inv_def)
      ultimately show ?thesis
        using enforce_quota_Inr [OF quota] clean st by (auto simp: upload_weight_def)
    qed
  qed (simp_all only: im, simp add: db1)
qed

lemma upload_change_inv:
  assumes "upload_change sv db db'" and "upload_settings_error (sv_settings sv) = None"
    and "upload_db_inv sv db"
  shows "upload_db_inv sv db'"
  using assms(1,3)
proof (induction rule: upload_change.induct)
  case created
  from created_inv [OF created(2) assms(2) created(1)] show ?case .
next
  case added
  from added_inv [OF added(10) added(1-9)] show ?case .
next
  case deleted
  from deleted_inv [OF deleted(6) deleted(1-5)] show ?case .
next
  case cancelled
  from cancelled_inv [OF cancelled(4) assms(2) cancelled(1-3)] show ?case .
next
  case cleaned
  from cleaned_inv [OF cleaned(4) cleaned(1-3)] show ?case .
next
  case submitted
  from submitted_inv [OF submitted(8) submitted(1,2,5,6,7)] show ?case .
qed

section \<open>Copying a file\<close>

text \<open>The chunked copy is the whole file when it fits, and an error otherwise.\<close>

lemma copy_chunks_eq:
  assumes "seen \<le> max_bytes"
  shows "copy_chunks max_bytes seen written source =
     (if max_bytes < seen + int (length source)
      then Inl (Upload_too_large ''image exceeds the per-file byte limit'')
      else Inr (written @ source))"
  using assms
proof (induction max_bytes seen written source rule: copy_chunks.induct)
  case (1 max_bytes seen written source)
  let ?chunk = "take chunk_bytes source"
  show ?case
  proof (cases "source = []")
    case True
    with 1 show ?thesis by (subst copy_chunks.simps) simp
  next
    case False
    then have ne: "?chunk \<noteq> []" by (simp add: chunk_bytes_def)
    have len: "int (length source) = int (length ?chunk) + int (length (drop chunk_bytes source))"
      by (metis append_take_drop_id length_append of_nat_add)
    show ?thesis
    proof (cases "max_bytes < seen + int (length ?chunk)")
      case True
      moreover from this len have "max_bytes < seen + int (length source)" by linarith
      ultimately show ?thesis using ne by (subst copy_chunks.simps) (simp add: Let_def)
    next
      case fits: False
      have "copy_chunks max_bytes seen written source = copy_chunks max_bytes
          (seen + int (length ?chunk)) (written @ ?chunk) (drop chunk_bytes source)"
        using ne fits by (subst copy_chunks.simps) (simp add: Let_def)
      also have "\<dots> = (if max_bytes < seen + int (length source)
        then Inl (Upload_too_large ''image exceeds the per-file byte limit'') else Inr (written @ source))"
      proof -
        have "seen + int (length ?chunk) + int (length (drop chunk_bytes source)) = seen + int (length source)"
          using len by linarith
        with 1(1) [OF refl ne refl] fits show ?thesis by (simp only: not_less append_assoc append_take_drop_id simp_thms)
      qed
      finally show ?thesis .
    qed
  qed
qed

lemma copy_limited_eq:
  assumes "upload_settings_error (sv_settings sv) = None"
  shows "copy_limited sv source =
     (if us_max_file_bytes (sv_settings sv) < int (length source)
      then Inl (Upload_too_large ''image exceeds the per-file byte limit'')
      else if source = [] then Inl (Upload_validation ''empty files are not accepted'')
      else Inr (int (length source), sv_sha256 sv source))"
proof -
  have "0 \<le> us_max_file_bytes (sv_settings sv)"
    using assms by (auto simp: upload_settings_error_def split: if_splits)
  then show ?thesis by (simp add: copy_limited_def copy_chunks_eq)
qed

section \<open>What the calls do\<close>

lemma owned_upload_SomeD:
  "owned_upload k v db = Some u \<Longrightarrow> get_upload k db = Some u \<and> up_user_id u = v \<and> up_id u = k"
  using get_upload_set by (auto simp: owned_upload_def split: option.splits if_splits)

lemma create_upload_effect:
  obtains (Same) res where "create_upload sv v token new_id free now w = (res, w)"
  | (Created) key db' res where "create_upload sv v token new_id free now w =
      (res, set_task_dir new_id empty_task_dir (w\<lparr>st_db := db'\<rparr>))"
      "st_paths w new_id = None" "insert_upload (new_upload new_id v key now) (st_db w) = Some db'"
proof -
  let ?key = "sv_sha256 sv (''upload:'' @ uuid_str v @ '':'' @ strip token)"
  have undo: "w\<lparr>st_paths := (st_paths w)(new_id := None)\<rparr> = w" if "st_paths w new_id = None"
    using that by (simp add: fun_upd_idem)
  have undo': "(set_task_dir new_id empty_task_dir w)
      \<lparr>st_paths := (st_paths (set_task_dir new_id empty_task_dir w))(new_id := None)\<rparr> = w"
    if "st_paths w new_id = None"
    using undo [OF that] by (simp add: set_task_dir_def)
  have db: "st_db (set_task_dir new_id empty_task_dir w) = st_db w" by (simp add: set_task_dir_def)
  have wr: "(set_task_dir new_id empty_task_dir w)\<lparr>st_db := db'\<rparr> =
      set_task_dir new_id empty_task_dir (w\<lparr>st_db := db'\<rparr>)" for db'
    by (simp add: set_task_dir_def)
  show thesis
  proof (cases "st_paths w new_id = None \<and> insert_upload (new_upload new_id v ?key now) (st_db w) \<noteq> None \<and>
      upload_by_key v ?key (st_db w) = None \<and>
      storage_capacity_error (sv_settings sv) free (us_max_file_bytes (sv_settings sv)) = None \<and>
      8 \<le> length (strip token) \<and> length (strip token) \<le> 128")
    case True
    then obtain db' where "insert_upload (new_upload new_id v ?key now) (st_db w) = Some db'" by blast
    with True show thesis
      by (intro Created [of "map_sum id (\<lambda>s. (s, False)) (get_upload_snapshot new_id v db')" db' ?key])
        (simp_all add: create_upload_def Let_def db wr set_task_dir_def split: sum.split)
  next
    case False
    then have "\<exists>res. create_upload sv v token new_id free now w = (res, w)"
      by (auto simp: create_upload_def Let_def db undo' split: option.split)
    then show thesis using Same by blast
  qed
qed

lemma add_image_effect:
  assumes settings: "upload_settings_error (sv_settings sv) = None"
  obtains (Failed) e where "add_image sv k v source name free free' iid nid now w = (Inl e, w)"
  | (Added) u d row db1 db2 q res where
      "add_image sv k v source name free free' iid nid now w =
         (res, set_task_dir k (d\<lparr>td_images := filter (\<lambda>(n, _). n \<noteq> img_stored_name row) (td_images d) @
            [(img_stored_name row, Regular source)]\<rparr>) (w\<lparr>st_db := db2\<rparr>))"
      "get_upload k (st_db w) = Some u" "up_user_id u = v" "up_status u = Uploading"
      "task_layout k w = Some d"
      "up_image_count u < us_max_images (sv_settings sv)"
      "up_total_bytes u + img_size_bytes row \<le> us_max_total_bytes (sv_settings sv)"
      "img_size_bytes row \<le> us_max_file_bytes (sv_settings sv)"
      "enforce_quota (sv_quota sv) v (img_size_bytes row) 0 (st_db w) = Inr q"
      "img_upload_id row = k" "img_size_bytes row = int (length source)"
      "img_sha256 row = sv_sha256 sv source" "insert_image row (st_db w) = Some db1"
      "flush_upload (u\<lparr>up_image_count := up_image_count u + 1,
        up_total_bytes := up_total_bytes u + img_size_bytes row, up_updated_at := now\<rparr>) db1 = Some db2"
proof -
  show thesis
  proof (cases "stage_image sv k v source name free free' w")
    case (Inl e)
    then show thesis by (intro Failed) (simp add: add_image_def)
  next
    case (Inr q)
    obtain d img where q: "q = (d, img)" by (cases q)
    have go: "task_layout k w = Some d" "copy_limited sv source = Inr (si_size_bytes img, si_digest img)"
      "si_content img = source"
      using Inr q by (auto simp: stage_image_def Let_def split: sum.splits option.splits prod.splits if_splits)
    have run: "add_image sv k v source name free free' iid nid now w =
       (case db_transaction (add_image_in_session sv k v img d iid nid now) w of
          (Inl e, w') \<Rightarrow> (Inl e, w') | (Inr _, w') \<Rightarrow> (get_upload_snapshot k v (st_db w'), w'))"
      using Inr q by (simp add: add_image_def)
    show thesis
    proof (cases "fst (add_image_in_session sv k v img d iid nid now w)")
      case (Inl e)
      then have "snd (add_image_in_session sv k v img d iid nid now w) = w"
        by (auto simp: add_image_in_session_def Let_def split: option.splits sum.splits if_splits)
      with Inl have "add_image_in_session sv k v img d iid nid now w = (Inl e, w)" by (simp add: prod_eq_iff)
      with run show thesis by (intro Failed) (simp add: db_transaction_def)
    next
      case (Inr x)
      let ?row = "\<lparr>img_id = iid, img_upload_id = k, img_sequence = next_sequence k (st_db w),
          img_stored_name = stored_name_of (next_sequence k (st_db w)) (uuid_hex nid) (si_extension img),
          img_original_name = si_original_name img, img_content_type = si_content_type img,
          img_size_bytes = si_size_bytes img, img_sha256 = si_digest img, img_width = si_width img,
          img_height = si_height img, img_created_at = now\<rparr>"
      from Inr obtain u db1 db2 q where body: "owned_upload k v (st_db w) = Some u" "up_status u = Uploading"
        "up_image_count u < us_max_images (sv_settings sv)"
        "up_total_bytes u + si_size_bytes img \<le> us_max_total_bytes (sv_settings sv)"
        "enforce_quota (sv_quota sv) v (si_size_bytes img) 0 (st_db w) = Inr q"
        "insert_image ?row (st_db w) = Some db1"
        "flush_upload (u\<lparr>up_image_count := up_image_count u + 1,
          up_total_bytes := up_total_bytes u + si_size_bytes img, up_updated_at := now\<rparr>) db1 = Some db2"
        "add_image_in_session sv k v img d iid nid now w = (Inr (), set_task_dir k
          (d\<lparr>td_images := filter (\<lambda>(n, _). n \<noteq> img_stored_name ?row) (td_images d) @
            [(img_stored_name ?row, Regular (si_content img))]\<rparr>) (w\<lparr>st_db := db2\<rparr>))"
        by (auto simp: add_image_in_session_def Let_def not_le not_less split: option.splits sum.splits if_splits)
      from go(2) have size: "si_size_bytes img = int (length source)" "si_digest img = sv_sha256 sv source"
        "si_size_bytes img \<le> us_max_file_bytes (sv_settings sv)"
        by (auto simp: copy_limited_eq [OF settings] split: if_splits)
      show thesis
        by (rule Added [where res = "get_upload_snapshot k v db2" and d = d and row = ?row and u = u and q = q and ?db1.0 = db1 and ?db2.0 = db2])
          (use go run body size owned_upload_SomeD [OF body(1)] in
            \<open>simp_all add: db_transaction_def set_task_dir_def\<close>)
    qed
  qed
qed

lemma delete_image_effect:
  obtains (Failed) e where "delete_image k iid v now w = (Inl e, w)"
  | (Deleted) u row db2 res d' where
      "delete_image k iid v now w = (res, set_task_dir k d' (w\<lparr>st_db := db2\<rparr>))"
      "get_upload k (st_db w) = Some u" "up_user_id u = v" "up_status u = Uploading"
      "row \<in> set (db_upload_images (st_db w))" "img_upload_id row = k" "img_id row = iid"
      "flush_upload (u\<lparr>up_image_count := up_image_count u - 1,
        up_total_bytes := up_total_bytes u - img_size_bytes row, up_updated_at := now\<rparr>)
        ((st_db w)\<lparr>db_upload_images := delete_where (\<lambda>i. img_id i = img_id row) (db_upload_images (st_db w))\<rparr>) =
       Some db2"
proof (cases "fst (delete_image_in_session k iid v now w)")
  case (Inl e)
  then have "snd (delete_image_in_session k iid v now w) = w"
    by (auto simp: delete_image_in_session_def Let_def split: option.splits dir_entry.splits if_splits)
  with Inl have "delete_image_in_session k iid v now w = (Inl e, w)" by (simp add: prod_eq_iff)
  then show thesis by (intro Failed) (simp add: delete_image_def db_transaction_def)
next
  case (Inr x)
  then obtain u row d' db2 where body: "owned_upload k v (st_db w) = Some u" "up_status u = Uploading"
    "find (\<lambda>i. img_id i = iid \<and> img_upload_id i = k) (db_upload_images (st_db w)) = Some row"
    "flush_upload (u\<lparr>up_image_count := up_image_count u - 1,
        up_total_bytes := up_total_bytes u - img_size_bytes row, up_updated_at := now\<rparr>)
        ((st_db w)\<lparr>db_upload_images := delete_where (\<lambda>i. img_id i = iid) (db_upload_images (st_db w))\<rparr>) =
       Some db2"
    "delete_image_in_session k iid v now w = (Inr (), set_task_dir k d' (w\<lparr>st_db := db2\<rparr>))"
    by (auto simp: delete_image_in_session_def Let_def split: option.splits dir_entry.splits if_splits)
  then have row: "row \<in> set (db_upload_images (st_db w))" "img_upload_id row = k" "img_id row = iid"
    by (auto simp: find_Some_iff)
  have run: "delete_image k iid v now w = (get_upload_snapshot k v db2, set_task_dir k d' (w\<lparr>st_db := db2\<rparr>))"
    by (simp add: delete_image_def db_transaction_def body(5) set_task_dir_def)
  show thesis
    by (rule Deleted [OF run, where u = u and row = row]) (use body row owned_upload_SomeD [OF body(1)] in simp_all)
qed

definition submit_files :: "upload_service \<Rightarrow> uuid \<Rightarrow> storage \<Rightarrow> storage \<Rightarrow> bool" where
  "submit_files sv k w w' \<longleftrightarrow> st_db w' = st_db w \<and> (\<forall>k'. k' \<noteq> k \<longrightarrow> st_paths w' k' = st_paths w k')"

lemma queue_upload_cases:
  obtains (Failed) e w' where "queue_upload sv u v mode rid cre ev now d manifest w = (Inl e, w')"
      "\<And>k'. k' \<noteq> up_id u \<Longrightarrow> st_paths w' k' = st_paths w k'"
  | (Queued) db1 db2 where
      "queue_upload sv u v mode rid cre ev now d manifest w =
        (Inr (), set_task_dir (up_id u) (d\<lparr>td_manifest := Some manifest, td_request := Some (build_request sv u
           (sv_json_sha256 sv manifest) (queue_key sv (up_id u)) mode rid cre)\<rparr>) (w\<lparr>st_db := db2\<rparr>))"
      "enqueue_in_session (submit_request sv u mode (sv_json_sha256 sv manifest)) now (st_db w) = (Inr (), db1)"
      "flush_upload (u\<lparr>up_status := Submitted, up_submitted_at := Some now, up_updated_at := now\<rparr>)
        (add_task_event (task_event ''job_submitted'' v (up_id u) mode None ev now) db1) = Some db2"
proof (cases "fst (queue_upload sv u v mode rid cre ev now d manifest w)")
  case (Inl e)
  let ?w = "snd (queue_upload sv u v mode rid cre ev now d manifest w)"
  have "st_paths ?w k' = st_paths w k'" if "k' \<noteq> up_id u" for k'
    using that by (simp add: queue_upload_def Let_def set_task_dir_def
        split: option.split prod.split sum.split queue_error.split)
  with Inl show thesis by (intro Failed [of e ?w]) (simp_all add: prod_eq_iff)
next
  case (Inr x)
  then obtain db1 db2 where
    "queue_upload sv u v mode rid cre ev now d manifest w =
        (Inr (), set_task_dir (up_id u) (d\<lparr>td_manifest := Some manifest, td_request := Some (build_request sv u
           (sv_json_sha256 sv manifest) (queue_key sv (up_id u)) mode rid cre)\<rparr>) (w\<lparr>st_db := db2\<rparr>))"
    "enqueue_in_session (submit_request sv u mode (sv_json_sha256 sv manifest)) now (st_db w) = (Inr (), db1)"
    "flush_upload (u\<lparr>up_status := Submitted, up_submitted_at := Some now, up_updated_at := now\<rparr>)
        (add_task_event (task_event ''job_submitted'' v (up_id u) mode None ev now) db1) = Some db2"
    by (auto simp: queue_upload_def Let_def set_task_dir_def
        split: option.splits prod.splits sum.splits if_splits queue_error.splits)
  then show thesis by (rule Queued)
qed

lemma submit_effect:
  obtains (Failed) e w' where "submit sv k v mode free rid cre ev now w = (Inl e, w')"
      "submit_files sv k w w'" "w' = w \<or> (\<exists>u. get_upload k (st_db w) = Some u \<and> up_status u = Uploading)"
  | (Again) u j where "submit sv k v mode free rid cre ev now w = (Inr (job_snapshot j), w)"
      "owned_upload k v (st_db w) = Some u" "up_status u = Submitted" "get_job k (st_db w) = Some j"
      "job_execution_mode j = mode"
  | (Queued) u d manifest db1 db2 res where
      "submit sv k v mode free rid cre ev now w =
        (res, set_task_dir k (d\<lparr>td_manifest := Some manifest, td_request := Some (build_request sv u
           (sv_json_sha256 sv manifest) (queue_key sv k) mode rid cre)\<rparr>) (w\<lparr>st_db := db2\<rparr>))"
      "owned_upload k v (st_db w) = Some u" "up_status u = Uploading" "mode \<in> {''simulated'', ''real''}"
      "submit_checks sv u free now w = Inr (d, manifest)"
      "enqueue_in_session (submit_request sv u mode (sv_json_sha256 sv manifest)) now (st_db w) = (Inr (), db1)"
      "flush_upload (u\<lparr>up_status := Submitted, up_submitted_at := Some now, up_updated_at := now\<rparr>)
        (add_task_event (task_event ''job_submitted'' v k mode None ev now) db1) = Some db2"
      "res = map_sum Upload_queue id (query_job k (Some v) db2)"
proof (cases "mode \<in> {''simulated'', ''real''}")
  case False
  then have "submit sv k v mode free rid cre ev now w =
      (Inl (Upload_validation ''execution_mode must be simulated or real''), w)"
    by (simp add: submit_def)
  then show thesis by (rule Failed) (simp_all add: submit_files_def)
next
  case mode: True
  have run: "submit sv k v mode free rid cre ev now w =
      (case db_transaction (submit_in_session sv k v mode free rid cre ev now) w of
         (Inl e, w') \<Rightarrow> (Inl e, w') | (Inr (Some snapshot), w') \<Rightarrow> (Inr snapshot, w')
       | (Inr None, w') \<Rightarrow> (map_sum Upload_queue id (query_job k (Some v) (st_db w')), w'))"
    using mode unfolding submit_def by (auto split: prod.split sum.split option.split)
  have same: thesis if "submit_in_session sv k v mode free rid cre ev now w = (Inl e, w)" for e
    by (rule Failed [of e w]) (use that in \<open>simp_all add: run db_transaction_def submit_files_def\<close>)
  show thesis
  proof (cases "owned_upload k v (st_db w)")
    case None
    then show thesis by (intro same) (simp add: submit_in_session_def)
  next
    case (Some u)
    note u = owned_upload_SomeD [OF Some]
    consider (sub) "up_status u = Submitted" | (cancelled) "up_status u = Upload_cancelled"
      | (stopped) "up_status u = Uploading" by (cases "up_status u")
    then show thesis
    proof cases
      case sub
      show thesis
      proof (cases "\<exists>j. get_job k (st_db w) = Some j \<and> job_execution_mode j = mode")
        case True
        then obtain j where j: "get_job k (st_db w) = Some j" "job_execution_mode j = mode" by blast
        show thesis
          by (rule Again [of j u])
            (use Some u sub j in \<open>simp_all add: run db_transaction_def submit_in_session_def\<close>)
      next
        case False
        then show thesis
          using Some u sub by (cases "get_job k (st_db w)") (auto intro!: same simp: submit_in_session_def)
      qed
    next
      case cancelled
      then show thesis using Some by (intro same) (simp add: submit_in_session_def)
    next
      case stopped
      show thesis
      proof (cases "submit_checks sv u free now w")
        case (Inl e)
        then show thesis using Some stopped by (intro same) (simp add: submit_in_session_def)
      next
        case (Inr q)
        obtain d manifest where q: "q = (d, manifest)" by (cases q)
        have body: "submit_in_session sv k v mode free rid cre ev now w =
            (case queue_upload sv u v mode rid cre ev now d manifest w of
               (Inl e, w') \<Rightarrow> (Inl e, w') | (Inr _, w') \<Rightarrow> (Inr None, w'))"
          using Some stopped Inr q by (simp add: submit_in_session_def)
        show thesis
        proof (cases rule: queue_upload_cases [of sv u v mode rid cre ev now d manifest w])
          case (Failed e w')
          show thesis
            by (rule that(1) [of e "w'\<lparr>st_db := st_db w\<rparr>"])
              (use Failed u stopped in \<open>simp_all add: run body db_transaction_def submit_files_def\<close>)
        next
          case (Queued db1 db2)
          show thesis
            by (rule that(3) [where res = "map_sum Upload_queue id (query_job k (Some v) db2)" and u = u and d = d
                and manifest = manifest and ?db1.0 = db1 and ?db2.0 = db2])
              (use mode Some u stopped Inr q Queued in \<open>simp_all add: run body db_transaction_def set_task_dir_def\<close>)
        qed
      qed
    qed
  qed
qed

end
