(* ===== verification/Upload_Theorems.thy ===== *)
theory Upload_Theorems
  imports Upload_Contract
begin

text \<open>
  The upload service as a transition system: every call is a sequence of the database steps of
  \<open>Upload_Contract\<close>, and none touches the row or the directory of a submitted upload. The properties
  follow over all runs of calls.
\<close>

section \<open>Submitted uploads are left alone\<close>

definition kept_submitted :: "storage \<Rightarrow> storage \<Rightarrow> bool" where
  "kept_submitted w w' \<longleftrightarrow>
     (\<forall>k u. get_upload k (st_db w) = Some u \<longrightarrow> up_status u = Submitted \<longrightarrow>
        get_upload k (st_db w') = Some u \<and> st_paths w' k = st_paths w k)"

lemma kept_submitted_refl: "kept_submitted w w"
  by (simp add: kept_submitted_def)

lemma kept_submitted_trans: "kept_submitted a b \<Longrightarrow> kept_submitted b c \<Longrightarrow> kept_submitted a c"
  by (simp add: kept_submitted_def)

text \<open>A call that works on one upload, which is not submitted.\<close>

lemma kept_submitted_local:
  assumes "\<And>k'. k' \<noteq> k \<Longrightarrow> get_upload k' (st_db w') = get_upload k' (st_db w)"
    and "\<And>k'. k' \<noteq> k \<Longrightarrow> st_paths w' k' = st_paths w k'"
    and "\<And>u. get_upload k (st_db w) = Some u \<Longrightarrow> up_status u \<noteq> Submitted"
  shows "kept_submitted w w'"
  unfolding kept_submitted_def
proof (intro allI impI)
  fix k' u assume "get_upload k' (st_db w) = Some u" "up_status u = Submitted"
  with assms show "get_upload k' (st_db w') = Some u \<and> st_paths w' k' = st_paths w k'"
    by (cases "k' = k") auto
qed

lemma flush_upload_other:
  assumes "flush_upload u db1 = Some db2" and "k' \<noteq> up_id u"
  shows "get_upload k' db2 = get_upload k' db1"
  using assms by (auto simp: flush_upload_def upload_rows.get_put_other split: if_splits)

section \<open>Calls\<close>

datatype upload_call =
    Create uuid string uuid "int option" time
  | Add_image uuid uuid string "string option" "int option" "int option" uuid uuid time
  | Delete_image uuid uuid uuid time
  | Cancel uuid uuid bool time
  | Cleanup "uuid \<Rightarrow> bool" "int option" "int option" time time
  | Submit uuid uuid string "int option" uuid string uuid time

fun run_upload :: "upload_service \<Rightarrow> upload_call \<Rightarrow> storage \<Rightarrow> storage" where
  "run_upload sv (Create v token k free now) w = snd (create_upload sv v token k free now w)"
| "run_upload sv (Add_image k v source name free free' iid nid now) w =
     snd (add_image sv k v source name free free' iid nid now w)"
| "run_upload sv (Delete_image k iid v now) w = snd (delete_image k iid v now w)"
| "run_upload sv (Cancel k v fails now) w = snd (cancel_upload k v fails now w)"
| "run_upload sv (Cleanup fails hrs limit current now) w =
     snd (cleanup_stale (sv_settings sv) fails hrs limit current now w)"
| "run_upload sv (Submit k v mode free rid cre ev now) w = snd (submit sv k v mode free rid cre ev now w)"

definition run_uploads :: "upload_service \<Rightarrow> upload_call list \<Rightarrow> storage \<Rightarrow> storage" where
  "run_uploads sv calls w = fold (run_upload sv) calls w"

definition upload_step :: "upload_service \<Rightarrow> storage \<Rightarrow> storage \<Rightarrow> bool" where
  "upload_step sv w w' \<longleftrightarrow> (\<exists>call. w' = run_upload sv call w)"

text \<open>What every call does: some steps of the database, and nothing to a submitted upload.\<close>

definition sound_call :: "upload_service \<Rightarrow> storage \<Rightarrow> storage \<Rightarrow> bool" where
  "sound_call sv w w' \<longleftrightarrow> (upload_change sv)\<^sup>*\<^sup>* (st_db w) (st_db w') \<and> kept_submitted w w'"

lemma sound_refl: "sound_call sv w w"
  by (simp add: sound_call_def kept_submitted_refl)

lemma sound_trans: "sound_call sv a b \<Longrightarrow> sound_call sv b c \<Longrightarrow> sound_call sv a c"
  unfolding sound_call_def by (meson kept_submitted_trans rtranclp_trans)

lemma sound_step: "upload_change sv (st_db w) (st_db w') \<Longrightarrow> kept_submitted w w' \<Longrightarrow> sound_call sv w w'"
  by (simp add: sound_call_def r_into_rtranclp)

lemma create_sound: "sound_call sv w (snd (create_upload sv v token k free now w))"
proof (cases rule: create_upload_effect [of sv v token k free now w])
  case (Same res)
  then show ?thesis by (simp add: sound_refl)
next
  case (Created key db' res)
  let ?w = "set_task_dir k empty_task_dir (w\<lparr>st_db := db'\<rparr>)"
  from Created(3) have db': "db' = (st_db w)\<lparr>db_uploads := db_uploads (st_db w) @ [new_upload k v key now]\<rparr>"
    and fresh: "k \<notin> up_id ` set (db_uploads (st_db w))"
    by (auto simp: insert_upload_def new_upload_def split: if_splits)
  have "sound_call sv w ?w"
  proof (rule sound_step)
    show "upload_change sv (st_db w) (st_db ?w)"
      using created [OF Created(3)] by (simp add: set_task_dir_def)
    show "kept_submitted w ?w"
    proof (rule kept_submitted_local [of k])
      show "get_upload k' (st_db ?w) = get_upload k' (st_db w)" if "k' \<noteq> k" for k'
        using that by (auto simp: set_task_dir_def db' get_upload_def new_upload_def split: option.split)
      show "st_paths ?w k' = st_paths w k'" if "k' \<noteq> k" for k' using that by (simp add: set_task_dir_def)
      show "up_status u \<noteq> Submitted" if "get_upload k (st_db w) = Some u" for u
        using that fresh get_upload_set [OF that] by (metis image_eqI)
    qed
  qed
  with Created(1) show ?thesis by simp
qed

lemma add_image_sound:
  assumes "upload_settings_error (sv_settings sv) = None"
  shows "sound_call sv w (snd (add_image sv k v source name free free' iid nid now w))"
  using assms
proof (cases rule: add_image_effect [of sv k v source name free free' iid nid now w])
  case (Failed e)
  then show ?thesis by (simp add: sound_refl)
next
  case (Added u d row db1 db2 q res)
  let ?d = "d\<lparr>td_images := filter (\<lambda>(n, _). n \<noteq> img_stored_name row) (td_images d) @
      [(img_stored_name row, Regular source)]\<rparr>"
  let ?w = "set_task_dir k ?d (w\<lparr>st_db := db2\<rparr>)"
  have id: "up_id u = k" using get_upload_set [OF Added(2)] by simp
  have db1: "get_upload k' db1 = get_upload k' (st_db w)" for k'
    using Added(13) by (auto simp: insert_image_def split: if_splits)
  have "sound_call sv w ?w"
  proof (rule sound_step)
    show "upload_change sv (st_db w) (st_db ?w)"
      using upload_change.added [OF Added(2,4,6,7,8) _ Added(10,13,14)] Added(3,9)
      by (simp add: set_task_dir_def)
    show "kept_submitted w ?w"
      using flush_upload_other [OF Added(14)] db1 id Added(2,4)
      by (intro kept_submitted_local [of k]) (auto simp: set_task_dir_def)
  qed
  with Added(1) show ?thesis by simp
qed

lemma delete_image_sound: "sound_call sv w (snd (delete_image k iid v now w))"
proof (cases rule: delete_image_effect [of k iid v now w])
  case (Failed e)
  then show ?thesis by (simp add: sound_refl)
next
  case (Deleted u row db2 res d')
  let ?w = "set_task_dir k d' (w\<lparr>st_db := db2\<rparr>)"
  have id: "up_id u = k" using get_upload_set [OF Deleted(2)] by simp
  have "sound_call sv w ?w"
  proof (rule sound_step)
    show "upload_change sv (st_db w) (st_db ?w)"
      using upload_change.deleted [OF Deleted(2,4,5,6,8)] by (simp add: set_task_dir_def)
    show "kept_submitted w ?w"
      using flush_upload_other [OF Deleted(8)] id Deleted(2,4)
      by (intro kept_submitted_local [of k]) (auto simp: set_task_dir_def)
  qed
  with Deleted(1) show ?thesis by simp
qed

lemma mark_cancelled_other:
  assumes "mark_upload_cancelled u reason now db = Inr db'" and "k' \<noteq> up_id u"
  shows "get_upload k' db' = get_upload k' db"
  using assms flush_upload_other
  by (fastforce simp: mark_upload_cancelled_def Let_def split: if_splits option.splits)

lemma mark_cancelled_status:
  assumes "mark_upload_cancelled u reason now db = Inr db'" and "get_upload (up_id u) db = Some u"
  shows "\<exists>u'. get_upload (up_id u) db' = Some u' \<and> up_status u' = Upload_cancelled"
  using assms
  by (auto simp: mark_upload_cancelled_def flush_upload_def Let_def upload_rows.get_put split: if_splits)

lemma mark_cancelled_sound:
  assumes "mark_upload_cancelled u reason now (st_db w) = Inr db'"
    and "get_upload k (st_db w) = Some u" "up_status u = Uploading"
  shows "sound_call sv w (w\<lparr>st_db := db'\<rparr>)"
proof (rule sound_step)
  have id: "up_id u = k" using get_upload_set [OF assms(2)] by simp
  show "upload_change sv (st_db w) (st_db (w\<lparr>st_db := db'\<rparr>))"
    using upload_change.cancelled [OF assms(2,3,1)] by simp
  show "kept_submitted w (w\<lparr>st_db := db'\<rparr>)"
    using mark_cancelled_other [OF assms(1)] id assms(2,3)
    by (intro kept_submitted_local [of k]) auto
qed

lemma remove_cancelled_sound:
  assumes "\<And>u. get_upload k (st_db w) = Some u \<Longrightarrow> up_status u \<noteq> Submitted"
  shows "sound_call sv w (snd (remove_cancelled_storage fails k now w))"
proof (cases "remove_upload_directory fails k w")
  case None
  then show ?thesis by (simp add: remove_cancelled_storage_def sound_refl)
next
  case (Some w1)
  then have w1: "st_db w1 = st_db w" "\<And>k'. k' \<noteq> k \<Longrightarrow> st_paths w1 k' = st_paths w k'"
    by (auto simp: remove_upload_directory_def split: option.splits task_path.splits if_splits)
  have s1: "sound_call sv w w1"
    using w1 assms by (auto simp: sound_call_def intro!: kept_submitted_local [of k])
  show ?thesis
  proof (cases "\<exists>u. get_upload k (st_db w1) = Some u \<and> up_status u = Upload_cancelled \<and> up_storage_cleaned_at u = None")
    case True
    then obtain u where u: "get_upload k (st_db w1) = Some u" "up_status u = Upload_cancelled"
      "up_storage_cleaned_at u = None" by blast
    let ?w = "w1\<lparr>st_db := put_upload (u\<lparr>up_storage_cleaned_at := Some now\<rparr>) (st_db w1)\<rparr>"
    have id: "up_id u = k" using get_upload_set [OF u(1)] by simp
    have "sound_call sv w1 ?w"
    proof (rule sound_step)
      show "upload_change sv (st_db w1) (st_db ?w)" using cleaned [OF u] by simp
      show "kept_submitted w1 ?w"
        using u id by (intro kept_submitted_local [of k]) (auto simp: upload_rows.get_put_other)
    qed
    with s1 Some u show ?thesis by (simp add: remove_cancelled_storage_def sound_trans)
  next
    case False
    with Some s1 show ?thesis by (auto simp: remove_cancelled_storage_def split: option.split)
  qed
qed

lemma cancel_sound: "sound_call sv w (snd (cancel_upload k v fails now w))"
proof -
  have eq: "snd (cancel_upload k v fails now w) = (case db_transaction (cancel_upload_in_session k v now) w of
      (Inl e, w1) \<Rightarrow> w1 | (Inr _, w1) \<Rightarrow> snd (remove_cancelled_storage fails k now w1))"
    by (simp add: cancel_upload_def split: prod.split sum.split)
  show ?thesis
  proof (cases "fst (cancel_upload_in_session k v now w)")
    case (Inl e)
    then have "snd (cancel_upload_in_session k v now w) = w"
      by (auto simp: cancel_upload_in_session_def split: option.splits upload_status.splits sum.splits)
    with Inl have "cancel_upload_in_session k v now w = (Inl e, w)" by (simp add: prod_eq_iff)
    then show ?thesis by (simp add: eq db_transaction_def sound_refl)
  next
    case (Inr x)
    let ?w = "snd (cancel_upload_in_session k v now w)"
    from Inr obtain u where u: "owned_upload k v (st_db w) = Some u"
      by (auto simp: cancel_upload_in_session_def split: option.splits)
    note d = owned_upload_SomeD [OF u]
    have "sound_call sv w ?w \<and> (\<exists>u'. get_upload k (st_db ?w) = Some u' \<and> up_status u' \<noteq> Submitted)"
    proof (cases "up_status u")
      case Uploading
      with Inr u obtain db' where m: "mark_upload_cancelled u ''user'' now (st_db w) = Inr db'"
        "?w = w\<lparr>st_db := db'\<rparr>"
        by (auto simp: cancel_upload_in_session_def split: sum.splits)
      with mark_cancelled_sound [OF m(1)] mark_cancelled_status [OF m(1)] d Uploading show ?thesis by auto
    next
      case Submitted
      with Inr u show ?thesis by (simp add: cancel_upload_in_session_def)
    next
      case Upload_cancelled
      with u d show ?thesis by (simp add: cancel_upload_in_session_def sound_refl)
    qed
    moreover have "snd (cancel_upload k v fails now w) = snd (remove_cancelled_storage fails k now ?w)"
      using Inr by (cases "cancel_upload_in_session k v now w") (simp add: eq db_transaction_def)
    ultimately show ?thesis using remove_cancelled_sound [of k ?w sv fails now] sound_trans by fastforce
  qed
qed

lemma cleanup_one_sound:
  assumes "cleanup_one fails cutoff now k (r, w) = Inr (r', w')"
  shows "sound_call sv w w'"
proof (cases "get_upload k (st_db w)")
  case None
  with assms show ?thesis by (simp add: cleanup_one_def sound_refl)
next
  case (Some u)
  have id: "up_id u = k" using get_upload_set [OF Some] by simp
  show ?thesis
  proof (cases "cleanup_candidate cutoff u")
    case False
    with assms Some show ?thesis by (simp add: cleanup_one_def sound_refl)
  next
    case cand: True
    show ?thesis
    proof (cases "up_status u = Uploading")
      case True
      with assms Some cand obtain db' where m: "mark_upload_cancelled u ''expired'' now (st_db w) = Inr db'"
        "w' = snd (remove_cancelled_storage (fails k) k now (w\<lparr>st_db := db'\<rparr>))"
        by (cases "mark_upload_cancelled u ''expired'' now (st_db w)")
          (auto simp: cleanup_one_def Let_def split: prod.splits)
      have "sound_call sv (w\<lparr>st_db := db'\<rparr>) w'"
        unfolding m(2) using mark_cancelled_status [OF m(1)] id Some
        by (intro remove_cancelled_sound) auto
      with mark_cancelled_sound [OF m(1) Some True] show ?thesis by (rule sound_trans)
    next
      case False
      with cand have "up_status u = Upload_cancelled" by (auto simp: cleanup_candidate_def)
      moreover have "w' = snd (remove_cancelled_storage (fails k) k now w)"
        using assms Some cand False by (auto simp: cleanup_one_def Let_def split: prod.splits)
      ultimately show ?thesis using Some by (auto intro!: remove_cancelled_sound)
    qed
  qed
qed

lemma cleanup_all_sound: "sound_call sv (snd rw) (snd (cleanup_all fails cutoff now ks rw))"
proof (induction ks arbitrary: rw)
  case (Cons k ks)
  obtain r w where rw: "rw = (r, w)" by (cases rw)
  show ?case
  proof (cases "cleanup_one fails cutoff now k rw")
    case (Inr rw')
    obtain r' w' where rw': "rw' = (r', w')" by (cases rw')
    have "sound_call sv w w'" by (rule cleanup_one_sound) (use Inr rw rw' in simp)
    with Cons [of rw'] Inr rw rw' show ?thesis by (auto intro: sound_trans)
  qed (simp add: sound_refl)
qed (simp add: sound_refl)

lemma cleanup_sound: "sound_call sv w (snd (cleanup_stale s fails hrs limit current now w))"
  using cleanup_all_sound [of sv "(r, w)" for r] by (auto simp: cleanup_stale_def Let_def sound_refl)

lemma submit_sound: "sound_call sv w (snd (submit sv k v mode free rid cre ev now w))"
proof (cases rule: submit_effect [of sv k v mode free rid cre ev now w])
  case (Failed e w')
  have "kept_submitted w w'"
  proof (cases "w' = w")
    case False
    with Failed(2,3) show ?thesis
      by (intro kept_submitted_local [of k]) (auto simp: submit_files_def)
  qed (simp add: kept_submitted_refl)
  with Failed show ?thesis by (simp add: sound_call_def submit_files_def)
next
  case (Again u j)
  then show ?thesis by (simp add: sound_refl)
next
  case (Queued u d manifest db1 db2 res)
  note u = owned_upload_SomeD [OF Queued(2)]
  let ?w = "snd (submit sv k v mode free rid cre ev now w)"
  have checks: "us_min_images (sv_settings sv) \<le> up_image_count u"
    "enforce_submission (sv_submission sv) (up_user_id u) now (st_db w) = Inr ()"
    "\<exists>q. enforce_quota (sv_quota sv) (up_user_id u) (qs_job_reservation_bytes (sv_quota sv)) (up_total_bytes u) (st_db w) = Inr q"
    using Queued(5) by (auto simp: submit_checks_def Let_def split: option.splits sum.splits if_splits)
  then obtain q where q: "enforce_quota (sv_quota sv) (up_user_id u) (qs_job_reservation_bytes (sv_quota sv))
      (up_total_bytes u) (st_db w) = Inr q" by blast
  have db1: "get_upload k' db1 = get_upload k' (st_db w)" for k'
    using Queued(6) by (auto simp: enqueue_in_session_def insert_job_def get_upload_def split: option.splits if_splits)
  show ?thesis
  proof (rule sound_step)
    show "upload_change sv (st_db w) (st_db ?w)"
      using submitted [OF conjunct1 [OF u] Queued(3) checks(1,2) q Queued(6,7)]
      by (simp add: Queued(1) set_task_dir_def)
    show "kept_submitted w ?w"
      using flush_upload_other [OF Queued(7)] u Queued(3) db1
      by (intro kept_submitted_local [of k]) (auto simp: Queued(1) set_task_dir_def)
  qed
qed

lemma run_upload_sound:
  assumes "upload_settings_error (sv_settings sv) = None"
  shows "sound_call sv w (run_upload sv call w)"
  by (cases call) (simp_all add: create_sound add_image_sound [OF assms] delete_image_sound cancel_sound
      cleanup_sound submit_sound)

section \<open>The transition system\<close>

definition upload_service_inv :: "upload_service \<Rightarrow> storage \<Rightarrow> bool" where
  "upload_service_inv sv w \<longleftrightarrow>
     upload_settings_error (sv_settings sv) = None \<and> upload_db_inv sv (st_db w)"

definition upload_initial :: "upload_service \<Rightarrow> storage \<Rightarrow> bool" where
  "upload_initial sv w \<longleftrightarrow>
     upload_settings_error (sv_settings sv) = None \<and> quota_settings_error (sv_quota sv) = None \<and>
     db_uploads (st_db w) = [] \<and> db_upload_images (st_db w) = [] \<and> db_jobs (st_db w) = []"

lemma upload_changes_inv:
  assumes "(upload_change sv)\<^sup>*\<^sup>* db db'" and "upload_settings_error (sv_settings sv) = None"
    and "upload_db_inv sv db"
  shows "upload_db_inv sv db'"
  using assms(1,3) by (induction rule: rtranclp_induct) (auto intro: upload_change_inv [OF _ assms(2)])

lemma upload_step_sound:
  assumes "upload_step sv w w'" "upload_settings_error (sv_settings sv) = None"
  shows "sound_call sv w w'"
  using assms run_upload_sound by (auto simp: upload_step_def)

interpretation uploads: history_system "upload_initial sv" "upload_step sv" "upload_service_inv sv" kept_submitted
  for sv
proof
  show "upload_service_inv sv w" if "upload_initial sv w" for w
    using that
    by (auto simp: upload_service_inv_def upload_initial_def upload_db_inv_def used_bytes_weights
        quota_settings_error_def split: if_splits)
  show "upload_service_inv sv w'" if "upload_step sv w w'" "upload_service_inv sv w" for w w'
    using that upload_step_sound [OF that(1)] upload_changes_inv
    by (auto simp: upload_service_inv_def sound_call_def)
  show "kept_submitted w w" for w by (rule kept_submitted_refl)
  show "kept_submitted a c" if "kept_submitted a b" "kept_submitted b c" for a b c
    using that by (rule kept_submitted_trans)
  show "kept_submitted w w'" if "upload_step sv w w'" "upload_service_inv sv w" for w w'
    using upload_step_sound [OF that(1)] that(2) by (auto simp: upload_service_inv_def sound_call_def)
qed

lemma run_uploads_steps: "(upload_step sv)\<^sup>*\<^sup>* w (run_uploads sv calls w)"
proof (induction calls arbitrary: w)
  case (Cons call calls)
  have "upload_step sv w (run_upload sv call w)" by (auto simp: upload_step_def)
  with Cons show ?case by (simp add: run_uploads_def converse_rtranclp_into_rtranclp)
qed (simp add: run_uploads_def)

section \<open>A concrete service\<close>

text \<open>A service with the default settings, and an upload of three one-byte files, open or submitted.\<close>

definition demo_sha256 :: "string \<Rightarrow> string" where
  "demo_sha256 s = replicate 63 (CHR ''a'') @
     (case s of [] \<Rightarrow> ''0'' | c # _ \<Rightarrow> if is_hex c then [c] else ''0'')"

definition demo_service :: upload_service where
  "demo_service =
     \<lparr>sv_settings = default_upload_settings, sv_quota = default_quota_settings,
      sv_submission = default_submission_settings, sv_baseline_tag = ''v1'',
      sv_baseline_commit = replicate 40 (CHR ''c''), sv_baseline_config_sha256 = replicate 64 (CHR ''b''),
      sv_baseline_branches = JObject [], sv_sha256 = demo_sha256,
      sv_json_sha256 = (\<lambda>_. replicate 64 (CHR ''d'')),
      sv_probe = (\<lambda>_. Some \<lparr>ip_format = ''PNG'', ip_width = 2, ip_height = 2, ip_frames = 1,
        ip_decodes = True\<rparr>),
      sv_normalize = id, sv_contract_ok = (\<lambda>_. True)\<rparr>"

definition demo_upload :: "upload_status \<Rightarrow> job_upload" where
  "demo_upload s =
     \<lparr>up_id = 7, up_user_id = 1, up_status = s, up_idempotency_key = ''k'', up_image_count = 3,
      up_total_bytes = 3, up_created_at = 0, up_updated_at = 0, up_submitted_at = None,
      up_cancelled_at = None, up_cancellation_reason = None, up_storage_cleaned_at = None\<rparr>"

definition demo_image :: "nat \<Rightarrow> char \<Rightarrow> job_upload_image" where
  "demo_image n c =
     \<lparr>img_id = n, img_upload_id = 7, img_sequence = int n, img_stored_name = c # ''.png'',
      img_original_name = ''view.png'', img_content_type = ''image/png'', img_size_bytes = 1,
      img_sha256 = demo_sha256 [c], img_width = 2, img_height = 2, img_created_at = 0\<rparr>"

definition demo_images :: "job_upload_image list" where
  "demo_images = [demo_image 0 (CHR ''a''), demo_image 1 (CHR ''b''), demo_image 2 (CHR ''c'')]"

definition demo_dir :: task_dir where
  "demo_dir = empty_task_dir\<lparr>td_images :=
     [(''a.png'', Regular ''a''), (''b.png'', Regular ''b''), (''c.png'', Regular ''c'')]\<rparr>"

definition demo_uploads :: "upload_status \<Rightarrow> storage" where
  "demo_uploads s =
     \<lparr>st_db = demo_init\<lparr>db_uploads := [demo_upload s], db_upload_images := demo_images\<rparr>,
      st_paths = [7 \<mapsto> Task_dir demo_dir]\<rparr>"

lemma demo_service_fields [simp]:
  "sv_settings demo_service = default_upload_settings" "sv_quota demo_service = default_quota_settings"
  "sv_submission demo_service = default_submission_settings" "sv_sha256 demo_service = demo_sha256"
  "sv_baseline_commit demo_service = replicate 40 (CHR ''c'')"
  "sv_baseline_config_sha256 demo_service = replicate 64 (CHR ''b'')"
  "sv_json_sha256 demo_service m = replicate 64 (CHR ''d'')" "sv_contract_ok demo_service m"
  by (simp_all add: demo_service_def)

lemma demo_settings_ok [simp]:
  "upload_settings_error default_upload_settings = None" "quota_settings_error default_quota_settings = None"
  by (simp_all add: upload_settings_error_def default_upload_settings_def quota_settings_error_def
      default_quota_settings_def)

lemma demo_upload_fields [simp]:
  "up_id (demo_upload s) = 7" "up_user_id (demo_upload s) = 1" "up_status (demo_upload s) = s"
  "up_image_count (demo_upload s) = 3" "up_total_bytes (demo_upload s) = 3"
  "up_storage_cleaned_at (demo_upload s) = None" "up_cancelled_at (demo_upload s) = None"
  "up_cancellation_reason (demo_upload s) = None"
  by (simp_all add: demo_upload_def)

lemma demo_image_fields [simp]:
  "img_id (demo_image n c) = n" "img_upload_id (demo_image n c) = 7" "img_sequence (demo_image n c) = int n"
  "img_stored_name (demo_image n c) = c # ''.png''" "img_size_bytes (demo_image n c) = 1"
  "img_sha256 (demo_image n c) = demo_sha256 [c]" "img_width (demo_image n c) = 2"
  "img_height (demo_image n c) = 2"
  by (simp_all add: demo_image_def)

lemma demo_uploads_tables [simp]:
  "db_uploads (st_db (demo_uploads s)) = [demo_upload s]" "db_upload_images (st_db (demo_uploads s)) = demo_images"
  "db_jobs (st_db (demo_uploads s)) = []" "get_upload 7 (st_db (demo_uploads s)) = Some (demo_upload s)"
  "get_user 1 (st_db (demo_uploads s)) = Some demo_user" "task_layout 7 (demo_uploads s) = Some demo_dir"
  "upload_images 7 (st_db (demo_uploads s)) = demo_images"
  by (simp_all add: demo_uploads_def get_upload_def get_user_def task_layout_def upload_images_def demo_images_def)

lemma demo_used_bytes: "used_bytes v (st_db (demo_uploads s)) = (if v = 1 \<and> s \<noteq> Submitted then 3 else 0)"
  by (simp add: used_bytes_weights upload_weight_def)

lemma demo_images_facts:
  "distinct (map img_id demo_images)" "length demo_images = 3" "sum_sizes demo_images = 3"
  "\<forall>i \<in> set demo_images. img_upload_id i = 7 \<and> image_consistent demo_service i"
  "sort_key img_sequence demo_images = demo_images"
  by (simp_all add: demo_images_def sum_sizes_def image_consistent_def job_upload_image_row_ok_def
      default_upload_settings_def)

lemma demo_uploads_inv: "s \<noteq> Upload_cancelled \<Longrightarrow> upload_service_inv demo_service (demo_uploads s)"
  using demo_images_facts
  by (simp add: upload_service_inv_def upload_db_inv_def upload_consistent_def job_upload_row_ok_def
      demo_used_bytes, simp add: default_upload_settings_def default_quota_settings_def)

lemma demo_manifest:
  "\<exists>m. build_manifest demo_service demo_dir demo_images 3 = Inr m"
  by (simp add: build_manifest_def demo_dir_def empty_task_dir_def demo_images_def)

lemma demo_submit:
  "\<exists>snapshot w'. submit demo_service 7 1 ''real'' None 9 ''t'' 11 100 (demo_uploads Uploading) = (Inr snapshot, w')"
proof -
  let ?w = "demo_uploads Uploading"
  obtain m where m: "build_manifest demo_service demo_dir demo_images 3 = Inr m" using demo_manifest by blast
  have "submit_checks demo_service (demo_upload Uploading) None 100 ?w = Inr (demo_dir, m)"
    using m by (simp add: submit_checks_def storage_capacity_error_def default_upload_settings_def demo_images_facts
        enforce_submission_def enforce_quota_def demo_used_bytes pending_jobs_def submissions_since_def
        default_submission_settings_def default_quota_settings_def
        del: One_nat_def)
  moreover let ?q = "submit_request demo_service (demo_upload Uploading) ''real'' (replicate 64 (CHR ''d''))"
  have key: "valid_sha256 (queue_key demo_service 7)"
    by (simp add: valid_sha256_def hex_string_def queue_key_def demo_sha256_def char_class_defs list_all_iff)
  have "enqueue_in_session ?q 100 (st_db ?w) =
      (Inr (), (st_db ?w)\<lparr>db_jobs := [queued_job ?q 100]\<rparr>)"
    using key by (simp add: enqueue_in_session_def enqueue_invalid_def submit_request_def valid_sha256_def
        hex_string_def list_all_iff char_class_defs insert_job_def queued_job_def default_quota_settings_def
        reconstruction_job_row_ok_def del: One_nat_def)
  moreover have job_row: "get_job 7 ((st_db ?w)\<lparr>db_jobs := [queued_job ?q 100]\<rparr>) = Some (queued_job ?q 100)"
      "job_user_id (queued_job ?q 100) = 1"
    by (simp_all add: get_job_def queued_job_def submit_request_def)
  ultimately show ?thesis
    by (simp add: submit_def db_transaction_def submit_in_session_def owned_upload_def queue_upload_def Let_def
        flush_upload_def set_task_dir_def query_job_def owned_job_def job_upload_row_ok_def
        del: One_nat_def)
qed

section \<open>Properties\<close>

text \<open>
  C9. However uploads are created, filled, emptied, cancelled, expired and submitted, no user ever
  uses more storage than the quota, and the counters of every upload are those of its images, within
  the limits of the settings.
\<close>

theorem uploads_stay_within_limits:
  assumes "upload_initial sv w0" and "w = run_uploads sv calls w0"
  shows "used_bytes v (st_db w) \<le> qs_quota_bytes (sv_quota sv) \<and>
    (\<forall>u \<in> set (db_uploads (st_db w)).
      up_image_count u = int (length (upload_images (up_id u) (st_db w))) \<and>
      up_image_count u \<le> us_max_images (sv_settings sv) \<and>
      up_total_bytes u \<le> us_max_total_bytes (sv_settings sv) \<and>
      (up_status u \<noteq> Upload_cancelled \<longrightarrow>
         up_total_bytes u = sum_sizes (upload_images (up_id u) (st_db w))))"
proof -
  have "upload_service_inv sv w"
    unfolding assms(2) by (rule uploads.reachable_inv [OF assms(1) run_uploads_steps])
  then have bytes: "used_bytes v (st_db w) \<le> qs_quota_bytes (sv_quota sv)"
    and rows: "\<And>u. u \<in> set (db_uploads (st_db w)) \<Longrightarrow> upload_consistent sv (st_db w) u"
    by (auto simp: upload_service_inv_def upload_db_inv_def)
  then show ?thesis unfolding upload_consistent_def by blast
qed

definition demo_calls :: "upload_call list" where
  "demo_calls = [Create 1 ''token-001'' 7 None 0, Add_image 7 1 ''a'' None None None 0 5 1,
     Delete_image 7 0 1 2, Cancel 7 1 False 3]"

theorem uploads_stay_within_limits_witness:
  "used_bytes 1 (st_db (run_uploads demo_service demo_calls \<lparr>st_db = demo_init, st_paths = (\<lambda>_. None)\<rparr>))
     \<le> 10 * 1024 ^ 3"
proof -
  have "upload_initial demo_service \<lparr>st_db = demo_init, st_paths = (\<lambda>_. None)\<rparr>"
    by (simp add: upload_initial_def)
  from uploads_stay_within_limits [OF this refl, of 1 demo_calls] show ?thesis
    by (simp add: default_quota_settings_def)
qed

text \<open>
  A submitted upload is immutable: no call of the service, in any run, changes its row or any
  file of its directory; in particular no cancellation or expiry removes it.
\<close>

theorem submitted_upload_is_immutable:
  assumes "upload_service_inv sv w" and "get_upload k (st_db w) = Some u" and "up_status u = Submitted"
  shows "get_upload k (st_db (run_uploads sv calls w)) = Some u \<and>
    st_paths (run_uploads sv calls w) k = st_paths w k"
  using uploads.steps_later [OF run_uploads_steps assms(1)] assms(2,3) by (simp add: kept_submitted_def)

theorem submitted_upload_is_immutable_witness:
  "get_upload 7 (st_db (run_uploads demo_service demo_calls (demo_uploads Submitted))) =
     Some (demo_upload Submitted)"
  using submitted_upload_is_immutable [OF demo_uploads_inv, of Submitted 7 "demo_upload Submitted"] by simp

text \<open>
  C10. A successful submission queues the job of the upload once: the job is queued for its owner with
  the storage reservation, the limits on pending and recent jobs hold afterwards, and any further
  submission in the same mode returns the same answer and changes nothing.
\<close>

theorem submission_queues_once:
  assumes "submit sv k v mode free rid cre ev now w = (Inr snapshot, w')"
    and "get_upload k (st_db w) = Some u" and "up_status u = Uploading"
  shows "\<exists>j u'. get_job k (st_db w') = Some j \<and> snapshot = job_snapshot j \<and> job_status j = QUEUED \<and>
    job_user_id j = v \<and> job_execution_mode j = mode \<and>
    job_storage_reserved_bytes j = qs_job_reservation_bytes (sv_quota sv) \<and>
    get_upload k (st_db w') = Some u' \<and> up_status u' = Submitted \<and>
    int (length (pending_jobs v (st_db w'))) \<le> sub_max_pending_jobs (sv_submission sv) \<and>
    int (length (submissions_since v (now - hours 24) (st_db w'))) \<le>
      sub_max_submissions_per_24h (sv_submission sv) \<and>
    submit sv k v mode free' rid' cre' ev' now' w' = (Inr snapshot, w')"
proof (cases rule: submit_effect [of sv k v mode free rid cre ev now w])
  case (Failed e w'')
  with assms(1) show ?thesis by simp
next
  case (Again u0 j)
  with assms(2,3) owned_upload_SomeD [OF Again(2)] show ?thesis by simp
next
  case (Queued u0 d manifest db1 db2 res)
  note own = owned_upload_SomeD [OF Queued(2)]
  have u0: "u0 = u" using own assms(2) by simp
  let ?j = "queued_job (submit_request sv u mode (sv_json_sha256 sv manifest)) now"
  let ?u = "u\<lparr>up_status := Submitted, up_submitted_at := Some now, up_updated_at := now\<rparr>"
  have ins: "insert_job ?j (st_db w) = Some db1"
    using Queued(6) u0 by (auto simp: enqueue_in_session_def split: option.splits)
  have jf: "job_id ?j = k" "job_user_id ?j = v" "job_status ?j = QUEUED" "job_execution_mode ?j = mode"
    "job_storage_reserved_bytes ?j = qs_job_reservation_bytes (sv_quota sv)" "job_created_at ?j = now"
    using own u0 by (simp_all add: queued_job_def submit_request_def)
  have db1: "db1 = (st_db w)\<lparr>db_jobs := db_jobs (st_db w) @ [?j]\<rparr>" and "k \<notin> job_id ` set (db_jobs (st_db w))"
    using ins jf(1) by (auto simp: insert_job_def split: if_splits)
  then have gone: "find_row job_id k (db_jobs (st_db w)) = None" by (simp add: find_row_None_iff)
  have db2: "db2 = put_upload ?u (add_task_event (task_event ''job_submitted'' v k mode None ev now) db1)"
    using Queued(7) u0 by (auto simp: flush_upload_def split: if_splits)
  have jobs: "db_jobs db2 = db_jobs (st_db w) @ [?j]" by (simp add: db2 db1)
  have j: "get_job k db2 = Some ?j" by (simp add: get_job_def jobs gone jf(1))
  have "get_upload k db1 = Some u" using assms(2) by (simp add: db1 get_upload_def)
  then have gu: "get_upload k db2 = Some ?u" using own u0 by (simp add: db2 upload_rows.get_put)
  have w': "st_db w' = db2" and snap: "snapshot = job_snapshot ?j"
    using assms(1) Queued(1,8) j jf(2) by (auto simp: set_task_dir_def query_job_def owned_job_def)
  have checks: "enforce_submission (sv_submission sv) v now (st_db w) = Inr ()"
    using Queued(5) own u0 by (auto simp: submit_checks_def Let_def split: option.splits sum.splits if_splits)
  have "int (length (pending_jobs v db2)) \<le> sub_max_pending_jobs (sv_submission sv)"
    using enforce_submission_Inr(1) [OF checks] jf by (simp add: pending_jobs_def jobs)
  moreover have "int (length (submissions_since v (now - hours 24) db2)) \<le>
      sub_max_submissions_per_24h (sv_submission sv)"
    using enforce_submission_Inr(2) [OF checks] jf by (simp add: submissions_since_def jobs)
  moreover have "submit sv k v mode free' rid' cre' ev' now' w' = (Inr snapshot, w')"
  proof -
    have "owned_upload k v (st_db w') = Some ?u" using gu own u0 by (simp add: owned_upload_def w')
    then have "submit_in_session sv k v mode free' rid' cre' ev' now' w' = (Inr (Some (job_snapshot ?j)), w')"
      using j jf own u0 by (simp add: submit_in_session_def w')
    with Queued(4) snap show ?thesis unfolding submit_def by (auto simp: db_transaction_def)
  qed
  ultimately show ?thesis using j gu jf snap w' by (intro exI [of _ ?j] exI [of _ ?u]) simp
qed

theorem submission_queues_once_witness:
  "\<exists>snapshot w'. submit demo_service 7 1 ''real'' None 9 ''t'' 11 100 (demo_uploads Uploading) = (Inr snapshot, w') \<and>
     submit demo_service 7 1 ''real'' None 12 ''u'' 13 200 w' = (Inr snapshot, w')"
proof -
  obtain snapshot w' where
    run: "submit demo_service 7 1 ''real'' None 9 ''t'' 11 100 (demo_uploads Uploading) = (Inr snapshot, w')"
    using demo_submit by blast
  have "submit demo_service 7 1 ''real'' None 12 ''u'' 13 200 w' = (Inr snapshot, w')"
    using submission_queues_once [OF run, of "demo_upload Uploading" None 12 "''u''" 13 200]
    by (simp del: One_nat_def) blast
  with run show ?thesis by blast
qed

text \<open>
  The manifest of a submission is exact: it lists the images in their order with the recorded
  fields, the image directory holds these files and no other, every file still has the recorded size
  and hash, and the sizes add up to the upload's total.
\<close>

theorem manifest_matches_files:
  assumes "build_manifest sv d images n0 = Inr manifest"
  shows "json_field ''images'' manifest = Some (JList (map manifest_record images)) \<and>
    set (map fst (td_images d)) = set (map img_stored_name images) \<and> sum_sizes images = n0 \<and>
    (\<forall>i \<in> set images. \<exists>content. map_of (td_images d) (img_stored_name i) = Some (Regular content) \<and>
       int (length content) = img_size_bytes i \<and> sv_sha256 sv content = img_sha256 i)"
proof -
  have records: "rs = map manifest_record is \<and> n = m + sum_sizes is \<and>
      (\<forall>i \<in> set is. \<exists>content. map_of (td_images d) (img_stored_name i) = Some (Regular content) \<and>
         int (length content) = img_size_bytes i \<and> sv_sha256 sv content = img_sha256 i)"
    if "manifest_records sv d is m = Inr (n, rs)" for "is" m n rs
    using that
  proof (induction "is" arbitrary: m n rs)
    case (Cons i "is")
    from Cons.prems obtain content rs' where c: "map_of (td_images d) (img_stored_name i) = Some (Regular content)"
      "int (length content) = img_size_bytes i" "sv_sha256 sv content = img_sha256 i"
      "manifest_records sv d is (m + int (length content)) = Inr (n, rs')" "rs = manifest_record i # rs'"
      by (auto split: option.splits dir_entry.splits if_splits sum.splits)
    from Cons.IH [OF c(4)] c show ?case by (simp add: sum_sizes_def)
  qed (simp add: sum_sizes_def)
  from assms obtain rs where m: "manifest_records sv d images 0 = Inr (n0, rs)"
    and sorted: "sort (map fst (td_images d)) = sort (map img_stored_name images)"
    and manifest: "manifest = JObject [(''schema_version'', JString ''1.0''), (''source'', JString ''user_upload''),
      (''simulation'', JBool False), (''images'', JList rs)]"
    by (auto simp: build_manifest_def split: if_splits sum.splits prod.splits)
  have "set (map fst (td_images d)) = set (map img_stored_name images)" by (metis set_sort sorted)
  with records [OF m] manifest show ?thesis by (simp add: json_field_def)
qed

theorem manifest_matches_files_witness:
  "\<exists>manifest. build_manifest demo_service demo_dir demo_images 3 = Inr manifest \<and>
     json_field ''images'' manifest = Some (JList (map manifest_record demo_images))"
  using demo_manifest manifest_matches_files by blast

text \<open>
  The chunked copy accepts exactly the files that are not empty and not larger than the limit, and
  returns the size and the digest of the whole file.
\<close>

theorem copy_limited_accepts_whole_files:
  assumes "upload_settings_error (sv_settings sv) = None"
  shows "copy_limited sv source = Inr (n, digest) \<longleftrightarrow>
    source \<noteq> [] \<and> int (length source) \<le> us_max_file_bytes (sv_settings sv) \<and>
    n = int (length source) \<and> digest = sv_sha256 sv source"
  by (auto simp: copy_limited_eq [OF assms])

theorem copy_limited_accepts_whole_files_witness:
  "copy_limited demo_service ''abc'' = Inr (3, demo_sha256 ''abc'')"
  using copy_limited_accepts_whole_files [of demo_service "''abc''" 3 "demo_sha256 ''abc''"]
  by (simp, simp add: default_upload_settings_def)

text \<open>
  The name kept of an uploaded file is safe to show and to store whatever the client sent: never
  empty, at most 255 characters, without path separators and control characters.
\<close>

theorem display_name_is_safe:
  assumes "extension = ''.jpg'' \<or> extension = ''.png''"
  shows "safe_display_name sv value extension \<noteq> [] \<and> length (safe_display_name sv value extension) \<le> 255 \<and>
    (\<forall>c \<in> set (safe_display_name sv value extension).
      c \<noteq> CHR ''/'' \<and> c \<noteq> CHR 0x5C \<and> 32 \<le> code_point c)"
proof -
  define slashed where "slashed = map (\<lambda>c. if c = CHR 0x5C then CHR ''/'' else c)
      (sv_normalize sv (case value of None \<Rightarrow> [] | Some v \<Rightarrow> v))"
  define basename where "basename = rev (takeWhile (\<lambda>c. c \<noteq> CHR ''/'') (rev slashed))"
  define cleaned where "cleaned = strip_by (\<lambda>c. c \<in> {CHR '' '', CHR ''.''}) (filter (\<lambda>c. 32 \<le> code_point c) basename)"
  have name: "safe_display_name sv value extension = take 255 (if cleaned = [] then ''image'' @ extension else cleaned)"
    by (simp add: safe_display_name_def Let_def slashed_def basename_def cleaned_def)
  have sub: "set cleaned \<subseteq> set (filter (\<lambda>c. 32 \<le> code_point c) basename)"
    by (auto simp: cleaned_def strip_by_def dest!: set_dropWhileD)
  have base: "c \<noteq> CHR ''/'' \<and> c \<noteq> CHR 0x5C" if "c \<in> set basename" for c
    using that by (auto simp: basename_def slashed_def dest!: set_takeWhileD)
  define full where "full = (if cleaned = [] then ''image'' @ extension else cleaned)"
  have "c \<noteq> CHR ''/'' \<and> c \<noteq> CHR 0x5C \<and> 32 \<le> code_point c" if "c \<in> set cleaned" for c
    using that sub base by auto
  moreover have "\<forall>c \<in> set (''image'' @ extension). c \<noteq> CHR ''/'' \<and> c \<noteq> CHR 0x5C \<and> 32 \<le> code_point c"
    using assms by (auto simp: code_point_def)
  ultimately have "\<forall>c \<in> set full. c \<noteq> CHR ''/'' \<and> c \<noteq> CHR 0x5C \<and> 32 \<le> code_point c"
    by (simp add: full_def)
  moreover have "full \<noteq> []" by (simp add: full_def)
  ultimately show ?thesis unfolding name full_def [symmetric] by (auto dest: in_set_takeD)
qed

theorem display_name_is_safe_witness:
  "safe_display_name demo_service (Some ''../..'') ''.png'' \<noteq> []"
  using display_name_is_safe [of "''.png''" demo_service "Some ''../..''"] by simp

text \<open>
  A refusal for the number of submissions in 24 hours says when to come back: it names between one
  second and a day, and once more than that has passed, with nothing submitted in between, the user is
  not refused for this reason again.
\<close>

theorem submission_refusal_names_release:
  assumes "submission_settings_error s = None"
    and "enforce_submission s v now db = Inl (Submission_window_limit r)"
    and "now + seconds r < t" and "\<forall>j \<in> set (db_jobs db). job_created_at j \<le> now"
  shows "1 \<le> r \<and> r \<le> 24 * 3600 \<and>
    enforce_submission s v t db \<noteq> Inl (Submission_window_limit r')"
proof -
  obtain rel rest where rel: "drop (nat (int (length (submissions_since v (now - hours 24) db)) - sub_max_submissions_per_24h s))
      (sort_key submission_order (submissions_since v (now - hours 24) db)) = rel # rest"
    and r: "r = max 1 (ceil_total_seconds (job_created_at rel + hours 24 - now))"
    using assms(2) by (auto simp: enforce_submission_def Let_def split: if_splits list.splits)
  have "rel \<in> set (submissions_since v (now - hours 24) db)"
    using rel by (metis in_set_dropD list.set_intros(1) set_sort)
  then have us: "0 \<le> job_created_at rel + hours 24 - now" "job_created_at rel + hours 24 - now \<le> hours 24"
    using assms(4) by (simp_all add: submissions_since_def)
  have "ceil_total_seconds (job_created_at rel + hours 24 - now) \<le> 24 * 3600"
  proof (cases "job_created_at rel + hours 24 - now = 0")
    case True
    show ?thesis unfolding True by (simp add: ceil_total_seconds_def total_seconds_def double_of_def)
  next
    case False
    with us ceil_total_seconds_bounds(2) [of "job_created_at rel + hours 24 - now"] show ?thesis by simp
  qed
  with submission_retry [OF assms] r show ?thesis
    by (auto simp: enforce_submission_def Let_def split: if_splits list.splits)
qed

definition demo_finished_job :: reconstruction_job where
  "demo_finished_job =
     queued_job (submit_request demo_service (demo_upload Uploading) ''real'' []) 0\<lparr>job_status := SUCCEEDED\<rparr>"

definition demo_one_a_day :: submission_settings where
  "demo_one_a_day = \<lparr>sub_max_pending_jobs = 1, sub_max_submissions_per_24h = 1\<rparr>"

lemma demo_one_a_day_refused:
  "enforce_submission demo_one_a_day 1 (hours 23) (demo_init\<lparr>db_jobs := [demo_finished_job]\<rparr>) =
     Inl (Submission_window_limit 3600)"
proof -
  have "job_user_id demo_finished_job = 1" "job_created_at demo_finished_job = 0"
    "job_status demo_finished_job = SUCCEEDED"
    by (simp_all add: demo_finished_job_def queued_job_def submit_request_def)
  moreover have "ceil_total_seconds (hours 1) = 3600"
    by (subst ceil_total_seconds_exact) simp_all
  ultimately show ?thesis
    by (simp add: enforce_submission_def demo_one_a_day_def pending_jobs_def submissions_since_def
        terminal_statuses_def get_user_def del: One_nat_def)
qed

theorem submission_refusal_names_release_witness:
  "enforce_submission demo_one_a_day 1 (hours 25) (demo_init\<lparr>db_jobs := [demo_finished_job]\<rparr>) \<noteq>
     Inl (Submission_window_limit 3600)"
  using submission_refusal_names_release [OF _ demo_one_a_day_refused, of "hours 25" 3600]
  by (simp add: submission_settings_error_def demo_one_a_day_def demo_finished_job_def queued_job_def)

text \<open>
  The bound is strict: exactly after the reported time the window still counts the oldest submission,
  because its lower end is inclusive.
\<close>

lemma submission_refused_at_release_time:
  "enforce_submission demo_one_a_day 1 (hours 23 + seconds 3600) (demo_init\<lparr>db_jobs := [demo_finished_job]\<rparr>) =
     Inl (Submission_window_limit 1)"
proof -
  have "job_user_id demo_finished_job = 1" "job_created_at demo_finished_job = 0"
    "job_status demo_finished_job = SUCCEEDED"
    by (simp_all add: demo_finished_job_def queued_job_def submit_request_def)
  then show ?thesis
    by (simp add: enforce_submission_def demo_one_a_day_def pending_jobs_def submissions_since_def
        terminal_statuses_def get_user_def ceil_total_seconds_def total_seconds_def del: One_nat_def)
qed

end
