(* ===== verification/Auth_Security.thy ===== *)
theory Auth_Security
  imports Models Text "HOL-Library.List_Lexorder" "HOL-Library.Char_ord"
begin

text \<open>
  The settings of \<^verbatim>\<open>backend/auth/settings.py\<close>, the request context, and the attempt limits and
  audit rows of \<^verbatim>\<open>backend/auth/security.py\<close>. The primitives the service calls (HMAC-SHA256, SHA-256,
  password hashing, the email validator, JWT, the parser of networks) are fields of the record
  \<open>auth_service\<close>. A bucket is created when its key is not found; transactions are serial, so the
  branch for a concurrent insertion is the branch that finds the row.
\<close>

section \<open>Settings\<close>

record auth_settings =
  as_jwt_secret :: string
  as_access_token_ttl_minutes :: int
  as_refresh_token_ttl_days :: int
  as_jwt_issuer :: string
  as_jwt_audience :: string
  as_refresh_cookie_name :: string
  as_cookie_secure :: bool
  as_login_window_minutes :: int
  as_login_account_max_failures :: int
  as_login_ip_max_failures :: int
  as_login_block_minutes :: int
  as_registration_window_minutes :: int
  as_registration_identity_max_attempts :: int
  as_registration_ip_max_attempts :: int
  as_registration_block_minutes :: int
  as_action_request_window_minutes :: int
  as_action_request_identity_max_attempts :: int
  as_action_request_ip_max_attempts :: int
  as_action_request_block_minutes :: int
  as_email_verification_ttl_hours :: int
  as_password_reset_ttl_minutes :: int
  as_trusted_proxy_cidrs :: "string list"

definition default_auth_settings :: "string \<Rightarrow> auth_settings" where
  "default_auth_settings secret =
     \<lparr>as_jwt_secret = secret, as_access_token_ttl_minutes = 15, as_refresh_token_ttl_days = 7,
      as_jwt_issuer = ''re3d-platform'', as_jwt_audience = ''re3d-platform-api'',
      as_refresh_cookie_name = ''re3d_refresh'', as_cookie_secure = True,
      as_login_window_minutes = 15, as_login_account_max_failures = 5, as_login_ip_max_failures = 30,
      as_login_block_minutes = 15, as_registration_window_minutes = 60,
      as_registration_identity_max_attempts = 3, as_registration_ip_max_attempts = 10,
      as_registration_block_minutes = 60, as_action_request_window_minutes = 60,
      as_action_request_identity_max_attempts = 3, as_action_request_ip_max_attempts = 10,
      as_action_request_block_minutes = 60, as_email_verification_ttl_hours = 24,
      as_password_reset_ttl_minutes = 30, as_trusted_proxy_cidrs = []\<rparr>"

text \<open>
  The checks on construction, in their order. The secret is a string of bytes, so that its length
  is that of its encoding; \<open>valid_network\<close> is \<open>ip_network(cidr, strict=False)\<close> not raising.
\<close>

definition in_range :: "int \<Rightarrow> int \<Rightarrow> int \<Rightarrow> string \<Rightarrow> string option" where
  "in_range lo n hi message = (if lo \<le> n \<and> n \<le> hi then None else Some message)"

definition cookie_name_ok :: "string \<Rightarrow> bool" where
  "cookie_name_ok s \<longleftrightarrow> 3 \<le> length s \<and> length s \<le> 64 \<and>
     list_all (\<lambda>c. is_alnum c \<or> c = CHR ''_'' \<or> c = CHR ''-'') s"

fun first_error :: "string option list \<Rightarrow> string option" where
  "first_error [] = None"
| "first_error (c # cs) = (case c of Some e \<Rightarrow> Some e | None \<Rightarrow> first_error cs)"

definition auth_settings_error :: "(string \<Rightarrow> bool) \<Rightarrow> auth_settings \<Rightarrow> string option" where
  "auth_settings_error valid_network s = first_error
     [if length (as_jwt_secret s) < 32 then Some ''JWT_SECRET must contain at least 32 bytes'' else None,
      if take 12 (as_jwt_secret s) = ''replace-with''
      then Some ''JWT_SECRET must not use the example placeholder'' else None,
      in_range 1 (as_access_token_ttl_minutes s) 60 ''ACCESS_TOKEN_TTL_MINUTES must be between 1 and 60'',
      in_range 1 (as_refresh_token_ttl_days s) 90 ''REFRESH_TOKEN_TTL_DAYS must be between 1 and 90'',
      if cookie_name_ok (as_refresh_cookie_name s) then None
      else Some ''REFRESH_COOKIE_NAME has an invalid format'',
      if as_jwt_issuer s = [] \<or> as_jwt_audience s = []
      then Some ''JWT issuer and audience must not be empty'' else None,
      in_range 1 (as_login_window_minutes s) 1440 ''AUTH_LOGIN_WINDOW_MINUTES must be between 1 and 1440'',
      in_range 1 (as_login_account_max_failures s) 100
        ''AUTH_LOGIN_ACCOUNT_MAX_FAILURES must be between 1 and 100'',
      in_range (as_login_account_max_failures s) (as_login_ip_max_failures s) 1000
        ''AUTH_LOGIN_IP_MAX_FAILURES must be between the account limit and 1000'',
      in_range 1 (as_login_block_minutes s) 1440 ''AUTH_LOGIN_BLOCK_MINUTES must be between 1 and 1440'',
      in_range 1 (as_registration_window_minutes s) 1440
        ''AUTH_REGISTRATION_WINDOW_MINUTES must be between 1 and 1440'',
      in_range 1 (as_registration_identity_max_attempts s) 100
        ''AUTH_REGISTRATION_IDENTITY_MAX_ATTEMPTS must be between 1 and 100'',
      in_range (as_registration_identity_max_attempts s) (as_registration_ip_max_attempts s) 1000
        ''AUTH_REGISTRATION_IP_MAX_ATTEMPTS must be between the identity limit and 1000'',
      in_range 1 (as_registration_block_minutes s) 1440
        ''AUTH_REGISTRATION_BLOCK_MINUTES must be between 1 and 1440'',
      in_range 1 (as_action_request_window_minutes s) 1440
        ''AUTH_ACTION_REQUEST_WINDOW_MINUTES must be between 1 and 1440'',
      in_range 1 (as_action_request_identity_max_attempts s) 100
        ''AUTH_ACTION_REQUEST_IDENTITY_MAX_ATTEMPTS must be between 1 and 100'',
      in_range (as_action_request_identity_max_attempts s) (as_action_request_ip_max_attempts s) 1000
        ''AUTH_ACTION_REQUEST_IP_MAX_ATTEMPTS must be between the identity limit and 1000'',
      in_range 1 (as_action_request_block_minutes s) 1440
        ''AUTH_ACTION_REQUEST_BLOCK_MINUTES must be between 1 and 1440'',
      in_range 1 (as_email_verification_ttl_hours s) 168
        ''AUTH_EMAIL_VERIFICATION_TTL_HOURS must be between 1 and 168'',
      in_range 5 (as_password_reset_ttl_minutes s) 1440
        ''AUTH_PASSWORD_RESET_TTL_MINUTES must be between 5 and 1440'',
      first_error (map (\<lambda>cidr. if valid_network cidr then None
        else Some (''AUTH_TRUSTED_PROXY_CIDRS contains an invalid network: '' @ cidr))
        (as_trusted_proxy_cidrs s))]"

lemma first_error_None: "first_error cs = None \<longleftrightarrow> (\<forall>c \<in> set cs. c = None)"
  by (induction cs) (auto split: option.split)

lemma in_range_None [simp]: "in_range lo n hi m = None \<longleftrightarrow> lo \<le> n \<and> n \<le> hi"
  by (simp add: in_range_def)

lemma auth_settings_bounds:
  assumes "auth_settings_error valid_network s = None"
  shows "1 \<le> as_refresh_token_ttl_days s" "1 \<le> as_login_window_minutes s" "1 \<le> as_login_block_minutes s"
    "1 \<le> as_login_account_max_failures s" "as_login_account_max_failures s \<le> as_login_ip_max_failures s"
    "1 \<le> as_registration_window_minutes s" "1 \<le> as_registration_block_minutes s"
    "1 \<le> as_registration_identity_max_attempts s"
    "as_registration_identity_max_attempts s \<le> as_registration_ip_max_attempts s"
    "1 \<le> as_action_request_window_minutes s" "1 \<le> as_action_request_block_minutes s"
    "1 \<le> as_action_request_identity_max_attempts s"
    "as_action_request_identity_max_attempts s \<le> as_action_request_ip_max_attempts s"
    "1 \<le> as_email_verification_ttl_hours s" "5 \<le> as_password_reset_ttl_minutes s"
  using assms unfolding auth_settings_error_def first_error_None by simp_all

section \<open>The service and the request context\<close>

record auth_context =
  cx_client_ip :: "string option"
  cx_user_agent :: "string option"

text \<open>The claims of an access token; times in it are those given to the encoder.\<close>

record jwt_claims =
  jc_sub :: string
  jc_jti :: string
  jc_token_use :: string
  jc_iss :: string
  jc_aud :: string
  jc_iat :: time
  jc_exp :: time

text \<open>
  \<open>au_password_hash salt password\<close> is a salted hash; \<open>au_jwt_decode token secret audience issuer leeway now\<close>
  is the decoded payload, \<open>None\<close> when the library raises, as it does when a required claim is missing.
\<close>

record auth_service =
  au_settings :: auth_settings
  au_hmac :: "string \<Rightarrow> string \<Rightarrow> string"
  au_sha256 :: "string \<Rightarrow> string"
  au_password_hash :: "nat \<Rightarrow> string \<Rightarrow> string"
  au_password_verify :: "string \<Rightarrow> string \<Rightarrow> bool"
  au_dummy_password_hash :: string
  au_validate_email :: "string \<Rightarrow> string option"
  au_jwt_encode :: "jwt_claims \<Rightarrow> string \<Rightarrow> string"
  au_jwt_decode :: "string \<Rightarrow> string \<Rightarrow> string \<Rightarrow> string \<Rightarrow> int \<Rightarrow> time \<Rightarrow> json option"

section \<open>Fingerprints and throttle keys\<close>

definition fingerprint :: "auth_service \<Rightarrow> string \<Rightarrow> string" where
  "fingerprint au value = au_hmac au (as_jwt_secret (au_settings au)) value"

definition identifier_fingerprint :: "auth_service \<Rightarrow> string \<Rightarrow> string" where
  "identifier_fingerprint au identifier =
     (let normalized = lower (strip identifier) in fingerprint au (''identifier:'' @ normalized))"

definition client_ip_fingerprint :: "auth_service \<Rightarrow> auth_context option \<Rightarrow> string option" where
  "client_ip_fingerprint au context =
     (case context of None \<Rightarrow> None
      | Some cx \<Rightarrow> (case cx_client_ip cx of None \<Rightarrow> None
          | Some ip \<Rightarrow> Some (fingerprint au (''client-ip:'' @ ip))))"

definition login_account_fingerprint :: "auth_service \<Rightarrow> string \<Rightarrow> uuid option \<Rightarrow> string" where
  "login_account_fingerprint au normalized_identifier user_id =
     (let subject = (case user_id of Some u \<Rightarrow> ''user:'' @ uuid_str u
          | None \<Rightarrow> ''unknown:'' @ normalized_identifier)
      in fingerprint au (''login-subject:'' @ subject))"

definition user_agent_sha256 :: "auth_service \<Rightarrow> auth_context option \<Rightarrow> string option" where
  "user_agent_sha256 au context =
     (case context of None \<Rightarrow> None
      | Some cx \<Rightarrow> (case cx_user_agent cx of None \<Rightarrow> None
          | Some agent \<Rightarrow> if agent = [] then None else Some (au_sha256 au agent)))"

record throttle_key =
  tk_dimension :: string
  tk_key_hash :: string
  tk_limit :: int

record action_throttle_key = throttle_key +
  tk_purpose :: string

definition login_keys :: "auth_service \<Rightarrow> string \<Rightarrow> string option \<Rightarrow> throttle_key list" where
  "login_keys au account_fingerprint ip_fingerprint = sort_key tk_key_hash
     (\<lparr>tk_dimension = ''account'', tk_key_hash = fingerprint au (''login-account:'' @ account_fingerprint),
       tk_limit = as_login_account_max_failures (au_settings au)\<rparr> #
      (case ip_fingerprint of None \<Rightarrow> []
       | Some ip \<Rightarrow> [\<lparr>tk_dimension = ''ip'', tk_key_hash = fingerprint au (''login-ip:'' @ ip),
           tk_limit = as_login_ip_max_failures (au_settings au)\<rparr>]))"

definition registration_keys ::
  "auth_service \<Rightarrow> string \<Rightarrow> string \<Rightarrow> string option \<Rightarrow> throttle_key list" where
  "registration_keys au normalized_username normalized_email ip_fingerprint =
     (let identity_limit = as_registration_identity_max_attempts (au_settings au)
      in sort_key tk_key_hash
        (\<lparr>tk_dimension = ''identity'',
          tk_key_hash = fingerprint au (''register-username:'' @ normalized_username),
          tk_limit = identity_limit\<rparr> #
         \<lparr>tk_dimension = ''identity'', tk_key_hash = fingerprint au (''register-email:'' @ normalized_email),
          tk_limit = identity_limit\<rparr> #
         (case ip_fingerprint of None \<Rightarrow> []
          | Some ip \<Rightarrow> [\<lparr>tk_dimension = ''ip'', tk_key_hash = fingerprint au (''register-ip:'' @ ip),
              tk_limit = as_registration_ip_max_attempts (au_settings au)\<rparr>])))"

definition action_request_keys ::
  "auth_service \<Rightarrow> string \<Rightarrow> string \<Rightarrow> string option \<Rightarrow> action_throttle_key list" where
  "action_request_keys au purpose identity_subject ip_fingerprint = sort_key tk_key_hash
     (\<lparr>tk_dimension = ''identity'',
       tk_key_hash = fingerprint au (''auth-action:'' @ purpose @ '':identity:'' @ identity_subject),
       tk_limit = as_action_request_identity_max_attempts (au_settings au), tk_purpose = purpose\<rparr> #
      (case ip_fingerprint of None \<Rightarrow> []
       | Some ip \<Rightarrow> [\<lparr>tk_dimension = ''ip'',
           tk_key_hash = fingerprint au (''auth-action:'' @ purpose @ '':ip:'' @ ip),
           tk_limit = as_action_request_ip_max_attempts (au_settings au), tk_purpose = purpose\<rparr>]))"

text \<open>\<open>blocked_until is not None and blocked_until > now\<close>, and the waiting time in seconds.\<close>

definition blocked_at :: "time \<Rightarrow> time option \<Rightarrow> bool" where
  "blocked_at now blocked_until \<longleftrightarrow> (case blocked_until of None \<Rightarrow> False | Some t \<Rightarrow> now < t)"

definition wait_seconds :: "time \<Rightarrow> time option \<Rightarrow> int" where
  "wait_seconds now blocked_until =
     (case blocked_until of None \<Rightarrow> 0 | Some t \<Rightarrow> ceil_total_seconds (t - now))"

lemma wait_seconds_pos: "blocked_at now b \<Longrightarrow> 1 \<le> wait_seconds now b"
  by (auto simp: blocked_at_def wait_seconds_def intro: ceil_total_seconds_pos split: option.splits)

section \<open>Registration attempts\<close>

definition get_registration_bucket :: "string \<Rightarrow> database \<Rightarrow> auth_registration_bucket option" where
  "get_registration_bucket k db = find_row arb_key_hash k (db_registration_buckets db)"

definition put_registration_bucket :: "auth_registration_bucket \<Rightarrow> database \<Rightarrow> database" where
  "put_registration_bucket b db =
     db\<lparr>db_registration_buckets := put_row arb_key_hash b (db_registration_buckets db)\<rparr>"

definition get_or_create_registration_bucket ::
  "throttle_key \<Rightarrow> time \<Rightarrow> database \<Rightarrow> auth_registration_bucket \<times> database" where
  "get_or_create_registration_bucket key now db =
     (case get_registration_bucket (tk_key_hash key) db of
        Some bucket \<Rightarrow> (bucket, db)
      | None \<Rightarrow>
          let candidate = \<lparr>arb_key_hash = tk_key_hash key, arb_dimension = tk_dimension key,
                arb_attempt_count = 0, arb_window_started_at = now, arb_blocked_until = None,
                arb_updated_at = now\<rparr>
          in (candidate, db\<lparr>db_registration_buckets := db_registration_buckets db @ [candidate]\<rparr>))"

text \<open>One round of the first loop, with \<open>retry_after\<close> as its accumulator, and of the second.\<close>

definition check_registration_key ::
  "int \<Rightarrow> time \<Rightarrow> throttle_key \<Rightarrow> int \<times> database \<Rightarrow> int \<times> database" where
  "check_registration_key window now key = (\<lambda>(retry_after, db).
     case get_registration_bucket (tk_key_hash key) db of
       None \<Rightarrow> (retry_after, db)
     | Some bucket \<Rightarrow>
         if blocked_at now (arb_blocked_until bucket)
         then (max retry_after (wait_seconds now (arb_blocked_until bucket)), db)
         else if arb_window_started_at bucket + window \<le> now
         then (retry_after, put_registration_bucket
           (bucket\<lparr>arb_attempt_count := 0, arb_window_started_at := now, arb_blocked_until := None,
             arb_updated_at := now\<rparr>) db)
         else (retry_after, put_registration_bucket (bucket\<lparr>arb_blocked_until := None\<rparr>) db))"

definition charge_registration_key :: "int \<Rightarrow> time \<Rightarrow> throttle_key \<Rightarrow> database \<Rightarrow> database" where
  "charge_registration_key block now key db =
     (let (bucket, db1) = get_or_create_registration_bucket key now db;
          bucket1 = bucket\<lparr>arb_attempt_count := arb_attempt_count bucket + 1, arb_updated_at := now\<rparr>;
          bucket2 = (if tk_limit key \<le> arb_attempt_count bucket1
            then bucket1\<lparr>arb_blocked_until := Some (now + block)\<rparr> else bucket1)
      in put_registration_bucket bucket2 db1)"

definition consume_registration_attempt ::
  "auth_settings \<Rightarrow> throttle_key list \<Rightarrow> time \<Rightarrow> database \<Rightarrow> int option \<times> database" where
  "consume_registration_attempt s keys now db =
     (let window = minutes (as_registration_window_minutes s);
          block = minutes (as_registration_block_minutes s);
          (retry_after, db1) = fold (check_registration_key window now) keys (0, db)
      in if retry_after \<noteq> 0 then (Some retry_after, db1)
         else (None, fold (charge_registration_key block now) keys db1))"

section \<open>Requests for action tokens\<close>

definition get_action_bucket :: "string \<Rightarrow> database \<Rightarrow> auth_action_request_bucket option" where
  "get_action_bucket k db = find_row aab_key_hash k (db_action_request_buckets db)"

definition put_action_bucket :: "auth_action_request_bucket \<Rightarrow> database \<Rightarrow> database" where
  "put_action_bucket b db =
     db\<lparr>db_action_request_buckets := put_row aab_key_hash b (db_action_request_buckets db)\<rparr>"

definition get_or_create_action_request_bucket ::
  "action_throttle_key \<Rightarrow> time \<Rightarrow> database \<Rightarrow> auth_action_request_bucket \<times> database" where
  "get_or_create_action_request_bucket key now db =
     (case get_action_bucket (tk_key_hash key) db of
        Some bucket \<Rightarrow> (bucket, db)
      | None \<Rightarrow>
          let candidate = \<lparr>aab_key_hash = tk_key_hash key, aab_purpose = tk_purpose key,
                aab_dimension = tk_dimension key, aab_attempt_count = 0, aab_window_started_at = now,
                aab_blocked_until = None, aab_updated_at = now\<rparr>
          in (candidate, db\<lparr>db_action_request_buckets := db_action_request_buckets db @ [candidate]\<rparr>))"

definition check_action_key ::
  "int \<Rightarrow> time \<Rightarrow> action_throttle_key \<Rightarrow> int \<times> database \<Rightarrow> int \<times> database" where
  "check_action_key window now key = (\<lambda>(retry_after, db).
     case get_action_bucket (tk_key_hash key) db of
       None \<Rightarrow> (retry_after, db)
     | Some bucket \<Rightarrow>
         if blocked_at now (aab_blocked_until bucket)
         then (max retry_after (wait_seconds now (aab_blocked_until bucket)), db)
         else if aab_window_started_at bucket + window \<le> now
         then (retry_after, put_action_bucket
           (bucket\<lparr>aab_attempt_count := 0, aab_window_started_at := now, aab_blocked_until := None,
             aab_updated_at := now\<rparr>) db)
         else (retry_after, put_action_bucket (bucket\<lparr>aab_blocked_until := None\<rparr>) db))"

definition charge_action_key :: "int \<Rightarrow> time \<Rightarrow> action_throttle_key \<Rightarrow> database \<Rightarrow> database" where
  "charge_action_key block now key db =
     (let (bucket, db1) = get_or_create_action_request_bucket key now db;
          bucket1 = bucket\<lparr>aab_attempt_count := aab_attempt_count bucket + 1, aab_updated_at := now\<rparr>;
          bucket2 = (if tk_limit key \<le> aab_attempt_count bucket1
            then bucket1\<lparr>aab_blocked_until := Some (now + block)\<rparr> else bucket1)
      in put_action_bucket bucket2 db1)"

definition consume_action_request ::
  "auth_settings \<Rightarrow> action_throttle_key list \<Rightarrow> time \<Rightarrow> database \<Rightarrow> int option \<times> database" where
  "consume_action_request s keys now db =
     (let window = minutes (as_action_request_window_minutes s);
          block = minutes (as_action_request_block_minutes s);
          (retry_after, db1) = fold (check_action_key window now) keys (0, db)
      in if retry_after \<noteq> 0 then (Some retry_after, db1)
         else (None, fold (charge_action_key block now) keys db1))"

section \<open>Failed logins\<close>

definition get_throttle_bucket :: "string \<Rightarrow> database \<Rightarrow> auth_throttle_bucket option" where
  "get_throttle_bucket k db = find_row atb_key_hash k (db_throttle_buckets db)"

definition put_throttle_bucket :: "auth_throttle_bucket \<Rightarrow> database \<Rightarrow> database" where
  "put_throttle_bucket b db = db\<lparr>db_throttle_buckets := put_row atb_key_hash b (db_throttle_buckets db)\<rparr>"

definition get_or_create_throttle_bucket ::
  "throttle_key \<Rightarrow> time \<Rightarrow> database \<Rightarrow> auth_throttle_bucket \<times> database" where
  "get_or_create_throttle_bucket key now db =
     (case get_throttle_bucket (tk_key_hash key) db of
        Some bucket \<Rightarrow> (bucket, db)
      | None \<Rightarrow>
          let candidate = \<lparr>atb_key_hash = tk_key_hash key, atb_dimension = tk_dimension key,
                atb_failure_count = 0, atb_window_started_at = now, atb_blocked_until = None,
                atb_updated_at = now\<rparr>
          in (candidate, db\<lparr>db_throttle_buckets := db_throttle_buckets db @ [candidate]\<rparr>))"

definition check_login_key :: "int \<Rightarrow> time \<Rightarrow> throttle_key \<Rightarrow> int \<times> database \<Rightarrow> int \<times> database" where
  "check_login_key window now key = (\<lambda>(retry_after, db).
     case get_throttle_bucket (tk_key_hash key) db of
       None \<Rightarrow> (retry_after, db)
     | Some bucket \<Rightarrow>
         if blocked_at now (atb_blocked_until bucket)
         then (max retry_after (wait_seconds now (atb_blocked_until bucket)), db)
         else
           let bucket1 = (if atb_window_started_at bucket + window \<le> now
                 then bucket\<lparr>atb_failure_count := 0, atb_window_started_at := now\<rparr> else bucket)
           in (retry_after, put_throttle_bucket
             (bucket1\<lparr>atb_blocked_until := None, atb_updated_at := now\<rparr>) db))"

definition login_retry_after ::
  "auth_settings \<Rightarrow> throttle_key list \<Rightarrow> time \<Rightarrow> database \<Rightarrow> int option \<times> database" where
  "login_retry_after s keys now db =
     (let window = minutes (as_login_window_minutes s);
          (retry_after, db1) = fold (check_login_key window now) keys (0, db)
      in (if retry_after = 0 then None else Some retry_after, db1))"

definition record_failure_key :: "int \<Rightarrow> int \<Rightarrow> time \<Rightarrow> throttle_key \<Rightarrow> database \<Rightarrow> database" where
  "record_failure_key window block now key db =
     (let (bucket, db1) = get_or_create_throttle_bucket key now db
      in if blocked_at now (atb_blocked_until bucket) then db1
         else
           let bucket1 = (if atb_window_started_at bucket + window \<le> now
                 then bucket\<lparr>atb_failure_count := 0, atb_window_started_at := now, atb_blocked_until := None\<rparr>
                 else bucket);
               bucket2 = bucket1\<lparr>atb_failure_count := atb_failure_count bucket1 + 1, atb_updated_at := now\<rparr>;
               bucket3 = (if tk_limit key \<le> atb_failure_count bucket2
                 then bucket2\<lparr>atb_blocked_until := Some (now + block)\<rparr> else bucket2)
           in put_throttle_bucket bucket3 db1)"

definition record_login_failure ::
  "auth_settings \<Rightarrow> throttle_key list \<Rightarrow> time \<Rightarrow> database \<Rightarrow> database" where
  "record_login_failure s keys now db =
     (let window = minutes (as_login_window_minutes s);
          block = minutes (as_login_block_minutes s)
      in fold (record_failure_key window block now) keys db)"

definition reset_account_throttle :: "throttle_key list \<Rightarrow> time \<Rightarrow> database \<Rightarrow> database" where
  "reset_account_throttle keys now db =
     fold (\<lambda>key db.
       if tk_dimension key \<noteq> ''account'' then db
       else (case get_throttle_bucket (tk_key_hash key) db of
           None \<Rightarrow> db
         | Some bucket \<Rightarrow> put_throttle_bucket
             (bucket\<lparr>atb_failure_count := 0, atb_window_started_at := now, atb_blocked_until := None,
               atb_updated_at := now\<rparr>) db)) keys db"

section \<open>Audit rows\<close>

definition new_auth_event ::
  "auth_service \<Rightarrow> uuid \<Rightarrow> string \<Rightarrow> string \<Rightarrow> auth_context option \<Rightarrow> time \<Rightarrow> auth_event" where
  "new_auth_event au event_id action outcome context occurred_at =
     \<lparr>ae_id = event_id, ae_action = action, ae_outcome = outcome, ae_user_id = None,
      ae_refresh_session_id = None, ae_identifier_fingerprint = None,
      ae_client_ip_fingerprint = client_ip_fingerprint au context,
      ae_user_agent_sha256 = user_agent_sha256 au context, ae_reason_code = None,
      ae_occurred_at = occurred_at\<rparr>"

text \<open>\<open>add_event\<close>: the optional columns are set on the new row by the caller.\<close>

definition add_auth_event :: "auth_event \<Rightarrow> database \<Rightarrow> database" where
  "add_auth_event e db = db\<lparr>db_auth_events := db_auth_events db @ [e]\<rparr>"

end
