(* ===== verification/Auth_Limits.thy ===== *)
theory Auth_Limits
  imports Auth_Security
begin

text \<open>
  What an attempt limit promises. A bucket is abstracted to its count, the start of its window and
  the end of its block; the interface \<open>attempt_limiter\<close> states what a call does to it, refused or
  accepted, and its clients get the bound on accepted attempts and the persistence of a block. The
  interface \<open>checked_table\<close> is the first loop over one table, which all three tables share;
  \<open>attempt_table\<close> extends it by the second loop and gives \<open>attempt_limiter\<close>, and the tables for
  registration and for action requests interpret it.
\<close>

section \<open>The abstract bucket\<close>

record attempt_state =
  ats_count :: int
  ats_started :: time
  ats_blocked :: "time option"

definition settled :: "int \<Rightarrow> time \<Rightarrow> attempt_state \<Rightarrow> attempt_state" where
  "settled window now x =
     (if blocked_at now (ats_blocked x) then x
      else if ats_started x + window \<le> now then \<lparr>ats_count = 0, ats_started = now, ats_blocked = None\<rparr>
      else x\<lparr>ats_blocked := None\<rparr>)"

definition current_state :: "int \<Rightarrow> time \<Rightarrow> attempt_state option \<Rightarrow> attempt_state" where
  "current_state window now v =
     (case v of None \<Rightarrow> \<lparr>ats_count = 0, ats_started = now, ats_blocked = None\<rparr> | Some x \<Rightarrow> settled window now x)"

definition charged :: "int \<Rightarrow> int \<Rightarrow> time \<Rightarrow> attempt_state \<Rightarrow> attempt_state" where
  "charged limit block now x =
     x\<lparr>ats_count := ats_count x + 1,
       ats_blocked := if limit \<le> ats_count x + 1 then Some (now + block) else ats_blocked x\<rparr>"

definition blocked_state :: "time \<Rightarrow> attempt_state option \<Rightarrow> bool" where
  "blocked_state now v \<longleftrightarrow> (case v of None \<Rightarrow> False | Some x \<Rightarrow> blocked_at now (ats_blocked x))"

text \<open>
  The attempts a bucket can still accept in a span of length \<open>width\<close> from \<open>a\<close>: none when it is blocked over
  the span, else the rest of its window, and a full window when it may start anew.
\<close>

definition attempt_budget :: "int \<Rightarrow> time \<Rightarrow> int \<Rightarrow> attempt_state option \<Rightarrow> nat" where
  "attempt_budget limit a width v =
     (case v of None \<Rightarrow> nat limit
      | Some x \<Rightarrow>
          if blocked_at (a + width - 1) (ats_blocked x) then 0
          else nat (max 1 (limit - ats_count x)) + (if ats_started x < a then nat limit else 0))"

lemma settled_budget:
  assumes "a \<le> now" "now < a + width" "width \<le> window" "1 \<le> limit"
  shows "attempt_budget limit a width (Some (settled window now x)) \<le> attempt_budget limit a width (Some x)"
  using assms by (auto simp: attempt_budget_def settled_def blocked_at_def split: option.splits)

lemma charged_budget:
  assumes "a \<le> now" "now < a + width" "width \<le> window" "width \<le> block" "1 \<le> limit"
    and "\<not> blocked_state now v"
  shows "1 + attempt_budget limit a width (Some (charged limit block now (current_state window now v)))
    \<le> attempt_budget limit a width v"
  using assms
  by (auto simp: attempt_budget_def settled_def charged_def current_state_def blocked_at_def blocked_state_def
      split: option.splits)

section \<open>The interface\<close>

fun run_attempts :: "('k list \<Rightarrow> time \<Rightarrow> 's \<Rightarrow> int option \<times> 's) \<Rightarrow> ('k list \<times> time) list \<Rightarrow> 's \<Rightarrow>
    int option list \<times> 's" where
  "run_attempts consume [] s = ([], s)"
| "run_attempts consume ((keys, now) # calls) s =
     (let (r, s1) = consume keys now s; (rs, s2) = run_attempts consume calls s1 in (r # rs, s2))"

text \<open>The accepted attempts that were charged to the bucket \<open>h\<close>, and the attempts that name it.\<close>

definition accepted_for :: "('k \<Rightarrow> string) \<Rightarrow> string \<Rightarrow> ('k list \<times> time) list \<Rightarrow> int option list \<Rightarrow> nat" where
  "accepted_for key_hash h calls rs =
     length (filter (\<lambda>((keys, _), r). r = None \<and> h \<in> key_hash ` set keys) (zip calls rs))"

locale attempt_limiter =
  fixes view :: "string \<Rightarrow> 's \<Rightarrow> attempt_state option"
    and key_hash :: "'k \<Rightarrow> string"
    and key_limit :: "'k \<Rightarrow> int"
    and consume :: "'k list \<Rightarrow> time \<Rightarrow> 's \<Rightarrow> int option \<times> 's"
    and window :: int
    and block :: int
  assumes refused: "consume keys now s = (Some r, s') \<Longrightarrow> distinct (map key_hash keys) \<Longrightarrow>
      1 \<le> r \<and> (\<exists>k \<in> set keys. blocked_state now (view (key_hash k) s))"
    and refused_view: "consume keys now s = (Some r, s') \<Longrightarrow> distinct (map key_hash keys) \<Longrightarrow>
      view h s' = (if h \<in> key_hash ` set keys then map_option (settled window now) (view h s) else view h s)"
    and accepted: "consume keys now s = (None, s') \<Longrightarrow> distinct (map key_hash keys) \<Longrightarrow> k \<in> set keys \<Longrightarrow>
      \<not> blocked_state now (view (key_hash k) s)"
    and accepted_view: "consume keys now s = (None, s') \<Longrightarrow> distinct (map key_hash keys) \<Longrightarrow> k \<in> set keys \<Longrightarrow>
      view (key_hash k) s' = Some (charged (key_limit k) block now (current_state window now (view (key_hash k) s)))"
    and accepted_other: "consume keys now s = (None, s') \<Longrightarrow> distinct (map key_hash keys) \<Longrightarrow>
      h \<notin> key_hash ` set keys \<Longrightarrow> view h s' = view h s"
begin

lemma consume_budget:
  assumes "consume keys now s = (r, s')" and "distinct (map key_hash keys)"
    and "\<forall>k \<in> set keys. key_hash k = h \<longrightarrow> key_limit k = limit" and "1 \<le> limit"
    and "a \<le> now" "now < a + width" "width \<le> window" "width \<le> block"
  shows "(if r = None \<and> h \<in> key_hash ` set keys then 1 else 0) + attempt_budget limit a width (view h s')
    \<le> attempt_budget limit a width (view h s)"
proof (cases "h \<in> key_hash ` set keys")
  case True
  then obtain k where k: "k \<in> set keys" "h = key_hash k" by auto
  show ?thesis
  proof (cases r)
    case None
    then have run: "consume keys now s = (None, s')" using assms(1) by simp
    have "1 + attempt_budget limit a width (view h s') \<le> attempt_budget limit a width (view h s)"
      using charged_budget [OF assms(5-8,4) accepted [OF run assms(2) k(1)]]
        accepted_view [OF run assms(2) k(1)] assms(3) k by auto
    with None show ?thesis by simp
  next
    case (Some r')
    then have "view h s' = map_option (settled window now) (view h s)"
      using refused_view [OF assms(1) [unfolded Some] assms(2)] True by simp
    with Some settled_budget [OF assms(5-7,4)] show ?thesis by (cases "view h s") simp_all
  qed
next
  case False
  then have "view h s' = view h s"
    using refused_view [OF _ assms(2)] accepted_other [OF _ assms(2) False] assms(1) by (cases r) auto
  with False show ?thesis by simp
qed

lemma run_budget:
  assumes "run_attempts consume calls s = (rs, s')" and "1 \<le> limit"
    and "\<forall>(keys, now) \<in> set calls. distinct (map key_hash keys) \<and>
      (\<forall>k \<in> set keys. key_hash k = h \<longrightarrow> key_limit k = limit) \<and> a \<le> now \<and> now < a + width"
    and "width \<le> window" "width \<le> block"
  shows "accepted_for key_hash h calls rs + attempt_budget limit a width (view h s')
    \<le> attempt_budget limit a width (view h s)"
  using assms(1,3)
proof (induction calls arbitrary: s rs)
  case (Cons c calls)
  obtain keys now where c: "c = (keys, now)" by (cases c)
  obtain r s1 where r: "consume keys now s = (r, s1)" by fastforce
  obtain rs' where rs: "run_attempts consume calls s1 = (rs', s')" "rs = r # rs'"
    using Cons.prems(1) by (auto simp: c r split: prod.splits)
  have rest: "accepted_for key_hash h calls rs' + attempt_budget limit a width (view h s')
      \<le> attempt_budget limit a width (view h s1)"
    by (rule Cons.IH [OF rs(1)]) (use Cons.prems(2) in auto)
  have "(if r = None \<and> h \<in> key_hash ` set keys then 1 else 0) + attempt_budget limit a width (view h s1)
      \<le> attempt_budget limit a width (view h s)"
    by (rule consume_budget [OF r _ _ assms(2) _ _ assms(4,5)]) (use Cons.prems(2) c in auto)
  with rest show ?case by (auto simp: accepted_for_def rs(2) c split: if_splits)
qed (simp add: accepted_for_def)

lemma run_blocked:
  assumes "run_attempts consume calls s = (rs, s')" and "view h s = Some x" and "ats_blocked x = Some t"
    and "\<forall>(keys, now) \<in> set calls. distinct (map key_hash keys) \<and> now < t"
  shows "view h s' = Some x \<and> accepted_for key_hash h calls rs = 0"
  using assms(1,2,4)
proof (induction calls arbitrary: s rs)
  case (Cons c calls)
  obtain keys now where c: "c = (keys, now)" by (cases c)
  obtain r s1 where r: "consume keys now s = (r, s1)" by fastforce
  obtain rs' where rs: "run_attempts consume calls s1 = (rs', s')" "rs = r # rs'"
    using Cons.prems(1) by (auto simp: c r split: prod.splits)
  have now: "now < t" and dist: "distinct (map key_hash keys)" using Cons.prems(3) c by auto
  have blocked: "blocked_state now (view h s)"
    using Cons.prems(2) assms(3) now by (simp add: blocked_state_def blocked_at_def)
  have "settled window now x = x" using assms(3) now by (simp add: settled_def blocked_at_def)
  moreover have acc: "h \<notin> key_hash ` set keys" if "r = None"
    using accepted [OF r [unfolded that] dist] blocked by auto
  ultimately have "view h s1 = Some x"
    using refused_view [OF _ dist] accepted_other [OF _ dist] r Cons.prems(2) by (cases r) auto
  from Cons.IH [OF rs(1) this] Cons.prems(3) acc show ?case by (auto simp: accepted_for_def rs(2) c)
qed (simp add: accepted_for_def)

end

section \<open>The loops over a table\<close>

locale checked_table =
  fixes view :: "string \<Rightarrow> 's \<Rightarrow> attempt_state option"
    and key_hash :: "'k \<Rightarrow> string"
    and check :: "time \<Rightarrow> 'k \<Rightarrow> int \<times> 's \<Rightarrow> int \<times> 's"
    and window :: int
  assumes check_wait: "fst (check now k (r, s)) =
      (case view (key_hash k) s of None \<Rightarrow> r
       | Some x \<Rightarrow> if blocked_at now (ats_blocked x) then max r (wait_seconds now (ats_blocked x)) else r)"
    and check_view: "view h (snd (check now k (r, s))) =
      (if h = key_hash k then map_option (settled window now) (view h s) else view h s)"
begin

lemma check_fold:
  assumes "fold (check now) keys (r0, s) = (r, s')" and "distinct (map key_hash keys)" and "0 \<le> r0"
  shows "0 \<le> r \<and> (r = 0 \<longleftrightarrow> r0 = 0 \<and> (\<forall>k \<in> set keys. \<not> blocked_state now (view (key_hash k) s))) \<and>
    view h s' = (if h \<in> key_hash ` set keys then map_option (settled window now) (view h s) else view h s)"
  using assms
proof (induction keys arbitrary: r0 s)
  case (Cons k keys)
  obtain r1 s1 where r1: "check now k (r0, s) = (r1, s1)" by fastforce
  have wait: "r1 = (case view (key_hash k) s of None \<Rightarrow> r0
      | Some x \<Rightarrow> if blocked_at now (ats_blocked x) then max r0 (wait_seconds now (ats_blocked x)) else r0)"
    using check_wait [of now k r0 s] r1 by simp
  have v1: "view h' s1 = (if h' = key_hash k then map_option (settled window now) (view h' s) else view h' s)" for h'
    using check_view [of h' now k r0 s] r1 by simp
  have r1_pos: "0 \<le> r1" "r1 = 0 \<longleftrightarrow> r0 = 0 \<and> \<not> blocked_state now (view (key_hash k) s)"
    using wait Cons.prems(3) wait_seconds_pos
    by (fastforce simp: blocked_state_def split: option.splits if_splits)+
  have other: "view (key_hash k') s1 = view (key_hash k') s" if "k' \<in> set keys" for k'
    using v1 that Cons.prems(2) by (metis distinct.simps(2) image_eqI list.set_map list.simps(9))
  have "fold (check now) keys (r1, s1) = (r, s')" using Cons.prems(1) r1 by simp
  from Cons.IH [OF this _ r1_pos(1)] Cons.prems(2) r1_pos(2) other v1 show ?case by auto
qed simp

end

locale attempt_table = checked_table view key_hash check window
  for view :: "string \<Rightarrow> 's \<Rightarrow> attempt_state option"
    and key_hash :: "'k \<Rightarrow> string"
    and check :: "time \<Rightarrow> 'k \<Rightarrow> int \<times> 's \<Rightarrow> int \<times> 's"
    and window :: int +
  fixes key_limit :: "'k \<Rightarrow> int"
    and charge :: "time \<Rightarrow> 'k \<Rightarrow> 's \<Rightarrow> 's"
    and consume :: "'k list \<Rightarrow> time \<Rightarrow> 's \<Rightarrow> int option \<times> 's"
    and block :: int
  assumes charge_view: "view h (charge now k s) =
      (if h = key_hash k
       then Some (charged (key_limit k) block now
         (case view h s of None \<Rightarrow> \<lparr>ats_count = 0, ats_started = now, ats_blocked = None\<rparr> | Some x \<Rightarrow> x))
       else view h s)"
    and consume_loops: "consume keys now s =
      (let (r, s1) = fold (check now) keys (0, s)
       in if r \<noteq> 0 then (Some r, s1) else (None, fold (charge now) keys s1))"
begin

lemma charge_fold:
  assumes "distinct (map key_hash keys)"
  shows "view h (fold (charge now) keys s) =
    (case find (\<lambda>k. key_hash k = h) keys of None \<Rightarrow> view h s
     | Some k \<Rightarrow> Some (charged (key_limit k) block now
         (case view h s of None \<Rightarrow> \<lparr>ats_count = 0, ats_started = now, ats_blocked = None\<rparr> | Some x \<Rightarrow> x)))"
  using assms
proof (induction keys arbitrary: s)
  case (Cons k keys)
  have "find (\<lambda>k'. key_hash k' = key_hash k) keys = None"
    using Cons.prems by (auto simp: find_None_iff) (metis image_eqI)
  with Cons show ?case by (cases "h = key_hash k") (auto simp: charge_view split: option.split)
qed simp

lemma find_key:
  "distinct (map key_hash keys) \<Longrightarrow> k \<in> set keys \<Longrightarrow> find (\<lambda>k'. key_hash k' = key_hash k) keys = Some k"
  by (induction keys) (auto simp: rev_image_eqI)

end

sublocale attempt_table \<subseteq> attempt_limiter view key_hash key_limit consume window block
proof
  fix keys now s r s' h k
  obtain r1 s1 where loop: "fold (check now) keys (0, s) = (r1, s1)" by fastforce
  assume dist: "distinct (map key_hash keys)"
  note checked = check_fold [OF loop dist order_refl]
  {
    assume "consume keys now s = (Some r, s')"
    then have eqs: "r1 \<noteq> 0" "r = r1" "s' = s1" by (auto simp: consume_loops loop split: if_splits)
    moreover have "1 \<le> r1" using eqs(1) checked [of h] by linarith
    ultimately show "1 \<le> r \<and> (\<exists>k \<in> set keys. blocked_state now (view (key_hash k) s))"
      and "view h s' = (if h \<in> key_hash ` set keys then map_option (settled window now) (view h s) else view h s)"
      using checked by auto
  next
    assume run: "consume keys now s = (None, s')"
    then have r1: "r1 = 0" and s': "s' = fold (charge now) keys s1"
      by (auto simp: consume_loops loop split: if_splits)
    have free: "\<not> blocked_state now (view (key_hash k') s)" if "k' \<in> set keys" for k'
      using checked r1 that by blast
    show "\<not> blocked_state now (view (key_hash k) s)" if "k \<in> set keys" by (rule free [OF that])
    show "view (key_hash k) s' =
        Some (charged (key_limit k) block now (current_state window now (view (key_hash k) s)))"
      if "k \<in> set keys"
      using checked [of "key_hash k"] find_key [OF dist that] that
      by (auto simp: s' charge_fold [OF dist] current_state_def split: option.splits)
    show "view h s' = view h s" if "h \<notin> key_hash ` set keys"
    proof -
      have "find (\<lambda>k'. key_hash k' = h) keys = None" using that by (auto simp: find_None_iff)
      with checked [of h] that show ?thesis by (simp add: s' charge_fold [OF dist])
    qed
  }
qed

section \<open>Interpretations\<close>

definition registration_view :: "string \<Rightarrow> database \<Rightarrow> attempt_state option" where
  "registration_view h db = map_option (\<lambda>b. \<lparr>ats_count = arb_attempt_count b,
     ats_started = arb_window_started_at b, ats_blocked = arb_blocked_until b\<rparr>) (get_registration_bucket h db)"

definition action_view :: "string \<Rightarrow> database \<Rightarrow> attempt_state option" where
  "action_view h db = map_option (\<lambda>b. \<lparr>ats_count = aab_attempt_count b,
     ats_started = aab_window_started_at b, ats_blocked = aab_blocked_until b\<rparr>) (get_action_bucket h db)"

interpretation registration_rows: row_store get_registration_bucket put_registration_bucket arb_key_hash
  by unfold_locales (auto simp: get_registration_bucket_def put_registration_bucket_def find_put dest: find_row_SomeD)

interpretation action_rows: row_store get_action_bucket put_action_bucket aab_key_hash
  by unfold_locales (auto simp: get_action_bucket_def put_action_bucket_def find_put dest: find_row_SomeD)

interpretation throttle_rows: row_store get_throttle_bucket put_throttle_bucket atb_key_hash
  by unfold_locales (auto simp: get_throttle_bucket_def put_throttle_bucket_def find_put dest: find_row_SomeD)

lemma get_registration_append:
  "get_registration_bucket k (db\<lparr>db_registration_buckets := db_registration_buckets db @ [b]\<rparr>) =
     (case get_registration_bucket k db of None \<Rightarrow> if arb_key_hash b = k then Some b else None | Some x \<Rightarrow> Some x)"
  by (simp add: get_registration_bucket_def split: option.split)

lemma get_action_append:
  "get_action_bucket k (db\<lparr>db_action_request_buckets := db_action_request_buckets db @ [b]\<rparr>) =
     (case get_action_bucket k db of None \<Rightarrow> if aab_key_hash b = k then Some b else None | Some x \<Rightarrow> Some x)"
  by (simp add: get_action_bucket_def split: option.split)

lemma registration_put:
  assumes "get_registration_bucket (arb_key_hash b) db \<noteq> None"
  shows "registration_view h (put_registration_bucket b db) =
    (if h = arb_key_hash b then Some \<lparr>ats_count = arb_attempt_count b, ats_started = arb_window_started_at b,
       ats_blocked = arb_blocked_until b\<rparr> else registration_view h db)"
  using assms by (auto simp: registration_view_def registration_rows.get_put_same registration_rows.get_put_other)

lemma action_put:
  assumes "get_action_bucket (aab_key_hash b) db \<noteq> None"
  shows "action_view h (put_action_bucket b db) =
    (if h = aab_key_hash b then Some \<lparr>ats_count = aab_attempt_count b, ats_started = aab_window_started_at b,
       ats_blocked = aab_blocked_until b\<rparr> else action_view h db)"
  using assms by (auto simp: action_view_def action_rows.get_put_same action_rows.get_put_other)

lemma check_registration_view:
  "registration_view h (snd (check_registration_key window now k (r, db))) =
     (if h = tk_key_hash k then map_option (settled window now) (registration_view h db)
      else registration_view h db)"
proof (cases "get_registration_bucket (tk_key_hash k) db")
  case (Some b)
  then have "arb_key_hash b = tk_key_hash k" by (rule registration_rows.get_key)
  with Some show ?thesis
    by (auto simp: check_registration_key_def registration_put settled_def)
      (simp_all add: registration_view_def settled_def)
qed (simp add: check_registration_key_def registration_view_def)

lemma check_action_view:
  "action_view h (snd (check_action_key window now k (r, db))) =
     (if h = tk_key_hash k then map_option (settled window now) (action_view h db) else action_view h db)"
proof (cases "get_action_bucket (tk_key_hash k) db")
  case (Some b)
  then have "aab_key_hash b = tk_key_hash k" by (rule action_rows.get_key)
  with Some show ?thesis
    by (auto simp: check_action_key_def action_put settled_def)
      (simp_all add: action_view_def settled_def)
qed (simp add: check_action_key_def action_view_def)

lemma charge_registration_view:
  "registration_view h (charge_registration_key block now k db) =
     (if h = tk_key_hash k
      then Some (charged (tk_limit k) block now
        (case registration_view h db of None \<Rightarrow> \<lparr>ats_count = 0, ats_started = now, ats_blocked = None\<rparr> | Some x \<Rightarrow> x))
      else registration_view h db)"
proof -
  obtain b db1 where g: "get_or_create_registration_bucket k now db = (b, db1)" by fastforce
  then have "arb_key_hash b = tk_key_hash k" "get_registration_bucket (tk_key_hash k) db1 = Some b"
    "h \<noteq> tk_key_hash k \<Longrightarrow> get_registration_bucket h db1 = get_registration_bucket h db"
    by (auto simp: get_or_create_registration_bucket_def Let_def get_registration_append registration_rows.get_key
        split: option.splits)
  moreover have "registration_view (tk_key_hash k) db = None \<and> b = \<lparr>arb_key_hash = tk_key_hash k,
      arb_dimension = tk_dimension k, arb_attempt_count = 0, arb_window_started_at = now,
      arb_blocked_until = None, arb_updated_at = now\<rparr> \<or> get_registration_bucket (tk_key_hash k) db = Some b"
    using g by (auto simp: get_or_create_registration_bucket_def Let_def registration_view_def split: option.splits)
  ultimately show ?thesis
    by (auto simp: charge_registration_key_def g charged_def registration_view_def registration_rows.get_put
        registration_rows.get_put_other)
qed

lemma charge_action_view:
  "action_view h (charge_action_key block now k db) =
     (if h = tk_key_hash k
      then Some (charged (tk_limit k) block now
        (case action_view h db of None \<Rightarrow> \<lparr>ats_count = 0, ats_started = now, ats_blocked = None\<rparr> | Some x \<Rightarrow> x))
      else action_view h db)"
proof -
  obtain b db1 where g: "get_or_create_action_request_bucket k now db = (b, db1)" by fastforce
  then have "aab_key_hash b = tk_key_hash k" "get_action_bucket (tk_key_hash k) db1 = Some b"
    "h \<noteq> tk_key_hash k \<Longrightarrow> get_action_bucket h db1 = get_action_bucket h db"
    by (auto simp: get_or_create_action_request_bucket_def Let_def get_action_append action_rows.get_key
        split: option.splits)
  moreover have "action_view (tk_key_hash k) db = None \<and> b = \<lparr>aab_key_hash = tk_key_hash k,
      aab_purpose = tk_purpose k, aab_dimension = tk_dimension k, aab_attempt_count = 0,
      aab_window_started_at = now, aab_blocked_until = None, aab_updated_at = now\<rparr> \<or>
      get_action_bucket (tk_key_hash k) db = Some b"
    using g by (auto simp: get_or_create_action_request_bucket_def Let_def action_view_def split: option.splits)
  ultimately show ?thesis
    by (auto simp: charge_action_key_def g charged_def action_view_def action_rows.get_put
        action_rows.get_put_other)
qed

interpretation registration: attempt_table registration_view tk_key_hash
  "check_registration_key (minutes (as_registration_window_minutes s))" "minutes (as_registration_window_minutes s)"
  tk_limit "charge_registration_key (minutes (as_registration_block_minutes s))" "consume_registration_attempt s"
  "minutes (as_registration_block_minutes s)" for s
proof
  fix now k r db
  show "fst (check_registration_key (minutes (as_registration_window_minutes s)) now k (r, db)) =
      (case registration_view (tk_key_hash k) db of None \<Rightarrow> r
       | Some x \<Rightarrow> if blocked_at now (ats_blocked x) then max r (wait_seconds now (ats_blocked x)) else r)"
    by (simp add: check_registration_key_def registration_view_def split: option.split)
qed (simp_all only: check_registration_view charge_registration_view consume_registration_attempt_def Let_def)

interpretation action_requests: attempt_table action_view tk_key_hash
  "check_action_key (minutes (as_action_request_window_minutes s))" "minutes (as_action_request_window_minutes s)"
  tk_limit "charge_action_key (minutes (as_action_request_block_minutes s))" "consume_action_request s"
  "minutes (as_action_request_block_minutes s)" for s
proof
  fix now k r db
  show "fst (check_action_key (minutes (as_action_request_window_minutes s)) now k (r, db)) =
      (case action_view (tk_key_hash k) db of None \<Rightarrow> r
       | Some x \<Rightarrow> if blocked_at now (ats_blocked x) then max r (wait_seconds now (ats_blocked x)) else r)"
    by (simp add: check_action_key_def action_view_def split: option.split)
qed (simp_all only: check_action_view charge_action_view consume_action_request_def Let_def)

definition throttle_view :: "string \<Rightarrow> database \<Rightarrow> attempt_state option" where
  "throttle_view h db = map_option (\<lambda>b. \<lparr>ats_count = atb_failure_count b,
     ats_started = atb_window_started_at b, ats_blocked = atb_blocked_until b\<rparr>) (get_throttle_bucket h db)"

lemma check_login_view:
  "throttle_view h (snd (check_login_key window now k (r, db))) =
     (if h = tk_key_hash k then map_option (settled window now) (throttle_view h db) else throttle_view h db)"
proof (cases "get_throttle_bucket (tk_key_hash k) db")
  case (Some b)
  then have "atb_key_hash b = tk_key_hash k" by (rule throttle_rows.get_key)
  with Some show ?thesis
    by (auto simp: check_login_key_def throttle_view_def throttle_rows.get_put throttle_rows.get_put_other
        settled_def Let_def)
qed (simp add: check_login_key_def throttle_view_def)

interpretation login_checks: checked_table throttle_view tk_key_hash "check_login_key window" window for window
proof
  fix now k r db
  show "fst (check_login_key window now k (r, db)) =
      (case throttle_view (tk_key_hash k) db of None \<Rightarrow> r
       | Some x \<Rightarrow> if blocked_at now (ats_blocked x) then max r (wait_seconds now (ats_blocked x)) else r)"
    by (simp add: check_login_key_def throttle_view_def Let_def split: option.split)
qed (simp_all only: check_login_view)

section \<open>Properties\<close>

lemma attempt_budget_le:
  assumes "1 \<le> limit" and "\<And>x. v = Some x \<Longrightarrow> 0 \<le> ats_count x"
  shows "int (attempt_budget limit a width v) \<le> 2 * limit"
    and "v = None \<Longrightarrow> int (attempt_budget limit a width v) \<le> limit"
  using assms by (auto simp: attempt_budget_def split: option.split)

definition demo_auth_settings :: auth_settings where
  "demo_auth_settings = default_auth_settings (replicate 32 (CHR ''s''))"

lemma demo_auth_settings_ok: "auth_settings_error n demo_auth_settings = None"
  by (simp add: auth_settings_error_def demo_auth_settings_def default_auth_settings_def in_range_def
      cookie_name_ok_def char_class_defs numeral_eq_Suc)

text \<open>
  Requests for verification and reset mails: in any span shorter than the window and the block, at most
  twice the limit of a bucket are accepted under it, and at most the limit when the bucket is new.
\<close>

theorem action_requests_bounded:
  assumes "auth_settings_error valid_network s = None" and "1 \<le> limit"
    and "\<forall>b \<in> set (db_action_request_buckets db). auth_action_request_row_ok b"
    and "\<forall>(keys, now) \<in> set calls. distinct (map tk_key_hash keys) \<and>
      (\<forall>k \<in> set keys. tk_key_hash k = h \<longrightarrow> tk_limit k = limit) \<and> a \<le> now \<and>
      now < a + min (minutes (as_action_request_window_minutes s)) (minutes (as_action_request_block_minutes s))"
    and "run_attempts (consume_action_request s) calls db = (rs, db')"
  shows "int (accepted_for tk_key_hash h calls rs) \<le> 2 * limit \<and>
    (get_action_bucket h db = None \<longrightarrow> int (accepted_for tk_key_hash h calls rs) \<le> limit)"
proof -
  let ?width = "min (minutes (as_action_request_window_minutes s)) (minutes (as_action_request_block_minutes s))"
  have "accepted_for tk_key_hash h calls rs \<le> attempt_budget limit a ?width (action_view h db)"
    using action_requests.run_budget [OF assms(5,2,4)] by simp
  moreover have "0 \<le> ats_count x" if "action_view h db = Some x" for x
    using that assms(3)
    by (auto simp: action_view_def get_action_bucket_def auth_action_request_row_ok_def dest!: find_row_SomeD)
  moreover have "action_view h db = None" if "get_action_bucket h db = None"
    using that by (simp add: action_view_def)
  ultimately show ?thesis
    using attempt_budget_le [OF assms(2), of "action_view h db" a ?width] by fastforce
qed

definition demo_requests :: "(action_throttle_key list \<times> time) list" where
  "demo_requests = map (\<lambda>now. ([\<lparr>tk_dimension = ''identity'', tk_key_hash = ''alice'', tk_limit = 3,
     tk_purpose = ''password_reset''\<rparr>], now)) [1, 2, 3, 4, 5]"

theorem action_requests_bounded_witness:
  "int (accepted_for tk_key_hash ''alice'' demo_requests
     (fst (run_attempts (consume_action_request demo_auth_settings) demo_requests demo_init))) \<le> 3"
proof -
  obtain rs db' where run: "run_attempts (consume_action_request demo_auth_settings) demo_requests demo_init = (rs, db')"
    by fastforce
  have "\<forall>b \<in> set (db_action_request_buckets demo_init). auth_action_request_row_ok b"
    "get_action_bucket ''alice'' demo_init = None"
    by (simp_all add: demo_init_def empty_database_def get_action_bucket_def)
  moreover have "\<forall>(keys, now) \<in> set demo_requests. distinct (map tk_key_hash keys) \<and>
      (\<forall>k \<in> set keys. tk_key_hash k = ''alice'' \<longrightarrow> tk_limit k = 3) \<and> 0 \<le> now \<and>
      now < 0 + min (minutes (as_action_request_window_minutes demo_auth_settings))
        (minutes (as_action_request_block_minutes demo_auth_settings))"
    by (auto simp: demo_requests_def demo_auth_settings_def default_auth_settings_def)
  ultimately show ?thesis
    using action_requests_bounded [OF demo_auth_settings_ok _ _ _ run, of 3 "''alice''" 0] run by simp
qed

end
