(* ===== verification/Auth_Service.thy ===== *)
theory Auth_Service
  imports Auth_Security
begin

text \<open>
  The authentication service of \<^verbatim>\<open>backend/auth/service.py\<close>: registration, login, rotation of
  refresh sessions, logout, and the mails for verification and password reset. Every call is the
  sequence of its transactions on the database. What a call draws from outside, the clock of each
  transaction and fresh identifiers, secrets and salts, is the record \<open>draws\<close>.
\<close>

section \<open>Values and errors\<close>

record user_identity =
  ui_id :: uuid
  ui_username :: string
  ui_email :: string
  ui_role :: string
  ui_is_active :: bool
  ui_email_verified :: bool
  ui_created_at :: time
  ui_last_login_at :: "time option"

definition user_identity_of :: "user \<Rightarrow> user_identity" where
  "user_identity_of u =
     \<lparr>ui_id = usr_id u, ui_username = usr_username u, ui_email = usr_email u, ui_role = usr_role u,
      ui_is_active = usr_is_active u, ui_email_verified = usr_email_verified u,
      ui_created_at = usr_created_at u, ui_last_login_at = usr_last_login_at u\<rparr>"

record issued_tokens =
  it_access_token :: string
  it_refresh_token :: string
  it_refresh_session_id :: uuid
  it_access_expires_in :: int
  it_refresh_expires_at :: time
  it_user :: user_identity

record pending_auth_email =
  pe_purpose :: string
  pe_token_id :: uuid
  pe_user_id :: uuid
  pe_recipient :: string
  pe_token :: string

text \<open>
  The expected errors, and what the database layer raises: a violated constraint, a row missing for
  \<open>scalar_one\<close>, several rows for \<open>scalar_one_or_none\<close>.
\<close>

datatype auth_error =
    Auth_value_error string
  | Duplicate_identity
  | Invalid_credentials
  | Invalid_token
  | Inactive_user
  | Rate_limited int
  | Invalid_action_token
  | Auth_integrity
  | Auth_no_row
  | Auth_multiple_rows

definition rate_limited :: "int \<Rightarrow> auth_error" where
  "rate_limited retry_after_seconds = Rate_limited (max 1 retry_after_seconds)"

record draws =
  dr_now1 :: time
  dr_now2 :: time
  dr_now3 :: time
  dr_event1 :: uuid
  dr_event2 :: uuid
  dr_event3 :: uuid
  dr_id :: uuid
  dr_family :: uuid
  dr_jti :: uuid
  dr_token :: string
  dr_salt :: nat

section \<open>Normalisation\<close>

definition normalize_username :: "string \<Rightarrow> auth_error + string" where
  "normalize_username username =
     (let normalized = lower (strip username);
          word = (\<lambda>c. is_lower c \<or> is_digit c)
      in if \<not> fullmatch word (\<lambda>c. word c \<or> c \<in> {CHR ''_'', CHR ''.'', CHR ''-''}) 2 31 normalized
         then Inl (Auth_value_error (''username must contain 3 to 32 lowercase letters, numbers, dots, '' @
           ''underscores, or hyphens''))
         else Inr normalized)"

definition normalize_email :: "auth_service \<Rightarrow> string \<Rightarrow> auth_error + string" where
  "normalize_email au email =
     (case au_validate_email au email of
        None \<Rightarrow> Inl (Auth_value_error ''email address is invalid'')
      | Some normalized \<Rightarrow> Inr (lower normalized))"

definition password_error :: "string \<Rightarrow> auth_error option" where
  "password_error password =
     (if length password < 12 \<or> 128 < length password \<or> length (strip password) < 12
      then Some (Auth_value_error ''password must contain 12 to 128 non-blank characters'') else None)"

section \<open>Rows\<close>

definition insert_user :: "user \<Rightarrow> database \<Rightarrow> database option" where
  "insert_user u db =
     (if usr_id u \<in> usr_id ` set (db_users db) \<or> usr_username u \<in> usr_username ` set (db_users db) \<or>
         usr_email u \<in> usr_email ` set (db_users db) \<or> \<not> user_row_ok u
      then None else Some (db\<lparr>db_users := db_users db @ [u]\<rparr>))"

definition find_session :: "string \<Rightarrow> database \<Rightarrow> refresh_session option" where
  "find_session token_sha256 db = find_row rs_token_sha256 token_sha256 (db_refresh_sessions db)"

definition put_session :: "refresh_session \<Rightarrow> database \<Rightarrow> database" where
  "put_session r db = db\<lparr>db_refresh_sessions := put_row rs_id r (db_refresh_sessions db)\<rparr>"

definition insert_session :: "refresh_session \<Rightarrow> database \<Rightarrow> database option" where
  "insert_session r db =
     (if rs_id r \<in> rs_id ` set (db_refresh_sessions db) \<or>
         rs_token_sha256 r \<in> rs_token_sha256 ` set (db_refresh_sessions db) \<or>
         get_user (rs_user_id r) db = None
      then None else Some (db\<lparr>db_refresh_sessions := db_refresh_sessions db @ [r]\<rparr>))"

definition find_action_token :: "string \<Rightarrow> string \<Rightarrow> database \<Rightarrow> auth_action_token option" where
  "find_action_token token_sha256 purpose db =
     find (\<lambda>t. aat_token_sha256 t = token_sha256 \<and> aat_purpose t = purpose) (db_action_tokens db)"

definition put_action_token :: "auth_action_token \<Rightarrow> database \<Rightarrow> database" where
  "put_action_token t db = db\<lparr>db_action_tokens := put_row aat_id t (db_action_tokens db)\<rparr>"

definition insert_action_token :: "auth_action_token \<Rightarrow> database \<Rightarrow> database option" where
  "insert_action_token t db =
     (if aat_id t \<in> aat_id ` set (db_action_tokens db) \<or>
         aat_token_sha256 t \<in> aat_token_sha256 ` set (db_action_tokens db) \<or>
         get_user (aat_user_id t) db = None \<or> \<not> auth_action_token_row_ok t
      then None else Some (db\<lparr>db_action_tokens := db_action_tokens db @ [t]\<rparr>))"

section \<open>Registration\<close>

definition new_user :: "uuid \<Rightarrow> string \<Rightarrow> string \<Rightarrow> string \<Rightarrow> time \<Rightarrow> user" where
  "new_user k username email password_hash now =
     \<lparr>usr_id = k, usr_username = username, usr_email = email, usr_password_hash = password_hash,
      usr_role = ''user'', usr_is_active = True, usr_email_verified = False, usr_created_at = now,
      usr_updated_at = now, usr_last_login_at = None\<rparr>"

text \<open>
  A registration is two transactions: the attempt is checked and charged in the first, the account is
  inserted in the second, and what the first hands to the second is a record. Other calls may come between.
\<close>

record registration =
  rg_username :: string
  rg_email :: string
  rg_password :: string
  rg_identifier :: string
  rg_context :: "auth_context option"

definition admit_registration ::
  "auth_service \<Rightarrow> string \<Rightarrow> string \<Rightarrow> string \<Rightarrow> auth_context option \<Rightarrow> draws \<Rightarrow> database \<Rightarrow>
     (auth_error, registration, database) outcome" where
  "admit_registration au username email password context dr db =
     (case normalize_username username of Inl e \<Rightarrow> (Inl e, db) | Inr normalized_username \<Rightarrow>
      case normalize_email au email of Inl e \<Rightarrow> (Inl e, db) | Inr normalized_email \<Rightarrow>
      case password_error password of Some e \<Rightarrow> (Inl e, db) | None \<Rightarrow>
        let identifier = identifier_fingerprint au normalized_email;
            keys = registration_keys au normalized_username normalized_email (client_ip_fingerprint au context)
        in (case consume_registration_attempt (au_settings au) keys (dr_now1 dr) db of
              (Some retry_after, db1) \<Rightarrow>
                (Inl (rate_limited retry_after), add_auth_event
                  (new_auth_event au (dr_event1 dr) ''register'' ''blocked'' context (dr_now1 dr)
                    \<lparr>ae_identifier_fingerprint := Some identifier, ae_reason_code := Some ''rate_limited''\<rparr>) db1)
            | (None, db1) \<Rightarrow>
                (Inr \<lparr>rg_username = normalized_username, rg_email = normalized_email, rg_password = password,
                   rg_identifier = identifier, rg_context = context\<rparr>, db1)))"

definition insert_registration ::
  "auth_service \<Rightarrow> registration \<Rightarrow> draws \<Rightarrow> database \<Rightarrow> (auth_error, user_identity, database) outcome" where
  "insert_registration au rg dr db =
     (let user = new_user (dr_id dr) (rg_username rg) (rg_email rg)
            (au_password_hash au (dr_salt dr) (rg_password rg)) (dr_now2 dr)
      in case insert_user user db of
           None \<Rightarrow>
             (Inl Duplicate_identity, add_auth_event
               (new_auth_event au (dr_event3 dr) ''register'' ''failure'' (rg_context rg) (dr_now3 dr)
                 \<lparr>ae_identifier_fingerprint := Some (rg_identifier rg),
                  ae_reason_code := Some ''duplicate_identity''\<rparr>) db)
         | Some db1 \<Rightarrow>
             (Inr (user_identity_of user), add_auth_event
               (new_auth_event au (dr_event2 dr) ''register'' ''success'' (rg_context rg) (dr_now2 dr)
                 \<lparr>ae_user_id := Some (usr_id user), ae_identifier_fingerprint := Some (rg_identifier rg)\<rparr>) db1))"

text \<open>The whole call, when nothing comes between.\<close>

definition register ::
  "auth_service \<Rightarrow> string \<Rightarrow> string \<Rightarrow> string \<Rightarrow> auth_context option \<Rightarrow> draws \<Rightarrow> database \<Rightarrow>
     (auth_error, user_identity, database) outcome" where
  "register au username email password context dr db =
     (case admit_registration au username email password context dr db of
        (Inl e, db1) \<Rightarrow> (Inl e, db1)
      | (Inr rg, db1) \<Rightarrow> insert_registration au rg dr db1)"

section \<open>Issuing tokens\<close>

definition access_claims :: "auth_settings \<Rightarrow> uuid \<Rightarrow> uuid \<Rightarrow> time \<Rightarrow> jwt_claims" where
  "access_claims s user_id jti now =
     \<lparr>jc_sub = ''user:'' @ uuid_str user_id, jc_jti = uuid_str jti, jc_token_use = ''access'',
      jc_iss = as_jwt_issuer s, jc_aud = as_jwt_audience s, jc_iat = now,
      jc_exp = now + seconds (as_access_token_ttl_minutes s * 60)\<rparr>"

definition new_session :: "auth_service \<Rightarrow> uuid \<Rightarrow> draws \<Rightarrow> time \<Rightarrow> time \<Rightarrow> uuid \<Rightarrow> refresh_session" where
  "new_session au user_id dr now expires_at family_id =
     \<lparr>rs_id = dr_id dr, rs_user_id = user_id, rs_family_id = family_id,
      rs_token_sha256 = au_sha256 au (dr_token dr), rs_created_at = now, rs_expires_at = expires_at,
      rs_last_used_at = None, rs_revoked_at = None, rs_replaced_by_id = None\<rparr>"

text \<open>\<open>_issue_tokens\<close>; \<open>None\<close> is the violated constraint of the new session row.\<close>

definition issue_tokens ::
  "auth_service \<Rightarrow> user \<Rightarrow> draws \<Rightarrow> time \<Rightarrow> time option \<Rightarrow> uuid option \<Rightarrow> database \<Rightarrow>
     (issued_tokens \<times> database) option" where
  "issue_tokens au user dr now refresh_expires_at refresh_family_id db =
     (let s = au_settings au;
          expires_at = (case refresh_expires_at of Some t \<Rightarrow> t
            | None \<Rightarrow> now + days (as_refresh_token_ttl_days s));
          family_id = (case refresh_family_id of Some f \<Rightarrow> f | None \<Rightarrow> dr_family dr)
      in case insert_session (new_session au (usr_id user) dr now expires_at family_id) db of
           None \<Rightarrow> None
         | Some db' \<Rightarrow>
             Some (\<lparr>it_access_token = au_jwt_encode au (access_claims s (usr_id user) (dr_jti dr) now)
                      (as_jwt_secret s),
                    it_refresh_token = dr_token dr, it_refresh_session_id = dr_id dr,
                    it_access_expires_in = as_access_token_ttl_minutes s * 60,
                    it_refresh_expires_at = expires_at, it_user = user_identity_of user\<rparr>, db'))"

section \<open>Login\<close>

text \<open>The user row a login reads: \<open>scalar_one_or_none\<close> raises on several rows.\<close>

definition find_login_user :: "string \<Rightarrow> database \<Rightarrow> auth_error + user option" where
  "find_login_user identifier db =
     (case filter (\<lambda>u. usr_username u = identifier \<or> usr_email u = identifier) (db_users db) of
        [] \<Rightarrow> Inr None
      | [u] \<Rightarrow> Inr (Some u)
      | _ \<Rightarrow> Inl Auth_multiple_rows)"

text \<open>The failure of \<open>_record_login_failure\<close>, and that of the branch for an inactive user.\<close>

definition note_login_failure ::
  "auth_service \<Rightarrow> throttle_key list \<Rightarrow> auth_context option \<Rightarrow> string \<Rightarrow> uuid option \<Rightarrow> string \<Rightarrow> draws \<Rightarrow>
     database \<Rightarrow> database" where
  "note_login_failure au keys context identifier user_id reason_code dr db =
     add_auth_event
       (new_auth_event au (dr_event2 dr) ''login'' ''failure'' context (dr_now2 dr)
         \<lparr>ae_user_id := user_id, ae_identifier_fingerprint := Some identifier,
          ae_reason_code := Some reason_code\<rparr>)
       (record_login_failure (au_settings au) keys (dr_now2 dr) db)"

text \<open>The last transaction of a login with the right password.\<close>

definition complete_login ::
  "auth_service \<Rightarrow> uuid \<Rightarrow> throttle_key list \<Rightarrow> auth_context option \<Rightarrow> string \<Rightarrow> draws \<Rightarrow> database \<Rightarrow>
     (auth_error, issued_tokens, database) outcome" where
  "complete_login au user_id keys context identifier dr db =
     (let now = dr_now2 dr
      in case get_user user_id db of
           None \<Rightarrow> (Inl Auth_no_row, db)
         | Some current_user \<Rightarrow>
             if \<not> usr_is_active current_user
             then (Inl Inactive_user, note_login_failure au keys context identifier
               (Some (usr_id current_user)) ''inactive_user'' dr db)
             else
               let user = current_user\<lparr>usr_last_login_at := Some now, usr_updated_at := now\<rparr>;
                   db1 = put_user user (reset_account_throttle keys now db)
               in (case issue_tokens au user dr now None None db1 of
                     None \<Rightarrow> (Inl Auth_integrity, db)
                   | Some (issued, db2) \<Rightarrow>
                       (Inr issued, add_auth_event
                         (new_auth_event au (dr_event2 dr) ''login'' ''success'' context now
                           \<lparr>ae_user_id := Some (usr_id user),
                            ae_refresh_session_id := Some (it_refresh_session_id issued),
                            ae_identifier_fingerprint := Some identifier\<rparr>) db2)))"

text \<open>
  A login is three transactions: the user is read, then the check of the throttle is committed, then, after
  the password was compared, the failure or the success is recorded. What was read is kept in between, and
  other calls, logins under the same keys among them, may come between.
\<close>

record login_attempt =
  la_identifier :: string
  la_user_id :: "uuid option"
  la_stored_hash :: string
  la_keys :: "throttle_key list"
  la_context :: "auth_context option"

definition read_login ::
  "auth_service \<Rightarrow> string \<Rightarrow> auth_context option \<Rightarrow> database \<Rightarrow> auth_error + login_attempt" where
  "read_login au identifier context db =
     (let normalized_identifier = lower (strip identifier)
      in case find_login_user normalized_identifier db of
           Inl e \<Rightarrow> Inl e
         | Inr user \<Rightarrow>
             let user_id = map_option usr_id user
             in Inr \<lparr>la_identifier = identifier_fingerprint au normalized_identifier, la_user_id = user_id,
                  la_stored_hash = (case user of Some u \<Rightarrow> usr_password_hash u | None \<Rightarrow> au_dummy_password_hash au),
                  la_keys = login_keys au (login_account_fingerprint au normalized_identifier user_id)
                    (client_ip_fingerprint au context),
                  la_context = context\<rparr>)"

definition check_login :: "auth_service \<Rightarrow> login_attempt \<Rightarrow> draws \<Rightarrow> database \<Rightarrow> (auth_error, unit, database) outcome" where
  "check_login au la dr db =
     (case login_retry_after (au_settings au) (la_keys la) (dr_now1 dr) db of
        (Some retry_after, db1) \<Rightarrow>
          (Inl (rate_limited retry_after), add_auth_event
            (new_auth_event au (dr_event1 dr) ''login'' ''blocked'' (la_context la) (dr_now1 dr)
              \<lparr>ae_user_id := la_user_id la, ae_identifier_fingerprint := Some (la_identifier la),
               ae_reason_code := Some ''rate_limited''\<rparr>) db1)
      | (None, db1) \<Rightarrow> (Inr (), db1))"

definition finish_login ::
  "auth_service \<Rightarrow> login_attempt \<Rightarrow> string \<Rightarrow> draws \<Rightarrow> database \<Rightarrow> (auth_error, issued_tokens, database) outcome" where
  "finish_login au la password dr db =
     (case la_user_id la of
        None \<Rightarrow> (Inl Invalid_credentials, note_login_failure au (la_keys la) (la_context la) (la_identifier la)
          None ''invalid_credentials'' dr db)
      | Some k \<Rightarrow>
          if \<not> au_password_verify au password (la_stored_hash la)
          then (Inl Invalid_credentials, note_login_failure au (la_keys la) (la_context la) (la_identifier la)
            (Some k) ''invalid_credentials'' dr db)
          else complete_login au k (la_keys la) (la_context la) (la_identifier la) dr db)"

text \<open>The whole call, when nothing comes between.\<close>

definition login ::
  "auth_service \<Rightarrow> string \<Rightarrow> string \<Rightarrow> auth_context option \<Rightarrow> draws \<Rightarrow> database \<Rightarrow>
     (auth_error, issued_tokens, database) outcome" where
  "login au identifier password context dr db =
     (case read_login au identifier context db of
        Inl e \<Rightarrow> (Inl e, db)
      | Inr la \<Rightarrow>
          (case check_login au la dr db of
             (Inl e, db1) \<Rightarrow> (Inl e, db1)
           | (Inr _, db1) \<Rightarrow> finish_login au la password dr db1))"

section \<open>Refresh sessions\<close>

definition revoke_family :: "uuid \<Rightarrow> time \<Rightarrow> database \<Rightarrow> database" where
  "revoke_family family_id now db = db\<lparr>db_refresh_sessions :=
     update_where (\<lambda>r. rs_family_id r = family_id \<and> rs_revoked_at r = None)
       (\<lambda>r. r\<lparr>rs_revoked_at := Some now\<rparr>) (db_refresh_sessions db)\<rparr>"

definition refresh_event ::
  "auth_service \<Rightarrow> refresh_session \<Rightarrow> string \<Rightarrow> string option \<Rightarrow> auth_context option \<Rightarrow> draws \<Rightarrow> auth_event" where
  "refresh_event au current outcome reason_code context dr =
     new_auth_event au (dr_event1 dr) ''refresh'' outcome context (dr_now1 dr)
       \<lparr>ae_user_id := Some (rs_user_id current), ae_refresh_session_id := Some (rs_id current),
        ae_reason_code := reason_code\<rparr>"

definition refresh ::
  "auth_service \<Rightarrow> string option \<Rightarrow> auth_context option \<Rightarrow> draws \<Rightarrow> database \<Rightarrow>
     (auth_error, issued_tokens, database) outcome" where
  "refresh au refresh_token context dr db =
     (if refresh_token = None \<or> refresh_token = Some [] then (Inl Invalid_token, db)
      else
        let now = dr_now1 dr
        in case find_session (au_sha256 au (the refresh_token)) db of
             None \<Rightarrow> (Inl Invalid_token, db)
           | Some current \<Rightarrow>
               if rs_revoked_at current \<noteq> None
               then
                 if rs_replaced_by_id current \<noteq> None
                 then (Inl Invalid_token, add_auth_event
                   (refresh_event au current ''reuse'' (Some ''refresh_reuse_detected'') context dr)
                   (revoke_family (rs_family_id current) now db))
                 else (Inl Invalid_token, add_auth_event
                   (refresh_event au current ''failure'' (Some ''refresh_revoked'') context dr) db)
               else if now < rs_expires_at current
               then
                 (case get_user (rs_user_id current) db of
                    None \<Rightarrow> (Inl Inactive_user, add_auth_event
                      (refresh_event au current ''failure'' (Some ''inactive_user'') context dr) db)
                  | Some user \<Rightarrow>
                      if \<not> usr_is_active user
                      then (Inl Inactive_user, add_auth_event
                        (refresh_event au current ''failure'' (Some ''inactive_user'') context dr) db)
                      else
                        (case issue_tokens au user dr now (Some (rs_expires_at current))
                           (Some (rs_family_id current)) db of
                           None \<Rightarrow> (Inl Auth_integrity, db)
                         | Some (issued, db1) \<Rightarrow>
                             (Inr issued, add_auth_event (refresh_event au current ''success'' None context dr)
                               (put_session (current\<lparr>rs_revoked_at := Some now, rs_last_used_at := Some now,
                                  rs_replaced_by_id := Some (it_refresh_session_id issued)\<rparr>) db1))))
               else (Inl Invalid_token, add_auth_event
                 (refresh_event au current ''failure'' (Some ''refresh_invalid_or_expired'') context dr) db))"

definition logout ::
  "auth_service \<Rightarrow> string option \<Rightarrow> auth_context option \<Rightarrow> draws \<Rightarrow> database \<Rightarrow> database" where
  "logout au refresh_token context dr db =
     (let now = dr_now1 dr;
          current = (if refresh_token = None \<or> refresh_token = Some [] then None
            else find_session (au_sha256 au (the refresh_token)) db)
      in case current of
           None \<Rightarrow> db
         | Some r \<Rightarrow>
             let session_was_active = rs_revoked_at r = None;
                 db1 = (if session_was_active then put_session (r\<lparr>rs_revoked_at := Some now\<rparr>) db else db)
             in add_auth_event
                  (new_auth_event au (dr_event1 dr) ''logout'' ''success'' context now
                    \<lparr>ae_user_id := Some (rs_user_id r), ae_refresh_session_id := Some (rs_id r),
                     ae_reason_code := if session_was_active then None else Some ''session_not_active''\<rparr>) db1)"

section \<open>Action tokens\<close>

definition open_token :: "uuid \<Rightarrow> string \<Rightarrow> auth_action_token \<Rightarrow> bool" where
  "open_token user_id purpose t \<longleftrightarrow>
     aat_user_id t = user_id \<and> aat_purpose t = purpose \<and> aat_consumed_at t = None \<and> aat_revoked_at t = None"

definition revoke_tokens :: "(auth_action_token \<Rightarrow> bool) \<Rightarrow> time \<Rightarrow> database \<Rightarrow> database" where
  "revoke_tokens p now db = db\<lparr>db_action_tokens :=
     update_where p (\<lambda>t. t\<lparr>aat_revoked_at := Some now\<rparr>) (db_action_tokens db)\<rparr>"

definition action_token_is_active :: "auth_action_token option \<Rightarrow> time \<Rightarrow> bool" where
  "action_token_is_active action_token now \<longleftrightarrow>
     (case action_token of None \<Rightarrow> False
      | Some t \<Rightarrow> aat_consumed_at t = None \<and> aat_revoked_at t = None \<and> now < aat_expires_at t)"

definition issue_action_token ::
  "auth_service \<Rightarrow> user \<Rightarrow> string \<Rightarrow> time \<Rightarrow> int \<Rightarrow> draws \<Rightarrow> database \<Rightarrow>
     (pending_auth_email \<times> database) option" where
  "issue_action_token au user purpose now ttl dr db =
     (let db1 = revoke_tokens (open_token (usr_id user) purpose) now db;
          token = \<lparr>aat_id = dr_id dr, aat_user_id = usr_id user, aat_purpose = purpose,
            aat_token_sha256 = au_sha256 au (dr_token dr), aat_created_at = now,
            aat_expires_at = now + ttl, aat_consumed_at = None, aat_revoked_at = None\<rparr>
      in case insert_action_token token db1 of
           None \<Rightarrow> None
         | Some db2 \<Rightarrow>
             Some (\<lparr>pe_purpose = purpose, pe_token_id = dr_id dr, pe_user_id = usr_id user,
                    pe_recipient = usr_email user, pe_token = dr_token dr\<rparr>, db2))"

definition expire_known_action_token ::
  "auth_service \<Rightarrow> auth_action_token option \<Rightarrow> time \<Rightarrow> auth_context option \<Rightarrow> draws \<Rightarrow> database \<Rightarrow> database" where
  "expire_known_action_token au action_token now context dr db =
     (case action_token of None \<Rightarrow> db
      | Some t \<Rightarrow>
          if aat_consumed_at t \<noteq> None \<or> aat_revoked_at t \<noteq> None \<or> now < aat_expires_at t then db
          else add_auth_event
            (new_auth_event au (dr_event1 dr) (aat_purpose t) ''failure'' context now
              \<lparr>ae_user_id := Some (aat_user_id t), ae_reason_code := Some ''expired''\<rparr>)
            (put_action_token (t\<lparr>aat_revoked_at := Some now\<rparr>) db))"

definition revoke_other_action_tokens :: "uuid \<Rightarrow> string \<Rightarrow> uuid \<Rightarrow> time \<Rightarrow> database \<Rightarrow> database" where
  "revoke_other_action_tokens user_id purpose keep_id now db =
     revoke_tokens (\<lambda>t. open_token user_id purpose t \<and> aat_id t \<noteq> keep_id) now db"

definition token_event ::
  "auth_service \<Rightarrow> user \<Rightarrow> string \<Rightarrow> string \<Rightarrow> string \<Rightarrow> auth_context option \<Rightarrow> draws \<Rightarrow> time \<Rightarrow> auth_event" where
  "token_event au user purpose outcome reason_code context dr now =
     new_auth_event au (dr_event1 dr) purpose outcome context now
       \<lparr>ae_user_id := Some (usr_id user),
        ae_identifier_fingerprint := Some (identifier_fingerprint au (usr_email user)),
        ae_reason_code := Some reason_code\<rparr>"

section \<open>Email verification\<close>

definition request_email_verification ::
  "auth_service \<Rightarrow> uuid \<Rightarrow> auth_context option \<Rightarrow> draws \<Rightarrow> database \<Rightarrow>
     (auth_error, pending_auth_email option, database) outcome" where
  "request_email_verification au user_id context dr db =
     (case get_user user_id db of
        None \<Rightarrow> (Inl Inactive_user, db)
      | Some user \<Rightarrow>
          if \<not> usr_is_active user then (Inl Inactive_user, db)
          else
            let now = dr_now1 dr;
                keys = action_request_keys au ''email_verification'' (''user:'' @ uuid_str (usr_id user))
                  (client_ip_fingerprint au context)
            in (case consume_action_request (au_settings au) keys now db of
                  (Some retry_after, db1) \<Rightarrow>
                    (Inl (rate_limited retry_after), add_auth_event
                      (token_event au user ''email_verification'' ''blocked'' ''rate_limited'' context dr now) db1)
                | (None, db1) \<Rightarrow>
                    if usr_email_verified user
                    then (Inr None, add_auth_event
                      (token_event au user ''email_verification'' ''success'' ''already_verified'' context dr now) db1)
                    else
                      (case issue_action_token au user ''email_verification'' now
                         (hours (as_email_verification_ttl_hours (au_settings au))) dr db1 of
                         None \<Rightarrow> (Inl Auth_integrity, db)
                       | Some (pending, db2) \<Rightarrow> (Inr (Some pending), db2))))"

definition confirm_email_verification ::
  "auth_service \<Rightarrow> string \<Rightarrow> auth_context option \<Rightarrow> draws \<Rightarrow> database \<Rightarrow>
     (auth_error, user_identity, database) outcome" where
  "confirm_email_verification au token context dr db =
     (let now = dr_now1 dr;
          action_token = find_action_token (au_sha256 au token) ''email_verification'' db
      in if \<not> action_token_is_active action_token now
         then (Inl Invalid_action_token, expire_known_action_token au action_token now context dr db)
         else
           let t = the action_token
           in case get_user (aat_user_id t) db of
                None \<Rightarrow> (Inl Invalid_action_token, put_action_token (t\<lparr>aat_revoked_at := Some now\<rparr>) db)
              | Some current \<Rightarrow>
                  if \<not> usr_is_active current
                  then (Inl Invalid_action_token, put_action_token (t\<lparr>aat_revoked_at := Some now\<rparr>) db)
                  else
                    let user = current\<lparr>usr_email_verified := True, usr_updated_at := now\<rparr>;
                        db1 = put_action_token (t\<lparr>aat_consumed_at := Some now\<rparr>) (put_user user db);
                        db2 = revoke_other_action_tokens (usr_id user) ''email_verification'' (aat_id t) now db1
                    in (Inr (user_identity_of user), add_auth_event
                      (token_event au user ''email_verification'' ''success'' ''confirmed'' context dr now) db2))"

section \<open>Password reset\<close>

definition request_password_reset ::
  "auth_service \<Rightarrow> string \<Rightarrow> auth_context option \<Rightarrow> draws \<Rightarrow> database \<Rightarrow>
     (auth_error, pending_auth_email option, database) outcome" where
  "request_password_reset au email context dr db =
     (case normalize_email au email of
        Inl e \<Rightarrow> (Inl e, db)
      | Inr normalized_email \<Rightarrow>
          let now = dr_now1 dr;
              keys = action_request_keys au ''password_reset'' (''email:'' @ normalized_email)
                (client_ip_fingerprint au context)
          in (case consume_action_request (au_settings au) keys now db of
                (Some _, db1) \<Rightarrow> (Inr None, db1)
              | (None, db1) \<Rightarrow>
                  (case find_row usr_email normalized_email (db_users db1) of
                     None \<Rightarrow> (Inr None, db1)
                   | Some user \<Rightarrow>
                       if \<not> usr_is_active user then (Inr None, db1)
                       else
                         (case issue_action_token au user ''password_reset'' now
                            (minutes (as_password_reset_ttl_minutes (au_settings au))) dr db1 of
                            None \<Rightarrow> (Inl Auth_integrity, db)
                          | Some (pending, db2) \<Rightarrow> (Inr (Some pending), db2)))))"

definition revoke_user_sessions :: "uuid \<Rightarrow> time \<Rightarrow> database \<Rightarrow> database" where
  "revoke_user_sessions user_id now db = db\<lparr>db_refresh_sessions :=
     update_where (\<lambda>r. rs_user_id r = user_id \<and> rs_revoked_at r = None)
       (\<lambda>r. r\<lparr>rs_revoked_at := Some now\<rparr>) (db_refresh_sessions db)\<rparr>"

text \<open>
  The token is looked at in a read of its own at the first clock, and again under the lock at the second.
\<close>

definition confirm_password_reset ::
  "auth_service \<Rightarrow> string \<Rightarrow> string \<Rightarrow> auth_context option \<Rightarrow> draws \<Rightarrow> database \<Rightarrow>
     (auth_error, unit, database) outcome" where
  "confirm_password_reset au token new_password context dr db =
     (case password_error new_password of Some e \<Rightarrow> (Inl e, db) | None \<Rightarrow>
        let now = dr_now2 dr;
            action_token = find_action_token (au_sha256 au token) ''password_reset'' db
        in if \<not> action_token_is_active action_token (dr_now1 dr) then (Inl Invalid_action_token, db)
           else if \<not> action_token_is_active action_token now
           then (Inl Invalid_action_token, expire_known_action_token au action_token now context dr db)
           else
             let t = the action_token
             in case get_user (aat_user_id t) db of
                  None \<Rightarrow> (Inl Invalid_action_token, put_action_token (t\<lparr>aat_revoked_at := Some now\<rparr>) db)
                | Some current \<Rightarrow>
                    if \<not> usr_is_active current
                    then (Inl Invalid_action_token, put_action_token (t\<lparr>aat_revoked_at := Some now\<rparr>) db)
                    else
                      let user = current\<lparr>usr_password_hash := au_password_hash au (dr_salt dr) new_password,
                            usr_email_verified := True, usr_updated_at := now\<rparr>;
                          db1 = put_action_token (t\<lparr>aat_consumed_at := Some now\<rparr>) (put_user user db);
                          db2 = revoke_other_action_tokens (usr_id user) ''password_reset'' (aat_id t) now db1;
                          db3 = revoke_user_sessions (usr_id user) now db2
                      in (Inr (), add_auth_event
                        (token_event au user ''password_reset'' ''success'' ''confirmed'' context dr now) db3))"

section \<open>Delivery\<close>

definition finish_auth_email_delivery ::
  "auth_service \<Rightarrow> pending_auth_email \<Rightarrow> bool \<Rightarrow> auth_context option \<Rightarrow> draws \<Rightarrow> database \<Rightarrow> database" where
  "finish_auth_email_delivery au pending delivered context dr db =
     (case find_row aat_id (pe_token_id pending) (db_action_tokens db) of
        None \<Rightarrow> db
      | Some t \<Rightarrow>
          let now = dr_now1 dr;
              db1 = (if \<not> delivered \<and> aat_consumed_at t = None
                then put_action_token (t\<lparr>aat_revoked_at := Some now\<rparr>) db else db)
          in add_auth_event
               (new_auth_event au (dr_event1 dr) (pe_purpose pending) (if delivered then ''success'' else ''failure'')
                 context now
                 \<lparr>ae_user_id := Some (pe_user_id pending),
                  ae_identifier_fingerprint := Some (identifier_fingerprint au (pe_recipient pending)),
                  ae_reason_code := Some (if delivered then ''delivered'' else ''delivery_failed'')\<rparr>) db1)"

text \<open>\<open>sent\<close> is whether the mail sender returned, rather than raised \<open>EmailDeliveryError\<close>.\<close>

definition deliver_auth_email ::
  "auth_service \<Rightarrow> pending_auth_email \<Rightarrow> bool \<Rightarrow> auth_context option \<Rightarrow> draws \<Rightarrow> database \<Rightarrow>
     (auth_error, unit, database) outcome" where
  "deliver_auth_email au pending sent context dr db =
     (if pe_purpose pending \<notin> {''email_verification'', ''password_reset''}
      then (Inl (Auth_value_error (''unsupported authentication email: '' @ pe_purpose pending)), db)
      else (Inr (), finish_auth_email_delivery au pending sent context dr db))"

end
