(* ===== verification/Auth_Contract.thy ===== *)
theory Auth_Contract
  imports Auth_Service
begin

text \<open>
  The contract of the authentication service: how its calls change the tables of refresh sessions and
  of action tokens. Each call is one step of the session table and some steps of the token table,
  both written as step relations; the invariant makes every family of sessions a chain with at most
  one live end, and rows follow each other: what is revoked or consumed stays so.
\<close>

section \<open>Frames\<close>

lemma fold_frame: "(\<And>k x. f (g k x) = f x) \<Longrightarrow> f (fold g ks x) = f x"
  by (induction ks arbitrary: x) simp_all

lemma fold_frame_snd: "(\<And>k r x. f (snd (g k (r, x))) = f x) \<Longrightarrow> f (snd (fold g ks (r, x))) = f x"
proof (induction ks arbitrary: r x)
  case (Cons k ks)
  obtain r' x' where g: "g k (r, x) = (r', x')" by fastforce
  then have "f x' = f x" using Cons.prems [of k r x] by simp
  with g Cons show ?case by simp
qed simp

lemma check_key_frames [simp]:
  "db_refresh_sessions (snd (check_registration_key w now k (r, db))) = db_refresh_sessions db"
  "db_action_tokens (snd (check_registration_key w now k (r, db))) = db_action_tokens db"
  "db_users (snd (check_registration_key w now k (r, db))) = db_users db"
  "db_throttle_buckets (snd (check_registration_key w now k (r, db))) = db_throttle_buckets db"
  "db_refresh_sessions (snd (check_action_key w now ka (r, db))) = db_refresh_sessions db"
  "db_action_tokens (snd (check_action_key w now ka (r, db))) = db_action_tokens db"
  "db_users (snd (check_action_key w now ka (r, db))) = db_users db"
  "db_throttle_buckets (snd (check_action_key w now ka (r, db))) = db_throttle_buckets db"
  "db_refresh_sessions (snd (check_login_key w now k (r, db))) = db_refresh_sessions db"
  "db_action_tokens (snd (check_login_key w now k (r, db))) = db_action_tokens db"
  "db_users (snd (check_login_key w now k (r, db))) = db_users db"
  by (simp_all add: check_registration_key_def check_action_key_def check_login_key_def
      put_registration_bucket_def put_action_bucket_def put_throttle_bucket_def Let_def split: option.split)

lemma charge_key_frames [simp]:
  "db_refresh_sessions (charge_registration_key b now k db) = db_refresh_sessions db"
  "db_action_tokens (charge_registration_key b now k db) = db_action_tokens db"
  "db_users (charge_registration_key b now k db) = db_users db"
  "db_throttle_buckets (charge_registration_key b now k db) = db_throttle_buckets db"
  "db_refresh_sessions (charge_action_key b now ka db) = db_refresh_sessions db"
  "db_action_tokens (charge_action_key b now ka db) = db_action_tokens db"
  "db_users (charge_action_key b now ka db) = db_users db"
  "db_throttle_buckets (charge_action_key b now ka db) = db_throttle_buckets db"
  "db_refresh_sessions (record_failure_key w b now k db) = db_refresh_sessions db"
  "db_action_tokens (record_failure_key w b now k db) = db_action_tokens db"
  "db_users (record_failure_key w b now k db) = db_users db"
  by (simp_all add: charge_registration_key_def charge_action_key_def record_failure_key_def
      get_or_create_registration_bucket_def get_or_create_action_request_bucket_def
      get_or_create_throttle_bucket_def put_registration_bucket_def put_action_bucket_def
      put_throttle_bucket_def Let_def split: option.split)

lemma consume_frames [simp]:
  "db_refresh_sessions (snd (consume_registration_attempt s keys now db)) = db_refresh_sessions db"
  "db_action_tokens (snd (consume_registration_attempt s keys now db)) = db_action_tokens db"
  "db_users (snd (consume_registration_attempt s keys now db)) = db_users db"
  "db_throttle_buckets (snd (consume_registration_attempt s keys now db)) = db_throttle_buckets db"
  "db_refresh_sessions (snd (consume_action_request s keys' now db)) = db_refresh_sessions db"
  "db_action_tokens (snd (consume_action_request s keys' now db)) = db_action_tokens db"
  "db_users (snd (consume_action_request s keys' now db)) = db_users db"
  "db_throttle_buckets (snd (consume_action_request s keys' now db)) = db_throttle_buckets db"
  "db_refresh_sessions (snd (login_retry_after s keys now db)) = db_refresh_sessions db"
  "db_action_tokens (snd (login_retry_after s keys now db)) = db_action_tokens db"
  "db_users (snd (login_retry_after s keys now db)) = db_users db"
  by (simp_all add: consume_registration_attempt_def consume_action_request_def login_retry_after_def
      case_prod_beta Let_def fold_frame_snd fold_frame)

lemma record_frames [simp]:
  "db_refresh_sessions (record_login_failure s keys now db) = db_refresh_sessions db"
  "db_action_tokens (record_login_failure s keys now db) = db_action_tokens db"
  "db_users (record_login_failure s keys now db) = db_users db"
  by (simp_all add: record_login_failure_def Let_def fold_frame)

lemma reset_frames [simp]:
  "db_refresh_sessions (reset_account_throttle keys now db) = db_refresh_sessions db"
  "db_action_tokens (reset_account_throttle keys now db) = db_action_tokens db"
  "db_users (reset_account_throttle keys now db) = db_users db"
  unfolding reset_account_throttle_def
  by (rule fold_frame, simp add: put_throttle_bucket_def split: option.split)+

lemma row_frames [simp]:
  "db_refresh_sessions (add_auth_event e db) = db_refresh_sessions db"
  "db_action_tokens (add_auth_event e db) = db_action_tokens db"
  "db_users (add_auth_event e db) = db_users db"
  "db_throttle_buckets (add_auth_event e db) = db_throttle_buckets db"
  "db_refresh_sessions (put_user u db) = db_refresh_sessions db"
  "db_action_tokens (put_user u db) = db_action_tokens db"
  "db_throttle_buckets (put_user u db) = db_throttle_buckets db"
  "db_refresh_sessions (put_session r db) = put_row rs_id r (db_refresh_sessions db)"
  "db_action_tokens (put_session r db) = db_action_tokens db"
  "db_throttle_buckets (put_session r db) = db_throttle_buckets db"
  "db_refresh_sessions (put_action_token t db) = db_refresh_sessions db"
  "db_action_tokens (put_action_token t db) = put_row aat_id t (db_action_tokens db)"
  "db_throttle_buckets (put_action_token t db) = db_throttle_buckets db"
  "db_refresh_sessions (revoke_tokens p now db) = db_refresh_sessions db"
  "db_action_tokens (revoke_tokens p now db) =
     update_where p (\<lambda>t. t\<lparr>aat_revoked_at := Some now\<rparr>) (db_action_tokens db)"
  "db_throttle_buckets (revoke_tokens p now db) = db_throttle_buckets db"
  "db_action_tokens (revoke_family f now db) = db_action_tokens db"
  "db_throttle_buckets (revoke_family f now db) = db_throttle_buckets db"
  "db_action_tokens (revoke_user_sessions v now db) = db_action_tokens db"
  "db_throttle_buckets (revoke_user_sessions v now db) = db_throttle_buckets db"
  by (simp_all add: add_auth_event_def put_user_def put_session_def put_action_token_def revoke_tokens_def
      revoke_family_def revoke_user_sessions_def)

lemma insert_frames:
  "insert_session r db = Some db' \<Longrightarrow> db' = db\<lparr>db_refresh_sessions := db_refresh_sessions db @ [r]\<rparr> \<and>
     rs_id r \<notin> rs_id ` set (db_refresh_sessions db) \<and>
     rs_token_sha256 r \<notin> rs_token_sha256 ` set (db_refresh_sessions db)"
  "insert_action_token t db = Some db' \<Longrightarrow> db' = db\<lparr>db_action_tokens := db_action_tokens db @ [t]\<rparr> \<and>
     aat_id t \<notin> aat_id ` set (db_action_tokens db) \<and>
     aat_token_sha256 t \<notin> aat_token_sha256 ` set (db_action_tokens db)"
  "insert_user u db = Some db' \<Longrightarrow> db' = db\<lparr>db_users := db_users db @ [u]\<rparr>"
  by (auto simp: insert_session_def insert_action_token_def insert_user_def split: if_splits)

section \<open>Steps of the session table\<close>

inductive session_change :: "refresh_session list \<Rightarrow> refresh_session list \<Rightarrow> bool" where
  kept: "session_change rs rs"
| started: "rs_id r \<notin> rs_id ` set rs \<Longrightarrow> rs_token_sha256 r \<notin> rs_token_sha256 ` set rs \<Longrightarrow>
    rs_family_id r \<notin> rs_family_id ` set rs \<Longrightarrow> rs_revoked_at r = None \<Longrightarrow> rs_replaced_by_id r = None \<Longrightarrow>
    session_change rs (rs @ [r])"
| rotated: "c \<in> set rs \<Longrightarrow> rs_revoked_at c = None \<Longrightarrow>
    rs_id r \<notin> rs_id ` set rs \<Longrightarrow> rs_token_sha256 r \<notin> rs_token_sha256 ` set rs \<Longrightarrow>
    rs_family_id r = rs_family_id c \<Longrightarrow> rs_user_id r = rs_user_id c \<Longrightarrow> rs_expires_at r = rs_expires_at c \<Longrightarrow>
    rs_revoked_at r = None \<Longrightarrow> rs_replaced_by_id r = None \<Longrightarrow>
    session_change rs (put_row rs_id (c\<lparr>rs_revoked_at := Some now, rs_last_used_at := Some now,
      rs_replaced_by_id := Some (rs_id r)\<rparr>) (rs @ [r]))"
| ended: "c \<in> set rs \<Longrightarrow> rs_revoked_at c = None \<Longrightarrow>
    session_change rs (put_row rs_id (c\<lparr>rs_revoked_at := Some now\<rparr>) rs)"
| revoked: "session_change rs
    (update_where (\<lambda>r. p r \<and> rs_revoked_at r = None) (\<lambda>r. r\<lparr>rs_revoked_at := Some now\<rparr>) rs)"

definition live :: "refresh_session \<Rightarrow> bool" where
  "live r \<longleftrightarrow> rs_revoked_at r = None"

text \<open>Two sessions of one family: the same owner and expiry, and not both live.\<close>

definition chained :: "refresh_session \<Rightarrow> refresh_session \<Rightarrow> bool" where
  "chained r r' \<longleftrightarrow> (rs_family_id r = rs_family_id r' \<longrightarrow>
     rs_user_id r = rs_user_id r' \<and> rs_expires_at r = rs_expires_at r' \<and> (live r \<and> live r' \<longrightarrow> r = r'))"

definition session_inv :: "refresh_session list \<Rightarrow> bool" where
  "session_inv rs \<longleftrightarrow>
     distinct (map rs_id rs) \<and> distinct (map rs_token_sha256 rs) \<and>
     (\<forall>r \<in> set rs. \<forall>r' \<in> set rs. chained r r') \<and>
     (\<forall>r \<in> set rs. rs_replaced_by_id r \<noteq> None \<longrightarrow> \<not> live r)"

lemma chained_refl [simp]: "chained r r"
  by (simp add: chained_def)

lemma chained_sym: "chained r r' \<longleftrightarrow> chained r' r"
  by (auto simp: chained_def)

text \<open>A revoked copy of a row, or a new row of another family, is chained to what the row was.\<close>

lemma chained_dead:
  "chained c x \<Longrightarrow> \<not> live c' \<Longrightarrow> rs_family_id c' = rs_family_id c \<Longrightarrow> rs_user_id c' = rs_user_id c \<Longrightarrow>
     rs_expires_at c' = rs_expires_at c \<Longrightarrow> chained c' x"
  by (auto simp: chained_def)

lemma chained_pairs:
  assumes "\<And>x y. x \<in> A \<Longrightarrow> y \<in> A \<Longrightarrow> chained x y" and "\<And>x. x \<in> A \<Longrightarrow> chained r x"
  shows "\<forall>x \<in> insert r A. \<forall>y \<in> insert r A. chained x y"
proof -
  have "chained x r" if "x \<in> A" for x using assms(2) [OF that] by (simp only: chained_sym [of x r])
  with assms show ?thesis by auto
qed

definition session_follows :: "refresh_session \<Rightarrow> refresh_session \<Rightarrow> bool" where
  "session_follows r r' \<longleftrightarrow>
     rs_id r' = rs_id r \<and> rs_user_id r' = rs_user_id r \<and> rs_family_id r' = rs_family_id r \<and>
     rs_token_sha256 r' = rs_token_sha256 r \<and> rs_expires_at r' = rs_expires_at r \<and>
     (\<not> live r \<longrightarrow> rs_revoked_at r' = rs_revoked_at r \<and> rs_replaced_by_id r' = rs_replaced_by_id r)"

definition dead_family :: "uuid \<Rightarrow> refresh_session list \<Rightarrow> bool" where
  "dead_family f rs \<longleftrightarrow> f \<in> rs_family_id ` set rs \<and> (\<forall>r \<in> set rs. rs_family_id r = f \<longrightarrow> \<not> live r)"

definition sessions_later :: "refresh_session list \<Rightarrow> refresh_session list \<Rightarrow> bool" where
  "sessions_later rs rs' \<longleftrightarrow>
     (\<forall>r \<in> set rs. \<exists>r' \<in> set rs'. session_follows r r') \<and> (\<forall>f. dead_family f rs \<longrightarrow> dead_family f rs')"

lemma session_follows_refl [simp]: "session_follows r r"
  by (simp add: session_follows_def)

lemma session_follows_trans: "session_follows a b \<Longrightarrow> session_follows b c \<Longrightarrow> session_follows a c"
  by (auto simp: session_follows_def live_def)

lemma sessions_later_refl: "sessions_later rs rs"
  by (auto simp: sessions_later_def intro: session_follows_refl)

lemma sessions_later_trans: "sessions_later a b \<Longrightarrow> sessions_later b c \<Longrightarrow> sessions_later a c"
  unfolding sessions_later_def by (meson session_follows_trans)

text \<open>Writing one row back, when the rows have distinct keys.\<close>

lemma set_put_distinct:
  assumes "distinct (map key rows)" and "c \<in> set rows" and "key r = key c"
  shows "set (put_row key r rows) = insert r (set rows - {c})"
  using set_put [OF assms(1), of r c] find_row_distinct [OF assms(1,2)] assms(3) by simp

lemma map_put_distinct:
  assumes "distinct (map key rows)" and "c \<in> set rows" and "key r = key c" and "f r = f c"
  shows "map f (put_row key r rows) = map f rows"
proof (rule map_put_other)
  fix x assume "x \<in> set rows" "key x = key r"
  with assms show "f x = f r" by (metis find_row_distinct option.inject)
qed

lemma session_inv_change:
  assumes "session_change rs rs'" and "session_inv rs"
  shows "session_inv rs'"
proof -
  from assms(2) have ids: "distinct (map rs_id rs)" and tokens: "distinct (map rs_token_sha256 rs)"
    and chain: "\<And>x y. x \<in> set rs \<Longrightarrow> y \<in> set rs \<Longrightarrow> chained x y"
    and replaced: "\<And>x. x \<in> set rs \<Longrightarrow> rs_replaced_by_id x \<noteq> None \<Longrightarrow> \<not> live x"
    by (simp_all add: session_inv_def)
  show ?thesis
    using assms(1)
  proof cases
    case kept
    with assms(2) show ?thesis by simp
  next
    case (started r)
    have "\<forall>x \<in> insert r (set rs). \<forall>y \<in> insert r (set rs). chained x y"
      by (rule chained_pairs [OF chain]) (use started(4) in \<open>auto simp: chained_def\<close>)
    moreover have "set rs' = insert r (set rs)" by (simp add: started(1))
    ultimately show ?thesis
      using ids tokens replaced started(2,3,6) by (auto simp: session_inv_def started(1))
  next
    case (rotated c r now)
    let ?c = "c\<lparr>rs_revoked_at := Some now, rs_last_used_at := Some now, rs_replaced_by_id := Some (rs_id r)\<rparr>"
    have d: "distinct (map rs_id (rs @ [r]))" and c: "c \<in> set (rs @ [r])"
      using ids rotated(2,4) by auto
    have "c \<noteq> r" using rotated(2,4) by auto
    then have set: "set rs' = insert ?c (insert r (set rs - {c}))"
      using set_put_distinct [OF d c, of ?c] rotated(1,4) by auto
    have dead: "\<not> live x" if "x \<in> set rs" "rs_family_id x = rs_family_id c" "x \<noteq> c" for x
      using chain [OF that(1) rotated(2)] that rotated(3) by (auto simp: chained_def live_def)
    have r: "chained r x" if "x \<in> set rs - {c}" for x
      using dead [of x] that chain [of c x] rotated(2,6-8) by (auto simp: chained_def)
    have pairs: "\<forall>x \<in> insert r (set rs - {c}). \<forall>y \<in> insert r (set rs - {c}). chained x y"
      by (rule chained_pairs) (use chain r in auto)
    have "chained ?c x" if "x \<in> insert r (set rs - {c})" for x
    proof (cases "x = r")
      case True
      then show ?thesis using rotated(6-8) by (simp add: chained_def live_def)
    next
      case False
      with that chain rotated(2) have "chained c x" by auto
      then show ?thesis by (rule chained_dead) (simp_all add: live_def)
    qed
    then have "\<forall>x \<in> set rs'. \<forall>y \<in> set rs'. chained x y"
      unfolding set by (intro chained_pairs) (use pairs in auto)
    moreover have "map rs_id rs' = map rs_id (rs @ [r])" "map rs_token_sha256 rs' = map rs_token_sha256 (rs @ [r])"
      unfolding rotated(1) by (simp, rule map_put_distinct [OF d c]) simp_all
    moreover have "\<forall>x \<in> set rs'. rs_replaced_by_id x \<noteq> None \<longrightarrow> \<not> live x"
      unfolding set using replaced rotated(10) by (auto simp: live_def)
    ultimately show ?thesis using d tokens rotated(5) by (simp add: session_inv_def)
  next
    case (ended c now)
    let ?c = "c\<lparr>rs_revoked_at := Some now\<rparr>"
    have set: "set rs' = insert ?c (set rs - {c})"
      unfolding ended(1) by (rule set_put_distinct [OF ids ended(2)]) simp
    have "chained ?c x" if "x \<in> set rs - {c}" for x
    proof -
      have "chained c x" using that chain ended(2) by auto
      then show ?thesis by (rule chained_dead) (simp_all add: live_def)
    qed
    then have "\<forall>x \<in> set rs'. \<forall>y \<in> set rs'. chained x y"
      unfolding set by (intro chained_pairs) (use chain in auto)
    moreover have "map rs_id rs' = map rs_id rs" "map rs_token_sha256 rs' = map rs_token_sha256 rs"
      unfolding ended(1) by (simp, rule map_put_distinct [OF ids ended(2)]) simp_all
    moreover have "\<forall>x \<in> set rs'. rs_replaced_by_id x \<noteq> None \<longrightarrow> \<not> live x"
      unfolding set using replaced by (auto simp: live_def)
    ultimately show ?thesis using ids tokens by (simp add: session_inv_def)
  next
    case (revoked p now)
    let ?f = "\<lambda>r. if p r \<and> rs_revoked_at r = None then r\<lparr>rs_revoked_at := Some now\<rparr> else r"
    have set: "set rs' = ?f ` set rs" by (simp add: revoked update_where_def)
    have "chained (?f x) (?f y)" if "chained x y" for x y
      using that by (auto simp: chained_def live_def)
    then have "\<forall>x \<in> set rs'. \<forall>y \<in> set rs'. chained x y" unfolding set using chain by blast
    moreover have "map rs_token_sha256 rs' = map rs_token_sha256 rs" "map rs_id rs' = map rs_id rs"
      by (simp_all add: revoked update_where_def)
    moreover have "\<forall>x \<in> set rs'. rs_replaced_by_id x \<noteq> None \<longrightarrow> \<not> live x"
      unfolding set using replaced by (auto simp: live_def)
    ultimately show ?thesis using ids tokens by (simp add: session_inv_def)
  qed
qed

text \<open>
  A family in the order of its sessions is a chain: each session but the last was replaced by the next one
  and is revoked, and the last one was not replaced.
\<close>

fun linked :: "refresh_session list \<Rightarrow> bool" where
  "linked [] \<longleftrightarrow> True"
| "linked [r] \<longleftrightarrow> rs_replaced_by_id r = None"
| "linked (r # r' # rs) \<longleftrightarrow> rs_replaced_by_id r = Some (rs_id r') \<and> \<not> live r \<and> linked (r' # rs)"

definition family :: "uuid \<Rightarrow> refresh_session list \<Rightarrow> refresh_session list" where
  "family f rs = filter (\<lambda>r. rs_family_id r = f) rs"

definition families_linked :: "refresh_session list \<Rightarrow> bool" where
  "families_linked rs \<longleftrightarrow> (\<forall>f. linked (family f rs))"

lemma linked_live_last: "linked xs \<Longrightarrow> c \<in> set xs \<Longrightarrow> live c \<Longrightarrow> \<exists>ys. xs = ys @ [c]"
proof (induction xs rule: linked.induct)
  case (3 r r' rs)
  then obtain ys where "r' # rs = ys @ [c]" by auto
  then show ?case by (intro exI [of _ "r # ys"]) simp
qed auto

lemma linked_extend:
  assumes "linked (xs @ [c])" "rs_id c' = rs_id c" "\<not> live c'" "rs_replaced_by_id c' = Some (rs_id r)"
    "rs_replaced_by_id r = None"
  shows "linked (xs @ [c', r])"
  using assms(1)
proof (induction xs)
  case (Cons x xs)
  then show ?case using assms by (cases xs) auto
qed (use assms in simp)

lemma linked_map:
  assumes "linked xs"
    and "\<And>x. x \<in> set xs \<Longrightarrow> rs_id (g x) = rs_id x \<and> rs_replaced_by_id (g x) = rs_replaced_by_id x \<and> (\<not> live x \<longrightarrow> \<not> live (g x))"
  shows "linked (map g xs)"
  using assms by (induction xs rule: linked.induct) auto

lemma linked_nth:
  "linked xs \<Longrightarrow> Suc i < length xs \<Longrightarrow> rs_replaced_by_id (xs ! i) = Some (rs_id (xs ! Suc i)) \<and> \<not> live (xs ! i)"
proof (induction xs arbitrary: i rule: linked.induct)
  case (3 r r' rs)
  then show ?case by (cases i) auto
qed auto

lemma linked_last: "linked xs \<Longrightarrow> xs \<noteq> [] \<Longrightarrow> rs_replaced_by_id (last xs) = None"
  by (induction xs rule: linked.induct) auto

lemma family_map:
  "(\<And>x. x \<in> set rs \<Longrightarrow> rs_family_id (g x) = rs_family_id x) \<Longrightarrow> family f (map g rs) = map g (family f rs)"
  by (induction rs) (auto simp: family_def)

lemma families_linked_change:
  assumes "session_change rs rs'" and inv: "session_inv rs" and linked: "families_linked rs"
  shows "families_linked rs'"
proof -
  have ids: "distinct (map rs_id rs)" using inv by (simp add: session_inv_def)
  have same: "x = c" if "x \<in> set rs" "c \<in> set rs" "rs_id x = rs_id c" for x c
    using that ids by (auto simp: distinct_map inj_on_def)
  have fields: "families_linked (map g rs)"
    if "\<And>x. x \<in> set rs \<Longrightarrow> rs_id (g x) = rs_id x \<and> rs_family_id (g x) = rs_family_id x \<and>
      rs_replaced_by_id (g x) = rs_replaced_by_id x \<and> (\<not> live x \<longrightarrow> \<not> live (g x))" for g
  proof -
    have "linked (map g (family f rs))" for f
      by (rule linked_map) (use linked that in \<open>auto simp: families_linked_def family_def\<close>)
    moreover have "family f (map g rs) = map g (family f rs)" for f by (rule family_map) (use that in simp)
    ultimately show ?thesis by (simp add: families_linked_def)
  qed
  show ?thesis
    using assms(1)
  proof cases
    case kept
    with linked show ?thesis by simp
  next
    case (started r)
    have "family (rs_family_id r) rs = []" using started(4) unfolding family_def filter_empty_conv by (metis imageI)
    then have "linked (family f rs')" for f
      using linked started(1,6) by (cases "rs_family_id r = f") (auto simp: families_linked_def family_def)
    then show ?thesis by (simp add: families_linked_def)
  next
    case (rotated c r now)
    let ?c = "c\<lparr>rs_revoked_at := Some now, rs_last_used_at := Some now, rs_replaced_by_id := Some (rs_id r)\<rparr>"
    let ?g = "\<lambda>x. if rs_id x = rs_id c then ?c else x"
    have rs': "rs' = map ?g rs @ [r]" using rotated(1,2,4) by (auto simp: put_row_def)
    have fam: "rs_family_id (?g x) = rs_family_id x" if "x \<in> set rs" for x using same [OF that rotated(2)] by auto
    have rest: "family f rs' = map ?g (family f rs) @ family f [r]" for f
      using family_map [of rs ?g f] fam by (simp add: rs' family_def)
    have "linked (family f rs')" for f
    proof (cases "f = rs_family_id c")
      case False
      then have "?g x = x" if "x \<in> set (family f rs)" for x
        using that same [of x c] rotated(2) by (auto simp: family_def)
      then have "map ?g (family f rs) = family f rs" by (simp cong: map_cong)
      with False rotated(6) rest [of f] linked show ?thesis by (simp add: families_linked_def family_def)
    next
      case True
      have mem: "c \<in> set (family f rs)" using rotated(2) True by (simp add: family_def)
      moreover have "live c" using rotated(3) by (simp add: live_def)
      ultimately obtain ys where ys: "family f rs = ys @ [c]"
        using linked_live_last linked by (metis families_linked_def)
      have "distinct (map rs_id (family f rs))" using ids by (simp add: family_def distinct_map_filter)
      then have "rs_id c \<notin> rs_id ` set ys" by (simp add: ys)
      then have "rs_id x \<noteq> rs_id c" if "x \<in> set ys" for x using that by (metis imageI)
      then have "map ?g ys = ys" by (intro map_idI) simp
      then have "family f rs' = ys @ [?c, r]" using rest [of f] ys True rotated(6) by (simp add: family_def)
      moreover have "linked (ys @ [c])" using linked ys by (metis families_linked_def)
      ultimately show ?thesis using linked_extend [of ys c ?c r] rotated(10) by (simp add: live_def)
    qed
    then show ?thesis by (simp add: families_linked_def)
  next
    case (ended c now)
    have "families_linked (map (\<lambda>x. if rs_id x = rs_id c then c\<lparr>rs_revoked_at := Some now\<rparr> else x) rs)"
    proof (rule fields)
      fix x assume "x \<in> set rs"
      then show "rs_id (if rs_id x = rs_id c then c\<lparr>rs_revoked_at := Some now\<rparr> else x) = rs_id x \<and>
        rs_family_id (if rs_id x = rs_id c then c\<lparr>rs_revoked_at := Some now\<rparr> else x) = rs_family_id x \<and>
        rs_replaced_by_id (if rs_id x = rs_id c then c\<lparr>rs_revoked_at := Some now\<rparr> else x) = rs_replaced_by_id x \<and>
        (\<not> live x \<longrightarrow> \<not> live (if rs_id x = rs_id c then c\<lparr>rs_revoked_at := Some now\<rparr> else x))"
        using same [of x c] ended(2) by (auto simp: live_def)
    qed
    then show ?thesis by (simp add: ended(1) put_row_def)
  next
    case (revoked p now)
    have "families_linked (map (\<lambda>r. if p r \<and> rs_revoked_at r = None then r\<lparr>rs_revoked_at := Some now\<rparr> else r) rs)"
      by (rule fields) (simp add: live_def)
    then show ?thesis by (simp add: revoked update_where_def)
  qed
qed

lemma sessions_later_change:
  assumes "session_change rs rs'" and "session_inv rs"
  shows "sessions_later rs rs'"
  using assms(1)
proof cases
  case kept
  then show ?thesis by (simp add: sessions_later_refl)
next
  case (started r)
  have "\<forall>x \<in> set rs. \<exists>x' \<in> set (rs @ [r]). session_follows x x'"
    by (metis Un_iff session_follows_refl set_append)
  with started show ?thesis by (auto simp: sessions_later_def dead_family_def)
next
  case (rotated c r now)
  let ?c = "c\<lparr>rs_revoked_at := Some now, rs_last_used_at := Some now, rs_replaced_by_id := Some (rs_id r)\<rparr>"
  have d: "distinct (map rs_id (rs @ [r]))" and c: "c \<in> set (rs @ [r])"
    using assms(2) rotated by (auto simp: session_inv_def)
  have set: "set rs' = insert ?c (insert r (set rs - {c}))"
    using set_put_distinct [OF d c, of ?c] rotated(1,2,4) by auto
  have "session_follows c ?c" using rotated(3) by (simp add: session_follows_def live_def)
  then have "\<forall>x \<in> set rs. \<exists>x' \<in> set rs'. session_follows x x'"
    unfolding set by (metis Diff_iff insertI1 insertI2 insert_absorb insert_iff session_follows_refl singletonD)
  moreover have "dead_family f rs'" if "dead_family f rs" for f
  proof -
    have "f \<noteq> rs_family_id c" using that rotated(2,3) by (auto simp: dead_family_def live_def)
    with that rotated(6) show ?thesis unfolding dead_family_def set by auto
  qed
  ultimately show ?thesis by (simp add: sessions_later_def)
next
  case (ended c now)
  let ?c = "c\<lparr>rs_revoked_at := Some now\<rparr>"
  have d: "distinct (map rs_id rs)" using assms(2) by (simp add: session_inv_def)
  have set: "set rs' = insert ?c (set rs - {c})" unfolding ended(1) by (rule set_put_distinct [OF d ended(2)]) simp
  have "session_follows c ?c" using ended(3) by (simp add: session_follows_def live_def)
  then have "\<forall>x \<in> set rs. \<exists>x' \<in> set rs'. session_follows x x'"
    unfolding set by (metis Diff_iff insertI1 insertI2 session_follows_refl singletonD)
  moreover have "dead_family f rs'" if "dead_family f rs" for f
  proof -
    have "f \<noteq> rs_family_id c" using that ended(2,3) by (auto simp: dead_family_def live_def)
    with that show ?thesis unfolding dead_family_def set by auto
  qed
  ultimately show ?thesis by (simp add: sessions_later_def)
next
  case (revoked p now)
  let ?f = "\<lambda>r. if p r \<and> rs_revoked_at r = None then r\<lparr>rs_revoked_at := Some now\<rparr> else r"
  have set: "set rs' = ?f ` set rs" by (simp add: revoked update_where_def)
  have "session_follows r (?f r)" for r by (simp add: session_follows_def live_def)
  moreover have "?f r \<in> set rs'" if "r \<in> set rs" for r unfolding set by (rule imageI [OF that])
  ultimately have "\<forall>x \<in> set rs. \<exists>x' \<in> set rs'. session_follows x x'" by blast
  moreover have "dead_family f rs'" if "dead_family f rs" for f
    using that unfolding dead_family_def set by (auto simp: live_def)
  ultimately show ?thesis by (simp add: sessions_later_def)
qed

section \<open>Steps of the token table\<close>

definition closed_token :: "auth_action_token \<Rightarrow> bool" where
  "closed_token t \<longleftrightarrow> aat_consumed_at t \<noteq> None \<or> aat_revoked_at t \<noteq> None"

definition token_follows :: "auth_action_token \<Rightarrow> auth_action_token \<Rightarrow> bool" where
  "token_follows t t' \<longleftrightarrow>
     aat_id t' = aat_id t \<and> aat_user_id t' = aat_user_id t \<and> aat_purpose t' = aat_purpose t \<and>
     aat_token_sha256 t' = aat_token_sha256 t \<and> aat_expires_at t' = aat_expires_at t \<and>
     (aat_consumed_at t \<noteq> None \<longrightarrow> aat_consumed_at t' \<noteq> None) \<and> (closed_token t \<longrightarrow> closed_token t')"

inductive token_change :: "auth_action_token list \<Rightarrow> auth_action_token list \<Rightarrow> bool" where
  issued: "aat_id t \<notin> aat_id ` set ts \<Longrightarrow> aat_token_sha256 t \<notin> aat_token_sha256 ` set ts \<Longrightarrow>
    token_change ts (ts @ [t])"
| put: "t \<in> set ts \<Longrightarrow> token_follows t t' \<Longrightarrow> token_change ts (put_row aat_id t' ts)"
| revoked_tokens: "token_change ts (update_where p (\<lambda>t. t\<lparr>aat_revoked_at := Some now\<rparr>) ts)"

definition token_inv :: "auth_action_token list \<Rightarrow> bool" where
  "token_inv ts \<longleftrightarrow> distinct (map aat_id ts) \<and> distinct (map aat_token_sha256 ts)"

definition tokens_later :: "auth_action_token list \<Rightarrow> auth_action_token list \<Rightarrow> bool" where
  "tokens_later ts ts' \<longleftrightarrow> (\<forall>t \<in> set ts. \<exists>t' \<in> set ts'. token_follows t t')"

lemma token_follows_refl [simp]: "token_follows t t"
  by (simp add: token_follows_def)

lemma token_follows_trans: "token_follows a b \<Longrightarrow> token_follows b c \<Longrightarrow> token_follows a c"
  by (auto simp: token_follows_def)

lemma tokens_later_refl: "tokens_later ts ts"
  by (auto simp: tokens_later_def intro: token_follows_refl)

lemma tokens_later_trans: "tokens_later a b \<Longrightarrow> tokens_later b c \<Longrightarrow> tokens_later a c"
  unfolding tokens_later_def by (meson token_follows_trans)

lemma token_change_later:
  assumes "token_change ts ts'" and "token_inv ts"
  shows "token_inv ts' \<and> tokens_later ts ts'"
  using assms(1)
proof cases
  case (issued t)
  have "tokens_later ts (ts @ [t])" unfolding tokens_later_def by (metis Un_iff token_follows_refl set_append)
  with issued assms(2) show ?thesis by (auto simp: token_inv_def)
next
  case (put t t')
  have d: "distinct (map aat_id ts)" and key: "aat_id t' = aat_id t"
    and sha: "aat_token_sha256 t' = aat_token_sha256 t"
    using assms(2) put(3) by (simp_all add: token_inv_def token_follows_def)
  have set: "set ts' = insert t' (set ts - {t})" unfolding put(1) by (rule set_put_distinct [OF d put(2) key])
  have "\<forall>x \<in> set ts. \<exists>x' \<in> set ts'. token_follows x x'"
    unfolding set using put(3) by (metis Diff_iff insertI1 insertI2 token_follows_refl singletonD)
  moreover have "map aat_token_sha256 ts' = map aat_token_sha256 ts" "map aat_id ts' = map aat_id ts"
    unfolding put(1) by (rule map_put_distinct [OF d put(2) key sha]) simp
  ultimately show ?thesis using assms(2) by (simp add: token_inv_def tokens_later_def)
next
  case (revoked_tokens p now)
  let ?f = "\<lambda>t. if p t then t\<lparr>aat_revoked_at := Some now\<rparr> else t"
  have set: "set ts' = ?f ` set ts" by (simp add: revoked_tokens update_where_def)
  have "token_follows t (?f t)" for t by (simp add: token_follows_def closed_token_def)
  moreover have "?f t \<in> set ts'" if "t \<in> set ts" for t unfolding set by (rule imageI [OF that])
  ultimately have "tokens_later ts ts'" unfolding tokens_later_def by blast
  moreover have "map aat_token_sha256 ts' = map aat_token_sha256 ts" "map aat_id ts' = map aat_id ts"
    by (simp_all add: revoked_tokens update_where_def)
  ultimately show ?thesis using assms(2) by (simp add: token_inv_def)
qed

lemma token_changes_later:
  assumes "token_change\<^sup>*\<^sup>* ts ts'" and "token_inv ts"
  shows "token_inv ts' \<and> tokens_later ts ts'"
  using assms
proof (induction rule: rtranclp_induct)
  case base
  then show ?case by (simp add: tokens_later_refl)
next
  case (step b c)
  then show ?case using token_change_later tokens_later_trans by blast
qed

section \<open>What the calls do\<close>

lemma issue_tokens_SomeD:
  assumes "issue_tokens au user dr now e f db = Some (issued, db')"
  shows "insert_session (new_session au (usr_id user) dr now
      (case e of Some t \<Rightarrow> t | None \<Rightarrow> now + days (as_refresh_token_ttl_days (au_settings au)))
      (case f of Some k \<Rightarrow> k | None \<Rightarrow> dr_family dr)) db = Some db'"
    and "it_refresh_session_id issued = dr_id dr" and "it_refresh_token issued = dr_token dr"
    and "it_refresh_expires_at issued =
      (case e of Some t \<Rightarrow> t | None \<Rightarrow> now + days (as_refresh_token_ttl_days (au_settings au)))"
    and "it_user issued = user_identity_of user"
  using assms by (auto simp: issue_tokens_def Let_def split: option.splits)

lemma new_session_fields [simp]:
  "rs_id (new_session au u dr now t f) = dr_id dr" "rs_user_id (new_session au u dr now t f) = u"
  "rs_family_id (new_session au u dr now t f) = f" "rs_expires_at (new_session au u dr now t f) = t"
  "rs_token_sha256 (new_session au u dr now t f) = au_sha256 au (dr_token dr)"
  "rs_revoked_at (new_session au u dr now t f) = None" "rs_replaced_by_id (new_session au u dr now t f) = None"
  "rs_created_at (new_session au u dr now t f) = now"
  by (simp_all add: new_session_def)

lemma refresh_effect:
  obtains (Rejected) "isl (fst (refresh au token context dr db))"
      "db_refresh_sessions (snd (refresh au token context dr db)) = db_refresh_sessions db"
      "db_action_tokens (snd (refresh au token context dr db)) = db_action_tokens db"
      "db_throttle_buckets (snd (refresh au token context dr db)) = db_throttle_buckets db"
  | (Reused) c where
      "refresh au token context dr db = (Inl Invalid_token, add_auth_event
         (refresh_event au c ''reuse'' (Some ''refresh_reuse_detected'') context dr)
         (revoke_family (rs_family_id c) (dr_now1 dr) db))"
      "find_session (au_sha256 au (the token)) db = Some c" "rs_revoked_at c \<noteq> None" "rs_replaced_by_id c \<noteq> None"
  | (Rotated) c user issued db1 where
      "refresh au token context dr db = (Inr issued, add_auth_event
         (refresh_event au c ''success'' None context dr) (put_session
         (c\<lparr>rs_revoked_at := Some (dr_now1 dr), rs_last_used_at := Some (dr_now1 dr),
            rs_replaced_by_id := Some (dr_id dr)\<rparr>) db1))"
      "find_session (au_sha256 au (the token)) db = Some c" "rs_revoked_at c = None" "dr_now1 dr < rs_expires_at c"
      "get_user (rs_user_id c) db = Some user" "usr_is_active user"
      "insert_session (new_session au (usr_id user) dr (dr_now1 dr) (rs_expires_at c) (rs_family_id c)) db = Some db1"
      "it_refresh_token issued = dr_token dr" "it_user issued = user_identity_of user"
proof (cases "token = None \<or> token = Some []")
  case True
  then show thesis by (intro Rejected) (auto simp: refresh_def)
next
  case token: False
  show thesis
  proof (cases "find_session (au_sha256 au (the token)) db")
    case None
    with token show thesis by (intro Rejected) (simp_all add: refresh_def)
  next
    case (Some c)
    consider "rs_revoked_at c \<noteq> None" "rs_replaced_by_id c \<noteq> None"
      | "rs_revoked_at c \<noteq> None" "rs_replaced_by_id c = None"
      | "rs_revoked_at c = None" "\<not> dr_now1 dr < rs_expires_at c"
      | "rs_revoked_at c = None" "dr_now1 dr < rs_expires_at c" by auto
    then show thesis
    proof cases
      case 1
      with Some token show thesis by (intro Reused [of c]) (auto simp: refresh_def Let_def)
    next
      case 2
      with Some token show thesis by (intro Rejected) (simp_all add: refresh_def Let_def)
    next
      case 3
      with Some token show thesis by (intro Rejected) (simp_all add: refresh_def Let_def)
    next
      case 4
      show thesis
      proof (cases "get_user (rs_user_id c) db")
        case None
        with 4 Some token show thesis by (intro Rejected) (simp_all add: refresh_def Let_def)
      next
        case user: (Some user)
        show thesis
        proof (cases "usr_is_active user")
          case False
          with 4 user Some token show thesis by (intro Rejected) (simp_all add: refresh_def Let_def)
        next
          case active: True
          show thesis
          proof (cases "issue_tokens au user dr (dr_now1 dr) (Some (rs_expires_at c)) (Some (rs_family_id c)) db")
            case None
            with 4 user active Some token show thesis by (intro Rejected) (simp_all add: refresh_def Let_def)
          next
            case (Some i)
            obtain issued db1 where i: "i = (issued, db1)" by (cases i)
            note e = issue_tokens_SomeD [OF Some [unfolded i]]
            show thesis
              by (rule Rotated [where c = c and user = user and issued = issued and ?db1.0 = db1])
                (use 4 user active Some i token \<open>find_session _ _ = Some c\<close> e in
                  \<open>simp_all add: refresh_def Let_def\<close>)
          qed
        qed
      qed
    qed
  qed
qed

lemma find_session_SomeD: "find_session h db = Some c \<Longrightarrow> c \<in> set (db_refresh_sessions db) \<and> rs_token_sha256 c = h"
  by (auto simp: find_session_def dest: find_row_SomeD)

lemma complete_login_effect:
  obtains (Failed) "isl (fst (complete_login au k keys context i dr db))"
      "db_refresh_sessions (snd (complete_login au k keys context i dr db)) = db_refresh_sessions db"
      "db_action_tokens (snd (complete_login au k keys context i dr db)) = db_action_tokens db"
  | (Success) user issued db1 ev where
      "complete_login au k keys context i dr db = (Inr issued, add_auth_event ev db1)"
      "get_user k db = Some user" "usr_is_active user"
      "insert_session (new_session au (usr_id user) dr (dr_now2 dr)
          (dr_now2 dr + days (as_refresh_token_ttl_days (au_settings au))) (dr_family dr))
        (put_user (user\<lparr>usr_last_login_at := Some (dr_now2 dr), usr_updated_at := dr_now2 dr\<rparr>)
          (reset_account_throttle keys (dr_now2 dr) db)) = Some db1"
      "it_refresh_token issued = dr_token dr"
      "it_user issued = user_identity_of (user\<lparr>usr_last_login_at := Some (dr_now2 dr), usr_updated_at := dr_now2 dr\<rparr>)"
proof (cases "get_user k db")
  case None
  then show thesis by (intro Failed) (simp_all add: complete_login_def Let_def)
next
  case user: (Some user)
  let ?u = "user\<lparr>usr_last_login_at := Some (dr_now2 dr), usr_updated_at := dr_now2 dr\<rparr>"
  let ?db = "put_user ?u (reset_account_throttle keys (dr_now2 dr) db)"
  show thesis
  proof (cases "usr_is_active user")
    case False
    with user show thesis by (intro Failed) (simp_all add: complete_login_def note_login_failure_def Let_def)
  next
    case active: True
    show thesis
    proof (cases "issue_tokens au ?u dr (dr_now2 dr) None None ?db")
      case None
      with user active show thesis by (intro Failed) (simp_all add: complete_login_def Let_def)
    next
      case (Some j)
      obtain issued db1 where j: "j = (issued, db1)" by (cases j)
      note e = issue_tokens_SomeD [OF Some [unfolded j]]
      show thesis
        by (rule Success [where user = user and issued = issued and ?db1.0 = db1])
          (use user active Some j e in \<open>simp_all add: complete_login_def Let_def\<close>)
    qed
  qed
qed

lemma login_effect:
  obtains (Failed) "isl (fst (login au identifier password context dr db))"
      "db_refresh_sessions (snd (login au identifier password context dr db)) = db_refresh_sessions db"
      "db_action_tokens (snd (login au identifier password context dr db)) = db_action_tokens db"
  | (Checked) user keys db1 where
      "login au identifier password context dr db = complete_login au (usr_id user) keys context
         (identifier_fingerprint au (lower (strip identifier))) dr db1"
      "find_login_user (lower (strip identifier)) db = Inr (Some user)"
      "keys = login_keys au (login_account_fingerprint au (lower (strip identifier)) (Some (usr_id user)))
         (client_ip_fingerprint au context)"
      "login_retry_after (au_settings au) keys (dr_now1 dr) db = (None, db1)"
      "au_password_verify au password (usr_password_hash user)"
proof (cases "find_login_user (lower (strip identifier)) db")
  case (Inl e)
  then show thesis by (intro Failed) (simp_all add: login_def read_login_def check_login_def Let_def)
next
  case (Inr user)
  let ?keys = "login_keys au (login_account_fingerprint au (lower (strip identifier)) (map_option usr_id user))
      (client_ip_fingerprint au context)"
  obtain r db1 where r: "login_retry_after (au_settings au) ?keys (dr_now1 dr) db = (r, db1)" by fastforce
  have frame: "db_refresh_sessions db1 = db_refresh_sessions db" "db_action_tokens db1 = db_action_tokens db"
    using consume_frames(9,10) [of "au_settings au" ?keys "dr_now1 dr" db] r by simp_all
  show thesis
  proof (cases r)
    case (Some w)
    with Inr r frame show thesis by (intro Failed) (simp_all add: login_def read_login_def check_login_def Let_def)
  next
    case none: None
    show thesis
    proof (cases user)
      case None
      with Inr r none frame show thesis
        by (intro Failed) (simp_all add: login_def read_login_def check_login_def finish_login_def note_login_failure_def Let_def)
    next
      case (Some u)
      show thesis
      proof (cases "au_password_verify au password (usr_password_hash u)")
        case False
        with Inr r none frame Some show thesis
          by (intro Failed) (simp_all add: login_def read_login_def check_login_def finish_login_def note_login_failure_def Let_def)
      next
        case True
        show thesis
          by (rule Checked [of u ?keys db1]) (use Inr r none Some True in \<open>simp_all add: login_def read_login_def check_login_def finish_login_def Let_def\<close>)
      qed
    qed
  qed
qed

end
