(* ===== verification/Auth_Theorems.thy ===== *)
theory Auth_Theorems
  imports Auth_Contract
begin

text \<open>
  The authentication service as a transition system: runs of its calls, the invariant of the tables of
  sessions and tokens, and the properties of refresh tokens, password resets and logins over all runs.
  A registration and a login are not one call but their transactions, so that a run interleaves them with
  those of other clients in any order; they take the value handed over between them as an argument, any value.
  The only freshness assumed is that of the family identifier a login draws; a collision of the other
  identifiers and secrets is the database's integrity error.
\<close>

section \<open>Calls\<close>

datatype auth_call =
    Admit_registration string string string "auth_context option" draws
  | Insert_registration registration draws
  | Check_login login_attempt draws
  | Finish_login login_attempt string draws
  | Refresh "string option" "auth_context option" draws
  | Logout "string option" "auth_context option" draws
  | Request_verification uuid "auth_context option" draws
  | Confirm_verification string "auth_context option" draws
  | Request_reset string "auth_context option" draws
  | Confirm_reset string string "auth_context option" draws
  | Deliver pending_auth_email bool "auth_context option" draws

fun run_auth :: "auth_service \<Rightarrow> auth_call \<Rightarrow> database \<Rightarrow> database" where
  "run_auth au (Admit_registration n e p cx dr) db = snd (admit_registration au n e p cx dr db)"
| "run_auth au (Insert_registration rg dr) db = snd (insert_registration au rg dr db)"
| "run_auth au (Check_login la dr) db = snd (check_login au la dr db)"
| "run_auth au (Finish_login la p dr) db = snd (finish_login au la p dr db)"
| "run_auth au (Refresh t cx dr) db = snd (refresh au t cx dr db)"
| "run_auth au (Logout t cx dr) db = logout au t cx dr db"
| "run_auth au (Request_verification k cx dr) db = snd (request_email_verification au k cx dr db)"
| "run_auth au (Confirm_verification t cx dr) db = snd (confirm_email_verification au t cx dr db)"
| "run_auth au (Request_reset e cx dr) db = snd (request_password_reset au e cx dr db)"
| "run_auth au (Confirm_reset t p cx dr) db = snd (confirm_password_reset au t p cx dr db)"
| "run_auth au (Deliver m sent cx dr) db = snd (deliver_auth_email au m sent cx dr db)"

text \<open>A login draws a family identifier that no session has.\<close>

fun fresh_call :: "auth_call \<Rightarrow> database \<Rightarrow> bool" where
  "fresh_call (Finish_login la p dr) db \<longleftrightarrow> dr_family dr \<notin> rs_family_id ` set (db_refresh_sessions db)"
| "fresh_call call db \<longleftrightarrow> True"

definition run_auths :: "auth_service \<Rightarrow> auth_call list \<Rightarrow> database \<Rightarrow> database" where
  "run_auths au calls db = fold (run_auth au) calls db"

fun fresh_run :: "auth_service \<Rightarrow> auth_call list \<Rightarrow> database \<Rightarrow> bool" where
  "fresh_run au [] db \<longleftrightarrow> True"
| "fresh_run au (c # cs) db \<longleftrightarrow> fresh_call c db \<and> fresh_run au cs (run_auth au c db)"

definition auth_step :: "auth_service \<Rightarrow> database \<Rightarrow> database \<Rightarrow> bool" where
  "auth_step au db db' \<longleftrightarrow> (\<exists>call. fresh_call call db \<and> db' = run_auth au call db)"

lemma run_auths_steps: "fresh_run au calls db \<Longrightarrow> (auth_step au)\<^sup>*\<^sup>* db (run_auths au calls db)"
proof (induction calls arbitrary: db)
  case (Cons c cs)
  then have "auth_step au db (run_auth au c db)" by (auto simp: auth_step_def)
  with Cons show ?case by (simp add: run_auths_def converse_rtranclp_into_rtranclp)
qed (simp add: run_auths_def)

section \<open>Every call is a step of both tables\<close>

definition auth_sound :: "database \<Rightarrow> database \<Rightarrow> bool" where
  "auth_sound db db' \<longleftrightarrow> session_change (db_refresh_sessions db) (db_refresh_sessions db') \<and>
     token_change\<^sup>*\<^sup>* (db_action_tokens db) (db_action_tokens db')"

lemma sound_tokens:
  "db_refresh_sessions db' = db_refresh_sessions db \<Longrightarrow>
     token_change\<^sup>*\<^sup>* (db_action_tokens db) (db_action_tokens db') \<Longrightarrow> auth_sound db db'"
  by (simp add: auth_sound_def session_change.kept)

lemma sound_sessions:
  "session_change (db_refresh_sessions db) (db_refresh_sessions db') \<Longrightarrow>
     db_action_tokens db' = db_action_tokens db \<Longrightarrow> auth_sound db db'"
  by (simp add: auth_sound_def)

lemma sound_same:
  "db_refresh_sessions db' = db_refresh_sessions db \<Longrightarrow> db_action_tokens db' = db_action_tokens db \<Longrightarrow>
     auth_sound db db'"
  by (simp add: auth_sound_def session_change.kept)

lemma consume_registration_rows:
  assumes "consume_registration_attempt s keys now db = (r, db')"
  shows "db_refresh_sessions db' = db_refresh_sessions db" "db_action_tokens db' = db_action_tokens db"
    "db_throttle_buckets db' = db_throttle_buckets db"
  using consume_frames(1,2,4) [of s keys now db] assms by simp_all

lemma consume_action_rows:
  assumes "consume_action_request s keys now db = (r, db')"
  shows "db_refresh_sessions db' = db_refresh_sessions db" "db_action_tokens db' = db_action_tokens db"
    "db_throttle_buckets db' = db_throttle_buckets db"
  using consume_frames(5,6,8) [of s keys now db] assms by simp_all

lemma admit_rows:
  "db_refresh_sessions (snd (admit_registration au n e p cx dr db)) = db_refresh_sessions db"
  "db_action_tokens (snd (admit_registration au n e p cx dr db)) = db_action_tokens db"
  "db_throttle_buckets (snd (admit_registration au n e p cx dr db)) = db_throttle_buckets db"
  by (auto simp: admit_registration_def Let_def consume_registration_rows split: sum.split option.split prod.split)

lemma insert_registration_rows:
  "db_refresh_sessions (snd (insert_registration au rg dr db)) = db_refresh_sessions db"
  "db_action_tokens (snd (insert_registration au rg dr db)) = db_action_tokens db"
  "db_throttle_buckets (snd (insert_registration au rg dr db)) = db_throttle_buckets db"
  by (auto simp: insert_registration_def Let_def dest!: insert_frames(3) split: option.split)

lemma check_login_rows:
  "db_refresh_sessions (snd (check_login au la dr db)) = db_refresh_sessions db"
  "db_action_tokens (snd (check_login au la dr db)) = db_action_tokens db"
  "db_users (snd (check_login au la dr db)) = db_users db"
  using consume_frames(9-11) [of "au_settings au" "la_keys la" "dr_now1 dr" db]
  by (cases "login_retry_after (au_settings au) (la_keys la) (dr_now1 dr) db";
      simp add: check_login_def split: option.split)+

lemma complete_login_sound:
  assumes "dr_family dr \<notin> rs_family_id ` set (db_refresh_sessions db)"
  shows "auth_sound db (snd (complete_login au k keys cx i dr db))"
proof (cases rule: complete_login_effect [of au k keys cx i dr db])
  case Failed
  then show ?thesis by (simp add: sound_same)
next
  case (Success user issued db1 ev)
  then show ?thesis
    using assms by (intro sound_sessions) (auto dest!: insert_frames(1) intro!: session_change.started)
qed

lemma finish_login_sound:
  assumes "dr_family dr \<notin> rs_family_id ` set (db_refresh_sessions db)"
  shows "auth_sound db (snd (finish_login au la p dr db))"
  using complete_login_sound [OF assms]
  by (simp add: finish_login_def note_login_failure_def sound_same split: option.split)

lemma refresh_sound: "auth_sound db (snd (refresh au t cx dr db))"
proof (cases rule: refresh_effect [of au t cx dr db])
  case Rejected
  then show ?thesis by (simp add: sound_same)
next
  case (Reused c)
  then show ?thesis
    by (intro sound_sessions) (auto simp: revoke_family_def intro: session_change.revoked)
next
  case (Rotated c user issued db1)
  note row = insert_frames(1) [OF Rotated(7)]
  have "usr_id user = rs_user_id c" using Rotated(5) by (rule user_rows.get_key)
  then have "session_change (db_refresh_sessions db) (db_refresh_sessions (snd (refresh au t cx dr db)))"
    using session_change.rotated [of c "db_refresh_sessions db" "new_session au (usr_id user) dr (dr_now1 dr)
        (rs_expires_at c) (rs_family_id c)" "dr_now1 dr"] row find_session_SomeD [OF Rotated(2)] Rotated(1,3)
    by simp
  moreover have "db_action_tokens (snd (refresh au t cx dr db)) = db_action_tokens db"
    using row Rotated(1) by simp
  ultimately show ?thesis by (rule sound_sessions)
qed

lemma logout_sound: "auth_sound db (logout au t cx dr db)"
proof (cases "t = None \<or> t = Some [] \<or> find_session (au_sha256 au (the t)) db = None")
  case True
  then show ?thesis by (auto simp: logout_def Let_def intro: sound_same)
next
  case False
  then obtain c where c: "find_session (au_sha256 au (the t)) db = Some c" "t \<noteq> None" "t \<noteq> Some []" by auto
  then show ?thesis
    using find_session_SomeD [OF c(1)]
    by (auto simp: logout_def Let_def intro!: sound_sessions intro: session_change.ended session_change.kept)
qed

lemma issue_action_token_sound:
  assumes "issue_action_token au user purpose now ttl dr db = Some (m, db')"
  shows "db_refresh_sessions db' = db_refresh_sessions db"
    and "token_change\<^sup>*\<^sup>* (db_action_tokens db) (db_action_tokens db')"
proof -
  let ?db1 = "revoke_tokens (open_token (usr_id user) purpose) now db"
  obtain t where t: "insert_action_token t ?db1 = Some db'"
    using assms by (auto simp: issue_action_token_def Let_def split: option.splits)
  note row = insert_frames(2) [OF t]
  then show "db_refresh_sessions db' = db_refresh_sessions db" by simp
  have "token_change (db_action_tokens db) (db_action_tokens ?db1)" by (simp add: token_change.revoked_tokens)
  moreover have "token_change (db_action_tokens ?db1) (db_action_tokens db')"
    using row token_change.issued [of t "db_action_tokens ?db1"] by simp
  ultimately show "token_change\<^sup>*\<^sup>* (db_action_tokens db) (db_action_tokens db')" by (meson converse_rtranclp_into_rtranclp r_into_rtranclp)
qed

lemma find_action_token_SomeD:
  "find_action_token h purpose db = Some t \<Longrightarrow>
     t \<in> set (db_action_tokens db) \<and> aat_token_sha256 t = h \<and> aat_purpose t = purpose"
  by (auto simp: find_action_token_def find_Some_iff)

lemma close_token_change:
  assumes "t \<in> set ts"
  shows "token_change ts (put_row aat_id (t\<lparr>aat_revoked_at := Some now\<rparr>) ts)"
    and "token_change ts (put_row aat_id (t\<lparr>aat_consumed_at := Some now\<rparr>) ts)"
  using assms by (auto intro!: token_change.put simp: token_follows_def closed_token_def)

lemma consume_token_change:
  assumes "t \<in> set ts"
  shows "token_change\<^sup>*\<^sup>* ts (update_where p (\<lambda>x. x\<lparr>aat_revoked_at := Some now\<rparr>)
    (put_row aat_id (t\<lparr>aat_consumed_at := Some now\<rparr>) ts))"
  using close_token_change(2) [OF assms] token_change.revoked_tokens
  by (meson converse_rtranclp_into_rtranclp r_into_rtranclp)

lemma expire_sound:
  assumes "find_action_token h purpose db = found"
  shows "auth_sound db (expire_known_action_token au found now cx dr db)"
proof (cases "found = None \<or> aat_consumed_at (the found) \<noteq> None \<or> aat_revoked_at (the found) \<noteq> None \<or>
    now < aat_expires_at (the found)")
  case True
  then have "expire_known_action_token au found now cx dr db = db"
    by (auto simp: expire_known_action_token_def split: option.split)
  then show ?thesis by (simp add: sound_same)
next
  case False
  then obtain t where t: "found = Some t" by auto
  with assms have "t \<in> set (db_action_tokens db)" using find_action_token_SomeD by blast
  from close_token_change(1) [OF this] False t show ?thesis
    by (auto simp: expire_known_action_token_def intro!: sound_tokens)
qed

lemma request_verification_sound: "auth_sound db (snd (request_email_verification au k cx dr db))"
proof (cases "get_user k db")
  case None
  then show ?thesis by (simp add: request_email_verification_def sound_same)
next
  case (Some user)
  let ?keys = "action_request_keys au ''email_verification'' (''user:'' @ uuid_str (usr_id user))
      (client_ip_fingerprint au cx)"
  obtain r db1 where r: "consume_action_request (au_settings au) ?keys (dr_now1 dr) db = (r, db1)" by fastforce
  note rows = consume_action_rows [OF r]
  show ?thesis
  proof (cases "issue_action_token au user ''email_verification'' (dr_now1 dr)
      (hours (as_email_verification_ttl_hours (au_settings au))) dr db1")
    case None
    with Some r rows show ?thesis
      by (auto simp: request_email_verification_def Let_def sound_same split: option.split)
  next
    case issued: (Some i)
    obtain m db2 where i: "i = (m, db2)" by (cases i)
    note issue_action_token_sound [OF issued [unfolded i]]
    with Some r rows issued i show ?thesis
      by (auto simp: request_email_verification_def Let_def sound_same split: option.split intro!: sound_tokens)
  qed
qed

lemma request_reset_sound: "auth_sound db (snd (request_password_reset au e cx dr db))"
proof (cases "normalize_email au e")
  case (Inl err)
  then show ?thesis by (simp add: request_password_reset_def sound_same)
next
  case (Inr email)
  let ?keys = "action_request_keys au ''password_reset'' (''email:'' @ email) (client_ip_fingerprint au cx)"
  obtain r db1 where r: "consume_action_request (au_settings au) ?keys (dr_now1 dr) db = (r, db1)" by fastforce
  note rows = consume_action_rows [OF r]
  show ?thesis
  proof (cases "r = None \<and> (\<exists>user. find_row usr_email email (db_users db1) = Some user \<and> usr_is_active user)")
    case False
    with Inr r rows show ?thesis
      by (auto simp: request_password_reset_def Let_def sound_same split: option.split)
  next
    case True
    then obtain user where user: "find_row usr_email email (db_users db1) = Some user" "usr_is_active user" by auto
    show ?thesis
    proof (cases "issue_action_token au user ''password_reset'' (dr_now1 dr)
        (minutes (as_password_reset_ttl_minutes (au_settings au))) dr db1")
      case None
      with Inr r True user show ?thesis by (simp add: request_password_reset_def Let_def sound_same)
    next
      case (Some i)
      obtain m db2 where i: "i = (m, db2)" by (cases i)
      note issue_action_token_sound [OF Some [unfolded i]]
      with Inr r True user rows Some i show ?thesis
        by (simp add: request_password_reset_def Let_def sound_tokens)
    qed
  qed
qed

lemma confirm_verification_sound: "auth_sound db (snd (confirm_email_verification au tok cx dr db))"
proof (cases "find_action_token (au_sha256 au tok) ''email_verification'' db")
  case None
  then show ?thesis
    using expire_sound [OF None] by (simp add: confirm_email_verification_def Let_def action_token_is_active_def)
next
  case (Some t)
  note t = conjunct1 [OF find_action_token_SomeD [OF Some]]
  from expire_sound [OF Some] Some show ?thesis
    using close_token_change(1) [OF t] consume_token_change [OF t]
    by (auto simp: confirm_email_verification_def Let_def revoke_other_action_tokens_def split: option.split
        intro!: sound_tokens)
qed

lemma confirm_reset_effect:
  obtains (Failed) "isl (fst (confirm_password_reset au tok pw cx dr db))"
      "auth_sound db (snd (confirm_password_reset au tok pw cx dr db))"
      "db_throttle_buckets (snd (confirm_password_reset au tok pw cx dr db)) = db_throttle_buckets db"
  | (Reset) t user where
      "find_action_token (au_sha256 au tok) ''password_reset'' db = Some t"
      "action_token_is_active (Some t) (dr_now2 dr)" "get_user (aat_user_id t) db = Some user" "usr_is_active user"
      "confirm_password_reset au tok pw cx dr db = (Inr (), add_auth_event
         (token_event au (user\<lparr>usr_password_hash := au_password_hash au (dr_salt dr) pw,
            usr_email_verified := True, usr_updated_at := dr_now2 dr\<rparr>)
            ''password_reset'' ''success'' ''confirmed'' cx dr (dr_now2 dr))
         (revoke_user_sessions (usr_id user) (dr_now2 dr)
           (revoke_other_action_tokens (usr_id user) ''password_reset'' (aat_id t) (dr_now2 dr)
             (put_action_token (t\<lparr>aat_consumed_at := Some (dr_now2 dr)\<rparr>)
               (put_user (user\<lparr>usr_password_hash := au_password_hash au (dr_salt dr) pw,
                  usr_email_verified := True, usr_updated_at := dr_now2 dr\<rparr>) db)))))"
proof (cases "password_error pw")
  case (Some e)
  then show thesis by (intro Failed) (simp_all add: confirm_password_reset_def sound_same)
next
  case pw: None
  let ?found = "find_action_token (au_sha256 au tok) ''password_reset'' db"
  show thesis
  proof (cases "action_token_is_active ?found (dr_now1 dr)")
    case False
    with pw show thesis by (intro Failed) (simp_all add: confirm_password_reset_def Let_def sound_same)
  next
    case one: True
    then obtain t where t: "?found = Some t" by (auto simp: action_token_is_active_def split: option.splits)
    note mem = conjunct1 [OF find_action_token_SomeD [OF t]]
    show thesis
    proof (cases "action_token_is_active ?found (dr_now2 dr)")
      case False
      with pw one expire_sound [of "au_sha256 au tok" "''password_reset''" db ?found] show thesis
        by (intro Failed)
          (simp_all add: confirm_password_reset_def Let_def expire_known_action_token_def split: option.split)
    next
      case two: True
      show thesis
      proof (cases "\<exists>user. get_user (aat_user_id t) db = Some user \<and> usr_is_active user")
        case False
        with pw one two t close_token_change(1) [OF mem] show thesis
          by (intro Failed) (auto simp: confirm_password_reset_def Let_def split: option.split intro!: sound_tokens)
      next
        case True
        then obtain user where "get_user (aat_user_id t) db = Some user" "usr_is_active user" by auto
        with pw one two t show thesis
          by (intro Reset [of t user]) (simp_all add: confirm_password_reset_def Let_def)
      qed
    qed
  qed
qed

lemma confirm_reset_sound: "auth_sound db (snd (confirm_password_reset au tok pw cx dr db))"
proof (cases rule: confirm_reset_effect [of au tok pw cx dr db])
  case (Reset t user)
  note t = conjunct1 [OF find_action_token_SomeD [OF Reset(1)]]
  from consume_token_change [OF t] show ?thesis
    unfolding auth_sound_def
    by (simp add: Reset(5) revoke_other_action_tokens_def)
      (simp add: revoke_user_sessions_def session_change.revoked)
qed simp

lemma finish_sound: "auth_sound db (finish_auth_email_delivery au m sent cx dr db)"
proof (cases "find_row aat_id (pe_token_id m) (db_action_tokens db)")
  case None
  then show ?thesis by (simp add: finish_auth_email_delivery_def sound_same)
next
  case (Some t)
  then have "t \<in> set (db_action_tokens db)" by (blast dest: find_row_SomeD)
  note put = close_token_change(1) [OF this]
  show ?thesis
    by (rule sound_tokens) (use Some put in \<open>simp_all add: finish_auth_email_delivery_def Let_def r_into_rtranclp\<close>)
qed

lemma deliver_sound: "auth_sound db (snd (deliver_auth_email au m sent cx dr db))"
  using finish_sound by (simp add: deliver_auth_email_def sound_same)

lemma run_auth_sound: "fresh_call call db \<Longrightarrow> auth_sound db (run_auth au call db)"
  by (cases call) (simp_all add: sound_same [OF admit_rows(1,2)] sound_same [OF insert_registration_rows(1,2)]
      sound_same [OF check_login_rows(1,2)] finish_login_sound refresh_sound logout_sound request_verification_sound
      confirm_verification_sound request_reset_sound confirm_reset_sound deliver_sound)

section \<open>The transition system\<close>

definition auth_inv :: "database \<Rightarrow> bool" where
  "auth_inv db \<longleftrightarrow> session_inv (db_refresh_sessions db) \<and> token_inv (db_action_tokens db)"

definition auth_initial :: "database \<Rightarrow> bool" where
  "auth_initial db \<longleftrightarrow> db_refresh_sessions db = [] \<and> db_action_tokens db = []"

definition auth_later :: "database \<Rightarrow> database \<Rightarrow> bool" where
  "auth_later db db' \<longleftrightarrow> sessions_later (db_refresh_sessions db) (db_refresh_sessions db') \<and>
     tokens_later (db_action_tokens db) (db_action_tokens db')"

lemma auth_sound_inv:
  assumes "auth_sound db db'" and "auth_inv db"
  shows "auth_inv db'" and "auth_later db db'"
  using assms session_inv_change sessions_later_change token_changes_later
  unfolding auth_sound_def auth_inv_def auth_later_def by blast+

interpretation auth: history_system auth_initial "auth_step au" auth_inv auth_later for au
proof
  show "auth_inv db" if "auth_initial db" for db
    using that by (simp add: auth_initial_def auth_inv_def session_inv_def token_inv_def)
  have sound: "auth_sound db db'" if "auth_step au db db'" for db db'
    using that run_auth_sound by (auto simp: auth_step_def)
  show "auth_inv db'" "auth_later db db'" if "auth_step au db db'" "auth_inv db" for db db'
    using auth_sound_inv [OF sound [OF that(1)] that(2)] by simp_all
  show "auth_later db db" for db
    by (simp add: auth_later_def sessions_later_refl tokens_later_refl)
  show "auth_later a c" if "auth_later a b" "auth_later b c" for a b c
    using that unfolding auth_later_def by (meson sessions_later_trans tokens_later_trans)
qed

lemma run_later:
  assumes "auth_inv db" and "fresh_run au calls db"
  shows "auth_inv (run_auths au calls db)" and "auth_later db (run_auths au calls db)"
  using auth.steps_inv [OF run_auths_steps [OF assms(2)] assms(1)]
    auth.steps_later [OF run_auths_steps [OF assms(2)] assms(1)] by simp_all

text \<open>The links of the families are kept as well.\<close>

interpretation auth_families: invariant_system auth_initial "auth_step au"
    "\<lambda>db. auth_inv db \<and> families_linked (db_refresh_sessions db)" for au
proof
  show "auth_inv db \<and> families_linked (db_refresh_sessions db)" if "auth_initial db" for db
    using that by (simp add: auth_initial_def auth_inv_def session_inv_def token_inv_def families_linked_def family_def)
  show "auth_inv db' \<and> families_linked (db_refresh_sessions db')"
    if step: "auth_step au db db'" and inv: "auth_inv db \<and> families_linked (db_refresh_sessions db)" for db db'
  proof -
    have "auth_sound db db'" using step run_auth_sound by (auto simp: auth_step_def)
    then show ?thesis
      using auth_sound_inv(1) families_linked_change inv by (auto simp: auth_sound_def auth_inv_def)
  qed
qed

text \<open>A session that is not live now is found, not live, in every later state, and refused.\<close>

lemma session_found_later:
  assumes "session_inv (db_refresh_sessions db')" and "auth_later db db'"
    and "r \<in> set (db_refresh_sessions db)"
  obtains r' where "find_session (rs_token_sha256 r) db' = Some r'" "session_follows r r'"
proof -
  from assms(2,3) obtain r' where r': "r' \<in> set (db_refresh_sessions db')" "session_follows r r'"
    by (auto simp: auth_later_def sessions_later_def)
  moreover have "find_session (rs_token_sha256 r') db' = Some r'"
    using find_row_distinct [of rs_token_sha256, OF _ r'(1)] assms(1)
    by (simp add: find_session_def session_inv_def)
  ultimately show thesis using that by (simp add: session_follows_def)
qed

lemma refresh_dead:
  assumes "find_session (au_sha256 au tok) db = Some c" and "\<not> live c"
  shows "fst (refresh au (Some tok) cx dr db) = Inl Invalid_token"
  using assms by (simp add: refresh_def Let_def live_def)

lemma refresh_dead_later:
  assumes "auth_inv db" and "fresh_run au calls db" and "r \<in> set (db_refresh_sessions db)" and "\<not> live r"
    and "au_sha256 au tok = rs_token_sha256 r"
  shows "fst (refresh au (Some tok) cx dr (run_auths au calls db)) = Inl Invalid_token"
proof -
  note later = run_later [OF assms(1,2)]
  obtain r' where r': "find_session (rs_token_sha256 r) (run_auths au calls db) = Some r'" "session_follows r r'"
    using session_found_later [OF _ later(2) assms(3)] later(1) by (auto simp: auth_inv_def)
  moreover have "\<not> live r'" using r'(2) assms(4) by (auto simp: session_follows_def live_def)
  ultimately show ?thesis using refresh_dead assms(5) by metis
qed

section \<open>A concrete service\<close>

text \<open>Hashes that are the identity, and one user with an open session, whose token is \<open>''t0''\<close>.\<close>

definition demo_auth :: auth_service where
  "demo_auth =
     \<lparr>au_settings = default_auth_settings (replicate 32 (CHR ''s'')), au_hmac = (\<lambda>s m. m), au_sha256 = (\<lambda>s. s),
      au_password_hash = (\<lambda>salt p. p), au_password_verify = (\<lambda>p h. p = h), au_dummy_password_hash = ''!'',
      au_validate_email = Some, au_jwt_encode = (\<lambda>c s. ''''), au_jwt_decode = (\<lambda>t s a i l n. None)\<rparr>"

definition demo_draws :: "nat \<Rightarrow> string \<Rightarrow> draws" where
  "demo_draws n token =
     \<lparr>dr_now1 = int n, dr_now2 = int n, dr_now3 = int n, dr_event1 = n, dr_event2 = n, dr_event3 = n,
      dr_id = n, dr_family = n, dr_jti = n, dr_token = token, dr_salt = n\<rparr>"

definition demo_session :: refresh_session where
  "demo_session = new_session demo_auth 1 (demo_draws 0 ''t0'') 0 (days 7) 0"

definition demo_token :: auth_action_token where
  "demo_token =
     \<lparr>aat_id = 5, aat_user_id = 1, aat_purpose = ''password_reset'', aat_token_sha256 = ''r0'', aat_created_at = 0,
      aat_expires_at = minutes 30, aat_consumed_at = None, aat_revoked_at = None\<rparr>"

definition demo_auth_db :: database where
  "demo_auth_db = demo_init\<lparr>db_refresh_sessions := [demo_session], db_action_tokens := [demo_token]\<rparr>"

lemma demo_auth_fields [simp]:
  "au_sha256 demo_auth x = x" "au_hmac demo_auth k x = x" "au_password_hash demo_auth n x = x"
  "au_password_verify demo_auth x y \<longleftrightarrow> x = y"
  "au_settings demo_auth = default_auth_settings (replicate 32 (CHR ''s''))"
  by (simp_all add: demo_auth_def)

lemma demo_draws_fields [simp]:
  "dr_now1 (demo_draws n t) = int n" "dr_now2 (demo_draws n t) = int n" "dr_id (demo_draws n t) = n"
  "dr_family (demo_draws n t) = n" "dr_token (demo_draws n t) = t"
  by (simp_all add: demo_draws_def)

lemma demo_session_fields [simp]:
  "rs_id demo_session = 0" "rs_user_id demo_session = 1" "rs_family_id demo_session = 0"
  "rs_token_sha256 demo_session = ''t0''" "rs_revoked_at demo_session = None"
  "rs_replaced_by_id demo_session = None" "rs_expires_at demo_session = days 7"
  by (simp_all add: demo_session_def)

lemma demo_auth_db_tables [simp]:
  "db_refresh_sessions demo_auth_db = [demo_session]" "db_action_tokens demo_auth_db = [demo_token]"
  "db_users demo_auth_db = [demo_user]" "get_user 1 demo_auth_db = Some demo_user"
  by (simp_all add: demo_auth_db_def get_user_def)

lemma demo_auth_inv: "auth_inv demo_auth_db"
  by (simp add: auth_inv_def session_inv_def token_inv_def)

lemma demo_user_fields [simp]: "usr_is_active demo_user" "usr_username demo_user = ''alice''"
  "usr_password_hash demo_user = ''h''"
  by (simp_all add: demo_user_def)

lemma demo_refresh:
  "\<exists>issued db1. refresh demo_auth (Some ''t0'') None (demo_draws 1 ''t1'') demo_auth_db = (Inr issued, db1) \<and>
     db_refresh_sessions db1 =
       [demo_session\<lparr>rs_revoked_at := Some 1, rs_last_used_at := Some 1, rs_replaced_by_id := Some 1\<rparr>,
        new_session demo_auth 1 (demo_draws 1 ''t1'') 1 (days 7) 0]"
  by (simp add: refresh_def find_session_def issue_tokens_def insert_session_def get_user_def Let_def
      del: One_nat_def)

lemma demo_login:
  "\<exists>issued db1. login demo_auth ''alice'' ''h'' None (demo_draws 3 ''t3'') demo_init = (Inr issued, db1) \<and>
     db_refresh_sessions db1 = [new_session demo_auth 1 (demo_draws 3 ''t3'') 3 (3 + days 7) 3]"
proof -
  have "find_login_user ''alice'' demo_init = Inr (Some demo_user)" by (simp add: find_login_user_def)
  moreover have "lower (strip ''alice'') = ''alice''"
    by (simp add: lower_def lower_char_def strip_def strip_by_def is_space_def code_point_def)
  moreover have "db_throttle_buckets demo_init = []" "db_refresh_sessions demo_init = []"
    by (simp_all add: demo_init_def empty_database_def)
  moreover have "as_refresh_token_ttl_days (default_auth_settings k) = 7" for k
    by (simp add: default_auth_settings_def)
  ultimately show ?thesis
    by (simp add: login_def read_login_def check_login_def finish_login_def Let_def client_ip_fingerprint_def login_keys_def login_retry_after_def
        check_login_key_def get_throttle_bucket_def complete_login_def reset_account_throttle_def
        issue_tokens_def insert_session_def get_user_def put_user_def del: One_nat_def)
qed

section \<open>Properties\<close>

text \<open>
  C13. Sessions form chains of replacements: in every state the service reaches, the sessions that
  descend from one login, in the order in which they were issued, each name the next one as their
  replacement and are revoked, the last one has no replacement, so that at most it is not revoked; and all
  of them belong to one user and expire at the same time, however often they were rotated.
\<close>

theorem session_families_are_chains:
  assumes "auth_initial db0" and "fresh_run au calls db0"
    and "rs = family f (db_refresh_sessions (run_auths au calls db0))"
  shows "(\<forall>i. Suc i < length rs \<longrightarrow>
      rs_replaced_by_id (rs ! i) = Some (rs_id (rs ! Suc i)) \<and> rs_revoked_at (rs ! i) \<noteq> None) \<and>
    (rs \<noteq> [] \<longrightarrow> rs_replaced_by_id (last rs) = None) \<and>
    (\<forall>r \<in> set rs. \<forall>r' \<in> set rs. rs_user_id r = rs_user_id r' \<and> rs_expires_at r = rs_expires_at r')"
proof -
  have inv: "auth_inv (run_auths au calls db0)" and links: "linked rs"
    using auth_families.reachable_inv [OF assms(1) run_auths_steps [OF assms(2)]]
    by (simp_all add: families_linked_def assms(3))
  have "chained r r'" "rs_family_id r = rs_family_id r'" if "r \<in> set rs" "r' \<in> set rs" for r r'
    using inv that by (auto simp: auth_inv_def session_inv_def family_def assms(3))
  then have "rs_user_id r = rs_user_id r' \<and> rs_expires_at r = rs_expires_at r'"
    if "r \<in> set rs" "r' \<in> set rs" for r r' using that unfolding chained_def by blast
  moreover have "rs_replaced_by_id (rs ! i) = Some (rs_id (rs ! Suc i)) \<and> rs_revoked_at (rs ! i) \<noteq> None"
    if "Suc i < length rs" for i using linked_nth [OF links that] by (simp add: live_def)
  ultimately show ?thesis using linked_last [OF links] by blast
qed

definition demo_attempt :: login_attempt where
  "demo_attempt = \<lparr>la_identifier = ''alice'', la_user_id = Some 1, la_stored_hash = ''h'', la_keys = [],
     la_context = None\<rparr>"

definition session_demo_calls :: "auth_call list" where
  "session_demo_calls = [Check_login demo_attempt (demo_draws 3 ''t3''), Finish_login demo_attempt ''h'' (demo_draws 3 ''t3''),
     Refresh (Some ''t3'') None (demo_draws 4 ''t4'')]"

lemma demo_finish:
  "\<exists>db1. run_auths demo_auth [Check_login demo_attempt (demo_draws 3 ''t3''),
       Finish_login demo_attempt ''h'' (demo_draws 3 ''t3'')] demo_init = db1 \<and>
     db_refresh_sessions db1 = [new_session demo_auth 1 (demo_draws 3 ''t3'') 3 (3 + days 7) 3] \<and>
     (\<exists>u. get_user 1 db1 = Some u \<and> usr_is_active u \<and> usr_id u = 1)"
proof -
  have "db_refresh_sessions demo_init = []" by (simp add: demo_init_def empty_database_def)
  moreover have "as_refresh_token_ttl_days (default_auth_settings k) = 7" for k
    by (simp add: default_auth_settings_def)
  ultimately show ?thesis
    by (simp add: run_auths_def demo_attempt_def check_login_def login_retry_after_def
        finish_login_def complete_login_def reset_account_throttle_def issue_tokens_def insert_session_def
        get_user_def put_user_def put_row_def add_auth_event_def Let_def del: One_nat_def)
qed

lemma demo_rotated:
  "\<exists>a b. db_refresh_sessions (run_auths demo_auth session_demo_calls demo_init) = [a, b] \<and>
     rs_family_id a = 3 \<and> rs_family_id b = 3"
proof -
  obtain db1 u where db1: "run_auths demo_auth [Check_login demo_attempt (demo_draws 3 ''t3''),
       Finish_login demo_attempt ''h'' (demo_draws 3 ''t3'')] demo_init = db1"
    and rows: "db_refresh_sessions db1 = [new_session demo_auth 1 (demo_draws 3 ''t3'') 3 (3 + days 7) 3]"
    and u: "get_user 1 db1 = Some u" "usr_is_active u" "usr_id u = 1"
    using demo_finish by auto
  have "run_auths demo_auth session_demo_calls demo_init = snd (refresh demo_auth (Some ''t3'') None (demo_draws 4 ''t4'') db1)"
    by (simp add: session_demo_calls_def run_auths_def flip: db1)
  moreover have "\<exists>a b. db_refresh_sessions (snd (refresh demo_auth (Some ''t3'') None (demo_draws 4 ''t4'') db1)) = [a, b] \<and>
     rs_family_id a = 3 \<and> rs_family_id b = 3"
    using rows u by (simp add: refresh_def find_session_def issue_tokens_def insert_session_def put_row_def Let_def
        del: One_nat_def)
  ultimately show ?thesis by simp
qed

theorem session_families_are_chains_witness:
  "\<exists>a b. family 3 (db_refresh_sessions (run_auths demo_auth session_demo_calls demo_init)) = [a, b] \<and>
     rs_replaced_by_id a = Some (rs_id b) \<and> rs_revoked_at a \<noteq> None \<and> rs_replaced_by_id b = None"
proof -
  have init: "auth_initial demo_init" "db_refresh_sessions demo_init = []"
    by (simp_all add: auth_initial_def demo_init_def empty_database_def)
  have "db_refresh_sessions (snd (check_login demo_auth demo_attempt (demo_draws 3 ''t3'') demo_init)) = []"
    using check_login_rows(1) init(2) by simp
  then have fresh: "fresh_run demo_auth session_demo_calls demo_init" by (simp add: session_demo_calls_def)
  obtain a b where "family 3 (db_refresh_sessions (run_auths demo_auth session_demo_calls demo_init)) = [a, b]"
    using demo_rotated by (auto simp: family_def)
  moreover note session_families_are_chains [OF init(1) fresh this [symmetric]]
  ultimately show ?thesis by (intro exI [of _ a] exI [of _ b]) simp
qed

text \<open>
  C14. A refresh token works once: after it was exchanged, presenting it again is refused in every later
  run of the service.
\<close>

theorem refresh_token_works_once:
  assumes "auth_inv db" and "refresh au (Some tok) cx dr db = (Inr issued, db1)" and "fresh_run au calls db1"
  shows "fst (refresh au (Some tok) cx' dr' (run_auths au calls db1)) = Inl Invalid_token"
proof (cases rule: refresh_effect [of au "Some tok" cx dr db])
  case (Rotated c user issued' db2)
  let ?c = "c\<lparr>rs_revoked_at := Some (dr_now1 dr), rs_last_used_at := Some (dr_now1 dr),
      rs_replaced_by_id := Some (dr_id dr)\<rparr>"
  note row = insert_frames(1) [OF Rotated(7)] and c = find_session_SomeD [OF Rotated(2)]
  have inv: "auth_inv db1"
    using auth_sound_inv(1) [OF refresh_sound [of db au "Some tok" cx dr] assms(1)] assms(2) by simp
  have "?c \<in> set (db_refresh_sessions db1)"
    using assms(2) Rotated(1) row c by (auto simp: put_row_def intro!: image_eqI [of _ _ c])
  moreover have "\<not> live ?c" by (simp add: live_def)
  ultimately show ?thesis using refresh_dead_later [OF inv assms(3)] c by simp
qed (use assms(2) in simp_all)

theorem refresh_token_works_once_witness:
  "\<exists>issued db1. refresh demo_auth (Some ''t0'') None (demo_draws 1 ''t1'') demo_auth_db = (Inr issued, db1) \<and>
     fst (refresh demo_auth (Some ''t0'') None (demo_draws 2 ''t2'')
       (run_auths demo_auth [Logout (Some ''t0'') None (demo_draws 2 '''')] db1)) = Inl Invalid_token"
proof -
  obtain issued db1 where run: "refresh demo_auth (Some ''t0'') None (demo_draws 1 ''t1'') demo_auth_db = (Inr issued, db1)"
    using demo_refresh by blast
  have "fresh_run demo_auth [Logout (Some ''t0'') None (demo_draws 2 '''')] db1" by simp
  from refresh_token_works_once [OF demo_auth_inv run this] run show ?thesis by blast
qed

text \<open>
  C15. A replayed token ends its family: when a token that was already exchanged is presented, no session
  of the family is usable in any later run, and every token of the family is refused.
\<close>

theorem replayed_token_ends_family:
  assumes "auth_inv db" and "find_session (au_sha256 au tok) db = Some c" and "tok \<noteq> []"
    and "rs_revoked_at c \<noteq> None" and "rs_replaced_by_id c \<noteq> None"
    and "refresh au (Some tok) cx dr db = (res, db1)" and "fresh_run au calls db1"
  shows "res = Inl Invalid_token \<and>
    (\<forall>r \<in> set (db_refresh_sessions (run_auths au calls db1)). rs_family_id r = rs_family_id c \<longrightarrow>
       rs_revoked_at r \<noteq> None \<and>
       (\<forall>tok' cx' dr'. au_sha256 au tok' = rs_token_sha256 r \<longrightarrow>
          fst (refresh au (Some tok') cx' dr' (run_auths au calls db1)) = Inl Invalid_token))"
proof -
  have run: "(res, db1) = (Inl Invalid_token, add_auth_event
      (refresh_event au c ''reuse'' (Some ''refresh_reuse_detected'') cx dr)
      (revoke_family (rs_family_id c) (dr_now1 dr) db))"
    using assms(2-6) by (simp add: refresh_def Let_def)
  have inv: "auth_inv db1"
    using auth_sound_inv(1) [OF refresh_sound [of db au "Some tok" cx dr] assms(1)] assms(6) by simp
  let ?f = "\<lambda>r. if rs_family_id r = rs_family_id c \<and> rs_revoked_at r = None
      then r\<lparr>rs_revoked_at := Some (dr_now1 dr)\<rparr> else r"
  have rows: "set (db_refresh_sessions db1) = ?f ` set (db_refresh_sessions db)"
    using run by (simp add: revoke_family_def update_where_def)
  have "?f c \<in> set (db_refresh_sessions db1)"
    unfolding rows using find_session_SomeD [OF assms(2)] by (intro imageI) simp
  then have "rs_family_id c \<in> rs_family_id ` set (db_refresh_sessions db1)"
    by (rule rev_image_eqI) simp
  moreover have "\<forall>r \<in> set (db_refresh_sessions db1). rs_family_id r = rs_family_id c \<longrightarrow> \<not> live r"
    unfolding rows by (auto simp: live_def)
  ultimately have "dead_family (rs_family_id c) (db_refresh_sessions db1)" by (simp add: dead_family_def)
  then have dead: "dead_family (rs_family_id c) (db_refresh_sessions (run_auths au calls db1))"
    using run_later(2) [OF inv assms(7)] by (simp add: auth_later_def sessions_later_def)
  have "session_inv (db_refresh_sessions (run_auths au calls db1))"
    using run_later(1) [OF inv assms(7)] by (simp add: auth_inv_def)
  then have "fst (refresh au (Some tok') cx' dr' (run_auths au calls db1)) = Inl Invalid_token"
    if "r \<in> set (db_refresh_sessions (run_auths au calls db1))" "rs_family_id r = rs_family_id c"
      "au_sha256 au tok' = rs_token_sha256 r" for r tok' cx' dr'
    using that dead find_row_distinct [of rs_token_sha256 _ r]
    by (intro refresh_dead [of _ _ _ r]) (auto simp: find_session_def session_inv_def dead_family_def)
  with dead run show ?thesis by (auto simp: dead_family_def live_def)
qed

theorem replayed_token_ends_family_witness:
  "\<exists>db1 res db2. refresh demo_auth (Some ''t0'') None (demo_draws 2 '''') db1 = (res, db2) \<and> res = Inl Invalid_token \<and>
     fst (refresh demo_auth (Some ''t1'') None (demo_draws 4 ''t4'') (run_auths demo_auth [] db2)) = Inl Invalid_token"
proof -
  obtain issued db1 where run: "refresh demo_auth (Some ''t0'') None (demo_draws 1 ''t1'') demo_auth_db = (Inr issued, db1)"
    and rows: "db_refresh_sessions db1 =
       [demo_session\<lparr>rs_revoked_at := Some 1, rs_last_used_at := Some 1, rs_replaced_by_id := Some 1\<rparr>,
        new_session demo_auth 1 (demo_draws 1 ''t1'') 1 (days 7) 0]"
    using demo_refresh by blast
  let ?c = "demo_session\<lparr>rs_revoked_at := Some 1, rs_last_used_at := Some 1, rs_replaced_by_id := Some 1\<rparr>"
  have inv: "auth_inv db1"
    using auth_sound_inv(1) [OF refresh_sound demo_auth_inv, of demo_auth "Some ''t0''" None "demo_draws 1 ''t1''"] run
    by simp
  have c: "find_session (au_sha256 demo_auth ''t0'') db1 = Some ?c" by (simp add: find_session_def rows)
  obtain res db2 where res: "refresh demo_auth (Some ''t0'') None (demo_draws 2 '''') db1 = (res, db2)" by fastforce
  have "\<exists>r \<in> set (db_refresh_sessions db2). rs_family_id r = 0 \<and> rs_token_sha256 r = ''t1''"
    using res c rows by (auto simp: refresh_def Let_def revoke_family_def update_where_def)
  then obtain r where "r \<in> set (db_refresh_sessions db2)" "rs_family_id r = 0" "rs_token_sha256 r = ''t1''" by blast
  then have "res = Inl Invalid_token \<and>
      fst (refresh demo_auth (Some ''t1'') None (demo_draws 4 ''t4'') (run_auths demo_auth [] db2)) = Inl Invalid_token"
    using replayed_token_ends_family [OF inv c _ _ _ res, of "[]"]
    by (simp add: run_auths_def) metis
  with res show ?thesis by blast
qed

text \<open>
  C16. A password reset takes effect at once: the new password's hash is stored for the owner of the
  token, every session of this user is revoked and refused in every later run, and the token of the
  reset is never accepted again.
\<close>

theorem password_reset_ends_sessions:
  assumes "auth_inv db" and "confirm_password_reset au tok pw cx dr db = (Inr (), db1)"
    and "fresh_run au calls db1"
  shows "\<exists>t user. find_action_token (au_sha256 au tok) ''password_reset'' db = Some t \<and>
    get_user (aat_user_id t) db1 = Some user \<and>
    usr_password_hash user = au_password_hash au (dr_salt dr) pw \<and>
    (\<forall>r \<in> set (db_refresh_sessions db1). rs_user_id r = aat_user_id t \<longrightarrow> rs_revoked_at r \<noteq> None \<and>
      (\<forall>tok' cx' dr'. au_sha256 au tok' = rs_token_sha256 r \<longrightarrow>
         fst (refresh au (Some tok') cx' dr' (run_auths au calls db1)) = Inl Invalid_token)) \<and>
    (\<forall>pw' cx' dr'. isl (fst (confirm_password_reset au tok pw' cx' dr' (run_auths au calls db1))))"
proof (cases rule: confirm_reset_effect [of au tok pw cx dr db])
  case Failed
  with assms(2) show ?thesis by simp
next
  case (Reset t user)
  let ?u = "user\<lparr>usr_password_hash := au_password_hash au (dr_salt dr) pw, usr_email_verified := True,
      usr_updated_at := dr_now2 dr\<rparr>"
  let ?t = "t\<lparr>aat_consumed_at := Some (dr_now2 dr)\<rparr>"
  note tok = find_action_token_SomeD [OF Reset(1)]
  have key: "usr_id user = aat_user_id t" using Reset(3) by (rule user_rows.get_key)
  have inv: "auth_inv db1"
    using auth_sound_inv(1) [OF confirm_reset_sound [of db au tok pw cx dr] assms(1)] assms(2) by simp
  note later = run_later [OF inv assms(3)]
  have "db_users db1 = put_row usr_id ?u (db_users db)"
    using assms(2) Reset(5)
    by (auto simp: revoke_user_sessions_def revoke_other_action_tokens_def revoke_tokens_def put_action_token_def
        put_user_def)
  then have user: "get_user (aat_user_id t) db1 = Some ?u"
    using Reset(3) key by (simp add: get_user_def find_put)
  have revoked: "\<not> live r" if "r \<in> set (db_refresh_sessions db1)" "rs_user_id r = aat_user_id t" for r
    using that assms(2) Reset(5) key
    by (auto simp: revoke_user_sessions_def update_where_def live_def revoke_other_action_tokens_def)
  obtain x where x: "x \<in> set (db_action_tokens db1)" "aat_consumed_at x \<noteq> None"
      "aat_token_sha256 x = au_sha256 au tok" "aat_purpose x = ''password_reset''"
  proof
    have "?t \<in> set (put_row aat_id ?t (db_action_tokens db))"
      using tok by (auto simp: put_row_def intro!: image_eqI [of _ _ t])
    then show "?t \<in> set (db_action_tokens db1)"
      using assms(2) Reset(5)
      by (auto simp: revoke_user_sessions_def revoke_other_action_tokens_def update_where_def open_token_def
          intro!: image_eqI [of _ _ ?t])
  qed (use tok in simp_all)
  from later(2) x(1) obtain x' where x': "x' \<in> set (db_action_tokens (run_auths au calls db1))" "token_follows x x'"
    by (auto simp: auth_later_def tokens_later_def)
  have "find_action_token (au_sha256 au tok) ''password_reset'' (run_auths au calls db1) = Some y \<Longrightarrow> y = x'" for y
    using find_action_token_SomeD x' x(3) later(1)
    by (metis auth_inv_def distinct_map inj_onD token_follows_def token_inv_def)
  then have "\<not> action_token_is_active
      (find_action_token (au_sha256 au tok) ''password_reset'' (run_auths au calls db1)) now" for now
    using x'(2) x(2) by (auto simp: action_token_is_active_def token_follows_def split: option.splits)
  then have "isl (fst (confirm_password_reset au tok pw' cx' dr' (run_auths au calls db1)))" for pw' cx' dr'
    by (simp add: confirm_password_reset_def Let_def split: option.split)
  with user revoked Reset(1) refresh_dead_later [OF inv assms(3)] show ?thesis
    by (intro exI [of _ t] exI [of _ ?u]) (simp add: live_def)
qed

theorem password_reset_ends_sessions_witness:
  "\<exists>db1. confirm_password_reset demo_auth ''r0'' ''correct-horse'' None (demo_draws 1 '''') demo_auth_db = (Inr (), db1) \<and>
     isl (fst (confirm_password_reset demo_auth ''r0'' ''battery-staple'' None (demo_draws 2 '''') (run_auths demo_auth [] db1)))"
proof -
  have "password_error ''correct-horse'' = None"
    by (simp add: password_error_def strip_def strip_by_def is_space_def code_point_def)
  then obtain db1 where run:
    "confirm_password_reset demo_auth ''r0'' ''correct-horse'' None (demo_draws 1 '''') demo_auth_db = (Inr (), db1)"
    by (simp add: confirm_password_reset_def find_action_token_def action_token_is_active_def demo_token_def Let_def
        del: One_nat_def)
  have "fresh_run demo_auth [] db1" by simp
  from password_reset_ends_sessions [OF demo_auth_inv run this] run show ?thesis by blast
qed

text \<open>
  C17. A login needs the password: tokens are issued only when the identifier names a user whose stored
  hash verifies the password and who is active, and the new session is live, belongs to this user and
  lasts the configured number of days.
\<close>

theorem login_requires_password:
  assumes "login au identifier password cx dr db = (Inr issued, db1)"
  shows "\<exists>u v r. u \<in> set (db_users db) \<and>
    (usr_username u = lower (strip identifier) \<or> usr_email u = lower (strip identifier)) \<and>
    au_password_verify au password (usr_password_hash u) \<and>
    get_user (usr_id u) db = Some v \<and> usr_is_active v \<and> ui_id (it_user issued) = usr_id u \<and>
    find_session (au_sha256 au (it_refresh_token issued)) db1 = Some r \<and> rs_user_id r = usr_id u \<and>
    rs_revoked_at r = None \<and> rs_expires_at r = dr_now2 dr + days (as_refresh_token_ttl_days (au_settings au))"
proof (cases rule: login_effect [of au "identifier" password cx dr db])
  case Failed
  with assms show ?thesis by simp
next
  case (Checked u keys db2)
  have users: "db_users db2 = db_users db"
    using consume_frames(11) [of "au_settings au" keys "dr_now1 dr" db] Checked(4) by simp
  have u: "u \<in> set (db_users db)"
      "usr_username u = lower (strip identifier) \<or> usr_email u = lower (strip identifier)"
    using Checked(2) unfolding find_login_user_def
    by (auto split: list.splits simp: filter_eq_Cons_iff)
  show ?thesis
  proof (cases rule: complete_login_effect [of au "usr_id u" keys cx
        "identifier_fingerprint au (lower (strip identifier))" dr db2])
    case Failed
    with assms Checked(1) show ?thesis by simp
  next
    case (Success v issued' db3 ev)
    note row = insert_frames(1) [OF Success(4)]
    have "usr_id v = usr_id u" using Success(2) by (rule user_rows.get_key)
    moreover have "get_user (usr_id u) db = Some v" using Success(2) users by (simp add: get_user_def)
    moreover have "find_row rs_token_sha256 (au_sha256 au (dr_token dr)) (db_refresh_sessions db2) = None"
      using row by (simp add: find_row_None_iff)
    ultimately show ?thesis
      using u Checked(1,5) Success(1,3,5,6) assms row
      by (intro exI [of _ u] exI [of _ v] exI [of _ "new_session au (usr_id v) dr (dr_now2 dr)
          (dr_now2 dr + days (as_refresh_token_ttl_days (au_settings au))) (dr_family dr)"])
        (simp add: find_session_def user_identity_of_def)
  qed
qed

theorem login_requires_password_witness:
  "\<exists>issued db1. login demo_auth ''alice'' ''h'' None (demo_draws 3 ''t3'') demo_init = (Inr issued, db1) \<and>
     (\<exists>u \<in> set (db_users demo_init). au_password_verify demo_auth ''h'' (usr_password_hash u))"
proof -
  obtain issued db1 where run: "login demo_auth ''alice'' ''h'' None (demo_draws 3 ''t3'') demo_init = (Inr issued, db1)"
    using demo_login by blast
  from login_requires_password [OF run] run show ?thesis by blast
qed

end
