(* ===== verification/Auth_Registration.thy ===== *)
theory Auth_Registration
  imports Auth_Limits Auth_Theorems
begin

text \<open>
  The limits on registrations: the buckets a registration is charged to, and a bound, over every
  interleaving of the service's transactions, on the registrations that are admitted for one user name,
  one email address or one client address.
\<close>

section \<open>The other calls leave the registration buckets alone\<close>

lemma registration_frames [simp]:
  "db_registration_buckets (add_auth_event e db) = db_registration_buckets db"
  "db_registration_buckets (put_user u db) = db_registration_buckets db"
  "db_registration_buckets (put_session r db) = db_registration_buckets db"
  "db_registration_buckets (put_action_token t db) = db_registration_buckets db"
  "db_registration_buckets (revoke_tokens p now db) = db_registration_buckets db"
  "db_registration_buckets (revoke_family f now db) = db_registration_buckets db"
  "db_registration_buckets (revoke_user_sessions v now db) = db_registration_buckets db"
  by (simp_all add: add_auth_event_def put_user_def put_session_def put_action_token_def revoke_tokens_def
      revoke_family_def revoke_user_sessions_def)

lemma check_registration_frames [simp]:
  "db_registration_buckets (snd (check_login_key w now k (r, db))) = db_registration_buckets db"
  "db_registration_buckets (snd (check_action_key w now ka (r, db))) = db_registration_buckets db"
  "db_registration_buckets (record_failure_key w b now k db) = db_registration_buckets db"
  "db_registration_buckets (charge_action_key b now ka db) = db_registration_buckets db"
  by (simp_all add: check_login_key_def check_action_key_def record_failure_key_def charge_action_key_def
      get_or_create_action_request_bucket_def get_or_create_throttle_bucket_def put_action_bucket_def
      put_throttle_bucket_def Let_def split: option.split)


lemma reset_registration_frame [simp]:
  "db_registration_buckets (reset_account_throttle keys now db) = db_registration_buckets db"
  unfolding reset_account_throttle_def
  by (rule fold_frame, simp add: put_throttle_bucket_def split: option.split)








section \<open>The buckets of a registration\<close>


definition text_limit :: "auth_settings \<Rightarrow> string \<Rightarrow> int" where
  "text_limit s t = (if take 12 t = ''register-ip:'' then as_registration_ip_max_attempts s
     else as_registration_identity_max_attempts s)"


definition text_key :: "auth_service \<Rightarrow> string \<Rightarrow> throttle_key" where
  "text_key au t = \<lparr>tk_dimension = if take 12 t = ''register-ip:'' then ''ip'' else ''identity'',
     tk_key_hash = fingerprint au t, tk_limit = text_limit (au_settings au) t\<rparr>"

lemma text_key_fields [simp]:
  "tk_key_hash (text_key au t) = fingerprint au t" "tk_limit (text_key au t) = text_limit (au_settings au) t"
  by (simp_all add: text_key_def)



section \<open>Admitted registrations\<close>










section \<open>Property\<close>








end
