(* ===== verification/Auth_Lockout.thy ===== *)
theory Auth_Lockout
  imports Auth_Limits Auth_Theorems
begin

text \<open>
  The lockout of accounts and addresses. A login is a check of the throttle, committed before the password
  is compared, and a later transaction that records the failure or the success; between the two other
  logins may pass the same check. What both do to the bucket of a key, a bound on the passwords that can be
  tried under a key when at most \<open>c\<close> attempts are between their two transactions, and the persistence
  of a lock over every run of the service.
\<close>

section \<open>Recording failures\<close>

text \<open>What a recorded failure makes of a bucket: nothing while the bucket is blocked.\<close>

definition recorded :: "int \<Rightarrow> int \<Rightarrow> int \<Rightarrow> time \<Rightarrow> attempt_state option \<Rightarrow> attempt_state option" where
  "recorded limit window block now v =
     (if blocked_state now v then v
      else Some (charged limit block now
        (case v of None \<Rightarrow> \<lparr>ats_count = 0, ats_started = now, ats_blocked = None\<rparr>
         | Some x \<Rightarrow> if ats_started x + window \<le> now then \<lparr>ats_count = 0, ats_started = now, ats_blocked = None\<rparr> else x)))"

lemma record_failure_view:
  "h \<noteq> tk_key_hash k \<Longrightarrow> throttle_view h (record_failure_key window block now k db) = throttle_view h db"
  "throttle_view (tk_key_hash k) (record_failure_key window block now k db) =
     recorded (tk_limit k) window block now (throttle_view (tk_key_hash k) db)"
proof -
  obtain b db1 where g: "get_or_create_throttle_bucket k now db = (b, db1)" by fastforce
  have append: "get_throttle_bucket h' (db\<lparr>db_throttle_buckets := db_throttle_buckets db @ [x]\<rparr>) =
      (case get_throttle_bucket h' db of None \<Rightarrow> if atb_key_hash x = h' then Some x else None | Some y \<Rightarrow> Some y)"
    for h' x
    by (simp add: get_throttle_bucket_def split: option.split)
  from g have key: "atb_key_hash b = tk_key_hash k" and found: "get_throttle_bucket (tk_key_hash k) db1 = Some b"
    and other: "h \<noteq> tk_key_hash k \<Longrightarrow> get_throttle_bucket h db1 = get_throttle_bucket h db"
    by (auto simp: get_or_create_throttle_bucket_def Let_def append throttle_rows.get_key split: option.splits)
  show "h \<noteq> tk_key_hash k \<Longrightarrow> throttle_view h (record_failure_key window block now k db) = throttle_view h db"
    using key other by (simp add: record_failure_key_def g Let_def throttle_view_def throttle_rows.get_put_other)
  have "get_throttle_bucket (tk_key_hash k) db = None \<and> b = \<lparr>atb_key_hash = tk_key_hash k,
      atb_dimension = tk_dimension k, atb_failure_count = 0, atb_window_started_at = now,
      atb_blocked_until = None, atb_updated_at = now\<rparr> \<or> get_throttle_bucket (tk_key_hash k) db = Some b"
    using g by (auto simp: get_or_create_throttle_bucket_def Let_def split: option.splits)
  then show "throttle_view (tk_key_hash k) (record_failure_key window block now k db) =
     recorded (tk_limit k) window block now (throttle_view (tk_key_hash k) db)"
    using key found
    by (auto simp: record_failure_key_def g Let_def throttle_view_def throttle_rows.get_put
        charged_def recorded_def blocked_at_def blocked_state_def)
qed

lemma record_fold_other:
  "h \<notin> tk_key_hash ` set keys \<Longrightarrow>
     throttle_view h (fold (record_failure_key window block now) keys db) = throttle_view h db"
  by (induction keys arbitrary: db) (simp_all add: record_failure_view(1))

lemma record_fold_view:
  assumes "distinct (map tk_key_hash keys)" and "k \<in> set keys"
  shows "throttle_view (tk_key_hash k) (fold (record_failure_key window block now) keys db) =
    recorded (tk_limit k) window block now (throttle_view (tk_key_hash k) db)"
  using assms
proof (induction keys arbitrary: db)
  case (Cons k0 keys)
  show ?case
  proof (cases "k = k0")
    case True
    with Cons.prems show ?thesis by (simp add: record_fold_other record_failure_view(2))
  next
    case False
    then have k: "k \<in> set keys" using Cons.prems(2) by simp
    then have "tk_key_hash k \<noteq> tk_key_hash k0"
      using Cons.prems(1) by (metis distinct.simps(2) image_eqI list.set_map list.simps(9))
    with Cons k show ?thesis by (simp add: record_failure_view(1))
  qed
qed simp

lemma recorded_blocked: "blocked_state now v \<Longrightarrow> recorded limit window block now v = v"
  by (simp add: recorded_def)

section \<open>Resetting an account\<close>

lemma reset_other: "h \<notin> tk_key_hash ` set keys \<Longrightarrow> throttle_view h (reset_account_throttle keys now db) = throttle_view h db"
proof (induction keys arbitrary: db)
  case (Cons k keys)
  have "throttle_view h (put_throttle_bucket (b\<lparr>atb_failure_count := 0, atb_window_started_at := now,
      atb_blocked_until := None, atb_updated_at := now\<rparr>) db) = throttle_view h db"
    if "get_throttle_bucket (tk_key_hash k) db = Some b" for b
    using throttle_rows.get_key [OF that] Cons.prems by (auto simp: throttle_view_def throttle_rows.get_put_other)
  with Cons show ?case by (auto simp: reset_account_throttle_def split: option.split)
qed (simp add: reset_account_throttle_def)

lemma reset_ip:
  assumes "\<forall>k \<in> set keys. tk_key_hash k = h \<longrightarrow> tk_dimension k \<noteq> ''account''"
  shows "throttle_view h (reset_account_throttle keys now db) = throttle_view h db"
  using assms
proof (induction keys arbitrary: db)
  case (Cons k keys)
  have "throttle_view h (put_throttle_bucket (b\<lparr>atb_failure_count := 0, atb_window_started_at := now,
      atb_blocked_until := None, atb_updated_at := now\<rparr>) db) = throttle_view h db"
    if "get_throttle_bucket (tk_key_hash k) db = Some b" "tk_key_hash k \<noteq> h" for b
    using throttle_rows.get_key [OF that(1)] that(2) by (auto simp: throttle_view_def throttle_rows.get_put_other)
  with Cons show ?case by (auto simp: reset_account_throttle_def split: option.split)
qed (simp add: reset_account_throttle_def)

text \<open>The state a reset leaves: an empty window that starts now, or no bucket.\<close>

definition cleared :: "time \<Rightarrow> attempt_state option \<Rightarrow> bool" where
  "cleared now v \<longleftrightarrow> v = None \<or> v = Some \<lparr>ats_count = 0, ats_started = now, ats_blocked = None\<rparr>"

lemma reset_account:
  assumes "cleared now (throttle_view h db) \<or> (\<exists>k \<in> set keys. tk_key_hash k = h \<and> tk_dimension k = ''account'')"
  shows "cleared now (throttle_view h (reset_account_throttle keys now db))"
  using assms
proof (induction keys arbitrary: db)
  case (Cons k keys)
  let ?put = "\<lambda>b. put_throttle_bucket (b\<lparr>atb_failure_count := 0, atb_window_started_at := now,
      atb_blocked_until := None, atb_updated_at := now\<rparr>) db"
  let ?db = "if tk_dimension k \<noteq> ''account'' then db
    else case get_throttle_bucket (tk_key_hash k) db of None \<Rightarrow> db | Some b \<Rightarrow> ?put b"
  have "throttle_view (tk_key_hash k) (?put b) = Some \<lparr>ats_count = 0, ats_started = now, ats_blocked = None\<rparr>"
    "h \<noteq> tk_key_hash k \<Longrightarrow> throttle_view h (?put b) = throttle_view h db"
    if "get_throttle_bucket (tk_key_hash k) db = Some b" for b
    using throttle_rows.get_key [OF that] that
    by (auto simp: throttle_view_def throttle_rows.get_put throttle_rows.get_put_other)
  then have "cleared now (throttle_view h ?db) \<or> (\<exists>k \<in> set keys. tk_key_hash k = h \<and> tk_dimension k = ''account'')"
    using Cons.prems by (cases "h = tk_key_hash k") (auto simp: cleared_def throttle_view_def split: option.split)
  from Cons.IH [OF this] show ?case by (simp add: reset_account_throttle_def)
qed (simp add: reset_account_throttle_def)

section \<open>What the two transactions of a login do to a bucket\<close>

definition under :: "string \<Rightarrow> login_attempt \<Rightarrow> bool" where
  "under h la \<longleftrightarrow> h \<in> tk_key_hash ` set (la_keys la)"

text \<open>The key of the account of a user, whatever identifier a login gives.\<close>

definition account_key :: "auth_service \<Rightarrow> uuid \<Rightarrow> string" where
  "account_key au k =
     fingerprint au (''login-account:'' @ fingerprint au (''login-subject:'' @ ''user:'' @ uuid_str k))"

lemma read_login_keys:
  assumes "read_login au i cx db = Inr la"
  shows "la_user_id la = Some k \<Longrightarrow> under (account_key au k) la"
    and "cx = Some c \<Longrightarrow> cx_client_ip c = Some ip \<Longrightarrow>
      under (fingerprint au (''login-ip:'' @ fingerprint au (''client-ip:'' @ ip))) la"
  using assms
  by (auto simp: read_login_def Let_def under_def login_keys_def account_key_def login_account_fingerprint_def
      client_ip_fingerprint_def set_insort_key split: sum.splits)

lemma login_retry_cases:
  assumes "login_retry_after s keys now db = (r, db1)" and "distinct (map tk_key_hash keys)"
  shows "throttle_view h db1 = (if h \<in> tk_key_hash ` set keys
      then map_option (settled (minutes (as_login_window_minutes s)) now) (throttle_view h db) else throttle_view h db)"
    and "r = None \<longleftrightarrow> (\<forall>k \<in> set keys. \<not> blocked_state now (throttle_view (tk_key_hash k) db))"
    and "\<forall>w. r = Some w \<longrightarrow> 1 \<le> w"
proof -
  obtain n db2 where f: "fold (check_login_key (minutes (as_login_window_minutes s)) now) keys (0, db) = (n, db2)"
    by fastforce
  note checked = login_checks.check_fold [OF f assms(2) order_refl]
  have "db1 = db2" "r = (if n = 0 then None else Some n)"
    using assms(1) f by (auto simp: login_retry_after_def Let_def split: if_splits)
  with checked show "throttle_view h db1 = (if h \<in> tk_key_hash ` set keys
      then map_option (settled (minutes (as_login_window_minutes s)) now) (throttle_view h db) else throttle_view h db)"
    and "r = None \<longleftrightarrow> (\<forall>k \<in> set keys. \<not> blocked_state now (throttle_view (tk_key_hash k) db))"
    and "\<forall>w. r = Some w \<longrightarrow> 1 \<le> w"
    by (auto split: if_splits) (metis linorder_neqE_linordered_idom not_less zless_imp_add1_zle add_0)+
qed

lemma login_retry_blocked:
  assumes "k \<in> set keys" and "blocked_state now (throttle_view (tk_key_hash k) db)"
    and "distinct (map tk_key_hash keys)"
  shows "login_retry_after s keys now db \<noteq> (None, db1)"
  using login_retry_cases(2) [OF _ assms(3), of s now db None db1] assms(1,2) by auto

definition wrong_password :: "(auth_error + 'a) \<Rightarrow> bool" where
  "wrong_password res \<longleftrightarrow> res = Inl Invalid_credentials \<or> res = Inl Inactive_user"

lemma throttle_view_cong: "db_throttle_buckets db' = db_throttle_buckets db \<Longrightarrow> throttle_view h db' = throttle_view h db"
  by (simp add: throttle_view_def get_throttle_bucket_def)

lemma note_failure_view:
  "throttle_view h (note_login_failure au keys cx i u reason dr db) =
     throttle_view h (record_login_failure (au_settings au) keys (dr_now2 dr) db)"
  by (rule throttle_view_cong) (simp add: note_login_failure_def)

lemma check_login_throttle:
  fixes au defines "w \<equiv> minutes (as_login_window_minutes (au_settings au))"
  assumes "distinct (map tk_key_hash (la_keys la))"
  shows "throttle_view h (snd (check_login au la dr db)) = (if under h la
      then map_option (settled w (dr_now1 dr)) (throttle_view h db) else throttle_view h db)"
    and "fst (check_login au la dr db) = Inr () \<Longrightarrow> under h la \<Longrightarrow> \<not> blocked_state (dr_now1 dr) (throttle_view h db)"
    and "under h la \<Longrightarrow> blocked_state (dr_now1 dr) (throttle_view h db) \<Longrightarrow>
      \<exists>n \<ge> 1. fst (check_login au la dr db) = Inl (Rate_limited n)"
proof -
  obtain r db1 where r: "login_retry_after (au_settings au) (la_keys la) (dr_now1 dr) db = (r, db1)" by fastforce
  note retry = login_retry_cases [OF r assms(2)]
  have "throttle_view h (snd (check_login au la dr db)) = throttle_view h db1"
    by (rule throttle_view_cong) (simp add: check_login_def r split: option.split)
  then show "throttle_view h (snd (check_login au la dr db)) = (if under h la
      then map_option (settled w (dr_now1 dr)) (throttle_view h db) else throttle_view h db)"
    using retry(1) [of h] by (simp add: under_def w_def)
  show "\<not> blocked_state (dr_now1 dr) (throttle_view h db)"
    if "fst (check_login au la dr db) = Inr ()" "under h la"
    using that retry(2) by (auto simp: check_login_def r under_def split: option.splits)
  show "\<exists>n \<ge> 1. fst (check_login au la dr db) = Inl (Rate_limited n)"
    if "under h la" "blocked_state (dr_now1 dr) (throttle_view h db)"
    using that retry(2,3) by (auto simp: check_login_def r under_def rate_limited_def split: option.splits)
qed

text \<open>
  The last transaction fails for the credentials and every key is charged, or it fails for the database, or
  it succeeds.
\<close>

lemma finish_login_throttle:
  obtains (Wrong) "wrong_password (fst (finish_login au la p dr db))"
      "\<And>h. throttle_view h (snd (finish_login au la p dr db)) =
         throttle_view h (record_login_failure (au_settings au) (la_keys la) (dr_now2 dr) db)"
  | (Aborted) "\<not> wrong_password (fst (finish_login au la p dr db))" "isl (fst (finish_login au la p dr db))"
      "\<And>h. throttle_view h (snd (finish_login au la p dr db)) = throttle_view h db"
  | (Success) "\<not> wrong_password (fst (finish_login au la p dr db))" "\<not> isl (fst (finish_login au la p dr db))"
      "\<And>h. throttle_view h (snd (finish_login au la p dr db)) =
         throttle_view h (reset_account_throttle (la_keys la) (dr_now2 dr) db)"
proof (cases "\<exists>k. la_user_id la = Some k \<and> au_password_verify au p (la_stored_hash la)")
  case False
  then show thesis
    by (intro Wrong) (auto simp: finish_login_def wrong_password_def note_failure_view split: option.split)
next
  case True
  then obtain k where k: "la_user_id la = Some k" "au_password_verify au p (la_stored_hash la)" by blast
  then have run: "finish_login au la p dr db = complete_login au k (la_keys la) (la_context la) (la_identifier la) dr db"
    by (simp add: finish_login_def)
  show thesis
  proof (cases "get_user k db")
    case None
    then show thesis by (intro Aborted) (simp_all add: run complete_login_def Let_def wrong_password_def)
  next
    case v: (Some v)
    let ?v = "v\<lparr>usr_last_login_at := Some (dr_now2 dr), usr_updated_at := dr_now2 dr\<rparr>"
    let ?db = "put_user ?v (reset_account_throttle (la_keys la) (dr_now2 dr) db)"
    show thesis
    proof (cases "usr_is_active v")
      case False
      with v show thesis
        by (intro Wrong) (simp_all add: run complete_login_def Let_def wrong_password_def note_failure_view)
    next
      case active: True
      show thesis
      proof (cases "issue_tokens au ?v dr (dr_now2 dr) None None ?db")
        case None
        with active v show thesis
          by (intro Aborted) (simp_all add: run complete_login_def Let_def wrong_password_def)
      next
        case (Some j)
        obtain issued db2 where j: "j = (issued, db2)" by (cases j)
        have "db_throttle_buckets db2 = db_throttle_buckets (reset_account_throttle (la_keys la) (dr_now2 dr) db)"
          using insert_frames(1) [OF issue_tokens_SomeD(1) [OF Some [unfolded j]]] by simp
        with active v Some j show thesis
          by (intro Success)
            (simp_all add: run complete_login_def Let_def throttle_view_def get_throttle_bucket_def wrong_password_def)
      qed
    qed
  qed
qed

lemma finish_login_other:
  assumes "\<not> under h la"
  shows "throttle_view h (snd (finish_login au la p dr db)) = throttle_view h db"
  using assms
  by (cases rule: finish_login_throttle [of au la p dr db])
    (simp_all add: under_def record_login_failure_def Let_def record_fold_other reset_other)

lemma request_rows:
  "db_throttle_buckets (snd (request_email_verification au k cx dr db)) = db_throttle_buckets db"
  "db_throttle_buckets (snd (request_password_reset au e cx dr db)) = db_throttle_buckets db"
  by (auto simp: request_email_verification_def request_password_reset_def issue_action_token_def Let_def
      consume_action_rows dest!: insert_frames(2) split: sum.split option.split prod.split)

lemma refresh_rows: "db_throttle_buckets (snd (refresh au t cx dr db)) = db_throttle_buckets db"
  by (cases rule: refresh_effect [of au t cx dr db]) (auto dest!: insert_frames(1))

lemma confirm_rows:
  "db_throttle_buckets (snd (confirm_email_verification au tok cx dr db)) = db_throttle_buckets db"
  "db_throttle_buckets (snd (confirm_password_reset au tok pw cx dr db)) = db_throttle_buckets db"
  by (simp_all add: confirm_email_verification_def confirm_password_reset_def expire_known_action_token_def
      revoke_other_action_tokens_def Let_def split: option.split)

lemma other_rows:
  "db_throttle_buckets (logout au t cx dr db) = db_throttle_buckets db"
  "db_throttle_buckets (snd (deliver_auth_email au m sent cx dr db)) = db_throttle_buckets db"
  by (simp_all add: logout_def deliver_auth_email_def finish_auth_email_delivery_def Let_def split: option.split)

text \<open>Only the transactions of a login touch the throttle buckets.\<close>

lemma run_auth_throttle:
  "(case call of Check_login _ _ \<Rightarrow> False | Finish_login _ _ _ \<Rightarrow> False | _ \<Rightarrow> True) \<Longrightarrow>
     throttle_view h (run_auth au call db) = throttle_view h db"
  by (rule throttle_view_cong)
    (cases call; simp add: admit_rows(3) insert_registration_rows(3) refresh_rows other_rows request_rows confirm_rows)

section \<open>Guesses against one key\<close>

text \<open>
  The attempts between their two transactions, what a call does to them, and what it counts for: a password
  that was compared in vain for an attempt under the key \<open>h\<close>, and a success that resets the key.
\<close>

definition pending_after ::
  "auth_service \<Rightarrow> auth_call \<Rightarrow> database \<Rightarrow> login_attempt list \<Rightarrow> login_attempt list" where
  "pending_after au call db pending =
     (case call of
        Check_login la dr \<Rightarrow> if fst (check_login au la dr db) = Inr () then la # pending else pending
      | Finish_login la p dr \<Rightarrow> remove1 la pending
      | _ \<Rightarrow> pending)"

definition guessed :: "auth_service \<Rightarrow> string \<Rightarrow> auth_call \<Rightarrow> database \<Rightarrow> nat" where
  "guessed au h call db =
     (case call of
        Finish_login la p dr \<Rightarrow> if under h la \<and> wrong_password (fst (finish_login au la p dr db)) then 1 else 0
      | _ \<Rightarrow> 0)"

definition lifted :: "auth_service \<Rightarrow> string \<Rightarrow> auth_call \<Rightarrow> database \<Rightarrow> nat" where
  "lifted au h call db =
     (case call of
        Finish_login la p dr \<Rightarrow>
          if \<not> isl (fst (finish_login au la p dr db)) \<and>
            (\<exists>k \<in> set (la_keys la). tk_key_hash k = h \<and> tk_dimension k = ''account'') then 1 else 0
      | _ \<Rightarrow> 0)"

fun guesses :: "auth_service \<Rightarrow> string \<Rightarrow> auth_call list \<Rightarrow> database \<Rightarrow> nat" where
  "guesses au h [] db = 0"
| "guesses au h (call # calls) db = guessed au h call db + guesses au h calls (run_auth au call db)"

fun lifts :: "auth_service \<Rightarrow> string \<Rightarrow> auth_call list \<Rightarrow> database \<Rightarrow> nat" where
  "lifts au h [] db = 0"
| "lifts au h (call # calls) db = lifted au h call db + lifts au h calls (run_auth au call db)"

text \<open>No attempt has two keys with one hash, and the key \<open>h\<close> has its limit.\<close>

definition attempt_ok :: "string \<Rightarrow> int \<Rightarrow> login_attempt \<Rightarrow> bool" where
  "attempt_ok h limit la \<longleftrightarrow> distinct (map tk_key_hash (la_keys la)) \<and>
     (\<forall>k \<in> set (la_keys la). tk_key_hash k = h \<longrightarrow> tk_limit k = limit)"

definition in_flight :: "string \<Rightarrow> login_attempt list \<Rightarrow> nat" where
  "in_flight h pending = length (filter (under h) pending)"

text \<open>
  A run in which the transactions of the logins under the key \<open>h\<close> lie in a span, a login is finished only
  after its check let it pass, and at most \<open>c\<close> attempts under the key are in flight at any time.
\<close>

fun guessing_run ::
  "auth_service \<Rightarrow> string \<Rightarrow> int \<Rightarrow> nat \<Rightarrow> time \<Rightarrow> int \<Rightarrow> login_attempt list \<Rightarrow> auth_call list \<Rightarrow> database \<Rightarrow> bool" where
  "guessing_run au h limit c a width pending [] db \<longleftrightarrow> in_flight h pending \<le> c"
| "guessing_run au h limit c a width pending (call # calls) db \<longleftrightarrow>
     in_flight h pending \<le> c \<and>
     (case call of
        Check_login la dr \<Rightarrow> attempt_ok h limit la \<and> (under h la \<longrightarrow> a \<le> dr_now1 dr \<and> dr_now1 dr < a + width)
      | Finish_login la p dr \<Rightarrow> la \<in> set pending \<and> attempt_ok h limit la \<and>
          (under h la \<longrightarrow> a \<le> dr_now2 dr \<and> dr_now2 dr < a + width)
      | _ \<Rightarrow> True) \<and>
     guessing_run au h limit c a width (pending_after au call db pending) calls (run_auth au call db)"

section \<open>The potential of a run\<close>

text \<open>
  What is left to a guesser: the attempts the bucket still accepts, and those that are compared although
  the bucket is blocked: all attempts in flight once it is blocked for the rest of the span, and else all but
  the one that will block it.
\<close>

definition final_block :: "time \<Rightarrow> int \<Rightarrow> attempt_state option \<Rightarrow> bool" where
  "final_block a width v = blocked_state (a + width - 1) v"

definition unblocked :: "attempt_state option \<Rightarrow> bool" where
  "unblocked v \<longleftrightarrow> (case v of None \<Rightarrow> True | Some x \<Rightarrow> ats_blocked x = None)"

definition potential :: "int \<Rightarrow> time \<Rightarrow> int \<Rightarrow> nat \<Rightarrow> nat \<Rightarrow> attempt_state option \<Rightarrow> nat" where
  "potential limit a width c m v = attempt_budget limit a width v +
     (if unblocked v then 0 else m) + (if final_block a width v then 0 else c - 1)"

lemma potential_settled:
  assumes "a \<le> now" "now < a + width" "width \<le> window" "1 \<le> limit"
  shows "potential limit a width c m (map_option (settled window now) v) \<le> potential limit a width c m v"
    and "\<not> blocked_state now v \<Longrightarrow>
      potential limit a width c m' (map_option (settled window now) v) \<le> potential limit a width c m v"
  using assms
  by (auto simp: potential_def attempt_budget_def unblocked_def final_block_def blocked_state_def settled_def blocked_at_def
      split: option.splits)

lemma potential_recorded:
  assumes "a \<le> now" "now < a + width" "width \<le> window" "width \<le> block" "1 \<le> limit" "m < c"
  shows "1 + potential limit a width c m (recorded limit window block now v) \<le> potential limit a width c (Suc m) v"
proof (cases "blocked_state now v")
  case True
  then obtain x where "v = Some x" "blocked_at now (ats_blocked x)" by (auto simp: blocked_state_def split: option.splits)
  with True show ?thesis
    by (auto simp: recorded_blocked potential_def unblocked_def blocked_at_def split: option.splits)
next
  case False
  show ?thesis
  proof (cases v)
    case None
    with assms show ?thesis
      by (auto simp: recorded_def potential_def attempt_budget_def unblocked_def final_block_def blocked_state_def
          blocked_at_def charged_def)
  next
    case (Some x)
    show ?thesis
      using assms False unfolding Some
      by (cases "ats_blocked x")
        (auto simp: recorded_def potential_def attempt_budget_def unblocked_def final_block_def blocked_state_def
          blocked_at_def charged_def)
  qed
qed

lemma potential_cleared:
  assumes "cleared now v" "a \<le> now" "1 \<le> limit"
  shows "potential limit a width c m v \<le> nat limit + (c - 1)"
  using assms by (auto simp: cleared_def potential_def attempt_budget_def unblocked_def final_block_def blocked_state_def
      blocked_at_def)

lemma potential_less: "m \<le> m' \<Longrightarrow> potential limit a width c m v \<le> potential limit a width c m' v"
  by (simp add: potential_def)

lemma in_flight_remove1:
  "la \<in> set pending \<Longrightarrow> in_flight h pending = in_flight h (remove1 la pending) + (if under h la then 1 else 0)"
  by (induction pending) (auto simp: in_flight_def)

lemma guess_step:
  fixes au defines "s \<equiv> au_settings au"
  assumes run: "guessing_run au h limit c a width pending (call # calls) db" and limit: "1 \<le> limit"
    and width: "width \<le> minutes (as_login_window_minutes s)" "width \<le> minutes (as_login_block_minutes s)"
  shows "guessed au h call db +
      potential limit a width c (in_flight h (pending_after au call db pending)) (throttle_view h (run_auth au call db))
    \<le> potential limit a width c (in_flight h pending) (throttle_view h db) + lifted au h call db * (nat limit + (c - 1))"
proof (cases "case call of Check_login _ _ \<Rightarrow> False | Finish_login _ _ _ \<Rightarrow> False | _ \<Rightarrow> True")
  case True
  with run_auth_throttle [OF True] show ?thesis by (cases call) (simp_all add: guessed_def pending_after_def)
next
  case False
  then consider (check) la dr where "call = Check_login la dr" | (finish) la p dr where "call = Finish_login la p dr"
    by (cases call) simp_all
  then show ?thesis
  proof cases
    case (check la dr)
    have dist: "distinct (map tk_key_hash (la_keys la))" using run check by (simp add: attempt_ok_def)
    note view = check_login_throttle(1) [OF dist, of h au dr db]
    show ?thesis
    proof (cases "under h la")
      case False
      with view check show ?thesis by (simp add: guessed_def pending_after_def in_flight_def)
    next
      case True
      with run check have times: "a \<le> dr_now1 dr" "dr_now1 dr < a + width" by simp_all
      note settle = potential_settled [OF times width(1) limit]
      show ?thesis
        using view check True settle(1) [of c "in_flight h pending" "throttle_view h db"]
          settle(2) [of "throttle_view h db" c "Suc (in_flight h pending)" "in_flight h pending"]
          check_login_throttle(2) [OF dist, of au dr db h]
        by (auto simp: guessed_def pending_after_def in_flight_def s_def)
    qed
  next
    case (finish la p dr)
    let ?m = "in_flight h (remove1 la pending)"
    have mem: "la \<in> set pending" and ok: "attempt_ok h limit la" and c: "in_flight h pending \<le> c"
      using run finish by simp_all
    note m = in_flight_remove1 [OF mem, of h]
    have pend: "pending_after au call db pending = remove1 la pending" by (simp add: pending_after_def finish)
    show ?thesis
    proof (cases "under h la")
      case False
      with finish_login_other [OF False, of au p dr db] m show ?thesis
        by (simp add: pend) (simp add: finish guessed_def)
    next
      case True
      with run finish have times: "a \<le> dr_now2 dr" "dr_now2 dr < a + width" by simp_all
      have m: "in_flight h pending = Suc ?m" "?m < c" using m True c by simp_all
      have less: "potential limit a width c ?m (throttle_view h db) \<le>
          potential limit a width c (in_flight h pending) (throttle_view h db)"
        using m by (intro potential_less) simp
      show ?thesis
      proof (cases rule: finish_login_throttle [of au la p dr db])
        case Wrong
        obtain k where k: "k \<in> set (la_keys la)" "tk_key_hash k = h" using True by (auto simp: under_def)
        have "throttle_view h (run_auth au call db) =
            recorded limit (minutes (as_login_window_minutes s)) (minutes (as_login_block_minutes s)) (dr_now2 dr) (throttle_view h db)"
          using record_fold_view [of "la_keys la" k] k ok Wrong(2) [of h]
          by (auto simp: finish attempt_ok_def record_login_failure_def Let_def s_def)
        with potential_recorded [OF times width limit m(2), of "throttle_view h db"] m(1) True Wrong(1)
        show ?thesis by (simp add: pend) (simp add: finish guessed_def)
      next
        case Aborted
        with less show ?thesis by (simp add: pend) (simp add: finish guessed_def)
      next
        case Success
        show ?thesis
        proof (cases "\<exists>k \<in> set (la_keys la). tk_key_hash k = h \<and> tk_dimension k = ''account''")
          case False
          with Success less reset_ip [of "la_keys la" h "dr_now2 dr" db] show ?thesis
            by (simp add: pend) (auto simp: finish guessed_def)
        next
          case account: True
          have "cleared (dr_now2 dr) (throttle_view h (run_auth au call db))"
            using reset_account [of "dr_now2 dr" h db "la_keys la"] account Success(3) by (simp add: finish)
          from potential_cleared [OF this times(1) limit, of width c ?m] Success(1,2) account show ?thesis
            by (simp add: pend) (simp add: finish guessed_def lifted_def)
        qed
      qed
    qed
  qed
qed

lemma guesses_potential:
  assumes "guessing_run au h limit c a width pending calls db" and "1 \<le> limit"
    and "width \<le> minutes (as_login_window_minutes (au_settings au))"
    and "width \<le> minutes (as_login_block_minutes (au_settings au))"
  shows "guesses au h calls db \<le> potential limit a width c (in_flight h pending) (throttle_view h db) +
    lifts au h calls db * (nat limit + (c - 1))"
  using assms(1)
proof (induction calls arbitrary: db pending)
  case (Cons call calls)
  have "guesses au h calls (run_auth au call db) \<le>
      potential limit a width c (in_flight h (pending_after au call db pending)) (throttle_view h (run_auth au call db)) +
      lifts au h calls (run_auth au call db) * (nat limit + (c - 1))"
    using Cons by simp
  with guess_step [OF Cons.prems assms(2-4)] show ?case by (simp add: add_mult_distrib)
qed simp

section \<open>Properties\<close>

text \<open>
  C18. Passwords cannot be tried at will. Over any interleaving of the transactions of logins with each
  other and with the other calls, the passwords compared in vain under a key, an account's or a client
  address's, in a span shorter than the login window and the block, number at most the limit of the key
  when it has no record, and else at most twice the limit and the attempts in flight at the start; to this
  come the \<open>c - 1\<close> attempts that may have passed the check before the block was recorded, where \<open>c\<close> is
  the largest number in flight at once, and, for every successful login that resets the key, the limit and
  again \<open>c - 1\<close>. A success resets the key of the account, not that of the address.
\<close>

theorem password_guesses_bounded:
  assumes "1 \<le> limit" and "\<forall>b \<in> set (db_throttle_buckets db). auth_throttle_row_ok b"
    and "guessing_run au h limit c a (min (minutes (as_login_window_minutes (au_settings au)))
      (minutes (as_login_block_minutes (au_settings au)))) pending calls db"
  shows "int (guesses au h calls db) \<le>
    (if get_throttle_bucket h db = None then limit else 2 * limit + int (in_flight h pending)) + int (c - 1) +
    int (lifts au h calls db) * (limit + int (c - 1))"
proof -
  let ?width = "min (minutes (as_login_window_minutes (au_settings au)))
      (minutes (as_login_block_minutes (au_settings au)))" and ?v = "throttle_view h db"
  let ?p = "potential limit a ?width c (in_flight h pending) ?v"
  have "guesses au h calls db \<le> ?p + lifts au h calls db * (nat limit + (c - 1))"
    by (rule guesses_potential [OF assms(3,1)]) simp_all
  then have "int (guesses au h calls db) \<le> int (?p + lifts au h calls db * (nat limit + (c - 1)))" by (simp only: of_nat_le_iff)
  moreover have "int (?p + lifts au h calls db * (nat limit + (c - 1))) =
      int ?p + int (lifts au h calls db) * (limit + int (c - 1))"
    using assms(1) by (simp only: of_nat_add of_nat_mult) simp
  moreover have count: "0 \<le> ats_count x" if "?v = Some x" for x
    using that assms(2)
    by (auto simp: throttle_view_def get_throttle_bucket_def auth_throttle_row_ok_def dest!: find_row_SomeD)
  have "int ?p \<le> (if get_throttle_bucket h db = None then limit else 2 * limit + int (in_flight h pending)) + int (c - 1)"
  proof (cases "get_throttle_bucket h db")
    case None
    then have "?v = None" by (simp add: throttle_view_def)
    with None assms(1) show ?thesis by (simp add: potential_def attempt_budget_def unblocked_def)
  next
    case (Some b)
    have "int (attempt_budget limit a ?width ?v) \<le> 2 * limit" by (rule attempt_budget_le(1) [OF assms(1) count])
    with Some show ?thesis by (auto simp: potential_def)
  qed
  ultimately show ?thesis by linarith
qed

lemma demo_alice: "lower (strip ''alice'') = ''alice''"
  by (simp add: lower_def lower_char_def strip_def strip_by_def is_space_def code_point_def)

definition demo_login_attempt :: login_attempt where
  "demo_login_attempt = \<lparr>la_identifier = ''identifier:alice'', la_user_id = Some 1, la_stored_hash = ''h'',
     la_keys = [\<lparr>tk_dimension = ''account'', tk_key_hash = account_key demo_auth 1, tk_limit = 5\<rparr>],
     la_context = None\<rparr>"

lemma demo_read_login: "read_login demo_auth ''alice'' None demo_init = Inr demo_login_attempt"
proof -
  have "find_login_user ''alice'' demo_init = Inr (Some demo_user)" by (simp add: find_login_user_def)
  moreover have "identifier_fingerprint demo_auth ''alice'' = ''identifier:alice''"
    by (simp add: identifier_fingerprint_def demo_alice fingerprint_def Let_def)
  ultimately show ?thesis
    by (simp add: read_login_def demo_alice demo_login_attempt_def login_keys_def account_key_def
        client_ip_fingerprint_def login_account_fingerprint_def default_auth_settings_def del: One_nat_def)
qed

lemma demo_check: "check_login demo_auth demo_login_attempt dr demo_init = (Inr (), demo_init)"
proof -
  have "get_throttle_bucket h demo_init = None" for h
    by (simp add: demo_init_def empty_database_def get_throttle_bucket_def)
  then show ?thesis
    by (simp add: check_login_def login_retry_after_def demo_login_attempt_def check_login_key_def)
qed

lemma demo_wrong: "fst (finish_login demo_auth demo_login_attempt ''x'' dr db) = Inl Invalid_credentials"
  by (simp add: finish_login_def demo_login_attempt_def)

text \<open>Six logins that all pass the check before any of them is finished, with the limit of five.\<close>

definition demo_parallel :: "auth_call list" where
  "demo_parallel = replicate 6 (Check_login demo_login_attempt (demo_draws 3 '''')) @
     replicate 6 (Finish_login demo_login_attempt ''x'' (demo_draws 4 ''''))"

lemma demo_parallel_run:
  "guessing_run demo_auth (account_key demo_auth 1) 5 6 0
    (min (minutes (as_login_window_minutes (au_settings demo_auth)))
      (minutes (as_login_block_minutes (au_settings demo_auth)))) [] demo_parallel demo_init"
proof -
  have "attempt_ok h 5 demo_login_attempt" for h by (simp add: attempt_ok_def demo_login_attempt_def)
  moreover have "under (account_key demo_auth 1) demo_login_attempt"
    by (simp add: under_def demo_login_attempt_def)
  ultimately show ?thesis
    by (simp add: demo_parallel_def numeral_eq_Suc pending_after_def demo_check in_flight_def default_auth_settings_def
        del: One_nat_def)
qed

text \<open>The extra attempts are real: the limit of an account is exceeded by logins that overlap.\<close>

theorem parallel_logins_exceed_limit:
  "as_login_account_max_failures (au_settings demo_auth) = 5 \<and>
   guesses demo_auth (account_key demo_auth 1) demo_parallel demo_init = 6"
proof -
  have "under (account_key demo_auth 1) demo_login_attempt" by (simp add: under_def demo_login_attempt_def)
  then show ?thesis
    by (simp add: demo_parallel_def numeral_eq_Suc guessed_def demo_wrong wrong_password_def default_auth_settings_def)
qed

theorem password_guesses_bounded_witness:
  "guesses demo_auth (account_key demo_auth 1) demo_parallel demo_init = 6 \<and>
   int (guesses demo_auth (account_key demo_auth 1) demo_parallel demo_init) \<le>
     10 + int (lifts demo_auth (account_key demo_auth 1) demo_parallel demo_init) * 10"
proof -
  have "get_throttle_bucket h demo_init = None" "db_throttle_buckets demo_init = []" for h
    by (simp_all add: demo_init_def empty_database_def get_throttle_bucket_def)
  with password_guesses_bounded [OF _ _ demo_parallel_run] parallel_logins_exceed_limit show ?thesis
    by (simp del: One_nat_def)
qed

section \<open>Locked accounts\<close>

text \<open>
  Runs in which the clocks of the logins come before the time \<open>t\<close>, and no login that had passed its check
  before succeeds and resets the key.
\<close>

fun runs_before :: "auth_service \<Rightarrow> string \<Rightarrow> time \<Rightarrow> auth_call list \<Rightarrow> database \<Rightarrow> bool" where
  "runs_before au h t [] db \<longleftrightarrow> True"
| "runs_before au h t (call # calls) db \<longleftrightarrow>
     (case call of
        Check_login la dr \<Rightarrow> distinct (map tk_key_hash (la_keys la)) \<and> dr_now1 dr < t
      | Finish_login la p dr \<Rightarrow> distinct (map tk_key_hash (la_keys la)) \<and> dr_now2 dr < t
      | _ \<Rightarrow> True) \<and>
     lifted au h call db = 0 \<and> runs_before au h t calls (run_auth au call db)"

lemma locked_step:
  assumes "runs_before au h t (call # calls) db" and v: "throttle_view h db = Some x" "ats_blocked x = Some t"
  shows "throttle_view h (run_auth au call db) = Some x"
proof (cases "case call of Check_login _ _ \<Rightarrow> False | Finish_login _ _ _ \<Rightarrow> False | _ \<Rightarrow> True")
  case True
  with run_auth_throttle [OF True] v show ?thesis by simp
next
  case False
  have same: "settled w now x = x" "blocked_state now (Some x)" if "now < t" for w now
    using that v(2) by (simp_all add: settled_def blocked_state_def blocked_at_def)
  from False consider (check) la dr where "call = Check_login la dr" | (finish) la p dr where "call = Finish_login la p dr"
    by (cases call) simp_all
  then show ?thesis
  proof cases
    case (check la dr)
    with assms(1) have ok: "distinct (map tk_key_hash (la_keys la))" "dr_now1 dr < t" by simp_all
    from check_login_throttle(1) [OF ok(1), of h au dr db] v same(1) [OF ok(2)] check show ?thesis by simp
  next
    case (finish la p dr)
    with assms(1) have ok: "distinct (map tk_key_hash (la_keys la))" "dr_now2 dr < t" by simp_all
    show ?thesis
    proof (cases rule: finish_login_throttle [of au la p dr db])
      case Wrong
      show ?thesis
      proof (cases "under h la")
        case True
        then obtain k where k: "k \<in> set (la_keys la)" "tk_key_hash k = h" by (auto simp: under_def)
        from record_fold_view [OF ok(1) k(1)] k(2) Wrong(2) [of h] v(1) recorded_blocked [OF same(2) [OF ok(2)]] finish
        show ?thesis by (simp add: record_login_failure_def Let_def)
      next
        case False
        from finish_login_other [OF this] v(1) finish show ?thesis by simp
      qed
    next
      case Aborted
      with v(1) finish show ?thesis by simp
    next
      case Success
      then have "\<forall>k \<in> set (la_keys la). tk_key_hash k = h \<longrightarrow> tk_dimension k \<noteq> ''account''"
        using assms(1) finish by (auto simp: lifted_def split: if_splits)
      from reset_ip [OF this] Success(3) [of h] v(1) finish show ?thesis by simp
    qed
  qed
qed

lemma locked_view:
  assumes "runs_before au h t calls db" and "throttle_view h db = Some x" and "ats_blocked x = Some t"
  shows "throttle_view h (run_auths au calls db) = Some x"
  using assms(1,2)
proof (induction calls arbitrary: db)
  case (Cons call calls)
  with locked_step [OF Cons.prems assms(3)] show ?case by (simp add: run_auths_def)
qed (simp add: run_auths_def)

text \<open>
  A locked account stays locked: while its block lasts no call of the service lifts it, unless an attempt
  that had passed the check earlier succeeds, and every login that names the user is refused before its
  password is looked at.
\<close>

theorem locked_account_stays_locked:
  assumes "get_throttle_bucket (account_key au k) db = Some b" and "atb_blocked_until b = Some t"
    and "runs_before au (account_key au k) t calls db"
    and "read_login au ident cx db' = Inr la" and "la_user_id la = Some k"
    and "distinct (map tk_key_hash (la_keys la))" and "dr_now1 dr < t"
  shows "\<exists>w \<ge> 1. fst (check_login au la dr (run_auths au calls db)) = Inl (Rate_limited w)"
proof -
  let ?x = "\<lparr>ats_count = atb_failure_count b, ats_started = atb_window_started_at b, ats_blocked = Some t\<rparr>"
  have "throttle_view (account_key au k) (run_auths au calls db) = Some ?x"
    by (rule locked_view [OF assms(3)]) (use assms(1,2) in \<open>simp_all add: throttle_view_def\<close>)
  then have "blocked_state (dr_now1 dr) (throttle_view (account_key au k) (run_auths au calls db))"
    using assms(7) by (simp add: blocked_state_def blocked_at_def)
  with check_login_throttle(3) [OF assms(6) read_login_keys(1) [OF assms(4,5)]] show ?thesis .
qed

definition demo_locked :: database where
  "demo_locked = demo_init\<lparr>db_throttle_buckets :=
     [\<lparr>atb_key_hash = account_key demo_auth 1, atb_dimension = ''account'', atb_failure_count = 5,
       atb_window_started_at = 0, atb_blocked_until = Some (minutes 15), atb_updated_at = 0\<rparr>]\<rparr>"

theorem locked_account_stays_locked_witness:
  "\<exists>w \<ge> 1. fst (check_login demo_auth demo_login_attempt (demo_draws 3 ''t3'')
     (run_auths demo_auth [Finish_login demo_login_attempt ''x'' (demo_draws 1 ''t1'')] demo_locked)) = Inl (Rate_limited w)"
proof -
  let ?calls = "[Finish_login demo_login_attempt ''x'' (demo_draws 1 ''t1'')]"
  have "runs_before demo_auth (account_key demo_auth 1) (minutes 15) ?calls demo_locked"
    by (simp add: lifted_def demo_wrong demo_login_attempt_def del: One_nat_def)
      (simp add: finish_login_def)
  moreover have "get_throttle_bucket (account_key demo_auth 1) demo_locked = Some
      \<lparr>atb_key_hash = account_key demo_auth 1, atb_dimension = ''account'', atb_failure_count = 5,
       atb_window_started_at = 0, atb_blocked_until = Some (minutes 15), atb_updated_at = 0\<rparr>"
    by (simp add: demo_locked_def get_throttle_bucket_def)
  moreover have "la_user_id demo_login_attempt = Some 1" "distinct (map tk_key_hash (la_keys demo_login_attempt))"
    by (simp_all add: demo_login_attempt_def)
  ultimately show ?thesis
    using locked_account_stays_locked [OF _ _ _ demo_read_login, of 1 demo_locked _ "minutes 15" ?calls
        "demo_draws 3 ''t3''"] by simp
qed

end
