(* ===== verification/Py_Uuid.thy ===== *)
theory Py_Uuid
  imports Text
begin

text \<open>
  Python's \<open>uuid.UUID(text)\<close>: the prefixes \<open>urn:\<close> and \<open>uuid:\<close> and the hyphens are removed wherever
  they are, braces are stripped, and what is left must be thirty-two characters that \<open>int(hex, 16)\<close>
  accepts, with its white space, sign, prefix \<open>0x\<close> and single underscores.
\<close>

text \<open>\<open>s.replace(p, "")\<close> for a pattern that is not empty.\<close>

function remove_all :: "string \<Rightarrow> string \<Rightarrow> string" where
  "remove_all p s =
     (case s of [] \<Rightarrow> []
      | c # cs \<Rightarrow>
          if p \<noteq> [] \<and> take (length p) s = p then remove_all p (drop (length p) s)
          else c # remove_all p cs)"
  by pat_completeness auto
termination by (relation "measure (length \<circ> snd)") auto

declare remove_all.simps [simp del]

definition hex_digit :: "char \<Rightarrow> nat option" where
  "hex_digit c = (let n = code_point c in
     if 48 \<le> n \<and> n \<le> 57 then Some (n - 48)
     else if 97 \<le> n \<and> n \<le> 102 then Some (n - 87)
     else if 65 \<le> n \<and> n \<le> 70 then Some (n - 55) else None)"

fun parse_hex :: "nat \<Rightarrow> string \<Rightarrow> nat option" where
  "parse_hex acc [] = Some acc"
| "parse_hex acc (c # cs) =
     (case hex_digit c of
        Some d \<Rightarrow> parse_hex (16 * acc + d) cs
      | None \<Rightarrow>
          if c = CHR ''_'' then
            (case cs of d # _ \<Rightarrow> if hex_digit d \<noteq> None then parse_hex acc cs else None | [] \<Rightarrow> None)
          else None)"

definition parse_hex_natural :: "string \<Rightarrow> nat option" where
  "parse_hex_natural s = (case s of [] \<Rightarrow> None | c # _ \<Rightarrow> if hex_digit c \<noteq> None then parse_hex 0 s else None)"

text \<open>\<open>int(s, 16)\<close>: after the prefix \<open>0x\<close> one underscore is allowed.\<close>

definition parse_hex_literal :: "string \<Rightarrow> nat option" where
  "parse_hex_literal s =
     (if take 2 s \<in> {''0x'', ''0X''}
      then parse_hex_natural (if take 1 (drop 2 s) = ''_'' then drop 3 s else drop 2 s)
      else parse_hex_natural s)"

definition py_int16 :: "string \<Rightarrow> int option" where
  "py_int16 s =
     (case strip s of [] \<Rightarrow> None
      | c # cs \<Rightarrow>
          if c = CHR ''-'' then map_option (\<lambda>n. - int n) (parse_hex_literal cs)
          else if c = CHR ''+'' then map_option int (parse_hex_literal cs)
          else map_option int (parse_hex_literal (c # cs)))"

definition parse_uuid :: "string \<Rightarrow> uuid option" where
  "parse_uuid text =
     (let hex = remove_all ''-''
        (strip_by (\<lambda>c. c = CHR ''{'' \<or> c = CHR ''}'') (remove_all ''uuid:'' (remove_all ''urn:'' text)))
      in if length hex \<noteq> 32 then None
         else (case py_int16 hex of None \<Rightarrow> None
           | Some n \<Rightarrow> if 0 \<le> n \<and> n < 2 ^ 128 then Some (nat n) else None))"

section \<open>Parsing what \<open>str\<close> prints\<close>

lemma hex_digit_numeral: "d < 16 \<Longrightarrow> hex_digit (numeral_char d) = Some d"
  by (simp add: hex_digit_def numeral_char_def code_point_def)

lemma parse_hex_append:
  "list_all (\<lambda>c. hex_digit c \<noteq> None) s \<Longrightarrow>
     parse_hex acc (s @ t) = (case parse_hex acc s of None \<Rightarrow> None | Some a \<Rightarrow> parse_hex a t)"
  by (induction s arbitrary: acc) (auto split: option.split)

lemma hex_digits_hex: "list_all (\<lambda>c. hex_digit c \<noteq> None) (hex_digits w n)"
  by (induction w arbitrary: n) (simp_all add: hex_digit_numeral)

lemma parse_hex_digits: "parse_hex acc (hex_digits w n) = Some (16 ^ w * acc + n mod 16 ^ w)"
proof (induction w arbitrary: acc n)
  case (Suc w)
  have "n mod 16 ^ Suc w = n div 16 mod 16 ^ w * 16 + n mod 16"
    by (simp add: mod_mult2_eq)
  moreover have "parse_hex acc (hex_digits (Suc w) n) = Some (16 * (16 ^ w * acc + n div 16 mod 16 ^ w) + n mod 16)"
    by (simp add: parse_hex_append [OF hex_digits_hex] Suc hex_digit_numeral)
  ultimately show ?case by (simp add: algebra_simps)
qed simp

text \<open>The characters of a printed UUID.\<close>

definition uuid_char :: "char \<Rightarrow> bool" where
  "uuid_char c \<longleftrightarrow> c = CHR ''-'' \<or> hex_digit c \<noteq> None"

lemma uuid_char_neqs:
  "\<not> uuid_char (CHR ''u'')" "\<not> uuid_char (CHR ''{'')" "\<not> uuid_char (CHR ''}'')"
  "hex_digit (CHR ''-'') = None" "hex_digit (CHR ''+'') = None" "hex_digit (CHR ''x'') = None"
  "hex_digit (CHR ''X'') = None"
  by (simp_all add: uuid_char_def hex_digit_def code_point_def)

lemma remove_all_absent: "c \<notin> set s \<Longrightarrow> remove_all (c # p) s = s"
  by (induction s) (auto simp: remove_all.simps [of _ "_ # _"] remove_all.simps [of _ "[]"])

lemma remove_all_char: "remove_all [c] s = filter (\<lambda>d. d \<noteq> c) s"
  by (induction s) (simp_all add: remove_all.simps [of _ "_ # _"] remove_all.simps [of _ "[]"])

lemma strip_by_none: "list_all (\<lambda>c. \<not> p c) s \<Longrightarrow> strip_by p s = s"
proof -
  have drop: "list_all (\<lambda>c. \<not> p c) t \<Longrightarrow> dropWhile p t = t" for t by (cases t) simp_all
  show "list_all (\<lambda>c. \<not> p c) s \<Longrightarrow> strip_by p s = s" by (simp add: strip_by_def drop)
qed

lemma hex_digit_not_space: "hex_digit c \<noteq> None \<Longrightarrow> \<not> is_space c"
  by (auto simp: hex_digit_def is_space_def Let_def split: if_splits)

lemma uuid_str_chars: "list_all uuid_char (uuid_str k)"
proof -
  have "list_all uuid_char (hex_digits 32 k)"
    using hex_digits_hex by (rule list.pred_mono_strong) (simp add: uuid_char_def)
  then have "\<forall>c \<in> set (hex_digits 32 k). uuid_char c" by (simp add: list_all_iff)
  then show ?thesis
    by (auto simp: uuid_str_def Let_def uuid_hex_def list_all_iff uuid_char_def [of "CHR ''-''"]
        dest!: in_set_takeD in_set_dropD)
qed

lemma uuid_str_hex: "filter (\<lambda>d. d \<noteq> CHR ''-'') (uuid_str k) = hex_digits 32 k"
proof -
  have hex: "\<forall>c \<in> set (hex_digits 32 k). c \<noteq> CHR ''-''"
    using hex_digits_hex [of 32 k] uuid_char_neqs(4) by (auto simp: list_all_iff)
  have keep: "set t \<subseteq> set (hex_digits 32 k) \<Longrightarrow> filter (\<lambda>d. d \<noteq> CHR ''-'') t = t" for t
    using hex by (intro filter_True) auto
  let ?h = "hex_digits 32 k"
  have sub: "set (take n ?h) \<subseteq> set ?h" "set (drop n ?h) \<subseteq> set ?h" "set (take m (drop n ?h)) \<subseteq> set ?h" for n m
    by (auto dest: in_set_takeD in_set_dropD)
  have parts: "take 8 h @ take 4 (drop 8 h) @ take 4 (drop 12 h) @ take 4 (drop 16 h) @ drop 20 h = h" for h :: string
  proof -
    have split: "take a (drop n h) @ drop (n + a) h = drop n h" for a n :: nat
      by (metis add.commute append_take_drop_id drop_drop)
    show ?thesis using split [of 8 0] split [of 4 8] split [of 4 12] split [of 4 16] by simp
  qed
  show ?thesis
    by (simp add: uuid_str_def Let_def uuid_hex_def keep sub parts)
qed

lemma parse_uuid_str: "k < 2 ^ 128 \<Longrightarrow> parse_uuid (uuid_str k) = Some k"
proof -
  assume k: "k < 2 ^ 128"
  note chars = uuid_str_chars [of k, unfolded list_all_iff]
  have u: "CHR ''u'' \<notin> set (uuid_str k)" using chars uuid_char_neqs by blast
  have braces: "list_all (\<lambda>c. \<not> (c = CHR ''{'' \<or> c = CHR ''}'')) (uuid_str k)"
    using chars uuid_char_neqs by (auto simp: list_all_iff)
  let ?h = "hex_digits 32 k"
  have hex: "remove_all ''-'' (strip_by (\<lambda>c. c = CHR ''{'' \<or> c = CHR ''}'')
      (remove_all ''uuid:'' (remove_all ''urn:'' (uuid_str k)))) = ?h"
    by (simp add: remove_all_absent [OF u] strip_by_none [OF braces] remove_all_char uuid_str_hex)
  have space: "strip ?h = ?h"
    using hex_digits_hex [of 32 k] unfolding strip_def
    by (intro strip_by_none) (auto simp: list_all_iff hex_digit_not_space)
  obtain c d cs where h: "?h = c # d # cs"
    using length_hex_digits [of 32 k] by (cases ?h; cases "tl ?h") simp_all
  have hexes: "hex_digit c \<noteq> None" "hex_digit d \<noteq> None"
    using hex_digits_hex [of 32 k] by (simp_all add: h)
  have "c \<noteq> CHR ''-''" "c \<noteq> CHR ''+''" "d \<noteq> CHR ''x''" "d \<noteq> CHR ''X''"
    using hexes uuid_char_neqs by auto
  moreover have "parse_hex 0 (c # d # cs) = Some k"
    using k parse_hex_digits [of 0 32 k] unfolding h by simp
  ultimately have "py_int16 ?h = Some (int k)"
    using hexes space unfolding py_int16_def h
    by (simp add: parse_hex_literal_def parse_hex_natural_def numeral_2_eq_2 del: parse_hex.simps)
  moreover have "int k < 2 ^ 128" using k by (metis of_nat_less_iff of_nat_numeral of_nat_power)
  ultimately show ?thesis unfolding parse_uuid_def Let_def hex by simp
qed

lemma lower_numeral_char: "d < 16 \<Longrightarrow> lower_char (numeral_char d) = numeral_char d"
  by (auto simp: lower_char_def numeral_char_def code_point_def Let_def)

lemma hex_digits_numerals: "c \<in> set (hex_digits w n) \<Longrightarrow> \<exists>d < 16. c = numeral_char d"
proof (induction w arbitrary: n)
  case (Suc w)
  have "\<exists>d < 16. numeral_char (n mod 16) = numeral_char d" by (rule exI [of _ "n mod 16"]) simp
  with Suc show ?case by auto
qed simp

lemma lower_uuid_str: "lower (uuid_str k) = uuid_str k"
proof -
  have "lower_char c = c" if "c \<in> set (uuid_hex k)" for c
    using that hex_digits_numerals lower_numeral_char by (metis uuid_hex_def)
  moreover have "lower_char (CHR ''-'') = CHR ''-''" by (simp add: lower_char_def code_point_def Let_def)
  ultimately show ?thesis
    by (auto simp: lower_def uuid_str_def Let_def intro!: map_idI dest: in_set_takeD in_set_dropD)
qed

end
