(* ===== verification/Auth_Access.thy ===== *)
theory Auth_Access
  imports Auth_Theorems Py_Uuid
begin

text \<open>
  Access tokens: \<open>current_user\<close> and \<open>_decode_access_token\<close> of \<^verbatim>\<open>backend/auth/service.py\<close>, and
  the round trip from the tokens a login or an exchange issues to the user they stand for.
\<close>

section \<open>Reading an access token\<close>

definition clock_skew_seconds :: int where
  "clock_skew_seconds = 5"

text \<open>
  \<open>_decode_access_token\<close>: a missing claim, a subject that is not a string, another use and a
  subject that is not \<open>user:\<close> and a UUID all raise the same error.
\<close>

definition decode_access_token :: "auth_service \<Rightarrow> string \<Rightarrow> time \<Rightarrow> auth_error + uuid" where
  "decode_access_token au token now =
     (let s = au_settings au
      in case au_jwt_decode au token (as_jwt_secret s) (as_jwt_audience s) (as_jwt_issuer s)
           clock_skew_seconds now of
           None \<Rightarrow> Inl Invalid_token
         | Some payload \<Rightarrow>
             if json_field ''token_use'' payload \<noteq> Some (JString ''access'') then Inl Invalid_token
             else (case json_field ''sub'' payload of
                 Some (JString subject) \<Rightarrow>
                   if take 5 subject \<noteq> ''user:'' then Inl Invalid_token
                   else (case parse_uuid (drop 5 subject) of
                       None \<Rightarrow> Inl Invalid_token | Some k \<Rightarrow> Inr k)
               | _ \<Rightarrow> Inl Invalid_token))"

definition current_user :: "auth_service \<Rightarrow> string \<Rightarrow> time \<Rightarrow> database \<Rightarrow> auth_error + user_identity" where
  "current_user au access_token now db =
     (case decode_access_token au access_token now of
        Inl e \<Rightarrow> Inl e
      | Inr user_id \<Rightarrow>
          (case get_user user_id db of
             None \<Rightarrow> Inl Invalid_token
           | Some user \<Rightarrow>
               if \<not> usr_is_active user then Inl Inactive_user else Inr (user_identity_of user)))"

section \<open>What the service asks of the token library\<close>

text \<open>
  The library returns the claims it encoded while the token is valid, and refuses a token whose
  expiry lies back by the leeway; it reads times in whole seconds.
\<close>

definition jwt_faithful :: "auth_service \<Rightarrow> bool" where
  "jwt_faithful au \<longleftrightarrow>
     (\<forall>c secret leeway now. 0 \<le> leeway \<longrightarrow>
        (jc_iat c \<le> now \<and> now + seconds 1 \<le> jc_exp c \<longrightarrow>
           (\<exists>payload. au_jwt_decode au (au_jwt_encode au c secret) secret (jc_aud c) (jc_iss c) leeway now = Some payload \<and>
              json_field ''token_use'' payload = Some (JString (jc_token_use c)) \<and>
              json_field ''sub'' payload = Some (JString (jc_sub c)))) \<and>
        (jc_exp c + seconds leeway \<le> now \<longrightarrow>
           au_jwt_decode au (au_jwt_encode au c secret) secret (jc_aud c) (jc_iss c) leeway now = None))"

lemma issued_access_token:
  assumes "issue_tokens au u dr now e f db = Some (issued, db')"
  shows "it_access_token issued = au_jwt_encode au (access_claims (au_settings au) (ui_id (it_user issued)) (dr_jti dr) now)
      (as_jwt_secret (au_settings au))"
  using assms by (auto simp: issue_tokens_def Let_def user_identity_of_def split: option.splits)

lemma login_access_token:
  assumes "fst (login au i p cx dr db) = Inr issued"
  shows "it_access_token issued = au_jwt_encode au
      (access_claims (au_settings au) (ui_id (it_user issued)) (dr_jti dr) (dr_now2 dr)) (as_jwt_secret (au_settings au))"
proof (cases rule: login_effect [of au i p cx dr db])
  case Failed
  with assms show ?thesis by simp
next
  case (Checked u keys db1)
  with assms show ?thesis
    by (auto simp: complete_login_def Let_def dest: issued_access_token split: option.splits if_splits)
qed

lemma refresh_access_token:
  assumes "fst (refresh au t cx dr db) = Inr issued"
  shows "it_access_token issued = au_jwt_encode au
      (access_claims (au_settings au) (ui_id (it_user issued)) (dr_jti dr) (dr_now1 dr)) (as_jwt_secret (au_settings au))"
  using assms
  by (auto simp: refresh_def Let_def dest: issued_access_token split: option.splits if_splits prod.splits)

lemma issued_expires_in:
  "issue_tokens au u dr now e f db = Some (issued, db') \<Longrightarrow>
     it_access_expires_in issued = as_access_token_ttl_minutes (au_settings au) * 60"
  by (auto simp: issue_tokens_def Let_def split: option.splits)

lemma login_expires_in:
  assumes "fst (login au i p cx dr db) = Inr issued"
  shows "it_access_expires_in issued = as_access_token_ttl_minutes (au_settings au) * 60"
proof (cases rule: login_effect [of au i p cx dr db])
  case Failed
  with assms show ?thesis by simp
next
  case (Checked u keys db1)
  with assms show ?thesis
    by (auto simp: complete_login_def Let_def dest: issued_expires_in split: option.splits if_splits)
qed

lemma refresh_expires_in:
  assumes "fst (refresh au t cx dr db) = Inr issued"
  shows "it_access_expires_in issued = as_access_token_ttl_minutes (au_settings au) * 60"
  using assms
  by (auto simp: refresh_def Let_def dest: issued_expires_in split: option.splits if_splits prod.splits)

lemma decode_own_token:
  fixes jti :: uuid and t :: time
  assumes "jwt_faithful au" and "k < 2 ^ 128"
  defines "s \<equiv> au_settings au"
  defines "token \<equiv> au_jwt_encode au (access_claims s k jti t) (as_jwt_secret s)"
  defines "stop \<equiv> t + seconds (as_access_token_ttl_minutes s * 60)"
  shows "t \<le> now \<Longrightarrow> now + seconds 1 \<le> stop \<Longrightarrow> decode_access_token au token now = Inr k"
    and "stop + seconds clock_skew_seconds \<le> now \<Longrightarrow> decode_access_token au token now = Inl Invalid_token"
proof -
  let ?c = "access_claims s k jti t"
  have law: "0 \<le> clock_skew_seconds" by (simp add: clock_skew_seconds_def)
  have claims: "jc_aud ?c = as_jwt_audience s" "jc_iss ?c = as_jwt_issuer s" "jc_iat ?c = t" "jc_exp ?c = stop"
      "jc_token_use ?c = ''access''" "jc_sub ?c = ''user:'' @ uuid_str k"
    by (simp_all add: access_claims_def stop_def)
  note faith = assms(1) [unfolded jwt_faithful_def, rule_format, OF law, of ?c now "as_jwt_secret s", unfolded claims]
  show "decode_access_token au token now = Inr k" if valid: "t \<le> now" "now + seconds 1 \<le> stop"
  proof -
    obtain payload where "au_jwt_decode au token (as_jwt_secret s) (as_jwt_audience s) (as_jwt_issuer s)
        clock_skew_seconds now = Some payload" "json_field ''token_use'' payload = Some (JString ''access'')"
        "json_field ''sub'' payload = Some (JString (''user:'' @ uuid_str k))"
      using faith valid unfolding token_def by blast
    then show ?thesis
      by (simp add: decode_access_token_def Let_def s_def parse_uuid_str [OF assms(2)])
  qed
  show "decode_access_token au token now = Inl Invalid_token" if "stop + seconds clock_skew_seconds \<le> now"
    using faith that unfolding token_def by (simp add: decode_access_token_def Let_def s_def)
qed

text \<open>
  C19. An access token stands for its user: the token a login or an exchange issues is decoded, until a
  second before its expiry, to the user it was issued for; the caller is answered with the user's row
  of that moment, refused when the row is gone or inactive, and refused once the expiry lies back by
  the clock skew.
\<close>

theorem access_token_round_trip:
  assumes "jwt_faithful au"
    and "fst (login au ident password cx dr db) = Inr issued \<and> t = dr_now2 dr \<or>
      fst (refresh au tok cx dr db) = Inr issued \<and> t = dr_now1 dr"
    and "ui_id (it_user issued) < 2 ^ 128"
  shows "(t \<le> now \<and> now + seconds 1 \<le> t + seconds (it_access_expires_in issued) \<longrightarrow>
      current_user au (it_access_token issued) now db' =
        (case get_user (ui_id (it_user issued)) db' of
           None \<Rightarrow> Inl Invalid_token
         | Some u \<Rightarrow> if usr_is_active u then Inr (user_identity_of u) else Inl Inactive_user)) \<and>
    (t + seconds (it_access_expires_in issued) + seconds 5 \<le> now \<longrightarrow>
      current_user au (it_access_token issued) now db' = Inl Invalid_token)"
proof -
  let ?s = "au_settings au" and ?k = "ui_id (it_user issued)"
  have token: "it_access_token issued = au_jwt_encode au (access_claims ?s ?k (dr_jti dr) t) (as_jwt_secret ?s)"
    using assms(2) login_access_token refresh_access_token by blast
  have expires: "it_access_expires_in issued = as_access_token_ttl_minutes ?s * 60"
    using assms(2) login_expires_in refresh_expires_in by blast
  note decode = decode_own_token [OF assms(1,3), of t now "dr_jti dr", folded token expires]
  show ?thesis
    using decode unfolding clock_skew_seconds_def current_user_def by (auto split: option.split)
qed

text \<open>A library whose tokens hold the expiry and the length of the use in unary notation.\<close>

definition plain_token :: "jwt_claims \<Rightarrow> string" where
  "plain_token c =
     replicate (nat (jc_exp c)) (CHR ''.'') @ replicate (nat (- jc_exp c)) (CHR ''-'') @
     replicate (length (jc_token_use c)) (CHR ''u'') @ ''@'' @ jc_token_use c @ jc_sub c"

definition read_plain_token :: "string \<Rightarrow> int \<times> string \<times> string" where
  "read_plain_token t =
     (let a = length (takeWhile (\<lambda>c. c = CHR ''.'') t); t1 = drop a t;
          b = length (takeWhile (\<lambda>c. c = CHR ''-'') t1); t2 = drop b t1;
          n = length (takeWhile (\<lambda>c. c = CHR ''u'') t2); t3 = drop (Suc n) t2
      in (int a - int b, take n t3, drop n t3))"

lemma read_plain_token: "read_plain_token (plain_token c) = (jc_exp c, jc_token_use c, jc_sub c)"
proof -
  have unary: "takeWhile (\<lambda>d. d = x) (replicate n x @ t) = replicate n x"
    if "t \<noteq> []" "hd t \<noteq> x" for n x and t :: string
    using that by (induction n; cases t) simp_all
  let ?u = "replicate (length (jc_token_use c)) (CHR ''u'') @ ''@'' @ jc_token_use c @ jc_sub c"
  have u: "?u \<noteq> []" "hd ?u \<noteq> CHR ''.''" "hd ?u \<noteq> CHR ''-''" by (cases "jc_token_use c"; simp)+
  let ?m = "replicate (nat (- jc_exp c)) (CHR ''-'') @ ?u"
  have m: "?m \<noteq> []" "hd ?m \<noteq> CHR ''.''" using u(1,2) by (cases "nat (- jc_exp c)"; simp)+
  have "takeWhile (\<lambda>d. d = CHR ''.'') (plain_token c) = replicate (nat (jc_exp c)) (CHR ''.'')"
    unfolding plain_token_def by (rule unary [OF m])
  then have 1: "length (takeWhile (\<lambda>d. d = CHR ''.'') (plain_token c)) = nat (jc_exp c)" by simp
  have 2: "drop (nat (jc_exp c)) (plain_token c) = ?m" by (simp add: plain_token_def)
  have 3: "length (takeWhile (\<lambda>d. d = CHR ''-'') ?m) = nat (- jc_exp c)" using unary [OF u(1,3)] by simp
  have 4: "drop (nat (- jc_exp c)) ?m = ?u" by simp
  have 5: "length (takeWhile (\<lambda>d. d = CHR ''u'') ?u) = length (jc_token_use c)"
    using unary [of "''@'' @ jc_token_use c @ jc_sub c" "CHR ''u''"] by simp
  show ?thesis unfolding read_plain_token_def Let_def 1 2 3 4 5 by simp
qed

definition demo_tokens :: auth_service where
  "demo_tokens = demo_auth\<lparr>
     au_jwt_encode := (\<lambda>c secret. plain_token c),
     au_jwt_decode := (\<lambda>token secret audience issuer leeway now.
       case read_plain_token token of (expiry, token_use, subject) \<Rightarrow>
         if expiry + seconds leeway \<le> now then None
         else Some (JObject [(''token_use'', JString token_use), (''sub'', JString subject)]))\<rparr>"

lemma demo_tokens_faithful: "jwt_faithful demo_tokens"
  by (auto simp: jwt_faithful_def demo_tokens_def read_plain_token json_field_def)

lemma demo_tokens_refresh:
  "\<exists>issued db1. refresh demo_tokens (Some ''t0'') None (demo_draws 1 ''t1'') demo_auth_db = (Inr issued, db1) \<and>
     it_user issued = user_identity_of demo_user \<and> it_access_expires_in issued = 900"
proof -
  have "au_settings demo_tokens = default_auth_settings (replicate 32 (CHR ''s''))" "au_sha256 demo_tokens x = x" for x
    by (simp_all add: demo_tokens_def)
  moreover have "as_access_token_ttl_minutes (default_auth_settings k) = 15" for k
    by (simp add: default_auth_settings_def)
  ultimately show ?thesis
    by (simp add: refresh_def find_session_def issue_tokens_def insert_session_def get_user_def Let_def
        new_session_def del: One_nat_def)
qed

theorem access_token_round_trip_witness:
  "\<exists>issued db1. refresh demo_tokens (Some ''t0'') None (demo_draws 1 ''t1'') demo_auth_db = (Inr issued, db1) \<and>
     current_user demo_tokens (it_access_token issued) (minutes 14) demo_auth_db = Inr (user_identity_of demo_user) \<and>
     current_user demo_tokens (it_access_token issued) (minutes 16) demo_auth_db = Inl Invalid_token"
proof -
  obtain issued db1 where run: "refresh demo_tokens (Some ''t0'') None (demo_draws 1 ''t1'') demo_auth_db = (Inr issued, db1)"
    and user: "it_user issued = user_identity_of demo_user" and exp: "it_access_expires_in issued = 900"
    using demo_tokens_refresh by blast
  have id: "ui_id (user_identity_of demo_user) = 1" and now: "dr_now1 (demo_draws 1 t) = 1"
    and row: "get_user 1 demo_auth_db = Some demo_user" and active: "usr_is_active demo_user" for t
    by (simp_all add: user_identity_of_def demo_draws_def get_user_def)
  have "fst (refresh demo_tokens (Some ''t0'') None (demo_draws 1 ''t1'') demo_auth_db) = Inr issued \<and> 1 =
      dr_now1 (demo_draws 1 ''t1'')"
    using run now by simp
  from access_token_round_trip [OF demo_tokens_faithful disjI2 [OF this], of "minutes 14" demo_auth_db]
    access_token_round_trip [OF demo_tokens_faithful disjI2 [OF this], of "minutes 16" demo_auth_db] run
  show ?thesis by (simp add: user exp id row active del: One_nat_def)
qed

end
