(* ===== verification/Admin.thy ===== *)
theory Admin
  imports Models
begin

text \<open>
  Administration: the role changes of \<^verbatim>\<open>backend/admin/roles.py\<close> and the audit pages of
  \<^verbatim>\<open>backend/admin/audit.py\<close>. A role change is one transaction; its event has a fresh \<open>uuid4\<close>. An audit
  page reads one row more than it shows to know whether there are more.
\<close>

section \<open>Role changes\<close>

record role_change_result =
  rcr_user_id :: uuid
  rcr_previous_role :: string
  rcr_new_role :: string
  rcr_changed :: bool
  rcr_event_id :: "uuid option"

definition active_admin_ids :: "database \<Rightarrow> uuid list" where
  "active_admin_ids db =
     sort (map usr_id (filter (\<lambda>u. usr_role u = ''admin'' \<and> usr_is_active u) (db_users db)))"

definition role_change_event :: "uuid \<Rightarrow> uuid \<Rightarrow> string \<Rightarrow> string \<Rightarrow> time \<Rightarrow> admin_role_change_event" where
  "role_change_event event_id target previous new now =
     \<lparr>arc_id = event_id, arc_actor_kind = ''maintenance_cli'', arc_actor_user_id = None,
      arc_target_user_id = target, arc_previous_role = previous, arc_new_role = new,
      arc_reason_code = ''OPERATOR_ROLE_CHANGE'', arc_occurred_at = now\<rparr>"

definition set_role_in_session ::
  "uuid \<Rightarrow> string \<Rightarrow> uuid \<Rightarrow> time \<Rightarrow> database \<Rightarrow> (string, role_change_result, database) outcome" where
  "set_role_in_session user_id role event_id now db =
     (let active = (if role = ''user'' then active_admin_ids db else [])
      in case get_user user_id db of
           None \<Rightarrow> (Inl ''role-change target user does not exist'', db)
         | Some user \<Rightarrow>
             let previous = usr_role user
             in if previous = role
                then (Inr \<lparr>rcr_user_id = usr_id user, rcr_previous_role = previous, rcr_new_role = role,
                        rcr_changed = False, rcr_event_id = None\<rparr>, db)
                else if role = ''admin'' \<and> \<not> usr_is_active user
                then (Inl ''an inactive user cannot be promoted to administrator'', db)
                else if previous = ''admin'' \<and> role = ''user'' \<and> usr_is_active user \<and> length active \<le> 1
                then (Inl ''the last active administrator cannot be demoted'', db)
                else if previous = ''admin'' \<and> role = ''user'' \<and> \<not> usr_is_active user \<and> active = []
                then (Inl (''an inactive administrator cannot be demoted until another '' @
                        ''active administrator exists''), db)
                else
                  (Inr \<lparr>rcr_user_id = usr_id user, rcr_previous_role = previous, rcr_new_role = role,
                      rcr_changed = True, rcr_event_id = Some event_id\<rparr>,
                   (put_user (user\<lparr>usr_role := role, usr_updated_at := now\<rparr>) db)
                     \<lparr>db_role_changes := db_role_changes db @
                        [role_change_event event_id (usr_id user) previous role now]\<rparr>))"

definition set_role ::
  "uuid \<Rightarrow> string \<Rightarrow> bool \<Rightarrow> uuid \<Rightarrow> time \<Rightarrow> database \<Rightarrow> (string, role_change_result, database) outcome" where
  "set_role user_id role confirmed event_id now db =
     (if \<not> confirmed then (Inl ''administrator role changes require explicit confirmation'', db)
      else if role \<notin> {''user'', ''admin''} then (Inl ''role must be user or admin'', db)
      else transaction (set_role_in_session user_id role event_id now) db)"

section \<open>Audit pages\<close>

record 'r audit_page =
  pg_items :: "'r list"
  pg_limit :: int
  pg_offset :: int
  pg_has_more :: bool

record auth_audit_record =
  aar_id :: uuid
  aar_action :: string
  aar_outcome :: string
  aar_user_id :: "uuid option"
  aar_identifier_ref :: "string option"
  aar_client_ip_ref :: "string option"
  aar_user_agent_ref :: "string option"
  aar_reason_code :: "string option"
  aar_occurred_at :: time

record task_audit_record =
  tar_id :: uuid
  tar_action :: string
  tar_outcome :: string
  tar_user_id :: "uuid option"
  tar_job_id :: uuid
  tar_execution_mode :: string
  tar_reason_code :: "string option"
  tar_occurred_at :: time

record retention_audit_record =
  rar_id :: uuid
  rar_trigger :: string
  rar_mode :: string
  rar_status :: run_status
  rar_input_retention_days :: "int option"
  rar_runtime_retention_days :: "int option"
  rar_artifact_retention_days :: "int option"
  rar_batch_size :: int
  rar_started_at :: time
  rar_finished_at :: "time option"
  rar_report :: "retention_report option"
  rar_error_code :: "string option"

record role_change_audit_record =
  rca_id :: uuid
  rca_actor_kind :: string
  rca_actor_user_id :: "uuid option"
  rca_target_user_id :: uuid
  rca_previous_role :: string
  rca_new_role :: string
  rca_reason_code :: string
  rca_occurred_at :: time

definition pagination_error :: "int \<Rightarrow> int \<Rightarrow> string option" where
  "pagination_error limit offset =
     (if \<not> (1 \<le> limit \<and> limit \<le> 100) then Some ''audit limit must be between 1 and 100''
      else if \<not> (0 \<le> offset \<and> offset \<le> 10000) then Some ''audit offset must be between 0 and 10000''
      else None)"

definition fingerprint_reference :: "string option \<Rightarrow> string option" where
  "fingerprint_reference value = map_option (take 12) value"

text \<open>An optional filter of a listing.\<close>

definition selects :: "'a option \<Rightarrow> 'a \<Rightarrow> bool" where
  "selects f x \<longleftrightarrow> (case f of None \<Rightarrow> True | Some y \<Rightarrow> x = y)"

text \<open>\<open>ORDER BY time DESC, id DESC OFFSET offset LIMIT limit + 1\<close>.\<close>

definition newest_first :: "('r \<Rightarrow> time) \<Rightarrow> ('r \<Rightarrow> uuid) \<Rightarrow> 'r list \<Rightarrow> 'r list" where
  "newest_first occurred key rows = sort_key (\<lambda>r. (- occurred r, - int (key r))) rows"

definition page_rows :: "'r list \<Rightarrow> int \<Rightarrow> int \<Rightarrow> 'r list" where
  "page_rows rows limit offset = take (nat (limit + 1)) (drop (nat offset) rows)"

definition audit_page_of :: "('r \<Rightarrow> 'a) \<Rightarrow> 'r list \<Rightarrow> int \<Rightarrow> int \<Rightarrow> string + 'a audit_page" where
  "audit_page_of view rows limit offset =
     (case pagination_error limit offset of
        Some e \<Rightarrow> Inl e
      | None \<Rightarrow>
          let found = page_rows rows limit offset
          in Inr \<lparr>pg_items = map view (take (nat limit) found), pg_limit = limit, pg_offset = offset,
               pg_has_more = limit < int (length found)\<rparr>)"

definition auth_audit_of :: "auth_event \<Rightarrow> auth_audit_record" where
  "auth_audit_of e =
     \<lparr>aar_id = ae_id e, aar_action = ae_action e, aar_outcome = ae_outcome e, aar_user_id = ae_user_id e,
      aar_identifier_ref = fingerprint_reference (ae_identifier_fingerprint e),
      aar_client_ip_ref = fingerprint_reference (ae_client_ip_fingerprint e),
      aar_user_agent_ref = fingerprint_reference (ae_user_agent_sha256 e),
      aar_reason_code = ae_reason_code e, aar_occurred_at = ae_occurred_at e\<rparr>"

definition auth_listing :: "string option \<Rightarrow> string option \<Rightarrow> uuid option \<Rightarrow> database \<Rightarrow> auth_event list" where
  "auth_listing action outcome user_id db = newest_first ae_occurred_at ae_id
     (filter (\<lambda>e. selects action (ae_action e) \<and> selects outcome (ae_outcome e) \<and>
        selects (map_option Some user_id) (ae_user_id e)) (db_auth_events db))"

definition list_auth_events ::
  "int \<Rightarrow> int \<Rightarrow> string option \<Rightarrow> string option \<Rightarrow> uuid option \<Rightarrow> database \<Rightarrow> string + auth_audit_record audit_page" where
  "list_auth_events limit offset action outcome user_id db =
     audit_page_of auth_audit_of (auth_listing action outcome user_id db) limit offset"

definition task_audit_of :: "task_action_event \<Rightarrow> task_audit_record" where
  "task_audit_of e =
     \<lparr>tar_id = tae_id e, tar_action = tae_action e, tar_outcome = tae_outcome e, tar_user_id = tae_user_id e,
      tar_job_id = tae_job_id e, tar_execution_mode = tae_execution_mode e,
      tar_reason_code = tae_reason_code e, tar_occurred_at = tae_occurred_at e\<rparr>"

definition list_task_events ::
  "int \<Rightarrow> int \<Rightarrow> string option \<Rightarrow> string option \<Rightarrow> uuid option \<Rightarrow> uuid option \<Rightarrow> database \<Rightarrow>
     string + task_audit_record audit_page" where
  "list_task_events limit offset action outcome user_id k db =
     audit_page_of task_audit_of
       (newest_first tae_occurred_at tae_id
          (filter (\<lambda>e. selects action (tae_action e) \<and> selects outcome (tae_outcome e) \<and>
             selects (map_option Some user_id) (tae_user_id e) \<and> selects k (tae_job_id e))
            (db_task_action_events db)))
       limit offset"

definition retention_audit_of :: "success_retention_run \<Rightarrow> retention_audit_record" where
  "retention_audit_of r =
     \<lparr>rar_id = srr_id r, rar_trigger = srr_trigger r, rar_mode = srr_mode r, rar_status = srr_status r,
      rar_input_retention_days = srr_input_retention_days r,
      rar_runtime_retention_days = srr_runtime_retention_days r,
      rar_artifact_retention_days = srr_artifact_retention_days r, rar_batch_size = srr_batch_size r,
      rar_started_at = srr_started_at r, rar_finished_at = srr_finished_at r, rar_report = srr_report r,
      rar_error_code = srr_error_code r\<rparr>"

definition list_retention_runs ::
  "int \<Rightarrow> int \<Rightarrow> string option \<Rightarrow> string option \<Rightarrow> run_status option \<Rightarrow> database \<Rightarrow>
     string + retention_audit_record audit_page" where
  "list_retention_runs limit offset trigger mode status db =
     audit_page_of retention_audit_of
       (newest_first srr_started_at srr_id
          (filter (\<lambda>r. selects trigger (srr_trigger r) \<and> selects mode (srr_mode r) \<and>
             selects status (srr_status r)) (db_retention_runs db)))
       limit offset"

definition role_change_audit_of :: "admin_role_change_event \<Rightarrow> role_change_audit_record" where
  "role_change_audit_of e =
     \<lparr>rca_id = arc_id e, rca_actor_kind = arc_actor_kind e, rca_actor_user_id = arc_actor_user_id e,
      rca_target_user_id = arc_target_user_id e, rca_previous_role = arc_previous_role e,
      rca_new_role = arc_new_role e, rca_reason_code = arc_reason_code e, rca_occurred_at = arc_occurred_at e\<rparr>"

definition list_role_changes ::
  "int \<Rightarrow> int \<Rightarrow> uuid option \<Rightarrow> database \<Rightarrow> string + role_change_audit_record audit_page" where
  "list_role_changes limit offset target_user_id db =
     audit_page_of role_change_audit_of
       (newest_first arc_occurred_at arc_id
          (filter (\<lambda>e. selects target_user_id (arc_target_user_id e)) (db_role_changes db)))
       limit offset"

section \<open>What a role change does\<close>

definition active_admin :: "user \<Rightarrow> bool" where
  "active_admin u \<longleftrightarrow> usr_role u = ''admin'' \<and> usr_is_active u"

lemma length_active_admin_ids: "length (active_admin_ids db) = length (filter active_admin (db_users db))"
  by (simp add: active_admin_ids_def active_admin_def [abs_def])

lemma set_role_effect:
  obtains (Same) "snd (set_role k role confirmed event now db) = db"
  | (Changed) user where "role \<in> {''user'', ''admin''}" "get_user k db = Some user" "usr_role user \<noteq> role"
      "snd (set_role k role confirmed event now db) =
         (put_user (user\<lparr>usr_role := role, usr_updated_at := now\<rparr>) db)\<lparr>db_role_changes := db_role_changes db @
            [role_change_event event k (usr_role user) role now]\<rparr>"
      "role = ''admin'' \<longrightarrow> usr_is_active user"
      "active_admin user \<and> role = ''user'' \<longrightarrow> 1 < length (filter active_admin (db_users db))"
proof (cases "confirmed \<and> role \<in> {''user'', ''admin''}")
  case False
  then show thesis by (intro Same) (auto simp: set_role_def)
next
  case ok: True
  then have call: "set_role k role confirmed event now db = transaction (set_role_in_session k role event now) db"
    by (auto simp: set_role_def)
  show thesis
  proof (cases rule: transaction_cases [of "set_role_in_session k role event now" db])
    case (Raise e)
    with call show thesis by (intro Same) simp
  next
    case (Return x db')
    show thesis
    proof (cases "db' = db")
      case True
      with Return call show thesis by (intro Same) simp
    next
      case False
      with Return(2) obtain user where user: "get_user k db = Some user" "usr_role user \<noteq> role"
        and db': "db' = (put_user (user\<lparr>usr_role := role, usr_updated_at := now\<rparr>) db)\<lparr>db_role_changes :=
            db_role_changes db @ [role_change_event event (usr_id user) (usr_role user) role now]\<rparr>"
        and "role = ''admin'' \<longrightarrow> usr_is_active user"
        and "usr_role user = ''admin'' \<and> role = ''user'' \<and> usr_is_active user \<longrightarrow> 1 < length (active_admin_ids db)"
        by (auto simp: set_role_in_session_def Let_def split: option.splits if_splits)
      moreover have "usr_id user = k" using user(1) by (rule user_rows.get_key)
      ultimately show thesis
        using ok Return(1) call by (intro Changed [of user]) (auto simp: active_admin_def length_active_admin_ids)
    qed
  qed
qed

definition admin_inv :: "database \<Rightarrow> bool" where
  "admin_inv db \<longleftrightarrow> distinct (map usr_id (db_users db)) \<and> (\<forall>u \<in> set (db_users db). user_row_ok u) \<and>
     (\<exists>u \<in> set (db_users db). active_admin u)"

definition role_step :: "database \<Rightarrow> database \<Rightarrow> bool" where
  "role_step db db' \<longleftrightarrow> (\<exists>k role confirmed event now. db' = snd (set_role k role confirmed event now db))"

lemma set_role_inv:
  assumes "admin_inv db"
  shows "admin_inv (snd (set_role k role confirmed event now db))"
proof (cases rule: set_role_effect [of k role confirmed event now db])
  case Same
  with assms show ?thesis by simp
next
  case (Changed user)
  let ?u = "user\<lparr>usr_role := role, usr_updated_at := now\<rparr>"
  have users: "db_users (snd (set_role k role confirmed event now db)) = put_row usr_id ?u (db_users db)"
    by (simp add: Changed(4) put_user_def)
  have found: "find_row usr_id (usr_id ?u) (db_users db) = Some user"
    using Changed(2) user_rows.get_key [OF Changed(2)] by (simp add: get_user_def)
  have dist: "distinct (map usr_id (db_users db))" using assms by (simp add: admin_inv_def)
  have set: "set (put_row usr_id ?u (db_users db)) = insert ?u (set (db_users db) - {user})"
    by (rule set_put [OF dist found])
  have "\<exists>u \<in> insert ?u (set (db_users db) - {user}). active_admin u"
  proof (cases "role = ''admin''")
    case True
    with Changed(5) show ?thesis by (simp add: active_admin_def)
  next
    case False
    then have role: "role = ''user''" using Changed(1) by simp
    obtain a where a: "a \<in> set (db_users db)" "active_admin a" using assms by (auto simp: admin_inv_def)
    show ?thesis
    proof (cases "active_admin user")
      case False
      with a have "a \<noteq> user" by auto
      with a show ?thesis by blast
    next
      case True
      with Changed(6) role have two: "1 < length (filter active_admin (db_users db))" by simp
      have "distinct (db_users db)" using dist by (simp add: distinct_map)
      then have "distinct (filter active_admin (db_users db))" by simp
      with two have "1 < card {u \<in> set (db_users db). active_admin u}"
        by (metis distinct_card set_filter)
      then obtain b where "b \<in> {u \<in> set (db_users db). active_admin u}" "b \<noteq> user"
        by (metis (no_types, lifting) card_1_singleton_iff is_singletonI' is_singleton_altdef
            card.empty less_one less_numeral_extra(4) not_less_zero)
      then show ?thesis by blast
    qed
  qed
  moreover have "user_row_ok ?u" using Changed(1) by (auto simp: user_row_ok_def)
  ultimately show ?thesis using assms dist by (auto simp: admin_inv_def users set)
qed

interpretation roles: invariant_system admin_inv role_step admin_inv
  by unfold_locales (auto simp: role_step_def intro: set_role_inv)

section \<open>Properties\<close>

type_synonym role_call = "uuid \<times> string \<times> bool \<times> uuid \<times> time"

fun run_roles :: "role_call list \<Rightarrow> database \<Rightarrow> database" where
  "run_roles [] db = db"
| "run_roles ((k, role, confirmed, event, now) # calls) db =
     run_roles calls (snd (set_role k role confirmed event now db))"

text \<open>The role a user has after the audited changes.\<close>

definition audited_role :: "uuid \<Rightarrow> admin_role_change_event list \<Rightarrow> string \<Rightarrow> string" where
  "audited_role k es role = fold (\<lambda>e r. if arc_target_user_id e = k then arc_new_role e else r) es role"

lemma run_roles_steps: "role_step\<^sup>*\<^sup>* db (run_roles calls db)"
proof (induction calls arbitrary: db)
  case (Cons c calls)
  obtain k role confirmed event now where c: "c = (k, role, confirmed, event, now)" by (cases c)
  have "role_step db (snd (set_role k role confirmed event now db))" unfolding role_step_def by blast
  with Cons show ?case unfolding c by (simp add: converse_rtranclp_into_rtranclp)
qed simp

lemma set_role_audit:
  "\<exists>es. db_role_changes (snd (set_role k role confirmed event now db)) = db_role_changes db @ es \<and>
     (\<forall>e \<in> set es. arc_previous_role e \<noteq> arc_new_role e) \<and>
     (\<forall>j u. get_user j db = Some u \<longrightarrow> (\<exists>u'. get_user j (snd (set_role k role confirmed event now db)) = Some u' \<and>
        usr_role u' = audited_role j es (usr_role u)))"
proof (cases rule: set_role_effect [of k role confirmed event now db])
  case Same
  then show ?thesis by (intro exI [of _ "[]"]) (simp add: audited_role_def)
next
  case (Changed user)
  let ?u = "user\<lparr>usr_role := role, usr_updated_at := now\<rparr>"
  let ?e = "role_change_event event k (usr_role user) role now"
  have frame: "get_user j (d\<lparr>db_role_changes := es\<rparr>) = get_user j d" for j d es by (simp add: get_user_def)
  have "usr_id ?u = k" using user_rows.get_key [OF Changed(2)] by simp
  then have "get_user j (put_user ?u db) = Some (if j = k then ?u else u)" if "get_user j db = Some u" for j u
    using that by (simp add: user_rows.get_put)
  then have "\<exists>u'. get_user j (snd (set_role k role confirmed event now db)) = Some u' \<and>
      usr_role u' = audited_role j [?e] (usr_role u)" if "get_user j db = Some u" for j u
    using that by (simp add: Changed(4) frame audited_role_def role_change_event_def)
  moreover have "db_role_changes (put_user ?u db) = db_role_changes db" by (simp add: put_user_def)
  ultimately show ?thesis
    using Changed(3) by (intro exI [of _ "[?e]"]) (simp add: Changed(4) role_change_event_def)
qed

text \<open>
  C20. An administrator remains, and the trail tells the roles: whatever role changes operators ask for,
  an active administrator is left, and the role of every user is the one the last audited change of
  this user names, or the one from before when there is none.
\<close>

theorem role_changes_keep_an_admin:
  assumes "admin_inv db"
  shows "(\<exists>u \<in> set (db_users (run_roles calls db)). usr_role u = ''admin'' \<and> usr_is_active u) \<and>
    (\<exists>es. db_role_changes (run_roles calls db) = db_role_changes db @ es \<and>
       (\<forall>e \<in> set es. arc_previous_role e \<noteq> arc_new_role e) \<and>
       (\<forall>k u. get_user k db = Some u \<longrightarrow> (\<exists>u'. get_user k (run_roles calls db) = Some u' \<and>
          usr_role u' = audited_role k es (usr_role u))))"
proof
  show "\<exists>u \<in> set (db_users (run_roles calls db)). usr_role u = ''admin'' \<and> usr_is_active u"
    using roles.steps_inv [OF run_roles_steps assms] by (auto simp: admin_inv_def active_admin_def)
  show "\<exists>es. db_role_changes (run_roles calls db) = db_role_changes db @ es \<and>
       (\<forall>e \<in> set es. arc_previous_role e \<noteq> arc_new_role e) \<and>
       (\<forall>k u. get_user k db = Some u \<longrightarrow> (\<exists>u'. get_user k (run_roles calls db) = Some u' \<and>
          usr_role u' = audited_role k es (usr_role u)))"
  proof (induction calls arbitrary: db)
    case Nil
    show ?case by (intro exI [of _ "[]"]) (simp add: audited_role_def)
  next
    case (Cons c calls)
    obtain k role confirmed event now where c: "c = (k, role, confirmed, event, now)" by (cases c)
    let ?db = "snd (set_role k role confirmed event now db)"
    obtain es where es: "db_role_changes ?db = db_role_changes db @ es"
        "\<forall>e \<in> set es. arc_previous_role e \<noteq> arc_new_role e"
        "\<forall>j u. get_user j db = Some u \<longrightarrow> (\<exists>u'. get_user j ?db = Some u' \<and> usr_role u' = audited_role j es (usr_role u))"
      using set_role_audit by blast
    obtain es' where es': "db_role_changes (run_roles calls ?db) = db_role_changes ?db @ es'"
        "\<forall>e \<in> set es'. arc_previous_role e \<noteq> arc_new_role e"
        "\<forall>j u. get_user j ?db = Some u \<longrightarrow> (\<exists>u'. get_user j (run_roles calls ?db) = Some u' \<and>
          usr_role u' = audited_role j es' (usr_role u))"
      using Cons by blast
    have append: "audited_role j (es @ es') r = audited_role j es' (audited_role j es r)" for j r
      by (simp add: audited_role_def)
    have "\<exists>w. get_user j (run_roles calls ?db) = Some w \<and> usr_role w = audited_role j (es @ es') (usr_role u)"
      if u: "get_user j db = Some u" for j u
    proof -
      obtain v where v: "get_user j ?db = Some v" "usr_role v = audited_role j es (usr_role u)"
        using es(3) u by blast
      then obtain w where "get_user j (run_roles calls ?db) = Some w" "usr_role w = audited_role j es' (usr_role v)"
        using es'(3) by blast
      with v(2) show ?thesis by (simp add: append)
    qed
    with es(1,2) es'(1,2) show ?case by (intro exI [of _ "es @ es'"]) (auto simp: c)
  qed
qed

definition demo_admins :: database where
  "demo_admins = demo_init\<lparr>db_users := [demo_user\<lparr>usr_role := ''admin''\<rparr>, demo_user\<lparr>usr_id := 2\<rparr>]\<rparr>"

theorem role_changes_keep_an_admin_witness:
  "\<exists>u \<in> set (db_users (run_roles [(2, ''admin'', True, 7, 3), (1, ''user'', True, 8, 4), (2, ''user'', True, 9, 5)]
     demo_admins)). usr_role u = ''admin'' \<and> usr_is_active u"
proof -
  have "admin_inv demo_admins"
    by (simp add: admin_inv_def demo_admins_def user_row_ok_def active_admin_def demo_user_def)
  from conjunct1 [OF role_changes_keep_an_admin [OF this]] show ?thesis .
qed

text \<open>Audit pages tile the listing they are cut from.\<close>

lemma page_tiles:
  assumes "audit_page_of view rows limit (int (i * nat limit)) = Inr page"
  shows "map view (take (Suc i * nat limit) rows) = map view (take (i * nat limit) rows) @ pg_items page"
    and "pg_has_more page \<longleftrightarrow> Suc i * nat limit < length rows"
proof -
  let ?n = "nat limit"
  have ok: "1 \<le> limit" and page: "pg_items page = map view (take ?n (page_rows rows limit (int (i * ?n))))"
    "pg_has_more page \<longleftrightarrow> limit < int (length (page_rows rows limit (int (i * ?n))))"
    using assms by (auto simp: audit_page_of_def pagination_error_def Let_def split: option.splits if_splits)
  have nat: "nat (limit + 1) = Suc ?n" using ok by simp
  have off: "nat (int (i * ?n)) = i * ?n" by (rule nat_int)
  have "take ?n (take (Suc ?n) (drop (i * ?n) rows)) = take ?n (drop (i * ?n) rows)" by simp
  then have items: "pg_items page = map view (take ?n (drop (i * ?n) rows))"
    using page(1) unfolding page_rows_def nat off by simp
  have "take (Suc i * ?n) rows = take (i * ?n) rows @ take ?n (drop (i * ?n) rows)"
    by (metis add.commute mult_Suc take_add)
  then show "map view (take (Suc i * ?n) rows) = map view (take (i * ?n) rows) @ pg_items page"
    by (simp add: items)
  have "limit < int (min (length rows - i * ?n) (Suc ?n)) \<longleftrightarrow> ?n < length rows - i * ?n" using ok by linarith
  then show "pg_has_more page \<longleftrightarrow> Suc i * ?n < length rows"
    using page(2) unfolding page_rows_def nat off by (simp add: min.commute less_diff_conv add.commute)
qed

end
