(* ===== verification/Retention.thy ===== *)
theory Retention
  imports Models Environment "HOL-Library.Sublist"
begin

text \<open>
  Removing the data of finished jobs: \<^verbatim>\<open>backend/jobs/cleanup.py\<close> (failed and cancelled jobs) and
  \<^verbatim>\<open>backend/jobs/retention.py\<close> (successful jobs, tier by tier, with an audited run). The directory of
  a job is a map from relative paths to entries; a removal that fails with an \<open>OSError\<close> leaves any
  part of the subtree. Each cleaned job is one transaction; the reports keep times as numbers.
\<close>

section \<open>Task directories\<close>

datatype entry = Plain_file string | Link | Directory

type_synonym path = "string list"

type_synonym tree = "path \<Rightarrow> entry option"

record task_store =
  ts_db :: database
  ts_tree :: "uuid \<Rightarrow> tree"

text \<open>
  What happens when a subtree is removed: \<open>None\<close> is success, \<open>Some survivors\<close> an \<open>OSError\<close> after
  which the survivors and the directories above them are still there.
\<close>

type_synonym removal = "path list option"

definition rmtree :: "removal \<Rightarrow> path \<Rightarrow> tree \<Rightarrow> bool \<times> tree" where
  "rmtree r p t =
     (case r of
        None \<Rightarrow> (True, \<lambda>q. if prefix p q then None else t q)
      | Some survivors \<Rightarrow> (False, \<lambda>q. if prefix p q \<and> \<not> list_ex (prefix q) survivors then None else t q))"

text \<open>
  The removals below return \<open>None\<close> for an \<open>OSError\<close> and otherwise whether there was something to
  remove. The root of a job is neither a link nor outside the jobs root when the layout is built, so
  that the layout's own checks cannot fail.
\<close>

definition remove_job_directory :: "(path \<Rightarrow> removal) \<Rightarrow> tree \<Rightarrow> bool option \<times> tree" where
  "remove_job_directory rm t =
     (case t [] of
        Some Link \<Rightarrow> (None, t)
      | None \<Rightarrow> (Some False, t)
      | Some (Plain_file _) \<Rightarrow> (None, t)
      | Some Directory \<Rightarrow>
          (case rmtree (rm []) [] t of (done, t') \<Rightarrow> (if done then Some True else None, t')))"

fun remove_paths :: "(path \<Rightarrow> removal) \<Rightarrow> path list \<Rightarrow> tree \<Rightarrow> bool option \<times> tree" where
  "remove_paths rm [] t = (Some False, t)"
| "remove_paths rm (p # ps) t =
     (if list_ex (\<lambda>q. t q = Some Link) (tl (prefixes p)) then (None, t)
      else case t p of
          None \<Rightarrow> remove_paths rm ps t
        | Some Directory \<Rightarrow>
            (case rmtree (rm p) p t of
               (False, t') \<Rightarrow> (None, t')
             | (True, t') \<Rightarrow>
                 (case remove_paths rm ps t' of
                    (None, t'') \<Rightarrow> (None, t'') | (Some _, t'') \<Rightarrow> (Some True, t'')))
        | Some _ \<Rightarrow> (None, t))"

section \<open>Failed and cancelled jobs\<close>

definition cleanable_job_statuses :: "job_status set" where
  "cleanable_job_statuses = {FAILED_INPUT, FAILED_PIPELINE, FAILED_EVALUATION, CANCELLED}"

datatype cleanup_result = Cleaned | Absent | Cleanup_failed | Skipped

record failed_cleanup_settings =
  fcs_grace_minutes :: int
  fcs_interval_seconds :: int
  fcs_batch_size :: int

definition failed_cleanup_settings_error :: "failed_cleanup_settings \<Rightarrow> string option" where
  "failed_cleanup_settings_error s =
     (if \<not> (0 \<le> fcs_grace_minutes s \<and> fcs_grace_minutes s \<le> 24 * 60)
      then Some ''RE3D_FAILED_JOB_CLEANUP_GRACE_MINUTES must be between 0 and 1440''
      else if \<not> (30 \<le> fcs_interval_seconds s \<and> fcs_interval_seconds s \<le> 24 * 60 * 60)
      then Some ''RE3D_FAILED_JOB_CLEANUP_INTERVAL_SECONDS must be between 30 and 86400''
      else if \<not> (1 \<le> fcs_batch_size s \<and> fcs_batch_size s \<le> 1000)
      then Some ''RE3D_FAILED_JOB_CLEANUP_BATCH_SIZE must be between 1 and 1000''
      else None)"

definition failed_cleanup_settings_from_environment :: "environ \<Rightarrow> string + failed_cleanup_settings" where
  "failed_cleanup_settings_from_environment env =
     (case read_all [read_int env ''RE3D_FAILED_JOB_CLEANUP_GRACE_MINUTES'' 5,
         read_int env ''RE3D_FAILED_JOB_CLEANUP_INTERVAL_SECONDS'' 300,
         read_int env ''RE3D_FAILED_JOB_CLEANUP_BATCH_SIZE'' 100] of
        Inr [grace, interval, batch] \<Rightarrow>
          let s = \<lparr>fcs_grace_minutes = grace, fcs_interval_seconds = interval, fcs_batch_size = batch\<rparr>
          in (case failed_cleanup_settings_error s of Some e \<Rightarrow> Inl e | None \<Rightarrow> Inr s)
      | Inr _ \<Rightarrow> Inl ''''
      | Inl e \<Rightarrow> Inl e)"

definition put_task :: "reconstruction_job \<Rightarrow> tree \<Rightarrow> task_store \<Rightarrow> task_store" where
  "put_task j t w = w\<lparr>ts_db := put_job j (ts_db w), ts_tree := (ts_tree w)(job_id j := t)\<rparr>"

definition cleanup_job ::
  "(path \<Rightarrow> removal) \<Rightarrow> uuid \<Rightarrow> time \<Rightarrow> task_store \<Rightarrow> cleanup_result \<times> task_store" where
  "cleanup_job rm k now w =
     (case get_job k (ts_db w) of
        None \<Rightarrow> (Skipped, w)
      | Some job \<Rightarrow>
          if job_status job \<notin> cleanable_job_statuses \<or> job_finished_at job = None \<or>
             job_storage_cleaned_at job \<noteq> None
          then (Skipped, w)
          else
            let job1 = job\<lparr>job_storage_cleanup_attempts := job_storage_cleanup_attempts job + 1,
                  job_storage_cleanup_attempted_at := Some now, job_updated_at := now,
                  job_version := job_version job + 1\<rparr>
            in (case remove_job_directory rm (ts_tree w k) of
                  (None, t) \<Rightarrow>
                    (Cleanup_failed, put_task (job1\<lparr>job_storage_cleanup_last_error :=
                       Some ''TASK_DIRECTORY_REMOVE_FAILED''\<rparr>) t w)
                | (Some existed, t) \<Rightarrow>
                    (if existed then Cleaned else Absent,
                     put_task (job1\<lparr>job_storage_cleaned_at := Some now, job_storage_released_at := Some now,
                       job_storage_cleanup_last_error := None\<rparr>) t w)))"

text \<open>The ids of the jobs a batch looks at, oldest first.\<close>

definition oldest_jobs :: "(reconstruction_job \<Rightarrow> bool) \<Rightarrow> int \<Rightarrow> database \<Rightarrow> uuid list" where
  "oldest_jobs p limit db =
     map job_id (take (nat limit) (sort_key (\<lambda>j. (the (job_finished_at j), job_id j)) (filter p (db_jobs db))))"

definition finished_before :: "time \<Rightarrow> reconstruction_job \<Rightarrow> bool" where
  "finished_before cutoff j \<longleftrightarrow> (case job_finished_at j of None \<Rightarrow> False | Some t \<Rightarrow> t \<le> cutoff)"

record failed_cleanup_report =
  fcr_scanned :: nat
  fcr_storage_cleaned :: nat
  fcr_storage_already_absent :: nat
  fcr_storage_cleanup_failures :: "uuid list"
  fcr_skipped :: nat
  fcr_cutoff :: time

text \<open>The results of a loop over jobs, in order, and the store after it.\<close>

fun cleanup_each ::
  "(uuid \<Rightarrow> task_store \<Rightarrow> cleanup_result \<times> task_store) \<Rightarrow> uuid list \<Rightarrow> task_store \<Rightarrow>
     (uuid \<times> cleanup_result) list \<times> task_store" where
  "cleanup_each clean [] w = ([], w)"
| "cleanup_each clean (k # ks) w =
     (let (r, w1) = clean k w; (rs, w2) = cleanup_each clean ks w1 in ((k, r) # rs, w2))"

definition count_results :: "cleanup_result \<Rightarrow> (uuid \<times> cleanup_result) list \<Rightarrow> nat" where
  "count_results r rs = length (filter (\<lambda>(_, x). x = r) rs)"

definition cleanup_terminal_jobs ::
  "failed_cleanup_settings \<Rightarrow> (uuid \<Rightarrow> path \<Rightarrow> removal) \<Rightarrow> int option \<Rightarrow> int option \<Rightarrow> time \<Rightarrow> task_store \<Rightarrow>
     (string, failed_cleanup_report, task_store) outcome" where
  "cleanup_terminal_jobs s rm grace_minutes limit now w =
     (let grace = (case grace_minutes of None \<Rightarrow> fcs_grace_minutes s | Some n \<Rightarrow> n);
          limit = (case limit of None \<Rightarrow> fcs_batch_size s | Some n \<Rightarrow> n)
      in if \<not> (0 \<le> grace \<and> grace \<le> 24 * 60)
         then (Inl ''cleanup grace_minutes must be between 0 and 1440'', w)
         else if \<not> (1 \<le> limit \<and> limit \<le> 1000)
         then (Inl ''cleanup limit must be between 1 and 1000'', w)
         else
           let cutoff = now - minutes grace;
               ids = oldest_jobs (\<lambda>j. job_status j \<in> cleanable_job_statuses \<and> finished_before cutoff j \<and>
                 job_storage_cleaned_at j = None) limit (ts_db w);
               (rs, w') = cleanup_each (\<lambda>k. cleanup_job (rm k) k now) ids w
           in (Inr \<lparr>fcr_scanned = length ids, fcr_storage_cleaned = count_results Cleaned rs,
                 fcr_storage_already_absent = count_results Absent rs,
                 fcr_storage_cleanup_failures = map fst (filter (\<lambda>(_, r). r = Cleanup_failed) rs),
                 fcr_skipped = count_results Skipped rs, fcr_cutoff = cutoff\<rparr>, w'))"

section \<open>Successful jobs\<close>

datatype tier = Tier_input | Tier_runtime | Tier_artifacts

definition success_retention_statuses :: "job_status set" where
  "success_retention_statuses = {SUCCEEDED, EXPIRED}"

definition tier_name :: "tier \<Rightarrow> string" where
  "tier_name x = (case x of Tier_input \<Rightarrow> ''input'' | Tier_runtime \<Rightarrow> ''runtime'' | Tier_artifacts \<Rightarrow> ''artifacts'')"

definition tier_paths :: "tier \<Rightarrow> path list" where
  "tier_paths x =
     (case x of
        Tier_input \<Rightarrow> [[''input'', ''staging''], [''input'', ''images'']]
      | Tier_runtime \<Rightarrow> [[''runtime'']]
      | Tier_artifacts \<Rightarrow> [[''output'']])"

definition tier_error_code :: "tier \<Rightarrow> string" where
  "tier_error_code x =
     (case x of
        Tier_input \<Rightarrow> ''SUCCESS_INPUT_REMOVE_FAILED''
      | Tier_runtime \<Rightarrow> ''SUCCESS_RUNTIME_REMOVE_FAILED''
      | Tier_artifacts \<Rightarrow> ''SUCCESS_ARTIFACT_REMOVE_FAILED'')"

text \<open>\<open>getattr(job, TIER_CLEANED_FIELDS[tier])\<close> and \<open>setattr\<close>.\<close>

definition tier_cleaned_at :: "tier \<Rightarrow> reconstruction_job \<Rightarrow> time option" where
  "tier_cleaned_at x j =
     (case x of Tier_input \<Rightarrow> job_input_cleaned_at j | Tier_runtime \<Rightarrow> job_runtime_cleaned_at j
      | Tier_artifacts \<Rightarrow> job_artifacts_cleaned_at j)"

definition set_tier_cleaned_at :: "tier \<Rightarrow> time \<Rightarrow> reconstruction_job \<Rightarrow> reconstruction_job" where
  "set_tier_cleaned_at x now j =
     (case x of Tier_input \<Rightarrow> j\<lparr>job_input_cleaned_at := Some now\<rparr>
      | Tier_runtime \<Rightarrow> j\<lparr>job_runtime_cleaned_at := Some now\<rparr>
      | Tier_artifacts \<Rightarrow> j\<lparr>job_artifacts_cleaned_at := Some now\<rparr>)"

record retention_settings =
  rts_input_retention_days :: "int option"
  rts_runtime_retention_days :: "int option"
  rts_artifact_retention_days :: "int option"
  rts_cleanup_batch_size :: int
  rts_scheduled_dry_run_enabled :: bool
  rts_scheduled_dry_run_interval_seconds :: int

definition default_retention_settings :: retention_settings where
  "default_retention_settings =
     \<lparr>rts_input_retention_days = None, rts_runtime_retention_days = None, rts_artifact_retention_days = None,
      rts_cleanup_batch_size = 50, rts_scheduled_dry_run_enabled = False,
      rts_scheduled_dry_run_interval_seconds = 86400\<rparr>"

definition retention_settings_error :: "retention_settings \<Rightarrow> string option" where
  "retention_settings_error s =
     (if \<not> optional_days_ok (rts_input_retention_days s)
      then Some ''SUCCESS_INPUT_RETENTION_DAYS must be between 1 and 3650''
      else if \<not> optional_days_ok (rts_runtime_retention_days s)
      then Some ''SUCCESS_RUNTIME_RETENTION_DAYS must be between 1 and 3650''
      else if \<not> optional_days_ok (rts_artifact_retention_days s)
      then Some ''SUCCESS_ARTIFACT_RETENTION_DAYS must be between 1 and 3650''
      else if \<not> (1 \<le> rts_cleanup_batch_size s \<and> rts_cleanup_batch_size s \<le> 1000)
      then Some ''SUCCESS_RETENTION_CLEANUP_BATCH_SIZE must be between 1 and 1000''
      else if \<not> (3600 \<le> rts_scheduled_dry_run_interval_seconds s \<and>
        rts_scheduled_dry_run_interval_seconds s \<le> 7 * 86400)
      then Some ''SUCCESS_RETENTION_DRY_RUN_INTERVAL_SECONDS must be between 3600 and 604800''
      else if rts_scheduled_dry_run_enabled s \<and> rts_input_retention_days s = None \<and>
        rts_runtime_retention_days s = None \<and> rts_artifact_retention_days s = None
      then Some ''scheduled retention dry-run requires at least one retention tier''
      else None)"

definition optional_environment_integer :: "environ \<Rightarrow> string \<Rightarrow> string + int option" where
  "optional_environment_integer env name =
     (case env name of
        None \<Rightarrow> Inr None
      | Some configured \<Rightarrow>
          if strip configured = [] then Inr None
          else (case py_int configured of
              None \<Rightarrow> Inl (name @ '' must be an integer'') | Some n \<Rightarrow> Inr (Some n)))"

definition environment_boolean :: "environ \<Rightarrow> string \<Rightarrow> bool \<Rightarrow> string + bool" where
  "environment_boolean env name fallback =
     (case env name of
        None \<Rightarrow> Inr fallback
      | Some configured \<Rightarrow>
          let normalized = lower (strip configured)
          in if normalized \<in> {''1'', ''true'', ''yes'', ''on''} then Inr True
             else if normalized \<in> {''0'', ''false'', ''no'', ''off''} then Inr False
             else Inl (name @ '' must be a boolean''))"

definition retention_settings_from_environment :: "environ \<Rightarrow> string + retention_settings" where
  "retention_settings_from_environment env =
     (case read_all [optional_environment_integer env ''SUCCESS_INPUT_RETENTION_DAYS'',
         optional_environment_integer env ''SUCCESS_RUNTIME_RETENTION_DAYS'',
         optional_environment_integer env ''SUCCESS_ARTIFACT_RETENTION_DAYS''] of
        Inr [input, runtime, artifacts] \<Rightarrow>
          (case read_int env ''SUCCESS_RETENTION_CLEANUP_BATCH_SIZE'' 50 of
             Inl e \<Rightarrow> Inl e
           | Inr batch \<Rightarrow>
               (case environment_boolean env ''SUCCESS_RETENTION_DRY_RUN_ENABLED'' False of
                  Inl e \<Rightarrow> Inl e
                | Inr enabled \<Rightarrow>
                    (case read_int env ''SUCCESS_RETENTION_DRY_RUN_INTERVAL_SECONDS'' 86400 of
                       Inl e \<Rightarrow> Inl e
                     | Inr interval \<Rightarrow>
                         let s = \<lparr>rts_input_retention_days = input, rts_runtime_retention_days = runtime,
                               rts_artifact_retention_days = artifacts, rts_cleanup_batch_size = batch,
                               rts_scheduled_dry_run_enabled = enabled,
                               rts_scheduled_dry_run_interval_seconds = interval\<rparr>
                         in (case retention_settings_error s of Some e \<Rightarrow> Inl e | None \<Rightarrow> Inr s))))
      | Inr _ \<Rightarrow> Inl ''''
      | Inl e \<Rightarrow> Inl e)"

definition retention_days :: "retention_settings \<Rightarrow> tier \<Rightarrow> int option" where
  "retention_days s x =
     (case x of Tier_input \<Rightarrow> rts_input_retention_days s | Tier_runtime \<Rightarrow> rts_runtime_retention_days s
      | Tier_artifacts \<Rightarrow> rts_artifact_retention_days s)"

text \<open>
  \<open>_remove_retention_tier\<close>: a job without a directory has nothing to remove.
\<close>

definition remove_retention_tier :: "(path \<Rightarrow> removal) \<Rightarrow> tier \<Rightarrow> tree \<Rightarrow> bool option \<times> tree" where
  "remove_retention_tier rm x t =
     (case t [] of
        Some Link \<Rightarrow> (None, t)
      | None \<Rightarrow> (Some False, t)
      | Some (Plain_file _) \<Rightarrow> (None, t)
      | Some Directory \<Rightarrow> remove_paths rm (tier_paths x) t)"

definition tier_cleaned_job :: "tier \<Rightarrow> time \<Rightarrow> reconstruction_job \<Rightarrow> reconstruction_job" where
  "tier_cleaned_job x now job1 =
     (let job2 = (if x = Tier_artifacts \<and> job_status job1 = SUCCEEDED then job1\<lparr>job_status := EXPIRED\<rparr> else job1);
          job3 = set_tier_cleaned_at x now job2;
          job4 = (if job_input_cleaned_at job3 \<noteq> None \<and> job_runtime_cleaned_at job3 \<noteq> None \<and>
              job_artifacts_cleaned_at job3 \<noteq> None
            then job3\<lparr>job_storage_released_at := Some now\<rparr> else job3)
      in if job_retention_cleanup_last_error job4 = Some (tier_error_code x)
         then job4\<lparr>job_retention_cleanup_last_error := None\<rparr> else job4)"

text \<open>
  The transition to expired is asserted before it is made; its error would roll the row back after
  the files are gone.
\<close>

definition cleanup_job_tier ::
  "(path \<Rightarrow> removal) \<Rightarrow> uuid \<Rightarrow> tier \<Rightarrow> int \<Rightarrow> time \<Rightarrow> task_store \<Rightarrow>
     (string, cleanup_result, task_store) outcome" where
  "cleanup_job_tier rm k x keep_days now w =
     (if \<not> (1 \<le> keep_days \<and> keep_days \<le> 3650)
      then (Inl ''retention_days must be between 1 and 3650'', w)
      else
        let cutoff = now - days keep_days
        in case get_job k (ts_db w) of
             None \<Rightarrow> (Inr Skipped, w)
           | Some job \<Rightarrow>
               if job_status job \<notin> success_retention_statuses \<or> \<not> finished_before cutoff job \<or>
                  tier_cleaned_at x job \<noteq> None
               then (Inr Skipped, w)
               else
                 let job1 = job\<lparr>job_retention_cleanup_attempts := job_retention_cleanup_attempts job + 1,
                       job_retention_cleanup_attempted_at := Some now, job_updated_at := now,
                       job_version := job_version job + 1\<rparr>
                 in (case remove_retention_tier rm x (ts_tree w k) of
                       (None, t) \<Rightarrow>
                         (Inr Cleanup_failed,
                          put_task (job1\<lparr>job_retention_cleanup_last_error := Some (tier_error_code x)\<rparr>) t w)
                     | (Some existed, t) \<Rightarrow>
                         (if x = Tier_artifacts \<and> job_status job1 = SUCCEEDED \<and>
                             assert_transition (job_status job1) EXPIRED \<noteq> Inr ()
                          then (Inl ''invalid transition'', w\<lparr>ts_tree := (ts_tree w)(k := t)\<rparr>)
                          else (Inr (if existed then Cleaned else Absent),
                            put_task (tier_cleaned_job x now job1) t w))))"

definition tier_candidate_ids :: "tier \<Rightarrow> time \<Rightarrow> int \<Rightarrow> database \<Rightarrow> uuid list" where
  "tier_candidate_ids x cutoff limit db =
     oldest_jobs (\<lambda>j. job_status j \<in> success_retention_statuses \<and> finished_before cutoff j \<and>
       tier_cleaned_at x j = None) limit db"

text \<open>The loop over the candidates of a tier; an error ends it.\<close>

fun cleanup_tier_each ::
  "(uuid \<Rightarrow> task_store \<Rightarrow> (string, cleanup_result, task_store) outcome) \<Rightarrow> uuid list \<Rightarrow> task_store \<Rightarrow>
     (string, (uuid \<times> cleanup_result) list, task_store) outcome" where
  "cleanup_tier_each clean [] w = (Inr [], w)"
| "cleanup_tier_each clean (k # ks) w =
     (case clean k w of
        (Inl e, w1) \<Rightarrow> (Inl e, w1)
      | (Inr r, w1) \<Rightarrow>
          (case cleanup_tier_each clean ks w1 of
             (Inl e, w2) \<Rightarrow> (Inl e, w2) | (Inr rs, w2) \<Rightarrow> (Inr ((k, r) # rs), w2)))"

definition disabled_tier_report :: tier_report where
  "disabled_tier_report =
     \<lparr>tr_enabled = False, tr_retention_days = None, tr_cutoff = None, tr_candidates = 0, tr_cleaned = 0,
      tr_already_absent = 0, tr_failed = 0, tr_skipped = 0\<rparr>"

definition cleanup_due_tier ::
  "retention_settings \<Rightarrow> (uuid \<Rightarrow> path \<Rightarrow> removal) \<Rightarrow> bool \<Rightarrow> time \<Rightarrow> int \<Rightarrow> tier \<Rightarrow> task_store \<Rightarrow>
     (string, tier_report, task_store) outcome" where
  "cleanup_due_tier s rm execute now limit x w =
     (case retention_days s x of
        None \<Rightarrow> (Inr disabled_tier_report, w)
      | Some n \<Rightarrow>
          let cutoff = now - days n;
              candidates = tier_candidate_ids x cutoff limit (ts_db w)
          in (case (if execute then cleanup_tier_each (\<lambda>k. cleanup_job_tier (rm k) k x n now) candidates w
                    else (Inr [], w)) of
                (Inl e, w1) \<Rightarrow> (Inl e, w1)
              | (Inr rs, w1) \<Rightarrow>
                  (Inr \<lparr>tr_enabled = True, tr_retention_days = Some n, tr_cutoff = Some cutoff,
                     tr_candidates = length candidates, tr_cleaned = count_results Cleaned rs,
                     tr_already_absent = count_results Absent rs, tr_failed = count_results Cleanup_failed rs,
                     tr_skipped = count_results Skipped rs\<rparr>, w1)))"

fun cleanup_due_tiers ::
  "retention_settings \<Rightarrow> (uuid \<Rightarrow> path \<Rightarrow> removal) \<Rightarrow> bool \<Rightarrow> time \<Rightarrow> int \<Rightarrow> tier list \<Rightarrow> task_store \<Rightarrow>
     (string, (string \<times> tier_report) list, task_store) outcome" where
  "cleanup_due_tiers s rm execute now limit [] w = (Inr [], w)"
| "cleanup_due_tiers s rm execute now limit (x # xs) w =
     (case cleanup_due_tier s rm execute now limit x w of
        (Inl e, w1) \<Rightarrow> (Inl e, w1)
      | (Inr r, w1) \<Rightarrow>
          (case cleanup_due_tiers s rm execute now limit xs w1 of
             (Inl e, w2) \<Rightarrow> (Inl e, w2) | (Inr rs, w2) \<Rightarrow> (Inr ((tier_name x, r) # rs), w2)))"

definition cleanup_due_jobs ::
  "retention_settings \<Rightarrow> (uuid \<Rightarrow> path \<Rightarrow> removal) \<Rightarrow> bool \<Rightarrow> time \<Rightarrow> int option \<Rightarrow> task_store \<Rightarrow>
     (string, retention_report, task_store) outcome" where
  "cleanup_due_jobs s rm execute now limit w =
     (let limit = (case limit of None \<Rightarrow> rts_cleanup_batch_size s | Some n \<Rightarrow> n)
      in if \<not> (1 \<le> limit \<and> limit \<le> 1000) then (Inl ''cleanup limit must be between 1 and 1000'', w)
         else
           (case cleanup_due_tiers s rm execute now limit [Tier_input, Tier_runtime, Tier_artifacts] w of
              (Inl e, w1) \<Rightarrow> (Inl e, w1)
            | (Inr tiers, w1) \<Rightarrow>
                (Inr \<lparr>rr_mode = (if execute then ''execute'' else ''dry_run''),
                   rr_batch_size_per_tier = limit, rr_tiers = tiers\<rparr>, w1)))"

section \<open>Audited runs\<close>

definition put_retention_run :: "success_retention_run \<Rightarrow> task_store \<Rightarrow> task_store" where
  "put_retention_run r w = w\<lparr>ts_db := (ts_db w)\<lparr>db_retention_runs :=
     put_row srr_id r (db_retention_runs (ts_db w))\<rparr>\<rparr>"

definition get_retention_run :: "uuid \<Rightarrow> task_store \<Rightarrow> success_retention_run option" where
  "get_retention_run k w = find_row srr_id k (db_retention_runs (ts_db w))"

definition started_run ::
  "retention_settings \<Rightarrow> uuid \<Rightarrow> string \<Rightarrow> bool \<Rightarrow> int \<Rightarrow> time \<Rightarrow> success_retention_run" where
  "started_run s run_id trigger execute batch_size now =
     \<lparr>srr_id = run_id, srr_trigger = trigger, srr_mode = (if execute then ''execute'' else ''dry_run''),
      srr_status = Run_running, srr_input_retention_days = rts_input_retention_days s,
      srr_runtime_retention_days = rts_runtime_retention_days s,
      srr_artifact_retention_days = rts_artifact_retention_days s, srr_batch_size = batch_size,
      srr_started_at = now, srr_finished_at = None, srr_report = None, srr_error_code = None\<rparr>"

text \<open>
  \<open>run\<close>: the audit row is inserted under a fresh id, the jobs are cleaned, and the row is closed with
  the report or with an error code; \<open>finished_at\<close> is the second clock.
\<close>

definition finish_failed :: "uuid \<Rightarrow> time \<Rightarrow> task_store \<Rightarrow> task_store" where
  "finish_failed run_id finished_at w =
     (case get_retention_run run_id w of
        None \<Rightarrow> w
      | Some record \<Rightarrow> put_retention_run (record\<lparr>srr_status := Run_failed, srr_finished_at := Some finished_at,
          srr_error_code := Some ''SUCCESS_RETENTION_RUN_FAILED''\<rparr>) w)"

definition retention_run ::
  "retention_settings \<Rightarrow> (uuid \<Rightarrow> path \<Rightarrow> removal) \<Rightarrow> bool \<Rightarrow> string \<Rightarrow> int option \<Rightarrow> uuid \<Rightarrow> time \<Rightarrow> time \<Rightarrow>
     task_store \<Rightarrow> (string, retention_report, task_store) outcome" where
  "retention_run s rm execute trigger limit run_id started_at finished_at w =
     (let batch_size = (case limit of None \<Rightarrow> rts_cleanup_batch_size s | Some n \<Rightarrow> n)
      in if trigger \<notin> {''manual'', ''scheduled''}
         then (Inl ''retention trigger must be manual or scheduled'', w)
         else if \<not> (1 \<le> batch_size \<and> batch_size \<le> 1000)
         then (Inl ''cleanup limit must be between 1 and 1000'', w)
         else
           let w0 = w\<lparr>ts_db := (ts_db w)\<lparr>db_retention_runs := db_retention_runs (ts_db w) @
                 [started_run s run_id trigger execute batch_size started_at]\<rparr>\<rparr>
           in (case cleanup_due_jobs s rm execute started_at (Some batch_size) w0 of
                 (Inl e, w1) \<Rightarrow> (Inl e, finish_failed run_id finished_at w1)
               | (Inr report, w1) \<Rightarrow>
                   (case get_retention_run run_id w1 of
                      None \<Rightarrow> (Inl ''retention audit record disappeared'', w1)
                    | Some record \<Rightarrow>
                        (Inr report, put_retention_run (record\<lparr>srr_status := Run_succeeded,
                           srr_finished_at := Some finished_at, srr_report := Some report\<rparr>) w1))))"

end
