(* ===== verification/Retention_Theorems.thy ===== *)
theory Retention_Theorems
  imports Retention Queue_Properties
begin

text \<open>
  What the cleaners keep: the queue's invariant, the truth of the columns that say what was cleaned,
  and the data of every job that is not due, in every interleaving with the calls of the queue.
\<close>

section \<open>Runs\<close>

datatype data_call =
    Queue queue_call
  | Clean_failed "path \<Rightarrow> removal" uuid time
  | Clean_tier "path \<Rightarrow> removal" uuid tier int time

fun run_data :: "data_call \<Rightarrow> task_store \<Rightarrow> task_store" where
  "run_data (Queue call) w = w\<lparr>ts_db := run_call call (ts_db w)\<rparr>"
| "run_data (Clean_failed rm k now) w = snd (cleanup_job rm k now w)"
| "run_data (Clean_tier rm k x n now) w = snd (cleanup_job_tier rm k x n now w)"

definition run_all_data :: "data_call list \<Rightarrow> task_store \<Rightarrow> task_store" where
  "run_all_data calls w = fold run_data calls w"

section \<open>Trees\<close>

text \<open>What is above an entry is a directory.\<close>

definition tree_ok :: "tree \<Rightarrow> bool" where
  "tree_ok t \<longleftrightarrow> (\<forall>p q. t q \<noteq> None \<longrightarrow> strict_prefix p q \<longrightarrow> t p = Some Directory)"

definition empty_below :: "path \<Rightarrow> tree \<Rightarrow> bool" where
  "empty_below p t \<longleftrightarrow> (\<forall>q. prefix p q \<longrightarrow> t q = None)"

lemma empty_belowI: "tree_ok t \<Longrightarrow> t p = None \<Longrightarrow> empty_below p t"
  unfolding empty_below_def tree_ok_def by (metis option.distinct(1) prefix_order.le_less)

definition only_removes :: "path list \<Rightarrow> tree \<Rightarrow> tree \<Rightarrow> bool" where
  "only_removes ps t t' \<longleftrightarrow> tree_ok t' \<and> (\<forall>q. t' q = t q \<or> t' q = None \<and> (\<exists>p \<in> set ps. prefix p q))"

lemma only_removes_refl: "tree_ok t \<Longrightarrow> only_removes ps t t"
  by (simp add: only_removes_def)

lemma only_removes_trans: "only_removes ps t t' \<Longrightarrow> only_removes qs t' t'' \<Longrightarrow> only_removes (ps @ qs) t t''"
  unfolding only_removes_def by (metis Un_iff set_append)

lemma only_removes_mono: "only_removes ps t t' \<Longrightarrow> set ps \<subseteq> set qs \<Longrightarrow> only_removes qs t t'"
  unfolding only_removes_def by blast

lemma empty_below_later: "only_removes ps t t' \<Longrightarrow> empty_below p t \<Longrightarrow> empty_below p t'"
  unfolding only_removes_def empty_below_def by metis

lemma tree_ok_filter:
  assumes "tree_ok t" and "\<And>a b. strict_prefix a b \<Longrightarrow> gone a \<Longrightarrow> gone b"
  shows "tree_ok (\<lambda>q. if gone q then None else t q)"
  unfolding tree_ok_def
proof (intro allI impI)
  fix a b assume b: "(if gone b then None else t b) \<noteq> None" and ab: "strict_prefix a b"
  then have "\<not> gone a" "t b \<noteq> None" using assms(2) by (auto split: if_splits)
  with ab show "(if gone a then None else t a) = Some Directory"
    using assms(1) unfolding tree_ok_def by simp
qed

lemma rmtree_removes:
  assumes "rmtree r p t = (done, t')" and "tree_ok t"
  shows "only_removes [p] t t'" and "done \<Longrightarrow> empty_below p t'"
proof -
  let ?gone = "\<lambda>q. prefix p q \<and> (case r of None \<Rightarrow> True | Some xs \<Rightarrow> \<not> list_ex (prefix q) xs)"
  have t': "t' = (\<lambda>q. if ?gone q then None else t q)"
    using assms(1) by (cases r) (auto simp: rmtree_def)
  have "?gone b" if "strict_prefix a b" "?gone a" for a b
    using that by (auto simp: list_ex_iff strict_prefix_def split: option.splits intro: prefix_order.trans)
  then have "tree_ok t'" unfolding t' by (rule tree_ok_filter [OF assms(2)])
  then show "only_removes [p] t t'" by (simp add: only_removes_def t')
  show "done \<Longrightarrow> empty_below p t'"
    using assms(1) by (auto simp: rmtree_def empty_below_def split: option.splits)
qed

lemma remove_job_directory_removes:
  assumes "remove_job_directory rm t = (r, t')" and "tree_ok t"
  shows "only_removes [[]] t t'" and "r \<noteq> None \<Longrightarrow> empty_below [] t'"
  using assms rmtree_removes [of "rm []" "[]" t] empty_belowI [OF assms(2), of "[]"] only_removes_refl [OF assms(2)]
  by (auto simp: remove_job_directory_def split: option.splits entry.splits prod.splits if_splits)

lemma remove_paths_removes:
  assumes "remove_paths rm ps t = (r, t')" and "tree_ok t"
  shows "only_removes ps t t'" and "r \<noteq> None \<Longrightarrow> \<forall>p \<in> set ps. empty_below p t'"
proof -
  have "only_removes ps t t' \<and> (r \<noteq> None \<longrightarrow> (\<forall>p \<in> set ps. empty_below p t'))"
    using assms
  proof (induction ps arbitrary: t t' r)
    case Nil
    then show ?case by (simp add: only_removes_refl)
  next
    case (Cons p ps)
    note refl = only_removes_refl [OF Cons.prems(2)]
    show ?case
    proof (cases "list_ex (\<lambda>q. t q = Some Link) (tl (prefixes p))")
      case True
      with Cons.prems(1) refl show ?thesis by simp
    next
      case nolink: False
      show ?thesis
      proof (cases "t p")
        case None
        with nolink Cons.prems have rest: "only_removes ps t t' \<and> (r \<noteq> None \<longrightarrow> (\<forall>p \<in> set ps. empty_below p t'))"
          by (intro Cons.IH) simp_all
        with empty_below_later [OF _ empty_belowI [OF Cons.prems(2) None]] show ?thesis
          by (auto intro: only_removes_mono)
      next
        case (Some e)
        show ?thesis
        proof (cases "e = Directory")
          case False
          with Some nolink Cons.prems(1) refl show ?thesis by (cases e) simp_all
        next
          case True
          obtain gone t1 where rm1: "rmtree (rm p) p t = (gone, t1)" by fastforce
          note first = rmtree_removes [OF rm1 Cons.prems(2)]
          obtain r2 t2 where rm2: "remove_paths rm ps t1 = (r2, t2)" by fastforce
          have "tree_ok t1" using first(1) by (simp add: only_removes_def)
          from Cons.IH [OF rm2 this] have rest: "only_removes ps t1 t2" "r2 \<noteq> None \<longrightarrow> (\<forall>p \<in> set ps. empty_below p t2)"
            by simp_all
          show ?thesis
          proof (cases gone)
            case False
            with Some True nolink rm1 Cons.prems(1) first(1) show ?thesis
              by (auto intro: only_removes_mono)
          next
            case gone: True
            have "t' = t2" "r \<noteq> None \<longrightarrow> r2 \<noteq> None"
              using Some True nolink rm1 rm2 gone Cons.prems(1) by (auto split: option.splits)
            with only_removes_trans [OF first(1) rest(1)] rest(2) empty_below_later [OF rest(1) first(2) [OF gone]]
            show ?thesis by auto
          qed
        qed
      qed
    qed
  qed
  then show "only_removes ps t t'" "r \<noteq> None \<Longrightarrow> \<forall>p \<in> set ps. empty_below p t'" by simp_all
qed

lemma remove_retention_tier_removes:
  assumes "remove_retention_tier rm x t = (r, t')" and "tree_ok t"
  shows "only_removes (tier_paths x) t t'" and "r \<noteq> None \<Longrightarrow> \<forall>p \<in> set (tier_paths x). empty_below p t'"
proof -
  have "empty_below p t" if "t [] = None" for p
    using empty_belowI [OF assms(2) that] by (auto simp: empty_below_def)
  then show "only_removes (tier_paths x) t t'" "r \<noteq> None \<Longrightarrow> \<forall>p \<in> set (tier_paths x). empty_below p t'"
    using assms remove_paths_removes [OF _ assms(2)] only_removes_refl [OF assms(2)]
    by (auto simp: remove_retention_tier_def split: option.splits entry.splits)
qed

section \<open>What the cleaners do\<close>

lemma cleanup_job_effect:
  obtains (Same) "snd (cleanup_job rm k now w) = w"
  | (Clean) j r t j' where "get_job k (ts_db w) = Some j" "job_status j \<in> cleanable_job_statuses"
      "job_storage_cleaned_at j = None" "remove_job_directory rm (ts_tree w k) = (r, t)"
      "snd (cleanup_job rm k now w) = put_task j' t w"
      "j' = (let j1 = j\<lparr>job_storage_cleanup_attempts := job_storage_cleanup_attempts j + 1,
            job_storage_cleanup_attempted_at := Some now, job_updated_at := now, job_version := job_version j + 1\<rparr>
         in if r = None then j1\<lparr>job_storage_cleanup_last_error := Some ''TASK_DIRECTORY_REMOVE_FAILED''\<rparr>
            else j1\<lparr>job_storage_cleaned_at := Some now, job_storage_released_at := Some now,
              job_storage_cleanup_last_error := None\<rparr>)"
  by (cases "snd (cleanup_job rm k now w) = w")
    (auto simp: cleanup_job_def Let_def split: option.splits if_splits prod.splits)


lemma cleanup_tier_effect:
  obtains (Same) "snd (cleanup_job_tier rm k x n now w) = w"
  | (Clean) j r t j' f where "get_job k (ts_db w) = Some j" "job_status j \<in> success_retention_statuses"
      "job_finished_at j = Some f" "f + days n \<le> now" "tier_cleaned_at x j = None"
      "remove_retention_tier rm x (ts_tree w k) = (r, t)"
      "snd (cleanup_job_tier rm k x n now w) = put_task j' t w"
      "j' = (let j1 = j\<lparr>job_retention_cleanup_attempts := job_retention_cleanup_attempts j + 1,
            job_retention_cleanup_attempted_at := Some now, job_updated_at := now, job_version := job_version j + 1\<rparr>
         in if r = None then j1\<lparr>job_retention_cleanup_last_error := Some (tier_error_code x)\<rparr>
            else tier_cleaned_job x now j1)"
proof (cases "snd (cleanup_job_tier rm k x n now w) = w")
  case True
  then show thesis by (rule Same)
next
  case False
  then have n: "1 \<le> n" "n \<le> 3650" by (auto simp: cleanup_job_tier_def split: if_splits)
  from False obtain j where j: "get_job k (ts_db w) = Some j"
    by (auto simp: cleanup_job_tier_def Let_def split: option.splits if_splits)
  let ?skip = "job_status j \<notin> success_retention_statuses \<or> \<not> finished_before (now - days n) j \<or> tier_cleaned_at x j \<noteq> None"
  have due: "\<not> ?skip" using False n j by (auto simp: cleanup_job_tier_def Let_def split: if_splits)
  then obtain f where f: "job_finished_at j = Some f" "f + days n \<le> now"
    by (auto simp: finished_before_def split: option.splits)
  obtain r t where rm: "remove_retention_tier rm x (ts_tree w k) = (r, t)" by fastforce
  have expire: "assert_transition SUCCEEDED EXPIRED = Inr ()"
    by (simp add: assert_transition_def can_transition_iff allowed_transitions_simps)
  from due f rm expire n j show thesis
    by (intro Clean [OF j _ f _ rm]) (auto simp: cleanup_job_tier_def Let_def split: option.splits)
qed

section \<open>The invariant\<close>

definition row_truthful :: "tree \<Rightarrow> reconstruction_job \<Rightarrow> bool" where
  "row_truthful t j \<longleftrightarrow>
     (job_storage_cleaned_at j \<noteq> None \<longrightarrow> empty_below [] t) \<and>
     (\<forall>x. tier_cleaned_at x j \<noteq> None \<longrightarrow> (\<forall>p \<in> set (tier_paths x). empty_below p t))"

definition data_inv :: "task_store \<Rightarrow> bool" where
  "data_inv w \<longleftrightarrow> queue_inv (ts_db w) \<and> (\<forall>k. tree_ok (ts_tree w k)) \<and>
     (\<forall>k j. get_job k (ts_db w) = Some j \<longrightarrow> row_truthful (ts_tree w k) j)"

text \<open>What a finished job keeps.\<close>

definition row_follows :: "reconstruction_job \<Rightarrow> reconstruction_job \<Rightarrow> bool" where
  "row_follows j j' \<longleftrightarrow> (job_status j \<in> terminal_statuses \<longrightarrow>
     job_finished_at j' = job_finished_at j \<and>
     (job_status j' = job_status j \<or> job_status j = SUCCEEDED \<and> job_status j' = EXPIRED))"

lemma row_follows_refl: "row_follows j j"
  by (simp add: row_follows_def)

definition due :: "data_call \<Rightarrow> uuid \<Rightarrow> path \<Rightarrow> database \<Rightarrow> bool" where
  "due call k p db \<longleftrightarrow> (\<exists>j. get_job k db = Some j \<and>
     (case call of
        Queue _ \<Rightarrow> False
      | Clean_failed rm i now \<Rightarrow> i = k \<and> job_status j \<in> cleanable_job_statuses
      | Clean_tier rm i x n now \<Rightarrow> i = k \<and> job_status j \<in> success_retention_statuses \<and>
          (\<exists>f. job_finished_at j = Some f \<and> f + days n \<le> now) \<and> (\<exists>q \<in> set (tier_paths x). prefix q p)))"

lemma put_job_absent: "get_job k db = None \<Longrightarrow> get_job k (put_job j db) = None"
  by (simp add: row_access_defs find_put)

text \<open>A job that appears in a call of the queue has nothing cleaned.\<close>

lemma new_job_clean:
  assumes inv: "queue_inv db" and absent: "get_job k db = None" and new: "get_job k (run_call call db) = Some j"
  shows "job_storage_cleaned_at j = None \<and> tier_cleaned_at x j = None"
proof (cases call)
  case (Enqueue q now)
  have "j = queued_job q now"
    using absent new unfolding Enqueue run_call.simps enqueue_snd
    by (auto simp: enqueue_in_session_def insert_job_def get_job_def split: option.splits if_splits)
  then show ?thesis by (cases x) (simp_all add: queued_job_def tier_cleaned_at_def)
next
  case (Ensure_resource r now)
  with absent new show ?thesis by (simp add: ensure_resource_jobs)
next
  case (Heartbeat c n now)
  with absent new show ?thesis by (simp add: heartbeat_jobs)
next
  case (Claim_next w r n m t locked now)
  obtain res db' where run: "claim_next w r n m t locked now db = (res, db')" by fastforce
  from inv this have "get_job k db' = None"
    by (cases rule: claim_next_cases) (simp_all add: absent put_job_absent)
  with new run show ?thesis by (simp add: Claim_next)
next
  case (Advance c t p e now)
  have "get_job k (snd (advance c t p e now db)) = None"
    by (cases rule: advance_effect [of c t p e now db]) (simp_all add: absent put_job_absent)
  with new show ?thesis by (simp add: Advance)
next
  case (Update_progress c n now)
  have "get_job k (snd (update_progress c n now db)) = None"
    by (cases rule: update_progress_effect [of c n now db]) (simp_all add: absent put_job_absent)
  with new show ?thesis by (simp add: Update_progress)
next
  case (Request_cancel i u audit ev now)
  have "get_job k (snd (request_cancel i u audit ev now db)) = None"
    by (auto simp: request_cancel_def Let_def absent put_job_absent split: option.split)
  with new show ?thesis by (simp add: Request_cancel)
qed

section \<open>Steps\<close>

lemma row_truthful_later: "only_removes ps t t' \<Longrightarrow> row_truthful t j \<Longrightarrow> row_truthful t' j"
  unfolding row_truthful_def using empty_below_later by blast

lemma put_task_step:
  assumes inv: "data_inv w" and job: "get_job k (ts_db w) = Some j"
    and j': "job_id j' = k" "job_consistent j'" "job_idempotency_key j' = job_idempotency_key j"
    and dead: "job_status j \<notin> running_statuses" "job_status j' \<notin> running_statuses"
    and t: "only_removes ps (ts_tree w k) t" "row_truthful t j'"
  shows "data_inv (put_task j' t w)" and "get_job i (ts_db (put_task j' t w)) = (if i = k then Some j' else get_job i (ts_db w))"
proof -
  show get: "get_job i (ts_db (put_task j' t w)) = (if i = k then Some j' else get_job i (ts_db w))" for i
    using j'(1) job by (simp add: put_task_def job_rows.get_put job_rows.get_put_other)
  have "queue_inv (put_job j' (ts_db w))"
    using inv job j' dead by (intro queue_inv_put_job [of _ j' j]) (simp_all add: data_inv_def)
  then show "data_inv (put_task j' t w)"
    using inv t get j'(1) by (auto simp: data_inv_def put_task_def only_removes_def)
qed

lemma queue_call_step:
  assumes inv: "data_inv w"
  shows "data_inv (run_data (Queue call) w)"
    and "get_job k (ts_db w) = Some j \<Longrightarrow> \<exists>j'. get_job k (ts_db (run_data (Queue call) w)) = Some j' \<and> row_follows j j'"
proof -
  have q: "queue_inv (ts_db w)" using inv by (simp add: data_inv_def)
  have later: "jobs_later (ts_db w) (run_call call (ts_db w))"
    by (rule queue_step_later [OF run_call_step q])
  have "row_truthful (ts_tree w k) j'" if new: "get_job k (run_call call (ts_db w)) = Some j'" for k j'
  proof (cases "get_job k (ts_db w)")
    case None
    with new_job_clean [OF q None new] show ?thesis by (simp add: row_truthful_def)
  next
    case (Some j)
    with later new have "job_later j j'" unfolding jobs_later_def by fastforce
    then have "tier_cleaned_at x j' = tier_cleaned_at x j" "job_storage_cleaned_at j' = job_storage_cleaned_at j" for x
      by (cases x; simp add: job_later_def tier_cleaned_at_def)+
    with inv Some show ?thesis by (auto simp: data_inv_def row_truthful_def)
  qed
  then show "data_inv (run_data (Queue call) w)"
    using inv queue_step_inv [OF run_call_step q] by (simp add: data_inv_def)
  show "\<exists>j'. get_job k (ts_db (run_data (Queue call) w)) = Some j' \<and> row_follows j j'" if "get_job k (ts_db w) = Some j"
    using later that by (fastforce simp: jobs_later_def job_later_def row_follows_def)
qed

lemma cleanable_facts:
  "cleanable_job_statuses \<subseteq> terminal_statuses" "success_retention_statuses \<subseteq> terminal_statuses"
  "s \<in> terminal_statuses \<Longrightarrow> s \<notin> running_statuses"
  by (auto simp: cleanable_job_statuses_def success_retention_statuses_def terminal_statuses_def running_statuses_def)

lemma failed_cleanup_step:
  fixes rm k now
  assumes inv: "data_inv w"
  defines "w' \<equiv> run_data (Clean_failed rm k now) w"
  shows "data_inv w'"
    and "get_job i (ts_db w) = Some j \<Longrightarrow> \<exists>j'. get_job i (ts_db w') = Some j' \<and> row_follows j j'"
    and "ts_tree w' i p \<noteq> ts_tree w i p \<Longrightarrow> ts_tree w' i p = None \<and> due (Clean_failed rm k now) i p (ts_db w')"
proof -
  have "data_inv w' \<and> (\<forall>j. get_job i (ts_db w) = Some j \<longrightarrow> (\<exists>j'. get_job i (ts_db w') = Some j' \<and> row_follows j j')) \<and>
      (ts_tree w' i p \<noteq> ts_tree w i p \<longrightarrow> ts_tree w' i p = None \<and> due (Clean_failed rm k now) i p (ts_db w'))"
  proof (cases rule: cleanup_job_effect [of rm k now w])
    case Same
    with inv show ?thesis by (simp add: w'_def row_follows_def)
  next
    case (Clean j r t j')
    have t: "only_removes [[]] (ts_tree w k) t" "r \<noteq> None \<longrightarrow> empty_below [] t"
      using remove_job_directory_removes [OF Clean(4)] inv by (simp_all add: data_inv_def)
    have k: "job_id j = k" using Clean(1) by (rule job_rows.get_key)
    have ok: "job_consistent j" using queue_inv_get_job [OF _ Clean(1)] inv by (simp add: data_inv_def)
    have truth: "row_truthful t j" using inv Clean(1) t(1) row_truthful_later by (auto simp: data_inv_def)
    have fields: "job_id j' = k" "job_idempotency_key j' = job_idempotency_key j" "job_status j' = job_status j"
      "job_finished_at j' = job_finished_at j" "tier_cleaned_at x j' = tier_cleaned_at x j" for x
      using k by (cases x; simp add: Clean(6) Let_def tier_cleaned_at_def)+
    have "job_consistent j'"
      using ok Clean(2,3) unfolding Clean(6) Let_def
      by (auto simp: job_consistent_def reconstruction_job_row_ok_def cleanable_job_statuses_def)
    moreover have "row_truthful t j'"
    proof -
      have "job_storage_cleaned_at j' \<noteq> None \<longrightarrow> r \<noteq> None" using Clean(3) by (simp add: Clean(6) Let_def)
      with t(2) truth show ?thesis by (auto simp: row_truthful_def fields)
    qed
    moreover have "job_status j \<notin> running_statuses" using Clean(2) cleanable_facts by blast
    ultimately have step: "data_inv (put_task j' t w)"
        "get_job i (ts_db (put_task j' t w)) = (if i = k then Some j' else get_job i (ts_db w))" for i
      using put_task_step [OF inv Clean(1) fields(1) _ fields(2), of "[[]]" t] t(1) fields(3) by simp_all
    have w': "w' = put_task j' t w" by (simp add: w'_def Clean(5))
    have tree: "ts_tree w' i p = (if i = k then t p else ts_tree w i p)" by (simp add: w' put_task_def fields)
    show ?thesis
      using step Clean(1,2) fields t(1)
      by (auto simp: tree row_follows_def due_def only_removes_def) (auto simp: w')
  qed
  then show "data_inv w'"
    and "get_job i (ts_db w) = Some j \<Longrightarrow> \<exists>j'. get_job i (ts_db w') = Some j' \<and> row_follows j j'"
    and "ts_tree w' i p \<noteq> ts_tree w i p \<Longrightarrow> ts_tree w' i p = None \<and> due (Clean_failed rm k now) i p (ts_db w')"
    by blast+
qed

lemma tier_cleaned_eq:
  "tier_cleaned_job x now j = j\<lparr>
     job_status := (if x = Tier_artifacts \<and> job_status j = SUCCEEDED then EXPIRED else job_status j),
     job_input_cleaned_at := (if x = Tier_input then Some now else job_input_cleaned_at j),
     job_runtime_cleaned_at := (if x = Tier_runtime then Some now else job_runtime_cleaned_at j),
     job_artifacts_cleaned_at := (if x = Tier_artifacts then Some now else job_artifacts_cleaned_at j),
     job_storage_released_at :=
       (if (x = Tier_input \<or> job_input_cleaned_at j \<noteq> None) \<and> (x = Tier_runtime \<or> job_runtime_cleaned_at j \<noteq> None) \<and>
           (x = Tier_artifacts \<or> job_artifacts_cleaned_at j \<noteq> None)
        then Some now else job_storage_released_at j),
     job_retention_cleanup_last_error := (if job_retention_cleanup_last_error j = Some (tier_error_code x) then None
       else job_retention_cleanup_last_error j)\<rparr>"
  by (cases j rule: reconstruction_job.cases)
    (cases x; simp add: tier_cleaned_job_def set_tier_cleaned_at_def Let_def)

lemma tier_cleaned_fields:
  "job_id (tier_cleaned_job x now j) = job_id j"
  "job_idempotency_key (tier_cleaned_job x now j) = job_idempotency_key j"
  "job_finished_at (tier_cleaned_job x now j) = job_finished_at j"
  "job_status (tier_cleaned_job x now j) = (if x = Tier_artifacts \<and> job_status j = SUCCEEDED then EXPIRED else job_status j)"
  "job_storage_cleaned_at (tier_cleaned_job x now j) = job_storage_cleaned_at j"
  "tier_cleaned_at y (tier_cleaned_job x now j) = (if y = x then Some now else tier_cleaned_at y j)"
  by (simp_all add: tier_cleaned_eq) (cases x; cases y; simp add: tier_cleaned_at_def)

lemma tier_cleaned_columns:
  "job_execution_mode (tier_cleaned_job x now j) = job_execution_mode j"
  "job_progress (tier_cleaned_job x now j) = job_progress j"
  "job_attempt (tier_cleaned_job x now j) = job_attempt j"
  "job_storage_reserved_bytes (tier_cleaned_job x now j) = job_storage_reserved_bytes j"
  "job_storage_cleanup_attempts (tier_cleaned_job x now j) = job_storage_cleanup_attempts j"
  "job_storage_cleanup_last_error (tier_cleaned_job x now j) = job_storage_cleanup_last_error j"
  "job_retention_cleanup_attempts (tier_cleaned_job x now j) = job_retention_cleanup_attempts j"
  "job_started_at (tier_cleaned_job x now j) = job_started_at j"
  "job_error_code (tier_cleaned_job x now j) = job_error_code j"
  "job_input_cleaned_at (tier_cleaned_job x now j) = (if x = Tier_input then Some now else job_input_cleaned_at j)"
  "job_runtime_cleaned_at (tier_cleaned_job x now j) = (if x = Tier_runtime then Some now else job_runtime_cleaned_at j)"
  "job_artifacts_cleaned_at (tier_cleaned_job x now j) = (if x = Tier_artifacts then Some now else job_artifacts_cleaned_at j)"
  "job_storage_released_at (tier_cleaned_job x now j) =
     (if (x = Tier_input \<or> job_input_cleaned_at j \<noteq> None) \<and> (x = Tier_runtime \<or> job_runtime_cleaned_at j \<noteq> None) \<and>
         (x = Tier_artifacts \<or> job_artifacts_cleaned_at j \<noteq> None)
      then Some now else job_storage_released_at j)"
  by (simp_all add: tier_cleaned_eq)

lemma tier_cleaned_consistent:
  assumes "job_consistent j" and "job_status j \<in> success_retention_statuses"
  shows "job_consistent (tier_cleaned_job x now j)"
proof -
  have s: "job_status j = SUCCEEDED \<or> job_status j = EXPIRED" using assms(2) by (simp add: success_retention_statuses_def)
  then have "job_finished_at j \<noteq> None" "job_progress j = 100" "job_error_code j = None"
    and ok: "reconstruction_job_row_ok j"
    using assms(1) by (auto simp: job_consistent_def terminal_statuses_def failure_statuses_def)
  moreover have "reconstruction_job_row_ok (tier_cleaned_job x now j)"
  proof -
    have none: "job_storage_cleaned_at j = None" using ok s by (auto simp: reconstruction_job_row_ok_def)
    have released: "job_storage_released_at j = None \<or> job_input_cleaned_at j \<noteq> None \<and>
        job_runtime_cleaned_at j \<noteq> None \<and> job_artifacts_cleaned_at j \<noteq> None"
      and artifacts: "job_artifacts_cleaned_at j = None \<or> job_status j = EXPIRED"
      and rest: "job_execution_mode j \<in> {''simulated'', ''real''}" "0 \<le> job_progress j \<and> job_progress j \<le> 100"
        "1 \<le> job_attempt j" "0 \<le> job_storage_reserved_bytes j" "0 \<le> job_storage_cleanup_attempts j"
        "0 \<le> job_retention_cleanup_attempts j"
      using ok none unfolding reconstruction_job_row_ok_def by simp_all
    have status: "job_status (tier_cleaned_job x now j) \<in> {SUCCEEDED, EXPIRED}"
        "job_artifacts_cleaned_at (tier_cleaned_job x now j) = None \<or> job_status (tier_cleaned_job x now j) = EXPIRED"
      using s artifacts by (auto simp: tier_cleaned_eq)
    have "job_storage_released_at (tier_cleaned_job x now j) = None \<or> job_input_cleaned_at (tier_cleaned_job x now j) \<noteq> None \<and>
        job_runtime_cleaned_at (tier_cleaned_job x now j) \<noteq> None \<and> job_artifacts_cleaned_at (tier_cleaned_job x now j) \<noteq> None"
      using released by (auto simp: tier_cleaned_eq)
    with rest status none show ?thesis
      unfolding reconstruction_job_row_ok_def
      by (simp add: tier_cleaned_columns(1-7) tier_cleaned_fields(5))
  qed
  ultimately show ?thesis
    using s by (auto simp: job_consistent_def tier_cleaned_fields tier_cleaned_columns terminal_statuses_def
        running_statuses_def failure_statuses_def)
qed

lemma tier_cleanup_step:
  fixes rm k x n now
  assumes inv: "data_inv w"
  defines "w' \<equiv> run_data (Clean_tier rm k x n now) w"
  shows "data_inv w'"
    and "get_job i (ts_db w) = Some j \<Longrightarrow> \<exists>j'. get_job i (ts_db w') = Some j' \<and> row_follows j j'"
    and "ts_tree w' i p \<noteq> ts_tree w i p \<Longrightarrow> ts_tree w' i p = None \<and> due (Clean_tier rm k x n now) i p (ts_db w')"
proof -
  have "data_inv w' \<and> (\<forall>j. get_job i (ts_db w) = Some j \<longrightarrow> (\<exists>j'. get_job i (ts_db w') = Some j' \<and> row_follows j j')) \<and>
      (ts_tree w' i p \<noteq> ts_tree w i p \<longrightarrow> ts_tree w' i p = None \<and> due (Clean_tier rm k x n now) i p (ts_db w'))"
  proof (cases rule: cleanup_tier_effect [of rm k x n now w])
    case Same
    with inv show ?thesis by (simp add: w'_def row_follows_def)
  next
    case (Clean j r t j' f)
    let ?j1 = "j\<lparr>job_retention_cleanup_attempts := job_retention_cleanup_attempts j + 1,
      job_retention_cleanup_attempted_at := Some now, job_updated_at := now, job_version := job_version j + 1\<rparr>"
    have t: "only_removes (tier_paths x) (ts_tree w k) t" "r \<noteq> None \<longrightarrow> (\<forall>p \<in> set (tier_paths x). empty_below p t)"
      using remove_retention_tier_removes [OF Clean(6)] inv by (simp_all add: data_inv_def)
    have k: "job_id j = k" using Clean(1) by (rule job_rows.get_key)
    have ok: "job_consistent j" using queue_inv_get_job [OF _ Clean(1)] inv by (simp add: data_inv_def)
    have truth: "row_truthful t j" using inv Clean(1) t(1) row_truthful_later by (auto simp: data_inv_def)
    have same: "tier_cleaned_at y ?j1 = tier_cleaned_at y j" for y by (cases y) (simp_all add: tier_cleaned_at_def)
    have same_error: "tier_cleaned_at y (?j1\<lparr>job_retention_cleanup_last_error := e\<rparr>) = tier_cleaned_at y j" for y e
      by (cases y) (simp_all add: tier_cleaned_at_def)
    have fields: "job_id j' = k" "job_idempotency_key j' = job_idempotency_key j"
      "job_status j' = job_status j \<or> job_status j = SUCCEEDED \<and> job_status j' = EXPIRED"
      "job_finished_at j' = job_finished_at j" "job_storage_cleaned_at j' = job_storage_cleaned_at j"
      using k by (simp_all add: Clean(8) Let_def tier_cleaned_fields)
    have tiers: "tier_cleaned_at y j' = (if r \<noteq> None \<and> y = x then Some now else tier_cleaned_at y j)" for y
      using same by (cases r) (auto simp: Clean(8) Let_def tier_cleaned_fields same_error)
    have "job_consistent ?j1"
      using ok by (auto simp: job_consistent_def reconstruction_job_row_ok_def)
    then have "job_consistent j'"
      using Clean(2) unfolding Clean(8) Let_def
      by (auto intro: tier_cleaned_consistent) (auto simp: job_consistent_def reconstruction_job_row_ok_def)
    moreover have "row_truthful t j'"
      using truth t(2) by (auto simp: row_truthful_def fields tiers)
    moreover have status: "job_status j' \<in> success_retention_statuses"
      using Clean(2) fields(3) by (auto simp: success_retention_statuses_def)
    moreover have "job_status j \<notin> running_statuses" "job_status j' \<notin> running_statuses"
      using Clean(2) status cleanable_facts by blast+
    ultimately have step: "data_inv (put_task j' t w)"
        "get_job i (ts_db (put_task j' t w)) = (if i = k then Some j' else get_job i (ts_db w))" for i
      using put_task_step [OF inv Clean(1) fields(1) _ fields(2), of "tier_paths x" t] t(1) by simp_all
    have w': "w' = put_task j' t w" by (simp add: w'_def Clean(7))
    have tree: "ts_tree w' i p = (if i = k then t p else ts_tree w i p)" by (simp add: w' put_task_def fields)
    have "row_follows j j'" using fields(3,4) by (auto simp: row_follows_def)
    moreover have "due (Clean_tier rm k x n now) k p (ts_db w')" if "\<exists>q \<in> set (tier_paths x). prefix q p"
      unfolding due_def using step(2) [of k] status Clean(3,4) fields(4) that by (simp add: w')
    ultimately show ?thesis
      using step Clean(1) t(1) by (auto simp: tree only_removes_def row_follows_refl) (auto simp: w' row_follows_refl)
  qed
  then show "data_inv w'"
    and "get_job i (ts_db w) = Some j \<Longrightarrow> \<exists>j'. get_job i (ts_db w') = Some j' \<and> row_follows j j'"
    and "ts_tree w' i p \<noteq> ts_tree w i p \<Longrightarrow> ts_tree w' i p = None \<and> due (Clean_tier rm k x n now) i p (ts_db w')"
    by blast+
qed

lemma run_data_step:
  assumes "data_inv w"
  shows "data_inv (run_data call w)"
    and "get_job k (ts_db w) = Some j \<Longrightarrow> \<exists>j'. get_job k (ts_db (run_data call w)) = Some j' \<and> row_follows j j'"
    and "ts_tree (run_data call w) k p \<noteq> ts_tree w k p \<Longrightarrow>
      ts_tree (run_data call w) k p = None \<and> due call k p (ts_db (run_data call w))"
proof -
  show "data_inv (run_data call w)"
    by (cases call) (use queue_call_step(1) failed_cleanup_step(1) tier_cleanup_step(1) assms in metis)+
  show "\<exists>j'. get_job k (ts_db (run_data call w)) = Some j' \<and> row_follows j j'" if "get_job k (ts_db w) = Some j"
    by (cases call) (use queue_call_step(2) failed_cleanup_step(2) tier_cleanup_step(2) assms that in metis)+
  show "ts_tree (run_data call w) k p = None \<and> due call k p (ts_db (run_data call w))"
    if "ts_tree (run_data call w) k p \<noteq> ts_tree w k p"
  proof (cases call)
    case (Queue c)
    with that show ?thesis by simp
  next
    case (Clean_failed rm i now)
    with failed_cleanup_step(3) [OF assms] that show ?thesis by metis
  next
    case (Clean_tier rm i x n now)
    with tier_cleanup_step(3) [OF assms] that show ?thesis by metis
  qed
qed

lemma due_later:
  assumes "due call k p db" and "\<And>j. get_job k db = Some j \<Longrightarrow> \<exists>j'. get_job k db' = Some j' \<and> row_follows j j'"
  shows "due call k p db'"
proof -
  obtain j where j: "get_job k db = Some j" and d: "case call of
        Queue _ \<Rightarrow> False
      | Clean_failed rm i now \<Rightarrow> i = k \<and> job_status j \<in> cleanable_job_statuses
      | Clean_tier rm i x n now \<Rightarrow> i = k \<and> job_status j \<in> success_retention_statuses \<and>
          (\<exists>f. job_finished_at j = Some f \<and> f + days n \<le> now) \<and> (\<exists>q \<in> set (tier_paths x). prefix q p)"
    using assms(1) by (auto simp: due_def)
  obtain j' where j': "get_job k db' = Some j'" "row_follows j j'" using assms(2) [OF j] by blast
  have "job_status j \<in> terminal_statuses" using d cleanable_facts by (cases call) auto
  with j'(2) have "job_finished_at j' = job_finished_at j"
      "job_status j' = job_status j \<or> job_status j = SUCCEEDED \<and> job_status j' = EXPIRED"
    by (simp_all add: row_follows_def)
  with d j'(1) show ?thesis
    by (cases call) (auto simp: due_def cleanable_job_statuses_def success_retention_statuses_def)
qed

interpretation task_data: invariant_system data_inv "\<lambda>w w'. \<exists>call. w' = run_data call w" data_inv
  by unfold_locales (auto intro: run_data_step(1))

lemma run_all_steps: "(\<lambda>w w'. \<exists>call. w' = run_data call w)\<^sup>*\<^sup>* w (run_all_data calls w)"
proof (induction calls arbitrary: w)
  case (Cons call calls)
  have "(\<exists>c. run_data call w = run_data c w)" by blast
  with Cons show ?case by (simp add: run_all_data_def converse_rtranclp_into_rtranclp)
qed (simp add: run_all_data_def)

text \<open>
  C21. Only data that is due is removed: in every interleaving of the queue's calls with the cleaners, an
  entry of a task directory stays as it is unless the job failed or was cancelled and its cleanup was
  called, or the job succeeded, the entry is in a tier, and a cleanup of this tier was called when the
  job had been finished for the days of the tier. And the columns tell the truth: below what a row
  says was cleaned, nothing is left.
\<close>

theorem only_due_data_is_removed:
  assumes "data_inv w"
  shows "(ts_tree (run_all_data calls w) k p = ts_tree w k p \<or> ts_tree (run_all_data calls w) k p = None \<and>
      (\<exists>j. get_job k (ts_db (run_all_data calls w)) = Some j \<and>
        ((\<exists>rm now. Clean_failed rm k now \<in> set calls) \<and>
           job_status j \<in> {FAILED_INPUT, FAILED_PIPELINE, FAILED_EVALUATION, CANCELLED} \<or>
         (\<exists>rm x n now f. Clean_tier rm k x n now \<in> set calls \<and> job_status j \<in> {SUCCEEDED, EXPIRED} \<and>
            job_finished_at j = Some f \<and> f + days n \<le> now \<and> (\<exists>q \<in> set (tier_paths x). prefix q p))))) \<and>
    (\<forall>j. get_job k (ts_db (run_all_data calls w)) = Some j \<longrightarrow>
      (job_storage_cleaned_at j \<noteq> None \<longrightarrow> ts_tree (run_all_data calls w) k p = None) \<and>
      (\<forall>x. tier_cleaned_at x j \<noteq> None \<and> (\<exists>q \<in> set (tier_paths x). prefix q p) \<longrightarrow>
         ts_tree (run_all_data calls w) k p = None))"
proof (intro conjI)
  let ?w = "run_all_data calls w"
  have inv: "data_inv ?w" by (rule task_data.steps_inv [OF run_all_steps assms])
  show "\<forall>j. get_job k (ts_db ?w) = Some j \<longrightarrow> (job_storage_cleaned_at j \<noteq> None \<longrightarrow> ts_tree ?w k p = None) \<and>
      (\<forall>x. tier_cleaned_at x j \<noteq> None \<and> (\<exists>q \<in> set (tier_paths x). prefix q p) \<longrightarrow> ts_tree ?w k p = None)"
    using inv unfolding data_inv_def row_truthful_def empty_below_def by (meson Nil_prefix)
  have "ts_tree ?w k p = ts_tree w k p \<or> ts_tree ?w k p = None \<and> (\<exists>call \<in> set calls. due call k p (ts_db ?w))"
  proof (induction calls rule: rev_induct)
    case (snoc call calls)
    let ?v = "run_all_data calls w"
    have step: "run_all_data (calls @ [call]) w = run_data call ?v" by (simp add: run_all_data_def)
    have "data_inv ?v" by (rule task_data.steps_inv [OF run_all_steps assms])
    note next_step = run_data_step [OF this, where call = call]
    show ?case
    proof (cases "ts_tree (run_data call ?v) k p = ts_tree ?v k p")
      case True
      have "due c k p (ts_db ?v) \<Longrightarrow> due c k p (ts_db (run_data call ?v))" for c
        by (rule due_later) (use next_step(2) in blast)+
      with True snoc show ?thesis unfolding step by auto
    next
      case False
      with next_step(3) show ?thesis unfolding step by auto
    qed
  qed (simp add: run_all_data_def)
  then show "ts_tree ?w k p = ts_tree w k p \<or> ts_tree ?w k p = None \<and>
      (\<exists>j. get_job k (ts_db ?w) = Some j \<and>
        ((\<exists>rm now. Clean_failed rm k now \<in> set calls) \<and>
           job_status j \<in> {FAILED_INPUT, FAILED_PIPELINE, FAILED_EVALUATION, CANCELLED} \<or>
         (\<exists>rm x n now f. Clean_tier rm k x n now \<in> set calls \<and> job_status j \<in> {SUCCEEDED, EXPIRED} \<and>
            job_finished_at j = Some f \<and> f + days n \<le> now \<and> (\<exists>q \<in> set (tier_paths x). prefix q p))))"
  proof (elim disjE conjE bexE)
    fix call assume "ts_tree ?w k p = None" "call \<in> set calls" "due call k p (ts_db ?w)"
    then show ?thesis
      by (cases call) (auto simp: due_def cleanable_job_statuses_def success_retention_statuses_def)
  qed simp
qed

definition demo_store :: task_store where
  "demo_store = \<lparr>ts_db = demo_init\<lparr>db_jobs :=
       [(demo_job 8 (CHR ''2'') 5 20)\<lparr>job_status := CANCELLED, job_finished_at := Some 30\<rparr>]\<rparr>,
     ts_tree = (\<lambda>k. [[] \<mapsto> Directory, [''output''] \<mapsto> Directory])\<rparr>"

lemma demo_job_columns:
  "job_storage_cleaned_at (demo_job k d p now) = None" "job_input_cleaned_at (demo_job k d p now) = None"
  "job_runtime_cleaned_at (demo_job k d p now) = None" "job_artifacts_cleaned_at (demo_job k d p now) = None"
  "job_error_code (demo_job k d p now) = None" "job_storage_released_at (demo_job k d p now) = None"
  "job_attempt (demo_job k d p now) = 1" "0 \<le> job_storage_reserved_bytes (demo_job k d p now)"
  "job_storage_cleanup_attempts (demo_job k d p now) = 0" "job_retention_cleanup_attempts (demo_job k d p now) = 0"
  by (simp_all add: demo_job_def queued_job_def demo_request_def)

theorem only_due_data_is_removed_witness:
  "(\<exists>j. get_job 8 (ts_db (run_all_data [Clean_failed (\<lambda>_. None) 8 40] demo_store)) = Some j \<and>
      job_storage_cleaned_at j = Some 40) \<and>
   ts_tree (run_all_data [Clean_failed (\<lambda>_. None) 8 40] demo_store) 8 [''output''] = None"
proof -
  let ?w = "run_all_data [Clean_failed (\<lambda>_. None) 8 40] demo_store"
  have "tree_ok (ts_tree demo_store k)" for k
    by (auto simp: tree_ok_def demo_store_def strict_prefix_def prefix_Cons split: if_splits)
  moreover have "row_truthful (ts_tree demo_store k) j" if "get_job k (ts_db demo_store) = Some j" for k j
  proof -
    have "tier_cleaned_at x j = None" "job_storage_cleaned_at j = None" for x
      using that by (cases x; auto simp: demo_store_def get_job_def tier_cleaned_at_def demo_job_columns split: if_splits)+
    then show ?thesis by (simp add: row_truthful_def)
  qed
  moreover have "queue_inv (ts_db demo_store)"
    by (simp add: queue_inv_def demo_store_def lease_relation_def is_running_def holds_job_def get_job_def
        get_lease_def job_consistent_def reconstruction_job_row_ok_def demo_job_columns running_statuses_def
        terminal_statuses_def failure_statuses_def)
  ultimately have inv: "data_inv demo_store" by (auto simp: data_inv_def)
  have run: "\<exists>j. get_job 8 (ts_db ?w) = Some j \<and> job_storage_cleaned_at j = Some 40"
    by (simp add: run_all_data_def cleanup_job_def demo_store_def get_job_def put_job_def put_task_def demo_job_columns
        cleanable_job_statuses_def remove_job_directory_def rmtree_def Let_def)
  with only_due_data_is_removed [OF inv, of "[Clean_failed (\<lambda>_. None) 8 40]" 8 "[''output'']"] show ?thesis by auto
qed

section \<open>Audited runs\<close>

lemma cleanup_job_tier_runs:
  "db_retention_runs (ts_db (snd (cleanup_job_tier rm k x n now w))) = db_retention_runs (ts_db w)"
  by (cases rule: cleanup_tier_effect [of rm k x n now w]) (simp_all add: put_task_def put_job_def)

lemma cleanup_tier_each_runs:
  assumes "\<And>k v. db_retention_runs (ts_db (snd (clean k v))) = db_retention_runs (ts_db v)"
  shows "db_retention_runs (ts_db (snd (cleanup_tier_each clean ks w))) = db_retention_runs (ts_db w)"
proof (induction ks arbitrary: w)
  case (Cons k ks)
  obtain r v where c: "clean k w = (r, v)" by fastforce
  have "db_retention_runs (ts_db v) = db_retention_runs (ts_db w)" using assms [of k w] c by simp
  moreover obtain rs u where "cleanup_tier_each clean ks v = (rs, u)" by fastforce
  ultimately show ?case using Cons [of v] c by (cases r; cases rs) simp_all
qed simp

lemma cleanup_due_tier_runs:
  "db_retention_runs (ts_db (snd (cleanup_due_tier s rm execute now limit x w))) = db_retention_runs (ts_db w)"
proof (cases "retention_days s x")
  case (Some n)
  let ?each = "cleanup_tier_each (\<lambda>k. cleanup_job_tier (rm k) k x n now)
      (tier_candidate_ids x (now - days n) limit (ts_db w)) w"
  have "db_retention_runs (ts_db (snd ?each)) = db_retention_runs (ts_db w)"
    by (rule cleanup_tier_each_runs [OF cleanup_job_tier_runs])
  moreover obtain rs v where "?each = (rs, v)" by fastforce
  ultimately show ?thesis
    by (cases rs; cases execute) (simp_all add: cleanup_due_tier_def Some Let_def)
qed (simp add: cleanup_due_tier_def)

lemma cleanup_due_tiers_runs:
  "db_retention_runs (ts_db (snd (cleanup_due_tiers s rm execute now limit xs w))) = db_retention_runs (ts_db w)"
proof (induction xs arbitrary: w)
  case (Cons x xs)
  obtain r v where c: "cleanup_due_tier s rm execute now limit x w = (r, v)" by fastforce
  have "db_retention_runs (ts_db v) = db_retention_runs (ts_db w)"
    using cleanup_due_tier_runs [of s rm execute now limit x w] c by simp
  moreover obtain rs u where "cleanup_due_tiers s rm execute now limit xs v = (rs, u)" by fastforce
  ultimately show ?case using Cons [of v] c by (cases r; cases rs) simp_all
qed simp

lemma dry_run_tiers:
  "snd (cleanup_due_tiers s rm False now limit xs w) = w \<and> \<not> isl (fst (cleanup_due_tiers s rm False now limit xs w))"
proof (induction xs)
  case (Cons x xs)
  obtain rs u where "cleanup_due_tiers s rm False now limit xs w = (rs, u)" by fastforce
  with Cons show ?case
    by (cases rs; cases "retention_days s x") (simp_all add: cleanup_due_tier_def Let_def)
qed simp

lemma cleanup_due_jobs_frame:
  assumes "cleanup_due_jobs s rm execute now limit w = (r, w')"
  shows "db_retention_runs (ts_db w') = db_retention_runs (ts_db w)" and "\<not> execute \<Longrightarrow> w' = w"
proof -
  let ?n = "case limit of None \<Rightarrow> rts_cleanup_batch_size s | Some n \<Rightarrow> n"
    and ?tiers = "[Tier_input, Tier_runtime, Tier_artifacts]"
  obtain rs u where u: "cleanup_due_tiers s rm execute now ?n ?tiers w = (rs, u)" by fastforce
  have "w' = w \<or> w' = u"
    using assms unfolding cleanup_due_jobs_def Let_def u by (cases rs) (auto split: if_splits)
  moreover have "db_retention_runs (ts_db u) = db_retention_runs (ts_db w)"
    using cleanup_due_tiers_runs [of s rm execute now ?n ?tiers w] unfolding u by simp
  moreover have "u = w" if "\<not> execute"
    using dry_run_tiers [of s rm now ?n ?tiers w] u that by (simp del: cleanup_due_tiers.simps)
  ultimately show "db_retention_runs (ts_db w') = db_retention_runs (ts_db w)" "\<not> execute \<Longrightarrow> w' = w" by auto
qed

lemma dry_run_reports:
  assumes "1 \<le> n" and "n \<le> 1000"
  shows "\<not> isl (fst (cleanup_due_jobs s rm False now (Some n) w))"
proof -
  obtain rs u where "cleanup_due_tiers s rm False now n [Tier_input, Tier_runtime, Tier_artifacts] w = (rs, u)"
    by fastforce
  with dry_run_tiers [of s rm now n "[Tier_input, Tier_runtime, Tier_artifacts]" w] assms show ?thesis
    by (cases rs) (simp_all add: cleanup_due_jobs_def del: cleanup_due_tiers.simps)
qed

text \<open>
  Every accepted run is audited: exactly one row is added, it satisfies the constraints of its table
  and is closed, it holds the report when the run returns one and an error code when the run raises,
  and a dry run changes neither a job nor a file.
\<close>

theorem retention_run_is_audited:
  assumes "retention_settings_error s = None" and "trigger \<in> {''manual'', ''scheduled''}"
    and "limit = None \<or> limit = Some n \<and> 1 \<le> n \<and> n \<le> 1000"
    and "\<forall>r \<in> set (db_retention_runs (ts_db w)). srr_id r \<noteq> run_id"
    and "retention_run s rm execute trigger limit run_id t0 t1 w = (res, w')"
  shows "\<exists>row. db_retention_runs (ts_db w') = db_retention_runs (ts_db w) @ [row] \<and> srr_id row = run_id \<and>
      success_retention_run_row_ok row \<and> srr_started_at row = t0 \<and> srr_finished_at row = Some t1 \<and>
      (case res of Inr report \<Rightarrow> srr_status row = Run_succeeded \<and> srr_report row = Some report
       | Inl e \<Rightarrow> srr_status row = Run_failed \<and> srr_error_code row = Some ''SUCCESS_RETENTION_RUN_FAILED'') \<and>
      (\<not> execute \<longrightarrow> ts_tree w' = ts_tree w \<and> db_jobs (ts_db w') = db_jobs (ts_db w) \<and> \<not> isl res)"
proof -
  let ?batch = "case limit of None \<Rightarrow> rts_cleanup_batch_size s | Some n \<Rightarrow> n"
  let ?row = "started_run s run_id trigger execute ?batch t0"
  let ?runs = "db_retention_runs (ts_db w)"
  let ?w0 = "w\<lparr>ts_db := (ts_db w)\<lparr>db_retention_runs := ?runs @ [?row]\<rparr>\<rparr>"
  have batch: "1 \<le> ?batch" "?batch \<le> 1000"
    using assms(1,3) by (auto simp: retention_settings_error_def split: if_splits)
  have days: "optional_days_ok (rts_input_retention_days s)" "optional_days_ok (rts_runtime_retention_days s)"
      "optional_days_ok (rts_artifact_retention_days s)"
    using assms(1) by (simp_all add: retention_settings_error_def split: if_splits)
  obtain r w1 where due: "cleanup_due_jobs s rm execute t0 (Some ?batch) ?w0 = (r, w1)" by fastforce
  note frame = cleanup_due_jobs_frame [OF due]
  have runs: "db_retention_runs (ts_db w1) = ?runs @ [?row]" using frame(1) by simp
  have absent: "find_row srr_id run_id ?runs = None" using assms(4) by (auto simp: find_row_None_iff)
  then have get: "get_retention_run run_id w1 = Some ?row" by (simp add: get_retention_run_def runs started_run_def)
  have put: "put_row srr_id x (?runs @ [?row]) = ?runs @ [x]" if "srr_id x = run_id" for x
  proof -
    have "put_row srr_id x ?runs = ?runs" using assms(4) that by (auto simp: put_row_def intro: map_idI)
    then show ?thesis using that by (simp add: put_row_def started_run_def)
  qed
  have dry: "ts_tree w1 = ts_tree w" "db_jobs (ts_db w1) = db_jobs (ts_db w)" "\<not> isl r" if "\<not> execute"
    using frame(2) [OF that] that due dry_run_reports [OF batch, of s rm t0 ?w0] by simp_all
  have run: "retention_run s rm execute trigger limit run_id t0 t1 w =
      (case r of Inl e \<Rightarrow> (Inl e, finish_failed run_id t1 w1)
       | Inr report \<Rightarrow> (Inr report, put_retention_run (?row\<lparr>srr_status := Run_succeeded,
           srr_finished_at := Some t1, srr_report := Some report\<rparr>) w1))"
    using assms(2) batch due get by (auto simp: retention_run_def Let_def split: sum.split)
  show ?thesis
  proof (cases r)
    case (Inl e)
    let ?x = "?row\<lparr>srr_status := Run_failed, srr_finished_at := Some t1,
      srr_error_code := Some ''SUCCESS_RETENTION_RUN_FAILED''\<rparr>"
    have "res = Inl e" "w' = put_retention_run ?x w1"
      using assms(5) run get Inl by (simp_all add: finish_failed_def)
    moreover have "success_retention_run_row_ok ?x"
      using assms(2) batch days by (auto simp: success_retention_run_row_ok_def started_run_def)
    ultimately show ?thesis
      using dry put [of ?x] Inl by (intro exI [of _ ?x]) (auto simp: put_retention_run_def runs started_run_def)
  next
    case (Inr report)
    let ?x = "?row\<lparr>srr_status := Run_succeeded, srr_finished_at := Some t1, srr_report := Some report\<rparr>"
    have "res = Inr report" "w' = put_retention_run ?x w1"
      using assms(5) run Inr by simp_all
    moreover have "success_retention_run_row_ok ?x"
      using assms(2) batch days by (auto simp: success_retention_run_row_ok_def started_run_def)
    ultimately show ?thesis
      using dry put [of ?x] Inr by (intro exI [of _ ?x]) (auto simp: put_retention_run_def runs started_run_def)
  qed
qed

theorem retention_run_is_audited_witness:
  "\<exists>row. db_retention_runs (ts_db (snd (retention_run default_retention_settings (\<lambda>_ _. None) False ''manual''
      None 77 100 101 demo_store))) = [row] \<and> srr_status row = Run_succeeded \<and> srr_finished_at row = Some 101"
proof -
  obtain res w' where run: "retention_run default_retention_settings (\<lambda>_ _. None) False ''manual'' None 77 100 101
      demo_store = (res, w')" by fastforce
  have "retention_settings_error default_retention_settings = None"
    by (simp add: retention_settings_error_def default_retention_settings_def optional_days_ok_def)
  moreover have "db_retention_runs (ts_db demo_store) = []"
    by (simp add: demo_store_def demo_init_def empty_database_def)
  ultimately obtain row where row: "db_retention_runs (ts_db w') = [row]" "srr_finished_at row = Some 101" "\<not> isl res"
      "case res of Inr report \<Rightarrow> srr_status row = Run_succeeded \<and> srr_report row = Some report
       | Inl e \<Rightarrow> srr_status row = Run_failed \<and> srr_error_code row = Some ''SUCCESS_RETENTION_RUN_FAILED''"
    using retention_run_is_audited [OF _ _ _ _ run] by auto
  then have "srr_status row = Run_succeeded" by (cases res) simp_all
  with row run show ?thesis by simp
qed

end
