(* ===== verification/Event_Journal.thy ===== *)
theory Event_Journal
  imports Text
begin

text \<open>
  The event journal of a task, \<^verbatim>\<open>backend/re3d_adapter/events.py\<close>: one JSON object per line, appended
  and synced before it counts, and checked when the journal is opened again. The JSON encoder and
  decoder and the event contract are arguments; the file is the text of its characters. Line breaks
  are those of \<open>str.splitlines\<close> among the first 256 code points.
\<close>

section \<open>Lines\<close>

definition newline :: char where
  "newline = char_of (10 :: nat)"

definition line_break :: "char \<Rightarrow> bool" where
  "line_break c \<longleftrightarrow> code_point c \<in> {10, 11, 12, 13, 28, 29, 30, 133}"

text \<open>\<open>str.splitlines\<close>: a carriage return and the newline after it are one break.\<close>

fun split_lines :: "string \<Rightarrow> string \<Rightarrow> string list" where
  "split_lines acc [] = (if acc = [] then [] else [rev acc])"
| "split_lines acc (c # cs) =
     (if line_break c
      then rev acc # split_lines [] (if code_point c = 13 \<and> take 1 cs = [newline] then drop 1 cs else cs)
      else split_lines (c # acc) cs)"

section \<open>The journal\<close>

record codec =
  cd_dumps :: "json \<Rightarrow> string"
  cd_loads :: "string \<Rightarrow> json option"
  cd_valid_event :: "json \<Rightarrow> bool"

datatype journal_error =
    Journal_integrity string
  | Journal_contract
  | Journal_key_error string
  | Journal_os_error

definition terminal_event_types :: "string set" where
  "terminal_event_types = {''job_succeeded'', ''job_failed'', ''job_cancelled''}"

record journal =
  jn_job_id :: string
  jn_attempt :: int
  jn_worker_id :: string
  jn_events :: "json list"

definition next_event_sequence :: "journal \<Rightarrow> int" where
  "next_event_sequence j = int (length (jn_events j)) + 1"

definition is_terminal_event :: "json \<Rightarrow> bool" where
  "is_terminal_event e \<longleftrightarrow> (\<exists>t \<in> terminal_event_types. json_field ''type'' e = Some (JString t))"

definition has_terminal_event :: "journal \<Rightarrow> bool" where
  "has_terminal_event j \<longleftrightarrow> jn_events j \<noteq> [] \<and> is_terminal_event (last (jn_events j))"

definition has_completed_stage :: "string \<Rightarrow> journal \<Rightarrow> bool" where
  "has_completed_stage stage j \<longleftrightarrow>
     list_ex (\<lambda>e. json_field ''type'' e = Some (JString ''stage_completed'') \<and>
       json_field ''stage'' e = Some (JString stage)) (jn_events j)"

definition artifact_event :: "string \<Rightarrow> journal \<Rightarrow> journal_error + json option" where
  "artifact_event branch j =
     (case filter (\<lambda>e. json_field ''type'' e = Some (JString ''artifact_created'') \<and>
         json_field ''branch'' e = Some (JString branch)) (jn_events j) of
        [] \<Rightarrow> Inr None
      | [e] \<Rightarrow> Inr (Some e)
      | _ \<Rightarrow> Inl (Journal_integrity (''multiple artifact events exist for branch '' @ branch)))"

text \<open>
  \<open>append\<close>: the payload's keys are not among those of the event. \<open>write\<close> is \<open>None\<close> when the line was
  written and synced, and \<open>Some n\<close> when an \<open>OSError\<close> was raised after \<open>n\<close> of its characters.
\<close>

definition event_object :: "journal \<Rightarrow> string \<Rightarrow> (string \<times> json) list \<Rightarrow> uuid \<Rightarrow> string \<Rightarrow> json" where
  "event_object j event_type payload event_id occurred_at = JObject
     ([(''contract_version'', JString ''1.0''), (''event_id'', JString (uuid_str event_id)),
       (''job_id'', JString (jn_job_id j)), (''attempt'', JInt (jn_attempt j)),
       (''sequence'', JInt (next_event_sequence j)), (''occurred_at'', JString occurred_at),
       (''worker_id'', JString (jn_worker_id j)), (''type'', JString event_type)] @ payload)"

definition journal_line :: "codec \<Rightarrow> json \<Rightarrow> string" where
  "journal_line cd e = cd_dumps cd e @ [newline]"

definition append_event ::
  "codec \<Rightarrow> string \<Rightarrow> (string \<times> json) list \<Rightarrow> uuid \<Rightarrow> string \<Rightarrow> nat option \<Rightarrow> journal \<times> string option \<Rightarrow>
     (journal_error, json, journal \<times> string option) outcome" where
  "append_event cd event_type payload event_id occurred_at write s =
     (case s of (j, disk) \<Rightarrow>
        if has_terminal_event j then (Inl (Journal_integrity ''cannot append after a terminal event''), s)
        else
          let e = event_object j event_type payload event_id occurred_at;
              text = (case disk of None \<Rightarrow> [] | Some t \<Rightarrow> t);
              line = journal_line cd e
          in if \<not> cd_valid_event cd e then (Inl Journal_contract, s)
             else (case write of
                 Some n \<Rightarrow> (Inl Journal_os_error, (j, Some (text @ take n line)))
               | None \<Rightarrow> (Inr e, (j\<lparr>jn_events := jn_events j @ [e]\<rparr>, Some (text @ line)))))"

text \<open>\<open>_load_existing\<close>: the lines are checked one after the other, numbered from one.\<close>

fun load_lines :: "codec \<Rightarrow> string \<Rightarrow> int \<Rightarrow> json list \<Rightarrow> string list \<Rightarrow> journal_error + json list" where
  "load_lines cd job attempt events [] = Inr events"
| "load_lines cd job attempt events (line # lines) =
     (let number = int (length events) + 1
      in if strip line = []
         then Inl (Journal_integrity (''event journal contains a blank line at '' @ decimal (nat number)))
         else (case cd_loads cd line of
             None \<Rightarrow> Inl (Journal_integrity (''event journal contains invalid JSON at line '' @ decimal (nat number)))
           | Some e \<Rightarrow>
               if \<not> cd_valid_event cd e then Inl Journal_contract
               else (case json_field ''sequence'' e of
                   None \<Rightarrow> Inl (Journal_key_error ''sequence'')
                 | Some n \<Rightarrow>
                     if \<not> json_eq n (JInt number)
                     then Inl (Journal_integrity (''event sequence must be contiguous; expected '' @ decimal (nat number)))
                     else if json_field ''job_id'' e = None then Inl (Journal_key_error ''job_id'')
                     else if json_field ''job_id'' e = Some (JString job) \<and> json_field ''attempt'' e = None
                     then Inl (Journal_key_error ''attempt'')
                     else if json_field ''job_id'' e \<noteq> Some (JString job) \<or>
                       \<not> json_eq (the (json_field ''attempt'' e)) (JInt attempt)
                     then Inl (Journal_integrity ''event journal identity does not match the request'')
                     else if events \<noteq> [] \<and> is_terminal_event (last events)
                     then Inl (Journal_integrity ''event journal contains data after a terminal event'')
                     else load_lines cd job attempt (events @ [e]) lines)))"

definition load_existing :: "codec \<Rightarrow> string \<Rightarrow> int \<Rightarrow> string option \<Rightarrow> journal_error + json list" where
  "load_existing cd job attempt disk =
     (case disk of
        None \<Rightarrow> Inr []
      | Some text \<Rightarrow>
          if text \<noteq> [] \<and> last text \<noteq> newline
          then Inl (Journal_integrity ''event journal has an incomplete final line'')
          else load_lines cd job attempt [] (split_lines [] text))"

definition open_journal :: "codec \<Rightarrow> string \<Rightarrow> int \<Rightarrow> string \<Rightarrow> string option \<Rightarrow> journal_error + journal" where
  "open_journal cd job attempt worker disk =
     (case load_existing cd job attempt disk of
        Inl e \<Rightarrow> Inl e
      | Inr events \<Rightarrow> Inr \<lparr>jn_job_id = job, jn_attempt = attempt, jn_worker_id = worker, jn_events = events\<rparr>)"

section \<open>Reading back what was written\<close>

text \<open>What the encoder and the decoder promise for an event: one line that decodes to the event.\<close>

definition codec_keeps :: "codec \<Rightarrow> json \<Rightarrow> bool" where
  "codec_keeps cd e \<longleftrightarrow> cd_loads cd (cd_dumps cd e) = Some e \<and> strip (cd_dumps cd e) \<noteq> [] \<and>
     list_all (\<lambda>c. \<not> line_break c) (cd_dumps cd e)"

text \<open>The events of a journal that was written by \<open>append\<close>.\<close>

definition event_ok :: "codec \<Rightarrow> string \<Rightarrow> int \<Rightarrow> nat \<Rightarrow> json \<Rightarrow> bool" where
  "event_ok cd job attempt n e \<longleftrightarrow> codec_keeps cd e \<and> cd_valid_event cd e \<and>
     json_field ''sequence'' e = Some (JInt (int n + 1)) \<and> json_field ''job_id'' e = Some (JString job) \<and>
     json_field ''attempt'' e = Some (JInt attempt)"

definition events_ok :: "codec \<Rightarrow> string \<Rightarrow> int \<Rightarrow> json list \<Rightarrow> bool" where
  "events_ok cd job attempt es \<longleftrightarrow> (\<forall>n < length es. event_ok cd job attempt n (es ! n)) \<and>
     (\<forall>e \<in> set (butlast es). \<not> is_terminal_event e)"

definition journal_text :: "codec \<Rightarrow> json list \<Rightarrow> string" where
  "journal_text cd es = concat (map (journal_line cd) es)"

lemma line_break_newline [simp]: "line_break newline"
  by (simp add: line_break_def newline_def code_point_def)

lemma split_lines_line:
  "list_all (\<lambda>c. \<not> line_break c) s \<Longrightarrow>
     split_lines acc (s @ newline # t) = (rev acc @ s) # split_lines [] t"
proof (induction s arbitrary: acc)
  case Nil
  have "code_point newline \<noteq> 13" by (simp add: newline_def code_point_def)
  then show ?case by simp
qed simp

lemma split_journal_text:
  "\<forall>e \<in> set es. codec_keeps cd e \<Longrightarrow> split_lines [] (journal_text cd es) = map (cd_dumps cd) es"
  by (induction es) (simp_all add: journal_text_def journal_line_def split_lines_line codec_keeps_def)

lemma load_lines_ok:
  assumes "events_ok cd job attempt (es @ fs)"
  shows "load_lines cd job attempt es (map (cd_dumps cd) fs) = Inr (es @ fs)"
  using assms
proof (induction fs arbitrary: es)
  case (Cons e fs)
  have "event_ok cd job attempt (length es) e"
    using Cons.prems by (auto simp: events_ok_def dest: spec [of _ "length es"])
  moreover have "\<not> is_terminal_event (last es)" if "es \<noteq> []"
    using Cons.prems that by (simp add: events_ok_def butlast_append)
  ultimately show ?case
    using Cons.IH [of "es @ [e]"] Cons.prems by (auto simp: event_ok_def codec_keeps_def Let_def)
qed simp

lemma load_written:
  assumes "events_ok cd job attempt es"
  shows "load_existing cd job attempt (Some (journal_text cd es)) = Inr es"
proof -
  have "\<forall>e \<in> set es. codec_keeps cd e"
    using assms by (auto simp: events_ok_def event_ok_def in_set_conv_nth)
  then have "split_lines [] (journal_text cd es) = map (cd_dumps cd) es" by (rule split_journal_text)
  moreover have "journal_text cd es = [] \<or> last (journal_text cd es) = newline"
    by (cases es rule: rev_cases) (simp_all add: journal_text_def journal_line_def)
  ultimately show ?thesis using load_lines_ok [of cd job attempt "[]" es] assms by (auto simp: load_existing_def)
qed

text \<open>A journal in memory and its file agree.\<close>

definition journal_inv :: "codec \<Rightarrow> journal \<times> string option \<Rightarrow> bool" where
  "journal_inv cd s \<longleftrightarrow> (case s of (j, disk) \<Rightarrow>
     events_ok cd (jn_job_id j) (jn_attempt j) (jn_events j) \<and>
     (case disk of None \<Rightarrow> jn_events j = [] | Some t \<Rightarrow> t = journal_text cd (jn_events j)))"

lemma event_object_fields:
  "json_field ''sequence'' (event_object j t p i at') = Some (JInt (next_event_sequence j))"
  "json_field ''job_id'' (event_object j t p i at') = Some (JString (jn_job_id j))"
  "json_field ''attempt'' (event_object j t p i at') = Some (JInt (jn_attempt j))"
  "json_field ''type'' (event_object j t p i at') = Some (JString t)"
  by (simp_all add: event_object_def json_field_def)

lemma append_events_ok:
  assumes "events_ok cd job attempt es" and "event_ok cd job attempt (length es) e"
    and "es = [] \<or> \<not> is_terminal_event (last es)"
  shows "events_ok cd job attempt (es @ [e])"
proof -
  have "\<forall>x \<in> set es. \<not> is_terminal_event x"
    using assms(1,3) by (cases es rule: rev_cases) (auto simp: events_ok_def)
  with assms(1,2) show ?thesis by (auto simp: events_ok_def nth_append less_Suc_eq)
qed

lemma append_event_inv:
  assumes inv: "journal_inv cd (j, disk)" and keeps: "codec_keeps cd (event_object j t p i at')"
    and res: "append_event cd t p i at' write (j, disk) = (Inr e, s)"
  shows "journal_inv cd s \<and> jn_events (fst s) = jn_events j @ [e]"
proof -
  let ?e = "event_object j t p i at'"
  have ok: "\<not> has_terminal_event j" "cd_valid_event cd ?e" and e: "e = ?e"
    and s: "s = (j\<lparr>jn_events := jn_events j @ [?e]\<rparr>, Some ((case disk of None \<Rightarrow> [] | Some t \<Rightarrow> t) @ journal_line cd ?e))"
    using res by (auto simp: append_event_def Let_def split: if_splits option.splits)
  have "event_ok cd (jn_job_id j) (jn_attempt j) (length (jn_events j)) ?e"
    using keeps ok(2) by (simp add: event_ok_def event_object_fields next_event_sequence_def)
  moreover have "jn_events j = [] \<or> \<not> is_terminal_event (last (jn_events j))"
    using ok(1) by (auto simp: has_terminal_event_def)
  ultimately have "events_ok cd (jn_job_id j) (jn_attempt j) (jn_events j @ [?e])"
    using inv append_events_ok by (auto simp: journal_inv_def)
  then show ?thesis
    using inv by (auto simp: journal_inv_def s e journal_text_def split: option.splits)
qed

section \<open>Crashes\<close>

text \<open>
  A run of appends by a worker that opened a new journal; refused appends leave it as it is.
\<close>

type_synonym append_call = "string \<times> (string \<times> json) list \<times> uuid \<times> string"

definition new_journal :: "string \<Rightarrow> int \<Rightarrow> string \<Rightarrow> journal" where
  "new_journal job attempt worker =
     \<lparr>jn_job_id = job, jn_attempt = attempt, jn_worker_id = worker, jn_events = []\<rparr>"

fun run_journal :: "codec \<Rightarrow> append_call list \<Rightarrow> journal \<times> string option \<Rightarrow> journal \<times> string option" where
  "run_journal cd [] s = s"
| "run_journal cd ((t, p, i, at') # calls) s = run_journal cd calls (snd (append_event cd t p i at' None s))"

text \<open>The encoder keeps every event of the run.\<close>

fun run_kept :: "codec \<Rightarrow> append_call list \<Rightarrow> journal \<times> string option \<Rightarrow> bool" where
  "run_kept cd [] s \<longleftrightarrow> True"
| "run_kept cd ((t, p, i, at') # calls) s \<longleftrightarrow> codec_keeps cd (event_object (fst s) t p i at') \<and>
     run_kept cd calls (snd (append_event cd t p i at' None s))"

lemma append_event_names:
  assumes "append_event cd t p i at' write (j, disk) = (r, (j', disk'))"
  shows "jn_job_id j' = jn_job_id j \<and> jn_attempt j' = jn_attempt j \<and> jn_worker_id j' = jn_worker_id j"
  using assms by (auto simp: append_event_def Let_def split: if_splits option.splits)

lemma append_event_refused:
  "append_event cd t p i at' None s = (Inl e, s') \<Longrightarrow> s' = s"
  by (auto simp: append_event_def Let_def split: if_splits prod.splits)

lemma run_journal_inv:
  assumes "journal_inv cd s" and "run_kept cd calls s"
  shows "journal_inv cd (run_journal cd calls s)"
    and "jn_job_id (fst (run_journal cd calls s)) = jn_job_id (fst s)"
    and "jn_attempt (fst (run_journal cd calls s)) = jn_attempt (fst s)"
    and "jn_worker_id (fst (run_journal cd calls s)) = jn_worker_id (fst s)"
proof -
  have "journal_inv cd (run_journal cd calls s) \<and> jn_job_id (fst (run_journal cd calls s)) = jn_job_id (fst s) \<and>
      jn_attempt (fst (run_journal cd calls s)) = jn_attempt (fst s) \<and>
      jn_worker_id (fst (run_journal cd calls s)) = jn_worker_id (fst s)"
    using assms
  proof (induction calls arbitrary: s)
    case (Cons c calls)
    obtain t p i at' where c: "c = (t, p, i, at')" by (cases c)
    obtain j disk where s: "s = (j, disk)" by (cases s)
    obtain r j' disk' where a: "append_event cd t p i at' None s = (r, (j', disk'))" by (metis surj_pair)
    have "journal_inv cd (j', disk')"
    proof (cases r)
      case (Inl e)
      with append_event_refused [of cd t p i at' s e] a Cons.prems(1) show ?thesis by simp
    next
      case (Inr e)
      with append_event_inv [of cd j disk t p i at' None e "(j', disk')"] a Cons.prems show ?thesis by (simp add: c s)
    qed
    with Cons.IH [of "(j', disk')"] Cons.prems append_event_names [OF a [unfolded s]] a show ?case by (simp add: c s)
  qed simp
  then show "journal_inv cd (run_journal cd calls s)"
    and "jn_job_id (fst (run_journal cd calls s)) = jn_job_id (fst s)"
    and "jn_attempt (fst (run_journal cd calls s)) = jn_attempt (fst s)"
    and "jn_worker_id (fst (run_journal cd calls s)) = jn_worker_id (fst s)" by simp_all
qed

lemma reopen:
  assumes "journal_inv cd (j, disk)"
  shows "open_journal cd (jn_job_id j) (jn_attempt j) (jn_worker_id j) disk = Inr j"
  using assms load_written [of cd "jn_job_id j" "jn_attempt j" "jn_events j"]
  by (cases disk) (auto simp: journal_inv_def open_journal_def load_existing_def)

lemma torn_append:
  assumes inv: "journal_inv cd (j, disk)" and keeps: "codec_keeps cd (event_object j t p i at')"
    and res: "append_event cd t p i at' (Some n) (j, disk) = (Inl Journal_os_error, (j', disk'))"
  shows "open_journal cd (jn_job_id j) (jn_attempt j) (jn_worker_id j) disk' =
    (if n = 0 then Inr j
     else if n \<le> length (cd_dumps cd (event_object j t p i at'))
     then Inl (Journal_integrity ''event journal has an incomplete final line'')
     else Inr (j\<lparr>jn_events := jn_events j @ [event_object j t p i at']\<rparr>))"
proof -
  let ?e = "event_object j t p i at'" and ?old = "journal_text cd (jn_events j)"
  have disk: "(case disk of None \<Rightarrow> [] | Some t \<Rightarrow> t) = ?old"
    using inv by (auto simp: journal_inv_def journal_text_def split: option.splits)
  have valid: "cd_valid_event cd ?e" "\<not> has_terminal_event j" and f: "disk' = Some (?old @ take n (journal_line cd ?e))"
    using res disk by (auto simp: append_event_def Let_def split: if_splits)
  show ?thesis
  proof (cases "n = 0")
    case True
    have "journal_inv cd (j, Some ?old)" using inv by (simp add: journal_inv_def)
    from reopen [OF this] True show ?thesis by (simp add: f)
  next
    case n: False
    show ?thesis
    proof (cases "n \<le> length (cd_dumps cd ?e)")
      case True
      then have part: "take n (journal_line cd ?e) = take n (cd_dumps cd ?e)" "take n (cd_dumps cd ?e) \<noteq> []"
        using n by (auto simp: journal_line_def)
      have "last (take n (cd_dumps cd ?e)) \<in> set (cd_dumps cd ?e)" using part(2) by (meson in_set_takeD last_in_set)
      then have "last (take n (cd_dumps cd ?e)) \<noteq> newline"
        using keeps by (auto simp: codec_keeps_def list_all_iff)
      with True n part show ?thesis by (simp add: f open_journal_def load_existing_def)
    next
      case False
      have "append_event cd t p i at' None (j, disk) =
          (Inr ?e, (j\<lparr>jn_events := jn_events j @ [?e]\<rparr>, Some (?old @ journal_line cd ?e)))"
        using valid disk by (simp add: append_event_def Let_def)
      from append_event_inv [OF inv keeps this]
      have "journal_inv cd (j\<lparr>jn_events := jn_events j @ [?e]\<rparr>, Some (?old @ journal_line cd ?e))" by simp
      from reopen [OF this] False n show ?thesis by (simp add: f journal_line_def)
    qed
  qed
qed

text \<open>
  C22. The journal survives a crash: after any run of appends, opening the file again gives the events in
  memory, numbered from one without a gap and with a terminal event at the end only; and when the
  worker dies in the middle of a line, opening it again gives the events before, or refuses the
  incomplete line, or gives the whole new event, never a part of it.
\<close>

theorem journal_survives_crash:
  assumes "run_kept cd calls (new_journal job attempt worker, None)"
    and "run_journal cd calls (new_journal job attempt worker, None) = (j, disk)"
  shows "open_journal cd job attempt worker disk = Inr j \<and>
    (\<forall>n < length (jn_events j). json_field ''sequence'' (jn_events j ! n) = Some (JInt (int n + 1))) \<and>
    (\<forall>e \<in> set (butlast (jn_events j)). \<not> is_terminal_event e) \<and>
    (\<forall>t p i at' n j' disk'. codec_keeps cd (event_object j t p i at') \<longrightarrow>
      append_event cd t p i at' (Some n) (j, disk) = (Inl Journal_os_error, (j', disk')) \<longrightarrow>
      open_journal cd job attempt worker disk' \<in>
        {Inr j, Inl (Journal_integrity ''event journal has an incomplete final line''),
         Inr (j\<lparr>jn_events := jn_events j @ [event_object j t p i at']\<rparr>)})"
proof -
  let ?s = "(new_journal job attempt worker, None)"
  have "journal_inv cd ?s" by (simp add: journal_inv_def events_ok_def new_journal_def)
  note run = run_journal_inv [OF this assms(1), unfolded assms(2)]
  then have names: "jn_job_id j = job" "jn_attempt j = attempt" "jn_worker_id j = worker"
    by (simp_all add: new_journal_def)
  have "events_ok cd job attempt (jn_events j)" using run(1) names by (simp add: journal_inv_def)
  then show ?thesis
    using reopen [OF run(1)] torn_append [OF run(1)] names
    by (auto simp: events_ok_def event_ok_def)
qed

definition demo_codec :: "json \<Rightarrow> codec" where
  "demo_codec e = \<lparr>cd_dumps = (\<lambda>_. ''{}''), cd_loads = (\<lambda>_. Some e), cd_valid_event = (\<lambda>_. True)\<rparr>"

theorem journal_survives_crash_witness:
  "\<exists>j disk. run_journal (demo_codec (event_object (new_journal ''j'' 1 ''w'') ''job_started'' [] 1 ''t''))
      [(''job_started'', [], 1, ''t'')] (new_journal ''j'' 1 ''w'', None) = (j, disk) \<and>
    open_journal (demo_codec (event_object (new_journal ''j'' 1 ''w'') ''job_started'' [] 1 ''t'')) ''j'' 1 ''w'' disk = Inr j \<and>
    length (jn_events j) = 1"
proof -
  let ?e = "event_object (new_journal ''j'' 1 ''w'') ''job_started'' [] 1 ''t''"
  let ?cd = "demo_codec ?e" and ?calls = "[(''job_started'', [], 1, ''t'')]" and ?s = "(new_journal ''j'' 1 ''w'', None)"
  have kept: "run_kept ?cd ?calls ?s"
    by (simp add: codec_keeps_def demo_codec_def strip_def strip_by_def is_space_def code_point_def line_break_def)
  obtain j disk where run: "run_journal ?cd ?calls ?s = (j, disk)" by fastforce
  have "length (jn_events j) = 1"
    using run by (auto simp: append_event_def Let_def demo_codec_def new_journal_def has_terminal_event_def)
  with journal_survives_crash [OF kept run] run show ?thesis by auto
qed

end
