(* ===== verification/Disk_Guard.thy ===== *)
theory Disk_Guard
  imports Py_Number
begin

text \<open>
  The low-disk guard of \<^verbatim>\<open>backend/worker/disk_guard.py\<close>: a trip that is set once and never
  taken back, fed by a thread of its own and by synchronous checks. The reader of the free space is an
  argument: \<open>None\<close> when it raised or returned something that is not an integer. The thread's steps and
  those of the worker follow each other in any order; \<open>_lock\<close> and \<open>_probe_lock\<close> make each of them one
  step.
\<close>

section \<open>Settings\<close>

definition gib :: int where
  "gib = 1024 ^ 3"

record guard_settings =
  gs_enabled :: bool
  gs_minimum_free_bytes :: int
  gs_interval_seconds :: py_float

definition guard_settings_error :: "guard_settings \<Rightarrow> string option" where
  "guard_settings_error s =
     (if gs_minimum_free_bytes s < 0
      then Some ''disk guard minimum_free_bytes must be a non-negative integer''
      else if gs_enabled s \<and> gs_minimum_free_bytes s < gib
      then Some ''enabled disk guard requires at least 1 GiB of free space''
      else (case gs_interval_seconds s of
          Finite x \<Rightarrow> if 1 \<le> x \<and> x \<le> 5 then None
            else Some ''disk guard interval_seconds must be between 1 and 5''
        | _ \<Rightarrow> Some ''disk guard interval_seconds must be between 1 and 5''))"

definition environment_text :: "environ \<Rightarrow> string \<Rightarrow> string \<Rightarrow> string" where
  "environment_text env name fallback = (case env name of None \<Rightarrow> fallback | Some v \<Rightarrow> v)"

text \<open>The messages of \<open>int\<close> and \<open>float\<close> themselves are not told apart.\<close>

definition guard_settings_from_environment :: "environ \<Rightarrow> string + guard_settings" where
  "guard_settings_from_environment env =
     (let enabled = lower (strip (environment_text env ''RE3D_LOW_DISK_GUARD_ENABLED'' ''false''))
      in if enabled \<notin> {''true'', ''false''} then Inl ''RE3D_LOW_DISK_GUARD_ENABLED must be true or false''
         else (case py_int (environment_text env ''RE3D_MIN_FREE_DISK_BYTES'' ''0'') of
             None \<Rightarrow> Inl ''invalid literal for int()''
           | Some minimum \<Rightarrow>
               (case py_float_of (environment_text env ''RE3D_LOW_DISK_GUARD_INTERVAL_SECONDS'' ''1'') of
                  None \<Rightarrow> Inl ''could not convert string to float''
                | Some interval \<Rightarrow>
                    let s = \<lparr>gs_enabled = enabled = ''true'', gs_minimum_free_bytes = minimum,
                      gs_interval_seconds = interval\<rparr>
                    in (case guard_settings_error s of Some e \<Rightarrow> Inl e | None \<Rightarrow> Inr s))))"

section \<open>The guard\<close>

record disk_trip =
  tp_code :: string
  tp_minimum_free_bytes :: int
  tp_observed_free_bytes :: "int option"

record guard =
  dg_trip :: "disk_trip option"
  dg_stopped :: bool
  dg_started :: bool
  dg_thread :: bool

datatype guard_error = Guard_tripped disk_trip | Guard_already_started

definition new_guard :: guard where
  "new_guard = \<lparr>dg_trip = None, dg_stopped = False, dg_started = False, dg_thread = False\<rparr>"

definition set_trip :: "guard_settings \<Rightarrow> string \<Rightarrow> int option \<Rightarrow> guard \<Rightarrow> guard" where
  "set_trip s code free_bytes g =
     (case dg_trip g of
        Some _ \<Rightarrow> g
      | None \<Rightarrow> g\<lparr>dg_trip := Some \<lparr>tp_code = code, tp_minimum_free_bytes = gs_minimum_free_bytes s,
          tp_observed_free_bytes = free_bytes\<rparr>\<rparr>)"

definition raise_if_tripped :: "guard \<Rightarrow> (guard_error, unit, guard) outcome" where
  "raise_if_tripped g = (case dg_trip g of Some t \<Rightarrow> (Inl (Guard_tripped t), g) | None \<Rightarrow> (Inr (), g))"

definition probe :: "guard_settings \<Rightarrow> int option \<Rightarrow> guard \<Rightarrow> guard" where
  "probe s reading g =
     (if dg_trip g \<noteq> None then g
      else (case reading of
          None \<Rightarrow> set_trip s ''DISK_GUARD_PROBE_FAILED'' None g
        | Some n \<Rightarrow>
            if n < 0 then set_trip s ''DISK_GUARD_PROBE_FAILED'' None g
            else if n \<le> gs_minimum_free_bytes s then set_trip s ''LOW_DISK_AUTO_CANCELLED'' (Some n) g
            else g))"

definition check_now :: "guard_settings \<Rightarrow> int option \<Rightarrow> guard \<Rightarrow> (guard_error, unit, guard) outcome" where
  "check_now s reading g =
     (if \<not> gs_enabled s then (Inr (), g)
      else (case raise_if_tripped g of
          (Inl e, g1) \<Rightarrow> (Inl e, g1)
        | (Inr _, g1) \<Rightarrow> raise_if_tripped (probe s reading g1)))"

definition start :: "guard_settings \<Rightarrow> int option \<Rightarrow> guard \<Rightarrow> (guard_error, unit, guard) outcome" where
  "start s reading g =
     (if dg_started g then (Inl Guard_already_started, g)
      else
        let g1 = g\<lparr>dg_started := True\<rparr>
        in if \<not> gs_enabled s then (Inr (), g1)
           else (case check_now s reading g1 of
               (Inl e, g2) \<Rightarrow> (Inl e, g2)
             | (Inr _, g2) \<Rightarrow> (Inr (), g2\<lparr>dg_thread := True\<rparr>)))"

text \<open>\<open>stuck\<close>: the thread is still alive when the wait for it has timed out.\<close>

definition stop :: "guard_settings \<Rightarrow> bool \<Rightarrow> guard \<Rightarrow> (guard_error, unit, guard) outcome" where
  "stop s stuck g =
     (let g1 = g\<lparr>dg_stopped := True\<rparr>
      in if dg_thread g1 \<and> stuck then raise_if_tripped (set_trip s ''DISK_GUARD_PROBE_FAILED'' None g1)
         else (Inr (), g1))"

definition finish :: "guard_settings \<Rightarrow> bool \<Rightarrow> int option \<Rightarrow> guard \<Rightarrow> (guard_error, unit, guard) outcome" where
  "finish s stuck reading g =
     (case stop s stuck g of (Inl e, g1) \<Rightarrow> (Inl e, g1) | (Inr _, g1) \<Rightarrow> check_now s reading g1)"

text \<open>\<open>__exit__\<close>: a trip found while stopping is raised unless the body has raised.\<close>

definition exit_guard :: "guard_settings \<Rightarrow> bool \<Rightarrow> bool \<Rightarrow> guard \<Rightarrow> (guard_error, unit, guard) outcome" where
  "exit_guard s body_raised stuck g =
     (case stop s stuck g of
        (Inl e, g1) \<Rightarrow> if body_raised then (Inr (), g1) else (Inl e, g1)
      | (Inr u, g1) \<Rightarrow> (Inr u, g1))"

text \<open>
  The thread: while it has not been told to stop it probes, and ends on a trip; ending in any other
  way before the stop is a trip too.
\<close>

definition thread_probe :: "guard_settings \<Rightarrow> int option \<Rightarrow> guard \<Rightarrow> guard" where
  "thread_probe s reading g = (if dg_thread g \<and> dg_trip g = None then probe s reading g else g)"

definition thread_dies :: "guard_settings \<Rightarrow> guard \<Rightarrow> guard" where
  "thread_dies s g = (if dg_thread g then set_trip s ''DISK_GUARD_PROBE_FAILED'' None g else g)"

section \<open>Histories\<close>

datatype guard_event =
    Start "int option"
  | Check "int option"
  | Thread_probe "int option"
  | Thread_dies
  | Stop bool

fun guard_event_step :: "guard_settings \<Rightarrow> guard_event \<Rightarrow> guard \<Rightarrow> guard" where
  "guard_event_step s (Start r) g = snd (start s r g)"
| "guard_event_step s (Check r) g = snd (check_now s r g)"
| "guard_event_step s (Thread_probe r) g = thread_probe s r g"
| "guard_event_step s Thread_dies g = thread_dies s g"
| "guard_event_step s (Stop stuck) g = snd (stop s stuck g)"

definition guard_run :: "guard_settings \<Rightarrow> guard_event list \<Rightarrow> guard \<Rightarrow> guard" where
  "guard_run s events g = fold (guard_event_step s) events g"

text \<open>What a sample shows, and the trip an event causes in a guard whose thread runs.\<close>

definition sample_trip :: "guard_settings \<Rightarrow> int option \<Rightarrow> disk_trip option" where
  "sample_trip s reading =
     (let trip = \<lambda>code free. Some \<lparr>tp_code = code, tp_minimum_free_bytes = gs_minimum_free_bytes s,
        tp_observed_free_bytes = free\<rparr>
      in case reading of
           None \<Rightarrow> trip ''DISK_GUARD_PROBE_FAILED'' None
         | Some n \<Rightarrow> if n < 0 then trip ''DISK_GUARD_PROBE_FAILED'' None
             else if n \<le> gs_minimum_free_bytes s then trip ''LOW_DISK_AUTO_CANCELLED'' (Some n) else None)"

fun event_trip :: "guard_settings \<Rightarrow> guard_event \<Rightarrow> disk_trip option" where
  "event_trip s (Check r) = sample_trip s r"
| "event_trip s (Thread_probe r) = sample_trip s r"
| "event_trip s Thread_dies = sample_trip s None"
| "event_trip s (Stop stuck) = (if stuck then sample_trip s None else None)"
| "event_trip s (Start r) = None"

fun first_trip :: "guard_settings \<Rightarrow> guard_event list \<Rightarrow> disk_trip option" where
  "first_trip s [] = None"
| "first_trip s (e # es) = (case event_trip s e of Some t \<Rightarrow> Some t | None \<Rightarrow> first_trip s es)"

lemma probe_trip: "dg_trip (probe s r g) = (case dg_trip g of Some t \<Rightarrow> Some t | None \<Rightarrow> sample_trip s r)"
  by (auto simp: probe_def set_trip_def sample_trip_def Let_def split: option.split)

lemma probe_frame [simp]:
  "dg_thread (probe s r g) = dg_thread g" "dg_started (probe s r g) = dg_started g"
  "dg_stopped (probe s r g) = dg_stopped g"
  by (auto simp: probe_def set_trip_def split: option.split)

lemma set_trip_frame [simp]:
  "dg_thread (set_trip s c f g) = dg_thread g" "dg_started (set_trip s c f g) = dg_started g"
  by (auto simp: set_trip_def split: option.split)

lemma set_failed_trip:
  "dg_trip (set_trip s ''DISK_GUARD_PROBE_FAILED'' None g) =
     (case dg_trip g of Some t \<Rightarrow> Some t | None \<Rightarrow> sample_trip s None)"
  by (auto simp: set_trip_def sample_trip_def split: option.split)

lemma check_now_enabled:
  "gs_enabled s \<Longrightarrow> check_now s r g =
     (case dg_trip (probe s r g) of Some t \<Rightarrow> (Inl (Guard_tripped t), probe s r g) | None \<Rightarrow> (Inr (), probe s r g))"
  by (auto simp: check_now_def raise_if_tripped_def probe_trip probe_def split: option.split)

lemma event_trip_step:
  assumes "gs_enabled s" "dg_started g" "dg_thread g"
  shows "dg_trip (guard_event_step s e g) = (case dg_trip g of Some t \<Rightarrow> Some t | None \<Rightarrow> event_trip s e)"
    and "dg_started (guard_event_step s e g)" and "dg_thread (guard_event_step s e g)"
  using assms
  by (cases e; auto simp: start_def check_now_enabled thread_probe_def thread_dies_def stop_def
      raise_if_tripped_def probe_trip set_failed_trip Let_def split: option.split)+

lemma guard_run_trip:
  assumes "gs_enabled s" "dg_started g" "dg_thread g"
  shows "dg_trip (guard_run s es g) = (case dg_trip g of Some t \<Rightarrow> Some t | None \<Rightarrow> first_trip s es)"
    and "dg_started (guard_run s es g)" and "dg_thread (guard_run s es g)"
proof -
  have "dg_trip (guard_run s es g) = (case dg_trip g of Some t \<Rightarrow> Some t | None \<Rightarrow> first_trip s es) \<and>
      dg_started (guard_run s es g) \<and> dg_thread (guard_run s es g)"
    using assms
  proof (induction es arbitrary: g)
    case (Cons e es)
    note step = event_trip_step [OF Cons.prems, of e]
    from Cons.IH [OF Cons.prems(1) step(2,3)] step(1) show ?case
      by (auto simp: guard_run_def split: option.split)
  qed (auto simp: guard_run_def split: option.split)
  then show "dg_trip (guard_run s es g) = (case dg_trip g of Some t \<Rightarrow> Some t | None \<Rightarrow> first_trip s es)"
    and "dg_started (guard_run s es g)" and "dg_thread (guard_run s es g)" by simp_all
qed

lemma sample_trip_failed [simp]: "sample_trip s None \<noteq> None"
  by (simp add: sample_trip_def)

lemma first_trip_None: "first_trip s es = None \<longleftrightarrow> (\<forall>e \<in> set es. event_trip s e = None)"
  by (induction es) (auto split: option.split)

lemma sample_trip_None: "sample_trip s r = None \<longleftrightarrow> (\<exists>n. r = Some n \<and> 0 \<le> n \<and> gs_minimum_free_bytes s < n)"
  by (auto simp: sample_trip_def Let_def split: option.split)

lemma start_ok:
  assumes "gs_enabled s" "start s r new_guard = (Inr (), g)"
  shows "dg_started g" "dg_thread g" "dg_trip g = None" "sample_trip s r = None"
  using assms
  by (auto simp: start_def new_guard_def check_now_enabled probe_trip Let_def split: option.splits)

definition events_samples :: "guard_event list \<Rightarrow> int option list" where
  "events_samples es = concat (map (\<lambda>e. case e of Check r \<Rightarrow> [r] | Thread_probe r \<Rightarrow> [r] | _ \<Rightarrow> []) es)"

lemma guard_verdicts:
  assumes "gs_enabled s" and "start s first new_guard = (Inr (), g)"
  shows "(case first_trip s es of Some t \<Rightarrow> fst (check_now s r (guard_run s es g)) = Inl (Guard_tripped t)
      | None \<Rightarrow> dg_trip (guard_run s es g) = None)"
    and "fst (finish s stuck final (guard_run s es g)) = Inr () \<longleftrightarrow>
      (\<forall>x \<in> set (first # final # events_samples es). \<exists>n. x = Some n \<and> 0 \<le> n \<and> gs_minimum_free_bytes s < n) \<and>
      Thread_dies \<notin> set es \<and> Stop True \<notin> set es \<and> \<not> stuck"
proof -
  note st = start_ok [OF assms]
  note run = guard_run_trip [OF assms(1) st(1,2), of es]
  show "(case first_trip s es of Some t \<Rightarrow> fst (check_now s r (guard_run s es g)) = Inl (Guard_tripped t)
      | None \<Rightarrow> dg_trip (guard_run s es g) = None)"
    using run(1) st(3) assms(1) by (auto simp: check_now_enabled probe_trip split: option.split)
  have event: "event_trip s e = None \<longleftrightarrow> (\<forall>x \<in> set (events_samples [e]). sample_trip s x = None) \<and>
      e \<noteq> Thread_dies \<and> e \<noteq> Stop True" for e
    by (cases e) (auto simp: events_samples_def sample_trip_def)
  have samples: "set (events_samples es) = (\<Union>e \<in> set es. set (events_samples [e]))"
    by (simp add: events_samples_def)
  have "fst (finish s stuck final (guard_run s es g)) = Inr () \<longleftrightarrow>
      first_trip s es = None \<and> sample_trip s final = None \<and> \<not> stuck"
    using run st(3) assms(1)
    by (auto simp: finish_def stop_def Let_def raise_if_tripped_def set_failed_trip check_now_enabled
        probe_trip split: option.split)
  then show "fst (finish s stuck final (guard_run s es g)) = Inr () \<longleftrightarrow>
      (\<forall>x \<in> set (first # final # events_samples es). \<exists>n. x = Some n \<and> 0 \<le> n \<and> gs_minimum_free_bytes s < n) \<and>
      Thread_dies \<notin> set es \<and> Stop True \<notin> set es \<and> \<not> stuck"
    using st(4) by (auto simp: first_trip_None event samples sample_trip_None)
qed

text \<open>
  C25. The trip is sticky and nothing is missed: for an enabled guard that was started, in any order of
  the thread's probes, the worker's checks and stops, every later check raises exactly the first trip that
  happened; and the final seal succeeds only when every sample ever taken, the first and the last included,
  showed more than the minimum of free bytes and the thread neither died nor hung.
\<close>

theorem disk_guard_seals_only_healthy_runs:
  assumes "gs_enabled s" and "start s first new_guard = (Inr (), g)"
  shows "(case first_trip s es of Some t \<Rightarrow> fst (check_now s r (guard_run s es g)) = Inl (Guard_tripped t)
      | None \<Rightarrow> dg_trip (guard_run s es g) = None) \<and>
    (fst (finish s stuck final (guard_run s es g)) = Inr () \<longleftrightarrow>
      (\<forall>x \<in> set (first # final # events_samples es). \<exists>n. x = Some n \<and> 0 \<le> n \<and> gs_minimum_free_bytes s < n) \<and>
      Thread_dies \<notin> set es \<and> Stop True \<notin> set es \<and> \<not> stuck)"
  by (intro conjI guard_verdicts [OF assms])

theorem disk_guard_seals_only_healthy_runs_witness:
  "\<exists>g. start \<lparr>gs_enabled = True, gs_minimum_free_bytes = gib, gs_interval_seconds = Finite 1\<rparr> (Some (2 * gib)) new_guard
     = (Inr (), g) \<and>
   fst (finish \<lparr>gs_enabled = True, gs_minimum_free_bytes = gib, gs_interval_seconds = Finite 1\<rparr> False (Some (3 * gib))
     (guard_run \<lparr>gs_enabled = True, gs_minimum_free_bytes = gib, gs_interval_seconds = Finite 1\<rparr>
       [Thread_probe (Some (gib + 1)), Check (Some (2 * gib))] g)) = Inr ()"
proof -
  let ?s = "\<lparr>gs_enabled = True, gs_minimum_free_bytes = gib, gs_interval_seconds = Finite 1\<rparr>"
  obtain g where g: "start ?s (Some (2 * gib)) new_guard = (Inr (), g)"
    by (simp add: start_def new_guard_def check_now_def raise_if_tripped_def probe_def gib_def)
  have "fst (finish ?s False (Some (3 * gib))
     (guard_run ?s [Thread_probe (Some (gib + 1)), Check (Some (2 * gib))] g)) = Inr ()"
    using disk_guard_seals_only_healthy_runs [OF _ g,
        where es = "[Thread_probe (Some (gib + 1)), Check (Some (2 * gib))]" and stuck = False
          and final = "Some (3 * gib)" and r = None]
    by (simp add: events_samples_def gib_def)
  with g show ?thesis by blast
qed

end
