(* ===== verification/Worker.thy ===== *)
theory Worker
  imports Job_Queue Event_Journal Disk_Guard
begin

text \<open>
  The queue workers of \<^verbatim>\<open>backend/worker/queued.py\<close> with the lease loop of
  \<^verbatim>\<open>backend/db/heartbeat.py\<close>. A worker is a sequence of actions: calls of the queue, appends to the
  journal, and calls of code outside this file (the pipeline runner, the evaluator, the disk guard, the
  monitor). Before each action the others run: other processes, and the worker's own heartbeat thread.
  What they do, the clocks, and what the outside code raises is given by the record \<open>surroundings\<close>, by
  the number of the action. The journal's events are kept without their message texts.
\<close>

section \<open>Actions\<close>

text \<open>
  The classes of exceptions the workers tell apart; \<open>Controlled\<close> stands for the other adapter and
  scheduler errors, \<open>OSError\<close> and \<open>ValueError\<close>.
\<close>

datatype worker_exn =
    Exn_lease_lost
  | Exn_cancelled
  | Exn_disk_guard disk_trip
  | Exn_timed_out
  | Exn_controlled
  | Exn_uncontrolled

definition exn_of_queue :: "queue_error \<Rightarrow> worker_exn" where
  "exn_of_queue e =
     (case e of Lease_lost \<Rightarrow> Exn_lease_lost | Integrity_error \<Rightarrow> Exn_uncontrolled | _ \<Rightarrow> Exn_controlled)"

definition exn_of_journal :: "journal_error \<Rightarrow> worker_exn" where
  "exn_of_journal e = (case e of Journal_key_error _ \<Rightarrow> Exn_uncontrolled | _ \<Rightarrow> Exn_controlled)"

record surroundings =
  su_others :: "nat \<Rightarrow> database \<Rightarrow> database"
  su_now :: "nat \<Rightarrow> time"
  su_token :: uuid
  su_locked :: "uuid \<Rightarrow> bool"
  su_raises :: "nat \<Rightarrow> worker_exn option"
  su_trip :: "nat \<Rightarrow> disk_trip option"
  su_codec :: codec
  su_event_id :: "nat \<Rightarrow> uuid"
  su_utc :: "nat \<Rightarrow> string"
  su_write :: "nat \<Rightarrow> nat option"

record worker_world =
  ww_db :: database
  ww_actions :: nat
  ww_journal :: "journal option"
  ww_disk :: "string option"

type_synonym 'a action = "worker_world \<Rightarrow> (worker_exn, 'a, worker_world) outcome"

definition give :: "'a \<Rightarrow> 'a action" where
  "give x w = (Inr x, w)"

definition raise_exn :: "worker_exn \<Rightarrow> 'a action" where
  "raise_exn x w = (Inl x, w)"

definition and_then :: "'a action \<Rightarrow> ('a \<Rightarrow> 'b action) \<Rightarrow> 'b action" where
  "and_then m f w = (case m w of (Inl x, w') \<Rightarrow> (Inl x, w') | (Inr y, w') \<Rightarrow> f y w')"

definition catch :: "'a action \<Rightarrow> (worker_exn \<Rightarrow> 'a action) \<Rightarrow> 'a action" where
  "catch m h w = (case m w of (Inl x, w') \<Rightarrow> h x w' | (Inr y, w') \<Rightarrow> (Inr y, w'))"

text \<open>The \<open>with\<close> statements: what follows a body that raised, and a body that did not.\<close>

definition around :: "'a action \<Rightarrow> (worker_exn \<Rightarrow> 'b action) \<Rightarrow> ('a \<Rightarrow> 'b action) \<Rightarrow> 'b action" where
  "around m h f w = (case m w of (Inl x, w') \<Rightarrow> h x w' | (Inr y, w') \<Rightarrow> f y w')"

fun each :: "('a \<Rightarrow> unit action) \<Rightarrow> 'a list \<Rightarrow> unit action" where
  "each f [] = give ()"
| "each f (x # xs) = and_then (f x) (\<lambda>_. each f xs)"

definition ask ::
  "surroundings \<Rightarrow> (time \<Rightarrow> database \<Rightarrow> (queue_error, 'a, database) outcome) \<Rightarrow> 'a action" where
  "ask e call w =
     (let n = ww_actions w
      in case call (su_now e n) (su_others e n (ww_db w)) of
           (r, db) \<Rightarrow> (case r of Inl x \<Rightarrow> Inl (exn_of_queue x) | Inr y \<Rightarrow> Inr y,
             w\<lparr>ww_db := db, ww_actions := n + 1\<rparr>))"

definition outside :: "surroundings \<Rightarrow> unit action" where
  "outside e w =
     (let n = ww_actions w; w' = w\<lparr>ww_db := su_others e n (ww_db w), ww_actions := n + 1\<rparr>
      in case su_raises e n of Some x \<Rightarrow> (Inl x, w') | None \<Rightarrow> (Inr (), w'))"

text \<open>\<open>queue.get_job(job_id)\<close>; the snapshot is read from the row.\<close>

definition read_job :: "surroundings \<Rightarrow> job_claim \<Rightarrow> reconstruction_job action" where
  "read_job e c = ask e (\<lambda>now db.
     (case owned_job (cl_job_id c) None db of
        None \<Rightarrow> Inl (Job_not_found (cl_job_id c)) | Some j \<Rightarrow> Inr j, db))"

definition heartbeat_action :: "surroundings \<Rightarrow> int \<Rightarrow> job_claim \<Rightarrow> bool action" where
  "heartbeat_action e lease_seconds c =
     and_then (ask e (heartbeat c lease_seconds)) (\<lambda>h. give (hb_cancel_requested h))"

definition advance_action ::
  "surroundings \<Rightarrow> job_claim \<Rightarrow> job_status \<Rightarrow> int option \<Rightarrow> string option \<Rightarrow> unit action" where
  "advance_action e c target progress error_code =
     and_then (ask e (advance c target progress error_code)) (\<lambda>_. give ())"

definition progress_action :: "surroundings \<Rightarrow> job_claim \<Rightarrow> int \<Rightarrow> unit action" where
  "progress_action e c n = and_then (ask e (update_progress c n)) (\<lambda>_. give ())"

section \<open>The lease loop\<close>

text \<open>The checks of \<open>LeaseHeartbeatLoop\<close> on construction; intervals are whole seconds here.\<close>

definition heartbeat_loop_error :: "int \<Rightarrow> int \<Rightarrow> string option" where
  "heartbeat_loop_error interval_seconds lease_seconds =
     (if interval_seconds \<le> 0 then Some ''interval_seconds must be positive''
      else if lease_seconds \<le> interval_seconds * 2
      then Some ''heartbeat interval must be less than half the lease TTL''
      else None)"

text \<open>
  \<open>with loop: body\<close>: stopping the thread may raise, and after a body that did not raise the failure of
  the thread is raised. The thread's heartbeats are among what the others do.
\<close>

definition with_loop :: "surroundings \<Rightarrow> int \<Rightarrow> int \<Rightarrow> 'a action \<Rightarrow> 'a action" where
  "with_loop e interval lease_seconds body =
     (if heartbeat_loop_error interval lease_seconds \<noteq> None then raise_exn Exn_controlled
      else and_then (outside e) (\<lambda>_.
        around body
          (\<lambda>x. and_then (outside e) (\<lambda>_. raise_exn x))
          (\<lambda>y. and_then (outside e) (\<lambda>_. and_then (outside e) (\<lambda>_. give y)))))"

section \<open>The simulation worker\<close>

record worker_settings =
  wks_worker_id :: string
  wks_resource_key :: string
  wks_lease_seconds :: int
  wks_heartbeat_seconds :: int

record worker_outcome =
  wo_claimed :: bool
  wo_job_id :: "uuid option"
  wo_status :: "job_status option"
  wo_recovered :: bool

text \<open>\<open>wo_status\<close> is \<open>None\<close> for the status \<open>idle\<close>.\<close>

definition idle_outcome :: worker_outcome where
  "idle_outcome = \<lparr>wo_claimed = False, wo_job_id = None, wo_status = None, wo_recovered = False\<rparr>"

definition outcome_of :: "job_claim \<Rightarrow> job_status \<Rightarrow> worker_outcome" where
  "outcome_of c s =
     \<lparr>wo_claimed = True, wo_job_id = Some (cl_job_id c), wo_status = Some s, wo_recovered = cl_recovered c\<rparr>"

definition claim_action :: "surroundings \<Rightarrow> worker_settings \<Rightarrow> string \<Rightarrow> job_claim option action" where
  "claim_action e s mode = ask e (\<lambda>now. claim_next (wks_worker_id s) (wks_resource_key s)
     (wks_lease_seconds s) (Some mode) (su_token e) (su_locked e) now)"

text \<open>
  \<open>_mark_failed\<close>: scheduler errors and \<open>ValueError\<close> are swallowed.
\<close>

definition mark_failed :: "surroundings \<Rightarrow> job_claim \<Rightarrow> string \<Rightarrow> unit action" where
  "mark_failed e c code =
     catch
       (and_then (read_job e c) (\<lambda>job.
          if job_status job \<in> terminal_statuses then give ()
          else advance_action e c
            (if job_status job = EVALUATING then FAILED_EVALUATION else FAILED_PIPELINE) None (Some code)))
       (\<lambda>x. if x = Exn_uncontrolled then raise_exn x else give ())"

definition simulation_stages :: "(job_status \<times> int) list" where
  "simulation_stages = [(DENSE_RECONSTRUCTION, 35), (MESHING, 60), (TEXTURING, 80), (VALIDATING_OUTPUT, 90)]"

definition simulate :: "surroundings \<Rightarrow> worker_settings \<Rightarrow> job_claim \<Rightarrow> worker_outcome action" where
  "simulate e s c =
     and_then (heartbeat_action e (wks_lease_seconds s) c) (\<lambda>cancel_requested.
       if cancel_requested
       then and_then (advance_action e c CANCELLED None (Some ''USER_CANCELLED''))
         (\<lambda>_. give (outcome_of c CANCELLED))
       else
         and_then (outside e) (\<lambda>_.
         and_then
           (with_loop e (wks_heartbeat_seconds s) (wks_lease_seconds s)
             (and_then (advance_action e c SFM (Some 10) None) (\<lambda>_.
              and_then (outside e) (\<lambda>_.
              and_then (outside e) (\<lambda>_.
              and_then (each (\<lambda>(status, progress). advance_action e c status (Some progress) None)
                simulation_stages) (\<lambda>_.
              and_then (advance_action e c EVALUATING (Some 95) None) (\<lambda>_.
              and_then (outside e) (\<lambda>_. outside e)))))))) (\<lambda>_.
         and_then (advance_action e c SUCCEEDED (Some 100) None) (\<lambda>_.
         give (outcome_of c SUCCEEDED)))))"

definition simulation_run_once :: "surroundings \<Rightarrow> worker_settings \<Rightarrow> worker_outcome action" where
  "simulation_run_once e s =
     and_then (claim_action e s ''simulated'') (\<lambda>claim.
       case claim of
         None \<Rightarrow> give idle_outcome
       | Some c \<Rightarrow> catch (simulate e s c) (\<lambda>x.
           if x \<in> {Exn_lease_lost, Exn_uncontrolled} then raise_exn x
           else and_then (mark_failed e c ''SIMULATION_WORKER_FAILED'') (\<lambda>_. raise_exn Exn_controlled)))"

section \<open>The real worker: progress\<close>

definition worker_flow :: "job_status list" where
  "worker_flow = [PREPARING, SFM, DENSE_RECONSTRUCTION, MESHING, TEXTURING, VALIDATING_OUTPUT, EVALUATING]"

fun index_of :: "'a \<Rightarrow> 'a list \<Rightarrow> nat option" where
  "index_of x [] = None"
| "index_of x (y # ys) = (if y = x then Some 0 else map_option Suc (index_of x ys))"

text \<open>
  \<open>_advance_to\<close>: a status outside the flow raises the \<open>ValueError\<close> of \<open>index\<close>.
\<close>

definition advance_step :: "surroundings \<Rightarrow> job_claim \<Rightarrow> int \<Rightarrow> job_status \<Rightarrow> unit action" where
  "advance_step e c progress status =
     and_then (read_job e c) (\<lambda>job.
       advance_action e c status (Some (max (job_progress job) progress)) None)"

definition advance_to :: "surroundings \<Rightarrow> job_claim \<Rightarrow> job_status \<Rightarrow> int \<Rightarrow> unit action" where
  "advance_to e c target progress =
     and_then (read_job e c) (\<lambda>job.
       if job_status job \<in> terminal_statuses then give ()
       else
         (case (index_of (job_status job) worker_flow, index_of target worker_flow) of
            (Some current_index, Some target_index) \<Rightarrow>
              if target_index < current_index
              then if job_progress job < progress then progress_action e c progress else give ()
              else
                and_then (each (advance_step e c progress)
                  (take (target_index - current_index) (drop (current_index + 1) worker_flow))) (\<lambda>_.
                and_then (read_job e c) (\<lambda>job.
                  if job_status job = target \<and> job_progress job < progress
                  then progress_action e c progress else give ()))
          | _ \<Rightarrow> raise_exn Exn_controlled))"

text \<open>\<open>_remaining_timeout_seconds\<close>, with Python's floats.\<close>

definition remaining_timeout_seconds :: "time option \<Rightarrow> int \<Rightarrow> time \<Rightarrow> int" where
  "remaining_timeout_seconds started_at configured_timeout now =
     (case started_at of
        None \<Rightarrow> configured_timeout
      | Some t \<Rightarrow>
          let elapsed = max 0 (total_seconds (now - t))
          in max 0 \<lceil>double_of (of_int configured_timeout - elapsed)\<rceil>)"

section \<open>The real worker: journal\<close>

definition journal_append :: "surroundings \<Rightarrow> string \<Rightarrow> (string \<times> json) list \<Rightarrow> unit action" where
  "journal_append e event_type payload w =
     (let n = ww_actions w; w' = w\<lparr>ww_db := su_others e n (ww_db w), ww_actions := n + 1\<rparr>
      in case ww_journal w of
           None \<Rightarrow> (Inl Exn_uncontrolled, w')
         | Some j \<Rightarrow>
             (case append_event (su_codec e) event_type payload (su_event_id e n) (su_utc e n) (su_write e n)
                 (j, ww_disk w) of
                (Inl x, (j', disk)) \<Rightarrow> (Inl (exn_of_journal x), w'\<lparr>ww_journal := Some j', ww_disk := disk\<rparr>)
              | (Inr _, (j', disk)) \<Rightarrow> (Inr (), w'\<lparr>ww_journal := Some j', ww_disk := disk\<rparr>)))"

text \<open>An append guarded by \<open>journal is not None and not journal.has_terminal_event\<close>.\<close>

definition journal_note :: "surroundings \<Rightarrow> string \<Rightarrow> (string \<times> json) list \<Rightarrow> unit action" where
  "journal_note e event_type payload w =
     (case ww_journal w of
        None \<Rightarrow> give () w
      | Some j \<Rightarrow> if has_terminal_event j then give () w else journal_append e event_type payload w)"

definition open_journal_action :: "surroundings \<Rightarrow> worker_settings \<Rightarrow> job_claim \<Rightarrow> unit action" where
  "open_journal_action e s c w =
     (case open_journal (su_codec e) (uuid_str (cl_job_id c)) (cl_attempt c) (wks_worker_id s) (ww_disk w) of
        Inl x \<Rightarrow> (Inl (exn_of_journal x), w)
      | Inr j \<Rightarrow> (Inr (), w\<lparr>ww_journal := Some j\<rparr>))"

definition append_cancelled :: "surroundings \<Rightarrow> unit action" where
  "append_cancelled e = journal_note e ''job_cancelled'' [(''message_code'', JString ''USER_CANCELLED'')]"

definition append_failure :: "surroundings \<Rightarrow> string \<Rightarrow> string \<Rightarrow> unit action" where
  "append_failure e code category = journal_note e ''job_failed''
     [(''message_code'', JString code),
      (''error'', JObject [(''code'', JString code), (''category'', JString category),
         (''retryable'', JBool (category \<in> {''resource'', ''timeout''})),
         (''diagnostic_ref'', JString ''runtime/logs/re3d-run.log'')])]"

definition trip_metrics :: "disk_trip \<Rightarrow> json" where
  "trip_metrics trip = JObject
     [(''minimum_free_bytes'', JInt (tp_minimum_free_bytes trip)),
      (''observed_free_bytes'', case tp_observed_free_bytes trip of None \<Rightarrow> JNull | Some n \<Rightarrow> JInt n)]"

section \<open>The real worker: the progress reporter\<close>

record pipeline_step =
  ps_platform_stage :: string
  ps_branch :: string
  ps_action :: string
  ps_re3d_step :: string

text \<open>The state of the reporter: the active stage and branch, and the steps completed.\<close>

type_synonym reporter = "(string \<times> string) option \<times> int"

definition complete_active :: "surroundings \<Rightarrow> reporter \<Rightarrow> reporter action" where
  "complete_active e r =
     (case r of
        (None, steps) \<Rightarrow> give r
      | (Some (stage, branch), steps) \<Rightarrow>
          and_then (journal_append e ''stage_completed''
            [(''stage'', JString stage), (''branch'', JString branch), (''message_code'', JString ''STAGE_COMPLETED'')])
            (\<lambda>_. give (None, steps)))"

definition progress_number :: "string \<Rightarrow> string" where
  "progress_number re3d_step = takeWhile (\<lambda>c. c \<noteq> CHR ''-'') re3d_step"

definition project_database_progress :: "surroundings \<Rightarrow> job_claim \<Rightarrow> string \<Rightarrow> int \<Rightarrow> unit action" where
  "project_database_progress e c re3d_step completed_steps =
     (let number = progress_number re3d_step;
          rest = and_then (read_job e c) (\<lambda>job.
            let projected = min 89 (5 + completed_steps * 3)
            in if job_progress job < projected then progress_action e c projected else give ())
      in if number \<in> {''01'', ''02'', ''03''} then and_then (advance_to e c SFM 5) (\<lambda>_. rest)
         else if number = ''90'' then advance_to e c VALIDATING_OUTPUT 92
         else if number \<noteq> ''00'' then and_then (advance_to e c DENSE_RECONSTRUCTION 15) (\<lambda>_. rest)
         else rest)"

definition on_step :: "surroundings \<Rightarrow> job_claim \<Rightarrow> pipeline_step \<Rightarrow> reporter \<Rightarrow> reporter action" where
  "on_step e c step r =
     and_then (complete_active e r) (\<lambda>(active, steps).
     and_then
       (if ps_action step = ''run''
        then and_then (journal_append e ''stage_started''
          [(''stage'', JString (ps_platform_stage step)), (''branch'', JString (ps_branch step)),
           (''message_code'', JString ''STAGE_STARTED'')])
          (\<lambda>_. give (Some (ps_platform_stage step, ps_branch step)))
        else and_then (journal_append e ''stage_completed''
          [(''stage'', JString (ps_platform_stage step)), (''branch'', JString (ps_branch step)),
           (''message_code'', JString ''STAGE_REUSED'')])
          (\<lambda>_. give active)) (\<lambda>active.
     and_then (project_database_progress e c (ps_re3d_step step) (steps + 1)) (\<lambda>_.
     give (active, steps + 1))))"

text \<open>The pipeline runner reports its steps, and may raise before, between and after them.\<close>

fun run_pipeline :: "surroundings \<Rightarrow> job_claim \<Rightarrow> pipeline_step list \<Rightarrow> reporter \<Rightarrow> reporter action" where
  "run_pipeline e c [] r = and_then (outside e) (\<lambda>_. give r)"
| "run_pipeline e c (step # steps) r =
     and_then (outside e) (\<lambda>_. and_then (on_step e c step r) (run_pipeline e c steps))"

section \<open>The real worker\<close>

text \<open>What the request file says, and the steps the pipeline will report.\<close>

record pipeline_request =
  rq_job_id :: string
  rq_user_id :: string
  rq_attempt :: int
  rq_execution_mode :: string
  rq_steps :: "pipeline_step list"

definition request_matches :: "pipeline_request \<Rightarrow> job_claim \<Rightarrow> reconstruction_job \<Rightarrow> bool" where
  "request_matches q c job \<longleftrightarrow>
     rq_job_id q = uuid_str (cl_job_id c) \<and> rq_user_id q = uuid_str (job_user_id job) \<and>
     rq_attempt q = cl_attempt c \<and> rq_execution_mode q = cl_execution_mode c"

text \<open>
  \<open>with disk_guard: body\<close>: the guard starts with a check; on the way out a trip is raised unless the
  body raised already.
\<close>

definition with_guard :: "surroundings \<Rightarrow> 'a action \<Rightarrow> 'a action" where
  "with_guard e body = and_then (outside e) (\<lambda>_.
     around body
       (\<lambda>x. catch (and_then (outside e) (\<lambda>_. raise_exn x))
         (\<lambda>y. case y of Exn_disk_guard _ \<Rightarrow> raise_exn x | _ \<Rightarrow> raise_exn y))
       (\<lambda>v. and_then (outside e) (\<lambda>_. give v)))"

definition with_monitor :: "surroundings \<Rightarrow> 'a action \<Rightarrow> 'a action" where
  "with_monitor e body = and_then (outside e) (\<lambda>_.
     around body
       (\<lambda>x. and_then (outside e) (\<lambda>_. raise_exn x))
       (\<lambda>v. and_then (outside e) (\<lambda>_. give v)))"

text \<open>\<open>health_check\<close> is one action of the outside, \<open>boundary_check\<close> three.\<close>

definition boundary_check :: "surroundings \<Rightarrow> unit action" where
  "boundary_check e = and_then (outside e) (\<lambda>_. and_then (outside e) (\<lambda>_. outside e))"

definition supervised_pipeline :: "surroundings \<Rightarrow> job_claim \<Rightarrow> pipeline_step list \<Rightarrow> unit action" where
  "supervised_pipeline e c steps =
     with_guard e (and_then
         (with_monitor e
           (and_then (boundary_check e) (\<lambda>_.
            and_then (run_pipeline e c steps (None, 0)) (\<lambda>r.
            and_then (boundary_check e) (\<lambda>_.
            and_then (complete_active e r) (\<lambda>_.
            and_then (advance_to e c VALIDATING_OUTPUT 94) (\<lambda>_.
            and_then (boundary_check e) (\<lambda>_.
            and_then (advance_to e c EVALUATING 97) (\<lambda>_.
            and_then (boundary_check e) (\<lambda>_.
            and_then (outside e) (\<lambda>_.
            boundary_check e))))))))))) (\<lambda>_.
          and_then (boundary_check e) (\<lambda>_. and_then (outside e) (\<lambda>_. outside e))))"

text \<open>The note at the start of a run: a journal that has events belongs to a run that was interrupted.\<close>

definition note_start :: "surroundings \<Rightarrow> unit action" where
  "note_start e w =
     (if (case ww_journal w of Some j \<Rightarrow> jn_events j \<noteq> [] | None \<Rightarrow> False)
      then journal_note e ''warning'' [(''message_code'', JString ''WORKER_RESUMED'')] w
      else journal_note e ''job_started'' [(''message_code'', JString ''JOB_STARTED'')] w)"

definition note_success :: "surroundings \<Rightarrow> unit action" where
  "note_success e = journal_note e ''job_succeeded''
     [(''progress'', JObject [(''percent'', JInt 100)]), (''message_code'', JString ''JOB_SUCCEEDED'')]"

text \<open>From the pipeline on: the last renewal of the lease, the last look at the disk, the success.\<close>

definition finish_real :: "surroundings \<Rightarrow> worker_settings \<Rightarrow> job_claim \<Rightarrow> worker_outcome action" where
  "finish_real e s c =
     and_then (heartbeat_action e (wks_lease_seconds s) c) (\<lambda>cancel_requested.
       if cancel_requested then raise_exn Exn_cancelled
       else
         and_then (outside e) (\<lambda>_.
         and_then (advance_action e c SUCCEEDED (Some 100) None) (\<lambda>_.
         and_then (note_success e) (\<lambda>_. give (outcome_of c SUCCEEDED)))))"

definition supervise_real ::
  "surroundings \<Rightarrow> worker_settings \<Rightarrow> pipeline_request \<Rightarrow> job_claim \<Rightarrow> worker_outcome action" where
  "supervise_real e s q c =
     and_then (open_journal_action e s c) (\<lambda>_.
     and_then (note_start e) (\<lambda>_.
     and_then (outside e) (\<lambda>_.
     and_then (advance_to e c SFM 5) (\<lambda>_.
     and_then (with_loop e (wks_heartbeat_seconds s) (wks_lease_seconds s)
       (supervised_pipeline e c (rq_steps q))) (\<lambda>_.
     finish_real e s c)))))"

definition execute_real ::
  "surroundings \<Rightarrow> worker_settings \<Rightarrow> pipeline_request \<Rightarrow> job_claim \<Rightarrow> worker_outcome action" where
  "execute_real e s q c =
     and_then (heartbeat_action e (wks_lease_seconds s) c) (\<lambda>cancel_requested.
       if cancel_requested
       then and_then (advance_action e c CANCELLED None (Some ''USER_CANCELLED''))
         (\<lambda>_. give (outcome_of c CANCELLED))
       else
         and_then (outside e) (\<lambda>_.
         and_then (read_job e c) (\<lambda>job.
         if request_matches q c job then supervise_real e s q c else raise_exn Exn_controlled)))"

definition honor_pending_cancellation ::
  "surroundings \<Rightarrow> worker_settings \<Rightarrow> job_claim \<Rightarrow> worker_outcome option action" where
  "honor_pending_cancellation e s c =
     and_then (heartbeat_action e (wks_lease_seconds s) c) (\<lambda>cancel_requested.
       if \<not> cancel_requested then give None
       else
         and_then (advance_action e c CANCELLED None (Some ''USER_CANCELLED'')) (\<lambda>_.
         and_then (append_cancelled e) (\<lambda>_. give (Some (outcome_of c CANCELLED)))))"

definition cancel_for_disk_guard ::
  "surroundings \<Rightarrow> worker_settings \<Rightarrow> job_claim \<Rightarrow> disk_trip \<Rightarrow> worker_outcome action" where
  "cancel_for_disk_guard e s c trip =
     and_then (heartbeat_action e (wks_lease_seconds s) c) (\<lambda>user_cancelled.
     and_then (advance_action e c CANCELLED None
       (Some (if user_cancelled then ''USER_CANCELLED'' else tp_code trip))) (\<lambda>_.
     and_then
       (if user_cancelled then append_cancelled e
        else journal_note e ''job_cancelled''
          [(''message_code'', JString (tp_code trip)), (''metrics'', trip_metrics trip)]) (\<lambda>_.
     give (outcome_of c CANCELLED))))"

definition honor_cancellation_or_disk_guard ::
  "surroundings \<Rightarrow> worker_settings \<Rightarrow> job_claim \<Rightarrow> worker_outcome option action" where
  "honor_cancellation_or_disk_guard e s c =
     and_then (honor_pending_cancellation e s c) (\<lambda>cancelled.
       case cancelled of
         Some out \<Rightarrow> give (Some out)
       | None \<Rightarrow> (\<lambda>w.
           (case su_trip e (ww_actions w) of
              None \<Rightarrow> give None w
            | Some trip \<Rightarrow> and_then (cancel_for_disk_guard e s c trip) (\<lambda>out. give (Some out)) w)))"

definition user_cancelled_real :: "surroundings \<Rightarrow> worker_settings \<Rightarrow> job_claim \<Rightarrow> worker_outcome action" where
  "user_cancelled_real e s c =
     and_then (heartbeat_action e (wks_lease_seconds s) c) (\<lambda>_.
     and_then (advance_action e c CANCELLED None (Some ''USER_CANCELLED'')) (\<lambda>_.
     and_then (append_cancelled e) (\<lambda>_. give (outcome_of c CANCELLED))))"

definition timed_out_real :: "surroundings \<Rightarrow> worker_settings \<Rightarrow> job_claim \<Rightarrow> worker_outcome action" where
  "timed_out_real e s c =
     and_then (honor_cancellation_or_disk_guard e s c) (\<lambda>cancelled.
       case cancelled of
         Some out \<Rightarrow> give out
       | None \<Rightarrow>
           and_then (append_failure e ''REAL_PIPELINE_TIMEOUT'' ''timeout'') (\<lambda>_.
           and_then (mark_failed e c ''REAL_PIPELINE_TIMEOUT'') (\<lambda>_. raise_exn Exn_controlled)))"

definition failed_real :: "surroundings \<Rightarrow> worker_settings \<Rightarrow> job_claim \<Rightarrow> worker_outcome action" where
  "failed_real e s c =
     and_then (honor_cancellation_or_disk_guard e s c) (\<lambda>cancelled.
       case cancelled of
         Some out \<Rightarrow> give out
       | None \<Rightarrow>
           and_then (read_job e c) (\<lambda>job.
           let code = (if job_status job = EVALUATING then ''REAL_EVALUATION_FAILED'' else ''REAL_PIPELINE_FAILED'')
           in and_then (append_failure e code ''pipeline'') (\<lambda>_.
              and_then (mark_failed e c code) (\<lambda>_. raise_exn Exn_controlled))))"

definition real_run_once ::
  "surroundings \<Rightarrow> worker_settings \<Rightarrow> pipeline_request \<Rightarrow> worker_outcome action" where
  "real_run_once e s q =
     and_then (claim_action e s ''real'') (\<lambda>claim.
       case claim of
         None \<Rightarrow> give idle_outcome
       | Some c \<Rightarrow> catch (execute_real e s q c) (\<lambda>x.
           case x of
             Exn_disk_guard trip \<Rightarrow> cancel_for_disk_guard e s c trip
           | Exn_cancelled \<Rightarrow> user_cancelled_real e s c
           | Exn_lease_lost \<Rightarrow> raise_exn x
           | Exn_timed_out \<Rightarrow> timed_out_real e s c
           | Exn_controlled \<Rightarrow> failed_real e s c
           | Exn_uncontrolled \<Rightarrow> raise_exn x))"

end
