(* ===== verification/Worker_Theorems.thy ===== *)
theory Worker_Theorems
  imports Worker Queue_Properties
begin

text \<open>
  What the workers of \<open>Worker\<close> do to the queue. The others are runs of queue calls of any kind, between
  any two actions. An action is \<open>orderly\<close> when it keeps the queue reachable and only moves job rows
  forward; it is \<open>settled\<close> when the outcome it returns is what the job's row says.
\<close>

section \<open>Orderly actions\<close>

named_theorems orderly_intros
named_theorems settled_intros

definition queue_users :: "surroundings \<Rightarrow> bool" where
  "queue_users e \<longleftrightarrow> (\<forall>n. \<exists>calls. su_others e n = run_calls calls)"

definition orderly :: "'a action \<Rightarrow> bool" where
  "orderly m \<longleftrightarrow> (\<forall>w. queue_reachable (ww_db w) \<longrightarrow>
     queue_reachable (ww_db (snd (m w))) \<and> jobs_later (ww_db w) (ww_db (snd (m w))))"

lemma orderlyD:
  assumes "orderly m" "m w = (r, w')" "queue_reachable (ww_db w)"
  shows "queue_reachable (ww_db w')" "jobs_later (ww_db w) (ww_db w')"
  using assms by (auto simp: orderly_def dest: spec [of _ w])

lemma others_orderly:
  assumes "queue_users e" "queue_reachable db"
  shows "queue_reachable (su_others e n db)" "jobs_later db (su_others e n db)"
  using assms run_calls_reachable run_calls_later by (metis queue_users_def)+

lemma orderly_same_db: "(\<And>w. ww_db (snd (m w)) = ww_db w) \<Longrightarrow> orderly m"
  by (simp add: orderly_def jobs_later_refl)

lemma orderly_others_db:
  assumes "queue_users e" "\<And>w. ww_db (snd (m w)) = su_others e (ww_actions w) (ww_db w)"
  shows "orderly m"
  using assms by (simp add: orderly_def others_orderly)

lemma orderly_give [orderly_intros]: "orderly (give x)"
  by (rule orderly_same_db) (simp add: give_def)

lemma orderly_raise [orderly_intros]: "orderly (raise_exn x)"
  by (rule orderly_same_db) (simp add: raise_exn_def)

lemma orderly_around [orderly_intros]:
  assumes "orderly m" "\<And>x. orderly (h x)" "\<And>y. orderly (f y)" shows "orderly (around m h f)"
  unfolding orderly_def
proof (intro allI impI)
  fix w :: worker_world assume w: "queue_reachable (ww_db w)"
  obtain r w1 where m: "m w = (r, w1)" by (cases "m w")
  note 1 = orderlyD [OF assms(1) m w]
  have "\<exists>k. orderly k \<and> around m h f w = k w1"
    by (cases r) (use assms in \<open>auto simp: around_def m\<close>)
  then obtain k where k: "orderly k" "around m h f w = k w1" by blast
  obtain r2 w2 where k2: "k w1 = (r2, w2)" by (cases "k w1")
  from orderlyD [OF k(1) k2 1(1)] 1(2)
  show "queue_reachable (ww_db (snd (around m h f w))) \<and> jobs_later (ww_db w) (ww_db (snd (around m h f w)))"
    by (auto simp: k(2) k2 intro: jobs_later_trans)
qed

lemma and_then_around: "and_then m f = around m raise_exn f"
  by (rule ext) (simp add: and_then_def around_def raise_exn_def split: prod.split sum.split)

lemma catch_around: "catch m h = around m h give"
  by (rule ext) (simp add: catch_def around_def give_def split: prod.split sum.split)

lemma orderly_and_then [orderly_intros]: "orderly m \<Longrightarrow> (\<And>x. orderly (f x)) \<Longrightarrow> orderly (and_then m f)"
  unfolding and_then_around by (intro orderly_intros)

lemma orderly_catch [orderly_intros]: "orderly m \<Longrightarrow> (\<And>x. orderly (h x)) \<Longrightarrow> orderly (catch m h)"
  unfolding catch_around by (intro orderly_intros)

lemma orderly_if [orderly_intros]: "orderly m \<Longrightarrow> orderly m' \<Longrightarrow> orderly (if b then m else m')"
  by simp

lemma orderly_option [orderly_intros]:
  "orderly m \<Longrightarrow> (\<And>x. orderly (f x)) \<Longrightarrow> orderly (case o' of None \<Rightarrow> m | Some x \<Rightarrow> f x)"
  by (cases o') simp_all

lemma orderly_prod [orderly_intros]: "(\<And>x y. orderly (f x y)) \<Longrightarrow> orderly (case p of (x, y) \<Rightarrow> f x y)"
  by (cases p) simp

lemma orderly_each [orderly_intros]: "(\<And>x. orderly (f x)) \<Longrightarrow> orderly (each f xs)"
  by (induction xs) (auto intro: orderly_intros)

text \<open>A choice made by looking at the world.\<close>

lemma orderly_look: "(\<And>v. orderly (f v)) \<Longrightarrow> orderly (\<lambda>w. f (g w) w)"
  by (auto simp: orderly_def)

lemma orderly_outside [orderly_intros]: "queue_users e \<Longrightarrow> orderly (outside e)"
  by (rule orderly_others_db [of e]) (auto simp: outside_def Let_def split: option.split)

lemma orderly_ask:
  assumes "queue_users e" and "\<And>now db. queue_reachable db \<Longrightarrow>
      queue_reachable (snd (call now db)) \<and> jobs_later db (snd (call now db))"
  shows "orderly (ask e call)"
  unfolding orderly_def
proof (intro allI impI)
  fix w :: worker_world assume w: "queue_reachable (ww_db w)"
  let ?db = "su_others e (ww_actions w) (ww_db w)"
  have "ww_db (snd (ask e call w)) = snd (call (su_now e (ww_actions w)) ?db)"
    by (simp add: ask_def Let_def split: prod.split)
  with others_orderly [OF assms(1) w] assms(2)
  show "queue_reachable (ww_db (snd (ask e call w))) \<and> jobs_later (ww_db w) (ww_db (snd (ask e call w)))"
    by (metis jobs_later_trans)
qed

lemma step_orderly:
  assumes "queue_step call db db'" "queue_reachable db"
  shows "queue_reachable db'" "jobs_later db db'"
  using assms queue_reachable_step queue_step_later queue_reachable_inv by blast+

lemma orderly_ask_step:
  assumes "queue_users e" "\<And>now db. queue_step (f now) db (snd (call now db))"
  shows "orderly (ask e call)"
  using assms(1) by (rule orderly_ask) (blast intro: step_orderly assms(2))

lemma orderly_read_job [orderly_intros]: "queue_users e \<Longrightarrow> orderly (read_job e c)"
  unfolding read_job_def by (erule orderly_ask) (simp add: jobs_later_refl)

lemma orderly_heartbeat [orderly_intros]: "queue_users e \<Longrightarrow> orderly (heartbeat_action e n c)"
  unfolding heartbeat_action_def
  by (intro orderly_intros orderly_ask_step [where f = "Heartbeat c n"])
    (simp_all add: queue_step_simps prod_eq_iff)

lemma orderly_advance [orderly_intros]: "queue_users e \<Longrightarrow> orderly (advance_action e c t p ec)"
  unfolding advance_action_def
  by (intro orderly_intros orderly_ask_step [where f = "Advance c t p ec"])
    (simp_all add: queue_step_simps prod_eq_iff)

lemma orderly_progress [orderly_intros]: "queue_users e \<Longrightarrow> orderly (progress_action e c n)"
  unfolding progress_action_def
  by (intro orderly_intros orderly_ask_step [where f = "Update_progress c n"])
    (simp_all add: queue_step_simps prod_eq_iff)

lemma orderly_claim [orderly_intros]: "queue_users e \<Longrightarrow> orderly (claim_action e s mode)"
  unfolding claim_action_def
  by (intro orderly_ask_step [where f = "Claim_next (wks_worker_id s) (wks_resource_key s)
        (wks_lease_seconds s) (Some mode) (su_token e) (su_locked e)"])
    (simp_all add: queue_step_simps prod_eq_iff)

section \<open>The workers are orderly\<close>

lemma orderly_exn [orderly_intros]:
  assumes "\<And>t. orderly (f1 t)" "orderly m1" "orderly m2" "orderly m3" "orderly m4" "orderly m5"
  shows "orderly (case x of Exn_lease_lost \<Rightarrow> m1 | Exn_cancelled \<Rightarrow> m2 | Exn_disk_guard t \<Rightarrow> f1 t
    | Exn_timed_out \<Rightarrow> m3 | Exn_controlled \<Rightarrow> m4 | Exn_uncontrolled \<Rightarrow> m5)"
  using assms by (cases x) simp_all

lemma orderly_with_loop [orderly_intros]: "queue_users e \<Longrightarrow> orderly body \<Longrightarrow> orderly (with_loop e i n body)"
  unfolding with_loop_def by (intro orderly_intros)

lemma orderly_with_guard [orderly_intros]: "queue_users e \<Longrightarrow> orderly body \<Longrightarrow> orderly (with_guard e body)"
  unfolding with_guard_def by (intro orderly_intros)

lemma orderly_with_monitor [orderly_intros]: "queue_users e \<Longrightarrow> orderly body \<Longrightarrow> orderly (with_monitor e body)"
  unfolding with_monitor_def by (intro orderly_intros)

lemma orderly_mark_failed [orderly_intros]: "queue_users e \<Longrightarrow> orderly (mark_failed e c code)"
  unfolding mark_failed_def by (intro orderly_intros)

lemma orderly_simulate [orderly_intros]: "queue_users e \<Longrightarrow> orderly (simulate e s c)"
  unfolding simulate_def by (intro orderly_intros)

lemma orderly_advance_to [orderly_intros]: "queue_users e \<Longrightarrow> orderly (advance_to e c t n)"
  unfolding advance_to_def advance_step_def by (intro orderly_intros)

lemma orderly_journal_append [orderly_intros]: "queue_users e \<Longrightarrow> orderly (journal_append e t p)"
  by (rule orderly_others_db [of e])
    (auto simp: journal_append_def Let_def split: option.split prod.split sum.split)

lemma journal_note_look: "journal_note e t p = (\<lambda>w. (case ww_journal w of None \<Rightarrow> give ()
    | Some j \<Rightarrow> if has_terminal_event j then give () else journal_append e t p) w)"
  by (rule ext) (simp add: journal_note_def split: option.split)

lemma orderly_journal_note [orderly_intros]: "queue_users e \<Longrightarrow> orderly (journal_note e t p)"
  unfolding journal_note_look
  by (rule orderly_look [where g = ww_journal]) (intro orderly_intros)

lemma orderly_note_start [orderly_intros]: "queue_users e \<Longrightarrow> orderly (note_start e)"
  using orderly_look [of "\<lambda>b. if b then journal_note e ''warning'' [(''message_code'', JString ''WORKER_RESUMED'')]
      else journal_note e ''job_started'' [(''message_code'', JString ''JOB_STARTED'')]"
    "\<lambda>w. case ww_journal w of Some j \<Rightarrow> jn_events j \<noteq> [] | None \<Rightarrow> False"]
  by (simp add: note_start_def [abs_def] if_distribR orderly_journal_note)

lemma orderly_journal_actions [orderly_intros]:
  assumes "queue_users e"
  shows "orderly (note_success e)" "orderly (append_cancelled e)" "orderly (append_failure e code category)"
  using assms by (simp_all add: note_success_def append_cancelled_def append_failure_def orderly_journal_note)

lemma orderly_open_journal [orderly_intros]: "orderly (open_journal_action e s c)"
  by (rule orderly_same_db) (simp add: open_journal_action_def split: sum.split)

lemma orderly_complete_active [orderly_intros]: "queue_users e \<Longrightarrow> orderly (complete_active e r)"
  unfolding complete_active_def by (intro orderly_intros)

lemma orderly_project [orderly_intros]: "queue_users e \<Longrightarrow> orderly (project_database_progress e c n k)"
  unfolding project_database_progress_def Let_def by (intro orderly_intros)

lemma orderly_on_step [orderly_intros]: "queue_users e \<Longrightarrow> orderly (on_step e c step r)"
  unfolding on_step_def by (intro orderly_intros)

lemma orderly_run_pipeline [orderly_intros]: "queue_users e \<Longrightarrow> orderly (run_pipeline e c steps r)"
  by (induction steps arbitrary: r) (auto intro!: orderly_intros)

lemma orderly_boundary_check [orderly_intros]: "queue_users e \<Longrightarrow> orderly (boundary_check e)"
  unfolding boundary_check_def by (intro orderly_intros)

lemma orderly_supervised_pipeline [orderly_intros]: "queue_users e \<Longrightarrow> orderly (supervised_pipeline e c steps)"
  unfolding supervised_pipeline_def by (intro orderly_intros)

lemma orderly_finish_real [orderly_intros]: "queue_users e \<Longrightarrow> orderly (finish_real e s c)"
  unfolding finish_real_def by (intro orderly_intros)

lemma orderly_supervise_real [orderly_intros]: "queue_users e \<Longrightarrow> orderly (supervise_real e s q c)"
  unfolding supervise_real_def by (intro orderly_intros)

lemma orderly_execute_real [orderly_intros]: "queue_users e \<Longrightarrow> orderly (execute_real e s q c)"
  unfolding execute_real_def by (intro orderly_intros)

lemma orderly_honor_pending [orderly_intros]: "queue_users e \<Longrightarrow> orderly (honor_pending_cancellation e s c)"
  unfolding honor_pending_cancellation_def by (intro orderly_intros)

lemma orderly_cancel_for_disk_guard [orderly_intros]: "queue_users e \<Longrightarrow> orderly (cancel_for_disk_guard e s c trip)"
  unfolding cancel_for_disk_guard_def by (intro orderly_intros)

section \<open>Outcomes\<close>

text \<open>What a returned outcome must match: the job's row, in a final status.\<close>

definition outcome_holds :: "worker_outcome \<Rightarrow> database \<Rightarrow> bool" where
  "outcome_holds out db \<longleftrightarrow>
     (if wo_claimed out
      then \<exists>k j. wo_job_id out = Some k \<and> get_job k db = Some j \<and>
        wo_status out = Some (job_status j) \<and> job_status j \<in> terminal_statuses
      else out = idle_outcome)"

lemma outcome_holds_later: "outcome_holds out db \<Longrightarrow> jobs_later db db' \<Longrightarrow> outcome_holds out db'"
  by (fastforce simp: outcome_holds_def jobs_later_def job_later_def split: if_splits)

definition settled :: "('a \<Rightarrow> worker_outcome option) \<Rightarrow> 'a action \<Rightarrow> bool" where
  "settled f m \<longleftrightarrow> (\<forall>w v w' out. queue_reachable (ww_db w) \<longrightarrow> m w = (Inr v, w') \<longrightarrow> f v = Some out \<longrightarrow>
     outcome_holds out (ww_db w'))"

lemma settledD:
  "settled f m \<Longrightarrow> m w = (Inr v, w') \<Longrightarrow> queue_reachable (ww_db w) \<Longrightarrow> f v = Some out \<Longrightarrow>
     outcome_holds out (ww_db w')"
  by (simp add: settled_def)

lemma settled_raise [settled_intros]: "settled f (raise_exn x)"
  by (simp add: settled_def raise_exn_def)

lemma settled_none [settled_intros]: "settled (\<lambda>x. x) (give None)"
  by (simp add: settled_def give_def)

lemma settled_idle [settled_intros]: "settled Some (give idle_outcome)"
  by (simp add: settled_def give_def outcome_holds_def idle_outcome_def)

lemma settled_and_then:
  assumes "orderly m" "\<And>x. settled g (f x)" shows "settled g (and_then m f)"
  unfolding settled_def
proof (intro allI impI)
  fix w :: worker_world and v w' out
  assume w: "queue_reachable (ww_db w)" and r: "and_then m f w = (Inr v, w')" and out: "g v = Some out"
  from r obtain x w1 where m: "m w = (Inr x, w1)" and f: "f x w1 = (Inr v, w')"
    by (auto simp: and_then_def split: prod.splits sum.splits)
  from settledD [OF assms(2) f orderlyD(1) [OF assms(1) m w] out] show "outcome_holds out (ww_db w')" .
qed

lemma settled_catch [settled_intros]:
  assumes "settled g m" "orderly m" "\<And>x. settled g (h x)" shows "settled g (catch m h)"
  unfolding settled_def
proof (intro allI impI)
  fix w :: worker_world and v w' out
  assume w: "queue_reachable (ww_db w)" and r: "catch m h w = (Inr v, w')" and out: "g v = Some out"
  show "outcome_holds out (ww_db w')"
  proof (cases "m w")
    case (Pair a w1)
    show ?thesis
    proof (cases a)
      case (Inl x)
      with r Pair have "h x w1 = (Inr v, w')" by (simp add: catch_def)
      then show ?thesis using assms(3) orderlyD(1) [OF assms(2) Pair w] out by (metis settledD)
    next
      case (Inr y)
      with r Pair have "m w = (Inr v, w')" by (simp add: catch_def)
      then show ?thesis using assms(1) w out by (metis settledD)
    qed
  qed
qed

lemma settled_if [settled_intros]: "settled g m \<Longrightarrow> settled g m' \<Longrightarrow> settled g (if b then m else m')"
  by simp

text \<open>A call that moves the job to a final status, and what the worker still does before it returns.\<close>

lemma settled_finish [settled_intros]:
  assumes e: "queue_users e" and t: "t \<in> terminal_statuses" and rest: "orderly rest"
    and g: "g v = Some (outcome_of c t)"
  shows "settled g (and_then (advance_action e c t p ec) (\<lambda>_. and_then rest (\<lambda>_. give v)))"
  unfolding settled_def
proof (intro allI impI)
  fix w :: worker_world and v' w' out
  assume w: "queue_reachable (ww_db w)" and out: "g v' = Some out"
    and r: "and_then (advance_action e c t p ec) (\<lambda>_. and_then rest (\<lambda>_. give v)) w = (Inr v', w')"
  let ?n = "ww_actions w" let ?db = "su_others e ?n (ww_db w)"
  from r obtain w1 y db where adv: "advance c t p ec (su_now e ?n) ?db = (Inr y, db)"
    and m: "advance_action e c t p ec w = (Inr (), w1)" and w1: "ww_db w1 = db"
    and x: "\<exists>u. rest w1 = (Inr u, w')" and v': "v' = v"
    by (auto simp: and_then_def advance_action_def ask_def give_def Let_def split: prod.splits sum.splits)
  from adv obtain lease job where own: "lock_owned_lease c (su_now e ?n) ?db = Inr (lease, job)"
    and db: "db = put_lease (clear_lease lease (su_now e ?n)) (put_job (advanced_job t p ec (su_now e ?n) job) ?db)"
    by (cases rule: advance_effect [of c t p ec "su_now e ?n" ?db]) (use t in auto)
  note o = lock_owned_leaseD [OF own]
  have "get_job (cl_job_id c) db = Some (advanced_job t p ec (su_now e ?n) job)"
    using o by (simp add: db job_rows.get_put)
  then have "outcome_holds (outcome_of c t) (ww_db w1)"
    using t w1 by (simp add: outcome_holds_def outcome_of_def)
  moreover from x obtain u where "rest w1 = (Inr u, w')" by blast
  from orderlyD(2) [OF rest this orderlyD(1) [OF orderly_advance [OF e] m w]]
  have "jobs_later (ww_db w1) (ww_db w')" .
  ultimately show "outcome_holds out (ww_db w')" using out g v' outcome_holds_later by auto
qed

lemma settled_finish_now [settled_intros]:
  assumes "queue_users e" "t \<in> terminal_statuses" "g v = Some (outcome_of c t)"
  shows "settled g (and_then (advance_action e c t p ec) (\<lambda>_. give v))"
  using settled_finish [where g = g and v = v, OF assms(1,2) orderly_give [of "()"] assms(3), of p ec]
  by (simp add: and_then_def [abs_def] give_def)

text \<open>A helper may settle the job and say so, or leave it to what follows.\<close>

lemma settled_unless [settled_intros]:
  assumes m: "settled (\<lambda>x. x) m" "orderly m" and f: "settled g f" and h: "\<And>out. g (h out) = Some out"
  shows "settled g (and_then m (\<lambda>r. case r of Some out \<Rightarrow> give (h out) | None \<Rightarrow> f))"
  unfolding settled_def
proof (intro allI impI)
  fix w :: worker_world and v w' out
  assume w: "queue_reachable (ww_db w)" and out: "g v = Some out"
    and r: "and_then m (\<lambda>r. case r of Some out \<Rightarrow> give (h out) | None \<Rightarrow> f) w = (Inr v, w')"
  from r obtain x w1 where m1: "m w = (Inr x, w1)"
    and k: "(case x of Some out \<Rightarrow> give (h out) | None \<Rightarrow> f) w1 = (Inr v, w')"
    by (auto simp: and_then_def split: prod.splits sum.splits)
  show "outcome_holds out (ww_db w')"
  proof (cases x)
    case None
    with k have "f w1 = (Inr v, w')" by simp
    from settledD [OF f this orderlyD(1) [OF m(2) m1 w] out] show ?thesis .
  next
    case (Some o')
    with k h out have "o' = out" "w' = w1" by (auto simp: give_def)
    with settledD [OF m(1) m1 w] Some show ?thesis by simp
  qed
qed

lemma terminal_ones [settled_intros]: "CANCELLED \<in> terminal_statuses" "SUCCEEDED \<in> terminal_statuses"
  by (simp_all add: terminal_statuses_def)

lemma settled_cancel_for_disk_guard [settled_intros]:
  "queue_users e \<Longrightarrow> settled Some (cancel_for_disk_guard e s c trip)"
  unfolding cancel_for_disk_guard_def
  by (rule settled_and_then) (auto intro: orderly_intros settled_intros)

lemma settled_cancel_some:
  assumes "queue_users e"
  shows "settled (\<lambda>x. x) (and_then (cancel_for_disk_guard e s c trip) (\<lambda>out. give (Some out)))"
  using settled_cancel_for_disk_guard [OF assms, of s c trip]
  by (auto simp: settled_def and_then_def give_def split: prod.splits sum.splits)

lemma settled_honor_pending [settled_intros]:
  "queue_users e \<Longrightarrow> settled (\<lambda>x. x) (honor_pending_cancellation e s c)"
  unfolding honor_pending_cancellation_def
  by (rule settled_and_then) (auto intro!: orderly_intros settled_intros)

lemma settled_look: "(\<And>v. settled g (f v)) \<Longrightarrow> settled g (\<lambda>w. f (k w) w)"
  by (auto simp: settled_def)

lemma honor_look:
  "(\<lambda>w. case su_trip e (ww_actions w) of None \<Rightarrow> give None w
      | Some trip \<Rightarrow> and_then (cancel_for_disk_guard e s c trip) (\<lambda>out. give (Some out)) w) =
   (\<lambda>w. (case su_trip e (ww_actions w) of None \<Rightarrow> give None
      | Some trip \<Rightarrow> and_then (cancel_for_disk_guard e s c trip) (\<lambda>out. give (Some out))) w)"
  by (rule ext) (simp split: option.split)

lemma settled_option [settled_intros]:
  "settled g m \<Longrightarrow> (\<And>x. settled g (f x)) \<Longrightarrow> settled g (case o' of None \<Rightarrow> m | Some x \<Rightarrow> f x)"
  by (cases o') simp_all

lemma honor_settled [settled_intros]:
  "queue_users e \<Longrightarrow> settled (\<lambda>x. x) (honor_cancellation_or_disk_guard e s c)"
  unfolding honor_cancellation_or_disk_guard_def honor_look
  by (rule settled_unless [where h = Some], rule settled_honor_pending, assumption,
      rule orderly_honor_pending, assumption,
      rule settled_look [where k = "\<lambda>w. su_trip e (ww_actions w)"],
      rule settled_option, rule settled_none, erule settled_cancel_some, rule refl)

lemma honor_orderly [orderly_intros]: "queue_users e \<Longrightarrow> orderly (honor_cancellation_or_disk_guard e s c)"
  unfolding honor_cancellation_or_disk_guard_def honor_look
  by (intro orderly_intros orderly_look [where g = "\<lambda>w. su_trip e (ww_actions w)"])

lemma settled_raising:
  assumes "orderly m" "orderly m'"
  shows "settled g (and_then m (\<lambda>_. and_then m' (\<lambda>_. raise_exn x)))"
  by (intro settled_and_then settled_raise assms)

lemma settled_timed_out [settled_intros]: "queue_users e \<Longrightarrow> settled Some (timed_out_real e s c)"
  unfolding timed_out_real_def
  by (rule settled_unless [where h = "\<lambda>x. x"])
    (simp_all add: honor_settled honor_orderly settled_raising orderly_journal_actions orderly_mark_failed)

lemma settled_failed [settled_intros]: "queue_users e \<Longrightarrow> settled Some (failed_real e s c)"
  unfolding failed_real_def Let_def
  by (rule settled_unless [where h = "\<lambda>x. x"])
    (auto simp: honor_settled honor_orderly orderly_journal_actions orderly_mark_failed
      intro!: settled_and_then settled_raising orderly_read_job)

lemma settled_user_cancelled [settled_intros]: "queue_users e \<Longrightarrow> settled Some (user_cancelled_real e s c)"
  unfolding user_cancelled_real_def
  by (rule settled_and_then) (auto intro: orderly_intros settled_intros)

lemma settled_finish_real [settled_intros]: "queue_users e \<Longrightarrow> settled Some (finish_real e s c)"
  unfolding finish_real_def
  by (intro settled_and_then [OF orderly_heartbeat] settled_if settled_raise
      settled_and_then [OF orderly_outside] settled_finish orderly_journal_actions terminal_ones) simp_all

lemma settled_supervise_real [settled_intros]: "queue_users e \<Longrightarrow> settled Some (supervise_real e s q c)"
  unfolding supervise_real_def
  by (intro settled_and_then settled_finish_real orderly_intros)

lemma settled_execute_real [settled_intros]: "queue_users e \<Longrightarrow> settled Some (execute_real e s q c)"
  unfolding execute_real_def
  by (intro settled_and_then [OF orderly_heartbeat] settled_if settled_finish_now
      settled_and_then [OF orderly_outside] settled_and_then [OF orderly_read_job]
      settled_supervise_real settled_raise terminal_ones) simp_all

lemma settled_simulate [settled_intros]: "queue_users e \<Longrightarrow> settled Some (simulate e s c)"
  unfolding simulate_def
  by (intro settled_and_then [OF orderly_heartbeat] settled_if settled_finish_now
      settled_and_then [OF orderly_outside] settled_and_then [OF orderly_with_loop] orderly_intros terminal_ones)
    simp_all

section \<open>Runs\<close>

lemma settled_real: "queue_users e \<Longrightarrow> settled Some (real_run_once e s q)"
  unfolding real_run_once_def
  by (rule settled_and_then [OF orderly_claim])
    (auto intro!: settled_idle settled_catch settled_execute_real orderly_execute_real
      simp: settled_cancel_for_disk_guard settled_user_cancelled settled_timed_out settled_failed
        settled_raise split: option.split worker_exn.split)

lemma settled_simulation: "queue_users e \<Longrightarrow> settled Some (simulation_run_once e s)"
  unfolding simulation_run_once_def
  by (rule settled_and_then [OF orderly_claim])
    (auto intro!: settled_idle settled_catch settled_simulate orderly_simulate
      simp: settled_raise settled_and_then orderly_mark_failed split: option.split)

text \<open>
  C23. A worker never reports an outcome the queue does not hold: when a run of the real or of the
  simulation worker returns, whatever the other processes did through the queue in the meantime, either it
  claimed nothing, or the job it names is in exactly the final status it reports. So no job is reported done,
  or cancelled, on a lease that was lost.
\<close>

theorem worker_outcome_is_recorded:
  assumes "queue_users e" and "queue_reachable (ww_db w)"
    and "real_run_once e s q w = (Inr out, w') \<or> simulation_run_once e s w = (Inr out, w')"
  shows "outcome_holds out (ww_db w')"
  using assms settledD [OF settled_real [OF assms(1)]] settledD [OF settled_simulation [OF assms(1)]]
  by blast

text \<open>A run in which the user cancels the job after it was claimed.\<close>

definition demo_around :: surroundings where
  "demo_around = \<lparr>su_others = \<lambda>n. run_calls (if n = 1 then [Request_cancel 8 (Some 1) False 0 150] else []),
     su_now = \<lambda>n. 100 + 100 * int n, su_token = 900, su_locked = \<lambda>_. False,
     su_raises = \<lambda>_. None, su_trip = \<lambda>_. None,
     su_codec = \<lparr>cd_dumps = \<lambda>_. [], cd_loads = \<lambda>_. None, cd_valid_event = \<lambda>_. True\<rparr>,
     su_event_id = \<lambda>n. n, su_utc = \<lambda>_. [], su_write = \<lambda>_. None\<rparr>"

definition demo_worker :: worker_settings where
  "demo_worker = \<lparr>wks_worker_id = ''w1'', wks_resource_key = ''gpu:0'', wks_lease_seconds = 60,
     wks_heartbeat_seconds = 20\<rparr>"

definition demo_world :: worker_world where
  "demo_world = \<lparr>ww_db = demo_queued, ww_actions = 0, ww_journal = None, ww_disk = None\<rparr>"

lemma demo_claim_real: "claim_next ''w1'' ''gpu:0'' 60 (Some ''real'') 900 (\<lambda>_. False) 100 demo_queued =
    (Inr (Some demo_claim), demo_claimed)"
proof -
  have nxt: "next_queued_job (\<lambda>_. False) (Some ''real'') demo_queued = Some (demo_job 8 (CHR ''2'') 5 20)"
    by (simp add: next_queued_job_def demo_queued_eq claimable_def first_by_def queue_order_def)
  have free: "wl_job_id demo_free_lease = None" by (simp add: demo_free_lease_def)
  have valid: "claim_valid ''w1'' ''gpu:0'' 60 (Some ''real'')"
    using demo_claim_valid by (simp add: claim_valid_def)
  show ?thesis
    using claim_next_free [OF queue_reachable_inv [OF demo_reachable(1)] valid demo_token_unused demo_lease free nxt]
    by (simp add: demo_claim_def demo_job_def demo_claimed_eq demo_held_lease_def demo_running_job_def)
qed

lemma demo_users: "queue_users demo_around"
  by (auto simp: queue_users_def demo_around_def)

lemma demo_cancel_run:
  "\<exists>w'. real_run_once demo_around demo_worker q demo_world = (Inr (outcome_of demo_claim CANCELLED), w')"
proof -
  have "valid_error_code ''USER_CANCELLED''"
    by (simp add: valid_error_code_def fullmatch_def char_class_defs)
  then show ?thesis
    by (simp add: real_run_once_def claim_action_def ask_def demo_around_def demo_worker_def demo_world_def
        demo_claim_real and_then_def give_def catch_def execute_real_def heartbeat_action_def Let_def
        request_cancel_def owned_job_def demo_claimed_rows cancellable_before_start_def
        cancelled_job_def heartbeat_def valid_lease_seconds_def lock_owned_lease_def
        demo_claim_fields is_active_def job_rows.get_put demo_running_job_def lease_rows.get_put
        advance_action_def advance_def advance_invalid_def failure_statuses_def transaction_def
        advance_in_session_def assert_transition_def can_transition_iff allowed_transitions_simps)
qed

theorem worker_outcome_is_recorded_witness:
  "\<exists>w' j. real_run_once demo_around demo_worker undefined demo_world = (Inr (outcome_of demo_claim CANCELLED), w') \<and>
     get_job 8 (ww_db w') = Some j \<and> job_status j = CANCELLED"
proof -
  obtain w' where w': "real_run_once demo_around demo_worker undefined demo_world =
      (Inr (outcome_of demo_claim CANCELLED), w')" using demo_cancel_run by blast
  have "queue_reachable (ww_db demo_world)" using demo_reachable by (simp add: demo_world_def)
  from worker_outcome_is_recorded [OF demo_users this disjI1 [OF w']] w' show ?thesis
    by (auto simp: outcome_holds_def outcome_of_def demo_claim_fields)
qed

end
