(* ===== verification/Queue_Refinement.thy ===== *)
theory Queue_Refinement
  imports Queue_Properties
begin

text \<open>
  What the job queue promises, without leases, clocks, progress or versions: jobs wait, work on one
  resource under one token, or have ended. Every queue call is one step of this queue, or no step.
\<close>

section \<open>The abstract queue\<close>

datatype phase = Waiting | Working | Ended job_status

record spec_queue =
  sq_jobs :: "uuid \<Rightarrow> phase option"
  sq_work :: "string \<Rightarrow> (uuid \<times> uuid) option"

datatype spec_event =
    Silent
  | Submitted uuid
  | Started string uuid uuid
  | Reassigned string uuid uuid
  | Finished string uuid uuid job_status
  | Withdrawn uuid

fun spec_step :: "spec_event \<Rightarrow> spec_queue \<Rightarrow> spec_queue option" where
  "spec_step Silent s = Some s"
| "spec_step (Submitted k) s =
     (if sq_jobs s k = None then Some (s\<lparr>sq_jobs := (sq_jobs s)(k \<mapsto> Waiting)\<rparr>) else None)"
| "spec_step (Started r k t) s =
     (if sq_jobs s k = Some Waiting \<and> sq_work s r = None
      then Some (s\<lparr>sq_jobs := (sq_jobs s)(k \<mapsto> Working), sq_work := (sq_work s)(r \<mapsto> (k, t))\<rparr>) else None)"
| "spec_step (Reassigned r k t) s =
     (if sq_jobs s k = Some Working \<and> map_option fst (sq_work s r) = Some k
      then Some (s\<lparr>sq_work := (sq_work s)(r \<mapsto> (k, t))\<rparr>) else None)"
| "spec_step (Finished r k t e) s =
     (if sq_jobs s k = Some Working \<and> sq_work s r = Some (k, t) \<and> e \<in> terminal_statuses
      then Some (s\<lparr>sq_jobs := (sq_jobs s)(k \<mapsto> Ended e), sq_work := (sq_work s)(r := None)\<rparr>) else None)"
| "spec_step (Withdrawn k) s =
     (if sq_jobs s k = Some Waiting then Some (s\<lparr>sq_jobs := (sq_jobs s)(k \<mapsto> Ended CANCELLED)\<rparr>) else None)"

section \<open>What the database means\<close>

definition phase_of :: "reconstruction_job \<Rightarrow> phase" where
  "phase_of j = (if job_status j \<in> terminal_statuses then Ended (job_status j)
     else if job_status j \<in> running_statuses then Working else Waiting)"

definition work_of :: "worker_lease \<Rightarrow> (uuid \<times> uuid) option" where
  "work_of l = (case (wl_job_id l, wl_lease_token l) of (Some k, Some t) \<Rightarrow> Some (k, t) | _ \<Rightarrow> None)"

definition spec_of :: "database \<Rightarrow> spec_queue" where
  "spec_of db = \<lparr>sq_jobs = \<lambda>k. map_option phase_of (get_job k db),
     sq_work = \<lambda>r. Option.bind (get_lease r db) work_of\<rparr>"

text \<open>The event a call shows by its answer.\<close>

fun event_of :: "queue_call \<Rightarrow> database \<Rightarrow> spec_event" where
  "event_of (Enqueue q now) db =
     (case fst (enqueue q now db) of Inr _ \<Rightarrow> Submitted (eq_job_id q) | Inl _ \<Rightarrow> Silent)"
| "event_of (Claim_next w r n m t locked now) db =
     (case fst (claim_next w r n m t locked now db) of
        Inr (Some c) \<Rightarrow>
          if cl_recovered c then Reassigned r (cl_job_id c) (cl_lease_token c)
          else Started r (cl_job_id c) (cl_lease_token c)
      | _ \<Rightarrow> Silent)"
| "event_of (Advance c t p e now) db =
     (case fst (advance c t p e now db) of
        Inr s \<Rightarrow> if s \<in> terminal_statuses then Finished (cl_resource_key c) (cl_job_id c) (cl_lease_token c) s
          else Silent
      | Inl _ \<Rightarrow> Silent)"
| "event_of (Request_cancel k u audit ev now) db =
     (case (fst (request_cancel k u audit ev now db), get_job k db) of
        (Inr s, Some j) \<Rightarrow> if s = CANCELLED \<and> job_status j \<noteq> CANCELLED then Withdrawn k else Silent
      | _ \<Rightarrow> Silent)"
| "event_of _ db = Silent"

section \<open>Writes\<close>

lemma spec_of_frame [simp]:
  "spec_of (add_task_event e db) = spec_of db"
  by (simp add: spec_of_def)

lemma spec_of_put_job:
  "get_job (job_id j) db \<noteq> None \<Longrightarrow>
     spec_of (put_job j db) = (spec_of db)\<lparr>sq_jobs := (sq_jobs (spec_of db))(job_id j \<mapsto> phase_of j)\<rparr>"
  by (auto simp: spec_of_def fun_eq_iff job_rows.get_put_same job_rows.get_put_other)

lemma spec_of_put_lease:
  "get_lease (wl_resource_key l) db \<noteq> None \<Longrightarrow>
     spec_of (put_lease l db) = (spec_of db)\<lparr>sq_work := (sq_work (spec_of db))(wl_resource_key l := work_of l)\<rparr>"
  by (auto simp: spec_of_def fun_eq_iff lease_rows.get_put_same lease_rows.get_put_other)

lemma spec_of_same:
  "(\<And>k. get_job k db' = get_job k db) \<Longrightarrow> (\<And>r. get_lease r db' = get_lease r db) \<Longrightarrow> spec_of db' = spec_of db"
  by (simp add: spec_of_def)

lemma spec_of_sel:
  "sq_jobs (spec_of db) k = map_option phase_of (get_job k db)"
  "sq_work (spec_of db) r = Option.bind (get_lease r db) work_of"
  by (simp_all add: spec_of_def)

lemma spec_put_same_job:
  assumes "get_job (job_id j') db = Some j" "phase_of j' = phase_of j"
  shows "spec_of (put_job j' db) = spec_of db"
  using assms by (auto simp: spec_of_put_job fun_eq_iff spec_of_sel intro!: spec_queue.equality)

lemma spec_put_same_lease:
  assumes "get_lease (wl_resource_key l') db = Some l" "work_of l' = work_of l"
  shows "spec_of (put_lease l' db) = spec_of db"
  using assms by (auto simp: spec_of_put_lease fun_eq_iff spec_of_sel intro!: spec_queue.equality)

lemma work_of_clear [simp]: "work_of (clear_lease l now) = None"
  by (simp add: work_of_def)

section \<open>Every call is a step\<close>

lemma heartbeat_spec: "spec_of (snd (heartbeat c n now db)) = spec_of db"
proof (cases rule: heartbeat_effect [of c n now db])
  case (Renewed lease job)
  note o = lock_owned_leaseD [OF Renewed(2)]
  show ?thesis unfolding Renewed(3) snd_conv
    by (rule spec_put_same_lease [where l = lease]) (use o(1,9) in \<open>simp_all add: work_of_def\<close>)
qed simp

lemma update_progress_spec: "spec_of (snd (update_progress c n now db)) = spec_of db"
proof (cases rule: update_progress_effect [of c n now db])
  case (Raised lease job)
  note o = lock_owned_leaseD [OF Raised(1)]
  show ?thesis unfolding Raised(3) snd_conv
    by (rule spec_put_same_job [where j = job]) (use o(6,8) in \<open>simp_all add: phase_of_def\<close>)
qed simp_all

lemma ensure_resource_spec: "spec_of (snd (ensure_resource r now db)) = spec_of db"
proof -
  have "Option.bind (get_lease s (snd (ensure_resource r now db))) work_of = Option.bind (get_lease s db) work_of" for s
    by (auto simp: ensure_resource_def get_lease_def work_of_def split: option.split)
  then show ?thesis by (simp add: spec_of_def ensure_resource_jobs)
qed

lemma owned_spec:
  assumes "queue_inv db" "lock_owned_lease c now db = Inr (lease, job)"
  shows "sq_jobs (spec_of db) (cl_job_id c) = Some Working" "phase_of job = Working"
    "sq_work (spec_of db) (cl_resource_key c) = Some (cl_job_id c, cl_lease_token c)"
  using lock_owned_leaseD [OF assms(2)] owned_job_running [OF assms]
  by (simp_all add: spec_of_sel phase_of_def work_of_def)

lemma advance_spec:
  assumes inv: "queue_inv db"
  shows "spec_step (event_of (Advance c t p e now) db) (spec_of db) = Some (spec_of (snd (advance c t p e now db)))"
proof (cases rule: advance_effect [of c t p e now db])
  case (Moved lease job)
  note o = lock_owned_leaseD [OF Moved(2)]
  note w = owned_spec [OF inv Moved(2)]
  show ?thesis
  proof (cases "t \<in> terminal_statuses")
    case True
    with w o show ?thesis
      by (simp add: Moved(5) spec_of_put_lease spec_of_put_job phase_of_def)
  next
    case False
    then have "t \<in> running_statuses"
      using running_transition [OF owned_job_running [OF inv Moved(2)] Moved(3)] by blast
    with False w(2) o have "spec_of (put_job (advanced_job t p e now job) db) = spec_of db"
      by (intro spec_put_same_job [where j = job]) (simp_all add: phase_of_def)
    with False show ?thesis by (simp add: Moved(5))
  qed
qed simp

lemma request_cancel_spec:
  "spec_step (event_of (Request_cancel k u audit ev now) db) (spec_of db) =
     Some (spec_of (snd (request_cancel k u audit ev now db)))"
proof (cases "owned_job k u db")
  case None
  then show ?thesis by (auto simp: request_cancel_def split: option.split)
next
  case (Some j)
  note job = owned_job_SomeD [OF Some]
  let ?r = "request_cancel k u audit ev now db"
  consider (silent) "snd ?r = db" "\<And>s. fst ?r = Inr s \<Longrightarrow> s = job_status j"
    | (put) j' where "cancelled_job now j = Some j'" "job_status j \<notin> terminal_statuses"
      "fst ?r = Inr (job_status j')" "spec_of (snd ?r) = spec_of (put_job j' db)"
  proof (cases "(audit \<and> u = None) \<or> job_status j \<in> terminal_statuses \<or> cancelled_job now j = None \<or>
      job_status j \<in> cancellable_before_start \<and> assert_transition (job_status j) CANCELLED \<noteq> Inr ()")
    case True
    then show thesis by (intro silent) (auto simp: request_cancel_def Some split: if_splits)
  next
    case False
    then obtain j' where j': "cancelled_job now j = Some j'" by (cases "cancelled_job now j") auto
    show thesis
      by (rule put [OF j']) (use False in \<open>auto simp: request_cancel_def Some j' Let_def\<close>)
  qed
  then show ?thesis
  proof cases
    case silent
    then show ?thesis
      using job(1) by (cases "fst (request_cancel k u audit ev now db)") auto
  next
    case put
    note f = cancelled_job_fields [OF put(1)]
    have get: "get_job (job_id j') db = Some j" using f(1) job by simp
    show ?thesis
    proof (cases "job_status j \<in> cancellable_before_start")
      case True
      with put f job get cancellable_not_running [OF True] show ?thesis
        by (auto simp: spec_of_sel spec_of_put_job phase_of_def)
    next
      case False
      with f have "spec_of (put_job j' db) = spec_of db"
        by (intro spec_put_same_job [OF get]) (simp add: phase_of_def)
      moreover have "job_status j' = job_status j" using False f(4) by simp
      ultimately show ?thesis using put job(1) by simp
    qed
  qed
qed

lemma enqueue_spec:
  "spec_step (event_of (Enqueue q now) db) (spec_of db) = Some (spec_of (snd (enqueue q now db)))"
proof (cases "fst (enqueue q now db)")
  case (Inl e)
  then have "snd (enqueue q now db) = db"
    by (auto simp: enqueue_def enqueue_in_session_def transaction_def
        split: option.splits sum.splits queue_error.splits prod.splits)
  with Inl show ?thesis by simp
next
  case (Inr u)
  then obtain db' where ins: "insert_job (queued_job q now) db = Some db'" and s: "snd (enqueue q now db) = db'"
    by (auto simp: enqueue_def enqueue_in_session_def transaction_def
        split: option.splits sum.splits queue_error.splits prod.splits)
  let ?j = "queued_job q now"
  from ins have fresh: "get_job (job_id ?j) db = None" and db': "db' = db\<lparr>db_jobs := db_jobs db @ [?j]\<rparr>"
    by (auto simp: insert_job_def get_job_def find_row_None_iff split: if_splits)
  have get: "get_job k db' = (if k = job_id ?j then Some ?j else get_job k db)" for k
    using fresh by (auto simp: get_job_def db' split: option.split)
  have "job_id ?j = eq_job_id q" "phase_of ?j = Waiting"
    by (simp_all add: queued_job_def phase_of_def terminal_statuses_def running_statuses_def)
  moreover have "get_lease r db' = get_lease r db" for r by (simp add: db' get_lease_def)
  ultimately show ?thesis using Inr s fresh by (auto simp: spec_of_def get fun_eq_iff)
qed

lemma claim_next_spec:
  assumes inv: "queue_inv db"
  shows "spec_step (event_of (Claim_next w r n m t locked now) db) (spec_of db) =
    Some (spec_of (snd (claim_next w r n m t locked now db)))"
proof -
  obtain res db' where res: "claim_next w r n m t locked now db = (res, db')" by fastforce
  from inv res show ?thesis
  proof (cases rule: claim_next_cases)
    case (Idle lease)
    have "spec_of db' = spec_of db" unfolding Idle(2)
      by (rule spec_put_same_lease [where l = lease])
        (use Idle(3,4) in \<open>simp_all add: lease_rows.get_key [OF Idle(3)] work_of_def\<close>)
    with res Idle(1) show ?thesis by simp
  next
    case (Recovered lease job)
    have r: "wl_resource_key lease = r" by (rule lease_rows.get_key [OF Recovered(3)])
    obtain t' where "wl_lease_token lease = Some t'"
      using queue_inv_get_lease [OF inv Recovered(3)] Recovered(4) by (auto simp: worker_lease_row_ok_def)
    with Recovered r res running_not_terminal show ?thesis
      by (simp add: claim_of_def spec_of_sel spec_of_put_lease work_of_def phase_of_def)
  next
    case (Started lease job)
    have r: "wl_resource_key lease = r" by (rule lease_rows.get_key [OF Started(3)])
    have "job_status job = QUEUED" using next_queued_jobD(2) [OF Started(6)] by (simp add: claimable_def)
    with Started r res show ?thesis
      by (simp add: claim_of_def spec_of_sel spec_of_put_lease spec_of_put_job work_of_def phase_of_def
          terminal_statuses_def running_statuses_def)
  qed (use res in simp_all)
qed

text \<open>
  C24. The queue refines the abstract queue: from any reachable database, every call, with its locks,
  leases, clocks and errors, is exactly the step of the abstract queue that its answer shows, or none. A
  call that returns a claim has started a waiting job on a free resource, or reassigned the job that works
  there; a call that ended a job ended the one that its token works on.
\<close>

theorem queue_refines_spec:
  assumes "queue_reachable db"
  shows "spec_step (event_of call db) (spec_of db) = Some (spec_of (run_call call db))"
proof (cases call)
  case (Claim_next w r n m t locked now)
  then show ?thesis using claim_next_spec [OF queue_reachable_inv [OF assms]] by simp
next
  case (Advance c t p e now)
  then show ?thesis using advance_spec [OF queue_reachable_inv [OF assms]] by simp
next
  case (Enqueue q now)
  then show ?thesis using enqueue_spec by simp
next
  case (Request_cancel k u audit ev now)
  then show ?thesis using request_cancel_spec by simp
qed (simp_all add: heartbeat_spec update_progress_spec ensure_resource_spec)

theorem queue_refines_spec_witness:
  "event_of demo_claim_call demo_queued = Started ''gpu:0'' 8 900 \<and>
   sq_jobs (spec_of demo_claimed) 8 = Some Working \<and> sq_work (spec_of demo_claimed) ''gpu:0'' = Some (8, 900)"
proof -
  have e: "event_of demo_claim_call demo_queued = Started ''gpu:0'' 8 900"
    by (simp add: demo_claim_call_def demo_claim_next demo_claim_fields)
      (simp add: demo_claim_def claim_of_def)
  have "Some (spec_of demo_claimed) = spec_step (Started ''gpu:0'' 8 900) (spec_of demo_queued)"
    using queue_refines_spec [OF demo_reachable(1), of demo_claim_call] e by (simp add: demo_claimed_def)
  with e show ?thesis by (auto split: if_splits)
qed

end
