(* ===== verification/Task_Files.thy ===== *)
theory Task_Files
  imports Py_Uuid "HOL-Library.List_Lexorder" "HOL-Library.Char_ord" "HOL-Library.Sublist"
begin

text \<open>
  The files of a task as \<^verbatim>\<open>backend/re3d_adapter\<close> sees them: \<open>paths.py\<close>, \<open>io.py\<close>,
  \<open>contracts.py\<close> and \<open>input_validation.py\<close>. A path is the list of the components of an absolute POSIX
  path. The file system gives the real path of every path (its links do not change), the bytes of the
  regular files and the directories at real paths; a file's bytes and its text are both lists of
  characters. SHA-256, the JSON codec and the validator of the contracts are arguments.
\<close>

section \<open>Errors as values\<close>

text \<open>The adapter's errors, and the exceptions of Python that its handlers do not catch.\<close>

datatype adapter_error =
    Contract_invalid string
  | Path_boundary string
  | Integrity string
  | Adapter_failure string
  | Simulated_crash string
  | Pipeline_cancelled
  | Pipeline_timed_out
  | Key_error string
  | Type_error
  | Value_error string
  | Arithmetic_error string
  | Os_error

definition is_adapter_error :: "adapter_error \<Rightarrow> bool" where
  "is_adapter_error e =
     (case e of Key_error _ \<Rightarrow> False | Type_error \<Rightarrow> False | Value_error _ \<Rightarrow> False
      | Arithmetic_error _ \<Rightarrow> False | Os_error \<Rightarrow> False
      | _ \<Rightarrow> True)"

type_synonym 'a checked = "adapter_error + 'a"

definition bind_checked :: "('e + 'a) \<Rightarrow> ('a \<Rightarrow> 'e + 'b) \<Rightarrow> 'e + 'b" where
  "bind_checked m f = (case m of Inl e \<Rightarrow> Inl e | Inr x \<Rightarrow> f x)"

definition require :: "bool \<Rightarrow> 'e \<Rightarrow> 'e + unit" where
  "require b e = (if b then Inr () else Inl e)"

fun each_checked :: "('a \<Rightarrow> 'e + unit) \<Rightarrow> 'a list \<Rightarrow> 'e + unit" where
  "each_checked f [] = Inr ()"
| "each_checked f (x # xs) = bind_checked (f x) (\<lambda>_. each_checked f xs)"

fun collect_checked :: "('a \<Rightarrow> 'e + 'b) \<Rightarrow> 'a list \<Rightarrow> 'e + 'b list" where
  "collect_checked f [] = Inr []"
| "collect_checked f (x # xs) = bind_checked (f x) (\<lambda>y. bind_checked (collect_checked f xs) (\<lambda>ys. Inr (y # ys)))"

lemma bind_checked_Inr [simp]: "bind_checked m f = Inr y \<longleftrightarrow> (\<exists>x. m = Inr x \<and> f x = Inr y)"
  by (cases m) (simp_all add: bind_checked_def)

lemma bind_checked_simps [simp]: "bind_checked (Inr x) f = f x" "bind_checked (Inl e) f = Inl e"
  by (simp_all add: bind_checked_def)

lemma require_Inr [simp]: "require b e = Inr u \<longleftrightarrow> b"
  by (simp add: require_def)

lemma require_True [simp]: "require True e = Inr ()"
  by (simp add: require_def)

lemma each_checked_Inr [simp]: "each_checked f xs = Inr u \<longleftrightarrow> (\<forall>x \<in> set xs. f x = Inr ())"
  by (induction xs) simp_all

lemma collect_checked_Inr:
  "collect_checked f xs = Inr ys \<longleftrightarrow> list_all2 (\<lambda>x y. f x = Inr y) xs ys"
  by (induction xs arbitrary: ys) (auto simp: list_all2_Cons1)

section \<open>Objects\<close>

text \<open>\<open>value[key]\<close> and \<open>value.get(key)\<close> of a decoded value.\<close>

definition item :: "string \<Rightarrow> json \<Rightarrow> json checked" where
  "item k v =
     (case v of
        JObject fs \<Rightarrow> (case map_of fs k of None \<Rightarrow> Inl (Key_error k) | Some x \<Rightarrow> Inr x)
      | _ \<Rightarrow> Inl Type_error)"

definition item2 :: "string \<Rightarrow> string \<Rightarrow> json \<Rightarrow> json checked" where
  "item2 k l v = bind_checked (item k v) (item l)"

definition text_of :: "json \<Rightarrow> string checked" where
  "text_of v = (case v of JString s \<Rightarrow> Inr s | _ \<Rightarrow> Inl Type_error)"

text \<open>Iteration over a list and over the items of an object.\<close>

definition elements_of :: "json \<Rightarrow> json list checked" where
  "elements_of v = (case v of JList xs \<Rightarrow> Inr xs | _ \<Rightarrow> Inl Type_error)"

definition items_of :: "json \<Rightarrow> (string \<times> json) list checked" where
  "items_of v = (case v of JObject fs \<Rightarrow> Inr fs | _ \<Rightarrow> Inl Type_error)"

definition is_object :: "json \<Rightarrow> bool" where
  "is_object v = (case v of JObject _ \<Rightarrow> True | _ \<Rightarrow> False)"

lemma elements_of_Inr [simp]: "elements_of v = Inr xs \<longleftrightarrow> v = JList xs"
  by (auto simp: elements_of_def split: json.split)

lemma items_of_Inr [simp]: "items_of v = Inr xs \<longleftrightarrow> v = JObject xs"
  by (auto simp: items_of_def split: json.split)

lemma item_Inr: "item k v = Inr x \<longleftrightarrow> json_field k v = Some x"
  by (auto simp: item_def json_field_def split: json.split option.split)

lemma item2_Inr: "item2 k l v = Inr x \<longleftrightarrow> (\<exists>u. json_field k v = Some u \<and> json_field l u = Some x)"
  by (simp add: item2_def item_Inr)

lemma text_of_Inr [simp]: "text_of v = Inr s \<longleftrightarrow> v = JString s"
  by (simp add: text_of_def split: json.split)

section \<open>The file system\<close>

type_synonym path = "string list"

record file_system =
  fs_real :: "path \<Rightarrow> path"
  fs_link :: "path \<Rightarrow> bool"
  fs_data :: "path \<Rightarrow> string option"
  fs_dir :: "path \<Rightarrow> bool"
  fs_names :: "path \<Rightarrow> string list"

definition read_file :: "file_system \<Rightarrow> path \<Rightarrow> string option" where
  "read_file fs p = fs_data fs (fs_real fs p)"

definition is_file :: "file_system \<Rightarrow> path \<Rightarrow> bool" where
  "is_file fs p \<longleftrightarrow> read_file fs p \<noteq> None"

definition is_dir :: "file_system \<Rightarrow> path \<Rightarrow> bool" where
  "is_dir fs p \<longleftrightarrow> fs_dir fs (fs_real fs p)"

definition file_size :: "file_system \<Rightarrow> path \<Rightarrow> int checked" where
  "file_size fs p = (case read_file fs p of None \<Rightarrow> Inl Os_error | Some s \<Rightarrow> Inr (int (length s)))"

text \<open>
  What is decoded and validated by code outside this repository, and the Chinese texts, which lists of
  characters below 256 do not hold, by a name of their own.
\<close>

datatype decoded = Decoded json | Not_json | Not_text

record codecs =
  cs_sha256 :: "string \<Rightarrow> string"
  cs_loads :: "string \<Rightarrow> decoded"
  cs_dumps :: "json \<Rightarrow> string"
  cs_valid :: "string \<Rightarrow> json \<Rightarrow> bool"
  cs_zh :: "string \<Rightarrow> string"

definition sha256_file :: "codecs \<Rightarrow> file_system \<Rightarrow> path \<Rightarrow> string checked" where
  "sha256_file cs fs p = (case read_file fs p of None \<Rightarrow> Inl Os_error | Some s \<Rightarrow> Inr (cs_sha256 cs s))"

text \<open>
  \<open>atomic_write_bytes\<close>: the replacement of the target is one step; \<open>failed\<close> is an \<open>OSError\<close> before it,
  after which the temporary file is removed.
\<close>

definition atomic_write :: "bool \<Rightarrow> path \<Rightarrow> string \<Rightarrow> file_system \<Rightarrow> (adapter_error, unit, file_system) outcome" where
  "atomic_write failed p payload fs =
     (if failed then (Inl Os_error, fs) else (Inr (), fs\<lparr>fs_data := (fs_data fs)(p \<mapsto> payload)\<rparr>))"

definition json_text :: "codecs \<Rightarrow> json \<Rightarrow> string" where
  "json_text cs v = cs_dumps cs v @ [char_of (10 :: nat)]"

section \<open>Contracts\<close>

definition validate_contract :: "codecs \<Rightarrow> string \<Rightarrow> json \<Rightarrow> unit checked" where
  "validate_contract cs name v = require (cs_valid cs name v) (Contract_invalid (name @ '' contract is invalid''))"

definition load_json_contract :: "codecs \<Rightarrow> file_system \<Rightarrow> path \<Rightarrow> string \<Rightarrow> json checked" where
  "load_json_contract cs fs p name =
     (case read_file fs p of
        None \<Rightarrow> Inl (Contract_invalid (''cannot read '' @ name @ '' contract: '' @ last p))
      | Some text \<Rightarrow>
          (case cs_loads cs text of
             Not_text \<Rightarrow> Inl (Value_error ''invalid UTF-8'')
           | Not_json \<Rightarrow> Inl (Contract_invalid (name @ '' contract is not valid JSON: '' @ last p))
           | Decoded v \<Rightarrow>
               bind_checked (require (is_object v) (Contract_invalid (name @ '' contract must be a JSON object''))) (\<lambda>_.
               bind_checked (validate_contract cs name v) (\<lambda>_. Inr v))))"

section \<open>The layout of a task\<close>

text \<open>\<open>str.split\<close> at a character.\<close>

fun split_at :: "char \<Rightarrow> string \<Rightarrow> string list" where
  "split_at x [] = [[]]"
| "split_at x (c # cs) =
     (if c = x then [] # split_at x cs
      else (case split_at x cs of [] \<Rightarrow> [[c]] | s # ss \<Rightarrow> (c # s) # ss))"

text \<open>\<open>PurePosixPath(text).parts\<close> of a relative path.\<close>

definition posix_parts :: "string \<Rightarrow> string list" where
  "posix_parts s = filter (\<lambda>p. p \<noteq> [] \<and> p \<noteq> ''.'') (split_at (CHR ''/'') s)"

definition is_within :: "path \<Rightarrow> path \<Rightarrow> bool" where
  "is_within p parent \<longleftrightarrow> prefix parent p"

record task_layout =
  tl_data_root :: path
  tl_jobs_root :: path
  tl_root :: path
  tl_job_id :: string

definition canonical_job_id :: "string \<Rightarrow> string checked" where
  "canonical_job_id job_id =
     (case parse_uuid job_id of
        None \<Rightarrow> Inl (Path_boundary ''job_id must be a UUID'')
      | Some k \<Rightarrow>
          bind_checked (require (lower job_id = uuid_str k) (Path_boundary ''job_id must use canonical UUID form'')) (\<lambda>_.
          Inr (uuid_str k)))"

text \<open>\<open>from_data_root\<close> without \<open>create\<close>.\<close>

definition from_data_root :: "file_system \<Rightarrow> path \<Rightarrow> string \<Rightarrow> task_layout checked" where
  "from_data_root fs data_root job_id =
     bind_checked (canonical_job_id job_id) (\<lambda>canonical.
     let data = fs_real fs data_root; jobs = fs_real fs (data @ [''jobs'']);
         root = fs_real fs (jobs @ [canonical])
     in bind_checked (require (butlast root = jobs \<and> is_within root jobs)
          (Path_boundary ''task directory is outside the jobs root'')) (\<lambda>_.
        bind_checked (require (is_dir fs root) (Path_boundary ''task directory does not exist'')) (\<lambda>_.
        Inr \<lparr>tl_data_root = data, tl_jobs_root = jobs, tl_root = root, tl_job_id = canonical\<rparr>)))"

definition bad_task_path :: "string \<Rightarrow> bool" where
  "bad_task_path s \<longleftrightarrow>
     s = [] \<or> take 1 s = ''/'' \<or> take 1 (drop 1 s) = '':'' \<or> CHR 0x5C \<in> set s \<or>
     ''..'' \<in> set (posix_parts s) \<or> posix_parts s = []"

definition resolve :: "file_system \<Rightarrow> task_layout \<Rightarrow> string \<Rightarrow> path checked" where
  "resolve fs l s =
     (if bad_task_path s then Inl (Path_boundary ''task path must be a normalized POSIX relative path'')
      else
        let candidate = fs_real fs (tl_root l @ posix_parts s)
        in if is_within candidate (tl_root l) then Inr candidate
           else Inl (Path_boundary ''task path escapes the task directory''))"

definition request_path :: "file_system \<Rightarrow> task_layout \<Rightarrow> path checked" where
  "request_path fs l = resolve fs l ''manifests/pipeline-request.json''"

definition events_path :: "file_system \<Rightarrow> task_layout \<Rightarrow> path checked" where
  "events_path fs l = resolve fs l ''manifests/pipeline-events.jsonl''"

definition result_path :: "file_system \<Rightarrow> task_layout \<Rightarrow> path checked" where
  "result_path fs l = resolve fs l ''manifests/pipeline-result.json''"

definition output_validation_path :: "file_system \<Rightarrow> task_layout \<Rightarrow> path checked" where
  "output_validation_path fs l = resolve fs l ''manifests/output-validation.json''"

definition evaluation_path :: "file_system \<Rightarrow> task_layout \<Rightarrow> path checked" where
  "evaluation_path fs l = resolve fs l ''reports/evaluation.json''"

lemma resolve_Inr:
  "resolve fs l s = Inr p \<longleftrightarrow>
     \<not> bad_task_path s \<and> p = fs_real fs (tl_root l @ posix_parts s) \<and> prefix (tl_root l) p"
  by (auto simp: resolve_def Let_def is_within_def)

definition worker_directories :: "string list" where
  "worker_directories = [''runtime/work'', ''runtime/logs'', ''output'', ''reports'', ''manifests'']"

text \<open>\<open>ensure_worker_directories\<close>: a file in the place of a directory is an \<open>OSError\<close>.\<close>

definition ensure_worker_directories :: "file_system \<Rightarrow> task_layout \<Rightarrow> unit checked" where
  "ensure_worker_directories fs l = each_checked (\<lambda>relative.
     bind_checked (resolve fs l relative) (\<lambda>p.
     require (\<not> list_ex (is_file fs) (prefixes p)) Os_error)) worker_directories"

text \<open>No links on the way to the task directory and inside it.\<close>

definition plain_root :: "file_system \<Rightarrow> task_layout \<Rightarrow> bool" where
  "plain_root fs l \<longleftrightarrow> (\<forall>ps. fs_real fs (tl_root l @ ps) = tl_root l @ ps) \<and>
     (\<forall>p. prefix p (tl_root l) \<longrightarrow> fs_real fs p = p)"

lemma plain_resolve:
  "plain_root fs l \<Longrightarrow> resolve fs l s =
     (if bad_task_path s then Inl (Path_boundary ''task path must be a normalized POSIX relative path'')
      else Inr (tl_root l @ posix_parts s))"
  by (simp add: resolve_def plain_root_def is_within_def)

lemma canonical_uuid: "k < 2 ^ 128 \<Longrightarrow> canonical_job_id (uuid_str k) = Inr (uuid_str k)"
  by (simp add: canonical_job_id_def parse_uuid_str lower_uuid_str)

section \<open>The input of a task\<close>

text \<open>\<open>_manifest_records\<close>: the dictionary is a list of its items in order.\<close>

record manifest_item =
  mi_name :: string
  mi_size :: int
  mi_sha256 :: string

definition bad_image_name :: "string \<Rightarrow> bool" where
  "bad_image_name s \<longleftrightarrow> s = [] \<or> s = ''.'' \<or> CHR ''/'' \<in> set s \<or> CHR 0x5C \<in> set s"

definition manifest_item_of :: "json \<Rightarrow> manifest_item option" where
  "manifest_item_of v =
     (case (json_field ''name'' v, json_field ''size_bytes'' v, json_field ''sha256'' v) of
        (Some (JString name), Some (JInt n), Some (JString digest)) \<Rightarrow>
          if bad_image_name name \<or> n < 1 \<or> \<not> hex_string 64 digest then None
          else Some \<lparr>mi_name = name, mi_size = n, mi_sha256 = digest\<rparr>
      | _ \<Rightarrow> None)"

fun manifest_items :: "manifest_item list \<Rightarrow> json list \<Rightarrow> manifest_item list checked" where
  "manifest_items acc [] = Inr acc"
| "manifest_items acc (v # vs) =
     (case manifest_item_of v of
        None \<Rightarrow> Inl (Integrity ''input manifest contains an invalid image record'')
      | Some m \<Rightarrow>
          if mi_name m \<in> mi_name ` set acc then Inl (Integrity ''input manifest contains duplicate image names'')
          else manifest_items (acc @ [m]) vs)"

definition find_item :: "string \<Rightarrow> manifest_item list \<Rightarrow> manifest_item option" where
  "find_item name ms = find (\<lambda>m. mi_name m = name) ms"

definition check_image :: "codecs \<Rightarrow> file_system \<Rightarrow> path \<Rightarrow> manifest_item list \<Rightarrow> string \<Rightarrow> unit checked" where
  "check_image cs fs images ms name =
     (case find_item name ms of
        None \<Rightarrow> Inl (Key_error name)
      | Some m \<Rightarrow>
          bind_checked (file_size fs (images @ [name])) (\<lambda>n.
          bind_checked (require (n = mi_size m) (Integrity ''stored image size does not match the input manifest'')) (\<lambda>_.
          bind_checked (sha256_file cs fs (images @ [name])) (\<lambda>sha.
          require (sha = mi_sha256 m) (Integrity ''stored image SHA-256 does not match the input manifest'')))))"

text \<open>The records of the manifest, as \<open>manifest.get("images")\<close> gives them.\<close>

definition manifest_list :: "json \<Rightarrow> json list option" where
  "manifest_list v = (case json_field ''images'' v of Some (JList xs) \<Rightarrow> Some xs | _ \<Rightarrow> None)"

definition load_manifest :: "codecs \<Rightarrow> string \<Rightarrow> json checked" where
  "load_manifest cs text =
     (case cs_loads cs text of
        Not_text \<Rightarrow> Inl (Value_error ''invalid UTF-8'')
      | Not_json \<Rightarrow> Inl (Integrity ''input manifest is not readable JSON'')
      | Decoded v \<Rightarrow> Inr v)"

definition check_images ::
  "codecs \<Rightarrow> file_system \<Rightarrow> path \<Rightarrow> json \<Rightarrow> manifest_item list \<Rightarrow> unit checked" where
  "check_images cs fs images request ms =
     (let names = sort (filter (\<lambda>n. is_file fs (images @ [n])) (fs_names fs images))
      in bind_checked (require (\<forall>n \<in> set names. \<not> fs_link fs (images @ [n]))
           (Integrity ''input image directory contains a symbolic link'')) (\<lambda>_.
         bind_checked (item2 ''input'' ''image_count'' request) (\<lambda>count.
         bind_checked (require (json_eq (JInt (int (length names))) count)
           (Integrity ''stored image count does not match the request'')) (\<lambda>_.
         bind_checked (require (names = sort (map mi_name ms))
           (Integrity ''stored image names do not match the input manifest'')) (\<lambda>_.
         bind_checked (each_checked (check_image cs fs images ms) names) (\<lambda>_.
         bind_checked (collect_checked (\<lambda>n. file_size fs (images @ [n])) names) (\<lambda>sizes.
         bind_checked (item2 ''input'' ''total_bytes'' request) (\<lambda>total.
         require (json_eq (JInt (sum_list sizes)) total)
           (Integrity ''stored image byte count does not match the request''))))))))) "

definition validate_task_input :: "codecs \<Rightarrow> file_system \<Rightarrow> task_layout \<Rightarrow> json \<Rightarrow> unit checked" where
  "validate_task_input cs fs l request =
     bind_checked (bind_checked (item2 ''input'' ''manifest_path'' request) text_of) (\<lambda>manifest_relative.
     bind_checked (resolve fs l manifest_relative) (\<lambda>manifest_path.
     bind_checked (bind_checked (item2 ''input'' ''images_path'' request) text_of) (\<lambda>images_relative.
     bind_checked (resolve fs l images_relative) (\<lambda>images_path.
     bind_checked (require (is_file fs manifest_path \<and> is_dir fs images_path)
       (Integrity ''input manifest or image directory is missing'')) (\<lambda>_.
     bind_checked (sha256_file cs fs manifest_path) (\<lambda>sha.
     bind_checked (item2 ''input'' ''manifest_sha256'' request) (\<lambda>expected.
     bind_checked (require (expected = JString sha)
       (Integrity ''input manifest SHA-256 does not match the request'')) (\<lambda>_.
     bind_checked (load_manifest cs (the (read_file fs manifest_path))) (\<lambda>manifest.
     case manifest_list manifest of
       None \<Rightarrow> Inl (Integrity ''input manifest image count does not match the request'')
     | Some records \<Rightarrow>
         bind_checked (item2 ''input'' ''image_count'' request) (\<lambda>count.
         bind_checked (require (json_eq (JInt (int (length records))) count)
           (Integrity ''input manifest image count does not match the request'')) (\<lambda>_.
         bind_checked (manifest_items [] records) (\<lambda>ms.
         check_images cs fs images_path request ms))))))))))))"

section \<open>What a validated input is\<close>

text \<open>The items of a list of records, when all of them are well-formed.\<close>

lemma manifest_items_Inr:
  "manifest_items acc vs = Inr ms \<Longrightarrow> distinct (map mi_name acc) \<Longrightarrow>
     \<exists>ns. ms = acc @ ns \<and> distinct (map mi_name ms) \<and> map manifest_item_of vs = map Some ns"
proof (induction acc vs rule: manifest_items.induct)
  case (2 acc v vs)
  then obtain m where m: "manifest_item_of v = Some m" "mi_name m \<notin> mi_name ` set acc"
    "manifest_items (acc @ [m]) vs = Inr ms" by (auto split: option.splits if_splits)
  with "2.IH" [OF m(1,2,3)] "2.prems" show ?case by auto
qed simp

lemma find_item_distinct: "distinct (map mi_name ms) \<Longrightarrow> m \<in> set ms \<Longrightarrow> find_item (mi_name m) ms = Some m"
  by (induction ms) (auto simp: find_item_def image_iff)

lemma check_image_Inr:
  assumes "distinct (map mi_name ms)" "m \<in> set ms"
  shows "check_image cs fs images ms (mi_name m) = Inr () \<longleftrightarrow>
    (\<exists>s. read_file fs (images @ [mi_name m]) = Some s \<and> int (length s) = mi_size m \<and> cs_sha256 cs s = mi_sha256 m)"
  by (auto simp: check_image_def find_item_distinct [OF assms] file_size_def sha256_file_def split: option.split)

end
