(* ===== verification/Job_Results.thy ===== *)
theory Job_Results
  imports Queue_Properties Task_Files
begin

text \<open>
  Reading a job's results: the summaries of \<^verbatim>\<open>backend/jobs/details.py\<close> and the downloads of
  \<^verbatim>\<open>backend/jobs/artifacts.py\<close>, on the rows of the queue and the files of the task.
\<close>

section \<open>Details\<close>

datatype detail_state = Detail_pending | Detail_available | Detail_not_available | Detail_missing | Detail_invalid

record job_detail =
  jd_job :: reconstruction_job
  jd_state :: detail_state
  jd_warning_code :: "string option"
  jd_request :: "json option"
  jd_result :: "json option"
  jd_evaluation :: "json option"

datatype result_error =
    Result_job_not_found uuid
  | Artifact_not_found string
  | Artifact_unavailable string
  | Result_raised adapter_error

definition empty_detail :: "reconstruction_job \<Rightarrow> detail_state \<Rightarrow> string option \<Rightarrow> job_detail" where
  "empty_detail job state warning =
     \<lparr>jd_job = job, jd_state = state, jd_warning_code = warning, jd_request = None, jd_result = None,
      jd_evaluation = None\<rparr>"

definition load_optional :: "codecs \<Rightarrow> file_system \<Rightarrow> path \<Rightarrow> string \<Rightarrow> json option checked" where
  "load_optional cs fs p name =
     (if is_file fs p then bind_checked (load_json_contract cs fs p name) (\<lambda>v. Inr (Some v)) else Inr None)"

definition expect_item :: "json \<Rightarrow> string \<Rightarrow> string \<Rightarrow> string \<Rightarrow> unit checked" where
  "expect_item v key expected message =
     bind_checked (item key v) (\<lambda>x. require (x = JString expected) (Integrity message))"

definition validate_request_identity :: "json \<Rightarrow> reconstruction_job \<Rightarrow> uuid \<Rightarrow> unit checked" where
  "validate_request_identity request job user_id =
     bind_checked (expect_item request ''job_id'' (uuid_str (job_id job))
       ''request job_id does not match database job'') (\<lambda>_.
     bind_checked (item2 ''requested_by'' ''user_id'' request) (\<lambda>u.
     bind_checked (require (u = JString (uuid_str user_id))
       (Integrity ''request owner does not match database owner'')) (\<lambda>_.
     expect_item request ''execution_mode'' (job_execution_mode job)
       ''request execution mode does not match database job'')))"

definition validate_result_identity :: "json \<Rightarrow> reconstruction_job \<Rightarrow> unit checked" where
  "validate_result_identity result job =
     bind_checked (expect_item result ''job_id'' (uuid_str (job_id job))
       ''result job_id does not match database job'') (\<lambda>_.
     expect_item result ''execution_mode'' (job_execution_mode job)
       ''result execution mode does not match database job'')"

definition validate_evaluation_identity ::
  "codecs \<Rightarrow> file_system \<Rightarrow> task_layout \<Rightarrow> json \<Rightarrow> reconstruction_job \<Rightarrow> unit checked" where
  "validate_evaluation_identity cs fs l evaluation job =
     bind_checked (expect_item evaluation ''job_id'' (uuid_str (job_id job))
       ''evaluation job_id does not match database job'') (\<lambda>_.
     bind_checked (result_path fs l) (\<lambda>p.
     bind_checked (require (is_file fs p) (Integrity ''evaluation exists without a pipeline result'')) (\<lambda>_.
     bind_checked (item ''source_result_sha256'' evaluation) (\<lambda>recorded.
     bind_checked (sha256_file cs fs p) (\<lambda>sha.
     require (recorded = JString sha)
       (Integrity ''evaluation source hash does not match pipeline result''))))))"

text \<open>The body of the \<open>try\<close>: the request, the result and the evaluation, each with its identity.\<close>

definition load_reports ::
  "codecs \<Rightarrow> file_system \<Rightarrow> task_layout \<Rightarrow> reconstruction_job \<Rightarrow> uuid \<Rightarrow>
     (json \<times> json option \<times> json option) checked" where
  "load_reports cs fs l job user_id =
     bind_checked (request_path fs l) (\<lambda>p.
     bind_checked (load_json_contract cs fs p ''pipeline-request'') (\<lambda>request.
     bind_checked (validate_request_identity request job user_id) (\<lambda>_.
     bind_checked (result_path fs l) (\<lambda>p.
     bind_checked (load_optional cs fs p ''pipeline-result'') (\<lambda>result.
     bind_checked (case result of None \<Rightarrow> Inr () | Some v \<Rightarrow> validate_result_identity v job) (\<lambda>_.
     bind_checked (evaluation_path fs l) (\<lambda>p.
     bind_checked (load_optional cs fs p ''evaluation'') (\<lambda>evaluation.
     bind_checked (case evaluation of None \<Rightarrow> Inr ()
       | Some v \<Rightarrow> validate_evaluation_identity cs fs l v job) (\<lambda>_.
     Inr (request, result, evaluation))))))))))"

definition report_state ::
  "job_status \<Rightarrow> json option \<Rightarrow> json option \<Rightarrow> detail_state \<times> string option" where
  "report_state status result evaluation =
     (if result \<noteq> None \<and> evaluation \<noteq> None then (Detail_available, None)
      else if status = SUCCEEDED then (Detail_missing, Some ''TERMINAL_REPORT_MISSING'')
      else if status \<in> terminal_statuses then (Detail_not_available, None)
      else (Detail_pending, None))"

definition read_detail ::
  "codecs \<Rightarrow> file_system \<Rightarrow> path \<Rightarrow> database \<Rightarrow> uuid \<Rightarrow> uuid \<Rightarrow> result_error + job_detail" where
  "read_detail cs fs data_root db k user_id =
     (case owned_job k (Some user_id) db of
        None \<Rightarrow> Inl (Result_job_not_found k)
      | Some job \<Rightarrow>
          (case from_data_root fs (fs_real fs data_root) (uuid_str k) of
             Inl _ \<Rightarrow>
               Inr (if job_storage_cleaned_at job \<noteq> None then empty_detail job Detail_not_available None
                 else empty_detail job Detail_missing (Some ''TASK_DIRECTORY_MISSING''))
           | Inr l \<Rightarrow>
               (case load_reports cs fs l job user_id of
                  Inl e \<Rightarrow>
                    if is_adapter_error e then Inr (empty_detail job Detail_invalid (Some ''TASK_CONTRACT_INVALID''))
                    else Inl (Result_raised e)
                | Inr (request, result, evaluation) \<Rightarrow>
                    (case report_state (job_status job) result evaluation of (state, warning) \<Rightarrow>
                       Inr \<lparr>jd_job = job, jd_state = state, jd_warning_code = warning,
                         jd_request = Some request, jd_result = result, jd_evaluation = evaluation\<rparr>))))"

section \<open>Artifacts\<close>

record artifact_file =
  af_path :: path
  af_filename :: string
  af_content_type :: json
  af_size_bytes :: json
  af_sha256 :: json

definition allowed_targets :: "string \<Rightarrow> string \<Rightarrow> (string \<times> string) list" where
  "allowed_targets branch kind =
     (let root = ''output/'' @ branch
      in if kind = ''glb'' then [(root @ ''/mesh.glb'', ''model/gltf-binary'')]
         else if kind = ''obj'' then [(root @ ''/mesh.obj'', ''model/obj'')]
         else if kind = ''mtl'' then [(root @ ''/mesh.mtl'', ''text/plain'')]
         else [(root @ ''/texture.jpg'', ''image/jpeg''), (root @ ''/texture.jpeg'', ''image/jpeg''),
               (root @ ''/texture.png'', ''image/png'')])"

text \<open>A pair of decoded values is looked up in a set of pairs of strings; lists and objects are not hashable.\<close>

definition target_allowed :: "string \<Rightarrow> string \<Rightarrow> json \<Rightarrow> json \<Rightarrow> bool checked" where
  "target_allowed branch kind p content_type =
     (case (p, content_type) of
        (JString s, JString t) \<Rightarrow> Inr ((s, t) \<in> set (allowed_targets branch kind))
      | (JList _, _) \<Rightarrow> Inl Type_error | (JObject _, _) \<Rightarrow> Inl Type_error
      | (_, JList _) \<Rightarrow> Inl Type_error | (_, JObject _) \<Rightarrow> Inl Type_error
      | _ \<Rightarrow> Inr False)"

definition raised :: "adapter_error + 'a \<Rightarrow> result_error + 'a" where
  "raised m = (case m of Inl e \<Rightarrow> Inl (Result_raised e) | Inr x \<Rightarrow> Inr x)"

fun artifacts_of_kind :: "string \<Rightarrow> json list \<Rightarrow> json list checked" where
  "artifacts_of_kind kind [] = Inr []"
| "artifacts_of_kind kind (a # as) =
     bind_checked (item ''kind'' a) (\<lambda>x. bind_checked (artifacts_of_kind kind as) (\<lambda>rest.
       Inr (if x = JString kind then a # rest else rest)))"

text \<open>\<open>detail.result["branches"].get(branch)\<close>: \<open>None\<close> for a missing branch and for \<open>null\<close>.\<close>

definition branch_of :: "string \<Rightarrow> json \<Rightarrow> json option checked" where
  "branch_of branch result =
     bind_checked (item ''branches'' result) (\<lambda>v.
       case v of
         JObject fs \<Rightarrow> Inr (case map_of fs branch of None \<Rightarrow> None | Some JNull \<Rightarrow> None | Some x \<Rightarrow> Some x)
       | _ \<Rightarrow> Inl Type_error)"

definition declared_artifact :: "json \<Rightarrow> string \<Rightarrow> string \<Rightarrow> result_error + json" where
  "declared_artifact result branch kind =
     bind_checked (raised (branch_of branch result)) (\<lambda>found.
       case found of
         None \<Rightarrow> Inl (Artifact_not_found ''artifact branch does not exist'')
       | Some b \<Rightarrow>
           bind_checked (raised (item ''status'' b)) (\<lambda>status.
           bind_checked (require (status = JString ''succeeded'') (Artifact_not_found ''artifact branch does not exist'')) (\<lambda>_.
           bind_checked (raised (bind_checked (item ''artifacts'' b) elements_of)) (\<lambda>xs.
           bind_checked (raised (artifacts_of_kind kind xs)) (\<lambda>matches.
           case matches of
             [] \<Rightarrow> Inl (Artifact_not_found ''artifact kind does not exist'')
           | [a] \<Rightarrow> Inr a
           | _ \<Rightarrow> Inl (Artifact_unavailable ''artifact contract is ambiguous''))))))"

definition verify_artifact ::
  "codecs \<Rightarrow> file_system \<Rightarrow> path \<Rightarrow> string \<Rightarrow> json \<Rightarrow> result_error + path" where
  "verify_artifact cs fs data_root task artifact =
     (case bind_checked (from_data_root fs data_root task) (\<lambda>l.
             bind_checked (bind_checked (item ''path'' artifact) text_of) (resolve fs l)) of
        Inl e \<Rightarrow> if is_adapter_error e then Inl (Artifact_unavailable ''artifact cannot be verified'')
                 else Inl (Result_raised e)
      | Inr p \<Rightarrow>
          bind_checked (require (is_file fs p) (Artifact_unavailable ''artifact file is missing'')) (\<lambda>_.
          bind_checked (raised (item ''size_bytes'' artifact)) (\<lambda>recorded.
          bind_checked (require (json_eq (JInt (int (length (the (read_file fs p))))) recorded)
            (Artifact_unavailable ''artifact size changed'')) (\<lambda>_.
          bind_checked (raised (item ''sha256'' artifact)) (\<lambda>recorded.
          bind_checked (require (recorded = JString (cs_sha256 cs (the (read_file fs p))))
            (Artifact_unavailable ''artifact hash changed'')) (\<lambda>_. Inr p))))))"

definition read_artifact ::
  "codecs \<Rightarrow> file_system \<Rightarrow> path \<Rightarrow> database \<Rightarrow> uuid \<Rightarrow> uuid \<Rightarrow> string \<Rightarrow> string \<Rightarrow> result_error + artifact_file" where
  "read_artifact cs fs data_root db k user_id branch kind =
     bind_checked (read_detail cs fs data_root db k user_id) (\<lambda>detail.
     bind_checked (case jd_result detail of
         None \<Rightarrow> Inl (Artifact_unavailable ''job artifacts are not available'')
       | Some result \<Rightarrow>
           if job_status (jd_job detail) \<noteq> SUCCEEDED \<or> jd_state detail \<noteq> Detail_available
           then Inl (Artifact_unavailable ''job artifacts are not available'')
           else bind_checked (raised (item ''status'' result)) (\<lambda>status.
             bind_checked (require (status = JString ''succeeded'')
               (Artifact_unavailable ''job artifacts are not available'')) (\<lambda>_. Inr result))) (\<lambda>result.
     bind_checked (declared_artifact result branch kind) (\<lambda>artifact.
     bind_checked (raised (item ''path'' artifact)) (\<lambda>relative.
     bind_checked (raised (item ''content_type'' artifact)) (\<lambda>content_type.
     bind_checked (raised (target_allowed branch kind relative content_type)) (\<lambda>allowed.
     bind_checked (require allowed (Artifact_unavailable ''artifact target is not allowed'')) (\<lambda>_.
     bind_checked (verify_artifact cs fs (fs_real fs data_root) (uuid_str k) artifact) (\<lambda>p.
     bind_checked (raised (item ''size_bytes'' artifact)) (\<lambda>recorded_size.
     bind_checked (raised (item ''sha256'' artifact)) (\<lambda>recorded_sha.
     Inr \<lparr>af_path = p, af_filename = ''re3d-'' @ uuid_str k @ ''-'' @ branch @ ''-'' @ last p,
       af_content_type = content_type, af_size_bytes = recorded_size, af_sha256 = recorded_sha\<rparr>))))))))))"

section \<open>What a download is\<close>

lemma raised_Inr [simp]: "raised m = Inr x \<longleftrightarrow> m = Inr x"
  by (cases m) (simp_all add: raised_def)

lemma expect_item_Inr: "expect_item v k s msg = Inr u \<longleftrightarrow> json_field k v = Some (JString s)"
  by (auto simp: expect_item_def item_Inr)

lemma available_detail:
  assumes "read_detail cs fs data_root db k user_id = Inr d" "jd_state d = Detail_available"
  obtains job l request result evaluation where
    "owned_job k (Some user_id) db = Some job" "from_data_root fs (fs_real fs data_root) (uuid_str k) = Inr l"
    "load_reports cs fs l job user_id = Inr (request, Some result, Some evaluation)"
    "jd_job d = job" "jd_result d = Some result"
  using assms
  by (auto simp: read_detail_def report_state_def empty_detail_def split: option.splits sum.splits prod.splits if_splits)

lemma loaded_reports:
  assumes "load_reports cs fs l job user_id = Inr (request, Some result, Some evaluation)"
  obtains p content q where "result_path fs l = Inr p" "read_file fs p = Some content"
    "load_json_contract cs fs p ''pipeline-result'' = Inr result"
    "json_field ''job_id'' result = Some (JString (uuid_str (job_id job)))"
    "evaluation_path fs l = Inr q" "load_json_contract cs fs q ''evaluation'' = Inr evaluation"
    "json_field ''job_id'' evaluation = Some (JString (uuid_str (job_id job)))"
    "json_field ''source_result_sha256'' evaluation = Some (JString (cs_sha256 cs content))"
  using assms
  by (auto simp: load_reports_def load_optional_def validate_result_identity_def
      validate_evaluation_identity_def expect_item_Inr item_Inr sha256_file_def is_file_def
      split: if_splits option.splits)

text \<open>The entry of a result for a kind of artifact: the only one of its kind in a branch that succeeded.\<close>

definition records_artifact :: "json \<Rightarrow> string \<Rightarrow> string \<Rightarrow> json \<Rightarrow> bool" where
  "records_artifact result branch kind a \<longleftrightarrow>
     (\<exists>branches b xs. json_field ''branches'' result = Some (JObject branches) \<and> map_of branches branch = Some b \<and>
        json_field ''status'' b = Some (JString ''succeeded'') \<and> json_field ''artifacts'' b = Some (JList xs) \<and>
        filter (\<lambda>x. json_field ''kind'' x = Some (JString kind)) xs = [a])"

lemma artifacts_of_kind_Inr:
  "artifacts_of_kind kind xs = Inr ys \<Longrightarrow> ys = filter (\<lambda>x. json_field ''kind'' x = Some (JString kind)) xs"
  by (induction xs arbitrary: ys) (auto simp: item_Inr split: if_splits)

lemma one_match: "(case xs of [] \<Rightarrow> Inl e | [a] \<Rightarrow> Inr a | _ \<Rightarrow> Inl e') = Inr a \<longleftrightarrow> xs = [a]"
  by (auto split: list.splits)

lemma declared_artifact_Inr:
  assumes "declared_artifact result branch kind = Inr a"
  shows "records_artifact result branch kind a"
proof -
  from assms obtain b xs where b: "branch_of branch result = Inr (Some b)"
    and st: "json_field ''status'' b = Some (JString ''succeeded'')"
    and xs: "json_field ''artifacts'' b = Some (JList xs)" and one: "artifacts_of_kind kind xs = Inr [a]"
    by (auto simp: declared_artifact_def item_Inr one_match split: option.splits)
  from b obtain v where v: "json_field ''branches'' result = Some v"
    and found: "(case v of JObject fs \<Rightarrow> Inr (case map_of fs branch of None \<Rightarrow> None | Some JNull \<Rightarrow> None | Some x \<Rightarrow> Some x)
      | _ \<Rightarrow> Inl Type_error) = (Inr (Some b) :: json option checked)"
    unfolding branch_of_def by (auto simp: item_Inr)
  then obtain branches where "v = JObject branches"
    "(case map_of branches branch of None \<Rightarrow> None | Some JNull \<Rightarrow> None | Some x \<Rightarrow> Some x) = Some b"
    by (cases v) simp_all
  moreover from this have "map_of branches branch = Some b"
    by (cases "map_of branches branch") (auto split: json.splits)
  moreover note v
  ultimately have "json_field ''branches'' result = Some (JObject branches)" "map_of branches branch = Some b" by simp_all
  with st xs artifacts_of_kind_Inr [OF one] show ?thesis unfolding records_artifact_def by metis
qed

lemma target_allowed_Inr:
  "target_allowed branch kind p c = Inr True \<Longrightarrow>
     \<exists>s t. p = JString s \<and> c = JString t \<and> (s, t) \<in> set (allowed_targets branch kind)"
  by (auto simp: target_allowed_def split: json.splits)

lemma verified_artifact:
  assumes "verify_artifact cs fs data task a = Inr p"
  obtains l s content n where "from_data_root fs data task = Inr l" "json_field ''path'' a = Some (JString s)"
    "resolve fs l s = Inr p" "read_file fs p = Some content" "json_field ''size_bytes'' a = Some n"
    "json_eq (JInt (int (length content))) n"
    "json_field ''sha256'' a = Some (JString (cs_sha256 cs content))"
  using assms
  by (auto simp: verify_artifact_def is_file_def item_Inr split: sum.splits if_splits)

text \<open>
  C26. A download is authentic: what \<open>read\<close> returns is a file of the caller's own succeeded job, at the
  one place the branch and the kind allow inside the job's directory. It is the only artifact of its kind
  that the result file of the job records for the branch, and its path, its content type, the number of its
  bytes and their hash are those of that entry. The result file names the job, and its own hash is the one
  that the evaluation file of the same job records.
\<close>

theorem artifact_read_is_authentic:
  assumes "read_artifact cs fs data_root db k user_id branch kind = Inr f"
  shows "\<exists>job l result_file whole result evaluation_file evaluation a s t content.
     get_job k db = Some job \<and> job_user_id job = user_id \<and> job_status job = SUCCEEDED \<and>
     from_data_root fs (fs_real fs data_root) (uuid_str k) = Inr l \<and> butlast (tl_root l) = tl_jobs_root l \<and>
     (result_path fs l = Inr result_file \<and> read_file fs result_file = Some whole \<and>
      load_json_contract cs fs result_file ''pipeline-result'' = Inr result \<and>
      json_field ''job_id'' result = Some (JString (uuid_str k)) \<and>
      json_field ''status'' result = Some (JString ''succeeded'')) \<and>
     (evaluation_path fs l = Inr evaluation_file \<and>
      load_json_contract cs fs evaluation_file ''evaluation'' = Inr evaluation \<and>
      json_field ''job_id'' evaluation = Some (JString (uuid_str k)) \<and>
      json_field ''source_result_sha256'' evaluation = Some (JString (cs_sha256 cs whole))) \<and>
     (records_artifact result branch kind a \<and>
      json_field ''path'' a = Some (JString s) \<and> json_field ''content_type'' a = Some (JString t) \<and>
      (s, t) \<in> set (allowed_targets branch kind) \<and> af_content_type f = JString t \<and>
      af_path f = fs_real fs (tl_root l @ posix_parts s) \<and> prefix (tl_root l) (af_path f)) \<and>
     (read_file fs (af_path f) = Some content \<and>
      json_field ''size_bytes'' a = Some (af_size_bytes f) \<and> json_eq (JInt (int (length content))) (af_size_bytes f) \<and>
      json_field ''sha256'' a = Some (af_sha256 f) \<and> af_sha256 f = JString (cs_sha256 cs content))"
proof -
  from assms obtain d result a s where d: "read_detail cs fs data_root db k user_id = Inr d"
    and result: "jd_result d = Some result" and st: "jd_state d = Detail_available" "job_status (jd_job d) = SUCCEEDED"
    and whole: "json_field ''status'' result = Some (JString ''succeeded'')"
    and a: "declared_artifact result branch kind = Inr a"
    and rel: "json_field ''path'' a = Some s" "json_field ''content_type'' a = Some (af_content_type f)"
      "target_allowed branch kind s (af_content_type f) = Inr True"
    and v: "verify_artifact cs fs (fs_real fs data_root) (uuid_str k) a = Inr (af_path f)"
    and rec: "json_field ''size_bytes'' a = Some (af_size_bytes f)" "json_field ''sha256'' a = Some (af_sha256 f)"
    by (auto simp: read_artifact_def item_Inr split: option.splits if_splits)
  from available_detail [OF d st(1)] result obtain job l request evaluation where
    job: "owned_job k (Some user_id) db = Some job" "jd_job d = job"
    and l: "from_data_root fs (fs_real fs data_root) (uuid_str k) = Inr l"
    and loaded: "load_reports cs fs l job user_id = Inr (request, Some result, Some evaluation)"
    by (metis option.inject)
  have root: "butlast (tl_root l) = tl_jobs_root l"
    using l by (auto simp: from_data_root_def Let_def)
  note j = owned_job_SomeD [OF job(1)]
  obtain x y where t: "s = JString x" "af_content_type f = JString y" "(x, y) \<in> set (allowed_targets branch kind)"
    using target_allowed_Inr [OF rel(3)] by blast
  obtain content where c: "resolve fs l x = Inr (af_path f)" "read_file fs (af_path f) = Some content"
    "json_eq (JInt (int (length content))) (af_size_bytes f)" "af_sha256 f = JString (cs_sha256 cs content)"
    by (rule verified_artifact [OF v]) (use rel(1) rec t(1) l in auto)
  obtain p content_p q where p: "result_path fs l = Inr p" "read_file fs p = Some content_p"
    "load_json_contract cs fs p ''pipeline-result'' = Inr result"
    "json_field ''job_id'' result = Some (JString (uuid_str (job_id job)))"
    and q: "evaluation_path fs l = Inr q" "load_json_contract cs fs q ''evaluation'' = Inr evaluation"
    "json_field ''job_id'' evaluation = Some (JString (uuid_str (job_id job)))"
    "json_field ''source_result_sha256'' evaluation = Some (JString (cs_sha256 cs content_p))"
    by (rule loaded_reports [OF loaded]) blast
  have own: "job_user_id job = user_id" "job_status job = SUCCEEDED" "job_id job = k"
    using j(3) st(2) job(2) j(2) by auto
  have at_place: "af_path f = fs_real fs (tl_root l @ posix_parts x)" "prefix (tl_root l) (af_path f)"
    using c(1) unfolding resolve_Inr by blast+
  have entry: "records_artifact result branch kind a" "json_field ''path'' a = Some (JString x)"
    "json_field ''content_type'' a = Some (JString y)"
    using declared_artifact_Inr [OF a] rel(1,2) t(1,2) by simp_all
  show ?thesis
    using own j(1) l root p [unfolded own(3)] whole q [unfolded own(3)] entry t(2,3) at_place c(2-4) rec by blast
qed

definition demo_root :: path where
  "demo_root = [''data'', ''jobs'', uuid_str 8]"

definition demo_files :: file_system where
  "demo_files = \<lparr>fs_real = \<lambda>p. p, fs_link = \<lambda>_. False,
     fs_data = map_of [(demo_root @ [''manifests'', ''pipeline-request.json''], ''Q''),
       (demo_root @ [''manifests'', ''pipeline-result.json''], ''R''),
       (demo_root @ [''reports'', ''evaluation.json''], ''E''),
       (demo_root @ [''output'', ''C'', ''mesh.glb''], ''glTF'')],
     fs_dir = \<lambda>_. True, fs_names = \<lambda>_. []\<rparr>"

definition demo_artifact :: json where
  "demo_artifact = JObject [(''kind'', JString ''glb''), (''path'', JString ''output/C/mesh.glb''),
     (''sha256'', JString ''glTF''), (''size_bytes'', JInt 4), (''content_type'', JString ''model/gltf-binary'')]"

definition demo_result :: json where
  "demo_result = JObject [(''job_id'', JString (uuid_str 8)), (''execution_mode'', JString ''real''),
     (''status'', JString ''succeeded''),
     (''branches'', JObject [(''C'', JObject [(''status'', JString ''succeeded''), (''artifacts'', JList [demo_artifact])])])]"

definition demo_codecs :: codecs where
  "demo_codecs = \<lparr>cs_sha256 = \<lambda>s. s,
     cs_loads = \<lambda>s. if s = ''Q'' then Decoded (JObject [(''job_id'', JString (uuid_str 8)),
           (''requested_by'', JObject [(''user_id'', JString (uuid_str 1))]), (''execution_mode'', JString ''real'')])
       else if s = ''R'' then Decoded demo_result
       else if s = ''E'' then Decoded (JObject [(''job_id'', JString (uuid_str 8)), (''source_result_sha256'', JString ''R'')])
       else Not_json,
     cs_dumps = \<lambda>_. [], cs_valid = \<lambda>_ _. True, cs_zh = \<lambda>s. s\<rparr>"

definition demo_done_job :: reconstruction_job where
  "demo_done_job = (demo_job 8 (CHR ''2'') 5 20)\<lparr>job_status := SUCCEEDED\<rparr>"

definition demo_done :: database where
  "demo_done = demo_queued\<lparr>db_jobs := [demo_done_job]\<rparr>"

lemma demo_paths:
  "resolve demo_files \<lparr>tl_data_root = [''data''], tl_jobs_root = [''data'', ''jobs''], tl_root = demo_root, tl_job_id = j\<rparr> s =
     (if bad_task_path s then Inl (Path_boundary ''task path must be a normalized POSIX relative path'')
      else Inr (demo_root @ posix_parts s))"
  by (simp add: resolve_def demo_files_def is_within_def)

lemma demo_layout:
  "from_data_root demo_files [''data''] (uuid_str 8) =
     Inr \<lparr>tl_data_root = [''data''], tl_jobs_root = [''data'', ''jobs''], tl_root = demo_root, tl_job_id = uuid_str 8\<rparr>"
  by (simp add: from_data_root_def canonical_uuid demo_files_def demo_root_def is_within_def is_dir_def Let_def)

lemma demo_read:
  "\<exists>f. read_artifact demo_codecs demo_files [''data''] demo_done 8 1 ''C'' ''glb'' = Inr f \<and>
     af_path f = demo_root @ [''output'', ''C'', ''mesh.glb'']"
proof -
  have own: "owned_job 8 (Some 1) demo_done = Some demo_done_job"
    by (simp add: owned_job_def demo_done_def demo_done_job_def get_job_def)
  have job: "job_status demo_done_job = SUCCEEDED" "job_id demo_done_job = 8"
    "job_execution_mode demo_done_job = ''real''" "job_storage_cleaned_at demo_done_job = None"
    by (simp_all add: demo_done_job_def) (simp add: demo_job_def queued_job_def)
  have real: "fs_real demo_files = (\<lambda>p. p)" by (simp add: demo_files_def)
  have texts: "read_file demo_files (demo_root @ [''manifests'', ''pipeline-request.json'']) = Some ''Q''"
    "read_file demo_files (demo_root @ [''manifests'', ''pipeline-result.json'']) = Some ''R''"
    "read_file demo_files (demo_root @ [''reports'', ''evaluation.json'']) = Some ''E''"
    "read_file demo_files (demo_root @ [''output'', ''C'', ''mesh.glb'']) = Some ''glTF''"
    by (simp_all add: read_file_def demo_files_def)
  have paths: "\<not> bad_task_path ''manifests/pipeline-request.json'' \<and> posix_parts ''manifests/pipeline-request.json'' = [''manifests'', ''pipeline-request.json'']"
    "\<not> bad_task_path ''manifests/pipeline-result.json'' \<and> posix_parts ''manifests/pipeline-result.json'' = [''manifests'', ''pipeline-result.json'']"
    "\<not> bad_task_path ''reports/evaluation.json'' \<and> posix_parts ''reports/evaluation.json'' = [''reports'', ''evaluation.json'']"
    "\<not> bad_task_path ''output/C/mesh.glb'' \<and> posix_parts ''output/C/mesh.glb'' = [''output'', ''C'', ''mesh.glb'']"
    by (simp_all add: bad_task_path_def posix_parts_def)
  have detail: "read_detail demo_codecs demo_files [''data''] demo_done 8 1 = Inr \<lparr>jd_job = demo_done_job, jd_state = Detail_available,
      jd_warning_code = None, jd_request = Some (JObject [(''job_id'', JString (uuid_str 8)),
           (''requested_by'', JObject [(''user_id'', JString (uuid_str 1))]), (''execution_mode'', JString ''real'')]),
      jd_result = Some demo_result,
      jd_evaluation = Some (JObject [(''job_id'', JString (uuid_str 8)), (''source_result_sha256'', JString ''R'')])\<rparr>"
    by (simp add: read_detail_def own real demo_layout load_reports_def request_path_def result_path_def
        evaluation_path_def demo_paths paths load_json_contract_def texts demo_codecs_def validate_contract_def
        is_object_def validate_request_identity_def validate_result_identity_def validate_evaluation_identity_def
        expect_item_def item_def item2_def job demo_result_def load_optional_def is_file_def sha256_file_def
        report_state_def del: One_nat_def)
  have sha: "cs_sha256 demo_codecs t = t" for t by (simp add: demo_codecs_def)
  have declared: "declared_artifact demo_result ''C'' ''glb'' = Inr demo_artifact"
    by (simp add: declared_artifact_def branch_of_def raised_def item_def demo_result_def elements_of_def demo_artifact_def)
  have verified: "verify_artifact demo_codecs demo_files [''data''] (uuid_str 8) demo_artifact =
      Inr (demo_root @ [''output'', ''C'', ''mesh.glb''])"
    by (simp add: verify_artifact_def demo_layout demo_artifact_def item_def text_of_def demo_paths paths
        is_file_def texts raised_def sha)
  have status: "item ''status'' demo_result = Inr (JString ''succeeded'')"
    by (simp add: demo_result_def item_def)
  have fields: "item ''path'' demo_artifact = Inr (JString ''output/C/mesh.glb'')"
    "item ''content_type'' demo_artifact = Inr (JString ''model/gltf-binary'')"
    "item ''size_bytes'' demo_artifact = Inr (JInt 4)" "item ''sha256'' demo_artifact = Inr (JString ''glTF'')"
    by (simp_all add: demo_artifact_def item_def)
  have target: "target_allowed ''C'' ''glb'' (JString ''output/C/mesh.glb'') (JString ''model/gltf-binary'') = Inr True"
    by (simp add: target_allowed_def allowed_targets_def)
  show ?thesis
    by (simp add: read_artifact_def detail job declared verified status fields target raised_def real del: One_nat_def)
qed

theorem artifact_read_is_authentic_witness:
  "\<exists>f job. read_artifact demo_codecs demo_files [''data''] demo_done 8 1 ''C'' ''glb'' = Inr f \<and>
     get_job 8 demo_done = Some job \<and> job_status job = SUCCEEDED"
proof -
  obtain f where "read_artifact demo_codecs demo_files [''data''] demo_done 8 1 ''C'' ''glb'' = Inr f"
    using demo_read by blast
  with artifact_read_is_authentic [OF this] show ?thesis by blast
qed

end
