(* ===== verification/Managed_Process.thy ===== *)
theory Managed_Process
  imports Task_Files
begin

text \<open>
  The supervised run of a command, \<^verbatim>\<open>backend/re3d_adapter/process.py\<close>. What the outside does is a
  function of the number of calls made so far: the next line of the output, the exit of the process, the
  health check, the user's cancellation, the monotonic clock, the handler of lines. Every call is
  recorded. The loops are \<open>partial_function\<close>s: that they end is a theorem, not an assumption. The POSIX
  branches of the platform tests are modelled; the reader thread is the source of the lines.
\<close>

section \<open>The outside\<close>

record process_env =
  pe_health :: "nat \<Rightarrow> adapter_error option"
  pe_cancel :: "nat \<Rightarrow> bool"
  pe_clock :: "nat \<Rightarrow> rat"
  pe_line :: "nat \<Rightarrow> string option"
  pe_handler :: "nat \<Rightarrow> string \<Rightarrow> adapter_error option"
  pe_poll :: "nat \<Rightarrow> int option"
  pe_popen_fails :: bool
  pe_term_gone :: bool
  pe_term_waited :: bool
  pe_kill_gone :: bool
  pe_kill_waited :: bool

text \<open>
  \<open>Terminated\<close> and \<open>Killed\<close> are the signals sent; \<open>Waited\<close> is a \<open>wait\<close> that saw the exit, \<open>No_process\<close> the
  answer that there is no process to signal.
\<close>

datatype process_action =
    Supervised | Handled string | Polled "int option" | Slept | Terminated | Killed | Waited | No_process

record process_world =
  pw_calls :: nat
  pw_trace :: "process_action list"
  pw_log :: "string list"

type_synonym 'a process_result = "(adapter_error, 'a, process_world) outcome"

definition record_action :: "process_action \<Rightarrow> process_world \<Rightarrow> process_world" where
  "record_action a w = w\<lparr>pw_calls := pw_calls w + 1, pw_trace := pw_trace w @ [a]\<rparr>"

definition write_log :: "string \<Rightarrow> process_world \<Rightarrow> process_world" where
  "write_log s w = w\<lparr>pw_log := pw_log w @ [s]\<rparr>"

section \<open>Supervision\<close>

record managed_settings =
  ms_timeout_seconds :: int
  ms_poll_seconds :: rat
  ms_grace_seconds :: rat
  ms_started :: rat

definition check_supervision :: "process_env \<Rightarrow> managed_settings \<Rightarrow> process_world \<Rightarrow> unit process_result" where
  "check_supervision e s w =
     (let n = pw_calls w; w1 = record_action Supervised w
      in case pe_health e n of
           Some x \<Rightarrow> (Inl x, w1)
         | None \<Rightarrow>
             if pe_cancel e n then (Inl Pipeline_cancelled, w1)
             else if of_int (ms_timeout_seconds s) \<le> pe_clock e n - ms_started s then (Inl Pipeline_timed_out, w1)
             else (Inr (), w1))"

text \<open>\<open>line.rstrip("\r\n")\<close>.\<close>

definition strip_newline :: "string \<Rightarrow> string" where
  "strip_newline s = rev (dropWhile (\<lambda>c. c = char_of (10 :: nat) \<or> c = char_of (13 :: nat)) (rev s))"

definition handle_line :: "process_env \<Rightarrow> string \<Rightarrow> process_world \<Rightarrow> unit process_result" where
  "handle_line e s w =
     (let w1 = write_log s (record_action (Handled s) w)
      in case pe_handler e (pw_calls w) (strip_newline s) of Some x \<Rightarrow> (Inl x, w1) | None \<Rightarrow> (Inr (), w1))"

text \<open>\<open>_drain_output\<close> after its first check: \<open>n\<close> lines were handled.\<close>

partial_function (option) drain_lines ::
  "process_env \<Rightarrow> managed_settings \<Rightarrow> nat \<Rightarrow> process_world \<Rightarrow> unit process_result option" where
  "drain_lines e s n w =
     (case pe_line e (pw_calls w) of
        None \<Rightarrow> Some (Inr (), w)
      | Some line \<Rightarrow>
          (case handle_line e line w of
             (Inl x, w1) \<Rightarrow> Some (Inl x, w1)
           | (Inr _, w1) \<Rightarrow>
               if (n + 1) mod 64 = 0
               then (case check_supervision e s w1 of
                   (Inl x, w2) \<Rightarrow> Some (Inl x, w2)
                 | (Inr _, w2) \<Rightarrow> drain_lines e s (n + 1) w2)
               else drain_lines e s (n + 1) w1))"

definition drain_output :: "process_env \<Rightarrow> managed_settings \<Rightarrow> process_world \<Rightarrow> unit process_result option" where
  "drain_output e s w =
     (case check_supervision e s w of
        (Inl x, w1) \<Rightarrow> Some (Inl x, w1)
      | (Inr _, w1) \<Rightarrow> drain_lines e s 0 w1)"

text \<open>Draining and the check after it, as both the loop and the end of the process do them.\<close>

definition drain_and_check :: "process_env \<Rightarrow> managed_settings \<Rightarrow> process_world \<Rightarrow> unit process_result option" where
  "drain_and_check e s w =
     (case drain_output e s w of
        None \<Rightarrow> None
      | Some (Inl x, w1) \<Rightarrow> Some (Inl x, w1)
      | Some (Inr _, w1) \<Rightarrow> Some (check_supervision e s w1))"

definition poll :: "process_env \<Rightarrow> process_world \<Rightarrow> int option \<times> process_world" where
  "poll e w = (let code = pe_poll e (pw_calls w) in (code, record_action (Polled code) w))"

partial_function (option) supervise_loop ::
  "process_env \<Rightarrow> managed_settings \<Rightarrow> process_world \<Rightarrow> int process_result option" where
  "supervise_loop e s w =
     (case drain_and_check e s w of
        None \<Rightarrow> None
      | Some (r, w1) \<Rightarrow>
          (case r of
             Inl x \<Rightarrow> Some (Inl x, w1)
           | Inr _ \<Rightarrow>
               (case poll e w1 of (code, w2) \<Rightarrow>
                 (case code of
                    None \<Rightarrow> supervise_loop e s (record_action Slept w2)
                  | Some c \<Rightarrow>
                      (case drain_and_check e s w2 of
                         None \<Rightarrow> None
                       | Some (Inl x, w3) \<Rightarrow> Some (Inl x, w3)
                       | Some (Inr _, w3) \<Rightarrow> Some (Inr c, write_log ''--- managed Re3D process exited ---'' w3))))))"

section \<open>The run\<close>

text \<open>\<open>_terminate_process_tree\<close>: the second wait may run out, which raises.\<close>

definition terminate_process_tree :: "process_env \<Rightarrow> process_world \<Rightarrow> unit process_result" where
  "terminate_process_tree e w =
     (case poll e w of (code, w1) \<Rightarrow>
        if code \<noteq> None then (Inr (), w1)
        else if pe_term_gone e then (Inr (), record_action No_process w1)
        else
          let w2 = record_action Terminated w1
          in if pe_term_waited e then (Inr (), record_action Waited w2)
             else if pe_kill_gone e then (Inr (), record_action No_process w2)
             else let w3 = record_action Killed w2
               in if pe_kill_waited e then (Inr (), record_action Waited w3) else (Inl Os_error, w3))"

definition managed_error :: "managed_settings \<Rightarrow> string list \<Rightarrow> string option" where
  "managed_error s command =
     (if ms_timeout_seconds s < 1 then Some ''timeout_seconds must be positive''
      else if ms_poll_seconds s \<le> 0 then Some ''poll_seconds must be positive''
      else if ms_grace_seconds s \<le> 0 then Some ''termination_grace_seconds must be positive''
      else if command = [] then Some ''command must not be empty''
      else None)"

definition new_process_world :: process_world where
  "new_process_world = \<lparr>pw_calls = 0, pw_trace = [], pw_log = [''--- managed Re3D process started ---'']\<rparr>"

text \<open>A failure of the loop terminates a process that has not exited, and is raised again.\<close>

definition after_failure :: "process_env \<Rightarrow> adapter_error \<Rightarrow> process_world \<Rightarrow> int process_result" where
  "after_failure e x w =
     (case poll e w of (code, w1) \<Rightarrow>
        if code \<noteq> None then (Inl x, w1)
        else (case terminate_process_tree e w1 of (Inl y, w2) \<Rightarrow> (Inl y, w2) | (Inr _, w2) \<Rightarrow> (Inl x, w2)))"

definition run_managed_process ::
  "process_env \<Rightarrow> managed_settings \<Rightarrow> string list \<Rightarrow> int process_result option" where
  "run_managed_process e s command =
     (case managed_error s command of
        Some msg \<Rightarrow> Some (Inl (Value_error msg), new_process_world)
      | None \<Rightarrow>
          if pe_popen_fails e then Some (Inl (Adapter_failure ''cannot start the Re3D process''), new_process_world)
          else (case supervise_loop e s new_process_world of
              None \<Rightarrow> None
            | Some (Inl x, w) \<Rightarrow> Some (after_failure e x w)
            | Some (Inr c, w) \<Rightarrow> Some (Inr c, w)))"

section \<open>The loops end\<close>

text \<open>From call \<open>n\<close> on the clock shows that the time is up.\<close>

definition time_is_up :: "process_env \<Rightarrow> managed_settings \<Rightarrow> nat \<Rightarrow> bool" where
  "time_is_up e s n \<longleftrightarrow> (\<forall>m \<ge> n. of_int (ms_timeout_seconds s) \<le> pe_clock e m - ms_started s)"

lemma record_action_fields [simp]:
  "pw_calls (record_action a w) = pw_calls w + 1" "pw_trace (record_action a w) = pw_trace w @ [a]"
  "pw_log (record_action a w) = pw_log w"
  by (simp_all add: record_action_def)

lemma write_log_fields [simp]:
  "pw_calls (write_log s w) = pw_calls w" "pw_trace (write_log s w) = pw_trace w"
  "pw_log (write_log s w) = pw_log w @ [s]"
  by (simp_all add: write_log_def)

lemma check_supervision_fields:
  "check_supervision e s w = (r, w1) \<Longrightarrow> w1 = record_action Supervised w"
  by (auto simp: check_supervision_def Let_def split: option.splits if_splits)

lemma check_supervision_late:
  assumes "time_is_up e s N" "N \<le> pw_calls w" shows "\<exists>x w1. check_supervision e s w = (Inl x, w1)"
  using assms by (auto simp: check_supervision_def time_is_up_def Let_def split: option.split)

lemma handle_line_fields:
  "handle_line e t w = (r, w1) \<Longrightarrow> w1 = write_log t (record_action (Handled t) w)"
  by (auto simp: handle_line_def Let_def split: option.splits)

lemma drain_lines_ends:
  assumes "time_is_up e s N" shows "drain_lines e s n w \<noteq> None"
proof (induction "64 * (N - pw_calls w) + (64 - n mod 64)" arbitrary: n w rule: less_induct)
  case less
  show ?case
  proof (cases "pe_line e (pw_calls w)")
    case None
    then show ?thesis by (simp add: drain_lines.simps)
  next
    case (Some line)
    obtain r w1 where h: "handle_line e line w = (r, w1)" by fastforce
    have w1: "pw_calls w1 = pw_calls w + 1" using handle_line_fields [OF h] by simp
    show ?thesis
    proof (cases r)
      case (Inl x)
      with Some h show ?thesis by (simp add: drain_lines.simps)
    next
      case (Inr u)
      show ?thesis
      proof (cases "(n + 1) mod 64 = 0")
        case True
        obtain r2 w2 where c: "check_supervision e s w1 = (r2, w2)" by fastforce
        have w2: "pw_calls w2 = pw_calls w + 2" using check_supervision_fields [OF c] w1 by simp
        show ?thesis
        proof (cases r2)
          case (Inl x)
          with Some h Inr True c show ?thesis by (subst drain_lines.simps) simp
        next
          case r2: (Inr u2)
          then have "pw_calls w1 < N" using check_supervision_late [OF assms, of w1] c by fastforce
          then have "64 * (N - pw_calls w2) + (64 - (n + 1) mod 64) < 64 * (N - pw_calls w) + (64 - n mod 64)"
            using w1 w2 True by (simp add: diff_mult_distrib2)
          from less [OF this] Some h Inr True c r2 show ?thesis by (subst drain_lines.simps) simp
        qed
      next
        case False
        then have "(n + 1) mod 64 = n mod 64 + 1" by (simp add: mod_Suc split: if_splits)
        moreover have "n mod 64 < 64" by simp
        ultimately have "64 * (N - pw_calls w1) + (64 - (n + 1) mod 64) < 64 * (N - pw_calls w) + (64 - n mod 64)"
          using w1 by linarith
        from less [OF this] Some h Inr False show ?thesis by (subst drain_lines.simps) simp
      qed
    qed
  qed
qed

section \<open>Lines and checks\<close>

text \<open>At most 64 lines are handled after a check before the next one; \<open>k\<close> were handled already.\<close>

fun lines_supervised :: "nat \<Rightarrow> process_action list \<Rightarrow> bool" where
  "lines_supervised k [] \<longleftrightarrow> True"
| "lines_supervised k (Supervised # as) \<longleftrightarrow> lines_supervised 0 as"
| "lines_supervised k (Handled _ # as) \<longleftrightarrow> k < 64 \<and> lines_supervised (k + 1) as"
| "lines_supervised k (_ # as) \<longleftrightarrow> lines_supervised k as"

fun unsupervised :: "nat \<Rightarrow> process_action list \<Rightarrow> nat" where
  "unsupervised k [] = k"
| "unsupervised k (Supervised # as) = unsupervised 0 as"
| "unsupervised k (Handled _ # as) = unsupervised (k + 1) as"
| "unsupervised k (_ # as) = unsupervised k as"

lemma lines_supervised_append:
  "lines_supervised k (as @ bs) \<longleftrightarrow> lines_supervised k as \<and> lines_supervised (unsupervised k as) bs"
  by (induction k as rule: lines_supervised.induct) auto

lemma unsupervised_append: "unsupervised k (as @ bs) = unsupervised (unsupervised k as) bs"
  by (induction k as rule: unsupervised.induct) auto

text \<open>What a world adds to an earlier one.\<close>

definition adds :: "process_world \<Rightarrow> process_action list \<Rightarrow> process_world \<Rightarrow> bool" where
  "adds w t w' \<longleftrightarrow> pw_trace w' = pw_trace w @ t \<and> pw_calls w' = pw_calls w + length t"

lemma adds_refl: "adds w [] w"
  by (simp add: adds_def)

lemma adds_record: "adds w [a] (record_action a w)"
  by (simp add: adds_def)

lemma adds_trans: "adds w t w1 \<Longrightarrow> adds w1 u w2 \<Longrightarrow> adds w (t @ u) w2"
  by (simp add: adds_def)

lemma adds_write: "adds w t w1 \<Longrightarrow> adds w t (write_log x w1)"
  by (simp add: adds_def)

lemma check_adds: "check_supervision e s w = (r, w1) \<Longrightarrow> adds w [Supervised] w1"
  by (auto dest: check_supervision_fields simp: adds_def)

lemma handle_adds: "handle_line e line w = (r, w1) \<Longrightarrow> adds w [Handled line] w1"
  by (auto dest: handle_line_fields simp: adds_def)

lemma drain_lines_adds:
  assumes "drain_lines e s n w = Some y"
  shows "\<exists>t. adds w t (snd y) \<and> lines_supervised (n mod 64) t"
proof (rule drain_lines.raw_induct [where P = "\<lambda>e s n w y. \<exists>t. adds w t (snd y) \<and> lines_supervised (n mod 64) t",
      OF _ assms])
  fix rec e s n w y
  assume IH: "\<And>e s n w y. rec e s n w = Some y \<Longrightarrow> \<exists>t. adds w t (snd y) \<and> lines_supervised (n mod 64) t"
    and body: "(case pe_line e (pw_calls w) of
        None \<Rightarrow> Some (Inr (), w)
      | Some line \<Rightarrow>
          (case handle_line e line w of
             (Inl x, w1) \<Rightarrow> Some (Inl x, w1)
           | (Inr _, w1) \<Rightarrow>
               if (n + 1) mod 64 = 0
               then (case check_supervision e s w1 of
                   (Inl x, w2) \<Rightarrow> Some (Inl x, w2)
                 | (Inr _, w2) \<Rightarrow> rec e s (n + 1) w2)
               else rec e s (n + 1) w1)) = Some y"
  show "\<exists>t. adds w t (snd y) \<and> lines_supervised (n mod 64) t"
  proof (cases "pe_line e (pw_calls w)")
    case None
    with body show ?thesis by (auto intro: exI [of _ "[]"] simp: adds_refl)
  next
    case (Some line)
    obtain q wa where h: "handle_line e line w = (q, wa)" by fastforce
    note ha = handle_adds [OF h]
    have lt: "n mod 64 < 64" by simp
    show ?thesis
    proof (cases q)
      case (Inl x)
      with body Some h ha show ?thesis by (intro exI [of _ "[Handled line]"]) auto
    next
      case (Inr u)
      show ?thesis
      proof (cases "(n + 1) mod 64 = 0")
        case True
        obtain q2 wb where c: "check_supervision e s wa = (q2, wb)" by fastforce
        note two = adds_trans [OF ha check_adds [OF c]]
        show ?thesis
        proof (cases q2)
          case (Inl x)
          with body Some h Inr True c two show ?thesis
            by (intro exI [of _ "[Handled line] @ [Supervised]"]) auto
        next
          case (Inr u2)
          with body Some h \<open>q = Inr u\<close> True c have "rec e s (n + 1) wb = Some y" by simp
          from IH [OF this] True obtain t where t: "adds wb t (snd y)" "lines_supervised 0 t" by auto
          with adds_trans [OF two t(1)] show ?thesis
            by (intro exI [of _ "([Handled line] @ [Supervised]) @ t"]) simp
        qed
      next
        case False
        with body Some h Inr have "rec e s (n + 1) wa = Some y" by simp
        moreover have "(n + 1) mod 64 = n mod 64 + 1" using False by (simp add: mod_Suc split: if_splits)
        ultimately obtain t where t: "adds wa t (snd y)" "lines_supervised (n mod 64 + 1) t"
          using IH by fastforce
        with adds_trans [OF ha t(1)] lt show ?thesis by (intro exI [of _ "[Handled line] @ t"]) simp
      qed
    qed
  qed
qed

lemma drain_and_check_ends: "time_is_up e s N \<Longrightarrow> drain_and_check e s w \<noteq> None"
  using drain_lines_ends by (auto simp: drain_and_check_def drain_output_def split: option.splits prod.splits sum.splits)

lemma drain_and_check_adds:
  assumes "drain_and_check e s w = Some (r, w1)"
  shows "\<exists>t. adds w (Supervised # t) w1 \<and> lines_supervised 0 t \<and> (\<forall>u. r = Inr u \<longrightarrow> unsupervised 0 t = 0)"
proof -
  obtain q wa where c: "check_supervision e s w = (q, wa)" by fastforce
  note ca = check_adds [OF c]
  show ?thesis
  proof (cases q)
    case (Inl x)
    with assms c ca show ?thesis
      by (intro exI [of _ "[]"]) (simp add: drain_and_check_def drain_output_def)
  next
    case (Inr u)
    with assms c obtain q2 wb where d: "drain_lines e s 0 wa = Some (q2, wb)"
      by (auto simp: drain_and_check_def drain_output_def split: option.splits)
    obtain t where t: "adds wa t wb" "lines_supervised 0 t" using drain_lines_adds [OF d] by auto
    show ?thesis
    proof (cases q2)
      case (Inl x)
      with assms c Inr d adds_trans [OF ca t(1)] t(2) show ?thesis
        by (intro exI [of _ t]) (auto simp: drain_and_check_def drain_output_def)
    next
      case (Inr u2)
      with assms c \<open>q = Inr u\<close> d have "check_supervision e s wb = (r, w1)"
        by (simp add: drain_and_check_def drain_output_def)
      from adds_trans [OF adds_trans [OF ca t(1)] check_adds [OF this]] t(2) show ?thesis
        by (intro exI [of _ "t @ [Supervised]"]) (simp add: lines_supervised_append unsupervised_append)
    qed
  qed
qed

lemma drain_and_check_late:
  assumes "time_is_up e s N" "N \<le> pw_calls w" "drain_and_check e s w = Some (r, w1)"
  shows "\<exists>x. r = Inl x"
  using assms(3) check_supervision_late [OF assms(1,2)]
  by (auto simp: drain_and_check_def drain_output_def)

lemma supervise_loop_ends:
  assumes "time_is_up e s N" shows "supervise_loop e s w \<noteq> None"
proof (induction "N - pw_calls w" arbitrary: w rule: less_induct)
  case less
  obtain r w1 where d: "drain_and_check e s w = Some (r, w1)"
    using drain_and_check_ends [OF assms, of w] by fastforce
  obtain code w2 where p: "poll e w1 = (code, w2)" by fastforce
  show ?case
  proof (cases r)
    case (Inl x)
    with d show ?thesis by (subst supervise_loop.simps) simp
  next
    case (Inr u)
    show ?thesis
    proof (cases code)
      case (Some c)
      obtain r3 w3 where "drain_and_check e s w2 = Some (r3, w3)"
        using drain_and_check_ends [OF assms, of w2] by fastforce
      with d Inr p Some show ?thesis by (subst supervise_loop.simps) (cases r3; simp)
    next
      case None
      have "pw_calls w < N"
        using drain_and_check_late [OF assms _ d] Inr by (cases "pw_calls w < N") auto
      moreover have "pw_calls w < pw_calls (record_action Slept w2)"
        using drain_and_check_adds [OF d] p by (auto simp: adds_def poll_def Let_def)
      ultimately have "N - pw_calls (record_action Slept w2) < N - pw_calls w" by simp
      from less [OF this] d Inr p None show ?thesis by (subst supervise_loop.simps) simp
    qed
  qed
qed

lemma supervise_loop_adds:
  assumes "supervise_loop e s w = Some y"
  shows "\<exists>t. adds w (Supervised # t) (snd y) \<and> lines_supervised 0 t \<and>
    (\<forall>c. fst y = Inr c \<longrightarrow> Polled (Some c) \<in> set t)"
proof (rule supervise_loop.raw_induct [where P = "\<lambda>e s w y. \<exists>t. adds w (Supervised # t) (snd y) \<and>
      lines_supervised 0 t \<and> (\<forall>c. fst y = Inr c \<longrightarrow> Polled (Some c) \<in> set t)", OF _ assms])
  fix rec e s w y
  assume IH: "\<And>e s w y. rec e s w = Some y \<Longrightarrow> \<exists>t. adds w (Supervised # t) (snd y) \<and> lines_supervised 0 t \<and>
      (\<forall>c. fst y = Inr c \<longrightarrow> Polled (Some c) \<in> set t)"
    and body: "(case drain_and_check e s w of
        None \<Rightarrow> None
      | Some (r, w1) \<Rightarrow>
          (case r of
             Inl x \<Rightarrow> Some (Inl x, w1)
           | Inr _ \<Rightarrow>
               (case poll e w1 of (code, w2) \<Rightarrow>
                 (case code of
                    None \<Rightarrow> rec e s (record_action Slept w2)
                  | Some c \<Rightarrow>
                      (case drain_and_check e s w2 of
                         None \<Rightarrow> None
                       | Some (Inl x, w3) \<Rightarrow> Some (Inl x, w3)
                       | Some (Inr _, w3) \<Rightarrow> Some (Inr c, write_log ''--- managed Re3D process exited ---'' w3)))))) = Some y"
  then obtain r w1 where d: "drain_and_check e s w = Some (r, w1)" by (auto split: option.splits)
  obtain t1 where t1: "adds w (Supervised # t1) w1" "lines_supervised 0 t1" "\<forall>u. r = Inr u \<longrightarrow> unsupervised 0 t1 = 0"
    using drain_and_check_adds [OF d] by blast
  obtain code w2 where p: "poll e w1 = (code, w2)" by fastforce
  have t2: "adds w (Supervised # t1 @ [Polled code]) w2"
    using t1(1) p by (auto simp: poll_def Let_def adds_def)
  show "\<exists>t. adds w (Supervised # t) (snd y) \<and> lines_supervised 0 t \<and> (\<forall>c. fst y = Inr c \<longrightarrow> Polled (Some c) \<in> set t)"
  proof (cases r)
    case (Inl x)
    with body d t1 show ?thesis by (intro exI [of _ t1]) auto
  next
    case (Inr u)
    show ?thesis
    proof (cases code)
      case None
      with body d Inr p have "rec e s (record_action Slept w2) = Some y" by simp
      from IH [OF this] obtain t where t: "adds (record_action Slept w2) (Supervised # t) (snd y)"
        "lines_supervised 0 t" "\<forall>c. fst y = Inr c \<longrightarrow> Polled (Some c) \<in> set t" by blast
      have "adds w (Supervised # (t1 @ [Polled code, Slept, Supervised] @ t)) (snd y)"
        using adds_trans [OF adds_trans [OF t2 adds_record] t(1)] by simp
      with t t1 Inr show ?thesis
        by (intro exI [of _ "t1 @ [Polled code, Slept, Supervised] @ t"]) (auto simp: lines_supervised_append)
    next
      case (Some c)
      obtain r3 w3 where d3: "drain_and_check e s w2 = Some (r3, w3)"
        using body d Inr p Some by (auto split: option.splits)
      obtain t3 where t3: "adds w2 (Supervised # t3) w3" "lines_supervised 0 t3"
        using drain_and_check_adds [OF d3] by blast
      have y: "snd y = w3 \<or> snd y = write_log ''--- managed Re3D process exited ---'' w3" "\<forall>x. fst y = Inr x \<longrightarrow> x = c"
        using body d Inr p Some d3 by (cases r3; auto)+
      have "adds w (Supervised # (t1 @ [Polled code, Supervised] @ t3)) w3"
        using adds_trans [OF t2 t3(1)] by simp
      with y(1) have "adds w (Supervised # (t1 @ [Polled code, Supervised] @ t3)) (snd y)"
        by (auto intro: adds_write)
      with t1 t3 Inr Some y(2) show ?thesis
        by (intro exI [of _ "t1 @ [Polled code, Supervised] @ t3"]) (auto simp: lines_supervised_append)
    qed
  qed
qed

text \<open>
  The run has seen the end of its process: a poll returned a code, a \<open>wait\<close> returned, or there was no
  process left to signal.
\<close>

definition process_ended :: "process_action list \<Rightarrow> bool" where
  "process_ended t \<longleftrightarrow> (\<exists>c. Polled (Some c) \<in> set t) \<or> Waited \<in> set t \<or> No_process \<in> set t"

lemma terminate_adds:
  assumes "terminate_process_tree e w = (r, w1)"
  shows "\<exists>t. adds w t w1 \<and> (\<forall>k. lines_supervised k t) \<and>
    (process_ended t \<and> r = Inr () \<or> r = Inl Os_error \<and> Terminated \<in> set t \<and> Killed \<in> set t)"
proof -
  obtain code wa where p: "poll e w = (code, wa)" by fastforce
  then have a: "adds w [Polled code] wa" by (auto simp: poll_def Let_def adds_def)
  note steps = adds_trans [OF _ adds_record]
  note b = steps [OF a, of Terminated]
  note c = steps [OF b, of Killed]
  note step = assms [unfolded terminate_process_tree_def p prod.case Let_def]
  consider (exited) x where "code = Some x" "w1 = wa" "r = Inr ()"
    | (gone) "w1 = record_action No_process wa" "r = Inr ()"
    | (waited) "w1 = record_action Waited (record_action Terminated wa)" "r = Inr ()"
    | (gone_later) "w1 = record_action No_process (record_action Terminated wa)" "r = Inr ()"
    | (killed) "w1 = record_action Waited (record_action Killed (record_action Terminated wa))" "r = Inr ()"
    | (stuck) "w1 = record_action Killed (record_action Terminated wa)" "r = Inl Os_error"
    using step by (cases code) (auto split: if_splits)
  then show ?thesis
  proof cases
    case exited
    with a show ?thesis by (intro exI [of _ "[Polled code]"]) (simp add: process_ended_def)
  next
    case gone
    with steps [OF a, of No_process] show ?thesis
      by (intro exI [of _ "[Polled code] @ [No_process]"]) (simp add: process_ended_def)
  next
    case waited
    with steps [OF b, of Waited] show ?thesis
      by (intro exI [of _ "([Polled code] @ [Terminated]) @ [Waited]"]) (simp add: process_ended_def)
  next
    case gone_later
    with steps [OF b, of No_process] show ?thesis
      by (intro exI [of _ "([Polled code] @ [Terminated]) @ [No_process]"]) (simp add: process_ended_def)
  next
    case killed
    with steps [OF c, of Waited] show ?thesis
      by (intro exI [of _ "(([Polled code] @ [Terminated]) @ [Killed]) @ [Waited]"]) (simp add: process_ended_def)
  next
    case stuck
    with c show ?thesis
      by (intro exI [of _ "([Polled code] @ [Terminated]) @ [Killed]"]) simp
  qed
qed

lemma after_failure_adds:
  assumes "after_failure e x w = (r, w1)"
  shows "\<exists>t. adds w t w1 \<and> (\<forall>k. lines_supervised k t) \<and> (\<exists>y. r = Inl y) \<and>
    (process_ended t \<or> r = Inl Os_error \<and> Terminated \<in> set t \<and> Killed \<in> set t)"
proof -
  obtain code wa where p: "poll e w = (code, wa)" by fastforce
  then have a: "adds w [Polled code] wa" by (auto simp: poll_def Let_def adds_def)
  show ?thesis
  proof (cases code)
    case (Some c)
    with assms p a show ?thesis
      by (intro exI [of _ "[Polled code]"]) (auto simp: after_failure_def process_ended_def)
  next
    case None
    obtain r2 wb where t: "terminate_process_tree e wa = (r2, wb)" by fastforce
    with assms p None have w1: "w1 = wb" "r = (case r2 of Inl y \<Rightarrow> Inl y | Inr _ \<Rightarrow> Inl x)"
      by (auto simp: after_failure_def split: sum.splits)
    obtain u where u: "adds wa u wb" "\<forall>k. lines_supervised k u"
      "process_ended u \<and> r2 = Inr () \<or> r2 = Inl Os_error \<and> Terminated \<in> set u \<and> Killed \<in> set u"
      using terminate_adds [OF t] by blast
    from adds_trans [OF a u(1)] u(2,3) w1 show ?thesis
      by (intro exI [of _ "[Polled code] @ u"]) (auto simp: process_ended_def)
  qed
qed

text \<open>
  C27. A supervised run always ends, never runs unsupervised, and does not leave its process behind: once
  the clock stays past the time limit from some call on, whatever the process prints or the handlers do, the
  run returns or raises; between two checks of the lease, the cancellation and the limit it handles at most
  64 lines; a code it returns is the process's own. However it ends, it has seen the end of the process it
  started, by its exit code, by a \<open>wait\<close> or because there was nothing left to signal; the one exception is
  a process that outlives \<open>SIGKILL\<close> for the whole grace period, which is raised as an error.
\<close>

theorem managed_process_ends:
  assumes "time_is_up e s N"
  shows "\<exists>r w. run_managed_process e s command = Some (r, w) \<and> lines_supervised 0 (pw_trace w) \<and>
    (\<forall>c. r = Inr c \<longrightarrow> Polled (Some c) \<in> set (pw_trace w)) \<and>
    (managed_error s command = None \<and> \<not> pe_popen_fails e \<longrightarrow>
       process_ended (pw_trace w) \<or>
       r = Inl Os_error \<and> Terminated \<in> set (pw_trace w) \<and> Killed \<in> set (pw_trace w))"
proof (cases "managed_error s command = None \<and> \<not> pe_popen_fails e")
  case False
  then show ?thesis by (auto simp: run_managed_process_def new_process_world_def split: option.split)
next
  case True
  obtain y where y: "supervise_loop e s new_process_world = Some y"
    using supervise_loop_ends [OF assms, of new_process_world] by blast
  obtain t where t: "adds new_process_world (Supervised # t) (snd y)" "lines_supervised 0 t"
    "\<forall>c. fst y = Inr c \<longrightarrow> Polled (Some c) \<in> set t" using supervise_loop_adds [OF y] by blast
  have tr: "pw_trace (snd y) = Supervised # t" using t(1) by (simp add: adds_def new_process_world_def)
  show ?thesis
  proof (cases "fst y")
    case (Inr c)
    with True y have "run_managed_process e s command = Some y"
      by (cases y) (simp add: run_managed_process_def)
    with Inr t tr show ?thesis by (cases y) (auto simp: process_ended_def)
  next
    case (Inl x)
    obtain r w where f: "after_failure e x (snd y) = (r, w)" by fastforce
    with True y Inl have run: "run_managed_process e s command = Some (r, w)"
      by (cases y) (simp add: run_managed_process_def)
    obtain u where u: "adds (snd y) u w" "\<forall>k. lines_supervised k u" "\<exists>z. r = Inl z"
      "process_ended u \<or> r = Inl Os_error \<and> Terminated \<in> set u \<and> Killed \<in> set u"
      using after_failure_adds [OF f] by blast
    have "pw_trace w = (Supervised # t) @ u" using u(1) tr by (simp add: adds_def)
    with run t u show ?thesis by (auto simp: lines_supervised_append process_ended_def)
  qed
qed

text \<open>A process that prints without end and ignores the signal, with a clock of one second per call.\<close>

definition demo_endless :: process_env where
  "demo_endless = \<lparr>pe_health = \<lambda>_. None, pe_cancel = \<lambda>_. False, pe_clock = of_nat, pe_line = \<lambda>_. Some ''x'',
     pe_handler = \<lambda>_ _. None, pe_poll = \<lambda>_. None, pe_popen_fails = False, pe_term_gone = False,
     pe_term_waited = False, pe_kill_gone = False, pe_kill_waited = True\<rparr>"

theorem managed_process_ends_witness:
  "\<exists>r w. run_managed_process demo_endless \<lparr>ms_timeout_seconds = 100, ms_poll_seconds = 1, ms_grace_seconds = 5,
      ms_started = 0\<rparr> [''python''] = Some (r, w) \<and> lines_supervised 0 (pw_trace w) \<and>
     (process_ended (pw_trace w) \<or> r = Inl Os_error)"
proof -
  have "time_is_up demo_endless \<lparr>ms_timeout_seconds = 100, ms_poll_seconds = 1, ms_grace_seconds = 5, ms_started = 0\<rparr> 100"
    by (auto simp: time_is_up_def demo_endless_def of_nat_le_iff [of 100, simplified])
  moreover have "managed_error \<lparr>ms_timeout_seconds = 100, ms_poll_seconds = 1, ms_grace_seconds = 5, ms_started = 0\<rparr>
      [''python''] = None" "\<not> pe_popen_fails demo_endless"
    by (simp_all add: managed_error_def demo_endless_def)
  ultimately show ?thesis using managed_process_ends [of demo_endless _ 100 "[''python'']"] by blast
qed

end
