(* ===== verification/Re3d_Steps.thy ===== *)
theory Re3d_Steps
  imports Task_Files
begin

text \<open>
  What \<^verbatim>\<open>backend/re3d_adapter/real.py\<close> reads of the output of Re3D and passes to it: the lines that
  announce steps, the stage and the branch of a step, and the environment of the process. The regular
  expression is matched by hand, in the order in which Python's matcher backtracks.
\<close>

section \<open>Step lines\<close>

definition lf :: char where
  "lf = CHR 0x0A"

definition name_char :: "char \<Rightarrow> bool" where
  "name_char c \<longleftrightarrow> c \<noteq> CHR '':'' \<and> c \<noteq> lf \<and> c \<noteq> CHR 0x0D"

text \<open>
  \<open>([^:\r\n]+)(?::.*)?$\<close> at the start of a text: the name and the text after the match. A shorter name is
  never followed by a colon or an end of line.
\<close>

definition match_name :: "string \<Rightarrow> (string \<times> string) option" where
  "match_name s =
     (let name = takeWhile name_char s; rest = drop (length name) s
      in if name = [] then None
         else (case rest of
             [] \<Rightarrow> Some (name, [])
           | c # r \<Rightarrow>
               if c = CHR '':'' then Some (name, dropWhile (\<lambda>d. d \<noteq> lf) r)
               else if c = lf then Some (name, rest) else None))"

text \<open>\<open>\s+\<close> before it gives back one character after the other; \<open>ok\<close> says what a match must leave.\<close>

fun match_after_spaces :: "(string \<Rightarrow> bool) \<Rightarrow> nat \<Rightarrow> string \<Rightarrow> (string \<times> string) option" where
  "match_after_spaces ok 0 s = None"
| "match_after_spaces ok (Suc k) s =
     (case match_name (drop (Suc k) s) of
        Some (name, rest) \<Rightarrow> if ok rest then Some (name, rest) else match_after_spaces ok k s
      | None \<Rightarrow> match_after_spaces ok k s)"

definition match_step :: "(string \<Rightarrow> bool) \<Rightarrow> string \<Rightarrow> (string \<times> string \<times> string) option" where
  "match_step ok s =
     (case (if take 5 s = ''[run]'' then Some (''run'', drop 5 s)
            else if take 6 s = ''[skip]'' then Some (''skip'', drop 6 s) else None) of
        None \<Rightarrow> None
      | Some (action, t) \<Rightarrow>
          map_option (\<lambda>(name, rest). (action, name, rest))
            (match_after_spaces ok (length (takeWhile is_space t)) t))"

lemma match_name_shorter: "match_name s = Some (name, rest) \<Longrightarrow> length rest < length s"
proof -
  assume m: "match_name s = Some (name, rest)"
  let ?n = "takeWhile name_char s" and ?r = "drop (length (takeWhile name_char s)) s"
  have ne: "?n \<noteq> []" using m by (auto simp: match_name_def Let_def split: if_splits)
  have le: "length rest \<le> length ?r"
  proof (cases ?r)
    case Nil
    with m ne show ?thesis by (simp add: match_name_def Let_def)
  next
    case (Cons c r)
    have "length (dropWhile (\<lambda>d. d \<noteq> lf) r) \<le> length r" by (rule length_dropWhile_le)
    with m ne Cons have "rest = dropWhile (\<lambda>d. d \<noteq> lf) r \<or> rest = ?r"
      by (auto simp: match_name_def Let_def split: if_splits)
    with Cons \<open>length (dropWhile (\<lambda>d. d \<noteq> lf) r) \<le> length r\<close> show ?thesis by fastforce
  qed
  have "length ?n + length ?r = length s" by (metis length_append takeWhile_dropWhile_id dropWhile_eq_drop)
  moreover have "0 < length ?n" using ne by simp
  ultimately show ?thesis using le by linarith
qed

lemma match_after_spaces_shorter:
  "match_after_spaces ok k s = Some (name, rest) \<Longrightarrow> length rest < length s"
  by (induction ok k s rule: match_after_spaces.induct)
    (auto split: option.splits if_splits dest!: match_name_shorter)

lemma match_step_shorter: "match_step ok s = Some (action, name, rest) \<Longrightarrow> length rest < length s"
  by (auto simp: match_step_def split: option.splits if_splits dest!: match_after_spaces_shorter)

text \<open>\<open>STEP_PATTERN.finditer\<close>: matches start where a line starts.\<close>

function find_steps :: "bool \<Rightarrow> string \<Rightarrow> (string \<times> string) list" where
  "find_steps line_start [] = []"
| "find_steps line_start (c # cs) =
     (case (if line_start then match_step (\<lambda>_. True) (c # cs) else None) of
        Some (action, name, rest) \<Rightarrow> (action, name) # find_steps False rest
      | None \<Rightarrow> find_steps (c = lf) cs)"
  by pat_completeness auto
termination
  by (relation "measure (length \<circ> snd)") (auto split: if_splits dest!: match_step_shorter)

section \<open>Stages\<close>

definition step_number :: "string \<Rightarrow> string" where
  "step_number re3d_step = takeWhile (\<lambda>c. c \<noteq> CHR ''-'') re3d_step"

definition map_re3d_step :: "string \<Rightarrow> (string \<times> string) checked" where
  "map_re3d_step name =
     (let number = step_number name
      in if number = ''00'' then Inr (''preparing'', ''shared'')
         else if number \<in> {''01'', ''02'', ''03''} then Inr (''sfm'', ''shared'')
         else if number \<in> {''10'', ''11''} then Inr (''c_geometry'', ''C'')
         else if number = ''12'' then Inr (''c_meshing'', ''C'')
         else if number = ''13'' then Inr (''c_texturing'', ''C'')
         else if number = ''20'' then Inr (''a_inference'', ''A-v4'')
         else if number = ''21'' then Inr (''a_calibration'', ''A-v4'')
         else if number = ''22'' then Inr (''a_cross_view'', ''A-v4'')
         else if number \<in> {''23'', ''23a'', ''23b'', ''24'', ''24a''} then Inr (''a_fusion'', ''A-v4'')
         else if number = ''25'' then Inr (''a_meshing'', ''A-v4'')
         else if number = ''26'' then Inr (''a_texturing'', ''A-v4'')
         else if number = ''30'' then Inr (''b_inference'', ''B-v2'')
         else if number = ''31'' then Inr (''b_calibration'', ''B-v2'')
         else if number = ''32'' then Inr (''b_cross_view'', ''B-v2'')
         else if number \<in> {''33'', ''33a'', ''33b'', ''34'', ''34a''} then Inr (''b_fusion'', ''B-v2'')
         else if number = ''35'' then Inr (''b_meshing'', ''B-v2'')
         else if number = ''36'' then Inr (''b_texturing'', ''B-v2'')
         else if number = ''90'' then Inr (''output_validation'', ''shared'')
         else Inl (Integrity (''unmapped Re3D step: '' @ name)))"

record re3d_step =
  st_action :: string
  st_name :: string
  st_stage :: string
  st_branch :: string

definition step_of :: "string \<times> string \<Rightarrow> re3d_step checked" where
  "step_of m =
     (case m of (action, name) \<Rightarrow>
        bind_checked (map_re3d_step name) (\<lambda>(stage, branch).
        Inr \<lparr>st_action = action, st_name = name, st_stage = stage, st_branch = branch\<rparr>))"

text \<open>\<open>parse_re3d_step_line\<close>: the whole line, without the white space around it, has to match.\<close>

definition parse_step_line :: "string \<Rightarrow> re3d_step option checked" where
  "parse_step_line line =
     (case match_step (\<lambda>rest. rest = []) (strip line) of
        None \<Rightarrow> Inr None
      | Some (action, name, rest) \<Rightarrow> bind_checked (step_of (action, name)) (\<lambda>st. Inr (Some st)))"

definition branch_names :: "string list" where
  "branch_names = [''A-v4'', ''B-v2'', ''C'']"

definition parse_dry_run_steps :: "string \<Rightarrow> re3d_step list checked" where
  "parse_dry_run_steps output =
     bind_checked (collect_checked step_of (find_steps True output)) (\<lambda>steps.
     bind_checked (require (steps \<noteq> []) (Integrity ''Re3D dry-run did not emit any recognized steps'')) (\<lambda>_.
     bind_checked (require (set branch_names \<subseteq> st_branch ` set steps)
       (Integrity ''Re3D dry-run did not include all three branches'')) (\<lambda>_. Inr steps)))"

section \<open>The environment of the process\<close>

definition upper_char :: "char \<Rightarrow> string" where
  "upper_char c = (let n = code_point c in
     if 97 \<le> n \<and> n \<le> 122 \<or> 224 \<le> n \<and> n \<le> 254 \<and> n \<noteq> 247 then [char_of (n - 32)]
     else if n = 223 then ''SS'' else [c])"

definition upper :: "string \<Rightarrow> string" where
  "upper s = concat (map upper_char s)"

definition safe_environment_names :: "string list" where
  "safe_environment_names =
     [''APPDATA'', ''COMSPEC'', ''HF_HUB_OFFLINE'', ''HOME'', ''LOCALAPPDATA'', ''MKL_NUM_THREADS'',
      ''NUMBER_OF_PROCESSORS'', ''OMP_NUM_THREADS'', ''PATH'', ''PATHEXT'', ''PROCESSOR_ARCHITECTURE'',
      ''PROGRAMDATA'', ''PYTHONIOENCODING'', ''PYTHONUTF8'', ''RE3D_MAP_PYTHON'', ''RE3D_MVS_PYTHON'',
      ''RE3D_TEXTUREMESH_EXE'', ''SYSTEMDRIVE'', ''SYSTEMROOT'', ''TEMP'', ''TMP'', ''TMPDIR'',
      ''TRANSFORMERS_OFFLINE'', ''USERPROFILE'', ''WINDIR'']"

definition blocked_environment_names :: "string list" where
  "blocked_environment_names =
     [''DATABASE_URL'', ''JWT_SECRET'', ''REFRESH_TOKEN'', ''SMTP_PASSWORD'', ''RE3D_TEST_DATABASE_URL'']"

definition safe_environment_name :: "string \<Rightarrow> bool" where
  "safe_environment_name name \<longleftrightarrow>
     upper name \<notin> set blocked_environment_names \<and>
     (upper name \<in> set safe_environment_names \<or> take 5 (upper name) = ''CUDA_'' \<or> take 7 (upper name) = ''NVIDIA_'')"

definition set_default :: "string \<Rightarrow> string \<Rightarrow> (string \<times> string) list \<Rightarrow> (string \<times> string) list" where
  "set_default k v env = (if map_of env k = None then env @ [(k, v)] else env)"

definition build_re3d_environment :: "(string \<times> string) list \<Rightarrow> (string \<times> string) list" where
  "build_re3d_environment source =
     set_default ''PYTHONIOENCODING'' ''utf-8'' (set_default ''PYTHONUTF8'' ''1''
       (filter (\<lambda>(name, _). safe_environment_name name) source))"

section \<open>Lines and text\<close>

text \<open>
  The announcements of a text of lines are those of its lines: what the dry run reads at once, the run
  reads line by line.
\<close>

definition step_line :: "string \<times> string \<Rightarrow> string" where
  "step_line m = (case m of (action, name) \<Rightarrow> ''['' @ action @ ''] '' @ name)"

definition plain_step :: "string \<times> string \<Rightarrow> bool" where
  "plain_step m \<longleftrightarrow> (case m of (action, name) \<Rightarrow> action \<in> {''run'', ''skip''} \<and> name \<noteq> [] \<and>
     list_all name_char name \<and> \<not> is_space (hd name) \<and> \<not> is_space (last name))"

lemma name_char_lf [simp]: "\<not> name_char lf"
  by (simp add: name_char_def)

lemma lf_neqs [simp]: "lf \<noteq> CHR ''[''" "lf \<noteq> CHR '':''" "is_space lf"
  by (simp_all add: lf_def is_space_def code_point_def)

lemma takeWhile_all: "list_all P xs \<Longrightarrow> takeWhile P xs = xs"
  by (induction xs) auto

lemma match_name_plain:
  assumes "list_all name_char name" "name \<noteq> []" "rest = [] \<or> hd rest = lf"
  shows "match_name (name @ rest) = Some (name, rest)"
proof (cases rest)
  case Nil
  with assms(1,2) show ?thesis by (simp add: match_name_def Let_def takeWhile_all)
next
  case (Cons c r)
  with assms have "takeWhile name_char (name @ rest) = name" by (auto simp: list_all_iff)
  with Cons assms show ?thesis by (auto simp: match_name_def Let_def)
qed

lemma match_step_plain:
  assumes "plain_step (action, name)" "rest = [] \<or> hd rest = lf" "ok rest"
  shows "match_step ok (step_line (action, name) @ rest) = Some (action, name, rest)"
proof -
  have plain: "action \<in> {''run'', ''skip''}" "name \<noteq> []" "list_all name_char name" "\<not> is_space (hd name)"
    using assms(1) by (auto simp: plain_step_def)
  have spaces: "takeWhile is_space (CHR '' '' # name @ rest) = '' ''"
    using plain(2,4) by (cases name) (simp_all add: is_space_def code_point_def)
  have "match_after_spaces ok 1 (CHR '' '' # name @ rest) = Some (name, rest)"
    using match_name_plain [OF plain(3,2) assms(2)] assms(3) by simp
  then show ?thesis using plain(1) spaces by (auto simp: match_step_def step_line_def)
qed

lemma find_steps_skip: "lf \<notin> set s \<Longrightarrow> find_steps False (s @ lf # t) = find_steps True t"
  by (induction s) auto

lemma find_steps_noise:
  assumes "lf \<notin> set s" "s = [] \<or> hd s \<noteq> CHR ''[''"
  shows "find_steps True (s @ lf # t) = find_steps True t"
proof (cases s)
  case Nil
  have "match_step (\<lambda>_. True) (lf # t) = None" by (auto simp: match_step_def)
  with Nil show ?thesis by simp
next
  case (Cons c cs)
  with assms(2) have "match_step (\<lambda>_. True) (s @ lf # t) = None" by (auto simp: match_step_def)
  with Cons assms(1) show ?thesis by (auto simp: find_steps_skip)
qed

lemma find_steps_plain:
  assumes "plain_step m"
  shows "find_steps True (step_line m @ lf # t) = m # find_steps True t"
proof -
  obtain action name where m: "m = (action, name)" by (cases m)
  have "match_step (\<lambda>_. True) (step_line m @ lf # t) = Some (action, name, lf # t)"
    using match_step_plain [of action name "lf # t"] assms m by simp
  moreover obtain c cs where "step_line m @ lf # t = c # cs" by (cases "step_line m @ lf # t") auto
  ultimately show ?thesis using m by simp
qed

text \<open>A line as Re3D prints it: an announcement of a step, or text that does not look like one.\<close>

definition clean_line :: "string \<Rightarrow> bool" where
  "clean_line l \<longleftrightarrow> lf \<notin> set l \<and> strip l = l \<and>
     ((l = [] \<or> hd l \<noteq> CHR ''['') \<or> (\<exists>m. plain_step m \<and> l = step_line m))"

lemma clean_step:
  assumes "plain_step m" "strip (step_line m) = step_line m" shows "clean_line (step_line m)"
proof -
  obtain action name where m: "m = (action, name)" by (cases m)
  have name: "lf \<notin> set name"
    using assms(1) name_char_lf by (auto simp: m plain_step_def list_all_iff)
  have "lf \<notin> set ''run''" "lf \<notin> set ''skip''" by (simp_all add: lf_def)
  then have action: "lf \<notin> set action" using assms(1) unfolding m plain_step_def by blast
  have brackets: "lf \<notin> set ''[''" "lf \<notin> set ''] ''" by (simp_all add: lf_def)
  have "lf \<notin> set (step_line m)" unfolding m step_line_def prod.case set_append
    using name action brackets by blast
  with assms show ?thesis unfolding clean_line_def by blast
qed

definition line_steps :: "string \<Rightarrow> (string \<times> string) list" where
  "line_steps l = (case match_step (\<lambda>rest. rest = []) (strip l) of
     None \<Rightarrow> [] | Some (action, name, _) \<Rightarrow> [(action, name)])"

lemma clean_line_steps:
  assumes "clean_line l"
  shows "find_steps True (l @ lf # t) = line_steps l @ find_steps True t"
proof (cases "l = [] \<or> hd l \<noteq> CHR ''[''")
  case True
  then have "match_step (\<lambda>rest. rest = []) l = None" by (cases l) (auto simp: match_step_def)
  then show ?thesis using assms True find_steps_noise [of l t] by (simp add: clean_line_def line_steps_def)
next
  case False
  then obtain m where m: "plain_step m" "l = step_line m" using assms by (auto simp: clean_line_def)
  then have "match_step (\<lambda>rest. rest = []) l = Some (fst m, snd m, [])"
    using match_step_plain [of "fst m" "snd m" "[]" "\<lambda>rest. rest = []"] by simp
  then have "line_steps l = [m]" using assms by (simp add: clean_line_def line_steps_def)
  with find_steps_plain [OF m(1)] m(2) show ?thesis by simp
qed

lemma lines_steps:
  "\<forall>l \<in> set ls. clean_line l \<Longrightarrow> find_steps True (concat (map (\<lambda>l. l @ [lf]) ls)) = concat (map line_steps ls)"
  by (induction ls) (simp_all add: clean_line_steps)

lemma parse_step_line_steps:
  "parse_step_line l = (case line_steps l of [] \<Rightarrow> Inr None | m # _ \<Rightarrow> bind_checked (step_of m) (\<lambda>st. Inr (Some st)))"
  by (auto simp: parse_step_line_def line_steps_def split: option.split)

lemma line_steps_cases: "line_steps l = [] \<or> (\<exists>m. line_steps l = [m])"
  by (auto simp: line_steps_def split: option.split)

lemma collect_lines:
  "collect_checked step_of (concat (map line_steps ls)) = Inr steps \<Longrightarrow>
     \<exists>found. collect_checked parse_step_line ls = Inr found \<and>
       steps = concat (map (\<lambda>x. case x of None \<Rightarrow> [] | Some st \<Rightarrow> [st]) found)"
proof (induction ls arbitrary: steps)
  case (Cons l ls)
  consider "line_steps l = []" | m where "line_steps l = [m]" using line_steps_cases by blast
  then show ?case
  proof cases
    case 1
    with Cons.prems have "collect_checked step_of (concat (map line_steps ls)) = Inr steps" by simp
    then obtain found where "collect_checked parse_step_line ls = Inr found"
      "steps = concat (map (\<lambda>x. case x of None \<Rightarrow> [] | Some st \<Rightarrow> [st]) found)"
      using Cons.IH by blast
    with 1 show ?thesis by (intro exI [of _ "None # found"]) (simp add: parse_step_line_steps [of l])
  next
    case (2 m)
    with Cons.prems obtain st rest where "step_of m = Inr st" "steps = st # rest"
      "collect_checked step_of (concat (map line_steps ls)) = Inr rest" by auto
    moreover from this obtain found where "collect_checked parse_step_line ls = Inr found"
      "rest = concat (map (\<lambda>x. case x of None \<Rightarrow> [] | Some st \<Rightarrow> [st]) found)"
      using Cons.IH by blast
    ultimately show ?thesis
      using 2 by (intro exI [of _ "Some st # found"]) (simp add: parse_step_line_steps [of l])
  qed
qed simp

text \<open>
  The dry run and the run read the same steps: when the dry run accepts an output of clean lines, the
  line handler of the run accepts each of these lines, reports the same steps with the same stages and
  branches in the same order and nothing else, and all three branches are among them.
\<close>

theorem dry_run_reads_as_lines:
  assumes "\<forall>l \<in> set ls. clean_line l" and "parse_dry_run_steps (concat (map (\<lambda>l. l @ [lf]) ls)) = Inr steps"
  shows "\<exists>found. collect_checked parse_step_line ls = Inr found \<and>
    steps = concat (map (\<lambda>x. case x of None \<Rightarrow> [] | Some st \<Rightarrow> [st]) found) \<and>
    {''A-v4'', ''B-v2'', ''C''} \<subseteq> st_branch ` set steps"
proof -
  from assms(2) have "collect_checked step_of (concat (map line_steps ls)) = Inr steps"
    and "set branch_names \<subseteq> st_branch ` set steps"
    by (simp_all add: parse_dry_run_steps_def lines_steps [OF assms(1)])
  with collect_lines show ?thesis by (fastforce simp: branch_names_def)
qed

definition demo_lines :: "string list" where
  "demo_lines = [''Re3D 1.1'', ''[run] 20-infer'', ''[skip] 30-infer'', ''[run] 13-texture'']"

lemma demo_steps: "\<exists>steps. parse_dry_run_steps (concat (map (\<lambda>l. l @ [lf]) demo_lines)) = Inr steps"
  "\<forall>l \<in> set demo_lines. clean_line l"
proof -
  have plain: "plain_step (''run'', ''20-infer'')" "plain_step (''skip'', ''30-infer'')" "plain_step (''run'', ''13-texture'')"
    by (simp_all add: plain_step_def name_char_def lf_def is_space_def code_point_def)
  have clean: "clean_line ''Re3D 1.1''"
    by (simp add: clean_line_def lf_def strip_def strip_by_def is_space_def code_point_def)
  have step: "clean_line ''[run] 20-infer''" "clean_line ''[skip] 30-infer''" "clean_line ''[run] 13-texture''"
    using clean_step [OF plain(1)] clean_step [OF plain(2)] clean_step [OF plain(3)]
    by (simp_all add: strip_def strip_by_def is_space_def code_point_def step_line_def)
  show "\<forall>l \<in> set demo_lines. clean_line l" using clean step by (simp add: demo_lines_def)
  have lines: "line_steps ''Re3D 1.1'' = []" "line_steps ''[run] 20-infer'' = [(''run'', ''20-infer'')]"
    "line_steps ''[skip] 30-infer'' = [(''skip'', ''30-infer'')]"
    "line_steps ''[run] 13-texture'' = [(''run'', ''13-texture'')]"
    by (simp_all add: line_steps_def match_step_def strip_def strip_by_def is_space_def code_point_def
        match_name_def name_char_def lf_def numeral_2_eq_2)
  have find: "find_steps True (concat (map (\<lambda>l. l @ [lf]) demo_lines)) =
      [(''run'', ''20-infer''), (''skip'', ''30-infer''), (''run'', ''13-texture'')]"
    using lines_steps [of demo_lines] clean step by (simp add: demo_lines_def lines)
  show "\<exists>steps. parse_dry_run_steps (concat (map (\<lambda>l. l @ [lf]) demo_lines)) = Inr steps"
    unfolding parse_dry_run_steps_def find
    by (simp add: step_of_def map_re3d_step_def step_number_def branch_names_def)
qed

theorem dry_run_reads_as_lines_witness:
  "\<exists>steps found. parse_dry_run_steps (concat (map (\<lambda>l. l @ [lf]) demo_lines)) = Inr steps \<and>
     collect_checked parse_step_line demo_lines = Inr found"
  using demo_steps dry_run_reads_as_lines [OF demo_steps(2)] by blast

end
