(* ===== verification/Json_Values.thy ===== *)
theory Json_Values
  imports Task_Files
begin

text \<open>
  What Python does with decoded JSON values: order, division, \<open>dict.get\<close> and chains of \<open>or\<close>. A file
  written by \<open>atomic_write_json\<close> holds the value with its keys sorted.
\<close>

section \<open>Numbers\<close>

text \<open>\<open><=\<close> and \<open><\<close>: false as soon as one side is not a number.\<close>

definition float_le :: "py_float \<Rightarrow> py_float \<Rightarrow> bool" where
  "float_le x y =
     (case (x, y) of
        (Not_a_number, _) \<Rightarrow> False
      | (_, Not_a_number) \<Rightarrow> False
      | (Finite a, Finite b) \<Rightarrow> a \<le> b
      | (Infinite negative, y) \<Rightarrow> negative \<or> y = Infinite False
      | (Finite _, Infinite negative) \<Rightarrow> \<not> negative)"

definition float_less :: "py_float \<Rightarrow> py_float \<Rightarrow> bool" where
  "float_less x y \<longleftrightarrow> float_le x y \<and> x \<noteq> y"

text \<open>
  Numbers and booleans are ordered by value and strings by their characters. Two lists are not compared by
  this code: one side of each comparison is a number, or was compared with one before.
\<close>

definition json_compare :: "(py_float \<Rightarrow> py_float \<Rightarrow> bool) \<Rightarrow> (string \<Rightarrow> string \<Rightarrow> bool) \<Rightarrow> json \<Rightarrow> json \<Rightarrow> bool checked" where
  "json_compare num str v w =
     (case (number_of v, number_of w) of
        (Some x, Some y) \<Rightarrow> Inr (num x y)
      | _ \<Rightarrow> (case (v, w) of (JString s, JString t) \<Rightarrow> Inr (str s t) | _ \<Rightarrow> Inl Type_error))"

definition json_le :: "json \<Rightarrow> json \<Rightarrow> bool checked" where
  "json_le = json_compare float_le (\<le>)"

definition json_less :: "json \<Rightarrow> json \<Rightarrow> bool checked" where
  "json_less = json_compare float_less (<)"

text \<open>
  \<open>a / b\<close>: two integers are divided with one rounding; otherwise both become floats first. The quotient
  of two integers that is too large raises, that of two floats is infinite.
\<close>

definition is_float :: "json \<Rightarrow> bool" where
  "is_float v = (case v of JFloat _ \<Rightarrow> True | _ \<Rightarrow> False)"

definition too_large :: "rat \<Rightarrow> bool" where
  "too_large x \<longleftrightarrow> 2 ^ 1024 - 2 ^ 970 \<le> \<bar>x\<bar>"

definition to_float :: "json \<Rightarrow> py_float checked" where
  "to_float v =
     (case v of
        JFloat x \<Rightarrow> Inr x
      | _ \<Rightarrow> (case number_of v of
           Some (Finite a) \<Rightarrow> if too_large a then Inl (Arithmetic_error ''int too large to convert to float'')
             else Inr (Finite (double_of a))
         | _ \<Rightarrow> Inl Type_error))"

definition float_divide :: "py_float \<Rightarrow> py_float \<Rightarrow> py_float" where
  "float_divide x y =
     (case (x, y) of
        (Finite a, Finite b) \<Rightarrow> if too_large (a / b) then Infinite (a / b < 0) else Finite (double_of (a / b))
      | (Finite a, Infinite _) \<Rightarrow> Finite 0
      | (Infinite s, Finite b) \<Rightarrow> Infinite (s \<noteq> (b < 0))
      | _ \<Rightarrow> Not_a_number)"

definition json_divide :: "json \<Rightarrow> json \<Rightarrow> json checked" where
  "json_divide v w =
     (case (number_of v, number_of w) of
        (Some a, Some b) \<Rightarrow>
          if b = Finite 0 then Inl (Arithmetic_error ''division by zero'')
          else if is_float v \<or> is_float w then
            bind_checked (to_float v) (\<lambda>x. bind_checked (to_float w) (\<lambda>y. Inr (JFloat (float_divide x y))))
          else (case (a, b) of
              (Finite x, Finite y) \<Rightarrow>
                if too_large (x / y) then Inl (Arithmetic_error ''integer division result too large for a float'')
                else Inr (JFloat (Finite (double_of (x / y))))
            | _ \<Rightarrow> Inl Type_error)
      | _ \<Rightarrow> Inl Type_error)"

section \<open>Lookups and tests\<close>

definition get_or :: "string \<Rightarrow> json \<Rightarrow> json \<Rightarrow> json" where
  "get_or k d v = (case json_field k v of None \<Rightarrow> d | Some x \<Rightarrow> x)"

text \<open>A value that is an integer by contract.\<close>

definition int_of :: "json \<Rightarrow> int checked" where
  "int_of v = (case v of JInt n \<Rightarrow> Inr n | _ \<Rightarrow> Inl Type_error)"

lemma int_of_Inr [simp]: "int_of v = Inr n \<longleftrightarrow> v = JInt n"
  by (auto simp: int_of_def split: json.split)

text \<open>\<open>a or b or ...\<close>: the first test that holds or raises ends the chain.\<close>

fun or_checked :: "('e + bool) list \<Rightarrow> 'e + bool" where
  "or_checked [] = Inr False"
| "or_checked (m # ms) = bind_checked m (\<lambda>b. if b then Inr True else or_checked ms)"

definition not_checked :: "('e + bool) \<Rightarrow> 'e + bool" where
  "not_checked m = bind_checked m (\<lambda>b. Inr (\<not> b))"

text \<open>\<open>v[k] != w\<close>.\<close>

definition item_differs :: "string \<Rightarrow> json \<Rightarrow> json \<Rightarrow> bool checked" where
  "item_differs k w v = bind_checked (item k v) (\<lambda>x. Inr (\<not> json_eq x w))"

text \<open>\<open>if test: raise error\<close>.\<close>

definition refuse_if :: "bool checked \<Rightarrow> adapter_error \<Rightarrow> unit checked" where
  "refuse_if test e = bind_checked test (\<lambda>b. require (\<not> b) e)"

text \<open>A step that reads: its error ends the operation and leaves the files as they are.\<close>

definition reading :: "'e + 'a \<Rightarrow> 's \<Rightarrow> ('a \<Rightarrow> ('e, 'b, 's) outcome) \<Rightarrow> ('e, 'b, 's) outcome" where
  "reading m s f = (case m of Inl e \<Rightarrow> (Inl e, s) | Inr x \<Rightarrow> f x)"

text \<open>A step that changes the files, and the next one.\<close>

definition followed_by :: "('e, 'a, 's) outcome \<Rightarrow> ('a \<Rightarrow> 's \<Rightarrow> ('e, 'b, 's) outcome) \<Rightarrow> ('e, 'b, 's) outcome" where
  "followed_by m f = (case m of (Inl e, s) \<Rightarrow> (Inl e, s) | (Inr x, s) \<Rightarrow> f x s)"

lemma followed_by_simps [simp]: "followed_by (Inr x, s) f = f x s" "followed_by (Inl e, s) f = (Inl e, s)"
  by (simp_all add: followed_by_def)

lemma followed_by_Inr: "followed_by m f = (Inr y, t) \<longleftrightarrow> (\<exists>x s. m = (Inr x, s) \<and> f x s = (Inr y, t))"
  by (auto simp: followed_by_def split: prod.split sum.split)

lemma or_checked_False [simp]: "or_checked ms = Inr False \<longleftrightarrow> (\<forall>m \<in> set ms. m = Inr False)"
  by (induction ms) auto

lemma not_checked_False [simp]: "not_checked m = Inr False \<longleftrightarrow> m = Inr True"
  by (auto simp: not_checked_def)

lemma item_differs_False [simp]: "item_differs k w v = Inr False \<longleftrightarrow> (\<exists>x. json_field k v = Some x \<and> json_eq x w)"
  by (auto simp: item_differs_def item_Inr)

lemma refuse_if_Inr [simp]: "refuse_if test e = Inr u \<longleftrightarrow> test = Inr False"
  by (auto simp: refuse_if_def)

lemma reading_Inr [simp]: "reading m s f = (Inr y, t) \<longleftrightarrow> (\<exists>x. m = Inr x \<and> f x = (Inr y, t))"
  by (cases m) (simp_all add: reading_def)

lemma reading_simps [simp]: "reading (Inr x) s f = f x" "reading (Inl e) s f = (Inl e, s)"
  by (simp_all add: reading_def)

section \<open>Sorted keys\<close>

text \<open>\<open>json.dumps(value, sort_keys=True)\<close> prints the value whose objects are sorted by key.\<close>

fun sort_keys :: "json \<Rightarrow> json" where
  "sort_keys (JList xs) = JList (map sort_keys xs)"
| "sort_keys (JObject fs) = JObject (sort_key fst (map (\<lambda>(k, v). (k, sort_keys v)) fs))"
| "sort_keys v = v"

lemma map_of_insort:
  "map_of (insort_key fst x xs) k = (if k = fst x then Some (snd x) else map_of xs k)"
  by (induction xs) auto

lemma map_of_sort_key: "map_of (sort_key fst xs) = map_of xs"
  by (rule ext) (induction xs, auto simp: map_of_insort)

lemma map_of_map_snd: "map_of (map (\<lambda>(k, v). (k, f v)) fs) k = map_option f (map_of fs k)"
  by (induction fs) auto

lemma json_field_sort_keys [simp]: "json_field k (sort_keys v) = map_option sort_keys (json_field k v)"
  by (cases v) (simp_all add: json_field_def map_of_sort_key map_of_map_snd)

lemma sort_keys_eq_string [simp]: "sort_keys v = JString s \<longleftrightarrow> v = JString s"
  by (cases v) simp_all

text \<open>
  What is assumed of the codec for one value: the text that is written decodes to the value with sorted
  keys, and the validator does not look at the order of the keys.
\<close>

definition keeps_json :: "codecs \<Rightarrow> string \<Rightarrow> json \<Rightarrow> bool" where
  "keeps_json cs name v \<longleftrightarrow>
     cs_loads cs (json_text cs v) = Decoded (sort_keys v) \<and> cs_valid cs name (sort_keys v) = cs_valid cs name v"

text \<open>Real paths have no links left to follow.\<close>

definition real_paths :: "file_system \<Rightarrow> bool" where
  "real_paths fs \<longleftrightarrow> (\<forall>p. fs_real fs (fs_real fs p) = fs_real fs p)"

definition path_exists :: "file_system \<Rightarrow> path \<Rightarrow> bool" where
  "path_exists fs p \<longleftrightarrow> is_file fs p \<or> is_dir fs p"

lemma atomic_write_Inr [simp]:
  "atomic_write failed p payload fs = (Inr u, fs') \<longleftrightarrow> \<not> failed \<and> fs' = fs\<lparr>fs_data := (fs_data fs)(p \<mapsto> payload)\<rparr>"
  by (auto simp: atomic_write_def)

lemma resolved_real: "real_paths fs \<Longrightarrow> resolve fs l s = Inr p \<Longrightarrow> fs_real fs p = p"
  by (simp add: resolve_Inr real_paths_def)

lemma resolve_written [simp]: "resolve (fs\<lparr>fs_data := d\<rparr>) l s = resolve fs l s"
  by (simp add: resolve_def)

lemma read_written:
  assumes "fs_real fs p = p"
  shows "read_file (fs\<lparr>fs_data := (fs_data fs)(p \<mapsto> t)\<rparr>) q = (if fs_real fs q = p then Some t else read_file fs q)"
  using assms by (simp add: read_file_def)

lemma load_written_contract:
  assumes "keeps_json cs name v" "cs_valid cs name v" "is_object v" "read_file fs p = Some (json_text cs v)"
  shows "load_json_contract cs fs p name = Inr (sort_keys v)"
proof -
  have "is_object (sort_keys v)" using assms(3) by (cases v) (simp_all add: is_object_def)
  with assms show ?thesis by (simp add: load_json_contract_def keeps_json_def validate_contract_def)
qed

end
