(* ===== verification/Evaluation.thy ===== *)
theory Evaluation
  imports Json_Values
begin

text \<open>
  The evaluation of a finished task, \<^verbatim>\<open>backend/evaluation/real.py\<close> and \<^verbatim>\<open>backend/evaluation/simulation.py\<close>:
  the rules, the statuses, the report and the run that writes or reuses it. The time of the report is an
  argument.
\<close>

section \<open>Statuses\<close>

datatype health = Not_applicable | Pass | Warning | Fail

fun status_text :: "health \<Rightarrow> string" where
  "status_text Not_applicable = ''not_applicable''"
| "status_text Pass = ''pass''"
| "status_text Warning = ''warning''"
| "status_text Fail = ''fail''"

fun health_rank :: "health \<Rightarrow> int" where
  "health_rank Not_applicable = -1"
| "health_rank Pass = 0"
| "health_rank Warning = 1"
| "health_rank Fail = 2"

lemma health_rank_inject [simp]: "health_rank a = health_rank b \<longleftrightarrow> a = b"
  by (cases a; cases b) simp_all

instantiation health :: linorder
begin

definition less_eq_health :: "health \<Rightarrow> health \<Rightarrow> bool" where
  "less_eq_health a b \<longleftrightarrow> health_rank a \<le> health_rank b"

definition less_health :: "health \<Rightarrow> health \<Rightarrow> bool" where
  "less_health a b \<longleftrightarrow> health_rank a < health_rank b"

instance
  by standard (auto simp: less_eq_health_def less_health_def)

end

text \<open>\<open>_worst_status\<close>: the maximum by rank of those that apply.\<close>

definition worst_status :: "health list \<Rightarrow> health" where
  "worst_status statuses =
     (case filter (\<lambda>s. s \<noteq> Not_applicable) statuses of
        [] \<Rightarrow> Not_applicable
      | s # ss \<Rightarrow> fold max ss s)"

definition minimum_status :: "json \<Rightarrow> json \<Rightarrow> health checked" where
  "minimum_status actual rule =
     bind_checked (bind_checked (item ''pass_minimum'' rule) (\<lambda>b. json_le b actual)) (\<lambda>enough.
     if enough then Inr Pass
     else bind_checked (bind_checked (item ''warning_minimum'' rule) (\<lambda>b. json_le b actual)) (\<lambda>near.
       Inr (if near then Warning else Fail)))"

definition maximum_status :: "json \<Rightarrow> json \<Rightarrow> health checked" where
  "maximum_status actual rule =
     bind_checked (bind_checked (item ''pass_maximum'' rule) (json_le actual)) (\<lambda>enough.
     if enough then Inr Pass
     else bind_checked (bind_checked (item ''warning_maximum'' rule) (json_le actual)) (\<lambda>near.
       Inr (if near then Warning else Fail)))"

section \<open>Rules\<close>

definition outside_unit :: "json \<Rightarrow> bool checked" where
  "outside_unit v =
     not_checked (bind_checked (json_le (JInt 0) v) (\<lambda>low. if low then json_le v (JInt 1) else Inr False))"

definition minimum_rule_invalid :: "json option \<Rightarrow> bool checked" where
  "minimum_rule_invalid rule =
     (case rule of
        Some (JObject fs) \<Rightarrow>
          or_checked [outside_unit (get_or ''warning_minimum'' (JInt (-1)) (JObject fs)),
            outside_unit (get_or ''pass_minimum'' (JInt (-1)) (JObject fs)),
            bind_checked (item ''warning_minimum'' (JObject fs)) (\<lambda>w.
              bind_checked (item ''pass_minimum'' (JObject fs)) (\<lambda>p. json_less p w))]
      | _ \<Rightarrow> Inr True)"

definition maximum_rule_invalid :: "json option \<Rightarrow> bool checked" where
  "maximum_rule_invalid rule =
     (case rule of
        Some (JObject fs) \<Rightarrow>
          or_checked [json_less (get_or ''pass_maximum'' (JInt (-1)) (JObject fs)) (JInt 0),
            bind_checked (item ''pass_maximum'' (JObject fs)) (\<lambda>p.
              json_less (get_or ''warning_maximum'' (JInt (-1)) (JObject fs)) p)]
      | _ \<Rightarrow> Inr True)"

definition mesh_rule_invalid :: "json option \<Rightarrow> bool checked" where
  "mesh_rule_invalid rule =
     (case rule of
        Some (JObject fs) \<Rightarrow> json_less (get_or ''minimum'' (JInt 0) (JObject fs)) (JInt 1)
      | _ \<Rightarrow> Inr True)"

definition is_string :: "json option \<Rightarrow> bool" where
  "is_string v = (case v of Some (JString _) \<Rightarrow> True | _ \<Rightarrow> False)"

definition validate_rules :: "json \<Rightarrow> unit checked" where
  "validate_rules rules =
     bind_checked (require (is_object rules \<and> json_field ''schema_version'' rules = Some (JString ''1.0'') \<and>
         is_string (json_field ''rules_version'' rules))
       (Integrity ''real evaluation rules have an invalid identity'')) (\<lambda>_.
     bind_checked (each_checked (\<lambda>k. refuse_if (minimum_rule_invalid (json_field k rules))
         (Integrity ''minimum evaluation threshold is invalid''))
       [''registration_rate'', ''retained_valid_fraction'']) (\<lambda>_.
     bind_checked (refuse_if (maximum_rule_invalid (json_field ''mean_reprojection_error_px'' rules))
       (Integrity ''maximum evaluation threshold is invalid'')) (\<lambda>_.
     refuse_if (mesh_rule_invalid (json_field ''mesh_faces'' rules))
       (Integrity ''mesh evaluation threshold is invalid''))))"

text \<open>\<open>RealEvaluator.__init__\<close>: \<open>None\<close> is an \<open>OSError\<close> when the rules are read.\<close>

definition load_rules :: "decoded option \<Rightarrow> json checked" where
  "load_rules text =
     (case text of
        None \<Rightarrow> Inl (Integrity ''cannot load real evaluation rules'')
      | Some Not_json \<Rightarrow> Inl (Integrity ''cannot load real evaluation rules'')
      | Some Not_text \<Rightarrow> Inl (Value_error ''invalid UTF-8'')
      | Some (Decoded rules) \<Rightarrow> bind_checked (validate_rules rules) (\<lambda>_. Inr rules))"

section \<open>The report of the real evaluator\<close>

definition health_of :: "health \<Rightarrow> json" where
  "health_of s = JString (status_text s)"

definition references :: "string list \<Rightarrow> json" where
  "references names = JList (map JString names)"

text \<open>One check of a report; the extra entries are its thresholds, where it has them.\<close>

definition check_entry ::
  "string \<Rightarrow> string \<Rightarrow> json \<Rightarrow> json \<Rightarrow> json \<Rightarrow> (string \<times> json) list \<Rightarrow> string list \<Rightarrow> json" where
  "check_entry identity label status actual unit_name extra refs = JObject
     ([(''id'', JString identity), (''label'', JString label), (''status'', status), (''actual'', actual),
       (''unit'', unit_name)] @ extra @ [(''evidence_refs'', references refs)])"

definition dimension :: "json \<Rightarrow> string \<Rightarrow> json list \<Rightarrow> json" where
  "dimension status summary checks =
     JObject [(''status'', status), (''summary'', JString summary), (''checks'', JList checks)]"

definition branch_identifier :: "string \<Rightarrow> string checked" where
  "branch_identifier branch =
     (if branch = ''A-v4'' then Inr ''a'' else if branch = ''B-v2'' then Inr ''b''
      else if branch = ''C'' then Inr ''c'' else Inl (Key_error branch))"

text \<open>The depth check of \<open>_branch_report\<close>: status, value and summary.\<close>

definition branch_depth :: "codecs \<Rightarrow> json \<Rightarrow> string \<Rightarrow> json \<Rightarrow> (health \<times> json \<times> string) checked" where
  "branch_depth cs rules branch branch_result =
     (if branch = ''C'' then Inr (Not_applicable, JNull, cs_zh cs ''depth.not_applicable'')
      else
        bind_checked (item2 ''metrics'' ''retained_valid_fraction'' branch_result) (\<lambda>actual.
        bind_checked (item ''retained_valid_fraction'' rules) (\<lambda>rule.
        bind_checked (minimum_status actual rule) (\<lambda>status.
        Inr (status, actual, cs_zh cs ''depth.summary'')))))"

definition mesh_faces_status :: "json \<Rightarrow> json \<Rightarrow> health checked" where
  "mesh_faces_status rules faces =
     bind_checked (bind_checked (item2 ''mesh_faces'' ''minimum'' rules) (\<lambda>b. json_le b faces)) (\<lambda>enough.
     Inr (if enough then Pass else Fail))"

definition branch_dimensions ::
  "codecs \<Rightarrow> string \<Rightarrow> string \<Rightarrow> health \<times> json \<times> string \<Rightarrow> json \<Rightarrow> health \<Rightarrow> json \<Rightarrow> json \<Rightarrow> json" where
  "branch_dimensions cs branch identifier depth depth_rule mesh_status faces mesh_rule =
     (case depth of (depth_status, depth_actual, depth_summary) \<Rightarrow> JObject
        [(''depth'', dimension (health_of depth_status) depth_summary
            [check_entry (identifier @ ''.depth_retained_fraction'') (cs_zh cs ''label.depth_retained_fraction'')
               (health_of depth_status) depth_actual (JString ''ratio'') [(''thresholds'', depth_rule)]
               [''manifests/pipeline-result.json'']]),
         (''mesh'', dimension (health_of mesh_status) (cs_zh cs ''mesh.summary'')
            [check_entry (identifier @ ''.mesh_faces'') (cs_zh cs ''label.mesh_faces'')
               (health_of mesh_status) faces (JString ''faces'') [(''thresholds'', mesh_rule)]
               [''manifests/output-validation.json'']]),
         (''artifacts'', dimension (health_of Pass) (cs_zh cs ''artifacts.summary'')
            [check_entry (identifier @ ''.artifact_integrity'') (cs_zh cs ''label.artifact_integrity'')
               (health_of Pass) (JBool True) JNull []
               [''output/'' @ branch @ ''/mesh.glb'', ''manifests/pipeline-result.json'']])])"

definition branch_report :: "codecs \<Rightarrow> json \<Rightarrow> string \<times> json \<Rightarrow> (health \<times> string \<times> json) checked" where
  "branch_report cs rules named =
     (case named of (branch, branch_result) \<Rightarrow>
        bind_checked (branch_identifier branch) (\<lambda>identifier.
        bind_checked (item2 ''metrics'' ''faces'' branch_result) (\<lambda>faces.
        bind_checked (mesh_faces_status rules faces) (\<lambda>mesh_status.
        bind_checked (branch_depth cs rules branch branch_result) (\<lambda>depth.
        let status = worst_status [Pass, fst depth, mesh_status]
        in bind_checked (item ''retained_valid_fraction'' rules) (\<lambda>depth_rule.
           bind_checked (item ''mesh_faces'' rules) (\<lambda>mesh_rule.
           Inr (status, branch, JObject
             [(''status'', health_of status), (''score'', JNull),
              (''summary'', JString (cs_zh cs (branch @ (if status = Pass then ''.passed'' else ''.attention'')))),
              (''dimensions'', branch_dimensions cs branch identifier depth depth_rule mesh_status faces mesh_rule)]))))))))"

definition sfm_evidence :: "string list" where
  "sfm_evidence = [''runtime/work/shared/colmap/reconstruction_metrics.json'']"

text \<open>What \<open>_build_report\<close> measures before it writes the report.\<close>

record measured =
  ms_image_count :: json
  ms_rate :: json
  ms_reprojection :: json
  ms_duration :: json
  ms_timeout :: json
  ms_registration_status :: health
  ms_reprojection_status :: health
  ms_performance_status :: health

definition measure_result :: "json \<Rightarrow> json \<Rightarrow> json \<Rightarrow> measured checked" where
  "measure_result rules result request =
     bind_checked (item2 ''input_summary'' ''image_count'' result) (\<lambda>image_count.
     bind_checked (item ''input_summary'' result) (\<lambda>summary.
     bind_checked (json_divide (get_or ''registered_images'' (JInt 0) summary) image_count) (\<lambda>rate.
     let reprojection = get_or ''mean_reprojection_error_px'' JNull summary
     in bind_checked (bind_checked (item ''registration_rate'' rules) (minimum_status rate)) (\<lambda>registration_status.
        bind_checked (bind_checked (item ''mean_reprojection_error_px'' rules) (maximum_status reprojection))
          (\<lambda>reprojection_status.
        bind_checked (item ''duration_seconds'' result) (\<lambda>duration.
        bind_checked (item2 ''limits'' ''timeout_seconds'' request) (\<lambda>timeout.
        bind_checked (json_le duration timeout) (\<lambda>in_time.
        Inr \<lparr>ms_image_count = image_count, ms_rate = rate, ms_reprojection = reprojection, ms_duration = duration,
          ms_timeout = timeout, ms_registration_status = registration_status,
          ms_reprojection_status = reprojection_status,
          ms_performance_status = (if in_time then Pass else Fail)\<rparr>))))))))"

definition sfm_status :: "measured \<Rightarrow> health" where
  "sfm_status m = worst_status [ms_registration_status m, ms_reprojection_status m]"

definition shared_dimensions :: "codecs \<Rightarrow> measured \<Rightarrow> json \<Rightarrow> json \<Rightarrow> json" where
  "shared_dimensions cs m rate_rule reprojection_rule = JObject
     [(''input'', dimension (health_of Pass) (cs_zh cs ''input.summary'')
        [check_entry ''input.image_count'' (cs_zh cs ''label.image_count'') (health_of Pass) (ms_image_count m)
           (JString ''images'') [(''thresholds'', JObject [(''minimum'', JInt 3), (''maximum'', JInt 300)])]
           [''input/input-manifest.json'']]),
      (''sfm'', dimension (health_of (sfm_status m)) (cs_zh cs ''sfm.summary'')
        [check_entry ''sfm.registration_rate'' (cs_zh cs ''label.registration_rate'')
           (health_of (ms_registration_status m)) (ms_rate m) (JString ''ratio'') [(''thresholds'', rate_rule)]
           sfm_evidence,
         check_entry ''sfm.mean_reprojection_error'' (cs_zh cs ''label.mean_reprojection_error'')
           (health_of (ms_reprojection_status m)) (ms_reprojection m) (JString ''pixels'')
           [(''thresholds'', reprojection_rule)] sfm_evidence]),
      (''performance'', dimension (health_of (ms_performance_status m)) (cs_zh cs ''performance.summary'')
        [check_entry ''performance.duration'' (cs_zh cs ''label.duration'')
           (health_of (ms_performance_status m)) (ms_duration m) (JString ''seconds'')
           [(''thresholds'', JObject [(''timeout'', ms_timeout m)])] [''manifests/pipeline-result.json'']])]"

definition build_report ::
  "codecs \<Rightarrow> string \<Rightarrow> json \<Rightarrow> string \<Rightarrow> json \<Rightarrow> json \<Rightarrow> string \<Rightarrow> json checked" where
  "build_report cs job rules now result request source_sha256 =
     bind_checked (measure_result rules result request) (\<lambda>m.
     bind_checked (bind_checked (item ''branches'' result) items_of) (\<lambda>named.
     bind_checked (collect_checked (branch_report cs rules) named) (\<lambda>branches.
     let overall = worst_status ([Pass, sfm_status m, ms_performance_status m] @ map fst branches)
     in bind_checked (item ''rules_version'' rules) (\<lambda>version.
        bind_checked (item ''registration_rate'' rules) (\<lambda>rate_rule.
        bind_checked (item ''mean_reprojection_error_px'' rules) (\<lambda>reprojection_rule.
        Inr (JObject
          [(''contract_version'', JString ''1.0''), (''rules_version'', version), (''job_id'', JString job),
           (''evaluated_at'', JString now), (''source_result_sha256'', JString source_sha256),
           (''scope'', JString ''structural_health''),
           (''overall'', JObject [(''status'', health_of overall), (''score'', JNull),
              (''summary'', JString (cs_zh cs (''overall.'' @ status_text overall)))]),
           (''shared_dimensions'', shared_dimensions cs m rate_rule reprojection_rule),
           (''branches'', JObject (map snd branches)),
           (''limitations'', JList [JString (cs_zh cs ''limitations.1''), JString (cs_zh cs ''limitations.2'')])])))))))"

section \<open>The run of the real evaluator\<close>

text \<open>
  \<open>_validate_artifacts\<close> of both evaluators: \<open>links\<close> is set for the real one, which also refuses a symbolic
  link and words its errors otherwise.
\<close>

definition check_artifact :: "bool \<Rightarrow> codecs \<Rightarrow> file_system \<Rightarrow> task_layout \<Rightarrow> string \<Rightarrow> json \<Rightarrow> unit checked" where
  "check_artifact links cs fs l branch artifact =
     bind_checked (bind_checked (bind_checked (item ''path'' artifact) text_of) (resolve fs l)) (\<lambda>p.
     bind_checked (require (\<not> (links \<and> fs_link fs p) \<and> is_file fs p)
       (Integrity (branch @ '' evaluation artifact is missing''))) (\<lambda>_.
     bind_checked (file_size fs p) (\<lambda>n.
     bind_checked (refuse_if (item_differs ''size_bytes'' (JInt n) artifact)
       (Integrity (branch @ (if links then '' evaluation artifact size changed'' else '' evaluation artifact size does not match'')))) (\<lambda>_.
     bind_checked (sha256_file cs fs p) (\<lambda>sha.
     refuse_if (item_differs ''sha256'' (JString sha) artifact)
       (Integrity (branch @ (if links then '' evaluation artifact hash changed'' else '' evaluation artifact hash does not match''))))))))"

definition check_artifacts :: "bool \<Rightarrow> codecs \<Rightarrow> file_system \<Rightarrow> task_layout \<Rightarrow> json \<Rightarrow> unit checked" where
  "check_artifacts links cs fs l result =
     bind_checked (bind_checked (item ''branches'' result) items_of) (\<lambda>named.
     each_checked (\<lambda>(branch, branch_result).
       bind_checked (bind_checked (item ''artifacts'' branch_result) elements_of)
         (each_checked (check_artifact links cs fs l branch))) named)"

definition load_at :: "codecs \<Rightarrow> file_system \<Rightarrow> path checked \<Rightarrow> string \<Rightarrow> json checked" where
  "load_at cs fs place name = bind_checked place (\<lambda>p. load_json_contract cs fs p name)"

text \<open>The part of \<open>run\<close> that only reads: the result, the request, their identity and the artifacts.\<close>

definition real_evaluation_input ::
  "codecs \<Rightarrow> file_system \<Rightarrow> task_layout \<Rightarrow> (json \<times> json \<times> string) checked" where
  "real_evaluation_input cs fs l =
     bind_checked (load_at cs fs (result_path fs l) ''pipeline-result'') (\<lambda>result.
     bind_checked (load_at cs fs (request_path fs l) ''pipeline-request'') (\<lambda>request.
     bind_checked (refuse_if (or_checked
         [item_differs ''job_id'' (JString (tl_job_id l)) result,
          item_differs ''job_id'' (JString (tl_job_id l)) request,
          bind_checked (item ''request_id'' request) (\<lambda>k. item_differs ''request_id'' k result),
          item_differs ''execution_mode'' (JString ''real'') result,
          item_differs ''execution_mode'' (JString ''real'') request,
          item_differs ''status'' (JString ''succeeded'') result])
       (Integrity ''real evaluation input identity is invalid'')) (\<lambda>_.
     bind_checked (check_artifacts True cs fs l result) (\<lambda>_.
     bind_checked (bind_checked (result_path fs l) (sha256_file cs fs)) (\<lambda>sha.
     Inr (result, request, sha))))))"

text \<open>Both evaluators end alike: a report that exists is reused, or a new one is written.\<close>

definition finish_evaluation ::
  "codecs \<Rightarrow> task_layout \<Rightarrow> (string \<times> json) list \<Rightarrow> string \<Rightarrow> json checked \<Rightarrow> bool \<Rightarrow> file_system \<Rightarrow>
     (adapter_error, json \<times> bool, file_system) outcome" where
  "finish_evaluation cs l expected stale built failed fs =
     reading (evaluation_path fs l) fs (\<lambda>p.
     if path_exists fs p then
       reading (load_json_contract cs fs p ''evaluation'') fs (\<lambda>report.
       reading (refuse_if (or_checked (map (\<lambda>(k, v). item_differs k v report) expected)) (Integrity stale)) fs (\<lambda>_.
       (Inr (report, True), fs)))
     else
       reading built fs (\<lambda>report.
       reading (validate_contract cs ''evaluation'' report) fs (\<lambda>_.
       followed_by (atomic_write failed p (json_text cs report) fs) (\<lambda>_ fs'. (Inr (report, False), fs')))))"

text \<open>The rules were accepted by \<open>load_rules\<close>, so they have a version.\<close>

definition run_real_evaluator ::
  "codecs \<Rightarrow> task_layout \<Rightarrow> json \<Rightarrow> string \<Rightarrow> bool \<Rightarrow> file_system \<Rightarrow> (adapter_error, json \<times> bool, file_system) outcome" where
  "run_real_evaluator cs l rules now failed fs =
     reading (real_evaluation_input cs fs l) fs (\<lambda>(result, request, sha).
     finish_evaluation cs l
       ([(''job_id'', JString (tl_job_id l)), (''source_result_sha256'', JString sha)] @
        (case json_field ''rules_version'' rules of None \<Rightarrow> [] | Some v \<Rightarrow> [(''rules_version'', v)]))
       ''existing real evaluation is stale or mismatched''
       (build_report cs (tl_job_id l) rules now result request sha) failed fs)"

section \<open>The evaluator of simulated tasks\<close>

definition unavailable :: json where
  "unavailable = JString ''not_available''"

definition simulation_branch_report :: "codecs \<Rightarrow> string \<times> json \<Rightarrow> (string \<times> json) checked" where
  "simulation_branch_report cs named =
     (case named of (branch, branch_result) \<Rightarrow>
        bind_checked (branch_identifier branch) (\<lambda>identifier.
        bind_checked (bind_checked (item ''artifacts'' branch_result) elements_of) (\<lambda>artifacts.
        bind_checked (case artifacts of [] \<Rightarrow> Inl (Key_error ''0'') | a # _ \<Rightarrow> Inr a) (\<lambda>artifact.
        bind_checked (item ''path'' artifact) (\<lambda>artifact_path.
        Inr (branch, JObject
          [(''status'', unavailable), (''score'', JNull), (''summary'', JString (cs_zh cs (branch @ ''.simulated''))),
           (''dimensions'', JObject
             [(''depth'', dimension unavailable (cs_zh cs ''simulated.depth'')
                [check_entry (identifier @ ''.depth.real_metrics'') (cs_zh cs ''label.simulated.depth'')
                   unavailable JNull JNull [] [''manifests/pipeline-result.json'']]),
              (''mesh'', dimension unavailable (cs_zh cs ''simulated.mesh'')
                [JObject [(''id'', JString (identifier @ ''.mesh.real_faces'')),
                   (''label'', JString (cs_zh cs ''label.simulated.mesh'')), (''status'', unavailable),
                   (''actual'', JNull), (''unit'', JString ''faces''), (''evidence_refs'', JList [artifact_path])]]),
              (''artifacts'', dimension (health_of Pass) (cs_zh cs ''simulated.artifacts'')
                [JObject [(''id'', JString (identifier @ ''.artifact.integrity'')),
                   (''label'', JString (cs_zh cs ''label.simulated.artifacts'')), (''status'', health_of Pass),
                   (''actual'', JBool True), (''unit'', JNull),
                   (''evidence_refs'', JList [artifact_path, JString ''manifests/output-validation.json''])]])])]))))))"

definition build_simulation_report :: "codecs \<Rightarrow> string \<Rightarrow> string \<Rightarrow> json \<Rightarrow> string \<Rightarrow> json checked" where
  "build_simulation_report cs job now result source_sha256 =
     bind_checked (bind_checked (item ''branches'' result) items_of) (\<lambda>named.
     bind_checked (collect_checked (simulation_branch_report cs) named) (\<lambda>branches.
     bind_checked (item2 ''input_summary'' ''image_count'' result) (\<lambda>image_count.
     Inr (JObject
       [(''contract_version'', JString ''1.0''), (''rules_version'', JString ''0.1.0''), (''job_id'', JString job),
        (''evaluated_at'', JString now), (''source_result_sha256'', JString source_sha256),
        (''scope'', JString ''structural_health''),
        (''overall'', JObject [(''status'', unavailable), (''score'', JNull),
           (''summary'', JString (cs_zh cs ''simulated.overall''))]),
        (''shared_dimensions'', JObject
          [(''input'', dimension (health_of Pass) (cs_zh cs ''simulated.input'')
             [check_entry ''input.image_count'' (cs_zh cs ''label.image_count'') (health_of Pass) image_count
                (JString ''images'') [(''thresholds'', JObject [(''minimum'', JInt 3), (''maximum'', JInt 300)])]
                [''input/input-manifest.json'']]),
           (''sfm'', dimension unavailable (cs_zh cs ''simulated.sfm'')
             [check_entry ''sfm.real_metrics'' (cs_zh cs ''label.simulated.sfm'') unavailable JNull JNull []
                [''manifests/pipeline-result.json'']]),
           (''performance'', dimension unavailable (cs_zh cs ''simulated.performance'')
             [check_entry ''performance.real_duration'' (cs_zh cs ''label.simulated.duration'') unavailable JNull
                (JString ''seconds'') [] [''manifests/pipeline-result.json'']])]),
        (''branches'', JObject branches),
        (''limitations'', JList [JString (cs_zh cs ''simulated.limitation'')])]))))"

definition simulation_evaluation_input ::
  "codecs \<Rightarrow> file_system \<Rightarrow> task_layout \<Rightarrow> (json \<times> string) checked" where
  "simulation_evaluation_input cs fs l =
     bind_checked (load_at cs fs (result_path fs l) ''pipeline-result'') (\<lambda>result.
     bind_checked (refuse_if (item_differs ''job_id'' (JString (tl_job_id l)) result)
       (Integrity ''pipeline result does not belong to its task directory'')) (\<lambda>_.
     bind_checked (refuse_if (item_differs ''execution_mode'' (JString ''simulated'') result)
       (Integrity ''simulation evaluator only accepts simulated results'')) (\<lambda>_.
     bind_checked (check_artifacts False cs fs l result) (\<lambda>_.
     bind_checked (bind_checked (result_path fs l) (sha256_file cs fs)) (\<lambda>sha.
     Inr (result, sha))))))"

definition run_simulation_evaluator ::
  "codecs \<Rightarrow> task_layout \<Rightarrow> string \<Rightarrow> bool \<Rightarrow> file_system \<Rightarrow> (adapter_error, json \<times> bool, file_system) outcome" where
  "run_simulation_evaluator cs l now failed fs =
     reading (simulation_evaluation_input cs fs l) fs (\<lambda>(result, sha).
     finish_evaluation cs l [(''job_id'', JString (tl_job_id l)), (''source_result_sha256'', JString sha)]
       ''existing evaluation does not match the pipeline result''
       (build_simulation_report cs (tl_job_id l) now result sha) failed fs)"

end
