(* ===== verification/Evaluation_Theorems.thy ===== *)
theory Evaluation_Theorems
  imports Evaluation
begin

text \<open>
  Properties of the evaluation: what the overall status of a report means, and which report a later run
  returns.
\<close>

section \<open>The worst status\<close>

lemma Not_applicable_least [simp]: "Not_applicable \<le> s"
  by (cases s) (simp_all add: less_eq_health_def)

lemma Max_Not_applicable: "finite A \<Longrightarrow> A \<noteq> {} \<Longrightarrow> Max (insert Not_applicable A) = Max A"
  by (simp add: max_def)

lemma Max_applicable:
  assumes "finite A" shows "Max (insert Not_applicable (A - {Not_applicable})) = Max (insert Not_applicable A)"
  using assms by (metis insert_Diff_single)

lemma worst_status_Max: "worst_status ss = Max (insert Not_applicable (set ss))"
proof -
  let ?as = "filter (\<lambda>s. s \<noteq> Not_applicable) ss"
  have "Max (insert Not_applicable (set ?as)) = Max (insert Not_applicable (set ss))"
    using Max_applicable [of "set ss"] by (simp add: set_diff_eq)
  moreover have "worst_status ss = Max (insert Not_applicable (set ?as))"
  proof (cases ?as)
    case Nil
    then show ?thesis by (simp add: worst_status_def del: filter_empty_conv)
  next
    case (Cons a as)
    then have "worst_status ss = fold max as a" by (simp add: worst_status_def)
    also have "\<dots> = Max (set (a # as))" by (rule Max.set_eq_fold [symmetric])
    also have "\<dots> = Max (insert Not_applicable (set (a # as)))" by (rule Max_Not_applicable [symmetric]) simp_all
    finally show ?thesis using Cons by simp
  qed
  ultimately show ?thesis by simp
qed

lemma worst_status_Pass: "Pass \<in> set ss \<Longrightarrow> worst_status ss = Max (set ss)"
  unfolding worst_status_Max by (rule Max_Not_applicable) auto

text \<open>The worst of the worst is the worst of all.\<close>

lemma worst_status_concat:
  "worst_status (map worst_status sss) = worst_status (concat sss)"
proof -
  have "Max (insert Not_applicable (set (map worst_status sss))) \<le> t \<longleftrightarrow>
      Max (insert Not_applicable (set (concat sss))) \<le> t" for t
    by (auto simp: worst_status_Max)
  then show ?thesis unfolding worst_status_Max by (meson order_antisym order_refl)
qed

section \<open>The checks of a report\<close>

definition checks_of :: "json \<Rightarrow> json list" where
  "checks_of d = (case json_field ''checks'' d of Some (JList cs) \<Rightarrow> cs | _ \<Rightarrow> [])"

definition dimension_checks :: "json option \<Rightarrow> json list" where
  "dimension_checks dims = (case dims of Some (JObject fs) \<Rightarrow> concat (map (\<lambda>(_, d). checks_of d) fs) | _ \<Rightarrow> [])"

definition report_checks :: "json \<Rightarrow> json list" where
  "report_checks report =
     dimension_checks (json_field ''shared_dimensions'' report) @
     (case json_field ''branches'' report of
        Some (JObject fs) \<Rightarrow> concat (map (\<lambda>(_, b). dimension_checks (json_field ''dimensions'' b)) fs)
      | _ \<Rightarrow> [])"

lemma checks_of_dimension [simp]: "checks_of (dimension status summary checks) = checks"
  by (simp add: checks_of_def dimension_def json_field_def)

lemma check_entry_status [simp]: "json_field ''status'' (check_entry i l s a u e r) = Some s"
  by (simp add: check_entry_def json_field_def)

lemma branch_report_checks:
  assumes "branch_report cs rules named = Inr (status, name, b)"
  shows "\<exists>ss. map (json_field ''status'') (dimension_checks (json_field ''dimensions'' b)) = map (Some \<circ> health_of) ss \<and>
    status = worst_status ss"
proof -
  obtain branch r where named: "named = (branch, r)" by (cases named)
  obtain ident faces mesh depth depth_rule mesh_rule where
    s: "status = worst_status [Pass, fst depth, mesh]" and b: "b = JObject
             [(''status'', health_of status), (''score'', JNull),
              (''summary'', JString (cs_zh cs (branch @ (if status = Pass then ''.passed'' else ''.attention'')))),
              (''dimensions'', branch_dimensions cs branch ident depth depth_rule mesh faces mesh_rule)]"
    using assms unfolding named branch_report_def Let_def prod.case bind_checked_Inr by blast
  obtain d a t where d: "depth = (d, a, t)" by (cases depth)
  have "map (json_field ''status'') (dimension_checks (json_field ''dimensions'' b)) = map (Some \<circ> health_of) [d, mesh, Pass]"
    by (simp add: b d json_field_def [of "''dimensions''"] dimension_checks_def branch_dimensions_def)
  moreover have "status = worst_status [d, mesh, Pass]" by (simp add: s d worst_status_Max insert_commute)
  ultimately show ?thesis by blast
qed

lemma branch_reports_checks:
  assumes "collect_checked (branch_report cs rules) named = Inr branches"
  shows "\<exists>sss. map (json_field ''status'') (concat (map (\<lambda>(_, b). dimension_checks (json_field ''dimensions'' b)) (map snd branches))) =
      map (Some \<circ> health_of) (concat sss) \<and> map fst branches = map worst_status sss"
  using assms
proof (induction named arbitrary: branches)
  case Nil
  then show ?case by (auto intro: exI [of _ "[]"])
next
  case (Cons n named)
  then obtain status name b rest where x: "branch_report cs rules n = Inr (status, name, b)"
    "collect_checked (branch_report cs rules) named = Inr rest" "branches = (status, name, b) # rest" by auto
  obtain ss where ss: "map (json_field ''status'') (dimension_checks (json_field ''dimensions'' b)) = map (Some \<circ> health_of) ss"
    "status = worst_status ss" using branch_report_checks [OF x(1)] by blast
  obtain sss where "map (json_field ''status'') (concat (map (\<lambda>(_, b). dimension_checks (json_field ''dimensions'' b)) (map snd rest))) =
      map (Some \<circ> health_of) (concat sss)" "map fst rest = map worst_status sss" using Cons.IH [OF x(2)] by blast
  with ss show ?case by (intro exI [of _ "ss # sss"]) (simp add: x(3))
qed

lemma build_report_Inr:
  assumes "build_report cs job rules now result request sha = Inr report"
  obtains m named branches version rate_rule reprojection_rule where
    "collect_checked (branch_report cs rules) named = Inr branches" "json_field ''rules_version'' rules = Some version"
    "report = JObject
          [(''contract_version'', JString ''1.0''), (''rules_version'', version), (''job_id'', JString job),
           (''evaluated_at'', JString now), (''source_result_sha256'', JString sha),
           (''scope'', JString ''structural_health''),
           (''overall'', JObject
             [(''status'', health_of (worst_status ([Pass, sfm_status m, ms_performance_status m] @ map fst branches))),
              (''score'', JNull),
              (''summary'', JString (cs_zh cs (''overall.'' @
                 status_text (worst_status ([Pass, sfm_status m, ms_performance_status m] @ map fst branches)))))]),
           (''shared_dimensions'', shared_dimensions cs m rate_rule reprojection_rule),
           (''branches'', JObject (map snd branches)),
           (''limitations'', JList [JString (cs_zh cs ''limitations.1''), JString (cs_zh cs ''limitations.2'')])]"
  using assms that unfolding build_report_def Let_def bind_checked_Inr item_Inr by blast

lemma shared_checks:
  "map (json_field ''status'') (dimension_checks (Some (shared_dimensions cs m a b))) =
     map (Some \<circ> health_of) [Pass, ms_registration_status m, ms_reprojection_status m, ms_performance_status m]"
  by (simp add: dimension_checks_def shared_dimensions_def)

text \<open>
  C28. The overall status of a report of the real evaluator is the worst status among all checks that the
  report shows, shared and of every branch, those that do not apply left out; and its overall entry gives
  no score.
\<close>

theorem report_overall_is_worst:
  assumes "build_report cs job rules now result request sha = Inr report"
  shows "\<exists>statuses overall. map (json_field ''status'') (report_checks report) = map (Some \<circ> health_of) statuses \<and>
    json_field ''overall'' report = Some overall \<and> json_field ''status'' overall = Some (health_of (Max (set statuses))) \<and>
    Max (set statuses) \<in> {Pass, Warning, Fail} \<and> json_field ''score'' overall = Some JNull"
proof -
  obtain m named branches version ra rb where c: "collect_checked (branch_report cs rules) named = Inr branches"
    and report: "report = JObject
          [(''contract_version'', JString ''1.0''), (''rules_version'', version), (''job_id'', JString job),
           (''evaluated_at'', JString now), (''source_result_sha256'', JString sha),
           (''scope'', JString ''structural_health''),
           (''overall'', JObject
             [(''status'', health_of (worst_status ([Pass, sfm_status m, ms_performance_status m] @ map fst branches))),
              (''score'', JNull),
              (''summary'', JString (cs_zh cs (''overall.'' @
                 status_text (worst_status ([Pass, sfm_status m, ms_performance_status m] @ map fst branches)))))]),
           (''shared_dimensions'', shared_dimensions cs m ra rb),
           (''branches'', JObject (map snd branches)),
           (''limitations'', JList [JString (cs_zh cs ''limitations.1''), JString (cs_zh cs ''limitations.2'')])]"
    using assms by (rule build_report_Inr)
  let ?overall = "worst_status ([Pass, sfm_status m, ms_performance_status m] @ map fst branches)"
  obtain sss where sss: "map (json_field ''status'') (concat (map (\<lambda>(_, b). dimension_checks (json_field ''dimensions'' b)) (map snd branches))) =
      map (Some \<circ> health_of) (concat sss)" "map fst branches = map worst_status sss"
    using branch_reports_checks [OF c] by blast
  let ?all = "[Pass, ms_registration_status m, ms_reprojection_status m, ms_performance_status m] @ concat sss"
  have fields: "json_field ''shared_dimensions'' report = Some (shared_dimensions cs m ra rb)"
    "json_field ''branches'' report = Some (JObject (map snd branches))"
    by (simp_all add: report json_field_def)
  have statuses: "map (json_field ''status'') (report_checks report) = map (Some \<circ> health_of) ?all"
    unfolding report_checks_def fields map_append shared_checks using sss(1) by simp
  have one: "worst_status [s] = s" for s by (cases s) (simp_all add: worst_status_def)
  have "?overall = worst_status (map worst_status ([[Pass], [ms_registration_status m, ms_reprojection_status m],
      [ms_performance_status m]] @ sss))"
    by (simp add: one sfm_status_def sss(2))
  also have "\<dots> = worst_status ?all" unfolding worst_status_concat by simp
  also have "\<dots> = Max (set ?all)" by (rule worst_status_Pass) simp
  finally have overall: "?overall = Max (set ?all)" .
  have "Pass \<le> Max (set ?all)" by (rule Max_ge) simp_all
  then have "Max (set ?all) \<in> {Pass, Warning, Fail}"
    by (cases "Max (set ?all)") (simp_all add: less_eq_health_def)
  moreover define shown where "shown = JObject
             [(''status'', health_of ?overall), (''score'', JNull),
              (''summary'', JString (cs_zh cs (''overall.'' @ status_text ?overall)))]"
  have "json_field ''overall'' report = Some shown" by (simp add: report json_field_def shown_def)
  moreover have "json_field ''status'' shown = Some (health_of (Max (set ?all)))" "json_field ''score'' shown = Some JNull"
    unfolding overall [symmetric] by (simp_all add: shown_def json_field_def)
  ultimately show ?thesis using statuses by (intro exI [of _ ?all] exI [of _ shown] conjI)
qed

text \<open>A task whose reprojection error needs attention and whose branch C has no faces.\<close>

definition demo_rules :: json where
  "demo_rules = JObject [(''schema_version'', JString ''1.0''), (''rules_version'', JString ''1.0.0''),
     (''registration_rate'', JObject [(''pass_minimum'', JInt 1), (''warning_minimum'', JInt 0)]),
     (''mean_reprojection_error_px'', JObject [(''pass_maximum'', JInt 1), (''warning_maximum'', JInt 3)]),
     (''retained_valid_fraction'', JObject [(''pass_minimum'', JInt 1), (''warning_minimum'', JInt 0)]),
     (''mesh_faces'', JObject [(''minimum'', JInt 1)])]"

definition demo_evaluated :: "string \<Rightarrow> json" where
  "demo_evaluated job = JObject [(''job_id'', JString job), (''request_id'', JString ''r''), (''execution_mode'', JString ''real''),
     (''status'', JString ''succeeded''), (''duration_seconds'', JInt 5), (''limits'', JObject [(''timeout_seconds'', JInt 9)]),
     (''input_summary'', JObject [(''image_count'', JInt 3), (''registered_images'', JInt 0),
        (''mean_reprojection_error_px'', JInt 2)]),
     (''branches'', JObject [(''C'', JObject [(''artifacts'', JList []), (''metrics'', JObject [(''faces'', JInt 0)])])])]"

definition demo_evaluation_codec :: "(string \<Rightarrow> decoded) \<Rightarrow> (json \<Rightarrow> string) \<Rightarrow> codecs" where
  "demo_evaluation_codec loads dumps = \<lparr>cs_sha256 = \<lambda>s. s, cs_loads = loads, cs_dumps = dumps, cs_valid = \<lambda>_ _. True, cs_zh = \<lambda>s. s\<rparr>"

lemma demo_report:
  "\<exists>report. build_report cs job demo_rules now (demo_evaluated job') (demo_evaluated job') sha = Inr report \<and> is_object report"
proof -
  have zero: "double_of 0 = 0" by simp
  have measured: "\<exists>m. measure_result demo_rules (demo_evaluated job') (demo_evaluated job') = Inr m"
    by (simp add: measure_result_def demo_evaluated_def demo_rules_def item2_def item_def json_divide_def number_of_def
        get_or_def json_field_def is_float_def too_large_def minimum_status_def maximum_status_def json_le_def json_compare_def
        float_le_def Let_def)
  have branch: "\<exists>b. branch_report cs demo_rules (''C'', JObject [(''artifacts'', JList []), (''metrics'', JObject [(''faces'', JInt 0)])]) = Inr b"
    by (simp add: branch_report_def branch_identifier_def item2_def item_def mesh_faces_status_def demo_rules_def json_le_def
        json_compare_def number_of_def float_le_def branch_depth_def Let_def)
  have named: "bind_checked (item ''branches'' (demo_evaluated job')) items_of =
      Inr [(''C'', JObject [(''artifacts'', JList []), (''metrics'', JObject [(''faces'', JInt 0)])])]"
    by (simp add: demo_evaluated_def item_def items_of_def)
  have rules: "item ''rules_version'' demo_rules = Inr (JString ''1.0.0'')" "\<exists>x. item ''registration_rate'' demo_rules = Inr x"
    "\<exists>x. item ''mean_reprojection_error_px'' demo_rules = Inr x"
    by (simp_all add: demo_rules_def item_def)
  from measured branch rules(2,3) show ?thesis
    by (auto simp: build_report_def named rules(1) Let_def is_object_def)
qed

theorem report_overall_is_worst_witness:
  "\<exists>report overall. build_report (demo_evaluation_codec (\<lambda>_. Not_json) (\<lambda>_. [])) ''j'' demo_rules ''t'' (demo_evaluated ''j'') (demo_evaluated ''j'') ''s'' =
     Inr report \<and> json_field ''overall'' report = Some overall"
  using demo_report report_overall_is_worst by blast

section \<open>Which report a run returns\<close>

lemma finish_fresh:
  assumes "finish_evaluation cs l expected stale built failed fs = (Inr (report, False), fs')"
  obtains p where "evaluation_path fs l = Inr p" "\<not> path_exists fs p" "built = Inr report"
    "cs_valid cs ''evaluation'' report" "fs' = fs\<lparr>fs_data := (fs_data fs)(p \<mapsto> json_text cs report)\<rparr>"
  using assms that
  by (auto simp: finish_evaluation_def validate_contract_def followed_by_Inr split: if_splits)

text \<open>What a later run finds: the report of the first one, whose entries are compared with what is expected now.\<close>

lemma finish_reused:
  assumes "evaluation_path fs l = Inr p" "read_file fs p = Some (json_text cs report)" "keeps_json cs ''evaluation'' report"
    "cs_valid cs ''evaluation'' report" "is_object report"
    "\<forall>(k, v) \<in> set expected. \<exists>s t. json_field k report = Some (JString s) \<and> v = JString t"
  shows "finish_evaluation cs l expected stale built failed fs =
    (if \<forall>(k, v) \<in> set expected. json_field k report = Some v then (Inr (sort_keys report, True), fs)
     else (Inl (Integrity stale), fs))"
proof -
  have differs: "map (\<lambda>(k, v). item_differs k v (sort_keys report)) expected =
      map (\<lambda>(k, v). Inr (json_field k report \<noteq> Some v)) expected"
  proof (rule map_cong [OF refl], clarify)
    fix k v assume "(k, v) \<in> set expected"
    with assms(6) obtain s t where st: "json_field k report = Some (JString s)" "v = JString t" by blast
    then have "item k (sort_keys report) = Inr (JString s)" by (simp add: item_Inr)
    with st show "item_differs k v (sort_keys report) = Inr (json_field k report \<noteq> Some v)"
      by (auto simp: item_differs_def)
  qed
  have chain: "or_checked (map (\<lambda>(k, v). Inr (P k v)) kvs) = Inr (\<exists>(k, v) \<in> set kvs. P k v)" for P kvs
    by (induction kvs) auto
  have "or_checked (map (\<lambda>(k, v). item_differs k v (sort_keys report)) expected) =
      Inr (\<exists>(k, v) \<in> set expected. json_field k report \<noteq> Some v)"
    unfolding differs by (rule chain)
  moreover have "path_exists fs p" using assms(2) by (simp add: path_exists_def is_file_def)
  moreover have "load_json_contract cs fs p ''evaluation'' = Inr (sort_keys report)"
    using load_written_contract assms(2-5) by blast
  ultimately show ?thesis
    using assms(1) by (auto simp: finish_evaluation_def refuse_if_def require_def)
qed

lemma validated_version:
  assumes "load_rules text = Inr rules" shows "\<exists>v. json_field ''rules_version'' rules = Some (JString v)"
proof -
  have "is_string (json_field ''rules_version'' rules)"
    using assms by (auto simp: load_rules_def validate_rules_def split: option.splits decoded.splits)
  then show ?thesis by (auto simp: is_string_def split: option.splits json.splits)
qed

text \<open>The input of an evaluation is not changed by a file that was not there before.\<close>

lemma read_other:
  assumes "\<not> path_exists fs p" "fs_real fs p = p" "read_file fs q \<noteq> None"
  shows "read_file (fs\<lparr>fs_data := (fs_data fs)(p \<mapsto> t)\<rparr>) q = read_file fs q"
  using assms by (auto simp: read_file_def path_exists_def is_file_def)

lemma load_at_other:
  assumes "\<not> path_exists fs p" "fs_real fs p = p" "load_at cs fs (resolve fs l s) name = Inr v"
  shows "load_at cs (fs\<lparr>fs_data := (fs_data fs)(p \<mapsto> t)\<rparr>) (resolve fs l s) name = Inr v"
proof -
  obtain q where q: "resolve fs l s = Inr q" "load_json_contract cs fs q name = Inr v"
    using assms(3) by (auto simp: load_at_def)
  then have "read_file fs q \<noteq> None" by (auto simp: load_json_contract_def split: option.splits)
  from read_other [OF assms(1,2) this] q show ?thesis by (simp add: load_at_def load_json_contract_def)
qed

lemma check_artifact_other:
  assumes "\<not> path_exists fs p" "fs_real fs p = p" "check_artifact links cs fs l branch a = Inr ()"
  shows "check_artifact links cs (fs\<lparr>fs_data := (fs_data fs)(p \<mapsto> t)\<rparr>) l branch a = Inr ()"
proof -
  obtain s q where q: "json_field ''path'' a = Some (JString s)" "resolve fs l s = Inr q"
    "\<not> (links \<and> fs_link fs q)" "is_file fs q"
    using assms(3) by (auto simp: check_artifact_def item_Inr)
  then have "read_file fs q \<noteq> None" by (simp add: is_file_def)
  from read_other [OF assms(1,2) this] assms(3) q show ?thesis
    by (simp add: check_artifact_def item_Inr is_file_def file_size_def sha256_file_def)
qed

lemma check_artifacts_other:
  assumes "\<not> path_exists fs p" "fs_real fs p = p" "check_artifacts links cs fs l result = Inr ()"
  shows "check_artifacts links cs (fs\<lparr>fs_data := (fs_data fs)(p \<mapsto> t)\<rparr>) l result = Inr ()"
  using assms check_artifact_other [OF assms(1,2)] by (fastforce simp: check_artifacts_def)

lemma evaluation_input_other:
  assumes "\<not> path_exists fs p" "fs_real fs p = p" "real_evaluation_input cs fs l = Inr x"
  shows "real_evaluation_input cs (fs\<lparr>fs_data := (fs_data fs)(p \<mapsto> t)\<rparr>) l = Inr x"
proof -
  let ?fs = "fs\<lparr>fs_data := (fs_data fs)(p \<mapsto> t)\<rparr>"
  obtain result request sha q where x: "x = (result, request, sha)" "load_at cs fs (result_path fs l) ''pipeline-result'' = Inr result"
    "load_at cs fs (request_path fs l) ''pipeline-request'' = Inr request" "check_artifacts True cs fs l result = Inr ()"
    "result_path fs l = Inr q" "sha256_file cs fs q = Inr sha"
    using assms(3) by (auto simp: real_evaluation_input_def)
  have "read_file fs q \<noteq> None" using x(6) by (auto simp: sha256_file_def split: option.splits)
  then have "sha256_file cs ?fs q = Inr sha"
    using x(6) read_other [OF assms(1,2)] by (simp add: sha256_file_def)
  moreover have "load_at cs ?fs (result_path fs l) ''pipeline-result'' = Inr result"
    "load_at cs ?fs (request_path fs l) ''pipeline-request'' = Inr request"
    using load_at_other [OF assms(1,2)] x(2,3) by (simp_all add: result_path_def request_path_def)
  moreover note check_artifacts_other [OF assms(1,2) x(4)]
  ultimately show ?thesis
    using assms(3) x by (simp add: real_evaluation_input_def result_path_def request_path_def)
qed

text \<open>
  C29. A written report belongs to the result it was made of. When the evaluator wrote a report, the next run
  on the files it left returns that report and writes nothing; and a later run that finds the report, on
  whatever intact result, returns it exactly when the result's bytes have the hash that the report names,
  and refuses it as stale otherwise. It never writes a second report over the first.
\<close>

theorem report_belongs_to_its_result:
  assumes "load_rules text = Inr rules" and "real_paths fs"
    and run: "run_real_evaluator cs l rules now failed fs = (Inr (report, False), fs')"
    and keeps: "keeps_json cs ''evaluation'' report"
  shows "run_real_evaluator cs l rules now' failed' fs' = (Inr (sort_keys report, True), fs') \<and>
    (\<forall>fs2 p result request sha. fs_real fs2 = fs_real fs \<longrightarrow> evaluation_path fs l = Inr p \<longrightarrow> read_file fs2 p = read_file fs' p \<longrightarrow>
       real_evaluation_input cs fs2 l = Inr (result, request, sha) \<longrightarrow>
       run_real_evaluator cs l rules now' failed' fs2 =
         (if json_field ''source_result_sha256'' report = Some (JString sha) then (Inr (sort_keys report, True), fs2)
          else (Inl (Integrity ''existing real evaluation is stale or mismatched''), fs2)))"
proof -
  obtain v where v: "json_field ''rules_version'' rules = Some (JString v)" using validated_version [OF assms(1)] by blast
  obtain result request sha where input: "real_evaluation_input cs fs l = Inr (result, request, sha)"
    and finish: "finish_evaluation cs l ([(''job_id'', JString (tl_job_id l)), (''source_result_sha256'', JString sha),
       (''rules_version'', JString v)]) ''existing real evaluation is stale or mismatched''
       (build_report cs (tl_job_id l) rules now result request sha) failed fs = (Inr (report, False), fs')"
    using run by (auto simp: run_real_evaluator_def v)
  obtain p where p: "evaluation_path fs l = Inr p" "\<not> path_exists fs p"
    "build_report cs (tl_job_id l) rules now result request sha = Inr report"
    "cs_valid cs ''evaluation'' report" "fs' = fs\<lparr>fs_data := (fs_data fs)(p \<mapsto> json_text cs report)\<rparr>"
    using finish by (rule finish_fresh)
  have real: "fs_real fs p = p" using p(1) assms(2) by (auto simp: evaluation_path_def intro: resolved_real)
  have fields: "is_object report" "json_field ''job_id'' report = Some (JString (tl_job_id l))"
    "json_field ''rules_version'' report = Some (JString v)" "json_field ''source_result_sha256'' report = Some (JString sha)"
    using p(3) v by (auto elim!: build_report_Inr simp: json_field_def is_object_def)
  have later: "run_real_evaluator cs l rules now' failed' fs2 =
         (if json_field ''source_result_sha256'' report = Some (JString sha2) then (Inr (sort_keys report, True), fs2)
          else (Inl (Integrity ''existing real evaluation is stale or mismatched''), fs2))"
    if "fs_real fs2 = fs_real fs" "read_file fs2 p = read_file fs' p"
      "real_evaluation_input cs fs2 l = Inr (result2, request2, sha2)" for fs2 result2 request2 sha2
  proof -
    have path: "evaluation_path fs2 l = Inr p" using p(1) that(1) by (auto simp: evaluation_path_def resolve_Inr)
    have "read_file fs2 p = Some (json_text cs report)" using that(2) real by (simp add: p(5) read_file_def)
    from finish_reused [OF path this keeps p(4) fields(1)] fields(2-4) that(3) show ?thesis
      by (simp add: run_real_evaluator_def v)
  qed
  have "real_evaluation_input cs fs' l = Inr (result, request, sha)"
    unfolding p(5) by (rule evaluation_input_other [OF p(2) real input])
  then have "run_real_evaluator cs l rules now' failed' fs' = (Inr (sort_keys report, True), fs')"
    using later [of fs' result request sha] fields(4) by (simp add: p(5))
  with later p(1) show ?thesis by auto
qed

lemma branch_report_codec: "branch_report (cs\<lparr>cs_loads := f\<rparr>) = branch_report cs"
  by (rule ext)+ (simp add: branch_report_def branch_depth_def branch_dimensions_def split: prod.split)

lemma build_report_codec: "build_report (cs\<lparr>cs_loads := f\<rparr>) = build_report cs"
  by (rule ext)+ (simp add: build_report_def branch_report_codec shared_dimensions_def)

definition demo_task :: task_layout where
  "demo_task = \<lparr>tl_data_root = [''data''], tl_jobs_root = [''data'', ''jobs''], tl_root = [''data'', ''jobs'', ''t''], tl_job_id = ''t''\<rparr>"

definition demo_task_files :: file_system where
  "demo_task_files = \<lparr>fs_real = \<lambda>p. p, fs_link = \<lambda>_. False,
     fs_data = map_of [([''data'', ''jobs'', ''t'', ''manifests'', ''pipeline-request.json''], ''E''),
       ([''data'', ''jobs'', ''t'', ''manifests'', ''pipeline-result.json''], ''E'')],
     fs_dir = \<lambda>_. False, fs_names = \<lambda>_. []\<rparr>"

lemma demo_rules_accepted: "load_rules (Some (Decoded demo_rules)) = Inr demo_rules"
proof -
  have [simp]: "json_le (JInt a) (JInt b) = Inr (a \<le> b)" "json_less (JInt a) (JInt b) = Inr (a < b)" for a b
    by (auto simp: json_le_def json_less_def json_compare_def number_of_def float_le_def float_less_def)
  have "validate_rules demo_rules = Inr ()"
    by (simp add: validate_rules_def demo_rules_def is_object_def json_field_def is_string_def refuse_if_def
        minimum_rule_invalid_def maximum_rule_invalid_def mesh_rule_invalid_def outside_unit_def get_or_def item_def
        not_checked_def)
  then show ?thesis by (simp add: load_rules_def)
qed

lemma demo_evaluation:
  "\<exists>cs report fs'. run_real_evaluator cs demo_task demo_rules ''now'' False demo_task_files = (Inr (report, False), fs') \<and>
     keeps_json cs ''evaluation'' report"
proof -
  let ?base = "demo_evaluation_codec (\<lambda>_. Not_json) (\<lambda>_. ''D'')"
  obtain report where r: "build_report ?base ''t'' demo_rules ''now'' (demo_evaluated ''t'') (demo_evaluated ''t'') ''E'' = Inr report"
    using demo_report by blast
  let ?loads = "\<lambda>s. if s = ''E'' then Decoded (demo_evaluated ''t'') else Decoded (sort_keys report)"
  define cs where "cs = ?base\<lparr>cs_loads := ?loads\<rparr>"
  have cs: "cs_loads cs = ?loads" "cs_dumps cs v = ''D''" "cs_valid cs n v = True" "cs_sha256 cs s = s" for n v s
    by (simp_all add: cs_def demo_evaluation_codec_def)
  have built: "build_report cs ''t'' demo_rules ''now'' (demo_evaluated ''t'') (demo_evaluated ''t'') ''E'' = Inr report"
    unfolding cs_def build_report_codec by (fact r)
  have places: "result_path demo_task_files demo_task = Inr [''data'', ''jobs'', ''t'', ''manifests'', ''pipeline-result.json'']"
    "request_path demo_task_files demo_task = Inr [''data'', ''jobs'', ''t'', ''manifests'', ''pipeline-request.json'']"
    "evaluation_path demo_task_files demo_task = Inr [''data'', ''jobs'', ''t'', ''reports'', ''evaluation.json'']"
    by (simp_all add: result_path_def request_path_def evaluation_path_def resolve_def demo_task_files_def demo_task_def
        bad_task_path_def posix_parts_def is_within_def)
  have texts: "read_file demo_task_files [''data'', ''jobs'', ''t'', ''manifests'', ''pipeline-result.json''] = Some ''E''"
    "read_file demo_task_files [''data'', ''jobs'', ''t'', ''manifests'', ''pipeline-request.json''] = Some ''E''"
    "\<not> path_exists demo_task_files [''data'', ''jobs'', ''t'', ''reports'', ''evaluation.json'']"
    by (simp_all add: read_file_def demo_task_files_def path_exists_def is_file_def is_dir_def)
  have loaded: "load_at cs demo_task_files (Inr p) name = Inr (demo_evaluated ''t'')" if "read_file demo_task_files p = Some ''E''" for p name
    using that by (simp add: load_at_def load_json_contract_def cs validate_contract_def is_object_def demo_evaluated_def)
  have fields: "json_field ''job_id'' (demo_evaluated ''t'') = Some (JString ''t'')"
    "json_field ''request_id'' (demo_evaluated ''t'') = Some (JString ''r'')"
    "json_field ''execution_mode'' (demo_evaluated ''t'') = Some (JString ''real'')"
    "json_field ''status'' (demo_evaluated ''t'') = Some (JString ''succeeded'')"
    by (simp_all add: demo_evaluated_def json_field_def)
  have job: "tl_job_id demo_task = ''t''" by (simp add: demo_task_def)
  have artifacts: "check_artifacts True cs demo_task_files demo_task (demo_evaluated ''t'') = Inr ()"
    by (simp add: check_artifacts_def demo_evaluated_def item_def items_of_def elements_of_def)
  have "real_evaluation_input cs demo_task_files demo_task = Inr (demo_evaluated ''t'', demo_evaluated ''t'', ''E'')"
    by (simp add: real_evaluation_input_def places loaded texts fields item_Inr job artifacts sha256_file_def cs ex_bool_eq)
  moreover have "\<exists>v. json_field ''rules_version'' demo_rules = Some v" by (simp add: demo_rules_def json_field_def)
  ultimately have "\<exists>fs'. run_real_evaluator cs demo_task demo_rules ''now'' False demo_task_files = (Inr (report, False), fs')"
    by (auto simp: run_real_evaluator_def finish_evaluation_def places texts built job validate_contract_def cs atomic_write_def)
  moreover have "keeps_json cs ''evaluation'' report" by (simp add: keeps_json_def cs json_text_def)
  ultimately show ?thesis by blast
qed

theorem report_belongs_to_its_result_witness:
  "\<exists>cs report fs'. run_real_evaluator cs demo_task demo_rules ''now'' False demo_task_files = (Inr (report, False), fs') \<and>
     run_real_evaluator cs demo_task demo_rules ''later'' False fs' = (Inr (sort_keys report, True), fs')"
proof -
  obtain cs report fs' where r: "run_real_evaluator cs demo_task demo_rules ''now'' False demo_task_files = (Inr (report, False), fs')"
    "keeps_json cs ''evaluation'' report" using demo_evaluation by blast
  have "real_paths demo_task_files" by (simp add: real_paths_def demo_task_files_def)
  from report_belongs_to_its_result [OF demo_rules_accepted this r] r(1) show ?thesis by blast
qed

end
