(* ===== verification/Simulation_Runner.thy ===== *)
theory Simulation_Runner
  imports Event_Journal Json_Values
begin

text \<open>
  The runner of simulated tasks, \<^verbatim>\<open>backend/re3d_adapter/simulation.py\<close>. The world of a run is the file
  system, the open journal and a counter of the calls to the clock, to \<open>uuid4\<close> and to the disk; what they
  return at each count, and which writes fail, are arguments of the run. The directories that are created
  on the way are not tracked.
\<close>

section \<open>The world of a run\<close>

record chances =
  ch_uuid :: "nat \<Rightarrow> uuid"
  ch_now :: "nat \<Rightarrow> string"
  ch_torn :: "nat \<Rightarrow> nat option"
  ch_failed :: "nat \<Rightarrow> bool"

record sim_world =
  sw_files :: file_system
  sw_journal :: journal
  sw_tick :: nat

type_synonym 'a sim_step = "sim_world \<Rightarrow> (adapter_error, 'a, sim_world) outcome"

definition journal_raised :: "journal_error \<Rightarrow> adapter_error" where
  "journal_raised e =
     (case e of
        Journal_integrity s \<Rightarrow> Integrity s
      | Journal_contract \<Rightarrow> Contract_invalid ''pipeline-event contract is invalid''
      | Journal_key_error k \<Rightarrow> Key_error k
      | Journal_os_error \<Rightarrow> Os_error)"

text \<open>What a run is given: the codecs, what chance brings, the layout of the task and the path of its journal.\<close>

record sim_setup =
  st_codecs :: codecs
  st_events :: codec
  st_chances :: chances
  st_layout :: task_layout
  st_journal :: path
  st_read_time :: "string \<Rightarrow> int option"

text \<open>\<open>journal.append\<close>\<close>

definition sim_append :: "sim_setup \<Rightarrow> string \<Rightarrow> (string \<times> json) list \<Rightarrow> unit sim_step" where
  "sim_append st event_type payload w =
     (let n = sw_tick w; ch = st_chances st; fs = sw_files w
      in case append_event (st_events st) event_type payload (ch_uuid ch n) (ch_now ch n) (ch_torn ch n)
             (sw_journal w, read_file fs (st_journal st)) of
           (r, j, disk) \<Rightarrow>
             ((case r of Inl e \<Rightarrow> Inl (journal_raised e) | Inr _ \<Rightarrow> Inr ()),
              w\<lparr>sw_journal := j, sw_tick := n + 1,
                sw_files := (case disk of None \<Rightarrow> fs | Some text \<Rightarrow> fs\<lparr>fs_data := (fs_data fs)(st_journal st \<mapsto> text)\<rparr>)\<rparr>))"

text \<open>\<open>atomic_write_bytes\<close> at the next count.\<close>

definition sim_write :: "sim_setup \<Rightarrow> path \<Rightarrow> string \<Rightarrow> unit sim_step" where
  "sim_write st p payload w =
     (case atomic_write (ch_failed (st_chances st) (sw_tick w)) p payload (sw_files w) of
        (r, fs) \<Rightarrow> (r, w\<lparr>sw_files := fs, sw_tick := sw_tick w + 1\<rparr>))"

fun each_step :: "('a \<Rightarrow> unit sim_step) \<Rightarrow> 'a list \<Rightarrow> unit sim_step" where
  "each_step f [] w = (Inr (), w)"
| "each_step f (x # xs) w = followed_by (f x w) (\<lambda>_. each_step f xs)"

section \<open>The artifact\<close>

text \<open>\<open>struct.pack("<I", n)\<close>\<close>

definition pack_le32 :: "nat \<Rightarrow> string" where
  "pack_le32 n = map (\<lambda>i. char_of (n div 256 ^ i mod 256)) [0..<4]"

definition glb_document :: json where
  "glb_document = JObject
     [(''asset'', JObject [(''generator'', JString ''Re3D Platform simulator''), (''version'', JString ''2.0'')]),
      (''scene'', JInt 0), (''scenes'', JList [JObject []])]"

definition glb_json_chunk :: "codec \<Rightarrow> string" where
  "glb_json_chunk cd =
     (let chunk = cd_dumps cd glb_document in chunk @ replicate ((4 - length chunk mod 4) mod 4) (CHR '' ''))"

definition minimal_glb :: "codec \<Rightarrow> string" where
  "minimal_glb cd =
     (let chunk = glb_json_chunk cd; total_length = 12 + 8 + length chunk
      in ''glTF'' @ pack_le32 2 @ pack_le32 total_length @ pack_le32 (length chunk) @ ''JSON'' @ chunk)"

section \<open>The stages\<close>

definition branch_stage :: "string \<Rightarrow> string checked" where
  "branch_stage branch =
     (if branch = ''A-v4'' then Inr ''a_texturing'' else if branch = ''B-v2'' then Inr ''b_texturing''
      else if branch = ''C'' then Inr ''c_texturing'' else Inl (Key_error branch))"

definition message :: "string \<Rightarrow> string \<Rightarrow> (string \<times> json) list" where
  "message code text = [(''message_code'', JString code), (''safe_message'', JString text)]"

definition stage_payload ::
  "string \<Rightarrow> string \<Rightarrow> (string \<times> json) list \<Rightarrow> string \<Rightarrow> string \<Rightarrow> (string \<times> json) list" where
  "stage_payload stage branch extra code text =
     [(''stage'', JString stage), (''branch'', JString branch)] @ extra @ message code text"

text \<open>The mean reprojection error of a simulated task is the float \<open>0.75\<close>.\<close>

definition three_quarters :: json where
  "three_quarters = JFloat (Finite (3 / 4))"

definition shared_stages :: "codecs \<Rightarrow> json \<Rightarrow> (string \<times> string \<times> json) list" where
  "shared_stages cs image_count =
     [(''preparing'', cs_zh cs ''simulation.preparing'', JObject []),
      (''sfm'', cs_zh cs ''simulation.sfm'',
        JObject [(''registered_images'', image_count), (''mean_reprojection_error_px'', three_quarters)])]"

definition percent :: "(string \<times> json) list \<Rightarrow> string \<times> json" where
  "percent extra = (''progress'', JObject ((''percent'', JInt 100) # extra))"

definition run_shared_stage :: "sim_setup \<Rightarrow> string \<times> string \<times> json \<Rightarrow> unit sim_step" where
  "run_shared_stage st stage_message w =
     (case stage_message of (stage, text, metrics) \<Rightarrow>
        if has_completed_stage stage (sw_journal w) then (Inr (), w)
        else
          followed_by (sim_append st ''stage_started'' (stage_payload stage ''shared'' [] ''STAGE_STARTED'' text) w) (\<lambda>_ w.
          followed_by (sim_append st ''stage_progress''
            (stage_payload stage ''shared'' [percent [], (''metrics'', metrics)] ''STAGE_PROGRESS'' text) w) (\<lambda>_ w.
          sim_append st ''stage_completed'' (stage_payload stage ''shared'' [] ''STAGE_COMPLETED'' text) w)))"

definition run_shared_stages :: "sim_setup \<Rightarrow> json \<Rightarrow> unit sim_step" where
  "run_shared_stages st image_count = each_step (run_shared_stage st) (shared_stages (st_codecs st) image_count)"

definition mesh_relative :: "string \<Rightarrow> string" where
  "mesh_relative branch = ''output/'' @ branch @ ''/mesh.glb''"

definition glb_artifact :: "string \<Rightarrow> string \<Rightarrow> int \<Rightarrow> json" where
  "glb_artifact relative sha n = JObject
     [(''kind'', JString ''glb''), (''path'', JString relative), (''sha256'', JString sha), (''size_bytes'', JInt n),
      (''content_type'', JString ''model/gltf-binary'')]"

definition artifact_manifest :: "string \<Rightarrow> string \<Rightarrow> string \<Rightarrow> int \<Rightarrow> json" where
  "artifact_manifest branch relative sha n = JObject
     [(''simulation'', JBool True), (''branch'', JString branch),
      (''artifacts'', JList [JObject [(''path'', JString relative), (''sha256'', JString sha), (''size_bytes'', JInt n)]])]"

text \<open>An artifact that was recorded before must still be there, unchanged.\<close>

definition check_recorded_artifact :: "sim_setup \<Rightarrow> file_system \<Rightarrow> string \<Rightarrow> path \<Rightarrow> json \<Rightarrow> unit checked" where
  "check_recorded_artifact st fs branch artifact_path event =
     bind_checked (item ''artifact'' event) (\<lambda>artifact.
     bind_checked (item ''path'' artifact) (\<lambda>recorded_path.
     bind_checked (require (recorded_path = JString (mesh_relative branch) \<and> is_file fs artifact_path)
       (Integrity (''persisted '' @ branch @ '' artifact is missing''))) (\<lambda>_.
     bind_checked (sha256_file (st_codecs st) fs artifact_path) (\<lambda>sha.
     refuse_if (item_differs ''sha256'' (JString sha) artifact)
       (Integrity (''persisted '' @ branch @ '' artifact hash does not match''))))))"

definition produce_artifact :: "sim_setup \<Rightarrow> string \<Rightarrow> string \<Rightarrow> path \<Rightarrow> unit sim_step" where
  "produce_artifact st stage branch artifact_path w =
     (let cs = st_codecs st; relative = mesh_relative branch
      in followed_by (sim_append st ''stage_started''
           (stage_payload stage branch [] ''STAGE_STARTED'' (cs_zh cs (branch @ ''.simulation.started''))) w) (\<lambda>_ w.
         followed_by (sim_append st ''stage_progress''
           (stage_payload stage branch
             [percent [(''completed_units'', JInt 1), (''total_units'', JInt 1)], (''metrics'', JObject [(''simulation'', JBool True)])]
             ''STAGE_PROGRESS'' (cs_zh cs (branch @ ''.simulation.progress''))) w) (\<lambda>_ w.
         followed_by (sim_write st artifact_path (minimal_glb (st_events st)) w) (\<lambda>_ w.
         reading (sha256_file cs (sw_files w) artifact_path) w (\<lambda>sha.
         reading (file_size (sw_files w) artifact_path) w (\<lambda>n.
         followed_by (sim_write st (butlast artifact_path @ [''artifact-manifest.json''])
           (json_text cs (artifact_manifest branch relative sha n)) w) (\<lambda>_ w.
         reading (file_size (sw_files w) artifact_path) w (\<lambda>n.
         followed_by (sim_append st ''artifact_created''
           (stage_payload stage branch [(''artifact'', glb_artifact relative sha n)]
             ''ARTIFACT_CREATED'' (cs_zh cs (branch @ ''.simulation.archived''))) w) (\<lambda>_ w.
         sim_append st ''stage_completed''
           (stage_payload stage branch [] ''STAGE_COMPLETED'' (cs_zh cs (branch @ ''.simulation.completed''))) w)))))))))"

definition run_branch :: "sim_setup \<Rightarrow> string \<Rightarrow> unit sim_step" where
  "run_branch st branch w =
     reading (branch_stage branch) w (\<lambda>stage.
     reading (resolve (sw_files w) (st_layout st) (mesh_relative branch)) w (\<lambda>artifact_path.
     case artifact_event branch (sw_journal w) of
       Inl e \<Rightarrow> (Inl (journal_raised e), w)
     | Inr (Some event) \<Rightarrow> (check_recorded_artifact st (sw_files w) branch artifact_path event, w)
     | Inr None \<Rightarrow>
         if path_exists (sw_files w) artifact_path
         then (Inl (Integrity (''untracked '' @ branch @ '' artifact already exists'')), w)
         else produce_artifact st stage branch artifact_path w))"

definition run_branches :: "sim_setup \<Rightarrow> string option \<Rightarrow> string list \<Rightarrow> unit sim_step" where
  "run_branches st crash_after = each_step (\<lambda>branch w.
     followed_by (run_branch st branch w) (\<lambda>_ w.
       (require (crash_after \<noteq> Some branch) (Simulated_crash (''simulated interruption after '' @ branch)), w)))"

section \<open>The result\<close>

definition output_validation :: "string list \<Rightarrow> json" where
  "output_validation branches = JObject
     [(''simulation'', JBool True), (''all_passed'', JBool True),
      (''branches'', JObject (map (\<lambda>b. (b, JObject [(''status'', JString ''pass''), (''glb'', JString (mesh_relative b))])) branches))]"

definition write_output_validation :: "sim_setup \<Rightarrow> string list \<Rightarrow> unit sim_step" where
  "write_output_validation st branches w =
     reading (output_validation_path (sw_files w) (st_layout st)) w (\<lambda>p.
     sim_write st p (json_text (st_codecs st) (output_validation branches)) w)"

text \<open>\<open>text.replace("Z", "+00:00")\<close>\<close>

definition replace_z :: "string \<Rightarrow> string" where
  "replace_z s = concat (map (\<lambda>c. if c = CHR ''Z'' then ''+00:00'' else [c]) s)"

definition parse_time :: "sim_setup \<Rightarrow> string \<Rightarrow> int checked" where
  "parse_time st s =
     (case st_read_time st (replace_z s) of None \<Rightarrow> Inl (Value_error ''Invalid isoformat string'') | Some us \<Rightarrow> Inr us)"

definition elapsed :: "int \<Rightarrow> int \<Rightarrow> json" where
  "elapsed started finished = JFloat (Finite (max 0 (total_seconds (finished - started))))"

definition branch_result :: "sim_setup \<Rightarrow> file_system \<Rightarrow> string \<Rightarrow> (string \<times> json) checked" where
  "branch_result st fs branch =
     bind_checked (resolve fs (st_layout st) (mesh_relative branch)) (\<lambda>p.
     bind_checked (sha256_file (st_codecs st) fs p) (\<lambda>sha.
     bind_checked (file_size fs p) (\<lambda>n.
     Inr (branch, JObject
       [(''status'', JString ''succeeded''), (''duration_seconds'', JInt 0),
        (''artifacts'', JList [glb_artifact (mesh_relative branch) sha n]),
        (''metrics'', JObject [(''simulation'', JBool True), (''vertices'', JInt 0), (''faces'', JInt 0)])]))))"

text \<open>The entries that the result copies from the request.\<close>

record copied =
  cp_job_id :: json
  cp_request_id :: json
  cp_attempt :: json
  cp_tag :: json
  cp_commit :: json
  cp_config_sha256 :: json
  cp_image_count :: json
  cp_manifest_sha256 :: json
  cp_manifest_path :: json

definition copy_request :: "json \<Rightarrow> copied checked" where
  "copy_request request =
     bind_checked (item ''job_id'' request) (\<lambda>job. bind_checked (item ''request_id'' request) (\<lambda>req.
     bind_checked (item ''attempt'' request) (\<lambda>attempt.
     bind_checked (item2 ''pipeline'' ''tag'' request) (\<lambda>tag.
     bind_checked (item2 ''pipeline'' ''commit'' request) (\<lambda>commit.
     bind_checked (item2 ''pipeline'' ''config_sha256'' request) (\<lambda>config.
     bind_checked (item2 ''input'' ''image_count'' request) (\<lambda>count.
     bind_checked (item2 ''input'' ''manifest_sha256'' request) (\<lambda>sha.
     bind_checked (item2 ''input'' ''manifest_path'' request) (\<lambda>p.
     Inr \<lparr>cp_job_id = job, cp_request_id = req, cp_attempt = attempt, cp_tag = tag, cp_commit = commit,
       cp_config_sha256 = config, cp_image_count = count, cp_manifest_sha256 = sha, cp_manifest_path = p\<rparr>)))))))))"

definition result_object :: "copied \<Rightarrow> json \<Rightarrow> json \<Rightarrow> json \<Rightarrow> (string \<times> json) list \<Rightarrow> json" where
  "result_object c started_at finished_at duration branches = JObject
     [(''contract_version'', JString ''1.0''), (''execution_mode'', JString ''simulated''), (''job_id'', cp_job_id c),
      (''request_id'', cp_request_id c), (''attempt'', cp_attempt c), (''status'', JString ''succeeded''),
      (''started_at'', started_at), (''finished_at'', finished_at), (''duration_seconds'', duration),
      (''pipeline'', JObject [(''tag'', cp_tag c), (''commit'', cp_commit c), (''config_sha256'', cp_config_sha256 c)]),
      (''input_summary'', JObject
        [(''image_count'', cp_image_count c), (''manifest_sha256'', cp_manifest_sha256 c),
         (''registered_images'', cp_image_count c), (''mean_reprojection_error_px'', three_quarters)]),
      (''branches'', JObject branches),
      (''diagnostics'', JObject
        [(''input_manifest'', cp_manifest_path c), (''events'', JString ''manifests/pipeline-events.jsonl''),
         (''output_validation'', JString ''manifests/output-validation.json'')])]"

definition build_result :: "sim_setup \<Rightarrow> json \<Rightarrow> string list \<Rightarrow> json sim_step" where
  "build_result st request branches w =
     reading (case jn_events (sw_journal w) of [] \<Rightarrow> Inl (Key_error ''0'') | e # _ \<Rightarrow> item ''occurred_at'' e) w (\<lambda>started_at.
     let finished_at = ch_now (st_chances st) (sw_tick w); w1 = w\<lparr>sw_tick := sw_tick w + 1\<rparr>
     in reading (bind_checked (parse_time st finished_at) (\<lambda>f.
          bind_checked (bind_checked (text_of started_at) (parse_time st)) (\<lambda>s. Inr (elapsed s f)))) w1 (\<lambda>duration.
        reading (collect_checked (branch_result st (sw_files w1)) branches) w1 (\<lambda>entries.
        reading (copy_request request) w1 (\<lambda>c.
        (Inr (result_object c started_at (JString finished_at) duration entries), w1)))))"

section \<open>The run\<close>

definition validate_simulation_identity :: "task_layout \<Rightarrow> json \<Rightarrow> unit checked" where
  "validate_simulation_identity l request =
     bind_checked (refuse_if (item_differs ''job_id'' (JString (tl_job_id l)) request)
       (Integrity ''request job_id does not match its task directory'')) (\<lambda>_.
     refuse_if (item_differs ''execution_mode'' (JString ''simulated'') request)
       (Contract_invalid ''simulation runner only accepts execution_mode=simulated''))"

definition check_result_artifact :: "codecs \<Rightarrow> file_system \<Rightarrow> task_layout \<Rightarrow> string \<Rightarrow> json \<Rightarrow> unit checked" where
  "check_result_artifact cs fs l branch artifact =
     bind_checked (bind_checked (bind_checked (item ''path'' artifact) text_of) (resolve fs l)) (\<lambda>p.
     bind_checked (require (is_file fs p) (Integrity (''existing '' @ branch @ '' result artifact is missing''))) (\<lambda>_.
     bind_checked (file_size fs p) (\<lambda>n.
     bind_checked (refuse_if (item_differs ''size_bytes'' (JInt n) artifact)
       (Integrity (''existing '' @ branch @ '' result artifact size does not match''))) (\<lambda>_.
     bind_checked (sha256_file cs fs p) (\<lambda>sha.
     refuse_if (item_differs ''sha256'' (JString sha) artifact)
       (Integrity (''existing '' @ branch @ '' result artifact hash does not match'')))))))"

definition same_item :: "string \<Rightarrow> json \<Rightarrow> json \<Rightarrow> bool checked" where
  "same_item k request result = bind_checked (item k request) (\<lambda>v. item_differs k v result)"

definition validate_existing_result :: "codecs \<Rightarrow> file_system \<Rightarrow> task_layout \<Rightarrow> json \<Rightarrow> json \<Rightarrow> unit checked" where
  "validate_existing_result cs fs l request result =
     bind_checked (refuse_if (or_checked
         [same_item ''job_id'' request result, same_item ''request_id'' request result,
          same_item ''attempt'' request result, item_differs ''execution_mode'' (JString ''simulated'') result])
       (Integrity ''existing result identity does not match the request'')) (\<lambda>_.
     bind_checked (bind_checked (item ''branches'' result) items_of) (\<lambda>named.
     each_checked (\<lambda>(branch, b).
       bind_checked (bind_checked (item ''artifacts'' b) elements_of)
         (each_checked (check_result_artifact cs fs l branch))) named))"

text \<open>\<open>EventJournal(...)\<close>: the attempt is an integer by contract.\<close>

definition open_task_journal :: "codec \<Rightarrow> file_system \<Rightarrow> path \<Rightarrow> json \<Rightarrow> string \<Rightarrow> journal checked" where
  "open_task_journal cd fs p request worker =
     bind_checked (bind_checked (item ''job_id'' request) text_of) (\<lambda>job.
     bind_checked (bind_checked (item ''attempt'' request) int_of) (\<lambda>attempt.
     case open_journal cd job attempt worker (read_file fs p) of
       Inl e \<Rightarrow> Inl (journal_raised e) | Inr j \<Rightarrow> Inr j))"

text \<open>What \<open>run\<close> reads before its first event: the request, its input and the journal.\<close>

definition simulation_input ::
  "codecs \<Rightarrow> codec \<Rightarrow> task_layout \<Rightarrow> string \<Rightarrow> file_system \<Rightarrow> (json \<times> journal \<times> path) checked" where
  "simulation_input cs cd l worker fs =
     bind_checked (ensure_worker_directories fs l) (\<lambda>_.
     bind_checked (request_path fs l) (\<lambda>p.
     bind_checked (load_json_contract cs fs p ''pipeline-request'') (\<lambda>request.
     bind_checked (validate_simulation_identity l request) (\<lambda>_.
     bind_checked (validate_task_input cs fs l request) (\<lambda>_.
     bind_checked (events_path fs l) (\<lambda>events.
     bind_checked (open_task_journal cd fs events request worker) (\<lambda>j.
     Inr (request, j, events))))))))"

text \<open>An existing result is verified and its missing last event is added.\<close>

definition reuse_result :: "sim_setup \<Rightarrow> json \<Rightarrow> path \<Rightarrow> (json \<times> bool) sim_step" where
  "reuse_result st request p w =
     reading (load_json_contract (st_codecs st) (sw_files w) p ''pipeline-result'') w (\<lambda>result.
     reading (validate_existing_result (st_codecs st) (sw_files w) (st_layout st) request result) w (\<lambda>_.
     followed_by (if has_terminal_event (sw_journal w) then (Inr (), w)
       else sim_append st ''job_succeeded''
         (percent [] # message ''JOB_SUCCEEDED'' (cs_zh (st_codecs st) ''simulation.recovered'')) w) (\<lambda>_ w.
     (Inr (result, True), w))))"

definition first_event :: "sim_setup \<Rightarrow> unit sim_step" where
  "first_event st w =
     (if jn_events (sw_journal w) \<noteq> []
      then sim_append st ''warning'' (message ''WORKER_RESUMED'' (cs_zh (st_codecs st) ''simulation.resumed'')) w
      else sim_append st ''job_started'' (message ''JOB_STARTED'' (cs_zh (st_codecs st) ''simulation.started'')) w)"

definition new_result :: "sim_setup \<Rightarrow> string option \<Rightarrow> json \<Rightarrow> path \<Rightarrow> (json \<times> bool) sim_step" where
  "new_result st crash_after request p w =
     followed_by (first_event st w) (\<lambda>_ w.
     reading (item2 ''input'' ''image_count'' request) w (\<lambda>image_count.
     followed_by (run_shared_stages st image_count w) (\<lambda>_ w.
     reading (bind_checked (bind_checked (item ''branches'' request) elements_of) (collect_checked text_of)) w (\<lambda>branches.
     followed_by (run_branches st crash_after branches w) (\<lambda>_ w.
     followed_by (write_output_validation st branches w) (\<lambda>_ w.
     followed_by (build_result st request branches w) (\<lambda>result w.
     reading (validate_contract (st_codecs st) ''pipeline-result'' result) w (\<lambda>_.
     followed_by (sim_write st p (json_text (st_codecs st) result) w) (\<lambda>_ w.
     followed_by (sim_append st ''job_succeeded''
       (percent [] # message ''JOB_SUCCEEDED'' (cs_zh (st_codecs st) ''simulation.succeeded'')) w) (\<lambda>_ w.
     (Inr (result, False), w)))))))))))"

definition run_simulation ::
  "codecs \<Rightarrow> codec \<Rightarrow> (string \<Rightarrow> int option) \<Rightarrow> task_layout \<Rightarrow> string \<Rightarrow> chances \<Rightarrow> string option \<Rightarrow> file_system \<Rightarrow>
     (adapter_error, json \<times> bool, file_system) outcome" where
  "run_simulation cs cd read_time l worker ch crash_after fs =
     reading (simulation_input cs cd l worker fs) fs (\<lambda>(request, j, events).
     let st = \<lparr>st_codecs = cs, st_events = cd, st_chances = ch, st_layout = l, st_journal = events, st_read_time = read_time\<rparr>;
         w = \<lparr>sw_files = fs, sw_journal = j, sw_tick = 0\<rparr>
     in reading (result_path fs l) fs (\<lambda>p.
        case (if path_exists fs p then reuse_result st request p w
              else if has_terminal_event j then (Inl (Integrity ''terminal event exists without a pipeline result''), w)
              else new_result st crash_after request p w) of
          (r, w') \<Rightarrow> (r, sw_files w')))"

end
