(* ===== verification/Simulation_Steps.thy ===== *)
theory Simulation_Steps
  imports Simulation_Runner
begin

text \<open>
  The steps of the runner of simulated tasks: what the events, the stages, the branches and the end of a run
  keep of a task's files, and that they succeed on files that are consistent.
\<close>

section \<open>The places of a task\<close>

definition task_branches :: "string list" where
  "task_branches = [''A-v4'', ''B-v2'', ''C'']"

definition mesh_place :: "task_layout \<Rightarrow> string \<Rightarrow> path" where
  "mesh_place l b = tl_root l @ [''output'', b, ''mesh.glb'']"

definition manifest_place :: "task_layout \<Rightarrow> string \<Rightarrow> path" where
  "manifest_place l b = tl_root l @ [''output'', b, ''artifact-manifest.json'']"

definition record_place :: "task_layout \<Rightarrow> string \<Rightarrow> path" where
  "record_place l name = tl_root l @ [''manifests'', name]"

definition own_places :: "task_layout \<Rightarrow> path set" where
  "own_places l = mesh_place l ` set task_branches \<union> manifest_place l ` set task_branches \<union>
     record_place l ` {''pipeline-events.jsonl'', ''pipeline-result.json'', ''output-validation.json''}"

lemmas place_defs = mesh_place_def manifest_place_def record_place_def

lemma task_paths:
  "\<not> bad_task_path ''manifests/pipeline-request.json'' \<and> posix_parts ''manifests/pipeline-request.json'' = [''manifests'', ''pipeline-request.json'']"
  "\<not> bad_task_path ''manifests/pipeline-events.jsonl'' \<and> posix_parts ''manifests/pipeline-events.jsonl'' = [''manifests'', ''pipeline-events.jsonl'']"
  "\<not> bad_task_path ''manifests/pipeline-result.json'' \<and> posix_parts ''manifests/pipeline-result.json'' = [''manifests'', ''pipeline-result.json'']"
  "\<not> bad_task_path ''manifests/output-validation.json'' \<and> posix_parts ''manifests/output-validation.json'' = [''manifests'', ''output-validation.json'']"
  "\<not> bad_task_path ''input/input-manifest.json'' \<and> posix_parts ''input/input-manifest.json'' = [''input'', ''input-manifest.json'']"
  "\<not> bad_task_path ''input/images'' \<and> posix_parts ''input/images'' = [''input'', ''images'']"
  by (simp_all add: bad_task_path_def posix_parts_def)

lemma directory_paths:
  "\<not> bad_task_path ''runtime/work'' \<and> posix_parts ''runtime/work'' = [''runtime'', ''work'']"
  "\<not> bad_task_path ''runtime/logs'' \<and> posix_parts ''runtime/logs'' = [''runtime'', ''logs'']"
  "\<not> bad_task_path ''output'' \<and> posix_parts ''output'' = [''output'']"
  "\<not> bad_task_path ''reports'' \<and> posix_parts ''reports'' = [''reports'']"
  "\<not> bad_task_path ''manifests'' \<and> posix_parts ''manifests'' = [''manifests'']"
  by (simp_all add: bad_task_path_def posix_parts_def)

lemma mesh_paths:
  "b \<in> set task_branches \<Longrightarrow> \<not> bad_task_path (mesh_relative b) \<and> posix_parts (mesh_relative b) = [''output'', b, ''mesh.glb'']"
  by (auto simp: task_branches_def mesh_relative_def bad_task_path_def posix_parts_def)

lemma plain_paths:
  assumes "plain_root fs l"
  shows "request_path fs l = Inr (record_place l ''pipeline-request.json'')"
    "events_path fs l = Inr (record_place l ''pipeline-events.jsonl'')"
    "result_path fs l = Inr (record_place l ''pipeline-result.json'')"
    "output_validation_path fs l = Inr (record_place l ''output-validation.json'')"
    "b \<in> set task_branches \<Longrightarrow> resolve fs l (mesh_relative b) = Inr (mesh_place l b)"
  using assms by (simp_all add: request_path_def events_path_def result_path_def output_validation_path_def
      plain_resolve task_paths mesh_paths place_defs)

section \<open>What the runner leaves alone\<close>

definition same_tree :: "task_layout \<Rightarrow> file_system \<Rightarrow> file_system \<Rightarrow> bool" where
  "same_tree l fs0 fs \<longleftrightarrow> fs_real fs = fs_real fs0 \<and> fs_link fs = fs_link fs0 \<and> fs_dir fs = fs_dir fs0 \<and>
     fs_names fs = fs_names fs0 \<and> (\<forall>p. p \<notin> own_places l \<longrightarrow> fs_data fs p = fs_data fs0 p)"

lemma same_tree_write: "same_tree l fs0 fs \<Longrightarrow> p \<in> own_places l \<Longrightarrow> same_tree l fs0 (fs\<lparr>fs_data := (fs_data fs)(p \<mapsto> t)\<rparr>)"
  by (simp add: same_tree_def)

lemma same_tree_plain: "same_tree l fs0 fs \<Longrightarrow> plain_root fs0 l \<Longrightarrow> plain_root fs l"
  by (simp add: same_tree_def plain_root_def)

lemma same_tree_input:
  assumes "same_tree l fs0 fs" "plain_root fs0 l"
  shows "read_file fs (tl_root l @ ''input'' # ps) = read_file fs0 (tl_root l @ ''input'' # ps)"
    and "read_file fs (record_place l ''pipeline-request.json'') = read_file fs0 (record_place l ''pipeline-request.json'')"
proof -
  have "tl_root l @ ''input'' # ps \<notin> own_places l" "record_place l ''pipeline-request.json'' \<notin> own_places l"
    by (auto simp: own_places_def place_defs)
  moreover have "fs_real fs (tl_root l @ qs) = tl_root l @ qs" "fs_real fs0 (tl_root l @ qs) = tl_root l @ qs" for qs
    using assms by (simp_all add: same_tree_def plain_root_def)
  ultimately show "read_file fs (tl_root l @ ''input'' # ps) = read_file fs0 (tl_root l @ ''input'' # ps)"
    "read_file fs (record_place l ''pipeline-request.json'') = read_file fs0 (record_place l ''pipeline-request.json'')"
    using assms(1) by (simp_all add: read_file_def same_tree_def place_defs)
qed

definition input_paths :: "json \<Rightarrow> bool" where
  "input_paths request \<longleftrightarrow>
     item2 ''input'' ''manifest_path'' request = Inr (JString ''input/input-manifest.json'') \<and>
     item2 ''input'' ''images_path'' request = Inr (JString ''input/images'')"

lemma check_images_cong:
  assumes "\<And>n. read_file fs (images @ [n]) = read_file fs0 (images @ [n])" "fs_names fs = fs_names fs0" "fs_link fs = fs_link fs0"
  shows "check_images cs fs images request ms = check_images cs fs0 images request ms"
proof -
  have "check_image cs fs images ms = check_image cs fs0 images ms"
    by (rule ext) (simp add: check_image_def file_size_def sha256_file_def assms(1) split: option.split)
  then show ?thesis by (simp add: check_images_def assms is_file_def file_size_def)
qed

lemma same_tree_validate:
  assumes "same_tree l fs0 fs" "plain_root fs0 l" "input_paths request"
  shows "validate_task_input cs fs l request = validate_task_input cs fs0 l request"
proof -
  note read = same_tree_input [OF assms(1,2)]
  have images: "check_images cs fs (tl_root l @ [''input'', ''images'']) = check_images cs fs0 (tl_root l @ [''input'', ''images''])"
    by (intro ext check_images_cong) (use read(1) [of "[''images'', _]"] assms(1) in \<open>simp_all add: same_tree_def\<close>)
  have dirs: "is_dir fs p = is_dir fs0 p" for p using assms(1) by (simp add: is_dir_def same_tree_def)
  show ?thesis
    using assms(3) same_tree_plain [OF assms(1,2)] assms(2)
    by (simp add: validate_task_input_def input_paths_def text_of_def plain_resolve task_paths is_file_def read dirs
        sha256_file_def images cong: option.case_cong)
qed

lemma same_tree_directories:
  assumes "same_tree l fs0 fs" "plain_root fs0 l"
  shows "ensure_worker_directories fs l = ensure_worker_directories fs0 l"
proof -
  have files: "list_ex (is_file fs) (prefixes (tl_root l @ qs)) = list_ex (is_file fs0) (prefixes (tl_root l @ qs))"
    if qs: "qs \<in> {[''runtime'', ''work''], [''runtime'', ''logs''], [''output''], [''reports''], [''manifests'']}" for qs
  proof -
    have "is_file fs p = is_file fs0 p" if p: "prefix p (tl_root l @ qs)" for p
    proof -
      have "p \<notin> own_places l"
      proof
        assume "p \<in> own_places l"
        then consider b x where "p = tl_root l @ [''output'', b, x]" | n where "p = tl_root l @ [''manifests'', n]"
          by (auto simp: own_places_def place_defs)
        then show False using p qs by cases auto
      qed
      moreover have "fs_real fs0 p = p"
        using p assms(2) by (auto simp: plain_root_def prefix_append)
      ultimately show ?thesis using assms(1) by (simp add: is_file_def read_file_def same_tree_def)
    qed
    then show ?thesis by (auto simp: list_ex_iff)
  qed
  show ?thesis
    using same_tree_plain [OF assms] assms(2)
    by (simp add: ensure_worker_directories_def worker_directories_def plain_resolve directory_paths files del: prefixes_snoc prefixes_append)
qed

section \<open>What a run may rely on\<close>

text \<open>Every event that the runner appends: its type and its payload.\<close>

definition shared_calls :: "codecs \<Rightarrow> json \<Rightarrow> (string \<times> (string \<times> json) list) set" where
  "shared_calls cs image_count = (\<Union>(stage, text, metrics) \<in> set (shared_stages cs image_count).
     {(''stage_started'', stage_payload stage ''shared'' [] ''STAGE_STARTED'' text),
      (''stage_progress'', stage_payload stage ''shared'' [percent [], (''metrics'', metrics)] ''STAGE_PROGRESS'' text),
      (''stage_completed'', stage_payload stage ''shared'' [] ''STAGE_COMPLETED'' text)})"

definition artifact_payload :: "codecs \<Rightarrow> codec \<Rightarrow> string \<Rightarrow> string \<Rightarrow> (string \<times> json) list" where
  "artifact_payload cs cd stage b = stage_payload stage b
     [(''artifact'', glb_artifact (mesh_relative b) (cs_sha256 cs (minimal_glb cd)) (int (length (minimal_glb cd))))]
     ''ARTIFACT_CREATED'' (cs_zh cs (b @ ''.simulation.archived''))"

definition branch_calls :: "codecs \<Rightarrow> codec \<Rightarrow> string \<Rightarrow> string \<Rightarrow> (string \<times> (string \<times> json) list) set" where
  "branch_calls cs cd stage b =
     {(''stage_started'', stage_payload stage b [] ''STAGE_STARTED'' (cs_zh cs (b @ ''.simulation.started''))),
      (''stage_progress'', stage_payload stage b
         [percent [(''completed_units'', JInt 1), (''total_units'', JInt 1)], (''metrics'', JObject [(''simulation'', JBool True)])]
         ''STAGE_PROGRESS'' (cs_zh cs (b @ ''.simulation.progress''))),
      (''artifact_created'', artifact_payload cs cd stage b),
      (''stage_completed'', stage_payload stage b [] ''STAGE_COMPLETED'' (cs_zh cs (b @ ''.simulation.completed'')))}"

definition sim_calls :: "codecs \<Rightarrow> codec \<Rightarrow> json \<Rightarrow> (string \<times> (string \<times> json) list) set" where
  "sim_calls cs cd image_count =
     {(''warning'', message ''WORKER_RESUMED'' (cs_zh cs ''simulation.resumed'')),
      (''job_started'', message ''JOB_STARTED'' (cs_zh cs ''simulation.started'')),
      (''job_succeeded'', percent [] # message ''JOB_SUCCEEDED'' (cs_zh cs ''simulation.succeeded'')),
      (''job_succeeded'', percent [] # message ''JOB_SUCCEEDED'' (cs_zh cs ''simulation.recovered''))} \<union>
     shared_calls cs image_count \<union>
     (\<Union>b \<in> set task_branches. \<Union>stage \<in> {s. branch_stage b = Inr s}. branch_calls cs cd stage b)"

text \<open>The event contract and the codec accept these events of a job and attempt, whoever appends them when.\<close>

definition events_accepted :: "codecs \<Rightarrow> codec \<Rightarrow> json \<Rightarrow> string \<Rightarrow> int \<Rightarrow> string \<Rightarrow> chances \<Rightarrow> bool" where
  "events_accepted cs cd image_count job attempt worker ch \<longleftrightarrow>
     (\<forall>(t, p) \<in> sim_calls cs cd image_count. \<forall>n j. jn_job_id j = job \<longrightarrow> jn_attempt j = attempt \<longrightarrow> jn_worker_id j = worker \<longrightarrow>
        cd_valid_event cd (event_object j t p (ch_uuid ch n) (ch_now ch n)) \<and>
        codec_keeps cd (event_object j t p (ch_uuid ch n) (ch_now ch n)))"

text \<open>No write fails, and the clock's texts can be read back.\<close>

definition calm :: "(string \<Rightarrow> int option) \<Rightarrow> chances \<Rightarrow> bool" where
  "calm read_time ch \<longleftrightarrow>
     (\<forall>n. ch_torn ch n = None \<and> \<not> ch_failed ch n \<and> read_time (replace_z (ch_now ch n)) \<noteq> None)"

section \<open>Consistent files\<close>

definition artifact_events :: "string \<Rightarrow> json list \<Rightarrow> json list" where
  "artifact_events b es = filter (\<lambda>e. json_field ''type'' e = Some (JString ''artifact_created'') \<and>
     json_field ''branch'' e = Some (JString b)) es"

text \<open>
  A branch is untouched, or its file is the one its only artifact event records, or its file is there and no
  event records it.
\<close>

definition branch_recorded :: "codecs \<Rightarrow> task_layout \<Rightarrow> file_system \<Rightarrow> json list \<Rightarrow> string \<Rightarrow> bool" where
  "branch_recorded cs l fs es b \<longleftrightarrow>
     (\<exists>e x a. artifact_events b es = [e] \<and> fs_data fs (mesh_place l b) = Some x \<and> x \<noteq> [] \<and> json_field ''artifact'' e = Some a \<and>
        json_field ''path'' a = Some (JString (mesh_relative b)) \<and> json_field ''sha256'' a = Some (JString (cs_sha256 cs x)))"

definition branch_untouched :: "task_layout \<Rightarrow> file_system \<Rightarrow> json list \<Rightarrow> string \<Rightarrow> bool" where
  "branch_untouched l fs es b \<longleftrightarrow> artifact_events b es = [] \<and> fs_data fs (mesh_place l b) = None"

definition branch_untracked :: "task_layout \<Rightarrow> file_system \<Rightarrow> json list \<Rightarrow> string \<Rightarrow> bool" where
  "branch_untracked l fs es b \<longleftrightarrow> artifact_events b es = [] \<and> (\<exists>x. fs_data fs (mesh_place l b) = Some x \<and> x \<noteq> [])"

text \<open>The branches of \<open>B\<close> are in order, the others of the task are not tracked.\<close>

definition branch_state :: "codecs \<Rightarrow> task_layout \<Rightarrow> file_system \<Rightarrow> json list \<Rightarrow> string set \<Rightarrow> string \<Rightarrow> bool" where
  "branch_state cs l fs es B b \<longleftrightarrow>
     (if b \<in> B then branch_untouched l fs es b \<or> branch_recorded cs l fs es b else branch_untracked l fs es b)"

lemma branch_state_cong:
  assumes "fs_data fs' (mesh_place l b) = fs_data fs (mesh_place l b)" "artifact_events b es' = artifact_events b es"
  shows "branch_state cs l fs' es' B b = branch_state cs l fs es B b"
  using assms by (simp add: branch_state_def branch_untouched_def branch_recorded_def branch_untracked_def)

definition readable_start :: "(string \<Rightarrow> int option) \<Rightarrow> json list \<Rightarrow> bool" where
  "readable_start read_time es \<longleftrightarrow>
     (es \<noteq> [] \<longrightarrow> (\<exists>s. json_field ''occurred_at'' (hd es) = Some (JString s) \<and> read_time (replace_z s) \<noteq> None))"

text \<open>The journal of the task is well-formed and open.\<close>

definition journal_open ::
  "codec \<Rightarrow> (string \<Rightarrow> int option) \<Rightarrow> task_layout \<Rightarrow> string \<Rightarrow> int \<Rightarrow> file_system \<Rightarrow> json list \<Rightarrow> bool" where
  "journal_open cd read_time l job attempt fs es \<longleftrightarrow>
     events_ok cd job attempt es \<and> (\<forall>e \<in> set es. \<not> is_terminal_event e) \<and> readable_start read_time es \<and>
     (case fs_data fs (record_place l ''pipeline-events.jsonl'') of None \<Rightarrow> es = [] | Some t \<Rightarrow> t = journal_text cd es)"

text \<open>
  A world of a run: the journal is open and its file agrees with it; there is no result yet, and the
  branches of \<open>B\<close> are untouched or recorded, which is what a later run needs of all branches, the others
  have a file that no event records.
\<close>

record sim_env =
  se_setup :: sim_setup
  se_files :: file_system
  se_job :: string
  se_attempt :: int
  se_worker :: string
  se_images :: json

definition env_ok :: "sim_env \<Rightarrow> bool" where
  "env_ok se \<longleftrightarrow> (let st = se_setup se; l = st_layout st in
     plain_root (se_files se) l \<and> (\<forall>p \<in> own_places l. \<not> fs_dir (se_files se) p) \<and>
     st_journal st = record_place l ''pipeline-events.jsonl'' \<and> calm (st_read_time st) (st_chances st) \<and>
     events_accepted (st_codecs st) (st_events st) (se_images se) (se_job se) (se_attempt se) (se_worker se) (st_chances st))"

definition sim_base :: "sim_env \<Rightarrow> sim_world \<Rightarrow> bool" where
  "sim_base se w \<longleftrightarrow> (let st = se_setup se; l = st_layout st; j = sw_journal w; fs = sw_files w in
     same_tree l (se_files se) fs \<and>
     jn_job_id j = se_job se \<and> jn_attempt j = se_attempt se \<and> jn_worker_id j = se_worker se \<and>
     journal_open (st_events st) (st_read_time st) l (se_job se) (se_attempt se) fs (jn_events j))"

definition sim_good :: "sim_env \<Rightarrow> string set \<Rightarrow> sim_world \<Rightarrow> bool" where
  "sim_good se B w \<longleftrightarrow> (let st = se_setup se; l = st_layout st; j = sw_journal w; fs = sw_files w in
     sim_base se w \<and> fs_data fs (record_place l ''pipeline-result.json'') = None \<and>
     (\<forall>b \<in> set task_branches. branch_state (st_codecs st) l fs (jn_events j) B b))"

text \<open>What a later world keeps of an earlier one: its events and the files of its branches.\<close>

definition grows :: "sim_env \<Rightarrow> sim_world \<Rightarrow> sim_world \<Rightarrow> bool" where
  "grows se w w' \<longleftrightarrow> prefix (jn_events (sw_journal w)) (jn_events (sw_journal w')) \<and>
     (\<forall>b \<in> set task_branches. fs_data (sw_files w) (mesh_place (st_layout (se_setup se)) b) \<noteq> None \<longrightarrow>
        fs_data (sw_files w') (mesh_place (st_layout (se_setup se)) b) =
        fs_data (sw_files w) (mesh_place (st_layout (se_setup se)) b))"

lemma good_base: "sim_good se B w \<Longrightarrow> sim_base se w"
  by (simp add: sim_good_def Let_def)

lemma grows_refl [simp]: "grows se w w"
  by (simp add: grows_def)

lemma grows_trans: "grows se w1 w2 \<Longrightarrow> grows se w2 w3 \<Longrightarrow> grows se w1 w3"
  by (auto simp: grows_def intro: prefix_order.trans)

text \<open>A step that succeeds and leaves a good world that grew.\<close>

definition step_ok :: "sim_env \<Rightarrow> string set \<Rightarrow> sim_world \<Rightarrow> (adapter_error, unit, sim_world) outcome \<Rightarrow> bool" where
  "step_ok se B w m \<longleftrightarrow> (\<exists>w'. m = (Inr (), w') \<and> sim_good se B w' \<and> grows se w w')"

lemma step_ok_then:
  assumes "step_ok se B w m" "\<And>w'. sim_good se B w' \<Longrightarrow> grows se w w' \<Longrightarrow> step_ok se B w (f w')"
  shows "step_ok se B w (followed_by m (\<lambda>_. f))"
  using assms by (auto simp: step_ok_def)

lemma step_ok_grows: "grows se w w' \<Longrightarrow> step_ok se B w' m \<Longrightarrow> step_ok se B w m"
  unfolding step_ok_def by (blast intro: grows_trans)

lemma step_ok_each:
  assumes "\<And>x w. x \<in> set xs \<Longrightarrow> sim_good se B w \<Longrightarrow> step_ok se B w (f x w)" "sim_good se B w"
  shows "step_ok se B w (each_step f xs w)"
  using assms
proof (induction xs arbitrary: w)
  case Nil
  then show ?case by (simp add: step_ok_def)
next
  case (Cons x xs)
  show ?case
    by (simp, rule step_ok_then [where f = "each_step f xs"], rule Cons.prems(1))
      (use Cons in \<open>auto intro: step_ok_grows\<close>)
qed

section \<open>Single steps\<close>

lemma artifact_events_append:
  "artifact_events b (es @ [event_object j t p i at']) =
     artifact_events b es @ (if t = ''artifact_created'' \<and> map_of p ''branch'' = Some (JString b)
       then [event_object j t p i at'] else [])"
  by (auto simp: artifact_events_def event_object_fields) (simp_all add: event_object_def json_field_def)

lemma journal_text_append: "journal_text cd (es @ [e]) = journal_text cd es @ journal_line cd e"
  by (simp add: journal_text_def)

lemma events_place_neq [simp]:
  "mesh_place l b \<noteq> record_place l n" "record_place l n \<noteq> mesh_place l b"
  "manifest_place l b \<noteq> record_place l n" "record_place l n \<noteq> manifest_place l b"
  "manifest_place l b \<noteq> mesh_place l c" "mesh_place l b \<noteq> manifest_place l c"
  "record_place l n = record_place l m \<longleftrightarrow> n = m" "mesh_place l b = mesh_place l c \<longleftrightarrow> b = c"
  by (auto simp: place_defs)

lemma own_places_in:
  "b \<in> set task_branches \<Longrightarrow> mesh_place l b \<in> own_places l" "b \<in> set task_branches \<Longrightarrow> manifest_place l b \<in> own_places l"
  "record_place l ''pipeline-events.jsonl'' \<in> own_places l" "record_place l ''pipeline-result.json'' \<in> own_places l"
  "record_place l ''output-validation.json'' \<in> own_places l"
  by (auto simp: own_places_def)

text \<open>The world after an event that is accepted.\<close>

definition appended :: "sim_setup \<Rightarrow> string \<Rightarrow> (string \<times> json) list \<Rightarrow> sim_world \<Rightarrow> sim_world" where
  "appended st t p w =
     (let e = event_object (sw_journal w) t p (ch_uuid (st_chances st) (sw_tick w)) (ch_now (st_chances st) (sw_tick w));
          es = jn_events (sw_journal w) @ [e]
      in w\<lparr>sw_journal := (sw_journal w)\<lparr>jn_events := es\<rparr>, sw_tick := sw_tick w + 1,
           sw_files := (sw_files w)\<lparr>fs_data := (fs_data (sw_files w))(st_journal st \<mapsto> journal_text (st_events st) es)\<rparr>\<rparr>)"

lemma sim_append_accepted:
  assumes env: "env_ok se" and good: "sim_base se w"
    and call: "(t, p) \<in> sim_calls (st_codecs (se_setup se)) (st_events (se_setup se)) (se_images se)"
  shows "sim_append (se_setup se) t p w = (Inr (), appended (se_setup se) t p w)"
proof -
  let ?st = "se_setup se" and ?n = "sw_tick w"
  let ?e = "event_object (sw_journal w) t p (ch_uuid (st_chances ?st) ?n) (ch_now (st_chances ?st) ?n)"
  have valid: "cd_valid_event (st_events ?st) ?e"
    using env good call by (fastforce simp: env_ok_def sim_base_def Let_def events_accepted_def)
  have torn: "ch_torn (st_chances ?st) ?n = None" using env by (simp add: env_ok_def Let_def calm_def)
  have terminal: "\<not> has_terminal_event (sw_journal w)"
    using good by (auto simp: sim_base_def Let_def journal_open_def has_terminal_event_def)
  have place: "st_journal ?st = record_place (st_layout ?st) ''pipeline-events.jsonl''" using env by (simp add: env_ok_def Let_def)
  have real: "fs_real (sw_files w) (st_journal ?st) = st_journal ?st"
    using env good by (simp add: env_ok_def sim_base_def Let_def same_tree_def plain_root_def place place_defs)
  have disk: "(case read_file (sw_files w) (st_journal ?st) of None \<Rightarrow> [] | Some t \<Rightarrow> t) = journal_text (st_events ?st) (jn_events (sw_journal w))"
  proof -
    have "read_file (sw_files w) (st_journal ?st) = fs_data (sw_files w) (record_place (st_layout ?st) ''pipeline-events.jsonl'')"
      by (simp add: read_file_def real [unfolded place] place)
    then show ?thesis using good by (auto simp: sim_base_def Let_def journal_open_def journal_text_def split: option.splits)
  qed
  have "append_event (st_events ?st) t p (ch_uuid (st_chances ?st) ?n) (ch_now (st_chances ?st) ?n) None
      (sw_journal w, read_file (sw_files w) (st_journal ?st)) =
    (Inr ?e, (sw_journal w)\<lparr>jn_events := jn_events (sw_journal w) @ [?e]\<rparr>,
     Some (journal_text (st_events ?st) (jn_events (sw_journal w) @ [?e])))"
    using valid terminal disk by (simp add: append_event_def Let_def journal_text_append)
  then show ?thesis by (simp add: sim_append_def Let_def torn appended_def)
qed

lemma appended_keeps [simp]:
  "sw_tick (appended st t p w) = sw_tick w + 1" "fs_real (sw_files (appended st t p w)) = fs_real (sw_files w)"
  "jn_events (sw_journal (appended st t p w)) = jn_events (sw_journal w) @
     [event_object (sw_journal w) t p (ch_uuid (st_chances st) (sw_tick w)) (ch_now (st_chances st) (sw_tick w))]"
  by (simp_all add: appended_def Let_def)

lemma event_occurred: "json_field ''occurred_at'' (event_object j t p i s) = Some (JString s)"
  by (simp add: event_object_def json_field_def)

lemma appended_journal_open:
  assumes env: "env_ok se" and good: "sim_base se w" and t: "t \<notin> terminal_event_types"
    and call: "(t, p) \<in> sim_calls (st_codecs (se_setup se)) (st_events (se_setup se)) (se_images se)"
  shows "journal_open (st_events (se_setup se)) (st_read_time (se_setup se)) (st_layout (se_setup se)) (se_job se) (se_attempt se)
    (sw_files (appended (se_setup se) t p w)) (jn_events (sw_journal (appended (se_setup se) t p w)))"
proof -
  let ?st = "se_setup se" and ?n = "sw_tick w"
  let ?e = "event_object (sw_journal w) t p (ch_uuid (st_chances ?st) ?n) (ch_now (st_chances ?st) ?n)"
  let ?es = "jn_events (sw_journal w)"
  have open_w: "journal_open (st_events ?st) (st_read_time ?st) (st_layout ?st) (se_job se) (se_attempt se) (sw_files w) ?es"
    and ids: "jn_job_id (sw_journal w) = se_job se" "jn_attempt (sw_journal w) = se_attempt se" "jn_worker_id (sw_journal w) = se_worker se"
    using good by (simp_all add: sim_base_def Let_def)
  have place: "st_journal ?st = record_place (st_layout ?st) ''pipeline-events.jsonl''" using env by (simp add: env_ok_def Let_def)
  have "cd_valid_event (st_events ?st) ?e \<and> codec_keeps (st_events ?st) ?e"
    using env ids call by (fastforce simp: env_ok_def Let_def events_accepted_def)
  then have "event_ok (st_events ?st) (se_job se) (se_attempt se) (length ?es) ?e"
    by (simp add: event_ok_def event_object_fields next_event_sequence_def ids)
  moreover have "?es = [] \<or> \<not> is_terminal_event (last ?es)"
    using open_w by (auto simp: journal_open_def)
  ultimately have ok: "events_ok (st_events ?st) (se_job se) (se_attempt se) (?es @ [?e])"
    using append_events_ok open_w unfolding journal_open_def by blast
  have calm: "st_read_time ?st (replace_z (ch_now (st_chances ?st) ?n)) \<noteq> None" using env by (simp add: env_ok_def Let_def calm_def)
  have start: "readable_start (st_read_time ?st) (?es @ [?e])"
    using open_w calm by (cases ?es) (auto simp: journal_open_def readable_start_def event_occurred)
  have "\<not> is_terminal_event ?e" using t by (simp add: is_terminal_event_def event_object_fields)
  with open_w ok start show ?thesis
    by (auto simp: journal_open_def appended_def Let_def place)
qed

text \<open>An event that ends no task and records no artifact.\<close>

lemma append_plain:
  assumes env: "env_ok se" and good: "sim_good se B w"
    and call: "(t, p) \<in> sim_calls (st_codecs (se_setup se)) (st_events (se_setup se)) (se_images se)"
    and t: "t \<notin> terminal_event_types" "t \<noteq> ''artifact_created''"
  shows "step_ok se B w (sim_append (se_setup se) t p w)"
proof -
  let ?st = "se_setup se" and ?w = "appended (se_setup se) t p w"
  have place: "st_journal ?st = record_place (st_layout ?st) ''pipeline-events.jsonl''" using env by (simp add: env_ok_def Let_def)
  have data: "fs_data (sw_files ?w) (mesh_place (st_layout ?st) b) = fs_data (sw_files w) (mesh_place (st_layout ?st) b)" for b
    by (simp add: appended_def Let_def place)
  have events: "artifact_events b (jn_events (sw_journal ?w)) = artifact_events b (jn_events (sw_journal w))" for b
    using t(2) by (simp add: artifact_events_append)
  have result: "fs_data (sw_files ?w) (record_place (st_layout ?st) ''pipeline-result.json'') = None"
    using good by (simp add: sim_good_def Let_def appended_def place)
  have tree: "same_tree (st_layout ?st) (se_files se) (sw_files ?w)"
    using good by (simp add: sim_good_def sim_base_def Let_def appended_def place same_tree_write own_places_in)
  have ids: "jn_job_id (sw_journal ?w) = se_job se" "jn_attempt (sw_journal ?w) = se_attempt se" "jn_worker_id (sw_journal ?w) = se_worker se"
    using good by (simp_all add: sim_good_def sim_base_def Let_def appended_def)
  have "sim_good se B ?w"
    using good appended_journal_open [OF env good_base [OF good] t(1) call] tree ids result
    by (simp add: sim_good_def sim_base_def Let_def branch_state_cong [OF data events] del: appended_keeps)
  moreover have "grows se w ?w" by (simp add: grows_def data)
  ultimately show ?thesis by (simp add: step_ok_def sim_append_accepted [OF env good_base [OF good] call])
qed

section \<open>Stages\<close>

lemma sim_calls_stage:
  assumes "b \<in> set task_branches" "branch_stage b = Inr stage"
  shows "branch_calls cs cd stage b \<subseteq> sim_calls cs cd image_count"
  using assms by (auto simp: sim_calls_def)

lemma not_terminal_types:
  "''stage_started'' \<notin> terminal_event_types" "''stage_progress'' \<notin> terminal_event_types"
  "''stage_completed'' \<notin> terminal_event_types" "''artifact_created'' \<notin> terminal_event_types"
  "''warning'' \<notin> terminal_event_types" "''job_started'' \<notin> terminal_event_types"
  by (simp_all add: terminal_event_types_def)

lemma first_event_ok:
  assumes "env_ok se" "sim_good se B w" shows "step_ok se B w (first_event (se_setup se) w)"
  using append_plain [OF assms] by (simp add: first_event_def sim_calls_def not_terminal_types)

lemma shared_calls_in:
  assumes "(stage, words, metrics) \<in> set (shared_stages cs image_count)"
  shows "{(''stage_started'', stage_payload stage ''shared'' [] ''STAGE_STARTED'' words),
      (''stage_progress'', stage_payload stage ''shared'' [percent [], (''metrics'', metrics)] ''STAGE_PROGRESS'' words),
      (''stage_completed'', stage_payload stage ''shared'' [] ''STAGE_COMPLETED'' words)} \<subseteq> sim_calls cs cd image_count"
    (is "?calls \<subseteq> _")
proof -
  have "?calls \<subseteq> shared_calls cs image_count"
    unfolding shared_calls_def by (rule subset_trans [OF _ UN_upper [OF assms]]) simp
  then show ?thesis unfolding sim_calls_def by (rule order_trans) (intro Un_upper2 le_supI1 order_refl)
qed

lemma shared_stage_ok:
  assumes env: "env_ok se" and x: "x \<in> set (shared_stages (st_codecs (se_setup se)) (se_images se))" and w: "sim_good se B w"
  shows "step_ok se B w (run_shared_stage (se_setup se) x w)"
proof -
  obtain stage words metrics where t: "x = (stage, words, metrics)" by (cases x)
  let ?calls = "{(''stage_started'', stage_payload stage ''shared'' [] ''STAGE_STARTED'' words),
      (''stage_progress'', stage_payload stage ''shared'' [percent [], (''metrics'', metrics)] ''STAGE_PROGRESS'' words),
      (''stage_completed'', stage_payload stage ''shared'' [] ''STAGE_COMPLETED'' words)}"
  have calls: "c \<in> ?calls \<Longrightarrow> c \<in> sim_calls (st_codecs (se_setup se)) (st_events (se_setup se)) (se_images se)" for c
    using shared_calls_in [OF x [unfolded t]] by blast
  have plain: "step_ok se B w' (sim_append (se_setup se) t p w')"
    if "(t, p) \<in> ?calls" "t \<in> {''stage_started'', ''stage_progress'', ''stage_completed''}" "sim_good se B w'" for t p w'
  proof (rule append_plain [OF env that(3) calls [OF that(1)]])
    show "t \<notin> terminal_event_types" using that(2) not_terminal_types by blast
    show "t \<noteq> ''artifact_created''" using that(2) by fastforce
  qed
  show ?thesis
  proof (cases "has_completed_stage stage (sw_journal w)")
    case True
    with w show ?thesis by (simp add: run_shared_stage_def t step_ok_def)
  next
    case False
    have "step_ok se B w (followed_by (sim_append (se_setup se) ''stage_started'' (stage_payload stage ''shared'' [] ''STAGE_STARTED'' words) w) (\<lambda>_ w.
          followed_by (sim_append (se_setup se) ''stage_progress''
            (stage_payload stage ''shared'' [percent [], (''metrics'', metrics)] ''STAGE_PROGRESS'' words) w) (\<lambda>_ w.
          sim_append (se_setup se) ''stage_completed'' (stage_payload stage ''shared'' [] ''STAGE_COMPLETED'' words) w)))"
      by (intro step_ok_then plain [OF _ _ w] step_ok_grows [OF _ plain] step_ok_grows [OF grows_trans plain]) simp_all
    with False show ?thesis by (simp add: run_shared_stage_def t)
  qed
qed

lemma shared_stages_ok:
  assumes env: "env_ok se" and good: "sim_good se B w"
  shows "step_ok se B w (run_shared_stages (se_setup se) (se_images se) w)"
  unfolding run_shared_stages_def by (rule step_ok_each [OF shared_stage_ok [OF env] good])

definition after_write :: "path \<Rightarrow> string \<Rightarrow> sim_world \<Rightarrow> sim_world" where
  "after_write p t w = w\<lparr>sw_files := (sw_files w)\<lparr>fs_data := (fs_data (sw_files w))(p \<mapsto> t)\<rparr>, sw_tick := sw_tick w + 1\<rparr>"

lemma after_write_keeps [simp]:
  "sw_journal (after_write p t w) = sw_journal w" "fs_real (sw_files (after_write p t w)) = fs_real (sw_files w)"
  "fs_data (sw_files (after_write p t w)) = (fs_data (sw_files w))(p \<mapsto> t)"
  by (simp_all add: after_write_def)

lemma sim_write_calm: "env_ok se \<Longrightarrow> sim_write (se_setup se) p t w = (Inr (), after_write p t w)"
  by (simp add: env_ok_def Let_def calm_def sim_write_def atomic_write_def after_write_def)

lemma after_write_good:
  assumes good: "sim_good se B w" and p: "p \<in> own_places (st_layout (se_setup se))"
    "p \<noteq> record_place (st_layout (se_setup se)) ''pipeline-events.jsonl''"
    "p \<noteq> record_place (st_layout (se_setup se)) ''pipeline-result.json''"
    "\<forall>b \<in> set task_branches. p \<noteq> mesh_place (st_layout (se_setup se)) b"
  shows "sim_good se B (after_write p t w)"
proof -
  have "same_tree (st_layout (se_setup se)) (se_files se) (sw_files (after_write p t w))"
    using good p(1) by (simp add: sim_good_def sim_base_def Let_def after_write_def same_tree_write)
  moreover have "branch_state cs (st_layout (se_setup se)) (sw_files (after_write p t w)) es B b =
      branch_state cs (st_layout (se_setup se)) (sw_files w) es B b" if "b \<in> set task_branches" for cs es b
    by (rule branch_state_cong) (use p(4) that in auto)
  ultimately show ?thesis
    using good p(2,3) by (simp add: sim_good_def sim_base_def Let_def journal_open_def)
qed

text \<open>The file of an untouched branch makes it untracked.\<close>

lemma after_mesh_good:
  assumes good: "sim_good se B w" and b: "b \<in> set task_branches" and t: "t \<noteq> []"
    and none: "artifact_events b (jn_events (sw_journal w)) = []"
  shows "sim_good se (B - {b}) (after_write (mesh_place (st_layout (se_setup se)) b) t w)"
proof -
  have "same_tree (st_layout (se_setup se)) (se_files se) (sw_files (after_write (mesh_place (st_layout (se_setup se)) b) t w))"
    using good own_places_in(1) [OF b] by (simp add: sim_good_def sim_base_def Let_def after_write_def same_tree_write)
  moreover have "branch_state (st_codecs (se_setup se)) (st_layout (se_setup se))
      (sw_files (after_write (mesh_place (st_layout (se_setup se)) b) t w)) (jn_events (sw_journal w)) (B - {b}) c"
    if c: "c \<in> set task_branches" for c
  proof (cases "c = b")
    case True
    with t none show ?thesis by (simp add: branch_state_def branch_untracked_def)
  next
    case False
    have "branch_state (st_codecs (se_setup se)) (st_layout (se_setup se)) (sw_files w) (jn_events (sw_journal w)) B c"
      using good c by (simp add: sim_good_def Let_def)
    moreover have "fs_data (sw_files (after_write (mesh_place (st_layout (se_setup se)) b) t w)) (mesh_place (st_layout (se_setup se)) c) =
        fs_data (sw_files w) (mesh_place (st_layout (se_setup se)) c)" using False by simp
    ultimately have "branch_state (st_codecs (se_setup se)) (st_layout (se_setup se))
        (sw_files (after_write (mesh_place (st_layout (se_setup se)) b) t w)) (jn_events (sw_journal w)) B c"
      using branch_state_cong by blast
    with False show ?thesis by (simp add: branch_state_def)
  qed
  ultimately show ?thesis
    using good by (simp add: sim_good_def sim_base_def Let_def journal_open_def)
qed

lemma good_real: "env_ok se \<Longrightarrow> sim_good se B w \<Longrightarrow>
    fs_real (sw_files w) (tl_root (st_layout (se_setup se)) @ ps) = tl_root (st_layout (se_setup se)) @ ps"
  by (simp add: env_ok_def sim_good_def sim_base_def Let_def same_tree_def plain_root_def)

lemma read_mesh: "env_ok se \<Longrightarrow> sim_good se B w \<Longrightarrow>
    read_file (sw_files w) (mesh_place (st_layout (se_setup se)) b) = fs_data (sw_files w) (mesh_place (st_layout (se_setup se)) b)"
  using good_real [of se B w "[''output'', b, ''mesh.glb'']"] by (simp add: read_file_def mesh_place_def)

lemma minimal_glb_nonempty: "minimal_glb cd \<noteq> []"
  by (simp add: minimal_glb_def Let_def)

text \<open>The event that records the file of a branch makes the branch recorded.\<close>

lemma append_artifact:
  assumes env: "env_ok se" and good: "sim_good se (B - {b}) w" and b: "b \<in> set task_branches" "branch_stage b = Inr stage" and B: "b \<in> B"
    and none: "artifact_events b (jn_events (sw_journal w)) = []"
    and mesh: "fs_data (sw_files w) (mesh_place (st_layout (se_setup se)) b) = Some (minimal_glb (st_events (se_setup se)))"
  shows "step_ok se B w (sim_append (se_setup se) ''artifact_created''
    (artifact_payload (st_codecs (se_setup se)) (st_events (se_setup se)) stage b) w)"
proof -
  let ?st = "se_setup se" let ?p = "artifact_payload (st_codecs ?st) (st_events ?st) stage b"
  let ?w = "appended ?st ''artifact_created'' ?p w"
  have call: "(''artifact_created'', ?p) \<in> sim_calls (st_codecs ?st) (st_events ?st) (se_images se)"
    using sim_calls_stage [OF b] by (auto simp: branch_calls_def)
  have place: "st_journal ?st = record_place (st_layout ?st) ''pipeline-events.jsonl''" using env by (simp add: env_ok_def Let_def)
  have data: "fs_data (sw_files ?w) (mesh_place (st_layout ?st) c) = fs_data (sw_files w) (mesh_place (st_layout ?st) c)" for c
    by (simp add: appended_def Let_def place)
  have fields: "map_of ?p ''branch'' = Some (JString b)" "map_of ?p ''artifact'' = Some (glb_artifact (mesh_relative b)
      (cs_sha256 (st_codecs ?st) (minimal_glb (st_events ?st))) (int (length (minimal_glb (st_events ?st)))))"
    by (simp_all add: artifact_payload_def stage_payload_def)
  have events: "artifact_events c (jn_events (sw_journal ?w)) = artifact_events c (jn_events (sw_journal w))" if "c \<noteq> b" for c
    using that by (simp add: artifact_events_append fields)
  define e where "e = event_object (sw_journal w) ''artifact_created'' ?p (ch_uuid (st_chances ?st) (sw_tick w)) (ch_now (st_chances ?st) (sw_tick w))"
  have e: "json_field ''artifact'' e = map_of ?p ''artifact''" by (simp add: e_def event_object_def json_field_def)
  have "artifact_events b (jn_events (sw_journal ?w)) = [e]" by (simp add: artifact_events_append fields none e_def)
  then have recorded: "branch_recorded (st_codecs ?st) (st_layout ?st) (sw_files ?w) (jn_events (sw_journal ?w)) b"
    using mesh minimal_glb_nonempty by (simp add: branch_recorded_def data e fields) (simp add: glb_artifact_def json_field_def)
  have result: "fs_data (sw_files ?w) (record_place (st_layout ?st) ''pipeline-result.json'') = None"
    using good by (simp add: sim_good_def Let_def appended_def place)
  have tree: "same_tree (st_layout ?st) (se_files se) (sw_files ?w)"
    using good by (simp add: sim_good_def sim_base_def Let_def appended_def place same_tree_write own_places_in)
  have ids: "jn_job_id (sw_journal ?w) = se_job se" "jn_attempt (sw_journal ?w) = se_attempt se" "jn_worker_id (sw_journal ?w) = se_worker se"
    using good by (simp_all add: sim_good_def sim_base_def Let_def appended_def)
  have "branch_state (st_codecs ?st) (st_layout ?st) (sw_files ?w) (jn_events (sw_journal ?w)) B c" if "c \<in> set task_branches" for c
  proof (cases "c = b")
    case False
    have "branch_state (st_codecs ?st) (st_layout ?st) (sw_files w) (jn_events (sw_journal w)) (B - {b}) c"
      using good that by (simp add: sim_good_def Let_def)
    with False show ?thesis
      unfolding branch_state_cong [OF data events [OF False]] by (simp add: branch_state_def)
  qed (use recorded B in \<open>simp add: branch_state_def del: appended_keeps\<close>)
  then have "sim_good se B ?w"
    using appended_journal_open [OF env good_base [OF good] not_terminal_types(4) call] tree ids result
    by (simp add: sim_good_def sim_base_def Let_def del: appended_keeps)
  moreover have "grows se w ?w" by (simp add: grows_def data)
  ultimately show ?thesis by (simp add: step_ok_def sim_append_accepted [OF env good_base [OF good] call])
qed

lemma appended_untouched:
  assumes "env_ok se" "t \<noteq> ''artifact_created''"
  shows "branch_untouched (st_layout (se_setup se)) (sw_files (appended (se_setup se) t p w)) (jn_events (sw_journal (appended (se_setup se) t p w))) b
    \<longleftrightarrow> branch_untouched (st_layout (se_setup se)) (sw_files w) (jn_events (sw_journal w)) b"
proof -
  have place: "st_journal (se_setup se) = record_place (st_layout (se_setup se)) ''pipeline-events.jsonl''"
    using assms(1) by (simp add: env_ok_def Let_def)
  then have "fs_data (sw_files (appended (se_setup se) t p w)) (mesh_place (st_layout (se_setup se)) b) =
      fs_data (sw_files w) (mesh_place (st_layout (se_setup se)) b)" by (simp add: appended_def Let_def)
  with assms(2) show ?thesis by (simp add: branch_untouched_def artifact_events_append)
qed

lemma step_ok_appended:
  assumes "env_ok se" "sim_good se B w" "step_ok se B w (sim_append (se_setup se) t p w)"
    and "(t, p) \<in> sim_calls (st_codecs (se_setup se)) (st_events (se_setup se)) (se_images se)"
  shows "sim_good se B (appended (se_setup se) t p w)" "grows se w (appended (se_setup se) t p w)"
  using assms(3) sim_append_accepted [OF assms(1) good_base [OF assms(2)] assms(4)] by (auto simp: step_ok_def)

text \<open>A step after which the file of the branch is there.\<close>

definition branch_step_ok :: "sim_env \<Rightarrow> string set \<Rightarrow> string \<Rightarrow> sim_world \<Rightarrow> (adapter_error, unit, sim_world) outcome \<Rightarrow> bool" where
  "branch_step_ok se B b w m \<longleftrightarrow> (\<exists>w'. m = (Inr (), w') \<and> sim_good se B w' \<and> grows se w w' \<and>
     fs_data (sw_files w') (mesh_place (st_layout (se_setup se)) b) \<noteq> None)"

lemma produce_ok:
  assumes env: "env_ok se" and good: "sim_good se B w" and b: "b \<in> set task_branches" "branch_stage b = Inr stage" and B: "b \<in> B"
    and free: "branch_untouched (st_layout (se_setup se)) (sw_files w) (jn_events (sw_journal w)) b"
  shows "branch_step_ok se B b w (produce_artifact (se_setup se) stage b (mesh_place (st_layout (se_setup se)) b) w)"
proof -
  let ?st = "se_setup se" let ?l = "st_layout ?st" let ?glb = "minimal_glb (st_events ?st)" let ?cs = "st_codecs ?st"
  let ?p1 = "stage_payload stage b [] ''STAGE_STARTED'' (cs_zh ?cs (b @ ''.simulation.started''))"
  let ?p2 = "stage_payload stage b
     [percent [(''completed_units'', JInt 1), (''total_units'', JInt 1)], (''metrics'', JObject [(''simulation'', JBool True)])]
     ''STAGE_PROGRESS'' (cs_zh ?cs (b @ ''.simulation.progress''))"
  let ?p4 = "stage_payload stage b [] ''STAGE_COMPLETED'' (cs_zh ?cs (b @ ''.simulation.completed''))"
  have "branch_calls ?cs (st_events ?st) stage b \<subseteq> sim_calls ?cs (st_events ?st) (se_images se)" by (rule sim_calls_stage [OF b])
  then have calls: "(''stage_started'', ?p1) \<in> sim_calls ?cs (st_events ?st) (se_images se)"
    "(''stage_progress'', ?p2) \<in> sim_calls ?cs (st_events ?st) (se_images se)"
    "(''stage_completed'', ?p4) \<in> sim_calls ?cs (st_events ?st) (se_images se)"
    unfolding branch_calls_def by blast+
  define w1 where "w1 = appended ?st ''stage_started'' ?p1 w"
  have a1: "sim_append ?st ''stage_started'' ?p1 w = (Inr (), w1)"
    unfolding w1_def by (rule sim_append_accepted [OF env good_base [OF good] calls(1)])
  have g1: "sim_good se B w1" "grows se w w1"
    using append_plain [OF env good calls(1)] not_terminal_types(1) a1 by (auto simp: step_ok_def)
  define w2 where "w2 = appended ?st ''stage_progress'' ?p2 w1"
  have a2: "sim_append ?st ''stage_progress'' ?p2 w1 = (Inr (), w2)"
    unfolding w2_def by (rule sim_append_accepted [OF env good_base [OF g1(1)] calls(2)])
  have g2: "sim_good se B w2" "grows se w1 w2"
    using append_plain [OF env g1(1) calls(2)] not_terminal_types(2) a2 by (auto simp: step_ok_def)
  have free2: "branch_untouched ?l (sw_files w2) (jn_events (sw_journal w2)) b"
    unfolding w2_def w1_def using free env by (simp add: appended_untouched del: appended_keeps)
  define w3 where "w3 = after_write (mesh_place ?l b) ?glb w2"
  have a3: "sim_write ?st (mesh_place ?l b) ?glb w2 = (Inr (), w3)" unfolding w3_def by (rule sim_write_calm [OF env])
  have g3: "sim_good se (B - {b}) w3"
    unfolding w3_def by (rule after_mesh_good [OF g2(1) b(1) minimal_glb_nonempty]) (use free2 in \<open>simp add: branch_untouched_def\<close>)
  have mesh3: "fs_data (sw_files w3) (mesh_place ?l b) = Some ?glb" by (simp add: w3_def)
  have sha: "sha256_file ?cs (sw_files w3) (mesh_place ?l b) = Inr (cs_sha256 ?cs ?glb)"
    and size3: "file_size (sw_files w3) (mesh_place ?l b) = Inr (int (length ?glb))"
    by (simp_all add: sha256_file_def file_size_def read_mesh [OF env g3] mesh3)
  have sibling: "butlast (mesh_place ?l b) @ [''artifact-manifest.json''] = manifest_place ?l b"
    by (simp add: mesh_place_def manifest_place_def butlast_append)
  define m where "m = json_text ?cs (artifact_manifest b (mesh_relative b) (cs_sha256 ?cs ?glb) (int (length ?glb)))"
  define w4 where "w4 = after_write (manifest_place ?l b) m w3"
  have a4: "sim_write ?st (manifest_place ?l b) m w3 = (Inr (), w4)" unfolding w4_def by (rule sim_write_calm [OF env])
  have g4: "sim_good se (B - {b}) w4"
    unfolding w4_def by (rule after_write_good [OF g3]) (use b(1) own_places_in in auto)
  have mesh4: "fs_data (sw_files w4) (mesh_place ?l b) = Some ?glb" by (simp add: w4_def mesh3)
  have size4: "file_size (sw_files w4) (mesh_place ?l b) = Inr (int (length ?glb))"
    by (simp add: file_size_def read_mesh [OF env g4] mesh4)
  have grow4: "grows se w w4"
  proof -
    have "grows se w2 w4" using free2 by (auto simp: grows_def w4_def w3_def branch_untouched_def)
    with g1(2) g2(2) show ?thesis by (blast intro: grows_trans)
  qed
  have "step_ok se B w4 (sim_append ?st ''artifact_created'' (artifact_payload ?cs (st_events ?st) stage b) w4)"
    by (rule append_artifact [OF env g4 b B _ mesh4]) (use free2 in \<open>simp add: w4_def w3_def branch_untouched_def\<close>)
  then obtain w5 where w5: "sim_append ?st ''artifact_created'' (artifact_payload ?cs (st_events ?st) stage b) w4 = (Inr (), w5)"
    "sim_good se B w5" "grows se w4 w5" by (auto simp: step_ok_def)
  have "step_ok se B w5 (sim_append ?st ''stage_completed'' ?p4 w5)"
    by (rule append_plain [OF env w5(2) calls(3) not_terminal_types(3)]) simp
  then obtain w6 where w6: "sim_append ?st ''stage_completed'' ?p4 w5 = (Inr (), w6)" "sim_good se B w6" "grows se w5 w6"
    by (auto simp: step_ok_def)
  have grow: "grows se w w6" "grows se w4 w6" using grow4 w5(3) w6(3) by (blast intro: grows_trans)+
  then have "fs_data (sw_files w6) (mesh_place ?l b) \<noteq> None" using mesh4 b(1) by (simp add: grows_def)
  moreover have "produce_artifact ?st stage b (mesh_place ?l b) w = (Inr (), w6)"
    using w5(1) w6(1) by (simp add: produce_artifact_def Let_def a1 a2 a3 sha size3 sibling a4 [unfolded m_def] size4 artifact_payload_def)
  ultimately show ?thesis using w6(2) grow(1) by (simp add: branch_step_ok_def)
qed

lemma branch_stage_defined: "b \<in> set task_branches \<Longrightarrow> \<exists>stage. branch_stage b = Inr stage"
  by (auto simp: task_branches_def branch_stage_def)

text \<open>A branch that is recorded is checked and passed over; one that is untouched is produced.\<close>

lemma branch_ok:
  assumes env: "env_ok se" and good: "sim_good se B w" and b: "b \<in> set task_branches" and B: "b \<in> B"
  shows "branch_step_ok se B b w (run_branch (se_setup se) b w)"
proof -
  let ?st = "se_setup se" let ?l = "st_layout ?st"
  obtain stage where stage: "branch_stage b = Inr stage" using branch_stage_defined [OF b] by blast
  have tree: "same_tree ?l (se_files se) (sw_files w)" and plain: "plain_root (se_files se) ?l"
    and dirs: "\<forall>p \<in> own_places ?l. \<not> fs_dir (se_files se) p"
    using env good by (simp_all add: env_ok_def sim_good_def sim_base_def Let_def)
  have place: "resolve (sw_files w) ?l (mesh_relative b) = Inr (mesh_place ?l b)"
    using plain_paths(5) [OF same_tree_plain [OF tree plain] b] .
  have real: "fs_real (sw_files w) (mesh_place ?l b) = mesh_place ?l b"
    using good_real [OF env good] by (simp add: mesh_place_def)
  have read: "read_file (sw_files w) (mesh_place ?l b) = fs_data (sw_files w) (mesh_place ?l b)" by (rule read_mesh [OF env good])
  have "branch_untouched ?l (sw_files w) (jn_events (sw_journal w)) b \<or> branch_recorded (st_codecs ?st) ?l (sw_files w) (jn_events (sw_journal w)) b"
    using good b B by (simp add: sim_good_def sim_base_def Let_def branch_state_def)
  then show ?thesis
  proof
    assume free: "branch_untouched ?l (sw_files w) (jn_events (sw_journal w)) b"
    then have none: "artifact_event b (sw_journal w) = Inr None"
      by (simp add: artifact_event_def branch_untouched_def artifact_events_def)
    have "\<not> fs_dir (sw_files w) (mesh_place ?l b)" using tree dirs own_places_in(1) [OF b] by (simp add: same_tree_def)
    then have "\<not> path_exists (sw_files w) (mesh_place ?l b)"
      using free real by (simp add: path_exists_def is_file_def read branch_untouched_def is_dir_def)
    with produce_ok [OF env good b stage B free] show ?thesis by (simp add: run_branch_def stage place none)
  next
    assume "branch_recorded (st_codecs ?st) ?l (sw_files w) (jn_events (sw_journal w)) b"
    then obtain e x a where r: "artifact_events b (jn_events (sw_journal w)) = [e]"
      "fs_data (sw_files w) (mesh_place ?l b) = Some x" "json_field ''artifact'' e = Some a"
      "json_field ''path'' a = Some (JString (mesh_relative b))" "json_field ''sha256'' a = Some (JString (cs_sha256 (st_codecs ?st) x))"
      by (auto simp: branch_recorded_def)
    then have found: "artifact_event b (sw_journal w) = Inr (Some e)" by (simp add: artifact_event_def artifact_events_def)
    have "check_recorded_artifact ?st (sw_files w) b (mesh_place ?l b) e = Inr ()"
      using r by (simp add: check_recorded_artifact_def item_Inr is_file_def read sha256_file_def)
    with good r(2) show ?thesis by (simp add: run_branch_def stage place found branch_step_ok_def)
  qed
qed

text \<open>One that is not tracked is refused.\<close>

lemma branch_refused:
  assumes env: "env_ok se" and good: "sim_good se B w" and b: "b \<in> set task_branches" and B: "b \<notin> B"
  shows "run_branch (se_setup se) b w = (Inl (Integrity (''untracked '' @ b @ '' artifact already exists'')), w)"
proof -
  let ?st = "se_setup se" let ?l = "st_layout ?st"
  obtain stage where stage: "branch_stage b = Inr stage" using branch_stage_defined [OF b] by blast
  have tree: "same_tree ?l (se_files se) (sw_files w)" and plain: "plain_root (se_files se) ?l"
    using env good by (simp_all add: env_ok_def sim_good_def sim_base_def Let_def)
  have place: "resolve (sw_files w) ?l (mesh_relative b) = Inr (mesh_place ?l b)"
    using plain_paths(5) [OF same_tree_plain [OF tree plain] b] .
  have "branch_untracked ?l (sw_files w) (jn_events (sw_journal w)) b"
    using good b B by (simp add: sim_good_def Let_def branch_state_def)
  then have "artifact_event b (sw_journal w) = Inr None" "path_exists (sw_files w) (mesh_place ?l b)"
    using read_mesh [OF env good] by (auto simp: artifact_event_def branch_untracked_def artifact_events_def path_exists_def is_file_def)
  then show ?thesis by (simp add: run_branch_def stage place)
qed

section \<open>All branches\<close>

lemma branch_step_step: "branch_step_ok se B b w m \<Longrightarrow> step_ok se B w m"
  by (auto simp: branch_step_ok_def step_ok_def)

text \<open>
  The branches are done in order, up to the one after which the run is to be interrupted, or the first one that
  is not tracked.
\<close>

lemma run_branches_ok:
  assumes env: "env_ok se" and "sim_good se B w" "set bs \<subseteq> set task_branches"
  shows "\<exists>r w'. run_branches (se_setup se) crash bs w = (r, w') \<and> sim_good se B w' \<and> grows se w w' \<and>
    (r = Inr () \<longrightarrow> set bs \<subseteq> B \<and> (\<forall>b \<in> set bs. fs_data (sw_files w') (mesh_place (st_layout (se_setup se)) b) \<noteq> None)) \<and>
    (crash = None \<and> set bs \<subseteq> B \<longrightarrow> r = Inr ()) \<and>
    (crash = None \<and> \<not> set bs \<subseteq> B \<longrightarrow>
       (\<exists>b \<in> set bs - B. r = Inl (Integrity (''untracked '' @ b @ '' artifact already exists''))))"
  using assms(2,3)
proof (induction bs arbitrary: w)
  case Nil
  then show ?case by (auto simp: run_branches_def)
next
  case (Cons b bs)
  have b: "b \<in> set task_branches" using Cons.prems(2) by simp
  show ?case
  proof (cases "b \<in> B")
    case False
    from branch_refused [OF env Cons.prems(1) b False] Cons.prems(1) False show ?thesis by (auto simp: run_branches_def)
  next
    case True
    from branch_ok [OF env Cons.prems(1) b True]
    obtain w1 where w1: "run_branch (se_setup se) b w = (Inr (), w1)" "sim_good se B w1" "grows se w w1"
      "fs_data (sw_files w1) (mesh_place (st_layout (se_setup se)) b) \<noteq> None"
      unfolding branch_step_ok_def by blast
    show ?thesis
    proof (cases "crash = Some b")
      case True
      with w1 show ?thesis by (auto simp: run_branches_def require_def)
    next
      case False
      obtain r w2 where w2: "run_branches (se_setup se) crash bs w1 = (r, w2)" "sim_good se B w2" "grows se w1 w2"
        "r = Inr () \<longrightarrow> set bs \<subseteq> B \<and> (\<forall>b \<in> set bs. fs_data (sw_files w2) (mesh_place (st_layout (se_setup se)) b) \<noteq> None)"
        "crash = None \<and> set bs \<subseteq> B \<longrightarrow> r = Inr ()"
        "crash = None \<and> \<not> set bs \<subseteq> B \<longrightarrow> (\<exists>b \<in> set bs - B. r = Inl (Integrity (''untracked '' @ b @ '' artifact already exists'')))"
      proof -
        have "set bs \<subseteq> set task_branches" using Cons.prems(2) by simp
        from Cons.IH [OF w1(2) this] show thesis by (elim exE conjE) (rule that)
      qed
      have "fs_data (sw_files w2) (mesh_place (st_layout (se_setup se)) b) \<noteq> None"
        using w1(4) w2(3) b by (auto simp: grows_def)
      moreover have "grows se w w2" using w1(3) w2(3) by (rule grows_trans)
      moreover have "run_branches (se_setup se) crash (b # bs) w = (r, w2)"
        using w1(1) w2(1) False by (simp add: run_branches_def)
      ultimately show ?thesis using w2(2,4-6) True by auto
    qed
  qed
qed

section \<open>The result of a run\<close>

definition result_entry :: "codecs \<Rightarrow> string \<Rightarrow> string \<Rightarrow> string \<times> json" where
  "result_entry cs b x = (b, JObject
     [(''status'', JString ''succeeded''), (''duration_seconds'', JInt 0),
      (''artifacts'', JList [glb_artifact (mesh_relative b) (cs_sha256 cs x) (int (length x))]),
      (''metrics'', JObject [(''simulation'', JBool True), (''vertices'', JInt 0), (''faces'', JInt 0)])])"

text \<open>The result contract and the codec accept the results the runner writes.\<close>

definition results_accepted :: "codecs \<Rightarrow> (string \<Rightarrow> int option) \<Rightarrow> copied \<Rightarrow> bool" where
  "results_accepted cs read_time c \<longleftrightarrow>
     (\<forall>s f started finished x. read_time (replace_z s) = Some started \<longrightarrow> read_time (replace_z f) = Some finished \<longrightarrow>
        (\<forall>b. x b \<noteq> []) \<longrightarrow>
        (let v = result_object c (JString s) (JString f) (elapsed started finished) (map (\<lambda>b. result_entry cs b (x b)) task_branches)
         in cs_valid cs ''pipeline-result'' v \<and> keeps_json cs ''pipeline-result'' v))"

lemma collect_checked_map: "(\<And>y. y \<in> set ys \<Longrightarrow> g y = Inr (h y)) \<Longrightarrow> collect_checked g ys = Inr (map h ys)"
  by (induction ys) auto

lemma good_mesh_nonempty:
  assumes "sim_good se (set task_branches) w" "b \<in> set task_branches"
    "fs_data (sw_files w) (mesh_place (st_layout (se_setup se)) b) = Some x"
  shows "x \<noteq> []"
  using assms by (auto simp: sim_good_def Let_def branch_state_def branch_untouched_def branch_recorded_def)

lemma build_result_ok:
  assumes env: "env_ok se" and good: "sim_good se (set task_branches) w" and events: "jn_events (sw_journal w) \<noteq> []"
    and c: "copy_request request = Inr c"
    and mesh: "\<And>b. b \<in> set task_branches \<Longrightarrow> fs_data (sw_files w) (mesh_place (st_layout (se_setup se)) b) = Some (x b)"
  shows "\<exists>s f started finished. build_result (se_setup se) request task_branches w =
      (Inr (result_object c (JString s) (JString f) (elapsed started finished)
         (map (\<lambda>b. result_entry (st_codecs (se_setup se)) b (x b)) task_branches)), w\<lparr>sw_tick := sw_tick w + 1\<rparr>) \<and>
    st_read_time (se_setup se) (replace_z s) = Some started \<and> st_read_time (se_setup se) (replace_z f) = Some finished"
proof -
  let ?st = "se_setup se" let ?f = "ch_now (st_chances ?st) (sw_tick w)"
  obtain e es where ees: "jn_events (sw_journal w) = e # es" using events by (cases "jn_events (sw_journal w)") auto
  have "readable_start (st_read_time ?st) (jn_events (sw_journal w))"
    using good by (simp add: sim_good_def sim_base_def Let_def journal_open_def)
  then obtain s started where s: "json_field ''occurred_at'' e = Some (JString s)" "st_read_time ?st (replace_z s) = Some started"
    by (auto simp: readable_start_def ees)
  have first: "item ''occurred_at'' e = Inr (JString s)" using s(1) by (simp add: item_Inr)
  obtain finished where f: "st_read_time ?st (replace_z ?f) = Some finished"
    using env by (auto simp: env_ok_def Let_def calm_def)
  have tree: "same_tree (st_layout ?st) (se_files se) (sw_files w)" "plain_root (se_files se) (st_layout ?st)"
    using env good by (simp_all add: env_ok_def sim_good_def sim_base_def Let_def)
  have entry: "branch_result ?st (sw_files w) b = Inr (result_entry (st_codecs ?st) b (x b))" if b: "b \<in> set task_branches" for b
    using plain_paths(5) [OF same_tree_plain [OF tree] b] read_mesh [OF env good] mesh [OF b]
    by (simp add: branch_result_def sha256_file_def file_size_def result_entry_def)
  have "collect_checked (branch_result ?st (sw_files w)) task_branches =
      Inr (map (\<lambda>b. result_entry (st_codecs ?st) b (x b)) task_branches)"
    by (rule collect_checked_map) (rule entry)
  then have "build_result ?st request task_branches w =
      (Inr (result_object c (JString s) (JString ?f) (elapsed started finished)
         (map (\<lambda>b. result_entry (st_codecs ?st) b (x b)) task_branches)), w\<lparr>sw_tick := sw_tick w + 1\<rparr>)"
    by (simp add: build_result_def ees first Let_def parse_time_def f s(2) c text_of_def)
  with s(2) f show ?thesis by blast
qed

text \<open>The end of a run: the result is written and the last event is appended.\<close>

lemma last_event_ok:
  assumes env: "env_ok se" and base: "sim_base se w"
    and call: "(''job_succeeded'', p) \<in> sim_calls (st_codecs (se_setup se)) (st_events (se_setup se)) (se_images se)"
  shows "\<exists>e. sim_append (se_setup se) ''job_succeeded'' p w = (Inr (), appended (se_setup se) ''job_succeeded'' p w) \<and>
    jn_events (sw_journal (appended (se_setup se) ''job_succeeded'' p w)) = jn_events (sw_journal w) @ [e] \<and>
    is_terminal_event e \<and> events_ok (st_events (se_setup se)) (se_job se) (se_attempt se) (jn_events (sw_journal w) @ [e]) \<and>
    fs_data (sw_files (appended (se_setup se) ''job_succeeded'' p w)) =
      (fs_data (sw_files w))(record_place (st_layout (se_setup se)) ''pipeline-events.jsonl'' \<mapsto>
         journal_text (st_events (se_setup se)) (jn_events (sw_journal w) @ [e])) \<and>
    same_tree (st_layout (se_setup se)) (se_files se) (sw_files (appended (se_setup se) ''job_succeeded'' p w))"
proof -
  let ?st = "se_setup se" and ?n = "sw_tick w"
  let ?e = "event_object (sw_journal w) ''job_succeeded'' p (ch_uuid (st_chances ?st) ?n) (ch_now (st_chances ?st) ?n)"
  let ?es = "jn_events (sw_journal w)"
  have open_w: "journal_open (st_events ?st) (st_read_time ?st) (st_layout ?st) (se_job se) (se_attempt se) (sw_files w) ?es"
    and ids: "jn_job_id (sw_journal w) = se_job se" "jn_attempt (sw_journal w) = se_attempt se" "jn_worker_id (sw_journal w) = se_worker se"
    and tree: "same_tree (st_layout ?st) (se_files se) (sw_files w)"
    using base by (simp_all add: sim_base_def Let_def)
  have place: "st_journal ?st = record_place (st_layout ?st) ''pipeline-events.jsonl''" using env by (simp add: env_ok_def Let_def)
  have "cd_valid_event (st_events ?st) ?e \<and> codec_keeps (st_events ?st) ?e"
    using env ids call by (fastforce simp: env_ok_def Let_def events_accepted_def)
  then have "event_ok (st_events ?st) (se_job se) (se_attempt se) (length ?es) ?e"
    by (simp add: event_ok_def event_object_fields next_event_sequence_def ids)
  moreover have "?es = [] \<or> \<not> is_terminal_event (last ?es)" using open_w by (auto simp: journal_open_def)
  ultimately have "events_ok (st_events ?st) (se_job se) (se_attempt se) (?es @ [?e])"
    using append_events_ok open_w unfolding journal_open_def by blast
  moreover have "is_terminal_event ?e" by (simp add: is_terminal_event_def event_object_fields terminal_event_types_def)
  moreover have "same_tree (st_layout ?st) (se_files se) (sw_files (appended ?st ''job_succeeded'' p w))"
    using tree by (simp add: appended_def Let_def place same_tree_write own_places_in)
  ultimately show ?thesis
    using sim_append_accepted [OF env base call] by (auto simp: appended_def Let_def place)
qed

lemma after_write_base:
  assumes "sim_base se w" "p \<in> own_places (st_layout (se_setup se))" "p \<noteq> record_place (st_layout (se_setup se)) ''pipeline-events.jsonl''"
  shows "sim_base se (after_write p t w)"
  using assms by (auto simp: sim_base_def Let_def journal_open_def after_write_def same_tree_write)

lemma tick_good [simp]: "sim_good se B (w\<lparr>sw_tick := n\<rparr>) = sim_good se B w" "grows se w (w'\<lparr>sw_tick := n\<rparr>) = grows se w w'"
  by (simp_all add: sim_good_def sim_base_def Let_def grows_def)

text \<open>What a finished run leaves: the result with the files of the branches, and a closed journal.\<close>

definition result_there :: "codecs \<Rightarrow> task_layout \<Rightarrow> copied \<Rightarrow> json \<Rightarrow> file_system \<Rightarrow> bool" where
  "result_there cs l c result fs \<longleftrightarrow>
     fs_data fs (record_place l ''pipeline-result.json'') = Some (json_text cs result) \<and>
     keeps_json cs ''pipeline-result'' result \<and> cs_valid cs ''pipeline-result'' result \<and>
     (\<exists>s f d x. result = result_object c s f d (map (\<lambda>b. result_entry cs b (x b)) task_branches) \<and>
        (\<forall>b \<in> set task_branches. fs_data fs (mesh_place l b) = Some (x b)))"

definition finished_files ::
  "codecs \<Rightarrow> codec \<Rightarrow> task_layout \<Rightarrow> string \<Rightarrow> int \<Rightarrow> file_system \<Rightarrow> copied \<Rightarrow> json \<Rightarrow> file_system \<Rightarrow> bool" where
  "finished_files cs cd l job attempt fs0 c result fs \<longleftrightarrow> same_tree l fs0 fs \<and>
     (\<exists>es e. events_ok cd job attempt (es @ [e]) \<and> is_terminal_event e \<and>
        fs_data fs (record_place l ''pipeline-events.jsonl'') = Some (journal_text cd (es @ [e]))) \<and>
     result_there cs l c result fs"

lemma good_all: "sim_good se B w \<Longrightarrow> set task_branches \<subseteq> B \<Longrightarrow> sim_good se (set task_branches) w"
  by (auto simp: sim_good_def Let_def branch_state_def subset_iff)

text \<open>The request's entries that a run reads.\<close>

definition request_read :: "sim_env \<Rightarrow> json \<Rightarrow> copied \<Rightarrow> bool" where
  "request_read se request c \<longleftrightarrow> item2 ''input'' ''image_count'' request = Inr (se_images se) \<and>
     json_field ''branches'' request = Some (JList (map JString task_branches)) \<and> copy_request request = Inr c \<and>
     results_accepted (st_codecs (se_setup se)) (st_read_time (se_setup se)) c"

lemma request_branches:
  assumes "request_read se request c"
  shows "bind_checked (bind_checked (item ''branches'' request) elements_of) (collect_checked text_of) = Inr task_branches"
proof -
  have "collect_checked text_of (map JString bs) = Inr bs" for bs by (induction bs) (auto simp: text_of_def)
  then show ?thesis using assms by (simp add: request_read_def item_Inr)
qed

text \<open>The end of a run, after the branches: the validation, the result and the last event.\<close>

definition end_of_run :: "sim_setup \<Rightarrow> json \<Rightarrow> path \<Rightarrow> (json \<times> bool) sim_step" where
  "end_of_run st request p w =
     followed_by (write_output_validation st task_branches w) (\<lambda>_ w.
     followed_by (build_result st request task_branches w) (\<lambda>result w.
     reading (validate_contract (st_codecs st) ''pipeline-result'' result) w (\<lambda>_.
     followed_by (sim_write st p (json_text (st_codecs st) result) w) (\<lambda>_ w.
     followed_by (sim_append st ''job_succeeded''
       (percent [] # message ''JOB_SUCCEEDED'' (cs_zh (st_codecs st) ''simulation.succeeded'')) w) (\<lambda>_ w.
     (Inr (result, False), w))))))"

lemma new_result_parts:
  assumes "request_read se request c"
  shows "new_result st crash request p w =
    followed_by (first_event st w) (\<lambda>_ w.
    followed_by (run_shared_stages st (se_images se) w) (\<lambda>_ w.
    followed_by (run_branches st crash task_branches w) (\<lambda>_ w. end_of_run st request p w)))"
  using assms by (simp add: new_result_def end_of_run_def request_branches [OF assms] request_read_def)

text \<open>The worlds before and after the result is written, and the world after the last event.\<close>

lemma end_of_run_ok:
  assumes env: "env_ok se" and good: "sim_good se (set task_branches) w" and events: "jn_events (sw_journal w) \<noteq> []"
    and request: "request_read se request c"
    and there: "\<forall>b \<in> set task_branches. fs_data (sw_files w) (mesh_place (st_layout (se_setup se)) b) \<noteq> None"
  shows "\<exists>result w1 w2 w3. write_output_validation (se_setup se) task_branches w = (Inr (), w1) \<and>
    sim_good se (set task_branches) w1 \<and> grows se w w1 \<and>
    build_result (se_setup se) request task_branches w1 = (Inr result, w1\<lparr>sw_tick := sw_tick w1 + 1\<rparr>) \<and>
    cs_valid (st_codecs (se_setup se)) ''pipeline-result'' result \<and>
    w2 = after_write (record_place (st_layout (se_setup se)) ''pipeline-result.json'') (json_text (st_codecs (se_setup se)) result)
      (w1\<lparr>sw_tick := sw_tick w1 + 1\<rparr>) \<and>
    sim_base se w2 \<and> grows se w w2 \<and> result_there (st_codecs (se_setup se)) (st_layout (se_setup se)) c result (sw_files w2) \<and>
    sim_append (se_setup se) ''job_succeeded''
      (percent [] # message ''JOB_SUCCEEDED'' (cs_zh (st_codecs (se_setup se)) ''simulation.succeeded'')) w2 = (Inr (), w3) \<and>
    grows se w w3 \<and>
    finished_files (st_codecs (se_setup se)) (st_events (se_setup se)) (st_layout (se_setup se)) (se_job se) (se_attempt se)
      (se_files se) c result (sw_files w3)"
proof -
  let ?st = "se_setup se" let ?l = "st_layout ?st" let ?B = "set task_branches"
  have tree: "same_tree ?l (se_files se) (sw_files w)" "plain_root (se_files se) ?l"
    using env good by (simp_all add: env_ok_def sim_good_def sim_base_def Let_def)
  define w1 where "w1 = after_write (record_place ?l ''output-validation.json'') (json_text (st_codecs ?st) (output_validation task_branches)) w"
  have a1: "write_output_validation ?st task_branches w = (Inr (), w1)"
    by (simp add: write_output_validation_def plain_paths(4) [OF same_tree_plain [OF tree]] w1_def sim_write_calm [OF env])
  have good1: "sim_good se ?B w1" unfolding w1_def by (rule after_write_good [OF good]) (simp_all add: own_places_in)
  have grow1: "grows se w w1" by (simp add: w1_def grows_def)
  define x where "x b = (case fs_data (sw_files w1) (mesh_place ?l b) of Some y \<Rightarrow> if b \<in> ?B then y else ''x'' | None \<Rightarrow> ''x'')" for b
  have x: "fs_data (sw_files w1) (mesh_place ?l b) = Some (x b)" if "b \<in> ?B" for b
    using there that by (auto simp: w1_def x_def)
  have x_filled: "\<forall>b. x b \<noteq> []"
    using good_mesh_nonempty [OF good1] by (auto simp: x_def split: option.split)
  have events1: "jn_events (sw_journal w1) \<noteq> []" using events by (simp add: w1_def)
  have copied: "copy_request request = Inr c" using request by (simp add: request_read_def)
  obtain s f started finished where built: "build_result ?st request task_branches w1 =
      (Inr (result_object c (JString s) (JString f) (elapsed started finished)
         (map (\<lambda>b. result_entry (st_codecs ?st) b (x b)) task_branches)), w1\<lparr>sw_tick := sw_tick w1 + 1\<rparr>)"
    and times: "st_read_time ?st (replace_z s) = Some started" "st_read_time ?st (replace_z f) = Some finished"
    using build_result_ok [OF env good1 events1 copied x] by blast
  define result where "result = result_object c (JString s) (JString f) (elapsed started finished)
         (map (\<lambda>b. result_entry (st_codecs ?st) b (x b)) task_branches)"
  have "results_accepted (st_codecs ?st) (st_read_time ?st) c" using request by (simp add: request_read_def)
  then have "cs_valid (st_codecs ?st) ''pipeline-result'' result \<and> keeps_json (st_codecs ?st) ''pipeline-result'' result"
    using times x_filled unfolding results_accepted_def Let_def result_def by blast
  then have valid: "cs_valid (st_codecs ?st) ''pipeline-result'' result" "keeps_json (st_codecs ?st) ''pipeline-result'' result" by simp_all
  define w2 where "w2 = after_write (record_place ?l ''pipeline-result.json'') (json_text (st_codecs ?st) result) (w1\<lparr>sw_tick := sw_tick w1 + 1\<rparr>)"
  have "sim_good se ?B (w1\<lparr>sw_tick := sw_tick w1 + 1\<rparr>)" using good1 by simp
  then have base2: "sim_base se w2"
    unfolding w2_def by (rule after_write_base [OF good_base]) (simp_all add: own_places_in)
  have "fs_data (sw_files w2) (mesh_place ?l b) = fs_data (sw_files w1) (mesh_place ?l b)" for b by (simp add: w2_def)
  then have there2: "result_there (st_codecs ?st) ?l c result (sw_files w2)"
    unfolding result_there_def using valid result_def x
    by (intro conjI exI [of _ "JString s"] exI [of _ "JString f"] exI [of _ "elapsed started finished"] exI [of _ x]) (simp_all add: w2_def)
  have grow2: "grows se w w2" using grow1 by (simp add: grows_def w2_def)
  let ?p = "percent [] # message ''JOB_SUCCEEDED'' (cs_zh (st_codecs ?st) ''simulation.succeeded'')"
  have call: "(''job_succeeded'', ?p) \<in> sim_calls (st_codecs ?st) (st_events ?st) (se_images se)" by (simp add: sim_calls_def)
  define w3 where "w3 = appended ?st ''job_succeeded'' ?p w2"
  obtain e where w3: "sim_append ?st ''job_succeeded'' ?p w2 = (Inr (), w3)" "jn_events (sw_journal w3) = jn_events (sw_journal w2) @ [e]"
    "is_terminal_event e" "events_ok (st_events ?st) (se_job se) (se_attempt se) (jn_events (sw_journal w2) @ [e])"
    "fs_data (sw_files w3) = (fs_data (sw_files w2))(record_place ?l ''pipeline-events.jsonl'' \<mapsto>
         journal_text (st_events ?st) (jn_events (sw_journal w2) @ [e]))"
    "same_tree ?l (se_files se) (sw_files w3)"
    using last_event_ok [OF env base2 call] unfolding w3_def by blast
  have "result_there (st_codecs ?st) ?l c result (sw_files w3)" using there2 by (simp add: result_there_def w3(5))
  then have "finished_files (st_codecs ?st) (st_events ?st) ?l (se_job se) (se_attempt se) (se_files se) c result (sw_files w3)"
    unfolding finished_files_def using w3(3-6) by auto
  moreover have "grows se w w3" using grow2 w3(2) by (auto simp: grows_def w3(5) prefix_def)
  ultimately show ?thesis using a1 good1 grow1 built valid(1) base2 there2 grow2 w3(1) unfolding result_def w2_def by blast
qed

lemma new_result_ok:
  assumes env: "env_ok se" and good: "sim_good se B w" and request: "request_read se request c"
  shows "\<exists>r w'. new_result (se_setup se) crash request (record_place (st_layout (se_setup se)) ''pipeline-result.json'') w = (r, w') \<and>
    grows se w w' \<and> (isl r \<longrightarrow> sim_good se B w') \<and>
    (\<forall>result. r = Inr result \<longrightarrow> \<not> snd result \<and>
       finished_files (st_codecs (se_setup se)) (st_events (se_setup se)) (st_layout (se_setup se)) (se_job se) (se_attempt se)
         (se_files se) c (fst result) (sw_files w')) \<and>
    (crash = None \<and> set task_branches \<subseteq> B \<longrightarrow> \<not> isl r) \<and>
    (crash = None \<and> \<not> set task_branches \<subseteq> B \<longrightarrow>
       (\<exists>b \<in> set task_branches - B. r = Inl (Integrity (''untracked '' @ b @ '' artifact already exists''))))"
proof -
  let ?st = "se_setup se" let ?l = "st_layout ?st"
  obtain w1 where w1: "first_event ?st w = (Inr (), w1)" "sim_good se B w1" "grows se w w1" "jn_events (sw_journal w1) \<noteq> []"
  proof -
    have "\<exists>t p. first_event ?st w = sim_append ?st t p w \<and> (t, p) \<in> sim_calls (st_codecs ?st) (st_events ?st) (se_images se)"
      by (simp add: first_event_def sim_calls_def) blast
    then obtain t p where tp: "first_event ?st w = (Inr (), appended ?st t p w)"
      using sim_append_accepted [OF env good_base [OF good]] by metis
    with first_event_ok [OF env good] have "sim_good se B (appended ?st t p w)" "grows se w (appended ?st t p w)"
      by (auto simp: step_ok_def)
    with tp show thesis by (intro that [of "appended ?st t p w"]) simp_all
  qed
  obtain w2 where w2: "run_shared_stages ?st (se_images se) w1 = (Inr (), w2)" "sim_good se B w2" "grows se w1 w2"
    using shared_stages_ok [OF env w1(2)] by (auto simp: step_ok_def)
  obtain r w3 where w3: "run_branches ?st crash task_branches w2 = (r, w3)" "sim_good se B w3" "grows se w2 w3"
    "r = Inr () \<longrightarrow> set task_branches \<subseteq> B \<and> (\<forall>b \<in> set task_branches. fs_data (sw_files w3) (mesh_place ?l b) \<noteq> None)"
    "crash = None \<and> set task_branches \<subseteq> B \<longrightarrow> r = Inr ()"
    "crash = None \<and> \<not> set task_branches \<subseteq> B \<longrightarrow>
       (\<exists>b \<in> set task_branches - B. r = Inl (Integrity (''untracked '' @ b @ '' artifact already exists'')))"
    using run_branches_ok [OF env w2(2) order_refl, of crash] by (elim exE conjE) (rule that)
  have grow: "grows se w w3" "grows se w1 w3" using w1(3) w2(3) w3(3) by (blast intro: grows_trans)+
  show ?thesis
  proof (cases r)
    case (Inl e)
    then have "new_result ?st crash request (record_place ?l ''pipeline-result.json'') w = (Inl e, w3)"
      by (simp add: new_result_parts [OF request] w1(1) w2(1) w3(1))
    with grow(1) w3(2,5,6) Inl show ?thesis by auto
  next
    case (Inr u)
    then have all: "set task_branches \<subseteq> B" "\<forall>b \<in> set task_branches. fs_data (sw_files w3) (mesh_place ?l b) \<noteq> None"
      using w3(4) by simp_all
    have "jn_events (sw_journal w3) \<noteq> []" using grow(2) w1(4) by (auto simp: grows_def)
    from end_of_run_ok [OF env good_all [OF w3(2) all(1)] this request all(2)]
    obtain result w4 w5 w6 where e: "write_output_validation ?st task_branches w3 = (Inr (), w4)"
      "build_result ?st request task_branches w4 = (Inr result, w4\<lparr>sw_tick := sw_tick w4 + 1\<rparr>)"
      "cs_valid (st_codecs ?st) ''pipeline-result'' result"
      "w5 = after_write (record_place ?l ''pipeline-result.json'') (json_text (st_codecs ?st) result) (w4\<lparr>sw_tick := sw_tick w4 + 1\<rparr>)"
      "sim_append ?st ''job_succeeded''
        (percent [] # message ''JOB_SUCCEEDED'' (cs_zh (st_codecs ?st) ''simulation.succeeded'')) w5 = (Inr (), w6)"
      "grows se w3 w6"
      "finished_files (st_codecs ?st) (st_events ?st) ?l (se_job se) (se_attempt se) (se_files se) c result (sw_files w6)"
      by blast
    have "end_of_run ?st request (record_place ?l ''pipeline-result.json'') w3 = (Inr (result, False), w6)"
      by (simp add: end_of_run_def e(1,2) validate_contract_def e(3) sim_write_calm [OF env] e(5) [unfolded e(4), simplified])
    with Inr have "new_result ?st crash request (record_place ?l ''pipeline-result.json'') w = (Inr (result, False), w6)"
      by (simp add: new_result_parts [OF request] w1(1) w2(1) w3(1))
    moreover have "grows se w w6" using grow(1) e(6) by (rule grows_trans)
    ultimately show ?thesis using e(7) all(1) by auto
  qed
qed

end
