(* ===== verification/Simulation_Faults.thy ===== *)
theory Simulation_Faults
  imports Simulation_Steps
begin

text \<open>
  Runs of simulated tasks in which any write may fail and any append may be torn. Such a run is compared with the
  undisturbed run of the same clock and identifiers: the two agree until a write or an append of the first one
  fails, and what it leaves then is described.
\<close>

section \<open>The undisturbed run\<close>

definition calm_chances :: "chances \<Rightarrow> chances" where
  "calm_chances ch = ch\<lparr>ch_torn := \<lambda>_. None, ch_failed := \<lambda>_. False\<rparr>"

definition calm_setup :: "sim_setup \<Rightarrow> sim_setup" where
  "calm_setup st = st\<lparr>st_chances := calm_chances (st_chances st)\<rparr>"

definition calm_env :: "sim_env \<Rightarrow> sim_env" where
  "calm_env se = se\<lparr>se_setup := calm_setup (se_setup se)\<rparr>"

lemma calm_setup_fields [simp]:
  "st_codecs (calm_setup st) = st_codecs st" "st_events (calm_setup st) = st_events st" "st_layout (calm_setup st) = st_layout st"
  "st_journal (calm_setup st) = st_journal st" "st_read_time (calm_setup st) = st_read_time st"
  "ch_uuid (st_chances (calm_setup st)) = ch_uuid (st_chances st)" "ch_now (st_chances (calm_setup st)) = ch_now (st_chances st)"
  "ch_torn (st_chances (calm_setup st)) n = None" "ch_failed (st_chances (calm_setup st)) n = False"
  by (simp_all add: calm_setup_def calm_chances_def)

lemma calm_env_fields [simp]:
  "se_setup (calm_env se) = calm_setup (se_setup se)" "se_files (calm_env se) = se_files se" "se_job (calm_env se) = se_job se"
  "se_attempt (calm_env se) = se_attempt se" "se_worker (calm_env se) = se_worker se" "se_images (calm_env se) = se_images se"
  by (simp_all add: calm_env_def)

lemma calm_worlds [simp]:
  "sim_base (calm_env se) w = sim_base se w" "sim_good (calm_env se) B w = sim_good se B w" "grows (calm_env se) w w' = grows se w w'"
  "request_read (calm_env se) request c = request_read se request c" "appended (calm_setup st) t p w = appended st t p w"
  by (simp_all add: sim_base_def sim_good_def grows_def request_read_def appended_def Let_def)

section \<open>What a failing operation leaves\<close>

definition journal_torn :: "task_layout \<Rightarrow> file_system \<Rightarrow> bool" where
  "journal_torn l fs \<longleftrightarrow> (case fs_data fs (record_place l ''pipeline-events.jsonl'') of
     None \<Rightarrow> False | Some t \<Rightarrow> t \<noteq> [] \<and> last t \<noteq> newline)"

text \<open>
  What a run that stopped may leave of a task: a torn journal; an open journal without a result; an open journal
  with a result; or everything finished. No file of a branch that was there at the start has changed.
\<close>

definition left_files ::
  "codecs \<Rightarrow> codec \<Rightarrow> (string \<Rightarrow> int option) \<Rightarrow> task_layout \<Rightarrow> string \<Rightarrow> int \<Rightarrow> file_system \<Rightarrow> copied \<Rightarrow> file_system \<Rightarrow> bool" where
  "left_files cs cd read_time l job attempt fs0 c fs \<longleftrightarrow> same_tree l fs0 fs \<and>
     (journal_torn l fs \<or>
      (\<exists>es. journal_open cd read_time l job attempt fs es \<and>
         (fs_data fs (record_place l ''pipeline-result.json'') = None \<and> (\<exists>B. \<forall>b \<in> set task_branches. branch_state cs l fs es B b) \<or>
          (\<exists>result. result_there cs l c result fs))) \<or>
      (\<exists>result. finished_files cs cd l job attempt fs0 c result fs))"

definition meshes_kept :: "task_layout \<Rightarrow> file_system \<Rightarrow> file_system \<Rightarrow> bool" where
  "meshes_kept l fs fs' \<longleftrightarrow> (\<forall>b \<in> set task_branches. fs_data fs (mesh_place l b) \<noteq> None \<longrightarrow>
     fs_data fs' (mesh_place l b) = fs_data fs (mesh_place l b))"

definition left_from :: "sim_env \<Rightarrow> copied \<Rightarrow> sim_world \<Rightarrow> file_system \<Rightarrow> bool" where
  "left_from se c w0 fs \<longleftrightarrow> (let st = se_setup se in
     left_files (st_codecs st) (st_events st) (st_read_time st) (st_layout st) (se_job se) (se_attempt se) (se_files se) c fs \<and>
     meshes_kept (st_layout st) (sw_files w0) fs)"

lemma grows_kept: "grows se w w' \<Longrightarrow> meshes_kept (st_layout (se_setup se)) (sw_files w) (sw_files w')"
  by (simp add: grows_def meshes_kept_def)

lemma good_left:
  assumes "sim_good se B w" "grows se w0 w" shows "left_from se c w0 (sw_files w)"
  using assms grows_kept [OF assms(2)]
  unfolding left_from_def left_files_def sim_good_def sim_base_def Let_def by blast

text \<open>The file of the journal written anew with its text, or with a text whose last line is torn.\<close>

definition with_journal :: "sim_env \<Rightarrow> string \<Rightarrow> file_system \<Rightarrow> file_system" where
  "with_journal se t fs = fs\<lparr>fs_data := (fs_data fs)(record_place (st_layout (se_setup se)) ''pipeline-events.jsonl'' \<mapsto> t)\<rparr>"

lemma with_journal_data [simp]:
  "fs_data (with_journal se t fs) (mesh_place (st_layout (se_setup se)) b) = fs_data fs (mesh_place (st_layout (se_setup se)) b)"
  "fs_data (with_journal se t fs) (record_place (st_layout (se_setup se)) ''pipeline-result.json'') =
     fs_data fs (record_place (st_layout (se_setup se)) ''pipeline-result.json'')"
  by (simp_all add: with_journal_def)

lemma base_journal:
  assumes "sim_base se w"
  shows "sim_base se (w\<lparr>sw_files := with_journal se (journal_text (st_events (se_setup se)) (jn_events (sw_journal w))) (sw_files w)\<rparr>)"
  using assms by (auto simp: sim_base_def Let_def with_journal_def journal_open_def same_tree_write own_places_in)

lemma good_journal:
  assumes "sim_good se B w"
  shows "sim_good se B (w\<lparr>sw_files := with_journal se (journal_text (st_events (se_setup se)) (jn_events (sw_journal w))) (sw_files w)\<rparr>)"
proof -
  let ?fs = "with_journal se (journal_text (st_events (se_setup se)) (jn_events (sw_journal w))) (sw_files w)"
  have "branch_state (st_codecs (se_setup se)) (st_layout (se_setup se)) ?fs es B b =
      branch_state (st_codecs (se_setup se)) (st_layout (se_setup se)) (sw_files w) es B b" for es b
    by (rule branch_state_cong) simp_all
  with assms base_journal [OF good_base [OF assms]] show ?thesis by (simp add: sim_good_def Let_def)
qed

lemma torn_left:
  assumes "sim_base se w" "grows se w0 w" "t \<noteq> []" "last t \<noteq> newline"
  shows "left_from se c w0 (with_journal se t (sw_files w))"
proof -
  have "same_tree (st_layout (se_setup se)) (se_files se) (with_journal se t (sw_files w))"
    using assms(1) by (simp add: sim_base_def Let_def with_journal_def same_tree_write own_places_in)
  moreover have "journal_torn (st_layout (se_setup se)) (with_journal se t (sw_files w))"
    using assms(3,4) by (simp add: journal_torn_def with_journal_def)
  moreover have "meshes_kept (st_layout (se_setup se)) (sw_files w0) (with_journal se t (sw_files w))"
    using grows_kept [OF assms(2)] by (simp add: meshes_kept_def)
  ultimately show ?thesis by (simp add: left_from_def left_files_def Let_def)
qed

text \<open>An append whose write fails leaves the journal as it was, with the whole event, or torn.\<close>

lemma append_outcome:
  assumes env: "env_ok (calm_env se)" and base: "sim_base se w"
    and call: "(t, p) \<in> sim_calls (st_codecs (se_setup se)) (st_events (se_setup se)) (se_images se)"
  shows "sim_append (se_setup se) t p w = sim_append (calm_setup (se_setup se)) t p w \<or>
    (\<exists>e w'. sim_append (se_setup se) t p w = (Inl e, w') \<and>
       (sw_files w' = with_journal se (journal_text (st_events (se_setup se)) (jn_events (sw_journal w))) (sw_files w) \<or>
        sw_files w' = sw_files (appended (se_setup se) t p w) \<or>
        (\<exists>s. sw_files w' = with_journal se s (sw_files w) \<and> s \<noteq> [] \<and> last s \<noteq> newline)))"
proof (cases "ch_torn (st_chances (se_setup se)) (sw_tick w)")
  case None
  have "sim_append (se_setup se) t p w = sim_append (calm_setup (se_setup se)) t p w"
    unfolding sim_append_def Let_def by (simp only: calm_setup_fields None)
  then show ?thesis by simp
next
  case (Some n)
  let ?st = "se_setup se" let ?tick = "sw_tick w"
  define e where "e = event_object (sw_journal w) t p (ch_uuid (st_chances ?st) ?tick) (ch_now (st_chances ?st) ?tick)"
  define words where "words = journal_text (st_events ?st) (jn_events (sw_journal w))"
  have place: "st_journal ?st = record_place (st_layout ?st) ''pipeline-events.jsonl''" using env by (simp add: env_ok_def Let_def)
  have calm: "sim_append (calm_setup ?st) t p w = (Inr (), appended ?st t p w)"
    using sim_append_accepted [OF env, of w t p] base call by simp
  have kept: "codec_keeps (st_events ?st) e" and valid: "cd_valid_event (st_events ?st) e"
    using env base call by (fastforce simp: env_ok_def sim_base_def Let_def events_accepted_def e_def)+
  have terminal: "\<not> has_terminal_event (sw_journal w)"
    using base by (auto simp: sim_base_def Let_def journal_open_def has_terminal_event_def)
  have real: "fs_real (sw_files w) (st_journal ?st) = st_journal ?st"
    using env base by (simp add: env_ok_def sim_base_def Let_def same_tree_def plain_root_def place place_defs)
  have disk: "(case read_file (sw_files w) (st_journal ?st) of None \<Rightarrow> [] | Some t \<Rightarrow> t) = words"
  proof -
    have "read_file (sw_files w) (st_journal ?st) = fs_data (sw_files w) (record_place (st_layout ?st) ''pipeline-events.jsonl'')"
      by (simp add: read_file_def real [unfolded place] place)
    then show ?thesis using base by (auto simp: sim_base_def Let_def journal_open_def journal_text_def words_def split: option.splits)
  qed
  let ?line = "journal_line (st_events ?st) e"
  obtain w' where w': "sim_append ?st t p w = (Inl Os_error, w')" "sw_files w' = with_journal se (words @ take n ?line) (sw_files w)"
    using valid terminal disk
    by (simp add: sim_append_def Let_def append_event_def Some e_def [symmetric] journal_raised_def with_journal_def place)
  consider "n = 0" | "length ?line \<le> n" | "0 < n" "n < length ?line" by linarith
  then show ?thesis
  proof cases
    case 1
    with w' show ?thesis by (auto simp: words_def)
  next
    case 2
    then have "sw_files w' = sw_files (appended ?st t p w)"
      by (simp add: w'(2) with_journal_def appended_def Let_def e_def [symmetric] place journal_text_append words_def)
    with w'(1) show ?thesis by auto
  next
    case 3
    then have part: "take n ?line = take n (cd_dumps (st_events ?st) e)" "take n ?line \<noteq> []" by (auto simp: journal_line_def)
    then have "last (take n ?line) \<in> set (cd_dumps (st_events ?st) e)" by (metis in_set_takeD last_in_set)
    then have "last (take n ?line) \<noteq> newline"
      using kept line_break_newline unfolding codec_keeps_def list_all_iff by metis
    with w' part(2) show ?thesis by (intro disjI2 exI [of _ Os_error] exI [of _ w']) auto
  qed
qed

section \<open>Runs that agree until one fails\<close>

definition safe :: "(file_system \<Rightarrow> bool) \<Rightarrow> (adapter_error, 'a, sim_world) outcome \<Rightarrow> (adapter_error, 'a, sim_world) outcome \<Rightarrow> bool" where
  "safe E m m' \<longleftrightarrow> m = m' \<or> (\<exists>e w. m = (Inl e, w) \<and> E (sw_files w))"

lemma safe_refl [simp]: "safe E m m"
  by (simp add: safe_def)

lemma safe_then:
  assumes "safe E m m'" "\<And>x w. m' = (Inr x, w) \<Longrightarrow> safe E (f x w) (g x w)"
  shows "safe E (followed_by m f) (followed_by m' g)"
proof (cases "m = m'")
  case True
  with assms(2) show ?thesis by (cases m'; cases "fst m'") (auto simp: safe_def)
next
  case False
  then obtain e w where "m = (Inl e, w)" "E (sw_files w)" using assms(1) by (auto simp: safe_def)
  then show ?thesis by (simp add: safe_def)
qed

lemma safe_reading:
  assumes "\<And>x. c = Inr x \<Longrightarrow> safe E (f x) (g x)"
  shows "safe E (reading c w f) (reading c w g)"
  using assms by (cases c) simp_all

lemma safe_each:
  assumes "\<And>x w. x \<in> set xs \<Longrightarrow> J w \<Longrightarrow> safe E (f x w) (g x w)"
    and "\<And>x w u w'. x \<in> set xs \<Longrightarrow> J w \<Longrightarrow> g x w = (Inr u, w') \<Longrightarrow> J w'" and "J w"
  shows "safe E (each_step f xs w) (each_step g xs w)"
  using assms
proof (induction xs arbitrary: w)
  case (Cons x xs)
  show ?case
  proof (simp, rule safe_then)
    show "safe E (f x w) (g x w)" using Cons.prems(1,3) by simp
    show "safe E (each_step f xs w') (each_step g xs w')" if "g x w = (Inr u, w')" for u w'
    proof (rule Cons.IH)
      show "J w'" using Cons.prems(2) [OF _ Cons.prems(3) that] by simp
      show "safe E (f y v) (g y v)" if "y \<in> set xs" "J v" for y v using Cons.prems(1) that by simp
      show "J v'" if "y \<in> set xs" "J v" "g y v = (Inr u, v')" for y v u v' using Cons.prems(2) [OF _ that(2,3)] that(1) by simp
    qed
  qed
qed simp

section \<open>The steps of a run\<close>

text \<open>An append in a good world, whatever the calm append makes of the branches.\<close>

lemma append_safe:
  assumes env: "env_ok (calm_env se)" and good: "sim_good se B w" "grows se w0 w"
    and call: "(t, p) \<in> sim_calls (st_codecs (se_setup se)) (st_events (se_setup se)) (se_images se)"
    and after: "step_ok (calm_env se) C w (sim_append (calm_setup (se_setup se)) t p w)"
  shows "safe (left_from se c w0) (sim_append (se_setup se) t p w) (sim_append (calm_setup (se_setup se)) t p w)"
proof -
  let ?E = "left_from se c w0" let ?st = "se_setup se"
  have calm: "sim_append (calm_setup ?st) t p w = (Inr (), appended ?st t p w)"
    using sim_append_accepted [OF env, of w t p] good_base [OF good(1)] call by simp
  then have "sim_good se C (appended ?st t p w)" "grows se w (appended ?st t p w)" using after by (auto simp: step_ok_def)
  then have "?E (sw_files (appended ?st t p w))" using good_left grows_trans good(2) by blast
  moreover have "?E (with_journal se (journal_text (st_events ?st) (jn_events (sw_journal w))) (sw_files w))"
    using good_left [OF good_journal [OF good(1)], of w0 c] good(2) by (simp add: grows_def with_journal_def)
  moreover have "?E (with_journal se s (sw_files w))" if "s \<noteq> []" "last s \<noteq> newline" for s
    using torn_left [OF good_base [OF good(1)] good(2) that] .
  ultimately show ?thesis
    using append_outcome [OF env good_base [OF good(1)] call] unfolding safe_def by metis
qed

lemma append_plain_safe:
  assumes "env_ok (calm_env se)" "sim_good se B w" "grows se w0 w"
    and "(t, p) \<in> sim_calls (st_codecs (se_setup se)) (st_events (se_setup se)) (se_images se)"
    and "t \<notin> terminal_event_types" "t \<noteq> ''artifact_created''"
  shows "safe (left_from se c w0) (sim_append (se_setup se) t p w) (sim_append (calm_setup (se_setup se)) t p w)"
proof (rule append_safe [OF assms(1-4)])
  show "step_ok (calm_env se) B w (sim_append (calm_setup (se_setup se)) t p w)"
    using append_plain [OF assms(1), of B w t p] assms(2,4-6) by simp
qed

text \<open>A write that fails changes nothing.\<close>

lemma write_safe:
  assumes "left_from se c w0 (sw_files w)"
  shows "safe (left_from se c w0) (sim_write (se_setup se) p t w) (sim_write (calm_setup (se_setup se)) p t w)"
  using assms by (cases "ch_failed (st_chances (se_setup se)) (sw_tick w)") (simp_all add: safe_def sim_write_def atomic_write_def)

lemma plain_after:
  assumes "env_ok (calm_env se)" "sim_good se B w" "grows se w0 w"
    and "(t, p) \<in> sim_calls (st_codecs (se_setup se)) (st_events (se_setup se)) (se_images se)"
    and "t \<notin> terminal_event_types" "t \<noteq> ''artifact_created''"
    and "sim_append (calm_setup (se_setup se)) t p w = (Inr u, w')"
  shows "sim_good se B w'" "grows se w0 w'"
proof -
  have "step_ok (calm_env se) B w (sim_append (calm_setup (se_setup se)) t p w)"
    using append_plain [OF assms(1), of B w t p] assms(2,4-6) by simp
  then have "sim_good se B w' \<and> grows se w w'" using assms(7) by (auto simp: step_ok_def)
  with assms(3) show "sim_good se B w'" "grows se w0 w'" by (blast intro: grows_trans)+
qed

lemma first_event_safe:
  assumes "env_ok (calm_env se)" "sim_good se B w" "grows se w0 w"
  shows "safe (left_from se c w0) (first_event (se_setup se) w) (first_event (calm_setup (se_setup se)) w)"
  using append_plain_safe [OF assms] by (simp add: first_event_def sim_calls_def not_terminal_types)

lemma shared_stage_safe:
  assumes env: "env_ok (calm_env se)" and x: "x \<in> set (shared_stages (st_codecs (se_setup se)) (se_images se))"
    and w: "sim_good se B w" "grows se w0 w"
  shows "safe (left_from se c w0) (run_shared_stage (se_setup se) x w) (run_shared_stage (calm_setup (se_setup se)) x w)"
proof -
  obtain stage words metrics where t: "x = (stage, words, metrics)" by (cases x)
  note calls = subsetD [OF shared_calls_in [OF x [unfolded t]]]
  have differ: "''stage_started'' \<noteq> ''artifact_created''" "''stage_progress'' \<noteq> ''artifact_created''" "''stage_completed'' \<noteq> ''artifact_created''"
    by simp_all
  note plain = append_plain_safe [OF env _ _ calls] and after = plain_after [OF env _ _ calls]
  show ?thesis
  proof (cases "has_completed_stage stage (sw_journal w)")
    case False
    show ?thesis
      unfolding run_shared_stage_def t prod.case if_not_P [OF False]
    proof (rule safe_then)
      show "safe (left_from se c w0) (sim_append (se_setup se) ''stage_started'' (stage_payload stage ''shared'' [] ''STAGE_STARTED'' words) w)
          (sim_append (calm_setup (se_setup se)) ''stage_started'' (stage_payload stage ''shared'' [] ''STAGE_STARTED'' words) w)"
        by (rule plain [OF w _ not_terminal_types(1) differ(1)]) simp
      fix u w1
      assume "sim_append (calm_setup (se_setup se)) ''stage_started'' (stage_payload stage ''shared'' [] ''STAGE_STARTED'' words) w = (Inr u, w1)"
      note w1 = after [OF w _ not_terminal_types(1) differ(1) this, simplified]
      show "safe (left_from se c w0)
        (followed_by (sim_append (se_setup se) ''stage_progress''
            (stage_payload stage ''shared'' [percent [], (''metrics'', metrics)] ''STAGE_PROGRESS'' words) w1) (\<lambda>_ w.
          sim_append (se_setup se) ''stage_completed'' (stage_payload stage ''shared'' [] ''STAGE_COMPLETED'' words) w))
        (followed_by (sim_append (calm_setup (se_setup se)) ''stage_progress''
            (stage_payload stage ''shared'' [percent [], (''metrics'', metrics)] ''STAGE_PROGRESS'' words) w1) (\<lambda>_ w.
          sim_append (calm_setup (se_setup se)) ''stage_completed'' (stage_payload stage ''shared'' [] ''STAGE_COMPLETED'' words) w))"
      proof (rule safe_then)
        show "safe (left_from se c w0) (sim_append (se_setup se) ''stage_progress''
            (stage_payload stage ''shared'' [percent [], (''metrics'', metrics)] ''STAGE_PROGRESS'' words) w1)
          (sim_append (calm_setup (se_setup se)) ''stage_progress''
            (stage_payload stage ''shared'' [percent [], (''metrics'', metrics)] ''STAGE_PROGRESS'' words) w1)"
          by (rule plain [OF w1 _ not_terminal_types(2) differ(2)]) simp
        fix u w2
        assume "sim_append (calm_setup (se_setup se)) ''stage_progress''
            (stage_payload stage ''shared'' [percent [], (''metrics'', metrics)] ''STAGE_PROGRESS'' words) w1 = (Inr u, w2)"
        note w2 = after [OF w1 _ not_terminal_types(2) differ(2) this, simplified]
        show "safe (left_from se c w0)
          (sim_append (se_setup se) ''stage_completed'' (stage_payload stage ''shared'' [] ''STAGE_COMPLETED'' words) w2)
          (sim_append (calm_setup (se_setup se)) ''stage_completed'' (stage_payload stage ''shared'' [] ''STAGE_COMPLETED'' words) w2)"
          by (rule plain [OF w2 _ not_terminal_types(3) differ(3)]) simp
      qed
    qed
  qed (simp add: run_shared_stage_def t)
qed

lemma shared_stages_safe:
  assumes env: "env_ok (calm_env se)" and w: "sim_good se B w" "grows se w0 w"
  shows "safe (left_from se c w0) (run_shared_stages (se_setup se) (se_images se) w)
    (run_shared_stages (calm_setup (se_setup se)) (se_images se) w)"
  unfolding run_shared_stages_def calm_setup_fields
proof (rule safe_each [where J = "\<lambda>w. sim_good se B w \<and> grows se w0 w"])
  fix x w assume x: "x \<in> set (shared_stages (st_codecs (se_setup se)) (se_images se))" and w: "sim_good se B w \<and> grows se w0 w"
  show "safe (left_from se c w0) (run_shared_stage (se_setup se) x w) (run_shared_stage (calm_setup (se_setup se)) x w)"
    by (rule shared_stage_safe [OF env x, where B = B]) (use w in simp_all)
  show "sim_good se B w' \<and> grows se w0 w'" if "run_shared_stage (calm_setup (se_setup se)) x w = (Inr u, w')" for u w'
    using shared_stage_ok [OF env, of x B w] x w that by (auto simp: step_ok_def intro: grows_trans)
qed (use w in simp)

section \<open>The branches\<close>

lemma grows_mesh:
  assumes "grows se w0 w" "fs_data (sw_files w) (mesh_place (st_layout (se_setup se)) b) = None"
  shows "grows se w0 (after_write (mesh_place (st_layout (se_setup se)) b) t w)"
  using assms by (auto simp: grows_def)

lemma grows_write:
  assumes "grows se w0 w" "\<forall>b \<in> set task_branches. p \<noteq> mesh_place (st_layout (se_setup se)) b"
  shows "grows se w0 (after_write p t w)"
  using assms by (auto simp: grows_def)

text \<open>A plain append of an untouched branch.\<close>

lemma plain_untouched:
  assumes env: "env_ok (calm_env se)" and good: "sim_good se B w"
    and call: "(t, p) \<in> sim_calls (st_codecs (se_setup se)) (st_events (se_setup se)) (se_images se)" "t \<noteq> ''artifact_created''"
    and free: "branch_untouched (st_layout (se_setup se)) (sw_files w) (jn_events (sw_journal w)) b"
    and run: "sim_append (calm_setup (se_setup se)) t p w = (Inr u, w')"
  shows "branch_untouched (st_layout (se_setup se)) (sw_files w') (jn_events (sw_journal w')) b"
proof -
  have "w' = appended (se_setup se) t p w"
    using sim_append_accepted [OF env, of w t p] good_base [OF good] call(1) run by simp
  moreover have "branch_untouched (st_layout (se_setup se)) (sw_files (appended (se_setup se) t p w))
      (jn_events (sw_journal (appended (se_setup se) t p w))) b"
    using appended_untouched [OF env call(2), of p w b] free by (simp del: appended_keeps)
  ultimately show ?thesis by simp
qed

text \<open>The parts of \<open>produce_artifact\<close>: two events, the two files, two events.\<close>

abbreviation started_payload :: "codecs \<Rightarrow> string \<Rightarrow> string \<Rightarrow> (string \<times> json) list" where
  "started_payload cs stage b \<equiv> stage_payload stage b [] ''STAGE_STARTED'' (cs_zh cs (b @ ''.simulation.started''))"

abbreviation progress_payload :: "codecs \<Rightarrow> string \<Rightarrow> string \<Rightarrow> (string \<times> json) list" where
  "progress_payload cs stage b \<equiv> stage_payload stage b
     [percent [(''completed_units'', JInt 1), (''total_units'', JInt 1)], (''metrics'', JObject [(''simulation'', JBool True)])]
     ''STAGE_PROGRESS'' (cs_zh cs (b @ ''.simulation.progress''))"

abbreviation completed_payload :: "codecs \<Rightarrow> string \<Rightarrow> string \<Rightarrow> (string \<times> json) list" where
  "completed_payload cs stage b \<equiv> stage_payload stage b [] ''STAGE_COMPLETED'' (cs_zh cs (b @ ''.simulation.completed''))"

definition manifest_text :: "codecs \<Rightarrow> codec \<Rightarrow> string \<Rightarrow> string" where
  "manifest_text cs cd b =
     json_text cs (artifact_manifest b (mesh_relative b) (cs_sha256 cs (minimal_glb cd)) (int (length (minimal_glb cd))))"

definition branch_ended :: "sim_setup \<Rightarrow> string \<Rightarrow> string \<Rightarrow> unit sim_step" where
  "branch_ended st stage b w =
     followed_by (sim_append st ''artifact_created'' (artifact_payload (st_codecs st) (st_events st) stage b) w) (\<lambda>_ w.
     sim_append st ''stage_completed'' (completed_payload (st_codecs st) stage b) w)"

definition branch_written :: "sim_setup \<Rightarrow> string \<Rightarrow> string \<Rightarrow> unit sim_step" where
  "branch_written st stage b w =
     followed_by (sim_write st (mesh_place (st_layout st) b) (minimal_glb (st_events st)) w) (\<lambda>_ w.
     followed_by (sim_write st (manifest_place (st_layout st) b) (manifest_text (st_codecs st) (st_events st) b) w) (\<lambda>_ w.
     branch_ended st stage b w))"

lemma branch_calls_in:
  assumes "b \<in> set task_branches" "branch_stage b = Inr stage"
  shows "(''stage_started'', started_payload cs stage b) \<in> sim_calls cs cd n"
    "(''stage_progress'', progress_payload cs stage b) \<in> sim_calls cs cd n"
    "(''stage_completed'', completed_payload cs stage b) \<in> sim_calls cs cd n"
    "(''artifact_created'', artifact_payload cs cd stage b) \<in> sim_calls cs cd n"
  using sim_calls_stage [OF assms, of cs cd n] unfolding branch_calls_def by blast+

lemma not_artifact_types: "''stage_started'' \<noteq> ''artifact_created''" "''stage_progress'' \<noteq> ''artifact_created''" "''stage_completed'' \<noteq> ''artifact_created''"
  by simp_all

lemma branch_ended_safe:
  assumes env: "env_ok (calm_env se)" and b: "b \<in> set task_branches" "branch_stage b = Inr stage" and B: "b \<in> B"
    and v: "sim_good se (B - {b}) v" "grows se w0 v" "artifact_events b (jn_events (sw_journal v)) = []"
      "fs_data (sw_files v) (mesh_place (st_layout (se_setup se)) b) = Some (minimal_glb (st_events (se_setup se)))"
  shows "safe (left_from se c w0) (branch_ended (se_setup se) stage b v) (branch_ended (calm_setup (se_setup se)) stage b v)"
proof -
  let ?st = "se_setup se" let ?ct = "calm_setup ?st" let ?cs = "st_codecs ?st"
  have art: "step_ok (calm_env se) B v (sim_append ?ct ''artifact_created'' (artifact_payload ?cs (st_events ?st) stage b) v)"
    using append_artifact [OF env, of B b v stage] v(1,3,4) b B by simp
  show ?thesis
    unfolding branch_ended_def calm_setup_fields
  proof (rule safe_then)
    show "safe (left_from se c w0) (sim_append ?st ''artifact_created'' (artifact_payload ?cs (st_events ?st) stage b) v)
        (sim_append ?ct ''artifact_created'' (artifact_payload ?cs (st_events ?st) stage b) v)"
      by (rule append_safe [OF env v(1,2) branch_calls_in(4) [OF b] art])
    fix u v'
    assume "sim_append ?ct ''artifact_created'' (artifact_payload ?cs (st_events ?st) stage b) v = (Inr u, v')"
    then have "sim_good se B v'" "grows se w0 v'" using art v(2) by (auto simp: step_ok_def intro: grows_trans)
    from append_plain_safe [OF env this branch_calls_in(3) [OF b] not_terminal_types(3) not_artifact_types(3)]
    show "safe (left_from se c w0) (sim_append ?st ''stage_completed'' (completed_payload ?cs stage b) v')
        (sim_append ?ct ''stage_completed'' (completed_payload ?cs stage b) v')" .
  qed
qed

lemma branch_written_safe:
  assumes env: "env_ok (calm_env se)" and b: "b \<in> set task_branches" "branch_stage b = Inr stage" and B: "b \<in> B"
    and v: "sim_good se B v" "grows se w0 v" "branch_untouched (st_layout (se_setup se)) (sw_files v) (jn_events (sw_journal v)) b"
  shows "safe (left_from se c w0) (branch_written (se_setup se) stage b v) (branch_written (calm_setup (se_setup se)) stage b v)"
proof -
  let ?st = "se_setup se" let ?ct = "calm_setup ?st" let ?E = "left_from se c w0"
  let ?m = "mesh_place (st_layout ?st) b" let ?n = "manifest_place (st_layout ?st) b"
  let ?glb = "minimal_glb (st_events ?st)" let ?t = "manifest_text (st_codecs ?st) (st_events ?st) b"
  show ?thesis
    unfolding branch_written_def calm_setup_fields
  proof (rule safe_then)
    show "safe ?E (sim_write ?st ?m ?glb v) (sim_write ?ct ?m ?glb v)" by (rule write_safe [OF good_left [OF v(1,2)]])
    fix u v3
    assume "sim_write ?ct ?m ?glb v = (Inr u, v3)"
    then have v3: "v3 = after_write ?m ?glb v" using sim_write_calm [OF env, of ?m ?glb v] by simp
    have g3: "sim_good se (B - {b}) v3"
      unfolding v3 by (rule after_mesh_good [OF v(1) b(1) minimal_glb_nonempty]) (use v(3) in \<open>simp add: branch_untouched_def\<close>)
    have grow3: "grows se w0 v3" unfolding v3 by (rule grows_mesh [OF v(2)]) (use v(3) in \<open>simp add: branch_untouched_def\<close>)
    show "safe ?E (followed_by (sim_write ?st ?n ?t v3) (\<lambda>_ w. branch_ended ?st stage b w))
        (followed_by (sim_write ?ct ?n ?t v3) (\<lambda>_ w. branch_ended ?ct stage b w))"
    proof (rule safe_then)
      show "safe ?E (sim_write ?st ?n ?t v3) (sim_write ?ct ?n ?t v3)" by (rule write_safe [OF good_left [OF g3 grow3]])
      fix u v4
      assume "sim_write ?ct ?n ?t v3 = (Inr u, v4)"
      then have v4: "v4 = after_write ?n ?t v3" using sim_write_calm [OF env, of ?n ?t v3] by simp
      show "safe ?E (branch_ended ?st stage b v4) (branch_ended ?ct stage b v4)"
      proof (rule branch_ended_safe [OF env b B])
        show "sim_good se (B - {b}) v4" unfolding v4 by (rule after_write_good [OF g3]) (simp_all add: own_places_in b(1))
        show "grows se w0 v4" unfolding v4 by (rule grows_write [OF grow3]) simp
      qed (use v(3) in \<open>simp_all add: v4 v3 branch_untouched_def\<close>)
    qed
  qed
qed

text \<open>From the first file on, \<open>produce_artifact\<close> is this.\<close>

lemma sim_write_cases:
  "sim_write st p t w = (Inl Os_error, w\<lparr>sw_tick := sw_tick w + 1\<rparr>) \<or> sim_write st p t w = (Inr (), after_write p t w)"
  by (simp add: sim_write_def atomic_write_def after_write_def)

lemma branch_written_shape:
  assumes env: "env_ok (calm_env se)" and b: "b \<in> set task_branches"
    and v: "sim_good se B v" "branch_untouched (st_layout (se_setup se)) (sw_files v) (jn_events (sw_journal v)) b"
    and st: "st = se_setup se \<or> st = calm_setup (se_setup se)"
  shows "followed_by (sim_write st (mesh_place (st_layout st) b) (minimal_glb (st_events st)) v) (\<lambda>_ w.
         reading (sha256_file (st_codecs st) (sw_files w) (mesh_place (st_layout st) b)) w (\<lambda>sha.
         reading (file_size (sw_files w) (mesh_place (st_layout st) b)) w (\<lambda>n.
         followed_by (sim_write st (manifest_place (st_layout st) b) (json_text (st_codecs st) (artifact_manifest b (mesh_relative b) sha n)) w) (\<lambda>_ w.
         reading (file_size (sw_files w) (mesh_place (st_layout st) b)) w (\<lambda>n.
         followed_by (sim_append st ''artifact_created''
           (stage_payload stage b [(''artifact'', glb_artifact (mesh_relative b) sha n)]
             ''ARTIFACT_CREATED'' (cs_zh (st_codecs st) (b @ ''.simulation.archived''))) w) (\<lambda>_ w.
         sim_append st ''stage_completed'' (completed_payload (st_codecs st) stage b) w)))))) = branch_written st stage b v"
proof -
  let ?m = "mesh_place (st_layout st) b" let ?n = "manifest_place (st_layout st) b"
  let ?glb = "minimal_glb (st_events st)" let ?t = "manifest_text (st_codecs st) (st_events st) b"
  have fields: "st_layout st = st_layout (se_setup se)" "st_events st = st_events (se_setup se)" "st_codecs st = st_codecs (se_setup se)"
    using st by auto
  have read: "sha256_file (st_codecs st) (sw_files w) ?m = Inr (cs_sha256 (st_codecs st) ?glb)" "file_size (sw_files w) ?m = Inr (int (length ?glb))"
    if "sim_good se C w" "fs_data (sw_files w) ?m = Some ?glb" for w C
    using read_mesh [OF env, of C w b] that by (simp_all add: fields sha256_file_def file_size_def)
  have g3: "sim_good se (B - {b}) (after_write ?m ?glb v)"
    unfolding fields by (rule after_mesh_good [OF v(1) b minimal_glb_nonempty]) (use v(2) in \<open>simp add: branch_untouched_def\<close>)
  have g4: "sim_good se (B - {b}) (after_write ?n ?t (after_write ?m ?glb v))"
    by (rule after_write_good [OF g3]) (simp_all add: fields own_places_in b)
  have size4: "file_size (sw_files (after_write ?n ?t (after_write ?m ?glb v))) ?m = Inr (int (length ?glb))"
    by (rule read(2) [OF g4]) simp
  from sim_write_cases [of st ?m ?glb v] sim_write_cases [of st ?n ?t "after_write ?m ?glb v"] read [OF g3] size4
  show ?thesis by (elim disjE) (simp_all add: branch_written_def branch_ended_def manifest_text_def artifact_payload_def)
qed

lemma produce_safe:
  assumes env: "env_ok (calm_env se)" and good: "sim_good se B w" "grows se w0 w"
    and b: "b \<in> set task_branches" "branch_stage b = Inr stage" and B: "b \<in> B"
    and free: "branch_untouched (st_layout (se_setup se)) (sw_files w) (jn_events (sw_journal w)) b"
  shows "safe (left_from se c w0) (produce_artifact (se_setup se) stage b (mesh_place (st_layout (se_setup se)) b) w)
    (produce_artifact (calm_setup (se_setup se)) stage b (mesh_place (st_layout (se_setup se)) b) w)"
proof -
  let ?st = "se_setup se" let ?ct = "calm_setup ?st" let ?cs = "st_codecs ?st" let ?E = "left_from se c w0"
  have sibling: "butlast (mesh_place (st_layout ?st) b) @ [''artifact-manifest.json''] = manifest_place (st_layout ?st) b"
    by (simp add: mesh_place_def manifest_place_def butlast_append)
  note calls = branch_calls_in [OF b]
  note shape = branch_written_shape [OF env b(1)]
  have written: "safe ?E (branch_written ?st stage b w2) (branch_written ?ct stage b w2)"
    if "sim_good se B w2" "grows se w0 w2" "branch_untouched (st_layout ?st) (sw_files w2) (jn_events (sw_journal w2)) b" for w2
    by (rule branch_written_safe [OF env b B that])
  show ?thesis
    unfolding produce_artifact_def Let_def calm_setup_fields sibling
  proof (rule safe_then [OF append_plain_safe [OF env good calls(1) not_terminal_types(1) not_artifact_types(1)]],
      rule safe_then, goal_cases)
    case (1 u w1)
    note w1 = plain_after [OF env good calls(1) not_terminal_types(1) not_artifact_types(1) 1]
    show ?case by (rule append_plain_safe [OF env w1 calls(2) not_terminal_types(2) not_artifact_types(2)])
  next
    case (2 u w1 u' w2)
    note w1 = plain_after [OF env good calls(1) not_terminal_types(1) not_artifact_types(1) 2(1)]
    note free1 = plain_untouched [OF env good(1) calls(1) not_artifact_types(1) free 2(1)]
    note w2 = plain_after [OF env w1 calls(2) not_terminal_types(2) not_artifact_types(2) 2(2)]
    note free2 = plain_untouched [OF env w1(1) calls(2) not_artifact_types(2) free1 2(2)]
    from written [OF w2 free2] shape [OF w2(1) free2, of ?st stage] shape [OF w2(1) free2, of ?ct stage]
    show ?case by simp
  qed
qed

lemma branch_safe:
  assumes env: "env_ok (calm_env se)" and good: "sim_good se B w" "grows se w0 w" and b: "b \<in> set task_branches"
  shows "safe (left_from se c w0) (run_branch (se_setup se) b w) (run_branch (calm_setup (se_setup se)) b w)"
proof (cases "b \<in> B \<and> branch_untouched (st_layout (se_setup se)) (sw_files w) (jn_events (sw_journal w)) b")
  case True
  let ?l = "st_layout (se_setup se)"
  obtain stage where stage: "branch_stage b = Inr stage" using branch_stage_defined [OF b] by blast
  have tree: "same_tree ?l (se_files se) (sw_files w)" "plain_root (se_files se) ?l"
    using env good(1) by (simp_all add: env_ok_def sim_good_def sim_base_def Let_def)
  have place: "resolve (sw_files w) ?l (mesh_relative b) = Inr (mesh_place ?l b)"
    using plain_paths(5) [OF same_tree_plain [OF tree] b] .
  have "artifact_event b (sw_journal w) = Inr None"
    using True by (simp add: artifact_event_def branch_untouched_def artifact_events_def)
  then show ?thesis
    using produce_safe [OF env good b stage, of c] True by (simp add: run_branch_def stage place)
next
  case False
  have "branch_untracked (st_layout (se_setup se)) (sw_files w) (jn_events (sw_journal w)) b \<or>
      branch_recorded (st_codecs (se_setup se)) (st_layout (se_setup se)) (sw_files w) (jn_events (sw_journal w)) b"
    using good(1) b False by (auto simp: sim_good_def Let_def branch_state_def split: if_splits)
  then have "artifact_event b (sw_journal w) \<noteq> Inr None \<or> path_exists (sw_files w) (mesh_place (st_layout (se_setup se)) b)"
    using read_mesh [OF env, of B w b] good(1)
    by (auto simp: branch_untracked_def branch_recorded_def artifact_event_def artifact_events_def path_exists_def is_file_def)
  then have "run_branch (se_setup se) b w = run_branch (calm_setup (se_setup se)) b w"
  proof -
    have tree: "same_tree (st_layout (se_setup se)) (se_files se) (sw_files w)" "plain_root (se_files se) (st_layout (se_setup se))"
      using env good(1) by (simp_all add: env_ok_def sim_good_def sim_base_def Let_def)
    assume "artifact_event b (sw_journal w) \<noteq> Inr None \<or> path_exists (sw_files w) (mesh_place (st_layout (se_setup se)) b)"
    then show ?thesis
      using plain_paths(5) [OF same_tree_plain [OF tree] b] branch_stage_defined [OF b]
      by (auto simp: run_branch_def check_recorded_artifact_def split: sum.split option.split)
  qed
  then show ?thesis by simp
qed

lemma branches_safe:
  assumes env: "env_ok (calm_env se)" and good: "sim_good se B w" "grows se w0 w"
  shows "safe (left_from se c w0) (run_branches (se_setup se) crash task_branches w)
    (run_branches (calm_setup (se_setup se)) crash task_branches w)"
  unfolding run_branches_def
proof (rule safe_each [where J = "\<lambda>w. sim_good se B w \<and> grows se w0 w"])
  fix b w assume b: "b \<in> set task_branches" and w: "sim_good se B w \<and> grows se w0 w"
  show "safe (left_from se c w0)
      (followed_by (run_branch (se_setup se) b w) (\<lambda>_ w. (require (crash \<noteq> Some b) (Simulated_crash (''simulated interruption after '' @ b)), w)))
      (followed_by (run_branch (calm_setup (se_setup se)) b w)
        (\<lambda>_ w. (require (crash \<noteq> Some b) (Simulated_crash (''simulated interruption after '' @ b)), w)))"
    by (rule safe_then [OF branch_safe [OF env _ _ b, where B = B]]) (use w in simp_all)
  show "sim_good se B w' \<and> grows se w0 w'"
    if "followed_by (run_branch (calm_setup (se_setup se)) b w)
        (\<lambda>_ w. (require (crash \<noteq> Some b) (Simulated_crash (''simulated interruption after '' @ b)), w)) = (Inr u, w')" for u w'
  proof (cases "b \<in> B")
    case True
    have "branch_step_ok (calm_env se) B b w (run_branch (calm_setup (se_setup se)) b w)"
      using branch_ok [OF env, of B w b] w b True by simp
    then show ?thesis using that w by (auto simp: branch_step_ok_def intro: grows_trans)
  next
    case False
    with branch_refused [OF env, of B w b] w b that show ?thesis by simp
  qed
qed (use good in simp)

section \<open>The whole run\<close>

text \<open>Between the result and the last event the journal is open.\<close>

lemma base_left:
  assumes "sim_base se w" "grows se w0 w" "result_there (st_codecs (se_setup se)) (st_layout (se_setup se)) c result (sw_files w)"
  shows "left_from se c w0 (sw_files w)"
  using assms grows_kept [OF assms(2)] unfolding left_from_def left_files_def sim_base_def Let_def by blast

lemma finished_left:
  assumes "finished_files (st_codecs (se_setup se)) (st_events (se_setup se)) (st_layout (se_setup se)) (se_job se) (se_attempt se)
      (se_files se) c result (sw_files w)" "grows se w0 w"
  shows "left_from se c w0 (sw_files w)"
  using assms grows_kept [OF assms(2)] unfolding left_from_def left_files_def finished_files_def Let_def by blast

lemma last_append_safe:
  assumes env: "env_ok (calm_env se)" and base: "sim_base se w" "grows se w0 w"
    and there: "result_there (st_codecs (se_setup se)) (st_layout (se_setup se)) c result (sw_files w)"
    and call: "(''job_succeeded'', p) \<in> sim_calls (st_codecs (se_setup se)) (st_events (se_setup se)) (se_images se)"
  shows "safe (left_from se c w0) (sim_append (se_setup se) ''job_succeeded'' p w) (sim_append (calm_setup (se_setup se)) ''job_succeeded'' p w)"
    and "left_from se c w0 (sw_files (appended (se_setup se) ''job_succeeded'' p w))"
    and "finished_files (st_codecs (se_setup se)) (st_events (se_setup se)) (st_layout (se_setup se)) (se_job se) (se_attempt se)
      (se_files se) c result (sw_files (appended (se_setup se) ''job_succeeded'' p w))"
proof -
  let ?st = "se_setup se" let ?w = "appended ?st ''job_succeeded'' p w" let ?E = "left_from se c w0"
  obtain e where e: "jn_events (sw_journal ?w) = jn_events (sw_journal w) @ [e]" "is_terminal_event e"
    "events_ok (st_events ?st) (se_job se) (se_attempt se) (jn_events (sw_journal w) @ [e])"
    "fs_data (sw_files ?w) = (fs_data (sw_files w))(record_place (st_layout ?st) ''pipeline-events.jsonl'' \<mapsto>
         journal_text (st_events ?st) (jn_events (sw_journal w) @ [e]))"
    "same_tree (st_layout ?st) (se_files se) (sw_files ?w)"
    using last_event_ok [OF env, of w p] base(1) call by (simp del: appended_keeps) blast
  have "result_there (st_codecs ?st) (st_layout ?st) c result (sw_files ?w)" using there by (simp add: result_there_def e(4))
  then show fin: "finished_files (st_codecs ?st) (st_events ?st) (st_layout ?st) (se_job se) (se_attempt se) (se_files se) c result (sw_files ?w)"
    unfolding finished_files_def using e(2-5) by auto
  have "grows se w ?w" using e(1) by (auto simp: grows_def e(4) prefix_def)
  then show ended: "?E (sw_files ?w)" using finished_left [OF fin] grows_trans [OF base(2)] by blast
  have "?E (with_journal se (journal_text (st_events ?st) (jn_events (sw_journal w))) (sw_files w))"
    using base_left [OF base_journal [OF base(1)], of w0 c result] base(2) there by (simp add: grows_def result_there_def)
  moreover have "?E (with_journal se s (sw_files w))" if "s \<noteq> []" "last s \<noteq> newline" for s
    using torn_left [OF base that] .
  ultimately show "safe ?E (sim_append ?st ''job_succeeded'' p w) (sim_append (calm_setup ?st) ''job_succeeded'' p w)"
    using append_outcome [OF env base(1) call] ended unfolding safe_def by metis
qed

lemma end_of_run_safe:
  assumes env: "env_ok (calm_env se)" and good: "sim_good se (set task_branches) w" "grows se w0 w" and events: "jn_events (sw_journal w) \<noteq> []"
    and request: "request_read se request c"
    and there: "\<forall>b \<in> set task_branches. fs_data (sw_files w) (mesh_place (st_layout (se_setup se)) b) \<noteq> None"
  shows "safe (left_from se c w0) (end_of_run (se_setup se) request (record_place (st_layout (se_setup se)) ''pipeline-result.json'') w)
    (end_of_run (calm_setup (se_setup se)) request (record_place (st_layout (se_setup se)) ''pipeline-result.json'') w)"
proof -
  let ?st = "se_setup se" let ?ct = "calm_setup (se_setup se)" let ?E = "left_from se c w0" let ?l = "st_layout ?st"
  let ?p = "percent [] # message ''JOB_SUCCEEDED'' (cs_zh (st_codecs ?st) ''simulation.succeeded'')"
  have g: "sim_good (calm_env se) (set task_branches) w" "request_read (calm_env se) request c"
    "\<forall>b \<in> set task_branches. fs_data (sw_files w) (mesh_place (st_layout (se_setup (calm_env se))) b) \<noteq> None"
    using good(1) request there by simp_all
  from end_of_run_ok [OF env g(1) events g(2,3)]
  obtain result w1 w2 where e: "write_output_validation ?ct task_branches w = (Inr (), w1)" "sim_good se (set task_branches) w1" "grows se w w1"
    "build_result ?ct request task_branches w1 = (Inr result, w1\<lparr>sw_tick := sw_tick w1 + 1\<rparr>)"
    "w2 = after_write (record_place ?l ''pipeline-result.json'') (json_text (st_codecs ?st) result) (w1\<lparr>sw_tick := sw_tick w1 + 1\<rparr>)"
    "sim_base se w2" "grows se w w2" "result_there (st_codecs ?st) ?l c result (sw_files w2)"
    by (simp del: after_write_keeps) blast
  have grow: "grows se w0 w1" "grows se w0 w2" using good(2) e(3,7) by (blast intro: grows_trans)+
  have same: "build_result ?st request task_branches w1 = build_result ?ct request task_branches w1"
  proof -
    have "parse_time ?ct = parse_time ?st" "branch_result ?ct = branch_result ?st"
      by (simp_all add: fun_eq_iff parse_time_def branch_result_def)
    then show ?thesis by (simp add: build_result_def)
  qed
  have call: "(''job_succeeded'', ?p) \<in> sim_calls (st_codecs ?st) (st_events ?st) (se_images se)" by (simp add: sim_calls_def)
  have validation: "write_output_validation st task_branches w = reading (output_validation_path (sw_files w) ?l) w (\<lambda>p.
      sim_write st p (json_text (st_codecs ?st) (output_validation task_branches)) w)" if "st = ?st \<or> st = ?ct" for st
    using that by (auto simp: write_output_validation_def)
  show ?thesis
    unfolding end_of_run_def
  proof (rule safe_then)
    show "safe ?E (write_output_validation ?st task_branches w) (write_output_validation ?ct task_branches w)"
      using validation by (simp add: safe_reading write_safe good_left [OF good])
    fix u v1
    assume "write_output_validation ?ct task_branches w = (Inr u, v1)"
    then have v1: "v1 = w1" using e(1) by simp
    have calm_write: "sim_write ?ct (record_place ?l ''pipeline-result.json'') (json_text (st_codecs ?st) result) (w1\<lparr>sw_tick := sw_tick w1 + 1\<rparr>) = (Inr (), w2)"
      using sim_write_calm [OF env] e(5) by simp
    have "safe ?E
        (followed_by (sim_write ?st (record_place ?l ''pipeline-result.json'') (json_text (st_codecs ?st) result) (w1\<lparr>sw_tick := sw_tick w1 + 1\<rparr>))
          (\<lambda>_ w. followed_by (sim_append ?st ''job_succeeded'' ?p w) (\<lambda>_ w. (Inr (result, False), w))))
        (followed_by (sim_write ?ct (record_place ?l ''pipeline-result.json'') (json_text (st_codecs ?st) result) (w1\<lparr>sw_tick := sw_tick w1 + 1\<rparr>))
          (\<lambda>_ w. followed_by (sim_append ?ct ''job_succeeded'' ?p w) (\<lambda>_ w. (Inr (result, False), w))))"
    proof (rule safe_then)
      show "safe ?E (sim_write ?st (record_place ?l ''pipeline-result.json'') (json_text (st_codecs ?st) result) (w1\<lparr>sw_tick := sw_tick w1 + 1\<rparr>))
          (sim_write ?ct (record_place ?l ''pipeline-result.json'') (json_text (st_codecs ?st) result) (w1\<lparr>sw_tick := sw_tick w1 + 1\<rparr>))"
        by (rule write_safe) (use good_left [OF e(2) grow(1)] in simp)
      fix u v2
      assume "sim_write ?ct (record_place ?l ''pipeline-result.json'') (json_text (st_codecs ?st) result) (w1\<lparr>sw_tick := sw_tick w1 + 1\<rparr>) = (Inr u, v2)"
      then have v2: "v2 = w2" using calm_write by simp
      show "safe ?E (followed_by (sim_append ?st ''job_succeeded'' ?p v2) (\<lambda>_ w. (Inr (result, False), w)))
          (followed_by (sim_append ?ct ''job_succeeded'' ?p v2) (\<lambda>_ w. (Inr (result, False), w)))"
        unfolding v2 by (rule safe_then [OF last_append_safe(1) [OF env e(6) grow(2) e(8) call]]) simp
    qed
    then show "safe ?E
        (followed_by (build_result ?st request task_branches v1) (\<lambda>result w.
         reading (validate_contract (st_codecs ?st) ''pipeline-result'' result) w (\<lambda>_.
         followed_by (sim_write ?st (record_place ?l ''pipeline-result.json'') (json_text (st_codecs ?st) result) w) (\<lambda>_ w.
         followed_by (sim_append ?st ''job_succeeded''
           (percent [] # message ''JOB_SUCCEEDED'' (cs_zh (st_codecs ?st) ''simulation.succeeded'')) w) (\<lambda>_ w.
         (Inr (result, False), w))))))
        (followed_by (build_result ?ct request task_branches v1) (\<lambda>result w.
         reading (validate_contract (st_codecs ?ct) ''pipeline-result'' result) w (\<lambda>_.
         followed_by (sim_write ?ct (record_place ?l ''pipeline-result.json'') (json_text (st_codecs ?ct) result) w) (\<lambda>_ w.
         followed_by (sim_append ?ct ''job_succeeded''
           (percent [] # message ''JOB_SUCCEEDED'' (cs_zh (st_codecs ?ct) ''simulation.succeeded'')) w) (\<lambda>_ w.
         (Inr (result, False), w))))))"
      using e(4) same unfolding v1
      by (cases "validate_contract (st_codecs ?st) ''pipeline-result'' result") (simp_all add: safe_reading)
  qed
qed

lemma new_result_safe:
  assumes env: "env_ok (calm_env se)" and good: "sim_good se B w" and request: "request_read se request c"
  shows "safe (left_from se c w) (new_result (se_setup se) crash request (record_place (st_layout (se_setup se)) ''pipeline-result.json'') w)
    (new_result (calm_setup (se_setup se)) crash request (record_place (st_layout (se_setup se)) ''pipeline-result.json'') w)"
proof -
  let ?st = "se_setup se" let ?ct = "calm_setup (se_setup se)" let ?E = "left_from se c w" let ?p = "record_place (st_layout ?st) ''pipeline-result.json''"
  have images: "se_images (calm_env se) = se_images se" by simp
  show ?thesis
    unfolding new_result_parts [OF request] new_result_parts [of "calm_env se", unfolded calm_worlds images, OF request]
  proof (rule safe_then)
    show "safe ?E (first_event ?st w) (first_event ?ct w)" by (rule first_event_safe [OF env good grows_refl])
    fix u w1
    assume run1: "first_event ?ct w = (Inr u, w1)"
    have "step_ok (calm_env se) B w (first_event ?ct w)" using first_event_ok [OF env, of B w] good by simp
    then have w1: "sim_good se B w1" "grows se w w1" using run1 by (auto simp: step_ok_def)
    have events1: "jn_events (sw_journal w1) \<noteq> []"
    proof -
      have "\<exists>t p. first_event ?ct w = sim_append ?ct t p w \<and> (t, p) \<in> sim_calls (st_codecs ?st) (st_events ?st) (se_images se)"
        by (simp add: first_event_def sim_calls_def) blast
      then obtain t p where "first_event ?ct w = (Inr (), appended ?st t p w)"
        using sim_append_accepted [OF env] good_base [OF good] by (metis calm_env_fields(1,6) calm_setup_fields(1,2) calm_worlds(1,5))
      then show ?thesis using run1 by auto
    qed
    show "safe ?E (followed_by (run_shared_stages ?st (se_images se) w1) (\<lambda>_ w.
        followed_by (run_branches ?st crash task_branches w) (\<lambda>_ w. end_of_run ?st request ?p w)))
      (followed_by (run_shared_stages ?ct (se_images se) w1) (\<lambda>_ w.
        followed_by (run_branches ?ct crash task_branches w) (\<lambda>_ w. end_of_run ?ct request ?p w)))"
    proof (rule safe_then)
      show "safe ?E (run_shared_stages ?st (se_images se) w1) (run_shared_stages ?ct (se_images se) w1)"
        by (rule shared_stages_safe [OF env w1])
      fix u w2
      assume run2: "run_shared_stages ?ct (se_images se) w1 = (Inr u, w2)"
      have "step_ok (calm_env se) B w1 (run_shared_stages ?ct (se_images se) w1)" using shared_stages_ok [OF env, of B w1] w1(1) by simp
      then have w2: "sim_good se B w2" "grows se w1 w2" using run2 by (auto simp: step_ok_def)
      have grow2: "grows se w w2" using w1(2) w2(2) by (rule grows_trans)
      show "safe ?E (followed_by (run_branches ?st crash task_branches w2) (\<lambda>_ w. end_of_run ?st request ?p w))
        (followed_by (run_branches ?ct crash task_branches w2) (\<lambda>_ w. end_of_run ?ct request ?p w))"
      proof (rule safe_then)
        show "safe ?E (run_branches ?st crash task_branches w2) (run_branches ?ct crash task_branches w2)"
          by (rule branches_safe [OF env w2(1) grow2])
        fix u w3
        assume run3: "run_branches ?ct crash task_branches w2 = (Inr u, w3)"
        have "sim_good (calm_env se) B w2" using w2(1) by simp
        from run_branches_ok [OF env this order_refl, of crash] run3
        have w3: "sim_good se B w3" "grows se w2 w3" "set task_branches \<subseteq> B"
          "\<forall>b \<in> set task_branches. fs_data (sw_files w3) (mesh_place (st_layout ?st) b) \<noteq> None"
          by (simp_all del: list.set)
        have "grows se w1 w3" using w2(2) w3(2) by (rule grows_trans)
        then have "jn_events (sw_journal w3) \<noteq> []" using events1 by (auto simp: grows_def)
        from end_of_run_safe [OF env good_all [OF w3(1,3)] grows_trans [OF grow2 w3(2)] this request w3(4)]
        show "safe ?E (end_of_run ?st request ?p w3) (end_of_run ?ct request ?p w3)" .
      qed
    qed
  qed
qed

text \<open>What a run without a result before it leaves.\<close>

lemma new_result_left:
  assumes env: "env_ok (calm_env se)" and good: "sim_good se B w" and request: "request_read se request c"
  shows "left_from se c w (sw_files (snd (new_result (se_setup se) crash request
    (record_place (st_layout (se_setup se)) ''pipeline-result.json'') w)))"
proof -
  let ?p = "record_place (st_layout (se_setup se)) ''pipeline-result.json''"
  have "sim_good (calm_env se) B w" "request_read (calm_env se) request c" using good request by simp_all
  from new_result_ok [OF env this, of crash]
  obtain r w' where calm: "new_result (calm_setup (se_setup se)) crash request ?p w = (r, w')" "grows se w w'"
    "isl r \<longrightarrow> sim_good se B w'"
    "\<forall>result. r = Inr result \<longrightarrow> finished_files (st_codecs (se_setup se)) (st_events (se_setup se)) (st_layout (se_setup se))
       (se_job se) (se_attempt se) (se_files se) c (fst result) (sw_files w')"
    by (simp del: list.set) blast
  have "left_from se c w (sw_files w')"
    using good_left [OF _ calm(2)] finished_left [OF _ calm(2)] calm(3,4) by (cases r) auto
  with new_result_safe [OF env good request, of crash] calm(1) show ?thesis by (auto simp: safe_def)
qed

end
