(* ===== verification/Unary_Codec.thy ===== *)
theory Unary_Codec
  imports Json_Values "HOL-Library.Countable"
begin

text \<open>
  A codec for examples that keeps every value: JSON values are countable, and a value is written as its
  number in unary.
\<close>

instance py_float :: countable
  by countable_datatype

instance json :: countable
  by countable_datatype

definition unary :: "json \<Rightarrow> string" where
  "unary v = replicate (Suc (to_nat v)) (CHR ''x'')"

definition of_unary :: "string \<Rightarrow> json" where
  "of_unary s = from_nat (length s - 1)"

lemma of_unary [simp]: "of_unary (unary v) = v"
  by (simp add: of_unary_def unary_def)

lemma unary_not_Nil [simp]: "unary v \<noteq> []"
  by (simp add: unary_def)

lemma set_unary: "set (unary v) = {CHR ''x''}"
  unfolding unary_def by (rule set_replicate_Suc)

text \<open>A file of the codec ends in a newline; \<open>loads\<close> gives the texts that are not written by it.\<close>

definition unary_codecs :: "(string \<rightharpoonup> json) \<Rightarrow> codecs" where
  "unary_codecs loads = \<lparr>cs_sha256 = \<lambda>_. replicate 64 (CHR ''0''),
     cs_loads = \<lambda>s. (case loads s of Some v \<Rightarrow> Decoded v | None \<Rightarrow> Decoded (sort_keys (of_unary (butlast s)))),
     cs_dumps = unary, cs_valid = \<lambda>_ _. True, cs_zh = \<lambda>s. s\<rparr>"

lemma unary_keeps_json:
  assumes "\<And>v. loads (unary v @ [char_of (10 :: nat)]) = None"
  shows "keeps_json (unary_codecs loads) name v"
proof -
  have written: "json_text (unary_codecs loads) v = unary v @ [char_of (10 :: nat)]"
    by (simp add: json_text_def unary_codecs_def)
  have "cs_loads (unary_codecs loads) (u @ [c]) = Decoded (sort_keys (of_unary u))" if "loads (u @ [c]) = None" for u c
    using that by (simp add: unary_codecs_def)
  from this [OF assms] have loaded: "cs_loads (unary_codecs loads) (json_text (unary_codecs loads) v) = Decoded (sort_keys v)"
    unfolding written of_unary .
  have "cs_valid (unary_codecs loads) name (sort_keys v) = cs_valid (unary_codecs loads) name v"
    by (simp add: unary_codecs_def)
  with loaded show ?thesis unfolding keeps_json_def by (rule conjI)
qed

lemma unary_text_differs:
  assumes "CHR ''x'' \<notin> set s \<or> s = []"
  shows "unary v @ [c] \<noteq> s"
proof
  assume "unary v @ [c] = s"
  then have s: "s = unary v @ [c]" by (rule sym)
  have "CHR ''x'' \<in> set (unary v @ [c])" unfolding set_append set_unary by (rule UnI1, rule singletonI)
  with assms show False unfolding s by blast
qed

end
