(* ===== verification/Simulation_Theorems.thy ===== *)
theory Simulation_Theorems
  imports Simulation_Faults Unary_Codec
begin

text \<open>
  Interrupted simulated tasks. Any write of a run may fail, any append may be torn and any run may stop after a
  branch. What such runs leave of a task is one of four kinds of files, and each kind says what the next run
  does: it goes on where the last one stopped, it returns the result that is there, or it is refused because the
  last line of the journal is torn or because a file of a branch is there that no event records.
\<close>

section \<open>A task and its runs\<close>

text \<open>
  What is given of a task: a plain directory, a valid request for its three branches and an intact input.
  The contracts accept what the runner writes for it.
\<close>

definition simulated_task ::
  "codecs \<Rightarrow> (string \<Rightarrow> int option) \<Rightarrow> task_layout \<Rightarrow> file_system \<Rightarrow> json \<Rightarrow> copied \<Rightarrow> string \<Rightarrow> int \<Rightarrow> string \<Rightarrow> json \<Rightarrow> bool" where
  "simulated_task cs read_time l fs0 request c job attempt request_id image_count \<longleftrightarrow>
     plain_root fs0 l \<and> (\<forall>p \<in> own_places l. \<not> fs_dir fs0 p) \<and> ensure_worker_directories fs0 l = Inr () \<and>
     load_json_contract cs fs0 (record_place l ''pipeline-request.json'') ''pipeline-request'' = Inr request \<and>
     validate_simulation_identity l request = Inr () \<and> validate_task_input cs fs0 l request = Inr () \<and> input_paths request \<and>
     json_field ''job_id'' request = Some (JString job) \<and> json_field ''attempt'' request = Some (JInt attempt) \<and>
     json_field ''request_id'' request = Some (JString request_id) \<and>
     json_field ''branches'' request = Some (JList (map JString task_branches)) \<and>
     item2 ''input'' ''image_count'' request = Inr image_count \<and>
     copy_request request = Inr c \<and> results_accepted cs read_time c"

text \<open>
  The conditions of one run: its clock can be read and the event contract accepts its events. A run is
  undisturbed when in addition no write fails and no append is torn.
\<close>

type_synonym sim_run = "string \<times> chances"

definition run_able :: "codecs \<Rightarrow> codec \<Rightarrow> (string \<Rightarrow> int option) \<Rightarrow> string \<Rightarrow> int \<Rightarrow> json \<Rightarrow> sim_run \<Rightarrow> bool" where
  "run_able cs cd read_time job attempt image_count r \<longleftrightarrow>
     (case r of (worker, ch) \<Rightarrow> (\<forall>n. read_time (replace_z (ch_now ch n)) \<noteq> None) \<and>
        events_accepted cs cd image_count job attempt worker ch)"

definition undisturbed :: "chances \<Rightarrow> bool" where
  "undisturbed ch \<longleftrightarrow> (\<forall>n. ch_torn ch n = None \<and> \<not> ch_failed ch n)"

definition run_setup :: "codecs \<Rightarrow> codec \<Rightarrow> (string \<Rightarrow> int option) \<Rightarrow> task_layout \<Rightarrow> chances \<Rightarrow> sim_setup" where
  "run_setup cs cd read_time l ch = \<lparr>st_codecs = cs, st_events = cd, st_chances = ch, st_layout = l,
     st_journal = record_place l ''pipeline-events.jsonl'', st_read_time = read_time\<rparr>"

definition run_env ::
  "codecs \<Rightarrow> codec \<Rightarrow> (string \<Rightarrow> int option) \<Rightarrow> task_layout \<Rightarrow> file_system \<Rightarrow> string \<Rightarrow> int \<Rightarrow> json \<Rightarrow> sim_run \<Rightarrow> sim_env" where
  "run_env cs cd read_time l fs0 job attempt image_count r =
     \<lparr>se_setup = run_setup cs cd read_time l (snd r), se_files = fs0, se_job = job, se_attempt = attempt,
       se_worker = fst r, se_images = image_count\<rparr>"

definition start_world :: "string \<Rightarrow> int \<Rightarrow> string \<Rightarrow> json list \<Rightarrow> file_system \<Rightarrow> sim_world" where
  "start_world job attempt worker es fs =
     \<lparr>sw_files = fs, sw_journal = \<lparr>jn_job_id = job, jn_attempt = attempt, jn_worker_id = worker, jn_events = es\<rparr>, sw_tick = 0\<rparr>"

lemma start_world_fields [simp]:
  "sw_files (start_world job attempt worker es fs) = fs" "jn_events (sw_journal (start_world job attempt worker es fs)) = es"
  by (simp_all add: start_world_def)

lemma run_env_fields [simp]:
  "se_setup (run_env cs cd read_time l fs0 job attempt image_count r) = run_setup cs cd read_time l (snd r)"
  "se_files (run_env cs cd read_time l fs0 job attempt image_count r) = fs0"
  "se_job (run_env cs cd read_time l fs0 job attempt image_count r) = job"
  "se_attempt (run_env cs cd read_time l fs0 job attempt image_count r) = attempt"
  "se_worker (run_env cs cd read_time l fs0 job attempt image_count r) = fst r"
  "se_images (run_env cs cd read_time l fs0 job attempt image_count r) = image_count"
  "st_codecs (run_setup cs cd read_time l ch) = cs" "st_events (run_setup cs cd read_time l ch) = cd"
  "st_chances (run_setup cs cd read_time l ch) = ch" "st_layout (run_setup cs cd read_time l ch) = l"
  "st_journal (run_setup cs cd read_time l ch) = record_place l ''pipeline-events.jsonl''"
  "st_read_time (run_setup cs cd read_time l ch) = read_time"
  by (simp_all add: run_env_def run_setup_def)

lemma env_of_run:
  assumes "simulated_task cs read_time l fs0 request c job attempt rid image_count"
    and "run_able cs cd read_time job attempt image_count r"
  shows "env_ok (calm_env (run_env cs cd read_time l fs0 job attempt image_count r))"
  using assms
  by (cases r) (simp add: env_ok_def simulated_task_def run_able_def calm_def events_accepted_def)

lemma undisturbed_calm: "undisturbed ch \<Longrightarrow> calm_setup (run_setup cs cd read_time l ch) = run_setup cs cd read_time l ch"
  by (cases ch) (simp add: calm_setup_def calm_chances_def run_setup_def undisturbed_def fun_eq_iff)

lemma request_of_run:
  assumes "simulated_task cs read_time l fs0 request c job attempt rid image_count"
  shows "request_read (run_env cs cd read_time l fs0 job attempt image_count r) request c"
  using assms by (simp add: request_read_def simulated_task_def)

text \<open>What a run reads first of consistent files.\<close>

lemma input_same:
  assumes task: "simulated_task cs read_time l fs0 request c job attempt rid image_count" and tree: "same_tree l fs0 fs"
    and journal: "events_ok cd job attempt es"
      "case fs_data fs (record_place l ''pipeline-events.jsonl'') of None \<Rightarrow> es = [] | Some t \<Rightarrow> t = journal_text cd es"
  shows "simulation_input cs cd l worker fs =
    Inr (request, \<lparr>jn_job_id = job, jn_attempt = attempt, jn_worker_id = worker, jn_events = es\<rparr>, record_place l ''pipeline-events.jsonl'')"
proof -
  have plain: "plain_root fs0 l" and paths: "input_paths request"
    and fields: "json_field ''job_id'' request = Some (JString job)" "json_field ''attempt'' request = Some (JInt attempt)"
    using task by (simp_all add: simulated_task_def)
  note plain_fs = same_tree_plain [OF tree plain]
  have read: "read_file fs (record_place l n) = fs_data fs (record_place l n)" for n
    using plain_fs by (simp add: read_file_def plain_root_def record_place_def)
  have "load_existing cd job attempt (read_file fs (record_place l ''pipeline-events.jsonl'')) = Inr es"
    using journal load_written [OF journal(1)] by (auto simp: read load_existing_def split: option.splits)
  then have journal_opened: "open_task_journal cd fs (record_place l ''pipeline-events.jsonl'') request worker =
      Inr \<lparr>jn_job_id = job, jn_attempt = attempt, jn_worker_id = worker, jn_events = es\<rparr>"
    using fields by (simp add: open_task_journal_def item_Inr text_of_def int_of_def open_journal_def)
  have "load_json_contract cs fs (record_place l ''pipeline-request.json'') ''pipeline-request'' = Inr request"
    using task same_tree_input(2) [OF tree plain] by (simp add: simulated_task_def load_json_contract_def)
  then show ?thesis
    using task same_tree_directories [OF tree plain] same_tree_validate [OF tree plain paths] journal_opened
    by (simp add: simulation_input_def simulated_task_def plain_paths(1,2) [OF plain_fs])
qed

text \<open>A torn journal is refused.\<close>

lemma run_torn:
  assumes task: "simulated_task cs read_time l fs0 request c job attempt rid image_count" and tree: "same_tree l fs0 fs"
    and torn: "journal_torn l fs"
  shows "run_simulation cs cd read_time l worker ch crash fs =
    (Inl (Integrity ''event journal has an incomplete final line''), fs)"
proof -
  have plain: "plain_root fs0 l" and paths: "input_paths request"
    and fields: "json_field ''job_id'' request = Some (JString job)" "json_field ''attempt'' request = Some (JInt attempt)"
    using task by (simp_all add: simulated_task_def)
  note plain_fs = same_tree_plain [OF tree plain]
  have "load_existing cd job attempt (read_file fs (record_place l ''pipeline-events.jsonl'')) =
      Inl (Journal_integrity ''event journal has an incomplete final line'')"
    using plain_fs torn by (auto simp: read_file_def plain_root_def record_place_def load_existing_def journal_torn_def split: option.splits)
  then have refused: "open_task_journal cd fs (record_place l ''pipeline-events.jsonl'') request worker =
      Inl (Integrity ''event journal has an incomplete final line'')"
  proof -
    have "item ''job_id'' request = Inr (JString job)" "item ''attempt'' request = Inr (JInt attempt)" using fields by (simp_all add: item_Inr)
    then show ?thesis
      using \<open>load_existing _ _ _ _ = _\<close> by (simp add: open_task_journal_def text_of_def int_of_def open_journal_def journal_raised_def)
  qed
  have "load_json_contract cs fs (record_place l ''pipeline-request.json'') ''pipeline-request'' = Inr request"
    using task same_tree_input(2) [OF tree plain] by (simp add: simulated_task_def load_json_contract_def)
  then have "simulation_input cs cd l worker fs = Inl (Integrity ''event journal has an incomplete final line'')"
    using task same_tree_directories [OF tree plain] same_tree_validate [OF tree plain paths] refused
    by (simp add: simulation_input_def simulated_task_def plain_paths(1,2) [OF plain_fs])
  then show ?thesis by (simp add: run_simulation_def)
qed

section \<open>A run of an open journal\<close>

lemma start_base:
  assumes "same_tree l fs0 fs" "journal_open cd read_time l job attempt fs es"
  shows "sim_base (run_env cs cd read_time l fs0 job attempt image_count (worker, ch)) (start_world job attempt worker es fs)"
  using assms by (simp add: sim_base_def start_world_def Let_def)

lemma run_without_result:
  assumes task: "simulated_task cs read_time l fs0 request c job attempt rid image_count" and tree: "same_tree l fs0 fs"
    and journal: "journal_open cd read_time l job attempt fs es"
    and none: "fs_data fs (record_place l ''pipeline-result.json'') = None"
  shows "run_simulation cs cd read_time l worker ch crash fs =
    (case new_result (run_setup cs cd read_time l ch) crash request (record_place l ''pipeline-result.json'')
        (start_world job attempt worker es fs) of (r, w) \<Rightarrow> (r, sw_files w))"
proof -
  have plain: "plain_root fs0 l" and dirs: "\<forall>p \<in> own_places l. \<not> fs_dir fs0 p" using task by (simp_all add: simulated_task_def)
  note plain_fs = same_tree_plain [OF tree plain]
  have input: "simulation_input cs cd l worker fs =
    Inr (request, sw_journal (start_world job attempt worker es fs), record_place l ''pipeline-events.jsonl'')"
    unfolding start_world_def sim_world.simps
    by (rule input_same [OF task tree]) (use journal in \<open>simp_all add: journal_open_def\<close>)
  have "fs_real fs (record_place l n) = record_place l n" for n using plain_fs by (simp add: plain_root_def record_place_def)
  then have "\<not> path_exists fs (record_place l ''pipeline-result.json'')"
    using tree none dirs own_places_in(4) by (simp add: path_exists_def is_file_def read_file_def is_dir_def same_tree_def)
  moreover have "\<not> has_terminal_event (sw_journal (start_world job attempt worker es fs))"
    using journal by (auto simp: has_terminal_event_def journal_open_def start_world_def)
  ultimately show ?thesis
    by (simp add: run_simulation_def input plain_paths(3) [OF plain_fs]) (simp add: run_setup_def start_world_def)
qed

section \<open>A run where the result is there\<close>

lemma entry_artifacts:
  "item ''artifacts'' (sort_keys (snd (result_entry cs b x))) =
     Inr (JList [sort_keys (glb_artifact (mesh_relative b) (cs_sha256 cs x) (int (length x)))])"
  by (simp add: item_Inr) (simp add: result_entry_def json_field_def)

lemma result_accepted:
  assumes task: "simulated_task cs read_time l fs0 request c job attempt rid image_count"
    and tree: "same_tree l fs0 fs" and there: "result_there cs l c result fs"
  shows "path_exists fs (record_place l ''pipeline-result.json'')"
    and "load_json_contract cs fs (record_place l ''pipeline-result.json'') ''pipeline-result'' = Inr (sort_keys result)"
    and "validate_existing_result cs fs l request (sort_keys result) = Inr ()"
proof -
  have res: "fs_data fs (record_place l ''pipeline-result.json'') = Some (json_text cs result)"
    "keeps_json cs ''pipeline-result'' result" "cs_valid cs ''pipeline-result'' result"
    using there by (simp_all add: result_there_def)
  obtain s f d x where result: "result = result_object c s f d (map (\<lambda>b. result_entry cs b (x b)) task_branches)"
    and mesh: "\<And>b. b \<in> set task_branches \<Longrightarrow> fs_data fs (mesh_place l b) = Some (x b)"
    using there by (auto simp: result_there_def)
  have plain: "plain_root fs0 l" using task by (simp add: simulated_task_def)
  note plain_fs = same_tree_plain [OF tree plain]
  have read: "read_file fs (record_place l n) = fs_data fs (record_place l n)" "read_file fs (mesh_place l b) = fs_data fs (mesh_place l b)" for n b
    using plain_fs by (simp_all add: read_file_def plain_root_def record_place_def mesh_place_def)
  have loaded: "load_json_contract cs fs (record_place l ''pipeline-result.json'') ''pipeline-result'' = Inr (sort_keys result)"
    by (rule load_written_contract [OF res(2,3)]) (simp_all add: read res(1) result result_object_def is_object_def)
  have exists: "path_exists fs (record_place l ''pipeline-result.json'')" by (simp add: path_exists_def is_file_def read res(1))
  have fields: "json_field ''job_id'' request = Some (JString job)" "json_field ''attempt'' request = Some (JInt attempt)"
    "json_field ''request_id'' request = Some (JString rid)" "copy_request request = Inr c"
    using task by (simp_all add: simulated_task_def)
  then have copied: "cp_job_id c = JString job" "cp_attempt c = JInt attempt" "cp_request_id c = JString rid"
    by (auto simp: copy_request_def item_Inr)
  have shown: "json_field ''job_id'' result = Some (JString job)" "json_field ''request_id'' result = Some (JString rid)"
    "json_field ''attempt'' result = Some (JInt attempt)" "json_field ''execution_mode'' result = Some (JString ''simulated'')"
    "json_field ''branches'' result = Some (JObject (map (\<lambda>b. result_entry cs b (x b)) task_branches))"
    by (simp_all add: result result_object_def json_field_def copied)
  have artifact: "check_result_artifact cs fs l b (sort_keys (glb_artifact (mesh_relative b) (cs_sha256 cs (x b)) (int (length (x b))))) = Inr ()"
    if b: "b \<in> set task_branches" for b
  proof -
    have a: "json_field ''path'' (glb_artifact r h n) = Some (JString r)" "json_field ''size_bytes'' (glb_artifact r h n) = Some (JInt n)"
      "json_field ''sha256'' (glb_artifact r h n) = Some (JString h)" for r h n
      by (simp_all add: glb_artifact_def json_field_def)
    show ?thesis
      using plain_paths(5) [OF plain_fs b]
      by (simp add: check_result_artifact_def item_Inr a is_file_def read mesh [OF b] file_size_def sha256_file_def)
  qed
  have entries: "(b, v) \<in> set (sort_key fst (map (\<lambda>(k, v). (k, sort_keys v)) (map (\<lambda>b. result_entry cs b (x b)) task_branches))) \<longleftrightarrow>
      b \<in> set task_branches \<and> v = sort_keys (snd (result_entry cs b (x b)))" for b v
    by (auto simp: result_entry_def)
  have "each_checked (\<lambda>(branch, b). bind_checked (bind_checked (item ''artifacts'' b) elements_of)
      (each_checked (check_result_artifact cs fs l branch)))
      (sort_key fst (map (\<lambda>(k, v). (k, sort_keys v)) (map (\<lambda>b. result_entry cs b (x b)) task_branches))) = Inr ()"
    unfolding each_checked_Inr
  proof clarify
    fix k v
    assume "(k, v) \<in> set (sort_key fst (map (\<lambda>(k, v). (k, sort_keys v)) (map (\<lambda>b. result_entry cs b (x b)) task_branches)))"
    then have "k \<in> set task_branches" "v = sort_keys (snd (result_entry cs k (x k)))" unfolding entries by simp_all
    then have "bind_checked (item ''artifacts'' v) elements_of =
        Inr [sort_keys (glb_artifact (mesh_relative k) (cs_sha256 cs (x k)) (int (length (x k))))]"
      by (simp add: entry_artifacts)
    then show "bind_checked (bind_checked (item ''artifacts'' v) elements_of) (each_checked (check_result_artifact cs fs l k)) = Inr ()"
      using artifact [OF \<open>k \<in> set task_branches\<close>] by (simp only: bind_checked_simps each_checked.simps)
  qed
  then show "validate_existing_result cs fs l request (sort_keys result) = Inr ()"
    by (simp add: validate_existing_result_def same_item_def item_Inr fields shown ex_bool_eq)
  show "load_json_contract cs fs (record_place l ''pipeline-result.json'') ''pipeline-result'' = Inr (sort_keys result)" by (rule loaded)
  show "path_exists fs (record_place l ''pipeline-result.json'')" by (rule exists)
qed

text \<open>A run on the files of a finished task returns its result and changes nothing.\<close>

lemma run_reuses:
  assumes task: "simulated_task cs read_time l fs0 request c job attempt rid image_count"
    and fs: "finished_files cs cd l job attempt fs0 c result fs"
  shows "run_simulation cs cd read_time l worker ch crash fs = (Inr (sort_keys result, True), fs)"
proof -
  obtain es e where tree: "same_tree l fs0 fs" and es: "events_ok cd job attempt (es @ [e])" "is_terminal_event e"
    "fs_data fs (record_place l ''pipeline-events.jsonl'') = Some (journal_text cd (es @ [e]))"
    and there: "result_there cs l c result fs"
    using fs by (auto simp: finished_files_def)
  have plain: "plain_root fs0 l" using task by (simp add: simulated_task_def)
  define j where "j = \<lparr>jn_job_id = job, jn_attempt = attempt, jn_worker_id = worker, jn_events = es @ [e]\<rparr>"
  have input: "simulation_input cs cd l worker fs = Inr (request, j, record_place l ''pipeline-events.jsonl'')"
    unfolding j_def by (rule input_same [OF task tree es(1)]) (simp add: es(3))
  have "has_terminal_event j" using es(2) by (simp add: j_def has_terminal_event_def)
  then show ?thesis
    by (simp add: run_simulation_def input reuse_result_def result_accepted [OF task tree there]
        plain_paths(3) [OF same_tree_plain [OF tree plain]])
qed

text \<open>Where the last event is missing it is appended.\<close>

abbreviation recovered_payload :: "codecs \<Rightarrow> (string \<times> json) list" where
  "recovered_payload cs \<equiv> percent [] # message ''JOB_SUCCEEDED'' (cs_zh cs ''simulation.recovered'')"

lemma run_with_result:
  assumes task: "simulated_task cs read_time l fs0 request c job attempt rid image_count" and tree: "same_tree l fs0 fs"
    and journal: "journal_open cd read_time l job attempt fs es" and there: "result_there cs l c result fs"
  shows "run_simulation cs cd read_time l worker ch crash fs =
    (case followed_by (sim_append (run_setup cs cd read_time l ch) ''job_succeeded'' (recovered_payload cs) (start_world job attempt worker es fs))
       (\<lambda>_ w. (Inr (sort_keys result, True), w)) of (r, w) \<Rightarrow> (r, sw_files w))"
proof -
  have plain: "plain_root fs0 l" using task by (simp add: simulated_task_def)
  have input: "simulation_input cs cd l worker fs =
    Inr (request, sw_journal (start_world job attempt worker es fs), record_place l ''pipeline-events.jsonl'')"
    unfolding start_world_def sim_world.simps
    by (rule input_same [OF task tree]) (use journal in \<open>simp_all add: journal_open_def\<close>)
  have "\<not> has_terminal_event (sw_journal (start_world job attempt worker es fs))"
    using journal by (auto simp: has_terminal_event_def journal_open_def start_world_def)
  then show ?thesis
    by (simp add: run_simulation_def input reuse_result_def result_accepted [OF task tree there]
        plain_paths(3) [OF same_tree_plain [OF tree plain]] run_setup_def start_world_def)
qed

section \<open>What a run leaves\<close>

text \<open>Whatever fails, a run leaves files of one of the four kinds, and no file of a branch is lost.\<close>

lemma kept_refl [simp]: "meshes_kept l fs fs"
  by (simp add: meshes_kept_def)

lemma run_left:
  assumes task: "simulated_task cs read_time l fs0 request c job attempt rid image_count"
    and able: "run_able cs cd read_time job attempt image_count (worker, ch)"
    and fs: "left_files cs cd read_time l job attempt fs0 c fs"
  shows "left_files cs cd read_time l job attempt fs0 c (snd (run_simulation cs cd read_time l worker ch crash fs)) \<and>
    meshes_kept l fs (snd (run_simulation cs cd read_time l worker ch crash fs))"
proof -
  let ?se = "run_env cs cd read_time l fs0 job attempt image_count (worker, ch)" let ?w = "\<lambda>es. start_world job attempt worker es fs"
  have tree: "same_tree l fs0 fs" using fs by (simp add: left_files_def)
  note env = env_of_run [OF task able]
  consider "journal_torn l fs"
    | es B where "journal_open cd read_time l job attempt fs es" "fs_data fs (record_place l ''pipeline-result.json'') = None"
        "\<forall>b \<in> set task_branches. branch_state cs l fs es B b"
    | es result where "journal_open cd read_time l job attempt fs es" "result_there cs l c result fs"
    | result where "finished_files cs cd l job attempt fs0 c result fs"
    using fs unfolding left_files_def by blast
  then show ?thesis
  proof cases
    case 1
    with fs show ?thesis by (simp add: run_torn [OF task tree])
  next
    case 2
    have "sim_good ?se B (?w es)" using start_base [OF tree 2(1)] 2(2,3) by (simp add: sim_good_def Let_def)
    from new_result_left [OF env this request_of_run [OF task], of crash] show ?thesis
      by (simp add: run_without_result [OF task tree 2(1,2)] left_from_def Let_def case_prod_beta)
  next
    case 3
    have call: "(''job_succeeded'', recovered_payload cs) \<in> sim_calls (st_codecs (se_setup ?se)) (st_events (se_setup ?se)) (se_images ?se)"
      by (simp add: sim_calls_def)
    have base: "sim_base ?se (?w es)" by (rule start_base [OF tree 3(1)])
    have there: "result_there (st_codecs (se_setup ?se)) (st_layout (se_setup ?se)) c result (sw_files (?w es))" using 3(2) by simp
    have calm: "sim_append (calm_setup (run_setup cs cd read_time l ch)) ''job_succeeded'' (recovered_payload cs) (?w es) =
        (Inr (), appended (run_setup cs cd read_time l ch) ''job_succeeded'' (recovered_payload cs) (?w es))"
      using sim_append_accepted [OF env, of "?w es" "''job_succeeded''" "recovered_payload cs"] base call by simp
    show ?thesis
      using last_append_safe(1,2) [OF env base grows_refl there call] calm
      by (auto simp: run_with_result [OF task tree 3] safe_def left_from_def Let_def split: prod.split)
  next
    case 4
    with fs show ?thesis by (simp add: run_reuses [OF task])
  qed
qed

section \<open>What the next run does\<close>

text \<open>A file of a branch that no event of the journal records, before there is a result.\<close>

definition untracked_mesh :: "codec \<Rightarrow> task_layout \<Rightarrow> string \<Rightarrow> int \<Rightarrow> file_system \<Rightarrow> string \<Rightarrow> bool" where
  "untracked_mesh cd l job attempt fs b \<longleftrightarrow>
     fs_data fs (record_place l ''pipeline-result.json'') = None \<and> fs_data fs (mesh_place l b) \<noteq> None \<and>
     (case load_existing cd job attempt (fs_data fs (record_place l ''pipeline-events.jsonl'')) of
        Inl _ \<Rightarrow> False | Inr es \<Rightarrow> artifact_events b es = [])"

lemma open_loaded:
  assumes "journal_open cd read_time l job attempt fs es"
  shows "load_existing cd job attempt (fs_data fs (record_place l ''pipeline-events.jsonl'')) = Inr es" "\<not> journal_torn l fs"
proof -
  show load: "load_existing cd job attempt (fs_data fs (record_place l ''pipeline-events.jsonl'')) = Inr es"
    using assms load_written [of cd job attempt es] by (auto simp: journal_open_def load_existing_def split: option.splits)
  show "\<not> journal_torn l fs"
    using load by (auto simp: journal_torn_def load_existing_def split: option.splits if_splits)
qed

lemma untracked_state:
  assumes "journal_open cd read_time l job attempt fs es" "fs_data fs (record_place l ''pipeline-result.json'') = None"
    and "branch_state cs l fs es B b"
  shows "untracked_mesh cd l job attempt fs b \<longleftrightarrow> b \<notin> B"
  using assms(2,3) open_loaded(1) [OF assms(1)]
  by (auto simp: untracked_mesh_def branch_state_def branch_untouched_def branch_recorded_def branch_untracked_def split: if_splits)

lemma undisturbed_run:
  assumes task: "simulated_task cs read_time l fs0 request c job attempt rid image_count"
    and able: "run_able cs cd read_time job attempt image_count (worker, ch)" "undisturbed ch"
    and fs: "left_files cs cd read_time l job attempt fs0 c fs" and torn: "\<not> journal_torn l fs"
  shows "if \<exists>b \<in> set task_branches. untracked_mesh cd l job attempt fs b
    then \<exists>b \<in> set task_branches. untracked_mesh cd l job attempt fs b \<and>
      fst (run_simulation cs cd read_time l worker ch None fs) = Inl (Integrity (''untracked '' @ b @ '' artifact already exists''))
    else \<exists>result reused fs'. run_simulation cs cd read_time l worker ch None fs =
        (Inr (if reused then sort_keys result else result, reused), fs') \<and> finished_files cs cd l job attempt fs0 c result fs'"
proof -
  let ?se = "run_env cs cd read_time l fs0 job attempt image_count (worker, ch)" let ?w = "\<lambda>es. start_world job attempt worker es fs"
  have tree: "same_tree l fs0 fs" using fs by (simp add: left_files_def)
  have calm: "calm_setup (run_setup cs cd read_time l ch) = run_setup cs cd read_time l ch" by (rule undisturbed_calm [OF able(2)])
  note env = env_of_run [OF task able(1)]
  consider es B where "journal_open cd read_time l job attempt fs es" "fs_data fs (record_place l ''pipeline-result.json'') = None"
        "\<forall>b \<in> set task_branches. branch_state cs l fs es B b"
    | es result where "journal_open cd read_time l job attempt fs es" "result_there cs l c result fs"
    | result where "finished_files cs cd l job attempt fs0 c result fs"
    using fs torn unfolding left_files_def by blast
  then show ?thesis
  proof cases
    case 1
    have good: "sim_good (calm_env ?se) B (?w es)" using start_base [OF tree 1(1)] 1(2,3) by (simp add: sim_good_def Let_def)
    have request: "request_read (calm_env ?se) request c" using request_of_run [OF task] by simp
    have untracked: "untracked_mesh cd l job attempt fs b \<longleftrightarrow> b \<notin> B" if "b \<in> set task_branches" for b
      using untracked_state [OF 1(1,2)] 1(3) that by blast
    obtain r w where new: "new_result (run_setup cs cd read_time l ch) None request (record_place l ''pipeline-result.json'') (?w es) = (r, w)"
      "\<forall>result. r = Inr result \<longrightarrow> \<not> snd result \<and> finished_files cs cd l job attempt fs0 c (fst result) (sw_files w)"
      "set task_branches \<subseteq> B \<longrightarrow> \<not> isl r"
      "\<not> set task_branches \<subseteq> B \<longrightarrow> (\<exists>b \<in> set task_branches - B. r = Inl (Integrity (''untracked '' @ b @ '' artifact already exists'')))"
      using new_result_ok [OF env good request, of None] by (simp add: calm del: list.set) blast
    have run: "run_simulation cs cd read_time l worker ch None fs = (r, sw_files w)"
      by (simp add: run_without_result [OF task tree 1(1,2)] new(1))
    show ?thesis
    proof (cases "set task_branches \<subseteq> B")
      case True
      then have "\<not> (\<exists>b \<in> set task_branches. untracked_mesh cd l job attempt fs b)" using untracked by blast
      moreover obtain result where "r = Inr (result, False)" "finished_files cs cd l job attempt fs0 c result (sw_files w)"
        using new(2,3) True by (cases r) auto
      ultimately show ?thesis using run by (simp del: list.set) (metis (full_types))
    next
      case False
      then obtain b where "b \<in> set task_branches" "b \<notin> B" "r = Inl (Integrity (''untracked '' @ b @ '' artifact already exists''))"
        using new(4) by blast
      with untracked run show ?thesis by auto
    qed
  next
    case 2
    have call: "(''job_succeeded'', recovered_payload cs) \<in> sim_calls (st_codecs (se_setup ?se)) (st_events (se_setup ?se)) (se_images ?se)"
      by (simp add: sim_calls_def)
    have base: "sim_base ?se (?w es)" by (rule start_base [OF tree 2(1)])
    have there: "result_there (st_codecs (se_setup ?se)) (st_layout (se_setup ?se)) c result (sw_files (?w es))" using 2(2) by simp
    have "sim_append (run_setup cs cd read_time l ch) ''job_succeeded'' (recovered_payload cs) (?w es) =
        (Inr (), appended (run_setup cs cd read_time l ch) ''job_succeeded'' (recovered_payload cs) (?w es))"
      using sim_append_accepted [OF env, of "?w es" "''job_succeeded''" "recovered_payload cs"] base call by (simp add: calm)
    then have "run_simulation cs cd read_time l worker ch None fs = (Inr (sort_keys result, True),
        sw_files (appended (run_setup cs cd read_time l ch) ''job_succeeded'' (recovered_payload cs) (?w es)))"
      by (simp add: run_with_result [OF task tree 2])
    moreover have "\<not> (\<exists>b \<in> set task_branches. untracked_mesh cd l job attempt fs b)"
      using 2(2) by (simp add: untracked_mesh_def result_there_def)
    ultimately show ?thesis
      using last_append_safe(3) [OF env base grows_refl there call] by (simp del: list.set) (metis (full_types))
  next
    case 3
    then have "\<not> (\<exists>b \<in> set task_branches. untracked_mesh cd l job attempt fs b)"
      by (simp add: untracked_mesh_def finished_files_def result_there_def)
    with run_reuses [OF task 3] 3 show ?thesis by (simp del: list.set) (metis (full_types))
  qed
qed

text \<open>Files in order: no torn line and no branch whose file is not tracked.\<close>

definition files_in_order ::
  "codecs \<Rightarrow> codec \<Rightarrow> (string \<Rightarrow> int option) \<Rightarrow> task_layout \<Rightarrow> string \<Rightarrow> int \<Rightarrow> file_system \<Rightarrow> copied \<Rightarrow> file_system \<Rightarrow> bool" where
  "files_in_order cs cd read_time l job attempt fs0 c fs \<longleftrightarrow>
     (\<exists>es. same_tree l fs0 fs \<and> journal_open cd read_time l job attempt fs es \<and>
        fs_data fs (record_place l ''pipeline-result.json'') = None \<and>
        (\<forall>b \<in> set task_branches. branch_state cs l fs es (set task_branches) b)) \<or>
     (\<exists>result. finished_files cs cd l job attempt fs0 c result fs)"

lemma order_left:
  assumes "files_in_order cs cd read_time l job attempt fs0 c fs"
  shows "left_files cs cd read_time l job attempt fs0 c fs"
  using assms unfolding files_in_order_def left_files_def finished_files_def by blast

lemma order_clean:
  assumes "files_in_order cs cd read_time l job attempt fs0 c fs"
  shows "\<not> journal_torn l fs" "\<forall>b \<in> set task_branches. \<not> untracked_mesh cd l job attempt fs b"
proof -
  consider es where "journal_open cd read_time l job attempt fs es" "fs_data fs (record_place l ''pipeline-result.json'') = None"
      "\<forall>b \<in> set task_branches. branch_state cs l fs es (set task_branches) b"
    | result where "finished_files cs cd l job attempt fs0 c result fs"
    using assms unfolding files_in_order_def by blast
  then have "\<not> journal_torn l fs \<and> (\<forall>b \<in> set task_branches. \<not> untracked_mesh cd l job attempt fs b)"
  proof cases
    case 1
    with open_loaded(2) [OF 1(1)] untracked_state [OF 1(1,2)] show ?thesis by blast
  next
    case 2
    then obtain es where es: "events_ok cd job attempt es" "fs_data fs (record_place l ''pipeline-events.jsonl'') = Some (journal_text cd es)"
      and there: "fs_data fs (record_place l ''pipeline-result.json'') \<noteq> None"
      by (auto simp: finished_files_def result_there_def)
    have "\<not> journal_torn l fs"
      using load_written [OF es(1)] by (auto simp: journal_torn_def load_existing_def es(2) split: if_splits)
    with there show ?thesis by (simp add: untracked_mesh_def)
  qed
  then show "\<not> journal_torn l fs" "\<forall>b \<in> set task_branches. \<not> untracked_mesh cd l job attempt fs b" by simp_all
qed

lemma order_kept:
  assumes task: "simulated_task cs read_time l fs0 request c job attempt rid image_count"
    and able: "run_able cs cd read_time job attempt image_count (worker, ch)" "undisturbed ch"
    and fs: "files_in_order cs cd read_time l job attempt fs0 c fs"
  shows "files_in_order cs cd read_time l job attempt fs0 c (snd (run_simulation cs cd read_time l worker ch crash fs))"
  using fs unfolding files_in_order_def [of _ _ _ _ _ _ _ _ fs]
proof (elim disjE exE conjE)
  fix es
  assume tree: "same_tree l fs0 fs" and es: "journal_open cd read_time l job attempt fs es"
      "fs_data fs (record_place l ''pipeline-result.json'') = None"
      "\<forall>b \<in> set task_branches. branch_state cs l fs es (set task_branches) b"
  let ?se = "run_env cs cd read_time l fs0 job attempt image_count (worker, ch)" let ?w = "start_world job attempt worker es fs"
  have calm: "calm_setup (run_setup cs cd read_time l ch) = run_setup cs cd read_time l ch" by (rule undisturbed_calm [OF able(2)])
  have good: "sim_good (calm_env ?se) (set task_branches) ?w" using start_base [OF tree es(1)] es(2,3) by (simp add: sim_good_def Let_def del: list.set)
  have request: "request_read (calm_env ?se) request c" using request_of_run [OF task] by simp
  obtain r w where new: "new_result (run_setup cs cd read_time l ch) crash request (record_place l ''pipeline-result.json'') ?w = (r, w)"
    "isl r \<longrightarrow> sim_good ?se (set task_branches) w"
    "\<forall>result. r = Inr result \<longrightarrow> finished_files cs cd l job attempt fs0 c (fst result) (sw_files w)"
    using new_result_ok [OF env_of_run [OF task able(1)] good request, of crash] by (simp add: calm del: list.set) blast
  have "files_in_order cs cd read_time l job attempt fs0 c (sw_files w)"
    using new(2,3) by (cases r) (auto simp: files_in_order_def sim_good_def sim_base_def Let_def simp del: list.set)
  then show ?thesis by (simp add: run_without_result [OF task tree es(1,2)] new(1))
next
  fix result
  assume "finished_files cs cd l job attempt fs0 c result fs"
  with fs show ?thesis by (simp add: run_reuses [OF task])
qed

section \<open>Any number of runs\<close>

text \<open>Each run has a worker, its chances and the branch after which it is interrupted, if any.\<close>

fun all_runs ::
  "codecs \<Rightarrow> codec \<Rightarrow> (string \<Rightarrow> int option) \<Rightarrow> task_layout \<Rightarrow> (sim_run \<times> string option) list \<Rightarrow> file_system \<Rightarrow> file_system" where
  "all_runs cs cd read_time l [] fs = fs"
| "all_runs cs cd read_time l (((worker, ch), crash) # runs) fs =
     all_runs cs cd read_time l runs (snd (run_simulation cs cd read_time l worker ch crash fs))"

lemma all_runs_left:
  assumes task: "simulated_task cs read_time l fs0 request c job attempt rid image_count"
    and "\<forall>(r, crash) \<in> set runs. run_able cs cd read_time job attempt image_count r"
    and "left_files cs cd read_time l job attempt fs0 c fs"
  shows "left_files cs cd read_time l job attempt fs0 c (all_runs cs cd read_time l runs fs)"
  using assms(2,3)
proof (induction runs arbitrary: fs)
  case (Cons x runs)
  obtain worker ch crash where x: "x = ((worker, ch), crash)" by (cases x) auto
  have "run_able cs cd read_time job attempt image_count (worker, ch)" using Cons.prems(1) by (simp add: x)
  with Cons show ?case by (simp add: x run_left [OF task])
qed simp

lemma all_runs_in_order:
  assumes task: "simulated_task cs read_time l fs0 request c job attempt rid image_count"
    and "\<forall>((worker, ch), crash) \<in> set runs. run_able cs cd read_time job attempt image_count (worker, ch) \<and> undisturbed ch"
    and "files_in_order cs cd read_time l job attempt fs0 c fs"
  shows "files_in_order cs cd read_time l job attempt fs0 c (all_runs cs cd read_time l runs fs)"
  using assms(2,3)
proof (induction runs arbitrary: fs)
  case (Cons x runs)
  obtain worker ch crash where x: "x = ((worker, ch), crash)" by (cases x) auto
  have "run_able cs cd read_time job attempt image_count (worker, ch)" "undisturbed ch" using Cons.prems(1) by (simp_all add: x)
  from order_kept [OF task this Cons.prems(2)] Cons.IH Cons.prems(1) show ?case by (simp add: x)
qed simp

lemma fresh_in_order:
  assumes "\<forall>p \<in> own_places l. fs_data fs0 p = None"
  shows "files_in_order cs cd read_time l job attempt fs0 c fs0"
proof -
  have "journal_open cd read_time l job attempt fs0 []"
    using assms own_places_in(3) by (simp add: journal_open_def events_ok_def readable_start_def)
  moreover have "branch_untouched l fs0 [] b" if "b \<in> set task_branches" for b
    using assms own_places_in(1) [OF that] by (simp add: branch_untouched_def artifact_events_def)
  ultimately show ?thesis
    using assms own_places_in(4) unfolding files_in_order_def same_tree_def branch_state_def by (intro disjI1) auto
qed

text \<open>
  C30. A simulated task survives interruptions. Take any number of runs of a new task, by whatever workers, in
  each of which any write may fail, any append may be torn and the test hook may interrupt it after any branch.
  None of them, nor any later one, loses or changes a file of a branch. What the next undisturbed run does
  depends on the files they left: with a torn last line in the journal every run is refused and changes
  nothing; where a branch has a file that no event records, which a run stopped between the two leaves, the run
  is refused with that branch's name; otherwise it finishes the task, every branch has its file, and any run
  after it returns the same result and changes nothing. After runs in which no write failed, however they were
  interrupted, the next one always finishes.
\<close>

theorem simulated_task_survives_interruptions:
  assumes task: "simulated_task cs read_time l fs0 request c job attempt rid image_count"
    and fresh: "\<forall>p \<in> own_places l. fs_data fs0 p = None"
    and runs: "\<forall>(r, crash) \<in> set runs. run_able cs cd read_time job attempt image_count r"
    and last_run: "run_able cs cd read_time job attempt image_count (worker, ch)" "undisturbed ch"
    and fs1: "fs1 = all_runs cs cd read_time l runs fs0"
  shows "(\<forall>r crash. run_able cs cd read_time job attempt image_count r \<longrightarrow>
      meshes_kept l fs1 (snd (run_simulation cs cd read_time l (fst r) (snd r) crash fs1))) \<and>
    (if journal_torn l fs1 then
       \<forall>worker ch crash. run_simulation cs cd read_time l worker ch crash fs1 =
         (Inl (Integrity ''event journal has an incomplete final line''), fs1)
     else if \<exists>b \<in> set task_branches. untracked_mesh cd l job attempt fs1 b then
       \<exists>b \<in> set task_branches. untracked_mesh cd l job attempt fs1 b \<and>
         fst (run_simulation cs cd read_time l worker ch None fs1) = Inl (Integrity (''untracked '' @ b @ '' artifact already exists''))
     else
       \<exists>result reused fs2. run_simulation cs cd read_time l worker ch None fs1 =
           (Inr (if reused then sort_keys result else result, reused), fs2) \<and>
         (\<forall>b \<in> set task_branches. fs_data fs2 (mesh_place l b) \<noteq> None) \<and>
         (\<forall>worker ch crash. run_simulation cs cd read_time l worker ch crash fs2 = (Inr (sort_keys result, True), fs2))) \<and>
    ((\<forall>(r, crash) \<in> set runs. undisturbed (snd r)) \<longrightarrow>
       \<not> journal_torn l fs1 \<and> (\<forall>b \<in> set task_branches. \<not> untracked_mesh cd l job attempt fs1 b))"
proof (intro conjI)
  note order0 = fresh_in_order [OF fresh, of cs cd read_time job attempt c]
  have left: "left_files cs cd read_time l job attempt fs0 c fs1"
    unfolding fs1 by (rule all_runs_left [OF task runs order_left [OF order0]])
  then have tree: "same_tree l fs0 fs1" by (simp add: left_files_def)
  show "\<forall>r crash. run_able cs cd read_time job attempt image_count r \<longrightarrow>
      meshes_kept l fs1 (snd (run_simulation cs cd read_time l (fst r) (snd r) crash fs1))"
    using run_left [OF task _ left] by auto
  have finished: "\<exists>result reused fs2. run_simulation cs cd read_time l worker ch None fs1 =
           (Inr (if reused then sort_keys result else result, reused), fs2) \<and>
         (\<forall>b \<in> set task_branches. fs_data fs2 (mesh_place l b) \<noteq> None) \<and>
         (\<forall>worker ch crash. run_simulation cs cd read_time l worker ch crash fs2 = (Inr (sort_keys result, True), fs2))"
    if clean: "\<not> journal_torn l fs1" "\<not> (\<exists>b \<in> set task_branches. untracked_mesh cd l job attempt fs1 b)"
  proof -
    obtain result reused fs2 where "run_simulation cs cd read_time l worker ch None fs1 =
        (Inr (if reused then sort_keys result else result, reused), fs2)" and fs2: "finished_files cs cd l job attempt fs0 c result fs2"
      using undisturbed_run [OF task last_run left clean(1)] unfolding if_not_P [OF clean(2)] by blast
    moreover have "\<forall>b \<in> set task_branches. fs_data fs2 (mesh_place l b) \<noteq> None"
      using fs2 by (auto simp: finished_files_def result_there_def)
    ultimately show ?thesis using run_reuses [OF task fs2] by blast
  qed
  show "if journal_torn l fs1 then
       \<forall>worker ch crash. run_simulation cs cd read_time l worker ch crash fs1 =
         (Inl (Integrity ''event journal has an incomplete final line''), fs1)
     else if \<exists>b \<in> set task_branches. untracked_mesh cd l job attempt fs1 b then
       \<exists>b \<in> set task_branches. untracked_mesh cd l job attempt fs1 b \<and>
         fst (run_simulation cs cd read_time l worker ch None fs1) = Inl (Integrity (''untracked '' @ b @ '' artifact already exists''))
     else
       \<exists>result reused fs2. run_simulation cs cd read_time l worker ch None fs1 =
           (Inr (if reused then sort_keys result else result, reused), fs2) \<and>
         (\<forall>b \<in> set task_branches. fs_data fs2 (mesh_place l b) \<noteq> None) \<and>
         (\<forall>worker ch crash. run_simulation cs cd read_time l worker ch crash fs2 = (Inr (sort_keys result, True), fs2))"
  proof (cases "journal_torn l fs1")
    case True
    then show ?thesis unfolding if_P [OF True] using run_torn [OF task tree] by blast
  next
    case torn: False
    show ?thesis
    proof (cases "\<exists>b \<in> set task_branches. untracked_mesh cd l job attempt fs1 b")
      case True
      show ?thesis
        unfolding if_not_P [OF torn] if_P [OF True] using undisturbed_run [OF task last_run left torn] unfolding if_P [OF True] .
    next
      case False
      show ?thesis unfolding if_not_P [OF torn] if_not_P [OF False] by (rule finished [OF torn False])
    qed
  qed
  show "(\<forall>(r, crash) \<in> set runs. undisturbed (snd r)) \<longrightarrow>
       \<not> journal_torn l fs1 \<and> (\<forall>b \<in> set task_branches. \<not> untracked_mesh cd l job attempt fs1 b)"
  proof
    assume "\<forall>(r, crash) \<in> set runs. undisturbed (snd r)"
    then have "\<forall>((worker, ch), crash) \<in> set runs. run_able cs cd read_time job attempt image_count (worker, ch) \<and> undisturbed ch"
      using runs by auto
    from all_runs_in_order [OF task this order0] order_clean
    show "\<not> journal_torn l fs1 \<and> (\<forall>b \<in> set task_branches. \<not> untracked_mesh cd l job attempt fs1 b)" unfolding fs1 by blast
  qed
qed

section \<open>An example\<close>

text \<open>
  A codec that keeps every value: its number in unary. The task has one image of one byte; two workers are
  interrupted, a third one finishes the task.
\<close>

definition sim_demo_request :: json where
  "sim_demo_request = JObject
     [(''job_id'', JString ''t''), (''request_id'', JString ''r''), (''attempt'', JInt 1), (''execution_mode'', JString ''simulated''),
      (''branches'', JList (map JString task_branches)),
      (''pipeline'', JObject [(''tag'', JString ''v1''), (''commit'', JString ''c''), (''config_sha256'', JString ''d'')]),
      (''input'', JObject [(''manifest_path'', JString ''input/input-manifest.json''), (''images_path'', JString ''input/images''),
         (''manifest_sha256'', JString (replicate 64 (CHR ''0''))), (''image_count'', JInt 1), (''total_bytes'', JInt 1)])]"

definition sim_demo_manifest :: json where
  "sim_demo_manifest = JObject [(''images'', JList [JObject
     [(''name'', JString ''a''), (''size_bytes'', JInt 1), (''sha256'', JString (replicate 64 (CHR ''0'')))]])]"

definition sim_demo_codecs :: codecs where
  "sim_demo_codecs = \<lparr>cs_sha256 = \<lambda>_. replicate 64 (CHR ''0''),
     cs_loads = \<lambda>s. if s = ''Q'' then Decoded sim_demo_request else if s = ''M'' then Decoded sim_demo_manifest
       else Decoded (sort_keys (from_nat (length s - 2))),
     cs_dumps = unary, cs_valid = \<lambda>_ _. True, cs_zh = \<lambda>s. s\<rparr>"

definition sim_demo_events :: codec where
  "sim_demo_events = \<lparr>cd_dumps = unary, cd_loads = \<lambda>s. Some (from_nat (length s - 1)), cd_valid_event = \<lambda>_. True\<rparr>"

definition sim_demo_files :: file_system where
  "sim_demo_files = \<lparr>fs_real = \<lambda>p. p, fs_link = \<lambda>_. False,
     fs_data = map_of [([''t'', ''manifests'', ''pipeline-request.json''], ''Q''), ([''t'', ''input'', ''input-manifest.json''], ''M''),
       ([''t'', ''input'', ''images'', ''a''], ''p'')],
     fs_dir = \<lambda>p. p = [''t'', ''input'', ''images''], fs_names = \<lambda>p. if p = [''t'', ''input'', ''images''] then [''a''] else []\<rparr>"

definition sim_demo_layout :: task_layout where
  "sim_demo_layout = \<lparr>tl_data_root = [], tl_jobs_root = [], tl_root = [''t''], tl_job_id = ''t''\<rparr>"

definition sim_demo_chances :: chances where
  "sim_demo_chances = \<lparr>ch_uuid = \<lambda>n. 7, ch_now = \<lambda>_. ''now'', ch_torn = \<lambda>_. None, ch_failed = \<lambda>_. False\<rparr>"

definition sim_demo_copied :: copied where
  "sim_demo_copied = \<lparr>cp_job_id = JString ''t'', cp_request_id = JString ''r'', cp_attempt = JInt 1, cp_tag = JString ''v1'',
     cp_commit = JString ''c'', cp_config_sha256 = JString ''d'', cp_image_count = JInt 1,
     cp_manifest_sha256 = JString (replicate 64 (CHR ''0'')), cp_manifest_path = JString ''input/input-manifest.json''\<rparr>"

lemma unary_kept: "codec_keeps sim_demo_events e"
proof -
  have "\<not> is_space (CHR ''x'')" "\<not> line_break (CHR ''x'')" by (simp_all add: is_space_def line_break_def code_point_def)
  then have "strip (unary e) \<noteq> []" "list_all (\<lambda>c. \<not> line_break c) (unary e)"
    by (simp_all add: unary_def strip_def strip_by_def list_all_iff)
  then show ?thesis by (simp add: codec_keeps_def sim_demo_events_def) (simp add: unary_def)
qed

lemma sim_demo_keeps_json: "keeps_json sim_demo_codecs name v"
proof -
  have "json_text sim_demo_codecs v \<noteq> ''Q'' \<and> json_text sim_demo_codecs v \<noteq> ''M''"
    by (simp add: json_text_def sim_demo_codecs_def unary_def)
  then show ?thesis by (simp add: keeps_json_def sim_demo_codecs_def) (simp add: json_text_def unary_def)
qed

lemma sim_demo_able: "run_able sim_demo_codecs sim_demo_events (\<lambda>_. Some 0) job attempt count (worker, ch)"
proof -
  have "cd_valid_event sim_demo_events e" for e by (simp add: sim_demo_events_def)
  then have "events_accepted sim_demo_codecs sim_demo_events count job attempt worker ch"
    using unary_kept by (auto simp: events_accepted_def)
  then show ?thesis by (simp add: run_able_def)
qed

lemma sim_demo_read:
  "read_file sim_demo_files ([''t''] @ [''manifests'', ''pipeline-request.json'']) = Some ''Q''"
  "read_file sim_demo_files ([''t''] @ [''input'', ''input-manifest.json'']) = Some ''M''"
  "read_file sim_demo_files ([''t''] @ [''input'', ''images'', ''a'']) = Some ''p''"
  by (simp_all add: read_file_def sim_demo_files_def)

lemma sim_demo_plain: "plain_root sim_demo_files sim_demo_layout"
  by (simp add: plain_root_def sim_demo_files_def)

lemma sim_demo_input: "validate_task_input sim_demo_codecs sim_demo_files sim_demo_layout sim_demo_request = Inr ()"
proof -
  let ?z = "replicate 64 (CHR ''0'')"
  have root: "tl_root sim_demo_layout = [''t'']" by (simp add: sim_demo_layout_def)
  have sha: "cs_sha256 sim_demo_codecs s = ?z" for s by (simp add: sim_demo_codecs_def)
  have fields: "item2 ''input'' ''manifest_path'' sim_demo_request = Inr (JString ''input/input-manifest.json'')"
    "item2 ''input'' ''images_path'' sim_demo_request = Inr (JString ''input/images'')"
    "item2 ''input'' ''manifest_sha256'' sim_demo_request = Inr (JString ?z)"
    "item2 ''input'' ''image_count'' sim_demo_request = Inr (JInt 1)" "item2 ''input'' ''total_bytes'' sim_demo_request = Inr (JInt 1)"
    by (simp_all add: sim_demo_request_def item2_def item_def)
  have hex: "hex_string 64 ?z" by (simp add: hex_string_def is_hex_def is_digit_def char_in_def list_all_iff)
  have manifest: "load_manifest sim_demo_codecs ''M'' = Inr sim_demo_manifest" by (simp add: load_manifest_def sim_demo_codecs_def)
  have records: "manifest_list sim_demo_manifest = Some [JObject [(''name'', JString ''a''), (''size_bytes'', JInt 1), (''sha256'', JString ?z)]]"
    by (simp add: manifest_list_def sim_demo_manifest_def json_field_def)
  let ?m = "\<lparr>mi_name = ''a'', mi_size = 1, mi_sha256 = ?z\<rparr>"
  have item: "manifest_item_of (JObject [(''name'', JString ''a''), (''size_bytes'', JInt 1), (''sha256'', JString ?z)]) = Some ?m"
    using hex by (simp add: manifest_item_of_def json_field_def bad_image_name_def)
  have items: "manifest_items [] [JObject [(''name'', JString ''a''), (''size_bytes'', JInt 1), (''sha256'', JString ?z)]] = Inr [?m]"
    using item by simp
  have names: "fs_names sim_demo_files ([''t''] @ [''input'', ''images'']) = [''a'']" "fs_link sim_demo_files p = False"
    "is_dir sim_demo_files ([''t''] @ [''input'', ''images''])" for p
    by (simp_all add: sim_demo_files_def is_dir_def)
  have image: "read_file sim_demo_files (([''t''] @ [''input'', ''images'']) @ [''a'']) = Some ''p''" using sim_demo_read(3) by simp
  have "check_images sim_demo_codecs sim_demo_files ([''t''] @ [''input'', ''images'']) sim_demo_request [?m] = Inr ()"
    unfolding check_images_def names(1) Let_def
    by (simp add: is_file_def image [simplified] names(2) fields check_image_def find_item_def file_size_def sha256_file_def sha
        del: One_nat_def)
  then show ?thesis
    by (simp add: validate_task_input_def fields text_of_def plain_resolve [OF sim_demo_plain] task_paths root is_file_def
        sim_demo_read [simplified] names(3) [simplified] sha256_file_def sha manifest records item del: One_nat_def)
qed

lemma sim_demo_task:
  "simulated_task sim_demo_codecs (\<lambda>_. Some 0) sim_demo_layout sim_demo_files sim_demo_request sim_demo_copied ''t'' 1 ''r'' (JInt 1)"
proof -
  have load: "load_json_contract sim_demo_codecs sim_demo_files (record_place sim_demo_layout ''pipeline-request.json'') ''pipeline-request'' =
      Inr sim_demo_request"
    using sim_demo_read(1) by (simp add: record_place_def sim_demo_layout_def load_json_contract_def validate_contract_def sim_demo_codecs_def
        is_object_def sim_demo_request_def)
  have valid: "cs_valid sim_demo_codecs n v" for n v by (simp add: sim_demo_codecs_def)
  have results: "results_accepted sim_demo_codecs (\<lambda>_. Some 0) sim_demo_copied"
    using valid sim_demo_keeps_json by (simp add: results_accepted_def)
  have copied: "copy_request sim_demo_request = Inr sim_demo_copied"
    by (simp add: copy_request_def item2_def item_def sim_demo_request_def sim_demo_copied_def)
  have identity: "validate_simulation_identity sim_demo_layout sim_demo_request = Inr ()"
    by (simp add: validate_simulation_identity_def item_differs_def item_def sim_demo_request_def sim_demo_layout_def refuse_if_def)
  have paths: "input_paths sim_demo_request"
    by (simp add: input_paths_def item2_def item_def sim_demo_request_def)
  have places: "p \<in> own_places sim_demo_layout \<Longrightarrow> p \<noteq> [''t'', ''input'', ''images'']" for p
    by (auto simp: own_places_def place_defs sim_demo_layout_def)
  have no_file: "\<not> is_file sim_demo_files p" if "length p \<le> 2" for p
  proof -
    have "p \<notin> {[''t'', ''manifests'', ''pipeline-request.json''], [''t'', ''input'', ''input-manifest.json''], [''t'', ''input'', ''images'', ''a'']}"
      using that by auto
    then show ?thesis by (simp add: is_file_def read_file_def sim_demo_files_def)
  qed
  have directories: "ensure_worker_directories sim_demo_files sim_demo_layout = Inr ()"
  proof -
    have root: "tl_root sim_demo_layout = [''t'']" by (simp add: sim_demo_layout_def)
    have "\<not> list_ex (is_file sim_demo_files) (prefixes ([''t''] @ qs))"
      if "qs \<in> {[''runtime'', ''work''], [''runtime'', ''logs''], [''output''], [''reports''], [''manifests'']}" for qs
    proof -
      have "\<not> is_file sim_demo_files [''t'', ''runtime'', ''work'']" "\<not> is_file sim_demo_files [''t'', ''runtime'', ''logs'']"
        by (simp_all add: is_file_def read_file_def sim_demo_files_def)
      with that show ?thesis by (auto simp: no_file)
    qed
    then show ?thesis
      by (simp add: ensure_worker_directories_def worker_directories_def plain_resolve [OF sim_demo_plain] directory_paths root
          del: prefixes_snoc prefixes.simps append.simps)
  qed
  have fields: "json_field ''job_id'' sim_demo_request = Some (JString ''t'')" "json_field ''attempt'' sim_demo_request = Some (JInt 1)"
    "json_field ''request_id'' sim_demo_request = Some (JString ''r'')"
    "json_field ''branches'' sim_demo_request = Some (JList (map JString task_branches))"
    "item2 ''input'' ''image_count'' sim_demo_request = Inr (JInt 1)"
    by (simp_all add: sim_demo_request_def json_field_def item2_def item_def)
  have dirs: "\<forall>p \<in> own_places sim_demo_layout. \<not> fs_dir sim_demo_files p"
    using places by (auto simp: sim_demo_files_def)
  show ?thesis unfolding simulated_task_def
    by (intro conjI) (fact sim_demo_plain dirs directories load identity sim_demo_input paths fields copied results)+
qed

theorem simulated_task_survives_interruptions_witness:
  "\<exists>result reused fs2. run_simulation sim_demo_codecs sim_demo_events (\<lambda>_. Some 0) sim_demo_layout ''w3'' sim_demo_chances None
     (all_runs sim_demo_codecs sim_demo_events (\<lambda>_. Some 0) sim_demo_layout
       [((''w1'', sim_demo_chances), Some ''A-v4''), ((''w2'', sim_demo_chances), Some ''C'')] sim_demo_files) =
     (Inr (if reused then sort_keys result else result, reused), fs2)"
proof -
  let ?runs = "[((''w1'', sim_demo_chances), Some ''A-v4''), ((''w2'', sim_demo_chances), Some ''C'')]"
  have fresh: "\<forall>p \<in> own_places sim_demo_layout. fs_data sim_demo_files p = None"
    by (auto simp: own_places_def place_defs sim_demo_layout_def sim_demo_files_def)
  have calm: "undisturbed sim_demo_chances" by (simp add: undisturbed_def sim_demo_chances_def)
  have runs: "\<forall>(r, crash) \<in> set ?runs. run_able sim_demo_codecs sim_demo_events (\<lambda>_. Some 0) ''t'' 1 (JInt 1) r"
    using sim_demo_able by simp
  have all_calm: "\<forall>(r, crash) \<in> set ?runs. undisturbed (snd r)" using calm by simp
  note claim = simulated_task_survives_interruptions [OF sim_demo_task fresh runs sim_demo_able calm refl, of "''w3''"]
  have torn: "\<not> journal_torn sim_demo_layout (all_runs sim_demo_codecs sim_demo_events (\<lambda>_. Some 0) sim_demo_layout ?runs sim_demo_files)"
    and tracked: "\<not> (\<exists>b \<in> set task_branches. untracked_mesh sim_demo_events sim_demo_layout ''t'' 1
      (all_runs sim_demo_codecs sim_demo_events (\<lambda>_. Some 0) sim_demo_layout ?runs sim_demo_files) b)"
    using conjunct2 [OF conjunct2 [OF claim]] all_calm by blast+
  show ?thesis
    using conjunct1 [OF conjunct2 [OF claim]] unfolding if_not_P [OF torn] if_not_P [OF tracked] by blast
qed

end
