(* ===== verification/Real_Pipeline.thy ===== *)
theory Real_Pipeline
  imports Managed_Process Re3d_Steps Json_Values
begin

text \<open>
  The runners of the real pipeline in \<^verbatim>\<open>backend/re3d_adapter/real.py\<close>: the check of the installation, the
  dry run, and the run that supervises Re3D, checks what it produced and writes or reuses the result. The
  world is the file system and two counters, of the health checks and of the writes; what the health
  checks, Git, the process and the clock do is an argument.
\<close>

section \<open>Steps on a world\<close>

record pipe_world =
  pp_files :: file_system
  pp_checks :: nat
  pp_writes :: nat

type_synonym 'a pipe = "pipe_world \<Rightarrow> (adapter_error, 'a, pipe_world) outcome"

datatype git_answer = Git_cannot_start | Git_exit int string

datatype dry_process = Dry_timed_out | Dry_cannot_start | Dry_exit int string string

record pipeline_env =
  pl_health :: "nat \<Rightarrow> adapter_error option"
  pl_failed :: "nat \<Rightarrow> bool"
  pl_git :: "path \<Rightarrow> string list \<Rightarrow> git_answer"
  pl_started_at :: string
  pl_finished_at :: string
  pl_process :: process_env
  pl_on_step :: "nat \<Rightarrow> re3d_step \<Rightarrow> adapter_error option"
  pl_monotonic :: rat
  pl_duration :: rat
  pl_worked :: "file_system \<Rightarrow> file_system"
  pl_dry :: "string list \<Rightarrow> dry_process"

definition pipe_then :: "'a pipe \<Rightarrow> ('a \<Rightarrow> 'b pipe) \<Rightarrow> 'b pipe" where
  "pipe_then m f w = followed_by (m w) f"

definition pipe_return :: "'a \<Rightarrow> 'a pipe" where
  "pipe_return x w = (Inr x, w)"

definition given :: "'a checked \<Rightarrow> 'a pipe" where
  "given m w = (m, w)"

definition look :: "(file_system \<Rightarrow> 'a checked) \<Rightarrow> 'a pipe" where
  "look f w = (f (pp_files w), w)"

fun each_pipe :: "('a \<Rightarrow> unit pipe) \<Rightarrow> 'a list \<Rightarrow> unit pipe" where
  "each_pipe f [] = pipe_return ()"
| "each_pipe f (x # xs) = pipe_then (f x) (\<lambda>_. each_pipe f xs)"

fun collect_pipe :: "('a \<Rightarrow> 'b pipe) \<Rightarrow> 'a list \<Rightarrow> 'b list pipe" where
  "collect_pipe f [] = pipe_return []"
| "collect_pipe f (x # xs) = pipe_then (f x) (\<lambda>y. pipe_then (collect_pipe f xs) (\<lambda>ys. pipe_return (y # ys)))"

definition health_check :: "pipeline_env \<Rightarrow> unit pipe" where
  "health_check e w =
     (case pl_health e (pp_checks w) of None \<Rightarrow> Inr () | Some x \<Rightarrow> Inl x, w\<lparr>pp_checks := pp_checks w + 1\<rparr>)"

definition pipe_write :: "pipeline_env \<Rightarrow> path \<Rightarrow> string \<Rightarrow> unit pipe" where
  "pipe_write e p payload w =
     (case atomic_write (pl_failed e (pp_writes w)) p payload (pp_files w) of
        (r, fs) \<Rightarrow> (r, w\<lparr>pp_files := fs, pp_writes := pp_writes w + 1\<rparr>))"

section \<open>The installation\<close>

text \<open>\<open>_git_value\<close>\<close>

definition git_value :: "pipeline_env \<Rightarrow> path \<Rightarrow> string list \<Rightarrow> string checked" where
  "git_value e re3d_root arguments =
     (case pl_git e re3d_root arguments of
        Git_cannot_start \<Rightarrow> Inl (Integrity ''cannot start Git to verify the Re3D installation'')
      | Git_exit code output \<Rightarrow>
          if code \<noteq> 0 then Inl (Integrity ''cannot verify installed Re3D Git identity'') else Inr (strip output))"

definition script_path :: "path \<Rightarrow> path" where
  "script_path re3d_root = re3d_root @ [''scripts'', ''run_pipeline.py'']"

definition config_path :: "path \<Rightarrow> path" where
  "config_path re3d_root = re3d_root @ [''configs'', ''pipeline.json'']"

definition local_paths :: "path \<Rightarrow> path" where
  "local_paths re3d_root = re3d_root @ [''configs'', ''paths.local.json'']"

definition verify_re3d_installation :: "codecs \<Rightarrow> pipeline_env \<Rightarrow> path \<Rightarrow> json \<Rightarrow> file_system \<Rightarrow> unit checked" where
  "verify_re3d_installation cs e re3d_root pipeline fs =
     bind_checked (require (\<forall>p \<in> set [script_path re3d_root, config_path re3d_root, local_paths re3d_root]. is_file fs p)
       (Integrity ''Re3D installation is missing required runtime files'')) (\<lambda>_.
     bind_checked (sha256_file cs fs (config_path re3d_root)) (\<lambda>sha.
     bind_checked (refuse_if (item_differs ''config_sha256'' (JString sha) pipeline)
       (Integrity ''installed Re3D pipeline config hash does not match request'')) (\<lambda>_.
     bind_checked (git_value e re3d_root [''rev-parse'', ''HEAD'']) (\<lambda>head.
     bind_checked (bind_checked (item ''tag'' pipeline) text_of) (\<lambda>tag.
     bind_checked (git_value e re3d_root [''rev-list'', ''-n'', ''1'', tag]) (\<lambda>tagged_commit.
     bind_checked (refuse_if (or_checked [item_differs ''commit'' (JString head) pipeline,
         item_differs ''commit'' (JString tagged_commit) pipeline])
       (Integrity ''installed Re3D Git identity does not match request'')) (\<lambda>_.
     bind_checked (git_value e re3d_root [''status'', ''--porcelain'', ''--untracked-files=no'']) (\<lambda>dirty.
     require (dirty = []) (Integrity ''installed Re3D tracked files contain uncommitted changes'')))))))))"

section \<open>Values of the reports\<close>

text \<open>\<open>_read_json_object\<close>\<close>

definition read_json_object :: "codecs \<Rightarrow> string \<Rightarrow> path \<Rightarrow> file_system \<Rightarrow> json checked" where
  "read_json_object cs label p fs =
     (case map_option (cs_loads cs) (read_file fs p) of
        None \<Rightarrow> Inl (Integrity (label @ '' is missing or invalid''))
      | Some Not_json \<Rightarrow> Inl (Integrity (label @ '' is missing or invalid''))
      | Some Not_text \<Rightarrow> Inl (Value_error ''invalid UTF-8'')
      | Some (Decoded v) \<Rightarrow> bind_checked (require (is_object v) (Integrity (label @ '' must be a JSON object''))) (\<lambda>_. Inr v))"

definition branch_passed :: "string \<times> json \<Rightarrow> unit checked" where
  "branch_passed named =
     (case named of (branch, v) \<Rightarrow>
        require (is_object v \<and> json_field ''status'' v = Some (JString ''pass''))
          (Integrity (''Re3D output validation failed for '' @ branch)))"

definition validate_output_report :: "json \<Rightarrow> unit checked" where
  "validate_output_report report =
     bind_checked (require (json_field ''all_passed'' report = Some (JBool True))
       (Integrity ''Re3D output validation did not pass'')) (\<lambda>_.
     case json_field ''branches'' report of
       Some (JObject fs) \<Rightarrow>
         if set (map fst fs) = set branch_names then each_checked branch_passed fs
         else Inl (Integrity ''Re3D output validation branches are incomplete'')
     | _ \<Rightarrow> Inl (Integrity ''Re3D output validation branches are incomplete''))"

definition required_non_negative_int :: "string \<Rightarrow> json \<Rightarrow> int checked" where
  "required_non_negative_int k v =
     (case json_field k v of
        Some (JInt n) \<Rightarrow> bind_checked (require (0 \<le> n) (Integrity (''metric '' @ k @ '' must be a non-negative integer''))) (\<lambda>_. Inr n)
      | _ \<Rightarrow> Inl (Integrity (''metric '' @ k @ '' must be a non-negative integer'')))"

definition required_positive_int :: "string \<Rightarrow> json \<Rightarrow> int checked" where
  "required_positive_int k v =
     bind_checked (required_non_negative_int k v) (\<lambda>n.
     bind_checked (require (1 \<le> n) (Integrity (''metric '' @ k @ '' must be positive''))) (\<lambda>_. Inr n))"

text \<open>The float is that of an integer or a float; an integer that is too large for a float raises.\<close>

definition required_non_negative_number :: "string \<Rightarrow> json \<Rightarrow> rat checked" where
  "required_non_negative_number k v =
     (let bad = Integrity (''metric '' @ k @ '' must be a non-negative number'')
      in case json_field k v of
           Some (JInt n) \<Rightarrow>
             bind_checked (to_float (JInt n)) (\<lambda>x.
             case x of
               Finite a \<Rightarrow> if 0 \<le> n then Inr a else Inl bad
             | _ \<Rightarrow> Inl bad)
         | Some (JFloat (Finite a)) \<Rightarrow> if 0 \<le> a then Inr a else Inl bad
         | _ \<Rightarrow> Inl bad)"

definition required_ratio :: "string \<Rightarrow> json \<Rightarrow> rat checked" where
  "required_ratio k v =
     bind_checked (required_non_negative_number k v) (\<lambda>a.
     bind_checked (require (a \<le> 1) (Integrity (''metric '' @ k @ '' must be between zero and one''))) (\<lambda>_. Inr a))"

definition float_json :: "rat \<Rightarrow> json" where
  "float_json a = JFloat (Finite a)"

section \<open>Commands\<close>

text \<open>\<open>str(path)\<close>\<close>

definition path_text :: "path \<Rightarrow> string" where
  "path_text p = (if p = [] then ''/'' else concat (map (\<lambda>c. ''/'' @ c) p))"

definition place_of :: "task_layout \<Rightarrow> string \<Rightarrow> string \<Rightarrow> json \<Rightarrow> file_system \<Rightarrow> string checked" where
  "place_of l section_name k request fs =
     bind_checked (bind_checked (item2 section_name k request) text_of) (\<lambda>s.
     bind_checked (resolve fs l s) (\<lambda>p. Inr (path_text p)))"

text \<open>\<open>build_command\<close> of both runners: the dry run adds one argument.\<close>

definition build_command ::
  "task_layout \<Rightarrow> path \<Rightarrow> path \<Rightarrow> string list \<Rightarrow> json \<Rightarrow> file_system \<Rightarrow> string list checked" where
  "build_command l re3d_root driver_python extra request fs =
     bind_checked (bind_checked (item ''job_id'' request) text_of) (\<lambda>scene.
     bind_checked (place_of l ''input'' ''images_path'' request fs) (\<lambda>images.
     bind_checked (place_of l ''storage'' ''work_path'' request fs) (\<lambda>work.
     bind_checked (place_of l ''storage'' ''output_path'' request fs) (\<lambda>output.
     bind_checked (place_of l ''storage'' ''logs_path'' request fs) (\<lambda>logs.
     Inr ([path_text driver_python, path_text (script_path re3d_root), ''--scene'', scene, ''--images'', images,
        ''--branches'', ''all'', ''--config'', path_text (config_path re3d_root), ''--paths'', path_text (local_paths re3d_root),
        ''--work-dir'', work, ''--output-dir'', output, ''--log-dir'', logs] @ extra))))))"

section \<open>The dry run\<close>

definition int_text :: "int \<Rightarrow> string" where
  "int_text n = (if n < 0 then ''-'' @ decimal (nat (- n)) else decimal (nat n))"

fun steps_json :: "nat \<Rightarrow> re3d_step list \<Rightarrow> json list" where
  "steps_json n [] = []"
| "steps_json n (s # ss) = JObject
     [(''sequence'', JInt (int n)), (''action'', JString (st_action s)), (''re3d_step'', JString (st_name s)),
      (''platform_stage'', JString (st_stage s)), (''branch'', JString (st_branch s))] # steps_json (n + 1) ss"

text \<open>What the dry run checks before it starts the process.\<close>

definition dry_run_input ::
  "codecs \<Rightarrow> pipeline_env \<Rightarrow> task_layout \<Rightarrow> path \<Rightarrow> path \<Rightarrow> file_system \<Rightarrow> json checked" where
  "dry_run_input cs e l re3d_root driver_python fs =
     bind_checked (bind_checked (request_path fs l) (\<lambda>p. load_json_contract cs fs p ''pipeline-request'')) (\<lambda>request.
     bind_checked (refuse_if (item_differs ''job_id'' (JString (tl_job_id l)) request)
       (Integrity ''request job_id does not match its task directory'')) (\<lambda>_.
     bind_checked (refuse_if (item_differs ''execution_mode'' (JString ''real'') request)
       (Contract_invalid ''real dry-run only accepts execution_mode=real'')) (\<lambda>_.
     bind_checked (validate_task_input cs fs l request) (\<lambda>_.
     bind_checked (require (is_file fs driver_python) (Integrity ''Re3D driver Python does not exist'')) (\<lambda>_.
     bind_checked (item ''pipeline'' request) (\<lambda>pipeline.
     bind_checked (verify_re3d_installation cs e re3d_root pipeline fs) (\<lambda>_. Inr request)))))))"

definition dry_run_report :: "json \<Rightarrow> string \<Rightarrow> re3d_step list \<Rightarrow> json checked" where
  "dry_run_report request now steps =
     bind_checked (item ''job_id'' request) (\<lambda>job.
     bind_checked (item ''request_id'' request) (\<lambda>rid.
     bind_checked (item ''pipeline'' request) (\<lambda>pipeline.
     bind_checked (item ''branches'' request) (\<lambda>branches.
     bind_checked (item2 ''storage'' ''work_path'' request) (\<lambda>work.
     bind_checked (item2 ''storage'' ''output_path'' request) (\<lambda>output.
     bind_checked (item2 ''storage'' ''logs_path'' request) (\<lambda>logs.
     Inr (JObject
       [(''schema_version'', JString ''1.0''), (''operation'', JString ''real_pipeline_dry_run''), (''status'', JString ''pass''),
        (''checked_at'', JString now), (''job_id'', job), (''request_id'', rid), (''pipeline'', pipeline),
        (''command_contract'', JObject
          [(''script'', JString ''scripts/run_pipeline.py''), (''branches'', branches), (''work_path'', work),
           (''output_path'', output), (''logs_path'', logs), (''stdout_log'', JString ''runtime/logs/re3d-dry-run.log'')]),
        (''step_count'', JInt (int (length steps))), (''steps'', JList (steps_json 1 steps))]))))))))"

definition run_dry_run ::
  "codecs \<Rightarrow> pipeline_env \<Rightarrow> task_layout \<Rightarrow> path \<Rightarrow> path \<Rightarrow> json pipe" where
  "run_dry_run cs e l re3d_root driver_python =
     pipe_then (look (\<lambda>fs. ensure_worker_directories fs l)) (\<lambda>_.
     pipe_then (look (dry_run_input cs e l re3d_root driver_python)) (\<lambda>request.
     pipe_then (look (build_command l re3d_root driver_python [''--dry-run''] request)) (\<lambda>command.
     case pl_dry e command of
       Dry_timed_out \<Rightarrow> given (Inl (Adapter_failure ''Re3D dry-run timed out''))
     | Dry_cannot_start \<Rightarrow> given (Inl Os_error)
     | Dry_exit code output errors \<Rightarrow>
         pipe_then (look (\<lambda>fs. resolve fs l ''runtime/logs/re3d-dry-run.log'')) (\<lambda>log_path.
         pipe_then (pipe_write e log_path (if errors = [] then output else output @ [lf] @ errors)) (\<lambda>_.
         pipe_then (given (require (code = 0) (Adapter_failure (''Re3D dry-run failed with exit code '' @ int_text code)))) (\<lambda>_.
         pipe_then (given (parse_dry_run_steps output)) (\<lambda>steps.
         pipe_then (given (dry_run_report request (pl_finished_at e) steps)) (\<lambda>report.
         pipe_then (look (\<lambda>fs. resolve fs l ''manifests/real-dry-run-report.json'')) (\<lambda>report_path.
         pipe_then (pipe_write e report_path (json_text cs report)) (\<lambda>_. pipe_return report))))))))))"

section \<open>An existing result\<close>

definition validate_real_request :: "task_layout \<Rightarrow> json \<Rightarrow> unit checked" where
  "validate_real_request l request =
     bind_checked (refuse_if (item_differs ''job_id'' (JString (tl_job_id l)) request)
       (Integrity ''request job_id does not match its task directory'')) (\<lambda>_.
     bind_checked (refuse_if (item_differs ''execution_mode'' (JString ''real'') request)
       (Contract_invalid ''real pipeline only accepts execution_mode=real'')) (\<lambda>_.
     refuse_if (item_differs ''branches'' (JList (map JString branch_names)) request)
       (Integrity ''real pipeline requires the fixed three branches'')))"

text \<open>\<open>result[k] != request[k]\<close> and \<open>result[k][l] != request[m][l]\<close>.\<close>

definition other_item :: "string \<Rightarrow> json \<Rightarrow> json \<Rightarrow> bool checked" where
  "other_item k request result = bind_checked (item k request) (\<lambda>v. item_differs k v result)"

definition item2_differs :: "string \<Rightarrow> string \<Rightarrow> json \<Rightarrow> json \<Rightarrow> bool checked" where
  "item2_differs k m w v = bind_checked (item2 k m v) (\<lambda>x. Inr (\<not> json_eq x w))"

definition pipeline_identity :: "json \<Rightarrow> json checked" where
  "pipeline_identity request =
     bind_checked (item2 ''pipeline'' ''tag'' request) (\<lambda>tag.
     bind_checked (item2 ''pipeline'' ''commit'' request) (\<lambda>commit.
     bind_checked (item2 ''pipeline'' ''config_sha256'' request) (\<lambda>config.
     Inr (JObject [(''tag'', tag), (''commit'', commit), (''config_sha256'', config)]))))"

definition result_identity :: "json \<Rightarrow> json \<Rightarrow> unit checked" where
  "result_identity request result =
     refuse_if (or_checked
       [other_item ''job_id'' request result, other_item ''request_id'' request result, other_item ''attempt'' request result,
        item_differs ''execution_mode'' (JString ''real'') result, item_differs ''status'' (JString ''succeeded'') result,
        bind_checked (pipeline_identity request) (\<lambda>p. item_differs ''pipeline'' p result),
        bind_checked (item2 ''input'' ''image_count'' request) (\<lambda>n. item2_differs ''input_summary'' ''image_count'' n result),
        bind_checked (item2 ''input'' ''manifest_sha256'' request) (\<lambda>n. item2_differs ''input_summary'' ''manifest_sha256'' n result)])
       (Integrity ''existing real result identity does not match request'')"

definition too_many_registered :: "int \<Rightarrow> json \<Rightarrow> unit checked" where
  "too_many_registered registered request =
     refuse_if (bind_checked (item2 ''input'' ''image_count'' request) (\<lambda>n. json_less n (JInt registered)))
       (Integrity ''registered image count exceeds input image count'')"

definition result_metrics :: "json \<Rightarrow> json \<Rightarrow> unit checked" where
  "result_metrics request result =
     bind_checked (item ''input_summary'' result) (\<lambda>summary.
     bind_checked (required_non_negative_int ''registered_images'' summary) (\<lambda>registered.
     bind_checked (too_many_registered registered request) (\<lambda>_.
     bind_checked (required_non_negative_number ''mean_reprojection_error_px'' summary) (\<lambda>_.
     bind_checked (required_non_negative_number ''duration_seconds'' result) (\<lambda>_. Inr ())))))"

text \<open>\<open>(kind, path, content_type)\<close> of an artifact, the four of a branch and the three places of a texture.\<close>

type_synonym artifact_key = "json \<times> json \<times> json"

definition artifact_key :: "json \<Rightarrow> artifact_key checked" where
  "artifact_key a =
     bind_checked (item ''kind'' a) (\<lambda>kind. bind_checked (item ''path'' a) (\<lambda>p.
     bind_checked (item ''content_type'' a) (\<lambda>t. Inr (kind, p, t))))"

definition key_of :: "string \<Rightarrow> string \<Rightarrow> string \<Rightarrow> string \<Rightarrow> artifact_key" where
  "key_of branch kind name content_type =
     (JString kind, JString (''output/'' @ branch @ ''/'' @ name), JString content_type)"

definition mesh_keys :: "string \<Rightarrow> artifact_key list" where
  "mesh_keys branch =
     [key_of branch ''glb'' ''mesh.glb'' ''model/gltf-binary'', key_of branch ''obj'' ''mesh.obj'' ''model/obj'',
      key_of branch ''mtl'' ''mesh.mtl'' ''text/plain'']"

definition texture_keys :: "string \<Rightarrow> artifact_key list" where
  "texture_keys branch =
     [key_of branch ''texture'' ''texture.jpg'' ''image/jpeg'', key_of branch ''texture'' ''texture.jpeg'' ''image/jpeg'',
      key_of branch ''texture'' ''texture.png'' ''image/png'']"

definition artifact_contract :: "string \<Rightarrow> json list \<Rightarrow> unit checked" where
  "artifact_contract branch artifacts =
     bind_checked (collect_checked artifact_key artifacts) (\<lambda>observed.
     bind_checked (require (length artifacts = 4 \<and> set (mesh_keys branch) \<subseteq> set observed \<and>
         card (set observed \<inter> set (texture_keys branch)) = 1)
       (Integrity (''persisted '' @ branch @ '' artifact contract changed''))) (\<lambda>_.
     refuse_if (or_checked (map (\<lambda>a. bind_checked (item ''size_bytes'' a) (\<lambda>n. json_less n (JInt 1))) artifacts))
       (Integrity (''persisted '' @ branch @ '' artifact is empty''))))"

definition check_persisted :: "codecs \<Rightarrow> task_layout \<Rightarrow> string \<Rightarrow> json \<Rightarrow> file_system \<Rightarrow> unit checked" where
  "check_persisted cs l branch artifact fs =
     bind_checked (bind_checked (bind_checked (item ''path'' artifact) text_of) (resolve fs l)) (\<lambda>p.
     bind_checked (require (\<not> fs_link fs p \<and> is_file fs p) (Integrity (''persisted '' @ branch @ '' artifact is missing''))) (\<lambda>_.
     bind_checked (file_size fs p) (\<lambda>n.
     bind_checked (refuse_if (item_differs ''size_bytes'' (JInt n) artifact)
       (Integrity (''persisted '' @ branch @ '' artifact size changed''))) (\<lambda>_.
     bind_checked (sha256_file cs fs p) (\<lambda>sha.
     refuse_if (item_differs ''sha256'' (JString sha) artifact)
       (Integrity (''persisted '' @ branch @ '' artifact hash changed'')))))))"

definition branch_metrics :: "string \<Rightarrow> json \<Rightarrow> unit checked" where
  "branch_metrics branch metrics =
     bind_checked (required_positive_int ''vertices'' metrics) (\<lambda>_.
     bind_checked (required_positive_int ''faces'' metrics) (\<lambda>_.
     if branch \<in> {''A-v4'', ''B-v2''}
     then bind_checked (required_ratio ''retained_valid_fraction'' metrics) (\<lambda>_. Inr ()) else Inr ()))"

definition validate_branch_result ::
  "codecs \<Rightarrow> pipeline_env \<Rightarrow> task_layout \<Rightarrow> string \<times> json \<Rightarrow> unit pipe" where
  "validate_branch_result cs e l named =
     (case named of (branch, branch_result) \<Rightarrow>
        pipe_then (health_check e) (\<lambda>_.
        pipe_then (given (bind_checked (item ''metrics'' branch_result) (branch_metrics branch))) (\<lambda>_.
        pipe_then (given (bind_checked (item ''artifacts'' branch_result) elements_of)) (\<lambda>artifacts.
        pipe_then (given (artifact_contract branch artifacts)) (\<lambda>_.
        each_pipe (\<lambda>a.
          pipe_then (health_check e) (\<lambda>_.
          pipe_then (look (check_persisted cs l branch a)) (\<lambda>_. health_check e))) artifacts)))))"

definition validate_existing_real_result ::
  "codecs \<Rightarrow> pipeline_env \<Rightarrow> task_layout \<Rightarrow> json \<Rightarrow> json \<Rightarrow> unit pipe" where
  "validate_existing_real_result cs e l request result =
     pipe_then (health_check e) (\<lambda>_.
     pipe_then (given (result_identity request result)) (\<lambda>_.
     pipe_then (given (result_metrics request result)) (\<lambda>_.
     pipe_then (given (bind_checked (item ''branches'' result) items_of)) (\<lambda>named.
     each_pipe (validate_branch_result cs e l) named))))"

section \<open>A new result\<close>

text \<open>One artifact of \<open>_collect_artifacts\<close>: its path relative to the task directory, its hash and its size.\<close>

definition artifact_object :: "string \<Rightarrow> string \<Rightarrow> string \<Rightarrow> int \<Rightarrow> string \<Rightarrow> json" where
  "artifact_object kind relative sha n content_type = JObject
     [(''kind'', JString kind), (''path'', JString relative), (''sha256'', JString sha), (''size_bytes'', JInt n),
      (''content_type'', JString content_type)]"

text \<open>\<open>path.relative_to(root).as_posix()\<close>\<close>

definition relative_text :: "task_layout \<Rightarrow> path \<Rightarrow> string checked" where
  "relative_text l p =
     (if prefix (tl_root l) p then Inr (drop 1 (path_text (drop (length (tl_root l)) p)))
      else Inl (Value_error ''path is not in the subpath''))"

definition collect_artifact ::
  "codecs \<Rightarrow> task_layout \<Rightarrow> string \<Rightarrow> path \<times> string \<times> string \<Rightarrow> file_system \<Rightarrow> json checked" where
  "collect_artifact cs l branch spec fs =
     (case spec of (p, kind, content_type) \<Rightarrow>
        let invalid = Integrity (branch @ '' normalized '' @ kind @ '' artifact is invalid'')
        in bind_checked (require (\<not> fs_link fs p \<and> is_file fs p) invalid) (\<lambda>_.
           bind_checked (file_size fs p) (\<lambda>n.
           bind_checked (require (0 < n) invalid) (\<lambda>_.
           bind_checked (relative_text l p) (\<lambda>relative.
           bind_checked (sha256_file cs fs p) (\<lambda>sha.
           Inr (artifact_object kind relative sha n content_type)))))))"

text \<open>The texture of a branch is the only one of three files; the type depends on its suffix.\<close>

definition texture_names :: "string list" where
  "texture_names = [''texture.jpg'', ''texture.jpeg'', ''texture.png'']"

definition artifact_specs :: "task_layout \<Rightarrow> string \<Rightarrow> file_system \<Rightarrow> (path \<times> string \<times> string) list checked" where
  "artifact_specs l branch fs =
     bind_checked (resolve fs l (''output/'' @ branch)) (\<lambda>base.
     case filter (\<lambda>n. is_file fs (base @ [n])) texture_names of
       [texture] \<Rightarrow> Inr
         [(base @ [''mesh.glb''], ''glb'', ''model/gltf-binary''), (base @ [''mesh.obj''], ''obj'', ''model/obj''),
          (base @ [''mesh.mtl''], ''mtl'', ''text/plain''),
          (base @ [texture], ''texture'', if texture = ''texture.png'' then ''image/png'' else ''image/jpeg'')]
     | _ \<Rightarrow> Inl (Integrity (branch @ '' must contain exactly one normalized texture'')))"

definition collect_artifacts :: "codecs \<Rightarrow> pipeline_env \<Rightarrow> task_layout \<Rightarrow> string \<Rightarrow> json list pipe" where
  "collect_artifacts cs e l branch =
     pipe_then (health_check e) (\<lambda>_.
     pipe_then (look (artifact_specs l branch)) (\<lambda>specs.
     collect_pipe (\<lambda>spec.
       pipe_then (health_check e) (\<lambda>_.
       pipe_then (look (collect_artifact cs l branch spec)) (\<lambda>a.
       pipe_then (health_check e) (\<lambda>_. pipe_return a)))) specs))"

definition consistency_place :: "string \<Rightarrow> string option" where
  "consistency_place branch =
     (if branch = ''A-v4'' then Some ''runtime/work/branches/a_mapanything/depth-v4/consistency_manifest.json''
      else if branch = ''B-v2'' then Some ''runtime/work/branches/b_mvsanywhere/depth-v2/consistency_manifest.json''
      else None)"

definition depth_metric :: "codecs \<Rightarrow> task_layout \<Rightarrow> string \<Rightarrow> file_system \<Rightarrow> (string \<times> json) list checked" where
  "depth_metric cs l branch fs =
     (case consistency_place branch of
        None \<Rightarrow> Inr []
      | Some place \<Rightarrow>
          bind_checked (resolve fs l place) (\<lambda>p.
          bind_checked (read_json_object cs (branch @ '' consistency metrics'') p fs) (\<lambda>v.
          bind_checked (required_ratio ''retained_valid_fraction'' v) (\<lambda>a.
          Inr [(''retained_valid_fraction'', float_json a)]))))"

definition mesh_metrics :: "json \<Rightarrow> string \<Rightarrow> (string \<times> json) list checked" where
  "mesh_metrics validation branch =
     bind_checked (item2 ''branches'' branch validation) (\<lambda>v.
     bind_checked (required_positive_int ''glb_vertices'' v) (\<lambda>vertices.
     bind_checked (required_positive_int ''glb_faces'' v) (\<lambda>faces.
     Inr [(''vertices'', JInt vertices), (''faces'', JInt faces)])))"

definition build_branch_result ::
  "codecs \<Rightarrow> pipeline_env \<Rightarrow> task_layout \<Rightarrow> json \<Rightarrow> string \<Rightarrow> (string \<times> json) pipe" where
  "build_branch_result cs e l validation branch =
     pipe_then (health_check e) (\<lambda>_.
     pipe_then (given (mesh_metrics validation branch)) (\<lambda>mesh.
     pipe_then (look (depth_metric cs l branch)) (\<lambda>depth.
     pipe_then (collect_artifacts cs e l branch) (\<lambda>artifacts.
     pipe_return (branch, JObject
       [(''status'', JString ''succeeded''), (''duration_seconds'', JInt 0), (''artifacts'', JList artifacts),
        (''metrics'', JObject (mesh @ depth))])))))"

definition real_result_object ::
  "pipeline_env \<Rightarrow> json \<Rightarrow> int \<Rightarrow> rat \<Rightarrow> (string \<times> json) list \<Rightarrow> json checked" where
  "real_result_object e request registered reprojection branches =
     bind_checked (item ''job_id'' request) (\<lambda>job. bind_checked (item ''request_id'' request) (\<lambda>rid.
     bind_checked (item ''attempt'' request) (\<lambda>attempt. bind_checked (pipeline_identity request) (\<lambda>pipeline.
     bind_checked (item2 ''input'' ''image_count'' request) (\<lambda>count.
     bind_checked (item2 ''input'' ''manifest_sha256'' request) (\<lambda>sha.
     bind_checked (item2 ''input'' ''manifest_path'' request) (\<lambda>manifest.
     Inr (JObject
       [(''contract_version'', JString ''1.0''), (''execution_mode'', JString ''real''), (''job_id'', job), (''request_id'', rid),
        (''attempt'', attempt), (''status'', JString ''succeeded''), (''started_at'', JString (pl_started_at e)),
        (''finished_at'', JString (pl_finished_at e)), (''duration_seconds'', float_json (max 0 (pl_duration e))),
        (''pipeline'', pipeline),
        (''input_summary'', JObject
          [(''image_count'', count), (''manifest_sha256'', sha), (''registered_images'', JInt registered),
           (''mean_reprojection_error_px'', float_json reprojection)]),
        (''branches'', JObject branches),
        (''diagnostics'', JObject
          [(''input_manifest'', manifest), (''events'', JString ''manifests/pipeline-events.jsonl''),
           (''output_validation'', JString ''manifests/output-validation.json'')])]))))))))"

text \<open>The metrics of the sparse reconstruction: registered images and reprojection error.\<close>

definition sfm_metrics :: "codecs \<Rightarrow> task_layout \<Rightarrow> json \<Rightarrow> file_system \<Rightarrow> (int \<times> rat) checked" where
  "sfm_metrics cs l request fs =
     bind_checked (resolve fs l ''runtime/work/shared/colmap/reconstruction_metrics.json'') (\<lambda>p.
     bind_checked (read_json_object cs ''SfM metrics'' p fs) (\<lambda>sfm.
     bind_checked (required_non_negative_int ''registered_images'' sfm) (\<lambda>registered.
     bind_checked (too_many_registered registered request) (\<lambda>_.
     bind_checked (required_non_negative_number ''mean_reprojection_error_px'' sfm) (\<lambda>reprojection.
     Inr (registered, reprojection))))))"

definition build_real_result :: "codecs \<Rightarrow> pipeline_env \<Rightarrow> task_layout \<Rightarrow> json \<Rightarrow> json pipe" where
  "build_real_result cs e l request =
     pipe_then (health_check e) (\<lambda>_.
     pipe_then (look (\<lambda>fs. resolve fs l ''output/validation.json'')) (\<lambda>source.
     pipe_then (look (read_json_object cs ''Re3D output validation'' source)) (\<lambda>validation.
     pipe_then (given (validate_output_report validation)) (\<lambda>_.
     pipe_then (look (\<lambda>fs. output_validation_path fs l)) (\<lambda>target.
     pipe_then (pipe_write e target (json_text cs validation)) (\<lambda>_.
     pipe_then (health_check e) (\<lambda>_.
     pipe_then (look (sfm_metrics cs l request)) (\<lambda>sfm.
     pipe_then (given (bind_checked (bind_checked (item ''branches'' request) elements_of) (collect_checked text_of))) (\<lambda>branches.
     pipe_then (collect_pipe (build_branch_result cs e l validation) branches) (\<lambda>named.
     given (real_result_object e request (fst sfm) (snd sfm) named)))))))))))"

section \<open>The run\<close>

text \<open>\<open>_handle_line\<close>\<close>

definition handle_step_line :: "pipeline_env \<Rightarrow> nat \<Rightarrow> string \<Rightarrow> adapter_error option" where
  "handle_step_line e n line =
     (case parse_step_line line of Inl x \<Rightarrow> Some x | Inr None \<Rightarrow> None | Inr (Some st) \<Rightarrow> pl_on_step e n st)"

text \<open>\<open>run_managed_process\<close> with its default grace, and what it leaves of the files.\<close>

definition run_process :: "pipeline_env \<Rightarrow> int \<Rightarrow> rat \<Rightarrow> string list \<Rightarrow> int pipe option" where
  "run_process e timeout poll_seconds command =
     (case run_managed_process ((pl_process e)\<lparr>pe_handler := handle_step_line e\<rparr>)
         \<lparr>ms_timeout_seconds = timeout, ms_poll_seconds = poll_seconds, ms_grace_seconds = 5, ms_started = pl_monotonic e\<rparr> command of
        None \<Rightarrow> None
      | Some (r, _) \<Rightarrow> Some (\<lambda>w. (r, w\<lparr>pp_files := pl_worked e (pp_files w)\<rparr>)))"

text \<open>The part of \<open>run\<close> before a result is looked for.\<close>

definition real_request :: "codecs \<Rightarrow> pipeline_env \<Rightarrow> task_layout \<Rightarrow> json pipe" where
  "real_request cs e l =
     pipe_then (health_check e) (\<lambda>_.
     pipe_then (look (\<lambda>fs. ensure_worker_directories fs l)) (\<lambda>_.
     pipe_then (look (\<lambda>fs. bind_checked (request_path fs l) (\<lambda>p. load_json_contract cs fs p ''pipeline-request''))) (\<lambda>request.
     pipe_then (given (validate_real_request l request)) (\<lambda>_.
     pipe_then (health_check e) (\<lambda>_.
     pipe_then (look (\<lambda>fs. validate_task_input cs fs l request)) (\<lambda>_.
     pipe_then (health_check e) (\<lambda>_. pipe_return request)))))))"

definition reuse_real_result :: "codecs \<Rightarrow> pipeline_env \<Rightarrow> task_layout \<Rightarrow> json \<Rightarrow> path \<Rightarrow> (json \<times> bool) pipe" where
  "reuse_real_result cs e l request p =
     pipe_then (look (\<lambda>fs. load_json_contract cs fs p ''pipeline-result'')) (\<lambda>result.
     pipe_then (validate_existing_real_result cs e l request result) (\<lambda>_.
     pipe_then (health_check e) (\<lambda>_. pipe_return (result, True))))"

definition effective_timeout :: "json \<Rightarrow> int option \<Rightarrow> int checked" where
  "effective_timeout request timeout =
     bind_checked (bind_checked (item2 ''limits'' ''timeout_seconds'' request) int_of) (\<lambda>t.
     let t = (case timeout of None \<Rightarrow> t | Some s \<Rightarrow> min t s)
     in bind_checked (require (1 \<le> t) Pipeline_timed_out) (\<lambda>_. Inr t))"

definition prepare_process ::
  "codecs \<Rightarrow> pipeline_env \<Rightarrow> task_layout \<Rightarrow> path \<Rightarrow> path \<Rightarrow> json \<Rightarrow> int option \<Rightarrow> (int \<times> string list) pipe" where
  "prepare_process cs e l re3d_root driver_python request timeout =
     pipe_then (given (effective_timeout request timeout)) (\<lambda>t.
     pipe_then (look (\<lambda>fs. require (is_file fs driver_python) (Integrity ''Re3D driver Python does not exist''))) (\<lambda>_.
     pipe_then (given (item ''pipeline'' request)) (\<lambda>pipeline.
     pipe_then (look (verify_re3d_installation cs e re3d_root pipeline)) (\<lambda>_.
     pipe_then (health_check e) (\<lambda>_.
     pipe_then (look (build_command l re3d_root driver_python [] request)) (\<lambda>command.
     pipe_then (look (\<lambda>fs. resolve fs l ''runtime/logs/re3d-run.log'')) (\<lambda>_. pipe_return (t, command))))))))"

definition finish_real_run :: "codecs \<Rightarrow> pipeline_env \<Rightarrow> task_layout \<Rightarrow> json \<Rightarrow> int \<Rightarrow> (json \<times> bool) pipe" where
  "finish_real_run cs e l request code =
     pipe_then (health_check e) (\<lambda>_.
     pipe_then (given (require (code = 0) (Adapter_failure (''Re3D pipeline failed with exit code '' @ int_text code)))) (\<lambda>_.
     pipe_then (build_real_result cs e l request) (\<lambda>result.
     pipe_then (health_check e) (\<lambda>_.
     pipe_then (given (validate_contract cs ''pipeline-result'' result)) (\<lambda>_.
     pipe_then (health_check e) (\<lambda>_.
     pipe_then (look (\<lambda>fs. result_path fs l)) (\<lambda>p.
     pipe_then (pipe_write e p (json_text cs result)) (\<lambda>_.
     pipe_then (health_check e) (\<lambda>_. pipe_return (result, False))))))))))"

text \<open>\<open>None\<close> is a run whose process never comes to an end.\<close>

definition run_real_pipeline ::
  "codecs \<Rightarrow> pipeline_env \<Rightarrow> task_layout \<Rightarrow> path \<Rightarrow> path \<Rightarrow> rat \<Rightarrow> int option \<Rightarrow> pipe_world \<Rightarrow>
     (adapter_error, json \<times> bool, pipe_world) outcome option" where
  "run_real_pipeline cs e l re3d_root driver_python poll_seconds timeout w =
     (case pipe_then (real_request cs e l) (\<lambda>request.
           pipe_then (look (\<lambda>fs. result_path fs l)) (\<lambda>p. pipe_return (request, p))) w of
        (Inl x, w1) \<Rightarrow> Some (Inl x, w1)
      | (Inr (request, p), w1) \<Rightarrow>
          if path_exists (pp_files w1) p then Some (reuse_real_result cs e l request p w1)
          else
            (case prepare_process cs e l re3d_root driver_python request timeout w1 of
               (Inl x, w2) \<Rightarrow> Some (Inl x, w2)
             | (Inr (t, command), w2) \<Rightarrow>
                 map_option (\<lambda>m. pipe_then m (finish_real_run cs e l request) w2) (run_process e t poll_seconds command)))"

end
