(* ===== verification/Real_Theorems.thy ===== *)
theory Real_Theorems
  imports Real_Pipeline Unary_Codec
begin

text \<open>
  A finished real task is reused: what the run builds as its result passes the checks that a later run makes
  of an existing result.
\<close>

section \<open>Steps that only read\<close>

lemma pipe_then_Inr [simp]:
  "pipe_then m f w = (Inr y, w') \<longleftrightarrow> (\<exists>x w1. m w = (Inr x, w1) \<and> f x w1 = (Inr y, w'))"
  by (simp add: pipe_then_def followed_by_Inr)

lemma given_Inr [simp]: "given m w = (Inr x, w') \<longleftrightarrow> m = Inr x \<and> w' = w"
  by (auto simp: given_def)

lemma look_Inr [simp]: "look f w = (Inr x, w') \<longleftrightarrow> f (pp_files w) = Inr x \<and> w' = w"
  by (auto simp: look_def)

lemma pipe_return_Inr [simp]: "pipe_return x w = (Inr y, w') \<longleftrightarrow> x = y \<and> w' = w"
  by (auto simp: pipe_return_def)

lemma health_check_Inr:
  "health_check e w = (Inr u, w') \<longleftrightarrow> pl_health e (pp_checks w) = None \<and> w' = w\<lparr>pp_checks := pp_checks w + 1\<rparr>"
  by (auto simp: health_check_def split: option.split)

lemma pipe_write_Inr:
  "pipe_write e p t w = (Inr u, w') \<longleftrightarrow> \<not> pl_failed e (pp_writes w) \<and>
     w' = w\<lparr>pp_files := (pp_files w)\<lparr>fs_data := (fs_data (pp_files w))(p \<mapsto> t)\<rparr>, pp_writes := pp_writes w + 1\<rparr>"
  by (auto simp: pipe_write_def atomic_write_def)

text \<open>What a step establishes of the files it reads.\<close>

definition reads :: "'a pipe \<Rightarrow> (file_system \<Rightarrow> 'a \<Rightarrow> bool) \<Rightarrow> bool" where
  "reads m P \<longleftrightarrow> (\<forall>w x w'. m w = (Inr x, w') \<longrightarrow> pp_files w' = pp_files w \<and> P (pp_files w) x)"

lemma readsD: "reads m P \<Longrightarrow> m w = (Inr x, w') \<Longrightarrow> pp_files w' = pp_files w \<and> P (pp_files w) x"
  by (simp add: reads_def)

lemma reads_collect:
  assumes "\<And>x. x \<in> set xs \<Longrightarrow> reads (f x) (\<lambda>fs y. P fs x y)"
  shows "reads (collect_pipe f xs) (\<lambda>fs ys. list_all2 (P fs) xs ys)"
  using assms
proof (induction xs)
  case Nil
  then show ?case by (simp add: reads_def)
next
  case (Cons x xs)
  show ?case
    unfolding reads_def
  proof (intro allI impI)
    fix w ys w' assume "collect_pipe f (x # xs) w = (Inr ys, w')"
    then obtain y w1 zs w2 where f: "f x w = (Inr y, w1)" and rest: "collect_pipe f xs w1 = (Inr zs, w2)"
      and ys: "ys = y # zs" "w' = w2" by auto
    have "pp_files w1 = pp_files w \<and> P (pp_files w) x y" using readsD [OF Cons.prems f] by simp
    moreover have "pp_files w2 = pp_files w1 \<and> list_all2 (P (pp_files w1)) xs zs"
      using readsD [OF Cons.IH rest] Cons.prems by simp
    ultimately show "pp_files w' = pp_files w \<and> list_all2 (P (pp_files w)) (x # xs) ys" by (simp add: ys)
  qed
qed

text \<open>Steps that succeed on given files and leave them.\<close>

definition passes :: "file_system \<Rightarrow> unit pipe \<Rightarrow> bool" where
  "passes fs m \<longleftrightarrow> (\<forall>w. pp_files w = fs \<longrightarrow> (\<exists>w'. m w = (Inr (), w') \<and> pp_files w' = fs))"

lemma passes_then:
  assumes "passes fs m" "passes fs n" shows "passes fs (pipe_then m (\<lambda>_. n))"
  using assms unfolding passes_def pipe_then_Inr by blast

lemma passes_each: "(\<And>x. x \<in> set xs \<Longrightarrow> passes fs (f x)) \<Longrightarrow> passes fs (each_pipe f xs)"
proof (induction xs)
  case Nil
  then show ?case by (simp add: passes_def)
next
  case (Cons x xs)
  then show ?case by (auto intro: passes_then)
qed

lemma passes_health: "\<forall>n. pl_health e n = None \<Longrightarrow> passes fs (health_check e)"
  by (simp add: passes_def health_check_Inr)

lemma passes_look: "f fs = Inr () \<Longrightarrow> passes fs (look f)"
  by (simp add: passes_def)

lemma passes_given: "m = Inr x \<Longrightarrow> passes fs (f x) \<Longrightarrow> passes fs (pipe_then (given m) f)"
  unfolding passes_def pipe_then_Inr by auto

section \<open>Artifacts\<close>

definition artifact_names :: "string list" where
  "artifact_names = [''mesh.glb'', ''mesh.obj'', ''mesh.mtl''] @ texture_names"

definition artifact_relative :: "string \<Rightarrow> string \<Rightarrow> string" where
  "artifact_relative branch name = ''output/'' @ branch @ ''/'' @ name"

lemma artifact_paths:
  assumes "b \<in> set branch_names" "n \<in> set artifact_names"
  shows "\<not> bad_task_path (artifact_relative b n) \<and> posix_parts (artifact_relative b n) = [''output'', b, n]"
  using assms by (auto simp: branch_names_def artifact_names_def texture_names_def artifact_relative_def bad_task_path_def posix_parts_def)

lemma branch_directory:
  "b \<in> set branch_names \<Longrightarrow> \<not> bad_task_path (''output/'' @ b) \<and> posix_parts (''output/'' @ b) = [''output'', b]"
  by (auto simp: branch_names_def bad_task_path_def posix_parts_def)

lemma relative_of: "relative_text l (tl_root l @ [''output'', b, n]) = Inr (artifact_relative b n)"
  by (simp add: relative_text_def path_text_def artifact_relative_def)

text \<open>A collected artifact: its file is there and it names the file's place, size and hash.\<close>

definition collected :: "codecs \<Rightarrow> task_layout \<Rightarrow> file_system \<Rightarrow> string \<Rightarrow> string \<times> string \<times> string \<Rightarrow> json \<Rightarrow> bool" where
  "collected cs l fs b spec a \<longleftrightarrow> (case spec of (n, kind, content_type) \<Rightarrow>
     \<exists>x. read_file fs (tl_root l @ [''output'', b, n]) = Some x \<and> x \<noteq> [] \<and> \<not> fs_link fs (tl_root l @ [''output'', b, n]) \<and>
       a = artifact_object kind (artifact_relative b n) (cs_sha256 cs x) (int (length x)) content_type)"

definition branch_specs :: "string \<Rightarrow> (string \<times> string \<times> string) list" where
  "branch_specs texture =
     [(''mesh.glb'', ''glb'', ''model/gltf-binary''), (''mesh.obj'', ''obj'', ''model/obj''), (''mesh.mtl'', ''mtl'', ''text/plain''),
      (texture, ''texture'', if texture = ''texture.png'' then ''image/png'' else ''image/jpeg'')]"

lemma specs_of:
  assumes "plain_root fs l" "b \<in> set branch_names" "artifact_specs l b fs = Inr specs"
  shows "\<exists>texture \<in> set texture_names. specs = map (\<lambda>(n, k, t). (tl_root l @ [''output'', b, n], k, t)) (branch_specs texture)"
proof -
  have base: "resolve fs l (''output/'' @ b) = Inr (tl_root l @ [''output'', b])"
    using branch_directory [OF assms(2)] by (simp add: plain_resolve [OF assms(1)])
  obtain texture where found: "filter (\<lambda>n. is_file fs ((tl_root l @ [''output'', b]) @ [n])) texture_names = [texture]"
    and specs: "specs = map (\<lambda>(n, k, t). (tl_root l @ [''output'', b, n], k, t)) (branch_specs texture)"
    using assms(3) unfolding artifact_specs_def base bind_checked_simps
    by (auto simp: branch_specs_def split: list.splits)
  have "texture \<in> set (filter (\<lambda>n. is_file fs ((tl_root l @ [''output'', b]) @ [n])) texture_names)"
    unfolding found by simp
  with specs show ?thesis by auto
qed

lemma collect_artifact_collected:
  assumes "collect_artifact cs l b (tl_root l @ [''output'', b, n], kind, t) fs = Inr a"
  shows "collected cs l fs b (n, kind, t) a"
  using assms by (auto simp: collect_artifact_def Let_def relative_of collected_def file_size_def sha256_file_def is_file_def
      split: option.splits)

lemma collect_artifacts_reads:
  assumes "b \<in> set branch_names"
  shows "reads (collect_artifacts cs e l b) (\<lambda>fs as. plain_root fs l \<longrightarrow>
    (\<exists>texture \<in> set texture_names. list_all2 (collected cs l fs b) (branch_specs texture) as))"
  unfolding reads_def
proof (intro allI impI)
  fix w as w' assume run: "collect_artifacts cs e l b w = (Inr as, w')"
  let ?one = "\<lambda>spec. pipe_then (health_check e) (\<lambda>_. pipe_then (look (collect_artifact cs l b spec)) (\<lambda>a.
       pipe_then (health_check e) (\<lambda>_. pipe_return a)))"
  obtain w1 specs w2 where w1: "health_check e w = (Inr (), w1)" "look (artifact_specs l b) w1 = (Inr specs, w2)"
    "collect_pipe ?one specs w2 = (Inr as, w')"
    using run unfolding collect_artifacts_def pipe_then_Inr by auto
  then have w2: "pp_files w2 = pp_files w" "artifact_specs l b (pp_files w) = Inr specs"
    by (auto simp: health_check_Inr)
  have "reads (?one spec) (\<lambda>fs a. collect_artifact cs l b spec fs = Inr a)" for spec
    by (auto simp: reads_def health_check_Inr)
  then have "reads (collect_pipe ?one specs) (\<lambda>fs ys. list_all2 (\<lambda>spec a. collect_artifact cs l b spec fs = Inr a) specs ys)"
    by (rule reads_collect)
  from readsD [OF this w1(3)] have all: "pp_files w' = pp_files w"
    "list_all2 (\<lambda>spec a. collect_artifact cs l b spec (pp_files w) = Inr a) specs as" by (simp_all add: w2)
  show "pp_files w' = pp_files w \<and> (plain_root (pp_files w) l \<longrightarrow>
      (\<exists>texture \<in> set texture_names. list_all2 (collected cs l (pp_files w) b) (branch_specs texture) as))"
  proof (intro conjI impI)
    assume "plain_root (pp_files w) l"
    from specs_of [OF this assms w2(2)] obtain texture where t: "texture \<in> set texture_names"
      "specs = map (\<lambda>(n, k, t). (tl_root l @ [''output'', b, n], k, t)) (branch_specs texture)" by blast
    have "list_all2 (collected cs l (pp_files w) b) (branch_specs texture) as"
      using all(2) unfolding t(2) list_all2_map1
      by (rule list_all2_mono) (auto intro: collect_artifact_collected)
    with t(1) show "\<exists>texture \<in> set texture_names. list_all2 (collected cs l (pp_files w) b) (branch_specs texture) as" by blast
  qed (fact all(1))
qed

section \<open>The result that a run builds\<close>

text \<open>One branch of the result: positive counts, a ratio where the branch has one, and its four artifacts.\<close>

definition branch_built :: "codecs \<Rightarrow> task_layout \<Rightarrow> file_system \<Rightarrow> string \<Rightarrow> string \<times> json \<Rightarrow> bool" where
  "branch_built cs l fs b entry \<longleftrightarrow> (\<exists>vertices faces depth as texture. 1 \<le> vertices \<and> 1 \<le> faces \<and>
     (b \<in> {''A-v4'', ''B-v2''} \<longrightarrow> (\<exists>a. 0 \<le> a \<and> a \<le> 1 \<and> depth = [(''retained_valid_fraction'', float_json a)])) \<and>
     entry = (b, JObject
       [(''status'', JString ''succeeded''), (''duration_seconds'', JInt 0), (''artifacts'', JList as),
        (''metrics'', JObject ([(''vertices'', JInt vertices), (''faces'', JInt faces)] @ depth))]) \<and>
     texture \<in> set texture_names \<and> list_all2 (collected cs l fs b) (branch_specs texture) as)"

lemma required_positive_int_Inr: "required_positive_int k v = Inr n \<Longrightarrow> 1 \<le> n"
  by (auto simp: required_positive_int_def)

lemma required_number_nonneg:
  assumes "required_non_negative_number k v = Inr a" shows "0 \<le> a"
proof (cases "json_field k v")
  case None
  with assms show ?thesis by (simp add: required_non_negative_number_def Let_def)
next
  case (Some x)
  show ?thesis
  proof (cases "\<exists>n. x = JInt n")
    case True
    then obtain n where "x = JInt n" by blast
    with assms Some show ?thesis
      by (auto simp: required_non_negative_number_def Let_def to_float_def number_of_def double_of_nonneg split: if_splits)
  next
    case False
    with assms Some show ?thesis
      by (auto simp: required_non_negative_number_def Let_def split: json.splits py_float.splits if_splits)
  qed
qed

lemma required_ratio_Inr: "required_ratio k v = Inr a \<Longrightarrow> 0 \<le> a \<and> a \<le> 1"
  by (auto simp: required_ratio_def dest: required_number_nonneg)

lemma depth_metric_Inr:
  assumes "depth_metric cs l b fs = Inr depth"
  shows "b \<in> {''A-v4'', ''B-v2''} \<longrightarrow> (\<exists>a. 0 \<le> a \<and> a \<le> 1 \<and> depth = [(''retained_valid_fraction'', float_json a)])"
proof
  assume "b \<in> {''A-v4'', ''B-v2''}"
  then obtain place where "consistency_place b = Some place" by (auto simp: consistency_place_def)
  with assms show "\<exists>a. 0 \<le> a \<and> a \<le> 1 \<and> depth = [(''retained_valid_fraction'', float_json a)]"
    by (auto simp: depth_metric_def dest: required_ratio_Inr)
qed

lemma mesh_metrics_Inr:
  "mesh_metrics validation b = Inr mesh \<Longrightarrow>
     \<exists>vertices faces. 1 \<le> vertices \<and> 1 \<le> faces \<and> mesh = [(''vertices'', JInt vertices), (''faces'', JInt faces)]"
  by (auto simp: mesh_metrics_def dest!: required_positive_int_Inr)

lemma build_branch_reads:
  assumes "b \<in> set branch_names"
  shows "reads (build_branch_result cs e l validation b) (\<lambda>fs entry. plain_root fs l \<longrightarrow> branch_built cs l fs b entry)"
  unfolding reads_def
proof (intro allI impI)
  fix w entry w' assume run: "build_branch_result cs e l validation b w = (Inr entry, w')"
  obtain w1 mesh depth as w2 where w: "health_check e w = (Inr (), w1)" "mesh_metrics validation b = Inr mesh"
    "depth_metric cs l b (pp_files w1) = Inr depth" "collect_artifacts cs e l b w1 = (Inr as, w2)" "w' = w2"
    "entry = (b, JObject
       [(''status'', JString ''succeeded''), (''duration_seconds'', JInt 0), (''artifacts'', JList as),
        (''metrics'', JObject (mesh @ depth))])"
    using run unfolding build_branch_result_def pipe_then_Inr given_Inr look_Inr pipe_return_Inr by auto
  have files: "pp_files w1 = pp_files w" using w(1) by (simp add: health_check_Inr)
  note as = readsD [OF collect_artifacts_reads [OF assms] w(4)]
  from mesh_metrics_Inr [OF w(2)] obtain vertices faces where
    mesh: "1 \<le> vertices" "1 \<le> faces" "mesh = [(''vertices'', JInt vertices), (''faces'', JInt faces)]" by blast
  show "pp_files w' = pp_files w \<and> (plain_root (pp_files w) l \<longrightarrow> branch_built cs l (pp_files w) b entry)"
  proof (intro conjI impI)
    assume "plain_root (pp_files w) l"
    with as obtain texture where "texture \<in> set texture_names" "list_all2 (collected cs l (pp_files w) b) (branch_specs texture) as"
      by (auto simp: files)
    with mesh depth_metric_Inr [OF w(3)] w(6) show "branch_built cs l (pp_files w) b entry"
      unfolding branch_built_def by blast
  qed (use as files w(5) in simp)
qed

text \<open>What the request of a real task has by contract.\<close>

definition real_request_ok :: "json \<Rightarrow> bool" where
  "real_request_ok request \<longleftrightarrow> (\<exists>job rid attempt tag commit config count sha manifest.
     json_field ''job_id'' request = Some (JString job) \<and> json_field ''request_id'' request = Some (JString rid) \<and>
     json_field ''attempt'' request = Some (JInt attempt) \<and>
     item2 ''pipeline'' ''tag'' request = Inr (JString tag) \<and> item2 ''pipeline'' ''commit'' request = Inr (JString commit) \<and>
     item2 ''pipeline'' ''config_sha256'' request = Inr (JString config) \<and>
     item2 ''input'' ''image_count'' request = Inr (JInt count) \<and> item2 ''input'' ''manifest_sha256'' request = Inr (JString sha) \<and>
     item2 ''input'' ''manifest_path'' request = Inr (JString manifest) \<and>
     json_field ''branches'' request = Some (JList (map JString branch_names)))"

lemma required_non_negative_int_Inr: "required_non_negative_int k v = Inr n \<Longrightarrow> 0 \<le> n"
  by (auto simp: required_non_negative_int_def split: option.splits json.splits)

lemma sfm_metrics_Inr:
  assumes "sfm_metrics cs l request fs = Inr sfm"
  shows "0 \<le> fst sfm \<and> too_many_registered (fst sfm) request = Inr () \<and> 0 \<le> snd sfm"
proof -
  obtain v registered reprojection where "required_non_negative_int ''registered_images'' v = Inr registered"
    "too_many_registered registered request = Inr ()"
    "required_non_negative_number ''mean_reprojection_error_px'' v = Inr reprojection" "sfm = (registered, reprojection)"
    using assms unfolding sfm_metrics_def bind_checked_Inr by force
  then show ?thesis using required_non_negative_int_Inr required_number_nonneg by auto
qed

lemma build_real_result_Inr:
  assumes run: "build_real_result cs e l request w = (Inr result, w')" and ok: "real_request_ok request"
  shows "\<exists>registered reprojection named. 0 \<le> registered \<and> too_many_registered registered request = Inr () \<and> 0 \<le> reprojection \<and>
    real_result_object e request registered reprojection named = Inr result \<and>
    (plain_root (pp_files w') l \<longrightarrow> list_all2 (branch_built cs l (pp_files w')) branch_names named)"
proof -
  have branches: "bind_checked (bind_checked (item ''branches'' request) elements_of) (collect_checked text_of) = Inr branch_names"
  proof -
    have "collect_checked text_of (map JString bs) = Inr bs" for bs by (induction bs) (auto simp: text_of_def)
    then show ?thesis using ok by (auto simp: item_Inr real_request_ok_def)
  qed
  obtain w1 sfm validation named where w: "sfm_metrics cs l request (pp_files w1) = Inr sfm"
    "collect_pipe (build_branch_result cs e l validation) branch_names w1 = (Inr named, w')"
    "real_result_object e request (fst sfm) (snd sfm) named = Inr result"
    using run unfolding build_real_result_def pipe_then_Inr given_Inr look_Inr branches by auto
  have registered: "0 \<le> fst sfm" "too_many_registered (fst sfm) request = Inr ()" "0 \<le> snd sfm"
    using sfm_metrics_Inr [OF w(1)] by simp_all
  have "reads (collect_pipe (build_branch_result cs e l validation) branch_names)
      (\<lambda>fs ys. list_all2 (\<lambda>b entry. plain_root fs l \<longrightarrow> branch_built cs l fs b entry) branch_names ys)"
    by (rule reads_collect) (rule build_branch_reads)
  from readsD [OF this w(2)] have "pp_files w' = pp_files w1"
    "list_all2 (\<lambda>b entry. plain_root (pp_files w') l \<longrightarrow> branch_built cs l (pp_files w') b entry) branch_names named" by simp_all
  then have "plain_root (pp_files w') l \<longrightarrow> list_all2 (branch_built cs l (pp_files w')) branch_names named"
    by (auto simp: list_all2_conv_all_nth)
  with registered w(3) show ?thesis by blast
qed

section \<open>The checks of an existing result\<close>

lemma artifact_object_fields:
  "json_field ''kind'' (artifact_object k r h n t) = Some (JString k)" "json_field ''path'' (artifact_object k r h n t) = Some (JString r)"
  "json_field ''sha256'' (artifact_object k r h n t) = Some (JString h)" "json_field ''size_bytes'' (artifact_object k r h n t) = Some (JInt n)"
  "json_field ''content_type'' (artifact_object k r h n t) = Some (JString t)"
  by (simp_all add: artifact_object_def json_field_def)

lemma collected_four:
  assumes "list_all2 (collected cs l fs b) (branch_specs texture) as"
  obtains x1 x2 x3 x4 where
    "as = [artifact_object ''glb'' (artifact_relative b ''mesh.glb'') (cs_sha256 cs x1) (int (length x1)) ''model/gltf-binary'',
       artifact_object ''obj'' (artifact_relative b ''mesh.obj'') (cs_sha256 cs x2) (int (length x2)) ''model/obj'',
       artifact_object ''mtl'' (artifact_relative b ''mesh.mtl'') (cs_sha256 cs x3) (int (length x3)) ''text/plain'',
       artifact_object ''texture'' (artifact_relative b texture) (cs_sha256 cs x4) (int (length x4))
         (if texture = ''texture.png'' then ''image/png'' else ''image/jpeg'')]"
    "x1 \<noteq> []" "x2 \<noteq> []" "x3 \<noteq> []" "x4 \<noteq> []"
  using assms unfolding branch_specs_def list_all2_Cons1 list_all2_Nil by (auto simp: collected_def)

lemma json_less_int [simp]: "json_less (JInt a) (JInt b) = Inr (a < b)"
  by (auto simp: json_less_def json_compare_def number_of_def float_less_def float_le_def)

lemma artifact_key_object:
  "artifact_key (sort_keys (artifact_object k (artifact_relative b n) h m t)) = Inr (key_of b k n t)"
  by (simp add: artifact_key_def item_Inr artifact_object_fields key_of_def artifact_relative_def)

lemma key_of_eq [simp]: "key_of b k n t = key_of b k' n' t' \<longleftrightarrow> k = k' \<and> n = n' \<and> t = t'"
  by (auto simp: key_of_def)

lemma texture_key_in:
  assumes "texture \<in> set texture_names"
  shows "key_of b ''texture'' texture (if texture = ''texture.png'' then ''image/png'' else ''image/jpeg'') \<in> set (texture_keys b)"
  using assms by (auto simp: texture_names_def texture_keys_def)

lemma mesh_keys_no_texture: "set (mesh_keys b) \<inter> set (texture_keys b) = {}"
  by (auto simp: mesh_keys_def texture_keys_def)

lemma artifact_contract_ok:
  assumes "list_all2 (collected cs l fs b) (branch_specs texture) as" "texture \<in> set texture_names"
  shows "artifact_contract b (map sort_keys as) = Inr ()"
proof -
  let ?t = "key_of b ''texture'' texture (if texture = ''texture.png'' then ''image/png'' else ''image/jpeg'')"
  obtain x1 x2 x3 x4 where as: "as = [artifact_object ''glb'' (artifact_relative b ''mesh.glb'') (cs_sha256 cs x1) (int (length x1)) ''model/gltf-binary'',
       artifact_object ''obj'' (artifact_relative b ''mesh.obj'') (cs_sha256 cs x2) (int (length x2)) ''model/obj'',
       artifact_object ''mtl'' (artifact_relative b ''mesh.mtl'') (cs_sha256 cs x3) (int (length x3)) ''text/plain'',
       artifact_object ''texture'' (artifact_relative b texture) (cs_sha256 cs x4) (int (length x4))
         (if texture = ''texture.png'' then ''image/png'' else ''image/jpeg'')]"
    and filled: "x1 \<noteq> []" "x2 \<noteq> []" "x3 \<noteq> []" "x4 \<noteq> []"
    using assms(1) by (rule collected_four)
  have keys: "collect_checked artifact_key (map sort_keys as) = Inr (mesh_keys b @ [?t])"
    by (simp only: as list.map collect_checked.simps artifact_key_object bind_checked_simps mesh_keys_def append.simps)
  have "set (mesh_keys b @ [?t]) \<inter> set (texture_keys b) = {?t}"
    using texture_key_in [OF assms(2), of b] mesh_keys_no_texture [of b] by auto
  then have one: "card (set (mesh_keys b @ [?t]) \<inter> set (texture_keys b)) = 1" by simp
  have four: "length (map sort_keys as) = 4" by (simp add: as)
  have sizes: "\<forall>a \<in> set (map sort_keys as). \<exists>n. item ''size_bytes'' a = Inr (JInt n) \<and> 1 \<le> n"
  proof -
    have size_item: "item ''size_bytes'' (sort_keys (artifact_object k r h m t)) = Inr (JInt m)" for k r h m t
      by (simp add: item_Inr artifact_object_fields)
    have filled': "x \<noteq> [] \<Longrightarrow> 1 \<le> int (length x)" for x :: string by (cases x) simp_all
    show ?thesis unfolding as list.map using filled by (auto simp only: size_item set_simps intro: filled')
  qed
  have "or_checked (map (\<lambda>a. bind_checked (item ''size_bytes'' a) (\<lambda>n. json_less n (JInt 1))) (map sort_keys as)) = Inr False"
    unfolding or_checked_False
  proof
    fix m assume "m \<in> set (map (\<lambda>a. bind_checked (item ''size_bytes'' a) (\<lambda>n. json_less n (JInt 1))) (map sort_keys as))"
    then obtain a where a: "a \<in> set (map sort_keys as)" "m = bind_checked (item ''size_bytes'' a) (\<lambda>n. json_less n (JInt 1))"
      unfolding set_map [of "\<lambda>a. bind_checked (item ''size_bytes'' a) (\<lambda>n. json_less n (JInt 1))"] by blast
    from sizes a(1) obtain n where "item ''size_bytes'' a = Inr (JInt n)" "1 \<le> n" by blast
    then show "m = Inr False" by (simp add: a(2))
  qed
  then have sizes_ok: "refuse_if (or_checked (map (\<lambda>a. bind_checked (item ''size_bytes'' a) (\<lambda>n. json_less n (JInt 1))) (map sort_keys as)))
      (Integrity (''persisted '' @ b @ '' artifact is empty'')) = Inr ()" by (simp only: refuse_if_Inr)
  have shape: "require (length (map sort_keys as) = 4 \<and> set (mesh_keys b) \<subseteq> set (mesh_keys b @ [?t]) \<and>
      card (set (mesh_keys b @ [?t]) \<inter> set (texture_keys b)) = 1) (Integrity (''persisted '' @ b @ '' artifact contract changed'')) = Inr ()"
    unfolding require_Inr using one four by (intro conjI subset_code(1) [THEN iffD2]) auto
  show ?thesis unfolding artifact_contract_def keys bind_checked_simps shape sizes_ok ..
qed

lemma check_persisted_ok:
  assumes "collected cs l fs b (n, k, t) a" "plain_root fs l" "b \<in> set branch_names" "n \<in> set artifact_names"
  shows "check_persisted cs l b (sort_keys a) fs = Inr ()"
proof -
  obtain x where x: "read_file fs (tl_root l @ [''output'', b, n]) = Some x" "\<not> fs_link fs (tl_root l @ [''output'', b, n])"
    "a = artifact_object k (artifact_relative b n) (cs_sha256 cs x) (int (length x)) t"
    using assms(1) by (auto simp: collected_def)
  have "resolve fs l (artifact_relative b n) = Inr (tl_root l @ [''output'', b, n])"
    using artifact_paths [OF assms(3,4)] by (simp add: plain_resolve [OF assms(2)])
  with x(1,2) show ?thesis
    by (simp add: check_persisted_def x(3) item_Inr artifact_object_fields is_file_def file_size_def sha256_file_def ex_bool_eq)
qed

lemma persisted_all:
  assumes "list_all2 (collected cs l fs b) (branch_specs texture) as" "plain_root fs l" "b \<in> set branch_names" "texture \<in> set texture_names"
    and "a \<in> set (map sort_keys as)"
  shows "check_persisted cs l b a fs = Inr ()"
proof -
  obtain c where c: "c \<in> set as" "a = sort_keys c" using assms(5) by auto
  then obtain i where i: "i < length as" "c = as ! i" by (auto simp: in_set_conv_nth)
  then have "i < length (branch_specs texture)" "collected cs l fs b (branch_specs texture ! i) c"
    using assms(1) by (auto simp: list_all2_conv_all_nth)
  moreover obtain n k t where spec: "branch_specs texture ! i = (n, k, t)" by (cases "branch_specs texture ! i") auto
  moreover have "\<forall>(n, k, t) \<in> set (branch_specs texture). n \<in> set artifact_names"
    using assms(4) by (auto simp: branch_specs_def artifact_names_def)
  ultimately have "n \<in> set artifact_names" "collected cs l fs b (n, k, t) c" by (auto dest!: nth_mem)
  with check_persisted_ok [OF this(2) assms(2,3)] c(2) show ?thesis by simp
qed

lemma metrics_ok:
  assumes "1 \<le> vertices" "1 \<le> faces"
    and "b \<in> {''A-v4'', ''B-v2''} \<longrightarrow> (\<exists>a. 0 \<le> a \<and> a \<le> 1 \<and> depth = [(''retained_valid_fraction'', float_json a)])"
  shows "branch_metrics b (sort_keys (JObject ([(''vertices'', JInt vertices), (''faces'', JInt faces)] @ depth))) = Inr ()"
proof -
  have counts: "required_positive_int ''vertices'' (sort_keys (JObject ([(''vertices'', JInt vertices), (''faces'', JInt faces)] @ depth))) = Inr vertices"
    "required_positive_int ''faces'' (sort_keys (JObject ([(''vertices'', JInt vertices), (''faces'', JInt faces)] @ depth))) = Inr faces"
    using assms(1,2) unfolding required_positive_int_def required_non_negative_int_def json_field_sort_keys
    by (simp_all add: json_field_def)
  show ?thesis
  proof (cases "b \<in> {''A-v4'', ''B-v2''}")
    case True
    with assms(3) obtain a where a: "0 \<le> a" "a \<le> 1" "depth = [(''retained_valid_fraction'', float_json a)]" by blast
    then have "required_ratio ''retained_valid_fraction'' (sort_keys (JObject ([(''vertices'', JInt vertices), (''faces'', JInt faces)] @ depth))) = Inr a"
      unfolding required_ratio_def required_non_negative_number_def json_field_sort_keys Let_def
      by (simp add: json_field_def float_json_def)
    with True counts show ?thesis by (simp only: branch_metrics_def bind_checked_simps if_True)
  next
    case False
    with counts show ?thesis by (simp only: branch_metrics_def bind_checked_simps if_False)
  qed
qed

lemma branch_passes:
  assumes built: "branch_built cs l fs b (b', v)" and plain: "plain_root fs l" and b: "b \<in> set branch_names"
    and calm: "\<forall>n. pl_health e n = None"
  shows "passes fs (validate_branch_result cs e l (b', sort_keys v))"
proof -
  obtain vertices faces depth as texture where v: "1 \<le> vertices" "1 \<le> faces"
     "b \<in> {''A-v4'', ''B-v2''} \<longrightarrow> (\<exists>a. 0 \<le> a \<and> a \<le> 1 \<and> depth = [(''retained_valid_fraction'', float_json a)])"
     "b' = b" "v = JObject
       [(''status'', JString ''succeeded''), (''duration_seconds'', JInt 0), (''artifacts'', JList as),
        (''metrics'', JObject ([(''vertices'', JInt vertices), (''faces'', JInt faces)] @ depth))]"
     "texture \<in> set texture_names" "list_all2 (collected cs l fs b) (branch_specs texture) as"
    using built unfolding branch_built_def prod.inject by (elim exE conjE, intro that) assumption+
  have fields: "json_field ''metrics'' v = Some (JObject ([(''vertices'', JInt vertices), (''faces'', JInt faces)] @ depth))"
    "json_field ''artifacts'' v = Some (JList as)"
    by (simp_all add: v(5) json_field_def)
  have metrics: "bind_checked (item ''metrics'' (sort_keys v)) (branch_metrics b) = Inr ()"
    unfolding bind_checked_Inr item_Inr json_field_sort_keys fields using metrics_ok [OF v(1-3)] by blast
  have artifacts: "bind_checked (item ''artifacts'' (sort_keys v)) elements_of = Inr (map sort_keys as)"
    unfolding bind_checked_Inr item_Inr json_field_sort_keys fields by simp
  have each: "passes fs (each_pipe (\<lambda>a. pipe_then (health_check e) (\<lambda>_.
      pipe_then (look (check_persisted cs l b a)) (\<lambda>_. health_check e))) (map sort_keys as))"
    by (rule passes_each) (intro passes_then passes_health [OF calm] passes_look persisted_all [OF v(7) plain b v(6)])
  show ?thesis
    unfolding validate_branch_result_def prod.case v(4)
    by (rule passes_then [OF passes_health [OF calm]], rule passes_given [OF metrics], rule passes_given [OF artifacts],
        rule passes_given [OF artifact_contract_ok [OF v(7,6)]], rule each)
qed

section \<open>Identity and metrics\<close>

lemma json_eq_sorted_strings:
  assumes "\<forall>(k, v) \<in> set fs. \<exists>s. v = JString s"
  shows "json_eq (sort_keys (JObject fs)) (JObject fs)"
proof -
  let ?gs = "sort_key fst (map (\<lambda>(k, v). (k, sort_keys v)) fs)"
  have keys: "set (map fst ?gs) = set (map fst fs)" by force
  have "case (map_of ?gs k, map_of fs k) of (Some x, Some y) \<Rightarrow> json_eq x y | _ \<Rightarrow> False" if k: "k \<in> set (map fst fs)" for k
  proof -
    obtain v where v: "map_of fs k = Some v" using k by (cases "map_of fs k") (auto simp: map_of_eq_None_iff)
    then have "(k, v) \<in> set fs" by (rule map_of_SomeD)
    then obtain s where "v = JString s" using assms by blast
    with v show ?thesis by (simp add: map_of_sort_key map_of_map_snd)
  qed
  with keys show ?thesis by (simp add: json_eq.simps [of "JObject ?gs"])
qed

lemma real_result_fields:
  assumes ok: "real_request_ok request" and res: "real_result_object e request registered reprojection named = Inr result"
  shows "result_identity request (sort_keys result) = Inr ()"
    and "0 \<le> registered \<Longrightarrow> too_many_registered registered request = Inr () \<Longrightarrow> 0 \<le> reprojection \<Longrightarrow>
      result_metrics request (sort_keys result) = Inr ()"
    and "json_field ''branches'' result = Some (JObject named)" and "is_object result"
proof -
  obtain job rid attempt tag commit config count sha manifest where
    r: "json_field ''job_id'' request = Some (JString job)" "json_field ''request_id'' request = Some (JString rid)"
     "json_field ''attempt'' request = Some (JInt attempt)"
     "item2 ''pipeline'' ''tag'' request = Inr (JString tag)" "item2 ''pipeline'' ''commit'' request = Inr (JString commit)"
     "item2 ''pipeline'' ''config_sha256'' request = Inr (JString config)"
     "item2 ''input'' ''image_count'' request = Inr (JInt count)" "item2 ''input'' ''manifest_sha256'' request = Inr (JString sha)"
     "item2 ''input'' ''manifest_path'' request = Inr (JString manifest)"
    using ok unfolding real_request_ok_def by blast
  let ?pipeline = "JObject [(''tag'', JString tag), (''commit'', JString commit), (''config_sha256'', JString config)]"
  have pipeline: "pipeline_identity request = Inr ?pipeline" by (simp add: pipeline_identity_def r)
  let ?summary = "JObject [(''image_count'', JInt count), (''manifest_sha256'', JString sha), (''registered_images'', JInt registered),
           (''mean_reprojection_error_px'', float_json reprojection)]"
  have items: "item ''job_id'' request = Inr (JString job)" "item ''request_id'' request = Inr (JString rid)"
    "item ''attempt'' request = Inr (JInt attempt)" using r(1-3) by (simp_all add: item_Inr)
  have result: "result = JObject
       [(''contract_version'', JString ''1.0''), (''execution_mode'', JString ''real''), (''job_id'', JString job), (''request_id'', JString rid),
        (''attempt'', JInt attempt), (''status'', JString ''succeeded''), (''started_at'', JString (pl_started_at e)),
        (''finished_at'', JString (pl_finished_at e)), (''duration_seconds'', float_json (max 0 (pl_duration e))),
        (''pipeline'', ?pipeline), (''input_summary'', ?summary), (''branches'', JObject named),
        (''diagnostics'', JObject
          [(''input_manifest'', JString manifest), (''events'', JString ''manifests/pipeline-events.jsonl''),
           (''output_validation'', JString ''manifests/output-validation.json'')])]"
    using res by (simp add: real_result_object_def items pipeline r)
  have f: "json_field ''job_id'' result = Some (JString job)" "json_field ''request_id'' result = Some (JString rid)"
    "json_field ''attempt'' result = Some (JInt attempt)" "json_field ''execution_mode'' result = Some (JString ''real'')"
    "json_field ''status'' result = Some (JString ''succeeded'')" "json_field ''pipeline'' result = Some ?pipeline"
    "json_field ''input_summary'' result = Some ?summary"
    "json_field ''duration_seconds'' result = Some (float_json (max 0 (pl_duration e)))"
    by (simp_all add: result json_field_def)
  show "json_field ''branches'' result = Some (JObject named)" "is_object result"
    by (simp_all add: result json_field_def is_object_def)
  have summary: "json_field ''image_count'' ?summary = Some (JInt count)" "json_field ''manifest_sha256'' ?summary = Some (JString sha)"
    "json_field ''registered_images'' ?summary = Some (JInt registered)"
    "json_field ''mean_reprojection_error_px'' ?summary = Some (float_json reprojection)"
    by (simp_all add: json_field_def)
  have eq: "json_eq (sort_keys ?pipeline) ?pipeline" by (rule json_eq_sorted_strings) simp
  have differs: "item_differs ''pipeline'' ?pipeline (sort_keys result) = Inr False"
    unfolding item_differs_False json_field_sort_keys f using eq by blast
  have summary2: "item2_differs ''input_summary'' ''image_count'' (JInt count) (sort_keys result) = Inr False"
    "item2_differs ''input_summary'' ''manifest_sha256'' (JString sha) (sort_keys result) = Inr False"
    unfolding item2_differs_def bind_checked_Inr item2_Inr json_field_sort_keys f using summary
    by (simp_all del: sort_keys.simps(2))
  have others: "other_item ''job_id'' request (sort_keys result) = Inr False" "other_item ''request_id'' request (sort_keys result) = Inr False"
    "other_item ''attempt'' request (sort_keys result) = Inr False"
    by (simp_all add: other_item_def items f)
  have modes: "item_differs ''execution_mode'' (JString ''real'') (sort_keys result) = Inr False"
    "item_differs ''status'' (JString ''succeeded'') (sort_keys result) = Inr False"
    by (simp_all add: f)
  show "result_identity request (sort_keys result) = Inr ()"
    unfolding result_identity_def pipeline r bind_checked_simps or_checked.simps differs summary2 others modes
    by (simp add: refuse_if_def)
  assume m: "0 \<le> registered" "too_many_registered registered request = Inr ()" "0 \<le> reprojection"
  have "item ''input_summary'' (sort_keys result) = Inr (sort_keys ?summary)" by (simp only: item_Inr json_field_sort_keys f) simp
  moreover have "required_non_negative_int ''registered_images'' (sort_keys ?summary) = Inr registered"
    unfolding required_non_negative_int_def json_field_sort_keys summary using m(1) by simp
  moreover have "required_non_negative_number ''mean_reprojection_error_px'' (sort_keys ?summary) = Inr reprojection"
    unfolding required_non_negative_number_def json_field_sort_keys summary Let_def using m(3) by (simp add: float_json_def)
  moreover have "required_non_negative_number ''duration_seconds'' (sort_keys result) = Inr (max 0 (pl_duration e))"
    unfolding required_non_negative_number_def json_field_sort_keys f Let_def by (simp add: float_json_def)
  ultimately show "result_metrics request (sort_keys result) = Inr ()"
    using m(2) by (simp only: result_metrics_def bind_checked_simps)
qed

section \<open>A finished task is reused\<close>

lemma collected_other:
  assumes "collected cs l fs b spec a" "plain_root fs l" "p = tl_root l @ [''manifests'', n]"
  shows "collected cs l (fs\<lparr>fs_data := (fs_data fs)(p \<mapsto> t)\<rparr>) b spec a"
  using assms by (auto simp: collected_def read_file_def plain_root_def split: prod.splits)

lemma branch_built_other:
  assumes "branch_built cs l fs b entry" "plain_root fs l" "p = tl_root l @ [''manifests'', n]"
  shows "branch_built cs l (fs\<lparr>fs_data := (fs_data fs)(p \<mapsto> t)\<rparr>) b entry"
proof -
  have "list_all2 (collected cs l (fs\<lparr>fs_data := (fs_data fs)(p \<mapsto> t)\<rparr>) b) specs as"
    if "list_all2 (collected cs l fs b) specs as" for specs as
    using that by (rule list_all2_mono) (rule collected_other [OF _ assms(2,3)])
  note moved = this
  obtain vertices faces depth as texture where v: "1 \<le> vertices" "1 \<le> faces"
     "b \<in> {''A-v4'', ''B-v2''} \<longrightarrow> (\<exists>a. 0 \<le> a \<and> a \<le> 1 \<and> depth = [(''retained_valid_fraction'', float_json a)])"
     "entry = (b, JObject
       [(''status'', JString ''succeeded''), (''duration_seconds'', JInt 0), (''artifacts'', JList as),
        (''metrics'', JObject ([(''vertices'', JInt vertices), (''faces'', JInt faces)] @ depth))])"
     "texture \<in> set texture_names" "list_all2 (collected cs l fs b) (branch_specs texture) as"
    using assms(1) unfolding branch_built_def by (elim exE conjE, intro that) assumption+
  show ?thesis unfolding branch_built_def
    by (intro exI conjI) (fact v(1) v(2) v(3) v(4) v(5) moved [OF v(6)])+
qed

lemma real_request_reads: "reads (real_request cs e l) (\<lambda>_ _. True)"
  by (auto simp: reads_def real_request_def health_check_Inr)

text \<open>What a run leaves that built a new result.\<close>

lemma fresh_run:
  assumes run: "run_real_pipeline cs e l re3d_root driver_python poll1 timeout w = Some (Inr (result, False), w1)"
    and request: "real_request cs e l w = (Inr request, wr)" and ok: "real_request_ok request" and plain: "plain_root (pp_files w1) l"
  shows "cs_valid cs ''pipeline-result'' result \<and>
    read_file (pp_files w1) (tl_root l @ [''manifests'', ''pipeline-result.json'']) = Some (json_text cs result) \<and>
    (\<exists>registered reprojection named. 0 \<le> registered \<and> too_many_registered registered request = Inr () \<and> 0 \<le> reprojection \<and>
       real_result_object e request registered reprojection named = Inr result \<and>
       list_all2 (branch_built cs l (pp_files w1)) branch_names named)"
proof -
  have not_reused: "reuse_real_result cs e l request p v \<noteq> (Inr (result, False), w1)" for p v
    by (auto simp: reuse_real_result_def)
  obtain p t command v m where "prepare_process cs e l re3d_root driver_python request timeout wr = (Inr (t, command), v)"
    "run_process e t poll1 command = Some m" "pipe_then m (finish_real_run cs e l request) v = (Inr (result, False), w1)"
  proof -
    have first: "pipe_then (real_request cs e l) (\<lambda>request.
           pipe_then (look (\<lambda>fs. result_path fs l)) (\<lambda>p. pipe_return (request, p))) w =
        (case result_path (pp_files wr) l of Inl x \<Rightarrow> (Inl x, wr) | Inr p \<Rightarrow> (Inr (request, p), wr))"
      by (simp add: pipe_then_def request look_def pipe_return_def followed_by_def split: sum.split)
    show thesis
      using run that not_reused unfolding run_real_pipeline_def first
      by (auto split: sum.splits if_splits prod.splits)
  qed
  then obtain code v1 where "finish_real_run cs e l request code v1 = (Inr (result, False), w1)" by auto
  then obtain v2 v3 p where fin: "build_real_result cs e l request v2 = (Inr result, v3)"
    "cs_valid cs ''pipeline-result'' result" "result_path (pp_files v3) l = Inr p"
    "pp_files w1 = (pp_files v3)\<lparr>fs_data := (fs_data (pp_files v3))(p \<mapsto> json_text cs result)\<rparr>"
    unfolding finish_real_run_def pipe_then_Inr given_Inr look_Inr pipe_return_Inr validate_contract_def
    by (auto simp: health_check_Inr pipe_write_Inr)
  let ?fs = "pp_files v3"
  have w1: "pp_files w1 = ?fs\<lparr>fs_data := (fs_data ?fs)(p \<mapsto> json_text cs result)\<rparr>" by (rule fin(4))
  have plain3: "plain_root ?fs l" using plain by (simp add: w1 plain_root_def)
  have p: "p = tl_root l @ [''manifests'', ''pipeline-result.json'']"
    using fin(3) by (simp add: result_path_def plain_resolve [OF plain3] bad_task_path_def posix_parts_def)
  obtain registered reprojection named where b: "0 \<le> registered" "too_many_registered registered request = Inr ()" "0 \<le> reprojection"
    "real_result_object e request registered reprojection named = Inr result" "list_all2 (branch_built cs l ?fs) branch_names named"
    using build_real_result_Inr [OF fin(1) ok] plain3 by blast
  have "list_all2 (branch_built cs l (pp_files w1)) branch_names named"
    using b(5) by (rule list_all2_mono) (simp add: w1 branch_built_other [OF _ plain3 p])
  moreover have "read_file (pp_files w1) p = Some (json_text cs result)"
    using plain3 by (simp add: w1 read_file_def p plain_root_def)
  ultimately show ?thesis using fin(2) b(1-4) p by blast
qed

text \<open>
  C31. A finished real task is reused. When a run of the real pipeline built and wrote its result, any later
  run that finds the same files and a request and input that are still valid, and whose health checks pass,
  returns that result and changes no file: what the run builds is what the checks of an existing result
  expect, artifact by artifact, whatever the installation and the process would do now.
\<close>

theorem finished_real_task_is_reused:
  assumes run: "run_real_pipeline cs e l re3d_root driver_python poll1 timeout w = Some (Inr (result, False), w1)"
    and request: "real_request cs e l w = (Inr request, wr)" "real_request_ok request"
    and plain: "plain_root (pp_files w1) l" and keeps: "keeps_json cs ''pipeline-result'' result"
    and later: "pp_files w2 = pp_files w1" "real_request cs e2 l w2 = (Inr request, w3)" "\<forall>n. pl_health e2 n = None"
  shows "\<exists>w4. run_real_pipeline cs e2 l re3d_root2 driver2 poll2 timeout2 w2 = Some (Inr (sort_keys result, True), w4) \<and>
    pp_files w4 = pp_files w1"
proof -
  let ?fs = "pp_files w1" and ?p = "tl_root l @ [''manifests'', ''pipeline-result.json'']"
  obtain registered reprojection named where f: "cs_valid cs ''pipeline-result'' result" "read_file ?fs ?p = Some (json_text cs result)"
    "0 \<le> registered" "too_many_registered registered request = Inr ()" "0 \<le> reprojection"
    "real_result_object e request registered reprojection named = Inr result" "list_all2 (branch_built cs l ?fs) branch_names named"
    using fresh_run [OF run request plain] by blast
  note fields = real_result_fields [OF request(2) f(6)]
  have w3: "pp_files w3 = ?fs" using readsD [OF real_request_reads later(2)] later(1) by simp
  have place: "result_path ?fs l = Inr ?p"
    by (simp add: result_path_def plain_resolve [OF plain] bad_task_path_def posix_parts_def)
  have loaded: "load_json_contract cs ?fs ?p ''pipeline-result'' = Inr (sort_keys result)"
    by (rule load_written_contract [OF keeps f(1) fields(4) f(2)])
  let ?sorted = "sort_key fst (map (\<lambda>(k, v). (k, sort_keys v)) named)"
  have named: "bind_checked (item ''branches'' (sort_keys result)) items_of = Inr ?sorted"
    unfolding bind_checked_Inr item_Inr json_field_sort_keys fields(3) by simp
  have "passes ?fs (validate_branch_result cs e2 l x)" if x: "x \<in> set ?sorted" for x
  proof -
    obtain k v where kv: "(k, v) \<in> set named" "x = (k, sort_keys v)" using x by auto
    then obtain i where i: "i < length named" "named ! i = (k, v)" by (auto simp: in_set_conv_nth)
    then have ib: "i < length branch_names" "branch_built cs l ?fs (branch_names ! i) (k, v)"
      using f(7) by (auto simp: list_all2_conv_all_nth)
    from branch_passes [OF ib(2) plain nth_mem [OF ib(1)] later(3)] show ?thesis unfolding kv(2) .
  qed
  then have each: "passes ?fs (each_pipe (validate_branch_result cs e2 l) ?sorted)" by (rule passes_each)
  have "passes ?fs (validate_existing_real_result cs e2 l request (sort_keys result))"
    unfolding validate_existing_real_result_def
    by (rule passes_then [OF passes_health [OF later(3)]], rule passes_given [OF fields(1)],
        rule passes_given [OF fields(2) [OF f(3-5)]], rule passes_given [OF named], rule each)
  then obtain w5 where w5: "validate_existing_real_result cs e2 l request (sort_keys result) w3 = (Inr (), w5)" "pp_files w5 = ?fs"
    using w3 unfolding passes_def by blast
  have reuse: "reuse_real_result cs e2 l request ?p w3 = (Inr (sort_keys result, True), w5\<lparr>pp_checks := pp_checks w5 + 1\<rparr>)"
    unfolding reuse_real_result_def pipe_then_Inr look_Inr pipe_return_Inr health_check_Inr w3
    using loaded w5(1) later(3) by auto
  have exists: "path_exists ?fs ?p" using f(2) by (simp add: path_exists_def is_file_def)
  have "pipe_then (real_request cs e2 l) (\<lambda>request.
        pipe_then (look (\<lambda>fs. result_path fs l)) (\<lambda>p. pipe_return (request, p))) w2 = (Inr (request, ?p), w3)"
    unfolding pipe_then_Inr look_Inr pipe_return_Inr using later(2) place w3 by auto
  then have "run_real_pipeline cs e2 l re3d_root2 driver2 poll2 timeout2 w2 =
      Some (Inr (sort_keys result, True), w5\<lparr>pp_checks := pp_checks w5 + 1\<rparr>)"
    unfolding run_real_pipeline_def by (simp only: sum.case prod.case) (simp add: exists w3 reuse)
  with w5(2) show ?thesis by simp
qed

section \<open>An example\<close>

text \<open>
  A file of the example holds its own name. The process is already over when it is polled; the files of the
  branches are there.
\<close>

definition real_demo_request :: json where
  "real_demo_request = JObject
     [(''job_id'', JString ''t''), (''request_id'', JString ''r''), (''attempt'', JInt 1), (''execution_mode'', JString ''real''),
      (''branches'', JList (map JString branch_names)), (''limits'', JObject [(''timeout_seconds'', JInt 60)]),
      (''storage'', JObject [(''work_path'', JString ''w''), (''output_path'', JString ''o''), (''logs_path'', JString ''l'')]),
      (''pipeline'', JObject [(''tag'', JString ''v1''), (''commit'', JString ''c''), (''config_sha256'', JString (replicate 64 (CHR ''0'')))]),
      (''input'', JObject [(''manifest_path'', JString ''i/m''), (''images_path'', JString ''i/images''),
         (''manifest_sha256'', JString (replicate 64 (CHR ''0''))), (''image_count'', JInt 0), (''total_bytes'', JInt 0)])]"

definition real_demo_validation :: json where
  "real_demo_validation = JObject [(''all_passed'', JBool True), (''branches'', JObject
     (map (\<lambda>b. (b, JObject [(''status'', JString ''pass''), (''glb_vertices'', JInt 3), (''glb_faces'', JInt 1)])) branch_names))]"

definition real_demo_loads :: "string \<rightharpoonup> json" where
  "real_demo_loads = map_of
     [(''pipeline-request.json'', real_demo_request), (''m'', JObject [(''images'', JList [])]), (''validation.json'', real_demo_validation),
      (''reconstruction_metrics.json'', JObject [(''registered_images'', JInt 0), (''mean_reprojection_error_px'', float_json 1)]),
      (''consistency_manifest.json'', JObject [(''retained_valid_fraction'', float_json 1)])]"

definition real_demo_codecs :: codecs where
  "real_demo_codecs = unary_codecs real_demo_loads"

definition real_demo_names :: "string list" where
  "real_demo_names = [''pipeline-request.json'', ''m'', ''validation.json'', ''reconstruction_metrics.json'', ''consistency_manifest.json'',
     ''mesh.glb'', ''mesh.obj'', ''mesh.mtl'', ''texture.png'', ''run_pipeline.py'', ''pipeline.json'', ''paths.local.json'', ''python'']"

definition real_demo_files :: file_system where
  "real_demo_files = \<lparr>fs_real = \<lambda>p. p, fs_link = \<lambda>_. False,
     fs_data = \<lambda>p. if p \<noteq> [] \<and> last p \<in> set real_demo_names then Some (last p) else None,
     fs_dir = \<lambda>p. p = [''t'', ''i'', ''images''], fs_names = \<lambda>_. []\<rparr>"

definition real_demo_process :: process_env where
  "real_demo_process = \<lparr>pe_health = \<lambda>_. None, pe_cancel = \<lambda>_. False, pe_clock = \<lambda>_. 0, pe_line = \<lambda>_. None,
     pe_handler = \<lambda>_ _. None, pe_poll = \<lambda>_. Some 0, pe_popen_fails = False, pe_term_gone = False, pe_term_waited = True,
     pe_kill_gone = False, pe_kill_waited = True\<rparr>"

definition real_demo_env :: pipeline_env where
  "real_demo_env = \<lparr>pl_health = \<lambda>_. None, pl_failed = \<lambda>_. False,
     pl_git = \<lambda>_ arguments. Git_exit 0 (if hd arguments = ''status'' then [] else ''c''),
     pl_started_at = ''s'', pl_finished_at = ''f'', pl_process = real_demo_process, pl_on_step = \<lambda>_ _. None,
     pl_monotonic = 0, pl_duration = 1, pl_worked = \<lambda>fs. fs, pl_dry = \<lambda>_. Dry_timed_out\<rparr>"

definition real_demo_layout :: task_layout where
  "real_demo_layout = \<lparr>tl_data_root = [], tl_jobs_root = [], tl_root = [''t''], tl_job_id = ''t''\<rparr>"

definition real_demo_world :: pipe_world where
  "real_demo_world = \<lparr>pp_files = real_demo_files, pp_checks = 0, pp_writes = 0\<rparr>"

text \<open>What a run of the example leaves untouched: every file but the two that the runner writes.\<close>

definition real_demo_fs :: "file_system \<Rightarrow> bool" where
  "real_demo_fs fs \<longleftrightarrow> fs_real fs = (\<lambda>p. p) \<and> fs_link fs = (\<lambda>_. False) \<and>
     fs_dir fs = (\<lambda>p. p = [''t'', ''i'', ''images'']) \<and> fs_names fs = (\<lambda>_. []) \<and>
     (\<forall>p. p = [] \<or> last p \<notin> {''output-validation.json'', ''pipeline-result.json''} \<longrightarrow> fs_data fs p = fs_data real_demo_files p)"

lemma real_demo_fs_files: "real_demo_fs real_demo_files"
  by (simp add: real_demo_fs_def real_demo_files_def)

lemma real_demo_fs_written:
  "real_demo_fs fs \<Longrightarrow> p \<noteq> [] \<Longrightarrow> last p \<in> {''output-validation.json'', ''pipeline-result.json''} \<Longrightarrow>
     real_demo_fs (fs\<lparr>fs_data := (fs_data fs)(p \<mapsto> t)\<rparr>)"
  by (auto simp: real_demo_fs_def)

lemma real_demo_fs_read:
  assumes "real_demo_fs fs" "p \<noteq> []" "last p \<notin> {''output-validation.json'', ''pipeline-result.json''}"
  shows "read_file fs p = (if last p \<in> set real_demo_names then Some (last p) else None)"
  using assms by (simp add: real_demo_fs_def read_file_def real_demo_files_def)

lemma real_demo_fs_rest:
  assumes "real_demo_fs fs"
  shows "fs_real fs p = p" "\<not> fs_link fs p" "fs_dir fs p \<longleftrightarrow> p = [''t'', ''i'', ''images'']" "fs_names fs p = []" "read_file fs [] = None"
  using assms by (auto simp: real_demo_fs_def read_file_def real_demo_files_def)

lemma real_demo_resolve:
  assumes "real_demo_fs fs"
  shows "resolve fs real_demo_layout s =
     (if bad_task_path s then Inl (Path_boundary ''task path must be a normalized POSIX relative path'')
      else Inr (''t'' # posix_parts s))"
proof -
  have "plain_root fs real_demo_layout" using assms by (simp add: plain_root_def real_demo_fs_def)
  then show ?thesis by (simp add: plain_resolve real_demo_layout_def)
qed

text \<open>Steps that always come to a value on the files of the example.\<close>

definition works :: "'a pipe \<Rightarrow> ('a \<Rightarrow> bool) \<Rightarrow> bool" where
  "works m P \<longleftrightarrow>
     (\<forall>w. real_demo_fs (pp_files w) \<longrightarrow> (\<exists>x w'. m w = (Inr x, w') \<and> P x \<and> real_demo_fs (pp_files w')))"

lemma works_then:
  assumes "works m P" "\<And>x. P x \<Longrightarrow> works (f x) Q"
  shows "works (pipe_then m f) Q"
  unfolding works_def pipe_then_Inr using assms unfolding works_def by blast

lemma works_look:
  assumes "\<And>fs. real_demo_fs fs \<Longrightarrow> \<exists>x. f fs = Inr x \<and> P x"
  shows "works (look f) P"
  using assms by (fastforce simp: works_def)

lemma works_given: "m = Inr x \<Longrightarrow> P x \<Longrightarrow> works (given m) P"
  by (simp add: works_def)

lemma works_looked: "(\<And>fs. real_demo_fs fs \<Longrightarrow> f fs = Inr x) \<Longrightarrow> works (g x) Q \<Longrightarrow> works (pipe_then (look f) g) Q"
  by (rule works_then [OF works_look [where P = "\<lambda>y. y = x"]]) auto

lemma works_gave: "m = Inr x \<Longrightarrow> works (g x) Q \<Longrightarrow> works (pipe_then (given m) g) Q"
  by (rule works_then [OF works_given [where P = "\<lambda>y. y = x"]]) auto

lemma works_return: "P x \<Longrightarrow> works (pipe_return x) P"
  by (simp add: works_def)

lemma works_health: "works (health_check real_demo_env) (\<lambda>_. True)"
  by (auto simp: works_def health_check_Inr real_demo_env_def)

lemma works_write:
  "p \<noteq> [] \<Longrightarrow> last p \<in> {''output-validation.json'', ''pipeline-result.json''} \<Longrightarrow> works (pipe_write real_demo_env p t) (\<lambda>_. True)"
  using real_demo_fs_written by (auto simp: works_def pipe_write_Inr real_demo_env_def)

lemma works_collect: "(\<And>x. x \<in> set xs \<Longrightarrow> works (f x) (\<lambda>_. True)) \<Longrightarrow> works (collect_pipe f xs) (\<lambda>_. True)"
proof (induction xs)
  case Nil
  show ?case by (simp add: works_return)
next
  case (Cons x xs)
  then show ?case by (auto intro!: works_then [of "f x" "\<lambda>_. True"] works_then [of "collect_pipe f xs" "\<lambda>_. True"] works_return)
qed

lemma real_demo_keeps: "keeps_json real_demo_codecs name v"
  unfolding real_demo_codecs_def
proof (rule unary_keeps_json)
  fix v
  have "unary v @ [char_of (10 :: nat)] \<notin> set [''pipeline-request.json'', ''m'', ''validation.json'', ''reconstruction_metrics.json'', ''consistency_manifest.json'']"
    using unary_text_differs by auto
  then show "real_demo_loads (unary v @ [char_of (10 :: nat)]) = None"
    by (simp add: real_demo_loads_def del: append.simps)
qed

lemma real_demo_loads_of:
  "cs_loads real_demo_codecs ''pipeline-request.json'' = Decoded real_demo_request"
  "cs_loads real_demo_codecs ''m'' = Decoded (JObject [(''images'', JList [])])"
  "cs_loads real_demo_codecs ''validation.json'' = Decoded real_demo_validation"
  "cs_loads real_demo_codecs ''reconstruction_metrics.json'' =
     Decoded (JObject [(''registered_images'', JInt 0), (''mean_reprojection_error_px'', float_json 1)])"
  "cs_loads real_demo_codecs ''consistency_manifest.json'' = Decoded (JObject [(''retained_valid_fraction'', float_json 1)])"
  by (simp_all add: real_demo_codecs_def unary_codecs_def real_demo_loads_def)

lemma real_demo_rest: "cs_valid real_demo_codecs n v" "cs_sha256 real_demo_codecs s = replicate 64 (CHR ''0'')"
  by (simp_all add: real_demo_codecs_def unary_codecs_def)

lemmas works_healthy = works_then [OF works_health]

lemmas real_demo_paths = real_demo_resolve bad_task_path_def posix_parts_def

lemma real_demo_loaded:
  "real_demo_fs fs \<Longrightarrow> load_json_contract real_demo_codecs fs [''t'', ''manifests'', ''pipeline-request.json''] ''pipeline-request'' = Inr real_demo_request"
  by (simp add: load_json_contract_def real_demo_fs_read real_demo_names_def real_demo_loads_of validate_contract_def real_demo_rest
      real_demo_request_def is_object_def)

lemma real_demo_input: "real_demo_fs fs \<Longrightarrow> validate_task_input real_demo_codecs fs real_demo_layout real_demo_request = Inr ()"
  by (simp add: validate_task_input_def item2_def item_def text_of_def real_demo_paths real_demo_request_def
     is_file_def is_dir_def real_demo_fs_read real_demo_fs_rest real_demo_names_def sha256_file_def real_demo_rest load_manifest_def
     real_demo_loads_of manifest_list_def json_field_def check_images_def Let_def)

lemma real_demo_directories: "real_demo_fs fs \<Longrightarrow> ensure_worker_directories fs real_demo_layout = Inr ()"
  by (simp add: ensure_worker_directories_def worker_directories_def real_demo_paths is_file_def real_demo_fs_read real_demo_fs_rest
     real_demo_names_def)

lemma json_eq_strings: "json_eq (JList (map JString xs)) (JList (map JString xs))"
  by (simp add: json_eq.simps [of "JList ys" "JList ys" for ys])

lemma real_demo_valid: "validate_real_request real_demo_layout real_demo_request = Inr ()"
  by (simp add: validate_real_request_def item_differs_def refuse_if_def item_def real_demo_request_def real_demo_layout_def
     json_eq_strings)

lemma real_demo_ok: "real_request_ok real_demo_request"
  by (simp add: real_request_ok_def real_demo_request_def item2_Inr json_field_def)

lemma real_demo_request_works:
  "works (real_request real_demo_codecs real_demo_env real_demo_layout) (\<lambda>r. r = real_demo_request)"
  unfolding real_request_def
  by (rule works_healthy works_looked works_gave works_return refl real_demo_valid real_demo_directories real_demo_input | assumption
      | simp add: request_path_def real_demo_paths real_demo_loaded)+

lemma real_demo_git:
  "git_value real_demo_env [''r''] arguments = Inr (if hd arguments = ''status'' then [] else ''c'')"
  by (simp add: git_value_def real_demo_env_def strip_def strip_by_def is_space_def code_point_def Let_def)

lemma real_demo_installed:
  assumes "real_demo_fs fs" "item ''pipeline'' real_demo_request = Inr p"
  shows "verify_re3d_installation real_demo_codecs real_demo_env [''r''] p fs = Inr ()"
proof -
  have p: "p = JObject [(''tag'', JString ''v1''), (''commit'', JString ''c''), (''config_sha256'', JString (replicate 64 (CHR ''0'')))]"
    using assms(2) by (simp add: item_def real_demo_request_def)
  show ?thesis
    by (simp add: p verify_re3d_installation_def script_path_def config_path_def local_paths_def is_file_def real_demo_fs_read [OF assms(1)]
      real_demo_names_def sha256_file_def real_demo_rest refuse_if_def item_differs_def item_def real_demo_git text_of_def ex_bool_eq)
qed

lemma real_demo_prepared:
  "\<exists>command. command \<noteq> [] \<and>
     works (prepare_process real_demo_codecs real_demo_env real_demo_layout [''r''] [''r'', ''python''] real_demo_request None)
       (\<lambda>x. x = (60, command))"
proof -
  have timeout: "effective_timeout real_demo_request None = Inr 60"
    by (simp add: effective_timeout_def item2_def item_def real_demo_request_def int_of_def)
  obtain p where p: "item ''pipeline'' real_demo_request = Inr p" by (simp add: item_def real_demo_request_def)
  let ?command = "build_command real_demo_layout [''r''] [''r'', ''python''] [] real_demo_request"
  note defs = build_command_def place_of_def item2_def item_def real_demo_request_def text_of_def real_demo_paths
  have same: "?command fs = ?command real_demo_files" if "real_demo_fs fs" for fs
    using that real_demo_fs_files by (simp add: defs)
  obtain command where command: "?command real_demo_files = Inr command" "command \<noteq> []"
    using real_demo_fs_files by (simp add: defs)
  note built = trans [OF same command(1)]
  have "works (prepare_process real_demo_codecs real_demo_env real_demo_layout [''r''] [''r'', ''python''] real_demo_request None)
      (\<lambda>x. x = (60, command))"
    unfolding prepare_process_def
    by (rule works_healthy works_looked works_gave works_return timeout p real_demo_installed [OF _ p] built | assumption
        | simp add: is_file_def real_demo_fs_read real_demo_names_def real_demo_paths)+
  with command(2) show ?thesis by blast
qed

lemma real_demo_drained:
  "drain_and_check (real_demo_process\<lparr>pe_handler := h\<rparr>) \<lparr>ms_timeout_seconds = 60, ms_poll_seconds = 1, ms_grace_seconds = 5, ms_started = 0\<rparr> w =
     Some (Inr (), record_action Supervised (record_action Supervised w))"
  by (simp add: drain_and_check_def drain_output_def check_supervision_def drain_lines.simps real_demo_process_def Let_def)

lemma real_demo_process_ends:
  assumes "command \<noteq> []"
  shows "run_process real_demo_env 60 1 command = Some (\<lambda>w. (Inr 0, w))"
proof -
  let ?p = "real_demo_process\<lparr>pe_handler := handle_step_line real_demo_env\<rparr>"
  have "poll ?p w = (Some 0, record_action (Polled (Some 0)) w)" "\<not> pe_popen_fails ?p" for w
    by (simp_all add: poll_def real_demo_process_def Let_def)
  moreover have "pl_process real_demo_env = real_demo_process" "pl_monotonic real_demo_env = 0" "pl_worked real_demo_env fs = fs" for fs
    by (simp_all add: real_demo_env_def)
  ultimately show ?thesis
    using assms by (simp add: run_process_def run_managed_process_def managed_error_def supervise_loop.simps real_demo_drained)
qed

lemma real_demo_report: "validate_output_report real_demo_validation = Inr ()"
  by (simp add: validate_output_report_def real_demo_validation_def json_field_def branch_names_def branch_passed_def is_object_def)

lemma real_demo_sfm: "real_demo_fs fs \<Longrightarrow> sfm_metrics real_demo_codecs real_demo_layout real_demo_request fs = Inr (0, 1)"
  by (simp add: sfm_metrics_def real_demo_paths read_json_object_def real_demo_fs_read real_demo_names_def real_demo_loads_of
    is_object_def required_non_negative_int_def required_non_negative_number_def json_field_def float_json_def too_many_registered_def
    refuse_if_def item2_def item_def real_demo_request_def ex_bool_eq)

lemma real_demo_artifacts:
  assumes "b \<in> set branch_names"
  shows "works (collect_artifacts real_demo_codecs real_demo_env real_demo_layout b) (\<lambda>_. True)"
proof -
  have base: "resolve fs real_demo_layout (''output/'' @ b) = Inr [''t'', ''output'', b]" if "real_demo_fs fs" for fs
    using branch_directory [OF assms] real_demo_resolve [OF that, of "''output/'' @ b"] by simp
  let ?base = "[''t'', ''output'', b]"
  let ?specs = "[(?base @ [''mesh.glb''], ''glb'', ''model/gltf-binary''), (?base @ [''mesh.obj''], ''obj'', ''model/obj''),
     (?base @ [''mesh.mtl''], ''mtl'', ''text/plain''), (?base @ [''texture.png''], ''texture'', ''image/png'')]"
  have specs: "artifact_specs real_demo_layout b fs = Inr ?specs" if "real_demo_fs fs" for fs
    unfolding artifact_specs_def base [OF that]
    by (simp add: texture_names_def is_file_def real_demo_fs_read [OF that] real_demo_names_def)
  have each: "\<exists>a. \<forall>fs. real_demo_fs fs \<longrightarrow> collect_artifact real_demo_codecs real_demo_layout b x fs = Inr a" if "x \<in> set ?specs" for x
    using that
    by (auto simp: collect_artifact_def Let_def real_demo_fs_rest is_file_def real_demo_fs_read real_demo_names_def file_size_def
      sha256_file_def real_demo_rest relative_text_def real_demo_layout_def)
  have "works (collect_pipe (\<lambda>spec.
       pipe_then (health_check real_demo_env) (\<lambda>_.
       pipe_then (look (collect_artifact real_demo_codecs real_demo_layout b spec)) (\<lambda>a.
       pipe_then (health_check real_demo_env) (\<lambda>_. pipe_return a)))) ?specs) (\<lambda>_. True)"
  proof (rule works_collect)
    fix x assume "x \<in> set ?specs"
    then obtain a where "\<And>fs. real_demo_fs fs \<Longrightarrow> collect_artifact real_demo_codecs real_demo_layout b x fs = Inr a" using each by blast
    then show "works (pipe_then (health_check real_demo_env) (\<lambda>_.
       pipe_then (look (collect_artifact real_demo_codecs real_demo_layout b x)) (\<lambda>a.
       pipe_then (health_check real_demo_env) (\<lambda>_. pipe_return a)))) (\<lambda>_. True)"
      by (intro works_healthy works_looked works_return TrueI)
  qed
  note collected = this
  show ?thesis unfolding collect_artifacts_def by (rule works_healthy works_looked specs collected | assumption)+
qed

lemma real_demo_depth:
  assumes "b \<in> set branch_names"
  shows "\<exists>d. \<forall>fs. real_demo_fs fs \<longrightarrow> depth_metric real_demo_codecs real_demo_layout b fs = Inr d"
proof -
  have ratio: "required_ratio ''retained_valid_fraction'' (JObject [(''retained_valid_fraction'', float_json 1)]) = Inr 1"
    by (simp add: required_ratio_def required_non_negative_number_def json_field_def float_json_def)
  show ?thesis
    using assms by (auto simp: depth_metric_def branch_names_def consistency_place_def real_demo_paths read_json_object_def
      real_demo_fs_read real_demo_names_def real_demo_loads_of is_object_def ratio)
qed

lemma real_demo_branch:
  assumes "b \<in> set branch_names"
  shows "works (build_branch_result real_demo_codecs real_demo_env real_demo_layout real_demo_validation b) (\<lambda>_. True)"
proof -
  obtain d where d: "\<And>fs. real_demo_fs fs \<Longrightarrow> depth_metric real_demo_codecs real_demo_layout b fs = Inr d"
    using real_demo_depth [OF assms] by blast
  obtain mesh where mesh: "mesh_metrics real_demo_validation b = Inr mesh"
    using assms by (auto simp: mesh_metrics_def real_demo_validation_def branch_names_def item2_def item_def required_positive_int_def
      required_non_negative_int_def json_field_def)
  show ?thesis unfolding build_branch_result_def
    by (rule works_healthy works_looked works_gave works_return TrueI mesh d works_then [OF real_demo_artifacts [OF assms]]
        | assumption)+
qed

lemma real_demo_built: "works (build_real_result real_demo_codecs real_demo_env real_demo_layout real_demo_request) (\<lambda>_. True)"
proof -
  have names: "bind_checked (bind_checked (item ''branches'' real_demo_request) elements_of) (collect_checked text_of) = Inr branch_names"
    by (simp add: item_def real_demo_request_def elements_of_def text_of_def branch_names_def)
  have object: "\<exists>v. real_result_object real_demo_env real_demo_request 0 1 named = Inr v" for named
    by (simp add: real_result_object_def pipeline_identity_def item2_def item_def real_demo_request_def)
  have last: "works (given (real_result_object real_demo_env real_demo_request 0 1 named)) (\<lambda>_. True)" for named
    using object [of named] by (auto intro: works_given)
  have validation: "read_json_object real_demo_codecs ''Re3D output validation'' [''t'', ''output'', ''validation.json''] fs = Inr real_demo_validation"
    if "real_demo_fs fs" for fs
    using that by (simp add: read_json_object_def real_demo_fs_read real_demo_names_def real_demo_loads_of real_demo_validation_def is_object_def)
  show ?thesis unfolding build_real_result_def
    by (rule works_healthy works_looked works_gave real_demo_sfm real_demo_report validation names
        works_then [OF works_write] works_then [OF works_collect] real_demo_branch | assumption
        | simp add: output_validation_path_def real_demo_paths last)+
qed

lemma real_demo_finished:
  "works (finish_real_run real_demo_codecs real_demo_env real_demo_layout real_demo_request 0) (\<lambda>(_, reused). \<not> reused)"
  unfolding finish_real_run_def
  by (rule works_healthy works_looked works_gave works_then [OF real_demo_built] works_then [OF works_write]
      | simp add: result_path_def real_demo_paths validate_contract_def real_demo_rest works_return)+

lemma real_demo_run:
  "\<exists>result w. run_real_pipeline real_demo_codecs real_demo_env real_demo_layout [''r''] [''r'', ''python''] 1 None real_demo_world =
     Some (Inr (result, False), w) \<and> real_demo_fs (pp_files w)"
proof -
  let ?w = "real_demo_world"
  have w: "real_demo_fs (pp_files ?w)" by (simp add: real_demo_world_def real_demo_fs_files)
  obtain w1 where request: "real_request real_demo_codecs real_demo_env real_demo_layout ?w = (Inr real_demo_request, w1)"
    "real_demo_fs (pp_files w1)" using real_demo_request_works w unfolding works_def by blast
  have files: "pp_files w1 = pp_files ?w" using readsD [OF real_request_reads request(1)] by simp
  obtain command where command: "command \<noteq> []" "works (prepare_process real_demo_codecs real_demo_env real_demo_layout [''r'']
     [''r'', ''python''] real_demo_request None) (\<lambda>x. x = (60, command))" using real_demo_prepared by blast
  then obtain w2 where w2: "prepare_process real_demo_codecs real_demo_env real_demo_layout [''r''] [''r'', ''python''] real_demo_request None w1 =
     (Inr (60, command), w2)" "real_demo_fs (pp_files w2)" using request(2) unfolding works_def by blast
  obtain result w3 where w3: "finish_real_run real_demo_codecs real_demo_env real_demo_layout real_demo_request 0 w2 = (Inr (result, False), w3)"
    "real_demo_fs (pp_files w3)" using real_demo_finished w2(2) unfolding works_def by auto
  let ?p = "[''t'', ''manifests'', ''pipeline-result.json'']"
  have place: "result_path (pp_files w1) real_demo_layout = Inr ?p"
    using request(2) by (simp add: result_path_def real_demo_paths)
  have first: "pipe_then (real_request real_demo_codecs real_demo_env real_demo_layout) (\<lambda>request.
        pipe_then (look (\<lambda>fs. result_path fs real_demo_layout)) (\<lambda>p. pipe_return (request, p))) ?w = (Inr (real_demo_request, ?p), w1)"
    unfolding pipe_then_Inr look_Inr pipe_return_Inr using request(1) place by auto
  have "\<not> path_exists (pp_files w1) ?p"
    by (simp add: files real_demo_world_def path_exists_def is_file_def is_dir_def read_file_def real_demo_files_def real_demo_names_def)
  moreover have "pipe_then (\<lambda>w. (Inr 0, w)) (finish_real_run real_demo_codecs real_demo_env real_demo_layout real_demo_request) w2 =
     (Inr (result, False), w3)" by (simp add: pipe_then_def followed_by_def w3(1))
  ultimately show ?thesis
    unfolding run_real_pipeline_def first by (simp add: w2(1) real_demo_process_ends [OF command(1)] w3(2))
qed

theorem finished_real_task_is_reused_witness:
  "\<exists>result w1 w2. run_real_pipeline real_demo_codecs real_demo_env real_demo_layout [''r''] [''r'', ''python''] 1 None real_demo_world =
       Some (Inr (result, False), w1) \<and>
     run_real_pipeline real_demo_codecs real_demo_env real_demo_layout [] [] 1 None w1 = Some (Inr (sort_keys result, True), w2) \<and>
     pp_files w2 = pp_files w1"
proof -
  obtain result w1 where run: "run_real_pipeline real_demo_codecs real_demo_env real_demo_layout [''r''] [''r'', ''python''] 1 None
     real_demo_world = Some (Inr (result, False), w1)" and w1: "real_demo_fs (pp_files w1)" using real_demo_run by blast
  have "real_demo_fs (pp_files real_demo_world)" by (simp add: real_demo_world_def real_demo_fs_files)
  then obtain wr w3 where "real_request real_demo_codecs real_demo_env real_demo_layout real_demo_world = (Inr real_demo_request, wr)"
    and "real_request real_demo_codecs real_demo_env real_demo_layout w1 = (Inr real_demo_request, w3)"
    using real_demo_request_works w1 unfolding works_def by blast
  moreover have "plain_root (pp_files w1) real_demo_layout" using w1 by (simp add: plain_root_def real_demo_fs_def)
  moreover have "\<forall>n. pl_health real_demo_env n = None" by (simp add: real_demo_env_def)
  ultimately show ?thesis
    using run finished_real_task_is_reused [OF run _ real_demo_ok _ real_demo_keeps refl] by blast
qed

end
