(* ===== verification/Auth_Maintenance.thy ===== *)
theory Auth_Maintenance
  imports Auth_Lockout Rate_Limit
begin

text \<open>
  The cleaning of the authentication tables, \<^verbatim>\<open>backend/auth/maintenance.py\<close>: old events, action tokens
  that are spent, and the buckets of the limits. The property is that the limits do not notice: a bucket is
  removed only when its window has ended and its block is over.
\<close>

section \<open>Settings\<close>

record auth_maintenance_settings =
  ams_event_retention_days :: int
  ams_action_token_retention_days :: int
  ams_throttle_retention_days :: int
  ams_cleanup_batch_size :: int

definition auth_maintenance_settings_error :: "auth_maintenance_settings \<Rightarrow> string option" where
  "auth_maintenance_settings_error s = first_error
     [in_range 1 (ams_event_retention_days s) 3650 ''AUTH_EVENT_RETENTION_DAYS must be between 1 and 3650'',
      in_range 1 (ams_throttle_retention_days s) 365 ''AUTH_THROTTLE_RETENTION_DAYS must be between 1 and 365'',
      in_range 1 (ams_action_token_retention_days s) 365
        ''AUTH_ACTION_TOKEN_RETENTION_DAYS must be between 1 and 365'',
      in_range 1 (ams_cleanup_batch_size s) 10000 ''AUTH_CLEANUP_BATCH_SIZE must be between 1 and 10000'']"

definition auth_maintenance_settings_from_environment :: "environ \<Rightarrow> string + auth_maintenance_settings" where
  "auth_maintenance_settings_from_environment env =
     (case read_all
        [read_int env ''AUTH_EVENT_RETENTION_DAYS'' 90, read_int env ''AUTH_ACTION_TOKEN_RETENTION_DAYS'' 7,
         read_int env ''AUTH_THROTTLE_RETENTION_DAYS'' 7, read_int env ''AUTH_CLEANUP_BATCH_SIZE'' 1000] of
        Inl e \<Rightarrow> Inl e
      | Inr ns \<Rightarrow>
          let s = \<lparr>ams_event_retention_days = ns ! 0, ams_action_token_retention_days = ns ! 1,
                ams_throttle_retention_days = ns ! 2, ams_cleanup_batch_size = ns ! 3\<rparr>
          in case auth_maintenance_settings_error s of Some e \<Rightarrow> Inl e | None \<Rightarrow> Inr s)"

section \<open>Deleting the oldest rows\<close>

text \<open>\<open>select(key).where(due).order_by(order).limit(limit)\<close>\<close>

definition oldest_keys :: "('r \<Rightarrow> bool) \<Rightarrow> ('r \<Rightarrow> 'o::linorder) \<Rightarrow> ('r \<Rightarrow> 'k) \<Rightarrow> int \<Rightarrow> 'r list \<Rightarrow> 'k list" where
  "oldest_keys due rank key limit rows = map key (take (nat limit) (sort_key rank (filter due rows)))"

text \<open>\<open>_delete_ids\<close>: the number of deleted rows and the rest of the table.\<close>

definition delete_ids :: "('r \<Rightarrow> 'k) \<Rightarrow> ('r \<Rightarrow> bool) \<Rightarrow> 'k list \<Rightarrow> 'r list \<Rightarrow> int \<times> 'r list" where
  "delete_ids key criteria ids rows =
     (if ids = [] then (0, rows)
      else (int (length (filter (\<lambda>r. key r \<in> set ids \<and> criteria r) rows)),
            delete_where (\<lambda>r. key r \<in> set ids \<and> criteria r) rows))"

definition before :: "time \<Rightarrow> time option \<Rightarrow> bool" where
  "before cutoff v \<longleftrightarrow> (case v of None \<Rightarrow> False | Some t \<Rightarrow> t < cutoff)"

definition action_token_spent :: "time \<Rightarrow> auth_action_token \<Rightarrow> bool" where
  "action_token_spent cutoff t \<longleftrightarrow>
     aat_expires_at t < cutoff \<or> before cutoff (aat_consumed_at t) \<or> before cutoff (aat_revoked_at t)"

text \<open>\<open>updated_at < cutoff\<close> and \<open>blocked_until\<close> null or not after now.\<close>

definition bucket_idle :: "time \<Rightarrow> time \<Rightarrow> time \<Rightarrow> time option \<Rightarrow> bool" where
  "bucket_idle cutoff now updated blocked \<longleftrightarrow>
     updated < cutoff \<and> (case blocked of None \<Rightarrow> True | Some t \<Rightarrow> t \<le> now)"

section \<open>The run\<close>

record auth_cleanup_report =
  acr_events_deleted :: int
  acr_action_tokens_deleted :: int
  acr_login_buckets_deleted :: int
  acr_registration_buckets_deleted :: int
  acr_action_request_buckets_deleted :: int
  acr_api_rate_limit_buckets_deleted :: int
  acr_event_cutoff :: time
  acr_action_token_cutoff :: time
  acr_throttle_cutoff :: time

definition auth_cleanup_in_session ::
  "time \<Rightarrow> time \<Rightarrow> time \<Rightarrow> time \<Rightarrow> int \<Rightarrow> database \<Rightarrow> auth_cleanup_report \<times> database" where
  "auth_cleanup_in_session now event_cutoff token_cutoff throttle_cutoff limit db =
     (let (events, event_rows) = delete_ids ae_id (\<lambda>_. True)
            (oldest_keys (\<lambda>e. ae_occurred_at e < event_cutoff) (\<lambda>e. (ae_occurred_at e, ae_id e)) ae_id limit (db_auth_events db))
            (db_auth_events db);
          (tokens, token_rows) = delete_ids aat_id (action_token_spent token_cutoff)
            (oldest_keys (action_token_spent token_cutoff) (\<lambda>t. (aat_expires_at t, aat_id t)) aat_id limit (db_action_tokens db))
            (db_action_tokens db);
          login_idle = (\<lambda>b. bucket_idle throttle_cutoff now (atb_updated_at b) (atb_blocked_until b));
          (logins, login_rows) = delete_ids atb_key_hash login_idle
            (oldest_keys login_idle (\<lambda>b. (atb_updated_at b, atb_key_hash b)) atb_key_hash limit (db_throttle_buckets db))
            (db_throttle_buckets db);
          registration_idle = (\<lambda>b. bucket_idle throttle_cutoff now (arb_updated_at b) (arb_blocked_until b));
          (registrations, registration_rows) = delete_ids arb_key_hash registration_idle
            (oldest_keys registration_idle (\<lambda>b. (arb_updated_at b, arb_key_hash b)) arb_key_hash limit (db_registration_buckets db))
            (db_registration_buckets db);
          action_idle = (\<lambda>b. bucket_idle throttle_cutoff now (aab_updated_at b) (aab_blocked_until b));
          (requests, request_rows) = delete_ids aab_key_hash action_idle
            (oldest_keys action_idle (\<lambda>b. (aab_updated_at b, aab_key_hash b)) aab_key_hash limit (db_action_request_buckets db))
            (db_action_request_buckets db);
          (rates, rate_rows) = delete_ids arl_key_hash (\<lambda>b. arl_updated_at b < throttle_cutoff)
            (oldest_keys (\<lambda>b. arl_updated_at b < throttle_cutoff) (\<lambda>b. (arl_updated_at b, arl_key_hash b)) arl_key_hash limit
              (db_rate_limit_buckets db)) (db_rate_limit_buckets db)
      in (\<lparr>acr_events_deleted = events, acr_action_tokens_deleted = tokens, acr_login_buckets_deleted = logins,
            acr_registration_buckets_deleted = registrations, acr_action_request_buckets_deleted = requests,
            acr_api_rate_limit_buckets_deleted = rates, acr_event_cutoff = event_cutoff,
            acr_action_token_cutoff = token_cutoff, acr_throttle_cutoff = throttle_cutoff\<rparr>,
          db\<lparr>db_auth_events := event_rows, db_action_tokens := token_rows, db_throttle_buckets := login_rows,
            db_registration_buckets := registration_rows, db_action_request_buckets := request_rows,
            db_rate_limit_buckets := rate_rows\<rparr>))"

record auth_cleanup_call =
  acc_event_retention_days :: "int option"
  acc_action_token_retention_days :: "int option"
  acc_throttle_retention_days :: "int option"
  acc_limit :: "int option"

definition configured :: "int option \<Rightarrow> int \<Rightarrow> int" where
  "configured given standard = (case given of None \<Rightarrow> standard | Some n \<Rightarrow> n)"

definition auth_cleanup ::
  "auth_maintenance_settings \<Rightarrow> auth_cleanup_call \<Rightarrow> time \<Rightarrow> database \<Rightarrow>
     (string, auth_cleanup_report, database) outcome" where
  "auth_cleanup s call now db =
     (let event_days = configured (acc_event_retention_days call) (ams_event_retention_days s);
          throttle_days = configured (acc_throttle_retention_days call) (ams_throttle_retention_days s);
          token_days = configured (acc_action_token_retention_days call) (ams_action_token_retention_days s);
          limit = configured (acc_limit call) (ams_cleanup_batch_size s)
      in case first_error
           [in_range 1 event_days 3650 ''event_retention_days must be between 1 and 3650'',
            in_range 1 throttle_days 365 ''throttle_retention_days must be between 1 and 365'',
            in_range 1 token_days 365 ''action_token_retention_days must be between 1 and 365'',
            in_range 1 limit 10000 ''cleanup limit must be between 1 and 10000''] of
           Some e \<Rightarrow> (Inl e, db)
         | None \<Rightarrow>
             (case auth_cleanup_in_session now (now - days event_days) (now - days token_days) (now - days throttle_days) limit db of
                (report, db') \<Rightarrow> (Inr report, db')))"

section \<open>What a cleaning keeps\<close>

text \<open>What the limits see of a bucket at a time: how long it is still blocked, and what a charge starts from.\<close>

definition wait_of :: "time \<Rightarrow> attempt_state option \<Rightarrow> int" where
  "wait_of now v =
     (case v of None \<Rightarrow> 0 | Some x \<Rightarrow> if blocked_at now (ats_blocked x) then wait_seconds now (ats_blocked x) else 0)"

definition same_limit :: "int \<Rightarrow> time \<Rightarrow> attempt_state option \<Rightarrow> attempt_state option \<Rightarrow> bool" where
  "same_limit window now v v' \<longleftrightarrow> wait_of now v = wait_of now v' \<and> current_state window now v = current_state window now v'"

context checked_table begin

lemma check_fold_waits:
  assumes "distinct (map key_hash keys)" "0 \<le> r0"
  shows "fst (fold (check now) keys (r0, s)) = fold (\<lambda>k r. max r (wait_of now (view (key_hash k) s))) keys r0"
  using assms
proof (induction keys arbitrary: r0 s)
  case (Cons k keys)
  obtain r1 s1 where r1: "check now k (r0, s) = (r1, s1)" by fastforce
  have first: "r1 = max r0 (wait_of now (view (key_hash k) s))"
    using check_wait [of now k r0 s] r1 Cons.prems(2) by (simp add: wait_of_def split: option.split)
  have "view (key_hash k') s1 = view (key_hash k') s" if "k' \<in> set keys" for k'
  proof -
    have "key_hash k' \<noteq> key_hash k" using that Cons.prems(1) by (auto simp: image_iff)
    then show ?thesis using check_view [of "key_hash k'" now k r0 s] r1 by simp
  qed
  then have "fold (\<lambda>k r. max r (wait_of now (view (key_hash k) s1))) keys r1 =
      fold (\<lambda>k r. max r (wait_of now (view (key_hash k) s))) keys r1"
    by (intro fold_cong) auto
  with Cons.IH [of r1 s1] Cons.prems first show ?case by (simp add: r1)
qed simp

lemma check_fold_same:
  assumes "distinct (map key_hash keys)" "\<forall>k \<in> set keys. same_limit window now (view (key_hash k) s) (view (key_hash k) s')"
  shows "fst (fold (check now) keys (0, s)) = fst (fold (check now) keys (0, s'))"
  unfolding check_fold_waits [OF assms(1) order_refl] using assms(2) by (intro fold_cong) (auto simp: same_limit_def)

end

context attempt_table begin

lemma consume_same:
  assumes "distinct (map key_hash keys)" "\<forall>k \<in> set keys. same_limit window now (view (key_hash k) s) (view (key_hash k) s')"
  shows "fst (consume keys now s) = fst (consume keys now s')"
    and "fst (consume keys now s) = None \<Longrightarrow> k \<in> set keys \<Longrightarrow>
      view (key_hash k) (snd (consume keys now s)) = view (key_hash k) (snd (consume keys now s'))"
proof -
  obtain r s1 r' s1' where loops: "fold (check now) keys (0, s) = (r, s1)" "fold (check now) keys (0, s') = (r', s1')"
    by fastforce
  then have "r = r'" using check_fold_same [OF assms] by simp
  then show same: "fst (consume keys now s) = fst (consume keys now s')"
    by (simp add: consume_loops loops)
  show "view (key_hash k) (snd (consume keys now s)) = view (key_hash k) (snd (consume keys now s'))"
    if none: "fst (consume keys now s) = None" and k: "k \<in> set keys"
  proof -
    obtain t t' where "consume keys now s = (None, t)" "consume keys now s' = (None, t')"
      using none same by (metis prod.collapse)
    then show ?thesis
      using accepted_view [OF _ assms(1) k] assms(2) k by (auto simp: same_limit_def)
  qed
qed

end

text \<open>Removing a bucket whose window and block are over is not noticed from then on.\<close>

lemma idle_same:
  assumes "bucket_idle cutoff now updated (ats_blocked x)" "ats_started x \<le> updated" "cutoff + window \<le> now" "now \<le> t"
  shows "same_limit window t (Some x) None"
  using assms by (auto simp: same_limit_def wait_of_def current_state_def settled_def bucket_idle_def blocked_at_def split: option.splits)

lemma same_limit_refl: "same_limit window t v v"
  by (simp add: same_limit_def)

lemma find_row_filter:
  "distinct (map key rows) \<Longrightarrow> find_row key k (filter P rows) =
     (case find_row key k rows of Some r \<Rightarrow> if P r then Some r else None | None \<Rightarrow> None)"
proof (induction rows)
  case (Cons r rows)
  have "find_row key (key r) rows = None" using Cons.prems by (simp add: find_row_None_iff)
  with Cons show ?case by (auto split: option.split)
qed simp

text \<open>What a deletion leaves of a table with distinct keys: a row is gone only if it meets the criteria.\<close>

lemma delete_ids_find:
  assumes "delete_ids key criteria ids rows = (n, rows')" "distinct (map key rows)"
  shows "find_row key k rows' = find_row key k rows \<or>
    (\<exists>r. find_row key k rows = Some r \<and> criteria r \<and> find_row key k rows' = None)"
  using assms by (auto simp: delete_ids_def delete_where_def find_row_filter split: if_splits option.split)

lemma delete_ids_keeps: "delete_ids key criteria ids rows = (n, rows') \<Longrightarrow> r \<in> set rows \<Longrightarrow> \<not> criteria r \<Longrightarrow> r \<in> set rows'"
  by (auto simp: delete_ids_def delete_where_def split: if_splits)

lemma delete_ids_all:
  "delete_ids key (\<lambda>_. True) (oldest_keys due rank key limit rows) rows = (n, rows') \<Longrightarrow> distinct (map key rows) \<Longrightarrow>
     r \<in> set rows \<Longrightarrow> \<not> due r \<Longrightarrow> r \<in> set rows'"
proof -
  assume a: "delete_ids key (\<lambda>_. True) (oldest_keys due rank key limit rows) rows = (n, rows')" "distinct (map key rows)"
    "r \<in> set rows" "\<not> due r"
  have "key r \<notin> set (oldest_keys due rank key limit rows)"
  proof
    assume "key r \<in> set (oldest_keys due rank key limit rows)"
    then obtain r' where "r' \<in> set (take (nat limit) (sort_key rank (filter due rows)))" "key r' = key r"
      by (auto simp: oldest_keys_def)
    then have "r' \<in> set rows" "due r'" by (auto dest: in_set_takeD)
    with a(2-4) \<open>key r' = key r\<close> show False by (metis distinct_map inj_onD)
  qed
  with a(1,3) show ?thesis by (auto simp: delete_ids_def delete_where_def split: if_splits)
qed

text \<open>
  Tables as the calls keep them: keys are unique, and the window of a bucket starts no later than its last
  update.
\<close>

definition limit_tables_ok :: "database \<Rightarrow> bool" where
  "limit_tables_ok db \<longleftrightarrow>
     distinct (map atb_key_hash (db_throttle_buckets db)) \<and> distinct (map arb_key_hash (db_registration_buckets db)) \<and>
     distinct (map aab_key_hash (db_action_request_buckets db)) \<and> distinct (map arl_key_hash (db_rate_limit_buckets db)) \<and>
     distinct (map ae_id (db_auth_events db)) \<and>
     (\<forall>b \<in> set (db_throttle_buckets db). atb_window_started_at b \<le> atb_updated_at b) \<and>
     (\<forall>b \<in> set (db_registration_buckets db). arb_window_started_at b \<le> arb_updated_at b) \<and>
     (\<forall>b \<in> set (db_action_request_buckets db). aab_window_started_at b \<le> aab_updated_at b) \<and>
     (\<forall>b \<in> set (db_rate_limit_buckets db). arl_window_started_at b \<le> arl_updated_at b)"

lemma cleanup_same_limits:
  assumes run: "auth_cleanup_in_session now event_cutoff token_cutoff cutoff limit db = (report, db')"
    and ok: "limit_tables_ok db" and window: "cutoff + window \<le> now" and t: "now \<le> t"
  shows "same_limit window t (registration_view h db') (registration_view h db)"
    and "same_limit window t (action_view h db') (action_view h db)"
    and "same_limit window t (throttle_view h db') (throttle_view h db)"
    and "get_rate_bucket h db' = get_rate_bucket h db \<or>
      (\<exists>b. get_rate_bucket h db = Some b \<and> arl_window_started_at b + window \<le> t \<and> get_rate_bucket h db' = None)"
proof -
  note run = run [unfolded auth_cleanup_in_session_def Let_def]
  have rows: "distinct (map arb_key_hash (db_registration_buckets db))" "distinct (map aab_key_hash (db_action_request_buckets db))"
    "distinct (map atb_key_hash (db_throttle_buckets db))" "distinct (map arl_key_hash (db_rate_limit_buckets db))"
    using ok by (simp_all add: limit_tables_ok_def)
  show "same_limit window t (registration_view h db') (registration_view h db)"
  proof -
    obtain n ids where d: "delete_ids arb_key_hash (\<lambda>b. bucket_idle cutoff now (arb_updated_at b) (arb_blocked_until b)) ids
        (db_registration_buckets db) = (n, db_registration_buckets db')" using run by (auto split: prod.splits)
    from delete_ids_find [OF d rows(1), of h] show ?thesis
    proof (elim disjE exE conjE)
      fix b assume b: "find_row arb_key_hash h (db_registration_buckets db) = Some b"
        "bucket_idle cutoff now (arb_updated_at b) (arb_blocked_until b)" "find_row arb_key_hash h (db_registration_buckets db') = None"
      then have "arb_window_started_at b \<le> arb_updated_at b" using ok by (auto simp: limit_tables_ok_def dest: find_row_SomeD)
      with b idle_same [OF _ _ window t, of "arb_updated_at b" "the (registration_view h db)"] show ?thesis
        by (simp add: registration_view_def get_registration_bucket_def same_limit_def)
    qed (simp add: registration_view_def get_registration_bucket_def same_limit_refl)
  qed
  show "same_limit window t (action_view h db') (action_view h db)"
  proof -
    obtain n ids where d: "delete_ids aab_key_hash (\<lambda>b. bucket_idle cutoff now (aab_updated_at b) (aab_blocked_until b)) ids
        (db_action_request_buckets db) = (n, db_action_request_buckets db')" using run by (auto split: prod.splits)
    from delete_ids_find [OF d rows(2), of h] show ?thesis
    proof (elim disjE exE conjE)
      fix b assume b: "find_row aab_key_hash h (db_action_request_buckets db) = Some b"
        "bucket_idle cutoff now (aab_updated_at b) (aab_blocked_until b)" "find_row aab_key_hash h (db_action_request_buckets db') = None"
      then have "aab_window_started_at b \<le> aab_updated_at b" using ok by (auto simp: limit_tables_ok_def dest: find_row_SomeD)
      with b idle_same [OF _ _ window t, of "aab_updated_at b" "the (action_view h db)"] show ?thesis
        by (simp add: action_view_def get_action_bucket_def same_limit_def)
    qed (simp add: action_view_def get_action_bucket_def same_limit_refl)
  qed
  show "same_limit window t (throttle_view h db') (throttle_view h db)"
  proof -
    obtain n ids where d: "delete_ids atb_key_hash (\<lambda>b. bucket_idle cutoff now (atb_updated_at b) (atb_blocked_until b)) ids
        (db_throttle_buckets db) = (n, db_throttle_buckets db')" using run by (auto split: prod.splits)
    from delete_ids_find [OF d rows(3), of h] show ?thesis
    proof (elim disjE exE conjE)
      fix b assume b: "find_row atb_key_hash h (db_throttle_buckets db) = Some b"
        "bucket_idle cutoff now (atb_updated_at b) (atb_blocked_until b)" "find_row atb_key_hash h (db_throttle_buckets db') = None"
      then have "atb_window_started_at b \<le> atb_updated_at b" using ok by (auto simp: limit_tables_ok_def dest: find_row_SomeD)
      with b idle_same [OF _ _ window t, of "atb_updated_at b" "the (throttle_view h db)"] show ?thesis
        by (simp add: throttle_view_def get_throttle_bucket_def same_limit_def)
    qed (simp add: throttle_view_def get_throttle_bucket_def same_limit_refl)
  qed
  obtain n ids where "delete_ids arl_key_hash (\<lambda>b. arl_updated_at b < cutoff) ids
      (db_rate_limit_buckets db) = (n, db_rate_limit_buckets db')" using run by (auto split: prod.splits)
  from delete_ids_find [OF this rows(4), of h] ok window t
  show "get_rate_bucket h db' = get_rate_bucket h db \<or>
      (\<exists>b. get_rate_bucket h db = Some b \<and> arl_window_started_at b + window \<le> t \<and> get_rate_bucket h db' = None)"
    by (fastforce simp: get_rate_bucket_def limit_tables_ok_def dest: find_row_SomeD)
qed

lemma cleanup_frame:
  assumes "auth_cleanup_in_session now event_cutoff token_cutoff cutoff limit db = (report, db')"
  shows "db' = db\<lparr>db_auth_events := db_auth_events db', db_action_tokens := db_action_tokens db',
      db_throttle_buckets := db_throttle_buckets db', db_registration_buckets := db_registration_buckets db',
      db_action_request_buckets := db_action_request_buckets db', db_rate_limit_buckets := db_rate_limit_buckets db'\<rparr>"
    and "tok \<in> set (db_action_tokens db) \<Longrightarrow> \<not> action_token_spent token_cutoff tok \<Longrightarrow> tok \<in> set (db_action_tokens db')"
    and "limit_tables_ok db \<Longrightarrow> ev \<in> set (db_auth_events db) \<Longrightarrow> event_cutoff \<le> ae_occurred_at ev \<Longrightarrow> ev \<in> set (db_auth_events db')"
proof -
  note run = assms [unfolded auth_cleanup_in_session_def Let_def]
  show "db' = db\<lparr>db_auth_events := db_auth_events db', db_action_tokens := db_action_tokens db',
      db_throttle_buckets := db_throttle_buckets db', db_registration_buckets := db_registration_buckets db',
      db_action_request_buckets := db_action_request_buckets db', db_rate_limit_buckets := db_rate_limit_buckets db'\<rparr>"
    using run by (auto split: prod.splits)
  obtain n ids where "delete_ids aat_id (action_token_spent token_cutoff) ids (db_action_tokens db) = (n, db_action_tokens db')"
    using run by (auto split: prod.splits)
  then show "tok \<in> set (db_action_tokens db) \<Longrightarrow> \<not> action_token_spent token_cutoff tok \<Longrightarrow> tok \<in> set (db_action_tokens db')"
    by (rule delete_ids_keeps)
  obtain m where m: "delete_ids ae_id (\<lambda>_. True) (oldest_keys (\<lambda>e. ae_occurred_at e < event_cutoff) (\<lambda>e. (ae_occurred_at e, ae_id e)) ae_id
      limit (db_auth_events db)) (db_auth_events db) = (m, db_auth_events db')" using run by (auto split: prod.splits)
  show "limit_tables_ok db \<Longrightarrow> ev \<in> set (db_auth_events db) \<Longrightarrow> event_cutoff \<le> ae_occurred_at ev \<Longrightarrow> ev \<in> set (db_auth_events db')"
    by (rule delete_ids_all [OF m]) (simp_all add: limit_tables_ok_def)
qed

lemma rate_same:
  assumes "get_rate_bucket k db' = get_rate_bucket k db \<or>
      (\<exists>b. get_rate_bucket k db = Some b \<and> arl_window_started_at b + seconds (rls_window_seconds s) \<le> t \<and> get_rate_bucket k db' = None)"
    and "k = rl_fingerprint hmac s (resolved_ip ip)" and "1 \<le> rls_window_seconds s"
  shows "fst (consume hmac s ip t db') = fst (consume hmac s ip t db)"
proof -
  obtain d e where d: "consume hmac s ip t db = (d, e)" by fastforce
  obtain d' e' where d': "consume hmac s ip t db' = (d', e')" by fastforce
  have "arl_request_count (current_bucket s k t db') = arl_request_count (current_bucket s k t db)"
    "arl_window_started_at (current_bucket s k t db') = arl_window_started_at (current_bucket s k t db)"
    using assms(1,3) by (auto simp: current_bucket_def Let_def)
  moreover have "rld_limit d = rls_ip_max_requests s" "rld_limit d' = rls_ip_max_requests s"
    using d d' by (auto simp: consume_def Let_def split: prod.splits if_splits)
  ultimately have "d' = d"
    using consume_effect(1-3) [OF d assms(2) refl] consume_effect(1-3) [OF d' assms(2) refl]
    by (intro rate_limit_decision.equality) auto
  then show ?thesis by (simp add: d d')
qed

text \<open>
  C32. Cleaning the authentication tables goes unnoticed by the limits: at any later time, registrations,
  requests for mails, logins and ordinary requests get the answer they would have got without it. No token
  that could still be used is removed, and no other table changes. The shortest retention of a bucket, one
  day, is as long as the longest window.
\<close>

theorem cleanup_goes_unnoticed:
  assumes "auth_settings_error valid_network s = None" "api_rate_limit_settings_error rs = None"
    and run: "auth_cleanup ms call now db = (Inr report, db')" and ok: "limit_tables_ok db" and t: "now \<le> t"
    and keys: "distinct (map tk_key_hash keys)" "distinct (map tk_key_hash akeys)"
  shows "fst (consume_registration_attempt s keys t db') = fst (consume_registration_attempt s keys t db) \<and>
    fst (consume_action_request s akeys t db') = fst (consume_action_request s akeys t db) \<and>
    fst (login_retry_after s keys t db') = fst (login_retry_after s keys t db) \<and>
    fst (consume hmac rs ip t db') = fst (consume hmac rs ip t db) \<and>
    (\<forall>tok \<in> set (db_action_tokens db). now < aat_expires_at tok \<and> aat_consumed_at tok = None \<and> aat_revoked_at tok = None \<longrightarrow>
       tok \<in> set (db_action_tokens db')) \<and>
    db' = db\<lparr>db_auth_events := db_auth_events db', db_action_tokens := db_action_tokens db',
      db_throttle_buckets := db_throttle_buckets db', db_registration_buckets := db_registration_buckets db',
      db_action_request_buckets := db_action_request_buckets db', db_rate_limit_buckets := db_rate_limit_buckets db'\<rparr>"
proof -
  obtain event_cutoff token_days throttle_days limit where inner:
    "auth_cleanup_in_session now event_cutoff (now - days token_days) (now - days throttle_days) limit db = (report, db')"
    and bounds: "1 \<le> token_days" "1 \<le> throttle_days"
    using run by (auto simp: auth_cleanup_def Let_def first_error_None split: option.splits prod.splits if_splits)
  note unfold_settings = auth_settings_error_def first_error_None
  have windows: "minutes (as_registration_window_minutes s) \<le> days 1" "minutes (as_action_request_window_minutes s) \<le> days 1"
    "minutes (as_login_window_minutes s) \<le> days 1"
    using assms(1) unfolding unfold_settings by simp_all
  have rates: "1 \<le> rls_window_seconds rs" "seconds (rls_window_seconds rs) \<le> days 1"
    using assms(2) by (auto simp: api_rate_limit_settings_error_def split: if_splits)
  have idle: "(now - days throttle_days) + w \<le> now" if "w \<le> days 1" for w using that bounds(2) by simp
  note same = cleanup_same_limits [OF inner ok idle t]
  have "fst (consume_registration_attempt s keys t db') = fst (consume_registration_attempt s keys t db)"
    by (rule registration.consume_same(1) [OF keys(1)]) (use same(1) [OF windows(1)] in blast)
  moreover have "fst (consume_action_request s akeys t db') = fst (consume_action_request s akeys t db)"
    by (rule action_requests.consume_same(1) [OF keys(2)]) (use same(2) [OF windows(2)] in blast)
  moreover have "fst (fold (check_login_key (minutes (as_login_window_minutes s)) t) keys (0, db')) =
      fst (fold (check_login_key (minutes (as_login_window_minutes s)) t) keys (0, db))"
    by (rule login_checks.check_fold_same [OF keys(1)]) (use same(3) [OF windows(3)] in blast)
  then have "fst (login_retry_after s keys t db') = fst (login_retry_after s keys t db)"
    by (simp add: login_retry_after_def Let_def case_prod_beta)
  moreover have "fst (consume hmac rs ip t db') = fst (consume hmac rs ip t db)"
    by (rule rate_same [OF same(4) [OF rates(2)] refl rates(1)])
  moreover have "\<not> action_token_spent (now - days token_days) tok"
    if "now < aat_expires_at tok" "aat_consumed_at tok = None" "aat_revoked_at tok = None" for tok
    using that bounds(1) by (simp add: action_token_spent_def before_def)
  ultimately show ?thesis using cleanup_frame(1,2) [OF inner] by blast
qed

text \<open>An example: a bucket and a token of long ago, and a bucket that is still blocked.\<close>

definition demo_cleanup_database :: database where
  "demo_cleanup_database = empty_database\<lparr>
     db_registration_buckets := [\<lparr>arb_key_hash = ''alice'', arb_dimension = ''identity'', arb_attempt_count = 2,
        arb_window_started_at = 0, arb_blocked_until = None, arb_updated_at = 5\<rparr>,
       \<lparr>arb_key_hash = ''bob'', arb_dimension = ''identity'', arb_attempt_count = 3,
        arb_window_started_at = 0, arb_blocked_until = Some (days 20), arb_updated_at = 5\<rparr>],
     db_action_tokens := [\<lparr>aat_id = 1, aat_user_id = 2, aat_purpose = ''password_reset'', aat_token_sha256 = ''h'',
        aat_created_at = 0, aat_expires_at = 7, aat_consumed_at = None, aat_revoked_at = None\<rparr>]\<rparr>"

definition demo_maintenance :: auth_maintenance_settings where
  "demo_maintenance = \<lparr>ams_event_retention_days = 90, ams_action_token_retention_days = 7,
     ams_throttle_retention_days = 7, ams_cleanup_batch_size = 1000\<rparr>"

definition demo_cleanup_call :: auth_cleanup_call where
  "demo_cleanup_call = \<lparr>acc_event_retention_days = None, acc_action_token_retention_days = None,
     acc_throttle_retention_days = None, acc_limit = None\<rparr>"

definition demo_rate_settings :: api_rate_limit_settings where
  "demo_rate_settings = \<lparr>rls_fingerprint_secret = replicate 32 (CHR ''s''), rls_window_seconds = 60, rls_ip_max_requests = 300\<rparr>"

theorem cleanup_goes_unnoticed_witness:
  "\<exists>report db'. auth_cleanup demo_maintenance demo_cleanup_call (days 10) demo_cleanup_database = (Inr report, db') \<and>
     acr_registration_buckets_deleted report = 1 \<and> acr_action_tokens_deleted report = 1 \<and>
     fst (consume_registration_attempt demo_auth_settings
       [\<lparr>tk_dimension = ''identity'', tk_key_hash = ''bob'', tk_limit = 3\<rparr>] (days 11) db') =
     fst (consume_registration_attempt demo_auth_settings
       [\<lparr>tk_dimension = ''identity'', tk_key_hash = ''bob'', tk_limit = 3\<rparr>] (days 11) demo_cleanup_database)"
proof -
  have run: "\<exists>report db'. auth_cleanup demo_maintenance demo_cleanup_call (days 10) demo_cleanup_database = (Inr report, db') \<and>
     acr_registration_buckets_deleted report = 1 \<and> acr_action_tokens_deleted report = 1"
    by (simp add: auth_cleanup_def demo_maintenance_def demo_cleanup_call_def configured_def in_range_def auth_cleanup_in_session_def
        oldest_keys_def delete_ids_def delete_where_def demo_cleanup_database_def empty_database_def action_token_spent_def before_def
        bucket_idle_def Let_def)
  then obtain report db' where r: "auth_cleanup demo_maintenance demo_cleanup_call (days 10) demo_cleanup_database = (Inr report, db')"
    "acr_registration_buckets_deleted report = 1" "acr_action_tokens_deleted report = 1" by blast
  have "api_rate_limit_settings_error demo_rate_settings = None"
    by (simp add: api_rate_limit_settings_error_def demo_rate_settings_def)
  moreover have "limit_tables_ok demo_cleanup_database"
    by (simp add: limit_tables_ok_def demo_cleanup_database_def empty_database_def)
  ultimately show ?thesis
    using r cleanup_goes_unnoticed [OF demo_auth_settings_ok _ r(1), of demo_rate_settings "days 11"
        "[\<lparr>tk_dimension = ''identity'', tk_key_hash = ''bob'', tk_limit = 3\<rparr>]" "[]"] by simp
qed

section \<open>The calls keep the tables in this form\<close>

text \<open>Shown for a clock that is not behind the updates.\<close>

definition dated :: "time \<Rightarrow> time \<Rightarrow> time \<Rightarrow> bool" where
  "dated now started updated \<longleftrightarrow> started \<le> updated \<and> updated \<le> now"

lemma dated_now: "dated now now now"
  by (simp add: dated_def)

lemma find_dated:
  "find_row key k rows = Some r \<Longrightarrow> \<forall>b \<in> set rows. dated now (f b) (g b) \<Longrightarrow> dated now (f r) (g r) \<and> dated now (f r) now"
  by (auto simp: dated_def dest!: find_row_SomeD)

lemma fold_keeps: "P x \<Longrightarrow> (\<And>k x. P x \<Longrightarrow> P (f k x)) \<Longrightarrow> P (fold f ks x)"
  by (induction ks arbitrary: x) simp_all

lemma registration_buckets_dated:
  assumes "\<forall>b \<in> set (db_registration_buckets db). dated now (arb_window_started_at b) (arb_updated_at b)"
  shows "\<forall>b \<in> set (db_registration_buckets (snd (consume_registration_attempt s keys now db))). dated now (arb_window_started_at b) (arb_updated_at b)"
proof -
  let ?ok = "\<lambda>db. \<forall>b \<in> set (db_registration_buckets db). dated now (arb_window_started_at b) (arb_updated_at b)"
  have check: "?ok (snd (check_registration_key window now k x))" if "?ok (snd x)" for window k x
    using that by (cases x) (auto simp: check_registration_key_def put_registration_bucket_def get_registration_bucket_def Let_def put_row_def dated_now
        split: option.split dest!: find_dated [where f = arb_window_started_at and g = arb_updated_at])
  have charge: "?ok (charge_registration_key block now k db)" if "?ok db" for block k db
    using that by (auto simp: charge_registration_key_def get_or_create_registration_bucket_def put_registration_bucket_def get_registration_bucket_def Let_def put_row_def dated_now
        split: option.split dest!: find_dated [where f = arb_window_started_at and g = arb_updated_at])
  have "?ok (snd (fold (check_registration_key window now) keys (0, db)))" for window
    by (rule fold_keeps [where P = "\<lambda>x. ?ok (snd x)"]) (use assms check in auto)
  then have "?ok (fold (charge_registration_key block now) keys (snd (fold (check_registration_key window now) keys (0, db))))" for window block
    by (rule fold_keeps) (rule charge)
  with \<open>\<And>window. ?ok (snd (fold (check_registration_key window now) keys (0, db)))\<close> show ?thesis
    by (simp add: consume_registration_attempt_def Let_def case_prod_beta)
qed

lemma action_buckets_dated:
  assumes "\<forall>b \<in> set (db_action_request_buckets db). dated now (aab_window_started_at b) (aab_updated_at b)"
  shows "\<forall>b \<in> set (db_action_request_buckets (snd (consume_action_request s keys now db))). dated now (aab_window_started_at b) (aab_updated_at b)"
proof -
  let ?ok = "\<lambda>db. \<forall>b \<in> set (db_action_request_buckets db). dated now (aab_window_started_at b) (aab_updated_at b)"
  have check: "?ok (snd (check_action_key window now k x))" if "?ok (snd x)" for window k x
    using that by (cases x) (auto simp: check_action_key_def put_action_bucket_def get_action_bucket_def Let_def put_row_def dated_now
        split: option.split dest!: find_dated [where f = aab_window_started_at and g = aab_updated_at])
  have charge: "?ok (charge_action_key block now k db)" if "?ok db" for block k db
    using that by (auto simp: charge_action_key_def get_or_create_action_request_bucket_def put_action_bucket_def get_action_bucket_def Let_def put_row_def dated_now
        split: option.split dest!: find_dated [where f = aab_window_started_at and g = aab_updated_at])
  have "?ok (snd (fold (check_action_key window now) keys (0, db)))" for window
    by (rule fold_keeps [where P = "\<lambda>x. ?ok (snd x)"]) (use assms check in auto)
  then have "?ok (fold (charge_action_key block now) keys (snd (fold (check_action_key window now) keys (0, db))))" for window block
    by (rule fold_keeps) (rule charge)
  with \<open>\<And>window. ?ok (snd (fold (check_action_key window now) keys (0, db)))\<close> show ?thesis
    by (simp add: consume_action_request_def Let_def case_prod_beta)
qed

lemma throttle_buckets_dated:
  assumes "\<forall>b \<in> set (db_throttle_buckets db). dated now (atb_window_started_at b) (atb_updated_at b)"
  shows "\<forall>b \<in> set (db_throttle_buckets (snd (login_retry_after s keys now db))). dated now (atb_window_started_at b) (atb_updated_at b)"
    and "\<forall>b \<in> set (db_throttle_buckets (record_login_failure s keys now db)). dated now (atb_window_started_at b) (atb_updated_at b)"
proof -
  let ?ok = "\<lambda>db. \<forall>b \<in> set (db_throttle_buckets db). dated now (atb_window_started_at b) (atb_updated_at b)"
  have check: "?ok (snd (check_login_key window now k x))" if "?ok (snd x)" for window k x
    using that by (cases x) (auto simp: check_login_key_def put_throttle_bucket_def get_throttle_bucket_def Let_def put_row_def dated_now
        split: option.split dest!: find_dated [where f = atb_window_started_at and g = atb_updated_at])
  have charge: "?ok (record_failure_key window block now k db)" if "?ok db" for window block k db
    using that by (auto simp: record_failure_key_def get_or_create_throttle_bucket_def put_throttle_bucket_def get_throttle_bucket_def
        Let_def put_row_def dated_now split: option.split dest!: find_dated [where f = atb_window_started_at and g = atb_updated_at])
  have "?ok (snd (fold (check_login_key window now) keys (0, db)))" for window
    by (rule fold_keeps [where P = "\<lambda>x. ?ok (snd x)"]) (use assms check in auto)
  then show "?ok (snd (login_retry_after s keys now db))" by (simp add: login_retry_after_def Let_def case_prod_beta)
  show "?ok (record_login_failure s keys now db)"
    unfolding record_login_failure_def Let_def by (rule fold_keeps [where P = ?ok, OF assms charge])
qed

lemma rate_buckets_dated:
  assumes "\<forall>b \<in> set (db_rate_limit_buckets db). dated now (arl_window_started_at b) (arl_updated_at b)"
  shows "\<forall>b \<in> set (db_rate_limit_buckets (snd (consume hmac s ip now db))). dated now (arl_window_started_at b) (arl_updated_at b)"
  using assms
  by (auto simp: consume_def rl_get_or_create_bucket_def put_rate_bucket_def get_rate_bucket_def Let_def put_row_def dated_now
      split: option.split dest!: find_dated [where f = arl_window_started_at and g = arl_updated_at])

end
