(* ===== verification/Resource_Readers.thy ===== *)
theory Resource_Readers
  imports Event_Journal Json_Values
begin

text \<open>
  The readers of \<^verbatim>\<open>backend/monitoring/resources.py\<close>: the load of the host, the state of a GPU as
  \<^verbatim>\<open>nvidia-smi\<close> prints it, and the bytes of a task's directory. What the system, the tool and the
  directory hold is an argument; the branches for Windows and the limit on the size of a CSV field are left out.
\<close>

section \<open>Settings\<close>

record monitor_settings =
  mo_enabled :: bool
  mo_interval_seconds :: int
  mo_task_storage_interval_seconds :: int
  mo_nvidia_smi_path :: "path option"

definition monitor_settings_error :: "(path \<Rightarrow> bool) \<Rightarrow> monitor_settings \<Rightarrow> string option" where
  "monitor_settings_error is_tool s =
     (if \<not> (5 \<le> mo_interval_seconds s \<and> mo_interval_seconds s \<le> 300)
      then Some ''RE3D_RESOURCE_SAMPLE_INTERVAL_SECONDS must be between 5 and 300''
      else if \<not> (15 \<le> mo_task_storage_interval_seconds s \<and> mo_task_storage_interval_seconds s \<le> 3600)
      then Some ''RE3D_TASK_STORAGE_SAMPLE_INTERVAL_SECONDS must be between 15 and 3600''
      else (case mo_nvidia_smi_path s of None \<Rightarrow> None
        | Some p \<Rightarrow> if is_tool p then None else Some ''RE3D_NVIDIA_SMI_PATH must reference an existing file''))"

definition read_switch :: "environ \<Rightarrow> string \<Rightarrow> bool \<Rightarrow> string + bool" where
  "read_switch env name standard =
     (case env name of None \<Rightarrow> Inr standard
      | Some configured \<Rightarrow>
          let normalized = lower (strip configured)
          in if normalized \<in> {''true'', ''1'', ''yes''} then Inr True
             else if normalized \<in> {''false'', ''0'', ''no''} then Inr False
             else Inl (name @ '' must be true or false''))"

text \<open>\<open>real_path\<close> is \<open>Path(text).expanduser().resolve()\<close>.\<close>

definition monitor_settings_from_environment ::
  "(string \<Rightarrow> path) \<Rightarrow> (path \<Rightarrow> bool) \<Rightarrow> environ \<Rightarrow> string + monitor_settings" where
  "monitor_settings_from_environment real_path is_tool env =
     (let configured = strip (case env ''RE3D_NVIDIA_SMI_PATH'' of None \<Rightarrow> [] | Some s \<Rightarrow> s)
      in case read_switch env ''RE3D_RESOURCE_MONITOR_ENABLED'' True of Inl e \<Rightarrow> Inl e
       | Inr enabled \<Rightarrow>
      (case read_all [read_int env ''RE3D_RESOURCE_SAMPLE_INTERVAL_SECONDS'' 15,
           read_int env ''RE3D_TASK_STORAGE_SAMPLE_INTERVAL_SECONDS'' 60] of Inl e \<Rightarrow> Inl e
       | Inr ns \<Rightarrow>
           let s = \<lparr>mo_enabled = enabled, mo_interval_seconds = ns ! 0, mo_task_storage_interval_seconds = ns ! 1,
                 mo_nvidia_smi_path = (if configured = [] then None else Some (real_path configured))\<rparr>
           in case monitor_settings_error is_tool s of Some e \<Rightarrow> Inl e | None \<Rightarrow> Inr s))"

section \<open>Numbers of the host\<close>

text \<open>\<open>str.split()\<close>.\<close>

fun split_spaces :: "string \<Rightarrow> string \<Rightarrow> string list" where
  "split_spaces acc [] = (if acc = [] then [] else [rev acc])"
| "split_spaces acc (c # cs) =
     (if is_space c then (if acc = [] then split_spaces [] cs else rev acc # split_spaces [] cs)
      else split_spaces (c # acc) cs)"

text \<open>\<open>read_text(encoding="ascii")\<close> of a file that may be missing or unreadable.\<close>

definition read_ascii :: "string option \<Rightarrow> string option" where
  "read_ascii file_text = (case file_text of None \<Rightarrow> None | Some s \<Rightarrow> if list_all (\<lambda>c. code_point c < 128) s then Some s else None)"

fun parse_ints :: "string list \<Rightarrow> int list option" where
  "parse_ints [] = Some []"
| "parse_ints (s # ss) =
     (case py_int s of None \<Rightarrow> None
      | Some n \<Rightarrow> (case parse_ints ss of None \<Rightarrow> None | Some ns \<Rightarrow> Some (n # ns)))"

text \<open>\<open>_system_cpu_times\<close>: the idle and the total ticks of \<^verbatim>\<open>/proc/stat\<close>. \<open>None\<close> is any error of it.\<close>

definition system_cpu_times :: "string option \<Rightarrow> (int \<times> int) option" where
  "system_cpu_times proc_stat =
     (case map_option (split_lines []) (read_ascii proc_stat) of
        Some (first_line # _) \<Rightarrow>
          let fields = split_spaces [] first_line
          in if fields = [] \<or> hd fields \<noteq> ''cpu'' \<or> length fields < 5 then None
             else (case parse_ints (take 8 (drop 1 fields)) of None \<Rightarrow> None
               | Some values \<Rightarrow> Some (values ! 3 + (if 4 < length values then values ! 4 else 0), sum_list values))
      | _ \<Rightarrow> None)"

text \<open>\<open>_system_memory_bytes\<close>: used and total bytes; the last line of a key counts.\<close>

definition memory_line :: "string \<Rightarrow> string \<times> string" where
  "memory_line line = (let key = takeWhile (\<lambda>c. c \<noteq> CHR '':'') line in (key, drop (length key + 1) line))"

fun memory_values :: "(string \<rightharpoonup> int) \<Rightarrow> string list \<Rightarrow> (string \<rightharpoonup> int) option" where
  "memory_values values [] = Some values"
| "memory_values values (line # rest) =
     (case memory_line line of (key, raw) \<Rightarrow>
        if key \<notin> {''MemTotal'', ''MemAvailable''} then memory_values values rest
        else (case split_spaces [] raw of [] \<Rightarrow> None
          | word # _ \<Rightarrow> (case py_int word of None \<Rightarrow> None
              | Some n \<Rightarrow> memory_values (values(key \<mapsto> n * 1024)) rest)))"

definition system_memory_bytes :: "string option \<Rightarrow> (int \<times> int) option" where
  "system_memory_bytes meminfo =
     (case map_option (split_lines []) (read_ascii meminfo) of None \<Rightarrow> None
      | Some lines \<Rightarrow>
          (case memory_values Map.empty lines of None \<Rightarrow> None
           | Some values \<Rightarrow>
               (case (values ''MemTotal'', values ''MemAvailable'') of
                  (Some memory, Some available) \<Rightarrow> Some (memory - available, memory)
                | _ \<Rightarrow> None)))"

text \<open>\<open>round(x, 3)\<close> of a float, and \<open>_percentage\<close>: the quotient of two integers may be too large for a float.\<close>

definition round3 :: "rat \<Rightarrow> rat" where
  "round3 x = double_of (of_int (round_half_even (x * 1000)) / 1000)"

definition percentage :: "int \<Rightarrow> int \<Rightarrow> rat checked" where
  "percentage numerator denominator =
     (let q = of_int (numerator * 100) / of_int denominator
      in if denominator = 0 then Inl (Arithmetic_error ''division by zero'')
         else if too_large q then Inl (Arithmetic_error ''integer division result too large for a float'')
         else Inr (round3 (max 0 (min 100 (double_of q)))))"

definition optional_percentage :: "int option \<Rightarrow> int option \<Rightarrow> rat option checked" where
  "optional_percentage used capacity =
     (case (used, capacity) of
        (Some u, Some t) \<Rightarrow> if t \<le> 0 then Inr None else bind_checked (percentage u t) (\<lambda>p. Inr (Some p))
      | _ \<Rightarrow> Inr None)"

section \<open>The host\<close>

text \<open>What one reading finds; the usage of the disk is used, free and total.\<close>

record host_facts =
  hf_proc_stat :: "string option"
  hf_meminfo :: "string option"
  hf_disk_usage :: "(int \<times> int \<times> int) option"
  hf_cpu_count :: "int option"

definition json_int :: "int option \<Rightarrow> json" where
  "json_int v = (case v of None \<Rightarrow> JNull | Some n \<Rightarrow> JInt n)"

definition json_float :: "rat option \<Rightarrow> json" where
  "json_float v = (case v of None \<Rightarrow> JNull | Some a \<Rightarrow> JFloat (Finite a))"

text \<open>The load since the last reading, none when the clock of the system has not moved.\<close>

definition cpu_percent :: "(int \<times> int) option \<Rightarrow> int \<times> int \<Rightarrow> rat option checked" where
  "cpu_percent previous current =
     (case previous of None \<Rightarrow> Inr None
      | Some (previous_idle, previous_total) \<Rightarrow>
          let total_delta = snd current - previous_total; idle_delta = fst current - previous_idle
          in if 0 < total_delta then bind_checked (percentage (total_delta - idle_delta) total_delta) (\<lambda>p. Inr (Some p))
             else Inr None)"

definition host_json :: "rat option \<Rightarrow> int option \<Rightarrow> (int \<times> int) option \<Rightarrow> (int \<times> int \<times> int) option \<Rightarrow> (string \<times> json) list checked" where
  "host_json cpu count memory disk =
     bind_checked (optional_percentage (map_option fst memory) (map_option snd memory)) (\<lambda>memory_percent.
     bind_checked (optional_percentage (map_option fst disk) (map_option (snd \<circ> snd) disk)) (\<lambda>disk_percent.
     Inr [(''cpu'', JObject [(''utilization_percent'', json_float cpu), (''logical_count'', json_int count)]),
       (''memory'', JObject [(''used_bytes'', json_int (map_option fst memory)), (''total_bytes'', json_int (map_option snd memory)),
          (''utilization_percent'', json_float memory_percent)]),
       (''disk'', JObject [(''used_bytes'', json_int (map_option fst disk)), (''free_bytes'', json_int (map_option (fst \<circ> snd) disk)),
          (''total_bytes'', json_int (map_option (snd \<circ> snd) disk)), (''utilization_percent'', json_float disk_percent)])]))"

text \<open>\<open>HostResourceReader.read\<close>: its state are the ticks of the last reading.\<close>

definition read_host ::
  "host_facts \<Rightarrow> (int \<times> int) option \<Rightarrow> (adapter_error, (string \<times> json) list \<times> string list, (int \<times> int) option) outcome" where
  "read_host f previous =
     (let times = system_cpu_times (hf_proc_stat f)
      in case (case times of None \<Rightarrow> Inr None | Some t \<Rightarrow> cpu_percent previous t) of
           Inl e \<Rightarrow> (Inl e, previous)
         | Inr cpu \<Rightarrow>
             let memory = system_memory_bytes (hf_meminfo f);
                 errors = (if times = None then [''CPU_SAMPLE_FAILED''] else []) @
                   (if memory = None then [''MEMORY_SAMPLE_FAILED''] else []) @
                   (if hf_disk_usage f = None then [''DISK_SAMPLE_FAILED''] else [])
             in (bind_checked (host_json cpu (hf_cpu_count f) memory (hf_disk_usage f)) (\<lambda>host. Inr (host, errors)),
                 if times = None then previous else times))"

section \<open>CSV\<close>

text \<open>
  \<open>csv.reader\<close> with \<open>skipinitialspace\<close>, a line at a time. The lines are those of \<open>splitlines\<close>, so no character
  of them is a line break.
\<close>

datatype csv_state = Start_record | Start_field | In_field | In_quoted | Quote_in_quoted

record csv_parser =
  cp_state :: csv_state
  cp_fields :: "string list"
  cp_field :: string

definition new_parser :: csv_parser where
  "new_parser = \<lparr>cp_state = Start_record, cp_fields = [], cp_field = []\<rparr>"

definition save_field :: "csv_state \<Rightarrow> csv_parser \<Rightarrow> csv_parser" where
  "save_field st p = \<lparr>cp_state = st, cp_fields = cp_fields p @ [cp_field p], cp_field = []\<rparr>"

definition add_char :: "csv_state \<Rightarrow> char \<Rightarrow> csv_parser \<Rightarrow> csv_parser" where
  "add_char st c p = p\<lparr>cp_state := st, cp_field := cp_field p @ [c]\<rparr>"

definition csv_char :: "char \<Rightarrow> csv_parser \<Rightarrow> csv_parser" where
  "csv_char c p =
     (case cp_state p of
        In_field \<Rightarrow> if c = CHR '','' then save_field Start_field p else add_char In_field c p
      | In_quoted \<Rightarrow> if c = CHR 0x22 then p\<lparr>cp_state := Quote_in_quoted\<rparr> else add_char In_quoted c p
      | Quote_in_quoted \<Rightarrow>
          if c = CHR 0x22 then add_char In_quoted c p
          else if c = CHR '','' then save_field Start_field p
          else add_char In_field c p
      | _ \<Rightarrow>
          if c = CHR 0x22 then p\<lparr>cp_state := In_quoted\<rparr>
          else if c = CHR '' '' then p\<lparr>cp_state := Start_field\<rparr>
          else if c = CHR '','' then save_field Start_field p
          else add_char In_field c p)"

definition csv_end_of_line :: "csv_parser \<Rightarrow> csv_parser" where
  "csv_end_of_line p = (if cp_state p \<in> {Start_record, In_quoted} then p else save_field Start_record p)"

fun csv_rows :: "csv_parser \<Rightarrow> string list \<Rightarrow> string list list" where
  "csv_rows p [] = (if cp_state p = In_quoted then [cp_fields p @ [cp_field p]] else [])"
| "csv_rows p (line # lines) =
     (let q = csv_end_of_line (fold csv_char line p)
      in if cp_state q = Start_record then cp_fields q # csv_rows new_parser lines else csv_rows q lines)"

section \<open>The GPU\<close>

definition unavailable_gpu :: "string \<Rightarrow> string \<Rightarrow> json" where
  "unavailable_gpu error_code status = JObject
     [(''status'', JString status), (''index'', JNull), (''name'', JNull), (''utilization_percent'', JNull),
      (''memory_used_bytes'', JNull), (''memory_total_bytes'', JNull), (''temperature_c'', JNull),
      (''error_code'', JString error_code)]"

text \<open>\<open>GPU_RESOURCE_PATTERN\<close>: an index too long for \<open>int\<close> raises when the reader is made.\<close>

definition gpu_index :: "string \<Rightarrow> int option checked" where
  "gpu_index resource_key =
     (let digits = drop 4 resource_key
      in if take 4 resource_key = ''gpu:'' \<and> digits \<noteq> [] \<and> list_all is_digit digits
         then (case py_int digits of None \<Rightarrow> Inl (Value_error ''Exceeds the limit for integer string conversion'')
           | Some n \<Rightarrow> Inr (Some n))
         else Inr None)"

text \<open>\<open>None\<close> is a \<open>ValueError\<close>.\<close>

definition bounded_number :: "string \<Rightarrow> py_float \<Rightarrow> py_float \<Rightarrow> py_float option" where
  "bounded_number raw minimum maximum =
     (if raw \<in> {[], ''N/A'', ''[N/A]''} then None
      else (case py_float_of raw of None \<Rightarrow> None
        | Some x \<Rightarrow> if float_le minimum x \<and> float_le x maximum then Some x else None))"

text \<open>\<open>int(value * MEBIBYTE)\<close>: the integer of an infinity is an \<open>OverflowError\<close>, which is no \<open>ValueError\<close>.\<close>

definition mebibytes_to_bytes :: "string \<Rightarrow> int option checked" where
  "mebibytes_to_bytes raw =
     (case bounded_number raw (Finite 0) (Infinite False) of
        None \<Rightarrow> Inr None
      | Some (Finite a) \<Rightarrow>
          if too_large (a * 1048576) then Inl (Arithmetic_error ''cannot convert float infinity to integer'')
          else Inr (Some \<lfloor>double_of (a * 1048576)\<rfloor>)
      | Some _ \<Rightarrow> Inl (Arithmetic_error ''cannot convert float infinity to integer''))"

definition gpu_fields :: "int \<Rightarrow> string list \<Rightarrow> json option checked" where
  "gpu_fields index row =
     (let value = (\<lambda>i. strip (row ! i))
      in if length row \<noteq> 6 \<or> py_int (value 0) \<noteq> Some index \<or> value 1 = [] then Inr None
         else
           bind_checked (mebibytes_to_bytes (value 3)) (\<lambda>used.
           if used = None then Inr None
           else bind_checked (mebibytes_to_bytes (value 4)) (\<lambda>capacity.
             case (used, capacity, bounded_number (value 2) (Finite 0) (Finite 100),
                 bounded_number (value 5) (Finite (- 100)) (Finite 200)) of
               (Some u, Some t, Some utilization, Some temperature) \<Rightarrow>
                 Inr (if t < u then None else Some (JObject
                   [(''status'', JString ''available''), (''index'', JInt index), (''name'', JString (take 128 (value 1))),
                    (''utilization_percent'', JFloat utilization), (''memory_used_bytes'', JInt u),
                    (''memory_total_bytes'', JInt t), (''temperature_c'', JFloat temperature), (''error_code'', JNull)]))
             | _ \<Rightarrow> Inr None)))"

datatype smi_answer = Smi_timeout | Smi_failed | Smi_exit int string

text \<open>\<open>NvidiaSmiReader.read\<close>: the tool is \<open>None\<close> when it was not found.\<close>

definition read_gpu :: "int option \<Rightarrow> path option \<Rightarrow> smi_answer \<Rightarrow> (json \<times> string option) checked" where
  "read_gpu index tool answer =
     (let failed = (\<lambda>code status. Inr (unavailable_gpu code status, Some code))
      in case index of
           None \<Rightarrow> failed ''GPU_INDEX_UNMAPPED'' ''unavailable''
         | Some n \<Rightarrow>
             if tool = None then failed ''GPU_TOOL_NOT_FOUND'' ''unavailable''
             else (case answer of
                 Smi_timeout \<Rightarrow> failed ''GPU_QUERY_TIMEOUT'' ''error''
               | Smi_failed \<Rightarrow> failed ''GPU_QUERY_FAILED'' ''error''
               | Smi_exit code output \<Rightarrow>
                   if code \<noteq> 0 then failed ''GPU_QUERY_FAILED'' ''error''
                   else (case csv_rows new_parser (split_lines [] output) of
                       [row] \<Rightarrow> bind_checked (gpu_fields n row) (\<lambda>gpu.
                         case gpu of None \<Rightarrow> failed ''GPU_QUERY_INVALID'' ''error'' | Some v \<Rightarrow> Inr (v, None))
                     | _ \<Rightarrow> failed ''GPU_QUERY_INVALID'' ''error'')))"

section \<open>The directory of a task\<close>

text \<open>
  What a scan of a directory finds: links and junctions, directories (\<open>None\<close> when they cannot be read), files
  with their size (\<open>None\<close> when it cannot be read), other entries, and entries that cannot be inspected.
\<close>

datatype storage_entry = Link | Directory "(string \<times> storage_entry) list option" | Regular "int option" | Special | Unreadable

definition task_storage_categories :: "string list" where
  "task_storage_categories = [''input'', ''runtime'', ''output'', ''reports'', ''manifests'']"

definition storage_summary_parts :: "string list" where
  "storage_summary_parts = [''reports'', ''storage-usage.json'']"

record storage_counts =
  sc_category :: "string \<Rightarrow> int"
  sc_branch :: "string \<Rightarrow> int"
  sc_other :: int
  sc_errors :: "string set"

definition count_file :: "string list \<Rightarrow> string list \<Rightarrow> int \<Rightarrow> storage_counts \<Rightarrow> storage_counts" where
  "count_file branches parts n c =
     (let top = hd parts;
          c1 = (if top \<in> set task_storage_categories then c\<lparr>sc_category := (sc_category c)(top := sc_category c top + n)\<rparr>
                else c\<lparr>sc_other := sc_other c + n\<rparr>)
      in if top = ''output'' \<and> 2 \<le> length parts \<and> parts ! 1 \<in> set branches
         then c1\<lparr>sc_branch := (sc_branch c1)(parts ! 1 := sc_branch c1 (parts ! 1) + n)\<rparr> else c1)"

definition storage_error :: "string \<Rightarrow> storage_counts \<Rightarrow> storage_counts" where
  "storage_error code c = c\<lparr>sc_errors := insert code (sc_errors c)\<rparr>"

type_synonym pending = "(string \<times> storage_entry) list option \<times> string list"

text \<open>One entry of a directory: what is pushed on the stack, whose top is its head, and the counts.\<close>

definition scan_entry ::
  "string list \<Rightarrow> string list \<Rightarrow> string \<times> storage_entry \<Rightarrow> pending list \<times> storage_counts \<Rightarrow> pending list \<times> storage_counts" where
  "scan_entry branches relative named = (\<lambda>(stack, c).
     case named of (name, e) \<Rightarrow>
       let parts = relative @ [name]
       in case e of
            Link \<Rightarrow> (stack, storage_error ''TASK_STORAGE_LINK_SKIPPED'' c)
          | Directory content \<Rightarrow> ((content, parts) # stack, c)
          | Special \<Rightarrow> (stack, storage_error ''TASK_STORAGE_SPECIAL_FILE_SKIPPED'' c)
          | Unreadable \<Rightarrow> (stack, storage_error ''TASK_STORAGE_SAMPLE_FAILED'' c)
          | Regular size_bytes \<Rightarrow>
              if parts = storage_summary_parts then (stack, c)
              else (case size_bytes of
                  None \<Rightarrow> (stack, storage_error ''TASK_STORAGE_SAMPLE_FAILED'' c)
                | Some n \<Rightarrow> (stack, count_file branches parts n c)))"

fun entry_weight :: "storage_entry \<Rightarrow> nat" where
  "entry_weight (Directory (Some es)) = Suc (sum_list (map (\<lambda>(n, e). entry_weight e) es))"
| "entry_weight (Directory None) = 1"
| "entry_weight _ = 0"

definition pending_weight :: "pending \<Rightarrow> nat" where
  "pending_weight p = entry_weight (Directory (fst p))"

lemma scan_weight:
  "sum_list (map pending_weight (fst (fold (scan_entry branches relative) es (stack, c)))) =
     sum_list (map (\<lambda>(n, e). entry_weight e) es) + sum_list (map pending_weight stack)"
proof (induction es arbitrary: stack c)
  case (Cons x es)
  obtain name e where x: "x = (name, e)" by (cases x)
  obtain stack1 c1 where first: "scan_entry branches relative x (stack, c) = (stack1, c1)" by fastforce
  then have "sum_list (map pending_weight stack1) = entry_weight e + sum_list (map pending_weight stack)"
    by (auto simp: scan_entry_def x Let_def pending_weight_def split: storage_entry.splits option.splits if_splits)
  with Cons show ?case by (simp add: first [unfolded x] x)
qed simp

text \<open>The loop over the stack. A directory below the root that cannot be read is skipped.\<close>

function walk_storage :: "string list \<Rightarrow> pending list \<Rightarrow> storage_counts \<Rightarrow> storage_counts" where
  "walk_storage branches [] c = c"
| "walk_storage branches ((None, _) # stack) c = walk_storage branches stack (storage_error ''TASK_STORAGE_SAMPLE_FAILED'' c)"
| "walk_storage branches ((Some es, relative) # stack) c =
     (case fold (scan_entry branches relative) es (stack, c) of (stack1, c1) \<Rightarrow> walk_storage branches stack1 c1)"
  by pat_completeness auto
termination
proof (relation "measure (\<lambda>(branches, stack, c). sum_list (map pending_weight stack))", goal_cases)
  case (3 branches es relative stack c stack1 c1)
  then have "stack1 = fst (fold (scan_entry branches relative) es (stack, c))" by (metis fst_conv)
  with scan_weight [of branches relative es stack c] show ?case by (simp add: pending_weight_def)
qed (auto simp: pending_weight_def)

definition no_counts :: storage_counts where
  "no_counts = \<lparr>sc_category = \<lambda>_. 0, sc_branch = \<lambda>_. 0, sc_other = 0, sc_errors = {}\<rparr>"

record task_storage =
  ts_total_bytes :: int
  ts_category_bytes :: "string \<Rightarrow> int"
  ts_other_bytes :: int
  ts_branches :: "(string \<times> int) list"

text \<open>\<open>TaskStorageReader.read\<close>: a root that cannot be read raises.\<close>

definition read_storage :: "string list \<Rightarrow> (string \<times> storage_entry) list option \<Rightarrow> (task_storage \<times> string list) option" where
  "read_storage branches content =
     (case content of None \<Rightarrow> None
      | Some es \<Rightarrow>
          let c = walk_storage branches [(Some es, [])] no_counts
          in Some (\<lparr>ts_total_bytes = sum_list (map (sc_category c) task_storage_categories) + sc_other c,
                 ts_category_bytes = sc_category c, ts_other_bytes = sc_other c,
                 ts_branches = map (\<lambda>b. (b, sc_branch c b)) branches\<rparr>,
               sorted_list_of_set (sc_errors c)))"

definition branches_json :: "(string \<times> int) list \<Rightarrow> json" where
  "branches_json bs = JList (map (\<lambda>(b, n). JObject [(''name'', JString b), (''used_bytes'', JInt n)]) bs)"

definition storage_json :: "task_storage \<Rightarrow> json" where
  "storage_json s = JObject
     ((''total_bytes'', JInt (ts_total_bytes s)) #
      map (\<lambda>k. (k @ ''_bytes'', JInt (ts_category_bytes s k))) task_storage_categories @
      [(''other_bytes'', JInt (ts_other_bytes s)), (''branches'', branches_json (ts_branches s))])"

end
