(* ===== verification/Resource_Monitor.thy ===== *)
theory Resource_Monitor
  imports Resource_Readers
begin

text \<open>
  The sampler and the monitor of \<^verbatim>\<open>backend/monitoring/resources.py\<close>. The sampler keeps the peaks of the
  storage it has observed; the monitor appends a sample per interval and writes a summary when it ends. No
  failure of a sample ends the monitor.
\<close>

section \<open>The sampler\<close>

record sampler =
  sa_job_id :: string
  sa_attempt :: int
  sa_worker_id :: string
  sa_branches :: "string list"
  sa_gpu_index :: "int option"
  sa_tool :: "path option"
  sa_previous_cpu :: "(int \<times> int) option"
  sa_peak_total :: int
  sa_peak_runtime :: int
  sa_peak_output :: int
  sa_peak_branch :: "string \<Rightarrow> int"
  sa_observations :: nat
  sa_errors :: "string set"

text \<open>\<open>__init__\<close>: \<open>found\<close> is the tool that was configured or discovered.\<close>

definition new_sampler ::
  "file_system \<Rightarrow> path \<Rightarrow> string \<Rightarrow> int \<Rightarrow> string \<Rightarrow> string \<Rightarrow> path option \<Rightarrow> string list \<Rightarrow> sampler checked" where
  "new_sampler fs data_root job_id attempt worker_id resource_key found branches =
     (case parse_uuid job_id of
        None \<Rightarrow> Inl (Value_error ''badly formed hexadecimal UUID string'')
      | Some k \<Rightarrow>
          bind_checked (require (distinct branches \<and> branches \<noteq> [])
            (Value_error ''resource sample branches must be unique and non-empty'')) (\<lambda>_.
          bind_checked (gpu_index resource_key) (\<lambda>index.
          bind_checked (from_data_root fs data_root (uuid_str k)) (\<lambda>_.
          Inr \<lparr>sa_job_id = uuid_str k, sa_attempt = attempt, sa_worker_id = worker_id, sa_branches = branches,
            sa_gpu_index = index, sa_tool = found, sa_previous_cpu = None, sa_peak_total = 0, sa_peak_runtime = 0,
            sa_peak_output = 0, sa_peak_branch = (\<lambda>_. 0), sa_observations = 0, sa_errors = {}\<rparr>))))"

text \<open>\<open>_read_task_storage\<close>, given what a scan of the task directory finds.\<close>

definition raise_branch_peak :: "string \<times> int \<Rightarrow> sampler \<Rightarrow> sampler" where
  "raise_branch_peak = (\<lambda>(name, n) s. s\<lparr>sa_peak_branch := (sa_peak_branch s)(name := max (sa_peak_branch s name) n)\<rparr>)"

definition read_task_storage ::
  "(string \<times> storage_entry) list option \<Rightarrow> sampler \<Rightarrow> (task_storage option \<times> string list) \<times> sampler" where
  "read_task_storage content s =
     (case read_storage (sa_branches s) content of
        None \<Rightarrow> ((None, [''TASK_STORAGE_SAMPLE_FAILED'']),
          s\<lparr>sa_errors := insert ''TASK_STORAGE_SAMPLE_FAILED'' (sa_errors s)\<rparr>)
      | Some (storage, errors) \<Rightarrow>
          let s1 = s\<lparr>sa_observations := sa_observations s + 1, sa_errors := sa_errors s \<union> set errors,
                sa_peak_total := max (sa_peak_total s) (ts_total_bytes storage),
                sa_peak_runtime := max (sa_peak_runtime s) (ts_category_bytes storage ''runtime''),
                sa_peak_output := max (sa_peak_output s) (ts_category_bytes storage ''output'')\<rparr>
          in ((Some storage, errors), fold raise_branch_peak (ts_branches storage) s1))"

record sample_facts =
  sf_host :: host_facts
  sf_smi :: smi_answer
  sf_directory :: "(string \<times> storage_entry) list option"
  sf_sample_id :: uuid
  sf_sampled_at :: string

definition sample_status :: "string list \<Rightarrow> (string \<times> json) list \<Rightarrow> string" where
  "sample_status errors host =
     (if errors \<noteq> [] then ''partial''
      else if map_of host ''cpu'' = None \<or> json_field ''utilization_percent'' (the (map_of host ''cpu'')) = Some JNull
      then ''warming_up'' else ''complete'')"

definition take_sample ::
  "codecs \<Rightarrow> bool \<Rightarrow> sample_facts \<Rightarrow> sampler \<Rightarrow> (adapter_error, json, sampler) outcome" where
  "take_sample cs include_task_storage f s =
     (case read_host (sf_host f) (sa_previous_cpu s) of
        (r, previous) \<Rightarrow>
          followed_by (r, s\<lparr>sa_previous_cpu := previous\<rparr>) (\<lambda>(host, errors) s.
          followed_by (read_gpu (sa_gpu_index s) (sa_tool s) (sf_smi f), s) (\<lambda>(gpu, gpu_error) s.
          let (read, s1) = (if include_task_storage then read_task_storage (sf_directory f) s else ((None, []), s));
              unique_errors = sorted_list_of_set (set (errors @ (case gpu_error of None \<Rightarrow> [] | Some e \<Rightarrow> [e]) @ snd read));
              sample = JObject
                ([(''contract_version'', JString ''1.0''), (''sample_id'', JString (uuid_str (sf_sample_id f))),
                  (''job_id'', JString (sa_job_id s)), (''attempt'', JInt (sa_attempt s)),
                  (''sampled_at'', JString (sf_sampled_at f)), (''worker_id'', JString (sa_worker_id s)),
                  (''status'', JString (sample_status unique_errors host))] @ host @
                 [(''gpu'', gpu), (''errors'', JList (map JString unique_errors))] @
                 (case fst read of None \<Rightarrow> [] | Some storage \<Rightarrow> [(''task_storage'', storage_json storage)]))
          in (bind_checked (validate_contract cs ''resource-sample'' sample) (\<lambda>_. Inr sample), s1))))"

definition summary_json ::
  "sampler \<Rightarrow> task_storage option \<Rightarrow> string \<Rightarrow> nat \<Rightarrow> int \<Rightarrow> int \<Rightarrow> json" where
  "summary_json s final measured_at samples interval storage_interval = JObject
     [(''contract_version'', JString ''1.0''), (''job_id'', JString (sa_job_id s)), (''attempt'', JInt (sa_attempt s)),
      (''measured_at'', JString measured_at),
      (''status'', JString (if final = None then ''unavailable'' else if sa_errors s \<noteq> {} then ''partial'' else ''complete'')),
      (''resource_sample_interval_seconds'', JInt interval), (''task_storage_interval_seconds'', JInt storage_interval),
      (''resource_sample_count'', JInt (int samples)), (''storage_observation_count'', JInt (int (sa_observations s))),
      (''final'', case final of None \<Rightarrow> JNull | Some storage \<Rightarrow> storage_json storage),
      (''peaks'', JObject
        [(''total_bytes'', JInt (sa_peak_total s)), (''runtime_bytes'', JInt (sa_peak_runtime s)),
         (''output_bytes'', JInt (sa_peak_output s)),
         (''branches'', branches_json (map (\<lambda>b. (b, sa_peak_branch s b)) (sa_branches s)))]),
      (''errors'', JList (map JString (sorted_list_of_set (sa_errors s)))),
      (''limitations'', JList [JString ''PERIODIC_OBSERVATION_MAY_MISS_SHORT_LIVED_FILES'',
         JString ''SUMMARY_FILE_BYTES_ARE_EXCLUDED''])]"

definition storage_summary ::
  "codecs \<Rightarrow> (string \<times> storage_entry) list option \<Rightarrow> string \<Rightarrow> nat \<Rightarrow> int \<Rightarrow> int \<Rightarrow> sampler \<Rightarrow> (adapter_error, json, sampler) outcome" where
  "storage_summary cs content measured_at samples interval storage_interval s =
     (case read_task_storage content s of
        ((final, errors), s1) \<Rightarrow>
          let s2 = s1\<lparr>sa_errors := sa_errors s1 \<union> set errors\<rparr>;
              summary = summary_json s2 final measured_at samples interval storage_interval
          in (bind_checked (validate_contract cs ''storage-usage'' summary) (\<lambda>_. Inr summary), s2))"

section \<open>The monitor\<close>

text \<open>
  One line is one append: it may fail before a byte is written, after some of them, or in the \<open>fsync\<close> at
  the end. \<open>line_of\<close> is the compact encoding.
\<close>

datatype append_result = Append_done | Append_unsynced | Append_partial nat | Append_failed

record monitor_facts =
  mf_sample :: sample_facts
  mf_now :: rat
  mf_append :: append_result

record monitor =
  mn_sampler :: sampler
  mn_samples :: string
  mn_count :: nat
  mn_last_storage :: "rat option"
  mn_summary :: "string option"

definition new_monitor :: "sampler \<Rightarrow> monitor" where
  "new_monitor s = \<lparr>mn_sampler = s, mn_samples = [], mn_count = 0, mn_last_storage = None, mn_summary = None\<rparr>"

definition line_written :: "append_result \<Rightarrow> string \<Rightarrow> string" where
  "line_written r line = (case r of Append_failed \<Rightarrow> [] | Append_partial n \<Rightarrow> take n (butlast line) | _ \<Rightarrow> line)"

definition storage_due :: "monitor_settings \<Rightarrow> bool \<Rightarrow> rat \<Rightarrow> monitor \<Rightarrow> bool" where
  "storage_due settings force now m \<longleftrightarrow>
     force \<or> (case mn_last_storage m of None \<Rightarrow> True
       | Some t \<Rightarrow> of_int (mo_task_storage_interval_seconds settings) \<le> double_of (now - t))"

text \<open>\<open>_write_sample\<close>: every exception is logged and ends the step.\<close>

definition write_sample ::
  "codecs \<Rightarrow> (json \<Rightarrow> string) \<Rightarrow> monitor_settings \<Rightarrow> bool \<Rightarrow> monitor_facts \<Rightarrow> monitor \<Rightarrow> monitor" where
  "write_sample cs line_of settings force f m =
     (let include_task_storage = storage_due settings force (mf_now f) m
      in case take_sample cs include_task_storage (mf_sample f) (mn_sampler m) of
           (Inl _, s) \<Rightarrow> m\<lparr>mn_sampler := s\<rparr>
         | (Inr sample, s) \<Rightarrow>
             let line = line_of sample @ [newline];
                 m1 = m\<lparr>mn_sampler := s, mn_samples := mn_samples m @ line_written (mf_append f) line\<rparr>
             in if mf_append f \<noteq> Append_done then m1
                else m1\<lparr>mn_count := mn_count m + 1,
                  mn_last_storage := if include_task_storage then Some (mf_now f) else mn_last_storage m\<rparr>)"

text \<open>\<open>_write_storage_summary\<close>: \<open>failed\<close> is an error of the write.\<close>

definition write_storage_summary ::
  "codecs \<Rightarrow> monitor_settings \<Rightarrow> bool \<Rightarrow> (string \<times> storage_entry) list option \<Rightarrow> string \<Rightarrow> bool \<Rightarrow> monitor \<Rightarrow> monitor" where
  "write_storage_summary cs settings wanted content measured_at failed m =
     (if \<not> wanted then m
      else (case storage_summary cs content measured_at (mn_count m) (mo_interval_seconds settings)
            (mo_task_storage_interval_seconds settings) (mn_sampler m) of
          (Inl _, s) \<Rightarrow> m\<lparr>mn_sampler := s\<rparr>
        | (Inr summary, s) \<Rightarrow>
            m\<lparr>mn_sampler := s, mn_summary := if failed then mn_summary m else Some (json_text cs summary)\<rparr>))"

record monitor_end =
  me_alive :: bool
  me_sample :: monitor_facts
  me_directory :: "(string \<times> storage_entry) list option"
  me_measured_at :: string
  me_failed :: bool
  me_wanted :: bool

text \<open>\<open>__enter__\<close>, \<open>_run\<close> until it is told to stop, and \<open>__exit__\<close>, which gives up on a thread that goes on.\<close>

definition run_monitor ::
  "codecs \<Rightarrow> (json \<Rightarrow> string) \<Rightarrow> monitor_settings \<Rightarrow> monitor_facts list \<Rightarrow> monitor_end \<Rightarrow> sampler \<Rightarrow> monitor" where
  "run_monitor cs line_of settings samples exit s =
     (if \<not> mo_enabled settings then new_monitor s
      else
        let m = fold (write_sample cs line_of settings False) samples (new_monitor s)
        in if me_alive exit then m
           else write_storage_summary cs settings (me_wanted exit) (me_directory exit) (me_measured_at exit) (me_failed exit)
             (write_sample cs line_of settings True (me_sample exit) m))"

end
