(* ===== verification/Storage_Calibration.thy ===== *)
theory Storage_Calibration
  imports Json_Values
begin

text \<open>
  The capacity report of \<^verbatim>\<open>backend/monitoring/calibration.py\<close>: it collects the storage summaries of the
  finished tasks, refuses those that contradict themselves, and recommends a reservation. Its decimals have
  the 28 digits of Python's default context. Directories that cannot be read are left out.
\<close>

section \<open>Decimals\<close>

text \<open>The decimal exponent of a positive rational, from the number of digits of its two parts.\<close>

definition ilog10 :: "rat \<Rightarrow> int" where
  "ilog10 x =
     (let (p, q) = quotient_of x; k = int (length (decimal (nat p))) - int (length (decimal (nat q)))
      in if (10::rat) powi k \<le> x then k else k - 1)"

text \<open>The result of an operation: 28 significant digits, round half to even.\<close>

definition dec28 :: "rat \<Rightarrow> rat" where
  "dec28 x =
     (if x = 0 then 0
      else let unit = 10 powi (ilog10 \<bar>x\<bar> - 27) in of_int (round_half_even (x / unit)) * unit)"

text \<open>
  \<open>Decimal(text)\<close>: a number, one of the special values, which are not finite, or \<open>InvalidOperation\<close>.
  Underscores are dropped wherever they are.
\<close>

datatype decimal_value = Dec rat | Dec_special

definition special_decimal :: "string \<Rightarrow> bool" where
  "special_decimal s \<longleftrightarrow>
     (let t = lower s
      in t \<in> {''inf'', ''infinity''} \<or> take 3 t = ''nan'' \<and> list_all is_digit (drop 3 t) \<or>
         take 4 t = ''snan'' \<and> list_all is_digit (drop 4 t))"

definition unsigned_decimal :: "string \<Rightarrow> decimal_value option" where
  "unsigned_decimal s =
     (if special_decimal s then Some Dec_special
      else
        let significand = takeWhile (\<lambda>c. c \<notin> {CHR ''e'', CHR ''E''}) s
        in (case (mantissa significand, exponent_part (drop (length significand) s)) of
              (Some m, Some e) \<Rightarrow> Some (Dec (m * power_of_ten e))
            | _ \<Rightarrow> None))"

definition decimal_of :: "string \<Rightarrow> decimal_value option" where
  "decimal_of s =
     (case filter (\<lambda>c. c \<noteq> CHR ''_'') (strip s) of [] \<Rightarrow> None
      | c # cs \<Rightarrow>
          if c = CHR ''-'' then map_option (\<lambda>v. case v of Dec a \<Rightarrow> Dec (- a) | Dec_special \<Rightarrow> Dec_special) (unsigned_decimal cs)
          else if c = CHR ''+'' then unsigned_decimal cs else unsigned_decimal (c # cs))"

section \<open>Settings\<close>

record calibration_settings =
  cb_minimum_samples :: int
  cb_safety_factor :: rat
  cb_rounding_bytes :: int

definition calibration_settings_of :: "int \<Rightarrow> decimal_value \<Rightarrow> int \<Rightarrow> string + calibration_settings" where
  "calibration_settings_of minimum_samples factor rounding_bytes =
     (if \<not> (1 \<le> minimum_samples \<and> minimum_samples \<le> 10000) then Inl ''minimum_samples must be between 1 and 10000''
      else case factor of
          Dec_special \<Rightarrow> Inl ''safety_factor must be between 1 and 5''
        | Dec a \<Rightarrow>
            if \<not> (1 \<le> a \<and> a \<le> 5) then Inl ''safety_factor must be between 1 and 5''
            else if \<not> (1 \<le> rounding_bytes \<and> rounding_bytes \<le> 1024 ^ 4)
            then Inl ''rounding_bytes must be between 1 byte and 1 TiB''
            else Inr \<lparr>cb_minimum_samples = minimum_samples, cb_safety_factor = a, cb_rounding_bytes = rounding_bytes\<rparr>)"

definition calibration_settings_from_values ::
  "int option \<Rightarrow> string option \<Rightarrow> int option \<Rightarrow> string + calibration_settings" where
  "calibration_settings_from_values minimum_samples safety_factor rounding_mib =
     (case (case safety_factor of None \<Rightarrow> Some (Dec (5 / 4)) | Some s \<Rightarrow> decimal_of s) of
        None \<Rightarrow> Inl ''safety_factor must be a decimal number''
      | Some factor \<Rightarrow> calibration_settings_of (case minimum_samples of None \<Rightarrow> 5 | Some n \<Rightarrow> n) factor
          (case rounding_mib of None \<Rightarrow> 256 * 1048576 | Some n \<Rightarrow> n * 1048576))"

section \<open>Statistics\<close>

definition nearest_rank :: "int list \<Rightarrow> rat \<Rightarrow> int" where
  "nearest_rank ordered percentile =
     (let rank = \<lceil>dec28 (of_int (int (length ordered)) * percentile)\<rceil> in ordered ! nat (max rank 1 - 1))"

record byte_statistics =
  by_p50 :: int
  by_p95 :: int
  by_maximum :: int

definition statistics :: "int list \<Rightarrow> byte_statistics option" where
  "statistics values =
     (if values = [] then None
      else let ordered = sort values
        in Some \<lparr>by_p50 = nearest_rank ordered (1 / 2), by_p95 = nearest_rank ordered (95 / 100), by_maximum = last ordered\<rparr>)"

definition statistics_fields :: "byte_statistics option \<Rightarrow> (string \<times> json) list" where
  "statistics_fields s =
     (case s of None \<Rightarrow> []
      | Some b \<Rightarrow> [(''p50_bytes'', JInt (by_p50 b)), (''p95_bytes'', JInt (by_p95 b)), (''maximum_bytes'', JInt (by_maximum b))])"

text \<open>A percentage with two digits, half up; its float is the nearest one.\<close>

definition share_percent :: "int \<Rightarrow> int \<Rightarrow> rat" where
  "share_percent part capacity =
     (if capacity = 0 then 0
      else let value = dec28 (dec28 (of_int part * 100) / of_int capacity)
        in double_of (of_int (if 0 \<le> value then \<lfloor>value * 100 + 1 / 2\<rfloor> else \<lceil>value * 100 - 1 / 2\<rceil>) / 100))"

definition round_up :: "int \<Rightarrow> int \<Rightarrow> int" where
  "round_up value quantum = ((value + quantum - 1) div quantum) * quantum"

section \<open>Which summaries count\<close>

definition expected_branches :: "string list" where
  "expected_branches = [''A-v4'', ''B-v2'', ''C'']"

definition final_tiers :: "(string \<times> string) list" where
  "final_tiers =
     [(''input'', ''input_bytes''), (''runtime'', ''runtime_bytes''), (''output'', ''output_bytes''),
      (''reports'', ''reports_bytes''), (''manifests'', ''manifests_bytes''), (''other'', ''other_bytes'')]"

definition int_item :: "string \<Rightarrow> json \<Rightarrow> int checked" where
  "int_item k v = bind_checked (item k v) int_of"

definition named_bytes :: "json \<Rightarrow> (string \<times> int) checked" where
  "named_bytes v = bind_checked (bind_checked (item ''name'' v) text_of) (\<lambda>name.
     bind_checked (int_item ''used_bytes'' v) (\<lambda>n. Inr (name, n)))"

definition branch_list :: "json \<Rightarrow> (string \<times> int) list checked" where
  "branch_list v = bind_checked (bind_checked (item ''branches'' v) elements_of) (collect_checked named_bytes)"

text \<open>A dictionary built from a list: the last value of a name counts.\<close>

definition last_of :: "(string \<times> int) list \<Rightarrow> string \<Rightarrow> int" where
  "last_of bs name = the (map_of (rev bs) name)"

text \<open>The totals of a summary that the checks compare: categories, final state and peaks.\<close>

record summary_view =
  vw_tiers :: "int list"
  vw_total :: int
  vw_runtime :: int
  vw_output :: int
  vw_branches :: "(string \<times> int) list"
  vw_peak_total :: int
  vw_peak_runtime :: int
  vw_peak_output :: int
  vw_peak_branches :: "(string \<times> int) list"

definition view_of :: "json \<Rightarrow> summary_view checked" where
  "view_of summary =
     bind_checked (item ''final'' summary) (\<lambda>final. bind_checked (item ''peaks'' summary) (\<lambda>peaks.
     bind_checked (collect_checked (\<lambda>(_, field). int_item field final) final_tiers) (\<lambda>tiers.
     bind_checked (branch_list final) (\<lambda>final_branches. bind_checked (branch_list peaks) (\<lambda>peak_branches.
     bind_checked (int_item ''total_bytes'' final) (\<lambda>whole. bind_checked (int_item ''runtime_bytes'' final) (\<lambda>runtime.
     bind_checked (int_item ''output_bytes'' final) (\<lambda>output. bind_checked (int_item ''total_bytes'' peaks) (\<lambda>peak_total.
     bind_checked (int_item ''runtime_bytes'' peaks) (\<lambda>peak_runtime. bind_checked (int_item ''output_bytes'' peaks) (\<lambda>peak_output.
     Inr \<lparr>vw_tiers = tiers, vw_total = whole, vw_runtime = runtime, vw_output = output, vw_branches = final_branches,
       vw_peak_total = peak_total, vw_peak_runtime = peak_runtime, vw_peak_output = peak_output,
       vw_peak_branches = peak_branches\<rparr>)))))))))))"

definition consistent_view :: "summary_view \<Rightarrow> bool" where
  "consistent_view v \<longleftrightarrow>
     sum_list (vw_tiers v) = vw_total v \<and> length (vw_branches v) = length expected_branches \<and>
     length (vw_peak_branches v) = length expected_branches \<and>
     fst ` set (vw_branches v) = set expected_branches \<and> fst ` set (vw_peak_branches v) = set expected_branches \<and>
     sum_list (map (last_of (vw_branches v)) (remdups (map fst (vw_branches v)))) \<le> vw_output v \<and>
     vw_total v \<le> vw_peak_total v \<and> vw_peak_runtime v \<le> vw_peak_total v \<and> vw_peak_output v \<le> vw_peak_total v \<and>
     vw_runtime v \<le> vw_peak_runtime v \<and> vw_output v \<le> vw_peak_output v \<and>
     (\<forall>b \<in> set expected_branches. last_of (vw_branches v) b \<le> last_of (vw_peak_branches v) b \<and>
        last_of (vw_peak_branches v) b \<le> vw_peak_total v)"

definition is_empty_list :: "json \<Rightarrow> bool" where
  "is_empty_list v \<longleftrightarrow> v = JList []"

text \<open>\<open>_is_semantically_valid\<close> of a summary that satisfies its contract, whose errors are a list.\<close>

definition is_semantically_valid :: "string \<Rightarrow> json \<Rightarrow> bool checked" where
  "is_semantically_valid expected_job_id summary =
     bind_checked (item ''final'' summary) (\<lambda>final.
     bind_checked (item_differs ''job_id'' (JString expected_job_id) summary) (\<lambda>other.
     if other \<or> final = JNull then Inr False
     else
       bind_checked (item ''errors'' summary) (\<lambda>errors.
       if \<not> is_empty_list errors then Inr False
       else
         bind_checked (int_item ''storage_observation_count'' summary) (\<lambda>count.
         if count < 1 then Inr False else bind_checked (view_of summary) (\<lambda>v. Inr (consistent_view v))))))"

section \<open>Collecting the summaries\<close>

record selection =
  sl_discovered :: nat
  sl_excluded :: nat
  sl_invalid :: nat

definition canonical_uuid_name :: "string \<Rightarrow> bool" where
  "canonical_uuid_name s \<longleftrightarrow> (case parse_uuid s of None \<Rightarrow> False | Some k \<Rightarrow> uuid_str k = s)"

definition found :: "selection \<Rightarrow> selection" where
  "found s = s\<lparr>sl_discovered := sl_discovered s + 1\<rparr>"

definition invalid :: "selection \<Rightarrow> selection" where
  "invalid s = s\<lparr>sl_invalid := sl_invalid s + 1\<rparr>"

text \<open>One entry of the jobs directory.\<close>

definition load_summary ::
  "codecs \<Rightarrow> file_system \<Rightarrow> path \<Rightarrow> string \<Rightarrow> json list \<times> selection \<Rightarrow> (json list \<times> selection) checked" where
  "load_summary cs fs jobs_root name = (\<lambda>(summaries, sel).
     let task_root = jobs_root @ [name]; reports_root = task_root @ [''reports''];
         summary_path = reports_root @ [''storage-usage.json'']
     in if \<not> canonical_uuid_name name \<or> fs_link fs task_root \<or> \<not> is_dir fs task_root \<or>
           fs_link fs reports_root \<or> \<not> is_dir fs reports_root then Inr (summaries, sel)
        else if fs_link fs summary_path then Inr (summaries, invalid (found sel))
        else if \<not> path_exists fs summary_path then Inr (summaries, sel)
        else if \<not> is_file fs summary_path then Inr (summaries, invalid (found sel))
        else (case load_json_contract cs fs summary_path ''storage-usage'' of
            Inl _ \<Rightarrow> Inr (summaries, invalid (found sel))
          | Inr summary \<Rightarrow>
              bind_checked (item_differs ''status'' (JString ''complete'') summary) (\<lambda>partial.
              if partial then Inr (summaries, (found sel)\<lparr>sl_excluded := sl_excluded sel + 1\<rparr>)
              else bind_checked (is_semantically_valid name summary) (\<lambda>valid.
                Inr (if valid then (summaries @ [summary], found sel) else (summaries, invalid (found sel)))))))"

fun load_summaries ::
  "codecs \<Rightarrow> file_system \<Rightarrow> path \<Rightarrow> string list \<Rightarrow> json list \<times> selection \<Rightarrow> (json list \<times> selection) checked" where
  "load_summaries cs fs jobs_root [] acc = Inr acc"
| "load_summaries cs fs jobs_root (name # names) acc =
     bind_checked (load_summary cs fs jobs_root name acc) (load_summaries cs fs jobs_root names)"

definition load_complete_summaries :: "codecs \<Rightarrow> file_system \<Rightarrow> path \<Rightarrow> (json list \<times> selection) checked" where
  "load_complete_summaries cs fs data_root =
     (let jobs_root = data_root @ [''jobs'']; none = ([], \<lparr>sl_discovered = 0, sl_excluded = 0, sl_invalid = 0\<rparr>)
      in if \<not> path_exists fs jobs_root then Inr none
         else bind_checked (require (\<not> fs_link fs jobs_root \<and> is_dir fs jobs_root)
             (Value_error ''jobs directory must be a real directory'')) (\<lambda>_.
           load_summaries cs fs jobs_root (sort (fs_names fs jobs_root)) none))"

section \<open>The report\<close>

definition scaled_bytes :: "rat \<Rightarrow> int \<Rightarrow> int" where
  "scaled_bytes factor observed_maximum = \<lceil>dec28 (of_int observed_maximum * factor)\<rceil>"

definition recommendation :: "calibration_settings \<Rightarrow> int \<Rightarrow> json" where
  "recommendation s observed_maximum =
     (let scaled = scaled_bytes (cb_safety_factor s) observed_maximum
      in JObject [(''basis'', JString ''OBSERVED_MAXIMUM_PEAK''), (''observed_maximum_bytes'', JInt observed_maximum),
        (''scaled_bytes'', JInt scaled), (''recommended_reservation_bytes'', JInt (round_up scaled (cb_rounding_bytes s)))])"

definition final_field :: "string \<Rightarrow> json \<Rightarrow> int checked" where
  "final_field field summary = bind_checked (item ''final'' summary) (int_item field)"

definition tier_json :: "json list \<Rightarrow> int \<Rightarrow> string \<times> string \<Rightarrow> json checked" where
  "tier_json summaries final_total named =
     (case named of (name, field) \<Rightarrow>
        bind_checked (collect_checked (final_field field) summaries) (\<lambda>values.
        Inr (JObject ((''name'', JString name) # statistics_fields (statistics values) @
          [(''aggregate_share_percent'', JFloat (Finite (share_percent (sum_list values) final_total)))]))))"

definition branch_bytes :: "string \<Rightarrow> json \<Rightarrow> int checked" where
  "branch_bytes name summary =
     bind_checked (item ''final'' summary) (\<lambda>final. bind_checked (branch_list final) (\<lambda>bs.
     case map_of bs name of None \<Rightarrow> Inl (Value_error ''StopIteration'') | Some n \<Rightarrow> Inr n))"

definition branch_json :: "json list \<Rightarrow> int \<Rightarrow> string \<Rightarrow> json checked" where
  "branch_json summaries final_output branch =
     bind_checked (collect_checked (branch_bytes branch) summaries) (\<lambda>values.
     Inr (JObject ((''name'', JString branch) # statistics_fields (statistics values) @
       [(''aggregate_output_share_percent'', JFloat (Finite (share_percent (sum_list values) final_output)))])))"

definition peak_of :: "json \<Rightarrow> int checked" where
  "peak_of summary = bind_checked (item ''peaks'' summary) (int_item ''total_bytes'')"

definition capacity_report :: "codecs \<Rightarrow> calibration_settings \<Rightarrow> string \<Rightarrow> json list \<Rightarrow> selection \<Rightarrow> json checked" where
  "capacity_report cs s now summaries sel =
     (let complete = int (length summaries); ready = (cb_minimum_samples s \<le> complete)
      in bind_checked (collect_checked peak_of summaries) (\<lambda>peaks.
         bind_checked (collect_checked (final_field ''total_bytes'') summaries) (\<lambda>totals.
         bind_checked (collect_checked (tier_json summaries (sum_list totals)) final_tiers) (\<lambda>tiers.
         bind_checked (collect_checked (final_field ''output_bytes'') summaries) (\<lambda>outputs.
         bind_checked (collect_checked (branch_json summaries (sum_list outputs)) expected_branches) (\<lambda>branches.
         let report = JObject
           [(''contract_version'', JString ''1.0''), (''operation'', JString ''report-storage-capacity''),
            (''generated_at'', JString now), (''status'', JString (if ready then ''ready'' else ''insufficient_data'')),
            (''selection'', JObject
              [(''discovered_summaries'', JInt (int (sl_discovered sel))), (''excluded_non_complete_samples'', JInt (int (sl_excluded sel))),
               (''invalid_samples'', JInt (int (sl_invalid sel))), (''complete_samples'', JInt complete),
               (''minimum_samples'', JInt (cb_minimum_samples s))]),
            (''percentile_method'', JString ''NEAREST_RANK''),
            (''safety_factor'', JFloat (Finite (double_of (cb_safety_factor s)))), (''rounding_bytes'', JInt (cb_rounding_bytes s)),
            (''task_peak_bytes'', case statistics peaks of None \<Rightarrow> JNull | Some b \<Rightarrow> JObject (statistics_fields (Some b))),
            (''final_tiers'', JList (if summaries = [] then [] else tiers)),
            (''branches'', JList (if summaries = [] then [] else branches)),
            (''recommendation'', case statistics peaks of
               Some b \<Rightarrow> if ready then recommendation s (by_maximum b) else JNull | None \<Rightarrow> JNull),
            (''limitations'', JList [JString ''ONLY_COMPLETE_STORAGE_USAGE_SUMMARIES_INCLUDED'',
               JString ''PERIODIC_SAMPLING_MAY_UNDERESTIMATE_SHORT_LIVED_FILES'',
               JString ''WORKLOAD_REPRESENTATIVENESS_REQUIRES_OPERATOR_REVIEW''])]
         in bind_checked (validate_contract cs ''storage-capacity-report'' report) (\<lambda>_. Inr report)))))))"

definition build_capacity_report ::
  "codecs \<Rightarrow> file_system \<Rightarrow> path \<Rightarrow> calibration_settings \<Rightarrow> string \<Rightarrow> json checked" where
  "build_capacity_report cs fs data_root s now =
     bind_checked (load_complete_summaries cs fs data_root) (\<lambda>(summaries, sel). capacity_report cs s now summaries sel)"

end
