(* ===== verification/Monitoring_Theorems.thy ===== *)
theory Monitoring_Theorems
  imports Resource_Monitor Storage_Calibration Unary_Codec
begin

text \<open>
  Properties of the monitoring: the walk over a task directory counts every file once, what the monitor writes
  as its summary is never refused by the capacity report, and the recommended reservation covers every peak.
\<close>

section \<open>The walk counts every file\<close>

text \<open>The files below an entry that are counted, with their sizes, and the errors that are met.\<close>

fun entry_files :: "string list \<Rightarrow> storage_entry \<Rightarrow> (string list \<times> int) list" where
  "entry_files parts (Directory (Some es)) = concat (map (\<lambda>(name, e). entry_files (parts @ [name]) e) es)"
| "entry_files parts (Regular (Some n)) = (if parts = storage_summary_parts then [] else [(parts, n)])"
| "entry_files parts _ = []"

definition pending_files :: "pending \<Rightarrow> (string list \<times> int) list" where
  "pending_files p = entry_files (snd p) (Directory (fst p))"

text \<open>A quantity of the counts that a file raises by \<open>g\<close>.\<close>

definition counted_as :: "string list \<Rightarrow> (storage_counts \<Rightarrow> int) \<Rightarrow> (string list \<Rightarrow> int \<Rightarrow> int) \<Rightarrow> bool" where
  "counted_as branches proj g \<longleftrightarrow>
     (\<forall>parts n c. parts \<noteq> [] \<longrightarrow> proj (count_file branches parts n c) = proj c + g parts n) \<and>
     (\<forall>code c. proj (storage_error code c) = proj c)"

definition sum_files :: "(string list \<Rightarrow> int \<Rightarrow> int) \<Rightarrow> (string list \<times> int) list \<Rightarrow> int" where
  "sum_files g fs = sum_list (map (\<lambda>(parts, n). g parts n) fs)"

definition stack_sum :: "(string list \<Rightarrow> int \<Rightarrow> int) \<Rightarrow> pending list \<Rightarrow> int" where
  "stack_sum g stack = sum_list (map (\<lambda>p. sum_files g (pending_files p)) stack)"

lemma sum_files_simps [simp]:
  "sum_files g [] = 0" "sum_files g ((parts, n) # fs) = g parts n + sum_files g fs"
  "sum_files g (fs @ fs') = sum_files g fs + sum_files g fs'"
  by (auto simp: sum_files_def)

lemma stack_sum_simps [simp]:
  "stack_sum g [] = 0" "stack_sum g ((content, parts) # stack) = sum_files g (entry_files parts (Directory content)) + stack_sum g stack"
  by (simp_all add: stack_sum_def pending_files_def)

lemma scan_counted:
  assumes "counted_as branches proj g"
  shows "fold (scan_entry branches relative) es (stack, c) = (stack1, c1) \<Longrightarrow>
    proj c1 + stack_sum g stack1 =
    proj c + sum_files g (concat (map (\<lambda>(name, e). entry_files (relative @ [name]) e) es)) + stack_sum g stack"
proof (induction es arbitrary: stack c)
  case (Cons x es)
  obtain name e where x: "x = (name, e)" by (cases x)
  obtain stack2 c2 where first: "scan_entry branches relative x (stack, c) = (stack2, c2)" by fastforce
  then have "proj c2 + stack_sum g stack2 = proj c + sum_files g (entry_files (relative @ [name]) e) + stack_sum g stack"
    using assms
    by (auto simp: scan_entry_def x Let_def counted_as_def split: storage_entry.splits option.splits if_splits)
  moreover have "fold (scan_entry branches relative) es (stack2, c2) = (stack1, c1)" using Cons.prems first by simp
  ultimately show ?case using Cons.IH [of stack2 c2] by (simp add: x)
qed simp

lemma walk_counted:
  assumes "counted_as branches proj g"
  shows "proj (walk_storage branches stack c) = proj c + stack_sum g stack"
  using assms
proof (induction branches stack c rule: walk_storage.induct)
  case (1 branches c)
  show ?case by simp
next
  case (2 branches parts stack c)
  then show ?case by (simp add: counted_as_def)
next
  case (3 branches es relative stack c)
  obtain stack1 c1 where first: "fold (scan_entry branches relative) es (stack, c) = (stack1, c1)" by fastforce
  from "3.IH" [OF first [symmetric]] scan_counted [OF "3.prems" first] "3.prems" show ?case
    by (simp add: first)
qed

fun entry_errors :: "string list \<Rightarrow> storage_entry \<Rightarrow> string set" where
  "entry_errors parts (Directory (Some es)) = \<Union> (set (map (\<lambda>(name, e). entry_errors (parts @ [name]) e) es))"
| "entry_errors parts (Directory None) = {''TASK_STORAGE_SAMPLE_FAILED''}"
| "entry_errors parts (Regular (Some n)) = {}"
| "entry_errors parts (Regular None) = (if parts = storage_summary_parts then {} else {''TASK_STORAGE_SAMPLE_FAILED''})"
| "entry_errors parts Link = {''TASK_STORAGE_LINK_SKIPPED''}"
| "entry_errors parts Special = {''TASK_STORAGE_SPECIAL_FILE_SKIPPED''}"
| "entry_errors parts Unreadable = {''TASK_STORAGE_SAMPLE_FAILED''}"

lemma finite_entry_errors [simp]: "finite (entry_errors parts e)"
  by (induction parts e rule: entry_errors.induct) auto

definition stack_errors :: "pending list \<Rightarrow> string set" where
  "stack_errors stack = \<Union> (set (map (\<lambda>p. entry_errors (snd p) (Directory (fst p))) stack))"

lemma stack_errors_simps [simp]:
  "stack_errors [] = {}" "stack_errors ((content, parts) # stack) = entry_errors parts (Directory content) \<union> stack_errors stack"
  by (simp_all add: stack_errors_def)

lemma count_file_errors [simp]: "sc_errors (count_file branches parts n c) = sc_errors c"
  by (simp add: count_file_def Let_def)

lemma scan_errors:
  "fold (scan_entry branches relative) es (stack, c) = (stack1, c1) \<Longrightarrow>
    sc_errors c1 \<union> stack_errors stack1 =
    sc_errors c \<union> \<Union> (set (map (\<lambda>(name, e). entry_errors (relative @ [name]) e) es)) \<union> stack_errors stack"
proof (induction es arbitrary: stack c)
  case (Cons x es)
  obtain name e where x: "x = (name, e)" by (cases x)
  obtain stack2 c2 where first: "scan_entry branches relative x (stack, c) = (stack2, c2)" by fastforce
  then have "sc_errors c2 \<union> stack_errors stack2 = sc_errors c \<union> entry_errors (relative @ [name]) e \<union> stack_errors stack"
    by (auto simp: scan_entry_def x Let_def storage_error_def split: storage_entry.splits option.splits if_splits)
  moreover have "fold (scan_entry branches relative) es (stack2, c2) = (stack1, c1)" using Cons.prems first by simp
  ultimately show ?case using Cons.IH [of stack2 c2] by (simp add: x) blast
qed simp

lemma walk_errors: "sc_errors (walk_storage branches stack c) = sc_errors c \<union> stack_errors stack"
proof (induction branches stack c rule: walk_storage.induct)
  case (3 branches es relative stack c)
  obtain stack1 c1 where first: "fold (scan_entry branches relative) es (stack, c) = (stack1, c1)" by fastforce
  from "3.IH" [OF first [symmetric]] scan_errors [OF first] show ?case by (simp add: first) blast
qed (auto simp: storage_error_def)

lemma counted_category:
  "k \<in> set task_storage_categories \<Longrightarrow>
     counted_as branches (\<lambda>c. sc_category c k) (\<lambda>parts n. if hd parts = k then n else 0)"
  by (auto simp: counted_as_def count_file_def storage_error_def Let_def)

lemma counted_other:
  "counted_as branches sc_other (\<lambda>parts n. if hd parts \<in> set task_storage_categories then 0 else n)"
  by (auto simp: counted_as_def count_file_def storage_error_def Let_def)

definition in_branch :: "string \<Rightarrow> string list \<Rightarrow> bool" where
  "in_branch b parts \<longleftrightarrow> hd parts = ''output'' \<and> 2 \<le> length parts \<and> parts ! 1 = b"

lemma counted_branch:
  "b \<in> set branches \<Longrightarrow> counted_as branches (\<lambda>c. sc_branch c b) (\<lambda>parts n. if in_branch b parts then n else 0)"
  by (auto simp: counted_as_def count_file_def storage_error_def in_branch_def Let_def)

definition bytes_where :: "(string list \<Rightarrow> bool) \<Rightarrow> (string list \<times> int) list \<Rightarrow> int" where
  "bytes_where p fs = sum_list (map snd (filter (\<lambda>(parts, _). p parts) fs))"

lemma sum_files_where: "sum_files (\<lambda>parts n. if p parts then n else 0) fs = bytes_where p fs"
  by (induction fs) (auto simp: bytes_where_def)

lemma sum_files_unless: "sum_files (\<lambda>parts n. if p parts then 0 else n) fs = bytes_where (\<lambda>parts. \<not> p parts) fs"
  by (induction fs) (auto simp: bytes_where_def)

definition task_files :: "(string \<times> storage_entry) list \<Rightarrow> (string list \<times> int) list" where
  "task_files es = entry_files [] (Directory (Some es))"

lemma bytes_total:
  "sum_list (map (\<lambda>k. bytes_where (\<lambda>parts. hd parts = k) fs) task_storage_categories) +
     bytes_where (\<lambda>parts. hd parts \<notin> set task_storage_categories) fs = bytes_where (\<lambda>_. True) fs"
proof (induction fs)
  case Nil
  show ?case by (simp add: bytes_where_def task_storage_categories_def)
next
  case (Cons f fs)
  have "bytes_where p (f # fs) = (if p (fst f) then snd f else 0) + bytes_where p fs" for p
    by (cases f) (simp add: bytes_where_def)
  with Cons show ?case by (simp add: task_storage_categories_def)
qed

lemma storage_counted:
  "\<exists>s errors. read_storage branches (Some es) = Some (s, errors) \<and>
     ts_total_bytes s = bytes_where (\<lambda>_. True) (task_files es) \<and>
     map (ts_category_bytes s) task_storage_categories =
       map (\<lambda>k. bytes_where (\<lambda>parts. hd parts = k) (task_files es)) task_storage_categories \<and>
     ts_other_bytes s = bytes_where (\<lambda>parts. hd parts \<notin> set task_storage_categories) (task_files es) \<and>
     ts_branches s = map (\<lambda>b. (b, bytes_where (in_branch b) (task_files es))) branches \<and>
     set errors = entry_errors [] (Directory (Some es))"
proof -
  let ?c = "walk_storage branches [(Some es, [])] no_counts" and ?fs = "task_files es"
  have category: "sc_category ?c k = bytes_where (\<lambda>parts. hd parts = k) ?fs" if "k \<in> set task_storage_categories" for k
    using walk_counted [OF counted_category [OF that], where c = no_counts and stack = "[(Some es, [])]" and branches = branches]
    by (simp add: no_counts_def task_files_def sum_files_where)
  have other: "sc_other ?c = bytes_where (\<lambda>parts. hd parts \<notin> set task_storage_categories) ?fs"
    using walk_counted [OF counted_other, where c = no_counts and stack = "[(Some es, [])]" and branches = branches]
    by (simp add: no_counts_def task_files_def sum_files_unless)
  have branch: "sc_branch ?c b = bytes_where (in_branch b) ?fs" if "b \<in> set branches" for b
    using walk_counted [OF counted_branch [OF that], where c = no_counts and stack = "[(Some es, [])]"]
    by (simp add: no_counts_def task_files_def sum_files_where)
  have categories: "map (sc_category ?c) task_storage_categories =
      map (\<lambda>k. bytes_where (\<lambda>parts. hd parts = k) ?fs) task_storage_categories"
    by (rule map_cong [OF refl]) (rule category)
  have errors: "sc_errors ?c = entry_errors [] (Directory (Some es))"
    unfolding walk_errors by (simp add: no_counts_def)
  have branches: "map (\<lambda>b. (b, sc_branch ?c b)) branches = map (\<lambda>b. (b, bytes_where (in_branch b) ?fs)) branches"
    by (rule map_cong [OF refl]) (simp add: branch del: walk_storage.simps)
  let ?s = "\<lparr>ts_total_bytes = bytes_where (\<lambda>_. True) ?fs, ts_category_bytes = sc_category ?c,
      ts_other_bytes = sc_other ?c, ts_branches = map (\<lambda>b. (b, sc_branch ?c b)) branches\<rparr>"
  have "read_storage branches (Some es) = Some (?s, sorted_list_of_set (sc_errors ?c))"
    unfolding read_storage_def Let_def option.case categories other bytes_total ..
  then show ?thesis
    by (intro exI [of _ ?s] exI [of _ "sorted_list_of_set (sc_errors ?c)"])
      (simp add: categories other branches errors del: walk_storage.simps entry_errors.simps)
qed

text \<open>
  C34. The storage reader counts every file of the task directory once, in whatever order the walk meets
  them: the total is the sum over all files, each category and each branch has the files below it, files
  reached through a link and the summary itself are left out, and the errors are those of the entries that
  were skipped.
\<close>

theorem storage_reader_counts_every_file:
  "\<exists>s errors. read_storage branches (Some es) = Some (s, errors) \<and>
     ts_total_bytes s = bytes_where (\<lambda>_. True) (task_files es) \<and>
     map (ts_category_bytes s) task_storage_categories =
       map (\<lambda>k. bytes_where (\<lambda>parts. hd parts = k) (task_files es)) task_storage_categories \<and>
     ts_other_bytes s = bytes_where (\<lambda>parts. hd parts \<notin> set task_storage_categories) (task_files es) \<and>
     ts_branches s = map (\<lambda>b. (b, bytes_where (in_branch b) (task_files es))) branches \<and>
     set errors = entry_errors [] (Directory (Some es))"
  by (rule storage_counted)

section \<open>What the monitor writes is accepted\<close>

definition sizes_ok :: "(string \<times> storage_entry) list option \<Rightarrow> bool" where
  "sizes_ok content \<longleftrightarrow> (case content of None \<Rightarrow> True | Some es \<Rightarrow> \<forall>f \<in> set (task_files es). 0 \<le> snd f)"

lemma bytes_where_mono: "\<forall>f \<in> set fs. 0 \<le> snd f \<Longrightarrow> (\<And>parts. p parts \<Longrightarrow> q parts) \<Longrightarrow> bytes_where p fs \<le> bytes_where q fs"
  by (induction fs) (auto simp: bytes_where_def)

lemma bytes_where_nonneg: "\<forall>f \<in> set fs. 0 \<le> snd f \<Longrightarrow> 0 \<le> bytes_where p fs"
  by (induction fs) (auto simp: bytes_where_def)

lemma branches_within_output:
  assumes "\<forall>f \<in> set fs. 0 \<le> snd f" "distinct branches"
  shows "sum_list (map (\<lambda>b. bytes_where (in_branch b) fs) branches) \<le> bytes_where (\<lambda>parts. hd parts = ''output'') fs"
  using assms(1)
proof (induction fs)
  case (Cons f fs)
  have step: "bytes_where p (f # fs) = (if p (fst f) then snd f else 0) + bytes_where p fs" for p
    by (cases f) (simp add: bytes_where_def)
  have "sum_list (map (\<lambda>b. if in_branch b (fst f) then snd f else 0) branches) \<le> (if hd (fst f) = ''output'' then snd f else 0)"
  proof -
    have once: "sum_list (map (\<lambda>b. if x = b then n else 0) bs) = (if x \<in> set bs then n else 0)"
      if "distinct bs" for bs and x :: string and n :: int
      using that by (induction bs) auto
    show ?thesis
    proof (cases "hd (fst f) = ''output'' \<and> 2 \<le> length (fst f)")
      case True
      with once [OF assms(2), of "fst f ! 1" "snd f"] Cons.prems show ?thesis by (simp add: in_branch_def)
    next
      case False
      then have "\<not> in_branch b (fst f)" for b by (auto simp: in_branch_def)
      with Cons.prems show ?thesis by simp
    qed
  qed
  with Cons show ?case by (simp add: step sum_list_addf)
qed (simp add: bytes_where_def)

text \<open>The peaks of a sampler bound each other, and those of the last reading.\<close>

definition sampler_ok :: "sampler \<Rightarrow> bool" where
  "sampler_ok s \<longleftrightarrow> distinct (sa_branches s) \<and> 0 \<le> sa_peak_total s \<and> sa_peak_runtime s \<le> sa_peak_total s \<and>
     sa_peak_output s \<le> sa_peak_total s \<and> (\<forall>b \<in> set (sa_branches s). sa_peak_branch s b \<le> sa_peak_total s)"

definition covers :: "sampler \<Rightarrow> task_storage \<Rightarrow> bool" where
  "covers s st \<longleftrightarrow> ts_total_bytes st \<le> sa_peak_total s \<and> ts_category_bytes st ''runtime'' \<le> sa_peak_runtime s \<and>
     ts_category_bytes st ''output'' \<le> sa_peak_output s \<and> map fst (ts_branches st) = sa_branches s \<and>
     (\<forall>(b, n) \<in> set (ts_branches st). n \<le> sa_peak_branch s b)"

definition storage_ok :: "task_storage \<Rightarrow> bool" where
  "storage_ok st \<longleftrightarrow>
     ts_total_bytes st = sum_list (map (ts_category_bytes st) task_storage_categories) + ts_other_bytes st \<and>
     sum_list (map snd (ts_branches st)) \<le> ts_category_bytes st ''output''"

lemma raise_peaks:
  "distinct (map fst bs) \<Longrightarrow> fold raise_branch_peak bs s = s\<lparr>sa_peak_branch := (\<lambda>b.
     case map_of bs b of None \<Rightarrow> sa_peak_branch s b | Some n \<Rightarrow> max (sa_peak_branch s b) n)\<rparr>"
proof (induction bs arbitrary: s)
  case (Cons x bs)
  obtain b n where x: "x = (b, n)" by (cases x)
  have "map_of bs b = None" using Cons.prems by (simp add: x map_of_eq_None_iff)
  with Cons show ?case
    by (auto simp: x raise_branch_peak_def fun_eq_iff split: option.split intro!: sampler.equality)
qed simp

lemma read_task_storage_ok:
  assumes "read_task_storage content s = ((r, errors), s1)" "sampler_ok s" "sizes_ok content"
  shows "sampler_ok s1" "sa_branches s1 = sa_branches s" "sa_job_id s1 = sa_job_id s" "sa_errors s1 = sa_errors s \<union> set errors"
    and "r = Some st \<Longrightarrow> covers s1 st \<and> storage_ok st \<and> 1 \<le> sa_observations s1"
proof -
  have all: "sampler_ok s1 \<and> sa_branches s1 = sa_branches s \<and> sa_job_id s1 = sa_job_id s \<and> sa_errors s1 = sa_errors s \<union> set errors \<and>
    (\<forall>st. r = Some st \<longrightarrow> covers s1 st \<and> storage_ok st \<and> 1 \<le> sa_observations s1)"
  proof (cases content)
    case None
    with assms show ?thesis by (auto simp: read_task_storage_def read_storage_def sampler_ok_def)
  next
    case (Some es)
    obtain st e where st: "read_storage (sa_branches s) content = Some (st, e)"
      "ts_total_bytes st = bytes_where (\<lambda>_. True) (task_files es)"
      "map (ts_category_bytes st) task_storage_categories =
         map (\<lambda>k. bytes_where (\<lambda>parts. hd parts = k) (task_files es)) task_storage_categories"
      "ts_other_bytes st = bytes_where (\<lambda>parts. hd parts \<notin> set task_storage_categories) (task_files es)"
      "ts_branches st = map (\<lambda>b. (b, bytes_where (in_branch b) (task_files es))) (sa_branches s)"
      using storage_counted [of "sa_branches s" es] Some by blast
    have sizes: "\<forall>f \<in> set (task_files es). 0 \<le> snd f" using assms(3) Some by (simp add: sizes_ok_def)
    have dist: "distinct (sa_branches s)" using assms(2) by (simp add: sampler_ok_def)
    have category: "ts_category_bytes st k = bytes_where (\<lambda>parts. hd parts = k) (task_files es)" if "k \<in> set task_storage_categories" for k
      using st(3) that by simp
    have parts: "ts_category_bytes st ''runtime'' \<le> ts_total_bytes st" "ts_category_bytes st ''output'' \<le> ts_total_bytes st"
      "0 \<le> ts_total_bytes st"
      using bytes_where_mono [OF sizes] bytes_where_nonneg [OF sizes] by (simp_all add: category st(2) task_storage_categories_def)
    have branch: "bytes_where (in_branch b) (task_files es) \<le> ts_total_bytes st" for b
      unfolding st(2) by (rule bytes_where_mono [OF sizes]) simp
    have "storage_ok st"
      using branches_within_output [OF sizes dist] bytes_total [of "task_files es"]
      by (simp add: storage_ok_def st(2,3,4,5) category task_storage_categories_def comp_def)
    have "distinct (map fst (ts_branches st))" using dist by (simp add: st(5) comp_def)
    note raise = raise_peaks [OF this]
    let ?peak = "\<lambda>b. case map_of (ts_branches st) b of None \<Rightarrow> sa_peak_branch s b | Some n \<Rightarrow> max (sa_peak_branch s b) n"
    have s1: "r = Some st" "errors = e" "s1 = s\<lparr>sa_observations := sa_observations s + 1, sa_errors := sa_errors s \<union> set e,
        sa_peak_total := max (sa_peak_total s) (ts_total_bytes st),
        sa_peak_runtime := max (sa_peak_runtime s) (ts_category_bytes st ''runtime''),
        sa_peak_output := max (sa_peak_output s) (ts_category_bytes st ''output''), sa_peak_branch := ?peak\<rparr>"
      using assms(1) by (auto simp: read_task_storage_def st(1) raise Let_def cong: option.case_cong)
    have peak: "?peak b = max (sa_peak_branch s b) (bytes_where (in_branch b) (task_files es))" if "b \<in> set (sa_branches s)" for b
    proof -
      have "map_of (ts_branches st) b = Some (bytes_where (in_branch b) (task_files es))"
        using that dist by (simp add: st(5) comp_def)
      then show ?thesis by simp
    qed
    have "max (sa_peak_branch s b) (bytes_where (in_branch b) (task_files es)) \<le> max (sa_peak_total s) (ts_total_bytes st)"
      if "b \<in> set (sa_branches s)" for b
      by (rule max.mono) (use assms(2) branch that in \<open>auto simp: sampler_ok_def\<close>)
    then have "\<forall>b \<in> set (sa_branches s). ?peak b \<le> max (sa_peak_total s) (ts_total_bytes st)" using peak by simp
    then have "sampler_ok s1"
      unfolding sampler_ok_def using assms(2) parts by (auto simp: s1(3) sampler_ok_def le_max_iff_disj)
    moreover have "covers s1 st"
      unfolding covers_def using peak by (auto simp: s1(3) st(5) comp_def)
    moreover note \<open>storage_ok st\<close>
    ultimately show ?thesis by (simp add: s1)
  qed
  then show "sampler_ok s1" "sa_branches s1 = sa_branches s" "sa_job_id s1 = sa_job_id s" "sa_errors s1 = sa_errors s \<union> set errors"
    "r = Some st \<Longrightarrow> covers s1 st \<and> storage_ok st \<and> 1 \<le> sa_observations s1" by blast+
qed

text \<open>What the summary of a sampler says to the checks.\<close>

lemma int_item_sorted: "json_field k v = Some (JInt n) \<Longrightarrow> int_item k (sort_keys v) = Inr n"
  by (simp add: int_item_def item_Inr)

lemma named_bytes_sorted: "named_bytes (sort_keys (JObject [(''name'', JString b), (''used_bytes'', JInt n)])) = Inr (b, n)"
  by (simp add: named_bytes_def int_item_def item_Inr json_field_def)

lemma branch_list_sorted:
  assumes "json_field ''branches'' v = Some (branches_json bs)"
  shows "branch_list (sort_keys v) = Inr bs"
proof -
  have "collect_checked named_bytes (map (\<lambda>x. sort_keys (JObject [(''name'', JString (fst x)), (''used_bytes'', JInt (snd x))])) bs) = Inr bs"
    by (induction bs) (simp_all add: named_bytes_sorted del: sort_keys.simps)
  then have "collect_checked named_bytes (map sort_keys (map (\<lambda>(b, n). JObject [(''name'', JString b), (''used_bytes'', JInt n)]) bs)) = Inr bs"
    by (simp add: comp_def case_prod_beta del: sort_keys.simps)
  then show ?thesis
    using assms by (simp add: branch_list_def item_Inr branches_json_def case_prod_beta comp_def)
qed

lemma last_of_distinct: "distinct (map fst bs) \<Longrightarrow> (b, n) \<in> set bs \<Longrightarrow> last_of bs b = n"
  using map_of_is_SomeI [of "rev bs" b n] distinct_rev [of "map fst bs"] by (simp add: last_of_def rev_map)

definition summary_view_of :: "sampler \<Rightarrow> task_storage \<Rightarrow> summary_view" where
  "summary_view_of s st = \<lparr>vw_tiers = map (ts_category_bytes st) task_storage_categories @ [ts_other_bytes st], vw_total = ts_total_bytes st,
     vw_runtime = ts_category_bytes st ''runtime'', vw_output = ts_category_bytes st ''output'', vw_branches = ts_branches st,
     vw_peak_total = sa_peak_total s, vw_peak_runtime = sa_peak_runtime s, vw_peak_output = sa_peak_output s,
     vw_peak_branches = map (\<lambda>b. (b, sa_peak_branch s b)) (sa_branches s)\<rparr>"

lemma summary_final:
  "json_field ''final'' (summary_json s (Some st) t n i j) = Some (storage_json st)"
  "json_field ''peaks'' (summary_json s r t n i j) = Some (JObject
     [(''total_bytes'', JInt (sa_peak_total s)), (''runtime_bytes'', JInt (sa_peak_runtime s)),
      (''output_bytes'', JInt (sa_peak_output s)),
      (''branches'', branches_json (map (\<lambda>b. (b, sa_peak_branch s b)) (sa_branches s)))])"
  "json_field ''job_id'' (summary_json s r t n i j) = Some (JString (sa_job_id s))"
  "json_field ''errors'' (summary_json s r t n i j) = Some (JList (map JString (sorted_list_of_set (sa_errors s))))"
  "json_field ''storage_observation_count'' (summary_json s r t n i j) = Some (JInt (int (sa_observations s)))"
  "json_field ''status'' (summary_json s r t n i j) =
     Some (JString (if r = None then ''unavailable'' else if sa_errors s \<noteq> {} then ''partial'' else ''complete''))"
  by (simp_all add: summary_json_def json_field_def)

lemma storage_fields:
  "json_field ''total_bytes'' (storage_json st) = Some (JInt (ts_total_bytes st))"
  "json_field ''other_bytes'' (storage_json st) = Some (JInt (ts_other_bytes st))"
  "json_field ''branches'' (storage_json st) = Some (branches_json (ts_branches st))"
  "json_field ''input_bytes'' (storage_json st) = Some (JInt (ts_category_bytes st ''input''))"
  "json_field ''runtime_bytes'' (storage_json st) = Some (JInt (ts_category_bytes st ''runtime''))"
  "json_field ''output_bytes'' (storage_json st) = Some (JInt (ts_category_bytes st ''output''))"
  "json_field ''reports_bytes'' (storage_json st) = Some (JInt (ts_category_bytes st ''reports''))"
  "json_field ''manifests_bytes'' (storage_json st) = Some (JInt (ts_category_bytes st ''manifests''))"
  by (simp_all add: storage_json_def json_field_def task_storage_categories_def)

lemma view_of_summary: "view_of (sort_keys (summary_json s (Some st) t n i j)) = Inr (summary_view_of s st)"
proof -
  let ?peaks = "JObject [(''total_bytes'', JInt (sa_peak_total s)), (''runtime_bytes'', JInt (sa_peak_runtime s)),
      (''output_bytes'', JInt (sa_peak_output s)),
      (''branches'', branches_json (map (\<lambda>b. (b, sa_peak_branch s b)) (sa_branches s)))]"
  have final: "item ''final'' (sort_keys (summary_json s (Some st) t n i j)) = Inr (sort_keys (storage_json st))"
    by (simp add: item_Inr summary_final)
  have peaks: "item ''peaks'' (sort_keys (summary_json s (Some st) t n i j)) = Inr (sort_keys ?peaks)"
    unfolding item_Inr json_field_sort_keys summary_final option.map(2) ..
  have peak: "int_item ''total_bytes'' (sort_keys ?peaks) = Inr (sa_peak_total s)"
    "int_item ''runtime_bytes'' (sort_keys ?peaks) = Inr (sa_peak_runtime s)"
    "int_item ''output_bytes'' (sort_keys ?peaks) = Inr (sa_peak_output s)"
    "branch_list (sort_keys ?peaks) = Inr (map (\<lambda>b. (b, sa_peak_branch s b)) (sa_branches s))"
    by (rule int_item_sorted branch_list_sorted, simp add: json_field_def)+
  show ?thesis
    unfolding view_of_def final peaks bind_checked_simps peak branch_list_sorted [OF storage_fields(3)] storage_fields(1) [THEN int_item_sorted]
      storage_fields(5) [THEN int_item_sorted] storage_fields(6) [THEN int_item_sorted]
    by (simp add: final_tiers_def summary_view_of_def task_storage_categories_def storage_fields(2,4,7,8) [THEN int_item_sorted]
        storage_fields(1,5,6) [THEN int_item_sorted] del: sort_keys.simps)
qed

lemma summary_consistent:
  assumes "sampler_ok s" "covers s st" "storage_ok st" "sa_branches s = expected_branches"
  shows "consistent_view (summary_view_of s st)"
proof -
  let ?peaks = "map (\<lambda>b. (b, sa_peak_branch s b)) (sa_branches s)"
  have dist: "distinct (map fst (ts_branches st))" "distinct (map fst ?peaks)"
    using assms(1,2) by (simp_all add: covers_def sampler_ok_def comp_def)
  have names: "map fst (ts_branches st) = expected_branches" using assms(2,4) by (simp add: covers_def)
  have finals: "map (last_of (ts_branches st)) (map fst (ts_branches st)) = map snd (ts_branches st)"
    using last_of_distinct [OF dist(1)] by (auto simp: comp_def)
  have peak: "last_of ?peaks b = sa_peak_branch s b" if "b \<in> set expected_branches" for b
    by (rule last_of_distinct [OF dist(2)]) (use that assms(4) in auto)
  have "last_of (ts_branches st) b \<le> sa_peak_branch s b" if "b \<in> set expected_branches" for b
  proof -
    have "b \<in> fst ` set (ts_branches st)" using that arg_cong [OF names, of set] by simp
    then obtain n where "(b, n) \<in> set (ts_branches st)" by auto
    with assms(2) last_of_distinct [OF dist(1) this] show ?thesis by (auto simp: covers_def)
  qed
  moreover have "fst ` set (ts_branches st) = set expected_branches" using arg_cong [OF names, of set] by simp
  moreover have "length (ts_branches st) = length expected_branches" using arg_cong [OF names, of length] by simp
  ultimately show ?thesis
    using assms dist finals peak
    by (simp add: consistent_view_def summary_view_of_def storage_ok_def covers_def sampler_ok_def distinct_remdups_id image_image)
qed

lemma summary_is_valid:
  assumes "sampler_ok s" "covers s st" "storage_ok st" "sa_branches s = expected_branches" "1 \<le> sa_observations s" "sa_errors s = {}"
  shows "is_semantically_valid (sa_job_id s) (sort_keys (summary_json s (Some st) t n i j)) = Inr True"
  using summary_consistent [OF assms(1-4)] assms(5,6)
  by (simp add: is_semantically_valid_def item_Inr summary_final view_of_summary int_item_def is_empty_list_def storage_json_def ex_bool_eq)

text \<open>No sample spoils the sampler, whether it succeeds or not.\<close>

definition still_ok :: "sampler \<Rightarrow> sampler \<Rightarrow> bool" where
  "still_ok s s' \<longleftrightarrow> sampler_ok s' \<and> sa_branches s' = sa_branches s \<and> sa_job_id s' = sa_job_id s"

lemma take_sample_keeps:
  assumes "take_sample cs include_storage f s = (r, s')" "sampler_ok s" "sizes_ok (sf_directory f)"
  shows "still_ok s s'"
proof -
  obtain h previous where h: "read_host (sf_host f) (sa_previous_cpu s) = (h, previous)" by fastforce
  let ?s = "s\<lparr>sa_previous_cpu := previous\<rparr>"
  have ok: "sampler_ok ?s" using assms(2) by (simp add: sampler_ok_def)
  obtain q s1 where q: "(if include_storage then read_task_storage (sf_directory f) ?s else ((None, []), ?s)) = (q, s1)" by fastforce
  have s1: "still_ok s s1"
  proof (cases include_storage)
    case True
    then obtain a errors where "read_task_storage (sf_directory f) ?s = ((a, errors), s1)" using q by (cases q) auto
    from read_task_storage_ok [OF this ok assms(3)] show ?thesis by (simp add: still_ok_def)
  next
    case False
    with q ok show ?thesis by (auto simp: still_ok_def)
  qed
  have "s' = ?s \<or> s' = s1"
    using assms(1) q by (auto simp: take_sample_def h followed_by_def Let_def split: sum.splits prod.splits)
  with s1 ok show ?thesis by (auto simp: still_ok_def)
qed

lemma write_sample_keeps:
  assumes "still_ok s (mn_sampler m)" "sizes_ok (sf_directory (mf_sample f))"
  shows "still_ok s (mn_sampler (write_sample cs line_of settings force f m)) \<and>
    mn_summary (write_sample cs line_of settings force f m) = mn_summary m"
proof -
  obtain r s' where t: "take_sample cs (storage_due settings force (mf_now f) m) (mf_sample f) (mn_sampler m) = (r, s')" by fastforce
  with assms take_sample_keeps [OF t _ assms(2)] have "still_ok s s'" by (auto simp: still_ok_def)
  then show ?thesis by (auto simp: write_sample_def t Let_def split: sum.split)
qed

lemma write_samples_keep:
  "still_ok s (mn_sampler m) \<Longrightarrow> \<forall>f \<in> set fs. sizes_ok (sf_directory (mf_sample f)) \<Longrightarrow>
     still_ok s (mn_sampler (fold (write_sample cs line_of settings force) fs m)) \<and>
     mn_summary (fold (write_sample cs line_of settings force) fs m) = mn_summary m"
proof (induction fs arbitrary: m)
  case (Cons f fs)
  then have "still_ok s (mn_sampler (write_sample cs line_of settings force f m))"
    "mn_summary (write_sample cs line_of settings force f m) = mn_summary m" using write_sample_keeps by auto
  with Cons show ?case by simp
qed simp

lemma new_sampler_ok:
  assumes "new_sampler fs root_dir job_id attempt worker key tool branches = Inr s"
  shows "sampler_ok s" "sa_branches s = branches" "canonical_uuid_name (sa_job_id s)"
proof -
  obtain k where k: "parse_uuid job_id = Some k" "distinct branches" "sa_job_id s = uuid_str k"
    and fields: "sa_branches s = branches" "sa_peak_total s = 0" "sa_peak_runtime s = 0" "sa_peak_output s = 0" "sa_peak_branch s = (\<lambda>_. 0)"
    using assms by (auto simp: new_sampler_def split: option.splits)
  show "sampler_ok s" using k(2) fields by (simp add: sampler_ok_def)
  show "sa_branches s = branches" by (rule fields(1))
  have "k < 2 ^ 128" using k(1) by (auto simp: parse_uuid_def Let_def split: option.splits if_splits)
  then show "canonical_uuid_name (sa_job_id s)" by (simp add: canonical_uuid_name_def k(3) parse_uuid_str)
qed

lemma load_summary_loaded:
  assumes "canonical_uuid_name name"
    and files: "read_file fs (jobs @ [name, ''reports'', ''storage-usage.json'']) = Some report_text"
      "is_dir fs (jobs @ [name])" "is_dir fs (jobs @ [name, ''reports''])" "fs_link fs = (\<lambda>_. False)"
    and load: "load_json_contract cs fs (jobs @ [name, ''reports'', ''storage-usage.json'']) ''storage-usage'' = Inr summary"
    and status: "json_field ''status'' summary = Some (JString st)"
    and valid: "st = ''complete'' \<Longrightarrow> is_semantically_valid name summary = Inr True"
  shows "load_summary cs fs jobs name (summaries, sel) = Inr
    (if json_field ''status'' summary = Some (JString ''complete'') then (summaries @ [summary], found sel)
     else (summaries, (found sel)\<lparr>sl_excluded := sl_excluded sel + 1\<rparr>))"
proof -
  have place: "path_exists fs (jobs @ [name, ''reports'', ''storage-usage.json''])"
    "is_file fs (jobs @ [name, ''reports'', ''storage-usage.json''])"
    using files(1) by (simp_all add: path_exists_def is_file_def)
  have "item_differs ''status'' (JString ''complete'') summary = Inr (st \<noteq> ''complete'')"
    using status by (simp add: item_differs_def item_Inr)
  with place assms show ?thesis by (simp add: load_summary_def Let_def)
qed

text \<open>
  C35. The capacity report never refuses what the monitor wrote. A summary that a run of the monitor left at
  the end of a task is counted when it is complete and set aside as incomplete otherwise, whatever the
  readings of the host, the GPU and the directory were and whichever samples failed.
\<close>

theorem monitor_summary_is_never_invalid:
  assumes sampler: "new_sampler fs root_dir job_id attempt worker key tool expected_branches = Inr s"
    and sizes: "\<forall>f \<in> set samples. sizes_ok (sf_directory (mf_sample f))" "sizes_ok (sf_directory (mf_sample (me_sample exit)))"
      "sizes_ok (me_directory exit)"
    and written: "mn_summary (run_monitor cs line_of settings samples exit s) = Some report_text"
    and keeps: "\<forall>v. keeps_json cs ''storage-usage'' v"
    and files: "read_file fs2 (jobs @ [sa_job_id s, ''reports'', ''storage-usage.json'']) = Some report_text"
      "is_dir fs2 (jobs @ [sa_job_id s])" "is_dir fs2 (jobs @ [sa_job_id s, ''reports''])" "fs_link fs2 = (\<lambda>_. False)"
  shows "\<exists>summary. load_summary cs fs2 jobs (sa_job_id s) (summaries, sel) = Inr
    (if json_field ''status'' summary = Some (JString ''complete'') then (summaries @ [summary], found sel)
     else (summaries, (found sel)\<lparr>sl_excluded := sl_excluded sel + 1\<rparr>))"
proof -
  note s = new_sampler_ok [OF sampler]
  let ?m0 = "fold (write_sample cs line_of settings False) samples (new_monitor s)"
  let ?m1 = "write_sample cs line_of settings True (me_sample exit) ?m0"
  have "still_ok s (mn_sampler (new_monitor s))" "mn_summary (new_monitor s) = None"
    using s by (simp_all add: new_monitor_def still_ok_def)
  then have m1: "still_ok s (mn_sampler ?m1)" "mn_summary ?m0 = None" "mn_summary ?m1 = None"
    using write_samples_keep [of s "new_monitor s", OF _ sizes(1)] write_sample_keeps [of s ?m0, OF _ sizes(2)] by simp_all
  have m: "run_monitor cs line_of settings samples exit s =
      write_storage_summary cs settings (me_wanted exit) (me_directory exit) (me_measured_at exit) (me_failed exit) ?m1"
    using written m1 by (auto simp: run_monitor_def Let_def new_monitor_def split: if_splits)
  obtain r errors s1 where read: "read_task_storage (me_directory exit) (mn_sampler ?m1) = ((r, errors), s1)" by (metis prod.exhaust)
  have ok: "sampler_ok (mn_sampler ?m1)" using m1(1) by (simp add: still_ok_def)
  note s1 = read_task_storage_ok [OF read ok sizes(3)]
  have same: "s1\<lparr>sa_errors := sa_errors s1 \<union> set errors\<rparr> = s1" using s1(4) by auto
  let ?summary = "summary_json s1 r (me_measured_at exit) (mn_count ?m1) (mo_interval_seconds settings) (mo_task_storage_interval_seconds settings)"
  have valid: "cs_valid cs ''storage-usage'' ?summary" "report_text = json_text cs ?summary"
    using written m1(3) unfolding m
    by (auto simp: write_storage_summary_def storage_summary_def read same validate_contract_def Let_def split: sum.splits if_splits prod.splits)
  have "is_object ?summary" by (simp add: summary_json_def is_object_def)
  then have load: "load_json_contract cs fs2 (jobs @ [sa_job_id s, ''reports'', ''storage-usage.json'']) ''storage-usage'' = Inr (sort_keys ?summary)"
    using load_written_contract [OF _ valid(1)] keeps files(1) valid(2) by blast
  have job: "sa_job_id s1 = sa_job_id s" "sa_branches s1 = expected_branches" using s1(2,3) m1(1) s(2) by (simp_all add: still_ok_def)
  have status: "json_field ''status'' (sort_keys ?summary) =
      Some (JString (if r = None then ''unavailable'' else if sa_errors s1 \<noteq> {} then ''partial'' else ''complete''))"
    by (simp add: summary_final)
  have complete: "is_semantically_valid (sa_job_id s) (sort_keys ?summary) = Inr True"
    if some: "r \<noteq> None" and none: "sa_errors s1 = {}"
  proof -
    obtain st where st: "r = Some st" using some by blast
    from s1(5) [OF st] have "covers s1 st" "storage_ok st" "1 \<le> sa_observations s1" by blast+
    from summary_is_valid [OF s1(1) this(1,2) job(2) this(3) none] st job(1) show ?thesis by simp
  qed
  show ?thesis
    by (rule exI, rule load_summary_loaded [OF s(3) files load status]) (use complete in \<open>auto split: if_splits\<close>)
qed

section \<open>The recommendation\<close>

lemma length_decimal_pos: "0 < length (decimal n)"
  by (simp add: decimal.simps [of n])

lemma decimal_bounds: "0 < n \<Longrightarrow> 10 ^ (length (decimal n) - 1) \<le> n \<and> n < 10 ^ length (decimal n)"
proof (induction n rule: decimal.induct)
  case (1 n)
  show ?case
  proof (cases "n < 10")
    case True
    with 1(2) show ?thesis by (simp add: decimal.simps [of n])
  next
    case False
    let ?k = "length (decimal (n div 10))"
    have ih: "10 ^ (?k - 1) \<le> n div 10" "n div 10 < 10 ^ ?k" using 1(1) [OF False] False by auto
    have len: "length (decimal n) = Suc ?k" using False by (simp add: decimal.simps [of n])
    obtain j where j: "?k = Suc j" using length_decimal_pos [of "n div 10"] by (cases ?k) auto
    have "10 * 10 ^ (?k - 1) \<le> n" using ih(1) by simp
    moreover have "n < 10 * 10 ^ ?k" using ih(2) by (simp add: div_less_iff_less_mult mult.commute)
    ultimately show ?thesis by (simp add: len j)
  qed
qed

lemma digits_powi:
  assumes "0 < p"
  shows "(10::rat) powi (int (length (decimal (nat p))) - 1) \<le> of_int p" "of_int p < (10::rat) powi int (length (decimal (nat p)))"
proof -
  let ?k = "length (decimal (nat p))"
  have b: "10 ^ (?k - 1) \<le> nat p" "nat p < 10 ^ ?k" using decimal_bounds [of "nat p"] assms by auto
  have p: "of_int p = (of_nat (nat p) :: rat)" using assms by simp
  have "of_nat (10 ^ (?k - 1)) \<le> (of_nat (nat p) :: rat)" using b(1) by (simp only: of_nat_le_iff)
  then show "(10::rat) powi (int ?k - 1) \<le> of_int p"
    using length_decimal_pos [of "nat p"] by (simp add: p power_int_def nat_diff_distrib Suc_leI of_nat_diff)
  have "of_nat (nat p) < (of_nat (10 ^ ?k) :: rat)" using b(2) by (simp only: of_nat_less_iff)
  then show "of_int p < (10::rat) powi int ?k" by (simp add: p power_int_def)
qed

lemma ilog10_lower:
  assumes "0 < x" shows "10 powi ilog10 x \<le> x"
proof -
  obtain p q where pq: "quotient_of x = (p, q)" by (cases "quotient_of x")
  have q: "0 < q" by (rule quotient_of_denom_pos [OF pq])
  have x: "x = of_int p / of_int q" by (rule quotient_of_div [OF pq])
  with assms q have p: "0 < p" by (simp add: zero_less_divide_iff)
  let ?a = "int (length (decimal (nat p)))" and ?b = "int (length (decimal (nat q)))"
  have "(10::rat) powi (?a - ?b - 1) * of_int q \<le> 10 powi (?a - ?b - 1) * 10 powi ?b"
    by (rule mult_left_mono) (use digits_powi(2) [OF q] in auto)
  also have "\<dots> = 10 powi (?a - 1)" by (subst power_int_add [symmetric]) simp_all
  also note digits_powi(1) [OF p]
  finally have "10 powi (?a - ?b - 1) \<le> x" using q by (simp add: x field_simps)
  then show ?thesis by (simp add: ilog10_def pq Let_def)
qed

lemma dec28_ge:
  assumes "0 \<le> n" "n < 10 ^ 28" "of_int n \<le> y"
  shows "of_int n \<le> dec28 y"
proof (cases "y = 0")
  case False
  then have y: "0 < y" using assms by (metis le_less_trans less_le of_int_0_le_iff order_le_less)
  let ?e = "ilog10 y" and ?unit = "(10::rat) powi (ilog10 y - 27)"
  have dec: "dec28 y = of_int (round_half_even (y / ?unit)) * ?unit" using y by (simp add: dec28_def Let_def)
  have unit: "0 < ?unit" by simp
  show ?thesis
  proof (cases "?e \<le> 27")
    case True
    define k where "k = nat (27 - ?e)"
    have k: "?unit = inverse (10 ^ k)"
    proof -
      have "?e - 27 = - int k" using True by (simp add: k_def)
      then show ?thesis by (simp add: power_int_minus)
    qed
    have "of_int (n * 10 ^ k) \<le> y / ?unit" using assms(3) by (simp add: k divide_inverse mult_right_mono)
    then have "of_int (n * 10 ^ k) \<le> (of_int (round_half_even (y / ?unit)) :: rat)"
      by (simp only: of_int_le_iff round_half_even_ge_int)
    then have "of_int (n * 10 ^ k) * ?unit \<le> dec28 y" unfolding dec by (rule mult_right_mono) (use unit in simp)
    then show ?thesis by (simp add: k mult.assoc)
  next
    case False
    define m where "m = nat (?e - 27)"
    have m: "?unit = 10 ^ m" "1 \<le> m" using False by (simp_all add: m_def power_int_def)
    have e: "?e = 27 + int m" using False by (simp add: m_def)
    have "(10::rat) powi ?e = 10 ^ 27 * 10 ^ m" unfolding e by (simp add: power_int_add)
    with ilog10_lower [OF y] have "10 ^ 27 * 10 ^ m \<le> y" by simp
    then have "of_int (10 ^ 27) \<le> y / ?unit" by (simp add: m(1) field_simps)
    then have "of_int (10 ^ 27) \<le> (of_int (round_half_even (y / ?unit)) :: rat)"
      by (simp only: of_int_le_iff round_half_even_ge_int)
    then have "of_int (10 ^ 27) * ?unit \<le> dec28 y" unfolding dec by (rule mult_right_mono) (use unit in simp)
    moreover have "(10::rat) ^ 28 \<le> of_int (10 ^ 27) * ?unit"
    proof -
      have "(10::rat) ^ 1 \<le> 10 ^ m" by (rule power_increasing) (use m in auto)
      then show ?thesis by (simp add: m(1))
    qed
    moreover have "(of_int n :: rat) < of_int (10 ^ 28)" using assms(2) by (simp only: of_int_less_iff)
    ultimately show ?thesis by simp
  qed
next
  case True
  then show ?thesis using assms by (simp add: dec28_def)
qed

lemma round_up_bounds:
  assumes "1 \<le> q"
  shows "v \<le> round_up v q" "round_up v q < v + q" "round_up v q mod q = 0"
proof -
  have split: "(v + q - 1) div q * q + (v + q - 1) mod q = v + q - 1" by simp
  have "0 \<le> (v + q - 1) mod q" "(v + q - 1) mod q < q" using assms by simp_all
  with split show "v \<le> round_up v q" "round_up v q < v + q" unfolding round_up_def by linarith+
  show "round_up v q mod q = 0" by (simp add: round_up_def)
qed

lemma peaks_of_summaries:
  "collect_checked peak_of summaries = Inr peaks \<Longrightarrow> summary \<in> set summaries \<Longrightarrow> \<exists>p \<in> set peaks. peak_of summary = Inr p"
  by (auto simp: collect_checked_Inr list_all2_conv_all_nth in_set_conv_nth)

lemma capacity_report_recommendation:
  assumes "capacity_report cs s now summaries sel = Inr report" "collect_checked peak_of summaries = Inr ps"
  shows "json_field ''recommendation'' report = Some (case statistics ps of
    Some b \<Rightarrow> if cb_minimum_samples s \<le> int (length summaries) then recommendation s (by_maximum b) else JNull | None \<Rightarrow> JNull)"
  using assms(1) unfolding capacity_report_def Let_def bind_checked_Inr assms(2) sum.inject
  by (elim exE conjE, hypsubst) (simp only: json_field_def, simp)

text \<open>
  C36. The recommended reservation covers the peak of every task in the report, though the factor is
  applied in decimals of 28 digits: it is at least each observed peak, a multiple of the rounding, and less
  than one rounding step above the scaled maximum.
\<close>

theorem recommendation_covers_every_peak:
  assumes settings: "calibration_settings_of samples factor step = Inr s"
    and report: "capacity_report cs s now summaries sel = Inr report"
    and recommended: "json_field ''recommendation'' report = Some advice" "advice \<noteq> JNull"
    and peaks: "\<forall>summary \<in> set summaries. \<exists>p. peak_of summary = Inr p \<and> 0 \<le> p \<and> p < 10 ^ 28"
    and summary: "summary \<in> set summaries"
  shows "\<exists>p n scaled. peak_of summary = Inr p \<and> json_field ''scaled_bytes'' advice = Some (JInt scaled) \<and>
    json_field ''recommended_reservation_bytes'' advice = Some (JInt n) \<and> p \<le> n \<and> n mod step = 0 \<and> n < scaled + step"
proof -
  have s: "1 \<le> cb_safety_factor s" "cb_rounding_bytes s = step" "1 \<le> step"
    using settings by (auto simp: calibration_settings_of_def split: decimal_value.splits if_splits)
  obtain ps where ps: "collect_checked peak_of summaries = Inr ps"
    using report by (auto simp: capacity_report_def Let_def)
  obtain p where p: "p \<in> set ps" "peak_of summary = Inr p" using peaks_of_summaries [OF ps summary] by blast
  have bounds: "0 \<le> x \<and> x < 10 ^ 28" if x: "x \<in> set ps" for x
  proof -
    obtain i where i: "i < length ps" "ps ! i = x" using x by (auto simp: in_set_conv_nth)
    with ps have "summaries ! i \<in> set summaries" "peak_of (summaries ! i) = Inr x"
      by (auto simp: collect_checked_Inr list_all2_conv_all_nth)
    with peaks show ?thesis by force
  qed
  let ?max = "last (sort ps)"
  have "ps \<noteq> []" using p(1) by auto
  then have "sort ps \<noteq> []" by (metis set_empty set_sort)
  then have max: "?max \<in> set ps" using last_in_set [of "sort ps"] by simp
  have above: "p \<le> ?max"
  proof -
    obtain i where i: "i < length (sort ps)" "sort ps ! i = p" using p(1) by (metis in_set_conv_nth set_sort)
    then have "sort ps ! i \<le> sort ps ! (length (sort ps) - 1)" by (intro sorted_nth_mono) auto
    then show ?thesis using i last_conv_nth [OF \<open>sort ps \<noteq> []\<close>] by simp
  qed
  have statistics: "statistics ps = Some \<lparr>by_p50 = nearest_rank (sort ps) (1 / 2), by_p95 = nearest_rank (sort ps) (95 / 100), by_maximum = ?max\<rparr>"
    using \<open>ps \<noteq> []\<close> by (simp add: statistics_def Let_def)
  have advice: "advice = recommendation s ?max"
    using capacity_report_recommendation [OF report ps] recommended by (simp add: statistics split: if_splits)
  let ?scaled = "scaled_bytes (cb_safety_factor s) ?max"
  have "of_int ?max * 1 \<le> of_int ?max * cb_safety_factor s"
    by (rule mult_left_mono) (use s(1) bounds [OF max] in auto)
  then have "of_int ?max \<le> dec28 (of_int ?max * cb_safety_factor s)"
    by (intro dec28_ge) (use bounds [OF max] in auto)
  then have scaled: "?max \<le> ?scaled" by (simp add: scaled_bytes_def) linarith
  have "json_field ''scaled_bytes'' advice = Some (JInt ?scaled)"
    "json_field ''recommended_reservation_bytes'' advice = Some (JInt (round_up ?scaled step))"
    by (simp_all add: advice recommendation_def Let_def json_field_def s(2))
  with p(2) above scaled round_up_bounds [OF s(3), of ?scaled] show ?thesis by fastforce
qed

section \<open>Examples\<close>

text \<open>A run of the monitor on a task whose output is one mesh, with no sample but the last.\<close>

definition demo_fs :: "string option \<Rightarrow> file_system" where
  "demo_fs report_text = \<lparr>fs_real = \<lambda>p. p, fs_link = \<lambda>_. False, fs_data = \<lambda>p. if last p = ''storage-usage.json'' then report_text else None,
     fs_dir = \<lambda>_. True, fs_names = \<lambda>_. []\<rparr>"

definition demo_directory :: "(string \<times> storage_entry) list option" where
  "demo_directory = Some [(''output'', Directory (Some [(''C'', Directory (Some [(''mesh.glb'', Regular (Some 7))]))]))]"

definition demo_selection :: selection where
  "demo_selection = \<lparr>sl_discovered = 0, sl_excluded = 0, sl_invalid = 0\<rparr>"

definition demo_sampler :: sampler where
  "demo_sampler = \<lparr>sa_job_id = uuid_str 5, sa_attempt = 1, sa_worker_id = ''w'', sa_branches = expected_branches, sa_gpu_index = None,
     sa_tool = None, sa_previous_cpu = None, sa_peak_total = 0, sa_peak_runtime = 0, sa_peak_output = 0, sa_peak_branch = (\<lambda>_. 0),
     sa_observations = 0, sa_errors = {}\<rparr>"

definition demo_facts :: monitor_facts where
  "demo_facts = \<lparr>mf_sample = \<lparr>sf_host = \<lparr>hf_proc_stat = None, hf_meminfo = None, hf_disk_usage = None, hf_cpu_count = None\<rparr>,
     sf_smi = Smi_failed, sf_directory = demo_directory, sf_sample_id = 1, sf_sampled_at = ''now''\<rparr>, mf_now = 0, mf_append = Append_done\<rparr>"

definition demo_exit :: monitor_end where
  "demo_exit = \<lparr>me_alive = False, me_sample = demo_facts, me_directory = demo_directory, me_measured_at = ''now'',
     me_failed = False, me_wanted = True\<rparr>"

definition demo_monitor_settings :: monitor_settings where
  "demo_monitor_settings = \<lparr>mo_enabled = True, mo_interval_seconds = 15, mo_task_storage_interval_seconds = 60, mo_nvidia_smi_path = None\<rparr>"

definition demo_monitor :: monitor where
  "demo_monitor = run_monitor (unary_codecs Map.empty) (\<lambda>_. ''{}'') demo_monitor_settings [] demo_exit demo_sampler"

lemma demo_monitor_report: "\<exists>report_text. mn_summary demo_monitor = Some report_text"
  by (simp add: demo_monitor_def run_monitor_def demo_monitor_settings_def demo_exit_def write_storage_summary_def storage_summary_def
      validate_contract_def unary_codecs_def Let_def split: prod.split)

theorem monitor_summary_is_never_invalid_witness:
  "\<exists>report_text summary. load_summary (unary_codecs Map.empty) (demo_fs (Some report_text)) [''d'', ''jobs''] (uuid_str 5) ([], demo_selection) = Inr
    (if json_field ''status'' summary = Some (JString ''complete'') then ([summary], found demo_selection)
     else ([], (found demo_selection)\<lparr>sl_excluded := sl_excluded demo_selection + 1\<rparr>))"
proof -
  obtain report_text where report: "mn_summary demo_monitor = Some report_text" using demo_monitor_report by blast
  have keeps: "\<forall>v. keeps_json (unary_codecs Map.empty) ''storage-usage'' v" by (simp add: unary_keeps_json)
  have sampler: "new_sampler (demo_fs None) [''d''] (uuid_str 5) 1 ''w'' ''cpu:0'' None expected_branches = Inr demo_sampler"
    by (simp add: new_sampler_def parse_uuid_str gpu_index_def from_data_root_def canonical_job_id_def lower_uuid_str require_def
        is_within_def is_dir_def demo_fs_def demo_sampler_def expected_branches_def)
  have sizes: "sizes_ok demo_directory" by (simp add: sizes_ok_def demo_directory_def task_files_def)
  have id: "sa_job_id demo_sampler = uuid_str 5" by (simp add: demo_sampler_def)
  let ?fs = "demo_fs (Some report_text)"
  have files: "read_file ?fs ([''d'', ''jobs''] @ [sa_job_id demo_sampler, ''reports'', ''storage-usage.json'']) = Some report_text"
    "is_dir ?fs ([''d'', ''jobs''] @ [sa_job_id demo_sampler])" "is_dir ?fs ([''d'', ''jobs''] @ [sa_job_id demo_sampler, ''reports''])"
    "fs_link ?fs = (\<lambda>_. False)" by (simp_all add: demo_fs_def read_file_def is_dir_def)
  have exits: "sizes_ok (sf_directory (mf_sample (me_sample demo_exit)))" "sizes_ok (me_directory demo_exit)"
    using sizes by (simp_all add: demo_exit_def demo_facts_def)
  have "\<forall>f \<in> set []. sizes_ok (sf_directory (mf_sample f))" by simp
  from monitor_summary_is_never_invalid [OF sampler this exits report [unfolded demo_monitor_def] keeps files, of "[]" demo_selection]
  show ?thesis unfolding id append_Nil by blast
qed

definition demo_summary :: json where
  "demo_summary = JObject [(''final'', JObject ((''total_bytes'', JInt 700) # map (\<lambda>(_, field). (field, JInt 100)) final_tiers @
     [(''branches'', JList (map (\<lambda>b. JObject [(''name'', JString b), (''used_bytes'', JInt 30)]) expected_branches))])),
     (''peaks'', JObject [(''total_bytes'', JInt 1000)])]"

definition demo_calibration :: calibration_settings where
  "demo_calibration = \<lparr>cb_minimum_samples = 1, cb_safety_factor = 5 / 4, cb_rounding_bytes = 1024\<rparr>"

lemma demo_peak: "peak_of demo_summary = Inr 1000"
  by (simp add: peak_of_def demo_summary_def item_def int_item_def)

lemma demo_capacity:
  "\<exists>report. capacity_report (unary_codecs Map.empty) demo_calibration ''now'' [demo_summary] demo_selection = Inr report"
  by (simp add: capacity_report_def Let_def peak_of_def final_field_def tier_json_def branch_json_def branch_bytes_def branch_list_def
      named_bytes_def demo_summary_def final_tiers_def expected_branches_def item_def int_item_def elements_of_def text_of_def
      validate_contract_def unary_codecs_def)

theorem recommendation_covers_every_peak_witness:
  "\<exists>report advice n scaled. capacity_report (unary_codecs Map.empty) demo_calibration ''now'' [demo_summary] demo_selection = Inr report \<and>
     json_field ''recommendation'' report = Some advice \<and> json_field ''recommended_reservation_bytes'' advice = Some (JInt n) \<and>
     json_field ''scaled_bytes'' advice = Some (JInt scaled) \<and> 1000 \<le> n \<and> n mod 1024 = 0 \<and> n < scaled + 1024"
proof -
  obtain report where report: "capacity_report (unary_codecs Map.empty) demo_calibration ''now'' [demo_summary] demo_selection = Inr report"
    using demo_capacity by blast
  have settings: "calibration_settings_of 1 (Dec (5 / 4)) 1024 = Inr demo_calibration"
    by (simp add: calibration_settings_of_def demo_calibration_def)
  have "collect_checked peak_of [demo_summary] = Inr [1000]" by (simp add: demo_peak)
  from capacity_report_recommendation [OF report this]
  have advice: "json_field ''recommendation'' report = Some (recommendation demo_calibration 1000)"
    by (simp add: statistics_def Let_def demo_calibration_def)
  have "recommendation demo_calibration 1000 \<noteq> JNull" by (simp add: recommendation_def Let_def)
  from recommendation_covers_every_peak [OF settings report advice this, of demo_summary]
  show ?thesis using report advice by (auto simp: demo_peak)
qed

end
