(* ===== verification/Development_Jobs.thy ===== *)
theory Development_Jobs
  imports Job_Queue Json_Values
begin

text \<open>
  Simulated jobs for development, \<^verbatim>\<open>backend/jobs/development.py\<close>: the service writes a task directory of
  its own, with images that are only texts, and queues the job; whatever fails on the way removes the directory.
  Removing a directory succeeds, and a string that the queue would get as another value is a \<open>TypeError\<close>.
\<close>

section \<open>Creating directories and files\<close>

text \<open>\<open>mkdir(parents=True)\<close> lists what is new in the directory above it.\<close>

definition list_path :: "path \<Rightarrow> (path \<Rightarrow> string list) \<Rightarrow> path \<Rightarrow> string list" where
  "list_path p names = (\<lambda>d.
     if strict_prefix d p \<and> p ! length d \<notin> set (names d) then names d @ [p ! length d] else names d)"

definition make_directories :: "path \<Rightarrow> file_system \<Rightarrow> file_system" where
  "make_directories p fs = fs\<lparr>fs_dir := (\<lambda>q. fs_dir fs q \<or> prefix q p), fs_names := list_path p (fs_names fs)\<rparr>"

definition mkdir_parents :: "bool \<Rightarrow> path \<Rightarrow> file_system \<Rightarrow> (adapter_error, unit, file_system) outcome" where
  "mkdir_parents exist_ok p fs =
     (if list_ex (is_file fs) (prefixes p) \<or> \<not> exist_ok \<and> is_dir fs p then (Inl Os_error, fs)
      else (Inr (), make_directories p fs))"

text \<open>\<open>atomic_write_bytes\<close> of a file in a directory that is created and listed with it.\<close>

definition create_file :: "bool \<Rightarrow> path \<Rightarrow> string \<Rightarrow> file_system \<Rightarrow> (adapter_error, unit, file_system) outcome" where
  "create_file failed p payload fs =
     followed_by (mkdir_parents True (butlast p) fs) (\<lambda>_ fs.
     followed_by (atomic_write failed p payload fs) (\<lambda>_ fs.
     (Inr (), fs\<lparr>fs_names := list_path p (fs_names fs)\<rparr>)))"

definition created_layout :: "path \<Rightarrow> string \<Rightarrow> file_system \<Rightarrow> (adapter_error, task_layout, file_system) outcome" where
  "created_layout data_root name fs =
     reading (canonical_job_id name) fs (\<lambda>canonical.
     let data = fs_real fs data_root; jobs = fs_real fs (data @ [''jobs'']); root = fs_real fs (jobs @ [canonical])
     in reading (require (butlast root = jobs \<and> is_within root jobs)
          (Path_boundary ''task directory is outside the jobs root'')) fs (\<lambda>_.
        followed_by (mkdir_parents True root fs) (\<lambda>_ fs.
        (Inr \<lparr>tl_data_root = data, tl_jobs_root = jobs, tl_root = root, tl_job_id = canonical\<rparr>, fs))))"

section \<open>The task\<close>

text \<open>The two names that a task gets, the clock, and which of its writes fail, by their number.\<close>

record task_facts =
  tf_job_id :: uuid
  tf_request_id :: uuid
  tf_created_at :: string
  tf_failed :: "nat \<Rightarrow> bool"

definition image_name :: "nat \<Rightarrow> string" where
  "image_name index = zero_padded 6 index @ ''.jpg''"

definition image_payload :: "nat \<Rightarrow> string" where
  "image_payload index = ''re3d-development-simulation-'' @ decimal index"

definition write_image ::
  "codecs \<Rightarrow> (nat \<Rightarrow> bool) \<Rightarrow> path \<Rightarrow> nat \<Rightarrow> file_system \<Rightarrow> (adapter_error, json \<times> int, file_system) outcome" where
  "write_image cs failed images_path index fs =
     (let p = images_path @ [image_name index]; payload = image_payload index
      in followed_by (create_file (failed index) p payload fs) (\<lambda>_ fs.
         reading (sha256_file cs fs p) fs (\<lambda>sha.
         (Inr (JObject [(''name'', JString (last p)), (''sha256'', JString sha), (''size_bytes'', JInt (int (length payload))),
            (''content_type'', JString ''image/jpeg''), (''simulation'', JBool True)], int (length payload)), fs))))"

fun write_images ::
  "codecs \<Rightarrow> (nat \<Rightarrow> bool) \<Rightarrow> path \<Rightarrow> nat list \<Rightarrow> json list \<times> int \<Rightarrow> file_system \<Rightarrow>
     (adapter_error, json list \<times> int, file_system) outcome" where
  "write_images cs failed images_path [] acc fs = (Inr acc, fs)"
| "write_images cs failed images_path (index # indices) (records, total_bytes) fs =
     followed_by (write_image cs failed images_path index fs) (\<lambda>(r, n) fs.
     write_images cs failed images_path indices (records @ [r], total_bytes + n) fs)"

definition manifest_json :: "json list \<Rightarrow> json" where
  "manifest_json records = JObject
     [(''schema_version'', JString ''1.0''), (''simulation'', JBool True), (''images'', JList records)]"

definition request_json ::
  "json \<Rightarrow> task_facts \<Rightarrow> string \<Rightarrow> uuid \<Rightarrow> nat \<Rightarrow> int \<Rightarrow> string \<Rightarrow> string \<Rightarrow> json checked" where
  "request_json baseline f name user_id image_count total_bytes manifest_sha256 idempotency_key =
     bind_checked (item ''tag'' baseline) (\<lambda>tag. bind_checked (item ''commit'' baseline) (\<lambda>commit.
     bind_checked (item2 ''pipeline_config'' ''sha256'' baseline) (\<lambda>config.
     bind_checked (item ''default_branches'' baseline) (\<lambda>branches.
     Inr (JObject
       [(''contract_version'', JString ''1.0''), (''execution_mode'', JString ''simulated''),
        (''request_id'', JString (uuid_str (tf_request_id f))), (''job_id'', JString name), (''attempt'', JInt 1),
        (''created_at'', JString (tf_created_at f)),
        (''requested_by'', JObject [(''user_id'', JString (uuid_str user_id))]),
        (''pipeline'', JObject [(''name'', JString ''Re3D''), (''tag'', tag), (''commit'', commit), (''config_sha256'', config)]),
        (''input'', JObject [(''images_path'', JString ''input/images''),
          (''manifest_path'', JString ''input/input-manifest.json''), (''manifest_sha256'', JString manifest_sha256),
          (''image_count'', JInt (int image_count)), (''total_bytes'', JInt total_bytes)]),
        (''branches'', branches),
        (''storage'', JObject [(''work_path'', JString ''runtime/work''), (''logs_path'', JString ''runtime/logs''),
          (''output_path'', JString ''output''), (''reports_path'', JString ''reports''),
          (''manifests_path'', JString ''manifests'')]),
        (''limits'', JObject [(''timeout_seconds'', JInt 3600), (''max_disk_bytes'', JInt 1073741824),
          (''gpu_concurrency'', JInt 1)]),
        (''idempotency_key'', JString idempotency_key)])))))"

text \<open>\<open>_write_task_files\<close>: the images are the first writes, the manifest and the request the last two.\<close>

definition write_task_files ::
  "codecs \<Rightarrow> json \<Rightarrow> task_facts \<Rightarrow> task_layout \<Rightarrow> uuid \<Rightarrow> nat \<Rightarrow> string \<Rightarrow> file_system \<Rightarrow>
     (adapter_error, json, file_system) outcome" where
  "write_task_files cs baseline f l user_id image_count idempotency_key fs =
     reading (resolve fs l ''input/images'') fs (\<lambda>images_path.
     followed_by (mkdir_parents False images_path fs) (\<lambda>_ fs.
     followed_by (write_images cs (tf_failed f) images_path [0..<image_count] ([], 0) fs) (\<lambda>(records, total_bytes) fs.
     reading (resolve fs l ''input/input-manifest.json'') fs (\<lambda>manifest_path.
     followed_by (create_file (tf_failed f image_count) manifest_path (json_text cs (manifest_json records)) fs) (\<lambda>_ fs.
     reading (sha256_file cs fs manifest_path) fs (\<lambda>sha.
     reading (request_json baseline f (tl_job_id l) user_id image_count total_bytes sha idempotency_key) fs (\<lambda>request.
     reading (validate_contract cs ''pipeline-request'' request) fs (\<lambda>_.
     reading (request_path fs l) fs (\<lambda>p.
     followed_by (create_file (tf_failed f (image_count + 1)) p (json_text cs request) fs) (\<lambda>_ fs.
     (Inr request, fs)))))))))))"

text \<open>\<open>rmtree\<close> of the task directory.\<close>

definition remove_unqueued_task :: "task_layout \<Rightarrow> file_system \<Rightarrow> file_system" where
  "remove_unqueued_task l fs =
     (let root = tl_root l
      in if is_dir fs root \<and> butlast root = tl_jobs_root l then
           fs\<lparr>fs_data := (\<lambda>p. if prefix root p then None else fs_data fs p),
             fs_dir := (\<lambda>p. \<not> prefix root p \<and> fs_dir fs p),
             fs_names := (\<lambda>d. if prefix root d then [] else if d = butlast root then removeAll (last root) (fs_names fs d)
               else fs_names fs d)\<rparr>
         else fs)"

section \<open>The service\<close>

datatype development_error = Invalid_argument string | Task_error adapter_error | Queue_error queue_error

record development_world =
  dw_database :: database
  dw_files :: file_system

text \<open>What a call meets: the new names, the time, and what other users of the queue do while it writes its files.\<close>

record development_facts =
  df_task :: task_facts
  df_now :: time
  df_meanwhile :: "database \<Rightarrow> database"

definition enqueue_arguments :: "uuid \<Rightarrow> uuid \<Rightarrow> json \<Rightarrow> string \<Rightarrow> enqueue_request checked" where
  "enqueue_arguments new_id user_id request idempotency_key =
     bind_checked (bind_checked (item2 ''pipeline'' ''tag'' request) text_of) (\<lambda>tag.
     bind_checked (bind_checked (item2 ''pipeline'' ''commit'' request) text_of) (\<lambda>commit.
     bind_checked (bind_checked (item2 ''pipeline'' ''config_sha256'' request) text_of) (\<lambda>config.
     bind_checked (bind_checked (item2 ''input'' ''manifest_sha256'' request) text_of) (\<lambda>manifest.
     Inr \<lparr>eq_job_id = new_id, eq_user_id = user_id, eq_execution_mode = ''simulated'', eq_pipeline_tag = tag,
       eq_pipeline_commit = commit, eq_config_sha256 = config, eq_input_manifest_sha256 = manifest,
       eq_idempotency_key = idempotency_key, eq_priority = 0, eq_attempt = 1, eq_storage_reserved_bytes = 0\<rparr>))))"

definition write_and_enqueue ::
  "codecs \<Rightarrow> json \<Rightarrow> development_facts \<Rightarrow> task_layout \<Rightarrow> uuid \<Rightarrow> nat \<Rightarrow> string \<Rightarrow> development_world \<Rightarrow>
     (development_error, unit, development_world) outcome" where
  "write_and_enqueue cs baseline f l user_id image_count key w =
     (let (written, fs) = write_task_files cs baseline (df_task f) l user_id image_count key (dw_files w);
          w1 = \<lparr>dw_database = df_meanwhile f (dw_database w), dw_files = fs\<rparr>
      in case bind_checked written (\<lambda>request. enqueue_arguments (tf_job_id (df_task f)) user_id request key) of
           Inl e \<Rightarrow> (Inl (Task_error e), w1)
         | Inr q \<Rightarrow> (case enqueue q (df_now f) (dw_database w1) of
               (Inl e, db) \<Rightarrow> (Inl (Queue_error e), w1\<lparr>dw_database := db\<rparr>)
             | (Inr _, db) \<Rightarrow> (Inr (), w1\<lparr>dw_database := db\<rparr>)))"

type_synonym created_job = "(string \<times> snapshot_value) list \<times> bool"

definition find_existing :: "uuid \<Rightarrow> string \<Rightarrow> database \<Rightarrow> development_error + (string \<times> snapshot_value) list option" where
  "find_existing user_id key db =
     (case get_job_by_idempotency user_id key db of Inl e \<Rightarrow> Inl (Queue_error e) | Inr r \<Rightarrow> Inr r)"

definition create_simulated_job ::
  "codecs \<Rightarrow> json \<Rightarrow> path \<Rightarrow> development_facts \<Rightarrow> uuid \<Rightarrow> int \<Rightarrow> string \<Rightarrow> development_world \<Rightarrow>
     (development_error, created_job, development_world) outcome" where
  "create_simulated_job cs baseline data_root f user_id image_count token w =
     (let key = cs_sha256 cs (uuid_str user_id @ '':'' @ token)
      in if \<not> (3 \<le> image_count \<and> image_count \<le> 300)
         then (Inl (Invalid_argument ''image_count must be between 3 and 300''), w)
         else if \<not> (8 \<le> length token \<and> length token \<le> 128)
         then (Inl (Invalid_argument ''idempotency_token must contain 8 to 128 characters''), w)
         else reading (find_existing user_id key (dw_database w)) w (\<lambda>existing.
           case existing of
             Some snapshot \<Rightarrow> (Inr (snapshot, True), w)
           | None \<Rightarrow>
               (case created_layout data_root (uuid_str (tf_job_id (df_task f))) (dw_files w) of
                  (Inl e, fs) \<Rightarrow> (Inl (Task_error e), w\<lparr>dw_files := fs\<rparr>)
                | (Inr l, fs) \<Rightarrow>
                    (case write_and_enqueue cs baseline f l user_id (nat image_count) key (w\<lparr>dw_files := fs\<rparr>) of
                       (Inl e, w1) \<Rightarrow>
                         let w2 = w1\<lparr>dw_files := remove_unqueued_task l (dw_files w1)\<rparr>
                         in if e = Queue_error Queue_conflict then
                              reading (find_existing user_id key (dw_database w2)) w2 (\<lambda>existing.
                              case existing of None \<Rightarrow> (Inl e, w2) | Some snapshot \<Rightarrow> (Inr (snapshot, True), w2))
                            else (Inl e, w2)
                     | (Inr _, w1) \<Rightarrow>
                         (case query_job (tf_job_id (df_task f)) (Some user_id) (dw_database w1) of
                            Inl e \<Rightarrow> (Inl (Queue_error e), w1)
                          | Inr snapshot \<Rightarrow> (Inr (snapshot, False), w1))))))"

end
