(* ===== verification/Development_Theorems.thy ===== *)
theory Development_Theorems
  imports Development_Jobs Simulation_Steps Unary_Codec
begin

text \<open>
  A development job is created whole or not at all: a call that succeeds leaves a queued job whose task
  directory the simulation runner accepts, every other call leaves the rows and the files as they were.
\<close>

section \<open>Names of images\<close>

fun digits_of_width :: "nat \<Rightarrow> nat \<Rightarrow> string" where
  "digits_of_width 0 n = []"
| "digits_of_width (Suc w) n = digits_of_width w (n div 10) @ [numeral_char (n mod 10)]"

lemma digits_of_zero: "digits_of_width w 0 = replicate w (CHR ''0'')"
proof (induction w)
  case (Suc w)
  have "numeral_char 0 = CHR ''0''" by (simp add: numeral_char_def char_of_eq_iff take_bit_eq_mod)
  with Suc show ?case by (simp flip: replicate_append_same)
qed simp

lemma zero_padded_digits: "n < 10 ^ w \<Longrightarrow> 0 < w \<Longrightarrow> zero_padded w n = digits_of_width w n"
proof (induction w arbitrary: n)
  case (Suc w)
  show ?case
  proof (cases "n < 10")
    case True
    then show ?thesis by (simp add: zero_padded_def decimal.simps [of n] digits_of_zero)
  next
    case False
    then have "0 < w" using Suc.prems(1) by (cases w) auto
    moreover have "n div 10 < 10 ^ w" using Suc.prems(1) by (simp add: less_mult_imp_div_less mult.commute)
    ultimately have "zero_padded w (n div 10) = digits_of_width w (n div 10)" by (rule Suc.IH [rotated])
    then show ?thesis using False by (simp add: zero_padded_def decimal.simps [of n])
  qed
qed simp

lemma digits_of_width_inject:
  "n < 10 ^ w \<Longrightarrow> m < 10 ^ w \<Longrightarrow> digits_of_width w n = digits_of_width w m \<Longrightarrow> n = m"
proof (induction w arbitrary: n m)
  case (Suc w)
  then have "numeral_char (n mod 10) = numeral_char (m mod 10)" "digits_of_width w (n div 10) = digits_of_width w (m div 10)" by auto
  moreover have "n mod 10 < 16" "m mod 10 < 16" by (rule less_trans [of _ 10]; simp)+
  ultimately have "n mod 10 = m mod 10" "digits_of_width w (n div 10) = digits_of_width w (m div 10)"
    using numeral_char_inject by blast+
  moreover have "n div 10 < 10 ^ w" "m div 10 < 10 ^ w"
    using Suc.prems by (simp_all add: less_mult_imp_div_less mult.commute)
  ultimately show ?case using Suc.IH by (metis div_mult_mod_eq)
qed simp

lemma digits_of_width_char: "c \<in> set (digits_of_width w n) \<Longrightarrow> \<exists>d < 10. c = numeral_char d"
proof (induction w arbitrary: n)
  case (Suc w)
  have "\<exists>d < 10. numeral_char (n mod 10) = numeral_char d" by (rule exI [of _ "n mod 10"]) simp
  with Suc show ?case by auto
qed simp

lemma image_name_inject: "i < 1000000 \<Longrightarrow> j < 1000000 \<Longrightarrow> image_name i = image_name j \<Longrightarrow> i = j"
  using digits_of_width_inject [of i 6 j] by (simp add: image_name_def zero_padded_digits)

lemma digit_no_slash: "d < 10 \<Longrightarrow> numeral_char d \<noteq> CHR ''/'' \<and> numeral_char d \<noteq> CHR 0x5C"
  by (auto simp: numeral_char_def char_of_eq_iff take_bit_eq_mod)

lemma image_name_ok: "i < 1000000 \<Longrightarrow> \<not> bad_image_name (image_name i)"
  using digits_of_width_char [of _ 6 i] digit_no_slash
  by (fastforce simp: bad_image_name_def image_name_def zero_padded_digits)

section \<open>What the writes leave\<close>

text \<open>Only files below a directory change, and no directory goes away.\<close>

definition adds_below :: "path \<Rightarrow> file_system \<Rightarrow> file_system \<Rightarrow> bool" where
  "adds_below below fs fs' \<longleftrightarrow> fs_real fs' = fs_real fs \<and> fs_link fs' = fs_link fs \<and>
     (\<forall>p. fs_dir fs p \<longrightarrow> fs_dir fs' p) \<and> (\<forall>p. \<not> prefix below p \<longrightarrow> fs_data fs' p = fs_data fs p)"

lemma adds_below_refl [simp]: "adds_below below fs fs"
  by (simp add: adds_below_def)

lemma adds_below_trans: "adds_below below fs fs1 \<Longrightarrow> adds_below below fs1 fs2 \<Longrightarrow> adds_below below fs fs2"
  by (simp add: adds_below_def)

lemma adds_below_make [simp]: "adds_below below fs (make_directories p fs)"
  by (simp add: adds_below_def make_directories_def)

lemma mkdir_grows: "mkdir_parents b p fs = (r, fs') \<Longrightarrow> adds_below below fs fs'"
  by (auto simp: mkdir_parents_def split: if_splits)

lemma create_grows:
  assumes "create_file failed p payload fs = (r, fs')" "prefix below p"
  shows "adds_below below fs fs'"
proof -
  obtain r1 fs1 where made: "mkdir_parents True (butlast p) fs = (r1, fs1)" by fastforce
  have "adds_below below fs1 fs'" if "r1 = Inr ()"
    using assms made that by (auto simp: create_file_def atomic_write_def followed_by_def adds_below_def split: if_splits)
  moreover have "fs' = fs1" if "r1 = Inl e" for e
    using assms made that by (simp add: create_file_def)
  ultimately show ?thesis using adds_below_trans [OF mkdir_grows [OF made]] mkdir_grows [OF made] by (cases r1) auto
qed

lemma images_grow:
  "write_images cs failed ip is acc fs = (r, fs') \<Longrightarrow> prefix below ip \<Longrightarrow> adds_below below fs fs'"
proof (induction cs failed ip "is" acc fs rule: write_images.induct)
  case (2 cs failed ip i "is" records n fs)
  obtain r1 fs1 where one: "write_image cs failed ip i fs = (r1, fs1)" by fastforce
  obtain r0 fs0 where wrote: "create_file (failed i) (ip @ [image_name i]) (image_payload i) fs = (r0, fs0)" by fastforce
  have "adds_below below fs fs0" using create_grows [OF wrote] "2.prems"(2) by simp
  moreover have "fs1 = fs0"
    using one wrote by (cases r0) (auto simp: write_image_def Let_def reading_def split: sum.splits)
  ultimately have first: "adds_below below fs fs1" by simp
  show ?case
  proof (cases r1)
    case (Inr x)
    obtain a b where "x = (a, b)" by fastforce
    with "2.prems" "2.IH" one Inr have "adds_below below fs1 fs'" by simp
    with first show ?thesis by (rule adds_below_trans)
  qed (use "2.prems" one first in simp)
qed simp

text \<open>A file that was written, on a tree without links.\<close>

lemma create_file_Inr:
  assumes "create_file failed p payload fs = (Inr u, fs')"
  shows "fs_data fs' = (fs_data fs)(p \<mapsto> payload) \<and>
    fs_names fs' = list_path p (list_path (butlast p) (fs_names fs)) \<and> fs_real fs' = fs_real fs"
  using assms
  by (auto simp: create_file_def mkdir_parents_def atomic_write_def make_directories_def followed_by_def split: if_splits)

lemma list_path_other: "\<not> strict_prefix d p \<Longrightarrow> list_path p names d = names d"
  by (simp add: list_path_def)

lemma list_file: "list_path (ip @ [name]) (list_path ip names) ip = (if name \<in> set (names ip) then names ip else names ip @ [name])"
  by (simp add: list_path_def strict_prefix_def)

definition image_record :: "codecs \<Rightarrow> nat \<Rightarrow> json" where
  "image_record cs index = JObject
     [(''name'', JString (image_name index)), (''sha256'', JString (cs_sha256 cs (image_payload index))),
      (''size_bytes'', JInt (int (length (image_payload index)))), (''content_type'', JString ''image/jpeg''),
      (''simulation'', JBool True)]"

definition image_files :: "path \<Rightarrow> nat list \<Rightarrow> path \<rightharpoonup> string" where
  "image_files ip is = map_of (map (\<lambda>i. (ip @ [image_name i], image_payload i)) is)"

lemma write_image_Inr:
  assumes "write_image cs failed ip i fs = (Inr (r, n), fs')" "fs_real fs = id" "image_name i \<notin> set (fs_names fs ip)"
  shows "r = image_record cs i \<and> n = int (length (image_payload i)) \<and> fs_data fs' = (fs_data fs)(ip @ [image_name i] \<mapsto> image_payload i) \<and>
    fs_names fs' ip = fs_names fs ip @ [image_name i] \<and> fs_real fs' = id"
proof -
  obtain fs1 where wrote: "create_file (failed i) (ip @ [image_name i]) (image_payload i) fs = (Inr (), fs1)"
    using assms(1) by (auto simp: write_image_def Let_def followed_by_Inr)
  note new = create_file_Inr [OF wrote]
  have "sha256_file cs fs1 (ip @ [image_name i]) = Inr (cs_sha256 cs (image_payload i))"
    using new assms(2) by (simp add: sha256_file_def read_file_def)
  then have "fs' = fs1" "r = image_record cs i" "n = int (length (image_payload i))"
    using assms(1) wrote by (auto simp: write_image_def Let_def reading_def image_record_def)
  then show ?thesis using new assms(2,3) by (simp add: list_file)
qed

lemma write_images_Inr:
  assumes "write_images cs failed ip is (records, n) fs = (Inr (records', n'), fs')" "fs_real fs = id"
    "distinct (map image_name is)" "set (map image_name is) \<inter> set (fs_names fs ip) = {}"
  shows "records' = records @ map (image_record cs) is \<and> n' = n + sum_list (map (\<lambda>i. int (length (image_payload i))) is) \<and>
    fs_data fs' = fs_data fs ++ image_files ip is \<and> fs_names fs' ip = fs_names fs ip @ map image_name is \<and> fs_real fs' = id"
  using assms
proof (induction "is" arbitrary: records n fs)
  case Nil
  then show ?case by (simp add: image_files_def)
next
  case (Cons i "is")
  obtain r m fs1 where one: "write_image cs failed ip i fs = (Inr (r, m), fs1)"
    and rest: "write_images cs failed ip is (records @ [r], n + m) fs1 = (Inr (records', n'), fs')"
    using Cons.prems(1) by (auto simp: followed_by_Inr)
  have new: "image_name i \<notin> set (fs_names fs ip)" using Cons.prems(4) by simp
  note first = write_image_Inr [OF one Cons.prems(2) new]
  have "set (map image_name is) \<inter> set (fs_names fs1 ip) = {}" using Cons.prems(3,4) first by auto
  note last = Cons.IH [OF rest _ _ this]
  have "image_name i \<notin> image_name ` set is" using Cons.prems(3) by simp
  then have "ip @ [image_name i] \<notin> dom (image_files ip is)" by (auto simp: image_files_def dom_map_of_conv_image_fst)
  then have "(fs_data fs)(ip @ [image_name i] \<mapsto> image_payload i) ++ image_files ip is = fs_data fs ++ image_files ip (i # is)"
    by (simp add: map_add_upd_left) (simp add: image_files_def)
  then have "fs_data fs1 ++ image_files ip is = fs_data fs ++ image_files ip (i # is)" using first by (simp only: conj_assoc)
  moreover have "fs_real fs1 = id" "distinct (map image_name is)" using first Cons.prems(3) by simp_all
  note last = last [OF this]
  ultimately have "fs_data fs' = fs_data fs ++ image_files ip (i # is)" using last by metis
  moreover have "r = image_record cs i" "m = int (length (image_payload i))" "fs_names fs1 ip = fs_names fs ip @ [image_name i]"
    using first by blast+
  moreover have "records' = (records @ [r]) @ map (image_record cs) is" "n' = n + m + sum_list (map (\<lambda>i. int (length (image_payload i))) is)"
    "fs_names fs' ip = fs_names fs1 ip @ map image_name is" "fs_real fs' = id" using last by blast+
  ultimately show ?case by simp
qed

section \<open>A task directory that is written\<close>

lemma adds_followed:
  "adds_below below fs (snd m) \<Longrightarrow> (\<And>x s. m = (Inr x, s) \<Longrightarrow> adds_below below s (snd (f x s))) \<Longrightarrow>
     adds_below below fs (snd (followed_by m f))"
  by (cases m; cases "fst m") (auto intro: adds_below_trans)

lemma adds_reading:
  "(\<And>x. m = Inr x \<Longrightarrow> adds_below below fs (snd (f x))) \<Longrightarrow> adds_below below fs (snd (reading m fs f))"
  by (cases m) (simp_all add: reading_def)

lemma create_adds: "prefix below p \<Longrightarrow> adds_below below fs (snd (create_file failed p payload fs))"
  by (metis create_grows prod.collapse)

lemma write_task_adds: "adds_below (tl_root l) fs (snd (write_task_files cs baseline f l user_id n key fs))"
proof -
  have mkdir: "adds_below (tl_root l) fs (snd (mkdir_parents False p fs))" for p fs by (metis mkdir_grows prod.collapse)
  have images: "adds_below (tl_root l) fs (snd (write_images cs failed ip is acc fs))" if "prefix (tl_root l) ip" for failed ip "is" acc fs
    by (metis images_grow that prod.collapse)
  show ?thesis
    unfolding write_task_files_def request_path_def
    by (intro adds_reading adds_followed create_adds images mkdir)
      (auto simp: resolve_Inr split: prod.split intro!: adds_reading adds_followed create_adds images)
qed

definition images_place :: "task_layout \<Rightarrow> path" where
  "images_place l = tl_root l @ [''input'', ''images'']"

definition images_manifest :: "task_layout \<Rightarrow> path" where
  "images_manifest l = tl_root l @ [''input'', ''input-manifest.json'']"

definition task_manifest :: "codecs \<Rightarrow> nat \<Rightarrow> json" where
  "task_manifest cs n = manifest_json (map (image_record cs) [0..<n])"

definition image_bytes :: "nat \<Rightarrow> int" where
  "image_bytes n = sum_list (map (\<lambda>i. int (length (image_payload i))) [0..<n])"

lemma plain_of_id: "fs_real fs = id \<Longrightarrow> plain_root fs l"
  by (simp add: plain_root_def)

lemma write_task_Inr:
  assumes "write_task_files cs baseline f l user_id n key fs = (Inr request, fs')" "fs_real fs = id" "n \<le> 300"
    "fs_names fs (images_place l) = []"
  shows "request_json baseline f (tl_job_id l) user_id n (image_bytes n) (cs_sha256 cs (json_text cs (task_manifest cs n))) key = Inr request \<and>
    cs_valid cs ''pipeline-request'' request \<and>
    fs_data fs' = (fs_data fs ++ image_files (images_place l) [0..<n])(images_manifest l \<mapsto> json_text cs (task_manifest cs n),
      record_place l ''pipeline-request.json'' \<mapsto> json_text cs request) \<and>
    fs_names fs' (images_place l) = map image_name [0..<n] \<and> fs_dir fs' (images_place l) \<and> fs_real fs' = id"
proof -
  have places: "resolve fs l ''input/images'' = Inr (images_place l)" "resolve fs l ''input/input-manifest.json'' = Inr (images_manifest l)"
    "request_path fs l = Inr (record_place l ''pipeline-request.json'')" if "fs_real fs = id" for fs
    using plain_of_id [OF that] by (simp_all add: plain_resolve task_paths images_place_def images_manifest_def plain_paths)
  obtain fs1 where made: "mkdir_parents False (images_place l) fs = (Inr (), fs1)"
    using assms(1) by (auto simp: write_task_files_def places(1) [OF assms(2)] reading_def followed_by_Inr)
  have fs1: "fs1 = make_directories (images_place l) fs" using made by (simp add: mkdir_parents_def split: if_splits)
  then have made_facts: "fs_real fs1 = id" "fs_names fs1 (images_place l) = []" "fs_data fs1 = fs_data fs" "fs_dir fs1 (images_place l)"
    using assms(2,4) by (simp_all add: make_directories_def list_path_def)
  obtain records total_bytes fs2 where images: "write_images cs (tf_failed f) (images_place l) [0..<n] ([], 0) fs1 = (Inr (records, total_bytes), fs2)"
    using assms(1) by (auto simp: write_task_files_def places(1) [OF assms(2)] reading_def followed_by_Inr made)
  have "inj_on image_name (set [0..<n])" using assms(3) image_name_inject by (intro inj_onI) auto
  then have "distinct (map image_name [0..<n])" by (simp add: distinct_map)
  from write_images_Inr [OF images made_facts(1) this] made_facts(2)
  have images_facts: "records = map (image_record cs) [0..<n]" "total_bytes = image_bytes n"
    "fs_data fs2 = fs_data fs ++ image_files (images_place l) [0..<n]" "fs_names fs2 (images_place l) = map image_name [0..<n]" "fs_real fs2 = id"
    by (simp_all add: made_facts(3) image_bytes_def)
  have dir2: "fs_dir fs2 (images_place l)"
    using images_grow [OF images, of "tl_root l"] made_facts(4) by (simp add: adds_below_def images_place_def)
  have manifest: "manifest_json records = task_manifest cs n" by (simp add: images_facts task_manifest_def)
  obtain fs3 where wrote: "create_file (tf_failed f n) (images_manifest l) (json_text cs (task_manifest cs n)) fs2 = (Inr (), fs3)"
    using assms(1) by (auto simp: write_task_files_def places(1) [OF assms(2)] reading_def followed_by_Inr made images
        places(2) [OF images_facts(5)] manifest)
  note fs3 = create_file_Inr [OF wrote]
  have real3: "fs_real fs3 = id" using fs3 images_facts(5) by simp
  have sha: "sha256_file cs fs3 (images_manifest l) = Inr (cs_sha256 cs (json_text cs (task_manifest cs n)))"
    using fs3 real3 by (simp add: sha256_file_def read_file_def)
  note steps = places(1) [OF assms(2)] made images places(2) [OF images_facts(5)] manifest wrote sha places(3) [OF real3] images_facts(2)
  from assms(1) have req: "request_json baseline f (tl_job_id l) user_id n (image_bytes n) (cs_sha256 cs (json_text cs (task_manifest cs n))) key = Inr request"
    and valid: "cs_valid cs ''pipeline-request'' request"
    and last: "create_file (tf_failed f (n + 1)) (record_place l ''pipeline-request.json'') (json_text cs request) fs3 = (Inr (), fs')"
    by (auto simp: write_task_files_def reading_def followed_by_Inr steps validate_contract_def require_def split: sum.splits if_splits)
  note fs4 = create_file_Inr [OF last]
  have other: "\<not> strict_prefix (images_place l) (tl_root l @ [a])" "\<not> strict_prefix (images_place l) (tl_root l @ [a, b])" for a b
    by (auto simp: images_place_def strict_prefix_def prefix_def)
  have "butlast (images_manifest l) = tl_root l @ [''input'']" "butlast (record_place l ''pipeline-request.json'') = tl_root l @ [''manifests'']"
    by (simp_all add: images_manifest_def record_place_def butlast_append)
  then have apart: "\<not> strict_prefix (images_place l) p"
    if "p \<in> {images_manifest l, butlast (images_manifest l), record_place l ''pipeline-request.json'', butlast (record_place l ''pipeline-request.json'')}" for p
    using other that by (auto simp: images_manifest_def record_place_def)
  have names: "fs_names fs' (images_place l) = map image_name [0..<n]"
    using fs3 fs4 images_facts(4) apart by (simp add: list_path_other)
  have dir: "fs_dir fs' (images_place l)"
    using dir2 create_grows [OF wrote, of "tl_root l"] create_grows [OF last, of "tl_root l"]
    by (simp add: adds_below_def images_manifest_def record_place_def)
  have data: "fs_data fs' = (fs_data fs ++ image_files (images_place l) [0..<n])(images_manifest l \<mapsto> json_text cs (task_manifest cs n),
      record_place l ''pipeline-request.json'' \<mapsto> json_text cs request)"
    using fs3 fs4 images_facts(3) by (metis)
  show ?thesis using req valid data names dir fs4 real3 by simp
qed

section \<open>The runner accepts it\<close>

lemma request_fields:
  assumes "request_json baseline f name user_id n total_bytes sha key = Inr request"
  shows "json_field ''job_id'' request = Some (JString name)" "json_field ''execution_mode'' request = Some (JString ''simulated'')"
    "json_field ''attempt'' request = Some (JInt 1)" "is_object request"
    "\<exists>v. json_field ''input'' request = Some v \<and> json_field ''images_path'' v = Some (JString ''input/images'') \<and>
      json_field ''manifest_path'' v = Some (JString ''input/input-manifest.json'') \<and> json_field ''manifest_sha256'' v = Some (JString sha) \<and>
      json_field ''image_count'' v = Some (JInt (int n)) \<and> json_field ''total_bytes'' v = Some (JInt total_bytes)"
  using assms by (auto simp: request_json_def json_field_def is_object_def)

definition image_item :: "codecs \<Rightarrow> nat \<Rightarrow> manifest_item" where
  "image_item cs i = \<lparr>mi_name = image_name i, mi_size = int (length (image_payload i)), mi_sha256 = cs_sha256 cs (image_payload i)\<rparr>"

lemma image_record_item:
  assumes "hex_string 64 (cs_sha256 cs (image_payload i))" "i < 1000000"
  shows "manifest_item_of (sort_keys (image_record cs i)) = Some (image_item cs i)"
  using assms image_name_ok [OF assms(2)]
  by (simp add: manifest_item_of_def) (simp add: image_record_def json_field_def image_item_def image_payload_def)

lemma manifest_items_distinct:
  "map manifest_item_of vs = map Some ns \<Longrightarrow> distinct (map mi_name (acc @ ns)) \<Longrightarrow> manifest_items acc vs = Inr (acc @ ns)"
proof (induction vs arbitrary: acc ns)
  case (Cons v vs)
  then obtain m ns' where ns: "ns = m # ns'" "manifest_item_of v = Some m" "map manifest_item_of vs = map Some ns'" by (cases ns) auto
  then have "mi_name m \<notin> mi_name ` set acc" using Cons.prems(2) by auto
  moreover have "manifest_items (acc @ [m]) vs = Inr ((acc @ [m]) @ ns')"
    by (rule Cons.IH [OF ns(3)]) (use Cons.prems(2) ns(1) in simp)
  ultimately show ?case using ns by simp
qed simp

lemma task_input_valid:
  assumes request: "request_json baseline f name user_id n (image_bytes n) (cs_sha256 cs (json_text cs (task_manifest cs n))) key = Inr request"
    and data: "\<forall>i < n. fs_data fs (images_place l @ [image_name i]) = Some (image_payload i)"
      "fs_data fs (images_manifest l) = Some (json_text cs (task_manifest cs n))"
    and names: "fs_names fs (images_place l) = map image_name [0..<n]" "fs_dir fs (images_place l)" "fs_real fs = id" "\<forall>p. \<not> fs_link fs p"
    and keeps: "keeps_json cs ''input-manifest'' (task_manifest cs n)" and hex: "\<forall>s. hex_string 64 (cs_sha256 cs s)" and n: "n \<le> 300"
  shows "validate_task_input cs fs l (sort_keys request) = Inr ()"
proof -
  note plain = plain_of_id [OF names(3)]
  have places: "resolve fs l ''input/images'' = Inr (images_place l)" "resolve fs l ''input/input-manifest.json'' = Inr (images_manifest l)"
    by (simp_all add: plain_resolve [OF plain] task_paths images_place_def images_manifest_def)
  have read: "read_file fs p = fs_data fs p" for p using names(3) by (simp add: read_file_def)
  obtain v where v: "json_field ''input'' request = Some v" "json_field ''images_path'' v = Some (JString ''input/images'')"
    "json_field ''manifest_path'' v = Some (JString ''input/input-manifest.json'')"
    "json_field ''manifest_sha256'' v = Some (JString (cs_sha256 cs (json_text cs (task_manifest cs n))))"
    "json_field ''image_count'' v = Some (JInt (int n))" "json_field ''total_bytes'' v = Some (JInt (image_bytes n))"
    using request_fields(5) [OF request] by blast
  have fields: "item2 ''input'' k (sort_keys request) = (case json_field k v of None \<Rightarrow> Inl (Key_error k) | Some x \<Rightarrow> Inr (sort_keys x))"
    if "json_field k v \<noteq> None" for k
    using that v(1) by (auto simp: item2_Inr split: option.split)
  have inputs: "item2 ''input'' ''manifest_path'' (sort_keys request) = Inr (JString ''input/input-manifest.json'')"
    "item2 ''input'' ''images_path'' (sort_keys request) = Inr (JString ''input/images'')"
    "item2 ''input'' ''manifest_sha256'' (sort_keys request) = Inr (JString (cs_sha256 cs (json_text cs (task_manifest cs n))))"
    "item2 ''input'' ''image_count'' (sort_keys request) = Inr (JInt (int n))"
    "item2 ''input'' ''total_bytes'' (sort_keys request) = Inr (JInt (image_bytes n))"
    using fields v by simp_all
  have "manifest_list (sort_keys (task_manifest cs n)) = Some (map sort_keys (map (image_record cs) [0..<n]))"
    by (simp add: manifest_list_def task_manifest_def) (simp add: manifest_json_def json_field_def)
  moreover have "load_manifest cs (json_text cs (task_manifest cs n)) = Inr (sort_keys (task_manifest cs n))"
    using keeps by (simp add: keeps_json_def load_manifest_def)
  moreover have items: "manifest_items [] (map sort_keys (map (image_record cs) [0..<n])) = Inr (map (image_item cs) [0..<n])"
  proof -
    have inj: "inj_on image_name (set [0..<n])" using n image_name_inject by (intro inj_onI) auto
    have "manifest_item_of (sort_keys (image_record cs i)) = Some (image_item cs i)" if "i \<in> set [0..<n]" for i
      using image_record_item hex that n by simp
    then have items: "map manifest_item_of (map sort_keys (map (image_record cs) [0..<n])) = map Some (map (image_item cs) [0..<n])" by simp
    have names: "map mi_name (map (image_item cs) [0..<n]) = map image_name [0..<n]" by (simp add: image_item_def)
    have "distinct (map mi_name ([] @ map (image_item cs) [0..<n]))" unfolding append_Nil names using inj by (simp add: distinct_map)
    from manifest_items_distinct [OF items this] show ?thesis by (simp only: append_Nil)
  qed
  moreover have "check_images cs fs (images_place l) (sort_keys request) (map (image_item cs) [0..<n]) = Inr ()"
  proof -
    let ?names = "sort (map image_name [0..<n])"
    have files: "filter (\<lambda>m. is_file fs (images_place l @ [m])) (map image_name [0..<n]) = map image_name [0..<n]"
      using data(1) by (intro filter_True) (auto simp: is_file_def read)
    have stored: "\<exists>i < n. m = image_name i \<and> fs_data fs (images_place l @ [m]) = Some (image_payload i)" if "m \<in> set ?names" for m
      using that data(1) by auto
    have item_names: "map mi_name (map (image_item cs) [0..<n]) = map image_name [0..<n]" by (simp add: image_item_def)
    have distinct: "distinct (map mi_name (map (image_item cs) [0..<n]))"
      using n image_name_inject by (auto simp: distinct_map inj_on_def image_item_def)
    have checks: "check_image cs fs (images_place l) (map (image_item cs) [0..<n]) m = Inr ()" if m: "m \<in> set ?names" for m
    proof -
      obtain i where i: "i < n" "m = image_name i" using m by auto
      then have "image_item cs i \<in> set (map (image_item cs) [0..<n])" by auto
      from check_image_Inr [OF distinct this] i data(1) show ?thesis by (simp add: image_item_def read)
    qed
    let ?f = "\<lambda>m. case fs_data fs (images_place l @ [m]) of None \<Rightarrow> 0 | Some t \<Rightarrow> int (length t)"
    have sizes: "collect_checked (\<lambda>m. file_size fs (images_place l @ [m])) ?names = Inr (map ?f ?names)"
      by (rule collect_checked_map) (use data(1) in \<open>auto simp: file_size_def read\<close>)
    have "sum_list (map ?f ?names) = sum_list (map ?f (map image_name [0..<n]))"
      using distinct item_names by (simp add: sum_list_distinct_conv_sum_set del: map_map)
    also have "\<dots> = image_bytes n"
      unfolding image_bytes_def map_map by (rule arg_cong [where f = sum_list], rule map_cong) (use data(1) in auto)
    finally have sum: "sum_list (map ?f ?names) = image_bytes n" .
    show ?thesis unfolding check_images_def names(1) files Let_def
      unfolding item_names using names(4) checks sum by (simp add: inputs sizes)
  qed
  ultimately show ?thesis
    using data(2) names by (simp add: validate_task_input_def inputs text_of_def places is_file_def is_dir_def read sha256_file_def)
qed

definition task_of :: "path \<Rightarrow> uuid \<Rightarrow> task_layout" where
  "task_of data_root k = \<lparr>tl_data_root = data_root, tl_jobs_root = data_root @ [''jobs''],
     tl_root = data_root @ [''jobs'', uuid_str k], tl_job_id = uuid_str k\<rparr>"

text \<open>A tree without links in which nothing has the name of the new task.\<close>

definition fresh_task :: "path \<Rightarrow> uuid \<Rightarrow> file_system \<Rightarrow> bool" where
  "fresh_task data_root k fs \<longleftrightarrow> k < 2 ^ 128 \<and> fs_real fs = id \<and> (\<forall>p. \<not> fs_link fs p) \<and>
     (\<forall>p. prefix (tl_root (task_of data_root k)) p \<longrightarrow> fs_data fs p = None \<and> \<not> fs_dir fs p \<and> fs_names fs p = [])"

lemma created_layout_cases:
  assumes "fresh_task data_root k fs" "created_layout data_root (uuid_str k) fs = (r, fs1)"
  shows "(case r of Inl e \<Rightarrow> fs1 = fs
    | Inr l \<Rightarrow> l = task_of data_root k \<and> fs_data fs1 = fs_data fs \<and> fs_real fs1 = id \<and> (\<forall>p. \<not> fs_link fs1 p) \<and>
        fs_dir fs1 (tl_root l) \<and> (\<forall>p. prefix (tl_root l) p \<longrightarrow> fs_names fs1 p = []) \<and> (\<forall>p. prefix p (tl_root l) \<longrightarrow> fs_data fs1 p = None))"
proof -
  let ?root = "data_root @ [''jobs'', uuid_str k]"
  have real: "fs_real fs = id" and k: "k < 2 ^ 128" using assms(1) by (simp_all add: fresh_task_def)
  have plain: "butlast ?root = data_root @ [''jobs'']" "is_within ?root (data_root @ [''jobs''])" by (simp_all add: butlast_append is_within_def)
  have layout: "created_layout data_root (uuid_str k) fs = (case mkdir_parents True ?root fs of (Inl e, fs) \<Rightarrow> (Inl e, fs)
      | (Inr u, fs) \<Rightarrow> (Inr (task_of data_root k), fs))"
    using plain by (simp add: created_layout_def reading_def canonical_uuid [OF k] real require_def task_of_def followed_by_def Let_def
        split: prod.split sum.split)
  have none: "fs_data fs p = None" if "prefix p ?root" "\<not> list_ex (is_file fs) (prefixes ?root)" for p
    using that real by (auto simp: list_ex_iff is_file_def read_file_def)
  have under: "\<not> strict_prefix p ?root" if "prefix ?root p" for p using that by (auto simp: strict_prefix_def dest: prefix_order.antisym)
  show ?thesis
  proof (cases "list_ex (is_file fs) (prefixes ?root)")
    case True
    then show ?thesis using assms(2) by (auto simp: layout mkdir_parents_def)
  next
    case False
    then have r: "r = Inr (task_of data_root k)" "fs1 = make_directories ?root fs" using assms(2) by (auto simp: layout mkdir_parents_def)
    have "fs_names fs1 p = []" if "prefix ?root p" for p
      using assms(1) under [OF that] that r(2) by (simp add: make_directories_def list_path_other fresh_task_def task_of_def)
    then show ?thesis using r none [OF _ False] assms(1) real by (simp add: make_directories_def task_of_def fresh_task_def)
  qed
qed

lemma removed_data:
  assumes "adds_below (tl_root l) fs fs'" "fs_real fs = id" "fs_dir fs (tl_root l)" "butlast (tl_root l) = tl_jobs_root l"
    "\<forall>p. prefix (tl_root l) p \<longrightarrow> fs_data fs p = None"
  shows "fs_data (remove_unqueued_task l fs') = fs_data fs"
  using assms by (auto simp: remove_unqueued_task_def Let_def adds_below_def is_dir_def fun_eq_iff)

lemma created_task_accepted:
  assumes wrote: "write_task_files cs baseline f l user_id n key fs = (Inr request, fs')"
    and l: "l = task_of data_root k" and n: "n \<le> 300" and codec: "\<forall>name v. keeps_json cs name v" "\<forall>s. hex_string 64 (cs_sha256 cs s)"
    and tree: "fs_real fs = id" "\<forall>p. \<not> fs_link fs p" "\<forall>p. prefix (tl_root l) p \<longrightarrow> fs_names fs p = []"
      "\<forall>p. prefix (tl_root l) p \<or> prefix p (tl_root l) \<longrightarrow> fs_data fs p = None"
  shows "simulation_input cs cd l worker fs' = Inr (sort_keys request, \<lparr>jn_job_id = uuid_str k, jn_attempt = 1, jn_worker_id = worker,
      jn_events = []\<rparr>, record_place l ''pipeline-events.jsonl'')"
    "json_field ''input'' request \<noteq> None"
proof -
  have "fs_names fs (images_place l) = []" using tree(3) by (simp add: images_place_def)
  note facts = write_task_Inr [OF wrote tree(1) n this]
  then have req: "request_json baseline f (tl_job_id l) user_id n (image_bytes n) (cs_sha256 cs (json_text cs (task_manifest cs n))) key = Inr request"
    and valid: "cs_valid cs ''pipeline-request'' request"
    and data: "fs_data fs' = (fs_data fs ++ image_files (images_place l) [0..<n])(images_manifest l \<mapsto> json_text cs (task_manifest cs n),
      record_place l ''pipeline-request.json'' \<mapsto> json_text cs request)"
    and names: "fs_names fs' (images_place l) = map image_name [0..<n]" "fs_dir fs' (images_place l)" "fs_real fs' = id" by blast+
  have links: "\<forall>p. \<not> fs_link fs' p" using write_task_adds [of l fs cs baseline f user_id n key] wrote tree(2) by (simp add: adds_below_def)
  note plain = plain_of_id [OF names(3)]
  have read: "read_file fs' p = fs_data fs' p" for p using names(3) by (simp add: read_file_def)
  have image_dom: "dom (image_files (images_place l) [0..<n]) = (\<lambda>i. images_place l @ [image_name i]) ` {0..<n}"
    by (simp add: image_files_def dom_map_of_conv_image_fst image_image)
  have other: "fs_data fs' p = None" if p: "prefix (tl_root l) p \<or> prefix p (tl_root l)" and
      "p \<noteq> images_manifest l" "p \<noteq> record_place l ''pipeline-request.json''" "\<not> prefix (images_place l) p" for p
  proof -
    have "p \<notin> dom (image_files (images_place l) [0..<n])" using that(4) unfolding image_dom by auto
    moreover have "fs_data fs p = None" using p tree(4) by blast
    ultimately show ?thesis using that(2,3) by (simp add: data map_add_def domIff)
  qed
  have stored: "fs_data fs' (images_place l @ [image_name i]) = Some (image_payload i)" if "i < n" for i
  proof -
    have "image_files (images_place l) [0..<n] (images_place l @ [image_name i]) = Some (image_payload i)"
      unfolding image_files_def by (rule map_of_is_SomeI)
        (use that n image_name_inject in \<open>auto simp: distinct_map inj_on_def image_iff\<close>)
    then show ?thesis by (simp add: data images_manifest_def record_place_def images_place_def map_add_def)
  qed
  have manifest: "fs_data fs' (images_manifest l) = Some (json_text cs (task_manifest cs n))"
    by (simp add: data images_manifest_def record_place_def)
  have input: "validate_task_input cs fs' l (sort_keys request) = Inr ()"
    using task_input_valid [OF req _ manifest names links _ codec(2) n] stored codec(1) by blast
  have loaded: "load_json_contract cs fs' (record_place l ''pipeline-request.json'') ''pipeline-request'' = Inr (sort_keys request)"
    using load_written_contract [OF _ valid request_fields(4) [OF req], of fs'] codec(1) by (simp add: read data)
  have id: "tl_job_id l = uuid_str k" by (simp add: l task_of_def)
  have identity: "validate_simulation_identity l (sort_keys request) = Inr ()"
    using request_fields(1,2) [OF req] by (simp add: validate_simulation_identity_def refuse_if_def require_def id ex_bool_eq)
  have events: "fs_data fs' (record_place l ''pipeline-events.jsonl'') = None"
    by (rule other) (auto simp: record_place_def images_manifest_def images_place_def)
  have "open_task_journal cd fs' (record_place l ''pipeline-events.jsonl'') (sort_keys request) worker =
      Inr \<lparr>jn_job_id = uuid_str k, jn_attempt = 1, jn_worker_id = worker, jn_events = []\<rparr>"
    using request_fields(1,3) [OF req] by (simp add: open_task_journal_def item_Inr text_of_def int_of_def open_journal_def load_existing_def read events id)
  moreover have "ensure_worker_directories fs' l = Inr ()"
  proof -
    have free: "\<not> list_ex (is_file fs') (prefixes (tl_root l @ ps))"
      if "ps \<in> {[''runtime'', ''work''], [''runtime'', ''logs''], [''output''], [''reports''], [''manifests'']}" for ps
    proof -
      have "fs_data fs' p = None" if p: "prefix p (tl_root l @ ps)" for p
      proof (cases "prefix p (tl_root l)")
        case True
        then have "length p \<le> length (tl_root l)" by (rule prefix_length_le)
        then have "\<not> prefix (images_place l) p" "p \<noteq> images_manifest l" "p \<noteq> record_place l ''pipeline-request.json''"
          by (auto simp: images_place_def images_manifest_def record_place_def dest: prefix_length_le)
        then show ?thesis by (intro other) (use True in auto)
      next
        case False
        then obtain qs where "p = tl_root l @ qs" "prefix qs ps" using p by (auto simp: prefix_append)
        then show ?thesis using \<open>ps \<in> _\<close> False
          by (intro other) (auto simp: prefix_Cons images_manifest_def images_place_def record_place_def)
      qed
      then show ?thesis by (auto simp: list_ex_iff is_file_def read)
    qed
    have body: "bind_checked (resolve fs' l relative) (\<lambda>p. require (\<not> list_ex (is_file fs') (prefixes p)) Os_error) = Inr ()"
      if "\<not> bad_task_path relative \<and> posix_parts relative = ps"
        "ps \<in> {[''runtime'', ''work''], [''runtime'', ''logs''], [''output''], [''reports''], [''manifests'']}" for relative ps
      using free [OF that(2)] that(1) by (simp add: plain_resolve [OF plain])
    show ?thesis unfolding ensure_worker_directories_def worker_directories_def each_checked_Inr
      using body [OF directory_paths(1)] body [OF directory_paths(2)] body [OF directory_paths(3)] body [OF directory_paths(4)]
        body [OF directory_paths(5)] by simp
  qed
  ultimately show "simulation_input cs cd l worker fs' = Inr (sort_keys request, \<lparr>jn_job_id = uuid_str k, jn_attempt = 1, jn_worker_id = worker,
      jn_events = []\<rparr>, record_place l ''pipeline-events.jsonl'')"
    using loaded identity input by (simp add: simulation_input_def plain_paths [OF plain])
  show "json_field ''input'' request \<noteq> None" using request_fields(5) [OF req] by auto
qed

section \<open>All or nothing\<close>

text \<open>A queued job of the user whose task the simulation runner takes from its first event on.\<close>

definition runnable_job :: "codecs \<Rightarrow> codec \<Rightarrow> path \<Rightarrow> uuid \<Rightarrow> uuid \<Rightarrow> string \<Rightarrow> development_world \<Rightarrow> reconstruction_job \<Rightarrow> bool" where
  "runnable_job cs cd data_root k user_id worker w job \<longleftrightarrow>
     job \<in> set (db_jobs (dw_database w)) \<and> job_id job = k \<and> job_user_id job = user_id \<and> job_status job = QUEUED \<and>
     job_execution_mode job = ''simulated'' \<and>
     (\<exists>request. item2 ''input'' ''manifest_sha256'' request = Inr (JString (job_input_manifest_sha256 job)) \<and>
        simulation_input cs cd (task_of data_root k) worker (dw_files w) = Inr (request, \<lparr>jn_job_id = uuid_str k, jn_attempt = 1,
          jn_worker_id = worker, jn_events = []\<rparr>, record_place (task_of data_root k) ''pipeline-events.jsonl''))"

lemma enqueue_Inr:
  assumes "enqueue q now db = (Inr (), db')"
  shows "db' = db\<lparr>db_jobs := db_jobs db @ [queued_job q now]\<rparr>" "find_row job_id (eq_job_id q) (db_jobs db) = None"
  using assms
  by (auto simp: enqueue_def transaction_def enqueue_in_session_def insert_job_def queued_job_def find_row_None_iff
      split: prod.splits sum.splits queue_error.splits option.splits if_splits)

lemma enqueue_Inl: "enqueue q now db = (Inl e, db') \<Longrightarrow> db' = db"
  by (auto simp: enqueue_def transaction_def enqueue_in_session_def split: prod.splits sum.splits queue_error.splits option.splits)

lemma write_and_enqueue_files:
  "dw_files (snd (write_and_enqueue cs baseline f l user_id n key w)) = snd (write_task_files cs baseline (df_task f) l user_id n key (dw_files w))"
  by (simp add: write_and_enqueue_def Let_def case_prod_beta split: sum.split)

lemma write_and_enqueue_Inl:
  assumes "write_and_enqueue cs baseline f l user_id n key w = (Inl e, w')"
  shows "dw_database w' = df_meanwhile f (dw_database w)"
proof -
  have same: "snd (enqueue q now db) = db" if "fst (enqueue q now db) = Inl e" for q now db e
    using enqueue_Inl [of q now db e] that by (metis prod.collapse)
  show ?thesis using assms same
    by (simp add: write_and_enqueue_def Let_def case_prod_beta split: sum.splits) auto
qed

lemma write_and_enqueue_Inr:
  assumes "write_and_enqueue cs baseline f l user_id n key w = (Inr u, w')"
  shows "\<exists>request q fs. write_task_files cs baseline (df_task f) l user_id n key (dw_files w) = (Inr request, fs) \<and>
    enqueue_arguments (tf_job_id (df_task f)) user_id request key = Inr q \<and>
    enqueue q (df_now f) (df_meanwhile f (dw_database w)) = (Inr (), dw_database w') \<and> dw_files w' = fs"
proof -
  obtain written fs where wrote: "write_task_files cs baseline (df_task f) l user_id n key (dw_files w) = (written, fs)" by fastforce
  obtain request q where "written = Inr request" "enqueue_arguments (tf_job_id (df_task f)) user_id request key = Inr q"
    using assms by (cases written) (auto simp: write_and_enqueue_def wrote Let_def split: sum.splits)
  moreover obtain x db where "enqueue q (df_now f) (df_meanwhile f (dw_database w)) = (x, db)" by fastforce
  ultimately show ?thesis using assms wrote by (cases x) (auto simp: write_and_enqueue_def)
qed

lemma write_and_enqueue_cases:
  assumes layout: "l = task_of data_root (tf_job_id (df_task f))" and tree: "fs_real (dw_files w) = id" "\<forall>p. \<not> fs_link (dw_files w) p"
      "\<forall>p. prefix (tl_root l) p \<longrightarrow> fs_names (dw_files w) p = []"
      "\<forall>p. prefix (tl_root l) p \<or> prefix p (tl_root l) \<longrightarrow> fs_data (dw_files w) p = None"
    and n: "n \<le> 300" and codec: "\<forall>name v. keeps_json cs name v" "\<forall>s. hex_string 64 (cs_sha256 cs s)"
    and run: "write_and_enqueue cs baseline f l user_id n key w = (r, w')"
  shows "adds_below (tl_root l) (dw_files w) (dw_files w')"
    "case r of Inl e \<Rightarrow> dw_database w' = df_meanwhile f (dw_database w)
     | Inr _ \<Rightarrow> \<exists>job. runnable_job cs cd data_root (tf_job_id (df_task f)) user_id worker w' job \<and>
         query_job (tf_job_id (df_task f)) (Some user_id) (dw_database w') = Inr (job_snapshot job)"
proof -
  obtain written fs where wrote: "write_task_files cs baseline (df_task f) l user_id n key (dw_files w) = (written, fs)" by fastforce
  have "dw_files w' = fs" using write_and_enqueue_files [of cs baseline f l user_id n key w] run wrote by simp
  then show "adds_below (tl_root l) (dw_files w) (dw_files w')"
    using write_task_adds [of l "dw_files w" cs baseline "df_task f" user_id n key] wrote by simp
  show "case r of Inl e \<Rightarrow> dw_database w' = df_meanwhile f (dw_database w)
     | Inr _ \<Rightarrow> \<exists>job. runnable_job cs cd data_root (tf_job_id (df_task f)) user_id worker w' job \<and>
         query_job (tf_job_id (df_task f)) (Some user_id) (dw_database w') = Inr (job_snapshot job)"
  proof (cases r)
    case (Inl e)
    then show ?thesis using write_and_enqueue_Inl run by auto
  next
    case (Inr u)
    then obtain request q where written: "write_task_files cs baseline (df_task f) l user_id n key (dw_files w) = (Inr request, fs)"
      and arguments: "enqueue_arguments (tf_job_id (df_task f)) user_id request key = Inr q"
      and queued: "enqueue q (df_now f) (df_meanwhile f (dw_database w)) = (Inr (), dw_database w')" and files: "dw_files w' = fs"
      using write_and_enqueue_Inr [OF run [unfolded Inr]] wrote by auto
    let ?k = "tf_job_id (df_task f)"
    have q: "eq_job_id q = ?k" "eq_user_id q = user_id" "eq_execution_mode q = ''simulated''"
      "item2 ''input'' ''manifest_sha256'' request = Inr (JString (eq_input_manifest_sha256 q))"
      using arguments by (auto simp: enqueue_arguments_def text_of_def split: json.splits)
    note accepted = created_task_accepted [OF written layout n codec tree]
    let ?job = "queued_job q (df_now f)"
    have "item2 ''input'' ''manifest_sha256'' (sort_keys request) = Inr (JString (eq_input_manifest_sha256 q))"
      using q(4) by (auto simp: item2_Inr)
    moreover have "?job \<in> set (db_jobs (dw_database w'))" using enqueue_Inr(1) [OF queued] by simp
    moreover have "job_id ?job = ?k" "job_user_id ?job = user_id" "job_status ?job = QUEUED" "job_execution_mode ?job = ''simulated''"
      "job_input_manifest_sha256 ?job = eq_input_manifest_sha256 q" using q(1-3) by (simp_all add: queued_job_def)
    ultimately have "runnable_job cs cd data_root ?k user_id worker w' ?job"
      using accepted(1) [of cd worker] unfolding runnable_job_def files layout by simp
    moreover have "query_job ?k (Some user_id) (dw_database w') = Inr (job_snapshot ?job)"
      using enqueue_Inr [OF queued] q(1,2)
      by (simp add: query_job_def owned_job_def get_job_def) (simp add: queued_job_def)
    ultimately show ?thesis using Inr by auto
  qed
qed

text \<open>
  C33. A development job is created whole or not at all. After a call that created it the job is queued and the
  simulation runner accepts its task directory; after any other call, whichever write failed and whatever other
  users queued in between, every file is as it was and this call has not changed a row.
\<close>

theorem development_job_is_all_or_nothing:
  assumes fresh: "fresh_task data_root (tf_job_id (df_task f)) (dw_files w)"
    and codec: "\<forall>name v. keeps_json cs name v" "\<forall>s. hex_string 64 (cs_sha256 cs s)"
    and run: "create_simulated_job cs baseline data_root f user_id image_count token w = (r, w')"
  shows "(\<exists>job. r = Inr (job_snapshot job, False) \<and> runnable_job cs cd data_root (tf_job_id (df_task f)) user_id worker w' job) \<or>
    (\<forall>snapshot. r \<noteq> Inr (snapshot, False)) \<and> fs_data (dw_files w') = fs_data (dw_files w) \<and>
    dw_database w' \<in> {dw_database w, df_meanwhile f (dw_database w)}"
proof -
  let ?k = "tf_job_id (df_task f)"
  define key where "key = cs_sha256 cs (uuid_str user_id @ '':'' @ token)"
  have key: "cs_sha256 cs (uuid_str user_id @ CHR '':'' # token) = key" by (simp add: key_def)
  let ?goal = "\<lambda>r w'. (\<exists>job. r = Inr (job_snapshot job, False) \<and> runnable_job cs cd data_root ?k user_id worker w' job) \<or>
    (\<forall>snapshot. r \<noteq> Inr (snapshot, False)) \<and> fs_data (dw_files w') = fs_data (dw_files w) \<and>
    dw_database w' \<in> {dw_database w, df_meanwhile f (dw_database w)}"
  show ?thesis
  proof (cases "3 \<le> image_count \<and> image_count \<le> 300 \<and> 8 \<le> length token \<and> length token \<le> 128 \<and>
      find_existing user_id key (dw_database w) = Inr None")
    case False
    then show ?thesis
      using run by (auto simp: key create_simulated_job_def Let_def reading_def split: if_splits sum.splits option.splits)
  next
    case True
    obtain made fs where created: "created_layout data_root (uuid_str ?k) (dw_files w) = (made, fs)" by fastforce
    note layout = created_layout_cases [OF fresh created]
    show ?thesis
    proof (cases made)
      case (Inl e)
      then show ?thesis using True run layout by (auto simp: key create_simulated_job_def Let_def reading_def created)
    next
      case (Inr l)
      then have l: "l = task_of data_root ?k" and tree: "fs_data fs = fs_data (dw_files w)" "fs_real fs = id" "\<forall>p. \<not> fs_link fs p"
        "fs_dir fs (tl_root l)" "\<forall>p. prefix (tl_root l) p \<longrightarrow> fs_names fs p = []" "\<forall>p. prefix p (tl_root l) \<longrightarrow> fs_data fs p = None"
        using layout by auto
      have under: "\<forall>p. prefix (tl_root l) p \<longrightarrow> fs_data fs p = None" using fresh l tree(1) by (simp add: fresh_task_def)
      obtain r1 w1 where step: "write_and_enqueue cs baseline f l user_id (nat image_count) key (w\<lparr>dw_files := fs\<rparr>) = (r1, w1)" by fastforce
      have small: "nat image_count \<le> 300" using True by (simp add: nat_le_iff)
      have world: "dw_files (w\<lparr>dw_files := fs\<rparr>) = fs" "dw_database (w\<lparr>dw_files := fs\<rparr>) = dw_database w" by simp_all
      have none: "\<forall>p. prefix (tl_root l) p \<or> prefix p (tl_root l) \<longrightarrow> fs_data fs p = None" using under tree(6) by blast
      note outcome1 = write_and_enqueue_cases(1) [OF l _ _ _ _ small codec step, unfolded world, OF tree(2,3,5) none]
      note outcome2 = write_and_enqueue_cases(2) [OF l _ _ _ _ small codec step, unfolded world, OF tree(2,3,5) none]
      have files: "fs_data (remove_unqueued_task l (dw_files w1)) = fs_data (dw_files w)"
        using removed_data [OF outcome1 tree(2,4) _ under] under tree(1,6) l by (auto simp: task_of_def butlast_append)
      show ?thesis
      proof (cases r1)
        case r1: (Inl e)
        then have "dw_database w1 = df_meanwhile f (dw_database w)" using outcome2 by auto
        then show ?thesis
          using True run files
          by (auto simp: key create_simulated_job_def Let_def reading_def created Inr step r1 split: if_splits sum.splits option.splits)
      next
        case r1: (Inr u)
        then obtain job where "runnable_job cs cd data_root ?k user_id worker w1 job"
          "query_job ?k (Some user_id) (dw_database w1) = Inr (job_snapshot job)" using outcome2 [of cd worker] by auto
        then show ?thesis using True run by (auto simp: key create_simulated_job_def Let_def reading_def created Inr step r1)
      qed
    qed
  qed
qed

section \<open>An example\<close>

lemma create_file_works:
  assumes "fs_real fs = id" "\<forall>q. prefix q (butlast p) \<longrightarrow> fs_data fs q = None"
  shows "\<exists>fs'. create_file False p payload fs = (Inr (), fs')"
  using assms by (auto simp: create_file_def mkdir_parents_def atomic_write_def list_ex_iff is_file_def read_file_def)

lemma write_images_work:
  "fs_real fs = id \<Longrightarrow> \<forall>q. prefix q ip \<longrightarrow> fs_data fs q = None \<Longrightarrow>
     \<exists>x fs'. write_images cs (\<lambda>_. False) ip is acc fs = (Inr x, fs')"
proof (induction "is" arbitrary: acc fs)
  case (Cons i "is")
  obtain records total_bytes where acc: "acc = (records, total_bytes)" by fastforce
  obtain fs1 where one: "create_file False (ip @ [image_name i]) (image_payload i) fs = (Inr (), fs1)"
    using create_file_works [OF Cons.prems(1), of "ip @ [image_name i]"] Cons.prems(2) by auto
  note new = create_file_Inr [OF one]
  have written: "write_image cs (\<lambda>_. False) ip i fs = (Inr (image_record cs i, int (length (image_payload i))), fs1)"
    using one new Cons.prems(1) by (simp add: write_image_def sha256_file_def read_file_def reading_def image_record_def Let_def)
  have "\<not> prefix (ip @ [image_name i]) ip" by (auto dest: prefix_length_le)
  then have "\<forall>q. prefix q ip \<longrightarrow> fs_data fs1 q = None" using new Cons.prems(2) by auto
  moreover have "fs_real fs1 = id" using new Cons.prems(1) by metis
  ultimately show ?case using Cons.IH by (simp add: acc written)
qed auto

lemma write_task_works:
  assumes tree: "fs_real fs = id" "fs_names fs (images_place l) = []" "\<not> fs_dir fs (images_place l)"
      "\<forall>p. prefix (tl_root l) p \<or> prefix p (tl_root l) \<longrightarrow> fs_data fs p = None"
    and n: "n \<le> 300" and failed: "tf_failed f = (\<lambda>_. False)"
    and request: "request_json baseline f (tl_job_id l) user_id n (image_bytes n) (cs_sha256 cs (json_text cs (task_manifest cs n))) key = Inr request"
    and valid: "cs_valid cs ''pipeline-request'' request"
  shows "\<exists>fs'. write_task_files cs baseline f l user_id n key fs = (Inr request, fs')"
proof -
  have places: "resolve fs l ''input/images'' = Inr (images_place l)" "resolve fs l ''input/input-manifest.json'' = Inr (images_manifest l)"
    "request_path fs l = Inr (record_place l ''pipeline-request.json'')" if "fs_real fs = id" for fs
    using plain_of_id [OF that] by (simp_all add: plain_resolve task_paths images_place_def images_manifest_def plain_paths)
  have free: "fs_data fs q = None" if q: "prefix q (tl_root l @ ps)" for q ps
    using q tree(4) by (auto simp: prefix_append)
  let ?fs1 = "make_directories (images_place l) fs"
  have made: "mkdir_parents False (images_place l) fs = (Inr (), ?fs1)"
    using free tree(1,3) by (auto simp: mkdir_parents_def list_ex_iff is_file_def read_file_def is_dir_def images_place_def)
  have fs1: "fs_real ?fs1 = id" "fs_data ?fs1 = fs_data fs" "fs_names ?fs1 (images_place l) = []"
    using tree(1,2) by (simp_all add: make_directories_def list_path_def)
  have "\<forall>q. prefix q (images_place l) \<longrightarrow> fs_data ?fs1 q = None" using free by (subst fs1(2)) (simp add: images_place_def)
  then obtain records total_bytes fs2 where images: "write_images cs (\<lambda>_. False) (images_place l) [0..<n] ([], 0) ?fs1 = (Inr (records, total_bytes), fs2)"
    using write_images_work [OF fs1(1)] by fastforce
  have "inj_on image_name (set [0..<n])" using n image_name_inject by (intro inj_onI) auto
  then have "distinct (map image_name [0..<n])" by (simp add: distinct_map)
  from write_images_Inr [OF images fs1(1) this] fs1(3)
  have facts: "manifest_json records = task_manifest cs n" "total_bytes = image_bytes n"
    "fs_data fs2 = fs_data fs ++ image_files (images_place l) [0..<n]" "fs_real fs2 = id"
    by (simp_all add: fs1(2) image_bytes_def task_manifest_def)
  have keys: "dom (image_files (images_place l) [0..<n]) = (\<lambda>i. images_place l @ [image_name i]) ` {0..<n}"
    by (simp add: image_files_def dom_map_of_conv_image_fst image_image)
  have free2: "fs_data fs2 q = None" if q: "prefix q (tl_root l @ [a])" for q a
  proof -
    have "length q \<le> length (tl_root l) + 1" using prefix_length_le [OF q] by simp
    then have "q \<notin> dom (image_files (images_place l) [0..<n])" unfolding keys by (auto simp: images_place_def)
    then show ?thesis using free [OF q] by (simp add: facts(3) map_add_def domIff)
  qed
  have ends: "butlast (images_manifest l) = tl_root l @ [''input'']" "butlast (record_place l ''pipeline-request.json'') = tl_root l @ [''manifests'']"
    by (simp_all add: images_manifest_def record_place_def butlast_append)
  obtain fs3 where wrote: "create_file False (images_manifest l) (json_text cs (task_manifest cs n)) fs2 = (Inr (), fs3)"
    using create_file_works [OF facts(4), of "images_manifest l"] free2 ends by (metis)
  note fs3 = create_file_Inr [OF wrote]
  have real3: "fs_real fs3 = id" using fs3 facts(4) by simp
  have sha: "sha256_file cs fs3 (images_manifest l) = Inr (cs_sha256 cs (json_text cs (task_manifest cs n)))"
    using fs3 real3 by (simp add: sha256_file_def read_file_def)
  have "\<not> prefix (images_manifest l) (tl_root l @ [''manifests''])" by (simp add: images_manifest_def)
  then have "\<forall>q. prefix q (butlast (record_place l ''pipeline-request.json'')) \<longrightarrow> fs_data fs3 q = None"
    using fs3 free2 unfolding ends by auto
  then obtain fs4 where "create_file False (record_place l ''pipeline-request.json'') (json_text cs request) fs3 = (Inr (), fs4)"
    using create_file_works [OF real3] by blast
  then show ?thesis
    by (simp add: write_task_files_def reading_def places(1) [OF tree(1)] made failed images places(2) [OF facts(4)] facts(1,2) wrote sha
        request validate_contract_def valid places(3) [OF real3] require_def)
qed

definition dev_codecs :: codecs where
  "dev_codecs = unary_codecs Map.empty"

definition dev_baseline :: json where
  "dev_baseline = JObject [(''tag'', JString ''v1''), (''commit'', JString (replicate 40 (CHR ''a''))),
     (''pipeline_config'', JObject [(''sha256'', JString (replicate 64 (CHR ''b'')))]), (''default_branches'', JList [])]"

definition dev_facts :: development_facts where
  "dev_facts = \<lparr>df_task = \<lparr>tf_job_id = 5, tf_request_id = 6, tf_created_at = ''now'', tf_failed = \<lambda>_. False\<rparr>, df_now = 0,
     df_meanwhile = (\<lambda>db. db)\<rparr>"

definition dev_user :: user where
  "dev_user = \<lparr>usr_id = 7, usr_username = ''dev'', usr_email = ''d@e'', usr_password_hash = [], usr_role = ''user'', usr_is_active = True,
     usr_email_verified = True, usr_created_at = 0, usr_updated_at = 0, usr_last_login_at = None\<rparr>"

definition dev_world :: development_world where
  "dev_world = \<lparr>dw_database = empty_database\<lparr>db_users := [dev_user]\<rparr>,
     dw_files = \<lparr>fs_real = id, fs_link = \<lambda>_. False, fs_data = Map.empty, fs_dir = \<lambda>_. False, fs_names = \<lambda>_. []\<rparr>\<rparr>"

lemma dev_codec: "\<forall>name v. keeps_json dev_codecs name v" "\<forall>s. hex_string 64 (cs_sha256 dev_codecs s)" "cs_valid dev_codecs name v"
proof -
  show "\<forall>s. hex_string 64 (cs_sha256 dev_codecs s)"
    by (simp add: dev_codecs_def unary_codecs_def hex_string_def is_hex_def is_digit_def char_in_def list_all_iff)
qed (simp_all add: dev_codecs_def unary_keeps_json, simp add: unary_codecs_def)

lemma dev_created:
  "\<exists>snapshot w'. create_simulated_job dev_codecs dev_baseline [''d''] dev_facts 7 3 ''token-01'' dev_world = (Inr (snapshot, False), w')"
proof -
  let ?l = "task_of [''d''] 5" and ?key = "cs_sha256 dev_codecs (uuid_str 7 @ '':token-01'')"
  obtain made fs where created: "created_layout [''d''] (uuid_str 5) (dw_files dev_world) = (made, fs)" by fastforce
  have made: "made = Inr ?l"
    using created by (auto simp: created_layout_def reading_def canonical_uuid dev_world_def require_def task_of_def is_within_def
        Let_def mkdir_parents_def list_ex_iff is_file_def read_file_def)
  have "fresh_task [''d''] 5 (dw_files dev_world)" by (simp add: fresh_task_def dev_world_def)
  note layout = created_layout_cases [OF this created]
  let ?sha = "cs_sha256 dev_codecs (json_text dev_codecs (task_manifest dev_codecs 3))"
  obtain request where request: "request_json dev_baseline (df_task dev_facts) (uuid_str 5) 7 3 (image_bytes 3) ?sha ?key = Inr request"
    by (simp add: request_json_def dev_baseline_def item_def item2_def)
  have dir: "\<not> fs_dir fs (images_place ?l)"
    using created by (auto simp: created_layout_def reading_def canonical_uuid dev_world_def require_def task_of_def is_within_def
        Let_def mkdir_parents_def list_ex_iff is_file_def read_file_def make_directories_def images_place_def dest!: prefix_length_le)
  have tree: "fs_real fs = id" "fs_names fs (images_place ?l) = []"
    "\<forall>p. prefix (tl_root ?l) p \<or> prefix p (tl_root ?l) \<longrightarrow> fs_data fs p = None"
    using layout made by (auto simp: dev_world_def images_place_def)
  have failed: "tf_failed (df_task dev_facts) = (\<lambda>_. False)" and id: "tl_job_id ?l = uuid_str 5" by (simp_all add: dev_facts_def task_of_def)
  obtain fs' where wrote: "write_task_files dev_codecs dev_baseline (df_task dev_facts) ?l 7 3 ?key fs = (Inr request, fs')"
    using write_task_works [OF tree(1,2) dir tree(3) _ failed _ dev_codec(3), of 3] request id by fastforce
  have q: "\<exists>q. enqueue_arguments 5 7 request ?key = Inr q \<and> enqueue_invalid q = None \<and> eq_user_id q = 7 \<and> eq_attempt q = 1 \<and>
      eq_storage_reserved_bytes q = 0 \<and> eq_execution_mode q = ''simulated'' \<and> eq_job_id q = 5"
  proof -
    have "hex_string 40 (replicate 40 (CHR ''a''))" "hex_string 64 (replicate 64 (CHR ''b''))"
      by (simp_all add: hex_string_def is_hex_def is_digit_def char_in_def list_all_iff)
    moreover have "enqueue_arguments 5 7 request ?key = Inr \<lparr>eq_job_id = 5, eq_user_id = 7, eq_execution_mode = ''simulated'',
        eq_pipeline_tag = ''v1'', eq_pipeline_commit = replicate 40 (CHR ''a''), eq_config_sha256 = replicate 64 (CHR ''b''),
        eq_input_manifest_sha256 = ?sha, eq_idempotency_key = ?key, eq_priority = 0, eq_attempt = 1, eq_storage_reserved_bytes = 0\<rparr>"
      (is "_ = Inr ?q")
      using request by (auto simp: request_json_def dev_baseline_def item_def item2_def enqueue_arguments_def text_of_def)
    ultimately show ?thesis using dev_codec(2) by (intro exI [of _ ?q]) (simp add: enqueue_invalid_def valid_sha256_def)
  qed
  then obtain q where q: "enqueue_arguments 5 7 request ?key = Inr q" "enqueue_invalid q = None" "eq_user_id q = 7" "eq_attempt q = 1"
    "eq_storage_reserved_bytes q = 0" "eq_execution_mode q = ''simulated''" "eq_job_id q = 5" by blast
  have queued: "enqueue q 0 (dw_database dev_world) = (Inr (), (dw_database dev_world)\<lparr>db_jobs := [queued_job q 0]\<rparr>)"
    by (simp add: enqueue_def transaction_def enqueue_in_session_def q insert_job_def dev_world_def empty_database_def queued_job_def
        get_user_def dev_user_def reconstruction_job_row_ok_def)
  have found: "query_job 5 (Some 7) ((dw_database dev_world)\<lparr>db_jobs := [queued_job q 0]\<rparr>) = Inr (job_snapshot (queued_job q 0))"
    by (simp add: query_job_def owned_job_def get_job_def queued_job_def q)
  have none: "find_existing 7 ?key (dw_database dev_world) = Inr None"
    using dev_codec(2) by (simp add: find_existing_def get_job_by_idempotency_def valid_sha256_def dev_world_def empty_database_def)
  have facts: "tf_job_id (df_task dev_facts) = 5" "df_meanwhile dev_facts = (\<lambda>db. db)" "df_now dev_facts = 0" by (simp_all add: dev_facts_def)
  have "write_and_enqueue dev_codecs dev_baseline dev_facts ?l 7 3 ?key (dev_world\<lparr>dw_files := fs\<rparr>) =
      (Inr (), \<lparr>dw_database = (dw_database dev_world)\<lparr>db_jobs := [queued_job q 0]\<rparr>, dw_files = fs'\<rparr>)"
    by (simp add: write_and_enqueue_def wrote facts q(1) queued)
  then show ?thesis
    using created made none found by (simp add: create_simulated_job_def Let_def reading_def facts)
qed

theorem development_job_is_all_or_nothing_witness:
  "\<exists>snapshot w' job. create_simulated_job dev_codecs dev_baseline [''d''] dev_facts 7 3 ''token-01'' dev_world = (Inr (snapshot, False), w') \<and>
     snapshot = job_snapshot job \<and>
     runnable_job dev_codecs \<lparr>cd_dumps = unary, cd_loads = \<lambda>_. None, cd_valid_event = \<lambda>_. True\<rparr> [''d''] 5 7 ''w'' w' job"
proof -
  obtain snapshot w' where run: "create_simulated_job dev_codecs dev_baseline [''d''] dev_facts 7 3 ''token-01'' dev_world = (Inr (snapshot, False), w')"
    using dev_created by blast
  have "tf_job_id (df_task dev_facts) = 5" by (simp add: dev_facts_def)
  moreover have "fresh_task [''d''] (tf_job_id (df_task dev_facts)) (dw_files dev_world)" by (simp add: fresh_task_def dev_world_def dev_facts_def)
  ultimately show ?thesis
    using development_job_is_all_or_nothing [OF _ dev_codec(1,2) run] run by fastforce
qed

end
