(* ===== verification/Ip_Address.thy ===== *)
theory Ip_Address
  imports Task_Files "HOL-Library.Word"
begin

text \<open>
  What the platform uses of Python's \<open>ipaddress\<close>: addresses of both versions as words, their text, and
  networks. An address of version 6 may have a scope, which is text behind a percent sign.
\<close>

unbundle bit_operations_syntax

section \<open>Version 4\<close>

definition digits_value :: "string \<Rightarrow> nat" where
  "digits_value s = foldl (\<lambda>acc c. 10 * acc + (code_point c - 48)) 0 s"

definition parse_octet :: "string \<Rightarrow> nat option" where
  "parse_octet s =
     (if s = [] \<or> \<not> list_all is_digit s \<or> 3 < length s \<or> s \<noteq> ''0'' \<and> hd s = CHR ''0'' then None
      else let n = digits_value s in if n \<le> 255 then Some n else None)"

definition parse_v4 :: "string \<Rightarrow> 32 word option" where
  "parse_v4 s =
     (case map parse_octet (split_at (CHR ''.'') s) of
        [Some a, Some b, Some c, Some d] \<Rightarrow> Some (of_nat (((a * 256 + b) * 256 + c) * 256 + d))
      | _ \<Rightarrow> None)"

fun join_with :: "char \<Rightarrow> string list \<Rightarrow> string" where
  "join_with x [] = []"
| "join_with x [s] = s"
| "join_with x (s # t # ss) = s @ x # join_with x (t # ss)"

text \<open>The digits of a number to a base, most significant first, with leading zeros.\<close>

fun places :: "nat \<Rightarrow> nat \<Rightarrow> nat \<Rightarrow> nat list" where
  "places base 0 n = []"
| "places base (Suc k) n = places base k (n div base) @ [n mod base]"

definition print_v4 :: "32 word \<Rightarrow> string" where
  "print_v4 w = join_with (CHR ''.'') (map decimal (places 256 4 (unat w)))"

section \<open>Version 6\<close>

definition parse_hextet :: "string \<Rightarrow> nat option" where
  "parse_hextet s =
     (if s = [] \<or> \<not> list_all (\<lambda>c. hex_digit c \<noteq> None) s \<or> 4 < length s then None
      else Some (foldl (\<lambda>acc c. 16 * acc + the (hex_digit c)) 0 s))"

text \<open>\<open>'%x' % n\<close>\<close>

fun hex_text :: "nat \<Rightarrow> string" where
  "hex_text n = (if n < 16 then [numeral_char n] else hex_text (n div 16) @ [numeral_char (n mod 16)])"

declare hex_text.simps [simp del]

text \<open>The parts between colons; an ending in the form of version 4 counts as two parts.\<close>

definition v6_parts :: "string \<Rightarrow> string list option" where
  "v6_parts s =
     (let parts = split_at (CHR '':'') s
      in if length parts < 3 then None
         else if CHR ''.'' \<in> set (last parts) then
           (case parse_v4 (last parts) of None \<Rightarrow> None
            | Some w \<Rightarrow> Some (butlast parts @ [hex_text (unat w div 65536), hex_text (unat w mod 65536)]))
         else Some parts)"

definition hextets_value :: "nat option list \<Rightarrow> 128 word option" where
  "hextets_value hs = (if None \<in> set hs then None else Some (of_nat (foldl (\<lambda>acc h. 65536 * acc + the h) 0 hs)))"

definition v6_value :: "string list \<Rightarrow> 128 word option" where
  "v6_value parts =
     (if 9 < length parts then None
      else
        (case filter (\<lambda>i. parts ! i = []) [1..<length parts - 1] of
           [] \<Rightarrow> if length parts \<noteq> 8 \<or> hd parts = [] \<or> last parts = [] then None else hextets_value (map parse_hextet parts)
         | [i] \<Rightarrow>
             let hi = (if hd parts = [] then i - 1 else i);
                 lo = (if last parts = [] then length parts - i - 2 else length parts - i - 1)
             in if hd parts = [] \<and> hi \<noteq> 0 \<or> last parts = [] \<and> lo \<noteq> 0 \<or> 8 \<le> hi + lo then None
                else hextets_value (map parse_hextet (take hi parts) @ replicate (8 - (hi + lo)) (Some 0) @
                  map parse_hextet (drop (length parts - lo) parts))
         | _ \<Rightarrow> None))"

text \<open>The longest run of zeros, the first of several: its start and its length.\<close>

fun zero_run :: "nat \<Rightarrow> string list \<Rightarrow> nat \<times> nat \<Rightarrow> nat \<times> nat \<Rightarrow> nat \<times> nat" where
  "zero_run i [] current best = best"
| "zero_run i (h # hs) (start, len) best =
     (if h = ''0'' then
        let current = (if len = 0 then i else start, len + 1)
        in zero_run (Suc i) hs current (if snd best < snd current then current else best)
      else zero_run (Suc i) hs (0, 0) best)"

definition compress_hextets :: "string list \<Rightarrow> string list" where
  "compress_hextets hs =
     (let (start, len) = zero_run 0 hs (0, 0) (0, 0)
      in if len \<le> 1 then hs
         else (if start = 0 then [[]] else []) @ take start hs @ [[]] @ drop (start + len) hs @
           (if start + len = length hs then [[]] else []))"

definition print_v6 :: "128 word \<Rightarrow> string" where
  "print_v6 w = join_with (CHR '':'') (compress_hextets (map hex_text (places 65536 8 (unat w))))"

section \<open>Addresses\<close>

datatype ip = V4 "32 word" | V6 "128 word" "string option"

definition parse_v6 :: "string \<Rightarrow> ip option" where
  "parse_v6 s =
     (let addr = takeWhile (\<lambda>c. c \<noteq> CHR ''%'') s; rest = drop (length addr) s; zone = drop 1 rest
      in if CHR ''/'' \<in> set s \<or> rest \<noteq> [] \<and> (zone = [] \<or> CHR ''%'' \<in> set zone) then None
         else (case v6_parts addr of None \<Rightarrow> None
           | Some parts \<Rightarrow> map_option (\<lambda>w. V6 w (if rest = [] then None else Some zone)) (v6_value parts)))"

text \<open>\<open>ip_address\<close> of a string, and \<open>str\<close> of an address.\<close>

definition ip_address :: "string \<Rightarrow> ip option" where
  "ip_address s = (case parse_v4 s of Some w \<Rightarrow> Some (V4 w) | None \<Rightarrow> parse_v6 s)"

definition ip_str :: "ip \<Rightarrow> string" where
  "ip_str a =
     (case a of V4 w \<Rightarrow> print_v4 w
      | V6 w zone \<Rightarrow> print_v6 w @ (case zone of None \<Rightarrow> [] | Some z \<Rightarrow> CHR ''%'' # z))"

section \<open>Networks\<close>

definition netmask_bits :: "nat \<Rightarrow> 'w::len word" where
  "netmask_bits p = NOT (drop_bit p (- 1))"

datatype ip_network = Net4 "32 word" nat | Net6 "128 word" nat

definition prefix_digits :: "nat \<Rightarrow> string \<Rightarrow> nat option" where
  "prefix_digits longest s =
     (if s = [] \<or> \<not> list_all is_digit s \<or> 4300 < length s then None
      else let n = digits_value s in if n \<le> longest then Some n else None)"

text \<open>A netmask or a host mask in the form of an address.\<close>

definition prefix_from_mask :: "string \<Rightarrow> nat option" where
  "prefix_from_mask s =
     (case parse_v4 s of None \<Rightarrow> None
      | Some w \<Rightarrow>
          (case find (\<lambda>p. w = netmask_bits p) [0..<33] of Some p \<Rightarrow> Some p | None \<Rightarrow> find (\<lambda>p. NOT w = netmask_bits p) [0..<33]))"

definition network_v4 :: "string \<Rightarrow> string option \<Rightarrow> ip_network option" where
  "network_v4 addr netmask =
     (case (parse_v4 addr,
         case netmask of None \<Rightarrow> Some 32
         | Some s \<Rightarrow> (case prefix_digits 32 s of Some p \<Rightarrow> Some p | None \<Rightarrow> prefix_from_mask s)) of
        (Some w, Some p) \<Rightarrow> Some (Net4 (w AND netmask_bits p) p)
      | _ \<Rightarrow> None)"

definition network_v6 :: "string \<Rightarrow> string option \<Rightarrow> ip_network option" where
  "network_v6 addr netmask =
     (case (parse_v6 addr, case netmask of None \<Rightarrow> Some 128 | Some s \<Rightarrow> prefix_digits 128 s) of
        (Some (V6 w _), Some p) \<Rightarrow> Some (Net6 (w AND netmask_bits p) p)
      | _ \<Rightarrow> None)"

text \<open>\<open>ip_network(cidr, strict=False)\<close>\<close>

definition ip_network :: "string \<Rightarrow> ip_network option" where
  "ip_network s =
     (let read = (\<lambda>addr netmask. case network_v4 addr netmask of Some n \<Rightarrow> Some n | None \<Rightarrow> network_v6 addr netmask)
      in case split_at (CHR ''/'') s of
           [addr] \<Rightarrow> read addr None
         | [addr, netmask] \<Rightarrow> read addr (Some netmask)
         | _ \<Rightarrow> None)"

definition in_network :: "ip \<Rightarrow> ip_network \<Rightarrow> bool" where
  "in_network a n =
     (case (a, n) of (V4 w, Net4 base p) \<Rightarrow> w AND netmask_bits p = base | (V6 w _, Net6 base p) \<Rightarrow> w AND netmask_bits p = base | _ \<Rightarrow> False)"

definition is_loopback :: "ip \<Rightarrow> bool" where
  "is_loopback a = (case a of V4 w \<Rightarrow> w AND netmask_bits 8 = push_bit 24 127 | V6 w _ \<Rightarrow> w = 1)"

text \<open>The first and the last address of a network.\<close>

definition network_ends :: "ip_network \<Rightarrow> ip \<times> ip" where
  "network_ends n =
     (case n of Net4 base p \<Rightarrow> (V4 base, V4 (base OR NOT (netmask_bits p))) | Net6 base p \<Rightarrow> (V6 base None, V6 (base OR NOT (netmask_bits p)) None))"

section \<open>Reading back what is printed\<close>

lemma split_at_none: "x \<notin> set s \<Longrightarrow> split_at x s = [s]"
  by (induction s) auto

lemma split_at_append: "x \<notin> set s \<Longrightarrow> split_at x (s @ x # t) = s # split_at x t"
  by (induction s) auto

lemma split_at_join: "ss \<noteq> [] \<Longrightarrow> \<forall>s \<in> set ss. x \<notin> set s \<Longrightarrow> split_at x (join_with x ss) = ss"
  by (induction x ss rule: join_with.induct) (auto simp: split_at_none split_at_append)

lemma set_join: "set (join_with x ss) \<subseteq> insert x (\<Union> (set (map set ss)))"
  by (induction x ss rule: join_with.induct) auto

lemma length_places [simp]: "length (places b k n) = k"
  by (induction k arbitrary: n) auto

lemma places_less: "0 < b \<Longrightarrow> m \<in> set (places b k n) \<Longrightarrow> m < b"
  by (induction k arbitrary: n) auto

lemma places_value: "foldl (\<lambda>acc h. b * acc + h) 0 (places b k n) = n mod b ^ k"
proof (induction k arbitrary: n)
  case (Suc k)
  have "b * (n div b mod b ^ k) + n mod b = n mod (b * b ^ k)"
    by (simp add: mod_mult2_eq mult.commute)
  with Suc show ?case by simp
qed simp

lemma numeral_char_value: "d < 10 \<Longrightarrow> code_point (numeral_char d) - 48 = d" "d < 10 \<Longrightarrow> is_digit (numeral_char d)"
  by (auto simp: numeral_char_def code_point_def is_digit_def char_in_def)

lemma decimal_value: "digits_value (decimal n) = n" "list_all is_digit (decimal n)"
proof -
  have "digits_value (decimal n) = n \<and> list_all is_digit (decimal n)"
  proof (induction n rule: decimal.induct)
    case (1 n)
    show ?case
    proof (cases "n < 10")
      case True
      then show ?thesis by (simp add: decimal.simps [of n] digits_value_def numeral_char_value)
    next
      case False
      with 1 show ?thesis by (simp add: decimal.simps [of n] digits_value_def numeral_char_value)
    qed
  qed
  then show "digits_value (decimal n) = n" "list_all is_digit (decimal n)" by blast+
qed

lemma length_decimal_le: "n < 10 ^ k \<Longrightarrow> 0 < k \<Longrightarrow> length (decimal n) \<le> k"
proof (induction k arbitrary: n)
  case (Suc k)
  show ?case
  proof (cases "n < 10")
    case False
    then have "0 < k" using Suc.prems(1) by (cases k) auto
    moreover have "n div 10 < 10 ^ k" using Suc.prems(1) by (simp add: less_mult_imp_div_less mult.commute)
    ultimately show ?thesis using Suc.IH [of "n div 10"] False by (simp add: decimal.simps [of n])
  qed (simp add: decimal.simps [of n])
qed simp

lemma decimal_nonempty [simp]: "decimal n \<noteq> []"
  by (subst decimal.simps) simp

lemma hd_decimal: "0 < n \<Longrightarrow> hd (decimal n) \<noteq> CHR ''0''"
proof (induction n rule: decimal.induct)
  case (1 n)
  show ?case
  proof (cases "n < 10")
    case True
    have "code_point (numeral_char n) - 48 = n" using True by (rule numeral_char_value)
    then have "numeral_char n \<noteq> CHR ''0''" using 1(2) by (auto simp: code_point_def)
    then show ?thesis using True by (simp add: decimal.simps [of n])
  next
    case False
    with 1 show ?thesis by (simp add: decimal.simps [of n])
  qed
qed

lemma parse_octet_decimal: "n < 256 \<Longrightarrow> parse_octet (decimal n) = Some n"
proof -
  assume n: "n < 256"
  have "decimal 0 = ''0''" by (simp add: decimal.simps numeral_char_def char_of_eq_iff take_bit_eq_mod)
  then have zero: "parse_octet ''0'' = Some 0" using decimal_value [of 0] by (simp add: parse_octet_def)
  show ?thesis
    using n length_decimal_le [of n 3] hd_decimal [of n] \<open>decimal 0 = _\<close> zero
    by (cases "n = 0") (auto simp: parse_octet_def Let_def decimal_value)
qed

lemma digits_no_mark: "list_all is_digit s \<Longrightarrow> \<not> is_digit x \<Longrightarrow> x \<notin> set s"
  by (auto simp: list_all_iff)

lemma length_four: "length xs = 4 \<Longrightarrow> \<exists>a b c d. xs = [a, b, c, d]"
  by (auto simp: numeral_eq_Suc length_Suc_conv)

lemma parse_print_v4: "parse_v4 (print_v4 w) = Some w"
proof -
  have "split_at (CHR ''.'') (print_v4 w) = map decimal (places 256 4 (unat w))"
  proof -
    have "CHR ''.'' \<notin> set (decimal n)" for n
      by (rule digits_no_mark [OF decimal_value(2)]) (simp add: is_digit_def char_in_def)
    moreover have "places 256 4 (unat w) \<noteq> []" by (metis length_places length_0_conv zero_neq_numeral)
    ultimately show ?thesis unfolding print_v4_def by (intro split_at_join) auto
  qed
  moreover have "map parse_octet (map decimal (places 256 4 (unat w))) = map Some (places 256 4 (unat w))"
    using places_less [of 256 _ 4 "unat w"] by (auto simp: parse_octet_decimal)
  moreover obtain a b c d where abcd: "places 256 4 (unat w) = [a, b, c, d]" using length_four [OF length_places] by blast
  moreover have "((a * 256 + b) * 256 + c) * 256 + d = unat w"
  proof -
    have "unat w < 256 ^ 4" using unsigned_less [of w, where 'a = nat] by simp
    then show ?thesis using places_value [of 256 4 "unat w"] by (simp add: abcd algebra_simps)
  qed
  ultimately show ?thesis by (simp add: parse_v4_def)
qed

lemma hex_text_value: "foldl (\<lambda>acc c. 16 * acc + the (hex_digit c)) 0 (hex_text n) = n" "list_all (\<lambda>c. hex_digit c \<noteq> None) (hex_text n)"
proof -
  have "foldl (\<lambda>acc c. 16 * acc + the (hex_digit c)) 0 (hex_text n) = n \<and> list_all (\<lambda>c. hex_digit c \<noteq> None) (hex_text n)"
  proof (induction n rule: hex_text.induct)
    case (1 n)
    show ?case
    proof (cases "n < 16")
      case True
      then show ?thesis by (simp add: hex_text.simps [of n] hex_digit_numeral)
    next
      case False
      with 1 show ?thesis by (simp add: hex_text.simps [of n] hex_digit_numeral)
    qed
  qed
  then show "foldl (\<lambda>acc c. 16 * acc + the (hex_digit c)) 0 (hex_text n) = n" "list_all (\<lambda>c. hex_digit c \<noteq> None) (hex_text n)" by blast+
qed

lemma length_hex_text_le: "n < 16 ^ k \<Longrightarrow> 0 < k \<Longrightarrow> length (hex_text n) \<le> k"
proof (induction k arbitrary: n)
  case (Suc k)
  show ?case
  proof (cases "n < 16")
    case False
    then have "0 < k" using Suc.prems(1) by (cases k) auto
    moreover have "n div 16 < 16 ^ k" using Suc.prems(1) by (simp add: less_mult_imp_div_less mult.commute)
    ultimately show ?thesis using Suc.IH [of "n div 16"] False by (simp add: hex_text.simps [of n])
  qed (simp add: hex_text.simps [of n])
qed simp

lemma hex_text_nonempty [simp]: "hex_text n \<noteq> []"
  by (subst hex_text.simps) simp

lemma parse_hex_text: "n < 65536 \<Longrightarrow> parse_hextet (hex_text n) = Some n"
  using length_hex_text_le [of n 4] by (simp add: parse_hextet_def hex_text_value del: not_None_eq)

lemma hex_text_no_mark: "hex_digit x = None \<Longrightarrow> x \<notin> set (hex_text n)"
  using hex_text_value(2) [of n] by (auto simp: list_all_iff)

text \<open>What \<open>zero_run\<close> finds is a run of zeros.\<close>

definition zeros_at :: "string list \<Rightarrow> nat \<times> nat \<Rightarrow> bool" where
  "zeros_at hs run \<longleftrightarrow> (case run of (start, len) \<Rightarrow> start + len \<le> length hs \<and> (\<forall>j. start \<le> j \<and> j < start + len \<longrightarrow> hs ! j = ''0''))"

lemma zeros_at_append: "zeros_at hs run \<Longrightarrow> zeros_at (hs @ hs') run"
  by (auto simp: zeros_at_def nth_append split: prod.splits)

lemma zero_run_found:
  "zeros_at (pre @ hs) best \<Longrightarrow> 0 < snd current \<Longrightarrow> zeros_at pre current \<and> fst current + snd current = length pre \<Longrightarrow>
     zeros_at (pre @ hs) (zero_run (length pre) hs current best)"
  "zeros_at (pre @ hs) best \<Longrightarrow> snd current = 0 \<Longrightarrow> zeros_at (pre @ hs) (zero_run (length pre) hs current best)"
proof (induction hs arbitrary: pre current best)
  case (Cons h hs)
  {
    case 1
    obtain start len where c: "current = (start, len)" by fastforce
    show ?case
    proof (cases "h = ''0''")
      case True
      have run: "zeros_at (pre @ [h]) (start, len + 1)" "start + (len + 1) = length (pre @ [h])"
        using 1(3) True by (simp_all add: c zeros_at_def nth_append less_Suc_eq)
      have "zeros_at ((pre @ [h]) @ hs) (start, len + 1)" using run(1) by (rule zeros_at_append)
      then show ?thesis
        using Cons.IH(1) [of "pre @ [h]" _ "(start, len + 1)"] run 1 True by (simp add: c Let_def)
    next
      case False
      then show ?thesis using Cons.IH(2) [of "pre @ [h]" best "(0, 0)"] 1 by (simp add: c)
    qed
  next
    case 2
    obtain start len where c: "current = (start, len)" by fastforce
    show ?case
    proof (cases "h = ''0''")
      case True
      have run: "zeros_at (pre @ [h]) (length pre, 1)" "length pre + 1 = length (pre @ [h])"
        using True by (auto simp: zeros_at_def nth_append less_Suc_eq)
      have "zeros_at ((pre @ [h]) @ hs) (length pre, 1)" using run(1) by (rule zeros_at_append)
      then show ?thesis
        using Cons.IH(1) [of "pre @ [h]" _ "(length pre, 1)"] run 2 True by (simp add: c Let_def)
    next
      case False
      then show ?thesis using Cons.IH(2) [of "pre @ [h]" best "(0, 0)"] 2 by (simp add: c)
    qed
  }
qed simp_all

lemma zero_run_split:
  assumes "zero_run 0 hs (0, 0) (0, 0) = (start, len)"
  shows "start + len \<le> length hs" "hs = take start hs @ replicate len ''0'' @ drop (start + len) hs"
proof -
  have "zeros_at hs (start, len)" using zero_run_found(2) [of "[]" hs "(0, 0)" "(0, 0)"] assms by (simp add: zeros_at_def)
  then have le: "start + len \<le> length hs" and zeros: "\<And>j. start \<le> j \<Longrightarrow> j < start + len \<Longrightarrow> hs ! j = ''0''"
    by (auto simp: zeros_at_def)
  show "start + len \<le> length hs" by (rule le)
  have "take len (drop start hs) = replicate len ''0''"
    using le zeros by (intro nth_equalityI) auto
  then show "hs = take start hs @ replicate len ''0'' @ drop (start + len) hs"
    by (metis append_take_drop_id drop_drop add.commute)
qed

lemma filter_one: "distinct xs \<Longrightarrow> i \<in> set xs \<Longrightarrow> (\<And>j. j \<in> set xs \<Longrightarrow> P j \<longleftrightarrow> j = i) \<Longrightarrow> filter P xs = [i]"
proof (induction xs)
  case (Cons x xs)
  show ?case
  proof (cases "x = i")
    case True
    then have "filter P xs = []" using Cons.prems by (auto simp: filter_empty_conv)
    then show ?thesis using True Cons.prems(3) [of i] by simp
  next
    case False
    then have "filter P xs = [i]" using Cons.IH Cons.prems by auto
    then show ?thesis using False Cons.prems(3) [of x] by simp
  qed
qed simp

text \<open>Eight hextets, compressed or not, are read back.\<close>

lemma compressed_value:
  assumes len: "length ns = 8" and small: "\<forall>n \<in> set ns. n < 65536"
  shows "v6_value (compress_hextets (map hex_text ns)) = Some (of_nat (foldl (\<lambda>acc h. 65536 * acc + h) 0 ns))"
    and "3 \<le> length (compress_hextets (map hex_text ns))"
    and "set (compress_hextets (map hex_text ns)) \<subseteq> insert [] (range hex_text)"
proof -
  let ?hs = "map hex_text ns"
  obtain start run where zr: "zero_run 0 ?hs (0, 0) (0, 0) = (start, run)" by fastforce
  note cut = zero_run_split [OF zr]
  have parsed: "map parse_hextet (map hex_text ms) = map Some ms" if "set ms \<subseteq> set ns" for ms
    using that small by (auto simp: parse_hex_text)
  have valued: "hextets_value (map Some ms) = Some (of_nat (foldl (\<lambda>acc h. 65536 * acc + h) 0 ms))" for ms
    by (simp add: hextets_value_def foldl_map)
  show "v6_value (compress_hextets ?hs) = Some (of_nat (foldl (\<lambda>acc h. 65536 * acc + h) 0 ns))"
  proof (cases "run \<le> 1")
    case True
    have "?hs ! i \<noteq> []" if "i < 8" for i using that len by simp
    then have "filter (\<lambda>i. ?hs ! i = []) [1..<length ?hs - 1] = []" using len by (auto simp: filter_empty_conv)
    moreover have "hd ?hs \<noteq> []" "last ?hs \<noteq> []" using len by (cases ns; simp add: last_map)+
    ultimately show ?thesis
      using True len parsed [of ns] valued [of ns] by (simp add: compress_hextets_def zr v6_value_def del: map_map)
  next
    case False
    define hi lo where "hi = take start ns" and "lo = drop (start + run) ns"
    have parts: "compress_hextets ?hs = (if hi = [] then [[]] else []) @ map hex_text hi @ [[]] @ map hex_text lo @ (if lo = [] then [[]] else [])"
    proof -
      have "start = 0 \<longleftrightarrow> hi = []" "start + run = length ?hs \<longleftrightarrow> lo = []"
        using cut(1) len by (auto simp: hi_def lo_def)
      then show ?thesis using False by (simp add: compress_hextets_def zr hi_def lo_def take_map drop_map)
    qed
    have lengths: "length hi = start" "length hi + run + length lo = 8" using cut(1) len by (auto simp: hi_def lo_def)
    let ?parts = "compress_hextets ?hs" and ?i = "if hi = [] then 1 else length hi"
    have nth: "?parts ! j = [] \<longleftrightarrow> j = ?i" if "1 \<le> j" "j < length ?parts - 1" for j
    proof -
      have hexes: "map hex_text ms ! k \<noteq> []" if "k < length ms" for k ms using that by simp
      show ?thesis using that hexes unfolding parts
        by (auto simp: nth_append nth_Cons split: if_splits nat.splits)
    qed
    have range: "1 \<le> ?i" "?i < length ?parts - 1" unfolding parts by (auto simp: Suc_le_eq)
    have skips: "filter (\<lambda>i. ?parts ! i = []) [1..<length ?parts - 1] = [?i]"
      by (rule filter_one) (use nth range in auto)
    have nines: "\<not> 9 < length ?parts" using lengths False unfolding parts by auto
    have ends: "hd ?parts = [] \<longleftrightarrow> hi = []" "last ?parts = [] \<longleftrightarrow> lo = []"
      unfolding parts by (auto simp: hd_append last_append hd_map last_map)
    have count: "(if hd ?parts = [] then ?i - 1 else ?i) = length hi"
      "(if last ?parts = [] then length ?parts - ?i - 2 else length ?parts - ?i - 1) = length lo"
      unfolding ends unfolding parts by auto
    have pieces: "take (length hi) ?parts = map hex_text hi" "drop (length ?parts - length lo) ?parts = map hex_text lo"
      unfolding parts by (cases "hi = []"; cases "lo = []"; simp)+
    have "replicate run ''0'' = map hex_text (take run (drop start ns))"
    proof -
      have "?hs = map hex_text hi @ replicate run ''0'' @ map hex_text lo" using cut(2) by (simp add: hi_def lo_def take_map drop_map)
      then have "take run (drop start ?hs) = replicate run ''0''" using lengths by (simp add: hi_def take_map)
      then show ?thesis by (simp add: take_map drop_map)
    qed
    moreover have "n = 0" if "hex_text n = ''0''" for n
    proof -
      have zero: "hex_digit (CHR ''0'') = Some 0" by (simp add: hex_digit_def code_point_def)
      have "foldl (\<lambda>acc c. 16 * acc + the (hex_digit c)) 0 ''0'' = n" using hex_text_value(1) [of n] unfolding that .
      then show ?thesis by (simp add: zero)
    qed
    ultimately have "\<forall>n \<in> set (take run (drop start ns)). n = 0" by (metis in_set_replicate imageI list.set_map)
    moreover have "length (take run (drop start ns)) = run" using lengths len cut(1) by simp
    ultimately have zeros: "take run (drop start ns) = replicate run 0" by (metis replicate_length_same)
    have "ns = hi @ take run (drop start ns) @ lo"
      by (metis hi_def lo_def append_take_drop_id drop_drop add.commute)
    then have ns: "ns = hi @ replicate run 0 @ lo" unfolding zeros .
    have some: "map parse_hextet (map hex_text hi) @ replicate run (Some 0) @ map parse_hextet (map hex_text lo) = map Some ns"
    proof -
      have "set hi \<subseteq> set ns" "set lo \<subseteq> set ns" by (auto simp: hi_def lo_def dest: in_set_takeD in_set_dropD)
      then show ?thesis using parsed by (simp add: ns del: map_map) 
    qed
    have "8 - (length hi + length lo) = run" "\<not> 8 \<le> length hi + length lo" using lengths False by linarith+
    then show ?thesis
      unfolding v6_value_def skips Let_def list.case count pieces using nines some valued [of ns] ends by (simp add: map_replicate)
  qed
  show "3 \<le> length (compress_hextets ?hs)"
    using cut(1) len by (auto simp: compress_hextets_def zr)
  show "set (compress_hextets ?hs) \<subseteq> insert [] (range hex_text)"
    by (auto simp: compress_hextets_def zr take_map drop_map dest: in_set_takeD in_set_dropD)
qed

lemma parse_print_v6:
  "v6_parts (print_v6 w) = Some (compress_hextets (map hex_text (places 65536 8 (unat w))))"
  "v6_value (compress_hextets (map hex_text (places 65536 8 (unat w)))) = Some w"
proof -
  let ?ns = "places 65536 8 (unat w)" and ?parts = "compress_hextets (map hex_text (places 65536 8 (unat w)))"
  have small: "\<forall>n \<in> set ?ns. n < 65536" using places_less by simp
  note valued = compressed_value [OF length_places small]
  have no: "x \<notin> set s" if "s \<in> set ?parts" "hex_digit x = None" for s x
    using valued(3) hex_text_no_mark [OF that(2)] that(1) by auto
  have colon: "hex_digit (CHR '':'') = None" "hex_digit (CHR ''.'') = None" by (simp_all add: hex_digit_def code_point_def)
  have "?parts \<noteq> []" using valued(2) by auto
  then have "split_at (CHR '':'') (print_v6 w) = ?parts" unfolding print_v6_def using no colon by (intro split_at_join) auto
  moreover have "CHR ''.'' \<notin> set (last ?parts)" using no [OF last_in_set [OF \<open>?parts \<noteq> []\<close>] colon(2)] .
  ultimately show "v6_parts (print_v6 w) = Some ?parts" using valued(2) by (simp add: v6_parts_def Let_def)
  have "unat w < 65536 ^ 8" using unsigned_less [of w, where 'a = nat] by simp
  then show "v6_value ?parts = Some w" using valued(1) places_value [of 65536 8 "unat w"] by simp
qed

lemma split_at_nonempty: "split_at x s \<noteq> []"
  by (induction s) (auto split: list.split)

lemma set_split_at: "c \<in> set s \<Longrightarrow> c \<noteq> x \<Longrightarrow> \<exists>p \<in> set (split_at x s). c \<in> set p"
proof (induction s)
  case (Cons d s)
  obtain t ts where st: "split_at x s = t # ts" using split_at_nonempty [of x s] by (cases "split_at x s") auto
  show ?case using Cons by (auto simp: st)
qed simp

lemma parse_v4_chars:
  assumes "parse_v4 s = Some w" "c \<in> set s"
  shows "c = CHR ''.'' \<or> is_digit c"
proof (rule ccontr)
  assume other: "\<not> (c = CHR ''.'' \<or> is_digit c)"
  then obtain p where p: "p \<in> set (split_at (CHR ''.'') s)" "c \<in> set p" using set_split_at [OF assms(2), of "CHR ''.''"] by blast
  have "\<forall>p \<in> set (split_at (CHR ''.'') s). parse_octet p \<noteq> None"
    using assms(1) by (auto simp: parse_v4_def map_eq_Cons_conv split: list.splits option.splits)
  then have "list_all is_digit p" using p(1) by (auto simp: parse_octet_def split: if_splits)
  then show False using p(2) other by (auto simp: list_all_iff)
qed

text \<open>An address as \<open>str\<close> prints it is read back, without or with a scope.\<close>

definition proper_ip :: "ip \<Rightarrow> bool" where
  "proper_ip a \<longleftrightarrow> (case a of V6 _ (Some z) \<Rightarrow> z \<noteq> [] \<and> CHR ''%'' \<notin> set z \<and> CHR ''/'' \<notin> set z | _ \<Rightarrow> True)"

lemma print_v6_chars:
  assumes "c \<in> set (print_v6 w)"
  shows "c = CHR '':'' \<or> hex_digit c \<noteq> None"
proof (rule ccontr)
  assume other: "\<not> (c = CHR '':'' \<or> hex_digit c \<noteq> None)"
  have small: "\<forall>n \<in> set (places 65536 8 (unat w)). n < 65536" using places_less by simp
  have "c \<notin> set s" if "s \<in> insert [] (range hex_text)" for s
    using that hex_text_no_mark [of c] other by auto
  moreover obtain s where "s \<in> set (compress_hextets (map hex_text (places 65536 8 (unat w))))" "c \<in> set s"
    using assms other set_join [of "CHR '':''" "compress_hextets (map hex_text (places 65536 8 (unat w)))"] unfolding print_v6_def by auto
  ultimately show False using compressed_value(3) [OF length_places small] by blast
qed

lemma colon_in_v6: "CHR '':'' \<in> set (print_v6 w)"
proof -
  have small: "\<forall>n \<in> set (places 65536 8 (unat w)). n < 65536" using places_less by simp
  have "CHR '':'' \<in> set (join_with (CHR '':'') ss)" if long: "3 \<le> length ss" for ss
  proof -
    obtain a b r where "ss = a # b # r" using long by (cases ss; cases "tl ss") auto
    then show ?thesis by simp
  qed
  then show ?thesis unfolding print_v6_def using compressed_value(2) [OF length_places small] by blast
qed

lemma ip_address_str: "proper_ip a \<Longrightarrow> ip_address (ip_str a) = Some a"
proof (cases a)
  case (V4 w)
  then show ?thesis by (simp add: ip_address_def ip_str_def parse_print_v4)
next
  case (V6 w zone)
  assume proper: "proper_ip a"
  have marks: "CHR ''%'' \<notin> set (print_v6 w)" "CHR ''/'' \<notin> set (print_v6 w)"
    using print_v6_chars by (fastforce simp: hex_digit_def code_point_def)+
  then have take: "takeWhile (\<lambda>c. c \<noteq> CHR ''%'') (print_v6 w @ CHR ''%'' # z) = print_v6 w"
    "takeWhile (\<lambda>c. c \<noteq> CHR ''%'') (print_v6 w) = print_v6 w" for z
    by (auto simp: takeWhile_append takeWhile_eq_all_conv)
  have "parse_v4 (ip_str a) = None"
  proof (cases "parse_v4 (ip_str a)")
    case (Some u)
    have "CHR '':'' \<in> set (ip_str a)" using colon_in_v6 by (simp add: V6 ip_str_def)
    from parse_v4_chars [OF Some this] show ?thesis by (simp add: is_digit_def char_in_def)
  qed
  moreover have "parse_v6 (ip_str a) = Some a"
    using proper marks parse_print_v6 [of w]
    by (cases zone) (simp_all add: parse_v6_def ip_str_def V6 take proper_ip_def Let_def)
  ultimately show ?thesis by (simp add: ip_address_def)
qed

end
