(* ===== verification/Client_Address.thy ===== *)
theory Client_Address
  imports Ip_Address Auth_Security
begin

text \<open>
  Where a request comes from: \<^verbatim>\<open>resolve_client_ip\<close> of \<^verbatim>\<open>backend/auth/context.py\<close>, which every
  limit of requests and attempts is keyed by, and \<^verbatim>\<open>is_loopback_host\<close> of \<^verbatim>\<open>backend/environment.py\<close>.
\<close>

section \<open>The address of a client\<close>

definition is_trusted :: "ip_network list \<Rightarrow> ip \<Rightarrow> bool" where
  "is_trusted networks a = list_ex (in_network a) networks"

text \<open>\<open>Inl\<close> is the \<open>ValueError\<close> of a network, which the settings have refused before.\<close>

definition resolve_client_ip :: "string option \<Rightarrow> string option \<Rightarrow> string list \<Rightarrow> string + string option" where
  "resolve_client_ip peer forwarded_for trusted_proxy_cidrs =
     (case (case peer of None \<Rightarrow> None | Some s \<Rightarrow> if s = [] then None else ip_address s) of
        None \<Rightarrow> Inr None
      | Some peer_address \<Rightarrow>
          if None \<in> ip_network ` set trusted_proxy_cidrs then Inl ''does not appear to be an IPv4 or IPv6 network''
          else
            let networks = map (the \<circ> ip_network) trusted_proxy_cidrs;
                header = (case forwarded_for of None \<Rightarrow> [] | Some s \<Rightarrow> s)
            in if \<not> is_trusted networks peer_address \<or> header = [] then Inr (Some (ip_str peer_address))
               else
                 let read = map (\<lambda>value. ip_address (strip value)) (split_at (CHR '','') header)
                 in if None \<in> set read then Inr (Some (ip_str peer_address))
                    else
                      let addresses = map the read
                      in (case find (\<lambda>a. \<not> is_trusted networks a) (rev (addresses @ [peer_address])) of
                            Some a \<Rightarrow> Inr (Some (ip_str a))
                          | None \<Rightarrow> Inr (Some (ip_str (hd addresses)))))"

definition is_loopback_host :: "string option \<Rightarrow> bool" where
  "is_loopback_host host =
     (case host of None \<Rightarrow> False
      | Some s \<Rightarrow>
          let normalized = strip_by (\<lambda>c. c = CHR ''['' \<or> c = CHR '']'') (lower (strip s))
          in normalized = ''localhost'' \<or> (case ip_address normalized of None \<Rightarrow> False | Some a \<Rightarrow> is_loopback a))"

section \<open>A header that proxies extend\<close>

text \<open>
  Every hop adds the address that it was called from to the end of \<open>X-Forwarded-For\<close>. The request of a client
  passes its proxies in order; the last one is the peer of the server. \<open>header\<close> is what the client sent.
\<close>

definition add_forwarded :: "ip \<Rightarrow> string option \<Rightarrow> string option" where
  "add_forwarded a header = Some (case header of None \<Rightarrow> ip_str a | Some s \<Rightarrow> s @ '', '' @ ip_str a)"

definition forwarded_by :: "ip list \<Rightarrow> string option \<Rightarrow> string option" where
  "forwarded_by callers header = fold add_forwarded callers header"

text \<open>The entries of a header as they are read.\<close>

definition header_entries :: "string option \<Rightarrow> ip option list" where
  "header_entries header =
     (case header of None \<Rightarrow> [] | Some s \<Rightarrow> map (\<lambda>value. ip_address (strip value)) (split_at (CHR '','') s))"

definition no_zone :: "ip \<Rightarrow> bool" where
  "no_zone a = (case a of V4 _ \<Rightarrow> True | V6 _ zone \<Rightarrow> zone = None)"

lemma ip_str_chars:
  assumes "no_zone a" "c \<in> set (ip_str a)"
  shows "c \<in> {CHR ''.'', CHR '':''} \<or> is_digit c \<or> hex_digit c \<noteq> None"
proof (cases a)
  case (V4 w)
  then have "c \<in> set (print_v4 w)" using assms(2) by (simp add: ip_str_def)
  then show ?thesis
    using set_join [of "CHR ''.''" "map decimal (places 256 4 (unat w))"] decimal_value(2)
    by (auto simp: print_v4_def list_all_iff)
next
  case (V6 w zone)
  then have "c \<in> set (print_v6 w)" using assms by (simp add: ip_str_def no_zone_def)
  then show ?thesis using print_v6_chars by blast
qed

lemma ip_str_plain:
  assumes "no_zone a"
  shows "CHR '','' \<notin> set (ip_str a)" "list_all (\<lambda>c. \<not> is_space c) (ip_str a)"
proof -
  show "CHR '','' \<notin> set (ip_str a)"
    using ip_str_chars [OF assms, of "CHR '',''"] by (auto simp: is_digit_def char_in_def hex_digit_def code_point_def)
  have "\<not> is_space c" if "c \<in> set (ip_str a)" for c
    using ip_str_chars [OF assms that]
    by (auto simp: is_space_def is_digit_def char_in_def hex_digit_def code_point_def Let_def split: if_splits)
  then show "list_all (\<lambda>c. \<not> is_space c) (ip_str a)" by (simp add: list_all_iff)
qed

lemma read_entry:
  assumes "no_zone a"
  shows "ip_address (strip (ip_str a)) = Some a" "ip_address (strip (CHR '' '' # ip_str a)) = Some a"
proof -
  have "proper_ip a" using assms by (auto simp: proper_ip_def no_zone_def split: ip.splits)
  then have read: "ip_address (ip_str a) = Some a" by (rule ip_address_str)
  have plain: "strip (ip_str a) = ip_str a"
    using strip_by_none [of is_space "ip_str a"] ip_str_plain(2) [OF assms] by (simp add: strip_def)
  have "is_space (CHR '' '')" by (simp add: is_space_def code_point_def)
  then have "strip (CHR '' '' # ip_str a) = strip (ip_str a)" by (simp add: strip_def strip_by_def)
  with read plain show "ip_address (strip (ip_str a)) = Some a" "ip_address (strip (CHR '' '' # ip_str a)) = Some a" by simp_all
qed

lemma split_at_last: "x \<notin> set t \<Longrightarrow> split_at x (s @ x # t) = split_at x s @ [t]"
proof (induction s)
  case (Cons c s)
  obtain u us where "split_at x s = u # us" using split_at_nonempty [of x s] by (cases "split_at x s") auto
  with Cons show ?case by simp
qed (simp add: split_at_none)

lemma entries_added:
  assumes "no_zone a"
  shows "header_entries (add_forwarded a header) = header_entries header @ [Some a]"
proof (cases header)
  case None
  then show ?thesis using ip_str_plain(1) [OF assms] read_entry(1) [OF assms] by (simp add: header_entries_def add_forwarded_def split_at_none)
next
  case (Some s)
  have "CHR '','' \<notin> set (CHR '' '' # ip_str a)" using ip_str_plain(1) [OF assms] by simp
  from split_at_last [OF this, of s] show ?thesis
    using Some read_entry(2) [OF assms] by (simp add: header_entries_def add_forwarded_def)
qed

lemma forwarded_entries:
  "\<forall>a \<in> set callers. no_zone a \<Longrightarrow> header_entries (forwarded_by callers header) = header_entries header @ map Some callers"
  by (induction callers arbitrary: header) (simp_all add: forwarded_by_def entries_added)

lemma ip_str_nonempty: "ip_str a \<noteq> []"
proof (cases a)
  case (V4 w)
  have "length (places 256 4 (unat w)) = 4" by simp
  then obtain p q r where "places 256 4 (unat w) = p # q # r" by (cases "places 256 4 (unat w)"; cases "tl (places 256 4 (unat w))") auto
  then show ?thesis by (simp add: V4 ip_str_def print_v4_def)
next
  case (V6 w zone)
  then show ?thesis using colon_in_v6 [of w] by (auto simp: ip_str_def)
qed

lemma forwarded_some: "callers \<noteq> [] \<Longrightarrow> \<exists>s. forwarded_by callers header = Some s \<and> s \<noteq> []"
proof -
  have kept: "\<exists>s. fold add_forwarded callers (Some t) = Some s \<and> s \<noteq> []" if "t \<noteq> []" for t callers
    using that by (induction callers arbitrary: t) (auto simp: add_forwarded_def)
  assume "callers \<noteq> []"
  then obtain a rest where "callers = a # rest" by (cases callers) auto
  then show ?thesis using kept ip_str_nonempty by (cases header) (auto simp: forwarded_by_def add_forwarded_def)
qed

text \<open>
  C37. A client that lies outside every trusted network cannot take the address of another. However it fills
  the header that its proxies, all of them in the trusted networks, extend, the request counts for its own
  address, or, when an entry of its header is no address, for that of the proxy that called the server; without
  a proxy its header is not read. Nothing of the kind holds for a client inside a trusted network
  (\<open>trusted_client_names_an_address\<close>).
\<close>

theorem client_cannot_forge_its_address:
  assumes networks: "None \<notin> ip_network ` set cidrs"
    and client: "\<not> is_trusted (map (the \<circ> ip_network) cidrs) client"
    and proxies: "\<forall>p \<in> set proxies. is_trusted (map (the \<circ> ip_network) cidrs) p"
    and plain: "\<forall>a \<in> set (client # proxies). no_zone a"
  shows "resolve_client_ip (Some (ip_str (last (client # proxies)))) (forwarded_by (butlast (client # proxies)) header) cidrs =
    Inr (Some (if proxies = [] \<or> None \<notin> set (header_entries header) then ip_str client else ip_str (last proxies)))"
proof -
  let ?peer = "last (client # proxies)" and ?nets = "map (the \<circ> ip_network) cidrs"
  have "no_zone ?peer" using plain by (metis last_in_set list.distinct(1))
  moreover have "proper_ip a" if "no_zone a" for a using that by (auto simp: proper_ip_def no_zone_def split: ip.splits)
  ultimately have peer: "ip_address (ip_str ?peer) = Some ?peer" by (intro ip_address_str)
  moreover have "ip_str ?peer \<noteq> []" by (rule ip_str_nonempty)
  ultimately have read_peer: "(case Some (ip_str ?peer) of None \<Rightarrow> None | Some s \<Rightarrow> if s = [] then None else ip_address s) = Some ?peer" by simp
  show ?thesis
  proof (cases "proxies = []")
    case True
    then show ?thesis using networks client peer by (simp add: resolve_client_ip_def ip_str_nonempty Let_def)
  next
    case False
    let ?callers = "butlast (client # proxies)"
    have callers: "?callers = client # butlast proxies" using False by simp
    then have "?callers \<noteq> []" by simp
    from forwarded_some [OF this, of header] obtain s where s: "forwarded_by ?callers header = Some s" "s \<noteq> []" by (elim exE conjE)
    have "\<forall>a \<in> set ?callers. no_zone a" using plain by (meson in_set_butlastD)
    then have "header_entries (Some s) = header_entries header @ map Some ?callers" using forwarded_entries [of ?callers header] s(1) by simp
    then have entries: "map (\<lambda>value. ip_address (strip value)) (split_at (CHR '','') s) = header_entries header @ map Some ?callers"
      by (simp add: header_entries_def)
    have trusted: "is_trusted ?nets ?peer" using proxies False by simp
    have found: "find (\<lambda>a. \<not> is_trusted ?nets a) (rev (butlast proxies) @ client # rest) = Some client" for rest
    proof -
      have "find (\<lambda>a. \<not> is_trusted ?nets a) (ps @ client # rest) = Some client" if "\<forall>p \<in> set ps. is_trusted ?nets p" for ps
        using that client by (induction ps) auto
      then show ?thesis using proxies by (simp add: in_set_butlastD)
    qed
    show ?thesis
    proof (cases "None \<in> set (header_entries header)")
      case True
      then show ?thesis
        using read_peer networks trusted False s
        by (simp add: resolve_client_ip_def Let_def entries)
    next
      case good: False
      then have "None \<notin> set (header_entries header @ map Some ?callers)" by auto
      then show ?thesis
        using read_peer networks trusted False s good found
        by (simp add: resolve_client_ip_def Let_def entries comp_def)
    qed
  qed
qed

text \<open>
  A client inside a trusted network, as every client of the restricted profile is, whose only trusted networks
  are loopback and which is reached through a tunnel, chooses the address its request counts for: any
  untrusted address it puts into the header is the one that is found.
\<close>

theorem trusted_client_names_an_address:
  assumes networks: "None \<notin> ip_network ` set cidrs"
    and hops: "\<forall>p \<in> set (client # proxies). is_trusted (map (the \<circ> ip_network) cidrs) p"
    and forged: "\<not> is_trusted (map (the \<circ> ip_network) cidrs) forged"
    and plain: "\<forall>a \<in> set (forged # client # proxies). no_zone a"
  shows "resolve_client_ip (Some (ip_str (last (client # proxies))))
      (forwarded_by (butlast (client # proxies)) (Some (ip_str forged))) cidrs = Inr (Some (ip_str forged))"
proof -
  let ?peer = "last (client # proxies)" and ?nets = "map (the \<circ> ip_network) cidrs" and ?callers = "butlast (client # proxies)"
  have peer_in: "?peer \<in> set (client # proxies)" by (rule last_in_set) simp
  then have "proper_ip ?peer" using plain by (auto simp: proper_ip_def no_zone_def split: ip.splits)
  then have peer: "ip_address (ip_str ?peer) = Some ?peer" by (rule ip_address_str)
  have "\<exists>s. forwarded_by ?callers (Some (ip_str forged)) = Some s \<and> s \<noteq> []"
    using forwarded_some [of ?callers] ip_str_nonempty by (cases "?callers = []") (simp_all add: forwarded_by_def)
  then obtain s where s: "forwarded_by ?callers (Some (ip_str forged)) = Some s" "s \<noteq> []" by blast
  have "\<forall>a \<in> set ?callers. no_zone a" using plain by (meson in_set_butlastD list.set_intros(2))
  moreover have "no_zone forged" using plain by simp
  then have "header_entries (Some (ip_str forged)) = [Some forged]"
    using ip_str_plain(1) read_entry(1) by (simp add: header_entries_def split_at_none)
  ultimately have "header_entries (Some s) = map Some (forged # ?callers)"
    using forwarded_entries [of ?callers "Some (ip_str forged)"] s(1) by simp
  then have entries: "map (\<lambda>value. ip_address (strip value)) (split_at (CHR '','') s) = map Some (forged # ?callers)"
    by (simp only: header_entries_def option.case)
  have find_last: "find (\<lambda>a. \<not> is_trusted ?nets a) (ps @ [forged]) = Some forged" if "\<forall>p \<in> set ps. is_trusted ?nets p" for ps
    using that forged by (induction ps) auto
  have callers: "is_trusted ?nets p" if "p \<in> set ?callers" for p using hops in_set_butlastD [OF that] by blast
  have trusted_peer: "is_trusted ?nets ?peer" using hops peer_in by blast
  have "\<forall>p \<in> set (?peer # rev ?callers). is_trusted ?nets p"
  proof
    fix p assume "p \<in> set (?peer # rev ?callers)"
    then consider "p = ?peer" | "p \<in> set ?callers" unfolding list.set set_rev by blast
    then show "is_trusted ?nets p" by cases (use trusted_peer callers in blast)+
  qed
  from find_last [OF this] have found: "find (\<lambda>a. \<not> is_trusted ?nets a) (rev ((forged # ?callers) @ [?peer])) = Some forged" by simp
  note trusted_peer
  moreover have "None \<notin> set (map Some (forged # ?callers))" "map the (map Some (forged # ?callers)) = forged # ?callers"
    by (simp_all add: comp_def)
  ultimately show ?thesis
    using found peer networks ip_str_nonempty [of ?peer] s
    by (simp only: resolve_client_ip_def Let_def entries option.case if_False if_True simp_thms)
qed

text \<open>A forged entry in front of the real one, behind a proxy on the same host.\<close>

lemma demo_octets:
  "parse_octet ''127'' = Some 127" "parse_octet ''0'' = Some 0" "digits_value ''8'' = 8"
  "parse_octet ''1'' = Some 1" "parse_octet ''2'' = Some 2" "parse_octet ''3'' = Some 3" "parse_octet ''4'' = Some 4"
  by (simp_all add: parse_octet_def digits_value_def code_point_def is_digit_def char_in_def)

lemma demo_digits:
  "decimal 127 = ''127''" "decimal 0 = ''0''" "decimal (Suc 0) = ''1''" "decimal 10 = ''10''" "decimal 5 = ''5''"
  by (simp_all add: decimal.simps numeral_char_def char_of_eq_iff take_bit_eq_mod)

lemma places_four: "places b 4 n = [n div b div b div b mod b, n div b div b mod b, n div b mod b, n mod b]"
  by (simp add: numeral_eq_Suc)

lemma demo_addresses:
  "ip_network ''127.0.0.0/8'' = Some (Net4 (2130706432 AND netmask_bits 8) 8)" "ip_str (V4 2130706433) = ''127.0.0.1''"
  "ip_str (V4 167772165) = ''10.0.0.5''" "ip_address ''1.2.3.4'' = Some (V4 16909060)"
  subgoal by (simp add: ip_network_def network_v4_def parse_v4_def demo_octets prefix_digits_def is_digit_def char_in_def)
  subgoal by (simp add: ip_str_def print_v4_def demo_digits places_four)
  subgoal by (simp add: ip_str_def print_v4_def demo_digits places_four)
  subgoal by (simp add: ip_address_def parse_v4_def demo_octets)
  done

lemma demo_trusted: "in_network (V4 2130706433) (Net4 (2130706432 AND netmask_bits 8) 8)" "\<not> in_network (V4 167772165) (Net4 (2130706432 AND netmask_bits 8) 8)"
  by (simp_all add: in_network_def netmask_bits_def mask_eq_exp_minus_1)

theorem client_cannot_forge_its_address_witness:
  "resolve_client_ip (Some ''127.0.0.1'') (Some ''1.2.3.4, 10.0.0.5'') [''127.0.0.0/8''] = Inr (Some ''10.0.0.5'')"
proof -
  have "list_all (\<lambda>c. \<not> is_space c) ''1.2.3.4''" by (simp add: is_space_def code_point_def)
  then have "strip ''1.2.3.4'' = ''1.2.3.4''" unfolding strip_def by (rule strip_by_none)
  then have "header_entries (Some ''1.2.3.4'') = [Some (V4 16909060)]" by (simp add: header_entries_def demo_addresses)
  moreover have "forwarded_by [V4 167772165] (Some ''1.2.3.4'') = Some ''1.2.3.4, 10.0.0.5''"
    by (simp add: forwarded_by_def add_forwarded_def demo_addresses)
  ultimately show ?thesis
    using client_cannot_forge_its_address [of "[''127.0.0.0/8'']" "V4 167772165" "[V4 2130706433]" "Some ''1.2.3.4''"]
    by (simp add: is_trusted_def demo_addresses demo_trusted no_zone_def)
qed

theorem trusted_client_names_an_address_witness:
  "resolve_client_ip (Some ''127.0.0.1'') (Some ''1.2.3.4, 127.0.0.1'') [''127.0.0.0/8''] = Inr (Some ''1.2.3.4'')"
proof -
  have "ip_str (V4 16909060) = ''1.2.3.4''"
    by (simp add: ip_str_def print_v4_def places_four decimal.simps numeral_char_def char_of_eq_iff take_bit_eq_mod)
  moreover have "\<not> in_network (V4 16909060) (Net4 (2130706432 AND netmask_bits 8) 8)"
    by (simp add: in_network_def netmask_bits_def mask_eq_exp_minus_1)
  moreover have "forwarded_by [V4 2130706433] (Some ''1.2.3.4'') = Some ''1.2.3.4, 127.0.0.1''"
    by (simp add: forwarded_by_def add_forwarded_def demo_addresses)
  ultimately show ?thesis
    using trusted_client_names_an_address [of "[''127.0.0.0/8'']" "V4 2130706433" "[V4 2130706433]" "V4 16909060"]
    by (simp add: is_trusted_def demo_addresses demo_trusted no_zone_def)
qed

end
