(* ===== verification/Deployment_Settings.thy ===== *)
theory Deployment_Settings
  imports Client_Address
begin

text \<open>
  How a deployment is configured: \<^verbatim>\<open>AuthSettings.from_environment\<close> of \<^verbatim>\<open>backend/auth/settings.py\<close>, and
  the settings and the delivery of mail of \<^verbatim>\<open>backend/auth/email.py\<close>. \<open>urlsplit\<close> is Python's; its
  normal form NFKC and \<open>parseaddr\<close> (the address of a mailbox) are arguments, and its messages are shortened.
\<close>

section \<open>\<open>urlsplit\<close>\<close>

record url =
  url_scheme :: string
  url_netloc :: string
  url_path :: string
  url_query :: string
  url_fragment :: string

definition cut :: "char \<Rightarrow> string \<Rightarrow> string \<times> string" where
  "cut x s = (takeWhile (\<lambda>c. c \<noteq> x) s, drop 1 (dropWhile (\<lambda>c. c \<noteq> x) s))"

definition clean_url :: "string \<Rightarrow> string" where
  "clean_url s = filter (\<lambda>c. code_point c \<notin> {9, 10, 13}) (dropWhile (\<lambda>c. code_point c \<le> 32) s)"

definition scheme_char :: "char \<Rightarrow> bool" where
  "scheme_char c \<longleftrightarrow> is_alnum c \<or> c = CHR ''+'' \<or> c = CHR ''-'' \<or> c = CHR ''.''"

definition split_scheme :: "string \<Rightarrow> string \<times> string" where
  "split_scheme s =
     (let name = fst (cut (CHR '':'') s)
      in if name \<noteq> [] \<and> CHR '':'' \<in> set s \<and> (is_lower (hd s) \<or> is_upper (hd s)) \<and> list_all scheme_char name
         then (lower name, snd (cut (CHR '':'') s)) else ([], s))"

definition split_netloc :: "string \<Rightarrow> string \<times> string" where
  "split_netloc s =
     (if take 2 s = ''//''
      then let inside = (\<lambda>c. c \<noteq> CHR ''/'' \<and> c \<noteq> CHR ''?'' \<and> c \<noteq> CHR ''#'')
           in (takeWhile inside (drop 2 s), dropWhile inside (drop 2 s))
      else ([], s))"

definition bracketed_ok :: "string \<Rightarrow> bool" where
  "bracketed_ok host =
     (if take 1 host = ''v'' then
        let (version, rest) = cut (CHR ''.'') (drop 1 host)
        in version \<noteq> [] \<and> list_all (\<lambda>c. is_hex c \<or> char_in (CHR ''A'') (CHR ''F'') c) version \<and> rest \<noteq> []
      else (case ip_address host of Some (V6 _ _) \<Rightarrow> True | _ \<Rightarrow> False))"

definition netloc_error :: "(string \<Rightarrow> string) \<Rightarrow> string \<Rightarrow> string option" where
  "netloc_error nfkc netloc =
     first_error
       [if (CHR ''['' \<in> set netloc) \<noteq> (CHR '']'' \<in> set netloc) then Some ''Invalid IPv6 URL'' else None,
        if CHR ''['' \<in> set netloc \<and> \<not> bracketed_ok (fst (cut (CHR '']'') (snd (cut (CHR ''['') netloc))))
        then Some ''Invalid IPv6 URL'' else None,
        let n = filter (\<lambda>c. c \<notin> set ''@:#?'') netloc
        in if list_all (\<lambda>c. code_point c < 128) netloc \<or> nfkc n = n \<or> list_all (\<lambda>c. c \<notin> set ''/?#@:'') (nfkc n) then None
           else Some ''netloc contains invalid characters under NFKC normalization'']"

definition urlsplit :: "(string \<Rightarrow> string) \<Rightarrow> string \<Rightarrow> string + url" where
  "urlsplit nfkc s =
     (let (scheme, rest) = split_scheme (clean_url s);
          (netloc, rest) = split_netloc rest;
          (rest, fragment) = cut (CHR ''#'') rest;
          (path, query) = cut (CHR ''?'') rest
      in case netloc_error nfkc netloc of Some e \<Rightarrow> Inl e
         | None \<Rightarrow> Inr \<lparr>url_scheme = scheme, url_netloc = netloc, url_path = path, url_query = query, url_fragment = fragment\<rparr>)"

text \<open>The properties \<open>username\<close>, \<open>password\<close> and \<open>hostname\<close> of a result.\<close>

definition url_hostinfo :: "url \<Rightarrow> string" where
  "url_hostinfo u = rev (takeWhile (\<lambda>c. c \<noteq> CHR ''@'') (rev (url_netloc u)))"

definition url_username :: "url \<Rightarrow> string option" where
  "url_username u =
     (if CHR ''@'' \<in> set (url_netloc u)
      then Some (fst (cut (CHR '':'') (take (length (url_netloc u) - length (url_hostinfo u) - 1) (url_netloc u)))) else None)"

definition url_password :: "url \<Rightarrow> string option" where
  "url_password u =
     (let userinfo = take (length (url_netloc u) - length (url_hostinfo u) - 1) (url_netloc u)
      in if CHR ''@'' \<in> set (url_netloc u) \<and> CHR '':'' \<in> set userinfo then Some (snd (cut (CHR '':'') userinfo)) else None)"

definition url_hostname :: "url \<Rightarrow> string option" where
  "url_hostname u =
     (let host = url_hostinfo u;
          name = (if CHR ''['' \<in> set host then fst (cut (CHR '']'') (snd (cut (CHR ''['') host))) else fst (cut (CHR '':'') host));
          address = fst (cut (CHR ''%'') name)
      in if name = [] then None else Some (lower address @ drop (length address) name))"

section \<open>The settings of authentication\<close>

definition environment_bool :: "environ \<Rightarrow> string \<Rightarrow> bool \<Rightarrow> string + bool" where
  "environment_bool env name fallback =
     (case env name of None \<Rightarrow> Inr fallback
      | Some raw \<Rightarrow>
          let normalized = lower (strip raw)
          in if normalized \<in> set [''1'', ''true'', ''yes'', ''on''] then Inr True
             else if normalized \<in> set [''0'', ''false'', ''no'', ''off''] then Inr False
             else Inl (name @ '' must be true or false''))"

definition environment_csv :: "environ \<Rightarrow> string \<Rightarrow> string list" where
  "environment_csv env name = filter (\<lambda>s. s \<noteq> []) (map strip (split_at (CHR '','') (case env name of None \<Rightarrow> [] | Some s \<Rightarrow> s)))"

definition environment_text :: "environ \<Rightarrow> string \<Rightarrow> string \<Rightarrow> string" where
  "environment_text env name fallback = (case env name of None \<Rightarrow> fallback | Some s \<Rightarrow> s)"

definition validate_restricted_public_base_url :: "(string \<Rightarrow> string) \<Rightarrow> string \<Rightarrow> string + string" where
  "validate_restricted_public_base_url nfkc s =
     bind_checked (urlsplit nfkc s) (\<lambda>parsed.
       if url_scheme parsed \<notin> set [''http'', ''https''] \<or> url_netloc parsed = [] \<or> \<not> is_loopback_host (url_hostname parsed) \<or>
          url_username parsed \<noteq> None \<or> url_password parsed \<noteq> None \<or> url_query parsed \<noteq> [] \<or> url_fragment parsed \<noteq> [] \<or>
          url_path parsed \<notin> set [[], ''/'']
       then Inl ''restricted APP_PUBLIC_BASE_URL must be an HTTP(S) loopback origin''
       else Inr (url_scheme parsed))"

definition validate_restricted_proxy_networks :: "string list \<Rightarrow> string + unit" where
  "validate_restricted_proxy_networks cidrs =
     each_checked (\<lambda>cidr.
       case ip_network cidr of None \<Rightarrow> Inl (cidr @ '' does not appear to be an IPv4 or IPv6 network'')
       | Some network \<Rightarrow>
           require (is_loopback (fst (network_ends network)) \<and> is_loopback (snd (network_ends network)))
             ''restricted AUTH_TRUSTED_PROXY_CIDRS may contain only loopback networks'') cidrs"

text \<open>The values that are given to the class, in the order in which they are read.\<close>

definition read_auth_settings :: "environ \<Rightarrow> bool \<Rightarrow> string list \<Rightarrow> string + auth_settings" where
  "read_auth_settings env cookie_secure trusted_proxy_cidrs =
     bind_checked (read_all
       [read_int env ''ACCESS_TOKEN_TTL_MINUTES'' 15, read_int env ''REFRESH_TOKEN_TTL_DAYS'' 7,
        read_int env ''AUTH_LOGIN_WINDOW_MINUTES'' 15, read_int env ''AUTH_LOGIN_ACCOUNT_MAX_FAILURES'' 5,
        read_int env ''AUTH_LOGIN_IP_MAX_FAILURES'' 30, read_int env ''AUTH_LOGIN_BLOCK_MINUTES'' 15,
        read_int env ''AUTH_REGISTRATION_WINDOW_MINUTES'' 60, read_int env ''AUTH_REGISTRATION_IDENTITY_MAX_ATTEMPTS'' 3,
        read_int env ''AUTH_REGISTRATION_IP_MAX_ATTEMPTS'' 10, read_int env ''AUTH_REGISTRATION_BLOCK_MINUTES'' 60,
        read_int env ''AUTH_ACTION_REQUEST_WINDOW_MINUTES'' 60, read_int env ''AUTH_ACTION_REQUEST_IDENTITY_MAX_ATTEMPTS'' 3,
        read_int env ''AUTH_ACTION_REQUEST_IP_MAX_ATTEMPTS'' 10, read_int env ''AUTH_ACTION_REQUEST_BLOCK_MINUTES'' 60,
        read_int env ''AUTH_EMAIL_VERIFICATION_TTL_HOURS'' 24, read_int env ''AUTH_PASSWORD_RESET_TTL_MINUTES'' 30]) (\<lambda>ns.
     Inr \<lparr>as_jwt_secret = environment_text env ''JWT_SECRET'' [], as_access_token_ttl_minutes = ns ! 0, as_refresh_token_ttl_days = ns ! 1,
       as_jwt_issuer = environment_text env ''JWT_ISSUER'' ''re3d-platform'',
       as_jwt_audience = environment_text env ''JWT_AUDIENCE'' ''re3d-platform-api'',
       as_refresh_cookie_name = environment_text env ''REFRESH_COOKIE_NAME'' ''re3d_refresh'', as_cookie_secure = cookie_secure,
       as_login_window_minutes = ns ! 2, as_login_account_max_failures = ns ! 3, as_login_ip_max_failures = ns ! 4,
       as_login_block_minutes = ns ! 5, as_registration_window_minutes = ns ! 6,
       as_registration_identity_max_attempts = ns ! 7, as_registration_ip_max_attempts = ns ! 8,
       as_registration_block_minutes = ns ! 9, as_action_request_window_minutes = ns ! 10,
       as_action_request_identity_max_attempts = ns ! 11, as_action_request_ip_max_attempts = ns ! 12,
       as_action_request_block_minutes = ns ! 13, as_email_verification_ttl_hours = ns ! 14,
       as_password_reset_ttl_minutes = ns ! 15, as_trusted_proxy_cidrs = trusted_proxy_cidrs\<rparr>)"

definition auth_settings_from_environment :: "(string \<Rightarrow> string) \<Rightarrow> environ \<Rightarrow> string \<Rightarrow> string + auth_settings" where
  "auth_settings_from_environment nfkc env environment =
     bind_checked (normalize_environment environment) (\<lambda>deployment.
     bind_checked (if deployment = ''restricted''
       then validate_restricted_public_base_url nfkc (strip (environment_text env ''APP_PUBLIC_BASE_URL'' [])) else Inr []) (\<lambda>restricted_scheme.
     let secure_default = (deployment = ''production'' \<or> deployment = ''restricted'' \<and> restricted_scheme = ''https'');
         trusted_proxy_cidrs = environment_csv env ''AUTH_TRUSTED_PROXY_CIDRS''
     in bind_checked (environment_bool env ''REFRESH_COOKIE_SECURE'' secure_default) (\<lambda>cookie_secure.
        bind_checked (require (\<not> (deployment = ''production'' \<and> \<not> cookie_secure)) ''REFRESH_COOKIE_SECURE must be true outside development'') (\<lambda>_.
        bind_checked (require (\<not> (deployment = ''restricted'' \<and> cookie_secure \<noteq> (restricted_scheme = ''https'')))
          (''REFRESH_COOKIE_SECURE must be '' @ (if restricted_scheme = ''https'' then ''true'' else ''false'') @
            '' for the restricted APP_PUBLIC_BASE_URL scheme'')) (\<lambda>_.
        bind_checked (require (\<not> (deployment \<notin> development_environments \<and> trusted_proxy_cidrs = []))
          ''AUTH_TRUSTED_PROXY_CIDRS is required outside development'') (\<lambda>_.
        bind_checked (if deployment = ''restricted'' then validate_restricted_proxy_networks trusted_proxy_cidrs else Inr ()) (\<lambda>_.
        bind_checked (read_auth_settings env cookie_secure trusted_proxy_cidrs) (\<lambda>settings.
        case auth_settings_error (\<lambda>cidr. ip_network cidr \<noteq> None) settings of Some e \<Rightarrow> Inl e | None \<Rightarrow> Inr settings))))))))"

end
