(* ===== verification/Auth_Mail.thy ===== *)
theory Auth_Mail
  imports Deployment_Settings
begin

text \<open>
  The settings and the delivery of mail, \<^verbatim>\<open>backend/auth/email.py\<close>. \<open>mailbox\<close> is the address that
  \<open>parseaddr\<close> finds in a text. A session with the mail server is a list of steps; \<open>answers\<close> says how the
  last step of those made so far ends.
\<close>

section \<open>The settings of mail\<close>

record email_settings =
  es_host :: "string option"
  es_port :: int
  es_sender :: string
  es_username :: "string option"
  es_password :: "string option"
  es_starttls :: bool
  es_timeout_seconds :: int
  es_public_base_url :: string

definition ends_with :: "string \<Rightarrow> string \<Rightarrow> bool" where
  "ends_with s ending \<longleftrightarrow> length ending \<le> length s \<and> drop (length s - length ending) s = ending"

definition email_settings_ok :: "(string \<Rightarrow> string) \<Rightarrow> (string \<Rightarrow> string) \<Rightarrow> email_settings \<Rightarrow> string + unit" where
  "email_settings_ok nfkc mailbox s =
     bind_checked (require (1 \<le> es_port s \<and> es_port s \<le> 65535) ''SMTP_PORT must be between 1 and 65535'') (\<lambda>_.
     bind_checked (require (1 \<le> es_timeout_seconds s \<and> es_timeout_seconds s \<le> 60) ''SMTP_TIMEOUT_SECONDS must be between 1 and 60'') (\<lambda>_.
     bind_checked (require ((es_username s = None) = (es_password s = None)) ''SMTP_USERNAME and SMTP_PASSWORD must be set together'') (\<lambda>_.
     bind_checked (require (CHR ''@'' \<in> set (mailbox (es_sender s))) ''SMTP_FROM must be a valid mailbox'') (\<lambda>_.
     bind_checked (urlsplit nfkc (es_public_base_url s)) (\<lambda>parsed.
     require (url_scheme parsed \<in> set [''http'', ''https''] \<and> url_netloc parsed \<noteq> [] \<and> url_username parsed = None \<and>
         url_password parsed = None \<and> url_query parsed = [] \<and> url_fragment parsed = [])
       ''APP_PUBLIC_BASE_URL must be an HTTP(S) origin or base path'')))))"

definition not_blank :: "string \<Rightarrow> string option" where
  "not_blank s = (if s = [] then None else Some s)"

definition strip_slashes :: "string \<Rightarrow> string" where
  "strip_slashes s = rev (dropWhile (\<lambda>c. c = CHR ''/'') (rev s))"

definition email_settings_from_environment :: "(string \<Rightarrow> string) \<Rightarrow> (string \<Rightarrow> string) \<Rightarrow> environ \<Rightarrow> string \<Rightarrow> string + email_settings" where
  "email_settings_from_environment nfkc mailbox env environment =
     bind_checked (normalize_environment environment) (\<lambda>deployment.
     bind_checked (read_int env ''SMTP_PORT'' 1025) (\<lambda>port.
     bind_checked (environment_bool env ''SMTP_STARTTLS'' False) (\<lambda>starttls.
     bind_checked (read_int env ''SMTP_TIMEOUT_SECONDS'' 10) (\<lambda>timeout.
     let settings = \<lparr>es_host = not_blank (strip (environment_text env ''SMTP_HOST'' [])), es_port = port,
           es_sender = environment_text env ''SMTP_FROM'' ''no-reply@example.invalid'',
           es_username = not_blank (strip (environment_text env ''SMTP_USERNAME'' [])),
           es_password = not_blank (environment_text env ''SMTP_PASSWORD'' []), es_starttls = starttls,
           es_timeout_seconds = timeout,
           es_public_base_url = strip_slashes (environment_text env ''APP_PUBLIC_BASE_URL'' ''http://localhost:5173'')\<rparr>;
         real_domain = \<not> ends_with (lower (mailbox (es_sender settings))) ''.invalid''
     in bind_checked (email_settings_ok nfkc mailbox settings) (\<lambda>_.
        bind_checked (require (deployment \<in> development_environments \<or> es_host settings \<noteq> None) ''SMTP_HOST is required outside development'') (\<lambda>_.
        bind_checked (urlsplit nfkc (es_public_base_url settings)) (\<lambda>parsed.
        bind_checked
          (if deployment = ''production'' then
             bind_checked (require (url_scheme parsed = ''https'') ''APP_PUBLIC_BASE_URL must use HTTPS outside development'') (\<lambda>_.
             bind_checked (require starttls ''SMTP_STARTTLS must be true outside development'') (\<lambda>_.
             require real_domain ''SMTP_FROM must not use an .invalid domain outside development''))
           else if deployment = ''restricted'' then
             bind_checked (require (is_loopback_host (url_hostname parsed) \<and> url_path parsed \<in> set [[], ''/''])
               ''restricted APP_PUBLIC_BASE_URL must be a loopback origin'') (\<lambda>_.
             bind_checked (require (is_loopback_host (es_host settings)) ''restricted SMTP_HOST must be a loopback host'') (\<lambda>_.
             require real_domain ''restricted SMTP_FROM must not use an .invalid domain''))
           else Inr ()) (\<lambda>_.
        Inr settings))))))))"

section \<open>Delivery\<close>

record mail =
  ml_from :: string
  ml_to :: string
  ml_subject :: string
  ml_body :: string

datatype smtp_step = Connect "string option" int int | Start_Tls | Log_In "string option" "string option" | Send_Message mail

datatype mail_error = Email_Delivery_Error | Header_Error | Uncaught_Error

text \<open>
  The steps of \<open>_send\<close>, made until one fails. A step fails with an \<open>OSError\<close> or an \<open>SMTPException\<close>, which become
  \<open>EmailDeliveryError\<close>, or with another exception, as a \<open>UnicodeEncodeError\<close> of the message, which is not
  caught. Headers refuse line breaks.
\<close>

datatype smtp_answer = Completed | Delivery_Failure | Other_Exception

fun converse :: "(smtp_step list \<Rightarrow> smtp_answer) \<Rightarrow> smtp_step list \<Rightarrow> smtp_step list \<Rightarrow> (mail_error + unit) \<times> smtp_step list" where
  "converse answers made [] = (Inr (), made)"
| "converse answers made (s # ss) =
     (case answers (made @ [s]) of
        Completed \<Rightarrow> converse answers (made @ [s]) ss
      | Delivery_Failure \<Rightarrow> (Inl Email_Delivery_Error, made @ [s])
      | Other_Exception \<Rightarrow> (Inl Uncaught_Error, made @ [s]))"

definition smtp_steps :: "email_settings \<Rightarrow> mail \<Rightarrow> smtp_step list" where
  "smtp_steps s message =
     [Connect (es_host s) (es_port s) (es_timeout_seconds s)] @ (if es_starttls s then [Start_Tls] else []) @
     (if es_username s \<noteq> None then [Log_In (es_username s) (es_password s)] else []) @ [Send_Message message]"

definition send :: "email_settings \<Rightarrow> (smtp_step list \<Rightarrow> smtp_answer) \<Rightarrow> string \<Rightarrow> string \<Rightarrow> string \<Rightarrow> (mail_error + unit) \<times> smtp_step list" where
  "send s answers recipient subject body =
     (if \<exists>h \<in> set [es_sender s, recipient, subject]. CHR 0x0A \<in> set h \<or> CHR 0x0D \<in> set h then (Inl Header_Error, [])
      else
        let message = \<lparr>ml_from = es_sender s, ml_to = recipient, ml_subject = subject, ml_body = body\<rparr>
        in converse answers [] (smtp_steps s message))"

text \<open>\<open>quote(token, safe='')\<close>: UTF-8, with all but unreserved characters escaped.\<close>

definition escaped_byte :: "nat \<Rightarrow> string" where
  "escaped_byte n =
     (let digit = (\<lambda>d. if d < 10 then char_of (48 + d) else char_of (55 + d)) in [CHR ''%'', digit (n div 16), digit (n mod 16)])"

definition quote_char :: "char \<Rightarrow> string" where
  "quote_char c =
     (let n = code_point c
      in if is_alnum c \<or> c \<in> set ''_.-~'' then [c]
         else if n < 128 then escaped_byte n else escaped_byte (192 + n div 64) @ escaped_byte (128 + n mod 64))"

definition fragment_link :: "string \<Rightarrow> string \<Rightarrow> string \<Rightarrow> string" where
  "fragment_link base path token = strip_slashes base @ path @ ''#token='' @ concat (map quote_char token)"

text \<open>\<open>zh\<close> has the Chinese subjects and the sentences around the link.\<close>

definition verification_body :: "(string \<Rightarrow> string) \<Rightarrow> string \<Rightarrow> string \<Rightarrow> string" where
  "verification_body zh kind link =
     zh (kind @ ''.introduction'') @ [CHR 0x0A, CHR 0x0A] @ link @ [CHR 0x0A, CHR 0x0A] @ zh (kind @ ''.ignore'')"

definition send_email_verification ::
    "(string \<Rightarrow> string) \<Rightarrow> email_settings \<Rightarrow> (smtp_step list \<Rightarrow> smtp_answer) \<Rightarrow> string \<Rightarrow> string \<Rightarrow> (mail_error + unit) \<times> smtp_step list" where
  "send_email_verification zh s answers recipient token =
     send s answers recipient (zh ''verify.subject'')
       (verification_body zh ''verify'' (fragment_link (es_public_base_url s) ''/auth/verify-email'' token))"

definition send_password_reset ::
    "(string \<Rightarrow> string) \<Rightarrow> email_settings \<Rightarrow> (smtp_step list \<Rightarrow> smtp_answer) \<Rightarrow> string \<Rightarrow> string \<Rightarrow> (mail_error + unit) \<times> smtp_step list" where
  "send_password_reset zh s answers recipient token =
     send s answers recipient (zh ''reset.subject'')
       (verification_body zh ''reset'' (fragment_link (es_public_base_url s) ''/auth/reset-password'' token))"

text \<open>\<open>build_auth_email_sender\<close>: without a host every mail fails.\<close>

datatype email_sender = Disabled_Sender | Smtp_Sender email_settings

definition build_auth_email_sender :: "email_settings \<Rightarrow> email_sender" where
  "build_auth_email_sender s = (if es_host s = None then Disabled_Sender else Smtp_Sender s)"

definition sender_verifies ::
    "(string \<Rightarrow> string) \<Rightarrow> email_sender \<Rightarrow> (smtp_step list \<Rightarrow> smtp_answer) \<Rightarrow> string \<Rightarrow> string \<Rightarrow> (mail_error + unit) \<times> smtp_step list" where
  "sender_verifies zh sender answers recipient token =
     (case sender of Disabled_Sender \<Rightarrow> (Inl Email_Delivery_Error, [])
      | Smtp_Sender s \<Rightarrow> send_email_verification zh s answers recipient token)"

definition sender_resets ::
    "(string \<Rightarrow> string) \<Rightarrow> email_sender \<Rightarrow> (smtp_step list \<Rightarrow> smtp_answer) \<Rightarrow> string \<Rightarrow> string \<Rightarrow> (mail_error + unit) \<times> smtp_step list" where
  "sender_resets zh sender answers recipient token =
     (case sender of Disabled_Sender \<Rightarrow> (Inl Email_Delivery_Error, [])
      | Smtp_Sender s \<Rightarrow> send_password_reset zh s answers recipient token)"

section \<open>A restricted deployment stays on its host\<close>

lemma bit_netmask: "bit (netmask_bits p :: 'w::len word) n \<longleftrightarrow> n < LENGTH('w) \<and> LENGTH('w) \<le> n + p"
  by (auto simp: netmask_bits_def bit_simps)

lemma word_bits: "(x :: 'w::len word) = y \<longleftrightarrow> (\<forall>n<LENGTH('w). bit x n = bit y n)"
  by (auto intro: bit_word_eqI)

lemma loopback_bit: "(w :: 32 word) AND netmask_bits 8 = push_bit 24 127 \<longleftrightarrow> (\<forall>i<8. bit w (24 + i) \<longleftrightarrow> i < 7)"
proof -
  have low: "bit (127 :: 32 word) k \<longleftrightarrow> k < 7" for k
  proof -
    have "(127 :: 32 word) = mask 7" by (simp add: mask_eq_exp_minus_1)
    then show ?thesis by (simp only: bit_mask_iff) auto
  qed
  have pushed: "bit (push_bit 24 (127 :: 32 word)) n \<longleftrightarrow> 24 \<le> n \<and> n < 31" for n
    unfolding bit_push_bit_iff low by (cases "24 \<le> n") auto
  have masked: "bit (w AND netmask_bits 8) n \<longleftrightarrow> bit w n \<and> n < 32 \<and> 24 \<le> n" for n
    by (simp only: bit_and_iff bit_netmask) auto
  have "w AND netmask_bits 8 = push_bit 24 127 \<longleftrightarrow>
      (\<forall>n<LENGTH(32). bit (w AND netmask_bits 8) n = bit (push_bit 24 (127 :: 32 word)) n)"
    by (rule word_bits)
  also have "\<dots> \<longleftrightarrow> (\<forall>n. bit w n \<and> n < 32 \<and> 24 \<le> n \<longleftrightarrow> 24 \<le> n \<and> n < 31)"
  proof -
    have "(n < LENGTH(32) \<longrightarrow> bit (w AND netmask_bits 8) n = bit (push_bit 24 (127 :: 32 word)) n) \<longleftrightarrow>
        (bit w n \<and> n < 32 \<and> 24 \<le> n \<longleftrightarrow> 24 \<le> n \<and> n < 31)" for n
      unfolding masked pushed by auto
    then show ?thesis by (rule iff_allI)
  qed
  also have "\<dots> \<longleftrightarrow> (\<forall>i<8. bit w (24 + i) \<longleftrightarrow> i < 7)"
  proof
    show "\<forall>i<8. bit w (24 + i) \<longleftrightarrow> i < 7" if x: "\<forall>n. bit w n \<and> n < 32 \<and> 24 \<le> n \<longleftrightarrow> 24 \<le> n \<and> n < 31"
    proof (intro allI impI)
      show "bit w (24 + i) \<longleftrightarrow> i < 7" if "i < 8" for i using x [rule_format, of "24 + i"] that by auto
    qed
    show "\<forall>n. bit w n \<and> n < 32 \<and> 24 \<le> n \<longleftrightarrow> 24 \<le> n \<and> n < 31" if x: "\<forall>i<8. bit w (24 + i) \<longleftrightarrow> i < 7"
    proof
      fix n
      show "bit w n \<and> n < 32 \<and> 24 \<le> n \<longleftrightarrow> 24 \<le> n \<and> n < 31"
      proof (cases "24 \<le> n \<and> n < 32")
        case True
        then obtain k where "n = 24 + k" using le_Suc_ex by blast
        with True x [rule_format, of k] show ?thesis by auto
      qed auto
    qed
  qed
  finally show ?thesis .
qed

text \<open>Between two loopback addresses that end a network there are only loopback addresses.\<close>

lemma loopback_network4:
  assumes "base AND netmask_bits p = (base :: 32 word)" and "is_loopback (V4 base)" "is_loopback (V4 (base OR NOT (netmask_bits p)))"
    and "w AND netmask_bits p = base"
  shows "is_loopback (V4 w)"
proof -
  have v4: "is_loopback (V4 x) \<longleftrightarrow> (\<forall>i<8. bit x (24 + i) \<longleftrightarrow> i < 7)" for x
    unfolding is_loopback_def ip.case by (rule loopback_bit)
  have base: "bit base (24 + i) \<longleftrightarrow> i < 7" if "i < 8" for i using assms(2) that by (simp add: v4)
  have top: "bit (base OR NOT (netmask_bits p)) (24 + i) \<longleftrightarrow> i < 7" if "i < 8" for i
    using assms(3) that by (simp add: v4)
  have p: "8 \<le> p"
  proof (rule ccontr)
    assume "\<not> 8 \<le> p"
    then have "\<not> bit (netmask_bits p :: 32 word) 24" by (simp add: bit_netmask)
    moreover have "bit base 24" using base [of 0] by simp
    ultimately show False using arg_cong [OF assms(1), of "\<lambda>x. bit x 24"] by (simp add: bit_simps)
  qed
  have "bit w (24 + i) \<longleftrightarrow> i < 7" if i: "i < 8" for i
  proof -
    have "bit (w AND netmask_bits p) (24 + i) = bit base (24 + i)" by (simp only: assms(4))
    moreover have "bit (netmask_bits p :: 32 word) (24 + i)" using p i by (simp add: bit_netmask)
    ultimately show ?thesis using base [OF i] by (simp add: bit_simps)
  qed
  then show ?thesis by (simp add: v4)
qed

lemma loopback_network6:
  assumes "base = (1 :: 128 word)" "base OR NOT (netmask_bits p) = 1" "w AND netmask_bits p = base"
  shows "w = 1"
proof (rule bit_word_eqI)
  fix n assume n: "n < LENGTH(128)"
  have mask: "bit (netmask_bits p :: 128 word) n \<or> n = 0"
    using arg_cong [OF assms(2), of "\<lambda>x. bit x n"] n assms(1) by (auto simp: bit_simps)
  have base: "bit (w AND netmask_bits p) n = bit (1 :: 128 word) n" using assms(1,3) by simp
  have "bit (w AND netmask_bits p) 0" using assms(1,3) by simp
  then show "bit w n = bit (1 :: 128 word) n" using mask base by (cases "n = 0") (auto simp: bit_simps)
qed

lemma read_network: "ip_network s = Some (Net4 base p) \<Longrightarrow> base AND netmask_bits p = base"
  by (auto simp: ip_network_def network_v4_def network_v6_def Let_def and.assoc split: list.splits option.splits prod.splits ip.splits)

lemma loopback_network:
  assumes "ip_network s = Some n" "is_loopback (fst (network_ends n))" "is_loopback (snd (network_ends n))" "in_network a n"
  shows "is_loopback a"
proof (cases n)
  case (Net4 base p)
  with assms(4) obtain w where a: "a = V4 w" and w: "w AND netmask_bits p = base" by (auto simp: in_network_def split: ip.splits)
  show ?thesis
    using loopback_network4 [OF read_network _ _ w] assms(1-3) unfolding Net4 a by (simp add: network_ends_def)
next
  case (Net6 base p)
  with assms(4) obtain w z where a: "a = V6 w z" and w: "w AND netmask_bits p = base" by (auto simp: in_network_def split: ip.splits)
  show ?thesis
    using loopback_network6 [OF _ _ w] assms(2,3) unfolding Net6 a by (simp add: network_ends_def is_loopback_def)
qed

text \<open>The scheme of a URL depends on nothing behind its first colon.\<close>

lemma split_scheme_append:
  assumes "CHR '':'' \<notin> set t"
  shows "fst (split_scheme (s @ t)) = fst (split_scheme s)"
proof (cases "CHR '':'' \<in> set s")
  case True
  then have "s \<noteq> []" "takeWhile (\<lambda>c. c \<noteq> CHR '':'') (s @ t) = takeWhile (\<lambda>c. c \<noteq> CHR '':'') s" by auto
  with True show ?thesis by (simp add: split_scheme_def cut_def Let_def)
next
  case False
  with assms show ?thesis by (simp add: split_scheme_def cut_def Let_def)
qed

lemma clean_append: "\<not> list_all (\<lambda>c. code_point c \<le> 32) s \<Longrightarrow> clean_url (s @ t) = clean_url s @ filter (\<lambda>c. code_point c \<notin> {9, 10, 13}) t"
  by (auto simp: clean_url_def list_all_iff dropWhile_append)

lemma clean_blank: "list_all (\<lambda>c. code_point c \<le> 32) s \<Longrightarrow> clean_url s = []"
  by (simp add: clean_url_def list_all_iff dropWhile_eq_Nil_conv [THEN iffD2])

definition scheme_of :: "string \<Rightarrow> string" where
  "scheme_of s = fst (split_scheme (clean_url s))"

lemma urlsplit_scheme: "urlsplit nfkc s = Inr u \<Longrightarrow> url_scheme u = scheme_of s"
  by (auto simp: urlsplit_def scheme_of_def Let_def split: prod.splits option.splits)

lemma scheme_of_append:
  assumes "CHR '':'' \<notin> set t" "scheme_of (s @ t) \<noteq> [] \<or> scheme_of s \<noteq> []"
  shows "scheme_of (s @ t) = scheme_of s"
proof (cases "list_all (\<lambda>c. code_point c \<le> 32) s")
  case False
  then show ?thesis using assms(1) by (simp add: scheme_of_def clean_append split_scheme_append)
next
  case True
  have none: "scheme_of x = []" if "CHR '':'' \<notin> set x" for x
    using that by (auto simp: scheme_of_def split_scheme_def clean_url_def Let_def dest: set_dropWhileD)
  have "CHR '':'' \<notin> set s" using True by (auto simp: list_all_iff code_point_def)
  then show ?thesis using none assms by simp
qed

lemma strip_ends: "\<exists>pre post. s = pre @ strip_by p s @ post \<and> list_all p pre \<and> list_all p post"
proof -
  define t where "t = dropWhile p s"
  have "s = takeWhile p s @ t" by (simp add: t_def)
  moreover have "t = strip_by p s @ rev (takeWhile p (rev t))"
    unfolding strip_by_def t_def [symmetric] by (metis rev_append rev_rev_ident takeWhile_dropWhile_id)
  moreover have "list_all p (takeWhile p s)" "list_all p (rev (takeWhile p (rev t)))"
    by (auto simp: list_all_iff dest: set_takeWhileD)
  ultimately show ?thesis by metis
qed

lemma strip_slashes_append: "\<exists>post. s = strip_slashes s @ post \<and> CHR '':'' \<notin> set post"
proof -
  have "s = strip_slashes s @ rev (takeWhile (\<lambda>c. c = CHR ''/'') (rev s))"
    unfolding strip_slashes_def by (metis rev_append rev_rev_ident takeWhile_dropWhile_id)
  moreover have "CHR '':'' \<notin> set (rev (takeWhile (\<lambda>c. c = CHR ''/'') (rev s)))" by (auto dest: set_takeWhileD)
  ultimately show ?thesis by blast
qed

lemma letter_no_space: "is_lower c \<or> is_upper c \<Longrightarrow> \<not> is_space c"
  unfolding is_space_def code_point_def is_lower_def is_upper_def char_in_def Let_def by simp linarith

lemma dropWhile_two: "(\<exists>c cs. dropWhile p s = c # cs \<and> \<not> q c) \<Longrightarrow> list_all q pre \<Longrightarrow> s = pre @ t \<Longrightarrow> dropWhile p s = dropWhile p t"
  by (induction pre arbitrary: s) (auto split: if_splits)

text \<open>Two readings of one variable, the one stripped of white space and the other of slashes, agree on the scheme.\<close>

lemma stripped_scheme:
  assumes "scheme_of (strip_slashes s) \<noteq> []"
  shows "scheme_of (strip_slashes s) = scheme_of (strip s)"
proof -
  obtain post where s: "s = strip_slashes s @ post" and post: "CHR '':'' \<notin> set post" using strip_slashes_append by blast
  have same: "scheme_of s = scheme_of (strip_slashes s)" using scheme_of_append [OF post, of "strip_slashes s"] assms s by metis
  then have named: "scheme_of s \<noteq> []" using assms by simp
  obtain pre t where split: "s = pre @ strip s @ t" and spaces: "list_all is_space pre" "list_all is_space t"
    unfolding strip_def using strip_ends [of s is_space] by blast
  have colon: "CHR '':'' \<notin> set t" using spaces(2) by (auto simp: list_all_iff is_space_def code_point_def)
  have "\<exists>c cs. dropWhile (\<lambda>c. code_point c \<le> 32) s = c # cs \<and> \<not> is_space c"
  proof -
    obtain c cs where c: "dropWhile (\<lambda>c. code_point c \<le> 32) s = c # cs"
      using named unfolding scheme_of_def clean_url_def split_scheme_def Let_def by (cases "dropWhile (\<lambda>c. code_point c \<le> 32) s") simp_all
    then have "\<not> code_point c \<le> 32" by (metis hd_dropWhile list.distinct(1) list.sel(1))
    with named c have "is_lower c \<or> is_upper c" by (auto simp: scheme_of_def clean_url_def split_scheme_def Let_def split: if_splits)
    then have "\<not> is_space c" by (rule letter_no_space)
    with c show ?thesis by blast
  qed
  then have "dropWhile (\<lambda>c. code_point c \<le> 32) s = dropWhile (\<lambda>c. code_point c \<le> 32) (strip s @ t)"
    by (rule dropWhile_two [OF _ spaces(1) split])
  then have "scheme_of s = scheme_of (strip s @ t)" by (simp add: scheme_of_def clean_url_def)
  also have "\<dots> = scheme_of (strip s)" using scheme_of_append [OF colon, of "strip s"] named calculation by simp
  finally show ?thesis using same by simp
qed

lemma restricted_auth:
  assumes "normalize_environment environment = Inr ''restricted''" "auth_settings_from_environment nfkc env environment = Inr s"
  shows "\<exists>u. urlsplit nfkc (strip (environment_text env ''APP_PUBLIC_BASE_URL'' [])) = Inr u \<and> is_loopback_host (url_hostname u) \<and>
      as_cookie_secure s = (url_scheme u = ''https'')"
    and "validate_restricted_proxy_networks (as_trusted_proxy_cidrs s) = Inr ()"
    and "as_trusted_proxy_cidrs s \<noteq> []"
  using assms
  by (auto simp: auth_settings_from_environment_def validate_restricted_public_base_url_def read_auth_settings_def development_environments_def Let_def
      split: if_splits option.splits)

lemma restricted_networks:
  assumes "validate_restricted_proxy_networks cidrs = Inr ()" "c \<in> set cidrs"
  shows "\<exists>n. ip_network c = Some n \<and> (\<forall>a. in_network a n \<longrightarrow> is_loopback a)"
proof -
  obtain n where "ip_network c = Some n" "is_loopback (fst (network_ends n))" "is_loopback (snd (network_ends n))"
    using assms by (cases "ip_network c") (auto simp: validate_restricted_proxy_networks_def)
  then show ?thesis using loopback_network by blast
qed

lemma restricted_mail:
  assumes "normalize_environment environment = Inr ''restricted''" "email_settings_from_environment nfkc mailbox env environment = Inr m"
  shows "es_public_base_url m = strip_slashes (environment_text env ''APP_PUBLIC_BASE_URL'' ''http://localhost:5173'')"
    and "is_loopback_host (es_host m)"
    and "\<exists>u. urlsplit nfkc (es_public_base_url m) = Inr u \<and> url_scheme u \<in> {''http'', ''https''} \<and> is_loopback_host (url_hostname u)"
  using assms
  by (auto simp: email_settings_from_environment_def email_settings_ok_def development_environments_def Let_def split: if_splits)

text \<open>
  C38. A restricted deployment whose settings were read talks only to its own host: every address in a network
  that it trusts is a loopback address, the mail server and the host of its public URL are loopback hosts, and
  the session cookie is marked secure exactly when that URL uses HTTPS, though the two modules read the URL
  differently.
\<close>

theorem restricted_deployment_is_local:
  assumes restricted: "normalize_environment environment = Inr ''restricted''"
    and auth: "auth_settings_from_environment nfkc env environment = Inr s"
    and mail: "email_settings_from_environment nfkc mailbox env environment = Inr m"
  shows "as_trusted_proxy_cidrs s \<noteq> [] \<and>
    (\<forall>c \<in> set (as_trusted_proxy_cidrs s). \<exists>n. ip_network c = Some n \<and> (\<forall>a. in_network a n \<longrightarrow> is_loopback a)) \<and>
    is_loopback_host (es_host m) \<and>
    (\<exists>u. urlsplit nfkc (es_public_base_url m) = Inr u \<and> is_loopback_host (url_hostname u) \<and>
       as_cookie_secure s = (url_scheme u = ''https''))"
proof (intro conjI ballI)
  show "as_trusted_proxy_cidrs s \<noteq> []" by (rule restricted_auth(3) [OF restricted auth])
  show "\<exists>n. ip_network c = Some n \<and> (\<forall>a. in_network a n \<longrightarrow> is_loopback a)" if "c \<in> set (as_trusted_proxy_cidrs s)" for c
    by (rule restricted_networks [OF restricted_auth(2) [OF restricted auth] that])
  show "is_loopback_host (es_host m)" by (rule restricted_mail(2) [OF restricted mail])
  let ?base = "environment_text env ''APP_PUBLIC_BASE_URL''"
  obtain v where v: "urlsplit nfkc (strip (?base [])) = Inr v" "as_cookie_secure s = (url_scheme v = ''https'')" "is_loopback_host (url_hostname v)"
    using restricted_auth(1) [OF restricted auth] by blast
  obtain u where u: "urlsplit nfkc (es_public_base_url m) = Inr u" "url_scheme u \<in> {''http'', ''https''}" "is_loopback_host (url_hostname u)"
    using restricted_mail(3) [OF restricted mail] by blast
  have set_base: "?base [] = ?base d" for d
  proof (cases "env ''APP_PUBLIC_BASE_URL''")
    case None
    then have "url_hostname v = None"
      using v(1) by (auto simp: environment_text_def strip_def strip_by_def urlsplit_def clean_url_def split_scheme_def split_netloc_def cut_def
          netloc_error_def url_hostname_def url_hostinfo_def Let_def split: option.splits if_splits)
    with v(3) show ?thesis by (simp add: is_loopback_host_def)
  qed (simp add: environment_text_def)
  have base: "es_public_base_url m = strip_slashes (?base [])"
    using restricted_mail(1) [OF restricted mail] set_base by metis
  have "url_scheme u = scheme_of (strip_slashes (?base []))" using urlsplit_scheme [OF u(1)] base by simp
  moreover have "url_scheme v = scheme_of (strip (?base []))" by (rule urlsplit_scheme [OF v(1)])
  ultimately have "url_scheme u = url_scheme v" using u(2) stripped_scheme [of "?base []"] by auto
  with u v show "\<exists>u. urlsplit nfkc (es_public_base_url m) = Inr u \<and> is_loopback_host (url_hostname u) \<and> as_cookie_secure s = (url_scheme u = ''https'')"
    by auto
qed

section \<open>Production mail is encrypted\<close>

lemma converse_steps:
  assumes "converse answers made ss = (r, steps)"
  shows "\<exists>k. steps = made @ take k ss \<and> (\<forall>j. length made \<le> j \<and> Suc j < length steps \<longrightarrow> answers (take (Suc j) steps) = Completed) \<and>
    (r = Inr () \<longrightarrow> steps = made @ ss \<and> (ss \<noteq> [] \<longrightarrow> answers steps = Completed))"
  using assms
proof (induction ss arbitrary: made)
  case (Cons x ss)
  show ?case
  proof (cases "answers (made @ [x]) = Completed")
    case True
    with Cons.prems have rest: "converse answers (made @ [x]) ss = (r, steps)" by simp
    then obtain k where k: "steps = (made @ [x]) @ take k ss"
        "\<forall>j. length (made @ [x]) \<le> j \<and> Suc j < length steps \<longrightarrow> answers (take (Suc j) steps) = Completed"
        "r = Inr () \<longrightarrow> steps = (made @ [x]) @ ss \<and> (ss \<noteq> [] \<longrightarrow> answers steps = Completed)"
      using Cons.IH by blast
    have "answers (take (Suc (length made)) steps) = Completed" using True k(1) by simp
    then have "answers (take (Suc j) steps) = Completed" if "length made \<le> j" "Suc j < length steps" for j
      using k(2) that by (cases "j = length made") auto
    moreover have "answers steps = Completed" if "r = Inr ()" "ss = []" using True k(3) that by simp
    ultimately show ?thesis using k(1,3) by (intro exI [of _ "Suc k"]) auto
  next
    case False
    with Cons.prems show ?thesis by (intro exI [of _ 1]) (auto split: smtp_answer.splits)
  qed
qed auto

definition discloses :: "smtp_step \<Rightarrow> bool" where
  "discloses s = (case s of Log_In _ _ \<Rightarrow> True | Send_Message _ \<Rightarrow> True | _ \<Rightarrow> False)"

lemma send_encrypted:
  assumes "es_starttls s" "send s answers recipient subject body = (result, steps)"
  shows "(\<forall>i<length steps. discloses (steps ! i) \<longrightarrow> (\<exists>j<i. steps ! j = Start_Tls \<and> answers (take (Suc j) steps) = Completed)) \<and>
    (result = Inr () \<longrightarrow> answers steps = Completed \<and> (\<exists>message. last steps = Send_Message message \<and> ml_to message = recipient))"
proof (cases "steps = []")
  case True
  with assms(2) have "result \<noteq> Inr ()"
    by (auto simp: send_def Let_def smtp_steps_def split: if_splits smtp_answer.splits dest!: converse_steps)
  with True show ?thesis by simp
next
  case False
  define message where "message = \<lparr>ml_from = es_sender s, ml_to = recipient, ml_subject = subject, ml_body = body\<rparr>"
  have c: "converse answers [] (smtp_steps s message) = (result, steps)"
    using assms(2) False by (auto simp: send_def message_def Let_def split: if_splits)
  obtain k where k: "steps = take k (smtp_steps s message)" "\<forall>j. Suc j < length steps \<longrightarrow> answers (take (Suc j) steps) = Completed"
      "result = Inr () \<longrightarrow> steps = smtp_steps s message \<and> answers steps = Completed"
  proof -
    have "smtp_steps s message \<noteq> []" by (simp add: smtp_steps_def)
    then show ?thesis using converse_steps [OF c] that by (simp only: append_Nil list.size le0 simp_thms) blast
  qed
  obtain rest where rest: "smtp_steps s message = Connect (es_host s) (es_port s) (es_timeout_seconds s) # Start_Tls # rest"
    using assms(1) by (simp add: smtp_steps_def)
  have "\<exists>j<i. steps ! j = Start_Tls \<and> answers (take (Suc j) steps) = Completed" if i: "i < length steps" "discloses (steps ! i)" for i
  proof -
    have "steps ! i = smtp_steps s message ! i" using i(1) k(1) by simp
    then have "1 < i" using i(2) rest by (cases i; cases "i - 1") (auto simp: discloses_def)
    moreover have "steps ! 1 = Start_Tls" using i(1) \<open>1 < i\<close> k(1) rest by simp
    moreover have "answers (take (Suc 1) steps) = Completed" using k(2) i(1) \<open>1 < i\<close> by simp
    ultimately show ?thesis by blast
  qed
  moreover have "answers steps = Completed \<and> last steps = Send_Message message" if "result = Inr ()"
  proof -
    have "last (smtp_steps s message) = Send_Message message" by (simp add: smtp_steps_def)
    then show ?thesis using k(3) that by metis
  qed
  ultimately show ?thesis by (auto simp: message_def)
qed

lemma scheme_of_longer:
  assumes "scheme_of s \<noteq> []"
  shows "scheme_of (s @ t) = scheme_of s"
proof -
  have "\<not> list_all (\<lambda>c. code_point c \<le> 32) s"
    using assms by (auto simp: scheme_of_def clean_blank split_scheme_def Let_def)
  moreover have "CHR '':'' \<in> set (clean_url s)" using assms by (auto simp: scheme_of_def split_scheme_def Let_def split: if_splits)
  ultimately show ?thesis
    by (cases "clean_url s") (auto simp: scheme_of_def clean_append split_scheme_def cut_def Let_def)
qed

lemma production_mail:
  assumes "normalize_environment environment = Inr ''production''" "email_settings_from_environment nfkc mailbox env environment = Inr m"
  shows "es_starttls m" "es_host m \<noteq> None" "scheme_of (es_public_base_url m) = ''https''"
proof -
  have "es_starttls m \<and> es_host m \<noteq> None \<and> (\<exists>u. urlsplit nfkc (es_public_base_url m) = Inr u \<and> url_scheme u = ''https'')"
    using assms by (auto simp: email_settings_from_environment_def email_settings_ok_def development_environments_def Let_def split: if_splits)
  then show "es_starttls m" "es_host m \<noteq> None" "scheme_of (es_public_base_url m) = ''https''" using urlsplit_scheme by auto
qed

text \<open>
  C39. With the settings of a production deployment neither the password of the mail server nor a message with
  a token is sent before the server has completed STARTTLS, wherever the session fails; a call succeeds only if
  the server took the message for its recipient, and every link that is built from these settings is an HTTPS
  link.
\<close>

theorem production_mail_is_encrypted:
  assumes production: "normalize_environment environment = Inr ''production''"
    and settings: "email_settings_from_environment nfkc mailbox env environment = Inr m"
    and sent: "sender_verifies zh (build_auth_email_sender m) answers recipient token = (result, steps) \<or>
      sender_resets zh (build_auth_email_sender m) answers recipient token = (result, steps)"
  shows "(\<forall>i<length steps. discloses (steps ! i) \<longrightarrow> (\<exists>j<i. steps ! j = Start_Tls \<and> answers (take (Suc j) steps) = Completed)) \<and>
    (result = Inr () \<longrightarrow> answers steps = Completed \<and> (\<exists>message. last steps = Send_Message message \<and> ml_to message = recipient)) \<and>
    scheme_of (fragment_link (es_public_base_url m) path token) = ''https''"
proof -
  have sender: "build_auth_email_sender m = Smtp_Sender m"
    using production_mail(2) [OF production settings] by (simp add: build_auth_email_sender_def)
  have session: "\<exists>subject body. send m answers recipient subject body = (result, steps)"
    using sent by (auto simp: sender sender_verifies_def sender_resets_def send_email_verification_def send_password_reset_def)
  obtain post where post: "es_public_base_url m = strip_slashes (es_public_base_url m) @ post" "CHR '':'' \<notin> set post"
    using strip_slashes_append by blast
  have "scheme_of (strip_slashes (es_public_base_url m)) = ''https''"
    using scheme_of_append [OF post(2), of "strip_slashes (es_public_base_url m)"] post(1) production_mail(3) [OF production settings] by simp
  then have "scheme_of (fragment_link (es_public_base_url m) path token) = ''https''"
    unfolding fragment_link_def by (subst scheme_of_longer) simp_all
  with session send_encrypted [OF production_mail(1) [OF production settings]] show ?thesis by blast
qed

section \<open>Examples\<close>

definition demo_restricted :: environ where
  "demo_restricted =
     [''APP_PUBLIC_BASE_URL'' \<mapsto> ''http://localhost/'', ''AUTH_TRUSTED_PROXY_CIDRS'' \<mapsto> ''127.0.0.0/8'',
      ''JWT_SECRET'' \<mapsto> replicate 32 (CHR ''k''), ''SMTP_HOST'' \<mapsto> ''localhost'', ''SMTP_FROM'' \<mapsto> ''a@b'']"

definition demo_production :: environ where
  "demo_production =
     [''APP_PUBLIC_BASE_URL'' \<mapsto> ''https://a'', ''SMTP_STARTTLS'' \<mapsto> ''on'', ''SMTP_HOST'' \<mapsto> ''b'', ''SMTP_FROM'' \<mapsto> ''a@b'']"

lemma demo_environments:
  "normalize_environment ''restricted'' = Inr ''restricted''" "normalize_environment ''production'' = Inr ''production''"
  by (auto simp: normalize_environment_def supported_environments_def strip_def
      strip_by_def is_space_def code_point_def lower_def lower_char_def)

lemma demo_url:
  "urlsplit id ''http://localhost/'' = Inr \<lparr>url_scheme = ''http'', url_netloc = ''localhost'', url_path = ''/'', url_query = [], url_fragment = []\<rparr>"
  "urlsplit id ''http://localhost'' = Inr \<lparr>url_scheme = ''http'', url_netloc = ''localhost'', url_path = [], url_query = [], url_fragment = []\<rparr>"
  "urlsplit id ''https://a'' = Inr \<lparr>url_scheme = ''https'', url_netloc = ''a'', url_path = [], url_query = [], url_fragment = []\<rparr>"
  by (simp_all add: urlsplit_def clean_url_def split_scheme_def split_netloc_def cut_def netloc_error_def scheme_char_def
      char_class_defs code_point_def lower_def lower_char_def Let_def)

lemma demo_hostname: "url_netloc u = ''localhost'' \<Longrightarrow> url_hostname u = Some ''localhost'' \<and> url_username u = None \<and> url_password u = None"
  "url_netloc u = ''a'' \<Longrightarrow> url_username u = None \<and> url_password u = None"
  by (simp_all add: url_hostname_def url_username_def url_password_def url_hostinfo_def cut_def lower_def lower_char_def code_point_def Let_def)

lemma demo_localhost: "is_loopback_host (Some ''localhost'')"
  by (simp add: is_loopback_host_def strip_def strip_by_def is_space_def code_point_def lower_def lower_char_def)

lemma demo_texts:
  "strip ''http://localhost/'' = ''http://localhost/''" "strip_slashes ''http://localhost/'' = ''http://localhost''"
  "strip_slashes ''https://a'' = ''https://a''" "strip ''localhost'' = ''localhost''" "strip ''b'' = ''b''" "strip [] = []"
  "strip ''on'' = ''on''" "strip ''127.0.0.0/8'' = ''127.0.0.0/8''" "lower ''on'' = ''on''" "lower ''a@b'' = ''a@b''"
  by (simp_all add: strip_def strip_by_def is_space_def code_point_def strip_slashes_def lower_def lower_char_def)

lemma demo_networks: "validate_restricted_proxy_networks [''127.0.0.0/8''] = Inr ()"
proof -
  have "V4 (2130706432 AND netmask_bits 8) = V4 2130706432" "is_loopback (V4 2130706432)"
    "is_loopback (V4 ((2130706432 AND netmask_bits 8) OR NOT (netmask_bits 8)))"
    by (simp_all add: is_loopback_def netmask_bits_def mask_eq_exp_minus_1)
  then show ?thesis by (simp add: validate_restricted_proxy_networks_def demo_addresses network_ends_def require_def)
qed

lemma demo_csv: "environment_csv demo_restricted ''AUTH_TRUSTED_PROXY_CIDRS'' = [''127.0.0.0/8'']"
  by (simp add: environment_csv_def demo_restricted_def demo_texts)

lemma demo_public_url: "validate_restricted_public_base_url id ''http://localhost/'' = Inr ''http''"
  by (simp add: validate_restricted_public_base_url_def demo_url bind_checked_def demo_hostname demo_localhost)

lemma demo_auth: "\<exists>s. auth_settings_from_environment id demo_restricted ''restricted'' = Inr s"
proof -
  have unset: "read_int demo_restricted name d = Inr d" if "name \<notin> dom demo_restricted" for name d
    using that by (simp add: read_int_def domIff)
  have "demo_restricted ''REFRESH_COOKIE_SECURE'' = None" "environment_text demo_restricted ''APP_PUBLIC_BASE_URL'' [] = ''http://localhost/''"
    "demo_restricted ''JWT_ISSUER'' = None" "demo_restricted ''JWT_AUDIENCE'' = None" "demo_restricted ''REFRESH_COOKIE_NAME'' = None"
    "environment_text demo_restricted ''JWT_SECRET'' [] = replicate 32 (CHR ''k'')"
    by (simp_all add: demo_restricted_def environment_text_def)
  note vars = this
  have secret: "replicate 12 (CHR ''k'') \<noteq> ''replace-with''" by (simp add: numeral_eq_Suc)
  have names: "name \<notin> dom demo_restricted" if "name \<in> {''ACCESS_TOKEN_TTL_MINUTES'', ''REFRESH_TOKEN_TTL_DAYS'', ''AUTH_LOGIN_WINDOW_MINUTES'',
      ''AUTH_LOGIN_ACCOUNT_MAX_FAILURES'', ''AUTH_LOGIN_IP_MAX_FAILURES'', ''AUTH_LOGIN_BLOCK_MINUTES'', ''AUTH_REGISTRATION_WINDOW_MINUTES'',
      ''AUTH_REGISTRATION_IDENTITY_MAX_ATTEMPTS'', ''AUTH_REGISTRATION_IP_MAX_ATTEMPTS'', ''AUTH_REGISTRATION_BLOCK_MINUTES'',
      ''AUTH_ACTION_REQUEST_WINDOW_MINUTES'', ''AUTH_ACTION_REQUEST_IDENTITY_MAX_ATTEMPTS'', ''AUTH_ACTION_REQUEST_IP_MAX_ATTEMPTS'',
      ''AUTH_ACTION_REQUEST_BLOCK_MINUTES'', ''AUTH_EMAIL_VERIFICATION_TTL_HOURS'', ''AUTH_PASSWORD_RESET_TTL_MINUTES''}" for name
    using that by (auto simp: demo_restricted_def)
  have "\<exists>s. read_auth_settings demo_restricted False [''127.0.0.0/8''] = Inr s \<and> auth_settings_error (\<lambda>cidr. ip_network cidr \<noteq> None) s = None"
    unfolding read_auth_settings_def
    by (simp add: unset names secret bind_checked_def environment_text_def vars(1,3,4,5) vars(6) [unfolded environment_text_def] auth_settings_error_def
        in_range_def cookie_name_ok_def char_class_defs demo_addresses)
  then show ?thesis
    by (auto simp: auth_settings_from_environment_def demo_environments bind_checked_def vars demo_texts demo_public_url demo_csv
        environment_bool_def demo_networks require_def development_environments_def)
qed

lemma demo_mail:
  "\<exists>m. email_settings_from_environment id id demo_restricted ''restricted'' = Inr m"
  "\<exists>m. email_settings_from_environment id id demo_production ''production'' = Inr m"
proof -
  have "demo_restricted ''SMTP_PORT'' = None" "demo_restricted ''SMTP_STARTTLS'' = None" "demo_restricted ''SMTP_TIMEOUT_SECONDS'' = None"
    "demo_restricted ''SMTP_USERNAME'' = None" "demo_restricted ''SMTP_PASSWORD'' = None" "demo_restricted ''SMTP_HOST'' = Some ''localhost''"
    "demo_restricted ''SMTP_FROM'' = Some ''a@b''" "demo_restricted ''APP_PUBLIC_BASE_URL'' = Some ''http://localhost/''"
    by (simp_all add: demo_restricted_def)
  then show "\<exists>m. email_settings_from_environment id id demo_restricted ''restricted'' = Inr m"
    by (auto simp: email_settings_from_environment_def demo_environments read_int_def environment_bool_def environment_text_def bind_checked_def
      demo_texts email_settings_ok_def not_blank_def require_def demo_url demo_hostname demo_localhost ends_with_def development_environments_def Let_def)
  have "demo_production ''SMTP_PORT'' = None" "demo_production ''SMTP_STARTTLS'' = Some ''on''" "demo_production ''SMTP_TIMEOUT_SECONDS'' = None"
    "demo_production ''SMTP_USERNAME'' = None" "demo_production ''SMTP_PASSWORD'' = None" "demo_production ''SMTP_HOST'' = Some ''b''"
    "demo_production ''SMTP_FROM'' = Some ''a@b''" "demo_production ''APP_PUBLIC_BASE_URL'' = Some ''https://a''"
    by (simp_all add: demo_production_def)
  then show "\<exists>m. email_settings_from_environment id id demo_production ''production'' = Inr m"
    by (auto simp: email_settings_from_environment_def demo_environments read_int_def environment_bool_def environment_text_def bind_checked_def
      demo_texts email_settings_ok_def not_blank_def require_def demo_url demo_hostname ends_with_def development_environments_def Let_def)
qed

theorem restricted_deployment_is_local_witness:
  "\<exists>s m. auth_settings_from_environment id demo_restricted ''restricted'' = Inr s \<and>
     email_settings_from_environment id id demo_restricted ''restricted'' = Inr m \<and> is_loopback_host (es_host m)"
  using restricted_deployment_is_local [of "''restricted''" id demo_restricted, where mailbox = id] demo_auth demo_mail(1) demo_environments(1) by blast

theorem production_mail_is_encrypted_witness:
  "\<exists>m. email_settings_from_environment id id demo_production ''production'' = Inr m \<and>
     scheme_of (fragment_link (es_public_base_url m) ''/auth/verify-email'' ''t'') = ''https''"
proof -
  obtain m where m: "email_settings_from_environment id id demo_production ''production'' = Inr m" using demo_mail(2) by blast
  obtain result steps where "sender_verifies id (build_auth_email_sender m) (\<lambda>_. Completed) ''a@b'' ''t'' = (result, steps)" by fastforce
  then show ?thesis
    using production_mail_is_encrypted [OF demo_environments(2) m, of id "\<lambda>_. Completed" "''a@b''" "''t''" result steps "''/auth/verify-email''"] m by blast
qed

end
