(* ===== verification/Experiment_Files.thy ===== *)
theory Experiment_Files
  imports Json_Values Py_Float
begin

text \<open>
  What the experiments of \<^verbatim>\<open>backend/experiments\<close> do with files: a state of files, directories and a
  store of their own, changed by single operations that are counted. Each operation may fail, as the world decides by
  its number; a write that fails may leave a part of the text. None of the code cleans up after a failure, so a
  failure at an operation leaves the files that a crash of the process at that operation leaves. Links are a property of
  a path; others do not change the files.
\<close>

section \<open>The world\<close>

datatype experiment_error = Coded string | Uncoded

datatype fault = Refused | Torn nat

record world =
  wd_fault :: "nat \<Rightarrow> fault option"
  wd_links :: "path \<Rightarrow> bool"
  wd_health :: "nat \<Rightarrow> experiment_error option"
  wd_sha :: "string \<Rightarrow> string"
  wd_dumps :: "json \<Rightarrow> string"
  wd_loads :: "string \<Rightarrow> json option"

record 's lab =
  lb_files :: "(path \<times> string) list"
  lb_dirs :: "path list"
  lb_ticks :: nat
  lb_store :: 's

definition file_at :: "'s lab \<Rightarrow> path \<Rightarrow> string option" where
  "file_at r p = map_of (lb_files r) p"

definition dir_at :: "'s lab \<Rightarrow> path \<Rightarrow> bool" where
  "dir_at r p \<longleftrightarrow> p \<in> set (lb_dirs r)"

definition present :: "'s lab \<Rightarrow> path \<Rightarrow> bool" where
  "present r p \<longleftrightarrow> file_at r p \<noteq> None \<or> dir_at r p"

text \<open>The names in a directory, as \<open>iterdir\<close> lists them.\<close>

definition names_in :: "'s lab \<Rightarrow> path \<Rightarrow> string list" where
  "names_in r d = remdups (map last (filter (\<lambda>p. p \<noteq> [] \<and> butlast p = d) (map fst (lb_files r) @ lb_dirs r)))"

section \<open>Actions\<close>

type_synonym ('s, 'a) act = "'s lab \<Rightarrow> (experiment_error, 'a, 's lab) outcome"

definition act_return :: "'a \<Rightarrow> ('s, 'a) act" where
  "act_return x r = (Inr x, r)"

definition act_then :: "('s, 'a) act \<Rightarrow> ('a \<Rightarrow> ('s, 'b) act) \<Rightarrow> ('s, 'b) act" where
  "act_then m f r = followed_by (m r) f"

text \<open>\<open>if not b: raise error\<close>\<close>

definition act_require :: "bool \<Rightarrow> experiment_error \<Rightarrow> ('s, unit) act" where
  "act_require b e r = (if b then Inr () else Inl e, r)"

definition act_get :: "('s lab \<Rightarrow> 'a) \<Rightarrow> ('s, 'a) act" where
  "act_get f r = (Inr (f r), r)"

definition act_store :: "('s \<Rightarrow> 's) \<Rightarrow> ('s, unit) act" where
  "act_store f r = (Inr (), r\<lparr>lb_store := f (lb_store r)\<rparr>)"

fun act_each :: "('x \<Rightarrow> ('s, unit) act) \<Rightarrow> 'x list \<Rightarrow> ('s, unit) act" where
  "act_each f [] = act_return ()"
| "act_each f (x # xs) = act_then (f x) (\<lambda>_. act_each f xs)"

text \<open>A reading of the world, and an operation on the files.\<close>

definition observe :: "(nat \<Rightarrow> 'a) \<Rightarrow> ('s, 'a) act" where
  "observe f r = (Inr (f (lb_ticks r)), r\<lparr>lb_ticks := Suc (lb_ticks r)\<rparr>)"

definition io :: "('w) world_scheme \<Rightarrow> ('s lab \<Rightarrow> bool) \<Rightarrow> ('s lab \<Rightarrow> 's lab) \<Rightarrow> ('s, unit) act" where
  "io w possible change r =
     (let r' = r\<lparr>lb_ticks := Suc (lb_ticks r)\<rparr>
      in if wd_fault w (lb_ticks r) = None \<and> possible r then (Inr (), change r') else (Inl Uncoded, r'))"

definition health_of_world :: "('w) world_scheme \<Rightarrow> ('s, unit) act" where
  "health_of_world w = act_then (observe (wd_health w)) (\<lambda>e. case e of None \<Rightarrow> act_return () | Some e \<Rightarrow> act_require False e)"

section \<open>Files\<close>

definition set_file :: "path \<Rightarrow> string \<Rightarrow> 's lab \<Rightarrow> 's lab" where
  "set_file p s r = r\<lparr>lb_files := (p, s) # lb_files r\<rparr>"

definition drop_file :: "path \<Rightarrow> 's lab \<Rightarrow> 's lab" where
  "drop_file p r = r\<lparr>lb_files := filter (\<lambda>x. fst x \<noteq> p) (lb_files r)\<rparr>"

definition drop_dir :: "path \<Rightarrow> 's lab \<Rightarrow> 's lab" where
  "drop_dir p r = r\<lparr>lb_dirs := filter (\<lambda>x. x \<noteq> p) (lb_dirs r)\<rparr>"

definition moved :: "path \<Rightarrow> path \<Rightarrow> path \<Rightarrow> path" where
  "moved p q x = (if prefix p x then q @ drop (length p) x else x)"

text \<open>\<open>_checked_path\<close>: the path and the directories above it are there and are no links.\<close>

definition checked_path :: "('w) world_scheme \<Rightarrow> string \<Rightarrow> bool \<Rightarrow> path \<Rightarrow> ('s, unit) act" where
  "checked_path w kind must_exist p =
     act_then (act_require (''..'' \<notin> set p) (Coded (kind @ ''_ABSOLUTE_PATH_REQUIRED''))) (\<lambda>_.
     act_each (\<lambda>q.
       act_then (act_require (\<not> wd_links w q) (Coded (kind @ ''_LINK_OR_REPARSE_REJECTED''))) (\<lambda>_.
       act_then (act_get (\<lambda>r. present r q)) (\<lambda>here. act_require (here \<or> \<not> must_exist) (Coded (kind @ ''_PATH_MISSING'')))))
       (tl (prefixes p)))"

text \<open>A new file; it is there in part when the write fails after it was opened.\<close>

definition create :: "('w) world_scheme \<Rightarrow> path \<Rightarrow> string \<Rightarrow> ('s, unit) act" where
  "create w p s r =
     (let r' = r\<lparr>lb_ticks := Suc (lb_ticks r)\<rparr>
      in if p = [] \<or> present r p \<or> \<not> dir_at r (butlast p) then (Inl Uncoded, r')
         else (case wd_fault w (lb_ticks r) of None \<Rightarrow> (Inr (), set_file p s r')
           | Some Refused \<Rightarrow> (Inl Uncoded, r')
           | Some (Torn k) \<Rightarrow> (Inl Uncoded, set_file p (take k s) r')))"

definition make_dir :: "('w) world_scheme \<Rightarrow> path \<Rightarrow> ('s, unit) act" where
  "make_dir w p = io w (\<lambda>r. p \<noteq> [] \<and> \<not> present r p \<and> dir_at r (butlast p)) (\<lambda>r. r\<lparr>lb_dirs := p # lb_dirs r\<rparr>)"

definition unlink :: "('w) world_scheme \<Rightarrow> path \<Rightarrow> ('s, unit) act" where
  "unlink w p = io w (\<lambda>r. file_at r p \<noteq> None) (drop_file p)"

definition remove_dir :: "('w) world_scheme \<Rightarrow> path \<Rightarrow> ('s, unit) act" where
  "remove_dir w p = io w (\<lambda>r. dir_at r p \<and> names_in r p = []) (drop_dir p)"

text \<open>\<open>os.rename\<close> of a directory to a path that is free, and \<open>os.replace\<close> of a file.\<close>

definition rename_dir :: "('w) world_scheme \<Rightarrow> path \<Rightarrow> path \<Rightarrow> ('s, unit) act" where
  "rename_dir w p q =
     io w (\<lambda>r. dir_at r p \<and> \<not> present r q \<and> dir_at r (butlast q) \<and> \<not> prefix p q)
       (\<lambda>r. r\<lparr>lb_files := map (\<lambda>(x, s). (moved p q x, s)) (lb_files r), lb_dirs := map (moved p q) (lb_dirs r)\<rparr>)"

definition replace_file :: "('w) world_scheme \<Rightarrow> path \<Rightarrow> path \<Rightarrow> ('s, unit) act" where
  "replace_file w p q =
     io w (\<lambda>r. file_at r p \<noteq> None \<and> \<not> dir_at r q \<and> dir_at r (butlast q))
       (\<lambda>r. drop_file p (set_file q (case file_at r p of None \<Rightarrow> [] | Some s \<Rightarrow> s) r))"

text \<open>\<open>read_bytes\<close>\<close>

definition read_bytes :: "('w) world_scheme \<Rightarrow> path \<Rightarrow> ('s, string) act" where
  "read_bytes w p =
     act_then (io w (\<lambda>r. file_at r p \<noteq> None) (\<lambda>r. r)) (\<lambda>_. act_get (\<lambda>r. case file_at r p of None \<Rightarrow> [] | Some s \<Rightarrow> s))"

text \<open>\<open>_hash\<close>: the health is checked before each block of 1 MiB, the empty one at the end included.\<close>

definition chunk :: nat where
  "chunk = 1024 * 1024"

definition blocks :: "string \<Rightarrow> nat" where
  "blocks s = (length s + chunk - 1) div chunk + 1"

definition hash_file :: "('w) world_scheme \<Rightarrow> string \<Rightarrow> ('s, unit) act \<Rightarrow> path \<Rightarrow> ('s, string) act" where
  "hash_file w kind health p =
     act_then (checked_path w kind True p) (\<lambda>_.
     act_then (read_bytes w p) (\<lambda>s.
     act_then (act_each (\<lambda>_. health) (replicate (blocks s) ())) (\<lambda>_. act_return (wd_sha w s))))"

section \<open>Reasoning about actions\<close>

text \<open>Every run from a state with \<open>P\<close> ends with a value and \<open>Q\<close> or with an error and \<open>E\<close>.\<close>

definition triple :: "('s lab \<Rightarrow> bool) \<Rightarrow> ('s, 'a) act \<Rightarrow> ('a \<Rightarrow> 's lab \<Rightarrow> bool) \<Rightarrow> ('s lab \<Rightarrow> bool) \<Rightarrow> bool" where
  "triple P m Q E \<longleftrightarrow> (\<forall>r. P r \<longrightarrow> (case m r of (Inl e, r') \<Rightarrow> E r' | (Inr x, r') \<Rightarrow> Q x r'))"

lemma triple_then:
  assumes "triple P m R E" "\<And>x. triple (R x) (f x) Q E"
  shows "triple P (act_then m f) Q E"
  unfolding triple_def
proof (intro allI impI)
  fix r assume "P r"
  then show "case act_then m f r of (Inl e, r') \<Rightarrow> E r' | (Inr x, r') \<Rightarrow> Q x r'"
    using assms unfolding triple_def act_then_def followed_by_def
    by (cases "m r"; cases "fst (m r)") fastforce+
qed

lemma triple_weaken:
  assumes "triple P m Q E" "\<And>r. P' r \<Longrightarrow> P r" "\<And>x r. Q x r \<Longrightarrow> Q' x r" "\<And>r. E r \<Longrightarrow> E' r"
  shows "triple P' m Q' E'"
  using assms unfolding triple_def by (fastforce split: prod.splits sum.splits)

lemma triple_return: "triple (Q x) (act_return x) Q E"
  by (simp add: triple_def act_return_def)

lemma triple_require: "(\<And>r. P r \<Longrightarrow> E r) \<Longrightarrow> triple P (act_require b e) (\<lambda>_ r. P r \<and> b) E"
  by (simp add: triple_def act_require_def)

lemma triple_get: "triple P (act_get f) (\<lambda>x r. P r \<and> x = f r) E"
  by (simp add: triple_def act_get_def)

lemma triple_D: "triple P m Q E \<Longrightarrow> P r \<Longrightarrow> m r = (Inr x, r') \<Longrightarrow> Q x r'" "triple P m Q E \<Longrightarrow> P r \<Longrightarrow> m r = (Inl e, r') \<Longrightarrow> E r'"
  unfolding triple_def by fastforce+

section \<open>What an action leaves alone\<close>

text \<open>
  From a store with \<open>P\<close>, the files and directories in \<open>S\<close> and the store are as before, whether the action
  fails or not.
\<close>

definition same_on :: "(path \<Rightarrow> bool) \<Rightarrow> 's lab \<Rightarrow> 's lab \<Rightarrow> bool" where
  "same_on S r r' \<longleftrightarrow> lb_store r' = lb_store r \<and> (\<forall>p. S p \<longrightarrow> file_at r' p = file_at r p \<and> dir_at r' p = dir_at r p)"

definition spares :: "('s \<Rightarrow> bool) \<Rightarrow> (path \<Rightarrow> bool) \<Rightarrow> ('s, 'a) act \<Rightarrow> bool" where
  "spares P S m \<longleftrightarrow> (\<forall>r. P (lb_store r) \<longrightarrow> same_on S r (snd (m r)))"

named_theorems spare_intros

lemma same_on_refl [simp]: "same_on S r r"
  by (simp add: same_on_def)

lemma same_on_trans: "same_on S r r' \<Longrightarrow> same_on S r' r'' \<Longrightarrow> same_on S r r''"
  by (simp add: same_on_def)

lemma same_on_subset: "same_on S r r' \<Longrightarrow> (\<And>p. T p \<Longrightarrow> S p) \<Longrightarrow> same_on T r r'"
  by (simp add: same_on_def)

lemma spares_then [spare_intros]:
  assumes m: "spares P S m" and f: "\<And>x. spares P S (f x)" shows "spares P S (act_then m f)"
  unfolding spares_def
proof (intro allI impI)
  fix r :: "'a lab" assume r: "P (lb_store r)"
  obtain x r' where run: "m r = (x, r')" by fastforce
  have first: "same_on S r r'" using m r run by (metis spares_def snd_conv)
  show "same_on S r (snd (act_then m f r))"
  proof (cases x)
    case (Inl e)
    with first run show ?thesis by (simp add: act_then_def)
  next
    case (Inr y)
    have "P (lb_store r')" using first r by (simp add: same_on_def)
    then have "same_on S r' (snd (f y r'))" using f by (simp add: spares_def)
    with first run Inr show ?thesis by (simp add: act_then_def same_on_trans [OF first])
  qed
qed

lemma spares_get_then: "(\<And>r. P (lb_store r) \<Longrightarrow> spares P S (g (f r))) \<Longrightarrow> spares P S (act_then (act_get f) g)"
  by (simp add: spares_def act_then_def act_get_def)

lemma spares_get_store: "spares (\<lambda>x. x = s) S (g s) \<Longrightarrow> spares (\<lambda>x. x = s) S (act_then (act_get lb_store) g)"
  by (simp add: spares_def act_then_def act_get_def)

lemma spares_each [spare_intros]: "(\<And>x. spares P S (f x)) \<Longrightarrow> spares P S (act_each f xs)"
  by (induction xs) (auto intro: spares_then simp: spares_def [of P S "act_return ()"] act_return_def)

lemma spares_simple [spare_intros]:
  "spares P S (act_return x)" "spares P S (act_require b e)" "spares P S (act_get f)" "spares P S (observe g)"
  by (simp_all add: spares_def act_return_def act_require_def act_get_def observe_def same_on_def file_at_def dir_at_def)

lemma same_on_ticks [simp]: "same_on S r (r\<lparr>lb_ticks := n\<rparr>)"
  by (simp add: same_on_def file_at_def dir_at_def)

lemma spares_io:
  assumes "\<And>r. possible r \<Longrightarrow> same_on S r (change r)" "\<And>r n. change (r\<lparr>lb_ticks := n\<rparr>) = (change r)\<lparr>lb_ticks := n\<rparr>"
  shows "spares P S (io w possible change)"
proof -
  have "same_on S r (change (r\<lparr>lb_ticks := n\<rparr>))" if "possible r" for r n
    using assms(1) [OF that] by (simp add: assms(2) same_on_def file_at_def dir_at_def)
  then show ?thesis by (simp add: spares_def io_def Let_def)
qed

lemma file_at_set [simp]: "file_at (set_file p s r) q = (if q = p then Some s else file_at r q)"
  by (simp add: file_at_def set_file_def)

lemma map_of_filter_fst: "map_of (filter (\<lambda>x. fst x \<noteq> p) xs) q = (if q = p then None else map_of xs q)"
  by (induction xs) auto

lemma file_at_drop [simp]: "file_at (drop_file p r) q = (if q = p then None else file_at r q)"
  unfolding file_at_def drop_file_def by (simp add: map_of_filter_fst)

lemma dir_at_files [simp]: "dir_at (set_file p s r) q = dir_at r q" "dir_at (drop_file p r) q = dir_at r q"
  by (simp_all add: dir_at_def set_file_def drop_file_def)

lemma dir_at_drop [simp]: "dir_at (drop_dir p r) q \<longleftrightarrow> dir_at r q \<and> q \<noteq> p" "file_at (drop_dir p r) q = file_at r q"
  by (auto simp: dir_at_def drop_dir_def file_at_def)

lemma lab_ticks [simp]:
  "file_at (r\<lparr>lb_ticks := n\<rparr>) p = file_at r p" "dir_at (r\<lparr>lb_ticks := n\<rparr>) p = dir_at r p"
  "file_at (r\<lparr>lb_store := x\<rparr>) p = file_at r p" "dir_at (r\<lparr>lb_store := x\<rparr>) p = dir_at r p"
  "file_at (r\<lparr>lb_dirs := ds\<rparr>) p = file_at r p" "dir_at (r\<lparr>lb_dirs := ds\<rparr>) p \<longleftrightarrow> p \<in> set ds"
  by (simp_all add: file_at_def dir_at_def)

lemma file_store [simp]: "lb_store (set_file p s r) = lb_store r" "lb_store (drop_file p r) = lb_store r" "lb_store (drop_dir p r) = lb_store r"
  by (simp_all add: set_file_def drop_file_def drop_dir_def)

lemma ticks_commute [simp]:
  "set_file p s (r\<lparr>lb_ticks := n\<rparr>) = (set_file p s r)\<lparr>lb_ticks := n\<rparr>" "drop_file p (r\<lparr>lb_ticks := n\<rparr>) = (drop_file p r)\<lparr>lb_ticks := n\<rparr>"
  "drop_dir p (r\<lparr>lb_ticks := n\<rparr>) = (drop_dir p r)\<lparr>lb_ticks := n\<rparr>"
  by (simp_all add: set_file_def drop_file_def drop_dir_def)

lemma spares_create [spare_intros]: "\<not> S p \<Longrightarrow> spares P S (create w p s)"
  by (auto simp: spares_def create_def same_on_def Let_def split: option.split fault.split)

lemma spares_make_dir [spare_intros]: "\<not> S p \<Longrightarrow> spares P S (make_dir w p)"
  unfolding make_dir_def by (rule spares_io) (auto simp: same_on_def dir_at_def file_at_def)

lemma spares_unlink [spare_intros]: "\<not> S p \<Longrightarrow> spares P S (unlink w p)"
  unfolding unlink_def by (rule spares_io) (auto simp: same_on_def)

lemma spares_remove_dir [spare_intros]: "\<not> S p \<Longrightarrow> spares P S (remove_dir w p)"
  unfolding remove_dir_def by (rule spares_io) (auto simp: same_on_def)

lemma spares_replace [spare_intros]: "\<not> S p \<Longrightarrow> \<not> S q \<Longrightarrow> spares P S (replace_file w p q)"
  unfolding replace_file_def by (rule spares_io) (auto simp: same_on_def)

lemma moved_other: "\<not> prefix q x \<Longrightarrow> moved p q y = x \<longleftrightarrow> y = x \<and> \<not> prefix p x"
  by (auto simp: moved_def)

lemma renamed_file:
  assumes "\<not> prefix p x" "\<not> prefix q x"
  shows "map_of (map (\<lambda>(y, s). (moved p q y, s)) xs) x = map_of xs x"
proof (induction xs)
  case (Cons a xs)
  obtain y s where "a = (y, s)" by force
  with Cons show ?case using moved_other [OF assms(2), of p y] assms(1) by auto
qed simp

lemma spares_rename [spare_intros]:
  assumes "\<And>x. S x \<Longrightarrow> \<not> prefix p x \<and> \<not> prefix q x" shows "spares P S (rename_dir w p q)"
  unfolding rename_dir_def
proof (rule spares_io)
  show "same_on S r (r\<lparr>lb_files := map (\<lambda>(x, s). (moved p q x, s)) (lb_files r), lb_dirs := map (moved p q) (lb_dirs r)\<rparr>)" for r :: "'a lab"
    using assms renamed_file [of p _ q "lb_files r"] by (auto simp: same_on_def file_at_def dir_at_def image_iff moved_other) (metis moved_other)+
qed simp

lemma spares_checked_path [spare_intros]: "spares P S (checked_path w kind b p)"
  unfolding checked_path_def by (intro spare_intros)

lemma spares_read [spare_intros]: "spares P S (read_bytes w p)"
  unfolding read_bytes_def by (intro spare_intros spares_io) simp_all

lemma spares_hash [spare_intros]: "spares P S health \<Longrightarrow> spares P S (hash_file w kind health p)"
  unfolding hash_file_def by (intro spare_intros)

lemma names_in_iff: "n \<in> set (names_in r d) \<longleftrightarrow> present r (d @ [n])"
proof -
  have "n \<in> set (names_in r d) \<longleftrightarrow> (\<exists>p \<in> fst ` set (lb_files r) \<union> set (lb_dirs r). p \<noteq> [] \<and> butlast p = d \<and> last p = n)"
    unfolding names_in_def by auto
  also have "\<dots> \<longleftrightarrow> d @ [n] \<in> fst ` set (lb_files r) \<union> set (lb_dirs r)"
    by (metis append_butlast_last_id butlast_snoc last_snoc snoc_eq_iff_butlast)
  finally show ?thesis by (auto simp: present_def file_at_def dir_at_def map_of_eq_None_iff)
qed

lemma triple_spares:
  assumes "spares P S m" "\<And>r. A r \<Longrightarrow> P (lb_store r)" "\<And>r r'. A r \<Longrightarrow> same_on S r r' \<Longrightarrow> A r'"
  shows "triple A m (\<lambda>_. A) A"
  using assms unfolding triple_def spares_def by (auto split: prod.split sum.split) (metis snd_conv)+

text \<open>An assertion about the files, the directories and the store.\<close>

definition stable :: "('s lab \<Rightarrow> bool) \<Rightarrow> bool" where
  "stable A \<longleftrightarrow> (\<forall>r r'. A r \<longrightarrow> same_on (\<lambda>_. True) r r' \<longrightarrow> A r')"

lemma triple_calm: "spares (\<lambda>_. True) (\<lambda>_. True) m \<Longrightarrow> stable A \<Longrightarrow> triple A m (\<lambda>_. A) A"
  by (rule triple_spares) (auto simp: stable_def)

lemma stable_conj: "stable A \<Longrightarrow> stable B \<Longrightarrow> stable (\<lambda>r. A r \<and> B r)"
  unfolding stable_def by blast

lemma stable_simple: "stable (\<lambda>_. b)" "stable (\<lambda>r. Q (lb_store r))" "stable (\<lambda>r. Q (file_at r p))" "stable (\<lambda>r. Q2 (present r p))"
  by (simp_all add: stable_def same_on_def present_def)

lemma triple_read:
  assumes "stable A" shows "triple A (read_bytes w p) (\<lambda>s r. A r \<and> file_at r p = Some s) A"
proof -
  have "A (r\<lparr>lb_ticks := n\<rparr>)" if "A r" for r n
    using assms that same_on_ticks unfolding stable_def by blast
  then show ?thesis
    by (auto simp: triple_def read_bytes_def act_then_def followed_by_def io_def act_get_def Let_def split: option.split)
qed

lemma triple_hash:
  assumes A: "stable A" and health: "spares (\<lambda>_. True) (\<lambda>_. True) health"
  shows "triple A (hash_file w kind health p) (\<lambda>sha r. A r \<and> (\<exists>c. file_at r p = Some c \<and> sha = wd_sha w c)) A"
  unfolding hash_file_def
proof (rule triple_then)
  show "triple A (checked_path w kind True p) (\<lambda>_. A) A" by (intro triple_calm spare_intros A)
  show "triple A (act_then (read_bytes w p) (\<lambda>s. act_then (act_each (\<lambda>_. health) (replicate (blocks s) ())) (\<lambda>_. act_return (wd_sha w s))))
      (\<lambda>sha r. A r \<and> (\<exists>c. file_at r p = Some c \<and> sha = wd_sha w c)) A" for x :: unit
  proof (rule triple_then [OF triple_read [OF A]])
    fix s
    have "stable (\<lambda>r. A r \<and> file_at r p = Some s)" by (intro stable_conj A stable_simple)
    then have "triple (\<lambda>r. A r \<and> file_at r p = Some s) (act_each (\<lambda>_. health) (replicate (blocks s) ()))
        (\<lambda>_ r. A r \<and> file_at r p = Some s) (\<lambda>r. A r \<and> file_at r p = Some s)"
      by (intro triple_calm spares_each health)
    then have "triple (\<lambda>r. A r \<and> file_at r p = Some s) (act_each (\<lambda>_. health) (replicate (blocks s) ()))
        (\<lambda>_ r. A r \<and> file_at r p = Some s) A" by (rule triple_weaken) auto
    then show "triple (\<lambda>r. A r \<and> file_at r p = Some s) (act_then (act_each (\<lambda>_. health) (replicate (blocks s) ())) (\<lambda>_. act_return (wd_sha w s)))
        (\<lambda>sha r. A r \<and> (\<exists>c. file_at r p = Some c \<and> sha = wd_sha w c)) A"
      by (rule triple_then) (auto simp: triple_def act_return_def)
  qed
qed

end
