(* ===== verification/Snapshot_Store.thy ===== *)
theory Snapshot_Store
  imports Experiment_Files
begin

text \<open>
  \<^verbatim>\<open>backend/experiments/snapshot_store.py\<close>: verified copies of a live database. The worker thread and the
  caller share the store; a capture is one action whose readings of the clock, of free space, of the health and of the
  cancellation are those of the world, so that another thread may cancel it at any reading. The online backup of
  SQLite is what \<open>sw_backup\<close> gives: how often it reports progress, and the copy or a failure with a part of it.
\<close>

section \<open>The store\<close>

record snapshot =
  sn_owner :: string
  sn_directory :: string
  sn_database_sha256 :: string
  sn_size :: nat
  sn_pairs :: int
  sn_image_count :: nat
  sn_created_at :: string
  sn_reason :: string
  sn_manifest_sha256 :: string

datatype store_state = Prepared | Running_Worker | Stopped | Failed | Final_Capture

datatype worker_thread = No_Thread | Thread_Alive | Thread_Ended

record snapshot_store =
  st_root :: path
  st_database :: path
  st_names :: "string list"
  st_interval :: rat
  st_min_free :: int
  st_timeout :: rat
  st_owner :: string
  st_cancel :: bool
  st_thread :: worker_thread
  st_started_at :: "rat option"
  st_active_at :: "rat option"
  st_last_success_at :: "rat option"
  st_error :: "string option"
  st_state :: store_state
  st_attempts :: nat
  st_successful :: nat
  st_removed :: nat
  st_latest :: "snapshot option"
  st_owned :: "snapshot list"
  st_pointer_sha :: "string option"

record backup =
  bk_polls :: nat
  bk_copy :: string
  bk_done :: bool

record snap_world = world +
  sw_now :: "nat \<Rightarrow> rat"
  sw_cancelled :: "nat \<Rightarrow> bool"
  sw_free :: "nat \<Rightarrow> int option"
  sw_token :: "nat \<Rightarrow> string"
  sw_stamp :: "nat \<Rightarrow> string"
  sw_iso :: "nat \<Rightarrow> string"
  sw_backup :: "nat \<Rightarrow> backup"
  sw_validate :: "string \<Rightarrow> string list \<Rightarrow> experiment_error + int option"
  sw_polls :: "nat \<Rightarrow> nat"

type_synonym 'a snap_act = "(snapshot_store, 'a) act"

definition refuse_unless :: "bool \<Rightarrow> string \<Rightarrow> 'a snap_act \<Rightarrow> 'a snap_act" where
  "refuse_unless b code m = act_then (act_require b (Coded code)) (\<lambda>_. m)"

definition given_and :: "('a \<Rightarrow> bool) \<Rightarrow> 'a option \<Rightarrow> bool" where
  "given_and p x = (case x of None \<Rightarrow> False | Some y \<Rightarrow> p y)"

text \<open>\<open>_error_code\<close>, with the pattern \<open>[A-Z][A-Z0-9_]{1,80}\<close>\<close>

definition error_code :: "experiment_error \<Rightarrow> string \<Rightarrow> string" where
  "error_code e fallback =
     (case e of Uncoded \<Rightarrow> fallback
      | Coded c \<Rightarrow> if fullmatch is_upper (\<lambda>x. is_upper x \<or> is_digit x \<or> x = CHR ''_'') 1 80 c then c else fallback)"

section \<open>Construction\<close>

definition write_exclusive :: "'w world_scheme \<Rightarrow> path \<Rightarrow> json \<Rightarrow> string snap_act" where
  "write_exclusive w p v =
     act_then (checked_path w ''SNAPSHOT'' True (butlast p)) (\<lambda>_.
     act_then (create w p (wd_dumps w v)) (\<lambda>_. act_return (wd_sha w (wd_dumps w v))))"

text \<open>A number of seconds that is finite and positive; \<open>math.isfinite\<close> raises on an integer that no float holds.\<close>

definition positive_seconds :: "json \<Rightarrow> rat snap_act" where
  "positive_seconds v =
     (case v of
        JInt n \<Rightarrow> if too_large (of_int n) then act_then (act_require False Uncoded) (\<lambda>_. act_return 0)
          else refuse_unless (0 < n) ''SNAPSHOT_INTERVAL_INVALID'' (act_return (double_of (of_int n)))
      | JFloat (Finite q) \<Rightarrow> refuse_unless (0 < q) ''SNAPSHOT_INTERVAL_INVALID'' (act_return q)
      | _ \<Rightarrow> refuse_unless False ''SNAPSHOT_INTERVAL_INVALID'' (act_return 0))"

definition marker_json :: "snapshot_store \<Rightarrow> json" where
  "marker_json s =
     JObject [(''schema_version'', JString ''1.0''), (''owner_id'', JString (st_owner s)),
       (''source_write_operations'', JBool False), (''retained_valid_snapshots'', JInt 2)]"

definition new_store ::
    "'w snap_world_scheme \<Rightarrow> path \<Rightarrow> path \<Rightarrow> string list \<Rightarrow> json \<Rightarrow> int \<Rightarrow> json \<Rightarrow> string \<Rightarrow> unit snap_act" where
  "new_store w target database expected_names interval min_free timeout owner =
     act_then (positive_seconds interval) (\<lambda>interval.
     act_then (positive_seconds timeout) (\<lambda>timeout.
     refuse_unless (0 \<le> min_free) ''SNAPSHOT_SPACE_LIMIT_INVALID'' (
     refuse_unless (expected_names \<noteq> [] \<and> [] \<notin> set expected_names) ''SNAPSHOT_IMAGE_NAMES_INVALID'' (
     act_then (checked_path w ''SNAPSHOT'' False target) (\<lambda>_.
     act_then (checked_path w ''SNAPSHOT'' True database) (\<lambda>_.
     act_then (act_get (\<lambda>r. file_at r database \<noteq> None \<and> \<not> present r target \<and> dir_at r (butlast target))) (\<lambda>proper.
     refuse_unless proper ''SNAPSHOT_TARGET_OR_SOURCE_INVALID'' (
     refuse_unless (\<not> prefix target database \<and> \<not> prefix database target) ''SNAPSHOT_SOURCE_TARGET_OVERLAP'' (
     refuse_unless (''jobs'' \<notin> lower ` set target) ''SNAPSHOT_TARGET_INSIDE_JOBS'' (
     let s = \<lparr>st_root = target, st_database = database, st_names = remdups expected_names, st_interval = interval,
           st_min_free = min_free, st_timeout = timeout, st_owner = owner, st_cancel = False, st_thread = No_Thread,
           st_started_at = None, st_active_at = None, st_last_success_at = None, st_error = None, st_state = Prepared,
           st_attempts = 0, st_successful = 0, st_removed = 0, st_latest = None, st_owned = [], st_pointer_sha = None\<rparr>
     in act_then (make_dir w target) (\<lambda>_.
        act_then (write_exclusive w (target @ [''store-owner.json'']) (marker_json s)) (\<lambda>_.
        act_store (\<lambda>_. s)))))))))))))"

section \<open>A capture\<close>

definition read_cancel :: "'w snap_world_scheme \<Rightarrow> bool snap_act" where
  "read_cancel w = act_then (observe (sw_cancelled w)) (\<lambda>meanwhile. act_get (\<lambda>r. st_cancel (lb_store r) \<or> meanwhile))"

definition still_wanted :: "'w snap_world_scheme \<Rightarrow> rat \<Rightarrow> unit snap_act" where
  "still_wanted w deadline =
     act_then (read_cancel w) (\<lambda>cancelled.
     refuse_unless (\<not> cancelled) ''SNAPSHOT_CAPTURE_STOPPED'' (
     act_then (observe (sw_now w)) (\<lambda>now.
     act_require (now < deadline) (Coded ''SNAPSHOT_CAPTURE_TIMED_OUT''))))"

definition capture_health :: "'w snap_world_scheme \<Rightarrow> unit snap_act \<Rightarrow> rat \<Rightarrow> unit snap_act" where
  "capture_health w health deadline =
     act_then (still_wanted w deadline) (\<lambda>_.
     act_then health (\<lambda>_.
     act_then (still_wanted w deadline) (\<lambda>_.
     act_then (observe (sw_free w)) (\<lambda>free.
     act_then (still_wanted w deadline) (\<lambda>_.
     act_then (act_require (given_and (\<lambda>n. 0 \<le> n) free) (Coded ''SNAPSHOT_SPACE_PROBE_INVALID'')) (\<lambda>_.
     act_then (act_get (\<lambda>r. given_and (\<lambda>n. st_min_free (lb_store r) \<le> n) free)) (\<lambda>enough.
     act_require enough (Coded ''SNAPSHOT_DISK_HEADROOM_LOW''))))))))"

text \<open>The bytes of the database and of its write-ahead log, which is checked for links when it is there.\<close>

definition size_at :: "snapshot_store lab \<Rightarrow> path \<Rightarrow> int" where
  "size_at r p = (case file_at r p of None \<Rightarrow> 0 | Some s \<Rightarrow> int (length s))"

definition required_bytes :: "'w snap_world_scheme \<Rightarrow> path \<Rightarrow> int snap_act" where
  "required_bytes w database =
     (let wal = butlast database @ [last database @ ''-wal'']
      in act_then (act_get (\<lambda>r. size_at r database)) (\<lambda>required.
         act_then (act_get (\<lambda>r. present r wal)) (\<lambda>there.
         if there
         then act_then (checked_path w ''SNAPSHOT'' True wal) (\<lambda>_. act_get (\<lambda>r. required + size_at r wal))
         else act_return required)))"

text \<open>The copy grows while the backup reports; a report that fails ends it with its own error.\<close>

definition run_backup :: "'w snap_world_scheme \<Rightarrow> unit snap_act \<Rightarrow> path \<Rightarrow> unit snap_act" where
  "run_backup w bounded target =
     act_then (observe (sw_backup w)) (\<lambda>b.
     act_then (unlink w target) (\<lambda>_.
     act_then (create w target (bk_copy b)) (\<lambda>_.
     act_then (act_each (\<lambda>_. bounded) (replicate (bk_polls b) ())) (\<lambda>_.
     act_require (bk_done b) (Coded ''SNAPSHOT_SQLITE_BACKUP_FAILED'')))))"

definition validate_copy :: "'w snap_world_scheme \<Rightarrow> unit snap_act \<Rightarrow> path \<Rightarrow> string list \<Rightarrow> int snap_act" where
  "validate_copy w bounded target names =
     act_then (observe (sw_polls w)) (\<lambda>polls.
     act_then (act_each (\<lambda>_. bounded) (replicate polls ())) (\<lambda>_.
     act_then (read_bytes w target) (\<lambda>s.
     case sw_validate w s names of
       Inl e \<Rightarrow> act_then (act_require False e) (\<lambda>_. act_return 0)
     | Inr n \<Rightarrow>
         refuse_unless (given_and (\<lambda>k. 0 \<le> k) n) ''SNAPSHOT_VALIDATION_RESULT_INVALID''
           (act_return (case n of None \<Rightarrow> 0 | Some k \<Rightarrow> k)))))"

definition snapshot_items :: "snapshot \<Rightarrow> (string \<times> json) list" where
  "snapshot_items n =
     [(''schema_version'', JString ''1.0''), (''owner_id'', JString (sn_owner n)), (''directory'', JString (sn_directory n)),
      (''database_relative_path'', JString (sn_directory n @ ''/database.db'')),
      (''database_sha256'', JString (sn_database_sha256 n)), (''database_size_bytes'', JInt (int (sn_size n))),
      (''validated_complete_pair_records'', JInt (sn_pairs n)), (''image_count'', JInt (int (sn_image_count n))),
      (''created_at_utc'', JString (sn_created_at n)), (''reason'', JString (sn_reason n)),
      (''committed_wal_included'', JBool True), (''source_write_operations'', JBool False),
      (''sqlite_backup_completed'', JBool True), (''sqlite_integrity_and_mapping_validation'', JBool True),
      (''database_hash_checked_before_and_after_validation'', JBool True), (''sfm_completion_certified'', JBool False)]"

definition snapshot_manifest_json :: "snapshot \<Rightarrow> json" where
  "snapshot_manifest_json n = JObject (snapshot_items n)"

definition pointer_json :: "snapshot \<Rightarrow> json" where
  "pointer_json n = JObject (snapshot_items n @ [(''manifest_sha256'', JString (sn_manifest_sha256 n))])"

definition done_json :: "string \<Rightarrow> string \<Rightarrow> string \<Rightarrow> json" where
  "done_json owner manifest_sha database_sha =
     JObject [(''schema_version'', JString ''1.0''), (''owner_id'', JString owner),
       (''snapshot_manifest_sha256'', JString manifest_sha), (''database_sha256'', JString database_sha)]"

definition incomplete_json :: "string \<Rightarrow> string \<Rightarrow> json" where
  "incomplete_json owner reason =
     JObject [(''schema_version'', JString ''1.0''), (''owner_id'', JString owner), (''status'', JString ''not_verified''),
       (''reason'', JString reason)]"

definition snapshot_files :: "string list" where
  "snapshot_files = [''database.db'', ''snapshot-manifest.json'', ''DONE.json'']"

definition read_object :: "'w world_scheme \<Rightarrow> path \<Rightarrow> json snap_act" where
  "read_object w p =
     act_then (read_bytes w p) (\<lambda>s.
     case wd_loads w s of Some (JObject fs) \<Rightarrow> act_return (JObject fs)
     | _ \<Rightarrow> act_then (act_require False Uncoded) (\<lambda>_. act_return JNull))"

definition validate_owned :: "'w world_scheme \<Rightarrow> unit snap_act \<Rightarrow> snapshot \<Rightarrow> unit snap_act" where
  "validate_owned w health n =
     act_then (act_get (\<lambda>r. st_root (lb_store r) @ [sn_directory n])) (\<lambda>place.
     act_then (checked_path w ''SNAPSHOT'' True place) (\<lambda>_.
     act_then (io w (\<lambda>r. dir_at r place) (\<lambda>r. r)) (\<lambda>_.
     act_then (act_get (\<lambda>r. set (names_in r place) = set snapshot_files)) (\<lambda>three.
     refuse_unless three ''SNAPSHOT_RETENTION_INVENTORY_CHANGED'' (
     act_then (act_each (\<lambda>name.
       act_then (checked_path w ''SNAPSHOT'' True (place @ [name])) (\<lambda>_.
       act_then (act_get (\<lambda>r. file_at r (place @ [name]) \<noteq> None)) (\<lambda>there.
       act_require there (Coded ''SNAPSHOT_RETENTION_INVENTORY_CHANGED'')))) snapshot_files) (\<lambda>_.
     act_then (act_get (\<lambda>r. \<forall>name \<in> set (tl snapshot_files). case file_at r (place @ [name]) of None \<Rightarrow> True | Some s \<Rightarrow> length s \<le> chunk)) (\<lambda>small.
     refuse_unless small ''SNAPSHOT_RETENTION_METADATA_INVALID'' (
     act_then (read_object w (place @ [''snapshot-manifest.json''])) (\<lambda>manifest.
     act_then (read_object w (place @ [''DONE.json''])) (\<lambda>finished.
     act_then (act_get (st_owner \<circ> lb_store)) (\<lambda>owner.
     refuse_unless (json_field ''owner_id'' manifest = Some (JString owner) \<and> json_field ''owner_id'' finished = Some (JString owner) \<and>
         json_field ''directory'' manifest = Some (JString (sn_directory n)) \<and>
         json_field ''snapshot_manifest_sha256'' finished = Some (JString (sn_manifest_sha256 n)) \<and>
         json_field ''database_sha256'' finished = Some (JString (sn_database_sha256 n))) ''SNAPSHOT_RETENTION_OWNERSHIP_CHANGED'' (
     act_then (hash_file w ''SNAPSHOT'' health (place @ [''snapshot-manifest.json''])) (\<lambda>sha.
     refuse_unless (sha = sn_manifest_sha256 n) ''SNAPSHOT_RETENTION_OWNERSHIP_CHANGED'' (
     act_then (hash_file w ''SNAPSHOT'' health (place @ [''database.db''])) (\<lambda>sha.
     act_require (sha = sn_database_sha256 n) (Coded ''SNAPSHOT_RETENTION_OWNERSHIP_CHANGED''))))))))))))))))"

definition retain_one :: "'w world_scheme \<Rightarrow> unit snap_act \<Rightarrow> unit snap_act" where
  "retain_one w health =
     act_then (act_get (\<lambda>r. hd (st_owned (lb_store r)))) (\<lambda>n.
     act_then (validate_owned w health n) (\<lambda>_.
     act_then (act_get (\<lambda>r. st_root (lb_store r) @ [sn_directory n])) (\<lambda>place.
     act_then (act_each (\<lambda>name.
       act_then health (\<lambda>_.
       act_then (checked_path w ''SNAPSHOT'' True (place @ [name])) (\<lambda>_.
       unlink w (place @ [name])))) snapshot_files) (\<lambda>_.
     act_then (remove_dir w place) (\<lambda>_.
     act_store (\<lambda>s. s\<lparr>st_owned := tl (st_owned s), st_removed := Suc (st_removed s)\<rparr>))))))"

text \<open>Each round of the loop removes one of the owned snapshots, so their number bounds the rounds.\<close>

definition retain_two :: "'w world_scheme \<Rightarrow> unit snap_act \<Rightarrow> unit snap_act" where
  "retain_two w health =
     act_then (act_get (\<lambda>r. length (st_owned (lb_store r)) - 2)) (\<lambda>k.
     act_each (\<lambda>_. retain_one w health) (replicate k ()))"

text \<open>From the readings to the renamed directory: what is written is under the pending directory.\<close>

definition prepare_copy :: "'w snap_world_scheme \<Rightarrow> string \<Rightarrow> unit snap_act \<Rightarrow> string snap_act" where
  "prepare_copy w reason bounded =
     act_then (act_get lb_store) (\<lambda>s.
     act_then bounded (\<lambda>_.
     act_then (checked_path w ''SNAPSHOT'' True (st_root s)) (\<lambda>_.
     act_then (checked_path w ''SNAPSHOT'' True (st_database s)) (\<lambda>_.
     act_then (required_bytes w (st_database s)) (\<lambda>needed.
     act_then (observe (sw_free w)) (\<lambda>free.
     act_then bounded (\<lambda>_.
     refuse_unless (given_and (\<lambda>n. st_min_free s + needed \<le> n) free) ''SNAPSHOT_COPY_SPACE_INSUFFICIENT'' (
     act_then (observe (sw_token w)) (\<lambda>token.
     let pending = st_root s @ [''.pending-'' @ token]
     in act_then (make_dir w pending) (\<lambda>_.
        act_then (write_exclusive w (pending @ [''INCOMPLETE.json'']) (incomplete_json (st_owner s) reason)) (\<lambda>_.
        act_then (create w (pending @ [''database.db'']) []) (\<lambda>_.
        act_then (run_backup w bounded (pending @ [''database.db''])) (\<lambda>_.
        act_then bounded (\<lambda>_.
        act_return token))))))))))))))"

definition copy_record :: "'w snap_world_scheme \<Rightarrow> snapshot_store \<Rightarrow> string \<Rightarrow> string \<Rightarrow> path \<Rightarrow> string \<Rightarrow> int \<Rightarrow> snapshot snap_act" where
  "copy_record w s reason token target database_sha pairs =
     act_then (observe (sw_stamp w)) (\<lambda>stamp.
     act_then (observe (sw_iso w)) (\<lambda>created.
     act_then (act_get (\<lambda>r. length (case file_at r target of None \<Rightarrow> [] | Some x \<Rightarrow> x))) (\<lambda>n.
     let record = \<lparr>sn_owner = st_owner s, sn_directory = ''snapshot-'' @ stamp @ token, sn_database_sha256 = database_sha,
           sn_size = n, sn_pairs = pairs, sn_image_count = length (st_names s), sn_created_at = created,
           sn_reason = reason, sn_manifest_sha256 = []\<rparr>
     in act_return (record\<lparr>sn_manifest_sha256 := wd_sha w (wd_dumps w (snapshot_manifest_json record))\<rparr>))))"

definition describe_copy :: "'w snap_world_scheme \<Rightarrow> string \<Rightarrow> unit snap_act \<Rightarrow> string \<Rightarrow> snapshot snap_act" where
  "describe_copy w reason bounded token =
     act_then (act_get lb_store) (\<lambda>s.
     let target = st_root s @ [''.pending-'' @ token, ''database.db'']
     in act_then (hash_file w ''SNAPSHOT'' bounded target) (\<lambda>database_sha.
        act_then (validate_copy w bounded target (st_names s)) (\<lambda>pairs.
        act_then (hash_file w ''SNAPSHOT'' bounded target) (\<lambda>again.
        refuse_unless (again = database_sha) ''SNAPSHOT_DATABASE_HASH_CHANGED'' (
        refuse_unless (case st_latest s of None \<Rightarrow> True | Some previous \<Rightarrow> sn_pairs previous \<le> pairs) ''SNAPSHOT_PAIR_COUNT_REGRESSED'' (
        copy_record w s reason token target database_sha pairs))))))"

definition write_seals :: "'w snap_world_scheme \<Rightarrow> unit snap_act \<Rightarrow> string \<Rightarrow> snapshot \<Rightarrow> unit snap_act" where
  "write_seals w bounded token record =
     act_then (act_get lb_store) (\<lambda>s.
     let pending = st_root s @ [''.pending-'' @ token]
     in act_then (write_exclusive w (pending @ [''snapshot-manifest.json'']) (snapshot_manifest_json record)) (\<lambda>_.
        act_then (write_exclusive w (pending @ [''DONE.json''])
          (done_json (st_owner s) (sn_manifest_sha256 record) (sn_database_sha256 record))) (\<lambda>_.
        act_then bounded (\<lambda>_.
        act_then (hash_file w ''SNAPSHOT'' bounded (pending @ [''database.db''])) (\<lambda>again.
        refuse_unless (again = sn_database_sha256 record) ''SNAPSHOT_DATABASE_HASH_CHANGED'' (
        act_then (checked_path w ''SNAPSHOT'' True (pending @ [''INCOMPLETE.json''])) (\<lambda>_.
        act_then (unlink w (pending @ [''INCOMPLETE.json''])) (\<lambda>_. bounded))))))))"

definition complete_copy :: "'w snap_world_scheme \<Rightarrow> string \<Rightarrow> snapshot \<Rightarrow> unit snap_act" where
  "complete_copy w token record =
     act_then (act_get lb_store) (\<lambda>s.
     let pending = st_root s @ [''.pending-'' @ token]; completed = st_root s @ [sn_directory record]
     in act_then (checked_path w ''SNAPSHOT'' False completed) (\<lambda>_.
        act_then (act_get (\<lambda>r. present r completed)) (\<lambda>taken.
        refuse_unless (\<not> taken) ''SNAPSHOT_PUBLISH_TARGET_EXISTS'' (
        rename_dir w pending completed))))"

definition replace_pointer :: "'w snap_world_scheme \<Rightarrow> path \<Rightarrow> path \<Rightarrow> string \<Rightarrow> snapshot \<Rightarrow> unit snap_act" where
  "replace_pointer w staged pointer pointer_sha record =
     act_then (replace_file w staged pointer) (\<lambda>_.
     act_then (observe (sw_now w)) (\<lambda>now.
     act_store (\<lambda>s. s\<lparr>st_pointer_sha := Some pointer_sha, st_latest := Some record, st_owned := st_owned s @ [record],
       st_last_success_at := Some now, st_successful := Suc (st_successful s)\<rparr>)))"

definition publish_copy :: "'w snap_world_scheme \<Rightarrow> unit snap_act \<Rightarrow> string \<Rightarrow> snapshot \<Rightarrow> unit snap_act" where
  "publish_copy w bounded token record =
     act_then (act_get lb_store) (\<lambda>s.
     let pointer = st_root s @ [''latest-valid.json'']; staged = st_root s @ [''.pointer-'' @ token @ ''.json'']
     in act_then (validate_owned w bounded record) (\<lambda>_.
        act_then (checked_path w ''SNAPSHOT'' False pointer) (\<lambda>_.
        act_then (act_get (\<lambda>r. present r pointer)) (\<lambda>there.
        act_then (if there then
            act_then (if st_pointer_sha s = None then act_return []
              else hash_file w ''SNAPSHOT'' bounded pointer) (\<lambda>sha.
            act_require (st_pointer_sha s = Some sha) (Coded ''SNAPSHOT_POINTER_OWNERSHIP_CHANGED''))
          else act_require (st_pointer_sha s = None) (Coded ''SNAPSHOT_POINTER_MISSING'')) (\<lambda>_.
        act_then (write_exclusive w staged (pointer_json record)) (\<lambda>pointer_sha.
        act_then bounded (\<lambda>_.
        replace_pointer w staged pointer pointer_sha record)))))))"

definition capture :: "'w snap_world_scheme \<Rightarrow> string \<Rightarrow> unit snap_act \<Rightarrow> snapshot snap_act" where
  "capture w reason health =
     act_then (observe (sw_now w)) (\<lambda>started.
     act_then (act_get (st_timeout \<circ> lb_store)) (\<lambda>timeout.
     let bounded = capture_health w health (double_of (started + timeout))
     in act_then (act_store (\<lambda>s. s\<lparr>st_active_at := Some started, st_attempts := Suc (st_attempts s)\<rparr>)) (\<lambda>_.
        act_then (prepare_copy w reason bounded) (\<lambda>token.
        act_then (describe_copy w reason bounded token) (\<lambda>record.
        act_then (write_seals w bounded token record) (\<lambda>_.
        act_then (complete_copy w token record) (\<lambda>_.
        act_then (publish_copy w bounded token record) (\<lambda>_.
        act_then (retain_two w bounded) (\<lambda>_.
        act_return record)))))))))"

section \<open>The worker and its caller\<close>

definition set_error :: "string \<Rightarrow> snapshot_store \<Rightarrow> snapshot_store" where
  "set_error code s = s\<lparr>st_error := (if st_error s = None then Some code else st_error s)\<rparr>"

definition start_store :: "'w snap_world_scheme \<Rightarrow> unit snap_act" where
  "start_store w =
     act_then (act_get (st_state \<circ> lb_store)) (\<lambda>state.
     refuse_unless (state = Prepared) ''SNAPSHOT_STORE_ALREADY_STARTED_OR_STOPPED'' (
     act_then (observe (sw_now w)) (\<lambda>now.
     act_store (\<lambda>s. s\<lparr>st_state := Running_Worker, st_started_at := Some now, st_thread := Thread_Alive\<rparr>))))"

text \<open>
  One turn of \<open>_loop\<close>: the interval passes, and either the cancellation was seen or a capture is made; an error ends
  the thread. A capture that was stopped on request is no error.
\<close>

definition worker_turn :: "'w snap_world_scheme \<Rightarrow> snapshot_store lab \<Rightarrow> snapshot_store lab" where
  "worker_turn w r =
     (let leave = (\<lambda>s. s\<lparr>st_state := if st_cancel s then Stopped else Failed, st_thread := Thread_Ended\<rparr>)
      in case read_cancel w r of
           (Inr False, r) \<Rightarrow>
             (case capture w ''periodic'' (health_of_world w) r of
                (Inr _, r) \<Rightarrow> r\<lparr>lb_store := (lb_store r)\<lparr>st_active_at := None\<rparr>\<rparr>
              | (Inl e, r) \<Rightarrow>
                  (case read_cancel w (r\<lparr>lb_store := (lb_store r)\<lparr>st_active_at := None\<rparr>\<rparr>) of
                     (cancelled, r) \<Rightarrow>
                       if cancelled = Inr True \<and> e = Coded ''SNAPSHOT_CAPTURE_STOPPED''
                       then r\<lparr>lb_store := leave ((lb_store r)\<lparr>st_cancel := True\<rparr>)\<rparr>
                       else r\<lparr>lb_store := leave (set_error (error_code e ''SNAPSHOT_CAPTURE_FAILED'')
                         ((lb_store r)\<lparr>st_cancel := (cancelled = Inr True)\<rparr>))\<rparr>))
         | (_, r) \<Rightarrow> r\<lparr>lb_store := leave ((lb_store r)\<lparr>st_cancel := True\<rparr>)\<rparr>)"

definition check_health :: "'w snap_world_scheme \<Rightarrow> unit snap_act" where
  "check_health w =
     act_then (act_get lb_store) (\<lambda>s.
     act_then (observe (sw_now w)) (\<lambda>now.
     act_then (act_require (st_error s = None) (Coded (case st_error s of None \<Rightarrow> [] | Some e \<Rightarrow> e))) (\<lambda>_.
     refuse_unless (st_state s = Running_Worker \<and> st_thread s = Thread_Alive) ''SNAPSHOT_SUPERVISOR_NOT_RUNNING'' (
     let trip = (\<lambda>code. act_then (act_store (\<lambda>s. (set_error code s)\<lparr>st_cancel := True\<rparr>)) (\<lambda>_. act_require False (Coded code)))
     in if given_and (\<lambda>active. st_timeout s \<le> double_of (now - active)) (st_active_at s)
        then trip ''SNAPSHOT_CAPTURE_TIMED_OUT''
        else if given_and (\<lambda>started. double_of (st_interval s + st_timeout s) <
            double_of (now - (case st_last_success_at s of None \<Rightarrow> started | Some success \<Rightarrow> success))) (st_started_at s)
        then trip ''SNAPSHOT_FRESHNESS_EXCEEDED''
        else act_return ()))))"

text \<open>\<open>ended\<close>: the thread ended within the time that the caller waits for it.\<close>

definition stop_store :: "json \<Rightarrow> bool \<Rightarrow> bool snap_act" where
  "stop_store timeout ended =
     refuse_unless (case timeout of JInt n \<Rightarrow> 0 \<le> n \<and> n \<le> 5 | JFloat (Finite q) \<Rightarrow> 0 \<le> q \<and> q \<le> 5 | _ \<Rightarrow> False)
       ''SNAPSHOT_STOP_BUDGET_INVALID'' (
     act_then (act_store (\<lambda>s. s\<lparr>st_cancel := True, st_state := if st_state s = Prepared then Stopped else st_state s,
       st_thread := if st_thread s = Thread_Alive \<and> ended then Thread_Ended else st_thread s\<rparr>)) (\<lambda>_.
     act_then (act_get (\<lambda>r. st_thread (lb_store r) \<noteq> Thread_Alive)) (\<lambda>stopped.
     act_then (act_store (\<lambda>s. if stopped then s else set_error ''SNAPSHOT_STOP_UNCONFIRMED'' s)) (\<lambda>_.
     act_return stopped))))"

definition reason_ok :: "string \<Rightarrow> bool" where
  "reason_ok reason \<longleftrightarrow> fullmatch (\<lambda>c. is_lower c \<or> is_digit c \<or> c = CHR ''_'' \<or> c = CHR ''-'') (\<lambda>c. is_lower c \<or> is_digit c \<or> c = CHR ''_'' \<or> c = CHR ''-'') 0 63 reason"

text \<open>\<open>timely\<close>: the capture finished while the caller waited; a late one goes on, which its own readings end.\<close>

definition capture_final :: "'w snap_world_scheme \<Rightarrow> bool \<Rightarrow> string \<Rightarrow> bool \<Rightarrow> snapshot snap_act" where
  "capture_final w tree_stopped reason timely =
     refuse_unless tree_stopped ''SNAPSHOT_FINAL_TREE_NOT_STOPPED'' (
     refuse_unless (reason_ok reason) ''SNAPSHOT_REASON_INVALID'' (
     act_then (act_get (\<lambda>r. st_state (lb_store r) \<in> {Prepared, Stopped, Failed} \<and> st_thread (lb_store r) \<noteq> Thread_Alive)) (\<lambda>idle.
     refuse_unless idle ''SNAPSHOT_FINAL_WORKER_NOT_STOPPED'' (
     act_then (act_store (\<lambda>s. s\<lparr>st_state := Final_Capture, st_cancel := False, st_thread := Thread_Alive\<rparr>)) (\<lambda>_ r.
     let (result, r) = capture w reason (health_of_world w) r;
         r = r\<lparr>lb_store := (lb_store r)\<lparr>st_active_at := None, st_state := Stopped, st_cancel := True,
               st_thread := if timely then Thread_Ended else Thread_Alive\<rparr>\<rparr>
     in if \<not> timely then (Inl (Coded ''SNAPSHOT_FINAL_CAPTURE_TIMED_OUT''),
            r\<lparr>lb_store := set_error ''SNAPSHOT_FINAL_CAPTURE_TIMED_OUT'' (lb_store r)\<rparr>)
        else (case result of Inr n \<Rightarrow> (Inr n, r)
          | Inl e \<Rightarrow>
              let code = error_code e ''SNAPSHOT_FINAL_CAPTURE_FAILED''
              in (Inl (Coded code), r\<lparr>lb_store := set_error code (lb_store r)\<rparr>)))))))"

definition state_name :: "store_state \<Rightarrow> string" where
  "state_name t =
     (case t of Prepared \<Rightarrow> ''prepared'' | Running_Worker \<Rightarrow> ''running'' | Stopped \<Rightarrow> ''stopped'' | Failed \<Rightarrow> ''failed''
      | Final_Capture \<Rightarrow> ''final_capture'')"

definition store_summary :: "snapshot_store \<Rightarrow> json" where
  "store_summary s =
     JObject [(''state'', JString (state_name (st_state s))),
       (''error_code'', case st_error s of None \<Rightarrow> JNull | Some e \<Rightarrow> JString e),
       (''attempts'', JInt (int (st_attempts s))), (''successful_snapshots'', JInt (int (st_successful s))),
       (''retention_removed_snapshots'', JInt (int (st_removed s))), (''retained_valid_snapshots'', JInt (int (length (st_owned s)))),
       (''latest_valid'', case st_latest s of None \<Rightarrow> JNull | Some n \<Rightarrow> pointer_json n),
       (''active_capture'', JBool (st_active_at s \<noteq> None)), (''worker_stopped_confirmed'', JBool (st_thread s \<noteq> Thread_Alive)),
       (''interval_seconds'', JFloat (Finite (st_interval s))), (''timeout_seconds'', JFloat (Finite (st_timeout s))),
       (''minimum_disk_free_bytes'', JInt (st_min_free s)), (''source_write_operations'', JBool False),
       (''incomplete_snapshots_are_recoverable'', JBool False)]"

end
