(* ===== verification/Snapshot_Theorems.thy ===== *)
theory Snapshot_Theorems
  imports Snapshot_Store
begin

text \<open>
  The snapshot that the pointer names can be recovered, whatever failed: the files of the store at every moment
  are those after a capture that stopped at some operation, and all of them satisfy the invariant \<open>store_ok\<close>.
\<close>

section \<open>Captures read without changing\<close>

abbreviation everything :: "path \<Rightarrow> bool" where
  "everything \<equiv> (\<lambda>_. True)"

abbreviation any_store :: "snapshot_store \<Rightarrow> bool" where
  "any_store \<equiv> (\<lambda>_. True)"

lemma spares_refuse [spare_intros]: "spares P S m \<Longrightarrow> spares P S (refuse_unless b code m)"
  unfolding refuse_unless_def by (intro spare_intros)

lemma spares_if [spare_intros]: "spares P S m \<Longrightarrow> spares P S m' \<Longrightarrow> spares P S (if b then m else m')"
  by simp

lemma spares_health [spare_intros]: "spares P S (health_of_world w)"
  unfolding health_of_world_def by (intro spare_intros; simp split: option.split; intro conjI allI impI spare_intros)

lemma spares_wanted [spare_intros]: "spares P S (still_wanted w deadline)"
  unfolding still_wanted_def read_cancel_def by (intro spare_intros)

lemma spares_capture_health [spare_intros]: "spares P S health \<Longrightarrow> spares P S (capture_health w health deadline)"
  unfolding capture_health_def by (intro spare_intros)

lemma spares_write [spare_intros]: "\<not> S p \<Longrightarrow> spares P S (write_exclusive w p v)"
  unfolding write_exclusive_def by (intro spare_intros)

lemma spares_backup [spare_intros]: "spares P S bounded \<Longrightarrow> \<not> S target \<Longrightarrow> spares P S (run_backup w bounded target)"
  unfolding run_backup_def by (intro spare_intros)

lemma spares_required [spare_intros]: "spares P S (required_bytes w database)"
  unfolding required_bytes_def Let_def by (intro spare_intros)

lemma spares_object [spare_intros]: "spares P S (read_object w p)"
  unfolding read_object_def
  by (intro spare_intros) (auto split: option.split json.split intro: spare_intros)

lemma spares_validate_copy [spare_intros]: "spares P S bounded \<Longrightarrow> spares P S (validate_copy w bounded target names)"
  unfolding validate_copy_def
  by (intro spare_intros) (auto split: sum.split intro!: spare_intros)

lemma spares_validate_owned [spare_intros]: "spares P S health \<Longrightarrow> spares P S (validate_owned w health n)"
  unfolding validate_owned_def by (intro spare_intros spares_io) simp_all

section \<open>The invariant\<close>

abbreviation place_of :: "snapshot_store \<Rightarrow> snapshot \<Rightarrow> path" where
  "place_of s n \<equiv> st_root s @ [sn_directory n]"

abbreviation pointer_of :: "snapshot_store \<Rightarrow> path" where
  "pointer_of s \<equiv> st_root s @ [''latest-valid.json'']"

text \<open>
  A snapshot is recoverable: its directory has exactly the three files, the manifest describes it, and the
  database has the hash of one that the validator accepted with this number of pairs.
\<close>

definition recoverable :: "'w snap_world_scheme \<Rightarrow> snapshot_store lab \<Rightarrow> snapshot \<Rightarrow> bool" where
  "recoverable w r n \<longleftrightarrow>
     (let place = place_of (lb_store r) n
      in dir_at r place \<and> (\<forall>x. present r (place @ [x]) \<longleftrightarrow> x \<in> set snapshot_files) \<and>
         (\<exists>m. file_at r (place @ [''snapshot-manifest.json'']) = Some m \<and> wd_sha w m = wd_sha w (wd_dumps w (snapshot_manifest_json n))) \<and>
         (\<exists>d c. file_at r (place @ [''database.db'']) = Some d \<and> wd_sha w d = sn_database_sha256 n \<and>
           wd_sha w c = sn_database_sha256 n \<and> sw_validate w c (st_names (lb_store r)) = Inr (Some (sn_pairs n))))"

definition snapshot_name :: "string \<Rightarrow> bool" where
  "snapshot_name x \<longleftrightarrow> take 9 x = ''snapshot-''"

definition last_two :: "'a list \<Rightarrow> 'a list" where
  "last_two xs = drop (length xs - 2) xs"

definition store_ok :: "'w snap_world_scheme \<Rightarrow> path \<times> int option \<Rightarrow> snapshot_store lab \<Rightarrow> bool" where
  "store_ok w reached r \<longleftrightarrow>
     (let s = lb_store r in
      st_latest s = (if st_owned s = [] then None else Some (last (st_owned s))) \<and>
      file_at r (pointer_of s) = map_option (\<lambda>n. wd_dumps w (pointer_json n)) (st_latest s) \<and>
      distinct (map sn_directory (st_owned s)) \<and>
      (\<forall>n \<in> set (st_owned s). dir_at r (place_of s n) \<and> snapshot_name (sn_directory n)) \<and>
      (\<forall>n \<in> set (last_two (st_owned s)). recoverable w r n) \<and>
      sorted (map sn_pairs (st_owned s)) \<and>
      st_successful s = st_removed s + length (st_owned s) \<and>
      st_root s = fst reached \<and> (\<forall>k. snd reached = Some k \<longrightarrow> (\<exists>n. st_latest s = Some n \<and> k \<le> sn_pairs n)))"

text \<open>The paths that the invariant looks at.\<close>

definition guarded :: "snapshot_store \<Rightarrow> path \<Rightarrow> bool" where
  "guarded s p \<longleftrightarrow> p = pointer_of s \<or> (\<exists>n \<in> set (st_owned s). p = place_of s n) \<or>
     (\<exists>n \<in> set (last_two (st_owned s)). \<exists>x. p = place_of s n @ [x])"

lemma last_two_subset: "set (last_two xs) \<subseteq> set xs"
  unfolding last_two_def by (rule set_drop_subset)

lemma store_ok_same:
  assumes ok: "store_ok w reached r" and same: "same_on S r r'" and S: "\<And>p. guarded (lb_store r) p \<Longrightarrow> S p"
  shows "store_ok w reached r'"
proof -
  have store: "lb_store r' = lb_store r" using same by (simp add: same_on_def)
  have at: "file_at r' p = file_at r p" "dir_at r' p = dir_at r p" if "guarded (lb_store r) p" for p
    using same S [OF that] by (simp_all add: same_on_def)
  have "recoverable w r' n = recoverable w r n" if n: "n \<in> set (last_two (st_owned (lb_store r)))" for n
  proof -
    have own: "n \<in> set (st_owned (lb_store r))" using n by (rule subsetD [OF last_two_subset])
    have "guarded (lb_store r) (place_of (lb_store r) n @ [x])" for x unfolding guarded_def using n by blast
    then have "file_at r' (place_of (lb_store r) n @ [x]) = file_at r (place_of (lb_store r) n @ [x])"
      "present r' (place_of (lb_store r) n @ [x]) = present r (place_of (lb_store r) n @ [x])" for x using at by (simp_all add: present_def)
    moreover have "dir_at r' (place_of (lb_store r) n) = dir_at r (place_of (lb_store r) n)"
      by (rule at(2)) (use own in \<open>unfold guarded_def, blast\<close>)
    ultimately show ?thesis unfolding recoverable_def store Let_def by simp
  qed
  then have rec: "(\<forall>n \<in> set (last_two (st_owned (lb_store r))). recoverable w r' n) = (\<forall>n \<in> set (last_two (st_owned (lb_store r))). recoverable w r n)"
    by (intro ball_cong refl)
  have pointer: "file_at r' (pointer_of (lb_store r)) = file_at r (pointer_of (lb_store r))" by (rule at) (unfold guarded_def, blast)
  have "dir_at r' (place_of (lb_store r) n) = dir_at r (place_of (lb_store r) n)" if "n \<in> set (st_owned (lb_store r))" for n
    by (rule at) (use that in \<open>unfold guarded_def, blast\<close>)
  then have dirs: "(\<forall>n \<in> set (st_owned (lb_store r)). dir_at r' (place_of (lb_store r) n) \<and> snapshot_name (sn_directory n)) =
      (\<forall>n \<in> set (st_owned (lb_store r)). dir_at r (place_of (lb_store r) n) \<and> snapshot_name (sn_directory n))"
    by (intro ball_cong refl) simp
  show ?thesis using ok unfolding store_ok_def store Let_def rec pointer dirs .
qed

text \<open>Pending directories and staged pointers are not looked at.\<close>

definition unguarded_name :: "string \<Rightarrow> bool" where
  "unguarded_name x \<longleftrightarrow> \<not> snapshot_name x \<and> x \<noteq> ''latest-valid.json''"

definition named :: "snapshot_store \<Rightarrow> bool" where
  "named s \<longleftrightarrow> (\<forall>n \<in> set (st_owned s). snapshot_name (sn_directory n))"

lemma unguarded:
  assumes s: "named s" and x: "unguarded_name x" shows "\<not> guarded s (st_root s @ x # xs)"
proof
  assume "guarded s (st_root s @ x # xs)"
  then consider "st_root s @ x # xs = pointer_of s" | n where "n \<in> set (st_owned s)" "st_root s @ x # xs = place_of s n"
    | n y where "n \<in> set (last_two (st_owned s))" "st_root s @ x # xs = place_of s n @ [y]"
    unfolding guarded_def by blast
  then show False
  proof cases
    case (3 n y)
    then show ?thesis using x s subsetD [OF last_two_subset 3(1)] by (simp add: unguarded_name_def named_def)
  qed (use x s in \<open>simp_all add: unguarded_name_def named_def\<close>)
qed

lemma store_ok_named: "store_ok w reached r \<Longrightarrow> named (lb_store r)"
  unfolding store_ok_def Let_def named_def by blast

lemma pending_unguarded: "unguarded_name (''.pending-'' @ token)" "unguarded_name (''.pointer-'' @ token @ ''.json'')"
  by (auto simp: unguarded_name_def snapshot_name_def)

section \<open>The phases of a capture\<close>

text \<open>Between two changes of the store.\<close>

definition holding :: "'w snap_world_scheme \<Rightarrow> path \<times> int option \<Rightarrow> snapshot_store \<Rightarrow> snapshot_store lab \<Rightarrow> bool" where
  "holding w reached s r \<longleftrightarrow> store_ok w reached r \<and> lb_store r = s"

lemma holding_same:
  assumes "holding w reached s r" "same_on S r r'" "\<And>p. guarded s p \<Longrightarrow> S p"
  shows "holding w reached s r'"
  using assms store_ok_same unfolding holding_def by (metis same_on_def)

lemma holding_stable: "stable (holding w reached s)"
  unfolding stable_def by (blast intro: holding_same)

lemma triple_holding:
  assumes "named s \<Longrightarrow> spares (\<lambda>x. x = s) (guarded s) m"
  shows "triple (holding w reached s) m (\<lambda>_. holding w reached s) (holding w reached s)"
proof (cases "named s")
  case True
  show ?thesis
  proof (rule triple_spares [OF assms [OF True]])
    show "lb_store r = s" if "holding w reached s r" for r using that by (simp add: holding_def)
    show "holding w reached s r'" if "holding w reached s r" "same_on (guarded s) r r'" for r r' by (rule holding_same [OF that])
  qed
next
  case False
  then have "\<not> holding w reached s r" for r using store_ok_named [of w reached r] unfolding holding_def by blast
  then show ?thesis by (simp add: triple_def)
qed

lemma prepare_holding:
  assumes "spares any_store everything bounded"
  shows "triple (holding w reached s) (prepare_copy w reason bounded) (\<lambda>_. holding w reached s) (holding w reached s)"
proof (rule triple_holding)
  assume s: "named s"
  have b: "spares (\<lambda>x. x = s) (guarded s) bounded" using assms unfolding spares_def by (blast intro: same_on_subset)
  have free: "\<not> guarded s (st_root s @ (''.pending-'' @ token) # xs)" for token xs by (rule unguarded [OF s pending_unguarded(1)])
  have free1: "\<not> guarded s (st_root s @ [''.pending-'' @ token])" for token by (rule free)
  have free2: "\<not> guarded s ((st_root s @ [''.pending-'' @ token]) @ [x])" for token x using free [of token "[x]"] by simp
  show "spares (\<lambda>x. x = s) (guarded s) (prepare_copy w reason bounded)"
    unfolding prepare_copy_def Let_def
    by (rule spares_get_store, intro spare_intros b free1 free2)
qed

definition described :: "'w snap_world_scheme \<Rightarrow> snapshot_store \<Rightarrow> snapshot \<Rightarrow> bool" where
  "described w s n \<longleftrightarrow> snapshot_name (sn_directory n) \<and> sn_manifest_sha256 n = wd_sha w (wd_dumps w (snapshot_manifest_json n)) \<and>
     (\<exists>c. wd_sha w c = sn_database_sha256 n \<and> sw_validate w c (st_names s) = Inr (Some (sn_pairs n))) \<and>
     (\<forall>m. st_latest s = Some m \<longrightarrow> sn_pairs m \<le> sn_pairs n)"

lemma triple_refuse: "(\<And>r. P r \<Longrightarrow> E r) \<Longrightarrow> (b \<Longrightarrow> triple P m Q E) \<Longrightarrow> triple P (refuse_unless b code m) Q E"
  by (auto simp: refuse_unless_def triple_def act_then_def act_require_def)

lemma triple_get_then: "(\<And>r. P r \<Longrightarrow> f r = x) \<Longrightarrow> triple P (g x) Q E \<Longrightarrow> triple P (act_then (act_get f) g) Q E"
  by (simp add: triple_def act_then_def act_get_def)

lemma triple_error: "triple A m Q A \<Longrightarrow> (\<And>r. A r \<Longrightarrow> E r) \<Longrightarrow> triple A m Q E"
  by (rule triple_weaken)

lemma triple_validate_copy:
  assumes A: "stable A" and bounded: "spares any_store everything bounded"
  shows "triple A (validate_copy w bounded p names) (\<lambda>n r. A r \<and> (\<exists>c. file_at r p = Some c \<and> sw_validate w c names = Inr (Some n))) A"
  unfolding validate_copy_def
proof (rule triple_then [where R = "\<lambda>_. A"], goal_cases)
  case 1 show ?case by (intro triple_calm spare_intros A)
next
  case (2 polls)
  show ?case
  proof (rule triple_then [where R = "\<lambda>_. A"], goal_cases)
    case 1 show ?case by (intro triple_calm spares_each bounded A)
  next
    case (2 u)
    show ?case
      by (rule triple_then [OF triple_read [OF A]])
        (auto simp: triple_def act_then_def act_require_def act_return_def refuse_unless_def given_and_def split: sum.split option.splits)
  qed
qed

lemma copy_record_described:
  assumes A: "stable A" and "wd_sha w c = database_sha" "sw_validate w c (st_names s) = Inr (Some pairs)"
    "\<forall>m. st_latest s = Some m \<longrightarrow> sn_pairs m \<le> pairs"
  shows "triple A (copy_record w s reason token target database_sha pairs) (\<lambda>n r. A r \<and> described w s n) A"
proof -
  have ticks: "A (r\<lparr>lb_ticks := n\<rparr>)" if "A r" for r n using A that same_on_ticks unfolding stable_def by blast
  show ?thesis
    unfolding triple_def copy_record_def act_then_def observe_def act_get_def act_return_def Let_def
    using ticks assms(2-4)
    by (auto simp: described_def snapshot_name_def snapshot_manifest_json_def snapshot_items_def)
qed

lemma describe_holding:
  assumes b: "spares any_store everything bounded"
  shows "triple (holding w reached s) (describe_copy w reason bounded token) (\<lambda>n r. holding w reached s r \<and> described w s n) (holding w reached s)"
  unfolding describe_copy_def
proof (rule triple_get_then [where x = s])
  let ?A = "holding w reached s" and ?t = "st_root s @ [''.pending-'' @ token, ''database.db'']"
  show "lb_store r = s" if "?A r" for r using that by (simp add: holding_def)
  let ?B = "\<lambda>n r. ?A r \<and> (\<exists>c. file_at r ?t = Some c \<and> sw_validate w c (st_names s) = Inr (Some n))"
  have B: "stable (?B n)" for n by (intro stable_conj holding_stable stable_simple)
  show "triple ?A (let target = ?t
     in act_then (hash_file w ''SNAPSHOT'' bounded target) (\<lambda>database_sha.
        act_then (validate_copy w bounded target (st_names s)) (\<lambda>pairs.
        act_then (hash_file w ''SNAPSHOT'' bounded target) (\<lambda>again.
        refuse_unless (again = database_sha) ''SNAPSHOT_DATABASE_HASH_CHANGED'' (
        refuse_unless (case st_latest s of None \<Rightarrow> True | Some previous \<Rightarrow> sn_pairs previous \<le> pairs) ''SNAPSHOT_PAIR_COUNT_REGRESSED'' (
        copy_record w s reason token target database_sha pairs))))))
     (\<lambda>n r. ?A r \<and> described w s n) ?A"
    unfolding Let_def
  proof (rule triple_then [where R = "\<lambda>_. ?A"], goal_cases)
    case 1 show ?case by (intro triple_calm spare_intros b holding_stable)
  next
    case (2 database_sha)
    show ?case
    proof (rule triple_then [OF triple_validate_copy [OF holding_stable b]], goal_cases)
      case (1 pairs)
      have "triple (?B pairs) (hash_file w ''SNAPSHOT'' bounded ?t) (\<lambda>sha r. ?B pairs r \<and> (\<exists>c. file_at r ?t = Some c \<and> sha = wd_sha w c)) ?A"
        by (rule triple_weaken [OF triple_hash [OF B b]]) auto
      then show ?case
      proof (rule triple_then, goal_cases)
        case (1 again)
        show ?case
        proof (cases "\<exists>c. wd_sha w c = again \<and> sw_validate w c (st_names s) = Inr (Some pairs)")
          case True
          then obtain c where c: "wd_sha w c = again" "sw_validate w c (st_names s) = Inr (Some pairs)" by blast
          show ?thesis
          proof (rule triple_refuse [OF _ triple_refuse])
            assume 3: "again = database_sha" "case st_latest s of None \<Rightarrow> True | Some previous \<Rightarrow> sn_pairs previous \<le> pairs"
            have "triple ?A (copy_record w s reason token ?t database_sha pairs) (\<lambda>n r. ?A r \<and> described w s n) ?A"
              by (rule copy_record_described [OF holding_stable, of w c]) (use c 3 in \<open>auto split: option.splits\<close>)
            then show "triple (\<lambda>r. ?B pairs r \<and> (\<exists>c. file_at r ?t = Some c \<and> again = wd_sha w c))
                (copy_record w s reason token ?t database_sha pairs) (\<lambda>n r. ?A r \<and> described w s n) ?A"
              by (rule triple_weaken) auto
          qed auto
        next
          case False
          then show ?thesis by (auto simp: triple_def)
        qed
      qed
    qed
  qed
qed

lemma any_store_spares: "spares any_store everything m \<Longrightarrow> spares P S m"
  unfolding spares_def by (blast intro: same_on_subset)

lemma seals_holding:
  assumes "spares any_store everything bounded"
  shows "triple (holding w reached s) (write_seals w bounded token n) (\<lambda>_. holding w reached s) (holding w reached s)"
proof (rule triple_holding)
  assume s: "named s"
  have free: "\<not> guarded s ((st_root s @ [''.pending-'' @ token]) @ [x])" for x
    using unguarded [OF s pending_unguarded(1), of token "[x]"] by simp
  show "spares (\<lambda>x. x = s) (guarded s) (write_seals w bounded token n)"
    unfolding write_seals_def Let_def
    by (rule spares_get_store, intro spare_intros any_store_spares [OF assms] free)
qed

text \<open>A new name is not that of an owned snapshot.\<close>

definition new_name :: "snapshot_store \<Rightarrow> snapshot \<Rightarrow> bool" where
  "new_name s n \<longleftrightarrow> snapshot_name (sn_directory n) \<and> sn_directory n \<notin> sn_directory ` set (st_owned s)"

lemma new_unguarded:
  assumes "new_name s n" shows "\<not> guarded s (place_of s n @ xs)"
proof
  assume "guarded s (place_of s n @ xs)"
  then consider "place_of s n @ xs = pointer_of s" | m where "m \<in> set (st_owned s)" "place_of s n @ xs = place_of s m"
    | m y where "m \<in> set (last_two (st_owned s))" "place_of s n @ xs = place_of s m @ [y]"
    unfolding guarded_def by blast
  then show False
  proof cases
    case (3 m y)
    then show ?thesis using assms subsetD [OF last_two_subset 3(1)] by (auto simp: new_name_def)
  qed (use assms in \<open>auto simp: new_name_def snapshot_name_def\<close>)
qed

lemma complete_holding:
  assumes "described w s n"
  shows "triple (holding w reached s) (complete_copy w token n) (\<lambda>_ r. holding w reached s r \<and> new_name s n) (holding w reached s)"
  unfolding complete_copy_def Let_def
proof (rule triple_get_then [where x = s])
  let ?A = "holding w reached s"
  show "lb_store r = s" if "?A r" for r using that by (simp add: holding_def)
  have rename: "triple ?A (rename_dir w (st_root s @ [''.pending-'' @ token]) (place_of s n)) (\<lambda>_ r. ?A r \<and> new_name s n) ?A" if new: "new_name s n"
  proof -
    have "triple ?A (rename_dir w (st_root s @ [''.pending-'' @ token]) (place_of s n)) (\<lambda>_. ?A) ?A"
    proof (rule triple_holding)
      assume s: "named s"
      show "spares (\<lambda>x. x = s) (guarded s) (rename_dir w (st_root s @ [''.pending-'' @ token]) (place_of s n))"
      proof (rule spares_rename)
        fix p assume p: "guarded s p"
        show "\<not> prefix (st_root s @ [''.pending-'' @ token]) p \<and> \<not> prefix (place_of s n) p"
          using p unguarded [OF s pending_unguarded(1)] new_unguarded [OF new] by (auto simp: prefix_def)
      qed
    qed
    then show ?thesis by (rule triple_weaken) (use new in auto)
  qed
  show "triple ?A (act_then (checked_path w ''SNAPSHOT'' False (place_of s n)) (\<lambda>_.
      act_then (act_get (\<lambda>r. present r (place_of s n))) (\<lambda>taken.
      refuse_unless (\<not> taken) ''SNAPSHOT_PUBLISH_TARGET_EXISTS'' (
      rename_dir w (st_root s @ [''.pending-'' @ token]) (place_of s n))))) (\<lambda>_ r. ?A r \<and> new_name s n) ?A"
  proof (rule triple_then [where R = "\<lambda>_. ?A"], goal_cases)
    case 1 show ?case by (intro triple_calm spare_intros holding_stable)
  next
    case (2 u)
    show ?case
    proof (rule triple_then [OF triple_get])
      fix taken
      show "triple (\<lambda>r. ?A r \<and> taken = present r (place_of s n))
          (refuse_unless (\<not> taken) ''SNAPSHOT_PUBLISH_TARGET_EXISTS'' (rename_dir w (st_root s @ [''.pending-'' @ token]) (place_of s n)))
          (\<lambda>_ r. ?A r \<and> new_name s n) ?A"
      proof (cases "new_name s n")
        case True
        have "triple ?A (refuse_unless (\<not> taken) ''SNAPSHOT_PUBLISH_TARGET_EXISTS'' (rename_dir w (st_root s @ [''.pending-'' @ token]) (place_of s n)))
            (\<lambda>_ r. ?A r \<and> new_name s n) ?A" by (intro triple_refuse rename True)
        then show ?thesis by (rule triple_weaken) auto
      next
        case False
        have "present r (place_of s n)" if "?A r" for r
        proof -
          obtain m where "m \<in> set (st_owned s)" "sn_directory m = sn_directory n" using False assms by (auto simp: new_name_def described_def)
          then show ?thesis using that unfolding holding_def store_ok_def Let_def present_def by metis
        qed
        then show ?thesis by (auto simp: triple_def refuse_unless_def act_then_def act_require_def)
      qed
    qed
  qed
qed

lemma triple_drop:
  assumes "spares any_store everything m" "stable A" "\<And>r. A r \<Longrightarrow> E r" "\<And>x. triple A (f x) Q E"
  shows "triple A (act_then m f) Q E"
proof (rule triple_then)
  show "triple A m (\<lambda>_. A) E" by (rule triple_weaken [OF triple_calm [OF assms(1,2)]]) (auto intro: assms(3))
qed (rule assms(4))

lemma triple_calm_get:
  assumes "\<And>r. A r \<Longrightarrow> E r" "\<And>x. triple (\<lambda>r. A r \<and> x = f r) (g x) Q E" shows "triple A (act_then (act_get f) g) Q E"
  by (rule triple_then [OF triple_get assms(2)])

lemma triple_assume: "(\<And>r. P r \<Longrightarrow> b) \<Longrightarrow> (b \<Longrightarrow> triple P m Q E) \<Longrightarrow> triple P m Q E"
  by (auto simp: triple_def)

lemma triple_fact: "(b \<Longrightarrow> triple P m Q E) \<Longrightarrow> triple (\<lambda>r. P r \<and> b) m Q E"
  by (auto simp: triple_def)

lemma triple_pre: "triple P m Q E \<Longrightarrow> (\<And>r. P' r \<Longrightarrow> P r) \<Longrightarrow> triple P' m Q E"
  by (rule triple_weaken)

text \<open>What the check of an owned snapshot has seen when it succeeds.\<close>

lemma validated_recoverable:
  assumes A: "stable A" and s: "\<And>r. A r \<Longrightarrow> lb_store r = s" and health: "spares any_store everything health" and d: "described w s n"
  shows "triple A (validate_owned w health n) (\<lambda>_ r. A r \<and> recoverable w r n) A"
proof -
  let ?p = "place_of s n"
  let ?B = "\<lambda>r. A r \<and> dir_at r ?p"
  let ?C = "\<lambda>r. ?B r \<and> (\<forall>x. present r (?p @ [x]) \<longleftrightarrow> x \<in> set snapshot_files)"
  let ?D = "\<lambda>r. ?C r \<and> (\<exists>c. file_at r (?p @ [''snapshot-manifest.json'']) = Some c \<and> sn_manifest_sha256 n = wd_sha w c)"
  have B: "stable ?B" using A unfolding stable_def same_on_def by blast
  have C: "stable ?C" using B unfolding stable_def same_on_def present_def by (metis (no_types, lifting))
  have D: "stable ?D" by (intro stable_conj [OF C] stable_simple)
  have AE: "A r" if "?B r \<or> ?C r \<or> ?D r" for r using that by blast
  have ticks: "A (r\<lparr>lb_ticks := k\<rparr>)" if "A r" for r k using A that same_on_ticks unfolding stable_def by blast
  show ?thesis
    unfolding validate_owned_def
    apply (rule triple_get_then [where x = ?p])
     apply (simp add: s)
    apply (rule triple_drop [OF _ A], intro spare_intros, assumption)
    apply (rule triple_then [where R = "\<lambda>_. ?B"])
     apply (simp add: triple_def io_def ticks Let_def)
    apply (rule triple_calm_get, simp)
    apply (rule triple_refuse, simp)
    apply (rule triple_pre [where P = ?C, rotated])
     apply (unfold set_eq_iff names_in_iff) [1]
     apply blast
    apply (rule triple_drop [OF _ C], intro spare_intros, simp)
    apply (rule triple_drop [OF _ C], intro spare_intros, simp)
    apply (rule triple_refuse, simp)
    apply (rule triple_drop [OF _ C], intro spare_intros, simp)
    apply (rule triple_drop [OF _ C], intro spare_intros, simp)
    apply (rule triple_drop [OF _ C], intro spare_intros, simp)
    apply (rule triple_refuse, simp)
    apply (rule triple_then [where R = "\<lambda>sha r. ?C r \<and> (\<exists>c. file_at r (?p @ [''snapshot-manifest.json'']) = Some c \<and> sha = wd_sha w c)"])
     apply (rule triple_weaken [OF triple_hash [OF C health]]; simp)
    apply (rule triple_refuse, simp)
    apply (rule triple_pre [where P = ?D, rotated])
     apply simp
    apply (rule triple_then [where R = "\<lambda>sha r. ?D r \<and> (\<exists>c. file_at r (?p @ [''database.db'']) = Some c \<and> sha = wd_sha w c)"])
     apply (rule triple_weaken [OF triple_hash [OF D health]]; simp)
    subgoal
      using d s unfolding triple_def act_require_def recoverable_def described_def Let_def by auto
    done
qed

lemma recoverable_cong:
  assumes "st_root (lb_store r') = st_root (lb_store r)" "st_names (lb_store r') = st_names (lb_store r)"
    and "dir_at r' (place_of (lb_store r) n) = dir_at r (place_of (lb_store r) n)"
    and "\<And>x. file_at r' (place_of (lb_store r) n @ [x]) = file_at r (place_of (lb_store r) n @ [x])"
    and "\<And>x. dir_at r' (place_of (lb_store r) n @ [x]) = dir_at r (place_of (lb_store r) n @ [x])"
  shows "recoverable w r' n = recoverable w r n"
  using assms by (simp add: recoverable_def present_def Let_def)

lemma last_two_snoc: "set (last_two (xs @ [x])) \<subseteq> insert x (set (last_two xs))"
  by (cases xs rule: rev_cases) (auto simp: last_two_def)

text \<open>The new pointer is there as a staged file.\<close>

definition staged_ready :: "'w snap_world_scheme \<Rightarrow> path \<times> int option \<Rightarrow> snapshot_store \<Rightarrow> path \<Rightarrow> snapshot \<Rightarrow> snapshot_store lab \<Rightarrow> bool" where
  "staged_ready w reached s p n r \<longleftrightarrow> holding w reached s r \<and> recoverable w r n \<and> file_at r p = Some (wd_dumps w (pointer_json n))"

lemma recoverable_stable: "stable (\<lambda>r. recoverable w r n)"
  unfolding stable_def
proof (intro allI impI)
  fix r r' assume r: "recoverable w r n" and same: "same_on everything r r'"
  have "recoverable w r' n = recoverable w r n" by (rule recoverable_cong) (use same in \<open>simp_all add: same_on_def\<close>)
  with r show "recoverable w r' n" by simp
qed

lemma staged_stable: "stable (staged_ready w reached s p n)"
  unfolding staged_ready_def by (intro stable_conj holding_stable recoverable_stable stable_simple)

lemma published_ok:
  assumes ready: "staged_ready w reached s (st_root s @ [staged]) n r" and n: "described w s n" "new_name s n"
    and staged: "unguarded_name staged"
    and r': "r' = (drop_file (st_root s @ [staged]) (set_file (pointer_of s) (wd_dumps w (pointer_json n)) r))
      \<lparr>lb_ticks := k, lb_store := s\<lparr>st_pointer_sha := Some sha, st_latest := Some n, st_owned := st_owned s @ [n],
        st_last_success_at := Some now, st_successful := Suc (st_successful s)\<rparr>\<rparr>"
  shows "store_ok w reached r'" "st_latest (lb_store r') = Some n"
proof -
  let ?s' = "lb_store r'"
  have s: "lb_store r = s" and ok: "store_ok w reached r" and rec: "recoverable w r n"
    using ready by (simp_all add: staged_ready_def holding_def)
  have store: "st_root ?s' = st_root s" "st_names ?s' = st_names s" "st_owned ?s' = st_owned s @ [n]" "st_latest ?s' = Some n"
    by (simp_all add: r')
  have neq: "staged \<noteq> ''latest-valid.json''" using staged by (simp add: unguarded_name_def)
  have at: "dir_at r' p = dir_at r p" "p \<noteq> st_root s @ [staged] \<Longrightarrow> p \<noteq> pointer_of s \<Longrightarrow> file_at r' p = file_at r p" for p
    by (simp_all add: r')
  have recs: "recoverable w r' m = recoverable w r m" for m
    by (rule recoverable_cong) (use at in \<open>simp_all add: store s\<close>)
  have old: "st_latest s = (if st_owned s = [] then None else Some (last (st_owned s)))" "distinct (map sn_directory (st_owned s))"
    "\<forall>m \<in> set (st_owned s). dir_at r (place_of s m) \<and> snapshot_name (sn_directory m)" "\<forall>m \<in> set (last_two (st_owned s)). recoverable w r m"
    "sorted (map sn_pairs (st_owned s))" "st_successful s = st_removed s + length (st_owned s)"
    "st_root s = fst reached \<and> (\<forall>k. snd reached = Some k \<longrightarrow> (\<exists>n. st_latest s = Some n \<and> k \<le> sn_pairs n))"
    using ok unfolding store_ok_def s Let_def by blast+
  have pairs: "sn_pairs m \<le> sn_pairs n" if m: "m \<in> set (st_owned s)" for m
  proof -
    obtain xs l where xs: "st_owned s = xs @ [l]" using m by (cases "st_owned s" rule: rev_cases) auto
    then have "sn_pairs m \<le> sn_pairs l" using old(5) m by (auto simp: sorted_append)
    moreover have "sn_pairs l \<le> sn_pairs n" using n(1) old(1) xs by (simp add: described_def)
    ultimately show ?thesis by simp
  qed
  show "st_latest ?s' = Some n" by (rule store(4))
  have "file_at r' (pointer_of s) = Some (wd_dumps w (pointer_json n))" using neq by (simp add: r')
  moreover have "distinct (map sn_directory (st_owned s @ [n]))" using old(2) n(2) by (auto simp: new_name_def)
  moreover have "\<forall>m \<in> set (st_owned s @ [n]). dir_at r' (place_of s m) \<and> snapshot_name (sn_directory m)"
    using old(3) n(2) rec at(1) by (auto simp: new_name_def recoverable_def s Let_def)
  moreover have "\<forall>m \<in> set (last_two (st_owned s @ [n])). recoverable w r' m"
    using old(4) rec recs subsetD [OF last_two_snoc [of "st_owned s" n]] by blast
  moreover have "sorted (map sn_pairs (st_owned s @ [n]))" using old(5) pairs by (auto simp: sorted_append)
  moreover have "st_successful ?s' = st_removed ?s' + length (st_owned s @ [n])" using old(6) by (simp add: r')
  moreover have "st_root s = fst reached \<and> (\<forall>k. snd reached = Some k \<longrightarrow> k \<le> sn_pairs n)" using old(7) n(1) by (fastforce simp: described_def)
  ultimately show "store_ok w reached r'" unfolding store_ok_def store Let_def by simp
qed

lemma replace_pointer_ok:
  assumes n: "described w s n" "new_name s n" and staged: "unguarded_name staged"
  shows "triple (staged_ready w reached s (st_root s @ [staged]) n) (replace_pointer w (st_root s @ [staged]) (pointer_of s) sha n)
    (\<lambda>_ r. store_ok w reached r \<and> st_latest (lb_store r) = Some n) (store_ok w reached)"
  unfolding triple_def
proof (intro allI impI)
  fix r assume ready: "staged_ready w reached s (st_root s @ [staged]) n r"
  then have s: "lb_store r = s" and body: "file_at r (st_root s @ [staged]) = Some (wd_dumps w (pointer_json n))"
    by (simp_all add: staged_ready_def holding_def)
  have "staged_ready w reached s (st_root s @ [staged]) n (r\<lparr>lb_ticks := k\<rparr>)" for k
    using ready staged_stable same_on_ticks unfolding stable_def by blast
  then have calm: "store_ok w reached (r\<lparr>lb_ticks := k\<rparr>)" for k by (simp add: staged_ready_def holding_def)
  show "case replace_pointer w (st_root s @ [staged]) (pointer_of s) sha n r of (Inl e, r') \<Rightarrow> store_ok w reached r'
      | (Inr x, r') \<Rightarrow> store_ok w reached r' \<and> st_latest (lb_store r') = Some n"
    using published_ok [OF ready n staged refl] calm
    by (simp add: replace_pointer_def replace_file_def io_def act_then_def observe_def act_store_def s body Let_def)
qed

lemma stage_pointer:
  assumes s: "named s" and n: "snapshot_name (sn_directory n)" and x: "unguarded_name staged"
  shows "triple (\<lambda>r. holding w reached s r \<and> recoverable w r n) (write_exclusive w (st_root s @ [staged]) (pointer_json n))
    (\<lambda>_. staged_ready w reached s (st_root s @ [staged]) n) (holding w reached s)"
  unfolding write_exclusive_def
proof (rule triple_drop)
  let ?A = "\<lambda>r. holding w reached s r \<and> recoverable w r n"
  show "stable ?A" by (intro stable_conj holding_stable recoverable_stable)
  show "spares any_store everything (checked_path w ''SNAPSHOT'' True (butlast (st_root s @ [staged])))" by (intro spare_intros)
  have calm: "holding w reached s r'" if "?A r" "same_on (guarded s) r r'" for r r' using that holding_same by blast
  show "triple ?A (act_then (create w (st_root s @ [staged]) (wd_dumps w (pointer_json n))) (\<lambda>_. act_return (wd_sha w (wd_dumps w (pointer_json n)))))
    (\<lambda>_. staged_ready w reached s (st_root s @ [staged]) n) (holding w reached s)" for u :: unit
    unfolding triple_def
  proof (intro allI impI)
    fix r assume r: "?A r"
    let ?p = "st_root s @ [staged]"
    have p: "\<not> guarded s ?p" by (rule unguarded [OF s x])
    have "same_on (guarded s) r (snd (create w ?p (wd_dumps w (pointer_json n)) r))"
      using spares_create [of "guarded s" ?p, OF p] unfolding spares_def by blast
    then have held: "holding w reached s (snd (create w ?p (wd_dumps w (pointer_json n)) r))" by (rule calm [OF r])
    have s_r: "lb_store r = s" using r by (simp add: holding_def)
    have "recoverable w (set_file ?p t (r\<lparr>lb_ticks := k\<rparr>)) n" for t k
    proof -
      have "recoverable w (set_file ?p t (r\<lparr>lb_ticks := k\<rparr>)) n = recoverable w r n"
        by (rule recoverable_cong) (simp_all add: s_r)
      then show ?thesis using r by simp
    qed
    then show "case act_then (create w ?p (wd_dumps w (pointer_json n))) (\<lambda>_. act_return (wd_sha w (wd_dumps w (pointer_json n)))) r of
        (Inl e, r') \<Rightarrow> holding w reached s r' | (Inr x, r') \<Rightarrow> staged_ready w reached s ?p n r'"
      using held by (auto simp: act_then_def create_def act_return_def staged_ready_def Let_def split: option.splits fault.splits if_splits)
  qed
qed auto

lemma publish_ok:
  assumes b: "spares any_store everything bounded" and n: "described w s n" "new_name s n"
  shows "triple (holding w reached s) (publish_copy w bounded token n)
    (\<lambda>_ r. store_ok w reached r \<and> st_latest (lb_store r) = Some n) (store_ok w reached)"
proof (rule triple_assume)
  let ?A = "holding w reached s" and ?staged = "''.pointer-'' @ token @ ''.json''"
  let ?B = "\<lambda>r. ?A r \<and> recoverable w r n" and ?C = "staged_ready w reached s (st_root s @ [?staged]) n"
  let ?Q = "\<lambda>_ r. store_ok w reached r \<and> st_latest (lb_store r) = Some n"
  show "named s" if "?A r" for r using that store_ok_named unfolding holding_def by blast
  assume s: "named s"
  have B: "stable ?B" by (intro stable_conj holding_stable recoverable_stable)
  have AE: "store_ok w reached r" if "?A r" for r using that by (simp add: holding_def)
  have BE: "store_ok w reached r" if "?B r" for r using that AE by blast
  have CE: "store_ok w reached r" if "?C r" for r using that AE by (simp add: staged_ready_def)
  have checked: "triple ?A (validate_owned w bounded n) (\<lambda>_. ?B) (store_ok w reached)"
  proof (rule triple_weaken [OF validated_recoverable [OF holding_stable _ b n(1)]])
    show "lb_store r = s" if "?A r" for r using that by (simp add: holding_def)
  qed (use AE in auto)
  have put: "triple ?C (replace_pointer w (st_root s @ [?staged]) (pointer_of s) sha n) ?Q (store_ok w reached)" for sha
    by (rule replace_pointer_ok [OF n pending_unguarded(2)])
  have "snapshot_name (sn_directory n)" using n by (simp add: described_def)
  then have staged: "triple ?B (write_exclusive w (st_root s @ [?staged]) (pointer_json n)) (\<lambda>_. ?C) (store_ok w reached)"
    by (rule triple_weaken [OF stage_pointer [OF s _ pending_unguarded(2)]]) (use AE in auto)
  show "triple ?A (publish_copy w bounded token n) ?Q (store_ok w reached)"
    unfolding publish_copy_def Let_def
    apply (rule triple_get_then [where x = s])
     apply (simp add: holding_def)
    apply (rule triple_then [where R = "\<lambda>_. ?B"])
     apply (rule checked)
    apply (rule triple_drop [OF _ B], intro spare_intros, erule BE)
    apply (rule triple_drop [OF _ B], intro spare_intros, erule BE)
    apply (rule triple_drop [OF _ B], intro spare_intros b, erule BE)
    apply (rule triple_then [where R = "\<lambda>_. ?C"])
     apply (rule staged)
    apply (rule triple_drop [OF b staged_stable], erule CE)
    apply (rule put)
    done
qed

section \<open>Removing the oldest\<close>

definition popped :: "snapshot_store \<Rightarrow> snapshot_store" where
  "popped s = s\<lparr>st_owned := tl (st_owned s), st_removed := Suc (st_removed s)\<rparr>"

lemma oldest_unguarded:
  assumes "distinct (map sn_directory (st_owned s))" "2 < length (st_owned s)"
  shows "\<not> guarded s (place_of s (hd (st_owned s)) @ [x])"
proof
  assume "guarded s (place_of s (hd (st_owned s)) @ [x])"
  then obtain m where m: "m \<in> set (last_two (st_owned s))" "sn_directory m = sn_directory (hd (st_owned s))"
    unfolding guarded_def by auto
  obtain h t where owned: "st_owned s = h # t" using assms(2) by (cases "st_owned s") auto
  have "set (last_two (st_owned s)) \<subseteq> set t" using assms(2) unfolding last_two_def owned by (cases "length t - 1") (auto dest: in_set_dropD)
  then have "sn_directory m \<in> sn_directory ` set t" using m(1) by blast
  then have "sn_directory (hd (st_owned s)) \<in> sn_directory ` set t" unfolding m(2) .
  then show False using assms(1) owned by simp
qed

lemma popped_ok:
  assumes ok: "store_ok w reached r" and s: "lb_store r = s" and long: "2 < length (st_owned s)"
    and r': "r' = (drop_dir (place_of s (hd (st_owned s))) r)\<lparr>lb_ticks := k, lb_store := popped s\<rparr>"
  shows "store_ok w reached r'"
proof -
  obtain h t where owned: "st_owned s = h # t" using long by (cases "st_owned s") auto
  have store: "st_root (lb_store r') = st_root s" "st_names (lb_store r') = st_names s" "st_owned (lb_store r') = t"
    "st_latest (lb_store r') = st_latest s" "st_successful (lb_store r') = st_successful s" "st_removed (lb_store r') = Suc (st_removed s)"
    by (simp_all add: r' popped_def owned)
  have old: "st_latest s = (if st_owned s = [] then None else Some (last (st_owned s)))"
    "file_at r (pointer_of s) = map_option (\<lambda>n. wd_dumps w (pointer_json n)) (st_latest s)" "distinct (map sn_directory (st_owned s))"
    "\<forall>m \<in> set (st_owned s). dir_at r (place_of s m) \<and> snapshot_name (sn_directory m)" "\<forall>m \<in> set (last_two (st_owned s)). recoverable w r m"
    "sorted (map sn_pairs (st_owned s))" "st_successful s = st_removed s + length (st_owned s)"
    "st_root s = fst reached \<and> (\<forall>k. snd reached = Some k \<longrightarrow> (\<exists>n. st_latest s = Some n \<and> k \<le> sn_pairs n))"
    using ok unfolding store_ok_def s Let_def by blast+
  have other: "place_of s m \<noteq> place_of s h" if "m \<in> set t" for m
  proof
    assume "place_of s m = place_of s h"
    moreover have "sn_directory m \<in> sn_directory ` set t" using that by blast
    ultimately show False using old(3) owned by simp
  qed
  have dirs: "dir_at r' p = dir_at r p" if "p \<noteq> place_of s h" for p using that by (simp add: r' owned)
  have two: "last_two (st_owned s) = last_two t" 
  proof -
    have "length t - 1 = Suc (length t - 2)" using long owned by simp
    then show ?thesis by (simp add: last_two_def owned)
  qed
  have recs: "recoverable w r' m = recoverable w r m" if "m \<in> set (last_two t)" for m
  proof (rule recoverable_cong)
    have "m \<in> set t" using that by (rule subsetD [OF last_two_subset])
    then show "dir_at r' (place_of (lb_store r) m) = dir_at r (place_of (lb_store r) m)" using dirs other s by simp
    show "dir_at r' (place_of (lb_store r) m @ [x]) = dir_at r (place_of (lb_store r) m @ [x])" for x using s by (intro dirs) simp
  qed (simp_all add: r' s popped_def)
  have "st_latest s = (if t = [] then None else Some (last t))" using old(1) long owned by auto
  moreover have "file_at r' (pointer_of s) = map_option (\<lambda>n. wd_dumps w (pointer_json n)) (st_latest s)" using old(2) by (simp add: r')
  moreover have "distinct (map sn_directory t)" using old(3) owned by simp
  moreover have "\<forall>m \<in> set t. dir_at r' (place_of s m) \<and> snapshot_name (sn_directory m)" using old(4) owned dirs other by simp
  moreover have "\<forall>m \<in> set (last_two t). recoverable w r' m" using old(5) recs two by simp
  moreover have "sorted (map sn_pairs t)" using old(6) owned by simp
  moreover have "st_successful s = Suc (st_removed s) + length t" using old(7) owned by simp
  ultimately show ?thesis using old(8) unfolding store_ok_def store Let_def by blast
qed

lemma retain_one_ok:
  assumes b: "spares any_store everything health" and long: "2 < length (st_owned s)"
  shows "triple (holding w reached s) (retain_one w health) (\<lambda>_. holding w reached (popped s)) (store_ok w reached)"
proof -
  let ?A = "holding w reached s" and ?n = "hd (st_owned s)"
  have AE: "store_ok w reached r" if "?A r" for r using that by (simp add: holding_def)
  have unlinks: "triple ?A (act_each (\<lambda>name. act_then health (\<lambda>_. act_then (checked_path w ''SNAPSHOT'' True (place_of s ?n @ [name])) (\<lambda>_.
      unlink w (place_of s ?n @ [name])))) snapshot_files) (\<lambda>_. ?A) (store_ok w reached)"
  proof (rule triple_assume)
    show "distinct (map sn_directory (st_owned s))" if "?A r" for r using that unfolding holding_def store_ok_def Let_def by blast
    assume d: "distinct (map sn_directory (st_owned s))"
    have "triple ?A (act_each (\<lambda>name. act_then health (\<lambda>_. act_then (checked_path w ''SNAPSHOT'' True (place_of s ?n @ [name])) (\<lambda>_.
      unlink w (place_of s ?n @ [name])))) snapshot_files) (\<lambda>_. ?A) ?A"
      by (rule triple_holding, intro spare_intros any_store_spares [OF b] oldest_unguarded d long)
    then show "triple ?A (act_each (\<lambda>name. act_then health (\<lambda>_. act_then (checked_path w ''SNAPSHOT'' True (place_of s ?n @ [name])) (\<lambda>_.
      unlink w (place_of s ?n @ [name])))) snapshot_files) (\<lambda>_. ?A) (store_ok w reached)" by (rule triple_error) (rule AE)
  qed
  have pop: "triple ?A (act_then (remove_dir w (place_of s ?n)) (\<lambda>_. act_store (\<lambda>s. s\<lparr>st_owned := tl (st_owned s), st_removed := Suc (st_removed s)\<rparr>)))
      (\<lambda>_. holding w reached (popped s)) (store_ok w reached)"
    unfolding triple_def
  proof (intro allI impI)
    fix r assume r: "?A r"
    then have ok: "store_ok w reached r" and s: "lb_store r = s" by (simp_all add: holding_def)
    have "?A (r\<lparr>lb_ticks := k\<rparr>)" for k using r holding_stable same_on_ticks unfolding stable_def by blast
    then have calm: "store_ok w reached (r\<lparr>lb_ticks := k\<rparr>)" for k by (simp add: holding_def)
    show "case act_then (remove_dir w (place_of s ?n)) (\<lambda>_. act_store (\<lambda>s. s\<lparr>st_owned := tl (st_owned s), st_removed := Suc (st_removed s)\<rparr>)) r of
        (Inl e, r') \<Rightarrow> store_ok w reached r' | (Inr x, r') \<Rightarrow> holding w reached (popped s) r'"
      using popped_ok [OF ok s long refl] calm
      by (simp add: remove_dir_def io_def act_then_def act_store_def holding_def s popped_def Let_def)
  qed
  show ?thesis
    unfolding retain_one_def
    apply (rule triple_get_then [where x = ?n])
     apply (simp add: holding_def)
    apply (rule triple_drop [OF _ holding_stable], intro spare_intros b, erule AE)
    apply (rule triple_get_then [where x = "place_of s ?n"])
     apply (simp add: holding_def)
    apply (rule triple_then [OF unlinks])
    apply (rule pop)
    done
qed

lemma retain_two_ok:
  assumes b: "spares any_store everything health"
  shows "triple (\<lambda>r. store_ok w reached r \<and> st_latest (lb_store r) = L) (retain_two w health)
    (\<lambda>_ r. store_ok w reached r \<and> st_latest (lb_store r) = L \<and> length (st_owned (lb_store r)) \<le> 2) (store_ok w reached)"
proof -
  let ?Q = "\<lambda>_ r. store_ok w reached r \<and> st_latest (lb_store r) = L \<and> length (st_owned (lb_store r)) \<le> 2"
  have loop: "triple (holding w reached s) (act_each (\<lambda>_. retain_one w health) (replicate k ())) ?Q (store_ok w reached)"
    if "k = length (st_owned s) - 2" "st_latest s = L" for k s
    using that
  proof (induction k arbitrary: s)
    case 0
    then show ?case by (auto simp: triple_def act_return_def holding_def)
  next
    case (Suc k)
    have "triple (holding w reached (popped s)) (act_each (\<lambda>_. retain_one w health) (replicate k ())) ?Q (store_ok w reached)"
      by (rule Suc.IH) (use Suc.prems in \<open>simp_all add: popped_def\<close>)
    moreover have "2 < length (st_owned s)" using Suc.prems(1) by linarith
    ultimately show ?case
      unfolding replicate_Suc act_each.simps by (intro triple_then [OF retain_one_ok [OF b]])
  qed
  show ?thesis
    unfolding retain_two_def triple_def
  proof (intro allI impI)
    fix r assume r: "store_ok w reached r \<and> st_latest (lb_store r) = L"
    show "case act_then (act_get (\<lambda>r. length (st_owned (lb_store r)) - 2)) (\<lambda>k. act_each (\<lambda>_. retain_one w health) (replicate k ())) r of
        (Inl e, r') \<Rightarrow> store_ok w reached r'
      | (Inr x, r') \<Rightarrow> store_ok w reached r' \<and> st_latest (lb_store r') = L \<and> length (st_owned (lb_store r')) \<le> 2"
      using loop [OF refl, of "lb_store r"] r unfolding triple_def holding_def act_then_def act_get_def by simp
  qed
qed

text \<open>Fields that the invariant does not look at.\<close>

lemma store_ok_update:
  assumes "store_ok w reached r" and "st_root s = st_root (lb_store r)" "st_names s = st_names (lb_store r)"
    "st_latest s = st_latest (lb_store r)" "st_owned s = st_owned (lb_store r)" "st_successful s = st_successful (lb_store r)"
    "st_removed s = st_removed (lb_store r)"
  shows "store_ok w reached (r\<lparr>lb_store := s\<rparr>)"
proof -
  have recs: "recoverable w (r\<lparr>lb_store := s\<rparr>) n = recoverable w r n" for n by (rule recoverable_cong) (use assms in simp_all)
  have store: "lb_store (r\<lparr>lb_store := s\<rparr>) = s" by simp
  have recs: "recoverable w (r\<lparr>lb_store := s\<rparr>) = recoverable w r" by (rule ext) (rule recs)
  show ?thesis using assms(1) unfolding store_ok_def Let_def store recs assms(2-7) lab_ticks .
qed

lemma holding_ok: "holding w reached s r \<Longrightarrow> store_ok w reached r"
  by (simp add: holding_def)

lemma capture_ok:
  assumes health: "spares any_store everything health"
  shows "triple (store_ok w reached) (capture w reason health)
    (\<lambda>n r. store_ok w reached r \<and> st_latest (lb_store r) = Some n \<and> length (st_owned (lb_store r)) \<le> 2) (store_ok w reached)"
proof -
  let ?Q = "\<lambda>n r. store_ok w reached r \<and> st_latest (lb_store r) = Some n \<and> length (st_owned (lb_store r)) \<le> 2"
  have stable: "stable (store_ok w reached)" unfolding stable_def by (blast intro: store_ok_same)
  have phases: "triple (holding w reached s) (act_then (prepare_copy w reason bounded) (\<lambda>token.
        act_then (describe_copy w reason bounded token) (\<lambda>record.
        act_then (write_seals w bounded token record) (\<lambda>_.
        act_then (complete_copy w token record) (\<lambda>_.
        act_then (publish_copy w bounded token record) (\<lambda>_.
        act_then (retain_two w bounded) (\<lambda>_. act_return record))))))) ?Q (store_ok w reached)"
    if b: "spares any_store everything bounded" for s bounded
  proof (rule triple_then [where R = "\<lambda>_. holding w reached s"])
    have E': "triple P m R (store_ok w reached)" if "triple P m R (holding w reached s)" for P R and m :: "unit snap_act"
      by (rule triple_weaken [OF that]) (auto dest: holding_ok)
    show "triple (holding w reached s) (prepare_copy w reason bounded) (\<lambda>_. holding w reached s) (store_ok w reached)"
      by (rule triple_weaken [OF prepare_holding [OF b]]) (auto dest: holding_ok)
    show "triple (holding w reached s) (act_then (describe_copy w reason bounded token) (\<lambda>record.
        act_then (write_seals w bounded token record) (\<lambda>_.
        act_then (complete_copy w token record) (\<lambda>_.
        act_then (publish_copy w bounded token record) (\<lambda>_.
        act_then (retain_two w bounded) (\<lambda>_. act_return record)))))) ?Q (store_ok w reached)" for token
    proof (rule triple_then)
      show "triple (holding w reached s) (describe_copy w reason bounded token) (\<lambda>n r. holding w reached s r \<and> described w s n) (store_ok w reached)"
        by (rule triple_weaken [OF describe_holding [OF b]]) (auto dest: holding_ok)
      fix n
      have "triple (holding w reached s) (act_then (write_seals w bounded token n) (\<lambda>_.
          act_then (complete_copy w token n) (\<lambda>_.
          act_then (publish_copy w bounded token n) (\<lambda>_.
          act_then (retain_two w bounded) (\<lambda>_. act_return n))))) ?Q (store_ok w reached)" if n: "described w s n"
      proof (rule triple_then [OF E' [OF seals_holding [OF b]]], rule triple_then [OF E' [OF complete_holding [OF n]]])
        have "triple (holding w reached s) (act_then (publish_copy w bounded token n) (\<lambda>_.
            act_then (retain_two w bounded) (\<lambda>_. act_return n))) ?Q (store_ok w reached)" if "new_name s n"
        proof (rule triple_then [OF publish_ok [OF b n that]], rule triple_then [OF retain_two_ok [OF b]])
          show "triple (\<lambda>r. store_ok w reached r \<and> st_latest (lb_store r) = Some n \<and> length (st_owned (lb_store r)) \<le> 2)
              (act_return n) ?Q (store_ok w reached)" for u :: unit by (simp add: triple_def act_return_def)
        qed
        then show "triple (\<lambda>r. holding w reached s r \<and> new_name s n) (act_then (publish_copy w bounded token n) (\<lambda>_.
            act_then (retain_two w bounded) (\<lambda>_. act_return n))) ?Q (store_ok w reached)" for u :: unit
          by (rule triple_fact)
      qed
      then show "triple (\<lambda>r. holding w reached s r \<and> described w s n) (act_then (write_seals w bounded token n) (\<lambda>_.
          act_then (complete_copy w token n) (\<lambda>_.
          act_then (publish_copy w bounded token n) (\<lambda>_.
          act_then (retain_two w bounded) (\<lambda>_. act_return n))))) ?Q (store_ok w reached)"
        by (rule triple_fact)
    qed
  qed
  show ?thesis
    unfolding capture_def Let_def
    apply (rule triple_drop [OF _ stable], intro spare_intros, assumption)
    apply (rule triple_drop [OF _ stable], intro spare_intros, assumption)
    subgoal for started timeout
      unfolding triple_def
    proof (intro allI impI)
      fix r assume r: "store_ok w reached r"
      let ?f = "\<lambda>s. s\<lparr>st_active_at := Some started, st_attempts := Suc (st_attempts s)\<rparr>"
      have "holding w reached (?f (lb_store r)) (r\<lparr>lb_store := ?f (lb_store r)\<rparr>)"
        using store_ok_update [OF r, of "?f (lb_store r)"] by (simp add: holding_def)
      note held = this
      show "case act_then (act_store ?f) (\<lambda>_.
          act_then (prepare_copy w reason (capture_health w health (double_of (started + timeout)))) (\<lambda>token.
          act_then (describe_copy w reason (capture_health w health (double_of (started + timeout))) token) (\<lambda>record.
          act_then (write_seals w (capture_health w health (double_of (started + timeout))) token record) (\<lambda>_.
          act_then (complete_copy w token record) (\<lambda>_.
          act_then (publish_copy w (capture_health w health (double_of (started + timeout))) token record) (\<lambda>_.
          act_then (retain_two w (capture_health w health (double_of (started + timeout)))) (\<lambda>_. act_return record))))))) r of
          (Inl e, r') \<Rightarrow> store_ok w reached r' | (Inr n, r') \<Rightarrow> ?Q n r'"
        using phases [OF spares_capture_health [OF health], of "?f (lb_store r)" w "double_of (started + timeout)", unfolded triple_def, rule_format, OF held]
        unfolding act_then_def [of "act_store ?f"] act_store_def by simp
    qed
    done
qed

section \<open>Every run of the store\<close>

datatype store_call = Start_Call | Worker_Turn | Check_Call | Stop_Call json bool | Final_Call bool string bool

definition run_store_call :: "'w snap_world_scheme \<Rightarrow> store_call \<Rightarrow> snapshot_store lab \<Rightarrow> snapshot_store lab" where
  "run_store_call w call r =
     (case call of
        Start_Call \<Rightarrow> snd (start_store w r)
      | Worker_Turn \<Rightarrow> worker_turn w r
      | Check_Call \<Rightarrow> snd (check_health w r)
      | Stop_Call timeout ended \<Rightarrow> snd (stop_store timeout ended r)
      | Final_Call tree_stopped reason timely \<Rightarrow> snd (capture_final w tree_stopped reason timely r))"

definition run_store :: "'w snap_world_scheme \<Rightarrow> store_call list \<Rightarrow> snapshot_store lab \<Rightarrow> snapshot_store lab" where
  "run_store w calls r = fold (run_store_call w) calls r"

text \<open>Changes of the store that the invariant does not see.\<close>

definition unseen :: "(snapshot_store \<Rightarrow> snapshot_store) \<Rightarrow> bool" where
  "unseen f \<longleftrightarrow> (\<forall>s. st_root (f s) = st_root s \<and> st_names (f s) = st_names s \<and> st_latest (f s) = st_latest s \<and>
     st_owned (f s) = st_owned s \<and> st_successful (f s) = st_successful s \<and> st_removed (f s) = st_removed s)"

lemma store_ok_unseen: "store_ok w reached r \<Longrightarrow> unseen f \<Longrightarrow> store_ok w reached (r\<lparr>lb_store := f (lb_store r)\<rparr>)"
  by (rule store_ok_update) (simp_all add: unseen_def)

lemma triple_unseen: "unseen f \<Longrightarrow> triple (store_ok w reached) (act_store f) (\<lambda>_. store_ok w reached) E"
  by (simp add: triple_def act_store_def store_ok_unseen)

lemma store_ok_stable: "stable (store_ok w reached)"
  unfolding stable_def by (blast intro: store_ok_same)

lemma keeps_ok:
  assumes "triple (store_ok w reached) m (\<lambda>_. store_ok w reached) (store_ok w reached)" "store_ok w reached r"
  shows "store_ok w reached (snd (m r))"
  using assms unfolding triple_def by (cases "m r"; cases "fst (m r)") fastforce+

lemma set_error_unseen [simp]:
  "st_root (set_error c s) = st_root s" "st_names (set_error c s) = st_names s" "st_latest (set_error c s) = st_latest s"
  "st_owned (set_error c s) = st_owned s" "st_successful (set_error c s) = st_successful s" "st_removed (set_error c s) = st_removed s"
  by (simp_all add: set_error_def)

lemma start_store_ok: "triple (store_ok w reached) (start_store w) (\<lambda>_. store_ok w reached) (store_ok w reached)"
  unfolding start_store_def
  apply (rule triple_drop [OF _ store_ok_stable], intro spare_intros, assumption)
  apply (rule triple_refuse, assumption)
  apply (rule triple_drop [OF _ store_ok_stable], intro spare_intros, assumption)
  apply (rule triple_unseen, simp add: unseen_def)
  done

lemma trip_ok:
  "triple (store_ok w reached) (act_then (act_store (\<lambda>s. (set_error code s)\<lparr>st_cancel := True\<rparr>)) (\<lambda>_. act_require False e))
     (\<lambda>_. store_ok w reached) (store_ok w reached)"
  by (rule triple_then [OF triple_unseen]) (auto simp: unseen_def triple_def act_require_def)

lemma check_ok: "triple (store_ok w reached) (check_health w) (\<lambda>_. store_ok w reached) (store_ok w reached)"
  unfolding check_health_def Let_def
  apply (rule triple_drop [OF _ store_ok_stable], intro spare_intros, assumption)
  apply (rule triple_drop [OF _ store_ok_stable], intro spare_intros, assumption)
  apply (rule triple_drop [OF _ store_ok_stable], intro spare_intros, assumption)
  apply (rule triple_refuse, assumption)
  apply (simp add: trip_ok triple_return [where Q = "\<lambda>_. store_ok w reached"])
  done

lemma stop_ok: "triple (store_ok w reached) (stop_store timeout ended) (\<lambda>_. store_ok w reached) (store_ok w reached)"
  unfolding stop_store_def
  apply (rule triple_refuse, assumption)
  apply (rule triple_then [OF triple_unseen], simp add: unseen_def)
  apply (rule triple_drop [OF _ store_ok_stable], intro spare_intros, assumption)
  apply (rule triple_then [OF triple_unseen], simp add: unseen_def)
  apply (rule triple_return)
  done

lemma world_capture_ok:
  assumes "store_ok w reached r" shows "store_ok w reached (snd (capture w reason (health_of_world w) r))"
proof (rule keeps_ok [OF _ assms])
  show "triple (store_ok w reached) (capture w reason (health_of_world w)) (\<lambda>_. store_ok w reached) (store_ok w reached)"
    by (rule triple_weaken [OF capture_ok [OF spares_health]]) auto
qed

lemma cancel_read_ok: "store_ok w reached r \<Longrightarrow> store_ok w reached (snd (read_cancel w r))"
  by (rule keeps_ok [OF triple_calm [OF _ store_ok_stable]]) (unfold read_cancel_def, intro spare_intros)

lemma turn_ok:
  assumes "store_ok w reached r" shows "store_ok w reached (worker_turn w r)"
proof -
  note update = store_ok_unseen [unfolded unseen_def]
  obtain c r1 where c: "read_cancel w r = (c, r1)" by fastforce
  have r1: "store_ok w reached r1" using cancel_read_ok [OF assms] c by simp
  obtain x r2 where x: "capture w ''periodic'' (health_of_world w) r1 = (x, r2)" by fastforce
  have r2: "store_ok w reached r2" using world_capture_ok [OF r1] x by (metis snd_conv)
  let ?r3 = "r2\<lparr>lb_store := (lb_store r2)\<lparr>st_active_at := None\<rparr>\<rparr>"
  have r3: "store_ok w reached ?r3" by (rule store_ok_update [OF r2]) simp_all
  obtain c' r4 where c': "read_cancel w ?r3 = (c', r4)" by fastforce
  have r4: "store_ok w reached r4" using cancel_read_ok [OF r3] c' by simp
  show ?thesis
    using r3 by (simp add: worker_turn_def c x c' Let_def store_ok_update [OF r1] store_ok_update [OF r4] split: sum.split bool.split)
qed

lemma final_ok: "store_ok w reached r \<Longrightarrow> store_ok w reached (snd (capture_final w tree_stopped reason timely r))"
proof -
  assume r: "store_ok w reached r"
  let ?r1 = "r\<lparr>lb_store := (lb_store r)\<lparr>st_state := Final_Capture, st_cancel := False, st_thread := Thread_Alive\<rparr>\<rparr>"
  have r1: "store_ok w reached ?r1" by (rule store_ok_update [OF r]) simp_all
  obtain x r2 where x: "capture w reason (health_of_world w) ?r1 = (x, r2)" by fastforce
  have r2: "store_ok w reached r2" using world_capture_ok [OF r1] x by (metis snd_conv)
  show ?thesis
    using r by (simp add: capture_final_def refuse_unless_def act_then_def act_require_def act_get_def act_store_def x Let_def
        store_ok_update [OF r2] split: sum.split)
qed

lemma call_ok: "store_ok w reached r \<Longrightarrow> store_ok w reached (run_store_call w call r)"
  using keeps_ok [OF start_store_ok] turn_ok keeps_ok [OF check_ok] keeps_ok [OF stop_ok] final_ok
  by (cases call) (simp_all add: run_store_call_def)

lemma run_ok: "store_ok w reached r \<Longrightarrow> store_ok w reached (run_store w calls r)"
  unfolding run_store_def by (induction calls arbitrary: r) (simp_all add: call_ok)

text \<open>A new store: nothing was at its place.\<close>

definition free_place :: "'s lab \<Rightarrow> path \<Rightarrow> bool" where
  "free_place r p \<longleftrightarrow> (\<forall>q. prefix p q \<longrightarrow> \<not> present r q)"

lemma positive_seconds_calm: "spares P S (positive_seconds v)"
  unfolding positive_seconds_def
  by (auto split: json.split py_float.split intro!: spare_intros)

lemma new_store_ok:
  assumes new: "new_store w target database names interval min_free timeout owner r = (Inr (), r')" and free: "free_place r target"
  shows "store_ok w (target, None) r'" "st_root (lb_store r') = target"
proof -
  let ?p = "target @ [''latest-valid.json'']"
  let ?A = "\<lambda>r. file_at r ?p = None" and ?S = "\<lambda>p. p = ?p"
  let ?Q = "\<lambda>r. ?A r \<and> st_root (lb_store r) = target \<and> st_latest (lb_store r) = None \<and> st_owned (lb_store r) = [] \<and>
      st_successful (lb_store r) = 0 \<and> st_removed (lb_store r) = 0"
  have calm: "triple ?A (act_then m f) Q (\<lambda>_. True)" if "spares any_store ?S m" "\<And>x. triple ?A (f x) Q (\<lambda>_. True)"
    for m :: "'x snap_act" and f and Q :: "unit \<Rightarrow> snapshot_store lab \<Rightarrow> bool"
    by (rule triple_then [OF triple_weaken [OF triple_spares [OF that(1), of ?A]] that(2)]) (auto simp: same_on_def)
  have "triple ?A (new_store w target database names interval min_free timeout owner) (\<lambda>_. ?Q) (\<lambda>_. True)"
    unfolding new_store_def Let_def
    apply (rule calm, rule positive_seconds_calm)
    apply (rule calm, rule positive_seconds_calm)
    apply (rule triple_refuse, simp)
    apply (rule triple_refuse, simp)
    apply (rule calm, intro spare_intros)
    apply (rule calm, intro spare_intros)
    apply (rule calm, intro spare_intros)
    apply (rule triple_refuse, simp)
    apply (rule triple_refuse, simp)
    apply (rule triple_refuse, simp)
    apply (rule calm, intro spare_intros, simp)
    apply (rule calm, intro spare_intros, simp)
    apply (simp add: triple_def act_store_def)
    done
  moreover have "?A r" using free by (auto simp: free_place_def present_def)
  ultimately have "?Q r'" using new by (auto dest: triple_D(1))
  then show "store_ok w (target, None) r'" "st_root (lb_store r') = target" by (simp_all add: store_ok_def last_two_def Let_def)
qed

text \<open>
  C40. After any calls of a store, whatever fails or is cancelled in them, at whichever operation: the pointer file
  is the description of the latest snapshot of the store and is there as soon as one was published, this snapshot
  and the one before it are recoverable, no later snapshot has fewer validated pairs, and a snapshot that a call
  returned is the latest one with at most one other kept. A crash leaves the files of a failure at that operation.
\<close>

theorem latest_snapshot_is_recoverable:
  assumes new: "new_store w target database names interval min_free timeout owner r0 = (Inr (), r1)" and free: "free_place r0 target"
    and r: "r = run_store w calls r1"
  shows "file_at r (target @ [''latest-valid.json'']) = map_option (\<lambda>n. wd_dumps w (pointer_json n)) (st_latest (lb_store r)) \<and>
    st_latest (lb_store r) = (if st_owned (lb_store r) = [] then None else Some (last (st_owned (lb_store r)))) \<and>
    (\<forall>n \<in> set (last_two (st_owned (lb_store r))). recoverable w r n) \<and>
    (\<forall>more n. st_latest (lb_store r) = Some n \<longrightarrow> (\<exists>m. st_latest (lb_store (run_store w more r)) = Some m \<and> sn_pairs n \<le> sn_pairs m)) \<and>
    (\<forall>reason n r'. capture w reason (health_of_world w) r = (Inr n, r') \<longrightarrow>
       st_latest (lb_store r') = Some n \<and> recoverable w r' n \<and> length (st_owned (lb_store r')) \<le> 2)"
proof (intro conjI allI impI)
  have ok: "store_ok w (target, None) r" unfolding r by (rule run_ok [OF new_store_ok(1) [OF new free]])
  then show "file_at r (target @ [''latest-valid.json'']) = map_option (\<lambda>n. wd_dumps w (pointer_json n)) (st_latest (lb_store r))"
    "st_latest (lb_store r) = (if st_owned (lb_store r) = [] then None else Some (last (st_owned (lb_store r))))"
    "\<forall>n \<in> set (last_two (st_owned (lb_store r))). recoverable w r n"
    unfolding store_ok_def Let_def by auto
  show "\<exists>m. st_latest (lb_store (run_store w more r)) = Some m \<and> sn_pairs n \<le> sn_pairs m" if n: "st_latest (lb_store r) = Some n" for more n
  proof -
    have "\<forall>k. Some (sn_pairs n) = Some k \<longrightarrow> (\<exists>m. st_latest (lb_store r) = Some m \<and> k \<le> sn_pairs m)" using n by simp
    with ok have "store_ok w (target, Some (sn_pairs n)) r" unfolding store_ok_def Let_def fst_conv snd_conv by blast
    then have "store_ok w (target, Some (sn_pairs n)) (run_store w more r)" by (rule run_ok)
    then show ?thesis unfolding store_ok_def Let_def by auto
  qed
  fix reason n r' assume run: "capture w reason (health_of_world w) r = (Inr n, r')"
  have after: "store_ok w (target, None) r' \<and> st_latest (lb_store r') = Some n \<and> length (st_owned (lb_store r')) \<le> 2"
    by (rule triple_D(1) [OF capture_ok [OF spares_health] ok run])
  then show "st_latest (lb_store r') = Some n" "length (st_owned (lb_store r')) \<le> 2" by auto
  have "n \<in> set (last_two (st_owned (lb_store r')))"
    using after unfolding store_ok_def Let_def by (cases "st_owned (lb_store r')" rule: rev_cases) (auto simp: last_two_def)
  then show "recoverable w r' n" using after unfolding store_ok_def Let_def by auto
qed

section \<open>An example\<close>

text \<open>A final capture of a database with the text \<open>x\<close>; texts stand for their hashes.\<close>

definition demo_dumps :: "json \<Rightarrow> string" where
  "demo_dumps v = (if json_field ''snapshot_manifest_sha256'' v \<noteq> None then ''D'' else if json_field ''directory'' v \<noteq> None then ''M'' else ''O'')"

definition demo_loads :: "string \<Rightarrow> json option" where
  "demo_loads s =
     (if s = ''D'' then Some (done_json ''me'' ''M'' ''x'')
      else if s = ''M'' then Some (JObject [(''owner_id'', JString ''me''), (''directory'', JString ''snapshot-1'')]) else None)"

definition demo_snap_world :: snap_world where
  "demo_snap_world =
     \<lparr>wd_fault = \<lambda>_. None, wd_links = \<lambda>_. False, wd_health = \<lambda>_. None, wd_sha = \<lambda>s. s, wd_dumps = demo_dumps, wd_loads = demo_loads,
      sw_now = \<lambda>_. 0, sw_cancelled = \<lambda>_. False, sw_free = \<lambda>_. Some 100, sw_token = \<lambda>_. ''1'', sw_stamp = \<lambda>_. [], sw_iso = \<lambda>_. [],
      sw_backup = \<lambda>_. \<lparr>bk_polls = 0, bk_copy = ''x'', bk_done = True\<rparr>, sw_validate = \<lambda>_ _. Inr (Some 7), sw_polls = \<lambda>_. 0\<rparr>"

definition demo_disk :: "snapshot_store lab" where
  "demo_disk = \<lparr>lb_files = [([''d''], ''x'')], lb_dirs = [[]], lb_ticks = 0,
     lb_store = \<lparr>st_root = [], st_database = [], st_names = [], st_interval = 0, st_min_free = 0, st_timeout = 0, st_owner = [],
       st_cancel = False, st_thread = No_Thread, st_started_at = None, st_active_at = None, st_last_success_at = None, st_error = None,
       st_state = Prepared, st_attempts = 0, st_successful = 0, st_removed = 0, st_latest = None, st_owned = [], st_pointer_sha = None\<rparr>\<rparr>"

definition demo_new :: "(experiment_error, unit, snapshot_store lab) outcome" where
  "demo_new = new_store demo_snap_world [''r''] [''d''] [''a''] (JInt 600) 20 (JInt 120) ''me'' demo_disk"

lemma blocks_short: "length s < 1000 \<Longrightarrow> s \<noteq> [] \<Longrightarrow> blocks s = 2"
proof -
  assume "length s < 1000" "s \<noteq> []"
  then have "(length s + chunk - 1) div chunk = 1" by (cases s) (simp_all add: chunk_def)
  then show ?thesis by (simp add: blocks_def)
qed

text \<open>The states of the example, in a form that evaluation keeps.\<close>

definition demo_fresh_store :: snapshot_store where
  "demo_fresh_store = \<lparr>st_root = [''r''], st_database = [''d''], st_names = [''a''], st_interval = double_of 600, st_min_free = 20,
     st_timeout = double_of 120, st_owner = ''me'', st_cancel = False, st_thread = No_Thread, st_started_at = None, st_active_at = None,
     st_last_success_at = None, st_error = None, st_state = Prepared, st_attempts = 0, st_successful = 0, st_removed = 0,
     st_latest = None, st_owned = [], st_pointer_sha = None\<rparr>"

definition demo_at :: "(path \<times> string) list \<Rightarrow> path list \<Rightarrow> nat \<Rightarrow> snapshot_store \<Rightarrow> snapshot_store lab" where
  "demo_at files dirs n s = \<lparr>lb_files = files, lb_dirs = dirs, lb_ticks = n, lb_store = s\<rparr>"

lemma demo_at_fields:
  "lb_files (demo_at f d n s) = f" "lb_dirs (demo_at f d n s) = d" "lb_ticks (demo_at f d n s) = n" "lb_store (demo_at f d n s) = s"
  "(demo_at f d n s)\<lparr>lb_files := f'\<rparr> = demo_at f' d n s" "(demo_at f d n s)\<lparr>lb_dirs := d'\<rparr> = demo_at f d' n s"
  "(demo_at f d n s)\<lparr>lb_ticks := n'\<rparr> = demo_at f d n' s" "(demo_at f d n s)\<lparr>lb_store := s'\<rparr> = demo_at f d n s'"
  by (simp_all add: demo_at_def)

lemma demo_world_fields:
  "wd_fault demo_snap_world n = None" "\<not> wd_links demo_snap_world p" "wd_health demo_snap_world n = None" "wd_sha demo_snap_world t = t"
  "wd_dumps demo_snap_world = demo_dumps" "wd_loads demo_snap_world = demo_loads" "sw_now demo_snap_world n = 0" "\<not> sw_cancelled demo_snap_world n"
  "sw_free demo_snap_world n = Some 100" "sw_token demo_snap_world n = ''1''" "sw_stamp demo_snap_world n = []" "sw_iso demo_snap_world n = []"
  "sw_backup demo_snap_world n = \<lparr>bk_polls = 0, bk_copy = ''x'', bk_done = True\<rparr>" "sw_validate demo_snap_world t ns = Inr (Some 7)"
  "sw_polls demo_snap_world n = 0"
  by (simp_all add: demo_snap_world_def)

lemmas demo_world = demo_world_fields demo_dumps_def demo_loads_def

lemma demo_deadline: "0 < double_of (double_of 120)" by (simp add: double_of_pos)

lemmas action_simps = refuse_unless_def act_then_def act_require_def act_return_def act_get_def act_store_def observe_def io_def Let_def

lemmas file_simps = checked_path_def present_def file_at_def dir_at_def make_dir_def create_def set_file_def write_exclusive_def unlink_def drop_file_def read_bytes_def hash_file_def

lemma demo_new_result: "demo_new = (Inr (), demo_at [([''r'', ''store-owner.json''], ''O''), ([''d''], ''x'')] [[''r''], []] 2 demo_fresh_store)"
  by (simp add: demo_new_def new_store_def demo_world demo_disk_def positive_seconds_def too_large_def action_simps file_simps
   marker_json_def json_field_def lower_def lower_char_def code_point_def demo_fresh_store_def demo_at_def)

abbreviation demo_bounded :: "unit snap_act" where
  "demo_bounded \<equiv> capture_health demo_snap_world (health_of_world demo_snap_world) (double_of (double_of 120))"

lemma demo_bounded_ok: "\<not> st_cancel s \<Longrightarrow> st_min_free s = 20 \<Longrightarrow> demo_bounded (demo_at f d n s) = (Inr (), demo_at f d (n + 8) s)"
  by (simp add: capture_health_def health_of_world_def still_wanted_def read_cancel_def action_simps given_and_def demo_world demo_deadline demo_at_fields)

lemma demo_blocks: "blocks ''x'' = 2" "blocks ''M'' = 2" "length ''x'' \<le> chunk" "Suc 0 \<le> chunk" "replicate 2 () = [(), ()]"
  subgoal by (rule blocks_short) simp_all
  subgoal by (rule blocks_short) simp_all
  subgoal by (simp add: chunk_def)
  subgoal by (simp add: chunk_def)
  subgoal by (simp add: numeral_2_eq_2)
  done

definition demo_ready :: "snapshot_store \<Rightarrow> bool" where
  "demo_ready s \<longleftrightarrow> st_root s = [''r''] \<and> st_database s = [''d''] \<and> \<not> st_cancel s \<and> st_min_free s = 20 \<and> st_owner s = ''me'' \<and>
     st_names s = [''a''] \<and> st_latest s = None \<and> st_owned s = [] \<and> st_pointer_sha s = None"

definition demo_base :: "(path \<times> string) list" where
  "demo_base = [([''r'', ''store-owner.json''], ''O''), ([''d''], ''x'')]"

lemma demo_readyD: "demo_ready s \<Longrightarrow> st_root s = [''r'']" "demo_ready s \<Longrightarrow> st_database s = [''d'']" "demo_ready s \<Longrightarrow> \<not> st_cancel s"
  "demo_ready s \<Longrightarrow> st_min_free s = 20" "demo_ready s \<Longrightarrow> st_owner s = ''me''" "demo_ready s \<Longrightarrow> st_names s = [''a'']"
  "demo_ready s \<Longrightarrow> st_latest s = None" "demo_ready s \<Longrightarrow> st_owned s = []" "demo_ready s \<Longrightarrow> st_pointer_sha s = None"
  by (simp_all add: demo_ready_def)

definition demo_copied :: "(path \<times> string) list" where
  "demo_copied = ([''r'', ''.pending-1'', ''database.db''], ''x'') # ([''r'', ''.pending-1'', ''INCOMPLETE.json''], ''O'') # demo_base"
definition demo_snapshot :: snapshot where
  "demo_snapshot = \<lparr>sn_owner = ''me'', sn_directory = ''snapshot-1'', sn_database_sha256 = ''x'', sn_size = 1, sn_pairs = 7, sn_image_count = 1, sn_created_at = [], sn_reason = ''a'',
  sn_manifest_sha256 = ''M''\<rparr>"

lemmas demo_json = incomplete_json_def snapshot_manifest_json_def snapshot_items_def done_json_def pointer_json_def json_field_def demo_dumps_def demo_loads_def

lemma demo_prepared: "demo_ready s \<Longrightarrow> \<exists>k. prepare_copy demo_snap_world ''a'' demo_bounded (demo_at demo_base [[''r''], []] n s) =
  (Inr ''1'', demo_at demo_copied [[''r'', ''.pending-1''], [''r''], []] k s)"
  by (rule exI, simp add: prepare_copy_def run_backup_def required_bytes_def size_at_def Let_def demo_json action_simps file_simps demo_at_fields demo_bounded_ok given_and_def demo_world_fields demo_readyD demo_copied_def demo_base_def)

lemma demo_described: "demo_ready s \<Longrightarrow> \<exists>k. describe_copy demo_snap_world ''a'' demo_bounded ''1'' (demo_at demo_copied [[''r'', ''.pending-1''], [''r''], []] n s) =
  (Inr demo_snapshot, demo_at demo_copied [[''r'', ''.pending-1''], [''r''], []] k s)"
  by (rule exI, simp add: describe_copy_def validate_copy_def copy_record_def demo_blocks demo_json action_simps file_simps demo_at_fields demo_bounded_ok given_and_def demo_world_fields demo_readyD demo_copied_def demo_base_def demo_snapshot_def)

definition demo_sealed :: "string \<Rightarrow> (path \<times> string) list" where
  "demo_sealed d = ([''r'', d, ''DONE.json''], ''D'') # ([''r'', d, ''snapshot-manifest.json''], ''M'') # ([''r'', d, ''database.db''], ''x'') # demo_base"
lemma demo_seals: "demo_ready s \<Longrightarrow> \<exists>k. write_seals demo_snap_world demo_bounded ''1'' demo_snapshot (demo_at demo_copied [[''r'', ''.pending-1''], [''r''], []] n s) =
  (Inr (), demo_at (demo_sealed ''.pending-1'') [[''r'', ''.pending-1''], [''r''], []] k s)"
  by (rule exI, simp add: write_seals_def demo_blocks demo_json action_simps file_simps demo_at_fields demo_bounded_ok given_and_def demo_world_fields demo_readyD demo_copied_def demo_base_def demo_snapshot_def demo_sealed_def)

lemma demo_completed: "demo_ready s \<Longrightarrow> \<exists>k. complete_copy demo_snap_world ''1'' demo_snapshot (demo_at (demo_sealed ''.pending-1'') [[''r'', ''.pending-1''], [''r''], []] n s) =
  (Inr (), demo_at (demo_sealed ''snapshot-1'') [[''r'', ''snapshot-1''], [''r''], []] k s)"
  by (rule exI, simp add: complete_copy_def rename_dir_def moved_def demo_json action_simps file_simps demo_at_fields demo_world_fields demo_readyD demo_base_def demo_snapshot_def demo_sealed_def)

lemma demo_names: "set (names_in (demo_at (demo_sealed ''snapshot-1'') [[''r'', ''snapshot-1''], [''r''], []] n s) [''r'', ''snapshot-1'']) =
    {''DONE.json'', ''snapshot-manifest.json'', ''database.db''}"
proof -
  have "names_in (demo_at (demo_sealed ''snapshot-1'') [[''r'', ''snapshot-1''], [''r''], []] n s) [''r'', ''snapshot-1''] =
      [''DONE.json'', ''snapshot-manifest.json'', ''database.db'']"
    by (simp add: names_in_def demo_at_fields demo_sealed_def demo_base_def)
  then show ?thesis by simp
qed

lemma demo_published: "demo_ready s \<Longrightarrow> \<exists>k. publish_copy demo_snap_world demo_bounded ''1'' demo_snapshot (demo_at (demo_sealed ''snapshot-1'') [[''r'', ''snapshot-1''], [''r''], []] n s) =
  (Inr (), demo_at (([''r'', ''latest-valid.json''], ''M'') # demo_sealed ''snapshot-1'') [[''r'', ''snapshot-1''], [''r''], []] k
    (s\<lparr>st_pointer_sha := Some ''M'', st_latest := Some demo_snapshot, st_owned := [demo_snapshot], st_last_success_at := Some 0, st_successful := Suc (st_successful s)\<rparr>))"
  by (rule exI, simp add: publish_copy_def validate_owned_def read_object_def snapshot_files_def demo_names [unfolded demo_sealed_def demo_base_def] replace_pointer_def replace_file_def demo_blocks insert_commute demo_json action_simps file_simps demo_at_fields demo_bounded_ok demo_world_fields demo_readyD demo_base_def demo_snapshot_def demo_sealed_def)
lemma demo_captured: "\<exists>r n. capture demo_snap_world ''a'' (health_of_world demo_snap_world) (snd demo_new) = (Inr n, r) \<and> st_latest (lb_store r) = Some demo_snapshot"
proof -
  let ?s = "demo_fresh_store\<lparr>st_active_at := Some 0, st_attempts := 1\<rparr>"
  have s: "demo_ready ?s" by (simp add: demo_ready_def demo_fresh_store_def)
  obtain k1 where 1: "prepare_copy demo_snap_world ''a'' demo_bounded (demo_at demo_base [[''r''], []] 3 ?s) =
      (Inr ''1'', demo_at demo_copied [[''r'', ''.pending-1''], [''r''], []] k1 ?s)" using demo_prepared [OF s] by blast
  obtain k2 where 2: "describe_copy demo_snap_world ''a'' demo_bounded ''1'' (demo_at demo_copied [[''r'', ''.pending-1''], [''r''], []] k1 ?s) =
      (Inr demo_snapshot, demo_at demo_copied [[''r'', ''.pending-1''], [''r''], []] k2 ?s)" using demo_described [OF s] by blast
  obtain k3 where 3: "write_seals demo_snap_world demo_bounded ''1'' demo_snapshot (demo_at demo_copied [[''r'', ''.pending-1''], [''r''], []] k2 ?s) =
      (Inr (), demo_at (demo_sealed ''.pending-1'') [[''r'', ''.pending-1''], [''r''], []] k3 ?s)" using demo_seals [OF s] by blast
  obtain k4 where 4: "complete_copy demo_snap_world ''1'' demo_snapshot (demo_at (demo_sealed ''.pending-1'') [[''r'', ''.pending-1''], [''r''], []] k3 ?s) =
      (Inr (), demo_at (demo_sealed ''snapshot-1'') [[''r'', ''snapshot-1''], [''r''], []] k4 ?s)" using demo_completed [OF s] by blast
  obtain k5 s' where 5: "publish_copy demo_snap_world demo_bounded ''1'' demo_snapshot (demo_at (demo_sealed ''snapshot-1'') [[''r'', ''snapshot-1''], [''r''], []] k4 ?s) =
      (Inr (), demo_at (([''r'', ''latest-valid.json''], ''M'') # demo_sealed ''snapshot-1'') [[''r'', ''snapshot-1''], [''r''], []] k5 s')"
    and s': "st_latest s' = Some demo_snapshot" "st_owned s' = [demo_snapshot]" using demo_published [OF s, of k4] by fastforce
  have "st_timeout demo_fresh_store = double_of 120" "st_attempts demo_fresh_store = 0" by (simp_all add: demo_fresh_store_def)
  then show ?thesis
    using 1 2 3 4 5 s' by (simp add: demo_new_result capture_def action_simps demo_at_fields demo_world_fields demo_base_def [symmetric] retain_two_def)
qed
theorem latest_snapshot_is_recoverable_witness:
  "\<exists>r n. capture demo_snap_world ''a'' (health_of_world demo_snap_world) (snd demo_new) = (Inr n, r) \<and>
     recoverable demo_snap_world r n \<and> sn_pairs n = 7"
proof -
  obtain r n where run: "capture demo_snap_world ''a'' (health_of_world demo_snap_world) (snd demo_new) = (Inr n, r)"
    and latest: "st_latest (lb_store r) = Some demo_snapshot" using demo_captured by blast
  have new: "new_store demo_snap_world [''r''] [''d''] [''a''] (JInt 600) 20 (JInt 120) ''me'' demo_disk = (Inr (), snd demo_new)"
    using demo_new_result unfolding demo_new_def by simp
  have free: "free_place demo_disk [''r'']" by (auto simp: free_place_def present_def file_at_def dir_at_def demo_disk_def)
  have "st_latest (lb_store r) = Some n \<and> recoverable demo_snap_world r n"
    using latest_snapshot_is_recoverable [OF new free, of "snd demo_new" "[]"] run by (simp add: run_store_def)
  then show ?thesis using run latest by (auto simp: demo_snapshot_def)
qed

end
