(* ===== verification/Spec2Isabelle.thy ===== *)
theory Spec2Isabelle
  imports Queue_Theorems Rate_Limit Transfer_Theorems Operational_Settings Upload_Theorems Auth_Registration Auth_Lockout Auth_Access Admin Retention_Theorems
    Worker_Theorems Queue_Refinement Job_Results Managed_Process Re3d_Steps Evaluation_Theorems Simulation_Theorems
    Real_Theorems Auth_Maintenance Monitoring_Theorems Development_Theorems Auth_Mail Snapshot_Theorems
begin

text \<open>
  Verification of the backend of the Re3D task platform.

  The platform takes images from its users, queues a reconstruction job, lets a worker run the Re3D pipeline on
  one of two resources, and hands out the results. The development models the Python code under
  \<^verbatim>\<open>src/backend\<close> from the database up to the services. The code keeps its state in four
  places, and the model has one value for each: the rows of the database (a record of lists of rows, theory
  \<open>Models\<close>), the files of a task or of the upload directory, the journal of a task (one of its files), and
  the process that a worker supervises. What other people's code does is an argument: hashes, tokens, the
  decoders of JSON and of images, JSON Schema, Git, the clock, \<^verbatim>\<open>uuid4\<close>, failing writes, free disk
  space. A theorem that relies on such an argument has a hypothesis for it and an example that satisfies it.

  Conventions. A \<^verbatim>\<open>with sessions.begin()\<close> block is one atomic step on the database, which is
  what the row locks and the serial transactions of PostgreSQL give; a call that fails leaves the database as it
  was, unless the code commits first. A call returns \<open>Inl\<close> of an error or \<open>Inr\<close> of a value together with the
  state after it. Datetimes are whole microseconds, Python's integers are \<open>int\<close>, its floats are rationals
  rounded to the binary64 format (\<open>Py_Float\<close>, \<open>Py_Number\<close>), strings are lists of characters, paths are lists
  of components on POSIX. Loops that need not end are \<open>partial_function\<close>s, and that they end is proved.

  The foundations.
  \<^item> \<open>Prelude\<close>: outcomes, transactions, keyed rows, and the interfaces \<open>row_store\<close>, \<open>invariant_system\<close> and
    \<open>history_system\<close>, its extension by a preorder, which the contracts of the components interpret. Two more
    interfaces stand where they are used: \<open>fenced_call\<close>, a queue call under a claim (\<open>Queue_Properties\<close>), and
    \<open>attempt_limiter\<close>, a limit of attempts (\<open>Auth_Limits\<close>).
  \<^item> \<open>Py_Float\<close>, \<open>Py_Number\<close>, \<open>Py_Uuid\<close>, \<open>Text\<close>, \<open>Json_Values\<close>: what Python computes with floats, UUIDs,
    numerals and decoded JSON. \<open>Unary_Codec\<close> is the JSON codec of the examples.
  \<^item> \<open>Environment\<close> and \<open>Operational_Settings\<close>: \<^verbatim>\<open>backend/environment.py\<close> and the settings that
    are read with it. Outside development a setting is given explicitly, and what is constructed is in bounds.
  \<^item> \<open>Models\<close>: \<^verbatim>\<open>backend/db/models.py\<close>, one record per table with its check constraints.

  The job queue, \<^verbatim>\<open>backend/db\<close>.
  \<^item> \<open>State_Machine\<close>: statuses and the transition table of \<^verbatim>\<open>state_machine.py\<close>; the table is the
    lifecycle that the documentation draws.
  \<^item> \<open>Job_Queue\<close>: every method of \<^verbatim>\<open>queue.py\<close>. \<open>Queue_Contract\<close> states the calls as a labelled step
    relation with its invariant; \<open>Queue_Properties\<close> and \<open>Queue_Theorems\<close> have the properties over all runs: a
    running job is held by exactly one lease, a superseded claim is dead, claims follow priority and age, an
    expired lease never stalls a resource, histories only move forward. \<open>Queue_Refinement\<close> abstracts leases,
    clocks and versions away and shows that every call is a step of a queue with three kinds of jobs.
  \<^item> \<open>Worker\<close> and \<open>Worker_Theorems\<close>: both workers of \<^verbatim>\<open>backend/worker/queued.py\<close> as sequences of
    queue calls, journal appends and calls of the pipeline, among other users of the queue. What a worker
    reports is what the queue recorded. \<open>Disk_Guard\<close>: \<^verbatim>\<open>disk_guard.py\<close> and its thread.
  \<^item> \<open>Retention\<close> and \<open>Retention_Theorems\<close>: the cleaners of \<^verbatim>\<open>backend/jobs\<close> with rows and files;
    only due data is removed, and what the rows say was cleaned is gone.

  The tasks, \<^verbatim>\<open>backend/re3d_adapter\<close>, \<^verbatim>\<open>backend/evaluation\<close> and \<^verbatim>\<open>backend/jobs\<close>.
  \<^item> \<open>Task_Files\<close>: paths, contracts, atomic writes, and the check of a task's input.
  \<^item> \<open>Event_Journal\<close>: the append-only journal; what was appended is read back after a crash in a write.
  \<^item> \<open>Managed_Process\<close>: the supervised process; a run ends once its time limit has passed and has then seen the
    end of its process, or raises the error that the process outlived \<^verbatim>\<open>SIGKILL\<close>.
  \<^item> \<open>Re3d_Steps\<close>, \<open>Real_Pipeline\<close>, \<open>Real_Theorems\<close>: \<^verbatim>\<open>real.py\<close>, from the lines that Re3D prints to
    the result. What a run builds passes the checks that a later run makes of an existing result.
  \<^item> \<open>Simulation_Runner\<close>, \<open>Simulation_Steps\<close>, \<open>Simulation_Faults\<close>, \<open>Simulation_Theorems\<close>:
    \<^verbatim>\<open>simulation.py\<close>. Any write may fail, any append may be torn, any run may stop after a branch. What is
    left is finished by a later run and then reused, or refused for one of two reasons: a torn last line of the
    journal, or a file of a branch that no event records.
  \<^item> \<open>Evaluation\<close> and \<open>Evaluation_Theorems\<close>: the two evaluators; the overall status is the worst one, and a
    report that is reused belongs to the result that is there.
  \<^item> \<open>Development_Jobs\<close> and \<open>Development_Theorems\<close>: \<^verbatim>\<open>development.py\<close>; a job is created whole, with a task
    that the simulation runner accepts, or not at all.
  \<^item> \<open>Job_Results\<close>: \<^verbatim>\<open>details.py\<close> and \<^verbatim>\<open>artifacts.py\<close>; a download is an authentic file of a job
    that the caller owns.

  Users and their limits.
  \<^item> \<open>Uploads\<close>, \<open>Quota\<close>, \<open>Upload_Contract\<close>, \<open>Upload_Theorems\<close>: \<^verbatim>\<open>backend/uploads\<close> and the
    submission policy; each call is a sequence of six database steps, their invariant keeps counters and quota.
  \<^item> \<open>Transfers\<close>, \<open>Transfer_Theorems\<close>, \<open>Rate_Limit\<close>: the limits on transfers and requests as bounds over runs.
  \<^item> \<open>Auth_Security\<close>, \<open>Auth_Limits\<close>, \<open>Auth_Service\<close>, \<open>Auth_Contract\<close>, \<open>Auth_Theorems\<close>,
    \<open>Auth_Registration\<close>, \<open>Auth_Lockout\<close>, \<open>Auth_Access\<close>: \<^verbatim>\<open>backend/auth\<close>. Registrations and logins
    are several transactions each, and runs interleave these with all other calls: a login is checked, its
    password is compared outside any transaction, and its failure or success is recorded later. Families of
    refresh sessions are chains of replacements with one live end, a token works once, registrations are bounded
    for each name, email and address, guesses of passwords are bounded up to the attempts in flight (and exceed
    the limit with them), a locked account stays locked. \<open>Auth_Maintenance\<close>: the removal
    of old rows, which no answer of these limits shows. \<open>Ip_Address\<close>, \<open>Client_Address\<close>: which address a request
    counts for; a client outside the trusted networks cannot choose it through X-Forwarded-For, one inside can. \<open>Deployment_Settings\<close>, \<open>Auth_Mail\<close>: the
    settings as they are read, and mail; a restricted deployment stays on its host, production mail is encrypted.
  \<^item> \<open>Resource_Readers\<close>, \<open>Resource_Monitor\<close>, \<open>Storage_Calibration\<close>, \<open>Monitoring_Theorems\<close>:
    \<^verbatim>\<open>backend/monitoring\<close>. The walk over a task's directory counts each file once, the report never refuses
    what the monitor wrote, and its recommendation covers every peak it saw.
  \<^item> \<open>Experiment_Files\<close>, \<open>Snapshot_Store\<close>, \<open>Snapshot_Theorems\<close>: the snapshots of \<^verbatim>\<open>backend/experiments\<close>, with
    every operation on a file and its failure; the snapshot that the pointer names can be recovered after any crash.
  \<^item> \<open>Admin\<close>: roles and audit pages; an administrator always remains.
  Not modelled: the HTTP routes of \<^verbatim>\<open>apps/api\<close>, which parse requests and pass them to these services; the
  command lines of \<^verbatim>\<open>apps/maintenance\<close> and \<^verbatim>\<open>apps/worker\<close>; the
  experiment tools other than the snapshot store; database migrations and the configuration of engines; the web
  application. Within the modelled parts: the lengths of string columns and the width of integer columns, the
  creation of directories, the caching of schemas, and the branches for Windows.
\<close>

end
